(* ===== verification/Prelude.thy ===== *)
theory Prelude
  imports Main "HOL-Library.Word"
begin

text \<open>
  Shared vocabulary of the development.

    \<^item> Fallible Rust code: a value of type \<open>Result<A, E>\<close> is a value of \<open>'e + 'a\<close>,
      \<open>Inl\<close> the error.  The operator \<open>?\<close> is \<open>rbind\<close>, \<open>ok_or\<close>, \<open>map_err\<close> and the
      early-return loop \<open>try_each\<close> are the operations of that name.
    \<^item> Machine integers: \<open>u8\<close>, \<open>u16\<close>, \<open>u32\<close> and \<open>u64\<close> are words of their width; \<open>checked_add\<close>
      is the overflow-checked addition of the Rust core library; \<open>i64\<close> is an \<open>int\<close>.
    \<^item> Strings: a Rust \<open>str\<close> is the list of its Unicode scalar values, with its
      UTF-8 length (\<open>str::len\<close>), \<open>trim\<close> (the Unicode \<open>White_Space\<close> property) and
      the ASCII classes the code asks for.
    \<^item> \<open>BTreeMap\<close> and \<open>BTreeSet\<close>: a type of strictly sorted association lists, with the
      operations the program uses, an extensional equality, and the locale
      \<open>ordered_map\<close> that states what the rest of the development relies on.
\<close>

section \<open>Collections of rewrite rules\<close>

named_theorems result_simps \<open>inversion rules for results\<close>
named_theorems bmap_simps \<open>rules that evaluate ordered maps\<close>

section \<open>Results\<close>

definition rbind :: "('e + 'a) \<Rightarrow> ('a \<Rightarrow> 'e + 'b) \<Rightarrow> 'e + 'b" where
  "rbind m f = (case m of Inl e \<Rightarrow> Inl e | Inr x \<Rightarrow> f x)"

definition ok_or :: "'a option \<Rightarrow> 'e \<Rightarrow> 'e + 'a" where
  "ok_or m e = (case m of None \<Rightarrow> Inl e | Some x \<Rightarrow> Inr x)"

definition map_err :: "('e \<Rightarrow> 'f) \<Rightarrow> ('e + 'a) \<Rightarrow> 'f + 'a" where
  "map_err f m = (case m of Inl e \<Rightarrow> Inl (f e) | Inr x \<Rightarrow> Inr x)"

definition map_ok :: "('a \<Rightarrow> 'b) \<Rightarrow> ('e + 'a) \<Rightarrow> 'e + 'b" where
  "map_ok f m = (case m of Inl e \<Rightarrow> Inl e | Inr x \<Rightarrow> Inr (f x))"

definition is_ok :: "('e + 'a) \<Rightarrow> bool" where
  "is_ok m = (case m of Inl e \<Rightarrow> False | Inr x \<Rightarrow> True)"

definition is_some :: "'a option \<Rightarrow> bool" where
  "is_some m = (case m of None \<Rightarrow> False | Some x \<Rightarrow> True)"

fun try_each :: "('a \<Rightarrow> 'e + unit) \<Rightarrow> 'a list \<Rightarrow> 'e + unit" where
  "try_each f [] = Inr ()"
| "try_each f (x # xs) = rbind (f x) (\<lambda>_. try_each f xs)"

fun traverse :: "('a \<Rightarrow> 'e + 'b) \<Rightarrow> 'a list \<Rightarrow> 'e + 'b list" where
  "traverse f [] = Inr []"
| "traverse f (x # xs) = rbind (f x) (\<lambda>y. rbind (traverse f xs) (\<lambda>ys. Inr (y # ys)))"

lemma rbind_simps [simp]:
  "rbind (Inl e) f = Inl e"
  "rbind (Inr x) f = f x"
  by (simp_all add: rbind_def)

lemma rbind_Inr_iff [result_simps]:
  "rbind m f = Inr y \<longleftrightarrow> (\<exists>x. m = Inr x \<and> f x = Inr y)"
  by (cases m) auto

lemma rbind_Inl_iff [result_simps]:
  "rbind m f = Inl e \<longleftrightarrow> m = Inl e \<or> (\<exists>x. m = Inr x \<and> f x = Inl e)"
  by (cases m) auto

lemma rbind_assoc: "rbind (rbind m f) g = rbind m (\<lambda>x. rbind (f x) g)"
  by (cases m) simp_all

lemma ok_or_simps [simp]:
  "ok_or None e = Inl e"
  "ok_or (Some x) e = Inr x"
  by (simp_all add: ok_or_def)

lemma ok_or_Inr_iff [result_simps]: "ok_or m e = Inr x \<longleftrightarrow> m = Some x"
  by (cases m) auto

lemma ok_or_Inl_iff [result_simps]: "ok_or m e = Inl e' \<longleftrightarrow> m = None \<and> e' = e"
  by (cases m) auto

lemma map_err_simps [simp]:
  "map_err f (Inl e) = Inl (f e)"
  "map_err f (Inr x) = Inr x"
  by (simp_all add: map_err_def)

lemma map_err_Inr_iff [result_simps]: "map_err f m = Inr x \<longleftrightarrow> m = Inr x"
  by (cases m) auto

lemma map_err_Inl_iff [result_simps]: "map_err f m = Inl e \<longleftrightarrow> (\<exists>e'. m = Inl e' \<and> e = f e')"
  by (cases m) auto

lemma map_ok_simps [simp]:
  "map_ok f (Inl e) = Inl e"
  "map_ok f (Inr x) = Inr (f x)"
  by (simp_all add: map_ok_def)

lemma map_ok_Inr_iff [result_simps]: "map_ok f m = Inr y \<longleftrightarrow> (\<exists>x. m = Inr x \<and> y = f x)"
  by (cases m) auto

lemma is_ok_simps [simp]: "\<not> is_ok (Inl e)" "is_ok (Inr x)"
  by (simp_all add: is_ok_def)

lemma is_ok_iff: "is_ok m \<longleftrightarrow> (\<exists>x. m = Inr x)"
  by (cases m) auto

lemma is_some_simps [simp]: "\<not> is_some None" "is_some (Some x)"
  by (simp_all add: is_some_def)

lemma is_some_iff: "is_some m \<longleftrightarrow> m \<noteq> None"
  by (cases m) auto

lemma if_Inl_eq_Inr_iff [result_simps]:
  "(if b then Inl e else m) = Inr x \<longleftrightarrow> \<not> b \<and> m = Inr x"
  by simp

lemma try_each_Inr_iff [result_simps]:
  "try_each f xs = Inr u \<longleftrightarrow> (\<forall>x\<in>set xs. f x = Inr ())"
  by (induction xs) (auto simp: result_simps)

lemma traverse_length: "traverse f xs = Inr ys \<Longrightarrow> length ys = length xs"
  by (induction xs arbitrary: ys) (auto simp: result_simps)

section \<open>Machine integers\<close>

type_synonym u8 = "8 word"
type_synonym u16 = "16 word"
type_synonym u32 = "32 word"
type_synonym u64 = "64 word"

definition checked_add :: "'a::len word \<Rightarrow> 'a word \<Rightarrow> 'a word option" where
  "checked_add x y = (if unat x + unat y < 2 ^ LENGTH('a) then Some (x + y) else None)"

definition i64_max :: int where "i64_max = 9223372036854775807"
definition i64_min :: int where "i64_min = - 9223372036854775808"

definition saturating_add_i64 :: "int \<Rightarrow> int \<Rightarrow> int" where
  "saturating_add_i64 x y = max i64_min (min i64_max (x + y))"

lemma checked_add_SomeD:
  assumes "checked_add x y = Some (z :: 'a::len word)"
  shows "unat z = unat x + unat y"
  using assms by (auto simp: checked_add_def unat_add_lem split: if_splits)

lemma checked_add_one_less:
  assumes "checked_add x 1 = Some (z :: 64 word)"
  shows "x < z"
  using checked_add_SomeD[OF assms] by (simp add: word_less_nat_alt)

lemma checked_add_one_iff:
  "checked_add x 1 = Some (z :: 64 word) \<longleftrightarrow> x \<noteq> - 1 \<and> z = x + 1"
proof -
  have "unat x < 2 ^ 64"
    using unsigned_less[of x, where 'a = nat] by simp
  moreover have "x = - 1 \<longleftrightarrow> unat x = 2 ^ 64 - 1"
    by (simp add: word_unat_eq_iff unsigned_minus_1_eq_mask mask_eq_exp_minus_1)
  ultimately have "unat x + 1 < 2 ^ 64 \<longleftrightarrow> x \<noteq> - 1"
    by linarith
  then show ?thesis by (auto simp: checked_add_def)
qed

section \<open>Strings\<close>

text \<open>
  A Rust \<open>char\<close> is its Unicode scalar value and a Rust \<open>str\<close> the list of its chars.  A path is
  kept as the Unicode string of its components: the code runs its durable checks on
  paths only through \<open>as_os_str().is_empty()\<close>, a search for NUL and its UTF-8 length.
\<close>

type_synonym rchar = nat
type_synonym rstr = "rchar list"
type_synonym path = rstr

definition lit :: "string \<Rightarrow> rstr" where
  "lit s = map of_char s"

definition char_utf8_len :: "rchar \<Rightarrow> nat" where
  "char_utf8_len c = (if c < 128 then 1 else if c < 2048 then 2 else if c < 65536 then 3 else 4)"

definition str_len :: "rstr \<Rightarrow> nat" where
  "str_len s = sum_list (map char_utf8_len s)"

definition is_whitespace :: "rchar \<Rightarrow> bool" where
  "is_whitespace c \<longleftrightarrow> 9 \<le> c \<and> c \<le> 13 \<or> c = 32 \<or> c = 133 \<or> c = 160 \<or> c = 5760
     \<or> 8192 \<le> c \<and> c \<le> 8202 \<or> c = 8232 \<or> c = 8233 \<or> c = 8239 \<or> c = 8287 \<or> c = 12288"

definition is_control :: "rchar \<Rightarrow> bool" where
  "is_control c \<longleftrightarrow> c < 32 \<or> 127 \<le> c \<and> c \<le> 159"

definition is_ascii_digit :: "rchar \<Rightarrow> bool" where
  "is_ascii_digit c \<longleftrightarrow> 48 \<le> c \<and> c \<le> 57"

definition is_ascii_alphabetic :: "rchar \<Rightarrow> bool" where
  "is_ascii_alphabetic c \<longleftrightarrow> 65 \<le> c \<and> c \<le> 90 \<or> 97 \<le> c \<and> c \<le> 122"

definition is_ascii_alphanumeric :: "rchar \<Rightarrow> bool" where
  "is_ascii_alphanumeric c \<longleftrightarrow> is_ascii_digit c \<or> is_ascii_alphabetic c"

definition is_lower_hex :: "rchar \<Rightarrow> bool" where
  "is_lower_hex c \<longleftrightarrow> is_ascii_digit c \<or> 97 \<le> c \<and> c \<le> 102"

definition trim :: "rstr \<Rightarrow> rstr" where
  "trim s = rev (dropWhile is_whitespace (rev (dropWhile is_whitespace s)))"

definition strip_prefix :: "rstr \<Rightarrow> rstr \<Rightarrow> rstr option" where
  "strip_prefix p s = (if take (length p) s = p then Some (drop (length p) s) else None)"

definition starts_with :: "rstr \<Rightarrow> rstr \<Rightarrow> bool" where
  "starts_with p s \<longleftrightarrow> take (length p) s = p"

definition has_nul :: "rstr \<Rightarrow> bool" where
  "has_nul s \<longleftrightarrow> 0 \<in> set s"

lemma lit_inject: "lit s = lit t \<longleftrightarrow> s = t"
  by (simp add: lit_def inj_map_eq_map inj_of_char)

lemma str_len_simps [simp]:
  "str_len [] = 0"
  "str_len (c # s) = char_utf8_len c + str_len s"
  "str_len (s @ t) = str_len s + str_len t"
  by (simp_all add: str_len_def)

lemma char_utf8_len_pos [simp]: "0 < char_utf8_len c"
  by (simp add: char_utf8_len_def)

lemma length_le_str_len: "length s \<le> str_len s"
proof (induction s)
  case (Cons c s)
  then show ?case using char_utf8_len_pos[of c] by (simp add: Suc_le_eq del: char_utf8_len_pos)
qed simp

lemma str_len_eq_0_iff [simp]: "str_len s = 0 \<longleftrightarrow> s = []"
  by (cases s) simp_all

lemma str_len_ascii: "\<forall>c\<in>set s. c < 128 \<Longrightarrow> str_len s = length s"
  by (induction s) (simp_all add: char_utf8_len_def)

lemma trim_Nil [simp]: "trim [] = []"
  by (simp add: trim_def)

lemma dropWhile_id_hd: "\<not> P (hd xs) \<Longrightarrow> dropWhile P xs = xs"
  by (cases xs) simp_all

lemma dropWhile_rev_hd:
  assumes "dropWhile P s \<noteq> []"
  shows "dropWhile P (rev (dropWhile P (rev (dropWhile P s)))) = rev (dropWhile P (rev (dropWhile P s)))"
proof -
  let ?t = "dropWhile P s"
  have hd: "\<not> P (hd ?t)" using assms hd_dropWhile by blast
  have "rev (dropWhile P (rev ?t)) \<noteq> []"
    using assms hd by (metis dropWhile_eq_Nil_conv hd_in_set rev_is_Nil_conv set_rev)
  moreover obtain u where "?t = rev (dropWhile P (rev ?t)) @ u"
    by (metis rev_append rev_rev_ident takeWhile_dropWhile_id)
  ultimately have "hd (rev (dropWhile P (rev ?t))) = hd ?t"
    by (metis hd_append2)
  with hd show ?thesis
    by (intro dropWhile_id_hd) (simp only: simp_thms)
qed

lemma trim_trim [simp]: "trim (trim s) = trim s"
proof (cases "dropWhile is_whitespace s = []")
  case True
  then have "trim s = []" unfolding trim_def by (simp del: dropWhile_eq_Nil_conv)
  then show ?thesis by simp
next
  case False
  have "dropWhile is_whitespace (dropWhile is_whitespace (rev (dropWhile is_whitespace s)))
      = dropWhile is_whitespace (rev (dropWhile is_whitespace s))"
    by (rule dropWhile_idem)
  with dropWhile_rev_hd[OF False] show ?thesis
    unfolding trim_def by (metis rev_rev_ident)
qed

lemma set_trim: "set (trim s) \<subseteq> set s"
  unfolding trim_def by (auto dest!: set_dropWhileD)

lemma str_len_trim: "str_len (trim s) \<le> str_len s"
proof -
  have drop: "str_len (dropWhile is_whitespace u) \<le> str_len u" for u
    by (induction u) auto
  have rev: "str_len (rev u) = str_len u" for u
    by (induction u) auto
  show ?thesis unfolding trim_def
    by (metis drop rev order_trans)
qed
end
