(* ===== verification/BTree_Map.thy ===== *)
theory BTree_Map
  imports Prelude
begin

text \<open>
  The ordered maps and sets of the Rust standard library.  A \<open>BTreeMap<K, V>\<close> is a
  strictly sorted association list, so that \<open>len\<close>, \<open>keys\<close>, \<open>values\<close> and the order of an
  iteration are what the code sees; two maps are equal exactly when every lookup agrees.
\<close>

section \<open>Sorted association lists\<close>

fun ins_assoc :: "'k::linorder \<Rightarrow> 'v \<Rightarrow> ('k \<times> 'v) list \<Rightarrow> ('k \<times> 'v) list" where
  "ins_assoc k v [] = [(k, v)]"
| "ins_assoc k v ((k', v') # xs) =
     (if k < k' then (k, v) # (k', v') # xs
      else if k = k' then (k, v) # xs
      else (k', v') # ins_assoc k v xs)"

abbreviation key_sorted :: "('k::linorder \<times> 'v) list \<Rightarrow> bool" where
  "key_sorted xs \<equiv> sorted_wrt (<) (map fst xs)"

lemma set_ins_assoc_keys: "fst ` set (ins_assoc k v xs) = insert k (fst ` set xs)"
  by (induction k v xs rule: ins_assoc.induct) auto

lemma key_sorted_ins_assoc: "key_sorted xs \<Longrightarrow> key_sorted (ins_assoc k v xs)"
proof (induction k v xs rule: ins_assoc.induct)
  case (2 k v k' v' xs)
  have keys: "set (map fst (ins_assoc k v xs)) = insert k (fst ` set xs)"
    using set_ins_assoc_keys[of k v xs] by simp
  show ?case using 2 keys by (auto simp: not_less_iff_gr_or_eq)
qed simp

lemma key_sorted_distinct: "key_sorted xs \<Longrightarrow> distinct (map fst xs)"
  by (simp add: strict_sorted_iff)

lemma map_of_ins_assoc:
  "map_of (ins_assoc k v xs) k' = (if k' = k then Some v else map_of xs k')"
  by (induction k v xs rule: ins_assoc.induct) auto

lemma map_of_filter_key:
  "map_of (filter (\<lambda>(k', _). k' \<noteq> k) xs) j = (if j = k then None else map_of xs j)"
  by (induction xs) auto

lemma key_sorted_filter: "key_sorted xs \<Longrightarrow> key_sorted (filter P xs)"
  by (induction xs) auto

lemma key_sorted_ext:
  assumes "key_sorted xs" "key_sorted ys" "map_of xs = map_of ys"
  shows "xs = ys"
proof (rule map_sorted_distinct_set_unique[where f = fst])
  have sets: "set xs = set ys"
    using assms map_of_inject_set key_sorted_distinct by blast
  show "set xs = set ys" by (fact sets)
  show "inj_on fst (set xs \<union> set ys)"
    using key_sorted_distinct[OF assms(1)] sets by (simp add: distinct_map)
qed (use assms in \<open>simp_all add: strict_sorted_iff\<close>)

section \<open>The type of ordered maps\<close>

typedef (overloaded) ('k, 'v) bmap = "{xs :: ('k::linorder \<times> 'v) list. key_sorted xs}"
  morphisms entries Bmap
proof
  show "[] \<in> {xs :: ('k::linorder \<times> 'v) list. key_sorted xs}" by simp
qed

setup_lifting type_definition_bmap

lift_definition bempty :: "('k::linorder, 'v) bmap" is "[]"
  by simp

lift_definition binsert :: "'k::linorder \<Rightarrow> 'v \<Rightarrow> ('k, 'v) bmap \<Rightarrow> ('k, 'v) bmap" is ins_assoc
  by (rule key_sorted_ins_assoc)

lift_definition bretain :: "('k::linorder \<Rightarrow> 'v \<Rightarrow> bool) \<Rightarrow> ('k, 'v) bmap \<Rightarrow> ('k, 'v) bmap" is
  "\<lambda>P. filter (\<lambda>(k, v). P k v)"
  by (rule key_sorted_filter)

lift_definition bmap_values :: "('v \<Rightarrow> 'w) \<Rightarrow> ('k::linorder, 'v) bmap \<Rightarrow> ('k, 'w) bmap" is
  "\<lambda>f. map (\<lambda>(k, v). (k, f v))"
  by (simp add: comp_def case_prod_unfold)

definition bremove :: "'k::linorder \<Rightarrow> ('k, 'v) bmap \<Rightarrow> ('k, 'v) bmap" where
  "bremove k = bretain (\<lambda>k' _. k' \<noteq> k)"

definition bget :: "('k::linorder, 'v) bmap \<Rightarrow> 'k \<Rightarrow> 'v option" where
  "bget m k = map_of (entries m) k"

definition bcontains :: "('k::linorder, 'v) bmap \<Rightarrow> 'k \<Rightarrow> bool" where
  "bcontains m k = is_some (bget m k)"

definition bkeys :: "('k::linorder, 'v) bmap \<Rightarrow> 'k list" where
  "bkeys m = map fst (entries m)"

definition bvalues :: "('k::linorder, 'v) bmap \<Rightarrow> 'v list" where
  "bvalues m = map snd (entries m)"

definition blen :: "('k::linorder, 'v) bmap \<Rightarrow> nat" where
  "blen m = length (entries m)"

definition bis_empty :: "('k::linorder, 'v) bmap \<Rightarrow> bool" where
  "bis_empty m = (entries m = [])"

text \<open>\<open>BTreeSet<K>\<close> is the map to unit, as in the standard library.\<close>

type_synonym 'k bset = "('k, unit) bmap"

definition bs_insert :: "'k::linorder \<Rightarrow> 'k bset \<Rightarrow> 'k bset" where
  "bs_insert k s = binsert k () s"

lemmas bmap_entries [simp, bmap_simps] =
  bempty.rep_eq binsert.rep_eq bretain.rep_eq bmap_values.rep_eq

lemma entries_sorted [simp]: "key_sorted (entries m)"
  using entries[of m] by simp

lemma bkeys_sorted [simp]: "sorted_wrt (<) (bkeys m)"
  by (simp add: bkeys_def)

lemma bkeys_distinct [simp]: "distinct (bkeys m)"
  by (simp add: bkeys_def key_sorted_distinct)

lemma bmap_eqI: "(\<And>k. bget m k = bget n k) \<Longrightarrow> m = n"
  by (metis bget_def entries_inject entries_sorted ext key_sorted_ext)

lemma bmap_eq_iff: "m = n \<longleftrightarrow> (\<forall>k. bget m k = bget n k)"
  using bmap_eqI by blast

instantiation bmap :: (linorder, equal) equal
begin
definition equal_bmap :: "('a, 'b) bmap \<Rightarrow> ('a, 'b) bmap \<Rightarrow> bool" where
  "equal_bmap m n = (entries m = entries n)"
instance
  by standard (simp add: equal_bmap_def entries_inject)
end

subsection \<open>Lookups\<close>

lemma bget_bempty [simp]: "bget bempty k = None"
  by (simp add: bget_def)

lemma bget_binsert [simp]: "bget (binsert k v m) k' = (if k' = k then Some v else bget m k')"
  by (simp add: bget_def map_of_ins_assoc)

lemma bget_bretain:
  "bget (bretain P m) k = (case bget m k of None \<Rightarrow> None | Some v \<Rightarrow> if P k v then Some v else None)"
proof -
  have "distinct (map fst xs) \<Longrightarrow>
    map_of (filter (\<lambda>(k, v). P k v) xs) k
      = (case map_of xs k of None \<Rightarrow> None | Some v \<Rightarrow> if P k v then Some v else None)" for xs
    by (induction xs) (auto split: option.splits simp: map_of_eq_None_iff image_iff)
  from this[of "entries m"] show ?thesis by (simp add: bget_def key_sorted_distinct)
qed

lemma bget_bremove [simp]: "bget (bremove k m) k' = (if k' = k then None else bget m k')"
  by (auto simp: bremove_def bget_bretain split: option.splits)

lemma bget_bmap_values [simp]: "bget (bmap_values f m) k = map_option f (bget m k)"
proof -
  have "map_of (map (\<lambda>(k, v). (k, f v)) xs) k = map_option f (map_of xs k)" for xs
    by (induction xs) auto
  then show ?thesis by (simp add: bget_def)
qed

lemma bcontains_iff: "bcontains m k \<longleftrightarrow> bget m k \<noteq> None"
  by (simp add: bcontains_def is_some_iff)

lemma bcontains_ops [simp]:
  "\<not> bcontains bempty k"
  "bcontains (binsert j v m) k \<longleftrightarrow> k = j \<or> bcontains m k"
  "bcontains (bremove j m) k \<longleftrightarrow> k \<noteq> j \<and> bcontains m k"
  "bcontains (bmap_values f m) k \<longleftrightarrow> bcontains m k"
  by (auto simp: bcontains_iff)

lemma bcontains_bs_insert [simp]: "bcontains (bs_insert j m) k \<longleftrightarrow> k = j \<or> bcontains m k"
  by (simp add: bs_insert_def)

subsection \<open>Keys, values and sizes\<close>

lemma in_entries_iff: "(k, v) \<in> set (entries m) \<longleftrightarrow> bget m k = Some v"
  by (simp add: bget_def key_sorted_distinct)

lemma set_bkeys: "set (bkeys m) = {k. bcontains m k}"
  by (auto simp: bkeys_def bcontains_iff in_entries_iff[symmetric] image_iff Bex_def)

lemma in_bkeys_iff [simp]: "k \<in> set (bkeys m) \<longleftrightarrow> bcontains m k"
  by (simp add: set_bkeys)

lemma bvalues_simps [simp]: "bvalues bempty = []" "bvalues (binsert k v bempty) = [v]"
  by (simp_all add: bvalues_def bempty.rep_eq binsert.rep_eq)

lemma set_bvalues: "set (bvalues m) = {v. \<exists>k. bget m k = Some v}"
  by (auto simp: bvalues_def image_iff Bex_def in_entries_iff[symmetric])

lemma in_bvalues_iff: "v \<in> set (bvalues m) \<longleftrightarrow> (\<exists>k. bget m k = Some v)"
  by (simp add: set_bvalues)

lemma length_bkeys [simp]: "length (bkeys m) = blen m"
  by (simp add: bkeys_def blen_def)

lemma length_bvalues [simp]: "length (bvalues m) = blen m"
  by (simp add: bvalues_def blen_def)

lemma blen_card: "blen m = card {k. bcontains m k}"
  by (metis bkeys_distinct distinct_card length_bkeys set_bkeys)

lemma finite_bcontains [simp]: "finite {k. bcontains m k}"
  by (metis List.finite_set set_bkeys)

lemma blen_bempty [simp]: "blen bempty = 0"
  by (simp add: blen_def)

lemma blen_binsert [simp]: "blen (binsert k v m) = (if bcontains m k then blen m else Suc (blen m))"
proof -
  have "{j. bcontains (binsert k v m) j} = insert k {j. bcontains m j}" by auto
  then show ?thesis by (simp add: blen_card insert_absorb)
qed

lemma blen_bs_insert [simp]: "blen (bs_insert k m) = (if bcontains m k then blen m else Suc (blen m))"
  by (simp add: bs_insert_def)

lemma blen_bretain_le: "blen (bretain P m) \<le> blen m"
  by (simp add: blen_def)

lemma blen_bremove_le [simp]: "blen (bremove k m) \<le> blen m"
  by (simp add: bremove_def blen_bretain_le)

lemma blen_bmap_values [simp]: "blen (bmap_values f m) = blen m"
  by (simp add: blen_def)

lemma bmap_order_of_updates: "k \<noteq> j \<Longrightarrow> binsert k v (binsert j w m) = binsert j w (binsert k v m)"
  by (rule bmap_eqI) auto

lemma binsert_same [simp]: "binsert k v (binsert k w m) = binsert k v m"
  by (rule bmap_eqI) auto

lemma binsert_get_id: "bget m k = Some v \<Longrightarrow> binsert k v m = m"
  by (rule bmap_eqI) auto

section \<open>What the components rely on\<close>

text \<open>
  The contract of an ordered map, as its clients use it.  \<open>keys\<close> is the order of an iteration.
\<close>

locale ordered_map =
  fixes empty :: 'm
    and get :: "'m \<Rightarrow> 'k::linorder \<Rightarrow> 'v option"
    and ins :: "'k \<Rightarrow> 'v \<Rightarrow> 'm \<Rightarrow> 'm"
    and rem :: "'k \<Rightarrow> 'm \<Rightarrow> 'm"
    and keys :: "'m \<Rightarrow> 'k list"
  assumes get_empty: "get empty k = None"
    and get_ins: "get (ins k v m) k' = (if k' = k then Some v else get m k')"
    and get_rem: "get (rem k m) k' = (if k' = k then None else get m k')"
    and keys_iff: "k \<in> set (keys m) \<longleftrightarrow> get m k \<noteq> None"
    and keys_order: "sorted_wrt (<) (keys m)"
    and map_ext: "(\<And>k. get m k = get n k) \<Longrightarrow> m = n"
begin

lemma rem_ins_fresh: "get m k = None \<Longrightarrow> rem k (ins k v m) = m"
  by (rule map_ext) (simp add: get_ins get_rem)

lemma ins_rem: "ins k v (rem k m) = ins k v m"
  by (rule map_ext) (simp add: get_ins get_rem)

lemma keys_ins: "set (keys (ins k v m)) = insert k (set (keys m))"
  by (auto simp: keys_iff get_ins split: if_splits)

lemma length_keys_ins: "length (keys (ins k v m)) = (if get m k = None then Suc (length (keys m)) else length (keys m))"
proof -
  have d: "distinct (keys n)" for n
    using keys_order strict_sorted_iff by blast
  have "length (keys n) = card (set (keys n))" for n
    using d distinct_card by metis
  then show ?thesis using keys_iff[of k m] by (simp add: keys_ins insert_absorb)
qed

lemma replay_order: "k \<noteq> j \<Longrightarrow> ins k v (ins j w m) = ins j w (ins k v m)"
  by (rule map_ext) (simp add: get_ins)

lemma same_keys_same_order: "(\<And>k. get m k = None \<longleftrightarrow> get n k = None) \<Longrightarrow> keys m = keys n"
  by (rule strict_sorted_equal) (auto simp: keys_order keys_iff)
end

interpretation btree: ordered_map bempty bget binsert bremove bkeys
  by unfold_locales (auto simp: bcontains_iff intro: bmap_eqI)

lemma bremove_binsert_fresh: "\<not> bcontains m k \<Longrightarrow> bremove k (binsert k v m) = m"
  by (simp add: btree.rem_ins_fresh bcontains_iff)
end
