(* ===== verification/Ids.thy ===== *)
theory Ids
  imports BTree_Map
begin

text \<open>
  \<open>src/domain/id.rs\<close> and \<open>src/domain/canonical.rs\<close>: the identity types of the domain and the
  rules for canonical text.

  Every identity type is one expansion of the macro \<open>define_id\<close>: a newtype around a
  UUID whose derived order is the order of its sixteen bytes, which is the order of the
  128-bit number they spell.  The phantom type argument keeps the identity types apart,
  as the Rust newtypes do.  The crate \<open>uuid\<close> is a parameter (\<open>uuid_lib\<close>).
\<close>

section \<open>Identities\<close>

datatype 'tag id = Id (uuid: "128 word")

instantiation id :: (type) linorder
begin
definition less_eq_id :: "'a id \<Rightarrow> 'a id \<Rightarrow> bool" where
  "less_eq_id x y \<longleftrightarrow> uuid x \<le> uuid y"
definition less_id :: "'a id \<Rightarrow> 'a id \<Rightarrow> bool" where
  "less_id x y \<longleftrightarrow> uuid x < uuid y"
instance
  by standard (auto simp: less_eq_id_def less_id_def id.expand)
end

lemma Id_order [simp]:
  "Id x < Id y \<longleftrightarrow> x < y"
  "Id x \<le> Id y \<longleftrightarrow> x \<le> y"
  by (simp_all add: less_id_def less_eq_id_def)

datatype environment_tag = EnvironmentTag
datatype project_tag = ProjectTag
datatype task_tag = TaskTag
datatype agent_session_tag = AgentSessionTag
datatype artifact_tag = ArtifactTag
datatype resource_tag = ResourceTag
datatype browser_context_tag = BrowserContextTag
datatype browser_tab_tag = BrowserTabTag
datatype browser_request_tag = BrowserRequestTag
datatype browser_session_tag = BrowserSessionTag
datatype client_tag = ClientTag
datatype command_tag = CommandTag
datatype operation_tag = OperationTag
datatype event_tag = EventTag
datatype turn_tag = TurnTag
datatype question_tag = QuestionTag
datatype approval_tag = ApprovalTag

type_synonym environment_id = "environment_tag id"
type_synonym project_id = "project_tag id"
type_synonym task_id = "task_tag id"
type_synonym agent_session_id = "agent_session_tag id"
type_synonym artifact_id = "artifact_tag id"
type_synonym resource_id = "resource_tag id"
type_synonym browser_context_id = "browser_context_tag id"
type_synonym browser_tab_id = "browser_tab_tag id"
type_synonym browser_request_id = "browser_request_tag id"
type_synonym browser_session_id = "browser_session_tag id"
type_synonym client_id = "client_tag id"
type_synonym command_id = "command_tag id"
type_synonym operation_id = "operation_tag id"
type_synonym event_id = "event_tag id"
type_synonym turn_id = "turn_tag id"
type_synonym question_id = "question_tag id"
type_synonym approval_id = "approval_tag id"

datatype id_error = InvalidFormat | InvalidVersion | InvalidVariant

text \<open>What \<open>id.rs\<close> calls of the crate \<open>uuid\<close>.\<close>

record uuid_lib =
  get_version_num :: "128 word \<Rightarrow> nat"
  is_rfc4122 :: "128 word \<Rightarrow> bool"
  parse_str :: "rstr \<Rightarrow> 128 word option"

definition validate_uuid_v7 :: "uuid_lib \<Rightarrow> 128 word \<Rightarrow> id_error + 128 word" where
  "validate_uuid_v7 lib u =
     (if get_version_num lib u \<noteq> 7 then Inl InvalidVersion
      else if \<not> is_rfc4122 lib u then Inl InvalidVariant
      else Inr u)"

definition try_from_uuid :: "uuid_lib \<Rightarrow> 128 word \<Rightarrow> id_error + 'a id" where
  "try_from_uuid lib u = map_ok Id (validate_uuid_v7 lib u)"

definition id_parse :: "uuid_lib \<Rightarrow> rstr \<Rightarrow> id_error + 'a id" where
  "id_parse lib s = rbind (ok_or (parse_str lib s) InvalidFormat) (try_from_uuid lib)"

definition nil_id :: "'a id" where
  "nil_id = Id 0x00000000000070008000000000000000"

definition is_nil :: "'a id \<Rightarrow> bool" where
  "is_nil i \<longleftrightarrow> uuid i = uuid (nil_id :: 'a id)"

section \<open>Configured service identities\<close>

datatype configured_service_id = ConfiguredServiceId (service_id_str: rstr)

definition MAX_CONFIGURED_SERVICE_ID_BYTES :: nat where
  "MAX_CONFIGURED_SERVICE_ID_BYTES = 64"

datatype configured_service_id_error = CsEmpty | CsTooLong | CsInvalidIdentifier

definition configured_service_id_new ::
  "rstr \<Rightarrow> configured_service_id_error + configured_service_id" where
  "configured_service_id_new value =
     (if value = [] then Inl CsEmpty
      else if str_len value > MAX_CONFIGURED_SERVICE_ID_BYTES then Inl CsTooLong
      else if starts_with (lit ''.'') value \<or> has_nul value
           \<or> \<not> list_all (\<lambda>c. is_ascii_alphanumeric c \<or> c = 45 \<or> c = 95 \<or> c = 46) value
      then Inl CsInvalidIdentifier
      else Inr (ConfiguredServiceId value))"

section \<open>Canonical text\<close>

definition MAX_SPECIALIST_TEXT_BYTES :: nat where
  "MAX_SPECIALIST_TEXT_BYTES = 256"

definition MAX_SPECIALIST_ID_REFS :: nat where
  "MAX_SPECIALIST_ID_REFS = 16"

definition canonicalize :: "rstr \<Rightarrow> rstr option" where
  "canonicalize value = (let trimmed = trim value in if trimmed = [] then None else Some trimmed)"

definition is_canonical :: "rstr \<Rightarrow> bool" where
  "is_canonical value \<longleftrightarrow> value \<noteq> [] \<and> value = trim value"

definition bounded_canonical :: "rstr \<Rightarrow> rstr option" where
  "bounded_canonical value =
     (let trimmed = trim value
      in if trimmed = [] \<or> str_len trimmed > MAX_SPECIALIST_TEXT_BYTES then None else Some trimmed)"

definition is_bounded_canonical :: "rstr \<Rightarrow> bool" where
  "is_bounded_canonical value \<longleftrightarrow> is_canonical value \<and> str_len value \<le> MAX_SPECIALIST_TEXT_BYTES"

definition optional_bounded_canonical :: "rstr option \<Rightarrow> bool" where
  "optional_bounded_canonical value =
     (case value of None \<Rightarrow> True | Some text \<Rightarrow> is_bounded_canonical text)"

definition specialist_id_refs_ok :: "nat \<Rightarrow> bool" where
  "specialist_id_refs_ok count \<longleftrightarrow> count \<le> MAX_SPECIALIST_ID_REFS"

lemma canonicalize_Some_iff: "canonicalize s = Some t \<longleftrightarrow> t = trim s \<and> is_canonical t"
  by (auto simp: canonicalize_def is_canonical_def Let_def)

lemma canonicalize_canonical: "is_canonical s \<Longrightarrow> canonicalize s = Some s"
  by (simp add: canonicalize_def is_canonical_def Let_def)

lemma bounded_canonical_Some_iff: "bounded_canonical s = Some t \<longleftrightarrow> t = trim s \<and> is_bounded_canonical t"
  by (auto simp: bounded_canonical_def is_bounded_canonical_def is_canonical_def Let_def)

lemma bounded_canonical_canonical: "is_bounded_canonical s \<Longrightarrow> bounded_canonical s = Some s"
  by (simp add: bounded_canonical_def is_bounded_canonical_def is_canonical_def Let_def)

lemma is_canonical_nonempty: "is_canonical s \<Longrightarrow> s \<noteq> []"
  by (simp add: is_canonical_def)

section \<open>UTF-8 and hexadecimal\<close>

text \<open>The bytes of a \<open>str\<close> (\<open>as_bytes\<close>) and the format \<open>{:02x}\<close>, which hashing uses.\<close>

definition char_bytes :: "rchar \<Rightarrow> u8 list" where
  "char_bytes c =
     (if c < 128 then [of_nat c]
      else if c < 2048 then [of_nat (192 + c div 64), of_nat (128 + c mod 64)]
      else if c < 65536 then
        [of_nat (224 + c div 4096), of_nat (128 + c div 64 mod 64), of_nat (128 + c mod 64)]
      else [of_nat (240 + c div 262144), of_nat (128 + c div 4096 mod 64),
            of_nat (128 + c div 64 mod 64), of_nat (128 + c mod 64)])"

definition str_bytes :: "rstr \<Rightarrow> u8 list" where
  "str_bytes s = concat (map char_bytes s)"

definition hex_digit :: "nat \<Rightarrow> rchar" where
  "hex_digit n = (if n < 10 then 48 + n else 87 + n)"

definition hex_byte :: "u8 \<Rightarrow> rstr" where
  "hex_byte b = [hex_digit (unat b div 16), hex_digit (unat b mod 16)]"

definition hex_bytes :: "u8 list \<Rightarrow> rstr" where
  "hex_bytes bs = concat (map hex_byte bs)"

lemma length_char_bytes: "length (char_bytes c) = char_utf8_len c"
  by (simp add: char_bytes_def char_utf8_len_def)

lemma length_str_bytes: "length (str_bytes s) = str_len s"
  by (induction s) (simp_all add: str_bytes_def length_char_bytes)

lemma hex_digit_ok: "n < 16 \<Longrightarrow> is_lower_hex (hex_digit n) \<and> hex_digit n < 128"
  by (auto simp: hex_digit_def is_lower_hex_def is_ascii_digit_def)

lemma hex_bytes_ok:
  "c \<in> set (hex_bytes bs) \<Longrightarrow> is_lower_hex c \<and> c < 128"
proof -
  assume "c \<in> set (hex_bytes bs)"
  then obtain b :: u8 where "c = hex_digit (unat b div 16) \<or> c = hex_digit (unat b mod 16)"
    by (auto simp: hex_bytes_def hex_byte_def)
  moreover have "unat b div 16 < 16"
    using unsigned_less[of b, where 'a = nat] by (simp add: div_less_iff_less_mult less_mult_imp_div_less)
  ultimately show ?thesis using hex_digit_ok by fastforce
qed

lemma length_hex_bytes: "length (hex_bytes bs) = 2 * length bs"
  by (induction bs) (simp_all add: hex_bytes_def hex_byte_def)

lemma str_len_hex_bytes: "str_len (hex_bytes bs) = 2 * length bs"
  using str_len_ascii[of "hex_bytes bs"] hex_bytes_ok length_hex_bytes by metis
end
