(* ===== verification/Task_Facts.thy ===== *)
theory Task_Facts
  imports Ids
begin

text \<open>
  \<open>src/domain/task.rs\<close>: the durable facts of a task.  Workspace references with their
  host-issued bindings and fingerprints, the lifecycle and status enumerations, the
  assignment, and the validation that guards task creation.  SHA-256 (crate \<open>sha2\<close>) is the
  parameter \<open>sha\<close> of the definitions that hash.
\<close>

type_synonym sha256_fn = "u8 list \<Rightarrow> u8 list"

datatype task_validation_error =
    EmptyTitle | EmptyDescription | EmptyPath | EmptyBranch | EmptyRepositoryFingerprint
  | InvalidRepositoryFingerprint | EmptyPrincipalAuthority | EmptyPrincipalSubject
  | InvalidCreateState

section \<open>Repository fingerprints\<close>

datatype repository_fingerprint = RepositoryFingerprint (fingerprint_str: rstr)

definition from_host_token :: "rstr \<Rightarrow> task_validation_error + repository_fingerprint" where
  "from_host_token token =
     (if trim token = [] then Inl EmptyRepositoryFingerprint
      else case strip_prefix (lit ''sha256:'') token of
          None \<Rightarrow> Inl InvalidRepositoryFingerprint
        | Some digest \<Rightarrow>
            if str_len digest \<noteq> 64 \<or> \<not> list_all is_lower_hex digest
            then Inl InvalidRepositoryFingerprint
            else Inr (RepositoryFingerprint token))"

section \<open>Workspace facts\<close>

definition MAX_DURABLE_PATH_BYTES :: nat where "MAX_DURABLE_PATH_BYTES = 32 * 1024"
definition MAX_DURABLE_IDENTITY_BYTES :: nat where "MAX_DURABLE_IDENTITY_BYTES = 256"
definition MAX_DURABLE_BRANCH_BYTES :: nat where "MAX_DURABLE_BRANCH_BYTES = 512"

datatype workspace_binding_kind = MainBinding | WorktreeBinding | ExternalBinding

record workspace_path_fact =
  wp_path :: path
  wp_identity :: rstr
  wp_opaque_id :: rstr
  wp_content_length :: "u64 option"
  wp_content_fingerprint :: "repository_fingerprint option"

definition check_path :: "path \<Rightarrow> task_validation_error + unit" where
  "check_path p = (if p = [] \<or> has_nul p then Inl EmptyPath else Inr ())"

definition validate_path :: "path \<Rightarrow> task_validation_error + path" where
  "validate_path p = rbind (check_path p) (\<lambda>_. Inr p)"

definition workspace_path_fact_validate :: "workspace_path_fact \<Rightarrow> task_validation_error + unit" where
  "workspace_path_fact_validate f =
     rbind
       (if wp_path f = [] then
          (if wp_identity f \<noteq> [] then Inl InvalidRepositoryFingerprint else Inr ())
        else
          rbind (check_path (wp_path f)) (\<lambda>_.
            if str_len (wp_path f) > MAX_DURABLE_PATH_BYTES then Inl InvalidRepositoryFingerprint
            else if wp_identity f = [] \<or> str_len (wp_identity f) > MAX_DURABLE_IDENTITY_BYTES
            then Inl InvalidRepositoryFingerprint
            else Inr ()))
       (\<lambda>_.
         if wp_opaque_id f = [] \<or> str_len (wp_opaque_id f) > MAX_DURABLE_IDENTITY_BYTES
            \<or> \<not> list_all (\<lambda>b. is_ascii_alphanumeric b \<or> b = 45 \<or> b = 95) (wp_opaque_id f)
         then Inl InvalidRepositoryFingerprint
         else if is_some (wp_content_length f) \<noteq> is_some (wp_content_fingerprint f)
         then Inl InvalidRepositoryFingerprint
         else Inr ())"

definition workspace_path_fact_new ::
  "sha256_fn \<Rightarrow> path \<Rightarrow> rstr \<Rightarrow> u64 option \<Rightarrow> repository_fingerprint option
     \<Rightarrow> task_validation_error + workspace_path_fact" where
  "workspace_path_fact_new sha p identity content_length content_fingerprint =
     (let digest = sha (str_bytes (lit ''devmanager-workspace-fact-id-v1'' @ [0]) @ str_bytes identity);
          pf = \<lparr> wp_path = p, wp_identity = identity, wp_opaque_id = hex_bytes (take 16 digest),
                   wp_content_length = content_length,
                   wp_content_fingerprint = content_fingerprint \<rparr>
      in rbind (workspace_path_fact_validate pf) (\<lambda>_. Inr pf))"

text \<open>The wire form of a path fact and the two directions of its serde implementation.\<close>

record workspace_path_fact_wire =
  ww_workspace_id :: rstr
  ww_content_length :: "u64 option"
  ww_content_fingerprint :: "repository_fingerprint option"

definition workspace_path_fact_serialize :: "workspace_path_fact \<Rightarrow> workspace_path_fact_wire" where
  "workspace_path_fact_serialize f =
     \<lparr> ww_workspace_id = wp_opaque_id f, ww_content_length = wp_content_length f,
       ww_content_fingerprint = wp_content_fingerprint f \<rparr>"

definition workspace_path_fact_deserialize ::
  "workspace_path_fact_wire \<Rightarrow> task_validation_error + workspace_path_fact" where
  "workspace_path_fact_deserialize w =
     (let pf = \<lparr> wp_path = [], wp_identity = [], wp_opaque_id = ww_workspace_id w,
                   wp_content_length = ww_content_length w,
                   wp_content_fingerprint = ww_content_fingerprint w \<rparr>
      in rbind (workspace_path_fact_validate pf) (\<lambda>_. Inr pf))"

record workspace_binding_fact =
  wb_kind :: workspace_binding_kind
  wb_project_root :: workspace_path_fact
  wb_workspace_root :: workspace_path_fact
  wb_repository_root :: "workspace_path_fact option"
  wb_common_git_dir :: "workspace_path_fact option"
  wb_admin_dir :: "workspace_path_fact option"
  wb_marker :: "workspace_path_fact option"
  wb_commondir :: "workspace_path_fact option"
  wb_gitdir :: "workspace_path_fact option"
  wb_head :: "workspace_path_fact option"
  wb_branch :: "rstr option"
  wb_binding_fingerprint :: repository_fingerprint

definition u64_le_bytes :: "u64 \<Rightarrow> u8 list" where
  "u64_le_bytes x = map (\<lambda>i. ucast (drop_bit (8 * i) x)) [0..<8]"

definition fact_hash_input :: "workspace_path_fact option \<Rightarrow> u8 list" where
  "fact_hash_input pf =
     (case pf of
        None \<Rightarrow> [255]
      | Some f \<Rightarrow> str_bytes (wp_opaque_id f) @ [0] @
          (case wp_content_length f of
             None \<Rightarrow> [0]
           | Some n \<Rightarrow> u64_le_bytes n @ [1] @
               str_bytes (case wp_content_fingerprint f of None \<Rightarrow> [] | Some fp \<Rightarrow> fingerprint_str fp)))"

definition binding_kind_label :: "workspace_binding_kind \<Rightarrow> rstr" where
  "binding_kind_label k =
     (case k of MainBinding \<Rightarrow> lit ''main'' | WorktreeBinding \<Rightarrow> lit ''worktree''
      | ExternalBinding \<Rightarrow> lit ''external'')"

definition binding_hash_input :: "workspace_binding_fact \<Rightarrow> u8 list" where
  "binding_hash_input b =
     str_bytes (lit ''devmanager-workspace-binding-v1'') @ [0] @
     str_bytes (binding_kind_label (wb_kind b)) @ [0] @
     concat (map (\<lambda>(label, pf). str_bytes label @ [0] @ fact_hash_input pf @ [255])
       [(lit ''project'', Some (wb_project_root b)),
        (lit ''workspace'', Some (wb_workspace_root b)),
        (lit ''repository'', wb_repository_root b),
        (lit ''common_git'', wb_common_git_dir b),
        (lit ''admin'', wb_admin_dir b),
        (lit ''marker'', wb_marker b),
        (lit ''commondir'', wb_commondir b),
        (lit ''gitdir'', wb_gitdir b),
        (lit ''head'', wb_head b)]) @
     str_bytes (case wb_branch b of None \<Rightarrow> [] | Some branch \<Rightarrow> branch)"

text \<open>
  \<open>compute_fingerprint\<close> reads \<open>content_fingerprint\<close> with \<open>expect\<close> when a length is present; path
  facts are validated before the call, so the two are present together.
\<close>

definition compute_fingerprint ::
  "sha256_fn \<Rightarrow> workspace_binding_fact \<Rightarrow> task_validation_error + repository_fingerprint" where
  "compute_fingerprint sha b =
     from_host_token (lit ''sha256:'' @ hex_bytes (sha (binding_hash_input b)))"

definition binding_paths :: "workspace_binding_fact \<Rightarrow> workspace_path_fact option list" where
  "binding_paths b =
     [wb_repository_root b, wb_common_git_dir b, wb_admin_dir b, wb_marker b, wb_commondir b,
      wb_gitdir b, wb_head b]"

definition unlinked_shape_ok :: "workspace_binding_fact \<Rightarrow> bool" where
  "unlinked_shape_ok b \<longleftrightarrow>
     (let has_repository = is_some (wb_repository_root b) \<or> is_some (wb_common_git_dir b)
                           \<or> is_some (wb_marker b) \<or> is_some (wb_head b)
      in \<not> (is_some (wb_admin_dir b) \<or> is_some (wb_commondir b) \<or> is_some (wb_gitdir b)
            \<or> is_some (wb_branch b)
            \<or> has_repository \<and> (wb_repository_root b = None \<or> wb_common_git_dir b = None
                                \<or> wb_marker b = None \<or> wb_head b = None)))"

definition binding_shape_ok :: "workspace_binding_fact \<Rightarrow> bool" where
  "binding_shape_ok b =
     (case wb_kind b of
        MainBinding \<Rightarrow> unlinked_shape_ok b
      | WorktreeBinding \<Rightarrow>
          \<not> (wb_repository_root b = None \<or> wb_common_git_dir b = None \<or> wb_admin_dir b = None
             \<or> wb_marker b = None \<or> wb_commondir b = None \<or> wb_gitdir b = None
             \<or> wb_head b = None \<or> wb_branch b = None)
      | ExternalBinding \<Rightarrow> unlinked_shape_ok b)"

definition workspace_binding_fact_validate ::
  "sha256_fn \<Rightarrow> workspace_binding_fact \<Rightarrow> task_validation_error + unit" where
  "workspace_binding_fact_validate sha b =
     rbind (workspace_path_fact_validate (wb_project_root b)) (\<lambda>_.
     rbind (workspace_path_fact_validate (wb_workspace_root b)) (\<lambda>_.
     rbind (try_each workspace_path_fact_validate
              (concat (map (\<lambda>f. case f of None \<Rightarrow> [] | Some x \<Rightarrow> [x]) (binding_paths b)))) (\<lambda>_.
     rbind (case wb_branch b of
              None \<Rightarrow> Inr ()
            | Some branch \<Rightarrow>
                if branch = [] \<or> str_len branch > MAX_DURABLE_BRANCH_BYTES then Inl EmptyBranch
                else if \<not> is_canonical branch then Inl EmptyBranch
                else Inr ()) (\<lambda>_.
     if \<not> binding_shape_ok b then Inl InvalidRepositoryFingerprint
     else rbind (compute_fingerprint sha b) (\<lambda>fp.
       if fp \<noteq> wb_binding_fingerprint b then Inl InvalidRepositoryFingerprint else Inr ())))))"

definition workspace_binding_fact_issue ::
  "sha256_fn \<Rightarrow> workspace_binding_fact \<Rightarrow> task_validation_error + workspace_binding_fact" where
  "workspace_binding_fact_issue sha draft =
     rbind (from_host_token (lit ''sha256:'' @ replicate 64 48)) (\<lambda>zero.
       let fact0 = draft \<lparr> wb_binding_fingerprint := zero \<rparr>
       in rbind (compute_fingerprint sha fact0) (\<lambda>fp.
            let pf = fact0 \<lparr> wb_binding_fingerprint := fp \<rparr>
            in rbind (workspace_binding_fact_validate sha pf) (\<lambda>_. Inr pf)))"

definition same_fact :: "workspace_path_fact \<Rightarrow> workspace_path_fact \<Rightarrow> bool" where
  "same_fact l r \<longleftrightarrow> wp_opaque_id l = wp_opaque_id r \<and> wp_content_length l = wp_content_length r
     \<and> wp_content_fingerprint l = wp_content_fingerprint r"

definition same_optional :: "workspace_path_fact option \<Rightarrow> workspace_path_fact option \<Rightarrow> bool" where
  "same_optional l r =
     (case (l, r) of (Some l, Some r) \<Rightarrow> same_fact l r | (None, None) \<Rightarrow> True | _ \<Rightarrow> False)"

definition same_runtime_identity :: "workspace_binding_fact \<Rightarrow> workspace_binding_fact \<Rightarrow> bool" where
  "same_runtime_identity a b \<longleftrightarrow>
     wb_kind a = wb_kind b
     \<and> same_fact (wb_project_root a) (wb_project_root b)
     \<and> same_fact (wb_workspace_root a) (wb_workspace_root b)
     \<and> same_optional (wb_repository_root a) (wb_repository_root b)
     \<and> same_optional (wb_common_git_dir a) (wb_common_git_dir b)
     \<and> same_optional (wb_admin_dir a) (wb_admin_dir b)
     \<and> same_optional (wb_marker a) (wb_marker b)
     \<and> same_optional (wb_commondir a) (wb_commondir b)
     \<and> same_optional (wb_gitdir a) (wb_gitdir b)
     \<and> (is_some (wb_head a) \<longleftrightarrow> is_some (wb_head b))"

section \<open>Workspace references\<close>

datatype workspace_ref =
    WsMain
  | WsWorktree path rstr
  | WsExternal path
  | WsMainWithFingerprint repository_fingerprint
  | WsWorktreeWithFingerprint path rstr repository_fingerprint
  | WsHostBound workspace_binding_fact
  | WsExternalWithFingerprint path workspace_binding_fact

datatype workspace_ref_wire =
    WireMain
  | WireWorktree path rstr
  | WireExternal path
  | WireExternalBound workspace_binding_fact
  | WireMainWithFingerprint repository_fingerprint
  | WireWorktreeWithFingerprint path rstr repository_fingerprint
  | WireHostBound workspace_binding_fact

definition canonicalize_branch :: "rstr \<Rightarrow> task_validation_error + rstr" where
  "canonicalize_branch value = ok_or (canonicalize value) EmptyBranch"

definition workspace_ref_worktree :: "path \<Rightarrow> rstr \<Rightarrow> task_validation_error + workspace_ref" where
  "workspace_ref_worktree p branch =
     rbind (validate_path p) (\<lambda>p. rbind (canonicalize_branch branch) (\<lambda>b. Inr (WsWorktree p b)))"

definition workspace_ref_external :: "path \<Rightarrow> task_validation_error + workspace_ref" where
  "workspace_ref_external p = rbind (validate_path p) (\<lambda>p. Inr (WsExternal p))"

definition worktree_with_fingerprint ::
  "path \<Rightarrow> rstr \<Rightarrow> repository_fingerprint \<Rightarrow> task_validation_error + workspace_ref" where
  "worktree_with_fingerprint p branch fp =
     (if trim (fingerprint_str fp) = [] then Inl EmptyRepositoryFingerprint
      else rbind (validate_path p) (\<lambda>p. rbind (canonicalize_branch branch) (\<lambda>b.
             Inr (WsWorktreeWithFingerprint p b fp))))"

definition ws_repository_fingerprint :: "workspace_ref \<Rightarrow> repository_fingerprint option" where
  "ws_repository_fingerprint w =
     (case w of
        WsMainWithFingerprint fp \<Rightarrow> Some fp
      | WsWorktreeWithFingerprint _ _ fp \<Rightarrow> Some fp
      | WsHostBound b \<Rightarrow> Some (wb_binding_fingerprint b)
      | WsExternalWithFingerprint _ b \<Rightarrow> Some (wb_binding_fingerprint b)
      | _ \<Rightarrow> None)"

definition ws_host_binding :: "workspace_ref \<Rightarrow> workspace_binding_fact option" where
  "ws_host_binding w =
     (case w of WsHostBound b \<Rightarrow> Some b | WsExternalWithFingerprint _ b \<Rightarrow> Some b | _ \<Rightarrow> None)"

definition workspace_ref_validate :: "sha256_fn \<Rightarrow> workspace_ref \<Rightarrow> task_validation_error + unit" where
  "workspace_ref_validate sha w =
     (case w of
        WsMain \<Rightarrow> Inr ()
      | WsWorktree p branch \<Rightarrow>
          rbind (check_path p) (\<lambda>_. if \<not> is_canonical branch then Inl EmptyBranch else Inr ())
      | WsExternal p \<Rightarrow> check_path p
      | WsMainWithFingerprint fp \<Rightarrow>
          if trim (fingerprint_str fp) = [] then Inl EmptyRepositoryFingerprint else Inr ()
      | WsWorktreeWithFingerprint p branch fp \<Rightarrow>
          rbind (check_path p) (\<lambda>_.
            if \<not> is_canonical branch then Inl EmptyBranch
            else if trim (fingerprint_str fp) = [] then Inl EmptyRepositoryFingerprint
            else Inr ())
      | WsHostBound b \<Rightarrow> workspace_binding_fact_validate sha b
      | WsExternalWithFingerprint p b \<Rightarrow>
          rbind (workspace_binding_fact_validate sha b) (\<lambda>_.
            if wb_kind b \<noteq> ExternalBinding then Inl InvalidRepositoryFingerprint
            else if p = [] then
              (if wp_path (wb_workspace_root b) \<noteq> [] then Inl InvalidRepositoryFingerprint else Inr ())
            else if wp_path (wb_workspace_root b) \<noteq> p then Inl InvalidRepositoryFingerprint
            else Inr ()))"

text \<open>
  Serialisation of a reference: unresolved paths never cross a durable boundary.  The
  error is the message of the serde error; a binding goes through the serde form of its
  path facts, which drops the host-private members.
\<close>

datatype wire_error = UnresolvedPath | PathCannotCross | MustUseBinding | InvalidBindingKind
  | WireValidation task_validation_error

definition workspace_ref_serialize :: "workspace_ref \<Rightarrow> wire_error + workspace_ref_wire" where
  "workspace_ref_serialize w =
     (case w of
        WsMain \<Rightarrow> Inr WireMain
      | WsWorktree _ _ \<Rightarrow> Inl UnresolvedPath
      | WsExternal _ \<Rightarrow> Inl UnresolvedPath
      | WsMainWithFingerprint fp \<Rightarrow> Inr (WireMainWithFingerprint fp)
      | WsWorktreeWithFingerprint _ _ _ \<Rightarrow> Inl PathCannotCross
      | WsHostBound b \<Rightarrow> Inr (WireHostBound b)
      | WsExternalWithFingerprint _ b \<Rightarrow> Inr (WireExternalBound b))"

definition path_fact_redact :: "workspace_path_fact \<Rightarrow> workspace_path_fact" where
  "path_fact_redact f = f \<lparr> wp_path := [], wp_identity := [] \<rparr>"

definition binding_redact :: "workspace_binding_fact \<Rightarrow> workspace_binding_fact" where
  "binding_redact b = b \<lparr>
     wb_project_root := path_fact_redact (wb_project_root b),
     wb_workspace_root := path_fact_redact (wb_workspace_root b),
     wb_repository_root := map_option path_fact_redact (wb_repository_root b),
     wb_common_git_dir := map_option path_fact_redact (wb_common_git_dir b),
     wb_admin_dir := map_option path_fact_redact (wb_admin_dir b),
     wb_marker := map_option path_fact_redact (wb_marker b),
     wb_commondir := map_option path_fact_redact (wb_commondir b),
     wb_gitdir := map_option path_fact_redact (wb_gitdir b),
     wb_head := map_option path_fact_redact (wb_head b) \<rparr>"

definition workspace_ref_deserialize ::
  "sha256_fn \<Rightarrow> workspace_ref_wire \<Rightarrow> wire_error + workspace_ref" where
  "workspace_ref_deserialize sha w =
     (case w of
        WireMain \<Rightarrow> Inr WsMain
      | WireWorktree _ _ \<Rightarrow> Inl MustUseBinding
      | WireExternal _ \<Rightarrow> Inl MustUseBinding
      | WireWorktreeWithFingerprint _ _ _ \<Rightarrow> Inl MustUseBinding
      | WireExternalBound b \<Rightarrow>
          if wb_kind b \<noteq> ExternalBinding then Inl InvalidBindingKind
          else rbind (map_err WireValidation (workspace_binding_fact_validate sha b)) (\<lambda>_.
            Inr (WsExternalWithFingerprint [] b))
      | WireMainWithFingerprint fp \<Rightarrow>
          rbind (map_err WireValidation (workspace_ref_validate sha (WsMainWithFingerprint fp))) (\<lambda>_.
            Inr (WsMainWithFingerprint fp))
      | WireHostBound b \<Rightarrow>
          rbind (map_err WireValidation (workspace_binding_fact_validate sha b)) (\<lambda>_.
            Inr (WsHostBound b)))"

text \<open>
  A value that crosses the boundary: the wire value carries bindings whose path facts have
  been serialised (and so redacted) and are read back pathless.
\<close>

definition wire_redact :: "workspace_ref_wire \<Rightarrow> workspace_ref_wire" where
  "wire_redact w =
     (case w of
        WireExternalBound b \<Rightarrow> WireExternalBound (binding_redact b)
      | WireHostBound b \<Rightarrow> WireHostBound (binding_redact b)
      | _ \<Rightarrow> w)"

definition workspace_ref_transfer :: "sha256_fn \<Rightarrow> workspace_ref \<Rightarrow> wire_error + workspace_ref" where
  "workspace_ref_transfer sha w =
     rbind (workspace_ref_serialize w) (\<lambda>x. workspace_ref_deserialize sha (wire_redact x))"

datatype workspace_choice = ChoiceMain | ChoiceNewWorktree | ChoiceAsk | ChoiceExternal

section \<open>Lifecycle and status\<close>

datatype task_lifecycle = TlOpen | TlSettled | TlClosing | TlArchived | TlDeleted
datatype task_connectivity = Connected | Disconnected
datatype task_attention = AttNone | NeedsAnswer | NeedsApproval | UncertainOutcome | AttFailed
datatype task_activity = ActIdle | ActWorking | ActSettling
datatype review_readiness = NotReady | Ready
datatype visible_task_status =
    VsDisconnected | VsFailed | VsUncertainOutcome | VsNeedsApproval | VsNeedsAnswer
  | VsWorking | VsSettling | VsReadyForReview | VsIdle

definition visible_status_derive ::
  "task_connectivity \<Rightarrow> task_attention \<Rightarrow> task_activity \<Rightarrow> review_readiness \<Rightarrow> visible_task_status" where
  "visible_status_derive connectivity attention activity review =
     (if connectivity = Disconnected then VsDisconnected
      else case attention of
          AttFailed \<Rightarrow> VsFailed
        | UncertainOutcome \<Rightarrow> VsUncertainOutcome
        | NeedsApproval \<Rightarrow> VsNeedsApproval
        | NeedsAnswer \<Rightarrow> VsNeedsAnswer
        | AttNone \<Rightarrow>
            (case activity of
               ActWorking \<Rightarrow> VsWorking
             | ActSettling \<Rightarrow> VsSettling
             | ActIdle \<Rightarrow> (case review of Ready \<Rightarrow> VsReadyForReview | NotReady \<Rightarrow> VsIdle)))"

section \<open>Assignment and task facts\<close>

datatype task_assignment = LocalOwner | ExternalPrincipal rstr rstr

definition canonicalize_principal ::
  "rstr \<Rightarrow> task_validation_error \<Rightarrow> task_validation_error + rstr" where
  "canonicalize_principal value empty_error = ok_or (canonicalize value) empty_error"

definition external_principal :: "rstr \<Rightarrow> rstr \<Rightarrow> task_validation_error + task_assignment" where
  "external_principal authority subject =
     rbind (canonicalize_principal authority EmptyPrincipalAuthority) (\<lambda>a.
     rbind (canonicalize_principal subject EmptyPrincipalSubject) (\<lambda>s. Inr (ExternalPrincipal a s)))"

definition task_assignment_validate :: "task_assignment \<Rightarrow> task_validation_error + unit" where
  "task_assignment_validate a =
     (case a of
        LocalOwner \<Rightarrow> Inr ()
      | ExternalPrincipal authority subject \<Rightarrow>
          if \<not> is_canonical authority then Inl EmptyPrincipalAuthority
          else if \<not> is_canonical subject then Inl EmptyPrincipalSubject
          else Inr ())"

record task_facts =
  tk_id :: task_id
  tk_environment_id :: environment_id
  tk_title :: rstr
  tk_description :: "rstr option"
  tk_project_id :: project_id
  tk_workspace :: workspace_ref
  tk_assignment :: task_assignment
  tk_lifecycle :: task_lifecycle
  tk_action_epoch :: u64
  tk_revision :: u64
  tk_created_at_ms :: int

definition canonicalize_title :: "rstr \<Rightarrow> task_validation_error + rstr" where
  "canonicalize_title title = ok_or (canonicalize title) EmptyTitle"

definition canonicalize_description ::
  "rstr option \<Rightarrow> task_validation_error + rstr option" where
  "canonicalize_description d =
     (case d of
        Some value \<Rightarrow> rbind (ok_or (canonicalize value) EmptyDescription) (\<lambda>t. Inr (Some t))
      | None \<Rightarrow> Inr None)"

text \<open>\<open>TaskId::new\<close> draws a fresh identity: it is the argument \<open>fresh\<close>.\<close>

definition task_facts_new ::
  "sha256_fn \<Rightarrow> task_id \<Rightarrow> environment_id \<Rightarrow> rstr \<Rightarrow> rstr option \<Rightarrow> project_id \<Rightarrow> workspace_ref
     \<Rightarrow> task_assignment \<Rightarrow> int \<Rightarrow> task_validation_error + task_facts" where
  "task_facts_new sha fresh env title desc proj ws assignment created_at_ms =
     rbind (canonicalize_title title) (\<lambda>title.
     rbind (canonicalize_description desc) (\<lambda>desc.
     rbind (workspace_ref_validate sha ws) (\<lambda>_.
     rbind (task_assignment_validate assignment) (\<lambda>_.
       Inr \<lparr> tk_id = fresh, tk_environment_id = env, tk_title = title, tk_description = desc,
             tk_project_id = proj, tk_workspace = ws, tk_assignment = assignment,
             tk_lifecycle = TlOpen, tk_action_epoch = 0, tk_revision = 0,
             tk_created_at_ms = created_at_ms \<rparr>))))"

definition validate_content :: "sha256_fn \<Rightarrow> task_facts \<Rightarrow> task_validation_error + unit" where
  "validate_content sha t =
     (if \<not> is_canonical (tk_title t) then Inl EmptyTitle
      else if (case tk_description t of Some v \<Rightarrow> \<not> is_canonical v | None \<Rightarrow> False)
      then Inl EmptyDescription
      else rbind (workspace_ref_validate sha (tk_workspace t)) (\<lambda>_.
           rbind (task_assignment_validate (tk_assignment t)) (\<lambda>_. Inr ())))"

definition validate_for_create :: "sha256_fn \<Rightarrow> task_facts \<Rightarrow> task_validation_error + unit" where
  "validate_for_create sha t =
     rbind (validate_content sha t) (\<lambda>_.
       if tk_lifecycle t \<noteq> TlOpen \<or> tk_action_epoch t \<noteq> 0 \<or> tk_revision t \<noteq> 1
       then Inl InvalidCreateState
       else Inr ())"

section \<open>Facts about fingerprints and bindings\<close>

lemma from_host_token_digest:
  assumes "length d = 32"
  shows "from_host_token (lit ''sha256:'' @ hex_bytes d) = Inr (RepositoryFingerprint (lit ''sha256:'' @ hex_bytes d))"
proof -
  have "strip_prefix (lit ''sha256:'') (lit ''sha256:'' @ hex_bytes d) = Some (hex_bytes d)"
    by (simp add: strip_prefix_def)
  moreover have "list_all is_lower_hex (hex_bytes d)"
    using hex_bytes_ok by (auto simp: list_all_iff)
  moreover have "trim (lit ''sha256:'' @ hex_bytes d) \<noteq> []"
  proof
    let ?s = "lit ''sha256:'' @ hex_bytes d"
    assume "trim ?s = []"
    then have "dropWhile is_whitespace (rev (dropWhile is_whitespace ?s)) = []"
      by (simp only: trim_def rev_is_Nil_conv)
    moreover have "dropWhile is_whitespace ?s = ?s"
      by (rule dropWhile_id_hd) (simp add: lit_def is_whitespace_def)
    ultimately have "\<forall>c\<in>set ?s. is_whitespace c"
      by (metis dropWhile_eq_Nil_conv set_rev)
    moreover have "(115::rchar) \<in> set ?s" by (simp add: lit_def)
    ultimately have "is_whitespace 115" by blast
    then show False by (simp add: is_whitespace_def)
  qed
  ultimately show ?thesis
    using assms by (simp add: from_host_token_def str_len_hex_bytes)
qed

lemma from_host_token_Inr: "from_host_token t = Inr fp \<Longrightarrow> fp = RepositoryFingerprint t \<and> trim t \<noteq> []"
  by (auto simp: from_host_token_def split: if_splits option.splits)

lemma compute_fingerprint_total:
  assumes "\<And>x. length (sha x) = 32"
  shows "compute_fingerprint sha b = Inr (RepositoryFingerprint (lit ''sha256:'' @ hex_bytes (sha (binding_hash_input b))))"
  unfolding compute_fingerprint_def by (rule from_host_token_digest) (rule assms)

lemma binding_hash_input_fingerprint [simp]:
  "binding_hash_input (b \<lparr> wb_binding_fingerprint := fp \<rparr>) = binding_hash_input b"
  by (simp add: binding_hash_input_def)

lemma path_fact_redact_sel [simp]:
  "wp_path (path_fact_redact f) = []"
  "wp_identity (path_fact_redact f) = []"
  "wp_opaque_id (path_fact_redact f) = wp_opaque_id f"
  "wp_content_length (path_fact_redact f) = wp_content_length f"
  "wp_content_fingerprint (path_fact_redact f) = wp_content_fingerprint f"
  by (simp_all add: path_fact_redact_def)

lemma fact_hash_input_redact [simp]:
  "fact_hash_input (map_option path_fact_redact f) = fact_hash_input f"
  "fact_hash_input (Some (path_fact_redact g)) = fact_hash_input (Some g)"
  by (auto simp: fact_hash_input_def split: option.split)

lemma binding_redact_sel [simp]:
  "wb_kind (binding_redact b) = wb_kind b"
  "wb_branch (binding_redact b) = wb_branch b"
  "wb_binding_fingerprint (binding_redact b) = wb_binding_fingerprint b"
  "wb_project_root (binding_redact b) = path_fact_redact (wb_project_root b)"
  "wb_workspace_root (binding_redact b) = path_fact_redact (wb_workspace_root b)"
  "wb_repository_root (binding_redact b) = map_option path_fact_redact (wb_repository_root b)"
  "wb_common_git_dir (binding_redact b) = map_option path_fact_redact (wb_common_git_dir b)"
  "wb_admin_dir (binding_redact b) = map_option path_fact_redact (wb_admin_dir b)"
  "wb_marker (binding_redact b) = map_option path_fact_redact (wb_marker b)"
  "wb_commondir (binding_redact b) = map_option path_fact_redact (wb_commondir b)"
  "wb_gitdir (binding_redact b) = map_option path_fact_redact (wb_gitdir b)"
  "wb_head (binding_redact b) = map_option path_fact_redact (wb_head b)"
  by (simp_all add: binding_redact_def)

lemma compute_fingerprint_redact [simp]:
  "compute_fingerprint sha (binding_redact b) = compute_fingerprint sha b"
  by (simp add: compute_fingerprint_def binding_hash_input_def)

lemma path_fact_validate_redact:
  "workspace_path_fact_validate f = Inr u \<Longrightarrow> workspace_path_fact_validate (path_fact_redact f) = Inr u"
  by (auto simp: workspace_path_fact_validate_def path_fact_redact_def result_simps split: if_splits)

lemma path_fact_wire_roundtrip:
  assumes "workspace_path_fact_validate f = Inr ()"
  shows "workspace_path_fact_deserialize (workspace_path_fact_serialize f) = Inr (path_fact_redact f)"
proof -
  have "\<lparr> wp_path = [], wp_identity = [], wp_opaque_id = wp_opaque_id f,
          wp_content_length = wp_content_length f,
          wp_content_fingerprint = wp_content_fingerprint f \<rparr> = path_fact_redact f"
    by (simp add: path_fact_redact_def)
  with path_fact_validate_redact[OF assms] show ?thesis
    unfolding workspace_path_fact_deserialize_def workspace_path_fact_serialize_def Let_def
    by (simp only: workspace_path_fact_wire.simps rbind_simps)
qed

lemma is_some_map_option [simp]: "is_some (map_option f x) = is_some x"
  by (cases x) simp_all

lemma binding_shape_redact [simp]: "binding_shape_ok (binding_redact b) = binding_shape_ok b"
  by (simp add: binding_shape_ok_def unlinked_shape_ok_def split: workspace_binding_kind.split)

lemma binding_validate_redact:
  assumes "workspace_binding_fact_validate sha b = Inr ()"
  shows "workspace_binding_fact_validate sha (binding_redact b) = Inr ()"
proof -
  let ?opt = "\<lambda>f. case f of None \<Rightarrow> [] | Some x \<Rightarrow> [x]"
  have "set (concat (map ?opt (binding_paths (binding_redact b))))
      = path_fact_redact ` set (concat (map ?opt (binding_paths b)))"
    by (auto simp: binding_paths_def split: option.splits)
  then show ?thesis
    using assms path_fact_validate_redact
    by (auto simp: workspace_binding_fact_validate_def result_simps simp del: set_concat)
qed

lemma same_runtime_identity_redact: "same_runtime_identity b (binding_redact b)"
proof -
  have f: "same_fact f (path_fact_redact f)" for f
    by (simp add: same_fact_def path_fact_redact_def)
  have o: "same_optional f (map_option path_fact_redact f)" for f
    by (cases f) (simp_all add: same_optional_def f)
  show ?thesis by (simp add: same_runtime_identity_def f o)
qed

definition binding_pathless :: "workspace_binding_fact \<Rightarrow> bool" where
  "binding_pathless b =
     list_all (\<lambda>f. case f of None \<Rightarrow> True | Some g \<Rightarrow> wp_path g = [] \<and> wp_identity g = [])
       (Some (wb_project_root b) # Some (wb_workspace_root b) # binding_paths b)"

definition ws_pathless :: "workspace_ref \<Rightarrow> bool" where
  "ws_pathless w =
     (case w of
        WsMain \<Rightarrow> True
      | WsMainWithFingerprint _ \<Rightarrow> True
      | WsHostBound b \<Rightarrow> binding_pathless b
      | WsExternalWithFingerprint p b \<Rightarrow> p = [] \<and> binding_pathless b
      | _ \<Rightarrow> False)"

lemma path_fact_redact_id_iff: "path_fact_redact f = f \<longleftrightarrow> wp_path f = [] \<and> wp_identity f = []"
  by (cases f) (auto simp: path_fact_redact_def)

lemma binding_redact_pathless [simp]: "binding_pathless (binding_redact b)"
  by (simp add: binding_pathless_def binding_paths_def split: option.split)

lemma binding_redact_id: "binding_pathless b \<Longrightarrow> binding_redact b = b"
proof -
  assume p: "binding_pathless b"
  have opt: "map_option path_fact_redact f = f"
    if "case f of None \<Rightarrow> True | Some g \<Rightarrow> wp_path g = [] \<and> wp_identity g = []" for f
    using that by (cases f) (simp_all add: path_fact_redact_id_iff)
  show ?thesis
    using p by (cases b) (simp add: binding_redact_def binding_pathless_def binding_paths_def
        path_fact_redact_id_iff opt)
qed

lemma transfer_pathless:
  assumes "workspace_ref_transfer sha w = Inr w'"
  shows "ws_pathless w' \<and> workspace_ref_validate sha w' = Inr ()
       \<and> ws_repository_fingerprint w' = ws_repository_fingerprint w"
  using assms
  by (cases w)
     (auto simp: workspace_ref_transfer_def workspace_ref_serialize_def wire_redact_def
        workspace_ref_deserialize_def workspace_ref_validate_def ws_repository_fingerprint_def
        ws_pathless_def result_simps split: if_splits)

lemma transfer_idem:
  assumes "ws_pathless w" "workspace_ref_validate sha w = Inr ()"
  shows "workspace_ref_transfer sha w = Inr w"
  using assms
  by (cases w)
     (auto simp: workspace_ref_transfer_def workspace_ref_serialize_def wire_redact_def
        workspace_ref_deserialize_def workspace_ref_validate_def ws_pathless_def result_simps
        binding_redact_id split: if_splits)

lemma issue_valid:
  "workspace_binding_fact_issue sha b = Inr b' \<Longrightarrow> workspace_binding_fact_validate sha b' = Inr ()"
  by (auto simp: workspace_binding_fact_issue_def Let_def result_simps)

lemma task_facts_new_valid:
  assumes "task_facts_new sha fresh env title desc proj ws asg at = Inr t"
  shows "validate_for_create sha (t \<lparr> tk_revision := 1 \<rparr>) = Inr ()"
proof -
  have desc: "canonicalize_description desc = Inr d \<Longrightarrow>
      \<not> (case d of Some v \<Rightarrow> \<not> is_canonical v | None \<Rightarrow> False)" for d
    by (auto simp: canonicalize_description_def result_simps canonicalize_Some_iff split: option.splits)
  show ?thesis
    using assms desc
    by (auto simp: task_facts_new_def validate_for_create_def validate_content_def result_simps
        canonicalize_title_def canonicalize_Some_iff)
qed

section \<open>Properties\<close>

text \<open>A workspace reference that crosses a durable or network boundary: when it crosses at all,
  the host's private paths and identities are gone, what arrives is valid and carries the
  same repository fingerprint, and crossing again changes nothing.\<close>

lemma workspace_transfer_keeps_identity:
  assumes "workspace_ref_transfer sha w = Inr w'"
  shows "ws_pathless w' \<and> workspace_ref_validate sha w' = Inr ()
    \<and> ws_repository_fingerprint w' = ws_repository_fingerprint w
    \<and> workspace_ref_transfer sha w' = Inr w'"
  using transfer_pathless[OF assms] transfer_idem by blast

text \<open>A binding cannot be altered unnoticed: \<open>validate\<close> accepts a binding only with the
  fingerprint of its own facts, and the fingerprint does not read the host's private paths, so
  two bindings that differ only there have the same one.\<close>

lemma binding_fingerprint_authentic:
  assumes "workspace_binding_fact_validate sha b = Inr ()"
  shows "compute_fingerprint sha b = Inr (wb_binding_fingerprint b)
    \<and> compute_fingerprint sha (binding_redact b) = Inr (wb_binding_fingerprint b)
    \<and> workspace_binding_fact_validate sha (binding_redact b) = Inr ()
    \<and> same_runtime_identity b (binding_redact b)"
proof -
  have "compute_fingerprint sha b = Inr (wb_binding_fingerprint b)"
    using assms by (auto simp: workspace_binding_fact_validate_def result_simps split: if_splits)
  then show ?thesis using binding_validate_redact[OF assms] same_runtime_identity_redact by simp
qed

end
