(* ===== verification/Agent.thy ===== *)
theory Agent
  imports Task_Facts
begin

text \<open>
  \<open>src/domain/agent.rs\<close> and the provider kinds of \<open>src/providers/capabilities.rs\<close>: agent
  sessions, their roles, and the opaque provider-issued session identity.
\<close>

section \<open>Providers and session identities\<close>

datatype provider_kind = ClaudeCode | Codex | Cursor

definition wire_name :: "provider_kind \<Rightarrow> rstr" where
  "wire_name k = (case k of ClaudeCode \<Rightarrow> lit ''claude'' | Codex \<Rightarrow> lit ''codex'' | Cursor \<Rightarrow> lit ''cursor'')"

definition parse_wire :: "rstr \<Rightarrow> provider_kind option" where
  "parse_wire value =
     (if value = lit ''claude'' then Some ClaudeCode
      else if value = lit ''codex'' then Some Codex
      else if value = lit ''cursor'' then Some Cursor
      else None)"

definition MAX_PROVIDER_SESSION_ID_BYTES :: nat where
  "MAX_PROVIDER_SESSION_ID_BYTES = 256"

datatype provider_session_id_error = PsEmpty | PsContainsControlCharacter | PsTooLong | PsNonCanonical

datatype provider_session_id = ProviderSessionId (session_str: rstr)

definition is_unsafe_provider_session_character :: "rchar \<Rightarrow> bool" where
  "is_unsafe_provider_session_character c \<longleftrightarrow>
     is_control c \<or> 0x200b \<le> c \<and> c \<le> 0x200f \<or> 0x202a \<le> c \<and> c \<le> 0x202e \<or> c = 0x2060
     \<or> 0x2061 \<le> c \<and> c \<le> 0x2064 \<or> 0x2066 \<le> c \<and> c \<le> 0x2069 \<or> c = 0xfeff"

definition provider_session_id_new :: "rstr \<Rightarrow> provider_session_id_error + provider_session_id" where
  "provider_session_id_new value =
     (if value = [] then Inl PsEmpty
      else if trim value \<noteq> value then Inl PsNonCanonical
      else if str_len value > MAX_PROVIDER_SESSION_ID_BYTES then Inl PsTooLong
      else if list_ex is_unsafe_provider_session_character value then Inl PsContainsControlCharacter
      else Inr (ProviderSessionId value))"

definition provider_session_id_validate :: "provider_session_id \<Rightarrow> provider_session_id_error + unit" where
  "provider_session_id_validate s = map_ok (\<lambda>_. ()) (provider_session_id_new (session_str s))"

section \<open>Agent sessions\<close>

datatype agent_validation_error =
    EmptyProviderKind | UnsupportedProviderKind | NonCanonicalProviderKind
  | EmptyProviderSessionId | EmptySpecialistName | InvalidRegistrationState

datatype specialist_permission = ReadOnly | IsolatedWrite | SharedWrite bool

datatype agent_role = Primary | Specialist rstr

definition agent_role_specialist :: "rstr \<Rightarrow> agent_validation_error + agent_role" where
  "agent_role_specialist name =
     rbind (ok_or (bounded_canonical name) EmptySpecialistName) (\<lambda>n. Inr (Specialist n))"

definition agent_role_validate :: "agent_role \<Rightarrow> agent_validation_error + unit" where
  "agent_role_validate r =
     (case r of
        Primary \<Rightarrow> Inr ()
      | Specialist name \<Rightarrow> if is_bounded_canonical name then Inr () else Inl EmptySpecialistName)"

datatype agent_session_lifecycle = AgOpen | AgClosing | AgClosed

record agent_session_facts =
  ag_id :: agent_session_id
  ag_task_id :: task_id
  ag_role :: agent_role
  ag_provider_kind :: provider_kind
  ag_provider_session_id :: "provider_session_id option"
  ag_lifecycle :: agent_session_lifecycle
  ag_runtime_generation :: u64
  ag_revision :: u64

definition validate_provider_session_id ::
  "provider_session_id option \<Rightarrow> agent_validation_error + provider_session_id option" where
  "validate_provider_session_id ps =
     (case ps of
        Some session \<Rightarrow>
          rbind (map_err (\<lambda>_. EmptyProviderSessionId) (provider_session_id_validate session)) (\<lambda>_.
            if \<not> is_canonical (session_str session) then Inl EmptyProviderSessionId
            else Inr (Some session))
      | None \<Rightarrow> Inr None)"

definition agent_validate :: "agent_session_facts \<Rightarrow> agent_validation_error + unit" where
  "agent_validate a =
     rbind (agent_role_validate (ag_role a)) (\<lambda>_.
       case ag_provider_session_id a of
         Some session \<Rightarrow>
           if \<not> is_canonical (session_str session) then Inl EmptyProviderSessionId else Inr ()
       | None \<Rightarrow> Inr ())"

definition agent_session_facts_new ::
  "agent_session_id \<Rightarrow> task_id \<Rightarrow> agent_role \<Rightarrow> provider_kind \<Rightarrow> provider_session_id option
     \<Rightarrow> agent_validation_error + agent_session_facts" where
  "agent_session_facts_new fresh task role kind ps =
     rbind (validate_provider_session_id ps) (\<lambda>ps.
     rbind (agent_role_validate role) (\<lambda>_.
       let facts = \<lparr> ag_id = fresh, ag_task_id = task, ag_role = role, ag_provider_kind = kind,
                     ag_provider_session_id = ps, ag_lifecycle = AgOpen,
                     ag_runtime_generation = 0, ag_revision = 0 \<rparr>
       in rbind (agent_validate facts) (\<lambda>_. Inr facts)))"

definition canonicalize_provider_kind :: "rstr \<Rightarrow> agent_validation_error + provider_kind" where
  "canonicalize_provider_kind value =
     (if value = [] then Inl EmptyProviderKind
      else case parse_wire value of
          Some k \<Rightarrow> Inr k
        | None \<Rightarrow> Inl (if value = lit ''claude_code'' then NonCanonicalProviderKind
                       else UnsupportedProviderKind))"

definition canonicalize_provider_session_id ::
  "rstr option \<Rightarrow> agent_validation_error + provider_session_id option" where
  "canonicalize_provider_session_id value =
     (case value of
        Some session \<Rightarrow>
          rbind (map_err (\<lambda>_. EmptyProviderSessionId) (provider_session_id_new session)) (\<lambda>s. Inr (Some s))
      | None \<Rightarrow> Inr None)"

definition validate_for_registration :: "agent_session_facts \<Rightarrow> agent_validation_error + unit" where
  "validate_for_registration a =
     rbind (agent_validate a) (\<lambda>_.
       if ag_lifecycle a \<noteq> AgOpen \<or> ag_revision a \<noteq> 0 then Inl InvalidRegistrationState else Inr ())"

section \<open>Facts\<close>

lemma parse_wire_name [simp]: "parse_wire (wire_name k) = Some k"
  by (cases k) (simp_all add: parse_wire_def wire_name_def lit_def)

lemma provider_session_id_new_Inr:
  "provider_session_id_new v = Inr s \<longleftrightarrow> s = ProviderSessionId v \<and> provider_session_id_validate s = Inr ()"
  by (auto simp: provider_session_id_validate_def provider_session_id_new_def)

lemma provider_session_id_canonical:
  "provider_session_id_validate s = Inr u \<Longrightarrow> is_canonical (session_str s)"
  by (auto simp: provider_session_id_validate_def provider_session_id_new_def is_canonical_def
      result_simps split: if_splits)

lemma agent_session_facts_new_registrable:
  assumes "agent_session_facts_new fresh task role kind ps = Inr a"
  shows "validate_for_registration a = Inr ()"
  using assms by (auto simp: agent_session_facts_new_def validate_for_registration_def Let_def result_simps)
end
