(* ===== verification/Resource.thy ===== *)
theory Resource
  imports Agent
begin

text \<open>
  \<open>src/domain/resource.rs\<close>, \<open>src/domain/terminal_facts.rs\<close> and \<open>src/domain/agent_resource.rs\<close>:
  task-owned resources and their recipes, the recorded facts of a terminal, the ordered
  strip of plain shells, and the binding between an agent and its provider terminal.
\<close>

section \<open>Recipes\<close>

datatype resource_validation_error =
    InvalidTerminalGeometry | InvalidTerminalLaunch | InvalidTerminalTitle | EmptyRecipe
  | OwnerBinding | KindRecipeMismatch | InvalidRegistrationLifecycle

datatype owner_kind = OwnerTask | OwnerHost
datatype resource_kind = KTerminal | KBrowserContext | KService
datatype resource_lifecycle = RsActive | RsReleasing | RsReleased

definition MAX_TERMINAL_TITLE_CHARS :: nat where "MAX_TERMINAL_TITLE_CHARS = 64"

definition validate_terminal_title :: "rstr \<Rightarrow> resource_validation_error + unit" where
  "validate_terminal_title title =
     (if trim title \<noteq> title \<or> title = [] \<or> length title > MAX_TERMINAL_TITLE_CHARS
      then Inl InvalidTerminalTitle else Inr ())"

record terminal_launch =
  tl_cwd :: path
  tl_program :: path
  tl_args :: "rstr list"

text \<open>\<open>Path::is_absolute\<close> of the Unix targets: the path starts with a slash.\<close>

definition path_is_absolute :: "path \<Rightarrow> bool" where
  "path_is_absolute p = (case p of [] \<Rightarrow> False | c # _ \<Rightarrow> c = 47)"

definition terminal_launch_validate :: "terminal_launch \<Rightarrow> resource_validation_error + unit" where
  "terminal_launch_validate l =
     (if \<not> path_is_absolute (tl_cwd l) \<or> tl_program l = [] then Inl InvalidTerminalLaunch else Inr ())"

datatype resource_recipe =
    RTerminal (rt_cols: u16) (rt_rows: u16) (rt_launch: "terminal_launch option") (rt_title: "rstr option")
  | RBrowser (rb_start_url: rstr) (rb_context_id: "browser_context_id option")
  | RService (rv_command: rstr)

definition recipe_terminal :: "u16 \<Rightarrow> u16 \<Rightarrow> resource_recipe" where
  "recipe_terminal cols rows = RTerminal cols rows None None"

definition is_plain_shell :: "resource_recipe \<Rightarrow> bool" where
  "is_plain_shell r = (case r of RTerminal _ _ launch _ \<Rightarrow> is_some launch | _ \<Rightarrow> False)"

definition canonical_title :: "rstr option \<Rightarrow> resource_validation_error + rstr option" where
  "canonical_title title =
     (case title of
        None \<Rightarrow> Inr None
      | Some raw \<Rightarrow>
          let trimmed = trim raw
          in if trimmed = [] \<or> length trimmed > MAX_TERMINAL_TITLE_CHARS then Inl InvalidTerminalTitle
             else Inr (Some trimmed))"

definition recipe_browser :: "rstr \<Rightarrow> resource_validation_error + resource_recipe" where
  "recipe_browser start_url =
     rbind (ok_or (canonicalize start_url) EmptyRecipe) (\<lambda>u. Inr (RBrowser u None))"

definition recipe_service :: "rstr \<Rightarrow> resource_validation_error + resource_recipe" where
  "recipe_service command =
     rbind (ok_or (canonicalize command) EmptyRecipe) (\<lambda>c. Inr (RService c))"

definition recipe_canonicalize :: "resource_recipe \<Rightarrow> resource_validation_error + resource_recipe" where
  "recipe_canonicalize r =
     (case r of
        RTerminal cols rows launch title \<Rightarrow>
          if cols = 0 \<or> rows = 0 then Inl InvalidTerminalGeometry
          else rbind (case launch of None \<Rightarrow> Inr () | Some l \<Rightarrow> terminal_launch_validate l) (\<lambda>_.
               rbind (canonical_title title) (\<lambda>title.
                 if launch = None \<and> is_some title then Inl InvalidTerminalTitle
                 else Inr (RTerminal cols rows launch title)))
      | RBrowser start_url context_id \<Rightarrow>
          rbind (ok_or (canonicalize start_url) EmptyRecipe) (\<lambda>u. Inr (RBrowser u context_id))
      | RService command \<Rightarrow> recipe_service command)"

definition recipe_validate :: "resource_recipe \<Rightarrow> resource_validation_error + unit" where
  "recipe_validate r =
     (case r of
        RTerminal cols rows launch title \<Rightarrow>
          if cols = 0 \<or> rows = 0 then Inl InvalidTerminalGeometry
          else rbind (case launch of None \<Rightarrow> Inr () | Some l \<Rightarrow> terminal_launch_validate l) (\<lambda>_.
            case title of
              None \<Rightarrow> Inr ()
            | Some t \<Rightarrow> if launch = None then Inl InvalidTerminalTitle else validate_terminal_title t)
      | RBrowser start_url _ \<Rightarrow> if is_canonical start_url then Inr () else Inl EmptyRecipe
      | RService command \<Rightarrow> if is_canonical command then Inr () else Inl EmptyRecipe)"

section \<open>Resource facts\<close>

record resource_facts =
  rs_id :: resource_id
  rs_task_id :: "task_id option"
  rs_owner_kind :: owner_kind
  rs_resource_kind :: resource_kind
  rs_recipe :: resource_recipe
  rs_lifecycle :: resource_lifecycle
  rs_runtime_generation :: u64
  rs_updated_at_ms :: int

definition resource_validate :: "resource_facts \<Rightarrow> resource_validation_error + unit" where
  "resource_validate r =
     rbind (case (rs_owner_kind r, rs_task_id r) of
              (OwnerTask, Some _) \<Rightarrow> Inr ()
            | (OwnerHost, None) \<Rightarrow> Inr ()
            | _ \<Rightarrow> Inl OwnerBinding) (\<lambda>_.
       case (rs_resource_kind r, rs_recipe r) of
         (KTerminal, RTerminal _ _ _ _) \<Rightarrow> recipe_validate (rs_recipe r)
       | (KBrowserContext, RBrowser _ _) \<Rightarrow> recipe_validate (rs_recipe r)
       | (KService, RService _) \<Rightarrow> recipe_validate (rs_recipe r)
       | _ \<Rightarrow> Inl KindRecipeMismatch)"

definition resource_facts_new ::
  "resource_id \<Rightarrow> task_id option \<Rightarrow> owner_kind \<Rightarrow> resource_kind \<Rightarrow> resource_recipe \<Rightarrow> int
     \<Rightarrow> resource_validation_error + resource_facts" where
  "resource_facts_new fresh task owner kind recipe at =
     rbind (recipe_canonicalize recipe) (\<lambda>recipe.
       let facts = \<lparr> rs_id = fresh, rs_task_id = task, rs_owner_kind = owner,
                     rs_resource_kind = kind, rs_recipe = recipe, rs_lifecycle = RsActive,
                     rs_runtime_generation = 0, rs_updated_at_ms = at \<rparr>
       in rbind (resource_validate facts) (\<lambda>_. Inr facts))"

definition resource_validate_for_registration :: "resource_facts \<Rightarrow> resource_validation_error + unit" where
  "resource_validate_for_registration r =
     rbind (resource_validate r) (\<lambda>_.
       if rs_owner_kind r \<noteq> OwnerTask then Inl OwnerBinding
       else if rs_lifecycle r \<noteq> RsActive then Inl InvalidRegistrationLifecycle
       else Inr ())"

section \<open>Terminal facts and the strip\<close>

definition MAX_PLAIN_SHELLS_PER_TASK :: nat where "MAX_PLAIN_SHELLS_PER_TASK = 8"
definition TERMINAL_CWD_DEBOUNCE_MS :: int where "TERMINAL_CWD_DEBOUNCE_MS = 2000"
definition TERMINAL_ACTIVITY_COALESCE_MS :: int where "TERMINAL_ACTIVITY_COALESCE_MS = 30000"

record terminal_exit =
  te_code :: "32 word option"
  te_summary :: rstr
  te_at_ms :: int

record terminal_facts =
  tf_resource_id :: resource_id
  tf_title :: "rstr option"
  tf_live_cwd :: "path option"
  tf_exit :: "terminal_exit option"
  tf_created_at_ms :: int
  tf_last_activity_at_ms :: int

datatype host_terminal_fact = HCwd path | HExit "32 word option" rstr | HActivity

definition terminal_facts_registered :: "resource_id \<Rightarrow> rstr option \<Rightarrow> int \<Rightarrow> terminal_facts" where
  "terminal_facts_registered rid title at =
     \<lparr> tf_resource_id = rid, tf_title = title, tf_live_cwd = None, tf_exit = None,
       tf_created_at_ms = at, tf_last_activity_at_ms = at \<rparr>"

record task_terminal_strip =
  ts_order :: "resource_id list"
  ts_focused :: "resource_id option"

definition strip_default :: task_terminal_strip where
  "strip_default = \<lparr> ts_order = [], ts_focused = None \<rparr>"

datatype terminal_strip_error =
    StripDuplicate resource_id | StripFocusedNotInOrder resource_id | StripNotATerminal resource_id
  | StripForeignTask resource_id | StripTooManyTerminals nat

fun strip_check_order ::
  "task_id \<Rightarrow> (resource_id, resource_facts) bmap \<Rightarrow> resource_id bset \<Rightarrow> resource_id list
     \<Rightarrow> terminal_strip_error + resource_id bset" where
  "strip_check_order task resources seen [] = Inr seen"
| "strip_check_order task resources seen (i # rest) =
     (if bcontains seen i then Inl (StripDuplicate i)
      else case bget resources i of
          None \<Rightarrow> Inl (StripForeignTask i)
        | Some facts \<Rightarrow>
            if rs_task_id facts \<noteq> Some task then Inl (StripForeignTask i)
            else if rs_resource_kind facts \<noteq> KTerminal \<or> \<not> is_plain_shell (rs_recipe facts)
            then Inl (StripNotATerminal i)
            else strip_check_order task resources (bs_insert i seen) rest)"

definition strip_validate ::
  "task_id \<Rightarrow> (resource_id, resource_facts) bmap \<Rightarrow> task_terminal_strip \<Rightarrow> terminal_strip_error + unit" where
  "strip_validate task resources strip =
     (if length (ts_order strip) > MAX_PLAIN_SHELLS_PER_TASK
      then Inl (StripTooManyTerminals (length (ts_order strip)))
      else rbind (strip_check_order task resources bempty (ts_order strip)) (\<lambda>seen.
        case ts_focused strip of
          None \<Rightarrow> Inr ()
        | Some focused \<Rightarrow>
            if \<not> bcontains seen focused then Inl (StripFocusedNotInOrder focused) else Inr ()))"

definition strip_remove :: "resource_id \<Rightarrow> task_terminal_strip \<Rightarrow> task_terminal_strip" where
  "strip_remove i strip =
     \<lparr> ts_order = filter (\<lambda>j. j \<noteq> i) (ts_order strip),
       ts_focused = (if ts_focused strip = Some i then None else ts_focused strip) \<rparr>"

section \<open>Agent resources\<close>

record agent_resource_binding =
  ab_task_id :: task_id
  ab_agent_session_id :: agent_session_id
  ab_resource_id :: resource_id
  ab_provider_kind :: provider_kind
  ab_runtime_generation :: u64

datatype agent_resource_binding_error =
    ResourceTaskMismatch | ResourceMustBeTaskOwned | ResourceMustBeTerminal
  | ResourceMustNotBePlainShell | AgentMustBeOpen | ResourceMustBeActive | RuntimeGenerationMismatch

definition binding_from_facts ::
  "agent_session_facts \<Rightarrow> resource_facts \<Rightarrow> agent_resource_binding_error + agent_resource_binding" where
  "binding_from_facts agent resource =
     (if rs_task_id resource \<noteq> Some (ag_task_id agent) then
        (if is_some (rs_task_id resource) then Inl ResourceTaskMismatch else Inl ResourceMustBeTaskOwned)
      else if rs_owner_kind resource \<noteq> OwnerTask then Inl ResourceMustBeTaskOwned
      else if rs_resource_kind resource \<noteq> KTerminal then Inl ResourceMustBeTerminal
      else if is_plain_shell (rs_recipe resource) then Inl ResourceMustNotBePlainShell
      else if ag_lifecycle agent \<noteq> AgOpen then Inl AgentMustBeOpen
      else if rs_lifecycle resource \<noteq> RsActive then Inl ResourceMustBeActive
      else if ag_runtime_generation agent \<noteq> rs_runtime_generation resource
      then Inl RuntimeGenerationMismatch
      else Inr \<lparr> ab_task_id = ag_task_id agent, ab_agent_session_id = ag_id agent,
                 ab_resource_id = rs_id resource, ab_provider_kind = ag_provider_kind agent,
                 ab_runtime_generation = ag_runtime_generation agent \<rparr>)"

definition provider_candidate :: "agent_session_facts \<Rightarrow> resource_facts \<Rightarrow> bool" where
  "provider_candidate agent r \<longleftrightarrow>
     rs_task_id r = Some (ag_task_id agent) \<and> rs_owner_kind r = OwnerTask
     \<and> rs_resource_kind r = KTerminal \<and> \<not> is_plain_shell (rs_recipe r)
     \<and> rs_lifecycle r = RsActive \<and> rs_runtime_generation r = ag_runtime_generation agent"

definition provider_terminal_resource ::
  "(resource_id, resource_facts) bmap \<Rightarrow> agent_session_facts \<Rightarrow> nat + resource_facts option" where
  "provider_terminal_resource resources agent =
     (case filter (provider_candidate agent) (bvalues resources) of
        [] \<Rightarrow> Inr None
      | [one] \<Rightarrow> Inr (Some one)
      | many \<Rightarrow> Inl (length many))"

section \<open>Facts\<close>

lemma recipe_canonicalize_valid:
  assumes "recipe_canonicalize r = Inr r'"
  shows "recipe_validate r' = Inr ()"
  using assms
  by (cases r)
     (auto simp: recipe_canonicalize_def recipe_validate_def canonical_title_def recipe_service_def
       validate_terminal_title_def Let_def result_simps canonicalize_Some_iff
       split: option.splits if_splits)

lemma recipe_validate_canonical:
  assumes "recipe_validate r = Inr ()"
  shows "recipe_canonicalize r = Inr r"
  using assms
  by (cases r)
     (auto simp: recipe_canonicalize_def recipe_validate_def canonical_title_def recipe_service_def
       validate_terminal_title_def Let_def result_simps canonicalize_canonical
       split: option.splits if_splits)

lemma recipe_title_needs_launch:
  assumes "recipe_validate (RTerminal cols rows launch title) = Inr ()" "title \<noteq> None"
  shows "launch \<noteq> None"
  using assms by (auto simp: recipe_validate_def result_simps split: if_splits option.splits)

lemma resource_facts_new_registrable:
  assumes "resource_facts_new fresh task OwnerTask kind recipe at = Inr r"
  shows "resource_validate_for_registration r = Inr ()"
  using assms
  by (auto simp: resource_facts_new_def resource_validate_for_registration_def Let_def result_simps)

lemma strip_check_order_Inr:
  assumes "strip_check_order task rm seen xs = Inr seen'"
  shows "distinct xs \<and> (\<forall>i\<in>set xs. \<not> bcontains seen i \<and>
           (\<exists>f. bget rm i = Some f \<and> rs_task_id f = Some task \<and> rs_resource_kind f = KTerminal
              \<and> is_plain_shell (rs_recipe f)))
       \<and> (\<forall>i. bcontains seen' i \<longleftrightarrow> bcontains seen i \<or> i \<in> set xs)"
  using assms
  by (induction task rm seen xs rule: strip_check_order.induct) (auto split: if_splits option.splits)

lemma strip_check_order_ok:
  assumes "distinct xs"
    and "\<And>i. i \<in> set xs \<Longrightarrow> \<not> bcontains seen i \<and>
           (\<exists>f. bget rm i = Some f \<and> rs_task_id f = Some task \<and> rs_resource_kind f = KTerminal
              \<and> is_plain_shell (rs_recipe f))"
  shows "\<exists>s. strip_check_order task rm seen xs = Inr s"
  using assms
proof (induction xs arbitrary: seen)
  case (Cons i xs)
  then obtain f where "bget rm i = Some f" "rs_task_id f = Some task"
    "rs_resource_kind f = KTerminal" "is_plain_shell (rs_recipe f)" "\<not> bcontains seen i"
    by fastforce
  moreover have "\<exists>s. strip_check_order task rm (bs_insert i seen) xs = Inr s"
    using Cons.prems by (intro Cons.IH) auto
  ultimately show ?case by simp
qed simp

definition strip_wf :: "task_id \<Rightarrow> (resource_id, resource_facts) bmap \<Rightarrow> task_terminal_strip \<Rightarrow> bool" where
  "strip_wf task rm strip \<longleftrightarrow>
     length (ts_order strip) \<le> MAX_PLAIN_SHELLS_PER_TASK \<and> distinct (ts_order strip)
     \<and> (\<forall>i\<in>set (ts_order strip). \<exists>f. bget rm i = Some f \<and> rs_task_id f = Some task
          \<and> rs_resource_kind f = KTerminal \<and> is_plain_shell (rs_recipe f))
     \<and> (\<forall>i. ts_focused strip = Some i \<longrightarrow> i \<in> set (ts_order strip))"

lemma strip_validate_iff: "strip_validate task rm strip = Inr () \<longleftrightarrow> strip_wf task rm strip"
proof
  assume "strip_validate task rm strip = Inr ()"
  then show "strip_wf task rm strip"
    by (auto simp: strip_validate_def strip_wf_def result_simps dest!: strip_check_order_Inr
        split: if_splits option.splits)
next
  assume wf: "strip_wf task rm strip"
  then obtain s where s: "strip_check_order task rm bempty (ts_order strip) = Inr s"
    using strip_check_order_ok[of "ts_order strip" bempty rm task] by (auto simp: strip_wf_def)
  then show "strip_validate task rm strip = Inr ()"
    using wf strip_check_order_Inr[OF s]
    by (auto simp: strip_validate_def strip_wf_def split: option.splits)
qed

lemma strip_remove_wf:
  "strip_wf task rm strip \<Longrightarrow> strip_wf task rm (strip_remove i strip)"
  by (auto simp: strip_wf_def strip_remove_def intro: order_trans[OF length_filter_le])

lemma provider_terminal_resource_sound:
  assumes "provider_terminal_resource resources agent = Inr (Some r)" "ag_lifecycle agent = AgOpen"
  shows "r \<in> set (bvalues resources) \<and> is_ok (binding_from_facts agent r)"
proof -
  have "filter (provider_candidate agent) (bvalues resources) = [r]"
    using assms(1) by (auto simp: provider_terminal_resource_def split: list.splits)
  then have "r \<in> set (filter (provider_candidate agent) (bvalues resources))" by simp
  then show ?thesis using assms(2) by (auto simp: binding_from_facts_def provider_candidate_def)
qed

lemma provider_terminal_resource_complete:
  assumes "bget resources i = Some r" "binding_from_facts agent r = Inr b"
  shows "provider_terminal_resource resources agent \<noteq> Inr None"
    and "provider_terminal_resource resources agent = Inr (Some r') \<Longrightarrow> r' = r"
proof -
  have "provider_candidate agent r"
    using assms(2) by (auto simp: binding_from_facts_def provider_candidate_def split: if_splits)
  moreover have "r \<in> set (bvalues resources)" using assms(1) by (auto simp: in_bvalues_iff)
  ultimately have mem: "r \<in> set (filter (provider_candidate agent) (bvalues resources))" by simp
  show "provider_terminal_resource resources agent \<noteq> Inr None"
    using mem unfolding provider_terminal_resource_def
    by (cases "filter (provider_candidate agent) (bvalues resources)") (auto split: list.splits simp del: set_filter)
  show "provider_terminal_resource resources agent = Inr (Some r') \<Longrightarrow> r' = r"
    using mem unfolding provider_terminal_resource_def
    by (cases "filter (provider_candidate agent) (bvalues resources)") (auto split: list.splits simp del: set_filter)
qed

section \<open>Properties\<close>

text \<open>\<open>ResourceRecipe\<close>: the recipes that \<open>validate\<close> accepts are exactly the fixed points of
  \<open>canonicalize\<close>, and whatever \<open>canonicalize\<close> returns is one of them.\<close>

lemma recipe_canonical_iff:
  "(recipe_validate r = Inr () \<longleftrightarrow> recipe_canonicalize r = Inr r)
   \<and> (case recipe_canonicalize r of Inl _ \<Rightarrow> True | Inr r' \<Rightarrow> recipe_canonicalize r' = Inr r')"
  using recipe_canonicalize_valid recipe_validate_canonical by (auto split: sum.split)

text \<open>\<open>TaskTerminalStrip::validate\<close> accepts a strip exactly when it has at most eight entries,
  no entry twice, a focus among its entries, and every entry is a plain shell of the task.\<close>

lemma strip_validate_exact:
  "strip_validate task resources strip = Inr () \<longleftrightarrow>
     length (ts_order strip) \<le> 8 \<and> distinct (ts_order strip)
     \<and> (case ts_focused strip of None \<Rightarrow> True | Some i \<Rightarrow> List.member (ts_order strip) i)
     \<and> list_all (\<lambda>i. case bget resources i of
          None \<Rightarrow> False
        | Some f \<Rightarrow> rs_task_id f = Some task \<and> rs_resource_kind f = KTerminal \<and> is_plain_shell (rs_recipe f))
        (ts_order strip)"
  unfolding strip_validate_iff strip_wf_def
  by (auto simp: list_all_iff MAX_PLAIN_SHELLS_PER_TASK_def split: option.splits)

lemma provider_candidate_binding:
  "ag_lifecycle agent = AgOpen \<Longrightarrow> provider_candidate agent = (\<lambda>r. is_ok (binding_from_facts agent r))"
  by (auto simp: provider_candidate_def binding_from_facts_def)

text \<open>\<open>provider_terminal_resource\<close> agrees with \<open>AgentResourceBinding::from_facts\<close>, which states the
  same conditions a second time: for an open agent it returns the one resource that binds,
  nothing when none does, and the number of them when there are several.\<close>

lemma provider_terminal_is_the_binding_one:
  assumes "ag_lifecycle agent = AgOpen"
  shows "provider_terminal_resource resources agent =
     (case filter (\<lambda>r. is_ok (binding_from_facts agent r)) (bvalues resources) of
        [] \<Rightarrow> Inr None
      | [r] \<Rightarrow> Inr (Some r)
      | rs \<Rightarrow> Inl (length rs))"
  unfolding provider_terminal_resource_def provider_candidate_binding[OF assms] ..

end
