(* ===== verification/Provider_Input.thy ===== *)
theory Provider_Input
  imports Resource
begin

text \<open>
  \<open>src/domain/provider_input.rs\<close>: input to a provider, the identity fences that every
  provider event carries, and the bounded per-agent projection with its open question
  and approval, the first-answer-wins maps and the wait records.
\<close>

definition MAX_PROVIDER_INPUT_TEXT_BYTES :: nat where "MAX_PROVIDER_INPUT_TEXT_BYTES = 64 * 1024"
definition MAX_PROVIDER_KIND_BYTES :: nat where "MAX_PROVIDER_KIND_BYTES = 64"
definition MAX_PROVIDER_QUESTION_WINS :: nat where "MAX_PROVIDER_QUESTION_WINS = 256"
definition MAX_PROVIDER_APPROVAL_WINS :: nat where "MAX_PROVIDER_APPROVAL_WINS = 256"
definition MAX_PROVIDER_WAITS :: nat where "MAX_PROVIDER_WAITS = 64"
definition MAX_PROVIDER_IMAGE_ATTACHMENTS :: nat where "MAX_PROVIDER_IMAGE_ATTACHMENTS = 8"
definition MAX_PROVIDER_IMAGE_BYTES :: nat where "MAX_PROVIDER_IMAGE_BYTES = 5 * 1024 * 1024"
definition MAX_PROVIDER_IMAGE_PATH_BYTES :: nat where "MAX_PROVIDER_IMAGE_PATH_BYTES = 4096"

lemmas provider_bounds =
  MAX_PROVIDER_INPUT_TEXT_BYTES_def MAX_PROVIDER_KIND_BYTES_def MAX_PROVIDER_QUESTION_WINS_def
  MAX_PROVIDER_APPROVAL_WINS_def MAX_PROVIDER_WAITS_def MAX_PROVIDER_IMAGE_ATTACHMENTS_def
  MAX_PROVIDER_IMAGE_BYTES_def MAX_PROVIDER_IMAGE_PATH_BYTES_def

datatype provider_input_intent_error =
    PiEmptyText | PiTextTooLarge | PiInconsistentNestedIds | PiUnsupportedProviderKind
  | PiQuestionWinnerLimit | PiApprovalWinnerLimit | PiWaitLimit | PiMissingOperationId
  | PiInvalidFence | PiImageAttachmentInvalid | PiImagesUnsupported | PiTooManyImages

section \<open>Actions\<close>

record provider_image_attachment =
  im_path :: rstr
  im_sha256 :: "u8 list"
  im_byte_len :: u32

definition validate_provider_image_path :: "rstr \<Rightarrow> provider_input_intent_error + unit" where
  "validate_provider_image_path p =
     (if p = [] \<or> str_len p > MAX_PROVIDER_IMAGE_PATH_BYTES then Inl PiImageAttachmentInvalid
      else if list_ex (\<lambda>c. is_control c \<or> c = 0) p then Inl PiImageAttachmentInvalid
      else if \<not> path_is_absolute p then Inl PiImageAttachmentInvalid
      else Inr ())"

definition image_try_new ::
  "rstr \<Rightarrow> u8 list \<Rightarrow> nat \<Rightarrow> provider_input_intent_error + provider_image_attachment" where
  "image_try_new p digest byte_len =
     rbind (validate_provider_image_path p) (\<lambda>_.
       if byte_len = 0 \<or> byte_len > MAX_PROVIDER_IMAGE_BYTES then Inl PiImageAttachmentInvalid
       else if byte_len \<ge> 2 ^ 32 then Inl PiImageAttachmentInvalid
       else Inr \<lparr> im_path = p, im_sha256 = digest, im_byte_len = of_nat byte_len \<rparr>)"

definition provider_kind_from_wire :: "rstr \<Rightarrow> provider_input_intent_error + provider_kind" where
  "provider_kind_from_wire value =
     (if value = [] then Inl PiEmptyText
      else if str_len value > MAX_PROVIDER_KIND_BYTES then Inl PiTextTooLarge
      else if \<not> is_canonical value then Inl PiUnsupportedProviderKind
      else ok_or (parse_wire value) PiUnsupportedProviderKind)"

datatype provider_input_action =
    SendNow rstr bool "provider_image_attachment list"
  | SteerCurrentTurn rstr
  | QueueFollowUp rstr
  | AnswerQuestion question_id rstr
  | ResolveApproval approval_id bool
  | TerminalInput rstr
  | StopTurn

definition waits_for_turn :: "provider_input_action \<Rightarrow> bool" where
  "waits_for_turn a = (case a of SendNow _ wait _ \<Rightarrow> wait | _ \<Rightarrow> False)"

definition validate_provider_text :: "rstr \<Rightarrow> provider_input_intent_error + unit" where
  "validate_provider_text text =
     (if text = [] then Inl PiEmptyText
      else if str_len text > MAX_PROVIDER_INPUT_TEXT_BYTES then Inl PiTextTooLarge
      else Inr ())"

definition validate_image :: "provider_image_attachment \<Rightarrow> provider_input_intent_error + unit" where
  "validate_image img =
     rbind (validate_provider_image_path (im_path img)) (\<lambda>_.
       if im_byte_len img = 0 \<or> unat (im_byte_len img) > MAX_PROVIDER_IMAGE_BYTES
       then Inl PiImageAttachmentInvalid else Inr ())"

definition validate_provider_images ::
  "provider_image_attachment list \<Rightarrow> provider_input_intent_error + unit" where
  "validate_provider_images images =
     (if length images > MAX_PROVIDER_IMAGE_ATTACHMENTS then Inl PiTooManyImages
      else try_each validate_image images)"

definition validate_send_now_payload ::
  "rstr \<Rightarrow> provider_image_attachment list \<Rightarrow> provider_input_intent_error + unit" where
  "validate_send_now_payload text images =
     (if length images > MAX_PROVIDER_IMAGE_ATTACHMENTS then Inl PiTooManyImages
      else rbind (try_each validate_image images) (\<lambda>_.
        if text = [] then (if images = [] then Inl PiEmptyText else Inr ())
        else if str_len text > MAX_PROVIDER_INPUT_TEXT_BYTES then Inl PiTextTooLarge
        else Inr ()))"

definition validate_action_nested_ids ::
  "provider_input_action \<Rightarrow> question_id option \<Rightarrow> approval_id option
     \<Rightarrow> provider_input_intent_error + unit" where
  "validate_action_nested_ids action qid aid =
     (let bare = (if is_some qid \<or> is_some aid then Inl PiInconsistentNestedIds else Inr ())
      in case action of
           SendNow text _ images \<Rightarrow> rbind (validate_send_now_payload text images) (\<lambda>_. bare)
         | SteerCurrentTurn text \<Rightarrow> rbind (validate_provider_text text) (\<lambda>_. bare)
         | QueueFollowUp text \<Rightarrow> rbind (validate_provider_text text) (\<lambda>_. bare)
         | AnswerQuestion nested answer \<Rightarrow>
             rbind (validate_provider_text answer) (\<lambda>_.
               if qid \<noteq> Some nested \<or> is_some aid then Inl PiInconsistentNestedIds else Inr ())
         | ResolveApproval nested _ \<Rightarrow>
             if aid \<noteq> Some nested \<or> is_some qid then Inl PiInconsistentNestedIds else Inr ()
         | TerminalInput text \<Rightarrow> rbind (validate_provider_text text) (\<lambda>_. bare)
         | StopTurn \<Rightarrow> bare)"

text \<open>The validating decoder of an action: what its serde implementation accepts.\<close>

definition provider_input_action_deserialize ::
  "provider_input_action \<Rightarrow> provider_input_intent_error + provider_input_action" where
  "provider_input_action_deserialize wire =
     (case wire of
        SendNow text wait images \<Rightarrow>
          if str_len text > MAX_PROVIDER_INPUT_TEXT_BYTES then Inl PiTextTooLarge
          else rbind (validate_provider_images images) (\<lambda>_.
               rbind (validate_send_now_payload text images) (\<lambda>_. Inr (SendNow text wait images)))
      | SteerCurrentTurn text \<Rightarrow> rbind (validate_provider_text text) (\<lambda>_. Inr wire)
      | QueueFollowUp text \<Rightarrow> rbind (validate_provider_text text) (\<lambda>_. Inr wire)
      | AnswerQuestion _ answer \<Rightarrow> rbind (validate_provider_text answer) (\<lambda>_. Inr wire)
      | ResolveApproval _ _ \<Rightarrow> Inr wire
      | TerminalInput text \<Rightarrow> rbind (validate_provider_text text) (\<lambda>_. Inr wire)
      | StopTurn \<Rightarrow> Inr wire)"

section \<open>Settlements, winners and fences\<close>

datatype provider_intent_phase = PhaseAccepted
datatype provider_delivery_hold_reason = DestinationAdapterNotWired
datatype provider_delivery_visibility = Hold provider_delivery_hold_reason | Delivered

definition is_delivered :: "provider_delivery_visibility \<Rightarrow> bool" where
  "is_delivered d = (case d of Delivered \<Rightarrow> True | Hold _ \<Rightarrow> False)"

record provider_input_settlement =
  ps_command_id :: command_id
  ps_operation_id :: "operation_id option"
  ps_intent :: provider_intent_phase
  ps_delivery :: provider_delivery_visibility

definition intent_accepted_delivery_hold :: "command_id \<Rightarrow> provider_input_settlement" where
  "intent_accepted_delivery_hold c =
     \<lparr> ps_command_id = c, ps_operation_id = None, ps_intent = PhaseAccepted,
       ps_delivery = Hold DestinationAdapterNotWired \<rparr>"

record provider_resolution_winner =
  pw_command_id :: command_id
  pw_client_id :: client_id
  pw_accepted_at_ms :: int

record provider_wait_fence =
  pf_command_id :: command_id
  pf_task_id :: task_id
  pf_operation_id :: "operation_id option"
  pf_action_epoch :: u64
  pf_agent_session_id :: agent_session_id
  pf_provider_kind :: "provider_kind option"
  pf_provider_session_id :: "provider_session_id option"
  pf_runtime_generation :: u64
  pf_turn_id :: turn_id
  pf_question_id :: "question_id option"
  pf_approval_id :: "approval_id option"

record provider_wait_record =
  wr_fence :: provider_wait_fence
  wr_pending :: bool

record provider_fence_identity =
  fi_command_id :: "command_id option"
  fi_task_id :: "task_id option"
  fi_agent_session_id :: agent_session_id
  fi_provider_kind :: "provider_kind option"
  fi_provider_session_id :: "provider_session_id option"
  fi_operation_id :: "operation_id option"
  fi_runtime_generation :: u64
  fi_action_epoch :: u64
  fi_turn_id :: turn_id
  fi_question_id :: "question_id option"
  fi_approval_id :: "approval_id option"

definition wait_fence_identity :: "provider_wait_fence \<Rightarrow> provider_fence_identity" where
  "wait_fence_identity f =
     \<lparr> fi_command_id = Some (pf_command_id f), fi_task_id = Some (pf_task_id f),
       fi_agent_session_id = pf_agent_session_id f, fi_provider_kind = pf_provider_kind f,
       fi_provider_session_id = pf_provider_session_id f, fi_operation_id = pf_operation_id f,
       fi_runtime_generation = pf_runtime_generation f, fi_action_epoch = pf_action_epoch f,
       fi_turn_id = pf_turn_id f, fi_question_id = pf_question_id f,
       fi_approval_id = pf_approval_id f \<rparr>"

record provider_fence_context =
  fc_task_id :: task_id
  fc_agent_session_id :: agent_session_id
  fc_agent_task_id :: task_id
  fc_provider_kind :: provider_kind
  fc_provider_session_id :: "provider_session_id option"
  fc_runtime_generation :: u64
  fc_action_epoch :: u64
  fc_lifecycle :: agent_session_lifecycle
  fc_current_turn :: "turn_id option"
  fc_allow_closing :: bool

datatype provider_fence_error =
    PfTaskMismatch | PfAgentSessionMismatch | PfAgentOwnershipMismatch | PfRuntimeGenerationMismatch
  | PfActionEpochMismatch | PfTurnMismatch | PfAgentNotLive | PfInvalidNestedIds
  | PfWaitFlagMismatch | PfMissingProviderIdentity | PfProviderKindMismatch
  | PfProviderSessionMismatch | PfMissingOperationId

definition fence_context_check ::
  "provider_fence_identity \<Rightarrow> provider_kind \<Rightarrow> provider_fence_context \<Rightarrow> provider_fence_error + unit" where
  "fence_context_check fence kind c =
     (if fi_task_id fence \<noteq> Some (fc_task_id c) then Inl PfTaskMismatch
      else if fi_agent_session_id fence \<noteq> fc_agent_session_id c then Inl PfAgentSessionMismatch
      else if kind \<noteq> fc_provider_kind c then Inl PfProviderKindMismatch
      else if fi_provider_session_id fence \<noteq> fc_provider_session_id c then Inl PfProviderSessionMismatch
      else if fc_agent_task_id c \<noteq> fc_task_id c then Inl PfAgentOwnershipMismatch
      else if fi_runtime_generation fence \<noteq> fc_runtime_generation c then Inl PfRuntimeGenerationMismatch
      else if fi_action_epoch fence \<noteq> fc_action_epoch c then Inl PfActionEpochMismatch
      else if \<not> (fc_lifecycle c = AgOpen \<or> fc_allow_closing c \<and> fc_lifecycle c = AgClosing)
      then Inl PfAgentNotLive
      else case fc_current_turn c of
          None \<Rightarrow> Inr ()
        | Some current_turn \<Rightarrow> if fi_turn_id fence \<noteq> current_turn then Inl PfTurnMismatch else Inr ())"

definition validate_provider_fence ::
  "provider_fence_identity \<Rightarrow> provider_input_action option \<Rightarrow> bool option
     \<Rightarrow> provider_fence_context option \<Rightarrow> provider_fence_error + unit" where
  "validate_provider_fence fence action wait context =
     (case fi_provider_kind fence of
        None \<Rightarrow> Inl PfMissingProviderIdentity
      | Some kind \<Rightarrow>
          if fi_provider_session_id fence = None \<and> kind \<noteq> Codex then Inl PfMissingProviderIdentity
          else if is_some (fi_operation_id fence) \<and> fi_command_id fence = None
          then Inl PfMissingOperationId
          else if is_some (fi_question_id fence) \<and> is_some (fi_approval_id fence)
          then Inl PfInvalidNestedIds
          else rbind
            (case action of
               Some act \<Rightarrow>
                 rbind (map_err (\<lambda>_. PfInvalidNestedIds)
                   (validate_action_nested_ids act (fi_question_id fence) (fi_approval_id fence))) (\<lambda>_.
                   if wait \<noteq> Some (waits_for_turn act) then Inl PfWaitFlagMismatch else Inr ())
             | None \<Rightarrow> if is_some wait then Inl PfWaitFlagMismatch else Inr ())
            (\<lambda>_. rbind
              (case context of None \<Rightarrow> Inr () | Some c \<Rightarrow> fence_context_check fence kind c)
              (\<lambda>_. if is_some action \<and> fi_operation_id fence = None then Inl PfMissingOperationId
                   else Inr ())))"

section \<open>The projection of one provider session\<close>

record provider_session_projection =
  pp_current_turn :: "turn_id option"
  pp_open_question :: "question_id option"
  pp_open_approval :: "approval_id option"
  pp_question_winners :: "(question_id, provider_resolution_winner) bmap"
  pp_approval_winners :: "(approval_id, provider_resolution_winner) bmap"
  pp_waits :: "(command_id, provider_wait_record) bmap"
  pp_last_settlement :: "provider_input_settlement option"

definition projection_default :: provider_session_projection where
  "projection_default =
     \<lparr> pp_current_turn = None, pp_open_question = None, pp_open_approval = None,
       pp_question_winners = bempty, pp_approval_winners = bempty, pp_waits = bempty,
       pp_last_settlement = None \<rparr>"

definition can_begin_send_now_turn :: "provider_session_projection \<Rightarrow> turn_id \<Rightarrow> bool" where
  "can_begin_send_now_turn p turn \<longleftrightarrow>
     (case pp_current_turn p of None \<Rightarrow> True | Some current \<Rightarrow> current = turn)
     \<or> (pp_open_question p = None \<and> pp_open_approval p = None
        \<and> list_all (\<lambda>r. \<not> wr_pending r) (bvalues (pp_waits p))
        \<and> (case pp_last_settlement p of None \<Rightarrow> False | Some s \<Rightarrow> is_delivered (ps_delivery s)))"

definition wait_entry_check ::
  "command_id \<times> provider_wait_record \<Rightarrow> provider_input_intent_error + unit" where
  "wait_entry_check = (\<lambda>(c, record).
     if pf_command_id (wr_fence record) \<noteq> c \<or> pf_operation_id (wr_fence record) = None
     then Inl PiInvalidFence
     else map_err (\<lambda>_. PiInvalidFence)
       (validate_provider_fence (wait_fence_identity (wr_fence record)) None None None))"

definition projection_validate_bounds ::
  "provider_session_projection \<Rightarrow> provider_input_intent_error + unit" where
  "projection_validate_bounds p =
     (if blen (pp_question_winners p) > MAX_PROVIDER_QUESTION_WINS then Inl PiQuestionWinnerLimit
      else if blen (pp_approval_winners p) > MAX_PROVIDER_APPROVAL_WINS then Inl PiApprovalWinnerLimit
      else if blen (pp_waits p) > MAX_PROVIDER_WAITS then Inl PiWaitLimit
      else if (case pp_last_settlement p of None \<Rightarrow> False | Some s \<Rightarrow> ps_operation_id s = None)
      then Inl PiMissingOperationId
      else try_each wait_entry_check (entries (pp_waits p)))"

definition bounded_insert_question_winner ::
  "question_id \<Rightarrow> provider_resolution_winner \<Rightarrow> provider_session_projection
     \<Rightarrow> provider_input_intent_error + provider_session_projection" where
  "bounded_insert_question_winner q winner p =
     (if \<not> bcontains (pp_question_winners p) q
         \<and> blen (pp_question_winners p) \<ge> MAX_PROVIDER_QUESTION_WINS
      then Inl PiQuestionWinnerLimit
      else Inr (p \<lparr> pp_question_winners := binsert q winner (pp_question_winners p),
                    pp_open_question := None \<rparr>))"

definition bounded_insert_approval_winner ::
  "approval_id \<Rightarrow> provider_resolution_winner \<Rightarrow> provider_session_projection
     \<Rightarrow> provider_input_intent_error + provider_session_projection" where
  "bounded_insert_approval_winner a winner p =
     (if \<not> bcontains (pp_approval_winners p) a
         \<and> blen (pp_approval_winners p) \<ge> MAX_PROVIDER_APPROVAL_WINS
      then Inl PiApprovalWinnerLimit
      else Inr (p \<lparr> pp_approval_winners := binsert a winner (pp_approval_winners p),
                    pp_open_approval := None \<rparr>))"

definition pending_waits :: "provider_session_projection \<Rightarrow> nat" where
  "pending_waits p = length (filter wr_pending (bvalues (pp_waits p)))"

definition first_reclaimable :: "provider_session_projection \<Rightarrow> command_id option" where
  "first_reclaimable p =
     map_option fst (List.find (\<lambda>(_, r). \<not> wr_pending r) (entries (pp_waits p)))"

definition bounded_insert_wait ::
  "command_id \<Rightarrow> provider_wait_record \<Rightarrow> provider_session_projection
     \<Rightarrow> provider_input_intent_error + provider_session_projection" where
  "bounded_insert_wait c record p =
     rbind
       (if \<not> bcontains (pp_waits p) c \<and> wr_pending record then
          if pending_waits p \<ge> MAX_PROVIDER_WAITS then Inl PiWaitLimit
          else if blen (pp_waits p) \<ge> MAX_PROVIDER_WAITS then
            (case first_reclaimable p of
               Some reclaim \<Rightarrow> Inr (p \<lparr> pp_waits := bremove reclaim (pp_waits p) \<rparr>)
             | None \<Rightarrow> Inl PiWaitLimit)
          else Inr p
        else Inr p)
       (\<lambda>p. Inr (p \<lparr> pp_waits := binsert c record (pp_waits p) \<rparr>))"

section \<open>Presentation and settlement intents\<close>

record present_provider_question_intent =
  pq_agent_session_id :: agent_session_id
  pq_runtime_generation :: u64
  pq_turn_id :: turn_id
  pq_action_epoch :: u64
  pq_question_id :: question_id

record present_provider_approval_intent =
  pa_agent_session_id :: agent_session_id
  pa_runtime_generation :: u64
  pa_turn_id :: turn_id
  pa_action_epoch :: u64
  pa_approval_id :: approval_id

record settle_provider_wait_intent =
  sw_fence :: provider_wait_fence

section \<open>Facts\<close>

lemma validate_provider_fence_Inr:
  "validate_provider_fence fence action wait context = Inr () \<longleftrightarrow>
     (\<exists>kind. fi_provider_kind fence = Some kind
        \<and> (fi_provider_session_id fence = None \<longrightarrow> kind = Codex)
        \<and> (fi_operation_id fence \<noteq> None \<longrightarrow> fi_command_id fence \<noteq> None)
        \<and> (fi_question_id fence = None \<or> fi_approval_id fence = None)
        \<and> (case action of
             None \<Rightarrow> wait = None
           | Some act \<Rightarrow>
               validate_action_nested_ids act (fi_question_id fence) (fi_approval_id fence) = Inr ()
               \<and> wait = Some (waits_for_turn act) \<and> fi_operation_id fence \<noteq> None)
        \<and> (case context of None \<Rightarrow> True | Some c \<Rightarrow> fence_context_check fence kind c = Inr ()))"
  by (auto simp: validate_provider_fence_def result_simps is_some_iff split: option.splits if_splits)

lemma fence_context_check_Inr:
  "fence_context_check fence kind c = Inr () \<longleftrightarrow>
     fi_task_id fence = Some (fc_task_id c) \<and> fi_agent_session_id fence = fc_agent_session_id c
     \<and> kind = fc_provider_kind c \<and> fi_provider_session_id fence = fc_provider_session_id c
     \<and> fc_agent_task_id c = fc_task_id c \<and> fi_runtime_generation fence = fc_runtime_generation c
     \<and> fi_action_epoch fence = fc_action_epoch c
     \<and> (fc_lifecycle c = AgOpen \<or> fc_allow_closing c \<and> fc_lifecycle c = AgClosing)
     \<and> (fc_current_turn c = None \<or> fc_current_turn c = Some (fi_turn_id fence))"
  by (auto simp: fence_context_check_def split: option.splits if_splits)

lemma wait_fence_identity_sel [simp]:
  "fi_command_id (wait_fence_identity f) = Some (pf_command_id f)"
  "fi_task_id (wait_fence_identity f) = Some (pf_task_id f)"
  "fi_agent_session_id (wait_fence_identity f) = pf_agent_session_id f"
  "fi_provider_kind (wait_fence_identity f) = pf_provider_kind f"
  "fi_provider_session_id (wait_fence_identity f) = pf_provider_session_id f"
  "fi_operation_id (wait_fence_identity f) = pf_operation_id f"
  "fi_runtime_generation (wait_fence_identity f) = pf_runtime_generation f"
  "fi_action_epoch (wait_fence_identity f) = pf_action_epoch f"
  "fi_turn_id (wait_fence_identity f) = pf_turn_id f"
  "fi_question_id (wait_fence_identity f) = pf_question_id f"
  "fi_approval_id (wait_fence_identity f) = pf_approval_id f"
  by (simp_all add: wait_fence_identity_def)

lemma first_reclaimable_Some:
  assumes "first_reclaimable p = Some c"
  shows "\<exists>r. bget (pp_waits p) c = Some r \<and> \<not> wr_pending r"
proof -
  obtain r where "List.find (\<lambda>(_, r). \<not> wr_pending r) (entries (pp_waits p)) = Some (c, r)"
    using assms by (auto simp: first_reclaimable_def)
  then have "(c, r) \<in> set (entries (pp_waits p))" "\<not> wr_pending r"
    by (auto simp: find_Some_iff in_set_conv_nth)
  then show ?thesis by (auto simp: in_entries_iff)
qed

lemma first_reclaimable_None: "first_reclaimable p = None \<longleftrightarrow> (\<forall>r\<in>set (bvalues (pp_waits p)). wr_pending r)"
  by (auto simp: first_reclaimable_def find_None_iff bvalues_def)

lemma reclaim_exists:
  assumes "pending_waits p < blen (pp_waits p)"
  obtains c where "first_reclaimable p = Some c"
proof (cases "first_reclaimable p")
  case None
  then have "filter wr_pending (bvalues (pp_waits p)) = bvalues (pp_waits p)"
    by (auto simp: first_reclaimable_None intro: filter_True)
  with assms show ?thesis by (simp add: pending_waits_def)
qed (use that in blast)

lemma blen_bremove_contains: "bcontains m k \<Longrightarrow> blen (bremove k m) < blen m"
proof -
  assume k: "bcontains m k"
  have "{j. bcontains (bremove k m) j} = {j. bcontains m j} - {k}" by auto
  moreover have "card ({j. bcontains m j} - {k}) < card {j. bcontains m j}"
    using k by (intro card_Diff1_less) auto
  ultimately show ?thesis by (simp add: blen_card)
qed

lemma bounded_insert_wait_ok_iff:
  assumes "blen (pp_waits p) \<le> MAX_PROVIDER_WAITS"
  shows "is_ok (bounded_insert_wait c r p) \<longleftrightarrow>
     bcontains (pp_waits p) c \<or> \<not> wr_pending r \<or> pending_waits p < MAX_PROVIDER_WAITS"
proof -
  have "first_reclaimable p \<noteq> None"
    if "pending_waits p < MAX_PROVIDER_WAITS" "blen (pp_waits p) \<ge> MAX_PROVIDER_WAITS"
    using reclaim_exists[of p] that assms by fastforce
  then show ?thesis
    by (auto simp: bounded_insert_wait_def is_ok_def split: option.splits)
qed

lemma bounded_insert_wait_bound:
  assumes "bounded_insert_wait c r p = Inr p'" "blen (pp_waits p) \<le> MAX_PROVIDER_WAITS"
    and "bcontains (pp_waits p) c \<or> wr_pending r"
  shows "blen (pp_waits p') \<le> MAX_PROVIDER_WAITS"
proof -
  have reclaim: "blen (bremove x (pp_waits p)) < MAX_PROVIDER_WAITS"
    if "first_reclaimable p = Some x" for x
    using blen_bremove_contains[of "pp_waits p" x] first_reclaimable_Some[OF that] assms(2)
    by (auto simp: bcontains_iff)
  show ?thesis
    using assms reclaim
    by (fastforce simp: bounded_insert_wait_def result_simps Suc_le_eq split: if_splits option.splits)
qed

lemma bounded_insert_wait_waits:
  assumes "bounded_insert_wait c r p = Inr p'"
  shows "\<exists>ws. p' = p \<lparr> pp_waits := ws \<rparr> \<and> bget ws c = Some r
    \<and> (\<forall>k. k \<noteq> c \<longrightarrow> bget ws k = bget (pp_waits p) k
          \<or> bget ws k = None \<and> (\<exists>q. bget (pp_waits p) k = Some q \<and> \<not> wr_pending q))"
proof -
  let ?ok = "\<lambda>ws. \<forall>k. k \<noteq> c \<longrightarrow> bget ws k = bget (pp_waits p) k
          \<or> bget ws k = None \<and> (\<exists>q. bget (pp_waits p) k = Some q \<and> \<not> wr_pending q)"
  have "p' = p \<lparr> pp_waits := binsert c r (pp_waits p) \<rparr>
     \<or> (\<exists>x. first_reclaimable p = Some x \<and> p' = p \<lparr> pp_waits := binsert c r (bremove x (pp_waits p)) \<rparr>)"
    using assms by (auto simp: bounded_insert_wait_def result_simps split: if_splits option.splits)
  then show ?thesis
  proof (elim disjE exE conjE)
    fix x assume x: "first_reclaimable p = Some x"
      and p': "p' = p \<lparr> pp_waits := binsert c r (bremove x (pp_waits p)) \<rparr>"
    have "?ok (binsert c r (bremove x (pp_waits p)))"
      using first_reclaimable_Some[OF x] by auto
    then show ?thesis
      by (intro exI[of _ "binsert c r (bremove x (pp_waits p))"]) (simp add: p')
  qed auto
qed

lemma bounded_insert_question_winner_Inr:
  "bounded_insert_question_winner q w p = Inr p' \<longleftrightarrow>
     (bcontains (pp_question_winners p) q \<or> blen (pp_question_winners p) < MAX_PROVIDER_QUESTION_WINS)
     \<and> p' = p \<lparr> pp_question_winners := binsert q w (pp_question_winners p), pp_open_question := None \<rparr>"
  by (auto simp: bounded_insert_question_winner_def)

lemma bounded_insert_approval_winner_Inr:
  "bounded_insert_approval_winner a w p = Inr p' \<longleftrightarrow>
     (bcontains (pp_approval_winners p) a \<or> blen (pp_approval_winners p) < MAX_PROVIDER_APPROVAL_WINS)
     \<and> p' = p \<lparr> pp_approval_winners := binsert a w (pp_approval_winners p), pp_open_approval := None \<rparr>"
  by (auto simp: bounded_insert_approval_winner_def)

lemma provider_input_action_deserialize_idem:
  assumes "provider_input_action_deserialize w = Inr a"
  shows "a = w \<and> provider_input_action_deserialize a = Inr a"
  using assms by (cases w) (auto simp: provider_input_action_deserialize_def result_simps)

lemma provider_input_action_decoded_valid:
  assumes "provider_input_action_deserialize w = Inr a"
  shows "\<exists>q ap. validate_action_nested_ids a q ap = Inr ()"
proof -
  have "validate_action_nested_ids w
      (case w of AnswerQuestion q _ \<Rightarrow> Some q | _ \<Rightarrow> None)
      (case w of ResolveApproval ap _ \<Rightarrow> Some ap | _ \<Rightarrow> None) = Inr ()"
    using assms
    by (cases w) (auto simp: provider_input_action_deserialize_def validate_action_nested_ids_def
        Let_def result_simps)
  then show ?thesis using provider_input_action_deserialize_idem[OF assms] by metis
qed

section \<open>Property\<close>

text \<open>C40. \<open>bounded_insert_wait\<close> of a pending wait into a table within its bound: it is refused only when it is new and
  every slot holds another pending wait; otherwise it is stored, the table stays within its
  bound, and no other pending wait is dropped to make room.\<close>

theorem wait_table_bounded:
  assumes "blen (pp_waits p) \<le> MAX_PROVIDER_WAITS" "wr_pending r"
  shows "case bounded_insert_wait c r p of
     Inl e \<Rightarrow> e = PiWaitLimit \<and> \<not> bcontains (pp_waits p) c \<and> MAX_PROVIDER_WAITS \<le> pending_waits p
   | Inr p' \<Rightarrow> (bcontains (pp_waits p) c \<or> pending_waits p < MAX_PROVIDER_WAITS)
       \<and> blen (pp_waits p') \<le> MAX_PROVIDER_WAITS \<and> bget (pp_waits p') c = Some r
       \<and> (\<forall>k q. k \<noteq> c \<and> bget (pp_waits p) k = Some q \<and> wr_pending q \<longrightarrow> bget (pp_waits p') k = Some q)"
proof (cases "bounded_insert_wait c r p")
  case (Inl e)
  then have "\<not> is_ok (bounded_insert_wait c r p)" by simp
  moreover have "e = PiWaitLimit"
    using Inl by (auto simp: bounded_insert_wait_def result_simps split: if_splits option.splits)
  ultimately show ?thesis using Inl assms bounded_insert_wait_ok_iff[OF assms(1), of c r] by simp
next
  case (Inr p')
  then have "is_ok (bounded_insert_wait c r p)" by simp
  then have room: "bcontains (pp_waits p) c \<or> pending_waits p < MAX_PROVIDER_WAITS"
    using assms bounded_insert_wait_ok_iff[OF assms(1), of c r] by simp
  show ?thesis
    using Inr room bounded_insert_wait_bound[OF Inr assms(1)] assms(2) bounded_insert_wait_waits[OF Inr] by fastforce
qed

definition sample_wait :: provider_wait_record where
  "sample_wait = \<lparr> wr_fence =
       \<lparr> pf_command_id = Id 1, pf_task_id = Id 2, pf_operation_id = Some (Id 3), pf_action_epoch = 0,
         pf_agent_session_id = Id 4, pf_provider_kind = Some Codex, pf_provider_session_id = None,
         pf_runtime_generation = 1, pf_turn_id = Id 5, pf_question_id = None, pf_approval_id = None \<rparr>,
       wr_pending = True \<rparr>"

theorem wait_table_bounded_witness:
  "case bounded_insert_wait (Id 1) sample_wait projection_default of
        Inl _ \<Rightarrow> False | Inr p' \<Rightarrow> bget (pp_waits p') (Id 1) = Some sample_wait"
  using wait_table_bounded[of projection_default sample_wait "Id 1"]
  by (simp add: projection_default_def sample_wait_def pending_waits_def MAX_PROVIDER_WAITS_def split: sum.splits)
end
