(* ===== verification/Artifact.thy ===== *)
theory Artifact
  imports Task_Facts
begin

text \<open>
  \<open>src/domain/artifact.rs\<close>: artifacts and the structured result of a specialist.  The JSON
  decoder of the crate \<open>serde_json\<close> is the parameter \<open>from_json\<close>: it turns a body into the
  wire record of a result, or fails.
\<close>

definition MAX_SPECIALIST_RAW_ARTIFACT_BYTES :: nat where
  "MAX_SPECIALIST_RAW_ARTIFACT_BYTES = 64 * 1024"

datatype artifact_validation_error =
  EmptyLabel | EmptyContent | ContentDigestMismatch | InvalidSpecialistResult

datatype artifact_kind = Specification | Finding | Decision | Evidence | ReviewReport

datatype privacy_class = LocalOnly | Shareable

datatype specialist_status = SpCompleted | SpFailed | SpCancelled

record specialist_result =
  sr_role :: rstr
  sr_status :: specialist_status
  sr_summary :: rstr
  sr_evidence :: "artifact_id list"
  sr_artifacts :: "artifact_id list"
  sr_workspace :: "workspace_ref option"
  sr_commit :: "rstr option"
  sr_requested_follow_up :: "rstr option"

definition is_ascii_hexdigit :: "rchar \<Rightarrow> bool" where
  "is_ascii_hexdigit c \<longleftrightarrow> is_ascii_digit c \<or> 65 \<le> c \<and> c \<le> 70 \<or> 97 \<le> c \<and> c \<le> 102"

definition specialist_result_validate ::
  "sha256_fn \<Rightarrow> specialist_result \<Rightarrow> artifact_validation_error + unit" where
  "specialist_result_validate sha r =
     (if bounded_canonical (sr_role r) = None \<or> bounded_canonical (sr_summary r) = None
      then Inl InvalidSpecialistResult
      else if \<not> specialist_id_refs_ok (length (sr_evidence r))
            \<or> \<not> specialist_id_refs_ok (length (sr_artifacts r))
      then Inl InvalidSpecialistResult
      else if (case sr_commit r of
                 None \<Rightarrow> False
               | Some commit \<Rightarrow>
                   \<not> (str_len commit = 40 \<or> str_len commit = 64) \<or> \<not> list_all is_ascii_hexdigit commit)
      then Inl InvalidSpecialistResult
      else if (case sr_requested_follow_up r of
                 None \<Rightarrow> False | Some follow_up \<Rightarrow> bounded_canonical follow_up = None)
      then Inl InvalidSpecialistResult
      else case sr_workspace r of
          None \<Rightarrow> Inr ()
        | Some w \<Rightarrow> map_err (\<lambda>_. InvalidSpecialistResult) (workspace_ref_validate sha w))"

definition specialist_result_deserialize ::
  "sha256_fn \<Rightarrow> specialist_result \<Rightarrow> artifact_validation_error + specialist_result" where
  "specialist_result_deserialize sha wire =
     rbind (specialist_result_validate sha wire) (\<lambda>_. Inr wire)"

datatype artifact_content_ref = InlineUtf8 rstr | ContentAddressed rstr

definition content_inline_utf8 :: "rstr \<Rightarrow> artifact_validation_error + artifact_content_ref" where
  "content_inline_utf8 body = (if body = [] then Inl EmptyContent else Inr (InlineUtf8 body))"

definition content_addressed :: "rstr \<Rightarrow> artifact_validation_error + artifact_content_ref" where
  "content_addressed digest_hex =
     rbind (ok_or (canonicalize digest_hex) EmptyContent) (\<lambda>d. Inr (ContentAddressed d))"

definition content_canonicalize :: "artifact_content_ref \<Rightarrow> artifact_validation_error + artifact_content_ref" where
  "content_canonicalize c =
     (case c of InlineUtf8 body \<Rightarrow> content_inline_utf8 body | ContentAddressed d \<Rightarrow> content_addressed d)"

definition content_validate :: "artifact_content_ref \<Rightarrow> artifact_validation_error + unit" where
  "content_validate c =
     (case c of
        InlineUtf8 body \<Rightarrow> if body = [] then Inl EmptyContent else Inr ()
      | ContentAddressed d \<Rightarrow> if is_canonical d then Inr () else Inl EmptyContent)"

record artifact_facts =
  ar_id :: artifact_id
  ar_task_id :: task_id
  ar_kind :: artifact_kind
  ar_label :: rstr
  ar_content_ref :: artifact_content_ref
  ar_sha256 :: "u8 list"
  ar_privacy_class :: privacy_class
  ar_created_at_ms :: int

definition structured_specialist_result ::
  "sha256_fn \<Rightarrow> (rstr \<Rightarrow> specialist_result option) \<Rightarrow> artifact_facts
     \<Rightarrow> artifact_validation_error + specialist_result" where
  "structured_specialist_result sha from_json a =
     (case ar_content_ref a of
        InlineUtf8 body \<Rightarrow>
          if str_len body > MAX_SPECIALIST_RAW_ARTIFACT_BYTES then Inl InvalidSpecialistResult
          else rbind (ok_or (from_json body) InvalidSpecialistResult) (\<lambda>wire.
            map_err (\<lambda>_. InvalidSpecialistResult) (specialist_result_deserialize sha wire))
      | ContentAddressed _ \<Rightarrow> Inl InvalidSpecialistResult)"

definition canonicalize_label :: "rstr \<Rightarrow> artifact_validation_error + rstr" where
  "canonicalize_label label = ok_or (canonicalize label) EmptyLabel"

definition artifact_validate :: "artifact_facts \<Rightarrow> artifact_validation_error + unit" where
  "artifact_validate a =
     (if \<not> is_canonical (ar_label a) then Inl EmptyLabel else content_validate (ar_content_ref a))"

definition artifact_facts_new ::
  "artifact_id \<Rightarrow> task_id \<Rightarrow> artifact_kind \<Rightarrow> rstr \<Rightarrow> artifact_content_ref \<Rightarrow> u8 list \<Rightarrow> privacy_class \<Rightarrow> int
     \<Rightarrow> artifact_validation_error + artifact_facts" where
  "artifact_facts_new fresh task kind label content digest privacy at =
     rbind (canonicalize_label label) (\<lambda>label.
     rbind (content_canonicalize content) (\<lambda>content.
       let facts = \<lparr> ar_id = fresh, ar_task_id = task, ar_kind = kind, ar_label = label,
                     ar_content_ref = content, ar_sha256 = digest, ar_privacy_class = privacy,
                     ar_created_at_ms = at \<rparr>
       in rbind (artifact_validate facts) (\<lambda>_. Inr facts)))"

definition verify_inline_content_digest ::
  "sha256_fn \<Rightarrow> artifact_facts \<Rightarrow> artifact_validation_error + unit" where
  "verify_inline_content_digest sha a =
     (case ar_content_ref a of
        InlineUtf8 body \<Rightarrow>
          if sha (str_bytes body) \<noteq> ar_sha256 a then Inl ContentDigestMismatch else Inr ()
      | ContentAddressed _ \<Rightarrow> Inr ())"

record artifact_summary =
  as_id :: artifact_id
  as_task_id :: task_id
  as_kind :: artifact_kind
  as_label :: rstr
  as_sha256 :: "u8 list"
  as_privacy_class :: privacy_class
  as_created_at_ms :: int

definition artifact_summary_from_facts ::
  "sha256_fn \<Rightarrow> artifact_facts \<Rightarrow> artifact_validation_error + artifact_summary" where
  "artifact_summary_from_facts sha a =
     rbind (artifact_validate a) (\<lambda>_.
     rbind (verify_inline_content_digest sha a) (\<lambda>_.
       Inr \<lparr> as_id = ar_id a, as_task_id = ar_task_id a, as_kind = ar_kind a, as_label = ar_label a,
             as_sha256 = ar_sha256 a, as_privacy_class = ar_privacy_class a,
             as_created_at_ms = ar_created_at_ms a \<rparr>))"

lemma content_canonicalize_valid: "content_canonicalize c = Inr d \<Longrightarrow> content_validate d = Inr ()"
  by (cases c)
     (auto simp: content_canonicalize_def content_inline_utf8_def content_addressed_def
       content_validate_def result_simps canonicalize_Some_iff split: if_splits)

lemma content_validate_canonical: "content_validate c = Inr () \<Longrightarrow> content_canonicalize c = Inr c"
  by (cases c)
     (auto simp: content_canonicalize_def content_inline_utf8_def content_addressed_def
       content_validate_def canonicalize_canonical split: if_splits)

lemma artifact_facts_new_valid:
  "artifact_facts_new fresh task kind label content digest privacy at = Inr a \<Longrightarrow> artifact_validate a = Inr ()"
  by (auto simp: artifact_facts_new_def Let_def result_simps)

lemma structured_result_bounded:
  assumes "structured_specialist_result sha from_json a = Inr r"
  shows "specialist_result_validate sha r = Inr () \<and> length (sr_evidence r) \<le> 16 \<and> length (sr_artifacts r) \<le> 16"
  using assms
  by (auto simp: structured_specialist_result_def specialist_result_deserialize_def result_simps
      specialist_result_validate_def specialist_id_refs_ok_def MAX_SPECIALIST_ID_REFS_def
      split: artifact_content_ref.splits if_splits)
end
