(* ===== verification/Journal.thy ===== *)
theory Journal
  imports Prelude
begin

text \<open>
  Event-sourced state: a fallible step over events, replayed from left to right.  The
  locales state what a component promises about one step (it keeps an invariant, it moves
  a state forward in an order, it advances a counter) and prove what then holds of every
  journal it accepts.  They are interpreted by the browser book and by the task aggregate.
\<close>

fun try_fold :: "('e \<Rightarrow> 's \<Rightarrow> 'err + 's) \<Rightarrow> 'e list \<Rightarrow> 's \<Rightarrow> 'err + 's" where
  "try_fold step [] s = Inr s"
| "try_fold step (e # es) s = rbind (step e s) (try_fold step es)"

lemma try_fold_append: "try_fold step (es @ fs) s = rbind (try_fold step es s) (try_fold step fs)"
proof (induction es arbitrary: s)
  case (Cons e es)
  then show ?case by (cases "step e s") simp_all
qed simp

lemma try_fold_Cons_Inr:
  "try_fold step (e # es) s = Inr s' \<longleftrightarrow> (\<exists>s1. step e s = Inr s1 \<and> try_fold step es s1 = Inr s')"
  by (simp add: result_simps)

lemma try_fold_prefix:
  assumes "try_fold step (es @ fs) s = Inr s'"
  shows "\<exists>s1. try_fold step es s = Inr s1 \<and> try_fold step fs s1 = Inr s'"
  using assms by (simp add: try_fold_append result_simps)

locale invariant_journal =
  fixes step :: "'e \<Rightarrow> 's \<Rightarrow> 'err + 's"
    and inv :: "'s \<Rightarrow> bool"
  assumes step_inv: "inv s \<Longrightarrow> step e s = Inr s' \<Longrightarrow> inv s'"
begin

lemma replay_inv:
  assumes "inv s" "try_fold step es s = Inr s'"
  shows "inv s'"
  using assms
proof (induction es arbitrary: s)
  case (Cons e es)
  then obtain s1 where s1: "step e s = Inr s1" "try_fold step es s1 = Inr s'"
    by (auto simp: result_simps)
  then show ?case using Cons.IH Cons.prems(1) step_inv by blast
qed simp

lemma replay_prefix_inv:
  assumes "inv s" "try_fold step (es @ fs) s = Inr s'"
  shows "\<exists>s1. try_fold step es s = Inr s1 \<and> inv s1"
  using try_fold_prefix[OF assms(2)] replay_inv[OF assms(1)] by blast
end

locale monotone_journal =
  fixes step :: "'e \<Rightarrow> 's \<Rightarrow> 'err + 's"
    and ahead :: "'s \<Rightarrow> 's \<Rightarrow> bool"
  assumes ahead_refl: "ahead s s"
    and ahead_trans: "ahead s t \<Longrightarrow> ahead t u \<Longrightarrow> ahead s u"
    and step_ahead: "step e s = Inr s' \<Longrightarrow> ahead s s'"
begin

lemma replay_ahead:
  assumes "try_fold step es s = Inr s'"
  shows "ahead s s'"
  using assms
proof (induction es arbitrary: s)
  case (Cons e es)
  then obtain s1 where s1: "step e s = Inr s1" "try_fold step es s1 = Inr s'"
    by (auto simp: result_simps)
  then show ?case using Cons.IH step_ahead ahead_trans by blast
qed (simp add: ahead_refl)

lemma replay_between:
  assumes "try_fold step (es @ fs) s = Inr s'"
  shows "\<exists>s1. try_fold step es s = Inr s1 \<and> ahead s s1 \<and> ahead s1 s'"
  using try_fold_prefix[OF assms] replay_ahead by blast
end

locale counted_journal =
  fixes step :: "'e \<Rightarrow> 's \<Rightarrow> 'err + 's"
    and count :: "'s \<Rightarrow> nat"
    and weight :: "'e \<Rightarrow> nat"
  assumes step_count: "step e s = Inr s' \<Longrightarrow> count s' = count s + weight e"
begin

lemma replay_count:
  assumes "try_fold step es s = Inr s'"
  shows "count s' = count s + sum_list (map weight es)"
  using assms
proof (induction es arbitrary: s)
  case (Cons e es)
  then obtain s1 where s1: "step e s = Inr s1" "try_fold step es s1 = Inr s'"
    by (auto simp: result_simps)
  then show ?case using Cons.IH[OF s1(2)] step_count[OF s1(1)] by simp
qed simp
end

sublocale counted_journal \<subseteq> counting: monotone_journal step "\<lambda>s t. count s \<le> count t"
  by unfold_locales (auto dest: step_count)

text \<open>A counter that every event carries is a fence: an event accepted once is never accepted again.\<close>

locale fenced_journal = counted_journal +
  fixes expects :: "'e \<Rightarrow> nat option"
  assumes fence: "step e s = Inr s' \<Longrightarrow> weight e > 0 \<Longrightarrow> expects e = Some (count s')"
begin

lemma no_double_apply:
  assumes "step e s = Inr s1" "weight e > 0" "try_fold step es s1 = Inr s2"
  shows "\<not> (\<exists>s3. step e s2 = Inr s3)"
proof
  assume "\<exists>s3. step e s2 = Inr s3"
  then obtain s3 where s3: "step e s2 = Inr s3" by blast
  have "expects e = Some (count s1)" using fence[OF assms(1,2)] .
  moreover have "expects e = Some (count s3)" using fence[OF s3 assms(2)] .
  moreover have "count s1 \<le> count s2" using counting.replay_ahead[OF assms(3)] .
  moreover have "count s3 = count s2 + weight e" using step_count[OF s3] .
  ultimately show False using assms(2) by simp
qed

lemma one_successor:
  assumes "step e s = Inr s1" "step f s = Inr s2" "weight e = weight f" "weight e > 0"
  shows "expects e = expects f"
  using fence[OF assms(1,4)] fence[OF assms(2)] step_count[OF assms(1)] step_count[OF assms(2)] assms(3,4)
  by simp
end
end
