(* ===== verification/Browser.thy ===== *)
theory Browser
  imports Artifact Journal
begin

text \<open>
  \<open>src/domain/browser.rs\<close>: the task-owned browser book.  Requests are admitted against the
  book, accepted work becomes durable facts, facts are applied to contexts, tabs and
  receipts, and a host outcome settles an accepted request exactly once.

  The record \<open>browser_lib\<close> holds what the code calls outside the repository: the parser of
  the crate \<open>url\<close>, SHA-256 and the MessagePack encoder of the crate \<open>rmp_serde\<close>.
\<close>

section \<open>Vocabulary\<close>

definition MAX_BROWSER_JOURNAL_FACTS :: nat where "MAX_BROWSER_JOURNAL_FACTS = 1000"
definition MAX_BROWSER_OPEN_TASKS :: nat where "MAX_BROWSER_OPEN_TASKS = 32"
definition MAX_BROWSER_CONTEXTS :: nat where "MAX_BROWSER_CONTEXTS = 32"
definition MAX_BROWSER_TABS :: nat where "MAX_BROWSER_TABS = 32"
definition MAX_BROWSER_RECEIPTS :: nat where "MAX_BROWSER_RECEIPTS = 256"
definition MAX_BROWSER_FACT_URL_BYTES :: nat where "MAX_BROWSER_FACT_URL_BYTES = 2048"
definition MAX_BROWSER_IDENTITY_BYTES :: nat where "MAX_BROWSER_IDENTITY_BYTES = 256"
definition MAX_BROWSER_DIMENSION :: u32 where "MAX_BROWSER_DIMENSION = 32768"

lemmas browser_bounds =
  MAX_BROWSER_JOURNAL_FACTS_def MAX_BROWSER_OPEN_TASKS_def MAX_BROWSER_CONTEXTS_def
  MAX_BROWSER_TABS_def MAX_BROWSER_RECEIPTS_def MAX_BROWSER_FACT_URL_BYTES_def
  MAX_BROWSER_IDENTITY_BYTES_def MAX_BROWSER_DIMENSION_def

datatype browser_integration_hold = WebViewSurfaceAbsent | BrowserServiceAbsent | HostCapabilityUngranted

datatype browser_permission =
    PCreateContext | PCloseContext | POpenTab | PCloseTab | PSelectTab | PNavigate | PHistory
  | PSetBounds | PSetVisibility | PSetFocus | PCapture | PAutomate | PDownload | PClipboard
  | PFileChooser | PSecretFill | PPermissionDecide | PRecord | PReplay | PCancel | PRecover
  | PLinkArtifact

text \<open>The derived order of a fieldless enumeration is the order of its declaration.\<close>

definition permission_index :: "browser_permission \<Rightarrow> nat" where
  "permission_index p =
     (case p of PCreateContext \<Rightarrow> 0 | PCloseContext \<Rightarrow> 1 | POpenTab \<Rightarrow> 2 | PCloseTab \<Rightarrow> 3
      | PSelectTab \<Rightarrow> 4 | PNavigate \<Rightarrow> 5 | PHistory \<Rightarrow> 6 | PSetBounds \<Rightarrow> 7 | PSetVisibility \<Rightarrow> 8
      | PSetFocus \<Rightarrow> 9 | PCapture \<Rightarrow> 10 | PAutomate \<Rightarrow> 11 | PDownload \<Rightarrow> 12 | PClipboard \<Rightarrow> 13
      | PFileChooser \<Rightarrow> 14 | PSecretFill \<Rightarrow> 15 | PPermissionDecide \<Rightarrow> 16 | PRecord \<Rightarrow> 17
      | PReplay \<Rightarrow> 18 | PCancel \<Rightarrow> 19 | PRecover \<Rightarrow> 20 | PLinkArtifact \<Rightarrow> 21)"

lemma permission_index_inj: "permission_index p = permission_index q \<Longrightarrow> p = q"
  by (cases p; cases q) (simp_all add: permission_index_def)

instantiation browser_permission :: linorder
begin
definition less_eq_browser_permission :: "browser_permission \<Rightarrow> browser_permission \<Rightarrow> bool" where
  "less_eq_browser_permission p q \<longleftrightarrow> permission_index p \<le> permission_index q"
definition less_browser_permission :: "browser_permission \<Rightarrow> browser_permission \<Rightarrow> bool" where
  "less_browser_permission p q \<longleftrightarrow> permission_index p < permission_index q"
instance
  by standard
    (auto simp: less_eq_browser_permission_def less_browser_permission_def intro: permission_index_inj)
end

datatype browser_health = Healthy | Recovering | Interrupted
datatype browser_tab_kind = TabPage | TabPopup browser_tab_id

datatype browser_contract_error =
    BeCrossTask | BeGenerationMismatch | BeClosedTask | BeIdempotencyConflict | BeBoundExceeded
  | BeInvalidRequest | BeHostEffectUnavailable

datatype browser_action =
    BaCreateContext | BaCloseContext | BaOpenTab rstr browser_tab_kind | BaCloseTab | BaSelectTab
  | BaNavigate rstr | BaBack | BaForward | BaReload | BaStop | BaSetBounds u32 u32
  | BaSetVisibility bool | BaSetFocus bool | BaCapture | BaAutomate | BaDecideDownload bool
  | BaReadClipboard | BaWriteClipboard | BaChooseFile artifact_id | BaFillSecret rstr rstr
  | BaDecidePermission browser_permission bool | BaRecord | BaReplay | BaCancel | BaRecover
  | BaLinkArtifact artifact_id

definition action_privacy_class :: "browser_action \<Rightarrow> privacy_class" where
  "action_privacy_class a =
     (case a of
        BaOpenTab _ _ \<Rightarrow> LocalOnly | BaNavigate _ \<Rightarrow> LocalOnly | BaBack \<Rightarrow> LocalOnly
      | BaForward \<Rightarrow> LocalOnly | BaReload \<Rightarrow> LocalOnly | BaStop \<Rightarrow> LocalOnly | BaCapture \<Rightarrow> LocalOnly
      | BaAutomate \<Rightarrow> LocalOnly | BaDecideDownload _ \<Rightarrow> LocalOnly | BaReadClipboard \<Rightarrow> LocalOnly
      | BaWriteClipboard \<Rightarrow> LocalOnly | BaFillSecret _ _ \<Rightarrow> LocalOnly | BaRecord \<Rightarrow> LocalOnly
      | BaReplay \<Rightarrow> LocalOnly | _ \<Rightarrow> Shareable)"

definition required_permission :: "browser_action \<Rightarrow> browser_permission" where
  "required_permission a =
     (case a of
        BaCreateContext \<Rightarrow> PCreateContext | BaCloseContext \<Rightarrow> PCloseContext
      | BaOpenTab _ _ \<Rightarrow> POpenTab | BaCloseTab \<Rightarrow> PCloseTab | BaSelectTab \<Rightarrow> PSelectTab
      | BaNavigate _ \<Rightarrow> PNavigate | BaBack \<Rightarrow> PHistory | BaForward \<Rightarrow> PHistory
      | BaReload \<Rightarrow> PHistory | BaStop \<Rightarrow> PHistory | BaSetBounds _ _ \<Rightarrow> PSetBounds
      | BaSetVisibility _ \<Rightarrow> PSetVisibility | BaSetFocus _ \<Rightarrow> PSetFocus | BaCapture \<Rightarrow> PCapture
      | BaAutomate \<Rightarrow> PAutomate | BaDecideDownload _ \<Rightarrow> PDownload | BaReadClipboard \<Rightarrow> PClipboard
      | BaWriteClipboard \<Rightarrow> PClipboard | BaChooseFile _ \<Rightarrow> PFileChooser
      | BaFillSecret _ _ \<Rightarrow> PSecretFill | BaDecidePermission _ _ \<Rightarrow> PPermissionDecide
      | BaRecord \<Rightarrow> PRecord | BaReplay \<Rightarrow> PReplay | BaCancel \<Rightarrow> PCancel | BaRecover \<Rightarrow> PRecover
      | BaLinkArtifact _ \<Rightarrow> PLinkArtifact)"

definition action_url :: "browser_action \<Rightarrow> rstr option" where
  "action_url a = (case a of BaOpenTab url _ \<Rightarrow> Some url | BaNavigate url \<Rightarrow> Some url | _ \<Rightarrow> None)"

definition requires_host_settlement :: "browser_action \<Rightarrow> bool" where
  "requires_host_settlement a =
     (case a of
        BaCreateContext \<Rightarrow> False | BaCloseContext \<Rightarrow> False | BaOpenTab _ _ \<Rightarrow> False
      | BaCloseTab \<Rightarrow> False | BaSelectTab \<Rightarrow> False | BaLinkArtifact _ \<Rightarrow> False | _ \<Rightarrow> True)"

record browser_request =
  bq_request_id :: browser_request_id
  bq_task_id :: task_id
  bq_context_id :: browser_context_id
  bq_tab_id :: "browser_tab_id option"
  bq_generation :: u64
  bq_action :: browser_action

record request_accepted =
  ra_request :: browser_request
  ra_privacy_class :: privacy_class
  ra_permission :: browser_permission
  ra_payload_hash :: "u8 list"
  ra_action_epoch :: u64
  ra_command_id :: "command_id option"

datatype browser_durable_fact =
    BfRequestAccepted request_accepted
  | BfContextCreated browser_context_id task_id u64
  | BfContextClosed browser_context_id task_id u64
  | BfTabOpened browser_tab_id browser_context_id task_id browser_tab_kind rstr
  | BfTabClosed browser_tab_id browser_context_id task_id
  | BfTabSelected browser_tab_id browser_context_id task_id
  | BfNavigationCommitted browser_tab_id browser_context_id task_id rstr rstr
  | BfPermissionDecided browser_context_id task_id browser_permission bool
  | BfArtifactLinked browser_context_id task_id artifact_id
  | BfRecipeIdentified browser_context_id task_id rstr
  | BfRecordingIdentified browser_context_id task_id rstr
  | BfDownloadSettled browser_context_id task_id bool rstr "rstr option" "artifact_id option"
  | BfHealthTransitioned browser_context_id task_id browser_health browser_health u64

definition fact_task_id :: "browser_durable_fact \<Rightarrow> task_id" where
  "fact_task_id f =
     (case f of
        BfRequestAccepted r \<Rightarrow> bq_task_id (ra_request r)
      | BfContextCreated _ t _ \<Rightarrow> t | BfContextClosed _ t _ \<Rightarrow> t | BfTabOpened _ _ t _ _ \<Rightarrow> t
      | BfTabClosed _ _ t \<Rightarrow> t | BfTabSelected _ _ t \<Rightarrow> t | BfNavigationCommitted _ _ t _ _ \<Rightarrow> t
      | BfPermissionDecided _ t _ _ \<Rightarrow> t | BfArtifactLinked _ t _ \<Rightarrow> t | BfRecipeIdentified _ t _ \<Rightarrow> t
      | BfRecordingIdentified _ t _ \<Rightarrow> t | BfDownloadSettled _ t _ _ _ _ \<Rightarrow> t
      | BfHealthTransitioned _ t _ _ _ \<Rightarrow> t)"

definition is_request_accepted :: "browser_durable_fact \<Rightarrow> bool" where
  "is_request_accepted f = (case f of BfRequestAccepted _ \<Rightarrow> True | _ \<Rightarrow> False)"

record browser_accepted_receipt =
  bx_request_id :: browser_request_id
  bx_command_id :: "command_id option"
  bx_task_id :: task_id
  bx_context_id :: browser_context_id
  bx_tab_id :: "browser_tab_id option"
  bx_generation :: u64
  bx_action :: browser_action
  bx_facts :: "browser_durable_fact list"
  bx_privacy_class :: privacy_class
  bx_permission :: browser_permission
  bx_payload_hash :: "u8 list"
  bx_action_epoch :: u64

definition bind_command :: "command_id \<Rightarrow> u64 \<Rightarrow> browser_accepted_receipt \<Rightarrow> browser_accepted_receipt" where
  "bind_command c epoch r = r \<lparr>
     bx_command_id := Some c, bx_action_epoch := epoch,
     bx_facts := map (\<lambda>f. case f of
         BfRequestAccepted q \<Rightarrow>
           BfRequestAccepted (q \<lparr> ra_command_id := Some c, ra_action_epoch := epoch \<rparr>)
       | _ \<Rightarrow> f) (bx_facts r) \<rparr>"

datatype browser_settlement =
    SetNavigationCommitted rstr rstr
  | SetPermissionDecided browser_permission bool
  | SetRecovered u64
  | SetRecipeIdentified rstr
  | SetRecordingIdentified rstr

record browser_host_outcome =
  bo_request_id :: browser_request_id
  bo_task_id :: task_id
  bo_context_id :: browser_context_id
  bo_tab_id :: "browser_tab_id option"
  bo_generation :: u64
  bo_settlement :: browser_settlement

section \<open>External code and field validation\<close>

record parsed_url =
  pu_username :: rstr
  pu_password :: "rstr option"
  pu_query :: "rstr option"
  pu_fragment :: "rstr option"
  pu_scheme :: rstr
  pu_host_str :: "rstr option"
  pu_port :: "u16 option"

record browser_lib =
  bl_url_parse :: "rstr \<Rightarrow> parsed_url option"
  bl_sha256 :: sha256_fn
  bl_encode_request :: "browser_request \<Rightarrow> u8 list option"

definition validate_url :: "browser_lib \<Rightarrow> rstr \<Rightarrow> browser_contract_error + unit" where
  "validate_url lib raw =
     (if raw = lit ''about:blank'' then Inr ()
      else if str_len raw > MAX_BROWSER_FACT_URL_BYTES then Inl BeBoundExceeded
      else case bl_url_parse lib raw of
          None \<Rightarrow> Inl BeInvalidRequest
        | Some u \<Rightarrow>
            if pu_username u \<noteq> [] \<or> is_some (pu_password u) then Inl BeInvalidRequest
            else if is_some (pu_query u) \<or> is_some (pu_fragment u) then Inl BeInvalidRequest
            else if (pu_scheme u = lit ''http'' \<or> pu_scheme u = lit ''https'') \<and> is_some (pu_host_str u)
            then Inr ()
            else Inl BeInvalidRequest)"

definition validate_identity :: "rstr \<Rightarrow> browser_contract_error + unit" where
  "validate_identity value =
     (if value = [] then Inl BeInvalidRequest
      else if str_len value > MAX_BROWSER_IDENTITY_BYTES then Inl BeBoundExceeded
      else Inr ())"

definition request_payload_hash :: "browser_lib \<Rightarrow> browser_request \<Rightarrow> u8 list" where
  "request_payload_hash lib request =
     bl_sha256 lib (case bl_encode_request lib request of None \<Rightarrow> [] | Some bytes \<Rightarrow> bytes)"

section \<open>The book\<close>

record context_state =
  cx_task_id :: task_id
  cx_generation :: u64
  cx_selected_tab_id :: "browser_tab_id option"
  cx_health :: browser_health
  cx_closed :: bool
  cx_permissions :: "(browser_permission, bool) bmap"
  cx_linked_artifacts :: "artifact_id bset"
  cx_recipe_id :: "rstr option"
  cx_recording_id :: "rstr option"

record tab_state =
  tb_context_id :: browser_context_id
  tb_task_id :: task_id
  tb_kind :: browser_tab_kind
  tb_committed_url :: "rstr option"
  tb_closed :: bool

record stored_receipt =
  st_request :: browser_request
  st_accepted :: browser_accepted_receipt
  st_settled :: bool
  st_settlement :: "browser_settlement option"

record browser_book =
  bb_ready :: bool
  bb_open_tasks :: "task_id bset"
  bb_contexts :: "(browser_context_id, context_state) bmap"
  bb_tabs :: "(browser_tab_id, tab_state) bmap"
  bb_facts :: "browser_durable_fact list"
  bb_receipts :: "(browser_request_id, stored_receipt) bmap"

definition book_default :: browser_book where
  "book_default = \<lparr> bb_ready = False, bb_open_tasks = bempty, bb_contexts = bempty,
                    bb_tabs = bempty, bb_facts = [], bb_receipts = bempty \<rparr>"

definition book_new :: browser_book where
  "book_new = book_default \<lparr> bb_ready := True \<rparr>"

definition open_task :: "task_id \<Rightarrow> browser_book \<Rightarrow> browser_contract_error + browser_book" where
  "open_task t b =
     (if bcontains (bb_open_tasks b) t then Inr b
      else if blen (bb_open_tasks b) \<ge> MAX_BROWSER_OPEN_TASKS then Inl BeBoundExceeded
      else Inr (b \<lparr> bb_open_tasks := bs_insert t (bb_open_tasks b) \<rparr>))"

section \<open>Applying facts\<close>

definition receipt_of_fact :: "request_accepted \<Rightarrow> stored_receipt" where
  "receipt_of_fact r =
     (let q = ra_request r in
      \<lparr> st_request = q,
        st_accepted = \<lparr> bx_request_id = bq_request_id q, bx_command_id = ra_command_id r,
          bx_task_id = bq_task_id q, bx_context_id = bq_context_id q, bx_tab_id = bq_tab_id q,
          bx_generation = bq_generation q, bx_action = bq_action q, bx_facts = [],
          bx_privacy_class = ra_privacy_class r, bx_permission = ra_permission r,
          bx_payload_hash = ra_payload_hash r, bx_action_epoch = ra_action_epoch r \<rparr>,
        st_settled = (\<not> requires_host_settlement (bq_action q)),
        st_settlement = None \<rparr>)"

definition apply_request_accepted ::
  "request_accepted \<Rightarrow> browser_book \<Rightarrow> browser_contract_error + browser_book" where
  "apply_request_accepted r b =
     (let q = ra_request r;
          owner = (case bget (bb_contexts b) (bq_context_id q) of
                     Some c \<Rightarrow> Some (cx_task_id c)
                   | None \<Rightarrow> List.find (\<lambda>t. t = bq_task_id q) (bkeys (bb_open_tasks b)))
      in case owner of
           None \<Rightarrow> Inl BeClosedTask
         | Some o' \<Rightarrow>
             if o' \<noteq> bq_task_id q then Inl BeCrossTask
             else rbind
               (case bget (bb_contexts b) (bq_context_id q) of
                  None \<Rightarrow> Inr ()
                | Some c \<Rightarrow>
                    if cx_task_id c \<noteq> bq_task_id q then Inl BeCrossTask
                    else if cx_generation c \<noteq> bq_generation q then Inl BeGenerationMismatch
                    else Inr ())
               (\<lambda>_. if bcontains (bb_receipts b) (bq_request_id q) then Inr b
                    else Inr (b \<lparr> bb_receipts :=
                           binsert (bq_request_id q) (receipt_of_fact r) (bb_receipts b) \<rparr>)))"

definition with_owned_context ::
  "browser_context_id \<Rightarrow> task_id \<Rightarrow> (context_state \<Rightarrow> context_state) \<Rightarrow> browser_book
     \<Rightarrow> browser_contract_error + browser_book" where
  "with_owned_context cid t f b =
     (case bget (bb_contexts b) cid of
        None \<Rightarrow> Inl BeInvalidRequest
      | Some c \<Rightarrow>
          if cx_task_id c \<noteq> t then Inl BeCrossTask
          else Inr (b \<lparr> bb_contexts := binsert cid (f c) (bb_contexts b) \<rparr>))"

definition apply_permission_decided where
  "apply_permission_decided cid t perm allowed =
     with_owned_context cid t (\<lambda>c. c \<lparr> cx_permissions := binsert perm allowed (cx_permissions c) \<rparr>)"

definition apply_artifact_linked where
  "apply_artifact_linked cid t artifact =
     with_owned_context cid t (\<lambda>c. c \<lparr> cx_linked_artifacts := bs_insert artifact (cx_linked_artifacts c) \<rparr>)"

definition apply_recipe_identified where
  "apply_recipe_identified cid t recipe =
     with_owned_context cid t (\<lambda>c. c \<lparr> cx_recipe_id := Some recipe \<rparr>)"

definition apply_recording_identified where
  "apply_recording_identified cid t recording =
     with_owned_context cid t (\<lambda>c. c \<lparr> cx_recording_id := Some recording \<rparr>)"

definition apply_download_settled ::
  "browser_context_id \<Rightarrow> task_id \<Rightarrow> rstr \<Rightarrow> rstr option \<Rightarrow> artifact_id option \<Rightarrow> browser_book
     \<Rightarrow> browser_contract_error + browser_book" where
  "apply_download_settled cid t file_name sha256_hex artifact b =
     rbind (validate_identity file_name) (\<lambda>_.
     rbind (case sha256_hex of
              None \<Rightarrow> Inr ()
            | Some digest \<Rightarrow>
                if str_len digest \<noteq> 64 \<or> \<not> list_all is_lower_hex digest then Inl BeInvalidRequest
                else Inr ()) (\<lambda>_.
       with_owned_context cid t
         (\<lambda>c. case artifact of
                None \<Rightarrow> c
              | Some a \<Rightarrow> c \<lparr> cx_linked_artifacts := bs_insert a (cx_linked_artifacts c) \<rparr>) b))"

definition fresh_context :: "task_id \<Rightarrow> u64 \<Rightarrow> context_state" where
  "fresh_context t generation =
     \<lparr> cx_task_id = t, cx_generation = generation, cx_selected_tab_id = None, cx_health = Healthy,
       cx_closed = False, cx_permissions = bempty, cx_linked_artifacts = bempty,
       cx_recipe_id = None, cx_recording_id = None \<rparr>"

definition apply_context_created ::
  "browser_context_id \<Rightarrow> task_id \<Rightarrow> u64 \<Rightarrow> browser_book \<Rightarrow> browser_contract_error + browser_book" where
  "apply_context_created cid t generation b =
     (if \<not> bcontains (bb_open_tasks b) t then Inl BeClosedTask
      else if bcontains (bb_contexts b) cid then Inl BeInvalidRequest
      else if blen (bb_contexts b) \<ge> MAX_BROWSER_CONTEXTS then Inl BeBoundExceeded
      else Inr (b \<lparr> bb_contexts := binsert cid (fresh_context t generation) (bb_contexts b) \<rparr>))"

definition apply_context_closed ::
  "browser_context_id \<Rightarrow> task_id \<Rightarrow> browser_book \<Rightarrow> browser_contract_error + browser_book" where
  "apply_context_closed cid t b =
     rbind (with_owned_context cid t (\<lambda>c. c \<lparr> cx_closed := True \<rparr>) b) (\<lambda>b.
       Inr (b \<lparr> bb_tabs := bmap_values
         (\<lambda>tab. if tb_context_id tab = cid then tab \<lparr> tb_closed := True \<rparr> else tab) (bb_tabs b) \<rparr>))"

definition apply_tab_opened ::
  "browser_lib \<Rightarrow> browser_tab_id \<Rightarrow> browser_context_id \<Rightarrow> task_id \<Rightarrow> browser_tab_kind \<Rightarrow> rstr
     \<Rightarrow> browser_book \<Rightarrow> browser_contract_error + browser_book" where
  "apply_tab_opened lib tid cid t kind url b =
     rbind (validate_url lib url) (\<lambda>_.
       case bget (bb_contexts b) cid of
         None \<Rightarrow> Inl BeInvalidRequest
       | Some c \<Rightarrow>
           if cx_task_id c \<noteq> t then Inl BeCrossTask
           else if bcontains (bb_tabs b) tid then Inl BeInvalidRequest
           else Inr (b \<lparr> bb_tabs := binsert tid
                  \<lparr> tb_context_id = cid, tb_task_id = t, tb_kind = kind,
                    tb_committed_url = Some url, tb_closed = False \<rparr> (bb_tabs b) \<rparr>))"

definition apply_tab_closed ::
  "browser_tab_id \<Rightarrow> browser_context_id \<Rightarrow> browser_book \<Rightarrow> browser_contract_error + browser_book" where
  "apply_tab_closed tid cid b =
     (case bget (bb_tabs b) tid of
        None \<Rightarrow> Inl BeInvalidRequest
      | Some tab \<Rightarrow>
          let b = b \<lparr> bb_tabs := binsert tid (tab \<lparr> tb_closed := True \<rparr>) (bb_tabs b) \<rparr>
          in case bget (bb_contexts b) cid of
               None \<Rightarrow> Inr b
             | Some c \<Rightarrow>
                 if cx_selected_tab_id c = Some tid
                 then Inr (b \<lparr> bb_contexts :=
                        binsert cid (c \<lparr> cx_selected_tab_id := None \<rparr>) (bb_contexts b) \<rparr>)
                 else Inr b)"

definition apply_tab_selected ::
  "browser_tab_id \<Rightarrow> browser_context_id \<Rightarrow> browser_book \<Rightarrow> browser_contract_error + browser_book" where
  "apply_tab_selected tid cid b =
     (if \<not> bcontains (bb_tabs b) tid then Inl BeInvalidRequest
      else case bget (bb_contexts b) cid of
          None \<Rightarrow> Inl BeInvalidRequest
        | Some c \<Rightarrow> Inr (b \<lparr> bb_contexts :=
            binsert cid (c \<lparr> cx_selected_tab_id := Some tid \<rparr>) (bb_contexts b) \<rparr>))"

definition apply_navigation_committed ::
  "browser_lib \<Rightarrow> browser_tab_id \<Rightarrow> rstr \<Rightarrow> browser_book \<Rightarrow> browser_contract_error + browser_book" where
  "apply_navigation_committed lib tid url b =
     rbind (validate_url lib url) (\<lambda>_.
       case bget (bb_tabs b) tid of
         None \<Rightarrow> Inl BeInvalidRequest
       | Some tab \<Rightarrow> Inr (b \<lparr> bb_tabs :=
           binsert tid (tab \<lparr> tb_committed_url := Some url \<rparr>) (bb_tabs b) \<rparr>))"

definition apply_health_transitioned ::
  "browser_context_id \<Rightarrow> browser_health \<Rightarrow> u64 \<Rightarrow> browser_book
     \<Rightarrow> browser_contract_error + browser_book" where
  "apply_health_transitioned cid to generation b =
     (case bget (bb_contexts b) cid of
        None \<Rightarrow> Inl BeInvalidRequest
      | Some c \<Rightarrow> Inr (b \<lparr> bb_contexts :=
          binsert cid (c \<lparr> cx_health := to, cx_generation := generation \<rparr>) (bb_contexts b) \<rparr>))"

definition apply_fact_body ::
  "browser_lib \<Rightarrow> browser_durable_fact \<Rightarrow> browser_book \<Rightarrow> browser_contract_error + browser_book" where
  "apply_fact_body lib f =
     (case f of
        BfRequestAccepted r \<Rightarrow> apply_request_accepted r
      | BfPermissionDecided cid t perm allowed \<Rightarrow> apply_permission_decided cid t perm allowed
      | BfArtifactLinked cid t artifact \<Rightarrow> apply_artifact_linked cid t artifact
      | BfRecipeIdentified cid t recipe \<Rightarrow> apply_recipe_identified cid t recipe
      | BfRecordingIdentified cid t recording \<Rightarrow> apply_recording_identified cid t recording
      | BfDownloadSettled cid t _ file_name digest artifact \<Rightarrow>
          apply_download_settled cid t file_name digest artifact
      | BfContextCreated cid t generation \<Rightarrow> apply_context_created cid t generation
      | BfContextClosed cid t _ \<Rightarrow> apply_context_closed cid t
      | BfTabOpened tid cid t kind url \<Rightarrow> apply_tab_opened lib tid cid t kind url
      | BfTabClosed tid cid _ \<Rightarrow> apply_tab_closed tid cid
      | BfTabSelected tid cid _ \<Rightarrow> apply_tab_selected tid cid
      | BfNavigationCommitted tid _ _ url _ \<Rightarrow> apply_navigation_committed lib tid url
      | BfHealthTransitioned cid _ _ to generation \<Rightarrow> apply_health_transitioned cid to generation)"

definition apply_fact ::
  "browser_lib \<Rightarrow> browser_durable_fact \<Rightarrow> browser_book \<Rightarrow> browser_contract_error + browser_book" where
  "apply_fact lib f b =
     rbind (apply_fact_body lib f b) (\<lambda>b. Inr (b \<lparr> bb_facts := bb_facts b @ [f] \<rparr>))"

text \<open>
  \<open>apply_facts\<close> mutates the book fact by fact and restores its backups when one of them
  fails.  The model keeps the state at every exit: the result is paired with the book the
  caller is left with.
\<close>

fun apply_facts_loop ::
  "browser_lib \<Rightarrow> browser_book \<Rightarrow> browser_durable_fact list \<Rightarrow> browser_book
     \<Rightarrow> (browser_contract_error + unit) \<times> browser_book" where
  "apply_facts_loop lib backup [] b = (Inr (), b)"
| "apply_facts_loop lib backup (f # fs) b =
     (case apply_fact lib f b of
        Inl e \<Rightarrow> (Inl e, b \<lparr> bb_contexts := bb_contexts backup, bb_tabs := bb_tabs backup,
                             bb_facts := bb_facts backup, bb_receipts := bb_receipts backup \<rparr>)
      | Inr b' \<Rightarrow> apply_facts_loop lib backup fs b')"

definition apply_facts_st ::
  "browser_lib \<Rightarrow> browser_durable_fact list \<Rightarrow> browser_book
     \<Rightarrow> (browser_contract_error + unit) \<times> browser_book" where
  "apply_facts_st lib facts b =
     (if facts = [] then (Inr (), b)
      else if length (bb_facts b) + length facts > MAX_BROWSER_JOURNAL_FACTS
      then (Inl BeBoundExceeded, b)
      else apply_facts_loop lib b facts b)"

text \<open>The same call seen by a caller that drops the book on error.\<close>

definition apply_facts ::
  "browser_lib \<Rightarrow> browser_durable_fact list \<Rightarrow> browser_book \<Rightarrow> browser_contract_error + browser_book" where
  "apply_facts lib facts b =
     (case apply_facts_st lib facts b of (Inl e, _) \<Rightarrow> Inl e | (Inr _, b') \<Rightarrow> Inr b')"

fun apply_fact_seq ::
  "browser_lib \<Rightarrow> browser_durable_fact list \<Rightarrow> browser_book \<Rightarrow> browser_contract_error + browser_book" where
  "apply_fact_seq lib [] b = Inr b"
| "apply_fact_seq lib (f # fs) b = rbind (apply_fact lib f b) (apply_fact_seq lib fs)"

section \<open>Facts about applying facts\<close>

lemma find_eq_Some: "List.find (\<lambda>x. x = y) xs = Some z \<longleftrightarrow> z = y \<and> y \<in> set xs"
  by (induction xs) auto

lemma find_eq_None: "List.find (\<lambda>x. x = y) xs = None \<longleftrightarrow> y \<notin> set xs"
  by (induction xs) auto

lemma with_owned_context_Inr:
  "with_owned_context cid t f b = Inr b' \<longleftrightarrow>
     (\<exists>c. bget (bb_contexts b) cid = Some c \<and> cx_task_id c = t
        \<and> b' = b \<lparr> bb_contexts := binsert cid (f c) (bb_contexts b) \<rparr>)"
  by (auto simp: with_owned_context_def split: option.splits if_splits)

lemma apply_request_accepted_Inr:
  "apply_request_accepted r b = Inr b' \<longleftrightarrow>
     (let q = ra_request r in
       (case bget (bb_contexts b) (bq_context_id q) of
          None \<Rightarrow> bcontains (bb_open_tasks b) (bq_task_id q)
        | Some c \<Rightarrow> cx_task_id c = bq_task_id q \<and> cx_generation c = bq_generation q)
       \<and> b' = (if bcontains (bb_receipts b) (bq_request_id q) then b
               else b \<lparr> bb_receipts := binsert (bq_request_id q) (receipt_of_fact r) (bb_receipts b) \<rparr>))"
  by (auto simp: apply_request_accepted_def Let_def find_eq_Some find_eq_None
      split: option.splits if_splits)

lemmas apply_fact_arms =
  apply_permission_decided_def apply_artifact_linked_def apply_recipe_identified_def
  apply_recording_identified_def apply_download_settled_def apply_context_created_def
  apply_context_closed_def apply_tab_opened_def apply_tab_closed_def apply_tab_selected_def
  apply_navigation_committed_def apply_health_transitioned_def

text \<open>What every fact leaves alone: readiness, the open tasks and the owner of every context.\<close>

lemma apply_fact_frame:
  assumes "apply_fact lib f b = Inr b'"
  shows "bb_ready b' = bb_ready b \<and> bb_open_tasks b' = bb_open_tasks b
    \<and> bb_facts b' = bb_facts b @ [f]"
  using assms
  by (cases f)
     (auto simp: apply_fact_def apply_fact_body_def apply_fact_arms with_owned_context_Inr
       apply_request_accepted_Inr Let_def result_simps split: option.splits if_splits)

lemma apply_fact_context_owner:
  assumes "apply_fact lib f b = Inr b'" "bget (bb_contexts b) cid = Some c"
  shows "\<exists>c'. bget (bb_contexts b') cid = Some c' \<and> cx_task_id c' = cx_task_id c"
  using assms
  by (cases f)
     (auto simp: apply_fact_def apply_fact_body_def apply_fact_arms with_owned_context_Inr
       apply_request_accepted_Inr Let_def result_simps bcontains_iff split: option.splits if_splits)

lemma apply_fact_tab_owner:
  assumes "apply_fact lib f b = Inr b'" "bget (bb_tabs b') tid = Some tab'"
  shows "(\<exists>tab. bget (bb_tabs b) tid = Some tab \<and> tb_context_id tab' = tb_context_id tab
            \<and> tb_task_id tab' = tb_task_id tab)
       \<or> (\<exists>c. bget (bb_contexts b) (tb_context_id tab') = Some c \<and> cx_task_id c = tb_task_id tab')"
  using assms
  by (cases f)
     (auto simp: apply_fact_def apply_fact_body_def apply_fact_arms with_owned_context_Inr
       apply_request_accepted_Inr Let_def result_simps split: option.splits if_splits)

lemma apply_fact_contexts_bound:
  assumes "apply_fact lib f b = Inr b'" "blen (bb_contexts b) \<le> MAX_BROWSER_CONTEXTS"
  shows "blen (bb_contexts b') \<le> MAX_BROWSER_CONTEXTS"
  using assms
  by (cases f)
     (auto simp: apply_fact_def apply_fact_body_def apply_fact_arms with_owned_context_Inr
       apply_request_accepted_Inr Let_def result_simps bcontains_iff split: option.splits if_splits)

lemma apply_fact_receipts:
  assumes "apply_fact lib f b = Inr b'"
  shows "bb_receipts b' = bb_receipts b
     \<or> (\<exists>r. f = BfRequestAccepted r \<and> \<not> bcontains (bb_receipts b) (bq_request_id (ra_request r))
          \<and> bb_receipts b' = binsert (bq_request_id (ra_request r)) (receipt_of_fact r) (bb_receipts b))"
  using assms
  by (cases f)
     (auto simp: apply_fact_def apply_fact_body_def apply_fact_arms with_owned_context_Inr
       apply_request_accepted_Inr Let_def result_simps split: option.splits if_splits)

section \<open>The loop with rollback\<close>

lemma apply_facts_loop_spec:
  assumes "bb_ready b = bb_ready backup" "bb_open_tasks b = bb_open_tasks backup"
  shows "apply_facts_loop lib backup fs b =
     (case apply_fact_seq lib fs b of Inl e \<Rightarrow> (Inl e, backup) | Inr b' \<Rightarrow> (Inr (), b'))"
  using assms
proof (induction fs arbitrary: b)
  case (Cons f fs)
  show ?case
  proof (cases "apply_fact lib f b")
    case (Inl e)
    then show ?thesis using Cons.prems by simp
  next
    case (Inr b')
    then show ?thesis using Cons.IH[of b'] Cons.prems apply_fact_frame[OF Inr] by simp
  qed
qed simp

lemma apply_facts_st_spec:
  "apply_facts_st lib fs b =
     (if fs \<noteq> [] \<and> length (bb_facts b) + length fs > MAX_BROWSER_JOURNAL_FACTS
      then (Inl BeBoundExceeded, b)
      else case apply_fact_seq lib fs b of Inl e \<Rightarrow> (Inl e, b) | Inr b' \<Rightarrow> (Inr (), b'))"
  by (simp add: apply_facts_st_def apply_facts_loop_spec)

lemma apply_facts_Inr:
  "apply_facts lib fs b = Inr b' \<longleftrightarrow>
     (fs = [] \<or> length (bb_facts b) + length fs \<le> MAX_BROWSER_JOURNAL_FACTS)
     \<and> apply_fact_seq lib fs b = Inr b'"
  by (auto simp: apply_facts_def apply_facts_st_spec split: sum.splits if_splits)

lemma apply_facts_st_Inr:
  "apply_facts_st lib fs b = (Inr u, b') \<longleftrightarrow> apply_facts lib fs b = Inr b'"
  by (auto simp: apply_facts_def apply_facts_st_spec split: sum.splits if_splits)

lemma apply_facts_st_Inl:
  "apply_facts_st lib fs b = (Inl e, b') \<Longrightarrow> b' = b \<and> apply_facts lib fs b = Inl e"
  by (auto simp: apply_facts_def apply_facts_st_spec split: sum.splits if_splits)

lemma apply_fact_seq_frame:
  assumes "apply_fact_seq lib fs b = Inr b'"
  shows "bb_ready b' = bb_ready b \<and> bb_open_tasks b' = bb_open_tasks b
    \<and> bb_facts b' = bb_facts b @ fs"
  using assms
proof (induction fs arbitrary: b)
  case (Cons f fs)
  then obtain b1 where "apply_fact lib f b = Inr b1" "apply_fact_seq lib fs b1 = Inr b'"
    by (auto simp: result_simps)
  then show ?case using Cons.IH[of b1] apply_fact_frame[of lib f b b1] by simp
qed simp

lemma apply_fact_seq_append:
  "apply_fact_seq lib (fs @ gs) b = rbind (apply_fact_seq lib fs b) (apply_fact_seq lib gs)"
proof (induction fs arbitrary: b)
  case (Cons f fs)
  then show ?case by (cases "apply_fact lib f b") simp_all
qed simp

section \<open>The invariant of the book\<close>

definition book_wf :: "browser_book \<Rightarrow> bool" where
  "book_wf b \<longleftrightarrow>
     length (bb_facts b) \<le> MAX_BROWSER_JOURNAL_FACTS
     \<and> blen (bb_open_tasks b) \<le> MAX_BROWSER_OPEN_TASKS
     \<and> blen (bb_contexts b) \<le> MAX_BROWSER_CONTEXTS
     \<and> (\<forall>tid tab. bget (bb_tabs b) tid = Some tab \<longrightarrow>
          (\<exists>c. bget (bb_contexts b) (tb_context_id tab) = Some c \<and> cx_task_id c = tb_task_id tab))
     \<and> (\<forall>rid s. bget (bb_receipts b) rid = Some s \<longrightarrow>
          bq_request_id (st_request s) = rid \<and> bx_request_id (st_accepted s) = rid)"

lemma book_wf_new: "book_wf book_new"
  by (simp add: book_wf_def book_new_def book_default_def browser_bounds)

lemma book_wf_open_task:
  assumes "book_wf b" "open_task t b = Inr b'"
  shows "book_wf b'"
  using assms by (auto simp: book_wf_def open_task_def split: if_splits)

lemma book_wf_remove_task: "book_wf b \<Longrightarrow> book_wf (b \<lparr> bb_open_tasks := bremove t (bb_open_tasks b) \<rparr>)"
  by (auto simp: book_wf_def intro: order_trans[OF blen_bremove_le])

text \<open>The parts of the invariant that one fact keeps; the journal bound is kept per call.\<close>

lemma book_wf_apply_fact:
  assumes wf: "book_wf b" and ap: "apply_fact lib f b = Inr b'"
    and room: "length (bb_facts b) < MAX_BROWSER_JOURNAL_FACTS"
  shows "book_wf b'"
proof -
  have tabs: "\<exists>c. bget (bb_contexts b') (tb_context_id tab) = Some c \<and> cx_task_id c = tb_task_id tab"
    if tab: "bget (bb_tabs b') tid = Some tab" for tid tab
  proof -
    obtain c where "bget (bb_contexts b) (tb_context_id tab) = Some c" "cx_task_id c = tb_task_id tab"
      using apply_fact_tab_owner[OF ap tab] wf unfolding book_wf_def by metis
    then show ?thesis using apply_fact_context_owner[OF ap] by metis
  qed
  have receipts: "bq_request_id (st_request s) = rid \<and> bx_request_id (st_accepted s) = rid"
    if "bget (bb_receipts b') rid = Some s" for rid s
    using apply_fact_receipts[OF ap] that wf
    by (auto simp: book_wf_def receipt_of_fact_def Let_def split: if_splits)
  show ?thesis
    using wf apply_fact_frame[OF ap] apply_fact_contexts_bound[OF ap] tabs receipts room
    by (auto simp: book_wf_def)
qed

lemma book_wf_apply_fact_seq:
  assumes "book_wf b" "apply_fact_seq lib fs b = Inr b'"
    "length (bb_facts b) + length fs \<le> MAX_BROWSER_JOURNAL_FACTS"
  shows "book_wf b'"
  using assms
proof (induction fs arbitrary: b)
  case (Cons f fs)
  then obtain b1 where "apply_fact lib f b = Inr b1" "apply_fact_seq lib fs b1 = Inr b'"
    by (auto simp: result_simps)
  then show ?case
    using Cons.IH[of b1] Cons.prems book_wf_apply_fact[of b lib f b1] apply_fact_frame[of lib f b b1]
    by simp
qed simp

lemma book_wf_apply_facts:
  assumes "book_wf b" "apply_facts lib fs b = Inr b'"
  shows "book_wf b'"
  using assms book_wf_apply_fact_seq[of b lib fs b'] by (auto simp: apply_facts_Inr book_wf_def)

section \<open>The journal of the book\<close>

lemma apply_fact_seq_try_fold: "apply_fact_seq lib fs b = try_fold (apply_fact lib) fs b"
proof (induction fs arbitrary: b)
  case (Cons f fs)
  then have "apply_fact_seq lib fs = try_fold (apply_fact lib) fs" by blast
  then show ?case by simp
qed simp

interpretation book_log: counted_journal "apply_fact lib" "\<lambda>b. length (bb_facts b)" "\<lambda>_. 1" for lib
  by unfold_locales (auto dest: apply_fact_frame)

definition book_frame :: "browser_book \<Rightarrow> browser_book \<Rightarrow> bool" where
  "book_frame b b' \<longleftrightarrow> bb_ready b' = bb_ready b \<and> bb_open_tasks b' = bb_open_tasks b
     \<and> (\<forall>k c. bget (bb_contexts b) k = Some c \<longrightarrow>
          (\<exists>c'. bget (bb_contexts b') k = Some c' \<and> cx_task_id c' = cx_task_id c))
     \<and> (\<forall>k s. bget (bb_receipts b) k = Some s \<longrightarrow> bget (bb_receipts b') k = Some s)"

lemma apply_fact_book_frame:
  assumes "apply_fact lib f b = Inr b'"
  shows "book_frame b b'"
  using apply_fact_frame[OF assms] apply_fact_context_owner[OF assms] apply_fact_receipts[OF assms]
  by (auto simp: book_frame_def bcontains_iff)

lemma book_frame_refl: "book_frame b b"
  by (simp add: book_frame_def)

lemma book_frame_trans: "book_frame a b \<Longrightarrow> book_frame b c \<Longrightarrow> book_frame a c"
  unfolding book_frame_def by (intro conjI allI impI) metis+

interpretation book_ahead: monotone_journal "apply_fact lib" book_frame for lib
  by unfold_locales (blast intro: book_frame_refl apply_fact_book_frame book_frame_trans)+
end
