(* ===== verification/Browser_Book.thy ===== *)
theory Browser_Book
  imports Browser
begin

text \<open>
  \<open>src/domain/browser.rs\<close>, second half: admission of requests, settlement of host outcomes,
  closing of a task, views and pages of the book, and the identity a host must present to
  settle held work.
\<close>

section \<open>Admission\<close>

definition tab_id_of :: "browser_request \<Rightarrow> browser_contract_error + browser_tab_id" where
  "tab_id_of q = ok_or (bq_tab_id q) BeInvalidRequest"

definition require_context_ids ::
  "browser_book \<Rightarrow> task_id \<Rightarrow> browser_context_id \<Rightarrow> u64 \<Rightarrow> browser_contract_error + context_state" where
  "require_context_ids b t cid generation =
     (case bget (bb_contexts b) cid of
        None \<Rightarrow> Inl BeInvalidRequest
      | Some c \<Rightarrow>
          if cx_task_id c \<noteq> t then Inl BeCrossTask
          else if cx_closed c then Inl BeInvalidRequest
          else if cx_generation c \<noteq> generation then Inl BeGenerationMismatch
          else Inr c)"

definition require_context :: "browser_book \<Rightarrow> browser_request \<Rightarrow> browser_contract_error + context_state" where
  "require_context b q = require_context_ids b (bq_task_id q) (bq_context_id q) (bq_generation q)"

definition require_tab :: "browser_book \<Rightarrow> browser_request \<Rightarrow> browser_contract_error + tab_state" where
  "require_tab b q =
     rbind (require_context b q) (\<lambda>_.
     rbind (tab_id_of q) (\<lambda>tid.
       case bget (bb_tabs b) tid of
         None \<Rightarrow> Inl BeInvalidRequest
       | Some tab \<Rightarrow>
           if tb_task_id tab \<noteq> bq_task_id q then Inl BeCrossTask
           else if tb_context_id tab \<noteq> bq_context_id q \<or> tb_closed tab then Inl BeInvalidRequest
           else Inr tab))"

definition plan_create_context ::
  "browser_book \<Rightarrow> browser_request \<Rightarrow> browser_contract_error + browser_durable_fact list" where
  "plan_create_context b q =
     (if bq_generation q \<noteq> 1 then Inl BeGenerationMismatch
      else case bget (bb_contexts b) (bq_context_id q) of
          Some existing \<Rightarrow>
            Inl (if cx_task_id existing = bq_task_id q then BeInvalidRequest else BeCrossTask)
        | None \<Rightarrow>
            if blen (bb_contexts b) \<ge> MAX_BROWSER_CONTEXTS then Inl BeBoundExceeded
            else Inr [BfContextCreated (bq_context_id q) (bq_task_id q) 1])"

definition context_tab_closures ::
  "browser_book \<Rightarrow> browser_context_id \<Rightarrow> task_id \<Rightarrow> browser_durable_fact list" where
  "context_tab_closures b cid t =
     map (\<lambda>(tid, tab). BfTabClosed tid cid t)
       (filter (\<lambda>(tid, tab). tb_context_id tab = cid \<and> \<not> tb_closed tab) (entries (bb_tabs b)))"

definition plan_close_context ::
  "browser_book \<Rightarrow> browser_request \<Rightarrow> browser_contract_error + browser_durable_fact list" where
  "plan_close_context b q =
     (let proceed = rbind (require_context b q) (\<lambda>c.
            Inr (context_tab_closures b (bq_context_id q) (bq_task_id q)
                 @ [BfContextClosed (bq_context_id q) (bq_task_id q) (cx_generation c)]))
      in case bget (bb_contexts b) (bq_context_id q) of
           None \<Rightarrow> proceed
         | Some existing \<Rightarrow>
             if cx_task_id existing \<noteq> bq_task_id q then Inl BeCrossTask
             else if cx_closed existing then Inr []
             else proceed)"

definition plan_open_tab ::
  "browser_book \<Rightarrow> browser_request \<Rightarrow> rstr \<Rightarrow> browser_tab_kind
     \<Rightarrow> browser_contract_error + browser_durable_fact list" where
  "plan_open_tab b q url kind =
     rbind (require_context b q) (\<lambda>c.
     rbind (ok_or (bq_tab_id q) BeInvalidRequest) (\<lambda>tid.
       if bcontains (bb_tabs b) tid then Inl BeInvalidRequest
       else if length (filter (\<lambda>tab. \<not> tb_closed tab) (bvalues (bb_tabs b))) \<ge> MAX_BROWSER_TABS
       then Inl BeBoundExceeded
       else rbind
         (case kind of
            TabPage \<Rightarrow> Inr ()
          | TabPopup opener \<Rightarrow>
              (case bget (bb_tabs b) opener of
                 None \<Rightarrow> Inl BeInvalidRequest
               | Some parent \<Rightarrow>
                   if tb_closed parent \<or> tb_context_id parent \<noteq> bq_context_id q
                      \<or> tb_task_id parent \<noteq> bq_task_id q
                   then Inl BeInvalidRequest else Inr ()))
         (\<lambda>_. Inr (BfTabOpened tid (bq_context_id q) (bq_task_id q) kind url
                   # (if cx_selected_tab_id c = None
                      then [BfTabSelected tid (bq_context_id q) (bq_task_id q)] else [])))))"

definition plan_identity_facts ::
  "browser_book \<Rightarrow> browser_request \<Rightarrow> browser_contract_error + browser_durable_fact list" where
  "plan_identity_facts b q =
     (case bq_action q of
        BaCreateContext \<Rightarrow> plan_create_context b q
      | BaCloseContext \<Rightarrow> plan_close_context b q
      | BaOpenTab url kind \<Rightarrow> plan_open_tab b q url kind
      | BaCloseTab \<Rightarrow>
          rbind (require_tab b q) (\<lambda>tab. rbind (tab_id_of q) (\<lambda>tid.
            Inr [BfTabClosed tid (tb_context_id tab) (bq_task_id q)]))
      | BaSelectTab \<Rightarrow>
          rbind (require_tab b q) (\<lambda>tab. rbind (tab_id_of q) (\<lambda>tid.
            Inr [BfTabSelected tid (tb_context_id tab) (bq_task_id q)]))
      | BaLinkArtifact artifact \<Rightarrow>
          rbind (require_context b q) (\<lambda>_.
            Inr [BfArtifactLinked (bq_context_id q) (bq_task_id q) artifact])
      | _ \<Rightarrow>
          if is_some (bq_tab_id q) then rbind (require_tab b q) (\<lambda>_. Inr [])
          else rbind (require_context b q) (\<lambda>_. Inr []))"

definition accepted_of_receipt :: "browser_accepted_receipt \<Rightarrow> request_accepted" where
  "accepted_of_receipt r =
     \<lparr> ra_request = \<lparr> bq_request_id = bx_request_id r, bq_task_id = bx_task_id r,
         bq_context_id = bx_context_id r, bq_tab_id = bx_tab_id r,
         bq_generation = bx_generation r, bq_action = bx_action r \<rparr>,
       ra_privacy_class = bx_privacy_class r, ra_permission = bx_permission r,
       ra_payload_hash = bx_payload_hash r, ra_action_epoch = bx_action_epoch r,
       ra_command_id = bx_command_id r \<rparr>"

definition replay_receipt :: "browser_accepted_receipt \<Rightarrow> browser_accepted_receipt" where
  "replay_receipt prior =
     (let kept = filter is_request_accepted (bx_facts prior)
      in prior \<lparr> bx_facts :=
           (if kept = [] then [BfRequestAccepted (accepted_of_receipt prior)] else kept) \<rparr>)"

definition validate_action_fields :: "browser_lib \<Rightarrow> browser_action \<Rightarrow> browser_contract_error + unit" where
  "validate_action_fields lib a =
     rbind (case action_url a of None \<Rightarrow> Inr () | Some url \<Rightarrow> validate_url lib url) (\<lambda>_.
     rbind (case a of
              BaFillSecret vault_ref field_selector \<Rightarrow>
                rbind (validate_identity vault_ref) (\<lambda>_. validate_identity field_selector)
            | _ \<Rightarrow> Inr ()) (\<lambda>_.
       case a of
         BaSetBounds width height \<Rightarrow>
           if width = 0 \<or> height = 0 \<or> width > MAX_BROWSER_DIMENSION \<or> height > MAX_BROWSER_DIMENSION
           then Inl BeInvalidRequest else Inr ()
       | _ \<Rightarrow> Inr ()))"

definition accepted_fact :: "browser_lib \<Rightarrow> browser_request \<Rightarrow> request_accepted" where
  "accepted_fact lib q =
     \<lparr> ra_request = q, ra_privacy_class = action_privacy_class (bq_action q),
       ra_permission = required_permission (bq_action q),
       ra_payload_hash = request_payload_hash lib q, ra_action_epoch = 0, ra_command_id = None \<rparr>"

definition plan_admit ::
  "browser_lib \<Rightarrow> browser_book \<Rightarrow> browser_request \<Rightarrow> browser_contract_error + browser_accepted_receipt" where
  "plan_admit lib b q =
     (if \<not> bb_ready b then Inl BeHostEffectUnavailable
      else case bget (bb_receipts b) (bq_request_id q) of
          Some prior \<Rightarrow>
            if st_request prior = q then Inr (replay_receipt (st_accepted prior))
            else Inl BeIdempotencyConflict
        | None \<Rightarrow>
            if \<not> bcontains (bb_open_tasks b) (bq_task_id q) then Inl BeClosedTask
            else if blen (bb_receipts b) \<ge> MAX_BROWSER_RECEIPTS then Inl BeBoundExceeded
            else if bq_generation q = 0 then Inl BeGenerationMismatch
            else rbind (validate_action_fields lib (bq_action q)) (\<lambda>_.
              rbind (plan_identity_facts b q) (\<lambda>identity.
                if length (bb_facts b) + (length identity + 1) > MAX_BROWSER_JOURNAL_FACTS
                then Inl BeBoundExceeded
                else Inr \<lparr> bx_request_id = bq_request_id q, bx_command_id = None,
                           bx_task_id = bq_task_id q, bx_context_id = bq_context_id q,
                           bx_tab_id = bq_tab_id q, bx_generation = bq_generation q,
                           bx_action = bq_action q,
                           bx_facts = BfRequestAccepted (accepted_fact lib q) # identity,
                           bx_privacy_class = action_privacy_class (bq_action q),
                           bx_permission = required_permission (bq_action q),
                           bx_payload_hash = request_payload_hash lib q, bx_action_epoch = 0 \<rparr>)))"

definition strip_accepted :: "browser_accepted_receipt \<Rightarrow> browser_accepted_receipt" where
  "strip_accepted r = r \<lparr> bx_facts := filter (\<lambda>f. \<not> is_request_accepted f) (bx_facts r) \<rparr>"

definition admit ::
  "browser_lib \<Rightarrow> browser_request \<Rightarrow> browser_book
     \<Rightarrow> (browser_contract_error + browser_accepted_receipt) \<times> browser_book" where
  "admit lib q b =
     (case plan_admit lib b q of
        Inl e \<Rightarrow> (Inl e, b)
      | Inr accepted \<Rightarrow>
          (case bget (bb_receipts b) (bq_request_id q) of
             Some prior \<Rightarrow> (Inr (strip_accepted (st_accepted prior)), b)
           | None \<Rightarrow>
               (case apply_facts_st lib (bx_facts accepted) b of
                  (Inl e, b') \<Rightarrow> (Inl e, b')
                | (Inr _, b') \<Rightarrow>
                    (Inr (strip_accepted accepted),
                     b' \<lparr> bb_receipts := binsert (bq_request_id q)
                        \<lparr> st_request = q, st_accepted = accepted,
                          st_settled = (\<not> requires_host_settlement (bq_action q)),
                          st_settlement = None \<rparr> (bb_receipts b') \<rparr>))))"

section \<open>Settlement\<close>

definition settlement_facts ::
  "browser_lib \<Rightarrow> browser_book \<Rightarrow> browser_action \<Rightarrow> browser_host_outcome
     \<Rightarrow> browser_contract_error + browser_durable_fact list" where
  "settlement_facts lib b a out =
     (let cid = bo_context_id out; t = bo_task_id out;
          navigation = (\<lambda>url doc.
            rbind (validate_url lib url) (\<lambda>_. rbind (validate_identity doc) (\<lambda>_.
            rbind (ok_or (bo_tab_id out) BeInvalidRequest) (\<lambda>tid.
              Inr [BfNavigationCommitted tid cid t url doc]))))
      in case (a, bo_settlement out) of
           (BaNavigate _, SetNavigationCommitted url doc) \<Rightarrow> navigation url doc
         | (BaReload, SetNavigationCommitted url doc) \<Rightarrow> navigation url doc
         | (BaDecidePermission _ _, SetPermissionDecided perm allowed) \<Rightarrow>
             Inr [BfPermissionDecided cid t perm allowed]
         | (BaDecideDownload _, SetPermissionDecided perm allowed) \<Rightarrow>
             Inr [BfPermissionDecided cid t perm allowed]
         | (BaRecover, SetRecovered generation) \<Rightarrow>
             rbind (require_context_ids b t cid (bo_generation out)) (\<lambda>c.
               Inr [BfHealthTransitioned cid t (cx_health c) Recovering generation])
         | (BaReplay, SetRecipeIdentified recipe) \<Rightarrow>
             rbind (validate_identity recipe) (\<lambda>_. Inr [BfRecipeIdentified cid t recipe])
         | (BaRecord, SetRecordingIdentified recording) \<Rightarrow>
             rbind (validate_identity recording) (\<lambda>_. Inr [BfRecordingIdentified cid t recording])
         | _ \<Rightarrow> Inl BeInvalidRequest)"

definition settle ::
  "browser_lib \<Rightarrow> browser_host_outcome \<Rightarrow> browser_book
     \<Rightarrow> (browser_contract_error + browser_accepted_receipt) \<times> browser_book" where
  "settle lib out b =
     (case bget (bb_receipts b) (bo_request_id out) of
        None \<Rightarrow> (Inl BeInvalidRequest, b)
      | Some receipt \<Rightarrow>
          let q = st_request receipt
          in if bq_task_id q \<noteq> bo_task_id out \<or> bq_context_id q \<noteq> bo_context_id out
                \<or> bq_tab_id q \<noteq> bo_tab_id out \<or> bq_generation q \<noteq> bo_generation out
             then (Inl BeInvalidRequest, b)
             else if st_settled receipt then
               (if st_settlement receipt = Some (bo_settlement out)
                then (Inr (st_accepted receipt), b) else (Inl BeIdempotencyConflict, b))
             else case settlement_facts lib b (bq_action q) out of
                 Inl e \<Rightarrow> (Inl e, b)
               | Inr facts \<Rightarrow>
                   (case apply_facts_st lib facts b of
                      (Inl e, b') \<Rightarrow> (Inl e, b')
                    | (Inr _, b') \<Rightarrow>
                        (case bget (bb_receipts b') (bo_request_id out) of
                           None \<Rightarrow> (Inl BeInvalidRequest, b')
                         | Some stored \<Rightarrow>
                             (Inr (st_accepted stored \<lparr> bx_facts := facts \<rparr>),
                              b' \<lparr> bb_receipts := binsert (bo_request_id out)
                                (stored \<lparr> st_settled := True, st_settlement := Some (bo_settlement out) \<rparr>)
                                (bb_receipts b') \<rparr>))))"

section \<open>Closing a task and replaying a journal\<close>

definition plan_close_task :: "browser_book \<Rightarrow> task_id \<Rightarrow> browser_durable_fact list" where
  "plan_close_task b t =
     map (\<lambda>(tid, tab). BfTabClosed tid (tb_context_id tab) t)
       (filter (\<lambda>(tid, tab). tb_task_id tab = t \<and> \<not> tb_closed tab) (entries (bb_tabs b)))
     @ map (\<lambda>(cid, c). BfContextClosed cid t (cx_generation c))
         (filter (\<lambda>(cid, c). cx_task_id c = t \<and> \<not> cx_closed c) (entries (bb_contexts b)))"

definition close_task ::
  "browser_lib \<Rightarrow> task_id \<Rightarrow> browser_book \<Rightarrow> (browser_contract_error + unit) \<times> browser_book" where
  "close_task lib t b =
     (if \<not> bcontains (bb_open_tasks b) t then (Inl BeClosedTask, b)
      else case apply_facts_st lib (plan_close_task b t) b of
          (Inl e, b') \<Rightarrow> (Inl e, b')
        | (Inr _, b') \<Rightarrow> (Inr (), b' \<lparr> bb_open_tasks := bremove t (bb_open_tasks b') \<rparr>))"

fun open_tasks_of ::
  "browser_durable_fact list \<Rightarrow> browser_book \<Rightarrow> browser_contract_error + browser_book" where
  "open_tasks_of [] b = Inr b"
| "open_tasks_of (f # fs) b = rbind (open_task (fact_task_id f) b) (open_tasks_of fs)"

record browser_context_view =
  cv_context_id :: browser_context_id
  cv_state :: context_state

record browser_tab_view =
  tv_tab_id :: browser_tab_id
  tv_state :: tab_state

record browser_identity_snapshot =
  is_contexts :: "browser_context_view list"
  is_tabs :: "browser_tab_view list"

definition context_view_of :: "browser_context_id \<Rightarrow> context_state \<Rightarrow> browser_context_view" where
  "context_view_of cid c = \<lparr> cv_context_id = cid, cv_state = c \<rparr>"

definition tab_view_of :: "browser_tab_id \<Rightarrow> tab_state \<Rightarrow> browser_tab_view" where
  "tab_view_of tid tab = \<lparr> tv_tab_id = tid, tv_state = tab \<rparr>"

definition identity_snapshot :: "browser_book \<Rightarrow> browser_identity_snapshot" where
  "identity_snapshot b =
     \<lparr> is_contexts = map (\<lambda>(cid, c). context_view_of cid c) (entries (bb_contexts b)),
       is_tabs = map (\<lambda>(tid, tab). tab_view_of tid tab) (entries (bb_tabs b)) \<rparr>"

definition replay_browser_snapshot ::
  "browser_lib \<Rightarrow> browser_durable_fact list \<Rightarrow> browser_contract_error + browser_identity_snapshot" where
  "replay_browser_snapshot lib facts =
     (if length facts > MAX_BROWSER_JOURNAL_FACTS then Inl BeBoundExceeded
      else rbind (open_tasks_of facts book_new) (\<lambda>b.
           rbind (apply_facts lib facts b) (\<lambda>b. Inr (identity_snapshot b))))"

definition project_context_view ::
  "browser_context_view \<Rightarrow> browser_book \<Rightarrow> browser_contract_error + browser_book" where
  "project_context_view v b =
     rbind (open_task (cx_task_id (cv_state v)) b) (\<lambda>b.
       if bcontains (bb_contexts b) (cv_context_id v) then Inl BeInvalidRequest
       else if blen (bb_contexts b) \<ge> MAX_BROWSER_CONTEXTS then Inl BeBoundExceeded
       else Inr (b \<lparr> bb_contexts := binsert (cv_context_id v) (cv_state v) (bb_contexts b) \<rparr>))"

definition project_tab_view ::
  "browser_tab_view \<Rightarrow> browser_book \<Rightarrow> browser_contract_error + browser_book" where
  "project_tab_view v b =
     rbind (open_task (tb_task_id (tv_state v)) b) (\<lambda>b.
       case bget (bb_contexts b) (tb_context_id (tv_state v)) of
         None \<Rightarrow> Inl BeInvalidRequest
       | Some c \<Rightarrow>
           if cx_task_id c \<noteq> tb_task_id (tv_state v) \<or> bcontains (bb_tabs b) (tv_tab_id v)
           then Inl BeInvalidRequest
           else if blen (bb_tabs b) \<ge> MAX_BROWSER_TABS then Inl BeBoundExceeded
           else Inr (b \<lparr> bb_tabs := binsert (tv_tab_id v) (tv_state v) (bb_tabs b) \<rparr>))"

section \<open>Admission is sound\<close>

text \<open>
  A fresh request that admission accepts always applies, with one exception in the code: a
  \<open>CloseContext\<close> for a context that is already closed is accepted without looking at its
  generation, while the accepted fact is refused when the generation differs.
\<close>

definition stale_reclose :: "browser_book \<Rightarrow> browser_request \<Rightarrow> bool" where
  "stale_reclose b q \<longleftrightarrow> bq_action q = BaCloseContext
     \<and> (\<exists>c. bget (bb_contexts b) (bq_context_id q) = Some c \<and> cx_closed c
            \<and> cx_generation c \<noteq> bq_generation q)"

lemma require_context_Inr:
  "require_context b q = Inr c \<longleftrightarrow>
     bget (bb_contexts b) (bq_context_id q) = Some c \<and> cx_task_id c = bq_task_id q
     \<and> \<not> cx_closed c \<and> cx_generation c = bq_generation q"
  by (auto simp: require_context_def require_context_ids_def split: option.splits if_splits)

lemma require_tab_Inr:
  "require_tab b q = Inr tab \<longleftrightarrow>
     (\<exists>c tid. require_context b q = Inr c \<and> bq_tab_id q = Some tid \<and> bget (bb_tabs b) tid = Some tab
        \<and> tb_task_id tab = bq_task_id q \<and> tb_context_id tab = bq_context_id q \<and> \<not> tb_closed tab)"
  by (auto simp: require_tab_def tab_id_of_def result_simps split: option.splits if_splits)

text \<open>Closing tabs keeps the set of contexts and their owners.\<close>

definition same_owners :: "browser_book \<Rightarrow> browser_book \<Rightarrow> bool" where
  "same_owners b b' \<longleftrightarrow>
     (\<forall>cid. map_option cx_task_id (bget (bb_contexts b') cid) = map_option cx_task_id (bget (bb_contexts b) cid))"

lemma same_ownersD:
  "same_owners b b' \<Longrightarrow> bget (bb_contexts b) cid = Some c
     \<Longrightarrow> \<exists>c'. bget (bb_contexts b') cid = Some c' \<and> cx_task_id c' = cx_task_id c"
  unfolding same_owners_def by (metis map_option_eq_Some option.simps(9))

lemma apply_tab_closed_ok:
  assumes "bcontains (bb_tabs b) tid"
  shows "\<exists>b'. apply_fact lib (BfTabClosed tid cid t) b = Inr b' \<and> same_owners b b'
     \<and> (\<forall>k. bcontains (bb_tabs b') k = bcontains (bb_tabs b) k)"
proof -
  obtain tab where tab: "bget (bb_tabs b) tid = Some tab"
    using assms by (auto simp: bcontains_iff)
  then have "\<And>k. k = tid \<or> bcontains (bb_tabs b) k \<longleftrightarrow> bcontains (bb_tabs b) k"
    using assms by auto
  then show ?thesis using tab
    by (auto simp: apply_fact_def apply_fact_body_def apply_tab_closed_def Let_def same_owners_def
        split: option.splits)
qed

lemma tab_closures_apply:
  assumes "\<forall>x\<in>set xs. bcontains (bb_tabs b) (fst x)"
  shows "\<exists>b'. apply_fact_seq lib (map (\<lambda>(tid, tab). BfTabClosed tid (f tab) t) xs) b = Inr b' \<and> same_owners b b'"
  using assms
proof (induction xs arbitrary: b)
  case (Cons x xs)
  obtain tid tab where x: "x = (tid, tab)" by (cases x)
  then obtain b1 where b1: "apply_fact lib (BfTabClosed tid (f tab) t) b = Inr b1" "same_owners b b1"
    and keep: "\<forall>k. bcontains (bb_tabs b1) k = bcontains (bb_tabs b) k"
    using apply_tab_closed_ok[of b tid lib "f tab" t] Cons.prems by auto
  then obtain b2 where
    "apply_fact_seq lib (map (\<lambda>(tid, tab). BfTabClosed tid (f tab) t) xs) b1 = Inr b2" "same_owners b1 b2"
    using Cons.IH[of b1] Cons.prems by auto
  then show ?case using x b1 by (auto simp: same_owners_def)
qed (simp add: same_owners_def)

lemma context_closed_applies:
  assumes "bget (bb_contexts b) cid = Some c" "cx_task_id c = t"
  shows "\<exists>b'. apply_fact lib (BfContextClosed cid t g) b = Inr b'"
  using assms by (auto simp: apply_fact_def apply_fact_body_def apply_context_closed_def
      with_owned_context_def)

lemma plan_identity_facts_apply:
  assumes plan: "plan_identity_facts b q = Inr fs" and valid: "validate_action_fields lib (bq_action q) = Inr ()"
    and opened: "bcontains (bb_open_tasks b) (bq_task_id q)"
  shows "\<exists>b'. apply_fact_seq lib fs b = Inr b'"
proof (cases "bq_action q")
  case BaCreateContext
  then show ?thesis using plan opened
    by (auto simp: plan_identity_facts_def plan_create_context_def apply_fact_def apply_fact_body_def
        apply_context_created_def bcontains_iff split: if_splits option.splits)
next
  case BaCloseContext
  show ?thesis
  proof (cases "fs = []")
    case False
    then obtain c where c: "require_context b q = Inr c"
      and fs: "fs = context_tab_closures b (bq_context_id q) (bq_task_id q)
                @ [BfContextClosed (bq_context_id q) (bq_task_id q) (cx_generation c)]"
      using plan BaCloseContext
      by (auto simp: plan_identity_facts_def plan_close_context_def Let_def result_simps
          split: option.splits if_splits)
    let ?xs = "filter (\<lambda>(tid, tab). tb_context_id tab = bq_context_id q \<and> \<not> tb_closed tab) (entries (bb_tabs b))"
    have "\<forall>x\<in>set ?xs. bcontains (bb_tabs b) (fst x)"
      by (auto simp: in_entries_iff bcontains_iff)
    from tab_closures_apply[OF this, where f = "\<lambda>_. bq_context_id q" and t = "bq_task_id q" and lib = lib]
    obtain b1 where b1:
      "apply_fact_seq lib (context_tab_closures b (bq_context_id q) (bq_task_id q)) b = Inr b1"
      "same_owners b b1"
      unfolding context_tab_closures_def by blast
    obtain c' where "bget (bb_contexts b1) (bq_context_id q) = Some c'" "cx_task_id c' = bq_task_id q"
      using same_ownersD[OF b1(2)] c by (fastforce simp: require_context_Inr)
    then obtain b2 where
      "apply_fact lib (BfContextClosed (bq_context_id q) (bq_task_id q) (cx_generation c)) b1 = Inr b2"
      using context_closed_applies by blast
    then show ?thesis using b1(1) by (simp add: fs apply_fact_seq_append)
  qed simp
next
  case (BaOpenTab url kind)
  then have url: "validate_url lib url = Inr ()"
    using valid by (auto simp: validate_action_fields_def action_url_def result_simps)
  from plan BaOpenTab show ?thesis
    by (auto simp: plan_identity_facts_def plan_open_tab_def require_context_Inr result_simps
        apply_fact_def apply_fact_body_def apply_tab_opened_def apply_tab_selected_def url
        split: if_splits option.splits)
next
  case BaCloseTab
  then show ?thesis using plan
    by (auto simp: plan_identity_facts_def require_tab_Inr tab_id_of_def result_simps apply_fact_def
        apply_fact_body_def apply_tab_closed_def Let_def split: option.splits)
next
  case BaSelectTab
  then show ?thesis using plan
    by (auto simp: plan_identity_facts_def require_tab_Inr require_context_Inr tab_id_of_def
        result_simps apply_fact_def apply_fact_body_def apply_tab_selected_def bcontains_iff
        split: option.splits)
next
  case (BaLinkArtifact a)
  then show ?thesis using plan
    by (auto simp: plan_identity_facts_def require_context_Inr result_simps apply_fact_def
        apply_fact_body_def apply_artifact_linked_def with_owned_context_def)
qed (use plan in \<open>auto simp: plan_identity_facts_def result_simps split: if_splits\<close>)

lemma accepted_fact_applies:
  assumes plan: "plan_identity_facts b q = Inr fs" and opened: "bcontains (bb_open_tasks b) (bq_task_id q)"
    and ok: "\<not> stale_reclose b q" and r: "ra_request r = q"
  shows "\<exists>b'. apply_fact lib (BfRequestAccepted r) b = Inr b'
     \<and> bb_contexts b' = bb_contexts b \<and> bb_tabs b' = bb_tabs b \<and> bb_open_tasks b' = bb_open_tasks b"
proof -
  have "cx_task_id c = bq_task_id q \<and> cx_generation c = bq_generation q"
    if c: "bget (bb_contexts b) (bq_context_id q) = Some c" for c
    using plan c ok unfolding plan_identity_facts_def
    by (cases "bq_action q")
       (auto simp: plan_create_context_def plan_close_context_def plan_open_tab_def require_context_Inr
         require_tab_Inr stale_reclose_def Let_def result_simps split: if_splits)
  then have "\<exists>b'. apply_request_accepted r b = Inr b'"
    using opened r by (auto simp: apply_request_accepted_Inr Let_def split: option.split)
  then obtain b' where b': "apply_request_accepted r b = Inr b'" by blast
  then have "bb_contexts b' = bb_contexts b \<and> bb_tabs b' = bb_tabs b \<and> bb_open_tasks b' = bb_open_tasks b"
    by (auto simp: apply_request_accepted_Inr Let_def split: if_splits)
  then show ?thesis using b' by (simp add: apply_fact_def apply_fact_body_def)
qed

lemma plan_identity_facts_cong:
  assumes "bb_contexts b' = bb_contexts b" "bb_tabs b' = bb_tabs b"
  shows "plan_identity_facts b' q = plan_identity_facts b q"
  unfolding plan_identity_facts_def plan_create_context_def plan_close_context_def plan_open_tab_def
    require_context_def require_context_ids_def require_tab_def context_tab_closures_def assms
  by (rule refl)

lemma plan_admit_fresh_Inr:
  assumes "plan_admit lib b q = Inr r" "bget (bb_receipts b) (bq_request_id q) = None"
  obtains fs where "plan_identity_facts b q = Inr fs" "bx_facts r = BfRequestAccepted (accepted_fact lib q) # fs"
    "bcontains (bb_open_tasks b) (bq_task_id q)" "validate_action_fields lib (bq_action q) = Inr ()"
    "length (bb_facts b) + length (bx_facts r) \<le> MAX_BROWSER_JOURNAL_FACTS"
    "blen (bb_receipts b) < MAX_BROWSER_RECEIPTS" "bx_request_id r = bq_request_id q"
  using assms by (auto simp: plan_admit_def result_simps split: if_splits)

lemma planned_facts_apply:
  assumes plan: "plan_identity_facts b q = Inr fs" and valid: "validate_action_fields lib (bq_action q) = Inr ()"
    and opened: "bcontains (bb_open_tasks b) (bq_task_id q)" and ok: "\<not> stale_reclose b q"
    and r: "ra_request r = q" and room: "length (bb_facts b) + Suc (length fs) \<le> MAX_BROWSER_JOURNAL_FACTS"
  shows "\<exists>b'. apply_facts lib (BfRequestAccepted r # fs) b = Inr b'"
proof -
  obtain b1 where b1: "apply_fact lib (BfRequestAccepted r) b = Inr b1"
    "bb_contexts b1 = bb_contexts b" "bb_tabs b1 = bb_tabs b" "bb_open_tasks b1 = bb_open_tasks b"
    using accepted_fact_applies[OF plan opened ok r] by blast
  have "\<exists>b'. apply_fact_seq lib fs b1 = Inr b'"
    using plan valid opened b1 plan_identity_facts_cong[OF b1(2,3)]
    by (intro plan_identity_facts_apply[of b1 q]) auto
  then show ?thesis using room b1(1) by (auto simp: apply_facts_Inr)
qed

lemma plan_admit_applies:
  assumes plan: "plan_admit lib b q = Inr r" and fresh: "bget (bb_receipts b) (bq_request_id q) = None"
    and ok: "\<not> stale_reclose b q"
  shows "\<exists>b'. apply_facts lib (bx_facts r) b = Inr b'"
proof -
  obtain fs where fs: "plan_identity_facts b q = Inr fs"
    "bx_facts r = BfRequestAccepted (accepted_fact lib q) # fs"
    "bcontains (bb_open_tasks b) (bq_task_id q)" "validate_action_fields lib (bq_action q) = Inr ()"
    "length (bb_facts b) + length (bx_facts r) \<le> MAX_BROWSER_JOURNAL_FACTS"
    using plan_admit_fresh_Inr[OF plan fresh] by metis
  then show ?thesis
    using planned_facts_apply[OF fs(1,4,3) ok, of "accepted_fact lib q"] by (simp add: accepted_fact_def)
qed

lemma plan_identity_facts_own:
  assumes "plan_identity_facts b q = Inr fs" "f \<in> set fs"
  shows "fact_task_id f = bq_task_id q \<and> \<not> is_request_accepted f"
  using assms unfolding plan_identity_facts_def
  by (cases "bq_action q")
     (auto simp: plan_create_context_def plan_close_context_def plan_open_tab_def context_tab_closures_def
       fact_task_id_def is_request_accepted_def Let_def result_simps split: option.splits if_splits)

text \<open>Binding the command changes only the leading acceptance fact of a fresh plan.\<close>

lemma bind_command_facts:
  assumes plan: "plan_admit lib b q = Inr r" and fresh: "bget (bb_receipts b) (bq_request_id q) = None"
  obtains ra fs where "bx_facts (bind_command c epoch r) = BfRequestAccepted ra # fs" "ra_request ra = q"
    "plan_identity_facts b q = Inr fs"
proof -
  obtain fs where fs: "plan_identity_facts b q = Inr fs"
    "bx_facts r = BfRequestAccepted (accepted_fact lib q) # fs"
    using plan_admit_fresh_Inr[OF plan fresh] by metis
  let ?g = "\<lambda>f. case f of BfRequestAccepted q \<Rightarrow>
           BfRequestAccepted (q \<lparr> ra_command_id := Some c, ra_action_epoch := epoch \<rparr>) | _ \<Rightarrow> f"
  have "?g f = f" if "f \<in> set fs" for f
    using plan_identity_facts_own[OF fs(1) that] by (cases f) (simp_all add: is_request_accepted_def)
  then have "map ?g fs = fs" by (rule map_idI)
  then show thesis
    using that[of "(accepted_fact lib q) \<lparr> ra_command_id := Some c, ra_action_epoch := epoch \<rparr>" fs] fs
    by (simp add: bind_command_def accepted_fact_def)
qed

lemma admit_accepts:
  assumes "plan_admit lib b q = Inr r" "bget (bb_receipts b) (bq_request_id q) = None" "\<not> stale_reclose b q"
  shows "\<exists>b'. admit lib q b = (Inr (strip_accepted r), b') \<and> bcontains (bb_receipts b') (bq_request_id q)"
proof -
  obtain b1 where "apply_facts_st lib (bx_facts r) b = (Inr (), b1)"
    using plan_admit_applies[OF assms] by (auto simp: apply_facts_st_Inr)
  then show ?thesis using assms by (simp add: admit_def)
qed

section \<open>Errors leave the book alone, and receipts make work idempotent\<close>

lemma admit_error_unchanged: "admit lib q b = (Inl e, b') \<Longrightarrow> b' = b"
  by (auto simp: admit_def dest: apply_facts_st_Inl split: sum.splits option.splits prod.splits)

lemma admit_stored:
  assumes "admit lib q b = (Inr r, b')"
  shows "\<exists>s. bget (bb_receipts b') (bq_request_id q) = Some s \<and> st_request s = q
       \<and> strip_accepted (st_accepted s) = r \<and> bb_ready b'"
proof (cases "bget (bb_receipts b) (bq_request_id q)")
  case (Some prior)
  then show ?thesis using assms by (auto simp: admit_def plan_admit_def split: if_splits)
next
  case None
  then obtain acc b1 where "plan_admit lib b q = Inr acc" "apply_facts_st lib (bx_facts acc) b = (Inr (), b1)"
    "r = strip_accepted acc"
    "b' = b1 \<lparr> bb_receipts := binsert (bq_request_id q)
            \<lparr> st_request = q, st_accepted = acc,
              st_settled = (\<not> requires_host_settlement (bq_action q)),
              st_settlement = None \<rparr> (bb_receipts b1) \<rparr>"
    using assms by (auto simp: admit_def split: sum.splits prod.splits)
  moreover have "bb_ready b1"
    using calculation apply_fact_seq_frame[of lib "bx_facts acc" b b1]
    by (auto simp: apply_facts_st_Inr apply_facts_Inr plan_admit_def split: if_splits)
  ultimately show ?thesis by simp
qed

lemma admit_idempotent:
  assumes "admit lib q b = (Inr r, b')"
  shows "admit lib q b' = (Inr r, b')"
  using admit_stored[OF assms] by (auto simp: admit_def plan_admit_def)

lemma admit_conflict:
  assumes "admit lib q b = (Inr r, b')" "bq_request_id q' = bq_request_id q" "q' \<noteq> q"
  shows "admit lib q' b' = (Inl BeIdempotencyConflict, b')"
  using admit_stored[OF assms(1)] assms(2,3) by (auto simp: admit_def plan_admit_def)

lemma apply_fact_seq_receipts_keep:
  assumes "apply_fact_seq lib fs b = Inr b'" "bget (bb_receipts b) k = Some s"
  shows "bget (bb_receipts b') k = Some s"
  using assms
proof (induction fs arbitrary: b)
  case (Cons f fs)
  then obtain b1 where "apply_fact lib f b = Inr b1" "apply_fact_seq lib fs b1 = Inr b'"
    by (auto simp: result_simps)
  moreover have "bget (bb_receipts b1) k = Some s"
    using apply_fact_receipts[OF calculation(1)] Cons.prems(2) by (auto simp: bcontains_iff)
  ultimately show ?case using Cons.IH by blast
qed simp

lemma apply_facts_st_receipts_keep:
  "apply_facts_st lib fs b = (Inr u, b') \<Longrightarrow> bget (bb_receipts b) k = Some s \<Longrightarrow> bget (bb_receipts b') k = Some s"
  using apply_fact_seq_receipts_keep by (auto simp: apply_facts_st_Inr apply_facts_Inr)

lemma settle_error_unchanged:
  assumes "settle lib out b = (Inl e, b')"
  shows "b' = b"
  using assms apply_facts_st_receipts_keep
  by (fastforce simp: settle_def Let_def dest: apply_facts_st_Inl
      split: option.splits if_splits sum.splits prod.splits)

lemma settle_stored:
  assumes "settle lib out b = (Inr r, b')"
  shows "\<exists>s. bget (bb_receipts b') (bo_request_id out) = Some s \<and> st_settled s
     \<and> st_settlement s = Some (bo_settlement out)
     \<and> bq_task_id (st_request s) = bo_task_id out \<and> bq_context_id (st_request s) = bo_context_id out
     \<and> bq_tab_id (st_request s) = bo_tab_id out \<and> bq_generation (st_request s) = bo_generation out"
  using assms apply_facts_st_receipts_keep
  by (fastforce simp: settle_def Let_def split: option.splits if_splits sum.splits prod.splits)

lemma settle_once:
  assumes "settle lib out b = (Inr r, b')"
  shows "\<exists>r'. settle lib out b' = (Inr r', b')"
    and "bo_settlement out' \<noteq> bo_settlement out \<Longrightarrow> out' = out \<lparr> bo_settlement := bo_settlement out' \<rparr>
       \<Longrightarrow> settle lib out' b' = (Inl BeIdempotencyConflict, b')"
proof -
  obtain s where s: "bget (bb_receipts b') (bo_request_id out) = Some s" "st_settled s"
    "st_settlement s = Some (bo_settlement out)" "bq_task_id (st_request s) = bo_task_id out"
    "bq_context_id (st_request s) = bo_context_id out" "bq_tab_id (st_request s) = bo_tab_id out"
    "bq_generation (st_request s) = bo_generation out"
    using settle_stored[OF assms] by blast
  show "\<exists>r'. settle lib out b' = (Inr r', b')" by (simp add: settle_def s)
  assume ne: "bo_settlement out' \<noteq> bo_settlement out"
    and same: "out' = out \<lparr> bo_settlement := bo_settlement out' \<rparr>"
  have ids: "bo_request_id out' = bo_request_id out" "bo_task_id out' = bo_task_id out"
    "bo_context_id out' = bo_context_id out" "bo_tab_id out' = bo_tab_id out"
    "bo_generation out' = bo_generation out"
    by (subst same, simp)+
  show "settle lib out' b' = (Inl BeIdempotencyConflict, b')"
    using ne by (simp add: settle_def s ids)
qed

section \<open>Closing a task closes its work\<close>

definition closing_rel :: "browser_book \<Rightarrow> browser_book \<Rightarrow> bool" where
  "closing_rel b b' \<longleftrightarrow>
     (\<forall>k tab'. bget (bb_tabs b') k = Some tab' \<longrightarrow>
        (\<exists>tab. bget (bb_tabs b) k = Some tab \<and> tb_task_id tab' = tb_task_id tab
           \<and> (tb_closed tab \<longrightarrow> tb_closed tab')))
     \<and> (\<forall>k c'. bget (bb_contexts b') k = Some c' \<longrightarrow>
        (\<exists>c. bget (bb_contexts b) k = Some c \<and> cx_task_id c' = cx_task_id c
           \<and> (cx_closed c \<longrightarrow> cx_closed c')))"

definition closes :: "browser_durable_fact \<Rightarrow> browser_book \<Rightarrow> bool" where
  "closes f b =
     (case f of
        BfTabClosed tid _ _ \<Rightarrow> \<forall>tab. bget (bb_tabs b) tid = Some tab \<longrightarrow> tb_closed tab
      | BfContextClosed cid _ _ \<Rightarrow> \<forall>c. bget (bb_contexts b) cid = Some c \<longrightarrow> cx_closed c
      | _ \<Rightarrow> False)"

definition is_close_fact :: "browser_durable_fact \<Rightarrow> bool" where
  "is_close_fact f = (case f of BfTabClosed _ _ _ \<Rightarrow> True | BfContextClosed _ _ _ \<Rightarrow> True | _ \<Rightarrow> False)"

lemma closing_rel_refl [simp]: "closing_rel b b"
  by (auto simp: closing_rel_def)

lemma closing_rel_trans: "closing_rel a b \<Longrightarrow> closing_rel b c \<Longrightarrow> closing_rel a c"
  unfolding closing_rel_def by (intro conjI allI impI) metis+

lemma closes_mono: "closes f b \<Longrightarrow> closing_rel b b' \<Longrightarrow> closes f b'"
  by (cases f) (fastforce simp: closes_def closing_rel_def)+

lemma apply_close_fact:
  assumes "apply_fact lib f b = Inr b'" "is_close_fact f"
  shows "closing_rel b b' \<and> closes f b'"
  using assms
  by (cases f)
     (auto simp: is_close_fact_def apply_fact_def apply_fact_body_def apply_tab_closed_def
       apply_context_closed_def with_owned_context_Inr closing_rel_def closes_def Let_def result_simps
       split: option.splits if_splits)

lemma apply_close_facts:
  assumes "apply_fact_seq lib fs b = Inr b'" "\<forall>f\<in>set fs. is_close_fact f"
  shows "closing_rel b b' \<and> (\<forall>f\<in>set fs. closes f b')"
  using assms
proof (induction fs arbitrary: b)
  case (Cons f fs)
  then obtain b1 where b1: "apply_fact lib f b = Inr b1" "apply_fact_seq lib fs b1 = Inr b'"
    by (auto simp: result_simps)
  have "closing_rel b b1 \<and> closes f b1" using apply_close_fact[OF b1(1)] Cons.prems by simp
  moreover have "closing_rel b1 b' \<and> (\<forall>f\<in>set fs. closes f b')" using Cons.IH[OF b1(2)] Cons.prems by simp
  ultimately show ?case using closing_rel_trans closes_mono by auto
qed simp

lemma plan_close_task_facts: "\<forall>f\<in>set (plan_close_task b t). is_close_fact f"
  by (auto simp: plan_close_task_def is_close_fact_def)

lemma plan_close_task_closes:
  assumes "apply_fact_seq lib (plan_close_task b t) b = Inr b'"
  shows "(\<forall>k tab. bget (bb_tabs b') k = Some tab \<and> tb_task_id tab = t \<longrightarrow> tb_closed tab)
       \<and> (\<forall>k c. bget (bb_contexts b') k = Some c \<and> cx_task_id c = t \<longrightarrow> cx_closed c)"
proof -
  have rel: "closing_rel b b'" and closed: "\<And>f. f \<in> set (plan_close_task b t) \<Longrightarrow> closes f b'"
    using apply_close_facts[OF assms plan_close_task_facts] by auto
  have tabs: "tb_closed tab" if k: "bget (bb_tabs b') k = Some tab" "tb_task_id tab = t" for k tab
  proof -
    obtain tab0 where tab0: "bget (bb_tabs b) k = Some tab0" "tb_task_id tab0 = t"
      "tb_closed tab0 \<longrightarrow> tb_closed tab"
      using rel k unfolding closing_rel_def by metis
    have "BfTabClosed k (tb_context_id tab0) t \<in> set (plan_close_task b t)" if "\<not> tb_closed tab0"
      using tab0 that by (force simp: plan_close_task_def in_entries_iff)
    then show ?thesis using closed tab0 k(1) by (fastforce simp: closes_def)
  qed
  have contexts: "cx_closed c" if k: "bget (bb_contexts b') k = Some c" "cx_task_id c = t" for k c
  proof -
    obtain c0 where c0: "bget (bb_contexts b) k = Some c0" "cx_task_id c0 = t"
      "cx_closed c0 \<longrightarrow> cx_closed c"
      using rel k unfolding closing_rel_def by metis
    have "BfContextClosed k t (cx_generation c0) \<in> set (plan_close_task b t)" if "\<not> cx_closed c0"
      using c0 that by (force simp: plan_close_task_def in_entries_iff)
    then show ?thesis using closed c0 k(1) by (fastforce simp: closes_def)
  qed
  show ?thesis using tabs contexts by blast
qed

lemma plan_close_task_applies:
  assumes "length (bb_facts b) + length (plan_close_task b t) \<le> MAX_BROWSER_JOURNAL_FACTS"
  shows "\<exists>b'. apply_facts lib (plan_close_task b t) b = Inr b'"
proof -
  let ?tabs = "filter (\<lambda>(tid, tab). tb_task_id tab = t \<and> \<not> tb_closed tab) (entries (bb_tabs b))"
  let ?ctxs = "filter (\<lambda>(cid, c). cx_task_id c = t \<and> \<not> cx_closed c) (entries (bb_contexts b))"
  have "\<forall>x\<in>set ?tabs. bcontains (bb_tabs b) (fst x)" by (auto simp: in_entries_iff bcontains_iff)
  then obtain b1 where b1: "apply_fact_seq lib
      (map (\<lambda>(tid, tab). BfTabClosed tid (tb_context_id tab) t) ?tabs) b = Inr b1" "same_owners b b1"
    using tab_closures_apply by blast
  have "\<exists>b2. apply_fact_seq lib (map (\<lambda>(cid, c). BfContextClosed cid t (cx_generation c)) xs) d = Inr b2"
    if "\<forall>x\<in>set xs. \<exists>c. bget (bb_contexts d) (fst x) = Some c \<and> cx_task_id c = t" for xs d
    using that
  proof (induction xs arbitrary: d)
    case (Cons x xs)
    obtain cid c where x: "x = (cid, c)" by (cases x)
    then obtain d1 where d1: "apply_fact lib (BfContextClosed cid t (cx_generation c)) d = Inr d1"
      using Cons.prems context_closed_applies[of d cid] by fastforce
    have "\<forall>x\<in>set xs. \<exists>c. bget (bb_contexts d1) (fst x) = Some c \<and> cx_task_id c = t"
      using Cons.prems apply_fact_context_owner[OF d1] by fastforce
    then show ?case using Cons.IH[of d1] x d1 by simp
  qed simp
  moreover have "\<forall>x\<in>set ?ctxs. \<exists>c. bget (bb_contexts b1) (fst x) = Some c \<and> cx_task_id c = t"
    using same_ownersD[OF b1(2)] by (fastforce simp: in_entries_iff)
  ultimately obtain b2 where
    "apply_fact_seq lib (map (\<lambda>(cid, c). BfContextClosed cid t (cx_generation c)) ?ctxs) b1 = Inr b2"
    by blast
  then show ?thesis
    using assms b1(1) by (auto simp: apply_facts_Inr plan_close_task_def apply_fact_seq_append)
qed

lemma close_task_ok_iff:
  "(\<exists>b'. close_task lib t b = (Inr (), b')) \<longleftrightarrow>
     bcontains (bb_open_tasks b) t
     \<and> (plan_close_task b t = [] \<or> length (bb_facts b) + length (plan_close_task b t) \<le> MAX_BROWSER_JOURNAL_FACTS)"
proof (cases "apply_facts_st lib (plan_close_task b t) b")
  case (Pair r b1)
  show ?thesis
  proof (cases r)
    case (Inl e)
    then have "apply_facts lib (plan_close_task b t) b = Inl e"
      using Pair apply_facts_st_Inl by blast
    then have "\<not> (plan_close_task b t = [] \<or>
        length (bb_facts b) + length (plan_close_task b t) \<le> MAX_BROWSER_JOURNAL_FACTS)"
      using plan_close_task_applies[of b t lib] by (auto simp: apply_facts_def apply_facts_st_def)
    then show ?thesis using Inl Pair by (simp add: close_task_def)
  next
    case (Inr u)
    then have "apply_facts lib (plan_close_task b t) b = Inr b1"
      using Pair apply_facts_st_Inr by blast
    then show ?thesis using Inr Pair by (simp add: close_task_def apply_facts_Inr)
  qed
qed

lemma close_task_closes:
  assumes "close_task lib t b = (Inr (), b')"
  shows "\<not> bcontains (bb_open_tasks b') t
     \<and> (\<forall>k tab. bget (bb_tabs b') k = Some tab \<and> tb_task_id tab = t \<longrightarrow> tb_closed tab)
     \<and> (\<forall>k c. bget (bb_contexts b') k = Some c \<and> cx_task_id c = t \<longrightarrow> cx_closed c)"
proof -
  obtain b1 where b1: "apply_facts_st lib (plan_close_task b t) b = (Inr (), b1)"
    "b' = b1 \<lparr> bb_open_tasks := bremove t (bb_open_tasks b1) \<rparr>"
    using assms by (auto simp: close_task_def split: if_splits prod.splits sum.splits)
  then have "apply_fact_seq lib (plan_close_task b t) b = Inr b1"
    by (simp add: apply_facts_st_Inr apply_facts_Inr)
  from plan_close_task_closes[OF this] show ?thesis by (simp add: b1(2))
qed

section \<open>The journal determines the book\<close>

text \<open>
  Every book the program builds starts empty and changes only by opening a task,
  applying facts, dropping a task from the open set and rewriting receipts.  The
  relation \<open>book_step\<close> covers \<open>open_task\<close>, \<open>admit\<close>, \<open>settle\<close>, \<open>close_task\<close> and the uses
  of the book in the event application.
\<close>

inductive book_step :: "browser_lib \<Rightarrow> browser_book \<Rightarrow> browser_book \<Rightarrow> bool" for lib where
  step_open: "open_task t b = Inr b' \<Longrightarrow> book_step lib b b'"
| step_facts: "apply_facts lib fs b = Inr b' \<Longrightarrow> book_step lib b b'"
| step_drop: "book_step lib b (b \<lparr> bb_open_tasks := bremove t (bb_open_tasks b) \<rparr>)"
| step_receipts: "book_step lib b (b \<lparr> bb_receipts := rs \<rparr>)"

inductive book_reachable :: "browser_lib \<Rightarrow> browser_book \<Rightarrow> bool" for lib where
  reach_new: "book_reachable lib book_new"
| reach_step: "book_reachable lib b \<Longrightarrow> book_step lib b b' \<Longrightarrow> book_reachable lib b'"

lemma admit_reachable:
  assumes "book_reachable lib b"
  shows "book_reachable lib (snd (admit lib q b))"
proof (cases "admit lib q b")
  case (Pair r b')
  show ?thesis
  proof (cases r)
    case (Inl e)
    then show ?thesis using Pair admit_error_unchanged assms by fastforce
  next
    case (Inr x)
    show ?thesis
    proof (cases "bget (bb_receipts b) (bq_request_id q)")
      case (Some prior)
      then show ?thesis using Pair Inr assms by (auto simp: admit_def split: sum.splits)
    next
      case None
      then have "\<exists>fs b1 rs. apply_facts_st lib fs b = (Inr (), b1) \<and> b' = b1 \<lparr> bb_receipts := rs \<rparr>"
        using Pair Inr by (fastforce simp: admit_def split: sum.splits prod.splits)
      then show ?thesis
        using assms Pair by (auto simp: apply_facts_st_Inr intro: book_reachable.intros book_step.intros)
    qed
  qed
qed

lemma settle_reachable:
  assumes "book_reachable lib b"
  shows "book_reachable lib (snd (settle lib out b))"
proof (cases "settle lib out b")
  case (Pair r b')
  show ?thesis
  proof (cases r)
    case (Inl e)
    then show ?thesis using Pair settle_error_unchanged assms by fastforce
  next
    case (Inr x)
    then have "b' = b \<or> (\<exists>fs b1 rs. apply_facts_st lib fs b = (Inr (), b1) \<and> b' = b1 \<lparr> bb_receipts := rs \<rparr>)"
      using Pair by (fastforce simp: settle_def Let_def split: option.splits if_splits sum.splits prod.splits)
    then show ?thesis
      using assms Pair by (auto simp: apply_facts_st_Inr intro: book_reachable.intros book_step.intros)
  qed
qed

lemma close_task_reachable:
  assumes "book_reachable lib b"
  shows "book_reachable lib (snd (close_task lib t b))"
proof (cases "apply_facts_st lib (plan_close_task b t) b")
  case (Pair r b1)
  show ?thesis
  proof (cases r)
    case (Inl e)
    then show ?thesis using Pair apply_facts_st_Inl assms by (fastforce simp: close_task_def)
  next
    case (Inr u)
    then have "book_reachable lib b1"
      using Pair assms by (auto simp: apply_facts_st_Inr intro: book_reachable.intros book_step.intros)
    then show ?thesis
      using Pair Inr assms by (auto simp: close_task_def intro: book_reachable.intros book_step.intros)
  qed
qed

definition same_projection :: "browser_book \<Rightarrow> browser_book \<Rightarrow> bool" where
  "same_projection b r \<longleftrightarrow> bb_contexts r = bb_contexts b \<and> bb_tabs r = bb_tabs b \<and> bb_facts r = bb_facts b"

lemma with_owned_context_simulates:
  assumes "with_owned_context cid t f b = Inr b'" "same_projection b r"
  shows "\<exists>r'. with_owned_context cid t f r = Inr r' \<and> same_projection b' r'"
  using assms by (auto simp: with_owned_context_Inr same_projection_def)

lemma apply_fact_body_simulates:
  assumes ap: "apply_fact_body lib f b = Inr b'" and sim: "same_projection b r"
    and opened: "bcontains (bb_open_tasks r) (fact_task_id f)"
  shows "\<exists>r'. apply_fact_body lib f r = Inr r' \<and> same_projection b' r'"
proof (cases "\<exists>cid t g. f = BfContextClosed cid t g")
  case True
  then obtain cid t g where f: "f = BfContextClosed cid t g" by blast
  then obtain b1 where b1: "with_owned_context cid t (\<lambda>c. c \<lparr> cx_closed := True \<rparr>) b = Inr b1"
    "b' = b1 \<lparr> bb_tabs := bmap_values (\<lambda>tab. if tb_context_id tab = cid then tab \<lparr> tb_closed := True \<rparr> else tab) (bb_tabs b1) \<rparr>"
    using ap by (auto simp: apply_fact_body_def apply_context_closed_def result_simps)
  from with_owned_context_simulates[OF b1(1) sim] show ?thesis
    by (auto simp: f b1(2) apply_fact_body_def apply_context_closed_def same_projection_def)
next
  case False
  then show ?thesis
    using assms with_owned_context_simulates
    by (cases f)
       (auto simp: apply_fact_body_def apply_permission_decided_def apply_artifact_linked_def
         apply_recipe_identified_def apply_recording_identified_def apply_download_settled_def
         apply_context_created_def apply_tab_opened_def apply_tab_closed_def apply_tab_selected_def
         apply_navigation_committed_def apply_health_transitioned_def apply_request_accepted_Inr
         fact_task_id_def same_projection_def Let_def result_simps split: option.splits if_splits)
qed

lemma apply_fact_simulates:
  assumes "apply_fact lib f b = Inr b'" "same_projection b r"
    and "bcontains (bb_open_tasks r) (fact_task_id f)"
  shows "\<exists>r'. apply_fact lib f r = Inr r' \<and> same_projection b' r' \<and> bb_open_tasks r' = bb_open_tasks r"
proof -
  obtain b1 where b1: "apply_fact_body lib f b = Inr b1" "b' = b1 \<lparr> bb_facts := bb_facts b1 @ [f] \<rparr>"
    using assms(1) by (auto simp: apply_fact_def result_simps)
  obtain r1 where r1: "apply_fact_body lib f r = Inr r1" "same_projection b1 r1"
    using apply_fact_body_simulates[OF b1(1) assms(2,3)] by blast
  have "apply_fact lib f r = Inr (r1 \<lparr> bb_facts := bb_facts r1 @ [f] \<rparr>)"
    by (simp add: apply_fact_def r1(1))
  moreover have "same_projection b' (r1 \<lparr> bb_facts := bb_facts r1 @ [f] \<rparr>)"
    using r1(2) by (simp add: b1(2) same_projection_def)
  ultimately show ?thesis using apply_fact_frame by blast
qed

lemma apply_fact_seq_simulates:
  assumes "apply_fact_seq lib fs b = Inr b'" "same_projection b r"
    and "\<forall>f\<in>set fs. bcontains (bb_open_tasks r) (fact_task_id f)"
  shows "\<exists>r'. apply_fact_seq lib fs r = Inr r' \<and> same_projection b' r' \<and> bb_open_tasks r' = bb_open_tasks r"
  using assms
proof (induction fs arbitrary: b r)
  case (Cons f fs)
  then obtain b1 where b1: "apply_fact lib f b = Inr b1" "apply_fact_seq lib fs b1 = Inr b'"
    by (auto simp: result_simps)
  obtain r1 where "apply_fact lib f r = Inr r1" "same_projection b1 r1" "bb_open_tasks r1 = bb_open_tasks r"
    using apply_fact_simulates[OF b1(1) Cons.prems(2)] Cons.prems(3) by auto
  then show ?case using Cons.IH[OF b1(2), of r1] Cons.prems(3) by auto
qed simp

lemma same_projection_trans: "same_projection a b \<Longrightarrow> same_projection b c \<Longrightarrow> same_projection a c"
  by (simp add: same_projection_def)

lemma reachable_journal:
  assumes "book_reachable lib b"
  shows "length (bb_facts b) \<le> MAX_BROWSER_JOURNAL_FACTS
    \<and> (\<forall>r. same_projection book_new r \<and> (\<forall>f\<in>set (bb_facts b). bcontains (bb_open_tasks r) (fact_task_id f))
         \<longrightarrow> (\<exists>r'. apply_fact_seq lib (bb_facts b) r = Inr r' \<and> same_projection b r'
                  \<and> bb_open_tasks r' = bb_open_tasks r))"
  using assms
proof (induction rule: book_reachable.induct)
  case reach_new
  then show ?case by (simp add: book_new_def book_default_def same_projection_def)
next
  case (reach_step b b')
  from reach_step.hyps(2) show ?case
  proof (cases rule: book_step.cases)
    case (step_open t)
    then have "same_projection b b'" by (auto simp: open_task_def same_projection_def split: if_splits)
    then show ?thesis using reach_step.IH by (simp add: same_projection_def)
  next
    case (step_facts fs)
    then have seq: "apply_fact_seq lib fs b = Inr b'" by (simp add: apply_facts_Inr)
    then have facts: "bb_facts b' = bb_facts b @ fs" by (simp add: apply_fact_seq_frame)
    have "\<exists>r'. apply_fact_seq lib (bb_facts b') r = Inr r' \<and> same_projection b' r'
        \<and> bb_open_tasks r' = bb_open_tasks r"
      if r: "same_projection book_new r" "\<forall>f\<in>set (bb_facts b'). bcontains (bb_open_tasks r) (fact_task_id f)" for r
    proof -
      obtain r1 where r1: "apply_fact_seq lib (bb_facts b) r = Inr r1" "same_projection b r1"
        "bb_open_tasks r1 = bb_open_tasks r"
        using reach_step.IH r facts by auto
      then show ?thesis
        using apply_fact_seq_simulates[OF seq r1(2)] r facts by (simp add: apply_fact_seq_append)
    qed
    moreover have "length (bb_facts b') \<le> MAX_BROWSER_JOURNAL_FACTS"
    proof (cases "fs = []")
      case True
      then show ?thesis using facts conjunct1[OF reach_step.IH] by simp
    next
      case False
      then show ?thesis using step_facts facts by (simp add: apply_facts_Inr)
    qed
    ultimately show ?thesis by blast
  qed (use reach_step.IH in \<open>simp_all add: same_projection_def\<close>)
qed

lemma card_le_imp_open_tasks_of:
  assumes "card ({t. bcontains (bb_open_tasks b) t} \<union> fact_task_id ` set fs) \<le> MAX_BROWSER_OPEN_TASKS"
  shows "\<exists>ts. open_tasks_of fs b = Inr (b \<lparr> bb_open_tasks := ts \<rparr>)
     \<and> (\<forall>t. bcontains ts t \<longleftrightarrow> bcontains (bb_open_tasks b) t \<or> t \<in> fact_task_id ` set fs)"
  using assms
proof (induction fs arbitrary: b)
  case Nil
  then show ?case by (intro exI[of _ "bb_open_tasks b"]) simp
next
  case (Cons f fs)
  let ?t = "fact_task_id f"
  let ?all = "{t. bcontains (bb_open_tasks b) t} \<union> fact_task_id ` set (f # fs)"
  show ?case
  proof (cases "bcontains (bb_open_tasks b) ?t")
    case True
    then have "?all = {t. bcontains (bb_open_tasks b) t} \<union> fact_task_id ` set fs" by auto
    with Cons.prems have "card ({t. bcontains (bb_open_tasks b) t} \<union> fact_task_id ` set fs) \<le> MAX_BROWSER_OPEN_TASKS"
      by (simp only:)
    from Cons.IH[OF this] obtain ts where "open_tasks_of fs b = Inr (b \<lparr> bb_open_tasks := ts \<rparr>)"
      "\<forall>t. bcontains ts t \<longleftrightarrow> bcontains (bb_open_tasks b) t \<or> t \<in> fact_task_id ` set fs" by blast
    then show ?thesis using True by (intro exI[of _ ts]) (auto simp: open_task_def)
  next
    case False
    have "insert ?t {t. bcontains (bb_open_tasks b) t} \<subseteq> ?all" by auto
    then have "Suc (blen (bb_open_tasks b)) \<le> card ?all"
      using False card_mono[of ?all "insert ?t {t. bcontains (bb_open_tasks b) t}"]
      by (simp add: blen_card)
    then have room: "blen (bb_open_tasks b) < MAX_BROWSER_OPEN_TASKS" using Cons.prems by linarith
    let ?b = "b \<lparr> bb_open_tasks := bs_insert ?t (bb_open_tasks b) \<rparr>"
    have "{t. bcontains (bb_open_tasks ?b) t} \<union> fact_task_id ` set fs = ?all" by auto
    with Cons.prems have "card ({t. bcontains (bb_open_tasks ?b) t} \<union> fact_task_id ` set fs) \<le> MAX_BROWSER_OPEN_TASKS"
      by (simp only:)
    from Cons.IH[OF this] obtain ts where ts: "open_tasks_of fs ?b = Inr (?b \<lparr> bb_open_tasks := ts \<rparr>)"
      "\<forall>t. bcontains ts t \<longleftrightarrow> bcontains (bb_open_tasks ?b) t \<or> t \<in> fact_task_id ` set fs" by blast
    then show ?thesis using False room
      by (intro exI[of _ ts]) (auto simp: open_task_def)
  qed
qed

lemma replay_reachable:
  assumes "book_reachable lib b" "card (fact_task_id ` set (bb_facts b)) \<le> MAX_BROWSER_OPEN_TASKS"
  shows "replay_browser_snapshot lib (bb_facts b) = Inr (identity_snapshot b)"
proof -
  obtain ts where ts: "open_tasks_of (bb_facts b) book_new = Inr (book_new \<lparr> bb_open_tasks := ts \<rparr>)"
    "\<forall>t. bcontains ts t \<longleftrightarrow> t \<in> fact_task_id ` set (bb_facts b)"
    using card_le_imp_open_tasks_of[of book_new "bb_facts b"] assms(2)
    by (auto simp: book_new_def book_default_def)
  let ?r = "book_new \<lparr> bb_open_tasks := ts \<rparr>"
  have "same_projection book_new ?r" by (simp add: same_projection_def)
  then obtain r' where r': "apply_fact_seq lib (bb_facts b) ?r = Inr r'" "same_projection b r'"
    using reachable_journal[OF assms(1)] ts(2) by auto
  moreover have "apply_facts lib (bb_facts b) ?r = Inr r'"
    using r'(1) reachable_journal[OF assms(1)]
    by (simp add: apply_facts_Inr book_new_def book_default_def)
  ultimately show ?thesis
    using ts(1) reachable_journal[OF assms(1)]
    by (simp add: replay_browser_snapshot_def identity_snapshot_def same_projection_def)
qed

section \<open>Properties\<close>

text \<open>C6. Every call on the book is all or nothing: when \<open>apply_facts\<close>, \<open>admit\<close>, \<open>settle\<close> or
  \<open>close_task\<close> returns an error, even after some of its facts have been written, the caller is
  left with exactly the book it had; when \<open>apply_facts\<close> succeeds, all its facts are recorded.\<close>

theorem book_calls_are_atomic:
  "(case apply_facts_st lib fs b of (Inl _, b') \<Rightarrow> b' = b | (Inr _, b') \<Rightarrow> bb_facts b' = bb_facts b @ fs)
   \<and> (case admit lib q b of (Inl _, b') \<Rightarrow> b' = b | (Inr _, _) \<Rightarrow> True)
   \<and> (case settle lib out b of (Inl _, b') \<Rightarrow> b' = b | (Inr _, _) \<Rightarrow> True)
   \<and> (case close_task lib t b of (Inl _, b') \<Rightarrow> b' = b | (Inr _, _) \<Rightarrow> True)"
proof (intro conjI)
  show "case apply_facts_st lib fs b of (Inl _, b') \<Rightarrow> b' = b | (Inr _, b') \<Rightarrow> bb_facts b' = bb_facts b @ fs"
    by (auto simp: apply_facts_st_spec dest: apply_fact_seq_frame split: sum.split)
  show "case admit lib q b of (Inl _, b') \<Rightarrow> b' = b | (Inr _, _) \<Rightarrow> True"
    by (auto dest: admit_error_unchanged split: prod.split sum.split)
  show "case settle lib out b of (Inl _, b') \<Rightarrow> b' = b | (Inr _, _) \<Rightarrow> True"
    by (auto dest: settle_error_unchanged split: prod.split sum.split)
  show "case close_task lib t b of (Inl _, b') \<Rightarrow> b' = b | (Inr _, _) \<Rightarrow> True"
    by (auto simp: close_task_def dest: apply_facts_st_Inl split: prod.split sum.split)
qed

text \<open>C27. A request is admitted exactly once: repeating it returns the same receipt and changes
  nothing, and a different request under the same id is refused as an idempotency conflict.\<close>

theorem admit_exactly_once:
  assumes "admit lib q b = (Inr r, b')"
  shows "admit lib q b' = (Inr r, b')
    \<and> (\<forall>q'. bq_request_id q' = bq_request_id q \<and> q' \<noteq> q \<longrightarrow> admit lib q' b' = (Inl BeIdempotencyConflict, b'))"
  using admit_idempotent[OF assms] admit_conflict[OF assms] by blast

definition sample_lib :: browser_lib where
  "sample_lib = \<lparr> bl_url_parse = (\<lambda>_. None), bl_sha256 = (\<lambda>_. replicate 32 0),
     bl_encode_request = (\<lambda>_. Some []) \<rparr>"

definition sample_book :: browser_book where
  "sample_book = book_new \<lparr> bb_open_tasks := bs_insert (Id 1) bempty \<rparr>"

definition sample_create :: browser_request where
  "sample_create = \<lparr> bq_request_id = Id 5, bq_task_id = Id 1, bq_context_id = Id 2, bq_tab_id = None,
     bq_generation = 1, bq_action = BaCreateContext \<rparr>"

lemma sample_book_sel [simp]:
  "bb_ready sample_book" "bb_receipts sample_book = bempty" "bb_facts sample_book = []"
  "bb_contexts sample_book = bempty" "bb_open_tasks sample_book = bs_insert (Id 1) bempty"
  by (simp_all add: sample_book_def book_new_def book_default_def)

lemma sample_plan:
  "plan_identity_facts sample_book sample_create = Inr [BfContextCreated (Id 2) (Id 1) 1]"
  "is_ok (plan_admit sample_lib sample_book sample_create)"
  by (simp_all add: plan_admit_def sample_create_def validate_action_fields_def action_url_def
      plan_identity_facts_def plan_create_context_def browser_bounds)

lemma sample_admit:
  obtains r b where "plan_admit sample_lib sample_book sample_create = Inr r"
    "admit sample_lib sample_create sample_book = (Inr (strip_accepted r), b)"
proof -
  obtain r where r: "plan_admit sample_lib sample_book sample_create = Inr r"
    using sample_plan(2) by (auto simp: is_ok_iff)
  have "\<not> stale_reclose sample_book sample_create" by (simp add: stale_reclose_def sample_create_def)
  then show thesis using admit_accepts[OF r] that r by fastforce
qed

theorem admit_exactly_once_witness:
  "\<exists>r b'. admit sample_lib sample_create sample_book = (Inr r, b')
     \<and> admit sample_lib sample_create b' = (Inr r, b')
     \<and> admit sample_lib (sample_create \<lparr> bq_context_id := Id 9 \<rparr>) b' = (Inl BeIdempotencyConflict, b')"
proof (rule sample_admit)
  fix r b assume "admit sample_lib sample_create sample_book = (Inr (strip_accepted r), b)"
  from admit_exactly_once[OF this] this show ?thesis
    by (intro exI[of _ "strip_accepted r"] exI[of _ b]) (simp add: sample_create_def)
qed

text \<open>What \<open>plan_admit\<close> plans, \<open>admit\<close> carries out: a fresh planned request is accepted with the
  planned receipt, but for one case.  Closing a context that is already closed is planned
  without looking at the generation, and its fact is then refused when the generation differs.\<close>

lemma planned_request_admitted:
  assumes "plan_admit lib b q = Inr r" "bget (bb_receipts b) (bq_request_id q) = None"
  shows "if stale_reclose b q then admit lib q b = (Inl BeGenerationMismatch, b)
    else \<exists>b'. admit lib q b = (Inr (strip_accepted r), b') \<and> bcontains (bb_receipts b') (bq_request_id q)"
proof (cases "stale_reclose b q")
  case True
  obtain fs where fs: "plan_identity_facts b q = Inr fs" "bx_facts r = BfRequestAccepted (accepted_fact lib q) # fs"
    "length (bb_facts b) + length (bx_facts r) \<le> MAX_BROWSER_JOURNAL_FACTS"
    using plan_admit_fresh_Inr[OF assms] by metis
  obtain c where c: "bget (bb_contexts b) (bq_context_id q) = Some c" "cx_generation c \<noteq> bq_generation q"
    "bq_action q = BaCloseContext" using True by (auto simp: stale_reclose_def)
  then have "cx_task_id c = bq_task_id q"
    using fs(1) by (auto simp: plan_identity_facts_def plan_close_context_def split: if_splits)
  then have "apply_fact lib (BfRequestAccepted (accepted_fact lib q)) b = Inl BeGenerationMismatch"
    using c by (simp add: apply_fact_def apply_fact_body_def apply_request_accepted_def accepted_fact_def)
  then have "apply_facts_st lib (bx_facts r) b = (Inl BeGenerationMismatch, b)"
    using fs by (simp add: apply_facts_st_spec)
  then show ?thesis using True assms by (simp add: admit_def)
next
  case False
  then show ?thesis using admit_accepts[OF assms] by simp
qed

text \<open>\<open>close_task\<close> succeeds exactly on an open task whose closing facts fit the journal, and then
  nothing of the task is left open: no tab, no context, and the task itself is gone from the
  open tasks.\<close>

lemma close_task_closes_everything:
  "case close_task lib t b of
     (Inl _, _) \<Rightarrow> if bcontains (bb_open_tasks b) t
        then MAX_BROWSER_JOURNAL_FACTS < length (bb_facts b) + length (plan_close_task b t) else True
   | (Inr _, b') \<Rightarrow> bcontains (bb_open_tasks b) t \<and> \<not> bcontains (bb_open_tasks b') t
        \<and> \<not> (\<exists>k tab. bget (bb_tabs b') k = Some tab \<and> tb_task_id tab = t \<and> \<not> tb_closed tab)
        \<and> \<not> (\<exists>k c. bget (bb_contexts b') k = Some c \<and> cx_task_id c = t \<and> \<not> cx_closed c)"
proof -
  obtain res b' where res: "close_task lib t b = (res, b')" by (cases "close_task lib t b")
  show ?thesis
  proof (cases res)
    case (Inl e)
    then show ?thesis using res close_task_ok_iff[of lib t b] by (auto simp: not_le)
  next
    case (Inr u)
    then have "close_task lib t b = (Inr (), b')" using res by simp
    then show ?thesis using close_task_closes close_task_ok_iff[of lib t b] by (fastforce split: prod.split)
  qed
qed

text \<open>C28. A host outcome settles a request once: the same outcome again is acknowledged and changes
  nothing, and another outcome for the settled request is an idempotency conflict.\<close>

theorem settle_exactly_once:
  assumes "settle lib out b = (Inr r, b')"
  shows "(\<exists>r'. settle lib out b' = (Inr r', b'))
    \<and> (\<forall>v. v \<noteq> bo_settlement out \<longrightarrow>
         settle lib (out \<lparr> bo_settlement := v \<rparr>) b' = (Inl BeIdempotencyConflict, b'))"
  using settle_once[OF assms] by simp

definition sample_record_book :: browser_book where
  "sample_record_book = sample_book \<lparr>
     bb_contexts := binsert (Id 2) (fresh_context (Id 1) 1) bempty,
     bb_receipts := binsert (Id 6) (receipt_of_fact (accepted_fact sample_lib
       (sample_create \<lparr> bq_request_id := Id 6, bq_action := BaRecord \<rparr>))) bempty \<rparr>"

definition sample_outcome :: browser_host_outcome where
  "sample_outcome = \<lparr> bo_request_id = Id 6, bo_task_id = Id 1, bo_context_id = Id 2, bo_tab_id = None,
     bo_generation = 1, bo_settlement = SetRecordingIdentified [114] \<rparr>"

lemma sample_settles: "\<exists>r b'. settle sample_lib sample_outcome sample_record_book = (Inr r, b')"
  by (simp add: settle_def sample_outcome_def sample_record_book_def sample_create_def receipt_of_fact_def
      accepted_fact_def requires_host_settlement_def settlement_facts_def validate_identity_def
      apply_facts_st_spec apply_fact_def apply_fact_body_def apply_recording_identified_def
      with_owned_context_def fresh_context_def Let_def char_utf8_len_def browser_bounds)

theorem settle_exactly_once_witness:
  "\<exists>b'. settle sample_lib (sample_outcome \<lparr> bo_settlement := SetRecovered 2 \<rparr>) b' = (Inl BeIdempotencyConflict, b')"
  using sample_settles settle_exactly_once by (fastforce simp: sample_outcome_def)

text \<open>C9. The journal determines the projections: replaying the recorded facts of any book that the
  operations can reach gives the contexts and the tabs of that book, as long as they belong to
  no more tasks than may be open at once.\<close>

theorem journal_replays_projection:
  assumes "book_reachable lib b" "card (fact_task_id ` set (bb_facts b)) \<le> MAX_BROWSER_OPEN_TASKS"
  shows "replay_browser_snapshot lib (bb_facts b) = Inr (identity_snapshot b)"
  using replay_reachable[OF assms] .

theorem journal_replays_projection_witness:
  "\<exists>b. bcontains (bb_contexts b) (Id 2) \<and> replay_browser_snapshot sample_lib (bb_facts b) = Inr (identity_snapshot b)"
proof -
  let ?f = "BfContextCreated (Id 2) (Id 1) 1"
  have start: "book_reachable sample_lib sample_book"
    by (intro reach_step[OF reach_new] step_open[of "Id 1"])
       (simp add: open_task_def sample_book_def book_new_def book_default_def browser_bounds)
  obtain b where b: "apply_fact sample_lib ?f sample_book = Inr b" "bcontains (bb_contexts b) (Id 2)"
    by (simp add: apply_fact_def apply_fact_body_def apply_context_created_def browser_bounds)
  have facts: "bb_facts b = [?f]" using apply_fact_frame[OF b(1)] by simp
  have "book_reachable sample_lib b"
    using b(1) by (intro reach_step[OF start] step_facts[of _ "[?f]"]) (simp add: apply_facts_Inr browser_bounds)
  then have "replay_browser_snapshot sample_lib (bb_facts b) = Inr (identity_snapshot b)"
    by (intro journal_replays_projection) (simp_all add: facts browser_bounds)
  with b(2) show ?thesis by blast
qed
end
