(* ===== verification/Operation.thy ===== *)
theory Operation
  imports Resource
begin

text \<open>
  \<open>src/domain/operation.rs\<close> and the cleanup journal of \<open>src/domain/host.rs\<close>: outcomes of side
  effects with their fences and provenance, and the state of an operation with its
  hand-written wire form.
\<close>

section \<open>Outcomes\<close>

definition MAX_EXTERNAL_IDENTITY_BYTES :: nat where "MAX_EXTERNAL_IDENTITY_BYTES = 256"

datatype operation_error_code = SideEffectFailed | CleanupFailed
datatype cancellation_reason = Superseded
datatype operation_uncertainty_code = AmbiguousDispatch

datatype outcome_fence_error =
  PartialResourceFence | InvalidSourceForKind | EmptyExternalIdentity | ExternalIdentityTooLong

definition validate_outcome_fence ::
  "resource_id option \<Rightarrow> u64 option \<Rightarrow> outcome_fence_error + unit" where
  "validate_outcome_fence r g =
     (case (r, g) of (None, None) \<Rightarrow> Inr () | (Some _, Some _) \<Rightarrow> Inr () | _ \<Rightarrow> Inl PartialResourceFence)"

definition canonicalize_external_identity :: "rstr \<Rightarrow> outcome_fence_error + rstr" where
  "canonicalize_external_identity value =
     (case canonicalize value of
        None \<Rightarrow> Inl EmptyExternalIdentity
      | Some c \<Rightarrow> if str_len c > MAX_EXTERNAL_IDENTITY_BYTES then Inl ExternalIdentityTooLong else Inr c)"

definition require_canonical_external_identity :: "rstr \<Rightarrow> outcome_fence_error + unit" where
  "require_canonical_external_identity value =
     (if value = [] \<or> \<not> is_canonical value then Inl EmptyExternalIdentity
      else if str_len value > MAX_EXTERNAL_IDENTITY_BYTES then Inl ExternalIdentityTooLong
      else Inr ())"

record resource_fence =
  rf_resource_id :: resource_id
  rf_runtime_generation :: u64

definition fence_from_parts ::
  "resource_id option \<Rightarrow> u64 option \<Rightarrow> outcome_fence_error + resource_fence option" where
  "fence_from_parts r g =
     rbind (validate_outcome_fence r g) (\<lambda>_.
       case (r, g) of
         (Some r, Some g) \<Rightarrow> Inr (Some \<lparr> rf_resource_id = r, rf_runtime_generation = g \<rparr>)
       | _ \<Rightarrow> Inr None)"

definition fence_into_parts :: "resource_fence option \<Rightarrow> resource_id option \<times> u64 option" where
  "fence_into_parts f =
     (case f of
        Some f \<Rightarrow> (Some (rf_resource_id f), Some (rf_runtime_generation f))
      | None \<Rightarrow> (None, None))"

datatype outcome_source = Dispatch | VerifiedReconciliation u32 rstr

definition verified_reconciliation :: "u32 \<Rightarrow> rstr \<Rightarrow> outcome_fence_error + outcome_source" where
  "verified_reconciliation index identity =
     rbind (canonicalize_external_identity identity) (\<lambda>c. Inr (VerifiedReconciliation index c))"

definition outcome_source_validate :: "outcome_source \<Rightarrow> outcome_fence_error + unit" where
  "outcome_source_validate s =
     (case s of Dispatch \<Rightarrow> Inr () | VerifiedReconciliation _ i \<Rightarrow> require_canonical_external_identity i)"

datatype operation_outcome_kind =
    OkSettled "event_id list" | OkFailed operation_error_code | OkCancelled cancellation_reason
  | OkUncertain operation_uncertainty_code

definition allows_verified_reconciliation :: "operation_outcome_kind \<Rightarrow> bool" where
  "allows_verified_reconciliation k = (case k of OkSettled _ \<Rightarrow> True | OkFailed _ \<Rightarrow> True | _ \<Rightarrow> False)"

definition validate_source_for_kind ::
  "outcome_source \<Rightarrow> operation_outcome_kind \<Rightarrow> outcome_fence_error + unit" where
  "validate_source_for_kind s k =
     (case (s, allows_verified_reconciliation k) of
        (Dispatch, _) \<Rightarrow> Inr ()
      | (VerifiedReconciliation _ _, True) \<Rightarrow> Inr ()
      | (VerifiedReconciliation _ _, False) \<Rightarrow> Inl InvalidSourceForKind)"

record operation_outcome =
  oo_operation_id :: operation_id
  oo_occurred_at_ms :: int
  oo_action_epoch :: "u64 option"
  oo_resource_fence :: "resource_fence option"
  oo_source :: outcome_source
  oo_kind :: operation_outcome_kind

definition operation_outcome_validate :: "operation_outcome \<Rightarrow> outcome_fence_error + unit" where
  "operation_outcome_validate o' =
     rbind (outcome_source_validate (oo_source o')) (\<lambda>_. validate_source_for_kind (oo_source o') (oo_kind o'))"

definition operation_outcome_new ::
  "operation_id \<Rightarrow> int \<Rightarrow> u64 option \<Rightarrow> resource_fence option \<Rightarrow> outcome_source
     \<Rightarrow> operation_outcome_kind \<Rightarrow> outcome_fence_error + operation_outcome" where
  "operation_outcome_new i at epoch fence source kind =
     rbind (outcome_source_validate source) (\<lambda>_.
     rbind (validate_source_for_kind source kind) (\<lambda>_.
       Inr \<lparr> oo_operation_id = i, oo_occurred_at_ms = at, oo_action_epoch = epoch,
             oo_resource_fence = fence, oo_source = source, oo_kind = kind \<rparr>))"

section \<open>Durable operation facts (event.rs)\<close>

record operation_accepted_fact =
  oa_command_id :: command_id
  oa_operation_id :: operation_id
  oa_accepted_at_ms :: int
  oa_action_epoch :: "u64 option"
  oa_resource_id :: "resource_id option"
  oa_runtime_generation :: "u64 option"

record operation_settled_fact =
  os_command_id :: command_id
  os_operation_id :: operation_id
  os_settled_at_ms :: int
  os_result_event_ids :: "event_id list"
  os_action_epoch :: "u64 option"
  os_resource_id :: "resource_id option"
  os_runtime_generation :: "u64 option"
  os_source :: outcome_source

record operation_failed_fact =
  of_command_id :: command_id
  of_operation_id :: operation_id
  of_settled_at_ms :: int
  of_code :: operation_error_code
  of_action_epoch :: "u64 option"
  of_resource_id :: "resource_id option"
  of_runtime_generation :: "u64 option"
  of_source :: outcome_source

record operation_cancelled_fact =
  oc_command_id :: command_id
  oc_operation_id :: operation_id
  oc_settled_at_ms :: int
  oc_reason :: cancellation_reason
  oc_action_epoch :: "u64 option"
  oc_resource_id :: "resource_id option"
  oc_runtime_generation :: "u64 option"

record operation_uncertain_fact =
  ou_command_id :: command_id
  ou_operation_id :: operation_id
  ou_observed_at_ms :: int
  ou_code :: operation_uncertainty_code
  ou_action_epoch :: "u64 option"
  ou_resource_id :: "resource_id option"
  ou_runtime_generation :: "u64 option"

definition operation_accepted_validate :: "operation_accepted_fact \<Rightarrow> outcome_fence_error + unit" where
  "operation_accepted_validate f = validate_outcome_fence (oa_resource_id f) (oa_runtime_generation f)"

definition operation_settled_validate :: "operation_settled_fact \<Rightarrow> outcome_fence_error + unit" where
  "operation_settled_validate f =
     rbind (validate_outcome_fence (os_resource_id f) (os_runtime_generation f)) (\<lambda>_.
       outcome_source_validate (os_source f))"

definition operation_failed_validate :: "operation_failed_fact \<Rightarrow> outcome_fence_error + unit" where
  "operation_failed_validate f =
     rbind (validate_outcome_fence (of_resource_id f) (of_runtime_generation f)) (\<lambda>_.
       outcome_source_validate (of_source f))"

definition operation_cancelled_validate :: "operation_cancelled_fact \<Rightarrow> outcome_fence_error + unit" where
  "operation_cancelled_validate f = validate_outcome_fence (oc_resource_id f) (oc_runtime_generation f)"

definition operation_uncertain_validate :: "operation_uncertain_fact \<Rightarrow> outcome_fence_error + unit" where
  "operation_uncertain_validate f = validate_outcome_fence (ou_resource_id f) (ou_runtime_generation f)"

section \<open>Operation state and its wire form\<close>

datatype operation_state =
    OsAccepted
  | OsSettled int "event_id list"
  | OsFailed int operation_error_code
  | OsCancelled int cancellation_reason
  | OsUncertain int operation_uncertainty_code

text \<open>
  The values the serialiser emits: strings, integers, lists of event identities and maps
  with string keys, in the order of their entries.
\<close>

datatype wire_value = WStr rstr | WInt int | WIds "event_id list" | WMap "(rstr \<times> wire_value) list"

definition error_code_str :: "operation_error_code \<Rightarrow> rstr" where
  "error_code_str c =
     (case c of SideEffectFailed \<Rightarrow> lit ''side_effect_failed'' | CleanupFailed \<Rightarrow> lit ''cleanup_failed'')"

definition error_code_of :: "wire_value \<Rightarrow> operation_error_code option" where
  "error_code_of v =
     (case v of
        WStr s \<Rightarrow> if s = lit ''side_effect_failed'' then Some SideEffectFailed
                  else if s = lit ''cleanup_failed'' then Some CleanupFailed else None
      | _ \<Rightarrow> None)"

definition reason_of :: "wire_value \<Rightarrow> cancellation_reason option" where
  "reason_of v = (case v of WStr s \<Rightarrow> if s = lit ''superseded'' then Some Superseded else None | _ \<Rightarrow> None)"

definition uncertainty_of :: "wire_value \<Rightarrow> operation_uncertainty_code option" where
  "uncertainty_of v =
     (case v of WStr s \<Rightarrow> if s = lit ''ambiguous_dispatch'' then Some AmbiguousDispatch else None | _ \<Rightarrow> None)"

definition int_of :: "wire_value \<Rightarrow> int option" where
  "int_of v = (case v of WInt i \<Rightarrow> Some i | _ \<Rightarrow> None)"

definition ids_of :: "wire_value \<Rightarrow> event_id list option" where
  "ids_of v = (case v of WIds xs \<Rightarrow> Some xs | _ \<Rightarrow> None)"

definition state_variant :: "string \<Rightarrow> string \<Rightarrow> wire_value \<Rightarrow> string \<Rightarrow> wire_value \<Rightarrow> wire_value" where
  "state_variant variant first_name first second_name second =
     WMap [(lit variant, WMap [(lit first_name, first), (lit second_name, second)])]"

definition operation_state_serialize :: "operation_state \<Rightarrow> wire_value" where
  "operation_state_serialize s =
     (case s of
        OsAccepted \<Rightarrow> WStr (lit ''accepted'')
      | OsSettled at ids \<Rightarrow>
          state_variant ''settled'' ''settled_at_ms'' (WInt at) ''result_event_ids'' (WIds ids)
      | OsFailed at code \<Rightarrow>
          state_variant ''failed'' ''settled_at_ms'' (WInt at) ''code'' (WStr (error_code_str code))
      | OsCancelled at Superseded \<Rightarrow>
          state_variant ''cancelled'' ''settled_at_ms'' (WInt at) ''reason'' (WStr (lit ''superseded''))
      | OsUncertain at AmbiguousDispatch \<Rightarrow>
          state_variant ''uncertain'' ''observed_at_ms'' (WInt at) ''code'' (WStr (lit ''ambiguous_dispatch'')))"

text \<open>The payload visitor: exactly the two named fields, each once, in any order.\<close>

fun payload_fields ::
  "rstr \<Rightarrow> rstr \<Rightarrow> (wire_value \<Rightarrow> 'a option) \<Rightarrow> (wire_value \<Rightarrow> 'b option) \<Rightarrow> 'a option \<Rightarrow> 'b option
     \<Rightarrow> (rstr \<times> wire_value) list \<Rightarrow> ('a \<times> 'b) option" where
  "payload_fields n1 n2 d1 d2 first second [] =
     (case (first, second) of (Some x, Some y) \<Rightarrow> Some (x, y) | _ \<Rightarrow> None)"
| "payload_fields n1 n2 d1 d2 first second ((field, v) # rest) =
     (if field = n1 then
        (if is_some first then None
         else case d1 v of None \<Rightarrow> None | Some x \<Rightarrow> payload_fields n1 n2 d1 d2 (Some x) second rest)
      else if field = n2 then
        (if is_some second then None
         else case d2 v of None \<Rightarrow> None | Some y \<Rightarrow> payload_fields n1 n2 d1 d2 first (Some y) rest)
      else None)"

definition payload_seed ::
  "string \<Rightarrow> string \<Rightarrow> (wire_value \<Rightarrow> 'a option) \<Rightarrow> (wire_value \<Rightarrow> 'b option) \<Rightarrow> wire_value
     \<Rightarrow> ('a \<times> 'b) option" where
  "payload_seed n1 n2 d1 d2 v =
     (case v of WMap es \<Rightarrow> payload_fields (lit n1) (lit n2) d1 d2 None None es | _ \<Rightarrow> None)"

definition operation_state_deserialize :: "wire_value \<Rightarrow> operation_state option" where
  "operation_state_deserialize v =
     (case v of
        WStr s \<Rightarrow> if s = lit ''accepted'' then Some OsAccepted else None
      | WMap [(variant, payload)] \<Rightarrow>
          if variant = lit ''settled'' then
            map_option (\<lambda>(at, ids). OsSettled at ids)
              (payload_seed ''settled_at_ms'' ''result_event_ids'' int_of ids_of payload)
          else if variant = lit ''failed'' then
            map_option (\<lambda>(at, code). OsFailed at code)
              (payload_seed ''settled_at_ms'' ''code'' int_of error_code_of payload)
          else if variant = lit ''cancelled'' then
            map_option (\<lambda>(at, reason). OsCancelled at reason)
              (payload_seed ''settled_at_ms'' ''reason'' int_of reason_of payload)
          else if variant = lit ''uncertain'' then
            map_option (\<lambda>(at, code). OsUncertain at code)
              (payload_seed ''observed_at_ms'' ''code'' int_of uncertainty_of payload)
          else None
      | _ \<Rightarrow> None)"

section \<open>Host cleanup\<close>

datatype host_cleanup_branch = AgentSessions | Resources | OutstandingEffects | TaskTeardowns

definition cleanup_order :: "host_cleanup_branch list" where
  "cleanup_order = [AgentSessions, Resources, OutstandingEffects, TaskTeardowns]"

definition cleanup_branch_str :: "host_cleanup_branch \<Rightarrow> rstr" where
  "cleanup_branch_str b =
     (case b of AgentSessions \<Rightarrow> lit ''agent_sessions'' | Resources \<Rightarrow> lit ''resources''
      | OutstandingEffects \<Rightarrow> lit ''outstanding_effects'' | TaskTeardowns \<Rightarrow> lit ''task_teardowns'')"

definition cleanup_branch_parse :: "rstr \<Rightarrow> host_cleanup_branch option" where
  "cleanup_branch_parse s =
     (if s = lit ''agent_sessions'' then Some AgentSessions
      else if s = lit ''resources'' then Some Resources
      else if s = lit ''outstanding_effects'' then Some OutstandingEffects
      else if s = lit ''task_teardowns'' then Some TaskTeardowns else None)"

datatype host_cleanup_branch_outcome = CleanupSucceeded | CleanupFailedWith u64

definition cleanup_failed :: "u64 \<Rightarrow> host_cleanup_branch_outcome option" where
  "cleanup_failed n = (if n = 0 then None else Some (CleanupFailedWith n))"

definition remaining_count :: "host_cleanup_branch_outcome \<Rightarrow> u64" where
  "remaining_count o' = (case o' of CleanupSucceeded \<Rightarrow> 0 | CleanupFailedWith n \<Rightarrow> n)"

section \<open>Facts\<close>

lemma cleanup_branch_roundtrip [simp]: "cleanup_branch_parse (cleanup_branch_str b) = Some b"
  by (cases b) (simp_all add: cleanup_branch_parse_def cleanup_branch_str_def lit_def)

lemma cleanup_order_complete: "b \<in> set cleanup_order" "distinct cleanup_order"
  by (cases b) (simp_all add: cleanup_order_def)

lemma fence_parts_roundtrip:
  "fence_from_parts (fst (fence_into_parts f)) (snd (fence_into_parts f)) = Inr f"
  by (cases f) (simp_all add: fence_from_parts_def fence_into_parts_def validate_outcome_fence_def)

declare lit_inject [simp]

lemma operation_state_roundtrip_lemma:
  "operation_state_deserialize (operation_state_serialize s) = Some s"
  by (cases s)
     (auto simp: operation_state_serialize_def operation_state_deserialize_def state_variant_def
       payload_seed_def int_of_def ids_of_def error_code_of_def error_code_str_def reason_of_def
       uncertainty_of_def split: operation_error_code.split cancellation_reason.split
       operation_uncertainty_code.split)

lemma payload_fields_length:
  assumes "payload_fields n1 n2 d1 d2 f s xs = Some r" "n1 \<noteq> n2"
  shows "length xs = (if f = None then 1 else 0) + (if s = None then 1 else 0)"
  using assms
  by (induction n1 n2 d1 d2 f s xs rule: payload_fields.induct)
     (auto simp: is_some_iff split: option.splits if_splits)

lemma verified_reconciliation_valid:
  "verified_reconciliation i s = Inr src \<Longrightarrow> outcome_source_validate src = Inr ()"
  by (auto simp: verified_reconciliation_def canonicalize_external_identity_def outcome_source_validate_def
      require_canonical_external_identity_def canonicalize_Some_iff is_canonical_def result_simps
      split: option.splits if_splits)

lemma operation_outcome_new_valid:
  "operation_outcome_new i at e f src k = Inr o' \<Longrightarrow> operation_outcome_validate o' = Inr ()"
  by (auto simp: operation_outcome_new_def operation_outcome_validate_def result_simps)

section \<open>Property\<close>

text \<open>The hand-written serde codec of \<open>OperationState\<close> loses nothing: decoding what
  \<open>serialize\<close> wrote gives the state back, for every state and every payload.\<close>

lemma operation_state_wire_roundtrip:
  "operation_state_deserialize (operation_state_serialize s) = Some s"
  by (rule operation_state_roundtrip_lemma)
end
