(* ===== verification/Domain_Event.thy ===== *)
theory Domain_Event
  imports Provider_Input Browser_Book Operation
begin

text \<open>
  The task snapshot (\<open>src/domain/snapshot.rs\<close>) and the durable events
  (\<open>src/domain/event.rs\<close>): the state of one task aggregate and everything that can happen
  to it.
\<close>

section \<open>The task snapshot\<close>

record task_snapshot =
  sn_task :: task_facts
  sn_connectivity :: task_connectivity
  sn_attention :: task_attention
  sn_activity :: task_activity
  sn_review_readiness :: review_readiness
  sn_agents :: "(agent_session_id, agent_session_facts) bmap"
  sn_primary_agent_id :: "agent_session_id option"
  sn_artifacts :: "(artifact_id, artifact_facts) bmap"
  sn_resources :: "(resource_id, resource_facts) bmap"
  sn_provider_sessions :: "(agent_session_id, provider_session_projection) bmap"
  sn_browser :: browser_book
  sn_terminal_facts :: "(resource_id, terminal_facts) bmap"
  sn_terminal_strip :: task_terminal_strip

definition session_started :: "provider_session_projection \<Rightarrow> bool" where
  "session_started p \<longleftrightarrow> is_some (pp_current_turn p) \<or> is_some (pp_open_question p)
     \<or> is_some (pp_open_approval p) \<or> \<not> bis_empty (pp_waits p) \<or> is_some (pp_last_settlement p)"

definition is_unstarted_draft :: "task_snapshot \<Rightarrow> bool" where
  "is_unstarted_draft s \<longleftrightarrow>
     tk_lifecycle (sn_task s) = TlOpen
     \<and> \<not> list_ex (\<lambda>a. is_some (ag_provider_session_id a)) (bvalues (sn_agents s))
     \<and> \<not> list_ex session_started (bvalues (sn_provider_sessions s))
     \<and> (case sn_primary_agent_id s of None \<Rightarrow> False | Some primary \<Rightarrow> bcontains (sn_agents s) primary)"

definition visible_status :: "task_snapshot \<Rightarrow> visible_task_status" where
  "visible_status s =
     (let derived = visible_status_derive (sn_connectivity s) (sn_attention s) (sn_activity s)
                      (sn_review_readiness s)
      in if sn_connectivity s = Disconnected then VsDisconnected
         else case sn_attention s of
             AttFailed \<Rightarrow> VsFailed
           | UncertainOutcome \<Rightarrow> VsUncertainOutcome
           | NeedsApproval \<Rightarrow> VsNeedsApproval
           | NeedsAnswer \<Rightarrow> VsNeedsAnswer
           | AttNone \<Rightarrow>
               if tk_lifecycle (sn_task s) = TlSettled then VsIdle
               else case sn_primary_agent_id s of
                   None \<Rightarrow> derived
                 | Some agent_id \<Rightarrow>
                     (case bget (sn_provider_sessions s) agent_id of
                        None \<Rightarrow> derived
                      | Some session \<Rightarrow>
                          if is_some (pp_open_approval session) then VsNeedsApproval
                          else if is_some (pp_open_question session) then VsNeedsAnswer
                          else if is_some (pp_current_turn session) then VsWorking
                          else derived))"

section \<open>Events\<close>

record specialist_requested =
  sq_specialist_id :: agent_session_id
  sq_requested_by :: agent_session_id
  sq_purpose :: rstr
  sq_agent :: agent_session_facts
  sq_permission :: specialist_permission
  sq_workspace :: workspace_ref
  sq_action_epoch :: u64
  sq_runtime_generation :: u64
  sq_resource_id :: "resource_id option"

record provider_input_accepted =
  pia_command_id :: command_id
  pia_client_id :: client_id
  pia_operation_id :: operation_id
  pia_agent_session_id :: agent_session_id
  pia_provider_kind :: provider_kind
  pia_provider_session_id :: "provider_session_id option"
  pia_runtime_generation :: u64
  pia_turn_id :: turn_id
  pia_action_epoch :: u64
  pia_question_id :: "question_id option"
  pia_approval_id :: "approval_id option"
  pia_action :: provider_input_action
  pia_wait :: bool
  pia_delivery :: provider_delivery_visibility

record provider_input_delivered =
  pid_command_id :: command_id
  pid_client_id :: client_id
  pid_operation_id :: operation_id
  pid_agent_session_id :: agent_session_id
  pid_provider_kind :: provider_kind
  pid_provider_session_id :: "provider_session_id option"
  pid_runtime_generation :: u64
  pid_turn_id :: turn_id
  pid_action_epoch :: u64
  pid_question_id :: "question_id option"
  pid_approval_id :: "approval_id option"

datatype event =
    TaskCreated task_facts task_connectivity task_attention task_activity review_readiness
  | TaskRenamed rstr
  | TaskAttentionSet task_attention
  | TaskCloseBegun u64
  | TaskSettled
  | TaskReopened
  | TaskArchived
  | TaskDeleted
  | AgentSessionRegistered agent_session_facts
  | AgentProviderSessionBound agent_session_id resource_id provider_session_id u64
  | AgentProviderSessionAbandoned agent_session_id provider_session_id u64
  | PrimaryAgentSet agent_session_id
  | UnstartedPrimaryProviderRebound agent_session_id provider_kind
  | SpecialistRequested specialist_requested
  | PrimaryPromoted agent_session_id agent_session_id u64 u64
  | SpecialistHandoffRecorded agent_session_id artifact_facts bool u64 u64
  | SpecialistClosed agent_session_id u64 u64
  | ArtifactRegistered artifact_facts
  | ResourceRegistered resource_facts
  | ResourceReleaseBegun resource_id u64
  | ResourceReleased resource_id u64
  | TerminalRenamed resource_id rstr
  | TerminalCwdReported resource_id path
  | TerminalExited resource_id "32 word option" rstr
  | TerminalActivity resource_id
  | TaskTerminalStripSet task_terminal_strip
  | HostCloseBegun operation_id u64 u64
  | HostCleanupBranchCompleted operation_id u64 host_cleanup_branch host_cleanup_branch_outcome
  | OperationAccepted operation_accepted_fact
  | OperationSettled operation_settled_fact
  | OperationFailed operation_failed_fact
  | OperationCancelled operation_cancelled_fact
  | OperationUncertain operation_uncertain_fact
  | ProviderInputAccepted provider_input_accepted
  | ProviderQuestionPresented agent_session_id provider_kind provider_session_id u64 turn_id u64 question_id
  | ProviderApprovalPresented agent_session_id provider_kind provider_session_id u64 turn_id u64 approval_id
  | ProviderWaitSettled provider_wait_fence
  | ProviderInputDelivered provider_input_delivered
  | Browser browser_durable_fact
  | Purged

definition is_task_mutation :: "event \<Rightarrow> bool" where
  "is_task_mutation e =
     (case e of
        Purged \<Rightarrow> False
      | HostCloseBegun _ _ _ \<Rightarrow> False
      | HostCleanupBranchCompleted _ _ _ _ \<Rightarrow> False
      | OperationAccepted _ \<Rightarrow> False
      | OperationSettled _ \<Rightarrow> False
      | OperationFailed _ \<Rightarrow> False
      | OperationCancelled _ \<Rightarrow> False
      | OperationUncertain _ \<Rightarrow> False
      | ProviderInputDelivered _ \<Rightarrow> False
      | TerminalCwdReported _ _ \<Rightarrow> False
      | TerminalExited _ _ _ \<Rightarrow> False
      | TerminalActivity _ \<Rightarrow> False
      | _ \<Rightarrow> True)"

definition event_type :: "event \<Rightarrow> rstr" where
  "event_type e = lit
     (case e of
        TaskCreated _ _ _ _ _ \<Rightarrow> ''task.created''
      | TaskRenamed _ \<Rightarrow> ''task.renamed''
      | TaskAttentionSet _ \<Rightarrow> ''task.attention_set''
      | TaskCloseBegun _ \<Rightarrow> ''task.close_begun''
      | TaskSettled \<Rightarrow> ''task.settled''
      | TaskReopened \<Rightarrow> ''task.reopened''
      | TaskArchived \<Rightarrow> ''task.archived''
      | TaskDeleted \<Rightarrow> ''task.deleted''
      | AgentSessionRegistered _ \<Rightarrow> ''agent_session.registered''
      | AgentProviderSessionBound _ _ _ _ \<Rightarrow> ''agent_session.provider_bound''
      | AgentProviderSessionAbandoned _ _ _ \<Rightarrow> ''agent_session.provider_abandoned''
      | PrimaryAgentSet _ \<Rightarrow> ''primary_agent.set''
      | UnstartedPrimaryProviderRebound _ _ \<Rightarrow> ''agent_session.unstarted_provider_rebound''
      | SpecialistRequested _ \<Rightarrow> ''specialist.requested''
      | PrimaryPromoted _ _ _ _ \<Rightarrow> ''primary_agent.promoted''
      | SpecialistHandoffRecorded _ _ _ _ _ \<Rightarrow> ''specialist.handoff_recorded''
      | SpecialistClosed _ _ _ \<Rightarrow> ''specialist.closed''
      | ArtifactRegistered _ \<Rightarrow> ''artifact.registered''
      | ResourceRegistered _ \<Rightarrow> ''resource.registered''
      | ResourceReleaseBegun _ _ \<Rightarrow> ''resource.release_begun''
      | ResourceReleased _ _ \<Rightarrow> ''resource.released''
      | TerminalRenamed _ _ \<Rightarrow> ''terminal.renamed''
      | TerminalCwdReported _ _ \<Rightarrow> ''terminal.cwd_reported''
      | TerminalExited _ _ _ \<Rightarrow> ''terminal.exited''
      | TerminalActivity _ \<Rightarrow> ''terminal.activity''
      | TaskTerminalStripSet _ \<Rightarrow> ''task.terminal_strip_set''
      | HostCloseBegun _ _ _ \<Rightarrow> ''host.close_begun''
      | HostCleanupBranchCompleted _ _ _ _ \<Rightarrow> ''host.cleanup_branch_completed''
      | OperationAccepted _ \<Rightarrow> ''operation.accepted''
      | OperationSettled _ \<Rightarrow> ''operation.settled''
      | OperationFailed _ \<Rightarrow> ''operation.failed''
      | OperationCancelled _ \<Rightarrow> ''operation.cancelled''
      | OperationUncertain _ \<Rightarrow> ''operation.uncertain''
      | ProviderInputAccepted _ \<Rightarrow> ''provider_input.accepted''
      | ProviderQuestionPresented _ _ _ _ _ _ _ \<Rightarrow> ''provider_input.question_presented''
      | ProviderApprovalPresented _ _ _ _ _ _ _ \<Rightarrow> ''provider_input.approval_presented''
      | ProviderWaitSettled _ \<Rightarrow> ''provider_input.wait_settled''
      | ProviderInputDelivered _ \<Rightarrow> ''provider_input.delivered''
      | Browser _ \<Rightarrow> ''browser.fact''
      | Purged \<Rightarrow> ''event.purged'')"

record domain_event =
  de_id :: event_id
  de_task_id :: "task_id option"
  de_sequence :: u64
  de_task_revision :: "u64 option"
  de_occurred_at_ms :: int
  de_payload :: event

text \<open>
  \<open>TerminalFacts::decide_host_fact\<close> (\<open>src/domain/terminal_facts.rs\<close>): which observation of a
  live terminal becomes a durable fact.
\<close>

definition saturating_sub_i64 :: "int \<Rightarrow> int \<Rightarrow> int" where
  "saturating_sub_i64 x y = max i64_min (min i64_max (x - y))"

definition decide_host_fact :: "terminal_facts \<Rightarrow> host_terminal_fact \<Rightarrow> int \<Rightarrow> event option" where
  "decide_host_fact tf f observed_at_ms =
     (case f of
        HCwd cwd \<Rightarrow>
          if \<not> path_is_absolute cwd \<or> tf_live_cwd tf = Some cwd then None
          else Some (TerminalCwdReported (tf_resource_id tf) cwd)
      | HExit code summary \<Rightarrow>
          if is_some (tf_exit tf) then None
          else Some (TerminalExited (tf_resource_id tf) code summary)
      | HActivity \<Rightarrow>
          if saturating_sub_i64 observed_at_ms (tf_last_activity_at_ms tf) < TERMINAL_ACTIVITY_COALESCE_MS
          then None
          else Some (TerminalActivity (tf_resource_id tf)))"
end
