(* ===== verification/Apply.thy ===== *)
theory Apply
  imports Domain_Event
begin

text \<open>
  \<open>apply\<close>, \<open>apply_into\<close> and \<open>apply_all\<close> of \<open>src/domain/event.rs\<close>: the effect of a durable event
  on a task snapshot.  Each arm of the match in \<open>apply_into\<close> is one definition.  The
  snapshot is passed by value, so an error drops it: an arm returns the error or the
  updated snapshot.  \<open>AePanic\<close> stands for the \<open>unreachable!\<close> of the last arm.
\<close>

datatype apply_error =
    AeMissingSnapshot | AeSnapshotAlreadyExists | AeTaskMismatch | AeNotFound | AeInvalidTransition
  | AeRevisionConflict | AeOwnershipConflict | AeAlreadyExists | AePanic

record ext =
  x_sha256 :: sha256_fn
  x_from_json :: "rstr \<Rightarrow> specialist_result option"
  x_browser :: browser_lib

definition DEFAULT_MAX_TOP_LEVEL_RUNTIMES :: nat where "DEFAULT_MAX_TOP_LEVEL_RUNTIMES = 2"

definition apply_browser_error :: "browser_contract_error \<Rightarrow> apply_error" where
  "apply_browser_error e = (case e of BeCrossTask \<Rightarrow> AeOwnershipConflict | _ \<Rightarrow> AeInvalidTransition)"

definition saturating_inc :: "u64 \<Rightarrow> u64" where
  "saturating_inc x = (case checked_add x 1 of Some y \<Rightarrow> y | None \<Rightarrow> - 1)"

definition require_matching_task_id :: "task_snapshot \<Rightarrow> domain_event \<Rightarrow> apply_error + unit" where
  "require_matching_task_id s ev =
     (case de_task_id ev of
        Some i \<Rightarrow> if i = tk_id (sn_task s) then Inr () else Inl AeTaskMismatch
      | None \<Rightarrow> Inl AeTaskMismatch)"

definition require_next_revision :: "task_snapshot \<Rightarrow> domain_event \<Rightarrow> apply_error + u64" where
  "require_next_revision s ev =
     (case de_task_revision ev of
        None \<Rightarrow> Inl AeRevisionConflict
      | Some observed \<Rightarrow>
          rbind (ok_or (checked_add (tk_revision (sn_task s)) 1) AeInvalidTransition) (\<lambda>expected.
            if observed \<noteq> expected then Inl AeRevisionConflict else Inr expected))"

definition validate_snapshot_provider_fence ::
  "task_snapshot \<Rightarrow> agent_session_id \<Rightarrow> provider_fence_identity \<Rightarrow> provider_input_action option
     \<Rightarrow> bool option \<Rightarrow> turn_id option \<Rightarrow> bool \<Rightarrow> apply_error + unit" where
  "validate_snapshot_provider_fence s aid fence action wait current_turn allow_closing =
     rbind (ok_or (bget (sn_agents s) aid) AeNotFound) (\<lambda>agent.
       map_err (\<lambda>_. AeInvalidTransition)
         (validate_provider_fence fence action wait
           (Some \<lparr> fc_task_id = tk_id (sn_task s), fc_agent_session_id = aid,
                   fc_agent_task_id = ag_task_id agent, fc_provider_kind = ag_provider_kind agent,
                   fc_provider_session_id = ag_provider_session_id agent,
                   fc_runtime_generation = ag_runtime_generation agent,
                   fc_action_epoch = tk_action_epoch (sn_task s), fc_lifecycle = ag_lifecycle agent,
                   fc_current_turn = current_turn, fc_allow_closing = allow_closing \<rparr>)))"

definition upd_task :: "(task_facts \<Rightarrow> task_facts) \<Rightarrow> task_snapshot \<Rightarrow> task_snapshot" where
  "upd_task f s = s \<lparr> sn_task := f (sn_task s) \<rparr>"

definition upd_agent :: "agent_session_id \<Rightarrow> agent_session_facts \<Rightarrow> task_snapshot \<Rightarrow> task_snapshot" where
  "upd_agent i a s = s \<lparr> sn_agents := binsert i a (sn_agents s) \<rparr>"

section \<open>Lifecycle arms\<close>

definition apply_task_renamed :: "rstr \<Rightarrow> task_snapshot \<Rightarrow> apply_error + task_snapshot" where
  "apply_task_renamed title s =
     rbind (map_err (\<lambda>_. AeInvalidTransition) (canonicalize_title title)) (\<lambda>title.
       Inr (upd_task (\<lambda>t. t \<lparr> tk_title := title \<rparr>) s))"

definition apply_attention_set :: "task_attention \<Rightarrow> task_snapshot \<Rightarrow> apply_error + task_snapshot" where
  "apply_attention_set attention s = Inr (s \<lparr> sn_attention := attention \<rparr>)"

definition apply_close_begun :: "ext \<Rightarrow> u64 \<Rightarrow> task_snapshot \<Rightarrow> apply_error + task_snapshot" where
  "apply_close_begun x epoch s =
     (if \<not> (tk_lifecycle (sn_task s) = TlOpen \<or> tk_lifecycle (sn_task s) = TlSettled)
      then Inl AeInvalidTransition
      else rbind (ok_or (checked_add (tk_action_epoch (sn_task s)) 1) AeInvalidTransition) (\<lambda>expected.
        if epoch \<noteq> expected then Inl AeInvalidTransition
        else let s = upd_task (\<lambda>t. t \<lparr> tk_lifecycle := TlClosing, tk_action_epoch := epoch \<rparr>) s
             in case close_task (x_browser x) (tk_id (sn_task s)) (sn_browser s) of
                  (Inl e, _) \<Rightarrow> Inl (apply_browser_error e)
                | (Inr _, b) \<Rightarrow> Inr (s \<lparr> sn_browser := b \<rparr>)))"

definition apply_task_settled :: "task_snapshot \<Rightarrow> apply_error + task_snapshot" where
  "apply_task_settled s =
     (if tk_lifecycle (sn_task s) \<noteq> TlOpen then Inl AeInvalidTransition
      else Inr (upd_task (\<lambda>t. t \<lparr> tk_lifecycle := TlSettled \<rparr>) s))"

definition apply_task_reopened :: "task_snapshot \<Rightarrow> apply_error + task_snapshot" where
  "apply_task_reopened s =
     (if tk_lifecycle (sn_task s) = TlOpen \<or> tk_lifecycle (sn_task s) = TlDeleted
      then Inl AeInvalidTransition
      else rbind (map_err apply_browser_error (open_task (tk_id (sn_task s)) (sn_browser s))) (\<lambda>b.
        Inr (upd_task (\<lambda>t. t \<lparr> tk_lifecycle := TlOpen \<rparr>) (s \<lparr> sn_browser := b \<rparr>))))"

definition is_specialist :: "agent_session_facts \<Rightarrow> bool" where
  "is_specialist a = (case ag_role a of Specialist _ \<Rightarrow> True | Primary \<Rightarrow> False)"

definition apply_task_archived :: "task_snapshot \<Rightarrow> apply_error + task_snapshot" where
  "apply_task_archived s =
     (if tk_lifecycle (sn_task s) \<noteq> TlClosing then Inl AeInvalidTransition
      else if list_ex (\<lambda>r. rs_lifecycle r = RsActive \<or> rs_lifecycle r = RsReleasing)
                (bvalues (sn_resources s))
      then Inl AeInvalidTransition
      else if list_ex (\<lambda>a. ag_lifecycle a = AgOpen \<and> is_specialist a) (bvalues (sn_agents s))
      then Inl AeInvalidTransition
      else Inr (upd_task (\<lambda>t. t \<lparr> tk_lifecycle := TlArchived \<rparr>) s))"

definition apply_task_deleted :: "task_snapshot \<Rightarrow> apply_error + task_snapshot" where
  "apply_task_deleted s =
     (if tk_lifecycle (sn_task s) \<noteq> TlArchived then Inl AeInvalidTransition
      else Inr (upd_task (\<lambda>t. t \<lparr> tk_lifecycle := TlDeleted \<rparr>) s))"

section \<open>Agent arms\<close>

definition session_or_default :: "agent_session_id \<Rightarrow> task_snapshot \<Rightarrow> provider_session_projection" where
  "session_or_default i s =
     (case bget (sn_provider_sessions s) i of Some p \<Rightarrow> p | None \<Rightarrow> projection_default)"

definition put_session ::
  "agent_session_id \<Rightarrow> provider_session_projection \<Rightarrow> task_snapshot \<Rightarrow> task_snapshot" where
  "put_session i p s = s \<lparr> sn_provider_sessions := binsert i p (sn_provider_sessions s) \<rparr>"

definition apply_agent_registered :: "agent_session_facts \<Rightarrow> task_snapshot \<Rightarrow> apply_error + task_snapshot" where
  "apply_agent_registered a s =
     (if ag_task_id a \<noteq> tk_id (sn_task s) then Inl AeOwnershipConflict
      else if is_specialist a then Inl AeInvalidTransition
      else rbind (map_err (\<lambda>_. AeInvalidTransition) (validate_for_registration a)) (\<lambda>_.
        if bcontains (sn_agents s) (ag_id a) then Inl AeAlreadyExists
        else let s = upd_agent (ag_id a) a s
             in Inr (put_session (ag_id a) (session_or_default (ag_id a) s) s)))"

definition apply_provider_bound ::
  "agent_session_id \<Rightarrow> resource_id \<Rightarrow> provider_session_id \<Rightarrow> u64 \<Rightarrow> task_snapshot
     \<Rightarrow> apply_error + task_snapshot" where
  "apply_provider_bound aid rid ps generation s =
     (case bget (sn_agents s) aid of
        None \<Rightarrow> Inl AeNotFound
      | Some agent \<Rightarrow>
          if ag_lifecycle agent \<noteq> AgOpen \<or> ag_runtime_generation agent \<noteq> generation
          then Inl AeInvalidTransition
          else case bget (sn_resources s) rid of
              None \<Rightarrow> Inl AeNotFound
            | Some resource \<Rightarrow>
                rbind (map_err (\<lambda>_. AeInvalidTransition) (binding_from_facts agent resource)) (\<lambda>_.
                  case ag_provider_session_id agent of
                    Some bound \<Rightarrow> if bound = ps then Inr s else Inl AeOwnershipConflict
                  | None \<Rightarrow>
                      Inr (upd_agent aid (agent \<lparr> ag_provider_session_id := Some ps,
                             ag_revision := saturating_inc (ag_revision agent) \<rparr>) s)))"

definition apply_provider_abandoned ::
  "agent_session_id \<Rightarrow> provider_session_id \<Rightarrow> u64 \<Rightarrow> task_snapshot \<Rightarrow> apply_error + task_snapshot" where
  "apply_provider_abandoned aid ps generation s =
     (case bget (sn_agents s) aid of
        None \<Rightarrow> Inl AeNotFound
      | Some agent \<Rightarrow>
          if ag_lifecycle agent \<noteq> AgOpen \<or> ag_runtime_generation agent \<noteq> generation
          then Inl AeInvalidTransition
          else case ag_provider_session_id agent of
              Some bound \<Rightarrow>
                if bound = ps
                then Inr (upd_agent aid (agent \<lparr> ag_provider_session_id := None,
                            ag_revision := saturating_inc (ag_revision agent) \<rparr>) s)
                else Inl AeOwnershipConflict
            | None \<Rightarrow> Inr s)"

definition apply_primary_agent_set :: "agent_session_id \<Rightarrow> task_snapshot \<Rightarrow> apply_error + task_snapshot" where
  "apply_primary_agent_set aid s =
     (case bget (sn_agents s) aid of
        None \<Rightarrow> Inl AeNotFound
      | Some agent \<Rightarrow>
          if ag_role agent \<noteq> Primary then Inl AeInvalidTransition
          else Inr (s \<lparr> sn_primary_agent_id := Some aid \<rparr>))"

definition apply_unstarted_rebound ::
  "agent_session_id \<Rightarrow> provider_kind \<Rightarrow> task_snapshot \<Rightarrow> apply_error + task_snapshot" where
  "apply_unstarted_rebound aid kind s =
     (if \<not> is_unstarted_draft s then Inl AeInvalidTransition
      else if sn_primary_agent_id s \<noteq> Some aid then Inl AeOwnershipConflict
      else case bget (sn_agents s) aid of
          None \<Rightarrow> Inl AeNotFound
        | Some agent \<Rightarrow>
            if ag_role agent \<noteq> Primary \<or> ag_lifecycle agent \<noteq> AgOpen
               \<or> is_some (ag_provider_session_id agent)
            then Inl AeInvalidTransition
            else Inr (upd_agent aid (agent \<lparr> ag_provider_kind := kind,
                        ag_revision := saturating_inc (ag_revision agent) \<rparr>) s))"

definition open_runtime_count :: "task_snapshot \<Rightarrow> nat" where
  "open_runtime_count s = length (filter (\<lambda>a. ag_lifecycle a = AgOpen) (bvalues (sn_agents s)))"

definition apply_specialist_requested ::
  "ext \<Rightarrow> specialist_requested \<Rightarrow> task_snapshot \<Rightarrow> apply_error + task_snapshot" where
  "apply_specialist_requested x q s =
     (let agent = sq_agent q in
      if ag_id agent \<noteq> sq_specialist_id q \<or> ag_task_id agent \<noteq> tk_id (sn_task s)
      then Inl AeOwnershipConflict
      else if \<not> is_bounded_canonical (sq_purpose q) \<or> \<not> is_specialist agent
              \<or> sq_permission q \<noteq> ReadOnly \<or> sq_action_epoch q \<noteq> tk_action_epoch (sn_task s)
              \<or> ag_runtime_generation agent \<noteq> sq_runtime_generation q
              \<or> ag_id agent = sq_requested_by q
      then Inl AeInvalidTransition
      else rbind (map_err (\<lambda>_. AeInvalidTransition) (workspace_ref_validate (x_sha256 x) (sq_workspace q))) (\<lambda>_.
        case bget (sn_agents s) (sq_requested_by q) of
          None \<Rightarrow> Inl AeNotFound
        | Some requester \<Rightarrow>
            if ag_lifecycle requester \<noteq> AgOpen \<or> ag_role requester \<noteq> Primary
               \<or> sn_primary_agent_id s \<noteq> Some (sq_requested_by q)
               \<or> ag_runtime_generation requester \<noteq> sq_runtime_generation q
            then Inl AeInvalidTransition
            else if open_runtime_count s \<ge> DEFAULT_MAX_TOP_LEVEL_RUNTIMES
            then Inl AeInvalidTransition
            else rbind
              (case sq_resource_id q of
                 None \<Rightarrow> Inr ()
               | Some rid \<Rightarrow>
                   (case bget (sn_resources s) rid of
                      None \<Rightarrow> Inl AeNotFound
                    | Some resource \<Rightarrow>
                        if rs_task_id resource \<noteq> Some (tk_id (sn_task s))
                           \<or> rs_runtime_generation resource \<noteq> sq_runtime_generation q
                        then Inl AeInvalidTransition else Inr ()))
              (\<lambda>_. rbind (map_err (\<lambda>_. AeInvalidTransition) (validate_for_registration agent)) (\<lambda>_.
                if bcontains (sn_agents s) (ag_id agent) then Inl AeAlreadyExists
                else Inr (upd_agent (ag_id agent) agent s)))))"

definition apply_primary_promoted ::
  "agent_session_id \<Rightarrow> agent_session_id \<Rightarrow> u64 \<Rightarrow> u64 \<Rightarrow> task_snapshot \<Rightarrow> apply_error + task_snapshot" where
  "apply_primary_promoted previous promoted epoch generation s =
     (if previous = promoted \<or> epoch \<noteq> tk_action_epoch (sn_task s) then Inl AeInvalidTransition
      else if sn_primary_agent_id s \<noteq> Some previous then Inl AeInvalidTransition
      else case bget (sn_agents s) previous of
          None \<Rightarrow> Inl AeNotFound
        | Some prev \<Rightarrow>
            if ag_role prev \<noteq> Primary \<or> ag_lifecycle prev \<noteq> AgOpen
               \<or> ag_runtime_generation prev \<noteq> generation
            then Inl AeInvalidTransition
            else rbind (map_err (\<lambda>_. AeInvalidTransition) (agent_role_specialist (lit ''primary''))) (\<lambda>role.
              let s = upd_agent previous (prev \<lparr> ag_role := role \<rparr>) s
              in case bget (sn_agents s) promoted of
                   None \<Rightarrow> Inl AeNotFound
                 | Some next \<Rightarrow>
                     if \<not> is_specialist next \<or> ag_lifecycle next \<noteq> AgOpen
                        \<or> ag_runtime_generation next \<noteq> generation
                     then Inl AeInvalidTransition
                     else Inr ((upd_agent promoted (next \<lparr> ag_role := Primary \<rparr>) s)
                                 \<lparr> sn_primary_agent_id := Some promoted \<rparr>)))"

definition check_result_refs :: "task_snapshot \<Rightarrow> artifact_id list \<Rightarrow> apply_error + unit" where
  "check_result_refs s ids =
     try_each (\<lambda>i. case bget (sn_artifacts s) i of
                 None \<Rightarrow> Inl AeNotFound
               | Some existing \<Rightarrow>
                   if ar_task_id existing \<noteq> tk_id (sn_task s) then Inl AeOwnershipConflict else Inr ()) ids"

definition apply_handoff_recorded ::
  "ext \<Rightarrow> agent_session_id \<Rightarrow> artifact_facts \<Rightarrow> bool \<Rightarrow> u64 \<Rightarrow> u64 \<Rightarrow> task_snapshot
     \<Rightarrow> apply_error + task_snapshot" where
  "apply_handoff_recorded x sid artifact structured epoch generation s =
     (if ar_task_id artifact \<noteq> tk_id (sn_task s) then Inl AeOwnershipConflict
      else if ar_kind artifact \<noteq> ReviewReport \<or> epoch \<noteq> tk_action_epoch (sn_task s)
      then Inl AeInvalidTransition
      else case ar_content_ref artifact of
          ContentAddressed _ \<Rightarrow> Inl AeInvalidTransition
        | InlineUtf8 body \<Rightarrow>
            if str_len body > MAX_SPECIALIST_RAW_ARTIFACT_BYTES then Inl AeInvalidTransition
            else rbind (map_err (\<lambda>_. AeInvalidTransition) (artifact_validate artifact)) (\<lambda>_.
              rbind (map_err (\<lambda>_. AeInvalidTransition) (verify_inline_content_digest (x_sha256 x) artifact)) (\<lambda>_.
              rbind (if structured then
                       rbind (map_err (\<lambda>_. AeInvalidTransition)
                               (structured_specialist_result (x_sha256 x) (x_from_json x) artifact)) (\<lambda>result.
                         check_result_refs s (sr_evidence result @ sr_artifacts result))
                     else Inr ()) (\<lambda>_.
              if bcontains (sn_artifacts s) (ar_id artifact) then Inl AeAlreadyExists
              else case bget (sn_agents s) sid of
                  None \<Rightarrow> Inl AeNotFound
                | Some specialist \<Rightarrow>
                    if \<not> is_specialist specialist \<or> ag_lifecycle specialist \<noteq> AgOpen
                       \<or> ag_runtime_generation specialist \<noteq> generation
                    then Inl AeInvalidTransition
                    else Inr ((upd_agent sid (specialist \<lparr> ag_lifecycle := AgClosed \<rparr>) s)
                          \<lparr> sn_artifacts := binsert (ar_id artifact) artifact (sn_artifacts s) \<rparr>)))))"

definition apply_specialist_closed ::
  "agent_session_id \<Rightarrow> u64 \<Rightarrow> u64 \<Rightarrow> task_snapshot \<Rightarrow> apply_error + task_snapshot" where
  "apply_specialist_closed sid epoch generation s =
     (case bget (sn_agents s) sid of
        None \<Rightarrow> Inl AeNotFound
      | Some specialist \<Rightarrow>
          if \<not> is_specialist specialist \<or> ag_lifecycle specialist \<noteq> AgOpen
             \<or> ag_runtime_generation specialist \<noteq> generation \<or> epoch \<noteq> tk_action_epoch (sn_task s)
          then Inl AeInvalidTransition
          else Inr (upd_agent sid (specialist \<lparr> ag_lifecycle := AgClosed \<rparr>) s))"

section \<open>Artifact and resource arms\<close>

definition apply_artifact_registered :: "artifact_facts \<Rightarrow> task_snapshot \<Rightarrow> apply_error + task_snapshot" where
  "apply_artifact_registered artifact s =
     (if ar_task_id artifact \<noteq> tk_id (sn_task s) then Inl AeOwnershipConflict
      else rbind (map_err (\<lambda>_. AeInvalidTransition) (artifact_validate artifact)) (\<lambda>_.
        if bcontains (sn_artifacts s) (ar_id artifact) then Inl AeAlreadyExists
        else Inr (s \<lparr> sn_artifacts := binsert (ar_id artifact) artifact (sn_artifacts s) \<rparr>)))"

definition recipe_title :: "resource_recipe \<Rightarrow> rstr option" where
  "recipe_title r = (case r of RTerminal _ _ _ title \<Rightarrow> title | _ \<Rightarrow> None)"

definition strip_push :: "resource_id \<Rightarrow> task_terminal_strip \<Rightarrow> task_terminal_strip" where
  "strip_push i strip =
     \<lparr> ts_order = ts_order strip @ [i],
       ts_focused = (if ts_focused strip = None then Some i else ts_focused strip) \<rparr>"

definition apply_resource_registered ::
  "int \<Rightarrow> resource_facts \<Rightarrow> task_snapshot \<Rightarrow> apply_error + task_snapshot" where
  "apply_resource_registered at r s =
     (if rs_owner_kind r \<noteq> OwnerTask then Inl AeOwnershipConflict
      else if rs_task_id r \<noteq> Some (tk_id (sn_task s)) then Inl AeOwnershipConflict
      else rbind (map_err (\<lambda>_. AeInvalidTransition) (resource_validate r)) (\<lambda>_.
        if rs_lifecycle r \<noteq> RsActive then Inl AeInvalidTransition
        else if bcontains (sn_resources s) (rs_id r) then Inl AeAlreadyExists
        else if is_plain_shell (rs_recipe r)
                \<and> length (ts_order (sn_terminal_strip s)) \<ge> MAX_PLAIN_SHELLS_PER_TASK
        then Inl AeInvalidTransition
        else
          let s = s \<lparr> sn_resources := binsert (rs_id r) r (sn_resources s) \<rparr>
          in if rs_resource_kind r = KTerminal then
               let s = s \<lparr> sn_terminal_facts := binsert (rs_id r)
                         (terminal_facts_registered (rs_id r) (recipe_title (rs_recipe r)) at)
                         (sn_terminal_facts s) \<rparr>
               in if is_plain_shell (rs_recipe r)
                  then Inr (s \<lparr> sn_terminal_strip := strip_push (rs_id r) (sn_terminal_strip s) \<rparr>)
                  else Inr s
             else Inr s))"

definition apply_release_begun ::
  "int \<Rightarrow> resource_id \<Rightarrow> u64 \<Rightarrow> task_snapshot \<Rightarrow> apply_error + task_snapshot" where
  "apply_release_begun at rid generation s =
     (case bget (sn_resources s) rid of
        None \<Rightarrow> Inl AeNotFound
      | Some r \<Rightarrow>
          if rs_owner_kind r \<noteq> OwnerTask \<or> rs_task_id r \<noteq> Some (tk_id (sn_task s))
          then Inl AeOwnershipConflict
          else if rs_lifecycle r \<noteq> RsActive then Inl AeInvalidTransition
          else if rs_runtime_generation r \<noteq> generation then Inl AeInvalidTransition
          else Inr (s \<lparr> sn_resources := binsert rid
                 (r \<lparr> rs_lifecycle := RsReleasing, rs_updated_at_ms := at \<rparr>) (sn_resources s) \<rparr>))"

definition apply_resource_released ::
  "int \<Rightarrow> resource_id \<Rightarrow> u64 \<Rightarrow> task_snapshot \<Rightarrow> apply_error + task_snapshot" where
  "apply_resource_released at rid generation s =
     (case bget (sn_resources s) rid of
        None \<Rightarrow> Inl AeNotFound
      | Some r \<Rightarrow>
          if rs_owner_kind r \<noteq> OwnerTask \<or> rs_task_id r \<noteq> Some (tk_id (sn_task s))
          then Inl AeOwnershipConflict
          else if rs_lifecycle r \<noteq> RsReleasing then Inl AeInvalidTransition
          else if rs_runtime_generation r \<noteq> generation then Inl AeInvalidTransition
          else Inr (s \<lparr> sn_resources := binsert rid
                   (r \<lparr> rs_lifecycle := RsReleased, rs_updated_at_ms := at \<rparr>) (sn_resources s),
                 sn_terminal_facts := bremove rid (sn_terminal_facts s),
                 sn_terminal_strip := strip_remove rid (sn_terminal_strip s) \<rparr>))"

section \<open>Terminal arms\<close>

definition upd_terminal ::
  "resource_id \<Rightarrow> (terminal_facts \<Rightarrow> terminal_facts) \<Rightarrow> task_snapshot \<Rightarrow> apply_error + task_snapshot" where
  "upd_terminal rid f s =
     rbind (ok_or (bget (sn_terminal_facts s) rid) AeNotFound) (\<lambda>facts.
       Inr (s \<lparr> sn_terminal_facts := binsert rid (f facts) (sn_terminal_facts s) \<rparr>))"

definition set_recipe_title :: "rstr \<Rightarrow> resource_recipe \<Rightarrow> resource_recipe" where
  "set_recipe_title title r =
     (case r of RTerminal cols rows launch _ \<Rightarrow> RTerminal cols rows launch (Some title) | _ \<Rightarrow> r)"

definition apply_terminal_renamed :: "resource_id \<Rightarrow> rstr \<Rightarrow> task_snapshot \<Rightarrow> apply_error + task_snapshot" where
  "apply_terminal_renamed rid title s =
     (case bget (sn_resources s) rid of
        None \<Rightarrow> Inl AeNotFound
      | Some r \<Rightarrow>
          if \<not> is_plain_shell (rs_recipe r) then Inl AeInvalidTransition
          else rbind (map_err (\<lambda>_. AeInvalidTransition) (validate_terminal_title title)) (\<lambda>_.
            rbind (upd_terminal rid (\<lambda>f. f \<lparr> tf_title := Some title \<rparr>) s) (\<lambda>s.
              Inr (s \<lparr> sn_resources := binsert rid
                     (r \<lparr> rs_recipe := set_recipe_title title (rs_recipe r) \<rparr>) (sn_resources s) \<rparr>))))"

definition apply_cwd_reported :: "int \<Rightarrow> resource_id \<Rightarrow> path \<Rightarrow> task_snapshot \<Rightarrow> apply_error + task_snapshot" where
  "apply_cwd_reported at rid cwd =
     upd_terminal rid (\<lambda>f. f \<lparr> tf_live_cwd := Some cwd, tf_last_activity_at_ms := at \<rparr>)"

definition apply_terminal_exited ::
  "int \<Rightarrow> resource_id \<Rightarrow> 32 word option \<Rightarrow> rstr \<Rightarrow> task_snapshot \<Rightarrow> apply_error + task_snapshot" where
  "apply_terminal_exited at rid code summary =
     upd_terminal rid (\<lambda>f. f \<lparr> tf_exit := Some \<lparr> te_code = code, te_summary = summary, te_at_ms = at \<rparr> \<rparr>)"

definition apply_terminal_activity :: "int \<Rightarrow> resource_id \<Rightarrow> task_snapshot \<Rightarrow> apply_error + task_snapshot" where
  "apply_terminal_activity at rid = upd_terminal rid (\<lambda>f. f \<lparr> tf_last_activity_at_ms := at \<rparr>)"

definition strip_apply_error :: "terminal_strip_error \<Rightarrow> apply_error" where
  "strip_apply_error e = (case e of StripForeignTask _ \<Rightarrow> AeNotFound | _ \<Rightarrow> AeInvalidTransition)"

definition apply_strip_set :: "task_terminal_strip \<Rightarrow> task_snapshot \<Rightarrow> apply_error + task_snapshot" where
  "apply_strip_set strip s =
     rbind (map_err strip_apply_error (strip_validate (tk_id (sn_task s)) (sn_resources s) strip)) (\<lambda>_.
       Inr (s \<lparr> sn_terminal_strip := strip \<rparr>))"

section \<open>Provider arms\<close>

definition current_turn_of :: "agent_session_id \<Rightarrow> task_snapshot \<Rightarrow> turn_id option" where
  "current_turn_of aid s =
     (case bget (sn_provider_sessions s) aid of None \<Rightarrow> None | Some p \<Rightarrow> pp_current_turn p)"

definition is_send_now :: "provider_input_action \<Rightarrow> bool" where
  "is_send_now a = (case a of SendNow _ _ _ \<Rightarrow> True | _ \<Rightarrow> False)"

definition input_fence :: "task_snapshot \<Rightarrow> provider_input_accepted \<Rightarrow> provider_fence_identity" where
  "input_fence s e =
     \<lparr> fi_command_id = Some (pia_command_id e), fi_task_id = Some (tk_id (sn_task s)),
       fi_agent_session_id = pia_agent_session_id e, fi_provider_kind = Some (pia_provider_kind e),
       fi_provider_session_id = pia_provider_session_id e,
       fi_operation_id = Some (pia_operation_id e),
       fi_runtime_generation = pia_runtime_generation e, fi_action_epoch = pia_action_epoch e,
       fi_turn_id = pia_turn_id e, fi_question_id = pia_question_id e,
       fi_approval_id = pia_approval_id e \<rparr>"

definition input_wait_fence :: "task_snapshot \<Rightarrow> provider_input_accepted \<Rightarrow> provider_wait_fence" where
  "input_wait_fence s e =
     \<lparr> pf_command_id = pia_command_id e, pf_task_id = tk_id (sn_task s),
       pf_operation_id = Some (pia_operation_id e), pf_action_epoch = pia_action_epoch e,
       pf_agent_session_id = pia_agent_session_id e, pf_provider_kind = Some (pia_provider_kind e),
       pf_provider_session_id = pia_provider_session_id e,
       pf_runtime_generation = pia_runtime_generation e, pf_turn_id = pia_turn_id e,
       pf_question_id = pia_question_id e, pf_approval_id = pia_approval_id e \<rparr>"

definition input_current_turn :: "task_snapshot \<Rightarrow> provider_input_accepted \<Rightarrow> turn_id option" where
  "input_current_turn s e =
     (case bget (sn_provider_sessions s) (pia_agent_session_id e) of
        None \<Rightarrow> None
      | Some p \<Rightarrow>
          if is_send_now (pia_action e) \<and> can_begin_send_now_turn p (pia_turn_id e) then None
          else pp_current_turn p)"

definition check_resolution ::
  "provider_input_action \<Rightarrow> provider_session_projection \<Rightarrow> apply_error + unit" where
  "check_resolution action p =
     (case action of
        AnswerQuestion q _ \<Rightarrow>
          if bcontains (pp_question_winners p) q then Inl AeAlreadyExists
          else if pp_open_question p \<noteq> Some q then Inl AeInvalidTransition else Inr ()
      | ResolveApproval a _ \<Rightarrow>
          if bcontains (pp_approval_winners p) a then Inl AeAlreadyExists
          else if pp_open_approval p \<noteq> Some a then Inl AeInvalidTransition else Inr ()
      | _ \<Rightarrow> Inr ())"

definition record_resolution ::
  "provider_input_action \<Rightarrow> provider_resolution_winner \<Rightarrow> provider_session_projection
     \<Rightarrow> apply_error + provider_session_projection" where
  "record_resolution action winner p =
     (case action of
        AnswerQuestion q _ \<Rightarrow>
          rbind (map_err (\<lambda>_. AeInvalidTransition) (bounded_insert_question_winner q winner p)) (\<lambda>p.
            Inr (p \<lparr> pp_open_question := None \<rparr>))
      | ResolveApproval a _ \<Rightarrow>
          rbind (map_err (\<lambda>_. AeInvalidTransition) (bounded_insert_approval_winner a winner p)) (\<lambda>p.
            Inr (p \<lparr> pp_open_approval := None \<rparr>))
      | _ \<Rightarrow> Inr p)"

definition accept_into_session ::
  "int \<Rightarrow> provider_wait_fence \<Rightarrow> provider_input_accepted \<Rightarrow> provider_session_projection
     \<Rightarrow> apply_error + provider_session_projection" where
  "accept_into_session at wait_fence e p =
     rbind (check_resolution (pia_action e) p) (\<lambda>_.
       let p = p \<lparr> pp_current_turn := Some (pia_turn_id e),
                   pp_last_settlement := Some \<lparr> ps_command_id = pia_command_id e,
                     ps_operation_id = Some (pia_operation_id e), ps_intent = PhaseAccepted,
                     ps_delivery = pia_delivery e \<rparr> \<rparr>;
           winner = \<lparr> pw_command_id = pia_command_id e, pw_client_id = pia_client_id e,
                      pw_accepted_at_ms = at \<rparr>
       in rbind (record_resolution (pia_action e) winner p) (\<lambda>p.
            if pia_wait e
            then map_err (\<lambda>_. AeInvalidTransition)
                   (bounded_insert_wait (pia_command_id e)
                     \<lparr> wr_fence = wait_fence, wr_pending = True \<rparr> p)
            else Inr p))"

definition apply_input_accepted ::
  "int \<Rightarrow> provider_input_accepted \<Rightarrow> task_snapshot \<Rightarrow> apply_error + task_snapshot" where
  "apply_input_accepted at e s =
     (if is_delivered (pia_delivery e) then Inl AeInvalidTransition
      else rbind (validate_snapshot_provider_fence s (pia_agent_session_id e) (input_fence s e)
                    (Some (pia_action e)) (Some (pia_wait e)) (input_current_turn s e) False) (\<lambda>_.
        let s = (if tk_lifecycle (sn_task s) = TlSettled \<and> is_send_now (pia_action e)
                 then upd_task (\<lambda>t. t \<lparr> tk_lifecycle := TlOpen \<rparr>) s else s)
        in rbind (accept_into_session at (input_wait_fence s e) e
                    (session_or_default (pia_agent_session_id e) s)) (\<lambda>p.
             Inr (put_session (pia_agent_session_id e) p s))))"

definition presented_fence ::
  "task_snapshot \<Rightarrow> agent_session_id \<Rightarrow> provider_kind \<Rightarrow> provider_session_id \<Rightarrow> u64 \<Rightarrow> turn_id \<Rightarrow> u64
     \<Rightarrow> question_id option \<Rightarrow> approval_id option \<Rightarrow> provider_fence_identity" where
  "presented_fence s aid kind ps generation turn epoch q a =
     \<lparr> fi_command_id = None, fi_task_id = Some (tk_id (sn_task s)), fi_agent_session_id = aid,
       fi_provider_kind = Some kind, fi_provider_session_id = Some ps, fi_operation_id = None,
       fi_runtime_generation = generation, fi_action_epoch = epoch, fi_turn_id = turn,
       fi_question_id = q, fi_approval_id = a \<rparr>"

definition apply_question_presented ::
  "agent_session_id \<Rightarrow> provider_kind \<Rightarrow> provider_session_id \<Rightarrow> u64 \<Rightarrow> turn_id \<Rightarrow> u64 \<Rightarrow> question_id
     \<Rightarrow> task_snapshot \<Rightarrow> apply_error + task_snapshot" where
  "apply_question_presented aid kind ps generation turn epoch q s =
     rbind (validate_snapshot_provider_fence s aid
              (presented_fence s aid kind ps generation turn epoch (Some q) None)
              None None (current_turn_of aid s) False) (\<lambda>_.
       let p = session_or_default aid s
       in if bcontains (pp_question_winners p) q then Inl AeAlreadyExists
          else if is_some (pp_open_question p) then Inl AeAlreadyExists
          else Inr (put_session aid
                 (p \<lparr> pp_current_turn := Some turn, pp_open_question := Some q \<rparr>) s))"

definition apply_approval_presented ::
  "agent_session_id \<Rightarrow> provider_kind \<Rightarrow> provider_session_id \<Rightarrow> u64 \<Rightarrow> turn_id \<Rightarrow> u64 \<Rightarrow> approval_id
     \<Rightarrow> task_snapshot \<Rightarrow> apply_error + task_snapshot" where
  "apply_approval_presented aid kind ps generation turn epoch a s =
     rbind (validate_snapshot_provider_fence s aid
              (presented_fence s aid kind ps generation turn epoch None (Some a))
              None None (current_turn_of aid s) False) (\<lambda>_.
       let p = session_or_default aid s
       in if bcontains (pp_approval_winners p) a then Inl AeAlreadyExists
          else if is_some (pp_open_approval p) then Inl AeAlreadyExists
          else Inr (put_session aid
                 (p \<lparr> pp_current_turn := Some turn, pp_open_approval := Some a \<rparr>) s))"

definition apply_wait_settled :: "provider_wait_fence \<Rightarrow> task_snapshot \<Rightarrow> apply_error + task_snapshot" where
  "apply_wait_settled fence s =
     (let aid = pf_agent_session_id fence in
      rbind (validate_snapshot_provider_fence s aid (wait_fence_identity fence)
               None None (current_turn_of aid s) True) (\<lambda>_.
      rbind (ok_or (bget (sn_provider_sessions s) aid) AeNotFound) (\<lambda>p.
      rbind (ok_or (bget (pp_waits p) (pf_command_id fence)) AeNotFound) (\<lambda>record.
        if wr_fence record \<noteq> fence then Inl AeInvalidTransition
        else if \<not> wr_pending record then Inl AeAlreadyExists
        else Inr (put_session aid
               (p \<lparr> pp_waits := binsert (pf_command_id fence) (record \<lparr> wr_pending := False \<rparr>)
                                 (pp_waits p) \<rparr>) s)))))"

definition delivered_fence :: "task_snapshot \<Rightarrow> provider_input_delivered \<Rightarrow> provider_fence_identity" where
  "delivered_fence s e =
     \<lparr> fi_command_id = Some (pid_command_id e), fi_task_id = Some (tk_id (sn_task s)),
       fi_agent_session_id = pid_agent_session_id e, fi_provider_kind = Some (pid_provider_kind e),
       fi_provider_session_id = pid_provider_session_id e,
       fi_operation_id = Some (pid_operation_id e),
       fi_runtime_generation = pid_runtime_generation e, fi_action_epoch = pid_action_epoch e,
       fi_turn_id = pid_turn_id e, fi_question_id = pid_question_id e,
       fi_approval_id = pid_approval_id e \<rparr>"

definition apply_input_delivered ::
  "provider_input_delivered \<Rightarrow> task_snapshot \<Rightarrow> apply_error + task_snapshot" where
  "apply_input_delivered e s =
     (let aid = pid_agent_session_id e in
      rbind (validate_snapshot_provider_fence s aid (delivered_fence s e)
               None None (current_turn_of aid s) True) (\<lambda>_.
      rbind (ok_or (bget (sn_provider_sessions s) aid) AeNotFound) (\<lambda>p.
        case pp_last_settlement p of
          None \<Rightarrow> Inl AeInvalidTransition
        | Some settlement \<Rightarrow>
            if ps_command_id settlement \<noteq> pid_command_id e
               \<or> ps_operation_id settlement \<noteq> Some (pid_operation_id e)
            then Inr s
            else if is_delivered (ps_delivery settlement) then Inl AeInvalidTransition
            else Inr (put_session aid
                   (p \<lparr> pp_last_settlement := Some \<lparr> ps_command_id = pid_command_id e,
                        ps_operation_id = Some (pid_operation_id e), ps_intent = PhaseAccepted,
                        ps_delivery = Delivered \<rparr> \<rparr>) s))))"

section \<open>Dispatch\<close>

definition apply_into :: "ext \<Rightarrow> int \<Rightarrow> event \<Rightarrow> task_snapshot \<Rightarrow> apply_error + task_snapshot" where
  "apply_into x at e =
     (case e of
        TaskRenamed title \<Rightarrow> apply_task_renamed title
      | TaskAttentionSet attention \<Rightarrow> apply_attention_set attention
      | TaskCloseBegun epoch \<Rightarrow> apply_close_begun x epoch
      | TaskSettled \<Rightarrow> apply_task_settled
      | TaskReopened \<Rightarrow> apply_task_reopened
      | TaskArchived \<Rightarrow> apply_task_archived
      | TaskDeleted \<Rightarrow> apply_task_deleted
      | AgentSessionRegistered a \<Rightarrow> apply_agent_registered a
      | AgentProviderSessionBound aid rid ps generation \<Rightarrow> apply_provider_bound aid rid ps generation
      | AgentProviderSessionAbandoned aid ps generation \<Rightarrow> apply_provider_abandoned aid ps generation
      | PrimaryAgentSet aid \<Rightarrow> apply_primary_agent_set aid
      | UnstartedPrimaryProviderRebound aid kind \<Rightarrow> apply_unstarted_rebound aid kind
      | SpecialistRequested q \<Rightarrow> apply_specialist_requested x q
      | PrimaryPromoted prev next epoch generation \<Rightarrow> apply_primary_promoted prev next epoch generation
      | SpecialistHandoffRecorded sid artifact structured epoch generation \<Rightarrow>
          apply_handoff_recorded x sid artifact structured epoch generation
      | SpecialistClosed sid epoch generation \<Rightarrow> apply_specialist_closed sid epoch generation
      | ArtifactRegistered artifact \<Rightarrow> apply_artifact_registered artifact
      | ResourceRegistered r \<Rightarrow> apply_resource_registered at r
      | ResourceReleaseBegun rid generation \<Rightarrow> apply_release_begun at rid generation
      | ResourceReleased rid generation \<Rightarrow> apply_resource_released at rid generation
      | TerminalRenamed rid title \<Rightarrow> apply_terminal_renamed rid title
      | TerminalCwdReported rid cwd \<Rightarrow> apply_cwd_reported at rid cwd
      | TerminalExited rid code summary \<Rightarrow> apply_terminal_exited at rid code summary
      | TerminalActivity rid \<Rightarrow> apply_terminal_activity at rid
      | TaskTerminalStripSet strip \<Rightarrow> apply_strip_set strip
      | ProviderInputAccepted p \<Rightarrow> apply_input_accepted at p
      | ProviderQuestionPresented aid kind ps generation turn epoch q \<Rightarrow>
          apply_question_presented aid kind ps generation turn epoch q
      | ProviderApprovalPresented aid kind ps generation turn epoch a \<Rightarrow>
          apply_approval_presented aid kind ps generation turn epoch a
      | ProviderWaitSettled fence \<Rightarrow> apply_wait_settled fence
      | ProviderInputDelivered p \<Rightarrow> apply_input_delivered p
      | _ \<Rightarrow> (\<lambda>s. Inl AePanic))"

definition apply_task_created ::
  "ext \<Rightarrow> task_snapshot option \<Rightarrow> domain_event \<Rightarrow> task_facts \<Rightarrow> task_connectivity \<Rightarrow> task_attention
     \<Rightarrow> task_activity \<Rightarrow> review_readiness \<Rightarrow> apply_error + task_snapshot" where
  "apply_task_created x snapshot ev task connectivity attention activity review =
     (if is_some snapshot then Inl AeSnapshotAlreadyExists
      else if de_task_id ev \<noteq> Some (tk_id task) then Inl AeTaskMismatch
      else if de_task_revision ev \<noteq> Some 1 \<or> tk_revision task \<noteq> 1 then Inl AeRevisionConflict
      else rbind (map_err (\<lambda>_. AeInvalidTransition) (validate_for_create (x_sha256 x) task)) (\<lambda>_.
        rbind (map_err apply_browser_error (open_task (tk_id task) book_new)) (\<lambda>b.
          Inr \<lparr> sn_task = task, sn_connectivity = connectivity, sn_attention = attention,
                sn_activity = activity, sn_review_readiness = review, sn_agents = bempty,
                sn_primary_agent_id = None, sn_artifacts = bempty, sn_resources = bempty,
                sn_provider_sessions = bempty, sn_browser = b, sn_terminal_facts = bempty,
                sn_terminal_strip = strip_default \<rparr>)))"

definition set_revision :: "u64 \<Rightarrow> task_snapshot \<Rightarrow> task_snapshot" where
  "set_revision n = upd_task (\<lambda>t. t \<lparr> tk_revision := n \<rparr>)"

definition apply_browser_event ::
  "ext \<Rightarrow> task_snapshot \<Rightarrow> domain_event \<Rightarrow> browser_durable_fact \<Rightarrow> apply_error + task_snapshot" where
  "apply_browser_event x s ev f =
     rbind (require_matching_task_id s ev) (\<lambda>_.
       if fact_task_id f \<noteq> tk_id (sn_task s) then Inl AeOwnershipConflict
       else rbind (require_next_revision s ev) (\<lambda>next_revision.
         rbind (map_err apply_browser_error (apply_facts (x_browser x) [f] (sn_browser s))) (\<lambda>b.
           Inr (set_revision next_revision (s \<lparr> sn_browser := b \<rparr>)))))"

definition apply_event :: "ext \<Rightarrow> task_snapshot option \<Rightarrow> domain_event \<Rightarrow> apply_error + task_snapshot" where
  "apply_event x snapshot ev =
     (let with_snap = rbind (ok_or snapshot AeMissingSnapshot);
          untouched = with_snap (\<lambda>s. rbind (require_matching_task_id s ev) (\<lambda>_. Inr s));
          unrevised = with_snap (\<lambda>s. rbind (require_matching_task_id s ev) (\<lambda>_.
            apply_into x (de_occurred_at_ms ev) (de_payload ev) s))
      in case de_payload ev of
           TaskCreated task connectivity attention activity review \<Rightarrow>
             apply_task_created x snapshot ev task connectivity attention activity review
         | Browser f \<Rightarrow> with_snap (\<lambda>s. apply_browser_event x s ev f)
         | OperationAccepted _ \<Rightarrow> untouched
         | HostCloseBegun _ _ _ \<Rightarrow> Inl AeInvalidTransition
         | HostCleanupBranchCompleted _ _ _ _ \<Rightarrow> Inl AeInvalidTransition
         | OperationSettled _ \<Rightarrow> untouched
         | OperationFailed _ \<Rightarrow> untouched
         | OperationCancelled _ \<Rightarrow> untouched
         | OperationUncertain _ \<Rightarrow> untouched
         | ProviderInputDelivered _ \<Rightarrow> unrevised
         | TerminalCwdReported _ _ \<Rightarrow> unrevised
         | TerminalExited _ _ _ \<Rightarrow> unrevised
         | TerminalActivity _ \<Rightarrow> unrevised
         | other \<Rightarrow>
             with_snap (\<lambda>s. rbind (require_matching_task_id s ev) (\<lambda>_.
               rbind (require_next_revision s ev) (\<lambda>next_revision.
               rbind (apply_into x (de_occurred_at_ms ev) other s) (\<lambda>s.
                 Inr (set_revision next_revision s))))))"

text \<open>
  \<open>apply_all\<close> numbers the payloads and draws an event identity for each; \<open>fresh n\<close> is the
  identity drawn for the payload at index \<open>n\<close>, which \<open>apply\<close> never reads.
\<close>

fun apply_all_loop ::
  "ext \<Rightarrow> (nat \<Rightarrow> event_id) \<Rightarrow> task_id option \<Rightarrow> nat \<Rightarrow> event list \<Rightarrow> task_snapshot option
     \<Rightarrow> apply_error + task_snapshot option" where
  "apply_all_loop x fresh task_id index [] snapshot = Inr snapshot"
| "apply_all_loop x fresh task_id index (payload # rest) snapshot =
     rbind (if is_task_mutation payload then
              (case snapshot of
                 Some s \<Rightarrow> rbind (ok_or (checked_add (tk_revision (sn_task s)) 1) AeInvalidTransition)
                             (\<lambda>r. Inr (Some r))
               | None \<Rightarrow> Inr (Some 1))
            else Inr None) (\<lambda>task_revision.
     rbind (apply_event x snapshot
              \<lparr> de_id = fresh index, de_task_id = task_id,
                de_sequence = (if index + 1 < 2 ^ 64 then of_nat (index + 1) else - 1),
                de_task_revision = task_revision, de_occurred_at_ms = 1, de_payload = payload \<rparr>) (\<lambda>s.
       apply_all_loop x fresh task_id (Suc index) rest (Some s)))"

definition apply_all ::
  "ext \<Rightarrow> (nat \<Rightarrow> event_id) \<Rightarrow> task_snapshot option \<Rightarrow> event list \<Rightarrow> apply_error + task_snapshot" where
  "apply_all x fresh snapshot events =
     rbind (apply_all_loop x fresh (map_option (\<lambda>s. tk_id (sn_task s)) snapshot) 0 events snapshot)
       (\<lambda>s. ok_or s AeMissingSnapshot)"
end
