(* ===== verification/Command.thy ===== *)
theory Command
  imports Apply
begin

text \<open>
  The commands of \<open>src/domain/command.rs\<close>: the rejection codes, the intents, the command
  enumeration and the envelope a client sends.  The commands that never reach the durable
  task journal (prompt library, service control, provider start, update handoff and
  request-shaped creation) carry a payload that \<open>decide\<close> never reads: the type parameter
  \<open>'h\<close>.
\<close>

section \<open>Rejections\<close>

datatype rejection_code =
    RcNotFound | RcAlreadyExists | RcRevisionConflict | RcInvalidTransition | RcOwnershipConflict
  | RcUnsupportedCapability | RcClosing | RcIdempotencyConflict | RcAlreadyResolved
  | RcTooManyTerminals

definition rejection_code_name :: "rejection_code \<Rightarrow> rstr" where
  "rejection_code_name c = lit
     (case c of
        RcNotFound \<Rightarrow> ''not_found''
      | RcAlreadyExists \<Rightarrow> ''already_exists''
      | RcRevisionConflict \<Rightarrow> ''revision_conflict''
      | RcInvalidTransition \<Rightarrow> ''invalid_transition''
      | RcOwnershipConflict \<Rightarrow> ''ownership_conflict''
      | RcUnsupportedCapability \<Rightarrow> ''unsupported_capability''
      | RcClosing \<Rightarrow> ''closing''
      | RcIdempotencyConflict \<Rightarrow> ''idempotency_conflict''
      | RcAlreadyResolved \<Rightarrow> ''already_resolved''
      | RcTooManyTerminals \<Rightarrow> ''too_many_terminals'')"

definition rejection_code_parse :: "rstr \<Rightarrow> rejection_code option" where
  "rejection_code_parse v =
     (if v = lit ''not_found'' then Some RcNotFound
      else if v = lit ''already_exists'' then Some RcAlreadyExists
      else if v = lit ''revision_conflict'' then Some RcRevisionConflict
      else if v = lit ''invalid_transition'' then Some RcInvalidTransition
      else if v = lit ''ownership_conflict'' then Some RcOwnershipConflict
      else if v = lit ''unsupported_capability'' then Some RcUnsupportedCapability
      else if v = lit ''closing'' then Some RcClosing
      else if v = lit ''idempotency_conflict'' then Some RcIdempotencyConflict
      else if v = lit ''already_resolved'' then Some RcAlreadyResolved
      else if v = lit ''too_many_terminals'' then Some RcTooManyTerminals
      else None)"

section \<open>Intents\<close>

record create_task_intent =
  ct_id :: task_id
  ct_environment_id :: environment_id
  ct_title :: rstr
  ct_description :: "rstr option"
  ct_project_id :: project_id
  ct_workspace :: workspace_ref
  ct_assignment :: task_assignment
  ct_created_at_ms :: int
  ct_connectivity :: task_connectivity
  ct_attention :: task_attention
  ct_activity :: task_activity
  ct_review_readiness :: review_readiness

record confirm_host_quit_intent =
  cq_inspection_id :: u64
  cq_allow_uninspected_worktrees :: bool

text \<open>
  The named-map visitor of \<open>ConfirmHostQuitIntent\<close>: every key is one of the two, once, and
  both are there.
\<close>

datatype confirm_host_quit_field = CqInspectionId u64 | CqAllowUninspectedWorktrees bool

datatype visit_error = DuplicateField rstr | MissingField rstr

fun confirm_host_quit_visit ::
  "u64 option \<Rightarrow> bool option \<Rightarrow> confirm_host_quit_field list \<Rightarrow> visit_error + confirm_host_quit_intent" where
  "confirm_host_quit_visit inspection allow [] =
     rbind (ok_or inspection (MissingField (lit ''inspection_id''))) (\<lambda>i.
     rbind (ok_or allow (MissingField (lit ''allow_uninspected_worktrees''))) (\<lambda>a.
       Inr \<lparr> cq_inspection_id = i, cq_allow_uninspected_worktrees = a \<rparr>))"
| "confirm_host_quit_visit inspection allow (CqInspectionId i # rest) =
     (if is_some inspection then Inl (DuplicateField (lit ''inspection_id''))
      else confirm_host_quit_visit (Some i) allow rest)"
| "confirm_host_quit_visit inspection allow (CqAllowUninspectedWorktrees a # rest) =
     (if is_some allow then Inl (DuplicateField (lit ''allow_uninspected_worktrees''))
      else confirm_host_quit_visit inspection (Some a) rest)"

definition confirm_host_quit_serialize :: "confirm_host_quit_intent \<Rightarrow> confirm_host_quit_field list" where
  "confirm_host_quit_serialize i =
     [CqInspectionId (cq_inspection_id i),
      CqAllowUninspectedWorktrees (cq_allow_uninspected_worktrees i)]"

record submit_provider_input_intent =
  si_agent_session_id :: agent_session_id
  si_runtime_generation :: u64
  si_turn_id :: turn_id
  si_action_epoch :: u64
  si_question_id :: "question_id option"
  si_approval_id :: "approval_id option"
  si_action :: provider_input_action

definition submit_intent_validate ::
  "submit_provider_input_intent \<Rightarrow> provider_input_intent_error + unit" where
  "submit_intent_validate i =
     validate_action_nested_ids (si_action i) (si_question_id i) (si_approval_id i)"

definition submit_intent_try_new ::
  "agent_session_id \<Rightarrow> u64 \<Rightarrow> turn_id \<Rightarrow> u64 \<Rightarrow> question_id option \<Rightarrow> approval_id option
     \<Rightarrow> provider_input_action \<Rightarrow> provider_input_intent_error + submit_provider_input_intent" where
  "submit_intent_try_new aid generation turn epoch q a action =
     rbind (validate_action_nested_ids action q a) (\<lambda>_.
       Inr \<lparr> si_agent_session_id = aid, si_runtime_generation = generation, si_turn_id = turn,
             si_action_epoch = epoch, si_question_id = q, si_approval_id = a, si_action = action \<rparr>)"

record request_specialist_intent =
  ri_specialist :: agent_session_facts
  ri_requested_by :: agent_session_id
  ri_purpose :: rstr
  ri_permission :: specialist_permission
  ri_workspace :: workspace_ref
  ri_expected_artifact_kind :: artifact_kind
  ri_expected_action_epoch :: u64
  ri_expected_runtime_generation :: u64
  ri_resource_id :: "resource_id option"
  ri_max_top_level_runtimes :: nat

definition request_specialist_validate_bounds ::
  "sha256_fn \<Rightarrow> request_specialist_intent \<Rightarrow> rejection_code + unit" where
  "request_specialist_validate_bounds sha i =
     (if bounded_canonical (ri_purpose i) = None then Inl RcInvalidTransition
      else if ag_id (ri_specialist i) = ri_requested_by i \<or> \<not> is_specialist (ri_specialist i)
      then Inl RcInvalidTransition
      else rbind (map_err (\<lambda>_. RcInvalidTransition) (validate_for_registration (ri_specialist i))) (\<lambda>_.
        rbind (map_err (\<lambda>_. RcInvalidTransition) (workspace_ref_validate sha (ri_workspace i))) (\<lambda>_.
          if ri_expected_artifact_kind i \<noteq> ReviewReport then Inl RcUnsupportedCapability
          else Inr ())))"

record specialist_target_intent =
  sp_agent_session_id :: agent_session_id
  sp_expected_action_epoch :: u64
  sp_expected_runtime_generation :: u64

text \<open>\<open>PromotePrimaryIntent\<close> and \<open>CancelSpecialistIntent\<close> have the same three fields.\<close>

type_synonym promote_primary_intent = specialist_target_intent
type_synonym cancel_specialist_intent = specialist_target_intent

record accept_handoff_intent =
  ah_specialist_id :: agent_session_id
  ah_artifact_id :: artifact_id
  ah_expected_action_epoch :: u64
  ah_expected_runtime_generation :: u64
  ah_structured :: "specialist_result option"
  ah_raw_inline_utf8 :: "rstr option"

record open_task_browser_intent =
  ob_agent_session_id :: agent_session_id
  ob_resource :: resource_facts
  ob_tab_id :: browser_tab_id
  ob_create_request_id :: browser_request_id
  ob_open_request_id :: browser_request_id

section \<open>Commands\<close>

datatype 'h command =
    CreateTask create_task_intent
  | CreateTaskV2 'h
  | RenameTask rstr
  | SetTaskAttention task_attention
  | SettleTask
  | BeginCloseTask
  | ReopenTask
  | DeleteTask
  | RegisterAgentSession agent_session_facts
  | BindProviderSession agent_session_id resource_id provider_session_id u64
  | AbandonProviderSession agent_session_id provider_session_id u64
  | SetPrimaryAgent agent_session_id
  | RebindUnstartedPrimaryProvider agent_session_id provider_kind
  | RegisterArtifact artifact_facts
  | RegisterResource resource_facts
  | ReleaseResource resource_id
  | ConfirmHostQuit confirm_host_quit_intent
  | SubmitProviderInput submit_provider_input_intent
  | PresentProviderQuestion present_provider_question_intent
  | PresentProviderApproval present_provider_approval_intent
  | SettleProviderWait settle_provider_wait_intent
  | RequestSpecialist request_specialist_intent
  | PromotePrimary promote_primary_intent
  | CancelSpecialist cancel_specialist_intent
  | AcceptSpecialistHandoff accept_handoff_intent
  | PromptLibrary 'h
  | PromptChain 'h
  | ServiceControl 'h
  | StartProviderSession 'h
  | CBrowser browser_request
  | OpenTaskBrowser open_task_browser_intent
  | PrepareUpdate 'h
  | ConfirmUpdateDrain 'h
  | AbortUpdateHandoff
  | ArmUpdateInstall 'h
  | OpenShellTerminal resource_facts
  | CloseTerminal resource_id
  | RenameTerminal resource_id rstr
  | SetTerminalStrip task_terminal_strip

record 'h command_envelope =
  ce_command_id :: command_id
  ce_client_id :: client_id
  ce_task_id :: "task_id option"
  ce_issued_at_ms :: int
  ce_expected_task_revision :: "u64 option"
  ce_command :: "'h command"

text \<open>
  \<open>command_payload_digest\<close>: a retry is the same command exactly when this digest agrees.
  The MessagePack encoder of \<open>rmp_serde\<close> is the parameter \<open>pack\<close>.
\<close>

record 'h digest_body =
  db_client_id :: client_id
  db_task_id :: "task_id option"
  db_expected_task_revision :: "u64 option"
  db_command :: "'h command"

definition command_payload_digest ::
  "sha256_fn \<Rightarrow> ('h digest_body \<Rightarrow> rstr + u8 list) \<Rightarrow> 'h command_envelope \<Rightarrow> rstr + u8 list" where
  "command_payload_digest sha pack e =
     rbind (pack \<lparr> db_client_id = ce_client_id e, db_task_id = ce_task_id e,
                   db_expected_task_revision = ce_expected_task_revision e,
                   db_command = ce_command e \<rparr>) (\<lambda>packed. Inr (sha packed))"

section \<open>Facts\<close>

lemma rejection_code_parse_name [simp]: "rejection_code_parse (rejection_code_name c) = Some c"
  by (cases c) (simp_all add: rejection_code_parse_def rejection_code_name_def)

lemma confirm_host_quit_roundtrip [simp]:
  "confirm_host_quit_visit None None (confirm_host_quit_serialize i) = Inr i"
  by (cases i) (simp add: confirm_host_quit_serialize_def)

lemma submit_intent_try_new_valid:
  "submit_intent_try_new aid generation turn epoch q a action = Inr i \<Longrightarrow> submit_intent_validate i = Inr ()"
  by (auto simp: submit_intent_try_new_def submit_intent_validate_def result_simps)

section \<open>Properties\<close>

text \<open>\<open>RejectionCode\<close> on the wire: a string decodes to a code exactly when it is the name
  that code is encoded as, so decoding inverts encoding and every other string is refused.\<close>

lemma rejection_code_wire:
  "rejection_code_parse v = Some c \<longleftrightarrow> v = rejection_code_name c"
  by (cases c) (auto simp: rejection_code_parse_def rejection_code_name_def)

lemma confirm_host_quit_visit_rest:
  "confirm_host_quit_visit (Some n) (Some a) fs = Inr i \<longleftrightarrow>
     fs = [] \<and> i = \<lparr> cq_inspection_id = n, cq_allow_uninspected_worktrees = a \<rparr>"
  "confirm_host_quit_visit (Some n) None fs = Inr i \<longleftrightarrow>
     (\<exists>a. fs = [CqAllowUninspectedWorktrees a] \<and> i = \<lparr> cq_inspection_id = n, cq_allow_uninspected_worktrees = a \<rparr>)"
  "confirm_host_quit_visit None (Some a) fs = Inr i \<longleftrightarrow>
     (\<exists>n. fs = [CqInspectionId n] \<and> i = \<lparr> cq_inspection_id = n, cq_allow_uninspected_worktrees = a \<rparr>)"
proof -
  show both: "confirm_host_quit_visit (Some n) (Some a) fs = Inr i \<longleftrightarrow>
     fs = [] \<and> i = \<lparr> cq_inspection_id = n, cq_allow_uninspected_worktrees = a \<rparr>" for n a fs
    by (cases fs; cases "hd fs") auto
  show "confirm_host_quit_visit (Some n) None fs = Inr i \<longleftrightarrow>
     (\<exists>a. fs = [CqAllowUninspectedWorktrees a] \<and> i = \<lparr> cq_inspection_id = n, cq_allow_uninspected_worktrees = a \<rparr>)"
    by (cases fs; cases "hd fs") (auto simp: both)
  show "confirm_host_quit_visit None (Some a) fs = Inr i \<longleftrightarrow>
     (\<exists>n. fs = [CqInspectionId n] \<and> i = \<lparr> cq_inspection_id = n, cq_allow_uninspected_worktrees = a \<rparr>)"
    by (cases fs; cases "hd fs") (auto simp: both)
qed

text \<open>The visitor of \<open>ConfirmHostQuitIntent\<close> accepts its two fields in either order, once each,
  and nothing else: a repeated or a lacking field is refused.  In particular it reads back what
  is written.\<close>

lemma confirm_host_quit_wire:
  "confirm_host_quit_visit None None fs = Inr i \<longleftrightarrow>
     fs = confirm_host_quit_serialize i \<or> fs = rev (confirm_host_quit_serialize i)"
  by (cases fs; cases "hd fs"; cases i) (auto simp: confirm_host_quit_visit_rest confirm_host_quit_serialize_def)
end
