(* ===== verification/Native_Browser.thy ===== *)
theory Native_Browser
  imports Command
begin

text \<open>
  \<open>src/domain/native_browser.rs\<close>: the projection of a task's native browser session, and the
  decision that opens one (a context, its first tab and the resource, in one step).
\<close>

record native_browser_session =
  nb_task_id :: task_id
  nb_agent_session_id :: agent_session_id
  nb_context_id :: browser_context_id
  nb_resource_id :: resource_id
  nb_generation :: u64
  nb_tab_id :: browser_tab_id
  nb_start_url :: rstr

definition live_browser_resources :: "task_snapshot \<Rightarrow> resource_facts list" where
  "live_browser_resources s =
     filter (\<lambda>r. rs_resource_kind r = KBrowserContext \<and> rs_lifecycle r \<noteq> RsReleased)
       (bvalues (sn_resources s))"

definition live_contexts :: "task_snapshot \<Rightarrow> browser_context_view list" where
  "live_contexts s =
     filter (\<lambda>v. \<not> cx_closed (cv_state v)) (is_contexts (identity_snapshot (sn_browser s)))"

definition selected_tab :: "task_snapshot \<Rightarrow> browser_context_view \<Rightarrow> browser_tab_view option" where
  "selected_tab s c =
     List.find (\<lambda>v. Some (tv_tab_id v) = cx_selected_tab_id (cv_state c)
                    \<and> tb_context_id (tv_state v) = cv_context_id c
                    \<and> tb_task_id (tv_state v) = tk_id (sn_task s)
                    \<and> \<not> tb_closed (tv_state v))
       (is_tabs (identity_snapshot (sn_browser s)))"

definition session_of ::
  "task_snapshot \<Rightarrow> resource_facts \<Rightarrow> browser_context_view
     \<Rightarrow> rejection_code + native_browser_session option" where
  "session_of s resource context =
     (case rs_recipe resource of
        RBrowser _ (Some context_id) \<Rightarrow>
          if rs_task_id resource \<noteq> Some (tk_id (sn_task s)) \<or> rs_owner_kind resource \<noteq> OwnerTask
             \<or> rs_lifecycle resource \<noteq> RsActive \<or> context_id \<noteq> cv_context_id context
             \<or> cx_task_id (cv_state context) \<noteq> tk_id (sn_task s)
             \<or> cx_generation (cv_state context) = 0
             \<or> rs_runtime_generation resource \<noteq> cx_generation (cv_state context)
          then Inl RcOwnershipConflict
          else rbind (ok_or (sn_primary_agent_id s) RcNotFound) (\<lambda>aid.
            rbind (ok_or (bget (sn_agents s) aid) RcNotFound) (\<lambda>agent.
              if ag_task_id agent \<noteq> tk_id (sn_task s) \<or> ag_lifecycle agent \<noteq> AgOpen
              then Inl RcInvalidTransition
              else rbind (ok_or (selected_tab s context) RcInvalidTransition) (\<lambda>tab.
                Inr (Some \<lparr> nb_task_id = tk_id (sn_task s), nb_agent_session_id = aid,
                            nb_context_id = cv_context_id context, nb_resource_id = rs_id resource,
                            nb_generation = cx_generation (cv_state context),
                            nb_tab_id = tv_tab_id tab,
                            nb_start_url = (case tb_committed_url (tv_state tab) of
                                Some url \<Rightarrow> url | None \<Rightarrow> lit ''about:blank'') \<rparr>))))
      | _ \<Rightarrow> Inl RcOwnershipConflict)"

definition native_from_snapshot :: "task_snapshot \<Rightarrow> rejection_code + native_browser_session option" where
  "native_from_snapshot s =
     (if \<not> (tk_lifecycle (sn_task s) = TlOpen \<or> tk_lifecycle (sn_task s) = TlSettled)
      then Inl RcInvalidTransition
      else let resources = live_browser_resources s; contexts = live_contexts s
      in if resources = [] \<and> contexts = [] then Inr None
         else case (resources, contexts) of
             ([resource], [context]) \<Rightarrow> session_of s resource context
           | _ \<Rightarrow> Inl RcOwnershipConflict)"

definition open_request ::
  "task_snapshot \<Rightarrow> browser_context_id \<Rightarrow> u64 \<Rightarrow> browser_request_id \<times> browser_tab_id option \<times> browser_action
     \<Rightarrow> browser_request" where
  "open_request s cid generation = (\<lambda>(request_id, tab_id, action).
     \<lparr> bq_request_id = request_id, bq_task_id = tk_id (sn_task s), bq_context_id = cid,
       bq_tab_id = tab_id, bq_generation = generation, bq_action = action \<rparr>)"

fun open_loop ::
  "browser_lib \<Rightarrow> command_id \<Rightarrow> u64 \<Rightarrow> browser_request list \<Rightarrow> browser_book \<Rightarrow> event list
     \<Rightarrow> rejection_code + event list" where
  "open_loop lib command epoch [] b events = Inr events"
| "open_loop lib command epoch (q # rest) b events =
     rbind (map_err (\<lambda>_. RcInvalidTransition) (plan_admit lib b q)) (\<lambda>accepted.
       let accepted = bind_command command epoch accepted
       in rbind (map_err (\<lambda>_. RcInvalidTransition) (apply_facts lib (bx_facts accepted) b)) (\<lambda>b.
            open_loop lib command epoch rest b (events @ map Browser (bx_facts accepted))))"

definition decide_open ::
  "browser_lib \<Rightarrow> task_snapshot \<Rightarrow> 'h command_envelope \<Rightarrow> open_task_browser_intent
     \<Rightarrow> rejection_code + event list" where
  "decide_open lib s envelope intent =
     rbind (native_from_snapshot s) (\<lambda>existing.
       if is_some existing then Inl RcAlreadyExists
       else rbind (ok_or (bget (sn_agents s) (ob_agent_session_id intent)) RcNotFound) (\<lambda>agent.
         if sn_primary_agent_id s \<noteq> Some (ob_agent_session_id intent)
            \<or> ag_task_id agent \<noteq> tk_id (sn_task s) \<or> ag_lifecycle agent \<noteq> AgOpen
         then Inl RcOwnershipConflict
         else let resource = ob_resource intent
         in case rs_recipe resource of
              RBrowser start_url (Some context_id) \<Rightarrow>
                if \<not> is_ok (resource_validate resource) \<or> rs_resource_kind resource \<noteq> KBrowserContext
                   \<or> rs_owner_kind resource \<noteq> OwnerTask
                   \<or> rs_task_id resource \<noteq> Some (tk_id (sn_task s))
                   \<or> rs_lifecycle resource \<noteq> RsActive \<or> rs_runtime_generation resource \<noteq> 1
                   \<or> start_url \<noteq> lit ''about:blank''
                   \<or> ob_create_request_id intent = ob_open_request_id intent
                then Inl RcOwnershipConflict
                else if bcontains (sn_resources s) (rs_id resource) then Inl RcAlreadyExists
                else rbind
                  (open_loop lib (ce_command_id envelope) (tk_action_epoch (sn_task s))
                    (map (open_request s context_id (rs_runtime_generation resource))
                      [(ob_create_request_id intent, None, BaCreateContext),
                       (ob_open_request_id intent, Some (ob_tab_id intent), BaOpenTab start_url TabPage)])
                    (sn_browser s) [])
                  (\<lambda>events. Inr (events @ [ResourceRegistered resource]))
            | _ \<Rightarrow> Inl RcInvalidTransition))"
end
