(* ===== verification/Decide.thy ===== *)
theory Decide
  imports Native_Browser
begin

text \<open>
  \<open>decide\<close> of \<open>src/domain/command.rs\<close>: which events a command produces on a snapshot, or the
  code it is rejected with.  Each arm of the match is one definition.  The operation
  identity that \<open>SubmitProviderInput\<close> draws is the argument \<open>fresh_op\<close>.
\<close>

section \<open>Guards\<close>

definition require_task :: "task_snapshot option \<Rightarrow> 'h command_envelope \<Rightarrow> rejection_code + task_snapshot" where
  "require_task snapshot envelope =
     (case snapshot of
        None \<Rightarrow> Inl RcNotFound
      | Some snap \<Rightarrow>
          (case ce_task_id envelope of
             None \<Rightarrow> Inl RcInvalidTransition
           | Some task_id \<Rightarrow> if tk_id (sn_task snap) \<noteq> task_id then Inl RcNotFound else Inr snap))"

definition require_expected_revision :: "task_snapshot \<Rightarrow> 'h command_envelope \<Rightarrow> rejection_code + unit" where
  "require_expected_revision s envelope =
     (case ce_expected_task_revision envelope of
        Some expected \<Rightarrow> if expected = tk_revision (sn_task s) then Inr () else Inl RcRevisionConflict
      | None \<Rightarrow> Inl RcRevisionConflict)"

definition require_open_or_closing_task ::
  "task_snapshot option \<Rightarrow> 'h command_envelope \<Rightarrow> rejection_code + task_snapshot" where
  "require_open_or_closing_task snapshot envelope =
     rbind (require_task snapshot envelope) (\<lambda>s.
       case tk_lifecycle (sn_task s) of
         TlOpen \<Rightarrow> Inr s
       | TlSettled \<Rightarrow> Inr s
       | TlClosing \<Rightarrow> Inr s
       | TlArchived \<Rightarrow> Inl RcInvalidTransition
       | TlDeleted \<Rightarrow> Inl RcInvalidTransition)"

definition require_runtime_capable_task ::
  "task_snapshot option \<Rightarrow> 'h command_envelope \<Rightarrow> rejection_code + task_snapshot" where
  "require_runtime_capable_task snapshot envelope =
     rbind (require_task snapshot envelope) (\<lambda>s.
       case tk_lifecycle (sn_task s) of
         TlOpen \<Rightarrow> Inr s
       | TlSettled \<Rightarrow> Inr s
       | TlClosing \<Rightarrow> Inl RcClosing
       | TlArchived \<Rightarrow> Inl RcInvalidTransition
       | TlDeleted \<Rightarrow> Inl RcInvalidTransition)"

definition require_open_agent :: "agent_session_facts \<Rightarrow> rejection_code + unit" where
  "require_open_agent a =
     (case ag_lifecycle a of
        AgOpen \<Rightarrow> Inr () | AgClosing \<Rightarrow> Inl RcInvalidTransition | AgClosed \<Rightarrow> Inl RcInvalidTransition)"

definition require_live_agent :: "agent_session_facts \<Rightarrow> rejection_code + unit" where
  "require_live_agent a =
     (case ag_lifecycle a of AgOpen \<Rightarrow> Inr () | AgClosing \<Rightarrow> Inr () | AgClosed \<Rightarrow> Inl RcInvalidTransition)"

definition require_orchestration_fences ::
  "task_snapshot \<Rightarrow> u64 \<Rightarrow> agent_session_facts \<Rightarrow> u64 \<Rightarrow> rejection_code + unit" where
  "require_orchestration_fences s epoch agent generation =
     (if tk_action_epoch (sn_task s) \<noteq> epoch \<or> ag_runtime_generation agent \<noteq> generation
      then Inl RcRevisionConflict else Inr ())"

text \<open>Every role is primary or specialist, so the count is that of the open agents.\<close>

definition top_level_runtime_count :: "task_snapshot \<Rightarrow> nat" where
  "top_level_runtime_count s =
     length (filter (\<lambda>a. ag_lifecycle a = AgOpen \<and> (ag_role a = Primary \<or> is_specialist a))
       (bvalues (sn_agents s)))"

definition is_plain_shell_terminal :: "resource_facts \<Rightarrow> bool" where
  "is_plain_shell_terminal r \<longleftrightarrow> rs_resource_kind r = KTerminal \<and> is_plain_shell (rs_recipe r)"

definition occupied_plain_shell_ids :: "task_snapshot \<Rightarrow> resource_id bset" where
  "occupied_plain_shell_ids s =
     fold bs_insert
       (map rs_id (filter (\<lambda>r. is_plain_shell_terminal r \<and> rs_lifecycle r \<noteq> RsReleased)
          (bvalues (sn_resources s)))) bempty"

definition require_task_plain_shell :: "task_snapshot \<Rightarrow> resource_id \<Rightarrow> rejection_code + resource_facts" where
  "require_task_plain_shell s rid =
     rbind (ok_or (bget (sn_resources s) rid) RcNotFound) (\<lambda>r.
       if rs_owner_kind r \<noteq> OwnerTask \<or> rs_task_id r \<noteq> Some (tk_id (sn_task s))
       then Inl RcOwnershipConflict
       else if \<not> is_plain_shell_terminal r then Inl RcInvalidTransition
       else if rs_lifecycle r = RsReleased then Inl RcNotFound
       else Inr r)"

text \<open>The two preambles that the task-scoped arms share.\<close>

definition with_runtime_task ::
  "task_snapshot option \<Rightarrow> 'h command_envelope \<Rightarrow> (task_snapshot \<Rightarrow> rejection_code + 'a) \<Rightarrow> rejection_code + 'a" where
  "with_runtime_task snapshot envelope k =
     rbind (require_runtime_capable_task snapshot envelope) (\<lambda>s.
     rbind (require_expected_revision s envelope) (\<lambda>_. k s))"

definition with_open_or_closing_task ::
  "task_snapshot option \<Rightarrow> 'h command_envelope \<Rightarrow> (task_snapshot \<Rightarrow> rejection_code + 'a) \<Rightarrow> rejection_code + 'a" where
  "with_open_or_closing_task snapshot envelope k =
     rbind (require_open_or_closing_task snapshot envelope) (\<lambda>s.
     rbind (require_expected_revision s envelope) (\<lambda>_. k s))"

definition with_task ::
  "task_snapshot option \<Rightarrow> 'h command_envelope \<Rightarrow> (task_snapshot \<Rightarrow> rejection_code + 'a) \<Rightarrow> rejection_code + 'a" where
  "with_task snapshot envelope k =
     rbind (require_task snapshot envelope) (\<lambda>s.
     rbind (require_expected_revision s envelope) (\<lambda>_. k s))"

section \<open>Lifecycle arms\<close>

definition decide_create_task ::
  "sha256_fn \<Rightarrow> task_snapshot option \<Rightarrow> 'h command_envelope \<Rightarrow> create_task_intent
     \<Rightarrow> rejection_code + event list" where
  "decide_create_task sha snapshot envelope intent =
     (if is_some snapshot then Inl RcAlreadyExists
      else if is_some (ce_task_id envelope) then Inl RcInvalidTransition
      else if is_some (ce_expected_task_revision envelope) then Inl RcRevisionConflict
      else if trim (ct_title intent) = [] then Inl RcInvalidTransition
      else rbind (case ct_description intent of
                    Some value \<Rightarrow> if trim value = [] then Inl RcInvalidTransition
                                  else Inr (Some (trim value))
                  | None \<Rightarrow> Inr None) (\<lambda>description.
        let task = \<lparr> tk_id = ct_id intent, tk_environment_id = ct_environment_id intent,
                     tk_title = trim (ct_title intent), tk_description = description,
                     tk_project_id = ct_project_id intent, tk_workspace = ct_workspace intent,
                     tk_assignment = ct_assignment intent, tk_lifecycle = TlOpen,
                     tk_action_epoch = 0, tk_revision = 1,
                     tk_created_at_ms = ct_created_at_ms intent \<rparr>
        in rbind (map_err (\<lambda>_. RcInvalidTransition) (validate_for_create sha task)) (\<lambda>_.
             Inr [TaskCreated task (ct_connectivity intent) (ct_attention intent)
                    (ct_activity intent) (ct_review_readiness intent)])))"

definition decide_rename_task :: "rstr \<Rightarrow> task_snapshot \<Rightarrow> rejection_code + event list" where
  "decide_rename_task title s =
     (if trim title = [] then Inl RcInvalidTransition
      else rbind (map_err (\<lambda>_. RcInvalidTransition) (canonicalize_title title)) (\<lambda>title.
        Inr [TaskRenamed title]))"

definition decide_settle_task :: "task_snapshot \<Rightarrow> rejection_code + event list" where
  "decide_settle_task s =
     (case tk_lifecycle (sn_task s) of
        TlOpen \<Rightarrow> Inr [TaskSettled]
      | TlSettled \<Rightarrow> Inr []
      | TlClosing \<Rightarrow> Inl RcClosing
      | TlArchived \<Rightarrow> Inl RcInvalidTransition
      | TlDeleted \<Rightarrow> Inl RcInvalidTransition)"

definition decide_begin_close :: "task_snapshot \<Rightarrow> rejection_code + event list" where
  "decide_begin_close s =
     (let begin_close = rbind (ok_or (checked_add (tk_action_epoch (sn_task s)) 1) RcInvalidTransition)
            (\<lambda>epoch. Inr [TaskCloseBegun epoch])
      in case tk_lifecycle (sn_task s) of
           TlClosing \<Rightarrow> Inr []
         | TlArchived \<Rightarrow> Inl RcInvalidTransition
         | TlDeleted \<Rightarrow> Inl RcInvalidTransition
         | TlOpen \<Rightarrow> begin_close
         | TlSettled \<Rightarrow> begin_close)"

definition decide_reopen_task :: "task_snapshot \<Rightarrow> rejection_code + event list" where
  "decide_reopen_task s =
     (case tk_lifecycle (sn_task s) of
        TlSettled \<Rightarrow> Inr [TaskReopened]
      | TlClosing \<Rightarrow> Inr [TaskReopened]
      | TlArchived \<Rightarrow> Inr [TaskReopened]
      | TlOpen \<Rightarrow> Inl RcInvalidTransition
      | TlDeleted \<Rightarrow> Inl RcInvalidTransition)"

definition decide_delete_task :: "task_snapshot \<Rightarrow> rejection_code + event list" where
  "decide_delete_task s =
     (case tk_lifecycle (sn_task s) of
        TlArchived \<Rightarrow> Inr [TaskDeleted]
      | _ \<Rightarrow> Inl RcInvalidTransition)"

section \<open>Agent arms\<close>

definition decide_register_agent :: "agent_session_facts \<Rightarrow> task_snapshot \<Rightarrow> rejection_code + event list" where
  "decide_register_agent a s =
     (if ag_task_id a \<noteq> tk_id (sn_task s) then Inl RcOwnershipConflict
      else if \<not> is_ok (validate_for_registration a) then Inl RcInvalidTransition
      else if bcontains (sn_agents s) (ag_id a) then Inl RcAlreadyExists
      else if is_specialist a then Inl RcInvalidTransition
      else if ag_role a = Primary
              \<and> list_ex (\<lambda>existing. ag_role existing = Primary) (bvalues (sn_agents s))
      then Inl RcAlreadyExists
      else Inr [AgentSessionRegistered a])"

definition decide_bind_provider ::
  "agent_session_id \<Rightarrow> resource_id \<Rightarrow> provider_session_id \<Rightarrow> u64 \<Rightarrow> task_snapshot
     \<Rightarrow> rejection_code + event list" where
  "decide_bind_provider aid rid ps generation s =
     rbind (ok_or (bget (sn_agents s) aid) RcNotFound) (\<lambda>agent.
     rbind (require_open_agent agent) (\<lambda>_.
       if ag_runtime_generation agent \<noteq> generation then Inl RcInvalidTransition
       else rbind (ok_or (bget (sn_resources s) rid) RcNotFound) (\<lambda>resource.
         rbind (map_err (\<lambda>_. RcInvalidTransition) (binding_from_facts agent resource)) (\<lambda>binding.
           if ab_resource_id binding \<noteq> rid \<or> ab_runtime_generation binding \<noteq> generation
           then Inl RcInvalidTransition
           else case ag_provider_session_id agent of
               Some bound \<Rightarrow> if bound = ps then Inl RcAlreadyExists else Inl RcOwnershipConflict
             | None \<Rightarrow> Inr [AgentProviderSessionBound aid rid ps generation]))))"

definition decide_abandon_provider ::
  "agent_session_id \<Rightarrow> provider_session_id \<Rightarrow> u64 \<Rightarrow> task_snapshot \<Rightarrow> rejection_code + event list" where
  "decide_abandon_provider aid ps generation s =
     rbind (ok_or (bget (sn_agents s) aid) RcNotFound) (\<lambda>agent.
     rbind (require_open_agent agent) (\<lambda>_.
       if ag_runtime_generation agent \<noteq> generation then Inl RcInvalidTransition
       else case ag_provider_session_id agent of
           Some bound \<Rightarrow>
             if bound = ps then Inr [AgentProviderSessionAbandoned aid ps generation]
             else Inl RcOwnershipConflict
         | None \<Rightarrow> Inl RcAlreadyResolved))"

definition decide_set_primary :: "agent_session_id \<Rightarrow> task_snapshot \<Rightarrow> rejection_code + event list" where
  "decide_set_primary aid s =
     (case bget (sn_agents s) aid of
        None \<Rightarrow> Inl RcNotFound
      | Some agent \<Rightarrow>
          if ag_role agent \<noteq> Primary then Inl RcInvalidTransition else Inr [PrimaryAgentSet aid])"

definition decide_rebind_unstarted ::
  "agent_session_id \<Rightarrow> provider_kind \<Rightarrow> task_snapshot \<Rightarrow> rejection_code + event list" where
  "decide_rebind_unstarted aid kind s =
     (if \<not> is_unstarted_draft s then Inl RcInvalidTransition
      else if sn_primary_agent_id s \<noteq> Some aid then Inl RcOwnershipConflict
      else case bget (sn_agents s) aid of
          None \<Rightarrow> Inl RcNotFound
        | Some agent \<Rightarrow>
            if ag_role agent \<noteq> Primary \<or> ag_lifecycle agent \<noteq> AgOpen
               \<or> is_some (ag_provider_session_id agent)
            then Inl RcInvalidTransition
            else if ag_provider_kind agent = kind then Inr []
            else Inr [UnstartedPrimaryProviderRebound aid kind])"

section \<open>Artifact and resource arms\<close>

definition decide_register_artifact :: "artifact_facts \<Rightarrow> task_snapshot \<Rightarrow> rejection_code + event list" where
  "decide_register_artifact artifact s =
     (if ar_task_id artifact \<noteq> tk_id (sn_task s) then Inl RcOwnershipConflict
      else if \<not> is_ok (artifact_validate artifact) then Inl RcInvalidTransition
      else if bcontains (sn_artifacts s) (ar_id artifact) then Inl RcAlreadyExists
      else Inr [ArtifactRegistered artifact])"

definition decide_register_resource :: "resource_facts \<Rightarrow> task_snapshot \<Rightarrow> rejection_code + event list" where
  "decide_register_resource r s =
     (if rs_owner_kind r \<noteq> OwnerTask then Inl RcOwnershipConflict
      else if rs_task_id r \<noteq> Some (tk_id (sn_task s)) then Inl RcOwnershipConflict
      else if \<not> is_ok (resource_validate r) then Inl RcInvalidTransition
      else if rs_lifecycle r \<noteq> RsActive then Inl RcInvalidTransition
      else if bcontains (sn_resources s) (rs_id r) then Inl RcAlreadyExists
      else Inr [ResourceRegistered r])"

definition decide_release_resource :: "resource_id \<Rightarrow> task_snapshot \<Rightarrow> rejection_code + event list" where
  "decide_release_resource rid s =
     (case bget (sn_resources s) rid of
        None \<Rightarrow> Inl RcNotFound
      | Some existing \<Rightarrow>
          if rs_owner_kind existing \<noteq> OwnerTask \<or> rs_task_id existing \<noteq> Some (tk_id (sn_task s))
          then Inl RcOwnershipConflict
          else case rs_lifecycle existing of
              RsActive \<Rightarrow> Inr [ResourceReleaseBegun rid (rs_runtime_generation existing)]
            | RsReleasing \<Rightarrow> Inr []
            | RsReleased \<Rightarrow> Inl RcInvalidTransition)"

definition decide_open_shell_terminal :: "resource_facts \<Rightarrow> task_snapshot \<Rightarrow> rejection_code + event list" where
  "decide_open_shell_terminal r s =
     rbind (map_err (\<lambda>_. RcInvalidTransition) (resource_validate_for_registration r)) (\<lambda>_.
       if rs_owner_kind r \<noteq> OwnerTask \<or> rs_task_id r \<noteq> Some (tk_id (sn_task s))
       then Inl RcOwnershipConflict
       else if \<not> is_plain_shell_terminal r then Inl RcInvalidTransition
       else if bcontains (sn_resources s) (rs_id r) then Inl RcAlreadyExists
       else if blen (occupied_plain_shell_ids s) \<ge> MAX_PLAIN_SHELLS_PER_TASK
       then Inl RcTooManyTerminals
       else Inr [ResourceRegistered r])"

definition decide_close_terminal :: "resource_id \<Rightarrow> task_snapshot \<Rightarrow> rejection_code + event list" where
  "decide_close_terminal rid s =
     rbind (require_task_plain_shell s rid) (\<lambda>r.
       if rs_lifecycle r \<noteq> RsActive then Inl RcInvalidTransition
       else Inr [ResourceReleaseBegun rid (rs_runtime_generation r)])"

definition decide_rename_terminal ::
  "resource_id \<Rightarrow> rstr \<Rightarrow> task_snapshot \<Rightarrow> rejection_code + event list" where
  "decide_rename_terminal rid title s =
     rbind (require_task_plain_shell s rid) (\<lambda>_.
       let trimmed = trim title
       in rbind (map_err (\<lambda>_. RcInvalidTransition) (validate_terminal_title trimmed)) (\<lambda>_.
            Inr [TerminalRenamed rid trimmed]))"

definition strip_rejection :: "terminal_strip_error \<Rightarrow> rejection_code" where
  "strip_rejection e =
     (case e of
        StripTooManyTerminals _ \<Rightarrow> RcTooManyTerminals
      | StripForeignTask _ \<Rightarrow> RcNotFound
      | StripDuplicate _ \<Rightarrow> RcInvalidTransition
      | StripFocusedNotInOrder _ \<Rightarrow> RcInvalidTransition
      | StripNotATerminal _ \<Rightarrow> RcInvalidTransition)"

definition decide_set_strip :: "task_terminal_strip \<Rightarrow> task_snapshot \<Rightarrow> rejection_code + event list" where
  "decide_set_strip strip s =
     rbind (map_err strip_rejection (strip_validate (tk_id (sn_task s)) (sn_resources s) strip)) (\<lambda>_.
       if fold bs_insert (ts_order strip) bempty \<noteq> occupied_plain_shell_ids s
       then Inl RcInvalidTransition
       else Inr [TaskTerminalStripSet strip])"

section \<open>Browser arm\<close>

definition browser_rejection :: "browser_contract_error \<Rightarrow> rejection_code" where
  "browser_rejection e = (case e of BeCrossTask \<Rightarrow> RcOwnershipConflict | _ \<Rightarrow> RcInvalidTransition)"

definition decide_browser ::
  "browser_lib \<Rightarrow> command_id \<Rightarrow> browser_request \<Rightarrow> task_snapshot \<Rightarrow> rejection_code + event list" where
  "decide_browser lib command q s =
     (if bq_task_id q \<noteq> tk_id (sn_task s) then Inl RcOwnershipConflict
      else rbind (map_err browser_rejection (plan_admit lib (sn_browser s) q)) (\<lambda>accepted.
        Inr (map Browser (bx_facts (bind_command command (tk_action_epoch (sn_task s)) accepted)))))"

section \<open>Provider arms\<close>

definition input_provider_session ::
  "agent_session_facts \<Rightarrow> rejection_code + provider_session_id option" where
  "input_provider_session agent =
     (case (ag_provider_kind agent, ag_provider_session_id agent) of
        (_, Some ps) \<Rightarrow> Inr (Some ps)
      | (Codex, None) \<Rightarrow> Inr None
      | _ \<Rightarrow> Inl RcUnsupportedCapability)"

definition check_input_turn ::
  "provider_input_action \<Rightarrow> turn_id \<Rightarrow> provider_session_projection \<Rightarrow> rejection_code + unit" where
  "check_input_turn action turn session =
     (let on_turn = (if pp_current_turn session \<noteq> Some turn then Inl RcInvalidTransition else Inr ())
      in case action of
           SendNow _ _ _ \<Rightarrow>
             if \<not> can_begin_send_now_turn session turn then Inl RcInvalidTransition else Inr ()
         | SteerCurrentTurn _ \<Rightarrow> on_turn
         | QueueFollowUp _ \<Rightarrow> on_turn
         | StopTurn \<Rightarrow> on_turn
         | TerminalInput _ \<Rightarrow>
             (case pp_current_turn session of
                None \<Rightarrow> Inr ()
              | Some current \<Rightarrow> if current \<noteq> turn then Inl RcInvalidTransition else Inr ())
         | AnswerQuestion q _ \<Rightarrow>
             if bcontains (pp_question_winners session) q then Inl RcAlreadyResolved
             else if pp_open_question session \<noteq> Some q then Inl RcInvalidTransition
             else on_turn
         | ResolveApproval a _ \<Rightarrow>
             if bcontains (pp_approval_winners session) a then Inl RcAlreadyResolved
             else if pp_open_approval session \<noteq> Some a then Inl RcInvalidTransition
             else on_turn)"

definition decide_submit_provider_input ::
  "operation_id \<Rightarrow> command_id \<Rightarrow> client_id \<Rightarrow> submit_provider_input_intent \<Rightarrow> task_snapshot
     \<Rightarrow> rejection_code + event list" where
  "decide_submit_provider_input fresh_op command client i s =
     rbind (map_err (\<lambda>_. RcInvalidTransition) (submit_intent_validate i)) (\<lambda>_.
     rbind (ok_or (bget (sn_agents s) (si_agent_session_id i)) RcNotFound) (\<lambda>agent.
       if ag_task_id agent \<noteq> tk_id (sn_task s) then Inl RcOwnershipConflict
       else rbind (require_open_agent agent) (\<lambda>_.
         rbind (input_provider_session agent) (\<lambda>ps.
           if ag_runtime_generation agent \<noteq> si_runtime_generation i then Inl RcInvalidTransition
           else if tk_action_epoch (sn_task s) \<noteq> si_action_epoch i then Inl RcInvalidTransition
           else let session = session_or_default (si_agent_session_id i) s
           in rbind (check_input_turn (si_action i) (si_turn_id i) session) (\<lambda>_.
                if waits_for_turn (si_action i) \<and> \<not> bcontains (pp_waits session) command
                   \<and> pending_waits session \<ge> MAX_PROVIDER_WAITS
                then Inl RcInvalidTransition
                else Inr [ProviderInputAccepted
                  \<lparr> pia_command_id = command, pia_client_id = client, pia_operation_id = fresh_op,
                    pia_agent_session_id = si_agent_session_id i,
                    pia_provider_kind = ag_provider_kind agent, pia_provider_session_id = ps,
                    pia_runtime_generation = si_runtime_generation i, pia_turn_id = si_turn_id i,
                    pia_action_epoch = si_action_epoch i, pia_question_id = si_question_id i,
                    pia_approval_id = si_approval_id i, pia_action = si_action i,
                    pia_wait = waits_for_turn (si_action i),
                    pia_delivery = Hold DestinationAdapterNotWired \<rparr>])))))"

text \<open>The guards that presenting a question and presenting an approval share.\<close>

definition presenting_agent ::
  "agent_session_id \<Rightarrow> u64 \<Rightarrow> turn_id \<Rightarrow> u64 \<Rightarrow> task_snapshot
     \<Rightarrow> rejection_code + agent_session_facts \<times> provider_session_id" where
  "presenting_agent aid generation turn epoch s =
     rbind (ok_or (bget (sn_agents s) aid) RcNotFound) (\<lambda>agent.
     rbind (require_open_agent agent) (\<lambda>_.
     rbind (ok_or (ag_provider_session_id agent) RcUnsupportedCapability) (\<lambda>ps.
       if ag_runtime_generation agent \<noteq> generation \<or> tk_action_epoch (sn_task s) \<noteq> epoch
       then Inl RcInvalidTransition
       else case pp_current_turn (session_or_default aid s) of
           Some current \<Rightarrow> if current \<noteq> turn then Inl RcInvalidTransition else Inr (agent, ps)
         | None \<Rightarrow> Inr (agent, ps))))"

definition decide_present_question ::
  "present_provider_question_intent \<Rightarrow> task_snapshot \<Rightarrow> rejection_code + event list" where
  "decide_present_question i s =
     rbind (presenting_agent (pq_agent_session_id i) (pq_runtime_generation i) (pq_turn_id i)
              (pq_action_epoch i) s) (\<lambda>(agent, ps).
       let session = session_or_default (pq_agent_session_id i) s
       in if bcontains (pp_question_winners session) (pq_question_id i) then Inl RcAlreadyResolved
          else case pp_open_question session of
              Some current \<Rightarrow>
                if current \<noteq> pq_question_id i then Inl RcInvalidTransition else Inl RcAlreadyExists
            | None \<Rightarrow>
                Inr [ProviderQuestionPresented (pq_agent_session_id i) (ag_provider_kind agent) ps
                       (pq_runtime_generation i) (pq_turn_id i) (pq_action_epoch i) (pq_question_id i)])"

definition decide_present_approval ::
  "present_provider_approval_intent \<Rightarrow> task_snapshot \<Rightarrow> rejection_code + event list" where
  "decide_present_approval i s =
     rbind (presenting_agent (pa_agent_session_id i) (pa_runtime_generation i) (pa_turn_id i)
              (pa_action_epoch i) s) (\<lambda>(agent, ps).
       let session = session_or_default (pa_agent_session_id i) s
       in if bcontains (pp_approval_winners session) (pa_approval_id i) then Inl RcAlreadyResolved
          else case pp_open_approval session of
              Some current \<Rightarrow>
                if current \<noteq> pa_approval_id i then Inl RcInvalidTransition else Inl RcAlreadyExists
            | None \<Rightarrow>
                Inr [ProviderApprovalPresented (pa_agent_session_id i) (ag_provider_kind agent) ps
                       (pa_runtime_generation i) (pa_turn_id i) (pa_action_epoch i) (pa_approval_id i)])"

definition decide_settle_wait ::
  "settle_provider_wait_intent \<Rightarrow> task_snapshot \<Rightarrow> rejection_code + event list" where
  "decide_settle_wait i s =
     (let fence = sw_fence i in
      if pf_task_id fence \<noteq> tk_id (sn_task s) then Inl RcOwnershipConflict
      else rbind (map_err (\<lambda>_. RcInvalidTransition)
                   (validate_provider_fence (wait_fence_identity fence) None None None)) (\<lambda>_.
        rbind (ok_or (bget (sn_provider_sessions s) (pf_agent_session_id fence)) RcNotFound) (\<lambda>session.
        rbind (ok_or (bget (pp_waits session) (pf_command_id fence)) RcNotFound) (\<lambda>record.
          if wr_fence record \<noteq> fence then Inl RcInvalidTransition
          else rbind (ok_or (bget (sn_agents s) (pf_agent_session_id fence)) RcNotFound) (\<lambda>agent.
            rbind (require_live_agent agent) (\<lambda>_.
              if ag_runtime_generation agent \<noteq> pf_runtime_generation fence then Inl RcInvalidTransition
              else if tk_action_epoch (sn_task s) \<noteq> pf_action_epoch fence then Inl RcInvalidTransition
              else if \<not> wr_pending record then Inl RcAlreadyExists
              else Inr [ProviderWaitSettled fence]))))))"

section \<open>Orchestration arms\<close>

definition is_worktree :: "workspace_ref \<Rightarrow> bool" where
  "is_worktree w = (case w of WsWorktree _ _ \<Rightarrow> True | _ \<Rightarrow> False)"

definition specialist_workspace_check ::
  "request_specialist_intent \<Rightarrow> task_snapshot \<Rightarrow> rejection_code + unit" where
  "specialist_workspace_check i s =
     (case ri_permission i of
        ReadOnly \<Rightarrow>
          if ri_workspace i \<noteq> tk_workspace (sn_task s) then Inl RcOwnershipConflict else Inr ()
      | IsolatedWrite \<Rightarrow>
          if \<not> is_worktree (tk_workspace (sn_task s)) \<or> ri_workspace i \<noteq> tk_workspace (sn_task s)
          then Inl RcInvalidTransition else Inl RcUnsupportedCapability
      | SharedWrite True \<Rightarrow> Inl RcUnsupportedCapability
      | SharedWrite False \<Rightarrow> Inl RcInvalidTransition)"

definition specialist_resource_check ::
  "request_specialist_intent \<Rightarrow> task_snapshot \<Rightarrow> rejection_code + unit" where
  "specialist_resource_check i s =
     (case ri_resource_id i of
        None \<Rightarrow> Inr ()
      | Some rid \<Rightarrow>
          rbind (ok_or (bget (sn_resources s) rid) RcNotFound) (\<lambda>resource.
            if rs_task_id resource \<noteq> Some (tk_id (sn_task s)) then Inl RcOwnershipConflict
            else if rs_runtime_generation resource \<noteq> ri_expected_runtime_generation i
            then Inl RcRevisionConflict else Inr ()))"

definition decide_request_specialist ::
  "sha256_fn \<Rightarrow> request_specialist_intent \<Rightarrow> task_snapshot \<Rightarrow> rejection_code + event list" where
  "decide_request_specialist sha i s =
     rbind (request_specialist_validate_bounds sha i) (\<lambda>_.
     rbind (ok_or (bget (sn_agents s) (ri_requested_by i)) RcNotFound) (\<lambda>requester.
     rbind (require_orchestration_fences s (ri_expected_action_epoch i) requester
              (ri_expected_runtime_generation i)) (\<lambda>_.
       if ag_role requester \<noteq> Primary \<or> sn_primary_agent_id s \<noteq> Some (ri_requested_by i)
       then Inl RcOwnershipConflict
       else if ag_task_id (ri_specialist i) \<noteq> tk_id (sn_task s)
               \<or> ag_id (ri_specialist i) = ri_requested_by i
       then Inl RcOwnershipConflict
       else rbind (ok_or (bounded_canonical (ri_purpose i)) RcInvalidTransition) (\<lambda>purpose.
         rbind (map_err (\<lambda>_. RcInvalidTransition) (workspace_ref_validate sha (ri_workspace i))) (\<lambda>_.
           if ri_expected_artifact_kind i \<noteq> ReviewReport then Inl RcUnsupportedCapability
           else if \<not> is_ok (validate_for_registration (ri_specialist i))
                   \<or> ag_runtime_generation (ri_specialist i) \<noteq> ri_expected_runtime_generation i
           then Inl RcInvalidTransition
           else if bcontains (sn_agents s) (ag_id (ri_specialist i)) then Inl RcAlreadyExists
           else rbind (specialist_workspace_check i s) (\<lambda>_.
             rbind (specialist_resource_check i s) (\<lambda>_.
               let requested_cap = min (ri_max_top_level_runtimes i) DEFAULT_MAX_TOP_LEVEL_RUNTIMES
               in if requested_cap = 0 \<or> top_level_runtime_count s + 1 > requested_cap
                  then Inl RcInvalidTransition
                  else Inr [SpecialistRequested
                    \<lparr> sq_specialist_id = ag_id (ri_specialist i), sq_requested_by = ri_requested_by i,
                      sq_purpose = purpose, sq_agent = ri_specialist i,
                      sq_permission = ri_permission i, sq_workspace = ri_workspace i,
                      sq_action_epoch = ri_expected_action_epoch i,
                      sq_runtime_generation = ri_expected_runtime_generation i,
                      sq_resource_id = ri_resource_id i \<rparr>])))))))"

definition decide_promote_primary ::
  "promote_primary_intent \<Rightarrow> task_snapshot \<Rightarrow> rejection_code + event list" where
  "decide_promote_primary i s =
     rbind (ok_or (bget (sn_agents s) (sp_agent_session_id i)) RcNotFound) (\<lambda>candidate.
     rbind (require_orchestration_fences s (sp_expected_action_epoch i) candidate
              (sp_expected_runtime_generation i)) (\<lambda>_.
     rbind (ok_or (sn_primary_agent_id s) RcNotFound) (\<lambda>previous.
     rbind (ok_or (bget (sn_agents s) previous) RcNotFound) (\<lambda>previous_agent.
       if \<not> is_specialist candidate \<or> ag_lifecycle candidate \<noteq> AgOpen
          \<or> ag_role previous_agent \<noteq> Primary \<or> ag_lifecycle previous_agent \<noteq> AgOpen
          \<or> ag_runtime_generation previous_agent \<noteq> sp_expected_runtime_generation i
       then Inl RcInvalidTransition
       else Inr [PrimaryPromoted previous (sp_agent_session_id i) (sp_expected_action_epoch i)
                   (sp_expected_runtime_generation i)]))))"

definition decide_cancel_specialist ::
  "cancel_specialist_intent \<Rightarrow> task_snapshot \<Rightarrow> rejection_code + event list" where
  "decide_cancel_specialist i s =
     rbind (ok_or (bget (sn_agents s) (sp_agent_session_id i)) RcNotFound) (\<lambda>specialist.
     rbind (require_orchestration_fences s (sp_expected_action_epoch i) specialist
              (sp_expected_runtime_generation i)) (\<lambda>_.
       if \<not> is_specialist specialist \<or> ag_lifecycle specialist \<noteq> AgOpen
       then Inl RcInvalidTransition
       else Inr [SpecialistClosed (sp_agent_session_id i) (sp_expected_action_epoch i)
                   (sp_expected_runtime_generation i)]))"

definition raw_out_of_bounds :: "rstr \<Rightarrow> bool" where
  "raw_out_of_bounds raw \<longleftrightarrow> raw = [] \<or> str_len raw > MAX_SPECIALIST_RAW_ARTIFACT_BYTES"

definition handoff_body :: "sha256_fn \<Rightarrow> accept_handoff_intent \<Rightarrow> rejection_code + rstr \<times> bool" where
  "handoff_body sha i =
     (if (case ah_structured i of Some r \<Rightarrow> is_ok (specialist_result_validate sha r) | None \<Rightarrow> False)
      then Inl RcUnsupportedCapability
      else case ah_raw_inline_utf8 i of
          Some raw \<Rightarrow> if raw_out_of_bounds raw then Inl RcInvalidTransition else Inr (raw, False)
        | None \<Rightarrow> Inl RcInvalidTransition)"

definition decide_accept_handoff ::
  "sha256_fn \<Rightarrow> int \<Rightarrow> accept_handoff_intent \<Rightarrow> task_snapshot \<Rightarrow> rejection_code + event list" where
  "decide_accept_handoff sha issued_at_ms i s =
     rbind (ok_or (bget (sn_agents s) (ah_specialist_id i)) RcNotFound) (\<lambda>specialist.
     rbind (require_orchestration_fences s (ah_expected_action_epoch i) specialist
              (ah_expected_runtime_generation i)) (\<lambda>_.
       if \<not> is_specialist specialist \<or> ag_lifecycle specialist \<noteq> AgOpen then Inl RcInvalidTransition
       else if bcontains (sn_artifacts s) (ah_artifact_id i) then Inl RcAlreadyExists
       else if (case ah_raw_inline_utf8 i of Some raw \<Rightarrow> raw_out_of_bounds raw | None \<Rightarrow> False)
       then Inl RcInvalidTransition
       else rbind (handoff_body sha i) (\<lambda>(body, structured).
         rbind (map_err (\<lambda>_. RcInvalidTransition) (canonicalize_label
                  (if structured then lit ''specialist-handoff-structured''
                   else lit ''specialist-handoff-raw''))) (\<lambda>label.
         rbind (map_err (\<lambda>_. RcInvalidTransition) (content_inline_utf8 body)) (\<lambda>content.
           let artifact = \<lparr> ar_id = ah_artifact_id i, ar_task_id = tk_id (sn_task s),
                            ar_kind = ReviewReport, ar_label = label, ar_content_ref = content,
                            ar_sha256 = sha (str_bytes body), ar_privacy_class = LocalOnly,
                            ar_created_at_ms = issued_at_ms \<rparr>
           in rbind (map_err (\<lambda>_. RcInvalidTransition) (artifact_validate artifact)) (\<lambda>_.
              rbind (map_err (\<lambda>_. RcInvalidTransition) (verify_inline_content_digest sha artifact)) (\<lambda>_.
                Inr [SpecialistHandoffRecorded (ah_specialist_id i) artifact structured
                       (ah_expected_action_epoch i) (ah_expected_runtime_generation i)])))))))"

section \<open>Dispatch\<close>

definition decide ::
  "ext \<Rightarrow> operation_id \<Rightarrow> task_snapshot option \<Rightarrow> 'h command_envelope \<Rightarrow> rejection_code + event list" where
  "decide x fresh_op snapshot e =
     (let task = with_task snapshot e; open_or_closing = with_open_or_closing_task snapshot e;
          runtime = with_runtime_task snapshot e
      in case ce_command e of
           CreateTask i \<Rightarrow> decide_create_task (x_sha256 x) snapshot e i
         | CreateTaskV2 _ \<Rightarrow> Inl RcInvalidTransition
         | RenameTask title \<Rightarrow> open_or_closing (decide_rename_task title)
         | SetTaskAttention attention \<Rightarrow> open_or_closing (\<lambda>_. Inr [TaskAttentionSet attention])
         | SettleTask \<Rightarrow> task decide_settle_task
         | BeginCloseTask \<Rightarrow> task decide_begin_close
         | ReopenTask \<Rightarrow> task decide_reopen_task
         | DeleteTask \<Rightarrow> task decide_delete_task
         | RegisterAgentSession a \<Rightarrow> runtime (decide_register_agent a)
         | BindProviderSession aid rid ps generation \<Rightarrow> runtime (decide_bind_provider aid rid ps generation)
         | AbandonProviderSession aid ps generation \<Rightarrow> runtime (decide_abandon_provider aid ps generation)
         | SetPrimaryAgent aid \<Rightarrow> runtime (decide_set_primary aid)
         | RebindUnstartedPrimaryProvider aid kind \<Rightarrow> runtime (decide_rebind_unstarted aid kind)
         | RegisterArtifact artifact \<Rightarrow> open_or_closing (decide_register_artifact artifact)
         | RegisterResource r \<Rightarrow> runtime (decide_register_resource r)
         | ReleaseResource rid \<Rightarrow> open_or_closing (decide_release_resource rid)
         | ConfirmHostQuit _ \<Rightarrow> Inl RcInvalidTransition
         | SubmitProviderInput i \<Rightarrow>
             runtime (decide_submit_provider_input fresh_op (ce_command_id e) (ce_client_id e) i)
         | PresentProviderQuestion i \<Rightarrow> runtime (decide_present_question i)
         | PresentProviderApproval i \<Rightarrow> runtime (decide_present_approval i)
         | SettleProviderWait i \<Rightarrow> open_or_closing (decide_settle_wait i)
         | RequestSpecialist i \<Rightarrow> runtime (decide_request_specialist (x_sha256 x) i)
         | PromotePrimary i \<Rightarrow> runtime (decide_promote_primary i)
         | CancelSpecialist i \<Rightarrow> runtime (decide_cancel_specialist i)
         | AcceptSpecialistHandoff i \<Rightarrow>
             runtime (decide_accept_handoff (x_sha256 x) (ce_issued_at_ms e) i)
         | PromptLibrary _ \<Rightarrow> Inl RcInvalidTransition
         | PromptChain _ \<Rightarrow> Inl RcInvalidTransition
         | ServiceControl _ \<Rightarrow> Inl RcInvalidTransition
         | StartProviderSession _ \<Rightarrow> Inl RcInvalidTransition
         | CBrowser q \<Rightarrow> runtime (decide_browser (x_browser x) (ce_command_id e) q)
         | OpenTaskBrowser i \<Rightarrow> runtime (\<lambda>s. decide_open (x_browser x) s e i)
         | PrepareUpdate _ \<Rightarrow> Inl RcInvalidTransition
         | ConfirmUpdateDrain _ \<Rightarrow> Inl RcInvalidTransition
         | AbortUpdateHandoff \<Rightarrow> Inl RcInvalidTransition
         | ArmUpdateInstall _ \<Rightarrow> Inl RcInvalidTransition
         | OpenShellTerminal r \<Rightarrow> runtime (decide_open_shell_terminal r)
         | CloseTerminal rid \<Rightarrow> open_or_closing (decide_close_terminal rid)
         | RenameTerminal rid title \<Rightarrow> open_or_closing (decide_rename_terminal rid title)
         | SetTerminalStrip strip \<Rightarrow> open_or_closing (decide_set_strip strip))"
end
