(* ===== verification/Snapshot_Invariant.thy ===== *)
theory Snapshot_Invariant
  imports Decide
begin

text \<open>
  What every event keeps true of a task snapshot, whoever produced it: the maps are keyed
  by the identities of their values, everything belongs to the task, the terminal facts
  and the strip agree with the resources, the provider projections are within their
  bounds, and the browser book admits requests exactly while the task is open or settled.
\<close>

section \<open>The parts of the invariant\<close>

definition agents_wf :: "task_id \<Rightarrow> (agent_session_id, agent_session_facts) bmap \<Rightarrow> bool" where
  "agents_wf t m \<longleftrightarrow> (\<forall>i a. bget m i = Some a \<longrightarrow> ag_id a = i \<and> ag_task_id a = t)"

definition primary_wf ::
  "(agent_session_id, agent_session_facts) bmap \<Rightarrow> agent_session_id option \<Rightarrow> bool" where
  "primary_wf m p \<longleftrightarrow> (\<forall>i. p = Some i \<longrightarrow> (\<exists>a. bget m i = Some a \<and> ag_role a = Primary))"

definition artifacts_wf :: "task_id \<Rightarrow> (artifact_id, artifact_facts) bmap \<Rightarrow> bool" where
  "artifacts_wf t m \<longleftrightarrow>
     (\<forall>i a. bget m i = Some a \<longrightarrow> ar_id a = i \<and> ar_task_id a = t \<and> artifact_validate a = Inr ())"

definition resources_wf :: "task_id \<Rightarrow> (resource_id, resource_facts) bmap \<Rightarrow> bool" where
  "resources_wf t m \<longleftrightarrow>
     (\<forall>i r. bget m i = Some r \<longrightarrow>
        rs_id r = i \<and> rs_task_id r = Some t \<and> rs_owner_kind r = OwnerTask \<and> resource_validate r = Inr ())"

definition terminals_wf ::
  "(resource_id, resource_facts) bmap \<Rightarrow> (resource_id, terminal_facts) bmap \<Rightarrow> bool" where
  "terminals_wf rm tm \<longleftrightarrow>
     (\<forall>i. bcontains tm i \<longleftrightarrow>
        (\<exists>r. bget rm i = Some r \<and> rs_resource_kind r = KTerminal \<and> rs_lifecycle r \<noteq> RsReleased))
     \<and> (\<forall>i f. bget tm i = Some f \<longrightarrow> tf_resource_id f = i)"

definition projection_wf :: "provider_session_projection \<Rightarrow> bool" where
  "projection_wf p \<longleftrightarrow> projection_validate_bounds p = Inr ()
     \<and> (\<forall>q. pp_open_question p = Some q \<longrightarrow> \<not> bcontains (pp_question_winners p) q)
     \<and> (\<forall>a. pp_open_approval p = Some a \<longrightarrow> \<not> bcontains (pp_approval_winners p) a)
     \<and> (\<forall>c r. bget (pp_waits p) c = Some r \<longrightarrow> wr_pending r \<longrightarrow>
          pp_current_turn p = Some (pf_turn_id (wr_fence r)))"

text \<open>A turn that every pending wait of the session is on.\<close>

definition turn_ok :: "provider_session_projection \<Rightarrow> turn_id \<Rightarrow> bool" where
  "turn_ok p t \<longleftrightarrow>
     (\<forall>c r. bget (pp_waits p) c = Some r \<longrightarrow> wr_pending r \<longrightarrow> pf_turn_id (wr_fence r) = t)"

definition sessions_wf ::
  "(agent_session_id, agent_session_facts) bmap \<Rightarrow> (agent_session_id, provider_session_projection) bmap
     \<Rightarrow> bool" where
  "sessions_wf am pm \<longleftrightarrow> (\<forall>i p. bget pm i = Some p \<longrightarrow> bcontains am i \<and> projection_wf p)"

definition is_live :: "task_lifecycle \<Rightarrow> bool" where
  "is_live l \<longleftrightarrow> l = TlOpen \<or> l = TlSettled"

text \<open>Everything in the book of a task is the task's.\<close>

definition book_owned :: "task_id \<Rightarrow> browser_book \<Rightarrow> bool" where
  "book_owned t b \<longleftrightarrow>
     (\<forall>k c. bget (bb_contexts b) k = Some c \<longrightarrow> cx_task_id c = t)
     \<and> (\<forall>f\<in>set (bb_facts b). fact_task_id f = t)
     \<and> (\<forall>k s. bget (bb_receipts b) k = Some s \<longrightarrow> bx_facts (st_accepted s) = []
          \<and> ra_request (accepted_of_receipt (st_accepted s)) = st_request s \<and> bq_task_id (st_request s) = t)"

definition browser_wf :: "task_id \<Rightarrow> task_lifecycle \<Rightarrow> browser_book \<Rightarrow> bool" where
  "browser_wf t l b \<longleftrightarrow> book_wf b \<and> bb_ready b \<and> book_owned t b
     \<and> (\<forall>k. bcontains (bb_open_tasks b) k \<longleftrightarrow> k = t \<and> is_live l)"

definition snap_wf :: "sha256_fn \<Rightarrow> task_snapshot \<Rightarrow> bool" where
  "snap_wf sha s \<longleftrightarrow>
     (let t = tk_id (sn_task s) in
      validate_content sha (sn_task s) = Inr ()
      \<and> agents_wf t (sn_agents s) \<and> primary_wf (sn_agents s) (sn_primary_agent_id s)
      \<and> artifacts_wf t (sn_artifacts s) \<and> resources_wf t (sn_resources s)
      \<and> strip_wf t (sn_resources s) (sn_terminal_strip s)
      \<and> terminals_wf (sn_resources s) (sn_terminal_facts s)
      \<and> sessions_wf (sn_agents s) (sn_provider_sessions s)
      \<and> browser_wf t (tk_lifecycle (sn_task s)) (sn_browser s))"

lemma snap_wfI:
  assumes "validate_content sha (sn_task s) = Inr ()"
    "agents_wf (tk_id (sn_task s)) (sn_agents s)" "primary_wf (sn_agents s) (sn_primary_agent_id s)"
    "artifacts_wf (tk_id (sn_task s)) (sn_artifacts s)"
    "resources_wf (tk_id (sn_task s)) (sn_resources s)"
    "strip_wf (tk_id (sn_task s)) (sn_resources s) (sn_terminal_strip s)"
    "terminals_wf (sn_resources s) (sn_terminal_facts s)"
    "sessions_wf (sn_agents s) (sn_provider_sessions s)"
    "browser_wf (tk_id (sn_task s)) (tk_lifecycle (sn_task s)) (sn_browser s)"
  shows "snap_wf sha s"
  using assms by (simp add: snap_wf_def Let_def)

lemma snap_wfD:
  assumes "snap_wf sha s"
  shows "validate_content sha (sn_task s) = Inr ()"
    "agents_wf (tk_id (sn_task s)) (sn_agents s)" "primary_wf (sn_agents s) (sn_primary_agent_id s)"
    "artifacts_wf (tk_id (sn_task s)) (sn_artifacts s)"
    "resources_wf (tk_id (sn_task s)) (sn_resources s)"
    "strip_wf (tk_id (sn_task s)) (sn_resources s) (sn_terminal_strip s)"
    "terminals_wf (sn_resources s) (sn_terminal_facts s)"
    "sessions_wf (sn_agents s) (sn_provider_sessions s)"
    "browser_wf (tk_id (sn_task s)) (tk_lifecycle (sn_task s)) (sn_browser s)"
  using assms by (simp_all add: snap_wf_def Let_def)

section \<open>Updates of the parts\<close>

named_theorems snap_upd \<open>the primitive updates of a snapshot\<close>

lemmas snapshot_updates [snap_upd] = upd_task_def upd_agent_def put_session_def set_revision_def

lemma validate_content_frame [simp]:
  "validate_content sha (t \<lparr> tk_lifecycle := l \<rparr>) = validate_content sha t"
  "validate_content sha (t \<lparr> tk_action_epoch := n \<rparr>) = validate_content sha t"
  "validate_content sha (t \<lparr> tk_revision := n \<rparr>) = validate_content sha t"
  by (simp_all add: validate_content_def)

lemma validate_content_title:
  "validate_content sha t = Inr () \<Longrightarrow> is_canonical v \<Longrightarrow> validate_content sha (t \<lparr> tk_title := v \<rparr>) = Inr ()"
  by (simp add: validate_content_def result_simps split: option.splits if_splits)

lemma agents_wf_binsert:
  "agents_wf t m \<Longrightarrow> ag_id a = i \<Longrightarrow> ag_task_id a = t \<Longrightarrow> agents_wf t (binsert i a m)"
  by (auto simp: agents_wf_def)

lemma agents_wfD: "agents_wf t m \<Longrightarrow> bget m i = Some a \<Longrightarrow> ag_id a = i \<and> ag_task_id a = t"
  by (auto simp: agents_wf_def)

lemma sessions_wf_agents:
  "sessions_wf m pm \<Longrightarrow> sessions_wf (binsert i a m) pm"
  by (auto simp: sessions_wf_def)

lemma sessions_wf_put:
  "sessions_wf m pm \<Longrightarrow> bcontains m i \<Longrightarrow> projection_wf p \<Longrightarrow> sessions_wf m (binsert i p pm)"
  by (auto simp: sessions_wf_def)

lemma primary_wf_keep:
  assumes "primary_wf m p" "bget m i = None \<or> (\<exists>b. bget m i = Some b \<and> (ag_role b = Primary \<longrightarrow> ag_role a = Primary))"
  shows "primary_wf (binsert i a m) p"
  using assms by (force simp: primary_wf_def)

lemma artifacts_wf_binsert:
  "artifacts_wf t m \<Longrightarrow> ar_id a = i \<Longrightarrow> ar_task_id a = t \<Longrightarrow> artifact_validate a = Inr ()
     \<Longrightarrow> artifacts_wf t (binsert i a m)"
  by (auto simp: artifacts_wf_def)

lemma resources_wf_binsert:
  "resources_wf t m \<Longrightarrow> rs_id r = i \<Longrightarrow> rs_task_id r = Some t \<Longrightarrow> rs_owner_kind r = OwnerTask
     \<Longrightarrow> resource_validate r = Inr () \<Longrightarrow> resources_wf t (binsert i r m)"
  by (auto simp: resources_wf_def)

lemma resources_wfD:
  "resources_wf t m \<Longrightarrow> bget m i = Some r \<Longrightarrow>
     rs_id r = i \<and> rs_task_id r = Some t \<and> rs_owner_kind r = OwnerTask \<and> resource_validate r = Inr ()"
  by (auto simp: resources_wf_def)

lemma plain_shell_is_terminal:
  "resource_validate r = Inr () \<Longrightarrow> is_plain_shell (rs_recipe r) \<Longrightarrow> rs_resource_kind r = KTerminal"
  by (auto simp: resource_validate_def is_plain_shell_def result_simps
      split: resource_recipe.splits resource_kind.splits)

lemma strip_wf_resource:
  assumes "strip_wf t m strip" "rs_task_id r = Some t"
    "bget m i = None \<or> (\<exists>q. bget m i = Some q \<and> rs_resource_kind r = rs_resource_kind q
       \<and> is_plain_shell (rs_recipe r) = is_plain_shell (rs_recipe q))"
  shows "strip_wf t (binsert i r m) strip"
  using assms unfolding strip_wf_def by (metis bget_binsert option.distinct(1) option.inject)

lemma strip_wf_push:
  assumes "strip_wf t m strip" "bget m i = Some r" "rs_task_id r = Some t"
    "rs_resource_kind r = KTerminal" "is_plain_shell (rs_recipe r)"
    "i \<notin> set (ts_order strip)" "length (ts_order strip) < MAX_PLAIN_SHELLS_PER_TASK"
  shows "strip_wf t m (strip_push i strip)"
  using assms by (auto simp: strip_wf_def strip_push_def)

lemma is_plain_shell_title [simp]: "is_plain_shell (set_recipe_title title r) = is_plain_shell r"
  by (cases r) (simp_all add: set_recipe_title_def is_plain_shell_def)

lemma resource_validate_title:
  assumes "resource_validate r = Inr ()" "is_plain_shell (rs_recipe r)" "validate_terminal_title title = Inr ()"
  shows "resource_validate (r \<lparr> rs_recipe := set_recipe_title title (rs_recipe r) \<rparr>) = Inr ()"
  using assms
  by (cases "rs_recipe r")
     (auto simp: resource_validate_def set_recipe_title_def is_plain_shell_def recipe_validate_def
       is_some_iff result_simps split: resource_kind.splits option.splits if_splits)

lemma terminals_wf_resource:
  assumes "terminals_wf rm tm" "bget rm i = Some q" "rs_resource_kind r = rs_resource_kind q"
    "rs_lifecycle r = RsReleased \<longleftrightarrow> rs_lifecycle q = RsReleased"
  shows "terminals_wf (binsert i r rm) tm"
  using assms by (auto simp: terminals_wf_def)

lemma terminals_wf_facts:
  assumes "terminals_wf rm tm" "bget tm i = Some f" "tf_resource_id f' = tf_resource_id f"
  shows "terminals_wf rm (binsert i f' tm)"
  using assms by (auto simp: terminals_wf_def bcontains_iff)

lemma projection_wf_default [simp]: "projection_wf projection_default"
  by (simp add: projection_wf_def projection_default_def projection_validate_bounds_def bempty.rep_eq)

lemma projection_wf_session:
  "sessions_wf am pm \<Longrightarrow> bget pm i = Some p \<Longrightarrow> projection_wf p"
  by (auto simp: sessions_wf_def)

lemma projection_wf_or_default:
  "sessions_wf am (sn_provider_sessions s) \<Longrightarrow> projection_wf (session_or_default i s)"
  by (auto simp: session_or_default_def sessions_wf_def split: option.splits)

section \<open>The lifecycle arms keep the invariant\<close>

lemma canonicalize_title_canonical: "canonicalize_title v = Inr t \<Longrightarrow> is_canonical t"
  by (auto simp: canonicalize_title_def result_simps canonicalize_Some_iff)

lemma wf_task_renamed:
  assumes "snap_wf sha s" "apply_task_renamed title s = Inr s'"
  shows "snap_wf sha s'"
  using assms
  by (auto simp: apply_task_renamed_def snap_wf_def Let_def result_simps snap_upd
      intro: validate_content_title[OF _ canonicalize_title_canonical])

lemma wf_attention_set:
  assumes "snap_wf sha s" "apply_attention_set attention s = Inr s'"
  shows "snap_wf sha s'"
  using assms by (auto simp: apply_attention_set_def snap_wf_def Let_def)

lemma wf_lifecycle:
  assumes "snap_wf sha s" "is_live l = is_live (tk_lifecycle (sn_task s))"
  shows "snap_wf sha (upd_task (\<lambda>t. t \<lparr> tk_lifecycle := l \<rparr>) s)"
  using assms by (auto simp: snap_wf_def Let_def snap_upd browser_wf_def)

lemma book_owned_fact:
  assumes wf: "book_owned t b" and ap: "apply_fact lib f b = Inr b'" and own: "fact_task_id f = t"
  shows "book_owned t b'"
proof -
  have ctx: "cx_task_id c = t" if c: "bget (bb_contexts b') k = Some c" for k c
  proof (cases "bget (bb_contexts b) k")
    case (Some c0)
    then show ?thesis using apply_fact_context_owner[OF ap Some] c wf by (auto simp: book_owned_def)
  next
    case None
    then show ?thesis using ap c own
      by (cases f)
         (auto simp: apply_fact_def apply_fact_body_def apply_fact_arms with_owned_context_Inr
           apply_request_accepted_Inr fact_task_id_def fresh_context_def Let_def result_simps
           split: option.splits if_splits)
  qed
  have rec: "bx_facts (st_accepted s) = [] \<and> ra_request (accepted_of_receipt (st_accepted s)) = st_request s
      \<and> bq_task_id (st_request s) = t" if "bget (bb_receipts b') k = Some s" for k s
    using apply_fact_receipts[OF ap] that wf own
    by (auto simp: book_owned_def receipt_of_fact_def accepted_of_receipt_def fact_task_id_def Let_def
        split: if_splits)
  show ?thesis using ctx rec wf own apply_fact_frame[OF ap] by (auto simp: book_owned_def)
qed

lemma book_owned_seq:
  assumes "book_owned t b" "apply_fact_seq lib fs b = Inr b'" "\<forall>f\<in>set fs. fact_task_id f = t"
  shows "book_owned t b'"
  using assms
proof (induction fs arbitrary: b)
  case (Cons f fs)
  then obtain b1 where b1: "apply_fact lib f b = Inr b1" "apply_fact_seq lib fs b1 = Inr b'"
    by (auto simp: result_simps)
  have "book_owned t b1" using Cons.prems by (intro book_owned_fact[OF _ b1(1)]) auto
  then show ?case using Cons.IH[OF _ b1(2)] Cons.prems by simp
qed simp

lemma browser_wf_close:
  assumes wf: "browser_wf t l b" and c: "close_task lib t b = (Inr u, b')"
  shows "browser_wf t TlClosing b'"
proof -
  obtain b1 where b1: "apply_facts lib (plan_close_task b t) b = Inr b1"
      and b': "b' = b1 \<lparr> bb_open_tasks := bremove t (bb_open_tasks b1) \<rparr>"
    using c by (auto simp: close_task_def apply_facts_st_Inr split: if_splits sum.splits prod.splits)
  have seq: "apply_fact_seq lib (plan_close_task b t) b = Inr b1"
    using b1 by (simp add: apply_facts_Inr)
  have "\<forall>f\<in>set (plan_close_task b t). fact_task_id f = t"
    by (auto simp: plan_close_task_def fact_task_id_def)
  then have "book_owned t b1"
    using wf book_owned_seq[OF _ seq] by (simp add: browser_wf_def)
  moreover have "book_wf b'"
    using wf book_wf_apply_facts[OF _ b1] book_wf_remove_task[of b1 t] by (simp add: browser_wf_def b')
  ultimately show ?thesis
    using wf apply_fact_seq_frame[OF seq] by (simp add: browser_wf_def b' is_live_def book_owned_def)
qed

lemma wf_close_begun:
  assumes "snap_wf sha s" "apply_close_begun x epoch s = Inr s'"
  shows "snap_wf sha s'"
  using assms
  by (auto simp: apply_close_begun_def snap_wf_def Let_def result_simps snap_upd
      dest: browser_wf_close split: prod.splits sum.splits if_splits)

lemma wf_task_settled:
  assumes "snap_wf sha s" "apply_task_settled s = Inr s'"
  shows "snap_wf sha s'"
  using assms by (auto simp: apply_task_settled_def is_live_def intro!: wf_lifecycle split: if_splits)

lemma browser_wf_open:
  assumes "browser_wf t l b" "open_task t b = Inr b'"
  shows "browser_wf t TlOpen b'"
  using assms book_wf_open_task[of b t b']
  by (auto simp: browser_wf_def book_owned_def open_task_def is_live_def split: if_splits)

lemma wf_task_reopened:
  assumes "snap_wf sha s" "apply_task_reopened s = Inr s'"
  shows "snap_wf sha s'"
  using assms
  by (auto simp: apply_task_reopened_def snap_wf_def Let_def result_simps snap_upd
      dest: browser_wf_open split: if_splits)

lemma wf_task_archived:
  assumes "snap_wf sha s" "apply_task_archived s = Inr s'"
  shows "snap_wf sha s'"
  using assms by (auto simp: apply_task_archived_def is_live_def intro!: wf_lifecycle split: if_splits)

lemma wf_task_deleted:
  assumes "snap_wf sha s" "apply_task_deleted s = Inr s'"
  shows "snap_wf sha s'"
  using assms by (auto simp: apply_task_deleted_def is_live_def intro!: wf_lifecycle split: if_splits)

section \<open>The agent arms keep the invariant\<close>

lemma wf_upd_agent:
  assumes wf: "snap_wf sha s" and a: "ag_id a = i" "ag_task_id a = tk_id (sn_task s)"
    and role: "bget (sn_agents s) i = None
      \<or> (\<exists>b. bget (sn_agents s) i = Some b \<and> (ag_role b = Primary \<longrightarrow> ag_role a = Primary))"
  shows "snap_wf sha (upd_agent i a s)"
  using snap_wfD[OF wf] a role
  by (intro snap_wfI)
     (auto simp: snap_upd intro: agents_wf_binsert primary_wf_keep sessions_wf_agents)

lemma wf_upd_existing_agent:
  assumes wf: "snap_wf sha s" and b: "bget (sn_agents s) i = Some b"
    and a: "ag_id a = ag_id b" "ag_task_id a = ag_task_id b" "ag_role b = Primary \<longrightarrow> ag_role a = Primary"
  shows "snap_wf sha (upd_agent i a s)"
  using wf_upd_agent[OF wf, of a i] agents_wfD[OF snap_wfD(2)[OF wf] b] a b by auto

lemma wf_put_session:
  assumes "snap_wf sha s" "bcontains (sn_agents s) i" "projection_wf p"
  shows "snap_wf sha (put_session i p s)"
  using snap_wfD[OF assms(1)] assms(2,3)
  by (intro snap_wfI) (auto simp: snap_upd intro: sessions_wf_put)

lemma wf_agent_registered:
  assumes "snap_wf sha s" "apply_agent_registered a s = Inr s'"
  shows "snap_wf sha s'"
proof -
  have fresh: "bget (sn_agents s) (ag_id a) = None" and own: "ag_task_id a = tk_id (sn_task s)"
    and s': "s' = put_session (ag_id a) (session_or_default (ag_id a) (upd_agent (ag_id a) a s))
               (upd_agent (ag_id a) a s)"
    using assms(2) by (auto simp: apply_agent_registered_def Let_def result_simps bcontains_iff split: if_splits)
  have wf: "snap_wf sha (upd_agent (ag_id a) a s)"
    using wf_upd_agent[OF assms(1)] fresh own by blast
  show ?thesis unfolding s'
    using wf_put_session[OF wf] projection_wf_or_default[OF snap_wfD(8)[OF wf]]
    by (simp add: snap_upd)
qed

lemma wf_provider_bound:
  assumes "snap_wf sha s" "apply_provider_bound aid rid ps generation s = Inr s'"
  shows "snap_wf sha s'"
  using assms
  by (auto simp: apply_provider_bound_def result_simps intro: wf_upd_existing_agent
      split: option.splits if_splits)

lemma wf_provider_abandoned:
  assumes "snap_wf sha s" "apply_provider_abandoned aid ps generation s = Inr s'"
  shows "snap_wf sha s'"
  using assms
  by (auto simp: apply_provider_abandoned_def intro: wf_upd_existing_agent split: option.splits if_splits)

lemma wf_primary_agent_set:
  assumes "snap_wf sha s" "apply_primary_agent_set aid s = Inr s'"
  shows "snap_wf sha s'"
  using assms
  by (auto simp: apply_primary_agent_set_def snap_wf_def Let_def primary_wf_def split: option.splits if_splits)

lemma wf_unstarted_rebound:
  assumes "snap_wf sha s" "apply_unstarted_rebound aid kind s = Inr s'"
  shows "snap_wf sha s'"
  using assms
  by (auto simp: apply_unstarted_rebound_def intro: wf_upd_existing_agent split: option.splits if_splits)

lemma wf_specialist_requested:
  assumes "snap_wf sha s" "apply_specialist_requested x q s = Inr s'"
  shows "snap_wf sha s'"
  using assms
  by (auto simp: apply_specialist_requested_def Let_def result_simps bcontains_iff intro: wf_upd_agent
      split: option.splits if_splits)

lemma wf_primary_promoted:
  assumes "snap_wf sha s" "apply_primary_promoted previous promoted epoch generation s = Inr s'"
  shows "snap_wf sha s'"
proof -
  obtain prev role nxt where
    prev: "bget (sn_agents s) previous = Some prev" and ne: "previous \<noteq> promoted" and
    nxt: "bget (sn_agents s) promoted = Some nxt" and
    s': "s' = (upd_agent promoted (nxt \<lparr> ag_role := Primary \<rparr>)
                 (upd_agent previous (prev \<lparr> ag_role := role \<rparr>) s)) \<lparr> sn_primary_agent_id := Some promoted \<rparr>"
    using assms(2)
    by (auto simp: apply_primary_promoted_def Let_def result_simps snap_upd split: option.splits if_splits)
  note d = snap_wfD[OF assms(1)]
  show ?thesis unfolding s'
    using d agents_wfD[OF d(2) prev] agents_wfD[OF d(2) nxt]
    by (intro snap_wfI)
       (auto simp: snap_upd primary_wf_def intro!: agents_wf_binsert sessions_wf_agents)
qed

lemma wf_specialist_closed:
  assumes "snap_wf sha s" "apply_specialist_closed sid epoch generation s = Inr s'"
  shows "snap_wf sha s'"
  using assms
  by (auto simp: apply_specialist_closed_def intro: wf_upd_existing_agent split: option.splits if_splits)

lemma wf_put_artifact:
  assumes "snap_wf sha s" "ar_task_id a = tk_id (sn_task s)" "artifact_validate a = Inr ()"
  shows "snap_wf sha (s \<lparr> sn_artifacts := binsert (ar_id a) a (sn_artifacts s) \<rparr>)"
  using snap_wfD[OF assms(1)] assms(2,3) by (intro snap_wfI) (auto intro: artifacts_wf_binsert)

lemma wf_handoff_recorded:
  assumes "snap_wf sha s" "apply_handoff_recorded x sid artifact structured epoch generation s = Inr s'"
  shows "snap_wf sha s'"
proof -
  obtain a where a: "bget (sn_agents s) sid = Some a" and
    own: "ar_task_id artifact = tk_id (sn_task s)" and valid: "artifact_validate artifact = Inr ()" and
    s': "s' = (upd_agent sid (a \<lparr> ag_lifecycle := AgClosed \<rparr>) s)
           \<lparr> sn_artifacts := binsert (ar_id artifact) artifact (sn_artifacts s) \<rparr>"
    using assms(2)
    by (auto simp: apply_handoff_recorded_def result_simps
        split: option.splits if_splits artifact_content_ref.splits)
  have "snap_wf sha (upd_agent sid (a \<lparr> ag_lifecycle := AgClosed \<rparr>) s)"
    by (rule wf_upd_existing_agent[OF assms(1) a]) simp_all
  from wf_put_artifact[OF this _ valid] own show ?thesis
    by (simp add: s' snap_upd)
qed

lemma wf_artifact_registered:
  assumes "snap_wf sha s" "apply_artifact_registered a s = Inr s'"
  shows "snap_wf sha s'"
  using assms
  by (auto simp: apply_artifact_registered_def result_simps intro: wf_put_artifact split: if_splits)

section \<open>The resource and terminal arms keep the invariant\<close>

lemma strip_wf_fresh: "strip_wf t m strip \<Longrightarrow> \<not> bcontains m i \<Longrightarrow> i \<notin> set (ts_order strip)"
  by (auto simp: strip_wf_def bcontains_iff)

lemma wf_resource_registered:
  assumes wf: "snap_wf sha s" and ap: "apply_resource_registered at r s = Inr s'"
  shows "snap_wf sha s'"
proof -
  note d = snap_wfD[OF wf]
  have own: "rs_owner_kind r = OwnerTask" "rs_task_id r = Some (tk_id (sn_task s))"
    and valid: "resource_validate r = Inr ()" and active: "rs_lifecycle r = RsActive"
    and fresh: "\<not> bcontains (sn_resources s) (rs_id r)"
    and room: "is_plain_shell (rs_recipe r) \<Longrightarrow> length (ts_order (sn_terminal_strip s)) < MAX_PLAIN_SHELLS_PER_TASK"
    using ap by (auto simp: apply_resource_registered_def result_simps split: if_splits)
  have rw: "resources_wf (tk_id (sn_task s)) (binsert (rs_id r) r (sn_resources s))"
    using resources_wf_binsert[OF d(5)] own valid by blast
  have sw: "strip_wf (tk_id (sn_task s)) (binsert (rs_id r) r (sn_resources s)) (sn_terminal_strip s)"
    using strip_wf_resource[OF d(6)] own fresh by (simp add: bcontains_iff)
  have push: "strip_wf (tk_id (sn_task s)) (binsert (rs_id r) r (sn_resources s))
      (strip_push (rs_id r) (sn_terminal_strip s))" if "is_plain_shell (rs_recipe r)"
    using strip_wf_push[OF sw] that own room strip_wf_fresh[OF d(6) fresh]
      plain_shell_is_terminal[OF valid] by auto
  have tw: "terminals_wf (binsert (rs_id r) r (sn_resources s))
      (if rs_resource_kind r = KTerminal
       then binsert (rs_id r) (terminal_facts_registered (rs_id r) title at) (sn_terminal_facts s)
       else sn_terminal_facts s)" for title
    using d(7) fresh active by (auto simp: terminals_wf_def terminal_facts_registered_def bcontains_iff)
  have tw1: "rs_resource_kind r = KTerminal \<Longrightarrow> terminals_wf (binsert (rs_id r) r (sn_resources s))
      (binsert (rs_id r) (terminal_facts_registered (rs_id r) title at) (sn_terminal_facts s))" for title
    using tw[of title] by simp
  have tw2: "rs_resource_kind r \<noteq> KTerminal \<Longrightarrow>
      terminals_wf (binsert (rs_id r) r (sn_resources s)) (sn_terminal_facts s)"
    using tw by simp
  show ?thesis
    using ap d rw sw push tw1 tw2
    by (intro snap_wfI) (auto simp: apply_resource_registered_def Let_def result_simps split: if_splits)
qed

lemma wf_put_resource:
  assumes wf: "snap_wf sha s" and q: "bget (sn_resources s) i = Some q"
    and r: "rs_id r = rs_id q" "rs_task_id r = rs_task_id q" "rs_owner_kind r = rs_owner_kind q"
      "rs_resource_kind r = rs_resource_kind q" "is_plain_shell (rs_recipe r) = is_plain_shell (rs_recipe q)"
      "rs_lifecycle r = RsReleased \<longleftrightarrow> rs_lifecycle q = RsReleased" "resource_validate r = Inr ()"
  shows "snap_wf sha (s \<lparr> sn_resources := binsert i r (sn_resources s) \<rparr>)"
proof -
  note d = snap_wfD[OF wf]
  note dq = resources_wfD[OF d(5) q]
  have "strip_wf (tk_id (sn_task s)) (binsert i r (sn_resources s)) (sn_terminal_strip s)"
    using strip_wf_resource[OF d(6), of r i] q r dq by auto
  then show ?thesis
    using d dq r resources_wf_binsert[OF d(5), of r i] terminals_wf_resource[OF d(7) q, of r]
    by (intro snap_wfI) auto
qed

lemma resource_validate_lifecycle [simp]:
  "resource_validate (r \<lparr> rs_lifecycle := l, rs_updated_at_ms := at \<rparr>) = resource_validate r"
  by (simp add: resource_validate_def split: resource_kind.splits resource_recipe.splits)

lemma wf_release_begun:
  assumes "snap_wf sha s" "apply_release_begun at rid generation s = Inr s'"
  shows "snap_wf sha s'"
  using assms resources_wfD[OF snap_wfD(5)[OF assms(1)]]
  by (auto simp: apply_release_begun_def intro!: wf_put_resource split: option.splits if_splits)

lemma wf_resource_released:
  assumes wf: "snap_wf sha s" and ap: "apply_resource_released at rid generation s = Inr s'"
  shows "snap_wf sha s'"
proof -
  note d = snap_wfD[OF wf]
  obtain q where q: "bget (sn_resources s) rid = Some q"
    and s': "s' = s \<lparr> sn_resources := binsert rid
               (q \<lparr> rs_lifecycle := RsReleased, rs_updated_at_ms := at \<rparr>) (sn_resources s),
             sn_terminal_facts := bremove rid (sn_terminal_facts s),
             sn_terminal_strip := strip_remove rid (sn_terminal_strip s) \<rparr>"
    using ap by (auto simp: apply_resource_released_def split: option.splits if_splits)
  let ?r = "q \<lparr> rs_lifecycle := RsReleased, rs_updated_at_ms := at \<rparr>"
  note dq = resources_wfD[OF d(5) q]
  have "strip_wf (tk_id (sn_task s)) (binsert rid ?r (sn_resources s)) (strip_remove rid (sn_terminal_strip s))"
    using strip_wf_resource[OF d(6), of ?r rid] dq q strip_remove_wf by auto
  moreover have "terminals_wf (binsert rid ?r (sn_resources s)) (bremove rid (sn_terminal_facts s))"
    using d(7) by (auto simp: terminals_wf_def)
  ultimately show ?thesis
    using d dq resources_wf_binsert[OF d(5), of ?r rid] unfolding s' by (intro snap_wfI) auto
qed

lemma wf_upd_terminal:
  assumes "snap_wf sha s" "upd_terminal rid f s = Inr s'" "\<And>t. tf_resource_id (f t) = tf_resource_id t"
  shows "snap_wf sha s'"
proof -
  note d = snap_wfD[OF assms(1)]
  obtain t where t: "bget (sn_terminal_facts s) rid = Some t"
    and s': "s' = s \<lparr> sn_terminal_facts := binsert rid (f t) (sn_terminal_facts s) \<rparr>"
    using assms(2) by (auto simp: upd_terminal_def result_simps)
  show ?thesis unfolding s'
    using d terminals_wf_facts[OF d(7) t, of "f t"] assms(3) by (intro snap_wfI) simp_all
qed

lemma wf_terminal_renamed:
  assumes wf: "snap_wf sha s" and ap: "apply_terminal_renamed rid title s = Inr s'"
  shows "snap_wf sha s'"
proof -
  obtain r s1 where r: "bget (sn_resources s) rid = Some r" and shell: "is_plain_shell (rs_recipe r)"
    and title: "validate_terminal_title title = Inr ()"
    and s1: "upd_terminal rid (\<lambda>f. f \<lparr> tf_title := Some title \<rparr>) s = Inr s1"
    and s': "s' = s1 \<lparr> sn_resources := binsert rid
           (r \<lparr> rs_recipe := set_recipe_title title (rs_recipe r) \<rparr>) (sn_resources s1) \<rparr>"
    using ap by (auto simp: apply_terminal_renamed_def result_simps split: option.splits if_splits)
  have wf1: "snap_wf sha s1" by (rule wf_upd_terminal[OF wf s1]) simp
  have r1: "bget (sn_resources s1) rid = Some r"
    using s1 r by (auto simp: upd_terminal_def result_simps)
  have "resource_validate (r \<lparr> rs_recipe := set_recipe_title title (rs_recipe r) \<rparr>) = Inr ()"
    using resource_validate_title[OF _ shell title] resources_wfD[OF snap_wfD(5)[OF wf] r] by blast
  then show ?thesis unfolding s' by (intro wf_put_resource[OF wf1 r1]) simp_all
qed

lemma wf_cwd_reported:
  assumes "snap_wf sha s" "apply_cwd_reported at rid cwd s = Inr s'"
  shows "snap_wf sha s'"
  using assms unfolding apply_cwd_reported_def by (rule wf_upd_terminal) simp

lemma wf_terminal_exited:
  assumes "snap_wf sha s" "apply_terminal_exited at rid code summary s = Inr s'"
  shows "snap_wf sha s'"
  using assms unfolding apply_terminal_exited_def by (rule wf_upd_terminal) simp

lemma wf_terminal_activity:
  assumes "snap_wf sha s" "apply_terminal_activity at rid s = Inr s'"
  shows "snap_wf sha s'"
  using assms unfolding apply_terminal_activity_def by (rule wf_upd_terminal) simp

lemma wf_strip_set:
  assumes "snap_wf sha s" "apply_strip_set strip s = Inr s'"
  shows "snap_wf sha s'"
  using snap_wfD[OF assms(1)] assms(2)
  by (intro snap_wfI) (auto simp: apply_strip_set_def result_simps strip_validate_iff)

section \<open>The provider arms keep the invariant\<close>

definition wait_ok :: "command_id \<Rightarrow> provider_wait_record \<Rightarrow> bool" where
  "wait_ok c r \<longleftrightarrow> wait_entry_check (c, r) = Inr ()"

lemma projection_bounds_iff:
  "projection_validate_bounds p = Inr () \<longleftrightarrow>
     blen (pp_question_winners p) \<le> MAX_PROVIDER_QUESTION_WINS
     \<and> blen (pp_approval_winners p) \<le> MAX_PROVIDER_APPROVAL_WINS
     \<and> blen (pp_waits p) \<le> MAX_PROVIDER_WAITS
     \<and> (\<forall>st. pp_last_settlement p = Some st \<longrightarrow> ps_operation_id st \<noteq> None)
     \<and> (\<forall>c r. bget (pp_waits p) c = Some r \<longrightarrow> wait_ok c r)"
  by (auto simp: projection_validate_bounds_def result_simps wait_ok_def in_entries_iff
      split: if_splits option.splits)

lemma wait_ok_pending [simp]: "wait_ok c (r \<lparr> wr_pending := b \<rparr>) = wait_ok c r"
  by (simp add: wait_ok_def wait_entry_check_def)

lemma snapshot_fence_Inr:
  "validate_snapshot_provider_fence s aid fence action wait turn allow = Inr () \<longleftrightarrow>
     (\<exists>agent. bget (sn_agents s) aid = Some agent
        \<and> validate_provider_fence fence action wait
           (Some \<lparr> fc_task_id = tk_id (sn_task s), fc_agent_session_id = aid,
                   fc_agent_task_id = ag_task_id agent, fc_provider_kind = ag_provider_kind agent,
                   fc_provider_session_id = ag_provider_session_id agent,
                   fc_runtime_generation = ag_runtime_generation agent,
                   fc_action_epoch = tk_action_epoch (sn_task s), fc_lifecycle = ag_lifecycle agent,
                   fc_current_turn = turn, fc_allow_closing = allow \<rparr>) = Inr ())"
  by (auto simp: validate_snapshot_provider_fence_def result_simps)

lemma fence_without_context:
  "validate_provider_fence fence action wait context = Inr () \<Longrightarrow> validate_provider_fence fence None None None = Inr ()"
  by (auto simp: validate_provider_fence_Inr)

lemma input_wait_fence_identity: "wait_fence_identity (input_wait_fence s e) = input_fence s e"
  by (simp add: wait_fence_identity_def input_wait_fence_def input_fence_def)

lemma input_wait_ok:
  assumes "validate_snapshot_provider_fence s aid (input_fence s e) action wait turn allow = Inr ()"
  shows "wait_ok (pia_command_id e) \<lparr> wr_fence = input_wait_fence s e, wr_pending = b \<rparr>"
proof -
  have "validate_provider_fence (input_fence s e) None None None = Inr ()"
    using assms fence_without_context by (auto simp: snapshot_fence_Inr)
  then show ?thesis
    by (simp add: wait_ok_def wait_entry_check_def input_wait_fence_identity)
       (simp add: input_wait_fence_def)
qed

lemma bounded_insert_wait_projection:
  assumes ins: "bounded_insert_wait c r p = Inr p'" and wf: "projection_wf p"
    and ok: "wait_ok c r" and pending: "wr_pending r"
    and turn: "pp_current_turn p = Some (pf_turn_id (wr_fence r))"
  shows "projection_wf p'"
proof -
  have bound: "blen (pp_waits p') \<le> MAX_PROVIDER_WAITS"
    using bounded_insert_wait_bound[OF ins] wf pending by (simp add: projection_wf_def projection_bounds_iff)
  obtain ws where p': "p' = p \<lparr> pp_waits := ws \<rparr>" and c: "bget ws c = Some r"
    and old: "\<And>k. k \<noteq> c \<Longrightarrow> bget ws k = bget (pp_waits p) k \<or> bget ws k = None"
    using bounded_insert_wait_waits[OF ins] by (elim exE conjE) metis
  have "wait_ok k q \<and> (wr_pending q \<longrightarrow> pp_current_turn p = Some (pf_turn_id (wr_fence q)))"
    if "bget ws k = Some q" for k q
    using that c old[of k] ok turn wf
    by (cases "k = c") (auto simp: projection_wf_def projection_bounds_iff)
  then show ?thesis using wf bound by (auto simp: projection_wf_def projection_bounds_iff p')
qed

lemma record_resolution_wf:
  assumes "record_resolution action winner p = Inr p'" "projection_wf p" "check_resolution action p = Inr ()"
  shows "projection_wf p'"
  using assms
  by (cases action)
     (auto simp: record_resolution_def check_resolution_def result_simps projection_wf_def
       projection_bounds_iff bounded_insert_question_winner_Inr bounded_insert_approval_winner_Inr
       split: if_splits)

lemma record_resolution_turn:
  assumes "record_resolution action winner p = Inr p'"
  shows "pp_current_turn p' = pp_current_turn p"
  using assms
  by (cases action)
     (auto simp: record_resolution_def result_simps bounded_insert_question_winner_Inr
       bounded_insert_approval_winner_Inr)

lemma projection_turn_ok:
  assumes "projection_wf p" "pp_current_turn p = None \<or> pp_current_turn p = Some t"
  shows "turn_ok p t"
  using assms unfolding turn_ok_def projection_wf_def by force

lemma send_now_turn_ok:
  assumes "projection_wf p" "can_begin_send_now_turn p t"
  shows "turn_ok p t"
proof (cases "pp_current_turn p = None \<or> pp_current_turn p = Some t")
  case False
  then have "list_all (\<lambda>r. \<not> wr_pending r) (bvalues (pp_waits p))"
    using assms(2) by (auto simp: can_begin_send_now_turn_def split: option.splits)
  then show ?thesis by (auto simp: turn_ok_def list_all_iff in_bvalues_iff)
qed (use assms projection_turn_ok in blast)

lemma fence_turn:
  assumes "validate_snapshot_provider_fence s aid fence action wait turn allow = Inr ()"
  shows "turn = None \<or> turn = Some (fi_turn_id fence)"
  using assms by (auto simp: snapshot_fence_Inr validate_provider_fence_Inr fence_context_check_Inr)

lemma input_turn_ok:
  assumes wf: "sessions_wf am (sn_provider_sessions s)"
    and f: "validate_snapshot_provider_fence s aid (input_fence s e) action wait (input_current_turn s e) allow = Inr ()"
  shows "turn_ok (session_or_default (pia_agent_session_id e) s) (pia_turn_id e)"
proof (cases "bget (sn_provider_sessions s) (pia_agent_session_id e)")
  case None
  then show ?thesis by (simp add: turn_ok_def session_or_default_def projection_default_def)
next
  case (Some p)
  have "input_current_turn s e = None \<or> input_current_turn s e = Some (pia_turn_id e)"
    using fence_turn[OF f] by (simp add: input_fence_def)
  then have "turn_ok p (pia_turn_id e)"
    using projection_wf_session[OF wf Some] Some send_now_turn_ok projection_turn_ok
    by (auto simp: input_current_turn_def split: if_splits)
  then show ?thesis using Some by (simp add: session_or_default_def)
qed

lemma session_turn_ok:
  assumes wf: "sessions_wf am (sn_provider_sessions s)"
    and f: "validate_snapshot_provider_fence s aid fence action wait (current_turn_of aid s) allow = Inr ()"
  shows "turn_ok (session_or_default aid s) (fi_turn_id fence)"
proof (cases "bget (sn_provider_sessions s) aid")
  case None
  then show ?thesis by (simp add: turn_ok_def session_or_default_def projection_default_def)
next
  case (Some p)
  then show ?thesis
    using fence_turn[OF f] projection_turn_ok[OF projection_wf_session[OF wf Some]]
    by (simp add: current_turn_of_def session_or_default_def)
qed

lemma accept_into_session_wf:
  assumes acc: "accept_into_session at wf_fence e p = Inr p'" and wf: "projection_wf p"
    and ok: "wait_ok (pia_command_id e) \<lparr> wr_fence = wf_fence, wr_pending = True \<rparr>"
    and turn: "turn_ok p (pia_turn_id e)" "pf_turn_id wf_fence = pia_turn_id e"
  shows "projection_wf p'"
proof -
  let ?p = "p \<lparr> pp_current_turn := Some (pia_turn_id e),
              pp_last_settlement := Some \<lparr> ps_command_id = pia_command_id e,
                     ps_operation_id = Some (pia_operation_id e), ps_intent = PhaseAccepted,
                     ps_delivery = pia_delivery e \<rparr> \<rparr>"
  obtain winner q where chk: "check_resolution (pia_action e) p = Inr ()"
    and q: "record_resolution (pia_action e) winner ?p = Inr q"
    and p': "if pia_wait e then bounded_insert_wait (pia_command_id e)
                 \<lparr> wr_fence = wf_fence, wr_pending = True \<rparr> q = Inr p' else p' = q"
    using acc by (auto simp: accept_into_session_def Let_def result_simps split: if_splits)
  have "projection_wf ?p" using wf turn by (auto simp: projection_wf_def projection_bounds_iff turn_ok_def)
  moreover have "check_resolution (pia_action e) ?p = Inr ()"
    using chk by (cases "pia_action e") (simp_all add: check_resolution_def split: if_splits)
  ultimately have "projection_wf q" using record_resolution_wf[OF q] by blast
  moreover have "pp_current_turn q = Some (pia_turn_id e)"
    using record_resolution_turn[OF q] by simp
  ultimately show ?thesis
    using p' ok turn(2) bounded_insert_wait_projection[of "pia_command_id e" _ q p'] by (auto split: if_splits)
qed

lemma wf_input_accepted:
  assumes wf: "snap_wf sha s" and ap: "apply_input_accepted at e s = Inr s'"
  shows "snap_wf sha s'"
proof -
  define s1 where "s1 = (if tk_lifecycle (sn_task s) = TlSettled \<and> is_send_now (pia_action e)
                 then upd_task (\<lambda>t. t \<lparr> tk_lifecycle := TlOpen \<rparr>) s else s)"
  obtain p where fence: "validate_snapshot_provider_fence s (pia_agent_session_id e) (input_fence s e)
        (Some (pia_action e)) (Some (pia_wait e)) (input_current_turn s e) False = Inr ()"
    and p: "accept_into_session at (input_wait_fence s1 e) e
        (session_or_default (pia_agent_session_id e) s1) = Inr p"
    and s': "s' = put_session (pia_agent_session_id e) p s1"
    using ap unfolding apply_input_accepted_def Let_def s1_def[symmetric]
    by (auto simp: result_simps split: if_splits)
  have wf1: "snap_wf sha s1"
    using wf wf_lifecycle[OF wf, of TlOpen] by (auto simp: s1_def is_live_def)
  have same: "input_wait_fence s1 e = input_wait_fence s e" "sn_agents s1 = sn_agents s"
    "session_or_default i s1 = session_or_default i s" for i
    by (simp_all add: s1_def input_wait_fence_def snap_upd session_or_default_def)
  have "turn_ok (session_or_default (pia_agent_session_id e) s1) (pia_turn_id e)"
    using input_turn_ok[OF snap_wfD(8)[OF wf] fence] by (simp add: same)
  then have "projection_wf p"
    using accept_into_session_wf[OF p] projection_wf_or_default[OF snap_wfD(8)[OF wf1]]
      input_wait_ok[OF fence] same by (simp add: input_wait_fence_def)
  then show ?thesis unfolding s'
    using wf_put_session[OF wf1] fence same by (auto simp: snapshot_fence_Inr bcontains_iff)
qed

lemma fence_agent:
  assumes "validate_snapshot_provider_fence s aid fence action wait turn allow = Inr ()"
  shows "bcontains (sn_agents s) aid"
  using assms by (auto simp: snapshot_fence_Inr bcontains_iff)

lemma presented_turn_ok:
  assumes "sessions_wf am (sn_provider_sessions s)"
    and "validate_snapshot_provider_fence s aid (presented_fence s aid kind ps generation turn epoch q a)
           action wait (current_turn_of aid s) allow = Inr ()"
  shows "turn_ok (session_or_default aid s) turn"
  using session_turn_ok[OF assms] by (simp add: presented_fence_def)

lemma projection_wf_presented:
  assumes "projection_wf p" "turn_ok p t"
  shows "\<not> bcontains (pp_question_winners p) q
      \<Longrightarrow> projection_wf (p \<lparr> pp_current_turn := Some t, pp_open_question := Some q \<rparr>)"
    and "\<not> bcontains (pp_approval_winners p) a
      \<Longrightarrow> projection_wf (p \<lparr> pp_current_turn := Some t, pp_open_approval := Some a \<rparr>)"
  using assms by (auto simp: projection_wf_def projection_bounds_iff turn_ok_def)

lemma wf_question_presented:
  assumes "snap_wf sha s" "apply_question_presented aid kind ps generation turn epoch q s = Inr s'"
  shows "snap_wf sha s'"
  using assms(2) projection_wf_or_default[OF snap_wfD(8)[OF assms(1)], of aid]
  by (auto simp: apply_question_presented_def Let_def result_simps
      dest: fence_agent presented_turn_ok[OF snap_wfD(8)[OF assms(1)]]
      intro!: wf_put_session[OF assms(1)] intro: projection_wf_presented split: if_splits)

lemma wf_approval_presented:
  assumes "snap_wf sha s" "apply_approval_presented aid kind ps generation turn epoch a s = Inr s'"
  shows "snap_wf sha s'"
  using assms(2) projection_wf_or_default[OF snap_wfD(8)[OF assms(1)], of aid]
  by (auto simp: apply_approval_presented_def Let_def result_simps
      dest: fence_agent presented_turn_ok[OF snap_wfD(8)[OF assms(1)]]
      intro!: wf_put_session[OF assms(1)] intro: projection_wf_presented split: if_splits)

lemma projection_wf_wait_done:
  assumes "projection_wf p" "bget (pp_waits p) c = Some r"
  shows "projection_wf (p \<lparr> pp_waits := binsert c (r \<lparr> wr_pending := False \<rparr>) (pp_waits p) \<rparr>)"
  using assms by (auto simp: projection_wf_def projection_bounds_iff bcontains_iff)

lemma wf_wait_settled:
  assumes "snap_wf sha s" "apply_wait_settled fence s = Inr s'"
  shows "snap_wf sha s'"
  using assms(2) projection_wf_session[OF snap_wfD(8)[OF assms(1)]]
  by (auto simp: apply_wait_settled_def Let_def result_simps snapshot_fence_Inr bcontains_iff
      intro!: wf_put_session[OF assms(1)] projection_wf_wait_done split: if_splits)

lemma wf_input_delivered:
  assumes "snap_wf sha s" "apply_input_delivered e s = Inr s'"
  shows "snap_wf sha s'"
proof -
  have p: "projection_wf (p \<lparr> pp_last_settlement := Some \<lparr> ps_command_id = c, ps_operation_id = Some op,
      ps_intent = PhaseAccepted, ps_delivery = Delivered \<rparr> \<rparr>)"
    if "bget (sn_provider_sessions s) aid = Some p" for aid p c op
    using projection_wf_session[OF snap_wfD(8)[OF assms(1)] that]
    by (simp add: projection_wf_def projection_bounds_iff)
  show ?thesis
    using assms p
    by (auto simp: apply_input_delivered_def Let_def result_simps snapshot_fence_Inr bcontains_iff
        intro!: wf_put_session[OF assms(1)] split: option.splits if_splits)
qed

section \<open>Every event keeps the invariant\<close>

lemmas wf_arms =
  wf_task_renamed wf_attention_set wf_close_begun wf_task_settled wf_task_reopened
  wf_task_archived wf_task_deleted wf_agent_registered wf_provider_bound wf_provider_abandoned
  wf_primary_agent_set wf_unstarted_rebound wf_specialist_requested wf_primary_promoted
  wf_handoff_recorded wf_specialist_closed wf_artifact_registered wf_resource_registered
  wf_release_begun wf_resource_released wf_terminal_renamed wf_cwd_reported wf_terminal_exited
  wf_terminal_activity wf_strip_set wf_input_accepted wf_question_presented
  wf_approval_presented wf_wait_settled wf_input_delivered

lemma wf_apply_into:
  assumes wf: "snap_wf sha s" and ap: "apply_into x at e s = Inr s'"
  shows "snap_wf sha s'"
  using ap by (cases e) (simp_all add: apply_into_def wf_arms[OF wf])

lemma wf_set_revision: "snap_wf sha s \<Longrightarrow> snap_wf sha (set_revision n s)"
  by (auto simp: snap_wf_def Let_def snap_upd)

lemma browser_wf_fact:
  assumes wf: "browser_wf t l b" and ap: "apply_facts lib [f] b = Inr b'" and own: "fact_task_id f = t"
  shows "browser_wf t l b'"
proof -
  have seq: "apply_fact lib f b = Inr b'"
    using ap by (auto simp: apply_facts_Inr result_simps)
  show ?thesis
    using wf book_owned_fact[OF _ seq own] apply_fact_frame[OF seq] book_wf_apply_facts[OF _ ap]
    by (auto simp: browser_wf_def)
qed

lemma wf_browser_event:
  assumes "snap_wf sha s" "apply_browser_event x s ev f = Inr s'"
  shows "snap_wf sha s'"
proof -
  obtain b n where b: "apply_facts (x_browser x) [f] (sn_browser s) = Inr b"
    and own: "fact_task_id f = tk_id (sn_task s)"
    and s': "s' = set_revision n (s \<lparr> sn_browser := b \<rparr>)"
    using assms(2) by (auto simp: apply_browser_event_def result_simps split: if_splits)
  show ?thesis unfolding s'
    using snap_wfD[OF assms(1)] browser_wf_fact[OF _ b own]
    by (intro wf_set_revision snap_wfI) auto
qed

lemma wf_task_created:
  assumes "apply_task_created x snapshot ev task connectivity attention activity review = Inr s'"
  shows "snap_wf (x_sha256 x) s'"
proof -
  obtain b where b: "open_task (tk_id task) book_new = Inr b"
    and v: "validate_for_create (x_sha256 x) task = Inr ()"
    and s': "s' = \<lparr> sn_task = task, sn_connectivity = connectivity, sn_attention = attention,
                sn_activity = activity, sn_review_readiness = review, sn_agents = bempty,
                sn_primary_agent_id = None, sn_artifacts = bempty, sn_resources = bempty,
                sn_provider_sessions = bempty, sn_browser = b, sn_terminal_facts = bempty,
                sn_terminal_strip = strip_default \<rparr>"
    using assms by (auto simp: apply_task_created_def result_simps split: if_splits)
  have task: "validate_content (x_sha256 x) task = Inr ()" "tk_lifecycle task = TlOpen"
    using v by (auto simp: validate_for_create_def result_simps)
  have "browser_wf (tk_id task) TlOpen b"
    using b book_wf_open_task[OF book_wf_new b]
    by (auto simp: browser_wf_def book_owned_def open_task_def book_new_def book_default_def is_live_def
        split: if_splits)
  then show ?thesis
    by (intro snap_wfI)
       (simp_all add: s' task agents_wf_def primary_wf_def artifacts_wf_def resources_wf_def
         strip_wf_def strip_default_def terminals_wf_def sessions_wf_def MAX_PLAIN_SHELLS_PER_TASK_def)
qed

lemma wf_apply_event:
  assumes wf: "\<And>s. snapshot = Some s \<Longrightarrow> snap_wf (x_sha256 x) s" and ap: "apply_event x snapshot ev = Inr s'"
  shows "snap_wf (x_sha256 x) s'"
proof (cases "\<exists>task c att act rev. de_payload ev = TaskCreated task c att act rev")
  case True
  then show ?thesis using ap wf_task_created by (auto simp: apply_event_def Let_def)
next
  case False
  then obtain s where s: "snapshot = Some s"
    using ap by (cases snapshot) (auto simp: apply_event_def Let_def result_simps split: event.splits)
  then have w: "snap_wf (x_sha256 x) s" using wf by blast
  show ?thesis
    using ap False s w
    by (auto simp: apply_event_def Let_def result_simps
        intro: wf_browser_event[OF w] wf_set_revision wf_apply_into[OF w] split: event.splits)
qed
end
