(* ===== verification/Aggregate.thy ===== *)
theory Aggregate
  imports Snapshot_Invariant Journal
begin

text \<open>
  The task aggregate as a journal: what one event may change of a snapshot, and what
  therefore holds between any two points of a task's history.
\<close>

lemmas apply_arm_defs =
  apply_task_renamed_def apply_attention_set_def apply_close_begun_def apply_task_settled_def
  apply_task_reopened_def apply_task_archived_def apply_task_deleted_def apply_agent_registered_def
  apply_provider_bound_def apply_provider_abandoned_def apply_primary_agent_set_def
  apply_unstarted_rebound_def apply_specialist_requested_def apply_primary_promoted_def
  apply_handoff_recorded_def apply_specialist_closed_def apply_artifact_registered_def
  apply_resource_registered_def apply_release_begun_def apply_resource_released_def
  apply_terminal_renamed_def apply_cwd_reported_def apply_terminal_exited_def
  apply_terminal_activity_def apply_strip_set_def apply_input_accepted_def
  apply_question_presented_def apply_approval_presented_def apply_wait_settled_def
  apply_input_delivered_def upd_terminal_def

section \<open>The lifecycle of a task\<close>

inductive lifecycle_step :: "task_lifecycle \<Rightarrow> task_lifecycle \<Rightarrow> bool" where
  settle: "lifecycle_step TlOpen TlSettled"
| resume: "lifecycle_step TlSettled TlOpen"
| begin_close: "l = TlOpen \<or> l = TlSettled \<Longrightarrow> lifecycle_step l TlClosing"
| archive: "lifecycle_step TlClosing TlArchived"
| reopen: "l = TlClosing \<or> l = TlArchived \<Longrightarrow> lifecycle_step l TlOpen"
| remove: "lifecycle_step TlArchived TlDeleted"

inductive_simps lifecycle_step_Deleted [simp]: "lifecycle_step TlDeleted l"
inductive_simps lifecycle_step_to_Deleted: "lifecycle_step l TlDeleted"
code_pred lifecycle_step .

lemma apply_into_task:
  assumes "apply_into x at e s = Inr s'"
  shows "tk_id (sn_task s') = tk_id (sn_task s) \<and> tk_revision (sn_task s') = tk_revision (sn_task s)
    \<and> tk_environment_id (sn_task s') = tk_environment_id (sn_task s)
    \<and> tk_project_id (sn_task s') = tk_project_id (sn_task s)
    \<and> tk_workspace (sn_task s') = tk_workspace (sn_task s)
    \<and> tk_assignment (sn_task s') = tk_assignment (sn_task s)
    \<and> tk_description (sn_task s') = tk_description (sn_task s)
    \<and> tk_created_at_ms (sn_task s') = tk_created_at_ms (sn_task s)"
  using assms
  by (cases e)
     (auto simp: apply_into_def apply_arm_defs snap_upd Let_def result_simps
       split: option.splits if_splits prod.splits sum.splits artifact_content_ref.splits)

lemma apply_into_lifecycle:
  assumes "apply_into x at e s = Inr s'"
  shows "tk_lifecycle (sn_task s') = tk_lifecycle (sn_task s)
     \<or> lifecycle_step (tk_lifecycle (sn_task s)) (tk_lifecycle (sn_task s'))"
  using assms
  by (cases e; cases "tk_lifecycle (sn_task s)")
     (auto simp: apply_into_def apply_arm_defs snap_upd Let_def result_simps
       intro: lifecycle_step.intros
       split: option.splits if_splits prod.splits sum.splits artifact_content_ref.splits)

lemma apply_into_epoch:
  assumes "apply_into x at e s = Inr s'"
  shows "case e of
           TaskCloseBegun epoch \<Rightarrow> checked_add (tk_action_epoch (sn_task s)) 1 = Some epoch
             \<and> tk_action_epoch (sn_task s') = epoch
         | _ \<Rightarrow> tk_action_epoch (sn_task s') = tk_action_epoch (sn_task s)"
  using assms
  by (cases e)
     (auto simp: apply_into_def apply_arm_defs snap_upd Let_def result_simps
       split: option.splits if_splits prod.splits sum.splits artifact_content_ref.splits)

section \<open>What an event can only add to\<close>

definition resource_rank :: "resource_lifecycle \<Rightarrow> nat" where
  "resource_rank l = (case l of RsActive \<Rightarrow> 0 | RsReleasing \<Rightarrow> 1 | RsReleased \<Rightarrow> 2)"

definition agents_ahead :: "task_snapshot \<Rightarrow> task_snapshot \<Rightarrow> bool" where
  "agents_ahead s s' \<longleftrightarrow>
     (\<forall>i a. bget (sn_agents s) i = Some a \<longrightarrow>
        (\<exists>a'. bget (sn_agents s') i = Some a' \<and> ag_task_id a' = ag_task_id a
            \<and> ag_runtime_generation a' = ag_runtime_generation a
            \<and> (ag_lifecycle a = AgClosed \<longrightarrow> ag_lifecycle a' = AgClosed)))"

definition artifacts_ahead :: "task_snapshot \<Rightarrow> task_snapshot \<Rightarrow> bool" where
  "artifacts_ahead s s' \<longleftrightarrow>
     (\<forall>i a. bget (sn_artifacts s) i = Some a \<longrightarrow> bget (sn_artifacts s') i = Some a)"

definition resources_ahead :: "task_snapshot \<Rightarrow> task_snapshot \<Rightarrow> bool" where
  "resources_ahead s s' \<longleftrightarrow>
     (\<forall>i r. bget (sn_resources s) i = Some r \<longrightarrow>
        (\<exists>r'. bget (sn_resources s') i = Some r' \<and> rs_task_id r' = rs_task_id r
            \<and> rs_resource_kind r' = rs_resource_kind r
            \<and> rs_runtime_generation r' = rs_runtime_generation r
            \<and> resource_rank (rs_lifecycle r) \<le> resource_rank (rs_lifecycle r')))"

definition winners_kept :: "provider_session_projection \<Rightarrow> provider_session_projection \<Rightarrow> bool" where
  "winners_kept p p' \<longleftrightarrow>
     (\<forall>q w. bget (pp_question_winners p) q = Some w \<longrightarrow> bget (pp_question_winners p') q = Some w)
     \<and> (\<forall>a w. bget (pp_approval_winners p) a = Some w \<longrightarrow> bget (pp_approval_winners p') a = Some w)"

definition sessions_ahead :: "task_snapshot \<Rightarrow> task_snapshot \<Rightarrow> bool" where
  "sessions_ahead s s' \<longleftrightarrow>
     (\<forall>i p. bget (sn_provider_sessions s) i = Some p \<longrightarrow>
        (\<exists>p'. bget (sn_provider_sessions s') i = Some p' \<and> winners_kept p p'))"

definition task_ahead :: "task_snapshot \<Rightarrow> task_snapshot \<Rightarrow> bool" where
  "task_ahead s s' \<longleftrightarrow>
     tk_id (sn_task s') = tk_id (sn_task s)
     \<and> tk_environment_id (sn_task s') = tk_environment_id (sn_task s)
     \<and> tk_project_id (sn_task s') = tk_project_id (sn_task s)
     \<and> tk_workspace (sn_task s') = tk_workspace (sn_task s)
     \<and> tk_assignment (sn_task s') = tk_assignment (sn_task s)
     \<and> tk_created_at_ms (sn_task s') = tk_created_at_ms (sn_task s)
     \<and> lifecycle_step\<^sup>*\<^sup>* (tk_lifecycle (sn_task s)) (tk_lifecycle (sn_task s'))
     \<and> tk_action_epoch (sn_task s) \<le> tk_action_epoch (sn_task s')"

definition journal_ahead :: "task_snapshot \<Rightarrow> task_snapshot \<Rightarrow> bool" where
  "journal_ahead s s' \<longleftrightarrow> (\<exists>fs. bb_facts (sn_browser s') = bb_facts (sn_browser s) @ fs)"

definition snapshot_ahead :: "task_snapshot \<Rightarrow> task_snapshot \<Rightarrow> bool" where
  "snapshot_ahead s s' \<longleftrightarrow> task_ahead s s' \<and> agents_ahead s s' \<and> artifacts_ahead s s'
     \<and> resources_ahead s s' \<and> sessions_ahead s s' \<and> journal_ahead s s'"

lemma snapshot_ahead_refl: "snapshot_ahead s s"
  by (simp add: snapshot_ahead_def task_ahead_def agents_ahead_def artifacts_ahead_def
      resources_ahead_def sessions_ahead_def winners_kept_def journal_ahead_def)

lemma agents_ahead_trans:
  assumes "agents_ahead s t" "agents_ahead t u"
  shows "agents_ahead s u"
  unfolding agents_ahead_def
proof (intro allI impI)
  fix i r
  assume "bget (sn_agents s) i = Some r"
  then obtain r' where r': "bget (sn_agents t) i = Some r'" and "ag_task_id r' = ag_task_id r
            \<and> ag_runtime_generation r' = ag_runtime_generation r
            \<and> (ag_lifecycle r = AgClosed \<longrightarrow> ag_lifecycle r' = AgClosed)"
    using assms(1) unfolding agents_ahead_def by blast
  moreover obtain r'' where "bget (sn_agents u) i = Some r''" and "ag_task_id r'' = ag_task_id r'
            \<and> ag_runtime_generation r'' = ag_runtime_generation r'
            \<and> (ag_lifecycle r' = AgClosed \<longrightarrow> ag_lifecycle r'' = AgClosed)"
    using assms(2) r' unfolding agents_ahead_def by blast
  ultimately show "\<exists>r'. bget (sn_agents u) i = Some r' \<and> ag_task_id r' = ag_task_id r
            \<and> ag_runtime_generation r' = ag_runtime_generation r
            \<and> (ag_lifecycle r = AgClosed \<longrightarrow> ag_lifecycle r' = AgClosed)"
    by auto
qed

lemma resources_ahead_trans:
  assumes "resources_ahead s t" "resources_ahead t u"
  shows "resources_ahead s u"
  unfolding resources_ahead_def
proof (intro allI impI)
  fix i r
  assume "bget (sn_resources s) i = Some r"
  then obtain r' where r': "bget (sn_resources t) i = Some r'" and "rs_task_id r' = rs_task_id r \<and> rs_resource_kind r' = rs_resource_kind r
            \<and> rs_runtime_generation r' = rs_runtime_generation r
            \<and> resource_rank (rs_lifecycle r) \<le> resource_rank (rs_lifecycle r')"
    using assms(1) unfolding resources_ahead_def by blast
  moreover obtain r'' where "bget (sn_resources u) i = Some r''" and "rs_task_id r'' = rs_task_id r' \<and> rs_resource_kind r'' = rs_resource_kind r'
            \<and> rs_runtime_generation r'' = rs_runtime_generation r'
            \<and> resource_rank (rs_lifecycle r') \<le> resource_rank (rs_lifecycle r'')"
    using assms(2) r' unfolding resources_ahead_def by blast
  ultimately show "\<exists>r'. bget (sn_resources u) i = Some r' \<and> rs_task_id r' = rs_task_id r \<and> rs_resource_kind r' = rs_resource_kind r
            \<and> rs_runtime_generation r' = rs_runtime_generation r
            \<and> resource_rank (rs_lifecycle r) \<le> resource_rank (rs_lifecycle r')"
    by (auto intro: order_trans)
qed

lemma winners_kept_trans: "winners_kept p q \<Longrightarrow> winners_kept q r \<Longrightarrow> winners_kept p r"
  by (auto simp: winners_kept_def)

lemma sessions_ahead_trans:
  assumes "sessions_ahead s t" "sessions_ahead t u"
  shows "sessions_ahead s u"
  unfolding sessions_ahead_def
proof (intro allI impI)
  fix i r
  assume "bget (sn_provider_sessions s) i = Some r"
  then obtain r' where r': "bget (sn_provider_sessions t) i = Some r'" and "winners_kept r r'"
    using assms(1) unfolding sessions_ahead_def by blast
  moreover obtain r'' where "bget (sn_provider_sessions u) i = Some r''" and "winners_kept r' r''"
    using assms(2) r' unfolding sessions_ahead_def by blast
  ultimately show "\<exists>r'. bget (sn_provider_sessions u) i = Some r' \<and> winners_kept r r'"
    using winners_kept_trans by blast
qed

lemma task_ahead_trans: "task_ahead s t \<Longrightarrow> task_ahead t u \<Longrightarrow> task_ahead s u"
  unfolding task_ahead_def by (auto intro: order_trans rtranclp_trans)

lemma journal_ahead_trans: "journal_ahead s t \<Longrightarrow> journal_ahead t u \<Longrightarrow> journal_ahead s u"
  by (auto simp: journal_ahead_def)

lemma snapshot_ahead_trans: "snapshot_ahead s t \<Longrightarrow> snapshot_ahead t u \<Longrightarrow> snapshot_ahead s u"
  unfolding snapshot_ahead_def
  using agents_ahead_trans resources_ahead_trans sessions_ahead_trans task_ahead_trans journal_ahead_trans
  by (auto simp: artifacts_ahead_def)

section \<open>Every arm only adds\<close>

lemma apply_into_task_ahead:
  assumes "apply_into x at e s = Inr s'"
  shows "task_ahead s s'"
proof -
  have "tk_action_epoch (sn_task s) \<le> tk_action_epoch (sn_task s')"
    using apply_into_epoch[OF assms] checked_add_one_less[of "tk_action_epoch (sn_task s)"]
    by (cases e) auto
  then show ?thesis
    using apply_into_task[OF assms] apply_into_lifecycle[OF assms] by (auto simp: task_ahead_def)
qed

lemma apply_into_agents_ahead:
  assumes "apply_into x at e s = Inr s'"
  shows "agents_ahead s s'"
  using assms
  by (cases e)
     (auto simp: agents_ahead_def apply_into_def apply_arm_defs snap_upd Let_def result_simps bcontains_iff
       split: option.splits if_splits prod.splits sum.splits artifact_content_ref.splits)

lemma apply_into_artifacts_ahead:
  assumes "apply_into x at e s = Inr s'"
  shows "artifacts_ahead s s'"
  using assms
  by (cases e)
     (auto simp: artifacts_ahead_def apply_into_def apply_arm_defs snap_upd Let_def result_simps bcontains_iff
       split: option.splits if_splits prod.splits sum.splits artifact_content_ref.splits)

lemma apply_into_resources_ahead:
  assumes "apply_into x at e s = Inr s'"
  shows "resources_ahead s s'"
  using assms
  by (cases e)
     (auto simp: resources_ahead_def resource_rank_def apply_into_def apply_arm_defs snap_upd Let_def
       result_simps bcontains_iff
       split: option.splits if_splits prod.splits sum.splits artifact_content_ref.splits)

lemma close_task_journal:
  assumes "close_task lib t b = (Inr u, b')"
  shows "\<exists>fs. bb_facts b' = bb_facts b @ fs"
  using assms
  by (auto simp: close_task_def apply_facts_st_Inr apply_facts_Inr dest!: apply_fact_seq_frame
      split: if_splits sum.splits prod.splits)

lemma open_task_journal: "open_task t b = Inr b' \<Longrightarrow> bb_facts b' = bb_facts b"
  by (auto simp: open_task_def split: if_splits)

lemma apply_into_journal_ahead:
  assumes "apply_into x at e s = Inr s'"
  shows "journal_ahead s s'"
  using assms
  by (cases e)
     (auto simp: journal_ahead_def apply_into_def apply_arm_defs snap_upd Let_def result_simps
       dest: close_task_journal open_task_journal
       split: option.splits if_splits prod.splits sum.splits artifact_content_ref.splits)

lemma winners_kept_refl [simp]: "winners_kept p p"
  by (simp add: winners_kept_def)

lemma winners_kept_fields [simp]:
  "winners_kept p (q \<lparr> pp_current_turn := a \<rparr>) = winners_kept p q"
  "winners_kept p (q \<lparr> pp_open_question := b \<rparr>) = winners_kept p q"
  "winners_kept p (q \<lparr> pp_open_approval := c \<rparr>) = winners_kept p q"
  "winners_kept p (q \<lparr> pp_waits := d \<rparr>) = winners_kept p q"
  "winners_kept p (q \<lparr> pp_last_settlement := e \<rparr>) = winners_kept p q"
  by (simp_all add: winners_kept_def)

lemma sessions_ahead_put:
  assumes "sn_provider_sessions s1 = sn_provider_sessions s" "winners_kept (session_or_default i s) p"
  shows "sessions_ahead s (put_session i p s1)"
  using assms by (auto simp: sessions_ahead_def snap_upd session_or_default_def)

lemma sessions_ahead_put_existing:
  assumes "bget (sn_provider_sessions s) i = Some p" "winners_kept p p'"
  shows "sessions_ahead s (put_session i p' s)"
  using assms by (intro sessions_ahead_put) (simp_all add: session_or_default_def)

lemma sessions_ahead_same: "sn_provider_sessions s' = sn_provider_sessions s \<Longrightarrow> sessions_ahead s s'"
  by (simp add: sessions_ahead_def)

lemma record_resolution_kept:
  assumes "record_resolution action winner p = Inr p'" "check_resolution action p = Inr ()"
  shows "winners_kept p p'"
  using assms
  by (cases action)
     (auto simp: record_resolution_def check_resolution_def result_simps winners_kept_def bcontains_iff
       bounded_insert_question_winner_Inr bounded_insert_approval_winner_Inr split: if_splits)

lemma accept_into_session_kept:
  assumes acc: "accept_into_session at fence e p = Inr p'"
  shows "winners_kept p p'"
proof -
  let ?p = "p \<lparr> pp_current_turn := Some (pia_turn_id e),
              pp_last_settlement := Some \<lparr> ps_command_id = pia_command_id e,
                     ps_operation_id = Some (pia_operation_id e), ps_intent = PhaseAccepted,
                     ps_delivery = pia_delivery e \<rparr> \<rparr>"
  obtain winner q where chk: "check_resolution (pia_action e) p = Inr ()"
    and q: "record_resolution (pia_action e) winner ?p = Inr q"
    and p': "p' = q \<or> bounded_insert_wait (pia_command_id e)
                 \<lparr> wr_fence = fence, wr_pending = True \<rparr> q = Inr p'"
    using acc by (auto simp: accept_into_session_def Let_def result_simps split: if_splits)
  have "check_resolution (pia_action e) ?p = Inr ()"
    using chk by (cases "pia_action e") (simp_all add: check_resolution_def split: if_splits)
  then have "winners_kept ?p q" using record_resolution_kept[OF q] by blast
  then have "winners_kept p q" by (simp add: winners_kept_def)
  then show ?thesis
    using p' by (auto dest!: bounded_insert_wait_waits)
qed

lemma input_accepted_sessions_ahead:
  assumes "apply_input_accepted at e s = Inr s'"
  shows "sessions_ahead s s'"
proof -
  define s1 where "s1 = (if tk_lifecycle (sn_task s) = TlSettled \<and> is_send_now (pia_action e)
                 then upd_task (\<lambda>t. t \<lparr> tk_lifecycle := TlOpen \<rparr>) s else s)"
  obtain p where
    p: "accept_into_session at (input_wait_fence s1 e) e
        (session_or_default (pia_agent_session_id e) s1) = Inr p"
    and s': "s' = put_session (pia_agent_session_id e) p s1"
    using assms unfolding apply_input_accepted_def Let_def s1_def[symmetric]
    by (auto simp: result_simps split: if_splits)
  have "sn_provider_sessions s1 = sn_provider_sessions s" by (simp add: s1_def snap_upd)
  moreover have "session_or_default i s1 = session_or_default i s" for i
    by (simp add: session_or_default_def calculation)
  ultimately show ?thesis unfolding s'
    using accept_into_session_kept[OF p] by (intro sessions_ahead_put) simp_all
qed

lemma apply_into_sessions_ahead:
  assumes "apply_into x at e s = Inr s'"
  shows "sessions_ahead s s'"
proof (cases e)
  case (AgentSessionRegistered a)
  then show ?thesis using assms
    by (auto simp: apply_into_def apply_agent_registered_def Let_def result_simps session_or_default_def
        snap_upd sessions_ahead_def split: if_splits)
next
  case (ProviderInputAccepted p)
  then show ?thesis using assms input_accepted_sessions_ahead by (simp add: apply_into_def)
next
  case (ProviderQuestionPresented)
  then show ?thesis using assms
    by (auto simp: apply_into_def apply_question_presented_def Let_def result_simps
        intro!: sessions_ahead_put split: if_splits)
next
  case (ProviderApprovalPresented)
  then show ?thesis using assms
    by (auto simp: apply_into_def apply_approval_presented_def Let_def result_simps
        intro!: sessions_ahead_put split: if_splits)
next
  case (ProviderWaitSettled fence)
  then show ?thesis using assms
    by (auto simp: apply_into_def apply_wait_settled_def Let_def result_simps
        intro!: sessions_ahead_put_existing split: if_splits)
next
  case (ProviderInputDelivered p)
  then show ?thesis using assms
    by (auto simp: apply_into_def apply_input_delivered_def Let_def result_simps
        intro!: sessions_ahead_put_existing sessions_ahead_same[OF refl] split: option.splits if_splits)
qed (use assms in \<open>auto simp: apply_into_def apply_arm_defs snap_upd Let_def result_simps
       intro!: sessions_ahead_same
       split: option.splits if_splits prod.splits sum.splits artifact_content_ref.splits\<close>)

lemma apply_into_ahead: "apply_into x at e s = Inr s' \<Longrightarrow> snapshot_ahead s s'"
  unfolding snapshot_ahead_def
  by (intro conjI)
     (erule apply_into_task_ahead apply_into_agents_ahead apply_into_artifacts_ahead
        apply_into_resources_ahead apply_into_sessions_ahead apply_into_journal_ahead)+

section \<open>One event on a task\<close>

definition task_step :: "ext \<Rightarrow> domain_event \<Rightarrow> task_snapshot \<Rightarrow> apply_error + task_snapshot" where
  "task_step x ev s = apply_event x (Some s) ev"

text \<open>The arm of a mutation, browser facts included, before the revision is set.\<close>

definition mutate :: "ext \<Rightarrow> int \<Rightarrow> event \<Rightarrow> task_snapshot \<Rightarrow> apply_error + task_snapshot" where
  "mutate x at e s =
     (case e of
        Browser f \<Rightarrow>
          if fact_task_id f \<noteq> tk_id (sn_task s) then Inl AeOwnershipConflict
          else rbind (map_err apply_browser_error (apply_facts (x_browser x) [f] (sn_browser s))) (\<lambda>b.
            Inr (s \<lparr> sn_browser := b \<rparr>))
      | _ \<Rightarrow> apply_into x at e s)"

definition creates :: "event \<Rightarrow> bool" where
  "creates e = (case e of TaskCreated _ _ _ _ _ \<Rightarrow> True | _ \<Rightarrow> False)"

lemma require_next_revision_Inr:
  "require_next_revision s ev = Inr n \<longleftrightarrow>
     checked_add (tk_revision (sn_task s)) 1 = Some n \<and> de_task_revision ev = Some n"
  by (auto simp: require_next_revision_def result_simps split: option.splits)

lemma require_matching_task_id_Inr:
  "require_matching_task_id s ev = Inr u \<longleftrightarrow> de_task_id ev = Some (tk_id (sn_task s))"
  by (auto simp: require_matching_task_id_def split: option.splits if_splits)

lemma task_step_mutation:
  assumes "is_task_mutation (de_payload ev)"
  shows "task_step x ev s = Inr s' \<longleftrightarrow>
     de_task_id ev = Some (tk_id (sn_task s))
     \<and> (\<exists>n s1. checked_add (tk_revision (sn_task s)) 1 = Some n \<and> de_task_revision ev = Some n
          \<and> mutate x (de_occurred_at_ms ev) (de_payload ev) s = Inr s1 \<and> \<not> creates (de_payload ev)
          \<and> s' = set_revision n s1)"
  using assms
  by (cases "de_payload ev")
     (auto simp: task_step_def apply_event_def apply_task_created_def apply_browser_event_def mutate_def
       creates_def is_task_mutation_def Let_def result_simps require_matching_task_id_Inr
       require_next_revision_Inr)

lemma task_step_other:
  assumes "\<not> is_task_mutation (de_payload ev)" "task_step x ev s = Inr s'"
  shows "de_task_id ev = Some (tk_id (sn_task s))
     \<and> (s' = s \<or> apply_into x (de_occurred_at_ms ev) (de_payload ev) s = Inr s')"
  using assms
  by (cases "de_payload ev")
     (auto simp: task_step_def apply_event_def is_task_mutation_def Let_def result_simps
       require_matching_task_id_Inr apply_into_def)

lemma mutate_browser:
  assumes "mutate x at (Browser f) s = Inr s'"
  shows "\<exists>b. apply_facts (x_browser x) [f] (sn_browser s) = Inr b \<and> s' = s \<lparr> sn_browser := b \<rparr>
     \<and> bb_facts b = bb_facts (sn_browser s) @ [f]"
  using assms
  by (auto simp: mutate_def result_simps apply_facts_Inr dest: apply_fact_frame split: if_splits)

lemma mutate_ahead:
  assumes "mutate x at e s = Inr s'"
  shows "snapshot_ahead s s' \<and> tk_revision (sn_task s') = tk_revision (sn_task s)"
proof (cases e)
  case (Browser f)
  then obtain b where "s' = s \<lparr> sn_browser := b \<rparr>" "bb_facts b = bb_facts (sn_browser s) @ [f]"
    using mutate_browser assms by blast
  then show ?thesis
    by (simp add: snapshot_ahead_def task_ahead_def agents_ahead_def artifacts_ahead_def
        resources_ahead_def sessions_ahead_def journal_ahead_def)
qed (use assms apply_into_ahead[of x at e s s'] apply_into_task[of x at e s s'] in \<open>simp_all add: mutate_def\<close>)

lemma ahead_set_revision [simp]: "snapshot_ahead s (set_revision n s') = snapshot_ahead s s'"
  by (simp add: snapshot_ahead_def task_ahead_def agents_ahead_def artifacts_ahead_def
      resources_ahead_def sessions_ahead_def journal_ahead_def snap_upd)

lemma task_step_ahead:
  assumes "task_step x ev s = Inr s'"
  shows "snapshot_ahead s s'"
proof (cases "is_task_mutation (de_payload ev)")
  case True
  then show ?thesis using assms by (auto simp: task_step_mutation dest: mutate_ahead)
next
  case False
  then show ?thesis using task_step_other[OF False assms] apply_into_ahead snapshot_ahead_refl by blast
qed

definition revision_weight :: "domain_event \<Rightarrow> nat" where
  "revision_weight ev = (if is_task_mutation (de_payload ev) then 1 else 0)"

definition revision_of :: "task_snapshot \<Rightarrow> nat" where
  "revision_of s = unat (tk_revision (sn_task s))"

lemma task_step_revision:
  assumes "task_step x ev s = Inr s'"
  shows "revision_of s' = revision_of s + revision_weight ev"
    and "revision_weight ev > 0 \<Longrightarrow> map_option unat (de_task_revision ev) = Some (revision_of s')"
proof -
  have "revision_of s' = revision_of s + revision_weight ev
    \<and> (revision_weight ev > 0 \<longrightarrow> map_option unat (de_task_revision ev) = Some (revision_of s'))"
  proof (cases "is_task_mutation (de_payload ev)")
    case True
    then show ?thesis
      using assms
      by (auto simp: task_step_mutation revision_of_def revision_weight_def snap_upd
          dest!: checked_add_SomeD)
  next
    case False
    then show ?thesis using task_step_other[OF False assms] apply_into_task
      by (auto simp: revision_of_def revision_weight_def)
  qed
  then show "revision_of s' = revision_of s + revision_weight ev"
    and "revision_weight ev > 0 \<Longrightarrow> map_option unat (de_task_revision ev) = Some (revision_of s')"
    by blast+
qed

interpretation task_inv: invariant_journal "task_step x" "snap_wf (x_sha256 x)" for x
  by unfold_locales (auto simp: task_step_def intro: wf_apply_event)

interpretation task_ahead: monotone_journal "task_step x" snapshot_ahead for x
  by unfold_locales (auto intro: snapshot_ahead_refl snapshot_ahead_trans task_step_ahead)

interpretation task_rev: fenced_journal "task_step x" revision_of revision_weight
    "\<lambda>ev. map_option unat (de_task_revision ev)" for x
  by unfold_locales (rule task_step_revision; assumption)+
end
