(* ===== verification/Orchestration.thy ===== *)
theory Orchestration
  imports Aggregate
begin

text \<open>
  What holds of a task whose events come from \<open>decide\<close> and from the settlement of its own
  work: one primary agent, at most two open runtimes, a terminal strip that is a
  permutation of the shells that hold a slot, and nothing left running in the archive.
\<close>

section \<open>The invariant of the command path\<close>

definition occupied :: "(resource_id, resource_facts) bmap \<Rightarrow> resource_id \<Rightarrow> bool" where
  "occupied m i \<longleftrightarrow> (\<exists>r. bget m i = Some r \<and> is_plain_shell_terminal r \<and> rs_lifecycle r \<noteq> RsReleased)"

definition sole_primary ::
  "(agent_session_id, agent_session_facts) bmap \<Rightarrow> agent_session_id \<Rightarrow> bool" where
  "sole_primary m p \<longleftrightarrow>
     (\<exists>a. bget m p = Some a \<and> ag_role a = Primary \<and> ag_lifecycle a = AgOpen)
     \<and> (\<forall>j b. bget m j = Some b \<and> ag_role b = Primary \<longrightarrow> j = p)"

definition one_primary :: "(agent_session_id, agent_session_facts) bmap \<Rightarrow> bool" where
  "one_primary m \<longleftrightarrow> m = bempty \<or> (\<exists>p. sole_primary m p)"

definition open_agents :: "(agent_session_id, agent_session_facts) bmap \<Rightarrow> agent_session_id set" where
  "open_agents m = {i. \<exists>a. bget m i = Some a \<and> ag_lifecycle a = AgOpen}"

definition orch_wf :: "task_snapshot \<Rightarrow> bool" where
  "orch_wf s \<longleftrightarrow>
     one_primary (sn_agents s)
     \<and> card (open_agents (sn_agents s)) \<le> DEFAULT_MAX_TOP_LEVEL_RUNTIMES
     \<and> (\<forall>i. i \<in> set (ts_order (sn_terminal_strip s)) \<longleftrightarrow> occupied (sn_resources s) i)
     \<and> (tk_lifecycle (sn_task s) = TlArchived \<or> tk_lifecycle (sn_task s) = TlDeleted \<longrightarrow>
          (\<forall>i r. bget (sn_resources s) i = Some r \<longrightarrow> rs_lifecycle r = RsReleased))"

text \<open>What \<open>decide\<close> checks of an event and \<open>apply\<close> does not.\<close>

definition guarded :: "task_snapshot \<Rightarrow> event \<Rightarrow> bool" where
  "guarded s e =
     (case e of
        AgentSessionRegistered a \<Rightarrow> \<forall>i b. bget (sn_agents s) i = Some b \<longrightarrow> ag_role b \<noteq> Primary
      | TaskTerminalStripSet strip \<Rightarrow> \<forall>i. i \<in> set (ts_order strip) \<longleftrightarrow> occupied (sn_resources s) i
      | ResourceRegistered r \<Rightarrow> is_live (tk_lifecycle (sn_task s))
      | _ \<Rightarrow> True)"

section \<open>Counting open agents\<close>

lemma filter_bvalues_card:
  assumes "\<And>i a. bget m i = Some a \<Longrightarrow> f a = i"
  shows "length (filter P (bvalues m)) = card {i. \<exists>a. bget m i = Some a \<and> P a}"
proof -
  have keys: "map f (bvalues m) = bkeys m"
    using assms by (simp add: bvalues_def bkeys_def) (auto simp: in_entries_iff)
  have "map f (filter P (bvalues m)) = filter (\<lambda>i. \<exists>a. bget m i = Some a \<and> P a) (bkeys m)"
    unfolding keys[symmetric] filter_map comp_def
  proof (intro arg_cong[where f = "map f"] filter_cong refl)
    fix a assume "a \<in> set (bvalues m)"
    then obtain i where "bget m i = Some a" by (auto simp: in_bvalues_iff)
    then show "P a \<longleftrightarrow> (\<exists>b. bget m (f a) = Some b \<and> P b)" using assms by auto
  qed
  then have "length (filter P (bvalues m)) = length (filter (\<lambda>i. \<exists>a. bget m i = Some a \<and> P a) (bkeys m))"
    by (metis length_map)
  also have "\<dots> = card (set (filter (\<lambda>i. \<exists>a. bget m i = Some a \<and> P a) (bkeys m)))"
    by (simp add: distinct_card del: set_filter)
  also have "set (filter (\<lambda>i. \<exists>a. bget m i = Some a \<and> P a) (bkeys m)) = {i. \<exists>a. bget m i = Some a \<and> P a}"
    by (auto simp: bcontains_iff)
  finally show ?thesis .
qed

lemma finite_open_agents [simp]: "finite (open_agents m)"
  by (rule finite_subset[OF _ finite_bcontains[of m]]) (auto simp: open_agents_def bcontains_iff)

lemma role_cases: "ag_role a = Primary \<or> is_specialist a"
  by (cases "ag_role a") (simp_all add: is_specialist_def)

lemma is_specialist_not_primary: "is_specialist a \<longleftrightarrow> ag_role a \<noteq> Primary"
  by (cases "ag_role a") (simp_all add: is_specialist_def)

lemma runtime_counts:
  assumes "agents_wf t (sn_agents s)"
  shows "open_runtime_count s = card (open_agents (sn_agents s))"
    and "top_level_runtime_count s = card (open_agents (sn_agents s))"
  using filter_bvalues_card[of "sn_agents s" ag_id] agents_wfD[OF assms] role_cases
  by (auto simp: open_runtime_count_def top_level_runtime_count_def open_agents_def)

lemma in_fold_bs_insert: "bcontains (fold bs_insert xs m) k \<longleftrightarrow> k \<in> set xs \<or> bcontains m k"
  by (induction xs arbitrary: m) auto

lemma occupied_ids:
  assumes "resources_wf t (sn_resources s)"
  shows "bcontains (occupied_plain_shell_ids s) i \<longleftrightarrow> occupied (sn_resources s) i"
  using resources_wfD[OF assms]
  by (auto simp: occupied_plain_shell_ids_def in_fold_bs_insert in_bvalues_iff occupied_def)

lemma occupied_len:
  assumes wf: "snap_wf sha s" and o: "orch_wf s"
  shows "blen (occupied_plain_shell_ids s) = length (ts_order (sn_terminal_strip s))"
proof -
  have "{i. bcontains (occupied_plain_shell_ids s) i} = set (ts_order (sn_terminal_strip s))"
    using o occupied_ids[OF snap_wfD(5)[OF wf]] by (auto simp: orch_wf_def)
  moreover have "distinct (ts_order (sn_terminal_strip s))"
    using snap_wfD(6)[OF wf] by (simp add: strip_wf_def)
  ultimately show ?thesis by (simp add: blen_card distinct_card)
qed

section \<open>Agents\<close>

definition agents_orch :: "(agent_session_id, agent_session_facts) bmap \<Rightarrow> bool" where
  "agents_orch m \<longleftrightarrow> one_primary m \<and> card (open_agents m) \<le> DEFAULT_MAX_TOP_LEVEL_RUNTIMES"

lemma open_agents_binsert:
  "open_agents (binsert i a m) = (if ag_lifecycle a = AgOpen then insert i (open_agents m) else open_agents m - {i})"
  by (auto simp: open_agents_def)

lemma sole_primary_exists:
  "one_primary m \<Longrightarrow> bget m i = Some b \<Longrightarrow> \<exists>p. sole_primary m p"
  by (auto simp: one_primary_def)

lemma sole_primary_keep:
  assumes "sole_primary m p" "bget m i = None \<or> (\<exists>b. bget m i = Some b \<and> ag_role b = ag_role a
      \<and> (ag_role b = Primary \<longrightarrow> ag_lifecycle b = ag_lifecycle a))" "bget m i = None \<longrightarrow> ag_role a \<noteq> Primary"
  shows "sole_primary (binsert i a m) p"
  using assms by (auto simp: sole_primary_def) blast

lemma one_primary_keep:
  assumes "one_primary m" "bget m i = Some b" "ag_role a = ag_role b"
    "ag_role b = Primary \<longrightarrow> ag_lifecycle a = ag_lifecycle b"
  shows "one_primary (binsert i a m)"
proof -
  obtain p where "sole_primary m p" using sole_primary_exists[OF assms(1,2)] by blast
  then have "sole_primary (binsert i a m) p" using assms by (intro sole_primary_keep) auto
  then show ?thesis by (auto simp: one_primary_def)
qed

lemma agents_orch_same:
  assumes "agents_orch m" "bget m i = Some b" "ag_role a = ag_role b" "ag_lifecycle a = ag_lifecycle b"
  shows "agents_orch (binsert i a m)"
proof -
  have "open_agents (binsert i a m) = open_agents m"
    using assms(2,4) by (auto simp: open_agents_def)
  then show ?thesis using assms one_primary_keep[of m i b a] by (simp add: agents_orch_def)
qed

lemma agents_orch_close:
  assumes "agents_orch m" "bget m i = Some b" "ag_role b \<noteq> Primary"
  shows "agents_orch (binsert i (b \<lparr> ag_lifecycle := AgClosed \<rparr>) m)"
proof -
  have "card (open_agents m - {i}) \<le> card (open_agents m)" by (intro card_mono) auto
  then show ?thesis
    using assms one_primary_keep[of m i b "b \<lparr> ag_lifecycle := AgClosed \<rparr>"]
    by (simp add: agents_orch_def open_agents_binsert)
qed

lemma agents_orch_first:
  assumes "agents_orch m" "\<forall>i b. bget m i = Some b \<longrightarrow> ag_role b \<noteq> Primary" "ag_role a = Primary"
    "ag_lifecycle a = AgOpen"
  shows "agents_orch (binsert i a m)"
proof -
  have "m = bempty"
    using assms(1,2) by (auto simp: agents_orch_def one_primary_def sole_primary_def)
  then show ?thesis
    using assms(3,4)
    by (auto simp: agents_orch_def one_primary_def sole_primary_def open_agents_def
        DEFAULT_MAX_TOP_LEVEL_RUNTIMES_def)
qed

lemma agents_orch_specialist:
  assumes "agents_orch m" "bget m p = Some b" "bget m i = None" "ag_role a \<noteq> Primary"
    "card (open_agents m) < DEFAULT_MAX_TOP_LEVEL_RUNTIMES"
  shows "agents_orch (binsert i a m)"
proof -
  have "card (open_agents (binsert i a m)) \<le> Suc (card (open_agents m))"
    by (auto simp: open_agents_binsert card_insert_if intro: le_SucI card_mono)
  moreover obtain q where "sole_primary m q"
    using sole_primary_exists[OF _ assms(2)] assms(1) by (auto simp: agents_orch_def)
  then have "sole_primary (binsert i a m) q" using assms by (intro sole_primary_keep) auto
  ultimately show ?thesis using assms(5) by (auto simp: agents_orch_def one_primary_def)
qed

lemma agents_orch_promote:
  assumes o: "agents_orch m" and p: "bget m p = Some a" "ag_role a = Primary" "ag_lifecycle a = AgOpen"
    and q: "bget m q = Some b" "ag_role b \<noteq> Primary" "ag_lifecycle b = AgOpen" and role: "role \<noteq> Primary"
  shows "agents_orch (binsert q (b \<lparr> ag_role := Primary \<rparr>) (binsert p (a \<lparr> ag_role := role \<rparr>) m))"
    (is "agents_orch ?m")
proof -
  have "sole_primary m p"
    using sole_primary_exists[OF _ p(1)] o p by (auto simp: agents_orch_def sole_primary_def)
  then have "sole_primary ?m q" using p q role by (auto simp: sole_primary_def)
  moreover have "open_agents ?m = open_agents m" using p q by (auto simp: open_agents_def)
  ultimately show ?thesis using o by (auto simp: agents_orch_def one_primary_def)
qed

lemma specialist_role_not_primary [simp]: "agent_role_specialist n \<noteq> Inr Primary"
  by (auto simp: agent_role_specialist_def result_simps)

lemma mutate_agents_orch:
  assumes wf: "snap_wf sha s" and o: "agents_orch (sn_agents s)" and g: "guarded s e"
    and ap: "apply_into x at e s = Inr s'"
  shows "agents_orch (sn_agents s')"
proof (cases e)
  case (AgentSessionRegistered a)
  then show ?thesis using ap g
    by (auto simp: apply_into_def apply_agent_registered_def guarded_def snap_upd Let_def result_simps
        is_specialist_not_primary validate_for_registration_def intro!: agents_orch_first[OF o] split: if_splits)
next
  case (AgentProviderSessionBound)
  then show ?thesis using ap o
    by (auto simp: apply_into_def apply_provider_bound_def snap_upd result_simps
        intro!: agents_orch_same[OF o] split: option.splits if_splits)
next
  case (AgentProviderSessionAbandoned)
  then show ?thesis using ap o
    by (auto simp: apply_into_def apply_provider_abandoned_def snap_upd
        intro!: agents_orch_same[OF o] split: option.splits if_splits)
next
  case (UnstartedPrimaryProviderRebound)
  then show ?thesis using ap
    by (auto simp: apply_into_def apply_unstarted_rebound_def snap_upd
        intro!: agents_orch_same[OF o] split: option.splits if_splits)
next
  case (SpecialistRequested q)
  then show ?thesis using ap runtime_counts(1)[OF snap_wfD(2)[OF wf]]
    by (auto simp: apply_into_def apply_specialist_requested_def snap_upd Let_def result_simps
        is_specialist_not_primary bcontains_iff not_le
        intro!: agents_orch_specialist[OF o] split: option.splits if_splits)
next
  case (PrimaryPromoted)
  then show ?thesis using ap
    by (auto simp: apply_into_def apply_primary_promoted_def snap_upd Let_def result_simps
        is_specialist_not_primary intro!: agents_orch_promote[OF o]
        split: option.splits if_splits)
next
  case (SpecialistHandoffRecorded)
  then show ?thesis using ap
    by (auto simp: apply_into_def apply_handoff_recorded_def snap_upd result_simps is_specialist_not_primary
        intro!: agents_orch_close[OF o] split: option.splits if_splits artifact_content_ref.splits)
next
  case (SpecialistClosed)
  then show ?thesis using ap
    by (auto simp: apply_into_def apply_specialist_closed_def snap_upd is_specialist_not_primary
        intro!: agents_orch_close[OF o] split: option.splits if_splits)
qed (use ap o in \<open>auto simp: apply_into_def apply_arm_defs snap_upd Let_def result_simps
       split: option.splits if_splits prod.splits sum.splits\<close>)

section \<open>The strip and the archive\<close>

lemma occupied_binsert:
  "occupied (binsert i r m) j \<longleftrightarrow>
     (if j = i then is_plain_shell_terminal r \<and> rs_lifecycle r \<noteq> RsReleased else occupied m j)"
  by (simp add: occupied_def)

definition strip_exact :: "task_snapshot \<Rightarrow> bool" where
  "strip_exact s \<longleftrightarrow> (\<forall>i. i \<in> set (ts_order (sn_terminal_strip s)) \<longleftrightarrow> occupied (sn_resources s) i)"

lemma strip_exact_same:
  "sn_terminal_strip s' = sn_terminal_strip s \<Longrightarrow> sn_resources s' = sn_resources s
     \<Longrightarrow> strip_exact s' = strip_exact s"
  by (simp add: strip_exact_def)

lemma mutate_strip_exact:
  assumes wf: "snap_wf sha s" and o: "strip_exact s" and g: "guarded s e"
    and ap: "apply_into x at e s = Inr s'"
  shows "strip_exact s'"
proof (cases e)
  case (ResourceRegistered r)
  have "is_plain_shell_terminal r \<longleftrightarrow> is_plain_shell (rs_recipe r)" if "resource_validate r = Inr ()"
    using plain_shell_is_terminal[OF that] by (auto simp: is_plain_shell_terminal_def)
  then show ?thesis using ap o ResourceRegistered
    by (auto simp: apply_into_def apply_resource_registered_def strip_exact_def occupied_binsert
        strip_push_def Let_def result_simps bcontains_iff is_plain_shell_terminal_def occupied_def
        split: if_splits)
next
  case (ResourceReleaseBegun)
  then show ?thesis using ap o
    by (auto simp: apply_into_def apply_release_begun_def strip_exact_def occupied_binsert
        is_plain_shell_terminal_def occupied_def split: option.splits if_splits)
next
  case (ResourceReleased)
  then show ?thesis using ap o
    by (auto simp: apply_into_def apply_resource_released_def strip_exact_def occupied_binsert
        strip_remove_def split: option.splits if_splits)
next
  case (TerminalRenamed)
  then show ?thesis using ap o
    by (auto simp: apply_into_def apply_terminal_renamed_def upd_terminal_def strip_exact_def occupied_binsert
        is_plain_shell_terminal_def occupied_def result_simps split: option.splits if_splits)
next
  case (TaskTerminalStripSet strip)
  then show ?thesis using ap g
    by (auto simp: apply_into_def apply_strip_set_def strip_exact_def guarded_def result_simps)
qed (use ap o in \<open>auto simp: apply_into_def apply_arm_defs snap_upd Let_def result_simps strip_exact_def
       split: option.splits if_splits prod.splits sum.splits artifact_content_ref.splits\<close>)

definition archive_quiet :: "task_snapshot \<Rightarrow> bool" where
  "archive_quiet s \<longleftrightarrow>
     (tk_lifecycle (sn_task s) = TlArchived \<or> tk_lifecycle (sn_task s) = TlDeleted \<longrightarrow>
        (\<forall>i r. bget (sn_resources s) i = Some r \<longrightarrow> rs_lifecycle r = RsReleased))"

lemma orch_wf_iff: "orch_wf s \<longleftrightarrow> agents_orch (sn_agents s) \<and> strip_exact s \<and> archive_quiet s"
  by (simp add: orch_wf_def agents_orch_def strip_exact_def archive_quiet_def)

definition registers :: "event \<Rightarrow> bool" where
  "registers e = (case e of ResourceRegistered _ \<Rightarrow> True | _ \<Rightarrow> False)"

lemma apply_into_resource_keys:
  assumes "apply_into x at e s = Inr s'" "\<not> registers e"
  shows "bcontains (sn_resources s') i = bcontains (sn_resources s) i"
  using assms
  by (cases e)
     (auto simp: registers_def apply_into_def apply_arm_defs snap_upd Let_def result_simps bcontains_iff
       split: option.splits if_splits prod.splits sum.splits artifact_content_ref.splits)

definition in_archive :: "task_snapshot \<Rightarrow> bool" where
  "in_archive s \<longleftrightarrow> tk_lifecycle (sn_task s) = TlArchived \<or> tk_lifecycle (sn_task s) = TlDeleted"

lemma apply_into_in_archive:
  assumes "apply_into x at e s = Inr s'" "e \<noteq> TaskArchived" "in_archive s'"
  shows "in_archive s"
  using assms
  by (cases e)
     (auto simp: in_archive_def apply_into_def apply_arm_defs snap_upd Let_def result_simps
       split: option.splits if_splits prod.splits sum.splits artifact_content_ref.splits)

lemma archive_quiet_iff:
  "archive_quiet s \<longleftrightarrow>
     (in_archive s \<longrightarrow> (\<forall>i r. bget (sn_resources s) i = Some r \<longrightarrow> rs_lifecycle r = RsReleased))"
  by (simp add: archive_quiet_def in_archive_def)

lemma resource_rank_Released: "resource_rank RsReleased \<le> resource_rank l \<longleftrightarrow> l = RsReleased"
  by (cases l) (simp_all add: resource_rank_def)

lemma quiet_stays:
  assumes "archive_quiet s" "apply_into x at e s = Inr s'" "e \<noteq> TaskArchived" "\<not> registers e"
  shows "archive_quiet s'"
  unfolding archive_quiet_iff
proof (intro impI allI)
  fix i r assume arch: "in_archive s'" and r: "bget (sn_resources s') i = Some r"
  obtain q where q: "bget (sn_resources s) i = Some q"
    using apply_into_resource_keys[OF assms(2,4), of i] r by (auto simp: bcontains_iff)
  have "rs_lifecycle q = RsReleased"
    using assms(1) q apply_into_in_archive[OF assms(2,3) arch] unfolding archive_quiet_iff by blast
  moreover have "resource_rank (rs_lifecycle q) \<le> resource_rank (rs_lifecycle r)"
    using apply_into_resources_ahead[OF assms(2)] q r unfolding resources_ahead_def by fastforce
  ultimately show "rs_lifecycle r = RsReleased" by (simp add: resource_rank_Released)
qed

lemma archived_quiet:
  assumes ap: "apply_task_archived s = Inr s'"
  shows "archive_quiet s'"
proof -
  have "rs_lifecycle r = RsReleased" if r: "bget (sn_resources s) i = Some r" for i r
  proof -
    have "r \<in> set (bvalues (sn_resources s))" using r by (auto simp: in_bvalues_iff)
    then have "rs_lifecycle r \<noteq> RsActive \<and> rs_lifecycle r \<noteq> RsReleasing"
      using ap by (auto simp: apply_task_archived_def list_ex_iff split: if_splits)
    then show ?thesis by (cases "rs_lifecycle r") simp_all
  qed
  moreover have "sn_resources s' = sn_resources s"
    using ap by (auto simp: apply_task_archived_def snap_upd split: if_splits)
  ultimately show ?thesis by (simp add: archive_quiet_def)
qed

lemma mutate_archive_quiet:
  assumes o: "archive_quiet s" and g: "guarded s e" and ap: "apply_into x at e s = Inr s'"
  shows "archive_quiet s'"
proof (cases "e = TaskArchived \<or> registers e")
  case True
  then show ?thesis
  proof
    assume "e = TaskArchived"
    then show ?thesis using ap archived_quiet by (simp add: apply_into_def)
  next
    assume "registers e"
    then obtain r where "e = ResourceRegistered r" by (cases e) (simp_all add: registers_def)
    then have "\<not> in_archive s'"
      using apply_into_in_archive[OF ap] g by (auto simp: guarded_def is_live_def in_archive_def)
    then show ?thesis by (simp add: archive_quiet_iff)
  qed
qed (use quiet_stays[OF o ap] in blast)

lemma mutate_orch:
  assumes wf: "snap_wf sha s" and o: "orch_wf s" and g: "guarded s e" and ap: "mutate x at e s = Inr s'"
  shows "orch_wf s'"
proof (cases "\<exists>f. e = Browser f")
  case True
  then obtain b where "s' = s \<lparr> sn_browser := b \<rparr>" using mutate_browser ap by blast
  then show ?thesis using o by (simp add: orch_wf_def)
next
  case False
  then have "apply_into x at e s = Inr s'" using ap by (cases e) (simp_all add: mutate_def)
  then show ?thesis
    using o mutate_agents_orch[OF wf _ g] mutate_strip_exact[OF wf _ g] mutate_archive_quiet[OF _ g]
    unfolding orch_wf_iff by blast
qed
end
