(* ===== verification/Soundness.thy ===== *)
theory Soundness
  imports Orchestration
begin

text \<open>
  \<open>decide\<close> against \<open>apply\<close>: the events of an accepted command apply to the snapshot they were
  decided on, except in the cases that \<open>decide_gap\<close> lists, and keep its invariants.
\<close>

section \<open>Applying the events of a command\<close>

definition advance :: "ext \<Rightarrow> int \<Rightarrow> event \<Rightarrow> task_snapshot \<Rightarrow> apply_error + task_snapshot" where
  "advance x at e s =
     rbind (ok_or (checked_add (tk_revision (sn_task s)) 1) AeInvalidTransition) (\<lambda>n.
     rbind (mutate x at e s) (\<lambda>s1. Inr (set_revision n s1)))"

lemma advance_id:
  assumes "advance x at e s = Inr s'"
  shows "tk_id (sn_task s') = tk_id (sn_task s) \<and> revision_of s' = Suc (revision_of s)"
proof -
  obtain n s1 where n: "checked_add (tk_revision (sn_task s)) 1 = Some n"
    and s1: "mutate x at e s = Inr s1" and s': "s' = set_revision n s1"
    using assms by (auto simp: advance_def result_simps)
  show ?thesis using mutate_ahead[OF s1] checked_add_SomeD[OF n]
    by (simp add: s' snap_upd revision_of_def snapshot_ahead_def task_ahead_def)
qed

definition plain_mutation :: "event \<Rightarrow> bool" where
  "plain_mutation e \<longleftrightarrow> is_task_mutation e \<and> \<not> creates e"

lemma apply_event_advance:
  assumes e: "plain_mutation e" and n: "checked_add (tk_revision (sn_task s)) 1 = Some n"
  shows "apply_event x (Some s) \<lparr> de_id = i, de_task_id = Some (tk_id (sn_task s)), de_sequence = q,
           de_task_revision = Some n, de_occurred_at_ms = at, de_payload = e \<rparr> = advance x at e s"
  using e n
  by (cases e)
     (simp_all add: plain_mutation_def creates_def is_task_mutation_def apply_event_def Let_def advance_def
       mutate_def apply_browser_event_def require_matching_task_id_def require_next_revision_def rbind_assoc)

lemma apply_all_loop_advance:
  assumes "\<forall>e\<in>set es. plain_mutation e" "t = tk_id (sn_task s)"
  shows "apply_all_loop x fresh (Some t) k es (Some s) = map_ok Some (try_fold (advance x 1) es s)"
  using assms
proof (induction es arbitrary: s k)
  case (Cons e es)
  show ?case
  proof (cases "checked_add (tk_revision (sn_task s)) 1")
    case None
    then show ?thesis using Cons.prems by (simp add: plain_mutation_def advance_def)
  next
    case (Some n)
    show ?thesis
    proof (cases "advance x 1 e s")
      case (Inl err)
      then show ?thesis using Cons.prems Some by (simp add: apply_event_advance) (simp add: plain_mutation_def)
    next
      case (Inr s1)
      then have "tk_id (sn_task s1) = t" using advance_id[OF Inr] Cons.prems by simp
      moreover have "is_task_mutation e" using Cons.prems by (simp add: plain_mutation_def)
      ultimately show ?thesis using Cons.IH[of s1 "Suc k"] Cons.prems Some Inr
        by (simp add: apply_event_advance)
    qed
  qed
qed simp

lemma apply_all_advance:
  assumes "\<forall>e\<in>set es. plain_mutation e"
  shows "apply_all x fresh (Some s) es = try_fold (advance x 1) es s"
  using apply_all_loop_advance[OF assms refl]
  by (cases "try_fold (advance x 1) es s") (simp_all add: apply_all_def)

lemma advance_ok:
  assumes "mutate x at e s = Inr s1" "Suc (revision_of s) < 2 ^ 64"
  shows "\<exists>s'. advance x at e s = Inr s'"
  using assms by (simp add: advance_def checked_add_def revision_of_def)

lemma wf_advance:
  assumes "snap_wf (x_sha256 x) s" "advance x at e s = Inr s'"
  shows "snap_wf (x_sha256 x) s'"
proof -
  obtain n s1 where s1: "mutate x at e s = Inr s1" and s': "s' = set_revision n s1"
    using assms(2) by (auto simp: advance_def result_simps)
  have "snap_wf (x_sha256 x) s1"
  proof (cases "\<exists>f. e = Browser f")
    case True
    then obtain f where f: "e = Browser f" by blast
    obtain b where b: "apply_facts (x_browser x) [f] (sn_browser s) = Inr b" "s1 = s \<lparr> sn_browser := b \<rparr>"
      using mutate_browser s1 f by blast
    have "fact_task_id f = tk_id (sn_task s)" using s1 f by (auto simp: mutate_def split: if_splits)
    then show ?thesis
      using snap_wfD[OF assms(1)] browser_wf_fact[OF _ b(1)] unfolding b(2) by (intro snap_wfI) auto
  next
    case False
    then have "apply_into x at e s = Inr s1" using s1 by (cases e) (simp_all add: mutate_def)
    then show ?thesis using wf_apply_into assms(1) by blast
  qed
  then show ?thesis unfolding s' by (rule wf_set_revision)
qed

lemma orch_set_revision [simp]: "orch_wf (set_revision n s) = orch_wf s"
  by (simp add: orch_wf_def snap_upd)

lemma orch_advance:
  assumes "snap_wf sha s" "orch_wf s" "guarded s e" "advance x at e s = Inr s'"
  shows "orch_wf s'"
  using assms mutate_orch[OF assms(1-3)] by (auto simp: advance_def result_simps)

section \<open>Arms that decide at most one event\<close>

definition lands :: "ext \<Rightarrow> task_snapshot \<Rightarrow> event list \<Rightarrow> bool" where
  "lands x s es \<longleftrightarrow> es = []
     \<or> (\<exists>e. es = [e] \<and> plain_mutation e \<and> guarded s e \<and> (\<forall>at. is_ok (mutate x at e s)))"

lemma landsI:
  "plain_mutation e \<Longrightarrow> guarded s e \<Longrightarrow> (\<And>at. \<exists>s'. mutate x at e s = Inr s') \<Longrightarrow> lands x s [e]"
  by (auto simp: lands_def is_ok_iff)

lemmas arm_simps = plain_mutation_def is_task_mutation_def creates_def guarded_def mutate_def apply_into_def

lemma canonicalize_title_idem:
  "canonicalize_title v = Inr t \<Longrightarrow> canonicalize_title t = Inr t"
  using canonicalize_title_canonical by (auto simp: canonicalize_title_def canonicalize_canonical)

lemma rename_task_lands: "decide_rename_task title s = Inr es \<Longrightarrow> lands x s es"
  by (auto simp: decide_rename_task_def result_simps apply_task_renamed_def arm_simps
      dest: canonicalize_title_idem intro!: landsI)

lemma attention_lands: "lands x s [TaskAttentionSet attention]"
  by (auto simp: apply_attention_set_def arm_simps intro!: landsI)

lemma settle_task_lands: "decide_settle_task s = Inr es \<Longrightarrow> lands x s es"
  by (auto simp: decide_settle_task_def apply_task_settled_def arm_simps lands_def
      split: task_lifecycle.splits)

lemma begin_close_lands:
  assumes wf: "snap_wf sha s" and d: "decide_begin_close s = Inr es"
    and room: "plan_close_task (sn_browser s) (tk_id (sn_task s)) = []
      \<or> length (bb_facts (sn_browser s)) + length (plan_close_task (sn_browser s) (tk_id (sn_task s)))
          \<le> MAX_BROWSER_JOURNAL_FACTS"
  shows "lands x s es"
proof (cases "tk_lifecycle (sn_task s) = TlClosing")
  case True
  then show ?thesis using d by (simp add: decide_begin_close_def lands_def)
next
  case False
  then obtain n where live: "is_live (tk_lifecycle (sn_task s))"
      and n: "checked_add (tk_action_epoch (sn_task s)) 1 = Some n" and es: "es = [TaskCloseBegun n]"
    using d by (auto simp: decide_begin_close_def is_live_def Let_def result_simps split: task_lifecycle.splits)
  have "bcontains (bb_open_tasks (sn_browser s)) (tk_id (sn_task s))"
    using snap_wfD(9)[OF wf] live by (simp add: browser_wf_def)
  then obtain b where "close_task (x_browser x) (tk_id (sn_task s)) (sn_browser s) = (Inr (), b)"
    using close_task_ok_iff[of "x_browser x" "tk_id (sn_task s)" "sn_browser s"] room by auto
  then show ?thesis unfolding es
    using live n by (intro landsI) (auto simp: arm_simps apply_close_begun_def is_live_def snap_upd Let_def)
qed

lemma open_task_ok:
  assumes "browser_wf t l b"
  shows "\<exists>b'. open_task t b = Inr b'"
proof (cases "is_live l")
  case False
  then have "{k. bcontains (bb_open_tasks b) k} = {}" using assms by (simp add: browser_wf_def)
  then have "blen (bb_open_tasks b) = 0" unfolding blen_card by (simp only: card.empty)
  then show ?thesis by (simp add: open_task_def browser_bounds)
qed (use assms in \<open>simp add: browser_wf_def open_task_def\<close>)

lemma reopen_task_lands:
  assumes "snap_wf sha s" "decide_reopen_task s = Inr es"
  shows "lands x s es"
  using assms(2) open_task_ok[OF snap_wfD(9)[OF assms(1)]]
  by (auto simp: decide_reopen_task_def apply_task_reopened_def arm_simps intro!: landsI
      split: task_lifecycle.splits)

lemma delete_task_lands: "decide_delete_task s = Inr es \<Longrightarrow> lands x s es"
  by (auto simp: decide_delete_task_def apply_task_deleted_def arm_simps intro!: landsI
      split: task_lifecycle.splits)

lemma list_ex_bvalues: "list_ex P (bvalues m) \<longleftrightarrow> (\<exists>i a. bget m i = Some a \<and> P a)"
  unfolding list_ex_iff Bex_def in_bvalues_iff by blast

lemma require_agent_Inr:
  "require_open_agent a = Inr u \<longleftrightarrow> ag_lifecycle a = AgOpen"
  "require_live_agent a = Inr u \<longleftrightarrow> ag_lifecycle a = AgOpen \<or> ag_lifecycle a = AgClosing"
  by (cases "ag_lifecycle a"; simp add: require_open_agent_def require_live_agent_def)+

lemma register_agent_lands:
  assumes "decide_register_agent a s = Inr es"
  shows "lands x s es"
  using assms
  by (auto simp: decide_register_agent_def apply_agent_registered_def arm_simps Let_def is_ok_iff
      list_ex_bvalues is_specialist_not_primary intro!: landsI split: if_splits)

lemma bind_provider_lands:
  assumes "decide_bind_provider aid rid ps generation s = Inr es"
  shows "lands x s es"
  using assms
  by (auto simp: decide_bind_provider_def require_agent_Inr apply_provider_bound_def arm_simps
      result_simps intro!: landsI split: if_splits option.splits)

lemma abandon_provider_lands:
  assumes "decide_abandon_provider aid ps generation s = Inr es"
  shows "lands x s es"
proof -
  obtain agent where "bget (sn_agents s) aid = Some agent" "ag_lifecycle agent = AgOpen"
    "ag_runtime_generation agent = generation" "ag_provider_session_id agent = Some ps"
    and es: "es = [AgentProviderSessionAbandoned aid ps generation]"
    using assms
    by (auto simp: decide_abandon_provider_def require_agent_Inr result_simps split: if_splits option.splits)
  then show ?thesis unfolding es
    by (intro landsI) (simp_all add: apply_provider_abandoned_def arm_simps)
qed

lemma set_primary_lands:
  assumes "decide_set_primary aid s = Inr es"
  shows "lands x s es"
  using assms
  by (auto simp: decide_set_primary_def apply_primary_agent_set_def arm_simps intro!: landsI
      split: if_splits option.splits)

lemma rebind_unstarted_lands:
  assumes "decide_rebind_unstarted aid kind s = Inr es"
  shows "lands x s es"
proof -
  have "lands x s []" by (simp add: lands_def)
  then show ?thesis
    using assms
    by (auto simp: decide_rebind_unstarted_def apply_unstarted_rebound_def arm_simps intro!: landsI
        split: if_splits option.splits)
qed

lemma register_artifact_lands:
  assumes "decide_register_artifact a s = Inr es"
  shows "lands x s es"
  using assms
  by (auto simp: decide_register_artifact_def apply_artifact_registered_def arm_simps is_ok_iff
      intro!: landsI split: if_splits)

lemma resource_registered_lands:
  assumes "rs_owner_kind r = OwnerTask" "rs_task_id r = Some (tk_id (sn_task s))"
    "resource_validate r = Inr ()" "rs_lifecycle r = RsActive" "\<not> bcontains (sn_resources s) (rs_id r)"
    "is_plain_shell (rs_recipe r) \<longrightarrow> length (ts_order (sn_terminal_strip s)) < MAX_PLAIN_SHELLS_PER_TASK"
    "is_live (tk_lifecycle (sn_task s))"
  shows "lands x s [ResourceRegistered r]"
  using assms by (intro landsI) (auto simp: apply_resource_registered_def arm_simps Let_def)

lemma register_resource_lands:
  assumes "decide_register_resource r s = Inr es" "is_live (tk_lifecycle (sn_task s))"
    "is_plain_shell (rs_recipe r) \<longrightarrow> length (ts_order (sn_terminal_strip s)) < MAX_PLAIN_SHELLS_PER_TASK"
  shows "lands x s es"
  using assms
  by (auto simp: decide_register_resource_def is_ok_iff intro!: resource_registered_lands split: if_splits)

lemma release_begun_lands:
  assumes "bget (sn_resources s) rid = Some r" "rs_owner_kind r = OwnerTask"
    "rs_task_id r = Some (tk_id (sn_task s))" "rs_lifecycle r = RsActive"
  shows "lands x s [ResourceReleaseBegun rid (rs_runtime_generation r)]"
  using assms by (intro landsI) (auto simp: apply_release_begun_def arm_simps)

lemma release_resource_lands:
  assumes "decide_release_resource rid s = Inr es"
  shows "lands x s es"
proof -
  have "lands x s []" by (simp add: lands_def)
  then show ?thesis
    using assms
    by (auto simp: decide_release_resource_def intro!: release_begun_lands
        split: if_splits option.splits resource_lifecycle.splits)
qed

lemma open_shell_lands:
  assumes wf: "snap_wf sha s" and o: "orch_wf s" and live: "is_live (tk_lifecycle (sn_task s))"
    and d: "decide_open_shell_terminal r s = Inr es"
  shows "lands x s es"
  using d live occupied_len[OF wf o]
  by (auto simp: decide_open_shell_terminal_def resource_validate_for_registration_def result_simps
      intro!: resource_registered_lands split: if_splits)

lemma require_task_plain_shell_Inr:
  "require_task_plain_shell s rid = Inr r \<longleftrightarrow>
     bget (sn_resources s) rid = Some r \<and> rs_owner_kind r = OwnerTask
     \<and> rs_task_id r = Some (tk_id (sn_task s)) \<and> is_plain_shell_terminal r \<and> rs_lifecycle r \<noteq> RsReleased"
  by (auto simp: require_task_plain_shell_def result_simps)

lemma close_terminal_lands:
  assumes "decide_close_terminal rid s = Inr es"
  shows "lands x s es"
  using assms
  by (auto simp: decide_close_terminal_def require_task_plain_shell_Inr result_simps
      intro!: release_begun_lands split: if_splits)

lemma rename_terminal_lands:
  assumes wf: "snap_wf sha s" and d: "decide_rename_terminal rid title s = Inr es"
  shows "lands x s es"
proof -
  obtain r where r: "bget (sn_resources s) rid = Some r" "is_plain_shell_terminal r" "rs_lifecycle r \<noteq> RsReleased"
    and title: "validate_terminal_title (trim title) = Inr ()" and es: "es = [TerminalRenamed rid (trim title)]"
    using d by (auto simp: decide_rename_terminal_def Let_def result_simps require_task_plain_shell_Inr)
  have "bcontains (sn_terminal_facts s) rid"
    using snap_wfD(7)[OF wf] r by (auto simp: terminals_wf_def is_plain_shell_terminal_def)
  then show ?thesis unfolding es
    using r title
    by (intro landsI)
       (auto simp: apply_terminal_renamed_def upd_terminal_def arm_simps is_plain_shell_terminal_def bcontains_iff)
qed

lemma set_strip_lands:
  assumes wf: "snap_wf sha s" and d: "decide_set_strip strip s = Inr es"
  shows "lands x s es"
proof -
  have v: "strip_validate (tk_id (sn_task s)) (sn_resources s) strip = Inr ()"
    and eq: "fold bs_insert (ts_order strip) bempty = occupied_plain_shell_ids s"
    and es: "es = [TaskTerminalStripSet strip]"
    using d by (auto simp: decide_set_strip_def result_simps)
  have "i \<in> set (ts_order strip) \<longleftrightarrow> occupied (sn_resources s) i" for i
    using arg_cong[OF eq, of "\<lambda>m. bcontains m i"] occupied_ids[OF snap_wfD(5)[OF wf], of i]
    by (simp add: in_fold_bs_insert)
  then show ?thesis unfolding es
    using v by (intro landsI) (auto simp: apply_strip_set_def arm_simps)
qed

section \<open>Provider arms\<close>

definition winners_full :: "submit_provider_input_intent \<Rightarrow> task_snapshot \<Rightarrow> bool" where
  "winners_full i s =
     (let p = session_or_default (si_agent_session_id i) s
      in case si_action i of
           AnswerQuestion _ _ \<Rightarrow> blen (pp_question_winners p) \<ge> MAX_PROVIDER_QUESTION_WINS
         | ResolveApproval _ _ \<Rightarrow> blen (pp_approval_winners p) \<ge> MAX_PROVIDER_APPROVAL_WINS
         | _ \<Rightarrow> False)"

lemma input_provider_session_Inr:
  "input_provider_session a = Inr ps \<longleftrightarrow>
     ps = ag_provider_session_id a \<and> (ag_provider_session_id a = None \<longrightarrow> ag_provider_kind a = Codex)"
  by (cases "ag_provider_session_id a"; cases "ag_provider_kind a")
     (auto simp: input_provider_session_def)

lemma nested_ids_exclusive:
  "validate_action_nested_ids action q a = Inr () \<Longrightarrow> q = None \<or> a = None"
  by (cases action) (auto simp: validate_action_nested_ids_def Let_def result_simps is_some_iff split: if_splits)

lemma check_input_turn_current:
  assumes "check_input_turn action turn p = Inr ()"
  shows "is_send_now action \<and> can_begin_send_now_turn p turn \<or> pp_current_turn p = None \<or> pp_current_turn p = Some turn"
  using assms
  by (cases action) (auto simp: check_input_turn_def is_send_now_def Let_def split: if_splits option.splits)

lemma check_input_turn_resolution:
  assumes "check_input_turn action turn p = Inr ()"
  shows "check_resolution action p = Inr ()"
  using assms
  by (cases action) (auto simp: check_input_turn_def check_resolution_def split: if_splits)

lemma record_resolution_ok:
  assumes "check_resolution action p = Inr ()"
    "case action of AnswerQuestion _ _ \<Rightarrow> blen (pp_question_winners p) < MAX_PROVIDER_QUESTION_WINS
       | ResolveApproval _ _ \<Rightarrow> blen (pp_approval_winners p) < MAX_PROVIDER_APPROVAL_WINS
       | _ \<Rightarrow> True"
  shows "\<exists>p'. record_resolution action w p = Inr p' \<and> pp_waits p' = pp_waits p"
  using assms
  by (cases action)
     (auto simp: record_resolution_def bounded_insert_question_winner_def bounded_insert_approval_winner_def)

lemma accept_into_session_ok:
  assumes chk: "check_resolution (pia_action e) p = Inr ()"
    and room: "case pia_action e of
        AnswerQuestion _ _ \<Rightarrow> blen (pp_question_winners p) < MAX_PROVIDER_QUESTION_WINS
      | ResolveApproval _ _ \<Rightarrow> blen (pp_approval_winners p) < MAX_PROVIDER_APPROVAL_WINS
      | _ \<Rightarrow> True"
    and waits: "pia_wait e \<longrightarrow> bcontains (pp_waits p) (pia_command_id e) \<or> pending_waits p < MAX_PROVIDER_WAITS"
    and bound: "blen (pp_waits p) \<le> MAX_PROVIDER_WAITS"
  shows "\<exists>p'. accept_into_session at fence e p = Inr p'"
proof -
  let ?p = "p \<lparr> pp_current_turn := Some (pia_turn_id e),
              pp_last_settlement := Some \<lparr> ps_command_id = pia_command_id e,
                     ps_operation_id = Some (pia_operation_id e), ps_intent = PhaseAccepted,
                     ps_delivery = pia_delivery e \<rparr> \<rparr>"
  let ?w = "\<lparr> pw_command_id = pia_command_id e, pw_client_id = pia_client_id e, pw_accepted_at_ms = at \<rparr>"
  have "check_resolution (pia_action e) ?p = Inr ()"
    using chk by (cases "pia_action e") (simp_all add: check_resolution_def split: if_splits)
  then obtain q where q: "record_resolution (pia_action e) ?w ?p = Inr q" "pp_waits q = pp_waits p"
    using record_resolution_ok[of "pia_action e" ?p ?w] room by (auto cong: provider_input_action.case_cong)
  have "is_ok (bounded_insert_wait (pia_command_id e) \<lparr> wr_fence = fence, wr_pending = True \<rparr> q)"
    if "pia_wait e"
    using that waits bound bounded_insert_wait_ok_iff[of q "pia_command_id e"] q(2)
    by (simp add: pending_waits_def)
  then show ?thesis using chk q(1)
    by (auto simp: accept_into_session_def Let_def is_ok_iff map_err_def)
qed

lemma apply_input_accepted_ok:
  assumes "\<not> is_delivered (pia_delivery e)"
    and "validate_snapshot_provider_fence s (pia_agent_session_id e) (input_fence s e)
           (Some (pia_action e)) (Some (pia_wait e)) (input_current_turn s e) False = Inr ()"
    and acc: "\<And>f. \<exists>p'. accept_into_session at f e (session_or_default (pia_agent_session_id e) s) = Inr p'"
  shows "\<exists>s'. apply_input_accepted at e s = Inr s'"
proof -
  define s1 where "s1 = (if tk_lifecycle (sn_task s) = TlSettled \<and> is_send_now (pia_action e)
                 then upd_task (\<lambda>t. t \<lparr> tk_lifecycle := TlOpen \<rparr>) s else s)"
  have "session_or_default k s1 = session_or_default k s" for k
    by (simp add: s1_def session_or_default_def snap_upd)
  then obtain p' where "accept_into_session at (input_wait_fence s1 e) e
      (session_or_default (pia_agent_session_id e) s1) = Inr p'"
    using acc by metis
  then show ?thesis
    using assms(1,2) unfolding apply_input_accepted_def Let_def s1_def[symmetric] by simp
qed

lemma session_bound:
  "sessions_wf am (sn_provider_sessions s) \<Longrightarrow> blen (pp_waits (session_or_default i s)) \<le> MAX_PROVIDER_WAITS"
  using projection_wf_or_default[of am s i] by (simp add: projection_wf_def projection_bounds_iff)

lemma submit_input_lands:
  assumes wf: "snap_wf sha s" and d: "decide_submit_provider_input op c cl i s = Inr es"
    and room: "\<not> winners_full i s"
  shows "lands x s es"
proof -
  let ?p = "session_or_default (si_agent_session_id i) s"
  obtain agent e where nested: "submit_intent_validate i = Inr ()"
    and agent: "bget (sn_agents s) (si_agent_session_id i) = Some agent"
    and own: "ag_task_id agent = tk_id (sn_task s)" and life: "ag_lifecycle agent = AgOpen"
    and ses: "ag_provider_session_id agent = None \<longrightarrow> ag_provider_kind agent = Codex"
    and gen: "ag_runtime_generation agent = si_runtime_generation i"
    and epoch: "tk_action_epoch (sn_task s) = si_action_epoch i"
    and turn: "check_input_turn (si_action i) (si_turn_id i) ?p = Inr ()"
    and waits: "waits_for_turn (si_action i) \<longrightarrow> bcontains (pp_waits ?p) c \<or> pending_waits ?p < MAX_PROVIDER_WAITS"
    and e: "e = \<lparr> pia_command_id = c, pia_client_id = cl, pia_operation_id = op,
                    pia_agent_session_id = si_agent_session_id i,
                    pia_provider_kind = ag_provider_kind agent,
                    pia_provider_session_id = ag_provider_session_id agent,
                    pia_runtime_generation = si_runtime_generation i, pia_turn_id = si_turn_id i,
                    pia_action_epoch = si_action_epoch i, pia_question_id = si_question_id i,
                    pia_approval_id = si_approval_id i, pia_action = si_action i,
                    pia_wait = waits_for_turn (si_action i),
                    pia_delivery = Hold DestinationAdapterNotWired \<rparr>"
    and es: "es = [ProviderInputAccepted e]"
    using d
    by (auto simp: decide_submit_provider_input_def result_simps require_agent_Inr
        input_provider_session_Inr Let_def not_le split: if_splits)
  have cur: "input_current_turn s e = None \<or> input_current_turn s e = Some (si_turn_id i)"
    using check_input_turn_current[OF turn]
    by (auto simp: input_current_turn_def session_or_default_def e split: option.splits)
  have fence: "validate_snapshot_provider_fence s (si_agent_session_id i) (input_fence s e)
      (Some (si_action i)) (Some (waits_for_turn (si_action i))) (input_current_turn s e) False = Inr ()"
    using nested nested_ids_exclusive[of "si_action i"] agent own life ses gen epoch cur
    by (auto simp: snapshot_fence_Inr validate_provider_fence_Inr fence_context_check_Inr input_fence_def e
        submit_intent_validate_def)
  have acc: "\<exists>p'. accept_into_session at f e ?p = Inr p'" for at f
    using accept_into_session_ok[of e ?p at f] check_input_turn_resolution[OF turn] waits
      session_bound[OF snap_wfD(8)[OF wf]] room
    by (simp add: e winners_full_def not_le Let_def split: provider_input_action.splits)
  have "\<exists>s'. apply_input_accepted at e s = Inr s'" for at
    using fence acc by (intro apply_input_accepted_ok) (simp_all add: e is_delivered_def)
  then show ?thesis unfolding es by (intro landsI) (simp_all add: arm_simps)
qed

lemma presenting_agent_Inr:
  assumes "presenting_agent aid generation turn epoch s = Inr (agent, ps)"
  shows "bget (sn_agents s) aid = Some agent \<and> ag_lifecycle agent = AgOpen
     \<and> ag_provider_session_id agent = Some ps \<and> ag_runtime_generation agent = generation
     \<and> tk_action_epoch (sn_task s) = epoch
     \<and> (current_turn_of aid s = None \<or> current_turn_of aid s = Some turn)"
  using assms
  by (auto simp: presenting_agent_def result_simps require_agent_Inr current_turn_of_def
      session_or_default_def split: option.splits if_splits) (metis option.exhaust)

lemma presented_fence_ok:
  assumes wf: "snap_wf sha s" and p: "presenting_agent aid generation turn epoch s = Inr (agent, ps)"
    and qa: "q = None \<or> a = None"
  shows "validate_snapshot_provider_fence s aid
           (presented_fence s aid (ag_provider_kind agent) ps generation turn epoch q a)
           None None (current_turn_of aid s) False = Inr ()"
  using presenting_agent_Inr[OF p] agents_wfD[OF snap_wfD(2)[OF wf]] qa
  by (auto simp: snapshot_fence_Inr validate_provider_fence_Inr fence_context_check_Inr presented_fence_def)

lemma present_question_lands:
  assumes wf: "snap_wf sha s" and d: "decide_present_question i s = Inr es"
  shows "lands x s es"
  using d presented_fence_ok[OF wf]
  by (auto simp: decide_present_question_def Let_def result_simps apply_question_presented_def arm_simps
      intro!: landsI split: prod.splits option.splits if_splits)

lemma present_approval_lands:
  assumes wf: "snap_wf sha s" and d: "decide_present_approval i s = Inr es"
  shows "lands x s es"
  using d presented_fence_ok[OF wf]
  by (auto simp: decide_present_approval_def Let_def result_simps apply_approval_presented_def arm_simps
      intro!: landsI split: prod.splits option.splits if_splits)

definition wait_identity_moved :: "settle_provider_wait_intent \<Rightarrow> task_snapshot \<Rightarrow> bool" where
  "wait_identity_moved i s =
     (case bget (sn_agents s) (pf_agent_session_id (sw_fence i)) of
        None \<Rightarrow> False
      | Some agent \<Rightarrow> ag_provider_session_id agent \<noteq> pf_provider_session_id (sw_fence i)
                     \<or> Some (ag_provider_kind agent) \<noteq> pf_provider_kind (sw_fence i))"

lemma settle_wait_lands:
  assumes wf: "snap_wf sha s" and d: "decide_settle_wait i s = Inr es" and id: "\<not> wait_identity_moved i s"
  shows "lands x s es"
proof -
  let ?f = "sw_fence i"
  obtain session w agent where task: "pf_task_id ?f = tk_id (sn_task s)"
    and v: "validate_provider_fence (wait_fence_identity ?f) None None None = Inr ()"
    and ses: "bget (sn_provider_sessions s) (pf_agent_session_id ?f) = Some session"
    and entry: "bget (pp_waits session) (pf_command_id ?f) = Some w" "wr_fence w = ?f" "wr_pending w"
    and agent: "bget (sn_agents s) (pf_agent_session_id ?f) = Some agent"
    and life: "ag_lifecycle agent = AgOpen \<or> ag_lifecycle agent = AgClosing"
    and gen: "ag_runtime_generation agent = pf_runtime_generation ?f"
    and epoch: "tk_action_epoch (sn_task s) = pf_action_epoch ?f" and es: "es = [ProviderWaitSettled ?f]"
    using d by (auto simp: decide_settle_wait_def Let_def result_simps require_agent_Inr split: if_splits)
  have turn: "pp_current_turn session = Some (pf_turn_id ?f)"
    using projection_wf_session[OF snap_wfD(8)[OF wf] ses] entry unfolding projection_wf_def by metis
  have "validate_snapshot_provider_fence s (pf_agent_session_id ?f) (wait_fence_identity ?f) None None
      (current_turn_of (pf_agent_session_id ?f) s) True = Inr ()"
    using v task agent life gen epoch id agents_wfD[OF snap_wfD(2)[OF wf] agent] turn ses
    by (auto simp: snapshot_fence_Inr validate_provider_fence_Inr fence_context_check_Inr current_turn_of_def
        wait_identity_moved_def)
  then show ?thesis unfolding es
    using ses entry by (intro landsI) (auto simp: apply_wait_settled_def arm_simps Let_def)
qed

section \<open>Orchestration arms\<close>

lemma request_specialist_lands:
  assumes wf: "snap_wf (x_sha256 x) s" and o: "orch_wf s"
    and d: "decide_request_specialist (x_sha256 x) i s = Inr es"
  shows "lands x s es"
proof -
  obtain requester purpose where
    bounds: "request_specialist_validate_bounds (x_sha256 x) i = Inr ()"
    and req: "bget (sn_agents s) (ri_requested_by i) = Some requester"
    and epoch: "tk_action_epoch (sn_task s) = ri_expected_action_epoch i"
    and gen: "ag_runtime_generation requester = ri_expected_runtime_generation i"
    and prim: "ag_role requester = Primary" "sn_primary_agent_id s = Some (ri_requested_by i)"
    and own: "ag_task_id (ri_specialist i) = tk_id (sn_task s)" "ag_id (ri_specialist i) \<noteq> ri_requested_by i"
    and purpose: "bounded_canonical (ri_purpose i) = Some purpose"
    and reg: "validate_for_registration (ri_specialist i) = Inr ()"
    and sgen: "ag_runtime_generation (ri_specialist i) = ri_expected_runtime_generation i"
    and fresh: "\<not> bcontains (sn_agents s) (ag_id (ri_specialist i))"
    and perm: "specialist_workspace_check i s = Inr ()" and res: "specialist_resource_check i s = Inr ()"
    and cap: "top_level_runtime_count s + 1 \<le> min (ri_max_top_level_runtimes i) DEFAULT_MAX_TOP_LEVEL_RUNTIMES"
    and es: "es = [SpecialistRequested
                    \<lparr> sq_specialist_id = ag_id (ri_specialist i), sq_requested_by = ri_requested_by i,
                      sq_purpose = purpose, sq_agent = ri_specialist i,
                      sq_permission = ri_permission i, sq_workspace = ri_workspace i,
                      sq_action_epoch = ri_expected_action_epoch i,
                      sq_runtime_generation = ri_expected_runtime_generation i,
                      sq_resource_id = ri_resource_id i \<rparr>]"
    using d
    by (auto simp: decide_request_specialist_def require_orchestration_fences_def Let_def result_simps is_ok_iff
        not_less split: if_splits)
  have "ag_lifecycle requester = AgOpen"
    using o req prim unfolding orch_wf_def one_primary_def sole_primary_def by fastforce
  moreover have "open_runtime_count s < DEFAULT_MAX_TOP_LEVEL_RUNTIMES"
    using cap runtime_counts[OF snap_wfD(2)[OF wf]] by simp
  moreover have "ri_permission i = ReadOnly"
    using perm by (auto simp: specialist_workspace_check_def split: specialist_permission.splits bool.splits if_splits)
  moreover have "is_specialist (ri_specialist i)" "workspace_ref_validate (x_sha256 x) (ri_workspace i) = Inr ()"
    using bounds by (auto simp: request_specialist_validate_bounds_def result_simps split: if_splits)
  moreover have "is_bounded_canonical purpose" using purpose unfolding bounded_canonical_Some_iff by (rule conjunct2)
  ultimately show ?thesis unfolding es
    using req epoch gen prim own reg sgen fresh res
    by (intro landsI)
       (auto simp: apply_specialist_requested_def arm_simps specialist_resource_check_def Let_def result_simps
         split: option.splits if_splits)
qed

lemma primary_role_ok: "\<exists>r. agent_role_specialist (lit ''primary'') = Inr r"
  by (simp add: agent_role_specialist_def bounded_canonical_def canonicalize_def lit_def trim_def
      is_whitespace_def MAX_SPECIALIST_TEXT_BYTES_def char_utf8_len_def)

lemma promote_primary_lands:
  assumes d: "decide_promote_primary i s = Inr es"
  shows "lands x s es"
proof -
  obtain r where "agent_role_specialist (lit ''primary'') = Inr r" using primary_role_ok by blast
  then show ?thesis using d
    by (auto simp: decide_promote_primary_def require_orchestration_fences_def result_simps
        apply_primary_promoted_def arm_simps snap_upd Let_def is_specialist_not_primary
        intro!: landsI split: if_splits)
qed

lemma cancel_specialist_lands:
  assumes d: "decide_cancel_specialist i s = Inr es"
  shows "lands x s es"
  using d
  by (auto simp: decide_cancel_specialist_def require_orchestration_fences_def result_simps
      apply_specialist_closed_def arm_simps intro!: landsI split: if_splits)

lemma accept_handoff_lands:
  assumes d: "decide_accept_handoff (x_sha256 x) at i s = Inr es"
  shows "lands x s es"
  using d
  by (auto simp: decide_accept_handoff_def require_orchestration_fences_def handoff_body_def raw_out_of_bounds_def
      content_inline_utf8_def Let_def result_simps apply_handoff_recorded_def arm_simps
      intro!: landsI split: if_splits option.splits)
end
