(* ===== verification/Decision.thy ===== *)
theory Decision
  imports Soundness
begin

text \<open>
  The whole of \<open>decide\<close> against \<open>apply_all\<close>: the multi-event browser arms, the commands whose
  events \<open>apply\<close> may still refuse (\<open>decide_gap\<close>), and the task as a machine driven by
  commands and by the events of the host.
\<close>

section \<open>Event lists that apply\<close>

definition goes_through :: "ext \<Rightarrow> task_snapshot \<Rightarrow> event list \<Rightarrow> bool" where
  "goes_through x s es \<longleftrightarrow>
     (\<forall>e\<in>set es. plain_mutation e)
     \<and> (revision_of s + length es < 2 ^ 64 \<longrightarrow>
          (\<exists>s'. try_fold (advance x 1) es s = Inr s' \<and> orch_wf s'))"

interpretation advance_inv: invariant_journal "advance x at" "snap_wf (x_sha256 x)" for x at
  by unfold_locales (rule wf_advance)

interpretation advance_rev: counted_journal "advance x at" revision_of "\<lambda>_. 1" for x at
  by unfold_locales (simp add: advance_id)

lemma lands_goes_through:
  assumes wf: "snap_wf sha s" and o: "orch_wf s" and l: "lands x s es"
  shows "goes_through x s es"
  using l unfolding lands_def
proof (elim disjE exE conjE)
  fix e assume e: "es = [e]" "plain_mutation e" "guarded s e" "\<forall>at. is_ok (mutate x at e s)"
  have "\<exists>s'. advance x 1 e s = Inr s'" if "Suc (revision_of s) < 2 ^ 64"
    using e(4) that advance_ok unfolding is_ok_iff by meson
  then show ?thesis
    using e(1,2) orch_advance[OF wf o e(3)] by (fastforce simp: goes_through_def)
qed (use o in \<open>simp add: goes_through_def\<close>)

lemma browser_plain: "plain_mutation (Browser f)"
  by (simp add: plain_mutation_def is_task_mutation_def creates_def)

lemma orch_set_browser [simp]: "orch_wf (s \<lparr> sn_browser := b \<rparr>) = orch_wf s"
  by (simp add: orch_wf_def)

lemma browser_facts_advance:
  assumes "apply_fact_seq (x_browser x) fs (sn_browser s) = Inr b"
    and "length (bb_facts (sn_browser s)) + length fs \<le> MAX_BROWSER_JOURNAL_FACTS"
    and "\<forall>f\<in>set fs. fact_task_id f = tk_id (sn_task s)"
    and "revision_of s + length fs < 2 ^ 64"
  shows "\<exists>n. try_fold (advance x 1) (map Browser fs) s = Inr (set_revision n (s \<lparr> sn_browser := b \<rparr>))"
  using assms
proof (induction fs arbitrary: s)
  case Nil
  then have "s = set_revision (tk_revision (sn_task s)) (s \<lparr> sn_browser := b \<rparr>)"
    by (cases s) (simp add: set_revision_def upd_task_def)
  then show ?case by auto
next
  case (Cons f fs)
  then obtain b1 where b1: "apply_fact (x_browser x) f (sn_browser s) = Inr b1"
    "apply_fact_seq (x_browser x) fs b1 = Inr b" by (auto simp: result_simps)
  have frame: "bb_facts b1 = bb_facts (sn_browser s) @ [f]" using apply_fact_frame[OF b1(1)] by simp
  have "mutate x 1 (Browser f) s = Inr (s \<lparr> sn_browser := b1 \<rparr>)"
    using Cons.prems b1 by (simp add: mutate_def apply_facts_Inr[THEN iffD2])
  then obtain n where n: "advance x 1 (Browser f) s = Inr (set_revision n (s \<lparr> sn_browser := b1 \<rparr>))"
    using advance_ok[of x 1 "Browser f" s] Cons.prems(4) by (auto simp: advance_def result_simps)
  let ?s1 = "set_revision n (s \<lparr> sn_browser := b1 \<rparr>)"
  have "\<exists>m. try_fold (advance x 1) (map Browser fs) ?s1 = Inr (set_revision m (?s1 \<lparr> sn_browser := b \<rparr>))"
    using Cons.prems b1(2) frame advance_id[OF n] by (intro Cons.IH) (simp_all add: snap_upd)
  then show ?case using n by (auto simp: set_revision_def upd_task_def)
qed

text \<open>A plan of the book speaks of its task only.\<close>

lemma bind_command_own:
  assumes "f \<in> set (bx_facts (bind_command c epoch r))"
  shows "\<exists>g\<in>set (bx_facts r). fact_task_id f = fact_task_id g"
proof -
  obtain g where g: "g \<in> set (bx_facts r)"
    "f = (case g of BfRequestAccepted q \<Rightarrow>
            BfRequestAccepted (q \<lparr> ra_command_id := Some c, ra_action_epoch := epoch \<rparr>) | _ \<Rightarrow> g)"
    using assms by (auto simp: bind_command_def)
  have "fact_task_id f = fact_task_id g" unfolding g(2) by (cases g) (simp_all add: fact_task_id_def)
  with g(1) show ?thesis by blast
qed

lemma replayed_facts:
  assumes own: "book_owned t b" and plan: "plan_admit lib b q = Inr r"
    and prior: "bget (bb_receipts b) (bq_request_id q) = Some prior"
  shows "\<exists>ra. bx_facts (bind_command c epoch r) = [BfRequestAccepted ra] \<and> ra_request ra = q"
proof -
  have r: "r = replay_receipt (st_accepted prior)" "st_request prior = q"
    using plan prior by (auto simp: plan_admit_def split: if_splits)
  have "bx_facts (st_accepted prior) = []"
    "ra_request (accepted_of_receipt (st_accepted prior)) = st_request prior"
    using own prior unfolding book_owned_def by blast+
  then show ?thesis using r by (simp add: replay_receipt_def bind_command_def)
qed

lemma plan_admit_own:
  assumes own: "book_owned t b" and plan: "plan_admit lib b q = Inr r" and t: "bq_task_id q = t"
  shows "\<forall>f\<in>set (bx_facts (bind_command c epoch r)). fact_task_id f = t"
proof (cases "bget (bb_receipts b) (bq_request_id q)")
  case None
  then obtain fs where "plan_identity_facts b q = Inr fs"
    "bx_facts r = BfRequestAccepted (accepted_fact lib q) # fs"
    using plan_admit_fresh_Inr[OF plan] by metis
  then have "\<forall>f\<in>set (bx_facts r). fact_task_id f = t"
    using t plan_identity_facts_own by (auto simp: fact_task_id_def accepted_fact_def)
  then show ?thesis using bind_command_own by metis
next
  case (Some prior)
  then show ?thesis using replayed_facts[OF own plan Some, of c epoch] t by (auto simp: fact_task_id_def)
qed

section \<open>Browser arms\<close>

text \<open>
  A replayed request is planned again without the bound of the journal and without the
  generation of its context, which \<open>apply\<close> still checks.
\<close>

definition browser_gap :: "browser_book \<Rightarrow> browser_request \<Rightarrow> bool" where
  "browser_gap b q \<longleftrightarrow>
     (if bcontains (bb_receipts b) (bq_request_id q)
      then MAX_BROWSER_JOURNAL_FACTS \<le> length (bb_facts b)
           \<or> (case bget (bb_contexts b) (bq_context_id q) of
                 None \<Rightarrow> False | Some c \<Rightarrow> cx_generation c \<noteq> bq_generation q)
      else stale_reclose b q)"

lemma bound_facts_apply:
  assumes own: "book_owned t b" and opened: "bcontains (bb_open_tasks b) t" and q: "bq_task_id q = t"
    and plan: "plan_admit lib b q = Inr r" and gap: "\<not> browser_gap b q"
  shows "\<exists>b'. apply_facts lib (bx_facts (bind_command c epoch r)) b = Inr b'"
proof (cases "bget (bb_receipts b) (bq_request_id q)")
  case None
  obtain ra fs where fs: "bx_facts (bind_command c epoch r) = BfRequestAccepted ra # fs" "ra_request ra = q"
    "plan_identity_facts b q = Inr fs"
    using bind_command_facts[OF plan None] by metis
  obtain gs where gs: "plan_identity_facts b q = Inr gs" "bx_facts r = BfRequestAccepted (accepted_fact lib q) # gs"
    "validate_action_fields lib (bq_action q) = Inr ()"
    "length (bb_facts b) + length (bx_facts r) \<le> MAX_BROWSER_JOURNAL_FACTS"
    using plan_admit_fresh_Inr[OF plan None] by metis
  have "\<not> stale_reclose b q" using gap None by (simp add: browser_gap_def bcontains_def)
  then show ?thesis
    using planned_facts_apply[OF fs(3) gs(3) _ _ fs(2)] opened q gs fs by auto
next
  case (Some prior)
  obtain ra where ra: "bx_facts (bind_command c epoch r) = [BfRequestAccepted ra]" "ra_request ra = q"
    using replayed_facts[OF own plan Some] by blast
  have room: "length (bb_facts b) < MAX_BROWSER_JOURNAL_FACTS"
    and same: "\<And>cx. bget (bb_contexts b) (bq_context_id q) = Some cx \<Longrightarrow> cx_generation cx = bq_generation q"
    using gap Some by (auto simp: browser_gap_def bcontains_def)
  have "\<exists>b'. apply_request_accepted ra b = Inr b'"
    using own opened q same ra(2)
    by (auto simp: apply_request_accepted_Inr Let_def book_owned_def split: option.split)
  then show ?thesis using room by (auto simp: ra(1) apply_facts_Inr apply_fact_def apply_fact_body_def)
qed

lemma browser_goes_through:
  assumes wf: "snap_wf (x_sha256 x) s" and o: "orch_wf s" and live: "is_live (tk_lifecycle (sn_task s))"
    and d: "decide_browser (x_browser x) c q s = Inr es" and gap: "\<not> browser_gap (sn_browser s) q"
  shows "goes_through x s es"
proof -
  let ?b = "sn_browser s" and ?t = "tk_id (sn_task s)"
  obtain r where q: "bq_task_id q = ?t" and plan: "plan_admit (x_browser x) ?b q = Inr r"
    and es: "es = map Browser (bx_facts (bind_command c (tk_action_epoch (sn_task s)) r))"
    using d by (auto simp: decide_browser_def result_simps split: if_splits)
  have own: "book_owned ?t ?b" and opened: "bcontains (bb_open_tasks ?b) ?t"
    using snap_wfD(9)[OF wf] live by (auto simp: browser_wf_def)
  obtain b where b: "apply_facts (x_browser x) (bx_facts (bind_command c (tk_action_epoch (sn_task s)) r)) ?b = Inr b"
    using bound_facts_apply[OF own opened q plan gap] by blast
  have "book_wf ?b" using snap_wfD(9)[OF wf] by (simp add: browser_wf_def)
  then have "length (bb_facts ?b) \<le> MAX_BROWSER_JOURNAL_FACTS" by (simp add: book_wf_def)
  then have room: "length (bb_facts ?b) + length (bx_facts (bind_command c (tk_action_epoch (sn_task s)) r))
      \<le> MAX_BROWSER_JOURNAL_FACTS"
    using b by (auto simp: apply_facts_Inr)
  have "\<exists>s'. try_fold (advance x 1) es s = Inr s' \<and> orch_wf s'" if "revision_of s + length es < 2 ^ 64"
    using browser_facts_advance[OF _ room plan_admit_own[OF own plan q]] b that o
    by (force simp: es apply_facts_Inr)
  then show ?thesis by (auto simp: goes_through_def es browser_plain)
qed

lemma open_loop_facts:
  assumes "open_loop lib c epoch qs b evs = Inr out" "book_owned t b" "\<forall>q\<in>set qs. bq_task_id q = t"
    and "length (bb_facts b) \<le> MAX_BROWSER_JOURNAL_FACTS"
  shows "\<exists>fs b'. out = evs @ map Browser fs \<and> apply_fact_seq lib fs b = Inr b'
    \<and> length (bb_facts b) + length fs \<le> MAX_BROWSER_JOURNAL_FACTS \<and> (\<forall>f\<in>set fs. fact_task_id f = t)"
  using assms
proof (induction qs arbitrary: b evs)
  case Nil
  then show ?case by (intro exI[of _ "[]"]) simp
next
  case (Cons q qs)
  obtain r b1 where plan: "plan_admit lib b q = Inr r"
    and b1: "apply_facts lib (bx_facts (bind_command c epoch r)) b = Inr b1"
    and rest: "open_loop lib c epoch qs b1 (evs @ map Browser (bx_facts (bind_command c epoch r))) = Inr out"
    using Cons.prems(1) by (auto simp: result_simps Let_def)
  let ?gs = "bx_facts (bind_command c epoch r)"
  have own: "\<forall>f\<in>set ?gs. fact_task_id f = t"
    using plan_admit_own[OF Cons.prems(2) plan] Cons.prems(3) by simp
  have seq: "apply_fact_seq lib ?gs b = Inr b1" using b1 by (simp add: apply_facts_Inr)
  have facts: "bb_facts b1 = bb_facts b @ ?gs" using apply_fact_seq_frame[OF seq] by simp
  have "length (bb_facts b1) \<le> MAX_BROWSER_JOURNAL_FACTS"
    using b1 facts Cons.prems(4) by (auto simp: apply_facts_Inr)
  then obtain fs b' where "out = (evs @ map Browser ?gs) @ map Browser fs" "apply_fact_seq lib fs b1 = Inr b'"
    "length (bb_facts b1) + length fs \<le> MAX_BROWSER_JOURNAL_FACTS" "\<forall>f\<in>set fs. fact_task_id f = t"
    using Cons.IH[OF rest book_owned_seq[OF Cons.prems(2) seq own]] Cons.prems(3) by auto
  then show ?case using own seq facts
    by (intro exI[of _ "?gs @ fs"] exI[of _ b']) (auto simp: apply_fact_seq_append)
qed

lemma open_browser_goes_through:
  assumes wf: "snap_wf (x_sha256 x) s" and o: "orch_wf s" and live: "is_live (tk_lifecycle (sn_task s))"
    and d: "decide_open (x_browser x) s e i = Inr es"
  shows "goes_through x s es"
proof -
  let ?t = "tk_id (sn_task s)" and ?r = "ob_resource i"
  obtain url cid out where r: "rs_recipe ?r = RBrowser url (Some cid)" "resource_validate ?r = Inr ()"
      "rs_owner_kind ?r = OwnerTask" "rs_task_id ?r = Some ?t" "rs_lifecycle ?r = RsActive"
      "\<not> bcontains (sn_resources s) (rs_id ?r)"
    and out: "open_loop (x_browser x) (ce_command_id e) (tk_action_epoch (sn_task s))
        (map (open_request s cid (rs_runtime_generation ?r))
                      [(ob_create_request_id i, None, BaCreateContext),
                       (ob_open_request_id i, Some (ob_tab_id i), BaOpenTab url TabPage)])
                    (sn_browser s) [] = Inr out"
    and es: "es = out @ [ResourceRegistered ?r]"
    using d
    by (auto simp: decide_open_def result_simps Let_def is_ok_iff split: if_splits resource_recipe.splits option.splits)
  have b: "book_owned ?t (sn_browser s)" "length (bb_facts (sn_browser s)) \<le> MAX_BROWSER_JOURNAL_FACTS"
    using snap_wfD(9)[OF wf] by (auto simp: browser_wf_def book_wf_def)
  obtain fs b' where fs: "out = map Browser fs" "apply_fact_seq (x_browser x) fs (sn_browser s) = Inr b'"
    "length (bb_facts (sn_browser s)) + length fs \<le> MAX_BROWSER_JOURNAL_FACTS" "\<forall>f\<in>set fs. fact_task_id f = ?t"
    using open_loop_facts[OF out b(1) _ b(2)] by (auto simp: open_request_def)
  have "\<exists>s'. try_fold (advance x 1) es s = Inr s' \<and> orch_wf s'" if room: "revision_of s + length es < 2 ^ 64"
  proof -
    obtain n where n: "try_fold (advance x 1) out s = Inr (set_revision n (s \<lparr> sn_browser := b' \<rparr>))"
      using browser_facts_advance[OF fs(2-4)] room unfolding fs(1) es by auto
    let ?s1 = "set_revision n (s \<lparr> sn_browser := b' \<rparr>)"
    have "lands x ?s1 [ResourceRegistered ?r]"
      using r live by (intro resource_registered_lands) (simp_all add: snap_upd is_plain_shell_def)
    moreover have "snap_wf (x_sha256 x) ?s1" using advance_inv.replay_inv[OF wf n] .
    moreover have "revision_of ?s1 + 1 < 2 ^ 64"
      using advance_rev.replay_count[OF n] room by (simp add: es sum_list_triv)
    ultimately have "\<exists>s'. try_fold (advance x 1) [ResourceRegistered ?r] ?s1 = Inr s' \<and> orch_wf s'"
      using o lands_goes_through[of "x_sha256 x" ?s1 x "[ResourceRegistered ?r]"] by (simp add: goes_through_def)
    then show ?thesis using n by (simp add: es try_fold_append)
  qed
  then show ?thesis by (auto simp: goes_through_def es fs(1) browser_plain arm_simps)
qed

section \<open>The gap between decide and apply\<close>

text \<open>
  The accepted commands whose events \<open>apply\<close> may refuse, all of them checks that \<open>apply\<close>
  makes and \<open>decide\<close> does not.
\<close>

definition decide_gap :: "'h command \<Rightarrow> task_snapshot \<Rightarrow> bool" where
  "decide_gap c s =
     (case c of
        RegisterResource r \<Rightarrow> is_plain_shell (rs_recipe r)
          \<and> MAX_PLAIN_SHELLS_PER_TASK \<le> length (ts_order (sn_terminal_strip s))
      | SubmitProviderInput i \<Rightarrow> winners_full i s
      | SettleProviderWait i \<Rightarrow> wait_identity_moved i s
      | BeginCloseTask \<Rightarrow>
          MAX_BROWSER_JOURNAL_FACTS
            < length (bb_facts (sn_browser s)) + length (plan_close_task (sn_browser s) (tk_id (sn_task s)))
      | CBrowser q \<Rightarrow> browser_gap (sn_browser s) q
      | _ \<Rightarrow> False)"

lemma with_task_Inr:
  "with_task (Some s) e k = Inr es \<longleftrightarrow> ce_task_id e = Some (tk_id (sn_task s))
     \<and> ce_expected_task_revision e = Some (tk_revision (sn_task s)) \<and> k s = Inr es"
  "with_open_or_closing_task (Some s) e k = Inr es \<longleftrightarrow> \<not> in_archive s \<and> ce_task_id e = Some (tk_id (sn_task s))
     \<and> ce_expected_task_revision e = Some (tk_revision (sn_task s)) \<and> k s = Inr es"
  "with_runtime_task (Some s) e k = Inr es \<longleftrightarrow> is_live (tk_lifecycle (sn_task s))
     \<and> ce_task_id e = Some (tk_id (sn_task s))
     \<and> ce_expected_task_revision e = Some (tk_revision (sn_task s)) \<and> k s = Inr es"
  by (auto simp: with_task_def with_open_or_closing_task_def with_runtime_task_def require_task_def
      require_open_or_closing_task_def require_runtime_capable_task_def require_expected_revision_def
      in_archive_def is_live_def result_simps split: option.splits if_splits task_lifecycle.splits)

lemmas arm_lands =
  rename_task_lands settle_task_lands reopen_task_lands delete_task_lands register_agent_lands
  bind_provider_lands abandon_provider_lands set_primary_lands rebind_unstarted_lands register_artifact_lands
  release_resource_lands close_terminal_lands rename_terminal_lands set_strip_lands
  present_question_lands present_approval_lands promote_primary_lands
  cancel_specialist_lands accept_handoff_lands

lemma decide_goes_through:
  assumes wf: "snap_wf (x_sha256 x) s" and o: "orch_wf s"
    and d: "decide x op (Some s) e = Inr es" and gap: "\<not> decide_gap (ce_command e) s"
  shows "goes_through x s es"
proof -
  note arms = arm_lands[THEN lands_goes_through[OF wf o]]
  show ?thesis
  proof (cases "ce_command e")
    case (RegisterResource r)
    then show ?thesis
      using d gap register_resource_lands[THEN lands_goes_through[OF wf o]]
      by (auto simp: decide_def Let_def with_task_Inr decide_gap_def not_le)
  next
    case (CBrowser q)
    then show ?thesis
      using d gap browser_goes_through[OF wf o]
      by (auto simp: decide_def Let_def with_task_Inr decide_gap_def)
  next
    case (OpenTaskBrowser i)
    then show ?thesis
      using d open_browser_goes_through[OF wf o] by (auto simp: decide_def Let_def with_task_Inr)
  next
    case BeginCloseTask
    then show ?thesis
      using d gap begin_close_lands[OF wf, THEN lands_goes_through[OF wf o]]
      by (auto simp: decide_def Let_def with_task_Inr decide_gap_def not_less)
  next
    case (SubmitProviderInput i)
    then show ?thesis
      using d gap submit_input_lands[OF wf, THEN lands_goes_through[OF wf o]]
      by (auto simp: decide_def Let_def with_task_Inr decide_gap_def)
  next
    case (SettleProviderWait i)
    then show ?thesis
      using d gap settle_wait_lands[OF wf, THEN lands_goes_through[OF wf o]]
      by (auto simp: decide_def Let_def with_task_Inr decide_gap_def)
  next
    case (RequestSpecialist i)
    then show ?thesis
      using d request_specialist_lands[OF wf o, THEN lands_goes_through[OF wf o]]
      by (auto simp: decide_def Let_def with_task_Inr)
  next
    case (OpenShellTerminal r)
    then show ?thesis
      using d open_shell_lands[OF wf o, THEN lands_goes_through[OF wf o]]
      by (auto simp: decide_def Let_def with_task_Inr)
  next
    case (SetTaskAttention a)
    then show ?thesis
      using d attention_lands[THEN lands_goes_through[OF wf o]] by (auto simp: decide_def Let_def with_task_Inr)
  next
    case (CreateTask i)
    then show ?thesis using d by (auto simp: decide_def Let_def decide_create_task_def result_simps split: if_splits option.splits)
  qed (use d wf arms in \<open>auto simp: decide_def Let_def with_task_Inr\<close>)
qed

section \<open>The task as a machine\<close>

text \<open>
  A task is created by the event of an accepted \<open>CreateTask\<close>, then moved by the events of
  accepted commands and by those the kernel records on its own: the end of a teardown, the
  outcome of an operation or of a delivery, what terminals and browsers report.  The list is
  the log of the commands accepted so far.
\<close>

definition host_event :: "event \<Rightarrow> bool" where
  "host_event e =
     (case e of
        TaskArchived \<Rightarrow> True
      | ResourceReleased _ _ \<Rightarrow> True
      | TerminalRenamed _ _ \<Rightarrow> True
      | Browser _ \<Rightarrow> True
      | _ \<Rightarrow> \<not> is_task_mutation e)"

inductive task_reachable :: "ext \<Rightarrow> 'h command_envelope list \<Rightarrow> task_snapshot \<Rightarrow> bool" for x where
  created: "decide x op None e = Inr es \<Longrightarrow> de_payload ev \<in> set es \<Longrightarrow> apply_event x None ev = Inr s
     \<Longrightarrow> task_reachable x [e] s"
| commanded: "task_reachable x log s \<Longrightarrow> decide x op (Some s) e = Inr (map de_payload evs)
     \<Longrightarrow> try_fold (task_step x) evs s = Inr s' \<Longrightarrow> task_reachable x (log @ [e]) s'"
| hosted: "task_reachable x log s \<Longrightarrow> host_event (de_payload ev) \<Longrightarrow> task_step x ev s = Inr s'
     \<Longrightarrow> task_reachable x log s'"

definition browser_then :: "task_snapshot \<Rightarrow> event list \<Rightarrow> bool" where
  "browser_then s es \<longleftrightarrow> (\<exists>fs tail. es = map Browser fs @ tail \<and> length tail \<le> 1 \<and> (\<forall>e\<in>set tail. guarded s e))"

lemma browser_thenI:
  "browser_then s []" "guarded s e \<Longrightarrow> browser_then s [e]" "browser_then s (map Browser fs)"
  "guarded s e \<Longrightarrow> browser_then s (map Browser fs @ [e])"
  unfolding browser_then_def
  by (rule exI[of _ "[]"], simp, rule exI[of _ "[]"], force, rule exI[of _ fs], simp, rule exI[of _ fs], force)

lemma lands_browser_then: "lands x s es \<Longrightarrow> browser_then s es"
  by (auto simp: lands_def intro: browser_thenI)

lemma decide_open_browser_then:
  assumes "decide_open lib s e i = Inr es" "is_live (tk_lifecycle (sn_task s))"
  shows "browser_then s es"
proof -
  obtain gs hs where "es = map Browser gs @ map Browser hs @ [ResourceRegistered (ob_resource i)]"
    using assms(1)
    by (auto simp: decide_open_def Let_def result_simps split: if_splits resource_recipe.splits option.splits)
  then show ?thesis
    using browser_thenI(4)[of s "ResourceRegistered (ob_resource i)" "gs @ hs"] assms(2)
    by (simp add: guarded_def)
qed

lemma decide_browser_then:
  assumes wf: "snap_wf (x_sha256 x) s" and o: "orch_wf s" and d: "decide x op (Some s) e = Inr es"
  shows "browser_then s es"
proof -
  note arms = arm_lands[THEN lands_browser_then]
  show ?thesis
  proof (cases "ce_command e")
    case (RegisterResource r)
    then show ?thesis using d
      by (auto simp: decide_def Let_def with_task_Inr decide_register_resource_def guarded_def
          intro!: browser_thenI split: if_splits)
  next
    case (CBrowser q)
    then show ?thesis using d
      by (auto simp: decide_def Let_def with_task_Inr decide_browser_def result_simps
          intro!: browser_thenI split: if_splits)
  next
    case (OpenTaskBrowser i)
    then show ?thesis using d decide_open_browser_then by (auto simp: decide_def Let_def with_task_Inr)
  next
    case BeginCloseTask
    then show ?thesis using d
      by (auto simp: decide_def Let_def with_task_Inr decide_begin_close_def result_simps guarded_def
          intro!: browser_thenI split: task_lifecycle.splits)
  next
    case (SubmitProviderInput i)
    then show ?thesis using d
      by (auto simp: decide_def Let_def with_task_Inr decide_submit_provider_input_def result_simps guarded_def
          intro!: browser_thenI split: if_splits)
  next
    case (SettleProviderWait i)
    then show ?thesis using d
      by (auto simp: decide_def Let_def with_task_Inr decide_settle_wait_def result_simps guarded_def
          intro!: browser_thenI split: if_splits)
  next
    case (RequestSpecialist i)
    then show ?thesis
      using d request_specialist_lands[OF wf o, THEN lands_browser_then]
      by (auto simp: decide_def Let_def with_task_Inr)
  next
    case (OpenShellTerminal r)
    then show ?thesis
      using d open_shell_lands[OF wf o, THEN lands_browser_then] by (auto simp: decide_def Let_def with_task_Inr)
  next
    case (SetTaskAttention a)
    then show ?thesis
      using d attention_lands[THEN lands_browser_then] by (auto simp: decide_def Let_def with_task_Inr)
  next
    case (CreateTask i)
    then show ?thesis using d by (auto simp: decide_def Let_def decide_create_task_def)
  qed (use d wf arms in \<open>auto simp: decide_def Let_def with_task_Inr\<close>)
qed

lemma orch_task_step:
  assumes wf: "snap_wf sha s" and o: "orch_wf s" and g: "guarded s (de_payload ev)"
    and st: "task_step x ev s = Inr s'"
  shows "orch_wf s'"
proof (cases "is_task_mutation (de_payload ev)")
  case True
  then show ?thesis using st mutate_orch[OF wf o g] by (auto simp: task_step_mutation)
next
  case False
  then have "s' = s \<or> mutate x (de_occurred_at_ms ev) (de_payload ev) s = Inr s'"
    using task_step_other[OF False st] by (auto simp: mutate_def is_task_mutation_def split: event.splits)
  then show ?thesis using o mutate_orch[OF wf o g] by blast
qed

lemma guarded_browser_step:
  assumes "task_step x ev s = Inr s'" "de_payload ev = Browser f"
  shows "guarded s' e = guarded s e"
proof -
  obtain n s1 where "mutate x (de_occurred_at_ms ev) (Browser f) s = Inr s1" "s' = set_revision n s1"
    using assms by (auto simp: task_step_mutation is_task_mutation_def)
  then obtain b where "s' = set_revision n (s \<lparr> sn_browser := b \<rparr>)" using mutate_browser by blast
  then show ?thesis by (cases e) (simp_all add: guarded_def snap_upd)
qed

lemma browser_then_step:
  assumes "task_step x ev s = Inr s'" "de_payload ev = Browser f"
  shows "browser_then s' es = browser_then s es"
  by (simp add: browser_then_def guarded_browser_step[OF assms])

lemma browser_then_Cons:
  assumes "browser_then s (e # es)"
  shows "guarded s e" and "es = [] \<or> (\<exists>f. e = Browser f) \<and> browser_then s es"
proof -
  obtain fs tail where b: "e # es = map Browser fs @ tail" "length tail \<le> 1" "\<forall>e\<in>set tail. guarded s e"
    using assms unfolding browser_then_def by blast
  have "guarded s e \<and> (es = [] \<or> (\<exists>f. e = Browser f) \<and> browser_then s es)"
  proof (cases fs)
    case Nil
    then show ?thesis using b by (cases tail) auto
  next
    case (Cons f gs)
    then have "e = Browser f" "es = map Browser gs @ tail" using b(1) by simp_all
    then show ?thesis using b(2,3) by (auto simp: guarded_def browser_then_def)
  qed
  then show "guarded s e" and "es = [] \<or> (\<exists>f. e = Browser f) \<and> browser_then s es" by blast+
qed

lemma orch_browser_then:
  assumes "snap_wf (x_sha256 x) s" "orch_wf s" "browser_then s (map de_payload evs)"
    and "try_fold (task_step x) evs s = Inr s'"
  shows "orch_wf s'"
  using assms
proof (induction evs arbitrary: s)
  case (Cons ev evs)
  obtain s1 where s1: "task_step x ev s = Inr s1" "try_fold (task_step x) evs s1 = Inr s'"
    using Cons.prems(4) by (auto simp: result_simps)
  have g: "guarded s (de_payload ev)"
    and rest: "evs = [] \<or> (\<exists>f. de_payload ev = Browser f) \<and> browser_then s (map de_payload evs)"
    using browser_then_Cons[of s "de_payload ev" "map de_payload evs"] Cons.prems(3) by auto
  have "browser_then s1 (map de_payload evs)"
    using rest browser_then_step[OF s1(1)] browser_thenI(1) by auto
  moreover have "orch_wf s1" using orch_task_step[OF Cons.prems(1,2) g s1(1)] .
  moreover have "snap_wf (x_sha256 x) s1" using task_inv.step_inv[OF Cons.prems(1) s1(1)] .
  ultimately show ?case using Cons.IH s1(2) by blast
qed simp

lemma orch_task_created:
  assumes "apply_task_created x None ev task connectivity attention activity review = Inr s"
  shows "orch_wf s \<and> tk_lifecycle (sn_task s) = TlOpen"
  using assms
  by (auto simp: apply_task_created_def result_simps orch_wf_def one_primary_def sole_primary_def open_agents_def
      occupied_def strip_default_def validate_for_create_def split: if_splits)

lemma decide_create_events:
  assumes "decide x op None e = Inr es"
  obtains task connectivity attention activity review where
    "es = [TaskCreated task connectivity attention activity review]"
  using assms
  by (cases "ce_command e")
     (auto simp: decide_def Let_def decide_create_task_def with_task_def with_open_or_closing_task_def
       with_runtime_task_def require_task_def require_open_or_closing_task_def
       require_runtime_capable_task_def result_simps split: if_splits)

lemma reachable_wf:
  "task_reachable x log s \<Longrightarrow> snap_wf (x_sha256 x) s \<and> orch_wf s"
proof (induction rule: task_reachable.induct)
  case (created op e es ev s)
  from created(1) obtain task connectivity attention activity review where
    "es = [TaskCreated task connectivity attention activity review]" by (rule decide_create_events)
  then have "apply_task_created x None ev task connectivity attention activity review = Inr s"
    using created by (simp add: apply_event_def)
  then show ?case using wf_task_created orch_task_created by blast
next
  case (commanded log s op e evs s')
  then show ?case
    using task_inv.replay_inv orch_browser_then decide_browser_then by blast
next
  case (hosted log s ev s')
  then have "guarded s (de_payload ev)"
    by (cases "de_payload ev") (simp_all add: host_event_def guarded_def is_task_mutation_def)
  then show ?case using hosted task_inv.step_inv orch_task_step by blast
qed

text \<open>Events that advance the task are accepted one by one by \<open>apply\<close> as the store numbers them.\<close>

lemma advance_events:
  assumes "\<forall>e\<in>set es. plain_mutation e" "try_fold (advance x 1) es s = Inr s'"
  shows "\<exists>evs. map de_payload evs = es \<and> try_fold (task_step x) evs s = Inr s'"
  using assms
proof (induction es arbitrary: s)
  case (Cons e es)
  obtain s1 where s1: "advance x 1 e s = Inr s1" "try_fold (advance x 1) es s1 = Inr s'"
    using Cons.prems(2) by (auto simp: result_simps)
  obtain evs where evs: "map de_payload evs = es" "try_fold (task_step x) evs s1 = Inr s'"
    using Cons.IH[OF _ s1(2)] Cons.prems(1) by auto
  obtain n where n: "checked_add (tk_revision (sn_task s)) 1 = Some n"
    using s1(1) by (auto simp: advance_def result_simps)
  let ?ev = "\<lparr> de_id = nil_id, de_task_id = Some (tk_id (sn_task s)), de_sequence = 1,
               de_task_revision = Some n, de_occurred_at_ms = 1, de_payload = e \<rparr>"
  have "task_step x ?ev s = Inr s1"
    using apply_event_advance[OF _ n, of e] s1(1) Cons.prems(1) by (simp add: task_step_def)
  then show ?case using evs by (intro exI[of _ "?ev # evs"]) simp
qed simp

lemma decide_applies:
  assumes r: "task_reachable x log s" and d: "decide x op (Some s) e = Inr es"
    and gap: "\<not> decide_gap (ce_command e) s" and room: "revision_of s + length es < 2 ^ 64"
  shows "\<exists>s'. apply_all x fresh (Some s) es = Inr s' \<and> task_reachable x (log @ [e]) s'
    \<and> revision_of s' = revision_of s + length es"
proof -
  have through: "goes_through x s es" using decide_goes_through[OF _ _ d gap] reachable_wf[OF r] by blast
  then obtain s' where plain: "\<forall>e\<in>set es. plain_mutation e" and s': "try_fold (advance x 1) es s = Inr s'"
    using room unfolding goes_through_def by blast
  obtain evs where evs: "map de_payload evs = es" "try_fold (task_step x) evs s = Inr s'"
    using advance_events[OF plain s'] by blast
  have "task_reachable x (log @ [e]) s'" using task_reachable.commanded[OF r, of op e evs] d evs by simp
  moreover have "revision_of s' = revision_of s + length es"
    using advance_rev.replay_count[OF s'] by (simp add: sum_list_triv)
  ultimately show ?thesis using apply_all_advance[OF plain] s' by auto
qed

section \<open>The gap is real\<close>

text \<open>Commands of the gap that decide anything decide a first event that does not apply.\<close>

definition first_fails :: "ext \<Rightarrow> task_snapshot \<Rightarrow> event list \<Rightarrow> bool" where
  "first_fails x s es \<longleftrightarrow> (\<forall>e\<in>set es. plain_mutation e) \<and> \<not> (\<exists>s'. mutate x 1 (hd es) s = Inr s')"

lemma first_fails_apply_all:
  assumes "first_fails x s es" "es \<noteq> []"
  shows "\<exists>err. apply_all x fresh (Some s) es = Inl err"
proof -
  obtain e es' where es: "es = e # es'" using assms(2) by (cases es) auto
  obtain err where "mutate x 1 e s = Inl err" using assms(1) by (cases "mutate x 1 e s") (auto simp: first_fails_def es)
  then have "\<exists>err. advance x 1 e s = Inl err"
    by (cases "checked_add (tk_revision (sn_task s)) 1") (simp_all add: advance_def)
  then show ?thesis using assms(1) apply_all_advance[of es x fresh s] by (auto simp: first_fails_def es)
qed

lemma ninth_shell_fails:
  assumes "decide_register_resource r s = Inr es" "is_plain_shell (rs_recipe r)"
    and "MAX_PLAIN_SHELLS_PER_TASK \<le> length (ts_order (sn_terminal_strip s))"
  shows "first_fails x s es"
  using assms
  by (auto simp: decide_register_resource_def apply_resource_registered_def is_ok_iff Let_def first_fails_def arm_simps
      split: if_splits)

lemma full_winners_fail:
  assumes "decide_submit_provider_input op c cl i s = Inr es" "winners_full i s"
  shows "first_fails x s es"
proof -
  obtain e where es: "es = [ProviderInputAccepted e]" and e: "pia_action e = si_action i"
    "pia_agent_session_id e = si_agent_session_id i"
    using assms(1) by (auto simp: decide_submit_provider_input_def Let_def result_simps split: if_splits)
  have "\<not> is_ok (accept_into_session at f e (session_or_default (pia_agent_session_id e) s))" for at f
    using assms(2)
    by (auto simp: accept_into_session_def check_resolution_def record_resolution_def winners_full_def e Let_def
        result_simps is_ok_iff bounded_insert_question_winner_Inr bounded_insert_approval_winner_Inr
        split: provider_input_action.splits if_splits)
  then have "\<not> (\<exists>s'. apply_input_accepted 1 e s = Inr s')"
    by (auto simp: apply_input_accepted_def Let_def result_simps is_ok_iff session_or_default_def snap_upd split: if_splits)
  then show ?thesis by (simp add: es first_fails_def arm_simps)
qed

lemma moved_wait_fails:
  assumes "decide_settle_wait i s = Inr es" "wait_identity_moved i s"
  shows "first_fails x s es"
proof -
  have es: "es = [ProviderWaitSettled (sw_fence i)]"
    using assms(1) by (auto simp: decide_settle_wait_def Let_def result_simps split: if_splits)
  have "\<not> (\<exists>s'. apply_wait_settled (sw_fence i) s = Inr s')"
    using assms(2)
    by (auto simp: apply_wait_settled_def Let_def result_simps snapshot_fence_Inr validate_provider_fence_Inr
        fence_context_check_Inr wait_identity_moved_def split: option.splits)
  then show ?thesis by (simp add: es first_fails_def arm_simps)
qed

lemma overfull_close_fails:
  assumes wf: "snap_wf sha s" and d: "decide_begin_close s = Inr es" and ne: "es \<noteq> []"
    and full: "MAX_BROWSER_JOURNAL_FACTS
      < length (bb_facts (sn_browser s)) + length (plan_close_task (sn_browser s) (tk_id (sn_task s)))"
  shows "first_fails x s es"
proof -
  obtain n where es: "es = [TaskCloseBegun n]"
    using d ne by (auto simp: decide_begin_close_def Let_def result_simps split: task_lifecycle.splits)
  have "length (bb_facts (sn_browser s)) \<le> MAX_BROWSER_JOURNAL_FACTS"
    using snap_wfD(9)[OF wf] by (simp add: browser_wf_def book_wf_def)
  then have "plan_close_task (sn_browser s) (tk_id (sn_task s)) \<noteq> []" using full by auto
  then have "\<not> (\<exists>b. close_task (x_browser x) (tk_id (sn_task s)) (sn_browser s) = (Inr (), b))"
    using full close_task_ok_iff[of "x_browser x" "tk_id (sn_task s)" "sn_browser s"] by (simp add: not_le)
  then have "\<not> (\<exists>s'. apply_close_begun x n s = Inr s')"
    by (auto simp: apply_close_begun_def Let_def result_simps snap_upd split: if_splits prod.splits sum.splits)
  then show ?thesis by (simp add: es first_fails_def arm_simps)
qed

lemma browser_gap_fails:
  assumes wf: "snap_wf (x_sha256 x) s" and d: "decide_browser (x_browser x) c q s = Inr es"
    and gap: "browser_gap (sn_browser s) q"
  shows "first_fails x s es"
proof -
  let ?b = "sn_browser s"
  obtain r where plan: "plan_admit (x_browser x) ?b q = Inr r"
    and es: "es = map Browser (bx_facts (bind_command c (tk_action_epoch (sn_task s)) r))"
    using d by (auto simp: decide_browser_def result_simps split: if_splits)
  have own: "book_owned (tk_id (sn_task s)) ?b" using snap_wfD(9)[OF wf] by (simp add: browser_wf_def)
  obtain ra fs where fs: "es = Browser (BfRequestAccepted ra) # map Browser fs" "ra_request ra = q"
  proof (cases "bget (bb_receipts ?b) (bq_request_id q)")
    case None
    from bind_command_facts[OF plan None] that show thesis by (metis es list.simps(9))
  next
    case (Some prior)
    from replayed_facts[OF own plan Some, of c "tk_action_epoch (sn_task s)"] that[of _ "[]"] show thesis by (auto simp: es)
  qed
  have "\<not> (\<exists>b'. apply_facts (x_browser x) [BfRequestAccepted ra] ?b = Inr b')"
    using gap fs(2)
    by (auto simp: apply_facts_Inr apply_fact_def apply_fact_body_def result_simps apply_request_accepted_Inr Let_def
        browser_gap_def stale_reclose_def split: if_splits option.splits)
  then show ?thesis by (auto simp: fs first_fails_def browser_plain mutate_def result_simps split: if_splits)
qed

lemma decide_gap_fails:
  assumes wf: "snap_wf (x_sha256 x) s" and d: "decide x op (Some s) e = Inr es" and ne: "es \<noteq> []"
    and gap: "decide_gap (ce_command e) s"
  shows "first_fails x s es"
  using gap d ne ninth_shell_fails full_winners_fail moved_wait_fails overfull_close_fails[OF wf]
    browser_gap_fails[OF wf]
  by (cases "ce_command e") (auto simp: decide_gap_def decide_def Let_def with_task_Inr)
end
