(* ===== verification/Fences.thy ===== *)
theory Fences
  imports Decision
begin

text \<open>
  What an accepted event rules out later: the answer that settles a question or an approval
  for good, and the events that a task which is not live no longer decides.
\<close>

definition same_resolution :: "provider_input_action \<Rightarrow> provider_input_action \<Rightarrow> bool" where
  "same_resolution a b =
     (case (a, b) of
        (AnswerQuestion q _, AnswerQuestion q' _) \<Rightarrow> q = q'
      | (ResolveApproval p _, ResolveApproval p' _) \<Rightarrow> p = p'
      | _ \<Rightarrow> False)"

definition resolved :: "provider_input_action \<Rightarrow> provider_session_projection \<Rightarrow> bool" where
  "resolved a p =
     (case a of
        AnswerQuestion q _ \<Rightarrow> bcontains (pp_question_winners p) q
      | ResolveApproval b _ \<Rightarrow> bcontains (pp_approval_winners p) b
      | _ \<Rightarrow> False)"

lemma same_resolution_iff:
  "same_resolution a b \<longleftrightarrow>
     (\<exists>q v w. a = AnswerQuestion q v \<and> b = AnswerQuestion q w)
     \<or> (\<exists>p v w. a = ResolveApproval p v \<and> b = ResolveApproval p w)"
  by (cases a; cases b) (auto simp: same_resolution_def)

lemma accept_into_session_resolved:
  assumes "accept_into_session at f e p = Inr p'" "same_resolution (pia_action e) b"
  shows "resolved b p'"
  using assms(2) unfolding same_resolution_iff
proof (elim disjE exE conjE)
  fix q v w assume "pia_action e = AnswerQuestion q v" "b = AnswerQuestion q w"
  then show ?thesis using assms(1)
    by (auto simp: accept_into_session_def record_resolution_def resolved_def Let_def result_simps
        bounded_insert_question_winner_Inr dest!: bounded_insert_wait_waits split: if_splits)
next
  fix q v w assume "pia_action e = ResolveApproval q v" "b = ResolveApproval q w"
  then show ?thesis using assms(1)
    by (auto simp: accept_into_session_def record_resolution_def resolved_def Let_def result_simps
        bounded_insert_approval_winner_Inr dest!: bounded_insert_wait_waits split: if_splits)
qed

lemma input_accepted_resolved:
  assumes "task_step x ev s = Inr s1" "de_payload ev = ProviderInputAccepted e" "same_resolution (pia_action e) b"
  shows "\<exists>p. bget (sn_provider_sessions s1) (pia_agent_session_id e) = Some p \<and> resolved b p"
  using assms(1,2) accept_into_session_resolved[OF _ assms(3)]
  by (auto simp: task_step_mutation is_task_mutation_def mutate_def apply_into_def apply_input_accepted_def Let_def
      result_simps put_session_def set_revision_def upd_task_def split: if_splits)

lemma resolved_stays:
  assumes "winners_kept p p'" "resolved b p"
  shows "resolved b p'"
  using assms by (cases b) (auto simp: resolved_def winners_kept_def bcontains_iff)

lemma check_input_turn_resolved: "resolved a p \<Longrightarrow> check_input_turn a t p = Inl RcAlreadyResolved"
  by (cases a) (simp_all add: resolved_def check_input_turn_def)

definition starts_work :: "event \<Rightarrow> bool" where
  "starts_work e =
     (case e of
        AgentSessionRegistered _ \<Rightarrow> True
      | AgentProviderSessionBound _ _ _ _ \<Rightarrow> True
      | SpecialistRequested _ \<Rightarrow> True
      | ResourceRegistered _ \<Rightarrow> True
      | ProviderInputAccepted _ \<Rightarrow> True
      | ProviderQuestionPresented _ _ _ _ _ _ _ \<Rightarrow> True
      | ProviderApprovalPresented _ _ _ _ _ _ _ \<Rightarrow> True
      | Browser _ \<Rightarrow> True
      | _ \<Rightarrow> False)"

lemma unguarded_arm_events:
  "decide_rename_task title s = Inr es \<Longrightarrow> \<exists>t. es = [TaskRenamed t]"
  "decide_register_artifact a s = Inr es \<Longrightarrow> es = [ArtifactRegistered a]"
  "decide_release_resource rid s = Inr es \<Longrightarrow> es = [] \<or> (\<exists>n. es = [ResourceReleaseBegun rid n])"
  "decide_close_terminal rid s = Inr es \<Longrightarrow> es = [] \<or> (\<exists>n. es = [ResourceReleaseBegun rid n])"
  "decide_rename_terminal rid title s = Inr es \<Longrightarrow> \<exists>t. es = [TerminalRenamed rid t]"
  "decide_set_strip strip s = Inr es \<Longrightarrow> es = [TaskTerminalStripSet strip]"
  "decide_settle_wait i s = Inr es \<Longrightarrow> es = [ProviderWaitSettled (sw_fence i)]"
  by (auto simp: decide_rename_task_def decide_register_artifact_def decide_release_resource_def
      decide_close_terminal_def decide_rename_terminal_def decide_set_strip_def decide_settle_wait_def Let_def
      result_simps split: if_splits option.splits resource_lifecycle.splits)

lemma lifecycle_arm_events:
  "decide_settle_task s = Inr es \<Longrightarrow> es = [] \<or> es = [TaskSettled]"
  "decide_begin_close s = Inr es \<Longrightarrow> es = [] \<or> (\<exists>n. es = [TaskCloseBegun n])"
  "decide_reopen_task s = Inr es \<Longrightarrow> es = [TaskReopened]"
  "decide_delete_task s = Inr es \<Longrightarrow> es = [TaskDeleted]"
  by (auto simp: decide_settle_task_def decide_begin_close_def decide_reopen_task_def decide_delete_task_def Let_def
      result_simps split: task_lifecycle.splits)
end
