(* ===== verification/Scenario.thy ===== *)
theory Scenario
  imports Fences
begin

text \<open>
  Concrete inputs: external code instantiated by constant functions, a created task and the
  commands that move it.
\<close>

definition sc_ext :: ext where
  "sc_ext = \<lparr> x_sha256 = (\<lambda>_. replicate 32 0), x_from_json = (\<lambda>_. None), x_browser = sample_lib \<rparr>"

definition sc_title :: rstr where "sc_title = [100, 101, 109, 111]"

definition sc_create :: create_task_intent where
  "sc_create = \<lparr> ct_id = Id 1, ct_environment_id = Id 2, ct_title = sc_title, ct_description = None,
     ct_project_id = Id 3, ct_workspace = WsMain, ct_assignment = LocalOwner, ct_created_at_ms = 5,
     ct_connectivity = Connected, ct_attention = AttNone, ct_activity = ActIdle,
     ct_review_readiness = NotReady \<rparr>"

definition sc_envelope :: "task_snapshot option \<Rightarrow> unit command \<Rightarrow> unit command_envelope" where
  "sc_envelope s c = \<lparr> ce_command_id = Id 10, ce_client_id = Id 11,
     ce_task_id = map_option (\<lambda>s. tk_id (sn_task s)) s, ce_issued_at_ms = 6,
     ce_expected_task_revision = map_option (\<lambda>s. tk_revision (sn_task s)) s, ce_command = c \<rparr>"

definition sc_task :: task_facts where
  "sc_task = \<lparr> tk_id = Id 1, tk_environment_id = Id 2, tk_title = sc_title, tk_description = None,
     tk_project_id = Id 3, tk_workspace = WsMain, tk_assignment = LocalOwner, tk_lifecycle = TlOpen,
     tk_action_epoch = 0, tk_revision = 1, tk_created_at_ms = 5 \<rparr>"

definition sc_created :: domain_event where
  "sc_created = \<lparr> de_id = Id 20, de_task_id = Some (Id 1), de_sequence = 1, de_task_revision = Some 1,
     de_occurred_at_ms = 7, de_payload = TaskCreated sc_task Connected AttNone ActIdle NotReady \<rparr>"

definition sc_start :: task_snapshot where
  "sc_start = \<lparr> sn_task = sc_task, sn_connectivity = Connected, sn_attention = AttNone,
                sn_activity = ActIdle, sn_review_readiness = NotReady, sn_agents = bempty,
                sn_primary_agent_id = None, sn_artifacts = bempty, sn_resources = bempty,
                sn_provider_sessions = bempty,
                sn_browser = book_new \<lparr> bb_open_tasks := bs_insert (Id 1) bempty \<rparr>, sn_terminal_facts = bempty,
                sn_terminal_strip = strip_default \<rparr>"

lemma sc_trim [simp]: "trim sc_title = sc_title" "sc_title \<noteq> []" "is_canonical sc_title"
  by (simp_all add: sc_title_def trim_def is_canonical_def is_whitespace_def)

lemma sc_valid: "validate_for_create sha sc_task = Inr ()"
  by (simp add: validate_for_create_def validate_content_def sc_task_def workspace_ref_validate_def task_assignment_validate_def)

lemma sc_decide_create:
  "decide sc_ext op None (sc_envelope None (CreateTask sc_create)) = Inr [TaskCreated sc_task Connected AttNone ActIdle NotReady]"
  using sc_valid[unfolded sc_task_def]
  by (simp add: decide_def sc_envelope_def decide_create_task_def sc_create_def sc_task_def Let_def)

lemma sc_apply_create: "apply_event sc_ext None sc_created = Inr sc_start"
  using sc_valid
  by (simp add: apply_event_def sc_created_def apply_task_created_def sc_start_def open_task_def book_new_def book_default_def
    MAX_BROWSER_OPEN_TASKS_def sc_task_def)

lemma sc_reachable: "task_reachable sc_ext [sc_envelope None (CreateTask sc_create)] sc_start"
  using sc_decide_create[of "Id 30"] sc_apply_create
  by (intro task_reachable.created[of _ "Id 30" _ "[TaskCreated sc_task Connected AttNone ActIdle NotReady]" sc_created])
     (simp_all add: sc_created_def)
definition sc_book1 :: browser_book where
  "sc_book1 = book_new \<lparr> bb_open_tasks := bs_insert (Id 1) bempty,
     bb_contexts := binsert (Id 2) (fresh_context (Id 1) 1) bempty,
     bb_facts := [BfContextCreated (Id 2) (Id 1) 1] \<rparr>"

definition sc_book2 :: browser_book where
  "sc_book2 = sc_book1 \<lparr>
     bb_contexts := binsert (Id 2) ((fresh_context (Id 1) 1) \<lparr> cx_closed := True \<rparr>) (bb_contexts sc_book1),
     bb_tabs := bmap_values (\<lambda>tab. if tb_context_id tab = Id 2 then tab \<lparr> tb_closed := True \<rparr> else tab) bempty,
     bb_facts := [BfContextCreated (Id 2) (Id 1) 1, BfContextClosed (Id 2) (Id 1) 1] \<rparr>"

definition sc_browser_event :: "u64 \<Rightarrow> browser_durable_fact \<Rightarrow> domain_event" where
  "sc_browser_event n f = \<lparr> de_id = Id 21, de_task_id = Some (Id 1), de_sequence = n, de_task_revision = Some n,
     de_occurred_at_ms = 8, de_payload = Browser f \<rparr>"

definition sc_closed :: task_snapshot where
  "sc_closed = set_revision 3 (sc_start \<lparr> sn_browser := sc_book2 \<rparr>)"

lemma sc_closed_reachable: "task_reachable sc_ext [sc_envelope None (CreateTask sc_create)] sc_closed"
proof -
  have 1: "task_step sc_ext (sc_browser_event 2 (BfContextCreated (Id 2) (Id 1) 1)) sc_start
      = Inr (set_revision 2 (sc_start \<lparr> sn_browser := sc_book1 \<rparr>))"
    by (simp add: task_step_mutation sc_browser_event_def is_task_mutation_def creates_def mutate_def fact_task_id_def
        apply_facts_Inr[THEN iffD2] apply_fact_def apply_fact_body_def apply_context_created_def
        sc_start_def sc_task_def sc_book1_def book_new_def book_default_def browser_bounds checked_add_def result_simps)
  have 2: "task_step sc_ext (sc_browser_event 3 (BfContextClosed (Id 2) (Id 1) 1))
      (set_revision 2 (sc_start \<lparr> sn_browser := sc_book1 \<rparr>)) = Inr sc_closed"
    by (simp add: task_step_mutation sc_browser_event_def is_task_mutation_def creates_def mutate_def fact_task_id_def
        apply_facts_Inr[THEN iffD2] apply_fact_def apply_fact_body_def apply_context_closed_def with_owned_context_def
        fresh_context_def sc_start_def sc_task_def sc_book1_def sc_book2_def sc_closed_def book_new_def book_default_def
        browser_bounds checked_add_def set_revision_def upd_task_def result_simps)
  show ?thesis
    by (intro task_reachable.hosted[OF task_reachable.hosted[OF sc_reachable _ 1] _ 2])
       (simp_all add: sc_browser_event_def host_event_def)
qed

definition sc_settled :: domain_event where
  "sc_settled = \<lparr> de_id = Id 21, de_task_id = Some (Id 1), de_sequence = 2, de_task_revision = Some 2,
     de_occurred_at_ms = 8, de_payload = TaskSettled \<rparr>"

lemma sc_step_settled:
  "task_step sc_ext sc_settled sc_start = Inr (set_revision 2 (sc_start \<lparr> sn_task := sc_task \<lparr> tk_lifecycle := TlSettled \<rparr> \<rparr>))"
  by (simp add: task_step_mutation sc_settled_def is_task_mutation_def creates_def mutate_def apply_into_def
      apply_task_settled_def sc_start_def sc_task_def checked_add_def upd_task_def set_revision_def)

definition sc_reclose :: browser_request where
  "sc_reclose = \<lparr> bq_request_id = Id 5, bq_task_id = Id 1, bq_context_id = Id 2, bq_tab_id = None,
     bq_generation = 2, bq_action = BaCloseContext \<rparr>"

lemma sc_reclose_decided:
  "\<exists>f. decide sc_ext nil_id (Some sc_closed) (sc_envelope (Some sc_closed) (CBrowser sc_reclose)) = Inr [f]"
  by (simp add: decide_def sc_envelope_def with_task_Inr decide_browser_def sc_closed_def sc_start_def sc_task_def
      snap_upd is_live_def sc_reclose_def plan_admit_def sc_book2_def sc_book1_def book_new_def book_default_def
      browser_bounds validate_action_fields_def action_url_def plan_identity_facts_def plan_close_context_def
      fresh_context_def bind_command_def Let_def with_runtime_task_def require_runtime_capable_task_def require_task_def
      require_expected_revision_def)

definition sc_close :: domain_event where
  "sc_close = \<lparr> de_id = Id 21, de_task_id = Some (Id 1), de_sequence = 2, de_task_revision = Some 2,
     de_occurred_at_ms = 8, de_payload = TaskCloseBegun 1 \<rparr>"

lemma sc_close_applies: "\<exists>s1. task_step sc_ext sc_close sc_start = Inr s1"
proof -
  obtain b where "close_task sample_lib (Id 1) (sn_browser sc_start) = (Inr (), b)"
    using close_task_ok_iff[of sample_lib "Id 1" "sn_browser sc_start"]
    by (auto simp: sc_start_def book_new_def book_default_def plan_close_task_def bempty.rep_eq)
  then show ?thesis
    by (simp add: task_step_mutation sc_close_def is_task_mutation_def creates_def mutate_def apply_into_def
        apply_close_begun_def sc_start_def sc_task_def sc_ext_def checked_add_def upd_task_def)
qed

definition sc_agent :: agent_session_facts where
  "sc_agent = \<lparr> ag_id = Id 4, ag_task_id = Id 1, ag_role = Primary, ag_provider_kind = Codex,
     ag_provider_session_id = None, ag_lifecycle = AgOpen, ag_runtime_generation = 1, ag_revision = 1 \<rparr>"

definition sc_asked :: task_snapshot where
  "sc_asked = sc_start \<lparr> sn_agents := binsert (Id 4) sc_agent bempty,
     sn_provider_sessions := binsert (Id 4)
       (projection_default \<lparr> pp_current_turn := Some (Id 5), pp_open_question := Some (Id 6) \<rparr>) bempty \<rparr>"

definition sc_answer :: provider_input_accepted where
  "sc_answer = \<lparr> pia_command_id = Id 10, pia_client_id = Id 11, pia_operation_id = Id 12,
     pia_agent_session_id = Id 4, pia_provider_kind = Codex, pia_provider_session_id = None,
     pia_runtime_generation = 1, pia_turn_id = Id 5, pia_action_epoch = 0, pia_question_id = Some (Id 6),
     pia_approval_id = None, pia_action = AnswerQuestion (Id 6) [121], pia_wait = False,
     pia_delivery = Hold DestinationAdapterNotWired \<rparr>"

definition sc_answered :: domain_event where
  "sc_answered = \<lparr> de_id = Id 21, de_task_id = Some (Id 1), de_sequence = 2, de_task_revision = Some 2,
     de_occurred_at_ms = 8, de_payload = ProviderInputAccepted sc_answer \<rparr>"

lemma sc_answer_applies: "\<exists>s1. task_step sc_ext sc_answered sc_asked = Inr s1"
proof -
  have "validate_snapshot_provider_fence sc_asked (Id 4) (input_fence sc_asked sc_answer)
     (Some (AnswerQuestion (Id 6) [121])) (Some False) (input_current_turn sc_asked sc_answer) False = Inr ()"
    by (simp add: snapshot_fence_Inr validate_provider_fence_Inr fence_context_check_Inr input_fence_def
        input_current_turn_def sc_answer_def sc_asked_def sc_start_def sc_task_def sc_agent_def is_send_now_def
        projection_default_def validate_action_nested_ids_def validate_provider_text_def waits_for_turn_def
        char_utf8_len_def provider_bounds)
  then show ?thesis
    by (simp add: task_step_mutation sc_answered_def is_task_mutation_def creates_def mutate_def apply_into_def
        apply_input_accepted_def sc_answer_def is_delivered_def is_send_now_def accept_into_session_def
        check_resolution_def record_resolution_def bounded_insert_question_winner_def session_or_default_def
        sc_asked_def sc_start_def sc_task_def projection_default_def checked_add_def provider_bounds)
qed
end
