(* ===== verification/Wire_Bytes.thy ===== *)
theory Wire_Bytes
  imports Ids
begin

text \<open>
  What the modules of \<open>src/protocol\<close> share of the Rust core library: \<open>to_be_bytes\<close> and
  \<open>from_be_bytes\<close> on integers of any width, the length of a slice as a \<open>u64\<close>, slices, and byte
  channels (\<open>std::io::Read\<close> and \<open>std::io::Write\<close>) as the locale \<open>byte_channel\<close>, with the in-memory
  channel as its instance.
\<close>

named_theorems byte_simps \<open>lengths and slices of encoded values\<close>

section \<open>Big-endian integers\<close>

fun be_bytes :: "nat \<Rightarrow> nat \<Rightarrow> u8 list" where
  "be_bytes 0 k = []"
| "be_bytes (Suc n) k = be_bytes n (k div 256) @ [word_of_nat k]"

definition be_value :: "u8 list \<Rightarrow> nat" where
  "be_value bs = foldl (\<lambda>a b. a * 256 + unat b) 0 bs"

definition to_be_bytes :: "'a::len word \<Rightarrow> u8 list" where
  "to_be_bytes w = be_bytes (LENGTH('a) div 8) (unat w)"

definition from_be_bytes :: "u8 list \<Rightarrow> 'a::len word" where
  "from_be_bytes bs = word_of_nat (be_value bs)"

lemma length_be_bytes [simp, byte_simps]: "length (be_bytes n k) = n"
  by (induction n arbitrary: k) auto

lemma be_bytes_numeral:
  "be_bytes (numeral n) k = be_bytes (pred_numeral n) (k div 256) @ [word_of_nat k]"
  by (simp only: numeral_eq_Suc be_bytes.simps)

lemma length_to_be_bytes [byte_simps]:
  "length (to_be_bytes (w :: 'a::len word)) = LENGTH('a) div 8"
  by (simp add: to_be_bytes_def)

lemma length_to_be_bytes_widths [simp]:
  "length (to_be_bytes (x :: u16)) = 2"
  "length (to_be_bytes (y :: u32)) = 4"
  "length (to_be_bytes (z :: u64)) = 8"
  "length (to_be_bytes (i :: 128 word)) = 16"
  by (simp_all add: to_be_bytes_def)

lemma be_value_snoc: "be_value (bs @ [b]) = be_value bs * 256 + unat b"
  by (simp add: be_value_def)

lemma be_value_be_bytes: "be_value (be_bytes n k) = k mod 256 ^ n"
proof (induction n arbitrary: k)
  case 0
  then show ?case by (simp add: be_value_def)
next
  case (Suc n)
  have "be_value (be_bytes (Suc n) k) = k div 256 mod 256 ^ n * 256 + k mod 256"
    by (simp add: be_value_snoc Suc.IH unat_of_nat)
  also have "\<dots> = k mod 256 ^ Suc n"
    using mod_mult2_eq[of k 256 "256 ^ n"] by (simp add: mult.commute)
  finally show ?case .
qed

lemma be_bytes_be_value: "be_bytes (length bs) (be_value bs) = bs"
proof (induction bs rule: rev_induct)
  case (snoc b bs)
  have "be_value (bs @ [b]) div 256 = be_value bs"
    using unsigned_less[of b, where ?'a = nat] by (simp add: be_value_snoc)
  moreover have "word_of_nat (be_value (bs @ [b])) = b"
  proof -
    have "unat (word_of_nat (be_value (bs @ [b])) :: u8) = (be_value bs * 256 + unat b) mod 256"
      by (simp only: be_value_snoc unat_of_nat) simp
    also have "\<dots> = unat b" using unsigned_less[of b, where ?'a = nat] by simp
    finally show ?thesis by (simp add: word_unat_eq_iff)
  qed
  ultimately show ?case by (simp add: snoc)
qed simp

lemma be_value_bound: "be_value bs < 256 ^ length bs"
  using be_value_be_bytes[of "length bs" "be_value bs"] be_bytes_be_value[of bs]
  by (metis mod_less_divisor zero_less_numeral zero_less_power)

lemma from_to_be_bytes:
  assumes "8 dvd LENGTH('a::len)"
  shows "from_be_bytes (to_be_bytes (w :: 'a word)) = w"
proof -
  have "(256 :: nat) ^ (LENGTH('a) div 8) = 2 ^ LENGTH('a)"
    using assms power_mult[of "2 :: nat" 8 "LENGTH('a) div 8"] by simp
  then show ?thesis
    by (simp add: from_be_bytes_def to_be_bytes_def be_value_be_bytes)
qed

lemma from_to_be_bytes_widths [simp]:
  "from_be_bytes (to_be_bytes (x :: u16)) = x"
  "from_be_bytes (to_be_bytes (y :: u32)) = y"
  "from_be_bytes (to_be_bytes (z :: u64)) = z"
  "from_be_bytes (to_be_bytes (i :: 128 word)) = i"
  by (simp_all add: from_to_be_bytes)

lemma to_from_be_bytes:
  assumes "8 dvd LENGTH('a::len)" and "length bs = LENGTH('a) div 8"
  shows "to_be_bytes (from_be_bytes bs :: 'a word) = bs"
proof -
  have "(256 :: nat) ^ (LENGTH('a) div 8) = 2 ^ LENGTH('a)"
    using assms(1) power_mult[of "2 :: nat" 8 "LENGTH('a) div 8"] by simp
  then have "unat (from_be_bytes bs :: 'a word) = be_value bs"
    using be_value_bound[of bs] assms(2) by (simp add: from_be_bytes_def unat_of_nat)
  then show ?thesis
    using be_bytes_be_value[of bs] assms(2) by (simp add: to_be_bytes_def)
qed

lemma to_be_bytes_inject:
  assumes "8 dvd LENGTH('a::len)"
  shows "to_be_bytes (v :: 'a word) = to_be_bytes w \<longleftrightarrow> v = w"
  using from_to_be_bytes[OF assms] by metis

section \<open>Slices\<close>

text \<open>\<open>u64::try_from(bytes.len()).unwrap_or(u64::MAX)\<close>.\<close>

definition len_u64 :: "'b list \<Rightarrow> u64" where
  "len_u64 bs = (if length bs < 2 ^ 64 then word_of_nat (length bs) else - 1)"

definition slice :: "nat \<Rightarrow> nat \<Rightarrow> 'b list \<Rightarrow> 'b list" where
  "slice i j bs = take (j - i) (drop i bs)"

lemma unat_len_u64: "length bs < 2 ^ 64 \<Longrightarrow> unat (len_u64 bs) = length bs"
  by (simp add: len_u64_def unat_of_nat)

lemma len_u64_le_iff:
  assumes "(m :: u64) < - 1"
  shows "len_u64 bs \<le> m \<longleftrightarrow> length bs \<le> unat m"
proof (cases "length bs < 2 ^ 64")
  case True
  then show ?thesis by (simp add: word_le_nat_alt unat_len_u64)
next
  case False
  have "unat m < 2 ^ 64" using unsigned_less[of m, where ?'a = nat] by simp
  with False assms show ?thesis by (simp add: len_u64_def not_le)
qed

lemma len_u64_zero_iff [simp]: "len_u64 bs = 0 \<longleftrightarrow> bs = []"
proof (cases "length bs < 2 ^ 64")
  case True
  then show ?thesis using unat_len_u64[OF True] by (metis length_0_conv unat_0 unat_eq_zero)
qed (auto simp: len_u64_def)

lemma unat_ucast_u32 [simp]: "unat (ucast (x :: u32) :: u64) = unat x"
  using unsigned_less[of x, where ?'a = nat]
  by (simp add: unsigned_ucast_eq take_bit_nat_eq_self)

lemma len_u64_gt_u32_iff [simp]: "ucast (m :: u32) < len_u64 bs \<longleftrightarrow> unat m < length bs"
proof -
  have "(ucast m :: u64) < - 1"
    using unsigned_less[of m, where ?'a = nat]
    by (simp add: word_less_nat_alt unsigned_minus_1_eq_mask mask_eq_exp_minus_1)
  then show ?thesis using len_u64_le_iff[of "ucast m" bs] by (simp add: not_le[symmetric])
qed

lemma slice_append [byte_simps]:
  "length xs = i \<Longrightarrow> j = i + length ys \<Longrightarrow> slice i j (xs @ ys @ zs) = ys"
  by (simp add: slice_def)

lemma slice_drop: "i \<le> j \<Longrightarrow> slice i j bs @ drop j bs = drop i bs"
  using append_take_drop_id[of "j - i" "drop i bs"] by (simp add: slice_def)

lemma length_slice [byte_simps]: "j \<le> length bs \<Longrightarrow> length (slice i j bs) = j - i"
  by (simp add: slice_def)

lemma drop_exact: "length xs = n \<Longrightarrow> drop n (xs @ ys) = ys"
  by simp

section \<open>Byte channels\<close>

text \<open>
  \<open>std::io\<close>: \<open>read_exact\<close> and \<open>write_all\<close> against a channel of type \<open>'s\<close>.  The channel is a
  parameter of the code that uses it.  A failed call reports its \<open>ErrorKind\<close> and leaves the
  channel in a state of the channel's choosing.
\<close>

datatype error_kind = UnexpectedEof | WriteZero | ConnectionReset | BrokenPipe | OtherKind nat

record 's io =
  read_exact :: "'s \<Rightarrow> nat \<Rightarrow> (error_kind + u8 list) \<times> 's"
  write_all :: "'s \<Rightarrow> u8 list \<Rightarrow> (error_kind + unit) \<times> 's"

text \<open>A channel that keeps what is written and gives it back in order.\<close>

locale byte_channel =
  fixes chan :: "'s io" and pending :: "'s \<Rightarrow> u8 list"
  assumes read_ok: "n \<le> length (pending s) \<Longrightarrow>
      \<exists>s'. read_exact chan s n = (Inr (take n (pending s)), s') \<and> pending s' = drop n (pending s)"
    and write_ok: "\<exists>s'. write_all chan s bs = (Inr (), s') \<and> pending s' = pending s @ bs"
begin

lemma read_prefix:
  assumes "pending s = bs @ rest" and "n = length bs"
  obtains s' where "read_exact chan s n = (Inr bs, s')" and "pending s' = rest"
  using read_ok[of n s] assms by auto

end

text \<open>\<open>VecDeque<u8>\<close>: the in-memory channel of the standard library.\<close>

definition pipe :: "u8 list io" where
  "pipe = \<lparr> read_exact = (\<lambda>s n. if n \<le> length s then (Inr (take n s), drop n s)
                               else (Inl UnexpectedEof, [])),
            write_all = (\<lambda>s bs. (Inr (), s @ bs)) \<rparr>"

lemma pipe_simps [simp]:
  "read_exact pipe s n = (if n \<le> length s then (Inr (take n s), drop n s)
                          else (Inl UnexpectedEof, []))"
  "write_all pipe s bs = (Inr (), s @ bs)"
  by (simp_all add: pipe_def)

interpretation memory_pipe: byte_channel pipe "\<lambda>s. s"
  by unfold_locales simp_all

end
