(* ===== verification/Wire_Serde.thy ===== *)
theory Wire_Serde
  imports Wire_Bytes
begin

text \<open>
  The serialisation framework as the hand-written \<open>Serialize\<close> and \<open>Deserialize\<close> implementations
  of \<open>src/protocol\<close> see it.  The crates \<open>serde\<close> and \<open>rmp_serde\<close> are the parameter \<open>serde\<close>: one
  constructor and one reader for each primitive the code uses, over an abstract type \<open>'v\<close> of
  encoded values.  The locale \<open>serde_values\<close> states what the code relies on, that reading what was
  written gives it back; \<open>tree_serde\<close> is an instance.  The rest of the theory models the parts of
  the visitors that every document repeats: a slot filled at most once, a missing field.
\<close>

section \<open>The framework\<close>

datatype de_error =
    UnknownField rstr
  | DuplicateField rstr
  | MissingField rstr
  | InvalidLength nat
  | InvalidType
  | InvalidValue
  | CustomError

text \<open>What \<open>deserialize_bytes\<close> hands to a visitor.\<close>

datatype 'v bytes_form = VisitBytes "u8 list" | VisitSeq "'v list"

text \<open>What \<open>deserialize_struct\<close> hands to a derived visitor: named fields, or their values in order.\<close>

datatype 'v struct_form = VisitMap "(rstr \<times> 'v) list" | VisitFields "'v list"

record 'v serde =
  ser_u8 :: "u8 \<Rightarrow> 'v"
  ser_u16 :: "u16 \<Rightarrow> 'v"
  ser_u32 :: "u32 \<Rightarrow> 'v"
  ser_u64 :: "u64 \<Rightarrow> 'v"
  ser_bool :: "bool \<Rightarrow> 'v"
  ser_str :: "rstr \<Rightarrow> 'v"
  ser_uuid :: "128 word \<Rightarrow> 'v"
  ser_bytes :: "u8 list \<Rightarrow> 'v"
  ser_none :: "'v"
  ser_some :: "'v \<Rightarrow> 'v"
  ser_map :: "(rstr \<times> 'v) list \<Rightarrow> 'v"
  de_u8 :: "'v \<Rightarrow> de_error + u8"
  de_u16 :: "'v \<Rightarrow> de_error + u16"
  de_u32 :: "'v \<Rightarrow> de_error + u32"
  de_u64 :: "'v \<Rightarrow> de_error + u64"
  de_bool :: "'v \<Rightarrow> de_error + bool"
  de_str :: "'v \<Rightarrow> de_error + rstr"
  de_uuid :: "'v \<Rightarrow> de_error + 128 word"
  de_bytes :: "'v \<Rightarrow> de_error + 'v bytes_form"
  de_option :: "'v \<Rightarrow> de_error + 'v option"
  de_map :: "'v \<Rightarrow> de_error + (rstr \<times> 'v) list"
  de_struct :: "'v \<Rightarrow> de_error + 'v struct_form"

locale serde_values =
  fixes lib :: "'v serde"
  assumes de_ser_u16: "de_u16 lib (ser_u16 lib a) = Inr a"
    and de_ser_u32: "de_u32 lib (ser_u32 lib b) = Inr b"
    and de_ser_u64: "de_u64 lib (ser_u64 lib c) = Inr c"
    and de_ser_bool: "de_bool lib (ser_bool lib d) = Inr d"
    and de_ser_str: "de_str lib (ser_str lib e) = Inr e"
    and de_ser_uuid: "de_uuid lib (ser_uuid lib f) = Inr f"
    and de_ser_uuid_bytes: "de_bytes lib (ser_uuid lib g) = Inr (VisitBytes (to_be_bytes g))"
    and de_ser_bytes: "de_bytes lib (ser_bytes lib bs) = Inr (VisitBytes bs)"
    and de_ser_none: "de_option lib (ser_none lib) = Inr None"
    and de_ser_some: "de_option lib (ser_some lib v) = Inr (Some v)"
    and de_ser_map: "de_map lib (ser_map lib m) = Inr m"
    and de_ser_struct: "de_struct lib (ser_map lib n) = Inr (VisitMap n)"
begin

lemmas de_ser = de_ser_u16 de_ser_u32 de_ser_u64 de_ser_bool de_ser_str de_ser_uuid
  de_ser_uuid_bytes de_ser_bytes de_ser_none de_ser_some de_ser_map de_ser_struct

end

section \<open>An instance\<close>

datatype wire_tree =
    TInt nat | TBool bool | TStr rstr | TBin "u8 list" | TNil | TMap "(rstr \<times> wire_tree) list"
  | TSeq "wire_tree list"

definition tree_uint :: "wire_tree \<Rightarrow> de_error + 'a::len word" where
  "tree_uint t = (case t of
      TInt n \<Rightarrow> if n < 2 ^ LENGTH('a) then Inr (word_of_nat n) else Inl InvalidValue
    | _ \<Rightarrow> Inl InvalidType)"

definition tree_serde :: "wire_tree serde" where
  "tree_serde = \<lparr>
     ser_u8 = (\<lambda>x. TInt (unat x)), ser_u16 = (\<lambda>x. TInt (unat x)), ser_u32 = (\<lambda>x. TInt (unat x)),
     ser_u64 = (\<lambda>x. TInt (unat x)), ser_bool = TBool, ser_str = TStr,
     ser_uuid = (\<lambda>x. TBin (to_be_bytes x)), ser_bytes = TBin, ser_none = TNil,
     ser_some = (\<lambda>v. TSeq [v]), ser_map = TMap,
     de_u8 = tree_uint, de_u16 = tree_uint, de_u32 = tree_uint, de_u64 = tree_uint,
     de_bool = (\<lambda>t. case t of TBool b \<Rightarrow> Inr b | _ \<Rightarrow> Inl InvalidType),
     de_str = (\<lambda>t. case t of TStr s \<Rightarrow> Inr s | _ \<Rightarrow> Inl InvalidType),
     de_uuid = (\<lambda>t. case t of TBin bs \<Rightarrow>
          if length bs = 16 then Inr (from_be_bytes bs) else Inl (InvalidLength (length bs))
        | _ \<Rightarrow> Inl InvalidType),
     de_bytes = (\<lambda>t. case t of TBin bs \<Rightarrow> Inr (VisitBytes bs) | TSeq vs \<Rightarrow> Inr (VisitSeq vs)
        | _ \<Rightarrow> Inl InvalidType),
     de_option = (\<lambda>t. case t of TNil \<Rightarrow> Inr None | TSeq [v] \<Rightarrow> Inr (Some v) | _ \<Rightarrow> Inl InvalidType),
     de_map = (\<lambda>t. case t of TMap m \<Rightarrow> Inr m | _ \<Rightarrow> Inl InvalidType),
     de_struct = (\<lambda>t. case t of TMap m \<Rightarrow> Inr (VisitMap m) | TSeq vs \<Rightarrow> Inr (VisitFields vs)
        | _ \<Rightarrow> Inl InvalidType) \<rparr>"

lemma tree_uint_TInt [simp]: "tree_uint (TInt (unat x)) = Inr x"
  using unsigned_less[of x, where ?'a = nat] by (simp add: tree_uint_def)

interpretation tree: serde_values tree_serde
  by unfold_locales (simp_all add: tree_serde_def)

section \<open>Slots of a visitor\<close>

text \<open>
  One arm of a \<open>visit_map\<close> loop: a slot that is already filled is a duplicate field, otherwise the
  value is read into it.
\<close>

definition fill ::
  "string \<Rightarrow> 'a option \<Rightarrow> (de_error + 'a) \<Rightarrow> ('a option \<Rightarrow> 's) \<Rightarrow> de_error + 's" where
  "fill name slot value put =
     (if is_some slot then Inl (DuplicateField (lit name)) else map_ok (\<lambda>x. put (Some x)) value)"

definition required :: "string \<Rightarrow> 'a option \<Rightarrow> de_error + 'a" where
  "required name slot = ok_or slot (MissingField (lit name))"

text \<open>The \<open>while let Some(field) = map.next_key()?\<close> loop over the entries of a map.\<close>

fun visit_entries :: "('s \<Rightarrow> rstr \<times> 'v \<Rightarrow> de_error + 's) \<Rightarrow> 's \<Rightarrow> (rstr \<times> 'v) list \<Rightarrow> de_error + 's" where
  "visit_entries f s [] = Inr s"
| "visit_entries f s (e # es) = rbind (f s e) (\<lambda>s'. visit_entries f s' es)"

lemma fill_simps [simp]:
  "fill name None (Inr x) put = Inr (put (Some x))"
  "fill name None (Inl err) put = Inl err"
  "fill name (Some y) value put = Inl (DuplicateField (lit name))"
  by (simp_all add: fill_def)

lemma fill_InrD:
  "fill name slot value put = Inr s \<Longrightarrow> slot = None \<and> (\<exists>x. value = Inr x \<and> s = put (Some x))"
  by (cases slot) (auto simp: fill_def result_simps)

lemma visit_entries_invariant:
  assumes "visit_entries f s m = Inr s'" and "P s" and "\<And>s e s'. P s \<Longrightarrow> f s e = Inr s' \<Longrightarrow> P s'"
  shows "P s'"
  using assms by (induction f s m rule: visit_entries.induct) (auto simp: rbind_Inr_iff)

lemma required_simps [simp]:
  "required name (Some x) = Inr x"
  "required name None = Inl (MissingField (lit name))"
  by (simp_all add: required_def)

lemma required_Inr_iff [result_simps]: "required name slot = Inr x \<longleftrightarrow> slot = Some x"
  by (cases slot) simp_all

declare lit_inject [simp]

section \<open>Fixed-size byte fields\<close>

text \<open>\<open>BinaryBuf\<close>: bytes only, never a sequence.\<close>

definition binary_buf_deserialize :: "'v serde \<Rightarrow> 'v \<Rightarrow> de_error + u8 list" where
  "binary_buf_deserialize lib v = rbind (de_bytes lib v)
     (\<lambda>form. case form of VisitBytes bs \<Rightarrow> Inr bs | VisitSeq vs \<Rightarrow> Inl InvalidType)"

text \<open>
  The \<open>visit_seq\<close> of the fixed-size visitors: exactly \<open>n\<close> byte values, the loop stops at the first
  missing element with its index, and an element more is a length error.
\<close>

fun array_seq :: "'v serde \<Rightarrow> nat \<Rightarrow> nat \<Rightarrow> 'v list \<Rightarrow> de_error + u8 list" where
  "array_seq lib index 0 [] = Inr []"
| "array_seq lib index 0 (v # vs) = rbind (de_u8 lib v) (\<lambda>b. Inl (InvalidLength (index + 1)))"
| "array_seq lib index (Suc n) [] = Inl (InvalidLength index)"
| "array_seq lib index (Suc n) (v # vs) =
     rbind (de_u8 lib v) (\<lambda>b. map_ok (\<lambda>bs. b # bs) (array_seq lib (index + 1) n vs))"

definition profile_fingerprint_deserialize :: "'v serde \<Rightarrow> 'v \<Rightarrow> de_error + u8 list" where
  "profile_fingerprint_deserialize lib v = rbind (de_bytes lib v) (\<lambda>form. case form of
      VisitBytes bs \<Rightarrow> if length bs = 32 then Inr bs else Inl (InvalidLength (length bs))
    | VisitSeq vs \<Rightarrow> array_seq lib 0 32 vs)"

text \<open>
  The identities of \<open>domain/id.rs\<close> in a binary format: sixteen bytes, then the version and variant
  checks of \<open>from_bytes\<close>.
\<close>

definition id_from_bytes :: "uuid_lib \<Rightarrow> u8 list \<Rightarrow> id_error + 'a id" where
  "id_from_bytes ulib bytes = try_from_uuid ulib (from_be_bytes bytes)"

definition id_serialize :: "'v serde \<Rightarrow> 'a id \<Rightarrow> 'v" where
  "id_serialize lib i = ser_uuid lib (uuid i)"

definition id_deserialize :: "uuid_lib \<Rightarrow> 'v serde \<Rightarrow> 'v \<Rightarrow> de_error + 'a id" where
  "id_deserialize ulib lib v = rbind (de_bytes lib v) (\<lambda>form. case form of
      VisitBytes bs \<Rightarrow> if length bs = 16 then map_err (\<lambda>_. CustomError) (id_from_bytes ulib bs)
                     else Inl CustomError
    | VisitSeq vs \<Rightarrow> rbind (array_seq lib 0 16 vs)
                     (\<lambda>bs. map_err (\<lambda>_. CustomError) (id_from_bytes ulib bs)))"

text \<open>An identity the code can hold: every constructor checks the version and the variant.\<close>

definition id_valid :: "uuid_lib \<Rightarrow> 'a id \<Rightarrow> bool" where
  "id_valid ulib i \<longleftrightarrow> try_from_uuid ulib (uuid i) = Inr i"

text \<open>\<open>ReconnectGrant\<close>: the loop pushes elements until there is one too many.\<close>

definition RECONNECT_GRANT_BYTES :: nat where "RECONNECT_GRANT_BYTES = 32"

fun grant_seq :: "'v serde \<Rightarrow> u8 list \<Rightarrow> 'v list \<Rightarrow> de_error + u8 list" where
  "grant_seq lib bytes [] =
     (if length bytes \<noteq> RECONNECT_GRANT_BYTES then Inl (InvalidLength (length bytes)) else Inr bytes)"
| "grant_seq lib bytes (v # vs) = rbind (de_u8 lib v) (\<lambda>b.
     if length bytes = RECONNECT_GRANT_BYTES then Inl (InvalidLength (RECONNECT_GRANT_BYTES + 1))
     else grant_seq lib (bytes @ [b]) vs)"

definition grant_bytes_deserialize :: "'v serde \<Rightarrow> 'v \<Rightarrow> de_error + u8 list" where
  "grant_bytes_deserialize lib v = rbind (de_bytes lib v) (\<lambda>form. case form of
      VisitBytes bs \<Rightarrow>
        if length bs \<noteq> RECONNECT_GRANT_BYTES then Inl (InvalidLength (length bs)) else Inr bs
    | VisitSeq vs \<Rightarrow> grant_seq lib [] vs)"

definition reconnect_grant_deserialize :: "'v serde \<Rightarrow> 'v \<Rightarrow> de_error + u8 list" where
  "reconnect_grant_deserialize lib v = rbind (grant_bytes_deserialize lib v) (\<lambda>bytes.
     if length bytes = RECONNECT_GRANT_BYTES then Inr bytes else Inl CustomError)"

text \<open>\<open>getrandom::fill\<close> is the parameter \<open>fill_random\<close>; the call fails or fills the whole buffer.\<close>

definition reconnect_grant_issue :: "(nat \<Rightarrow> u8 list option) \<Rightarrow> unit + u8 list" where
  "reconnect_grant_issue fill_random = ok_or (fill_random RECONNECT_GRANT_BYTES) ()"

lemma array_seq_length:
  "array_seq lib index n vs = Inr bs \<Longrightarrow> length bs = n"
  by (induction lib index n vs arbitrary: bs rule: array_seq.induct)
     (auto simp: result_simps)

lemma grant_seq_length: "grant_seq lib bytes vs = Inr bs \<Longrightarrow> length bs = RECONNECT_GRANT_BYTES"
  by (induction lib bytes vs rule: grant_seq.induct) (auto simp: result_simps split: if_splits)

lemma profile_fingerprint_length:
  assumes "profile_fingerprint_deserialize lib v = Inr bs"
  shows "length bs = 32"
proof -
  obtain form where "de_bytes lib v = Inr form"
    using assms by (auto simp: profile_fingerprint_deserialize_def result_simps)
  with assms show ?thesis
    by (cases form)
      (auto simp: profile_fingerprint_deserialize_def array_seq_length split: if_splits)
qed

lemma reconnect_grant_length:
  "reconnect_grant_deserialize lib v = Inr bs \<Longrightarrow> length bs = RECONNECT_GRANT_BYTES"
  by (auto simp: reconnect_grant_deserialize_def result_simps split: if_splits)

lemma try_from_uuid_valid: "try_from_uuid ulib u = Inr i \<Longrightarrow> id_valid ulib i \<and> uuid i = u"
  by (auto simp: id_valid_def try_from_uuid_def validate_uuid_v7_def split: if_splits)

lemma id_deserialize_valid:
  assumes "id_deserialize ulib lib v = Inr i"
  shows "id_valid ulib i"
proof -
  obtain form where "de_bytes lib v = Inr form"
    using assms by (auto simp: id_deserialize_def result_simps)
  with assms show ?thesis
    by (cases form)
      (auto simp: id_deserialize_def id_from_bytes_def result_simps
        dest: try_from_uuid_valid split: if_splits)
qed

context serde_values
begin

lemma id_roundtrip:
  "id_valid ulib i \<Longrightarrow> id_deserialize ulib lib (id_serialize lib i) = Inr i"
  by (simp add: id_deserialize_def id_serialize_def id_from_bytes_def id_valid_def de_ser)

lemma fingerprint_roundtrip:
  "length bs = 32 \<Longrightarrow> profile_fingerprint_deserialize lib (ser_bytes lib bs) = Inr bs"
  by (simp add: profile_fingerprint_deserialize_def de_ser)

lemma grant_roundtrip:
  "length bs = RECONNECT_GRANT_BYTES \<Longrightarrow> reconnect_grant_deserialize lib (ser_bytes lib bs) = Inr bs"
  by (simp add: reconnect_grant_deserialize_def grant_bytes_deserialize_def de_ser)

lemma binary_roundtrip: "binary_buf_deserialize lib (ser_bytes lib bs) = Inr bs"
  by (simp add: binary_buf_deserialize_def de_ser)

lemmas field_roundtrips = id_roundtrip fingerprint_roundtrip grant_roundtrip binary_roundtrip

end

end
