(* ===== verification/Wire_Frame.thy ===== *)
theory Wire_Frame
  imports Wire_Serde
begin

text \<open>
  \<open>src/protocol/frame.rs\<close> and \<open>src/protocol/capabilities.rs\<close>: the limits two peers agree on, the
  length-prefixed frames they exchange under them, and the version and capability negotiation.

  The reader and the writer are parameters (\<open>'s io\<close>), as is the allocator's answer to
  \<open>try_reserve_exact\<close>.
\<close>

section \<open>Limits\<close>

definition MAX_PHYSICAL_FRAME_BYTES :: u32 where "MAX_PHYSICAL_FRAME_BYTES = 1024 * 1024"
definition MAX_REASSEMBLED_MESSAGE_BYTES :: u32 where
  "MAX_REASSEMBLED_MESSAGE_BYTES = 16 * 1024 * 1024"
definition MAX_SNAPSHOT_PAGE_ITEMS :: u32 where "MAX_SNAPSHOT_PAGE_ITEMS = 1000"
definition MAX_SNAPSHOT_PAGE_ENCODED_BYTES :: u32 where
  "MAX_SNAPSHOT_PAGE_ENCODED_BYTES = 512 * 1024"

lemmas hard_limits = MAX_PHYSICAL_FRAME_BYTES_def MAX_REASSEMBLED_MESSAGE_BYTES_def
  MAX_SNAPSHOT_PAGE_ITEMS_def MAX_SNAPSHOT_PAGE_ENCODED_BYTES_def

datatype frame_limit_field =
  PhysicalFrameBytes | ReassembledMessageBytes | PageItems | PageEncodedBytes

datatype frame_limits_error = ZeroLimit frame_limit_field

datatype physical_frame_error =
    FrameEmpty
  | FrameOversized u64 u32
  | FrameAllocation u32
  | ReadHeader error_kind
  | ReadPayload u32 error_kind
  | WriteHeader error_kind
  | WritePayload u32 error_kind

record frame_limits =
  max_physical_frame_bytes :: u32
  max_reassembled_message_bytes :: u32
  max_page_items :: u32
  max_page_encoded_bytes :: u32

definition v1_default :: frame_limits where
  "v1_default = \<lparr> max_physical_frame_bytes = MAX_PHYSICAL_FRAME_BYTES,
     max_reassembled_message_bytes = MAX_REASSEMBLED_MESSAGE_BYTES,
     max_page_items = MAX_SNAPSHOT_PAGE_ITEMS,
     max_page_encoded_bytes = MAX_SNAPSHOT_PAGE_ENCODED_BYTES \<rparr>"

definition validate_offer :: "frame_limits \<Rightarrow> frame_limits_error + unit" where
  "validate_offer l = try_each
     (\<lambda>(field, value). if value = 0 then Inl (ZeroLimit field) else Inr ())
     [(PhysicalFrameBytes, max_physical_frame_bytes l),
      (ReassembledMessageBytes, max_reassembled_message_bytes l),
      (PageItems, max_page_items l),
      (PageEncodedBytes, max_page_encoded_bytes l)]"

definition frame_limits_negotiate ::
  "frame_limits \<Rightarrow> frame_limits \<Rightarrow> frame_limits_error + frame_limits" where
  "frame_limits_negotiate l peer =
     rbind (validate_offer l) (\<lambda>_. rbind (validate_offer peer) (\<lambda>_. Inr
       \<lparr> max_physical_frame_bytes =
           min (min (max_physical_frame_bytes l) (max_physical_frame_bytes peer))
             MAX_PHYSICAL_FRAME_BYTES,
         max_reassembled_message_bytes =
           min (min (max_reassembled_message_bytes l) (max_reassembled_message_bytes peer))
             MAX_REASSEMBLED_MESSAGE_BYTES,
         max_page_items =
           min (min (max_page_items l) (max_page_items peer)) MAX_SNAPSHOT_PAGE_ITEMS,
         max_page_encoded_bytes =
           min (min (max_page_encoded_bytes l) (max_page_encoded_bytes peer))
             MAX_SNAPSHOT_PAGE_ENCODED_BYTES \<rparr>))"

definition frame_limits_serialize :: "'v serde \<Rightarrow> frame_limits \<Rightarrow> frame_limits_error + 'v" where
  "frame_limits_serialize lib l = rbind (validate_offer l) (\<lambda>_. Inr (ser_map lib
     [(lit ''max_physical_frame_bytes'', ser_u32 lib (max_physical_frame_bytes l)),
      (lit ''max_reassembled_message_bytes'', ser_u32 lib (max_reassembled_message_bytes l)),
      (lit ''max_page_items'', ser_u32 lib (max_page_items l)),
      (lit ''max_page_encoded_bytes'', ser_u32 lib (max_page_encoded_bytes l))]))"

text \<open>The derived visitor of \<open>FrameLimitsWire\<close>, with \<open>deny_unknown_fields\<close>.\<close>

record frame_limits_slots =
  slot_physical :: "u32 option"
  slot_reassembled :: "u32 option"
  slot_items :: "u32 option"
  slot_encoded :: "u32 option"

definition frame_limits_field ::
  "'v serde \<Rightarrow> frame_limits_slots \<Rightarrow> rstr \<times> 'v \<Rightarrow> de_error + frame_limits_slots" where
  "frame_limits_field lib s e = (case e of (key, v) \<Rightarrow>
     if key = lit ''max_physical_frame_bytes'' then
       fill ''max_physical_frame_bytes'' (slot_physical s) (de_u32 lib v) (\<lambda>x. s\<lparr>slot_physical := x\<rparr>)
     else if key = lit ''max_reassembled_message_bytes'' then
       fill ''max_reassembled_message_bytes'' (slot_reassembled s) (de_u32 lib v)
         (\<lambda>x. s\<lparr>slot_reassembled := x\<rparr>)
     else if key = lit ''max_page_items'' then
       fill ''max_page_items'' (slot_items s) (de_u32 lib v) (\<lambda>x. s\<lparr>slot_items := x\<rparr>)
     else if key = lit ''max_page_encoded_bytes'' then
       fill ''max_page_encoded_bytes'' (slot_encoded s) (de_u32 lib v) (\<lambda>x. s\<lparr>slot_encoded := x\<rparr>)
     else Inl (UnknownField key))"

definition frame_limits_of_map :: "'v serde \<Rightarrow> (rstr \<times> 'v) list \<Rightarrow> de_error + frame_limits" where
  "frame_limits_of_map lib es =
     rbind (visit_entries (frame_limits_field lib)
              \<lparr> slot_physical = None, slot_reassembled = None, slot_items = None, slot_encoded = None \<rparr>
              es) (\<lambda>s.
     rbind (required ''max_physical_frame_bytes'' (slot_physical s)) (\<lambda>p.
     rbind (required ''max_reassembled_message_bytes'' (slot_reassembled s)) (\<lambda>r.
     rbind (required ''max_page_items'' (slot_items s)) (\<lambda>i.
     rbind (required ''max_page_encoded_bytes'' (slot_encoded s)) (\<lambda>e.
       Inr \<lparr> max_physical_frame_bytes = p, max_reassembled_message_bytes = r,
             max_page_items = i, max_page_encoded_bytes = e \<rparr>)))))"

definition frame_limits_of_fields :: "'v serde \<Rightarrow> 'v list \<Rightarrow> de_error + frame_limits" where
  "frame_limits_of_fields lib vs =
     rbind (traverse (de_u32 lib) (take 4 vs)) (\<lambda>xs.
       if length vs \<noteq> 4 then Inl (InvalidLength (min (length vs) 4))
       else Inr \<lparr> max_physical_frame_bytes = xs ! 0, max_reassembled_message_bytes = xs ! 1,
                  max_page_items = xs ! 2, max_page_encoded_bytes = xs ! 3 \<rparr>)"

definition frame_limits_deserialize :: "'v serde \<Rightarrow> 'v \<Rightarrow> de_error + frame_limits" where
  "frame_limits_deserialize lib v =
     rbind (rbind (de_struct lib v) (\<lambda>form. case form of
              VisitMap es \<Rightarrow> frame_limits_of_map lib es
            | VisitFields vs \<Rightarrow> frame_limits_of_fields lib vs)) (\<lambda>l.
     rbind (map_err (\<lambda>_. CustomError) (validate_offer l)) (\<lambda>_. Inr l))"

section \<open>Physical frames\<close>

record physical_frame_codec =
  max_payload_bytes :: u32

definition codec_from_limits :: "frame_limits \<Rightarrow> frame_limits_error + physical_frame_codec" where
  "codec_from_limits l = rbind (validate_offer l) (\<lambda>_. Inr
     \<lparr> max_payload_bytes = min (max_physical_frame_bytes l) MAX_PHYSICAL_FRAME_BYTES \<rparr>)"

text \<open>\<open>usize::try_from(declared)\<close> cannot fail: \<open>usize\<close> has at least 32 bits on every target.\<close>

definition validate_declared :: "physical_frame_codec \<Rightarrow> u32 \<Rightarrow> physical_frame_error + nat" where
  "validate_declared c declared =
     (if declared = 0 then Inl FrameEmpty
      else if declared > max_payload_bytes c then
        Inl (FrameOversized (ucast declared) (max_payload_bytes c))
      else Inr (unat declared))"

definition validated_payload_len ::
  "physical_frame_codec \<Rightarrow> u8 list \<Rightarrow> physical_frame_error + nat" where
  "validated_payload_len c header = validate_declared c (from_be_bytes header)"

definition declared_for_payload ::
  "physical_frame_codec \<Rightarrow> u8 list \<Rightarrow> physical_frame_error + u32" where
  "declared_for_payload c payload =
     (let declared = len_u64 payload in
      if declared = 0 then Inl FrameEmpty
      else if declared > ucast (max_payload_bytes c) then
        Inl (FrameOversized declared (max_payload_bytes c))
      else if unat declared < 2 ^ 32 then Inr (ucast declared)
      else Inl (FrameOversized declared (max_payload_bytes c)))"

definition codec_read ::
  "(nat \<Rightarrow> bool) \<Rightarrow> 's io \<Rightarrow> physical_frame_codec \<Rightarrow> 's \<Rightarrow> (physical_frame_error + u8 list) \<times> 's" where
  "codec_read try_reserve chan c s = (case read_exact chan s 4 of
     (Inl kind, s1) \<Rightarrow> (Inl (ReadHeader kind), s1)
   | (Inr header, s1) \<Rightarrow>
       let declared = from_be_bytes header in
       (case validate_declared c declared of
          Inl e \<Rightarrow> (Inl e, s1)
        | Inr payload_len \<Rightarrow>
            if \<not> try_reserve payload_len then (Inl (FrameAllocation declared), s1)
            else (case read_exact chan s1 payload_len of
                (Inl kind, s2) \<Rightarrow> (Inl (ReadPayload declared kind), s2)
              | (Inr payload, s2) \<Rightarrow> (Inr payload, s2))))"

definition codec_write ::
  "'s io \<Rightarrow> physical_frame_codec \<Rightarrow> 's \<Rightarrow> u8 list \<Rightarrow> (physical_frame_error + unit) \<times> 's" where
  "codec_write chan c s payload = (case declared_for_payload c payload of
     Inl e \<Rightarrow> (Inl e, s)
   | Inr declared \<Rightarrow> (case write_all chan s (to_be_bytes declared) of
         (Inl kind, s1) \<Rightarrow> (Inl (WriteHeader kind), s1)
       | (Inr _, s1) \<Rightarrow> (case write_all chan s1 payload of
             (Inl kind, s2) \<Rightarrow> (Inl (WritePayload declared kind), s2)
           | (Inr _, s2) \<Rightarrow> (Inr (), s2))))"

section \<open>Versions and capabilities\<close>

definition PROTOCOL_MAJOR :: u16 where "PROTOCOL_MAJOR = 1"
definition PROTOCOL_MINOR :: u16 where "PROTOCOL_MINOR = 0"

record protocol_version =
  major :: u16
  minor :: u16

datatype version_negotiation_error = IncompatibleMajor u16 u16

definition version_current :: protocol_version where
  "version_current = \<lparr> major = PROTOCOL_MAJOR, minor = PROTOCOL_MINOR \<rparr>"

definition version_negotiate ::
  "protocol_version \<Rightarrow> protocol_version \<Rightarrow> version_negotiation_error + protocol_version" where
  "version_negotiate v peer =
     (if major v \<noteq> major peer then Inl (IncompatibleMajor (major v) (major peer))
      else Inr \<lparr> major = major v, minor = min (minor v) (minor peer) \<rparr>)"

datatype capability =
    PagedSnapshots | EventReplay | OperationSettlement | ChunkResume | GenericExtensions
  | SemanticConversation | TerminalDeltas | BrowserProjection | PromptProjection
  | ConnectEncryption | Guests | ManagementMetadata | ExplicitDetach | HostShutdown
  | ProviderInputCapability | OrganizationProjection | ServiceSupervisor | TaskCockpit
  | UpdateHandoff | SemanticSubagents

primrec capability_index :: "capability \<Rightarrow> nat" where
  "capability_index PagedSnapshots = 0"
| "capability_index EventReplay = 1"
| "capability_index OperationSettlement = 2"
| "capability_index ChunkResume = 3"
| "capability_index GenericExtensions = 4"
| "capability_index SemanticConversation = 5"
| "capability_index TerminalDeltas = 6"
| "capability_index BrowserProjection = 7"
| "capability_index PromptProjection = 8"
| "capability_index ConnectEncryption = 9"
| "capability_index Guests = 10"
| "capability_index ManagementMetadata = 11"
| "capability_index ExplicitDetach = 12"
| "capability_index HostShutdown = 13"
| "capability_index ProviderInputCapability = 14"
| "capability_index OrganizationProjection = 15"
| "capability_index ServiceSupervisor = 16"
| "capability_index TaskCockpit = 17"
| "capability_index UpdateHandoff = 18"
| "capability_index SemanticSubagents = 19"

definition capability_bit :: "capability \<Rightarrow> u64" where
  "capability_bit c = push_bit (capability_index c) 1"

primrec capability_wire_name :: "capability \<Rightarrow> rstr" where
  "capability_wire_name PagedSnapshots = lit ''paged_snapshots''"
| "capability_wire_name EventReplay = lit ''event_replay''"
| "capability_wire_name OperationSettlement = lit ''operation_settlement''"
| "capability_wire_name ChunkResume = lit ''chunk_resume''"
| "capability_wire_name GenericExtensions = lit ''generic_extensions''"
| "capability_wire_name SemanticConversation = lit ''semantic_conversation''"
| "capability_wire_name TerminalDeltas = lit ''terminal_deltas''"
| "capability_wire_name BrowserProjection = lit ''browser_projection''"
| "capability_wire_name PromptProjection = lit ''personal_prompt_library''"
| "capability_wire_name ConnectEncryption = lit ''connect_encryption''"
| "capability_wire_name Guests = lit ''guests''"
| "capability_wire_name ManagementMetadata = lit ''management_metadata''"
| "capability_wire_name ExplicitDetach = lit ''explicit_detach''"
| "capability_wire_name HostShutdown = lit ''host_shutdown''"
| "capability_wire_name ProviderInputCapability = lit ''provider_input''"
| "capability_wire_name OrganizationProjection = lit ''organization_projection''"
| "capability_wire_name ServiceSupervisor = lit ''service_supervisor''"
| "capability_wire_name TaskCockpit = lit ''task_cockpit''"
| "capability_wire_name UpdateHandoff = lit ''update_handoff''"
| "capability_wire_name SemanticSubagents = lit ''semantic_subagents''"

record capability_set =
  bits :: u64

unbundle bit_operations_syntax

definition capability_set_empty :: capability_set where
  "capability_set_empty = \<lparr> bits = 0 \<rparr>"

definition from_capabilities :: "capability list \<Rightarrow> capability_set" where
  "from_capabilities cs = \<lparr> bits = foldl (\<lambda>b c. b OR capability_bit c) 0 cs \<rparr>"

definition contains_bit :: "capability_set \<Rightarrow> u64 \<Rightarrow> bool" where
  "contains_bit s b \<longleftrightarrow> b \<noteq> 0 \<and> bits s AND b = b"

definition contains_capability :: "capability_set \<Rightarrow> capability \<Rightarrow> bool" where
  "contains_capability s c = contains_bit s (capability_bit c)"

definition capability_intersection :: "capability_set \<Rightarrow> capability_set \<Rightarrow> capability_set" where
  "capability_intersection s peer = \<lparr> bits = bits s AND bits peer \<rparr>"

definition grants_personal_prompt_library :: "capability_set \<Rightarrow> bool" where
  "grants_personal_prompt_library s = contains_capability s PromptProjection"

definition grants_task_cockpit :: "capability_set \<Rightarrow> bool" where
  "grants_task_cockpit s = contains_capability s TaskCockpit"

section \<open>Agreement on limits, versions and capabilities\<close>

lemma validate_offer_ok_iff [result_simps]:
  "validate_offer l = Inr () \<longleftrightarrow>
     max_physical_frame_bytes l \<noteq> 0 \<and> max_reassembled_message_bytes l \<noteq> 0 \<and>
     max_page_items l \<noteq> 0 \<and> max_page_encoded_bytes l \<noteq> 0"
  by (simp add: validate_offer_def)

definition limits_within :: "frame_limits \<Rightarrow> frame_limits \<Rightarrow> bool" where
  "limits_within l m \<longleftrightarrow>
     max_physical_frame_bytes l \<le> max_physical_frame_bytes m \<and>
     max_reassembled_message_bytes l \<le> max_reassembled_message_bytes m \<and>
     max_page_items l \<le> max_page_items m \<and>
     max_page_encoded_bytes l \<le> max_page_encoded_bytes m"

lemma frame_limits_negotiate_ok_iff:
  "is_ok (frame_limits_negotiate l m) \<longleftrightarrow> is_ok (validate_offer l) \<and> is_ok (validate_offer m)"
  by (auto simp: frame_limits_negotiate_def is_ok_iff result_simps)

lemma word_min_zero_iff [simp]: "min a b = (0 :: 'a::len word) \<longleftrightarrow> a = 0 \<or> b = 0"
  by (auto simp: min_def)

lemma hard_limits_nonzero [simp]:
  "MAX_PHYSICAL_FRAME_BYTES \<noteq> 0" "MAX_REASSEMBLED_MESSAGE_BYTES \<noteq> 0"
  "MAX_SNAPSHOT_PAGE_ITEMS \<noteq> 0" "MAX_SNAPSHOT_PAGE_ENCODED_BYTES \<noteq> 0"
  by (simp_all add: hard_limits)

text \<open>The agreed limits are the greatest that respect both offers and the hard maxima.\<close>

lemma frame_limits_negotiate_meet:
  assumes "frame_limits_negotiate l m = Inr n"
  shows "validate_offer n = Inr ()"
    and "limits_within k n \<longleftrightarrow> limits_within k l \<and> limits_within k m \<and> limits_within k v1_default"
proof -
  have n: "n = \<lparr> max_physical_frame_bytes =
           min (min (max_physical_frame_bytes l) (max_physical_frame_bytes m))
             MAX_PHYSICAL_FRAME_BYTES,
         max_reassembled_message_bytes =
           min (min (max_reassembled_message_bytes l) (max_reassembled_message_bytes m))
             MAX_REASSEMBLED_MESSAGE_BYTES,
         max_page_items = min (min (max_page_items l) (max_page_items m)) MAX_SNAPSHOT_PAGE_ITEMS,
         max_page_encoded_bytes =
           min (min (max_page_encoded_bytes l) (max_page_encoded_bytes m))
             MAX_SNAPSHOT_PAGE_ENCODED_BYTES \<rparr>"
    and v: "validate_offer l = Inr ()" "validate_offer m = Inr ()"
    using assms by (auto simp: frame_limits_negotiate_def rbind_Inr_iff)
  show "validate_offer n = Inr ()" using v by (simp add: n validate_offer_ok_iff)
  show "limits_within k n \<longleftrightarrow> limits_within k l \<and> limits_within k m \<and> limits_within k v1_default"
    by (auto simp: n limits_within_def v1_default_def)
qed

lemma limits_within_refl [simp]: "limits_within l l"
  by (simp add: limits_within_def)

lemma frame_limits_negotiate_sym:
  assumes "is_ok (frame_limits_negotiate l m)"
  shows "frame_limits_negotiate m l = frame_limits_negotiate l m"
proof -
  have "validate_offer l = Inr ()" "validate_offer m = Inr ()"
    using assms by (auto simp: frame_limits_negotiate_ok_iff)
       (auto simp: is_ok_iff)
  then show ?thesis by (simp add: frame_limits_negotiate_def min.commute)
qed

lemma capability_index_bound [simp]: "capability_index c < 64"
  by (cases c) simp_all

lemma contains_capability_iff:
  "contains_capability s c \<longleftrightarrow> bit (bits s) (capability_index c)"
proof -
  let ?b = "push_bit (capability_index c) (1 :: u64)"
  have b: "bit ?b (capability_index c)" by (simp add: bit_simps)
  have "bits s AND ?b = ?b \<longleftrightarrow> bit (bits s) (capability_index c)"
  proof
    assume "bits s AND ?b = ?b"
    then have "bit (bits s AND ?b) (capability_index c)" using b by simp
    then show "bit (bits s) (capability_index c)" by (simp add: bit_and_iff)
  next
    assume "bit (bits s) (capability_index c)"
    then show "bits s AND ?b = ?b" by (auto intro!: bit_word_eqI simp: bit_simps)
  qed
  moreover have "?b \<noteq> 0"
  proof
    assume "?b = 0"
    with b show False by (simp only: bit_0_eq) simp
  qed
  ultimately show ?thesis
    by (simp add: contains_capability_def contains_bit_def capability_bit_def)
qed

lemma contains_capability_intersection:
  "contains_capability (capability_intersection s t) c \<longleftrightarrow>
     contains_capability s c \<and> contains_capability t c"
  by (simp add: contains_capability_iff capability_intersection_def bit_simps)

lemma capability_index_inject: "capability_index c = capability_index d \<longleftrightarrow> c = d"
  by (cases c; cases d) simp_all

lemma contains_from_capabilities:
  "contains_capability (from_capabilities cs) c \<longleftrightarrow> c \<in> set cs"
proof -
  have "bit (foldl (\<lambda>b d. b OR capability_bit d) acc cs) (capability_index c)
          \<longleftrightarrow> bit acc (capability_index c) \<or> c \<in> set cs" for acc
    by (induction cs arbitrary: acc)
       (auto simp: capability_bit_def bit_simps capability_index_inject)
  then show ?thesis by (simp add: contains_capability_iff from_capabilities_def)
qed

section \<open>Frames on a channel\<close>

definition admissible :: "physical_frame_codec \<Rightarrow> u8 list \<Rightarrow> bool" where
  "admissible c payload \<longleftrightarrow> payload \<noteq> [] \<and> length payload \<le> unat (max_payload_bytes c)"

lemma declared_for_payload_admissible:
  assumes "admissible c payload"
  shows "declared_for_payload c payload = Inr (word_of_nat (length payload))"
proof -
  have len: "length payload < 2 ^ 32"
    using assms unsigned_less[of "max_payload_bytes c", where ?'a = nat]
    by (simp add: admissible_def)
  then have "unat (len_u64 payload) = length payload" by (intro unat_len_u64) simp
  with assms len show ?thesis
    by (simp add: declared_for_payload_def admissible_def word_less_nat_alt not_less
        word_unat_eq_iff unsigned_ucast_eq take_bit_nat_def unat_of_nat)
qed

lemma declared_for_payload_ok:
  assumes "declared_for_payload c payload = Inr d"
  shows "admissible c payload"
proof -
  show ?thesis
    using assms by (auto simp: declared_for_payload_def admissible_def Let_def not_less split: if_splits)
qed

lemma validate_declared_admissible:
  assumes "admissible c payload"
  shows "validate_declared c (word_of_nat (length payload)) = Inr (length payload)"
proof -
  have len: "length payload < 2 ^ 32"
    using assms unsigned_less[of "max_payload_bytes c", where ?'a = nat]
    by (simp add: admissible_def)
  then have "unat (word_of_nat (length payload) :: u32) = length payload"
    by (simp add: unat_of_nat)
  with assms show ?thesis
    by (auto simp: validate_declared_def admissible_def word_less_nat_alt unat_eq_zero)
qed

lemma validate_declared_ok:
  "validate_declared c d = Inr n \<Longrightarrow> n = unat d \<and> 0 < n \<and> n \<le> unat (max_payload_bytes c)"
  by (auto simp: validate_declared_def not_less word_le_nat_alt unat_gt_0 split: if_splits)

text \<open>The frame of a payload, and what writing and reading a run of frames does.\<close>

definition frame_of :: "u8 list \<Rightarrow> u8 list" where
  "frame_of payload = to_be_bytes (word_of_nat (length payload) :: u32) @ payload"

fun write_frames ::
  "'s io \<Rightarrow> physical_frame_codec \<Rightarrow> 's \<Rightarrow> u8 list list \<Rightarrow> (physical_frame_error + unit) \<times> 's" where
  "write_frames chan c s [] = (Inr (), s)"
| "write_frames chan c s (p # ps) = (case codec_write chan c s p of
     (Inl e, s1) \<Rightarrow> (Inl e, s1)
   | (Inr _, s1) \<Rightarrow> write_frames chan c s1 ps)"

fun read_frames ::
  "(nat \<Rightarrow> bool) \<Rightarrow> 's io \<Rightarrow> physical_frame_codec \<Rightarrow> 's \<Rightarrow> nat
     \<Rightarrow> (physical_frame_error + u8 list list) \<times> 's" where
  "read_frames reserve chan c s 0 = (Inr [], s)"
| "read_frames reserve chan c s (Suc n) = (case codec_read reserve chan c s of
     (Inl e, s1) \<Rightarrow> (Inl e, s1)
   | (Inr p, s1) \<Rightarrow> (case read_frames reserve chan c s1 n of
        (Inl e, s2) \<Rightarrow> (Inl e, s2)
      | (Inr ps, s2) \<Rightarrow> (Inr (p # ps), s2)))"

context byte_channel
begin

lemma codec_write_ok:
  assumes "admissible c p"
  obtains s' where "codec_write chan c s p = (Inr (), s')"
    and "pending s' = pending s @ frame_of p"
proof -
  obtain s1 where s1: "write_all chan s (to_be_bytes (word_of_nat (length p) :: u32)) = (Inr (), s1)"
      "pending s1 = pending s @ to_be_bytes (word_of_nat (length p) :: u32)"
    using write_ok by blast
  obtain s2 where s2: "write_all chan s1 p = (Inr (), s2)" "pending s2 = pending s1 @ p"
    using write_ok by blast
  show thesis
    by (rule that[of s2])
      (simp_all add: codec_write_def declared_for_payload_admissible[OF assms] s1 s2 frame_of_def)
qed

lemma codec_read_ok:
  assumes "admissible c p" and "reserve (length p)" and "pending s = frame_of p @ rest"
  obtains s' where "codec_read reserve chan c s = (Inr p, s')" and "pending s' = rest"
proof -
  obtain s1 where s1: "read_exact chan s 4 = (Inr (to_be_bytes (word_of_nat (length p) :: u32)), s1)"
      "pending s1 = p @ rest"
    using read_prefix[of s "to_be_bytes (word_of_nat (length p) :: u32)" "p @ rest" 4] assms(3)
    by (auto simp: frame_of_def)
  obtain s2 where s2: "read_exact chan s1 (length p) = (Inr p, s2)" "pending s2 = rest"
    using read_prefix[of s1 p rest] s1(2) by auto
  show thesis
    by (rule that[of s2])
      (simp_all add: codec_read_def s1 s2 validate_declared_admissible[OF assms(1)] assms(2))
qed

lemma write_frames_ok:
  assumes "list_all (admissible c) ps"
  shows "\<exists>s'. write_frames chan c s ps = (Inr (), s') \<and>
              pending s' = pending s @ concat (map frame_of ps)"
  using assms
proof (induction ps arbitrary: s)
  case (Cons p ps)
  then obtain s1 where "codec_write chan c s p = (Inr (), s1)"
      "pending s1 = pending s @ frame_of p"
    using codec_write_ok[of c p s] by auto
  with Cons.IH[of s1] Cons.prems show ?case by auto
qed simp

lemma read_frames_ok:
  assumes "list_all (admissible c) ps" and "\<And>n. n \<le> unat (max_payload_bytes c) \<Longrightarrow> reserve n"
    and "pending s = concat (map frame_of ps) @ rest"
  shows "\<exists>s'. read_frames reserve chan c s (length ps) = (Inr ps, s') \<and> pending s' = rest"
  using assms
proof (induction ps arbitrary: s)
  case (Cons p ps)
  have "admissible c p" "reserve (length p)"
    using Cons.prems(1) Cons.prems(2)[of "length p"] by (simp_all add: admissible_def)
  then obtain s1 where "codec_read reserve chan c s = (Inr p, s1)"
      "pending s1 = concat (map frame_of ps) @ rest"
    using codec_read_ok[of c p reserve s "concat (map frame_of ps) @ rest"] Cons.prems(3) by auto
  with Cons.IH[of s1] Cons.prems show ?case by auto
qed simp

end

text \<open>Reading accepts exactly a frame whose payload is admissible, and takes nothing more.\<close>

lemma codec_read_iff:
  "codec_read reserve pipe c s = (Inr p, s') \<longleftrightarrow>
     s = frame_of p @ s' \<and> admissible c p \<and> reserve (length p)"
proof
  assume r: "codec_read reserve pipe c s = (Inr p, s')"
  define d :: u32 where "d = from_be_bytes (take 4 s)"
  from r have len: "4 \<le> length s" and d: "validate_declared c d = Inr (unat d)"
    and res: "reserve (unat d)" and len': "unat d \<le> length s - 4"
    and p: "p = take (unat d) (drop 4 s)" and s': "s' = drop (unat d) (drop 4 s)"
    by (auto simp: codec_read_def Let_def d_def dest: validate_declared_ok
        split: if_splits sum.splits)
  have "length p = unat d" using p len' by simp
  moreover have "to_be_bytes d = take 4 s"
    using len by (simp add: d_def to_from_be_bytes)
  moreover have "take 4 s @ p @ s' = s"
    using p s' by (metis append_take_drop_id)
  ultimately show "s = frame_of p @ s' \<and> admissible c p \<and> reserve (length p)"
    using validate_declared_ok[OF d] res by (auto simp: frame_of_def admissible_def)
next
  assume "s = frame_of p @ s' \<and> admissible c p \<and> reserve (length p)"
  then show "codec_read reserve pipe c s = (Inr p, s')"
    using memory_pipe.codec_read_ok[of c p reserve s s'] by auto
qed

definition sample_codec :: physical_frame_codec where
  "sample_codec = \<lparr> max_payload_bytes = 4 \<rparr>"

text \<open>C32. Framing loses and invents nothing.  Payloads that respect the negotiated maximum and are
  written to a connection, one frame after another, are read back in order, whatever follows them
  on the connection, provided the allocator grants what the negotiated maximum allows; and a
  single \<open>read\<close> that succeeds has taken exactly the bytes of one frame, with a payload that is not
  empty and not longer than the negotiated maximum, so that no declared length makes the reader
  allocate more.
\<close>

theorem frame_stream_roundtrip:
  assumes "list_all (admissible c) ps" and "\<forall>n \<le> unat (max_payload_bytes c). reserve n"
  shows "(\<exists>s. write_frames pipe c [] ps = (Inr (), s) \<and>
              read_frames reserve pipe c (s @ rest) (length ps) = (Inr ps, rest)) \<and>
         (codec_read reserve pipe c t = (Inr p, t') \<longleftrightarrow>
            t = frame_of p @ t' \<and> admissible c p \<and> reserve (length p))"
proof (intro conjI)
  obtain s where s: "write_frames pipe c [] ps = (Inr (), s)" "s = concat (map frame_of ps)"
    using memory_pipe.write_frames_ok[OF assms(1), of "[]"] by auto
  with memory_pipe.read_frames_ok[of c ps reserve "s @ rest" rest] assms
  show "\<exists>s. write_frames pipe c [] ps = (Inr (), s) \<and>
             read_frames reserve pipe c (s @ rest) (length ps) = (Inr ps, rest)"
    by auto
qed (rule codec_read_iff)

theorem frame_stream_roundtrip_witness:
  "(\<exists>s. write_frames pipe sample_codec [] [[7, 8], [9]] = (Inr (), s) \<and>
        read_frames (\<lambda>_. True) pipe sample_codec (s @ [1]) (length [[7 :: u8, 8], [9]])
          = (Inr [[7, 8], [9]], [1])) \<and>
   codec_read (\<lambda>_. True) pipe sample_codec [0, 0, 0, 1, 5, 6] = (Inr [5], [6])"
  using frame_stream_roundtrip[of sample_codec "[[7, 8], [9]]" "\<lambda>_. True" "[1]"
      "[0, 0, 0, 1, 5, 6]" "[5]" "[6]"]
  by (simp add: admissible_def sample_codec_def frame_of_def to_be_bytes_def be_bytes_numeral
      del: write_frames.simps read_frames.simps)

end
