(* ===== verification/Wire_Chunk.thy ===== *)
theory Wire_Chunk
  imports Wire_Serde
begin

text \<open>
  \<open>src/protocol/chunk.rs\<close>: transfers that are cut into chunks.  The limits of a transfer, the
  chunk as a document, and the receiving context, a state machine that accepts the chunks of one
  transfer in order and is poisoned for good by the first violation.

  SHA-256 is a parameter: \<open>sha\<close> maps a message to its digest, and the hasher the context keeps is
  the message absorbed so far, which is what the incremental interface of the crate \<open>sha2\<close> denotes.
\<close>

section \<open>Limits\<close>

definition MAX_CHUNK_BYTES :: u32 where "MAX_CHUNK_BYTES = 256 * 1024"
definition MAX_CUMULATIVE_BYTES :: u64 where "MAX_CUMULATIVE_BYTES = 16 * 1024 * 1024"
definition MAX_CURSOR_BYTES :: u32 where "MAX_CURSOR_BYTES = 64 * 1024"

lemmas chunk_maxima = MAX_CHUNK_BYTES_def MAX_CUMULATIVE_BYTES_def MAX_CURSOR_BYTES_def

datatype chunk_limit_field = ChunkBytes | CumulativeBytes | CursorBytes

datatype chunk_limits_error =
    ZeroChunkLimit chunk_limit_field
  | ExceedsHardMaximum chunk_limit_field u64 u64
  | ChunkExceedsCumulative u32 u64

datatype chunk_error =
    ChunkLimitsInvalid chunk_limits_error
  | EmptyPayload
  | ChunkTooLarge u64 u32
  | CumulativeOverflow
  | CumulativeTooLarge u64 u64
  | CursorEmpty
  | CursorTooLarge u64 u32
  | TransferIdMismatch
  | IndexMismatch u32 u32
  | ResumeCursorMismatch
  | CumulativeHashMismatch
  | AlreadyComplete
  | FinalRequired
  | Poisoned

record chunk_limits =
  max_chunk_bytes :: u32
  max_cumulative_bytes :: u64
  max_cursor_bytes :: u32

definition chunk_limits_v1_default :: chunk_limits where
  "chunk_limits_v1_default = \<lparr> max_chunk_bytes = MAX_CHUNK_BYTES,
     max_cumulative_bytes = MAX_CUMULATIVE_BYTES, max_cursor_bytes = MAX_CURSOR_BYTES \<rparr>"

definition chunk_limits_validate :: "chunk_limits \<Rightarrow> chunk_limits_error + unit" where
  "chunk_limits_validate l = rbind (try_each
     (\<lambda>(field, value, maximum).
        if value = 0 then Inl (ZeroChunkLimit field)
        else if value > maximum then Inl (ExceedsHardMaximum field value maximum)
        else Inr ())
     [(ChunkBytes, ucast (max_chunk_bytes l), ucast MAX_CHUNK_BYTES),
      (CumulativeBytes, max_cumulative_bytes l, MAX_CUMULATIVE_BYTES),
      (CursorBytes, ucast (max_cursor_bytes l), ucast MAX_CURSOR_BYTES)])
     (\<lambda>_. if ucast (max_chunk_bytes l) > max_cumulative_bytes l then
             Inl (ChunkExceedsCumulative (max_chunk_bytes l) (max_cumulative_bytes l))
           else Inr ())"

definition chunk_limits_try_new :: "u32 \<Rightarrow> u64 \<Rightarrow> u32 \<Rightarrow> chunk_limits_error + chunk_limits" where
  "chunk_limits_try_new chunk cumulative cursor =
     (let limits = \<lparr> max_chunk_bytes = chunk, max_cumulative_bytes = cumulative,
                     max_cursor_bytes = cursor \<rparr> in
      rbind (chunk_limits_validate limits) (\<lambda>_. Inr limits))"

definition chunk_limits_negotiate ::
  "chunk_limits \<Rightarrow> chunk_limits \<Rightarrow> chunk_limits_error + chunk_limits" where
  "chunk_limits_negotiate l peer =
     rbind (chunk_limits_validate l) (\<lambda>_. rbind (chunk_limits_validate peer) (\<lambda>_.
       chunk_limits_try_new (min (max_chunk_bytes l) (max_chunk_bytes peer))
         (min (max_cumulative_bytes l) (max_cumulative_bytes peer))
         (min (max_cursor_bytes l) (max_cursor_bytes peer))))"

definition validate_chunk :: "chunk_limits \<Rightarrow> u64 \<Rightarrow> u8 list \<Rightarrow> chunk_error + u64" where
  "validate_chunk l cumulative_before payload =
     (if payload = [] then Inl EmptyPayload
      else let declared = len_u64 payload in
      if declared > ucast (max_chunk_bytes l) then Inl (ChunkTooLarge declared (max_chunk_bytes l))
      else rbind (ok_or (checked_add cumulative_before declared) CumulativeOverflow) (\<lambda>cumulative.
        if cumulative > max_cumulative_bytes l then
          Inl (CumulativeTooLarge cumulative (max_cumulative_bytes l))
        else Inr cumulative))"

definition validate_cursor_len :: "chunk_limits \<Rightarrow> u8 list \<Rightarrow> chunk_error + unit" where
  "validate_cursor_len l cursor =
     (let declared = len_u64 cursor in
      if declared = 0 then Inl CursorEmpty
      else if declared > ucast (max_cursor_bytes l) then
        Inl (CursorTooLarge declared (max_cursor_bytes l))
      else Inr ())"

definition validate_cursor :: "chunk_limits \<Rightarrow> u8 list option \<Rightarrow> chunk_error + unit" where
  "validate_cursor l cursor = (case cursor of None \<Rightarrow> Inr () | Some c \<Rightarrow> validate_cursor_len l c)"

definition chunk_limits_serialize :: "'v serde \<Rightarrow> chunk_limits \<Rightarrow> chunk_limits_error + 'v" where
  "chunk_limits_serialize lib l = rbind (chunk_limits_validate l) (\<lambda>_. Inr (ser_map lib
     [(lit ''max_chunk_bytes'', ser_u32 lib (max_chunk_bytes l)),
      (lit ''max_cumulative_bytes'', ser_u64 lib (max_cumulative_bytes l)),
      (lit ''max_cursor_bytes'', ser_u32 lib (max_cursor_bytes l))]))"

record chunk_limits_slots =
  slot_chunk_bytes :: "u32 option"
  slot_cumulative_bytes :: "u64 option"
  slot_cursor_bytes :: "u32 option"

definition chunk_limits_field :: "rstr \<Rightarrow> de_error + chunk_limit_field" where
  "chunk_limits_field key =
     (if key = lit ''max_chunk_bytes'' then Inr ChunkBytes
      else if key = lit ''max_cumulative_bytes'' then Inr CumulativeBytes
      else if key = lit ''max_cursor_bytes'' then Inr CursorBytes
      else Inl (UnknownField key))"

definition chunk_limits_visit ::
  "'v serde \<Rightarrow> chunk_limits_slots \<Rightarrow> rstr \<times> 'v \<Rightarrow> de_error + chunk_limits_slots" where
  "chunk_limits_visit lib s e = rbind (chunk_limits_field (fst e)) (\<lambda>field. case field of
      ChunkBytes \<Rightarrow> fill ''max_chunk_bytes'' (slot_chunk_bytes s) (de_u32 lib (snd e))
        (\<lambda>x. s\<lparr>slot_chunk_bytes := x\<rparr>)
    | CumulativeBytes \<Rightarrow> fill ''max_cumulative_bytes'' (slot_cumulative_bytes s)
        (de_u64 lib (snd e)) (\<lambda>x. s\<lparr>slot_cumulative_bytes := x\<rparr>)
    | CursorBytes \<Rightarrow> fill ''max_cursor_bytes'' (slot_cursor_bytes s) (de_u32 lib (snd e))
        (\<lambda>x. s\<lparr>slot_cursor_bytes := x\<rparr>))"

definition chunk_limits_deserialize :: "'v serde \<Rightarrow> 'v \<Rightarrow> de_error + chunk_limits" where
  "chunk_limits_deserialize lib v = rbind (de_map lib v) (\<lambda>m.
     rbind (visit_entries (chunk_limits_visit lib)
        \<lparr> slot_chunk_bytes = None, slot_cumulative_bytes = None, slot_cursor_bytes = None \<rparr> m) (\<lambda>s.
     rbind (required ''max_chunk_bytes'' (slot_chunk_bytes s)) (\<lambda>chunk.
     rbind (required ''max_cumulative_bytes'' (slot_cumulative_bytes s)) (\<lambda>cumulative.
     rbind (required ''max_cursor_bytes'' (slot_cursor_bytes s)) (\<lambda>cursor.
       map_err (\<lambda>_. CustomError) (chunk_limits_try_new chunk cumulative cursor))))))"

section \<open>Chunks\<close>

datatype transfer_tag = TransferTag
type_synonym transfer_id = "transfer_tag id"

record chunk_frame =
  frame_transfer_id :: transfer_id
  frame_index :: u32
  final_chunk :: bool
  frame_payload :: "u8 list"
  cumulative_sha256 :: "u8 list"
  frame_resume_cursor :: "u8 list option"

definition validate_shape :: "chunk_frame \<Rightarrow> chunk_error + unit" where
  "validate_shape f =
     (if frame_payload f = [] then Inl EmptyPayload
      else let declared = len_u64 (frame_payload f) in
      if declared > ucast MAX_CHUNK_BYTES then Inl (ChunkTooLarge declared MAX_CHUNK_BYTES)
      else (case frame_resume_cursor f of
          None \<Rightarrow> Inr ()
        | Some cursor \<Rightarrow>
            let declared = len_u64 cursor in
            if declared = 0 then Inl CursorEmpty
            else if declared > ucast MAX_CURSOR_BYTES then
              Inl (CursorTooLarge declared MAX_CURSOR_BYTES)
            else Inr ()))"

definition chunk_frame_new ::
  "transfer_id \<Rightarrow> u32 \<Rightarrow> bool \<Rightarrow> u8 list \<Rightarrow> u8 list \<Rightarrow> u8 list option \<Rightarrow> chunk_error + chunk_frame"
where
  "chunk_frame_new transfer index final payload sha256 cursor =
     (let frame = \<lparr> frame_transfer_id = transfer, frame_index = index, final_chunk = final,
                    frame_payload = payload, cumulative_sha256 = sha256,
                    frame_resume_cursor = cursor \<rparr> in
      rbind (validate_shape frame) (\<lambda>_. Inr frame))"

definition chunk_frame_validate :: "chunk_frame \<Rightarrow> chunk_limits \<Rightarrow> chunk_error + unit" where
  "chunk_frame_validate f l =
     rbind (map_err ChunkLimitsInvalid (chunk_limits_validate l)) (\<lambda>_.
     rbind (validate_shape f) (\<lambda>_.
     rbind (validate_chunk l 0 (frame_payload f)) (\<lambda>_.
     validate_cursor l (frame_resume_cursor f))))"

definition chunk_frame_serialize :: "'v serde \<Rightarrow> chunk_frame \<Rightarrow> chunk_error + 'v" where
  "chunk_frame_serialize lib f = rbind (validate_shape f) (\<lambda>_. Inr (ser_map lib
     [(lit ''transfer_id'', id_serialize lib (frame_transfer_id f)),
      (lit ''index'', ser_u32 lib (frame_index f)),
      (lit ''final_chunk'', ser_bool lib (final_chunk f)),
      (lit ''payload'', ser_bytes lib (frame_payload f)),
      (lit ''cumulative_sha256'', ser_bytes lib (cumulative_sha256 f)),
      (lit ''resume_cursor'', case frame_resume_cursor f of
         Some bytes \<Rightarrow> ser_some lib (ser_bytes lib bytes) | None \<Rightarrow> ser_none lib)]))"

datatype chunk_frame_field =
  TransferIdField | IndexField | FinalChunkField | PayloadField | CumulativeSha256Field
  | ResumeCursorField

definition chunk_frame_field_of :: "rstr \<Rightarrow> de_error + chunk_frame_field" where
  "chunk_frame_field_of key =
     (if key = lit ''transfer_id'' then Inr TransferIdField
      else if key = lit ''index'' then Inr IndexField
      else if key = lit ''final_chunk'' then Inr FinalChunkField
      else if key = lit ''payload'' then Inr PayloadField
      else if key = lit ''cumulative_sha256'' then Inr CumulativeSha256Field
      else if key = lit ''resume_cursor'' then Inr ResumeCursorField
      else Inl (UnknownField key))"

record chunk_frame_slots =
  slot_transfer_id :: "transfer_id option"
  slot_index :: "u32 option"
  slot_final_chunk :: "bool option"
  slot_payload :: "u8 list option"
  slot_cumulative_sha256 :: "u8 list option"
  slot_resume_cursor :: "u8 list option option"

definition sha256_deserialize :: "'v serde \<Rightarrow> 'v \<Rightarrow> de_error + u8 list" where
  "sha256_deserialize lib v = rbind (binary_buf_deserialize lib v) (\<lambda>bytes.
     if length bytes = 32 then Inr bytes else Inl (InvalidLength (length bytes)))"

definition optional_binary_deserialize :: "'v serde \<Rightarrow> 'v \<Rightarrow> de_error + u8 list option" where
  "optional_binary_deserialize lib v = rbind (de_option lib v) (\<lambda>slot. case slot of
      None \<Rightarrow> Inr None
    | Some w \<Rightarrow> map_ok Some (binary_buf_deserialize lib w))"

definition chunk_frame_visit ::
  "uuid_lib \<Rightarrow> 'v serde \<Rightarrow> chunk_frame_slots \<Rightarrow> rstr \<times> 'v \<Rightarrow> de_error + chunk_frame_slots" where
  "chunk_frame_visit ulib lib s e = rbind (chunk_frame_field_of (fst e)) (\<lambda>field. case field of
      TransferIdField \<Rightarrow> fill ''transfer_id'' (slot_transfer_id s) (id_deserialize ulib lib (snd e))
        (\<lambda>x. s\<lparr>slot_transfer_id := x\<rparr>)
    | IndexField \<Rightarrow> fill ''index'' (slot_index s) (de_u32 lib (snd e)) (\<lambda>x. s\<lparr>slot_index := x\<rparr>)
    | FinalChunkField \<Rightarrow> fill ''final_chunk'' (slot_final_chunk s) (de_bool lib (snd e))
        (\<lambda>x. s\<lparr>slot_final_chunk := x\<rparr>)
    | PayloadField \<Rightarrow> fill ''payload'' (slot_payload s) (binary_buf_deserialize lib (snd e))
        (\<lambda>x. s\<lparr>slot_payload := x\<rparr>)
    | CumulativeSha256Field \<Rightarrow> fill ''cumulative_sha256'' (slot_cumulative_sha256 s)
        (sha256_deserialize lib (snd e)) (\<lambda>x. s\<lparr>slot_cumulative_sha256 := x\<rparr>)
    | ResumeCursorField \<Rightarrow> fill ''resume_cursor'' (slot_resume_cursor s)
        (optional_binary_deserialize lib (snd e)) (\<lambda>x. s\<lparr>slot_resume_cursor := x\<rparr>))"

definition chunk_frame_deserialize :: "uuid_lib \<Rightarrow> 'v serde \<Rightarrow> 'v \<Rightarrow> de_error + chunk_frame" where
  "chunk_frame_deserialize ulib lib v = rbind (de_map lib v) (\<lambda>m.
     rbind (visit_entries (chunk_frame_visit ulib lib)
        \<lparr> slot_transfer_id = None, slot_index = None, slot_final_chunk = None, slot_payload = None,
          slot_cumulative_sha256 = None, slot_resume_cursor = None \<rparr> m) (\<lambda>s.
     rbind (required ''transfer_id'' (slot_transfer_id s)) (\<lambda>transfer.
     rbind (required ''index'' (slot_index s)) (\<lambda>index.
     rbind (required ''final_chunk'' (slot_final_chunk s)) (\<lambda>final.
     rbind (required ''payload'' (slot_payload s)) (\<lambda>payload.
     rbind (required ''cumulative_sha256'' (slot_cumulative_sha256 s)) (\<lambda>sha256.
     rbind (required ''resume_cursor'' (slot_resume_cursor s)) (\<lambda>cursor.
       map_err (\<lambda>_. CustomError)
         (chunk_frame_new transfer index final payload sha256 cursor)))))))))"

section \<open>The receiving context\<close>

record chunk_context =
  ctx_transfer_id :: transfer_id
  ctx_limits :: chunk_limits
  ctx_resume_cursor :: "u8 list option"
  next_index :: u32
  cumulative_bytes :: u64
  cumulative_hasher :: "u8 list"
  complete :: bool
  poisoned :: bool

definition chunk_context_new ::
  "transfer_id \<Rightarrow> chunk_limits \<Rightarrow> u8 list option \<Rightarrow> chunk_error + chunk_context" where
  "chunk_context_new transfer limits cursor =
     rbind (map_err ChunkLimitsInvalid (chunk_limits_validate limits)) (\<lambda>_.
     rbind (validate_cursor limits cursor) (\<lambda>_. Inr
       \<lparr> ctx_transfer_id = transfer, ctx_limits = limits, ctx_resume_cursor = cursor,
         next_index = 0, cumulative_bytes = 0, cumulative_hasher = [],
         complete = False, poisoned = False \<rparr>))"

text \<open>
  The state is threaded through the failing exit of \<open>checked_add\<close> as well: the hasher and the byte
  count are assigned before it.
\<close>

definition accept_inner ::
  "(u8 list \<Rightarrow> u8 list) \<Rightarrow> chunk_context \<Rightarrow> chunk_frame \<Rightarrow> (chunk_error + unit) \<times> chunk_context" where
  "accept_inner sha ctx f =
     (if complete ctx then (Inl AlreadyComplete, ctx)
      else case chunk_frame_validate f (ctx_limits ctx) of Inl e \<Rightarrow> (Inl e, ctx) | Inr _ \<Rightarrow>
      if frame_transfer_id f \<noteq> ctx_transfer_id ctx then (Inl TransferIdMismatch, ctx)
      else if frame_index f \<noteq> next_index ctx then
        (Inl (IndexMismatch (next_index ctx) (frame_index f)), ctx)
      else if frame_resume_cursor f \<noteq> ctx_resume_cursor ctx then (Inl ResumeCursorMismatch, ctx)
      else case validate_chunk (ctx_limits ctx) (cumulative_bytes ctx) (frame_payload f) of
        Inl e \<Rightarrow> (Inl e, ctx)
      | Inr cumulative \<Rightarrow>
          let candidate = cumulative_hasher ctx @ frame_payload f in
          if cumulative_sha256 f \<noteq> sha candidate then (Inl CumulativeHashMismatch, ctx)
          else let ctx1 = ctx\<lparr> cumulative_hasher := candidate, cumulative_bytes := cumulative \<rparr> in
            (case checked_add (next_index ctx1) 1 of
               None \<Rightarrow> (Inl CumulativeOverflow, ctx1)
             | Some n \<Rightarrow> (Inr (), ctx1\<lparr> next_index := n, complete := final_chunk f \<rparr>)))"

definition chunk_accept ::
  "(u8 list \<Rightarrow> u8 list) \<Rightarrow> chunk_context \<Rightarrow> chunk_frame \<Rightarrow> (chunk_error + unit) \<times> chunk_context" where
  "chunk_accept sha ctx f =
     (if poisoned ctx then (Inl Poisoned, ctx)
      else case accept_inner sha ctx f of
        (Inl e, ctx1) \<Rightarrow> (Inl e, ctx1\<lparr> poisoned := True, complete := False \<rparr>)
      | (Inr u, ctx1) \<Rightarrow> (Inr u, ctx1))"

definition chunk_is_complete :: "chunk_context \<Rightarrow> bool" where
  "chunk_is_complete ctx \<longleftrightarrow> complete ctx \<and> \<not> poisoned ctx"

definition require_complete :: "chunk_context \<Rightarrow> (chunk_error + unit) \<times> chunk_context" where
  "require_complete ctx =
     (if poisoned ctx then (Inl Poisoned, ctx)
      else if complete ctx then (Inr (), ctx)
      else (Inl FinalRequired, ctx\<lparr> poisoned := True \<rparr>))"

section \<open>What a transfer is\<close>

text \<open>
  The abstract contract of a transfer: the chunk \<open>f\<close> is the next one after \<open>before\<close>.  Lengths are
  natural numbers here, so nothing can wrap.
\<close>

definition chunk_fits ::
  "(u8 list \<Rightarrow> u8 list) \<Rightarrow> transfer_id \<Rightarrow> chunk_limits \<Rightarrow> u8 list option \<Rightarrow> chunk_frame list
     \<Rightarrow> chunk_frame \<Rightarrow> bool" where
  "chunk_fits sha t l cursor before f \<longleftrightarrow>
     frame_transfer_id f = t \<and> frame_resume_cursor f = cursor \<and>
     unat (frame_index f) = length before \<and>
     frame_payload f \<noteq> [] \<and> length (frame_payload f) \<le> unat (max_chunk_bytes l) \<and>
     length (concat (map frame_payload (before @ [f]))) \<le> unat (max_cumulative_bytes l) \<and>
     cumulative_sha256 f = sha (concat (map frame_payload (before @ [f])))"

definition chunk_run ::
  "(u8 list \<Rightarrow> u8 list) \<Rightarrow> transfer_id \<Rightarrow> chunk_limits \<Rightarrow> u8 list option \<Rightarrow> chunk_frame list \<Rightarrow> bool" where
  "chunk_run sha t l cursor fs \<longleftrightarrow>
     (\<forall>i < length fs. chunk_fits sha t l cursor (take i fs) (fs ! i)) \<and>
     (\<forall>i. Suc i < length fs \<longrightarrow> \<not> final_chunk (fs ! i))"

definition feed_chunks :: "(u8 list \<Rightarrow> u8 list) \<Rightarrow> chunk_context \<Rightarrow> chunk_frame list \<Rightarrow> chunk_context" where
  "feed_chunks sha = foldl (\<lambda>ctx f. snd (chunk_accept sha ctx f))"

definition ends_final :: "chunk_frame list \<Rightarrow> bool" where
  "ends_final fs \<longleftrightarrow> fs \<noteq> [] \<and> final_chunk (last fs)"

lemma chunk_run_Nil [simp]: "chunk_run sha t l cursor []"
  by (simp add: chunk_run_def)

lemma chunk_run_snoc:
  "chunk_run sha t l cursor (fs @ [f]) \<longleftrightarrow>
     chunk_run sha t l cursor fs \<and> \<not> ends_final fs \<and> chunk_fits sha t l cursor fs f"
proof -
  have fit: "(\<forall>i < length (fs @ [f]). chunk_fits sha t l cursor (take i (fs @ [f])) ((fs @ [f]) ! i)) \<longleftrightarrow>
        (\<forall>i < length fs. chunk_fits sha t l cursor (take i fs) (fs ! i)) \<and>
        chunk_fits sha t l cursor fs f"
    by (auto simp: nth_append less_Suc_eq)
  have fin: "(\<forall>i. Suc i < length (fs @ [f]) \<longrightarrow> \<not> final_chunk ((fs @ [f]) ! i)) \<longleftrightarrow>
        (\<forall>i < length fs. \<not> final_chunk (fs ! i))"
    by (auto simp: nth_append)
  also have "\<dots> \<longleftrightarrow> (\<forall>i. Suc i < length fs \<longrightarrow> \<not> final_chunk (fs ! i)) \<and> \<not> ends_final fs"
    by (cases fs rule: rev_cases)
      (auto simp: ends_final_def nth_append less_Suc_eq, metis Suc_lessI)
  finally show ?thesis using fit by (auto simp: chunk_run_def)
qed

lemma chunk_run_payload:
  assumes "chunk_run sha t l cursor fs"
  shows "length fs \<le> length (concat (map frame_payload fs))"
    and "length (concat (map frame_payload fs)) \<le> unat (max_cumulative_bytes l)"
proof -
  show "length fs \<le> length (concat (map frame_payload fs))"
    using assms
  proof (induction fs rule: rev_induct)
    case (snoc f fs)
    then show ?case by (cases "frame_payload f") (auto simp: chunk_run_snoc chunk_fits_def)
  qed simp
  show "length (concat (map frame_payload fs)) \<le> unat (max_cumulative_bytes l)"
    using assms by (cases fs rule: rev_cases) (auto simp: chunk_run_snoc chunk_fits_def)
qed

section \<open>The context implements it\<close>

lemma chunk_limits_validate_ok_iff [result_simps]:
  "chunk_limits_validate l = Inr () \<longleftrightarrow>
     max_chunk_bytes l \<noteq> 0 \<and> max_cumulative_bytes l \<noteq> 0 \<and> max_cursor_bytes l \<noteq> 0 \<and>
     max_chunk_bytes l \<le> MAX_CHUNK_BYTES \<and> max_cumulative_bytes l \<le> MAX_CUMULATIVE_BYTES \<and>
     max_cursor_bytes l \<le> MAX_CURSOR_BYTES \<and>
     unat (max_chunk_bytes l) \<le> unat (max_cumulative_bytes l)"
  by (auto simp: chunk_limits_validate_def not_less word_le_nat_alt word_less_nat_alt
      word_unat_eq_iff split: if_splits)

lemma validate_chunk_ok_iff:
  assumes "unat before = length acc" and "length acc \<le> unat (max_cumulative_bytes l)"
    and "unat (max_cumulative_bytes l) \<le> unat MAX_CUMULATIVE_BYTES"
  shows "validate_chunk l before p = Inr c \<longleftrightarrow>
     p \<noteq> [] \<and> length p \<le> unat (max_chunk_bytes l) \<and>
     length (acc @ p) \<le> unat (max_cumulative_bytes l) \<and> c = word_of_nat (length (acc @ p))"
proof (cases "length p \<le> unat (max_chunk_bytes l)")
  case True
  then have small: "length p < 2 ^ 32"
    using unsigned_less[of "max_chunk_bytes l", where ?'a = nat] by simp
  then have p: "unat (len_u64 p) = length p" "len_u64 p = word_of_nat (length p)"
    using unat_len_u64[of p] by (simp, simp add: len_u64_def)
  have sum: "length acc + length p < 2 ^ 64"
    using assms small by (simp add: chunk_maxima)
  have b: "before = word_of_nat (length acc)" by (simp flip: assms(1))
  have add: "before + len_u64 p = word_of_nat (length (acc @ p))"
    "unat (before + len_u64 p) = length (acc @ p)"
    using sum by (simp_all add: b p unat_of_nat flip: of_nat_add)
  have "checked_add before (len_u64 p) = Some (before + len_u64 p)"
    using sum assms(1) p by (simp add: checked_add_def)
  then show ?thesis
    using True add p by (auto simp: validate_chunk_def Let_def word_less_nat_alt)
qed (auto simp: validate_chunk_def Let_def result_simps)

lemma validate_cursor_shape:
  assumes "chunk_limits_validate l = Inr ()" and "validate_cursor l cursor = Inr ()"
    and "frame_resume_cursor f = cursor" and "frame_payload f \<noteq> []"
    and "length (frame_payload f) \<le> unat (max_chunk_bytes l)"
  shows "validate_shape f = Inr ()"
  using assms
  by (auto simp: validate_shape_def validate_cursor_def validate_cursor_len_def result_simps
      word_le_nat_alt not_less Let_def split: option.splits if_splits)

definition context_after :: "chunk_context \<Rightarrow> chunk_frame list \<Rightarrow> chunk_context" where
  "context_after ctx fs = ctx\<lparr>
     next_index := word_of_nat (length fs),
     cumulative_bytes := word_of_nat (length (concat (map frame_payload fs))),
     cumulative_hasher := concat (map frame_payload fs),
     complete := ends_final fs \<rparr>"

lemma context_after_simps [simp]:
  "ctx_transfer_id (context_after ctx fs) = ctx_transfer_id ctx"
  "ctx_limits (context_after ctx fs) = ctx_limits ctx"
  "ctx_resume_cursor (context_after ctx fs) = ctx_resume_cursor ctx"
  "next_index (context_after ctx fs) = word_of_nat (length fs)"
  "cumulative_bytes (context_after ctx fs) = word_of_nat (length (concat (map frame_payload fs)))"
  "cumulative_hasher (context_after ctx fs) = concat (map frame_payload fs)"
  "complete (context_after ctx fs) = ends_final fs"
  "poisoned (context_after ctx fs) = poisoned ctx"
  by (simp_all add: context_after_def)

text \<open>A context that can be created: its limits and its cursor are valid.\<close>

definition context_valid :: "chunk_context \<Rightarrow> bool" where
  "context_valid ctx \<longleftrightarrow> chunk_limits_validate (ctx_limits ctx) = Inr () \<and>
     validate_cursor (ctx_limits ctx) (ctx_resume_cursor ctx) = Inr () \<and> \<not> poisoned ctx"

abbreviation ctx_run :: "(u8 list \<Rightarrow> u8 list) \<Rightarrow> chunk_context \<Rightarrow> chunk_frame list \<Rightarrow> bool" where
  "ctx_run sha ctx \<equiv> chunk_run sha (ctx_transfer_id ctx) (ctx_limits ctx) (ctx_resume_cursor ctx)"

lemma chunk_frame_validate_ok:
  assumes "context_valid ctx" and "frame_resume_cursor f = ctx_resume_cursor ctx"
  shows "chunk_frame_validate f (ctx_limits ctx) = Inr () \<longleftrightarrow>
    frame_payload f \<noteq> [] \<and> length (frame_payload f) \<le> unat (max_chunk_bytes (ctx_limits ctx))"
    (is "_ \<longleftrightarrow> ?fits")
proof -
  let ?l = "ctx_limits ctx"
  have l: "chunk_limits_validate ?l = Inr ()"
    and c: "validate_cursor ?l (ctx_resume_cursor ctx) = Inr ()"
    using assms(1) by (simp_all add: context_valid_def)
  have bound: "unat (max_chunk_bytes ?l) \<le> unat (max_cumulative_bytes ?l)"
    "unat (max_cumulative_bytes ?l) \<le> unat MAX_CUMULATIVE_BYTES"
    using l by (simp_all add: result_simps word_le_nat_alt)
  have "(\<exists>n. validate_chunk ?l 0 (frame_payload f) = Inr n) \<longleftrightarrow> ?fits"
    using validate_chunk_ok_iff[of 0 "[]" ?l "frame_payload f"] bound by auto
  then show ?thesis
    using validate_cursor_shape[OF l c assms(2)] l c assms(2)
    by (auto simp: chunk_frame_validate_def rbind_Inr_iff)
qed

lemma accept_inner_run:
  assumes "context_valid ctx" and "ctx_run sha ctx fs"
  shows "accept_inner sha (context_after ctx fs) f = (Inr (), ctx') \<longleftrightarrow>
    ctx_run sha ctx (fs @ [f]) \<and> ctx' = context_after ctx (fs @ [f])"
proof -
  let ?l = "ctx_limits ctx" and ?acc = "concat (map frame_payload fs)"
  have acc: "length fs \<le> length ?acc" "length ?acc \<le> unat (max_cumulative_bytes ?l)"
    using chunk_run_payload[OF assms(2)] by simp_all
  have max: "unat (max_cumulative_bytes ?l) \<le> unat MAX_CUMULATIVE_BYTES"
    using assms(1) by (simp add: context_valid_def result_simps word_le_nat_alt)
  then have small: "length ?acc \<le> 16777216" "length fs \<le> 16777216"
    using acc by (simp_all add: chunk_maxima)
  have idx: "unat (word_of_nat (length fs) :: u32) = length fs"
    "unat (word_of_nat (length ?acc) :: u64) = length ?acc"
    using small by (simp_all add: unat_of_nat)
  have nxt: "checked_add (word_of_nat (length fs) :: u32) 1 = Some (word_of_nat (length (fs @ [f])))"
    using small idx by (simp add: checked_add_def)
  have ix: "frame_index f = word_of_nat (length fs) \<longleftrightarrow> unat (frame_index f) = length fs"
    using idx by (auto simp: word_unat_eq_iff)
  have after: "context_after ctx fs
      \<lparr>cumulative_hasher := ?acc @ frame_payload f,
       cumulative_bytes := word_of_nat (length (?acc @ frame_payload f)),
       next_index := word_of_nat (length (fs @ [f])), complete := final_chunk f\<rparr>
      = context_after ctx (fs @ [f])"
    by (simp add: context_after_def ends_final_def)
  show ?thesis
  proof (cases "\<not> ends_final fs \<and> frame_transfer_id f = ctx_transfer_id ctx \<and>
      frame_resume_cursor f = ctx_resume_cursor ctx \<and> unat (frame_index f) = length fs")
    case True
    note v = chunk_frame_validate_ok[OF assms(1), of f]
      validate_chunk_ok_iff[OF idx(2) acc(2) max, of "frame_payload f"]
    show ?thesis
    proof (cases "chunk_fits sha (ctx_transfer_id ctx) ?l (ctx_resume_cursor ctx) fs f")
      case fits: True
      have "validate_chunk ?l (word_of_nat (length ?acc)) (frame_payload f)
            = Inr (word_of_nat (length (?acc @ frame_payload f)))"
        "chunk_frame_validate f ?l = Inr ()"
        "cumulative_sha256 f = sha (?acc @ frame_payload f)"
        using fits True v(1) v(2)[THEN iffD2] by (simp_all add: chunk_fits_def)
      then have "accept_inner sha (context_after ctx fs) f = (Inr (), context_after ctx (fs @ [f]))"
        using True nxt ix by (simp add: accept_inner_def Let_def flip: after)
      then show ?thesis using True fits assms(2) by (auto simp: chunk_run_snoc)
    next
      case False
      then show ?thesis
        using True v
        by (auto simp: accept_inner_def Let_def chunk_fits_def chunk_run_snoc
            split: sum.splits if_splits)
    qed
  next
    case False
    then show ?thesis
      by (auto simp: accept_inner_def ix chunk_run_snoc chunk_fits_def split: sum.splits if_splits)
  qed
qed

lemma feed_chunks_snoc: "feed_chunks sha ctx (fs @ [f]) = snd (chunk_accept sha (feed_chunks sha ctx fs) f)"
  by (simp add: feed_chunks_def)

text \<open>The refinement: fed with any chunks, the context is the abstract run or is poisoned.\<close>

lemma feed_chunks_run:
  assumes "context_valid ctx" and "context_after ctx [] = ctx"
  shows "if ctx_run sha ctx fs then feed_chunks sha ctx fs = context_after ctx fs
         else poisoned (feed_chunks sha ctx fs) \<and> \<not> complete (feed_chunks sha ctx fs)"
proof (induction fs rule: rev_induct)
  case Nil
  then show ?case using assms(2) by (simp add: feed_chunks_def)
next
  case (snoc f fs)
  have np: "\<not> poisoned ctx" using assms(1) by (simp add: context_valid_def)
  show ?case
  proof (cases "ctx_run sha ctx fs")
    case True
    then have fed: "feed_chunks sha ctx fs = context_after ctx fs" using snoc by simp
    obtain r ctx1 where a: "accept_inner sha (context_after ctx fs) f = (r, ctx1)"
      by (cases "accept_inner sha (context_after ctx fs) f")
    show ?thesis
      using a accept_inner_run[OF assms(1) True, of f ctx1]
        accept_inner_run[OF assms(1) True, of f "context_after ctx (fs @ [f])"] np
      by (cases r) (auto simp: feed_chunks_snoc fed chunk_accept_def)
  next
    case False
    then show ?thesis using snoc by (simp add: feed_chunks_snoc chunk_accept_def chunk_run_snoc)
  qed
qed

text \<open>C31. A chunked transfer completes exactly when it should.  Whatever chunks a receiving context is
  given, it reports completion if and only if they are the chunks of one transfer: each carries
  the transfer's identity and resume cursor, their indices are 0, 1, 2 and so on, no payload is
  empty or exceeds the chunk limit, the total stays within the cumulative limit, each carries the
  SHA-256 of everything up to it, and the last one and no other is marked final.  Then the bytes
  the context has hashed are the concatenation of the payloads; no sequence, lost, repeated or
  reordered chunks included, makes a poisoned context complete.
\<close>

theorem chunk_transfer_exact:
  assumes "chunk_context_new t l cursor = Inr ctx"
  shows "(chunk_is_complete (feed_chunks sha ctx fs) \<longleftrightarrow>
           fs \<noteq> [] \<and> (\<forall>i < length fs. chunk_fits sha t l cursor (take i fs) (fs ! i) \<and>
                        (final_chunk (fs ! i) \<longleftrightarrow> Suc i = length fs))) \<and>
         (chunk_is_complete (feed_chunks sha ctx fs) \<longrightarrow>
           cumulative_hasher (feed_chunks sha ctx fs) = concat (map frame_payload fs))"
proof -
  have ctx: "context_valid ctx" "context_after ctx [] = ctx"
      "ctx_transfer_id ctx = t" "ctx_limits ctx = l" "ctx_resume_cursor ctx = cursor"
    using assms
    by (auto simp: chunk_context_new_def rbind_Inr_iff map_err_Inr_iff context_valid_def
        context_after_def ends_final_def)
  have "\<not> poisoned ctx" using ctx(1) by (simp add: context_valid_def)
  then have c: "chunk_is_complete (feed_chunks sha ctx fs) \<longleftrightarrow> ctx_run sha ctx fs \<and> ends_final fs"
    using feed_chunks_run[OF ctx(1,2), of sha fs] by (auto simp: chunk_is_complete_def split: if_splits)
  have final: "ends_final fs \<and> (\<forall>i. Suc i < length fs \<longrightarrow> \<not> final_chunk (fs ! i)) \<longleftrightarrow>
      fs \<noteq> [] \<and> (\<forall>i < length fs. final_chunk (fs ! i) \<longleftrightarrow> Suc i = length fs)"
    by (cases fs rule: rev_cases)
      (auto simp: ends_final_def nth_append less_Suc_eq, metis Suc_lessI)
  have "chunk_is_complete (feed_chunks sha ctx fs) \<longleftrightarrow>
           fs \<noteq> [] \<and> (\<forall>i < length fs. chunk_fits sha t l cursor (take i fs) (fs ! i) \<and>
                        (final_chunk (fs ! i) \<longleftrightarrow> Suc i = length fs))"
    using c final ctx(3-5) by (auto simp: chunk_run_def)
  moreover have "chunk_is_complete (feed_chunks sha ctx fs) \<longrightarrow>
           cumulative_hasher (feed_chunks sha ctx fs) = concat (map frame_payload fs)"
    using c feed_chunks_run[OF ctx(1,2), of sha fs] by simp
  ultimately show ?thesis by (rule conjI)
qed

definition sample_digest :: "u8 list \<Rightarrow> u8 list" where
  "sample_digest bs = take 32 (bs @ replicate 32 0)"

definition sample_chunk_limits :: chunk_limits where
  "sample_chunk_limits = \<lparr> max_chunk_bytes = 4, max_cumulative_bytes = 8, max_cursor_bytes = 4 \<rparr>"

definition sample_chunk :: "u32 \<Rightarrow> bool \<Rightarrow> u8 list \<Rightarrow> u8 list \<Rightarrow> chunk_frame" where
  "sample_chunk i final before payload =
     \<lparr> frame_transfer_id = nil_id, frame_index = i, final_chunk = final, frame_payload = payload,
       cumulative_sha256 = sample_digest (before @ payload), frame_resume_cursor = None \<rparr>"

definition sample_context :: chunk_context where
  "sample_context = \<lparr> ctx_transfer_id = nil_id, ctx_limits = sample_chunk_limits,
     ctx_resume_cursor = None, next_index = 0, cumulative_bytes = 0, cumulative_hasher = [],
     complete = False, poisoned = False \<rparr>"

lemma sample_context_new: "chunk_context_new nil_id sample_chunk_limits None = Inr sample_context"
  by (simp add: chunk_context_new_def chunk_limits_validate_def validate_cursor_def
      sample_chunk_limits_def sample_context_def chunk_maxima)

theorem chunk_transfer_exact_witness:
  "chunk_is_complete (feed_chunks sample_digest sample_context
     [sample_chunk 0 False [] [1, 2], sample_chunk 1 True [1, 2] [3]]) \<and>
   cumulative_hasher (feed_chunks sample_digest sample_context
     [sample_chunk 0 False [] [1, 2], sample_chunk 1 True [1, 2] [3]]) = [1, 2, 3] \<and>
   \<not> chunk_is_complete (feed_chunks sample_digest sample_context [sample_chunk 1 True [] [1]])"
proof -
  let ?fs = "[sample_chunk 0 False [] [1, 2], sample_chunk 1 True [1, 2] [3]]"
  have "chunk_is_complete (feed_chunks sample_digest sample_context ?fs)"
    using chunk_transfer_exact[OF sample_context_new, of sample_digest ?fs, THEN conjunct1]
    by (simp add: chunk_fits_def sample_chunk_def sample_chunk_limits_def less_Suc_eq)
  moreover from this have "cumulative_hasher (feed_chunks sample_digest sample_context ?fs) = [1, 2, 3]"
    using chunk_transfer_exact[OF sample_context_new, of sample_digest ?fs]
    by (simp add: sample_chunk_def)
  moreover have "\<not> chunk_is_complete (feed_chunks sample_digest sample_context [sample_chunk 1 True [] [1]])"
    using chunk_transfer_exact[OF sample_context_new, of sample_digest "[sample_chunk 1 True [] [1]]"]
    by (simp add: chunk_fits_def sample_chunk_def)
  ultimately show ?thesis by blast
qed

section \<open>The documents\<close>

context serde_values
begin

lemma chunk_limits_roundtrip:
  assumes "chunk_limits_serialize lib l = Inr v"
  shows "chunk_limits_deserialize lib v = Inr l"
  using assms
  by (cases l) (auto simp: chunk_limits_serialize_def chunk_limits_deserialize_def
      chunk_limits_visit_def chunk_limits_field_def chunk_limits_try_new_def rbind_Inr_iff de_ser)

lemma chunk_frame_roundtrip:
  assumes "chunk_frame_serialize lib f = Inr v" and "id_valid ulib (frame_transfer_id f)"
    and "length (cumulative_sha256 f) = 32"
  shows "chunk_frame_deserialize ulib lib v = Inr f"
proof -
  have "validate_shape f = Inr ()"
    using assms(1) by (auto simp: chunk_frame_serialize_def rbind_Inr_iff)
  then have "chunk_frame_new (frame_transfer_id f) (frame_index f) (final_chunk f) (frame_payload f)
      (cumulative_sha256 f) (frame_resume_cursor f) = Inr f"
    by (cases f) (simp add: chunk_frame_new_def)
  with assms show ?thesis
    by (cases "frame_resume_cursor f")
      (auto simp: chunk_frame_serialize_def chunk_frame_deserialize_def chunk_frame_visit_def
        chunk_frame_field_of_def sha256_deserialize_def optional_binary_deserialize_def
        rbind_Inr_iff de_ser field_roundtrips)
qed

end

definition chunk_frame_typed :: "uuid_lib \<Rightarrow> chunk_frame \<Rightarrow> bool" where
  "chunk_frame_typed ulib f \<longleftrightarrow> id_valid ulib (frame_transfer_id f) \<and> length (cumulative_sha256 f) = 32"

definition chunk_slots_typed :: "uuid_lib \<Rightarrow> chunk_frame_slots \<Rightarrow> bool" where
  "chunk_slots_typed ulib s \<longleftrightarrow> pred_option (id_valid ulib) (slot_transfer_id s) \<and>
     pred_option (\<lambda>b. length b = 32) (slot_cumulative_sha256 s)"

lemma sha256_length: "sha256_deserialize lib v = Inr bs \<Longrightarrow> length bs = 32"
  by (auto simp: sha256_deserialize_def rbind_Inr_iff split: if_splits)

lemma chunk_frame_visit_typed:
  assumes "chunk_slots_typed ulib s" and "chunk_frame_visit ulib lib s e = Inr s'"
  shows "chunk_slots_typed ulib s'"
proof -
  obtain field where "chunk_frame_field_of (fst e) = Inr field"
    using assms(2) by (auto simp: chunk_frame_visit_def rbind_Inr_iff)
  with assms show ?thesis
    by (cases field) (auto simp: chunk_frame_visit_def chunk_slots_typed_def
        dest!: fill_InrD dest: id_deserialize_valid sha256_length)
qed

lemma chunk_frame_deserialize_valid:
  assumes "chunk_frame_deserialize ulib lib v = Inr f"
  shows "validate_shape f = Inr () \<and> chunk_frame_typed ulib f"
proof -
  obtain m s where s: "visit_entries (chunk_frame_visit ulib lib)
        \<lparr> slot_transfer_id = None, slot_index = None, slot_final_chunk = None, slot_payload = None,
          slot_cumulative_sha256 = None, slot_resume_cursor = None \<rparr> m = Inr s"
      and f: "validate_shape f = Inr ()" "slot_transfer_id s = Some (frame_transfer_id f)"
        "slot_cumulative_sha256 s = Some (cumulative_sha256 f)"
    using assms by (auto simp: chunk_frame_deserialize_def chunk_frame_new_def rbind_Inr_iff
        required_Inr_iff map_err_Inr_iff Let_def)
  have "chunk_slots_typed ulib s"
    by (rule visit_entries_invariant[OF s])
      (simp add: chunk_slots_typed_def, erule chunk_frame_visit_typed)
  with f show ?thesis by (simp add: chunk_slots_typed_def chunk_frame_typed_def)
qed

end
