(* ===== verification/Wire_Hello.thy ===== *)
theory Wire_Hello
  imports Wire_Frame Wire_Chunk
begin

text \<open>
  \<open>src/protocol/envelope.rs\<close>, the handshake: the \<open>ClientHello\<close> and \<open>ServerHello\<close> documents, their
  validation and their strict named-map readers, the negotiation of version, capabilities and
  limits, and the profile binding.  Byte arrays of a fixed size are lists; \<open>client_hello_typed\<close> and
  \<open>server_hello_typed\<close> state the sizes the Rust types fix.
\<close>

section \<open>Profile binding\<close>

definition PROFILE_FINGERPRINT_DOMAIN :: "u8 list" where
  "PROFILE_FINGERPRINT_DOMAIN = str_bytes (lit ''devmanager.pipe.v1'') @ [0]"

definition hash_normalized :: "(u8 list \<Rightarrow> u8 list) \<Rightarrow> rstr \<Rightarrow> u8 list" where
  "hash_normalized sha normalized = sha (PROFILE_FINGERPRINT_DOMAIN @ str_bytes normalized)"

definition fingerprint_to_hex :: "u8 list \<Rightarrow> rstr" where
  "fingerprint_to_hex bytes = hex_bytes bytes"

section \<open>Client hello\<close>

definition MAX_CLIENT_BUILD_BYTES :: u32 where "MAX_CLIENT_BUILD_BYTES = 128"
definition MAX_SERVER_BUILD_BYTES :: u32 where "MAX_SERVER_BUILD_BYTES = MAX_CLIENT_BUILD_BYTES"

datatype client_build_error = ClientBuildEmpty | ClientBuildTooLong u64 u32

datatype client_hello_error =
    ClientHelloBuild client_build_error
  | ClientHelloFrameLimits frame_limits_error
  | ClientHelloVersion version_negotiation_error

record client_hello =
  ch_protocol_major :: u16
  ch_protocol_minor :: u16
  ch_client_build :: rstr
  ch_client_id :: client_id
  ch_profile_fingerprint :: "u8 list"
  ch_requested :: capability_set
  ch_limits :: frame_limits
  ch_reconnect_grant :: "u8 list option"

definition validate_client_build :: "rstr \<Rightarrow> client_build_error + unit" where
  "validate_client_build value =
     (let declared = len_u64 (str_bytes value) in
      if declared = 0 then Inl ClientBuildEmpty
      else if declared > ucast MAX_CLIENT_BUILD_BYTES then
        Inl (ClientBuildTooLong declared MAX_CLIENT_BUILD_BYTES)
      else Inr ())"

definition client_hello_validate :: "client_hello \<Rightarrow> client_hello_error + unit" where
  "client_hello_validate h =
     rbind (map_err ClientHelloBuild (validate_client_build (ch_client_build h))) (\<lambda>_.
       map_err ClientHelloFrameLimits (validate_offer (ch_limits h)))"

definition client_hello_new ::
  "rstr \<Rightarrow> client_id \<Rightarrow> u8 list \<Rightarrow> capability_set \<Rightarrow> frame_limits \<Rightarrow> client_hello_error + client_hello"
where
  "client_hello_new build client fingerprint requested limits =
     (let hello = \<lparr> ch_protocol_major = PROTOCOL_MAJOR, ch_protocol_minor = PROTOCOL_MINOR,
                    ch_client_build = build, ch_client_id = client,
                    ch_profile_fingerprint = fingerprint, ch_requested = requested,
                    ch_limits = limits, ch_reconnect_grant = None \<rparr> in
      rbind (client_hello_validate hello) (\<lambda>_. Inr hello))"

definition client_hello_new_with_reconnect_grant ::
  "rstr \<Rightarrow> client_id \<Rightarrow> u8 list \<Rightarrow> capability_set \<Rightarrow> frame_limits \<Rightarrow> u8 list option
     \<Rightarrow> client_hello_error + client_hello" where
  "client_hello_new_with_reconnect_grant build client fingerprint requested limits grant =
     map_ok (\<lambda>hello. hello\<lparr> ch_reconnect_grant := grant \<rparr>)
       (client_hello_new build client fingerprint requested limits)"

record negotiated_parameters =
  negotiated_version :: protocol_version
  negotiated_client_id :: client_id
  negotiated_capabilities :: capability_set
  negotiated_limits :: frame_limits

definition client_hello_negotiate ::
  "client_hello \<Rightarrow> capability_set \<Rightarrow> frame_limits \<Rightarrow> client_hello_error + negotiated_parameters" where
  "client_hello_negotiate h supported local_limits =
     rbind (client_hello_validate h) (\<lambda>_.
     rbind (map_err ClientHelloVersion (version_negotiate version_current
              \<lparr> major = ch_protocol_major h, minor = ch_protocol_minor h \<rparr>)) (\<lambda>version.
     rbind (map_err ClientHelloFrameLimits (frame_limits_negotiate local_limits (ch_limits h)))
       (\<lambda>limits. Inr
         \<lparr> negotiated_version = version, negotiated_client_id = ch_client_id h,
           negotiated_capabilities = capability_intersection supported (ch_requested h),
           negotiated_limits = limits \<rparr>)))"

definition personal_prompt_library_granted :: "capability_set \<Rightarrow> bool" where
  "personal_prompt_library_granted granted = grants_personal_prompt_library granted"

definition client_hello_serialize :: "'v serde \<Rightarrow> client_hello \<Rightarrow> client_hello_error + 'v" where
  "client_hello_serialize lib h =
     rbind (client_hello_validate h) (\<lambda>_.
     rbind (map_err ClientHelloFrameLimits (frame_limits_serialize lib (ch_limits h))) (\<lambda>limits.
     Inr (ser_map lib
      ([(lit ''protocol_major'', ser_u16 lib (ch_protocol_major h)),
        (lit ''protocol_minor'', ser_u16 lib (ch_protocol_minor h)),
        (lit ''client_build'', ser_str lib (ch_client_build h)),
        (lit ''client_id'', id_serialize lib (ch_client_id h)),
        (lit ''profile_fingerprint'', ser_bytes lib (ch_profile_fingerprint h)),
        (lit ''requested'', ser_u64 lib (bits (ch_requested h))),
        (lit ''limits'', limits)] @
       (case ch_reconnect_grant h of
          Some grant \<Rightarrow> [(lit ''reconnect_grant'', ser_bytes lib grant)] | None \<Rightarrow> [])))))"

datatype client_hello_field =
    ChProtocolMajor | ChProtocolMinor | ChClientBuild | ChClientId | ChProfileFingerprint
  | ChRequested | ChLimits | ChReconnectGrant

definition client_hello_field_of :: "rstr \<Rightarrow> de_error + client_hello_field" where
  "client_hello_field_of key =
     (if key = lit ''protocol_major'' then Inr ChProtocolMajor
      else if key = lit ''protocol_minor'' then Inr ChProtocolMinor
      else if key = lit ''client_build'' then Inr ChClientBuild
      else if key = lit ''client_id'' then Inr ChClientId
      else if key = lit ''profile_fingerprint'' then Inr ChProfileFingerprint
      else if key = lit ''requested'' then Inr ChRequested
      else if key = lit ''limits'' then Inr ChLimits
      else if key = lit ''reconnect_grant'' then Inr ChReconnectGrant
      else Inl (UnknownField key))"

record client_hello_slots =
  chs_major :: "u16 option"
  chs_minor :: "u16 option"
  chs_build :: "rstr option"
  chs_client_id :: "client_id option"
  chs_fingerprint :: "u8 list option"
  chs_requested :: "capability_set option"
  chs_limits :: "frame_limits option"
  chs_grant :: "u8 list option"

definition capability_set_deserialize :: "'v serde \<Rightarrow> 'v \<Rightarrow> de_error + capability_set" where
  "capability_set_deserialize lib v = map_ok (\<lambda>b. \<lparr> bits = b \<rparr>) (de_u64 lib v)"

definition client_hello_visit ::
  "uuid_lib \<Rightarrow> 'v serde \<Rightarrow> client_hello_slots \<Rightarrow> rstr \<times> 'v \<Rightarrow> de_error + client_hello_slots" where
  "client_hello_visit ulib lib s e = rbind (client_hello_field_of (fst e)) (\<lambda>field. case field of
      ChProtocolMajor \<Rightarrow> fill ''protocol_major'' (chs_major s) (de_u16 lib (snd e))
        (\<lambda>x. s\<lparr>chs_major := x\<rparr>)
    | ChProtocolMinor \<Rightarrow> fill ''protocol_minor'' (chs_minor s) (de_u16 lib (snd e))
        (\<lambda>x. s\<lparr>chs_minor := x\<rparr>)
    | ChClientBuild \<Rightarrow> fill ''client_build'' (chs_build s) (de_str lib (snd e))
        (\<lambda>x. s\<lparr>chs_build := x\<rparr>)
    | ChClientId \<Rightarrow> fill ''client_id'' (chs_client_id s) (id_deserialize ulib lib (snd e))
        (\<lambda>x. s\<lparr>chs_client_id := x\<rparr>)
    | ChProfileFingerprint \<Rightarrow> fill ''profile_fingerprint'' (chs_fingerprint s)
        (profile_fingerprint_deserialize lib (snd e)) (\<lambda>x. s\<lparr>chs_fingerprint := x\<rparr>)
    | ChRequested \<Rightarrow> fill ''requested'' (chs_requested s) (capability_set_deserialize lib (snd e))
        (\<lambda>x. s\<lparr>chs_requested := x\<rparr>)
    | ChLimits \<Rightarrow> fill ''limits'' (chs_limits s) (frame_limits_deserialize lib (snd e))
        (\<lambda>x. s\<lparr>chs_limits := x\<rparr>)
    | ChReconnectGrant \<Rightarrow> fill ''reconnect_grant'' (chs_grant s)
        (reconnect_grant_deserialize lib (snd e)) (\<lambda>x. s\<lparr>chs_grant := x\<rparr>))"

definition client_hello_deserialize :: "uuid_lib \<Rightarrow> 'v serde \<Rightarrow> 'v \<Rightarrow> de_error + client_hello" where
  "client_hello_deserialize ulib lib v = rbind (de_map lib v) (\<lambda>m.
     rbind (visit_entries (client_hello_visit ulib lib)
        \<lparr> chs_major = None, chs_minor = None, chs_build = None, chs_client_id = None,
          chs_fingerprint = None, chs_requested = None, chs_limits = None, chs_grant = None \<rparr> m) (\<lambda>s.
     rbind (required ''protocol_major'' (chs_major s)) (\<lambda>maj.
     rbind (required ''protocol_minor'' (chs_minor s)) (\<lambda>min.
     rbind (required ''client_build'' (chs_build s)) (\<lambda>build.
     rbind (required ''client_id'' (chs_client_id s)) (\<lambda>client.
     rbind (required ''profile_fingerprint'' (chs_fingerprint s)) (\<lambda>fingerprint.
     rbind (required ''requested'' (chs_requested s)) (\<lambda>requested.
     rbind (required ''limits'' (chs_limits s)) (\<lambda>limits.
       let hello = \<lparr> ch_protocol_major = maj, ch_protocol_minor = min, ch_client_build = build,
                     ch_client_id = client, ch_profile_fingerprint = fingerprint,
                     ch_requested = requested, ch_limits = limits,
                     ch_reconnect_grant = chs_grant s \<rparr> in
       rbind (map_err (\<lambda>_. CustomError) (client_hello_validate hello)) (\<lambda>_. Inr hello))))))))))"

section \<open>Server hello\<close>

datatype server_build_error = ServerBuildEmpty | ServerBuildTooLong u64 u32

datatype server_hello_error =
    ServerHelloBuild server_build_error
  | ServerHelloFrameLimits frame_limits_error
  | ServerHelloInvalidUuid rstr

record server_hello =
  sh_protocol_major :: u16
  sh_protocol_minor :: u16
  sh_server_build :: rstr
  sh_host_boot_id :: "128 word"
  sh_connection_id :: "128 word"
  sh_profile_fingerprint :: "u8 list"
  sh_granted :: capability_set
  sh_limits :: frame_limits
  sh_reconnect_grant :: "u8 list option"

definition validate_server_build :: "rstr \<Rightarrow> server_build_error + unit" where
  "validate_server_build value =
     (let declared = len_u64 (str_bytes value) in
      if declared = 0 then Inl ServerBuildEmpty
      else if declared > ucast MAX_SERVER_BUILD_BYTES then
        Inl (ServerBuildTooLong declared MAX_SERVER_BUILD_BYTES)
      else Inr ())"

definition server_validate_uuid_v7 ::
  "uuid_lib \<Rightarrow> 128 word \<Rightarrow> string \<Rightarrow> server_hello_error + unit" where
  "server_validate_uuid_v7 ulib value field =
     (if get_version_num ulib value \<noteq> 7 \<or> \<not> is_rfc4122 ulib value then
        Inl (ServerHelloInvalidUuid (lit field))
      else Inr ())"

definition server_hello_validate :: "uuid_lib \<Rightarrow> server_hello \<Rightarrow> server_hello_error + unit" where
  "server_hello_validate ulib h =
     rbind (map_err ServerHelloBuild (validate_server_build (sh_server_build h))) (\<lambda>_.
     rbind (map_err ServerHelloFrameLimits (validate_offer (sh_limits h))) (\<lambda>_.
     rbind (server_validate_uuid_v7 ulib (sh_host_boot_id h) ''host_boot_id'') (\<lambda>_.
     rbind (server_validate_uuid_v7 ulib (sh_connection_id h) ''connection_id'') (\<lambda>_. Inr ()))))"

text \<open>\<open>Uuid::now_v7()\<close> is the argument \<open>now_v7\<close>.\<close>

definition server_hello_from_negotiated ::
  "uuid_lib \<Rightarrow> 128 word \<Rightarrow> rstr \<Rightarrow> 128 word \<Rightarrow> u8 list \<Rightarrow> negotiated_parameters
     \<Rightarrow> server_hello_error + server_hello" where
  "server_hello_from_negotiated ulib now_v7 build host_boot fingerprint negotiated =
     (let hello = \<lparr> sh_protocol_major = major (negotiated_version negotiated),
                    sh_protocol_minor = minor (negotiated_version negotiated),
                    sh_server_build = build, sh_host_boot_id = host_boot,
                    sh_connection_id = now_v7, sh_profile_fingerprint = fingerprint,
                    sh_granted = negotiated_capabilities negotiated,
                    sh_limits = negotiated_limits negotiated, sh_reconnect_grant = None \<rparr> in
      rbind (server_hello_validate ulib hello) (\<lambda>_. Inr hello))"

definition server_hello_serialize ::
  "uuid_lib \<Rightarrow> 'v serde \<Rightarrow> server_hello \<Rightarrow> server_hello_error + 'v" where
  "server_hello_serialize ulib lib h =
     rbind (server_hello_validate ulib h) (\<lambda>_.
     rbind (map_err ServerHelloFrameLimits (frame_limits_serialize lib (sh_limits h))) (\<lambda>limits.
     Inr (ser_map lib
      ([(lit ''protocol_major'', ser_u16 lib (sh_protocol_major h)),
        (lit ''protocol_minor'', ser_u16 lib (sh_protocol_minor h)),
        (lit ''server_build'', ser_str lib (sh_server_build h)),
        (lit ''host_boot_id'', ser_uuid lib (sh_host_boot_id h)),
        (lit ''connection_id'', ser_uuid lib (sh_connection_id h)),
        (lit ''profile_fingerprint'', ser_bytes lib (sh_profile_fingerprint h)),
        (lit ''granted'', ser_u64 lib (bits (sh_granted h))),
        (lit ''limits'', limits)] @
       (case sh_reconnect_grant h of
          Some grant \<Rightarrow> [(lit ''reconnect_grant'', ser_bytes lib grant)] | None \<Rightarrow> [])))))"

datatype server_hello_field =
    ShProtocolMajor | ShProtocolMinor | ShServerBuild | ShHostBootId | ShConnectionId
  | ShProfileFingerprint | ShGranted | ShLimits | ShReconnectGrant

definition server_hello_field_of :: "rstr \<Rightarrow> de_error + server_hello_field" where
  "server_hello_field_of key =
     (if key = lit ''protocol_major'' then Inr ShProtocolMajor
      else if key = lit ''protocol_minor'' then Inr ShProtocolMinor
      else if key = lit ''server_build'' then Inr ShServerBuild
      else if key = lit ''host_boot_id'' then Inr ShHostBootId
      else if key = lit ''connection_id'' then Inr ShConnectionId
      else if key = lit ''profile_fingerprint'' then Inr ShProfileFingerprint
      else if key = lit ''granted'' then Inr ShGranted
      else if key = lit ''limits'' then Inr ShLimits
      else if key = lit ''reconnect_grant'' then Inr ShReconnectGrant
      else Inl (UnknownField key))"

record server_hello_slots =
  shs_major :: "u16 option"
  shs_minor :: "u16 option"
  shs_build :: "rstr option"
  shs_boot :: "128 word option"
  shs_connection :: "128 word option"
  shs_fingerprint :: "u8 list option"
  shs_granted :: "capability_set option"
  shs_limits :: "frame_limits option"
  shs_grant :: "u8 list option"

definition server_hello_visit ::
  "'v serde \<Rightarrow> server_hello_slots \<Rightarrow> rstr \<times> 'v \<Rightarrow> de_error + server_hello_slots" where
  "server_hello_visit lib s e = rbind (server_hello_field_of (fst e)) (\<lambda>field. case field of
      ShProtocolMajor \<Rightarrow> fill ''protocol_major'' (shs_major s) (de_u16 lib (snd e))
        (\<lambda>x. s\<lparr>shs_major := x\<rparr>)
    | ShProtocolMinor \<Rightarrow> fill ''protocol_minor'' (shs_minor s) (de_u16 lib (snd e))
        (\<lambda>x. s\<lparr>shs_minor := x\<rparr>)
    | ShServerBuild \<Rightarrow> fill ''server_build'' (shs_build s) (de_str lib (snd e))
        (\<lambda>x. s\<lparr>shs_build := x\<rparr>)
    | ShHostBootId \<Rightarrow> fill ''host_boot_id'' (shs_boot s) (de_uuid lib (snd e))
        (\<lambda>x. s\<lparr>shs_boot := x\<rparr>)
    | ShConnectionId \<Rightarrow> fill ''connection_id'' (shs_connection s) (de_uuid lib (snd e))
        (\<lambda>x. s\<lparr>shs_connection := x\<rparr>)
    | ShProfileFingerprint \<Rightarrow> fill ''profile_fingerprint'' (shs_fingerprint s)
        (profile_fingerprint_deserialize lib (snd e)) (\<lambda>x. s\<lparr>shs_fingerprint := x\<rparr>)
    | ShGranted \<Rightarrow> fill ''granted'' (shs_granted s) (capability_set_deserialize lib (snd e))
        (\<lambda>x. s\<lparr>shs_granted := x\<rparr>)
    | ShLimits \<Rightarrow> fill ''limits'' (shs_limits s) (frame_limits_deserialize lib (snd e))
        (\<lambda>x. s\<lparr>shs_limits := x\<rparr>)
    | ShReconnectGrant \<Rightarrow> fill ''reconnect_grant'' (shs_grant s)
        (reconnect_grant_deserialize lib (snd e)) (\<lambda>x. s\<lparr>shs_grant := x\<rparr>))"

definition server_hello_deserialize :: "uuid_lib \<Rightarrow> 'v serde \<Rightarrow> 'v \<Rightarrow> de_error + server_hello" where
  "server_hello_deserialize ulib lib v = rbind (de_map lib v) (\<lambda>m.
     rbind (visit_entries (server_hello_visit lib)
        \<lparr> shs_major = None, shs_minor = None, shs_build = None, shs_boot = None,
          shs_connection = None, shs_fingerprint = None, shs_granted = None, shs_limits = None,
          shs_grant = None \<rparr> m) (\<lambda>s.
     rbind (required ''protocol_major'' (shs_major s)) (\<lambda>maj.
     rbind (required ''protocol_minor'' (shs_minor s)) (\<lambda>min.
     rbind (required ''server_build'' (shs_build s)) (\<lambda>build.
     rbind (required ''host_boot_id'' (shs_boot s)) (\<lambda>boot.
     rbind (required ''connection_id'' (shs_connection s)) (\<lambda>connection.
     rbind (required ''profile_fingerprint'' (shs_fingerprint s)) (\<lambda>fingerprint.
     rbind (required ''granted'' (shs_granted s)) (\<lambda>granted.
     rbind (required ''limits'' (shs_limits s)) (\<lambda>limits.
       let hello = \<lparr> sh_protocol_major = maj, sh_protocol_minor = min, sh_server_build = build,
                     sh_host_boot_id = boot, sh_connection_id = connection,
                     sh_profile_fingerprint = fingerprint, sh_granted = granted,
                     sh_limits = limits, sh_reconnect_grant = shs_grant s \<rparr> in
       rbind (map_err (\<lambda>_. CustomError) (server_hello_validate ulib hello)) (\<lambda>_. Inr hello)))))))))))"

section \<open>What the documents guarantee\<close>

definition client_hello_typed :: "uuid_lib \<Rightarrow> client_hello \<Rightarrow> bool" where
  "client_hello_typed ulib h \<longleftrightarrow> id_valid ulib (ch_client_id h) \<and>
     length (ch_profile_fingerprint h) = 32 \<and>
     pred_option (\<lambda>g. length g = RECONNECT_GRANT_BYTES) (ch_reconnect_grant h)"

definition server_hello_typed :: "server_hello \<Rightarrow> bool" where
  "server_hello_typed h \<longleftrightarrow> length (sh_profile_fingerprint h) = 32 \<and>
     pred_option (\<lambda>g. length g = RECONNECT_GRANT_BYTES) (sh_reconnect_grant h)"

lemma capability_set_eta [simp]: "\<lparr> bits = bits s \<rparr> = s"
  by simp

lemma client_hello_eta:
  "ch_reconnect_grant h = g \<Longrightarrow>
   \<lparr> ch_protocol_major = ch_protocol_major h, ch_protocol_minor = ch_protocol_minor h,
     ch_client_build = ch_client_build h, ch_client_id = ch_client_id h,
     ch_profile_fingerprint = ch_profile_fingerprint h, ch_requested = ch_requested h,
     ch_limits = ch_limits h, ch_reconnect_grant = g \<rparr> = h"
  by (cases h) simp

lemma server_hello_eta:
  "sh_reconnect_grant h = g \<Longrightarrow>
   \<lparr> sh_protocol_major = sh_protocol_major h, sh_protocol_minor = sh_protocol_minor h,
     sh_server_build = sh_server_build h, sh_host_boot_id = sh_host_boot_id h,
     sh_connection_id = sh_connection_id h, sh_profile_fingerprint = sh_profile_fingerprint h,
     sh_granted = sh_granted h, sh_limits = sh_limits h, sh_reconnect_grant = g \<rparr> = h"
  by (cases h) simp

context serde_values
begin

lemma frame_limits_roundtrip:
  assumes "frame_limits_serialize lib l = Inr v"
  shows "frame_limits_deserialize lib v = Inr l"
proof -
  have "validate_offer l = Inr ()"
    using assms by (auto simp: frame_limits_serialize_def rbind_Inr_iff)
  with assms show ?thesis
    by (cases l) (auto simp: frame_limits_serialize_def frame_limits_deserialize_def
        frame_limits_of_map_def frame_limits_field_def rbind_Inr_iff de_ser)
qed

lemma capability_set_roundtrip: "capability_set_deserialize lib (ser_u64 lib (bits s)) = Inr s"
  by (simp add: capability_set_deserialize_def de_ser)

lemma client_hello_roundtrip:
  assumes "client_hello_serialize lib h = Inr v" and "client_hello_typed ulib h"
  shows "client_hello_deserialize ulib lib v = Inr h"
proof -
  obtain lv where valid: "client_hello_validate h = Inr ()"
      and lv: "frame_limits_serialize lib (ch_limits h) = Inr lv"
    using assms(1) by (auto simp: client_hello_serialize_def rbind_Inr_iff map_err_Inr_iff)
  note limits = frame_limits_roundtrip[OF lv]
  from assms valid lv show ?thesis
    by (cases "ch_reconnect_grant h")
      (auto simp: client_hello_serialize_def client_hello_deserialize_def client_hello_visit_def
        client_hello_field_of_def client_hello_typed_def de_ser field_roundtrips limits
        capability_set_roundtrip Let_def client_hello_eta)
qed

lemma server_hello_roundtrip:
  assumes "server_hello_serialize ulib lib h = Inr v" and "server_hello_typed h"
  shows "server_hello_deserialize ulib lib v = Inr h"
proof -
  obtain lv where valid: "server_hello_validate ulib h = Inr ()"
      and lv: "frame_limits_serialize lib (sh_limits h) = Inr lv"
    using assms(1) by (auto simp: server_hello_serialize_def rbind_Inr_iff map_err_Inr_iff)
  note limits = frame_limits_roundtrip[OF lv]
  from assms valid lv show ?thesis
    by (cases "sh_reconnect_grant h")
      (auto simp: server_hello_serialize_def server_hello_deserialize_def server_hello_visit_def
        server_hello_field_of_def server_hello_typed_def de_ser field_roundtrips limits
        capability_set_roundtrip Let_def server_hello_eta)
qed

end

section \<open>What an accepted document satisfies\<close>

text \<open>Every field a visitor has filled came from a reader of its type.\<close>

definition client_slots_typed :: "uuid_lib \<Rightarrow> client_hello_slots \<Rightarrow> bool" where
  "client_slots_typed ulib s \<longleftrightarrow> pred_option (id_valid ulib) (chs_client_id s) \<and>
     pred_option (\<lambda>b. length b = 32) (chs_fingerprint s) \<and>
     pred_option (\<lambda>g. length g = RECONNECT_GRANT_BYTES) (chs_grant s)"

definition server_slots_typed :: "server_hello_slots \<Rightarrow> bool" where
  "server_slots_typed s \<longleftrightarrow> pred_option (\<lambda>b. length b = 32) (shs_fingerprint s) \<and>
     pred_option (\<lambda>g. length g = RECONNECT_GRANT_BYTES) (shs_grant s)"

lemma client_hello_visit_typed:
  assumes "client_slots_typed ulib s" and "client_hello_visit ulib lib s e = Inr s'"
  shows "client_slots_typed ulib s'"
proof -
  obtain field where "client_hello_field_of (fst e) = Inr field"
    using assms(2) by (auto simp: client_hello_visit_def rbind_Inr_iff)
  with assms show ?thesis
    by (cases field) (auto simp: client_hello_visit_def client_slots_typed_def
        dest!: fill_InrD dest: id_deserialize_valid profile_fingerprint_length reconnect_grant_length)
qed

lemma server_hello_visit_typed:
  assumes "server_slots_typed s" and "server_hello_visit lib s e = Inr s'"
  shows "server_slots_typed s'"
proof -
  obtain field where "server_hello_field_of (fst e) = Inr field"
    using assms(2) by (auto simp: server_hello_visit_def rbind_Inr_iff)
  with assms show ?thesis
    by (cases field) (auto simp: server_hello_visit_def server_slots_typed_def
        dest!: fill_InrD dest: profile_fingerprint_length reconnect_grant_length)
qed

lemma client_hello_deserialize_valid:
  assumes "client_hello_deserialize ulib lib v = Inr h"
  shows "client_hello_validate h = Inr () \<and> client_hello_typed ulib h"
proof -
  obtain m s where s: "visit_entries (client_hello_visit ulib lib)
        \<lparr> chs_major = None, chs_minor = None, chs_build = None, chs_client_id = None,
          chs_fingerprint = None, chs_requested = None, chs_limits = None, chs_grant = None \<rparr> m = Inr s"
      and h: "client_hello_validate h = Inr ()" "chs_client_id s = Some (ch_client_id h)"
        "chs_fingerprint s = Some (ch_profile_fingerprint h)" "chs_grant s = ch_reconnect_grant h"
    using assms by (auto simp: client_hello_deserialize_def rbind_Inr_iff required_Inr_iff Let_def
        map_err_Inr_iff)
  have "client_slots_typed ulib s"
    by (rule visit_entries_invariant[OF s])
      (simp add: client_slots_typed_def, erule client_hello_visit_typed)
  with h show ?thesis by (simp add: client_slots_typed_def client_hello_typed_def)
qed

lemma server_hello_deserialize_valid:
  assumes "server_hello_deserialize ulib lib v = Inr h"
  shows "server_hello_validate ulib h = Inr () \<and> server_hello_typed h"
proof -
  obtain m s where s: "visit_entries (server_hello_visit lib)
        \<lparr> shs_major = None, shs_minor = None, shs_build = None, shs_boot = None,
          shs_connection = None, shs_fingerprint = None, shs_granted = None, shs_limits = None,
          shs_grant = None \<rparr> m = Inr s"
      and h: "server_hello_validate ulib h = Inr ()"
        "shs_fingerprint s = Some (sh_profile_fingerprint h)" "shs_grant s = sh_reconnect_grant h"
    using assms by (auto simp: server_hello_deserialize_def rbind_Inr_iff required_Inr_iff Let_def
        map_err_Inr_iff)
  have "server_slots_typed s"
    by (rule visit_entries_invariant[OF s])
      (simp add: server_slots_typed_def, erule server_hello_visit_typed)
  with h show ?thesis by (simp add: server_slots_typed_def server_hello_typed_def)
qed

section \<open>Properties\<close>

lemma frame_limits_serialize_ok_iff:
  "(\<exists>v. frame_limits_serialize lib l = Inr v) \<longleftrightarrow> validate_offer l = Inr ()"
  by (auto simp: frame_limits_serialize_def rbind_Inr_iff)

lemma client_hello_serialize_ok:
  assumes "client_hello_validate h = Inr ()"
  shows "\<exists>v. client_hello_serialize lib h = Inr v"
proof -
  have "validate_offer (ch_limits h) = Inr ()"
    using assms by (auto simp: client_hello_validate_def rbind_Inr_iff map_err_Inr_iff)
  then obtain lv where "frame_limits_serialize lib (ch_limits h) = Inr lv"
    using frame_limits_serialize_ok_iff[of lib "ch_limits h"] by auto
  with assms show ?thesis by (simp add: client_hello_serialize_def)
qed

lemma server_hello_serialize_ok:
  assumes "server_hello_validate ulib h = Inr ()"
  shows "\<exists>v. server_hello_serialize ulib lib h = Inr v"
proof -
  have "validate_offer (sh_limits h) = Inr ()"
    using assms by (auto simp: server_hello_validate_def rbind_Inr_iff map_err_Inr_iff)
  then obtain lv where "frame_limits_serialize lib (sh_limits h) = Inr lv"
    using frame_limits_serialize_ok_iff[of lib "sh_limits h"] by auto
  with assms show ?thesis by (simp add: server_hello_serialize_def)
qed

definition sample_uuid_lib :: uuid_lib where
  "sample_uuid_lib = \<lparr> get_version_num = (\<lambda>u. unat u div 2 ^ 76 mod 16),
     is_rfc4122 = (\<lambda>u. unat u div 2 ^ 62 mod 4 = 2), parse_str = (\<lambda>_. None) \<rparr>"

definition sample_client_hello :: client_hello where
  "sample_client_hello = \<lparr> ch_protocol_major = 1, ch_protocol_minor = 3,
     ch_client_build = lit ''dm'', ch_client_id = nil_id,
     ch_profile_fingerprint = replicate 32 7, ch_requested = \<lparr> bits = 6 \<rparr>,
     ch_limits = \<lparr> max_physical_frame_bytes = 4096, max_reassembled_message_bytes = 8192,
                   max_page_items = 10, max_page_encoded_bytes = 2000000 \<rparr>,
     ch_reconnect_grant = None \<rparr>"

definition sample_parameters :: negotiated_parameters where
  "sample_parameters = \<lparr> negotiated_version = \<lparr> major = 1, minor = 0 \<rparr>,
     negotiated_client_id = nil_id, negotiated_capabilities = \<lparr> bits = 4 \<rparr>,
     negotiated_limits = \<lparr> max_physical_frame_bytes = 4096, max_reassembled_message_bytes = 8192,
                           max_page_items = 10, max_page_encoded_bytes = 524288 \<rparr> \<rparr>"

definition sample_server_hello :: server_hello where
  "sample_server_hello = \<lparr> sh_protocol_major = 1, sh_protocol_minor = 0,
     sh_server_build = lit ''dm'', sh_host_boot_id = uuid (nil_id :: client_id),
     sh_connection_id = uuid (nil_id :: client_id),
     sh_profile_fingerprint = replicate 32 7, sh_granted = \<lparr> bits = 4 \<rparr>,
     sh_limits = negotiated_limits sample_parameters, sh_reconnect_grant = None \<rparr>"

text \<open>C39. The documents of the handshake and of a transfer survive the wire, and only valid ones do.
  Over any serialisation framework that gives back what it was given, a \<open>ClientHello\<close>, a
  \<open>ServerHello\<close> or a \<open>ChunkFrame\<close> can be sent and read back unchanged if and only if it is valid:
  the hand-written writers refuse every other one, and the strict named-map readers return the
  same document, with every field in its place.
\<close>

theorem wire_documents_roundtrip:
  assumes "serde_values lib"
  shows "((\<exists>v. client_hello_serialize lib h = Inr v \<and> client_hello_deserialize ulib lib v = Inr h)
           \<longleftrightarrow> client_hello_validate h = Inr () \<and> client_hello_typed ulib h) \<and>
         ((\<exists>v. server_hello_serialize ulib lib sh = Inr v \<and>
              server_hello_deserialize ulib lib v = Inr sh)
           \<longleftrightarrow> server_hello_validate ulib sh = Inr () \<and> server_hello_typed sh) \<and>
         ((\<exists>v. chunk_frame_serialize lib f = Inr v \<and> chunk_frame_deserialize ulib lib v = Inr f)
           \<longleftrightarrow> validate_shape f = Inr () \<and> chunk_frame_typed ulib f)"
proof (intro conjI)
  show "(\<exists>v. client_hello_serialize lib h = Inr v \<and> client_hello_deserialize ulib lib v = Inr h)
           \<longleftrightarrow> client_hello_validate h = Inr () \<and> client_hello_typed ulib h"
    using client_hello_serialize_ok[of h lib] client_hello_deserialize_valid[of ulib lib _ h]
      serde_values.client_hello_roundtrip[OF assms, of h _ ulib] by auto
  show "(\<exists>v. server_hello_serialize ulib lib sh = Inr v \<and>
             server_hello_deserialize ulib lib v = Inr sh)
           \<longleftrightarrow> server_hello_validate ulib sh = Inr () \<and> server_hello_typed sh"
    using server_hello_serialize_ok[of ulib sh lib] server_hello_deserialize_valid[of ulib lib _ sh]
      serde_values.server_hello_roundtrip[OF assms, of ulib sh] by auto
  have "validate_shape f = Inr () \<Longrightarrow> \<exists>v. chunk_frame_serialize lib f = Inr v"
    by (simp add: chunk_frame_serialize_def)
  then show "(\<exists>v. chunk_frame_serialize lib f = Inr v \<and> chunk_frame_deserialize ulib lib v = Inr f)
           \<longleftrightarrow> validate_shape f = Inr () \<and> chunk_frame_typed ulib f"
    using chunk_frame_deserialize_valid[of ulib lib _ f]
      serde_values.chunk_frame_roundtrip[OF assms, of f _ ulib]
    by (auto simp: chunk_frame_typed_def)
qed

lemma sample_client_hello_valid:
  "client_hello_validate sample_client_hello = Inr ()"
  "client_hello_typed sample_uuid_lib sample_client_hello"
  by (simp_all add: client_hello_validate_def validate_client_build_def sample_client_hello_def
      validate_offer_def client_hello_typed_def id_valid_def try_from_uuid_def validate_uuid_v7_def
      sample_uuid_lib_def nil_id_def MAX_CLIENT_BUILD_BYTES_def str_bytes_def char_bytes_def lit_def
      len_u64_def Let_def)

lemma sample_server_hello_valid:
  "server_hello_validate sample_uuid_lib sample_server_hello = Inr ()"
  "server_hello_typed sample_server_hello"
  by (simp_all add: server_hello_validate_def validate_server_build_def sample_server_hello_def
      validate_offer_def server_hello_typed_def server_validate_uuid_v7_def sample_parameters_def
      sample_uuid_lib_def nil_id_def MAX_SERVER_BUILD_BYTES_def MAX_CLIENT_BUILD_BYTES_def
      str_bytes_def char_bytes_def lit_def
      len_u64_def Let_def)

lemma sample_chunk_valid:
  "validate_shape (sample_chunk 0 True [] [1]) = Inr ()"
  "chunk_frame_typed sample_uuid_lib (sample_chunk 0 True [] [1])"
  by (simp_all add: validate_shape_def sample_chunk_def chunk_frame_typed_def sample_digest_def
      id_valid_def try_from_uuid_def validate_uuid_v7_def sample_uuid_lib_def nil_id_def chunk_maxima
      len_u64_def Let_def)

theorem wire_documents_roundtrip_witness:
  "(\<exists>v. client_hello_serialize tree_serde sample_client_hello = Inr v \<and>
        client_hello_deserialize sample_uuid_lib tree_serde v = Inr sample_client_hello) \<and>
   (\<exists>v. server_hello_serialize sample_uuid_lib tree_serde sample_server_hello = Inr v \<and>
        server_hello_deserialize sample_uuid_lib tree_serde v = Inr sample_server_hello) \<and>
   (\<exists>v. chunk_frame_serialize tree_serde (sample_chunk 0 True [] [1]) = Inr v \<and>
        chunk_frame_deserialize sample_uuid_lib tree_serde v = Inr (sample_chunk 0 True [] [1]))"
  using wire_documents_roundtrip[OF tree.serde_values_axioms, of sample_client_hello sample_uuid_lib
      sample_server_hello "sample_chunk 0 True [] [1]"]
  by (simp only: sample_client_hello_valid sample_server_hello_valid sample_chunk_valid simp_thms)

section \<open>What a negotiation fixes\<close>

lemma negotiated_fields:
  assumes "client_hello_negotiate h supported local_limits = Inr n"
  shows "ch_protocol_major h = PROTOCOL_MAJOR"
    and "negotiated_version n = \<lparr> major = PROTOCOL_MAJOR, minor = min PROTOCOL_MINOR (ch_protocol_minor h) \<rparr>"
    and "negotiated_client_id n = ch_client_id h"
    and "negotiated_capabilities n = capability_intersection supported (ch_requested h)"
    and "frame_limits_negotiate local_limits (ch_limits h) = Inr (negotiated_limits n)"
  using assms
  by (auto simp: client_hello_negotiate_def rbind_Inr_iff map_err_Inr_iff version_negotiate_def
      version_current_def split: if_splits)

lemma answer_fields:
  assumes "server_hello_from_negotiated ulib now_v7 build boot fingerprint n = Inr sh"
  shows "sh_protocol_major sh = major (negotiated_version n)" "sh_protocol_minor sh = minor (negotiated_version n)"
    and "sh_granted sh = negotiated_capabilities n" "sh_limits sh = negotiated_limits n"
    and "sh_profile_fingerprint sh = fingerprint" "sh_connection_id sh = now_v7" "sh_host_boot_id sh = boot"
    and "server_hello_validate ulib sh = Inr ()"
  using assms by (auto simp: server_hello_from_negotiated_def rbind_Inr_iff Let_def)

lemma sample_negotiation:
  "client_hello_negotiate sample_client_hello \<lparr> bits = 12 \<rparr> v1_default = Inr sample_parameters"
  using sample_client_hello_valid(1)
  by (simp add: client_hello_negotiate_def sample_parameters_def version_negotiate_def
      version_current_def PROTOCOL_MAJOR_def PROTOCOL_MINOR_def frame_limits_negotiate_def
      validate_offer_def v1_default_def hard_limits capability_intersection_def
      sample_client_hello_def min_def)

lemma sample_answer:
  "server_hello_from_negotiated sample_uuid_lib (uuid (nil_id :: client_id)) (lit ''dm'') (uuid (nil_id :: client_id))
     (replicate 32 7) sample_parameters = Inr sample_server_hello"
  using sample_server_hello_valid(1)
  by (simp add: server_hello_from_negotiated_def sample_server_hello_def sample_parameters_def)

end
