(* ===== verification/Wire_MessagePack.thy ===== *)
theory Wire_MessagePack
  imports Wire_Frame
begin

text \<open>
  \<open>src/protocol/envelope.rs\<close>, the MessagePack boundary: the structural preflight that every
  incoming document passes before the deserialiser sees it, the bounded size count, and the browser
  projection envelope.

  The crate \<open>rmp\<close> supplies the marker table and the crate \<open>rmp_serde\<close> the encoder and the decoder;
  they are parameters (\<open>from_u8\<close>, \<open>to_vec_named\<close>, \<open>from_slice\<close>).  The theorems hold for every marker table.
\<close>

section \<open>Bounds and errors\<close>

definition MAX_MESSAGEPACK_DEPTH :: u16 where "MAX_MESSAGEPACK_DEPTH = 32"
definition MAX_MESSAGEPACK_COLLECTION_ITEMS :: u32 where
  "MAX_MESSAGEPACK_COLLECTION_ITEMS = 4096"
definition MAX_MESSAGEPACK_VALUES :: u32 where "MAX_MESSAGEPACK_VALUES = 131072"
definition MESSAGEPACK_STACK_SLOTS :: nat where
  "MESSAGEPACK_STACK_SLOTS = unat MAX_MESSAGEPACK_DEPTH + 1"

lemmas messagepack_bounds = MAX_MESSAGEPACK_DEPTH_def MAX_MESSAGEPACK_COLLECTION_ITEMS_def
  MAX_MESSAGEPACK_VALUES_def

datatype message_pack_length_kind = ArrayLength | MapLength | StringLength | BinaryLength

datatype message_pack_error =
    MpEmpty
  | MpOversized u64 u32
  | DepthExceeded u16
  | DeclaredLengthExceeded message_pack_length_kind u32 u32
  | ValueCountExceeded u32
  | UnsupportedExtension u32
  | ReservedMarker u32
  | Truncated u32
  | TrailingBytes u32
  | MpEncode
  | MpDecode

text \<open>The markers of \<open>rmp::Marker\<close>, with the lengths the short forms carry.\<close>

datatype marker =
    FixPos u8 | FixNeg u8 | FixMap u8 | FixArray u8 | FixStr u8 | MNull | MReserved | MFalse | MTrue
  | Bin8 | Bin16 | Bin32 | Ext8 | Ext16 | Ext32 | MF32 | MF64 | MU8 | MU16 | MU32 | MU64
  | MI8 | MI16 | MI32 | MI64 | FixExt1 | FixExt2 | FixExt4 | FixExt8 | FixExt16
  | Str8 | Str16 | Str32 | Array16 | Array32 | Map16 | Map32

type_synonym marker_table = "u8 \<Rightarrow> marker"

section \<open>The scanner\<close>

record scanner =
  payload :: "u8 list"
  offset :: nat
  scanned :: u32
  max_scalar_bytes :: u32

definition offset_u32 :: "scanner \<Rightarrow> u32" where
  "offset_u32 sc = (if offset sc < 2 ^ 32 then word_of_nat (offset sc) else - 1)"

definition sc_take :: "nat \<Rightarrow> scanner \<Rightarrow> message_pack_error + u8 list \<times> scanner" where
  "sc_take len sc =
     (if \<not> offset sc + len < 2 ^ 64 then Inl (Truncated (offset_u32 sc))
      else if offset sc + len > length (payload sc) then Inl (Truncated (offset_u32 sc))
      else Inr (slice (offset sc) (offset sc + len) (payload sc), sc\<lparr> offset := offset sc + len \<rparr>))"

definition sc_skip :: "nat \<Rightarrow> scanner \<Rightarrow> message_pack_error + scanner" where
  "sc_skip len sc = map_ok snd (sc_take len sc)"

text \<open>\<open>read_u8\<close>, \<open>read_u16\<close> and \<open>read_u32\<close>, widened to \<open>u32\<close> as every caller does.\<close>

definition read_length :: "nat \<Rightarrow> scanner \<Rightarrow> message_pack_error + u32 \<times> scanner" where
  "read_length n sc = map_ok (\<lambda>(bytes, sc1). (from_be_bytes bytes, sc1)) (sc_take n sc)"

definition scan_scalar ::
  "message_pack_length_kind \<Rightarrow> u32 \<Rightarrow> scanner \<Rightarrow> message_pack_error + scanner" where
  "scan_scalar kind len sc =
     (if len > max_scalar_bytes sc then
        Inl (DeclaredLengthExceeded kind len (max_scalar_bytes sc))
      else sc_skip (unat len) sc)"

definition check_collection ::
  "message_pack_length_kind \<Rightarrow> u32 \<Rightarrow> message_pack_error + unit" where
  "check_collection kind len =
     (if len > MAX_MESSAGEPACK_COLLECTION_ITEMS then
        Inl (DeclaredLengthExceeded kind len MAX_MESSAGEPACK_COLLECTION_ITEMS)
      else Inr ())"

definition check_container_depth :: "u16 \<Rightarrow> message_pack_error + unit" where
  "check_container_depth depth =
     (if depth \<ge> MAX_MESSAGEPACK_DEPTH then Inl (DepthExceeded MAX_MESSAGEPACK_DEPTH) else Inr ())"

definition collection_children ::
  "message_pack_length_kind \<Rightarrow> u32 \<Rightarrow> u16 \<Rightarrow> message_pack_error + u32" where
  "collection_children kind len depth =
     rbind (check_container_depth depth) (\<lambda>_. rbind (check_collection kind len) (\<lambda>_. Inr len))"

definition checked_mul :: "'a::len word \<Rightarrow> 'a word \<Rightarrow> 'a word option" where
  "checked_mul x y = (if unat x * unat y < 2 ^ LENGTH('a) then Some (x * y) else None)"

definition map_children :: "u32 \<Rightarrow> u16 \<Rightarrow> message_pack_error + u32" where
  "map_children len depth =
     rbind (check_container_depth depth) (\<lambda>_. rbind (check_collection MapLength len) (\<lambda>_.
       ok_or (checked_mul len 2)
         (DeclaredLengthExceeded MapLength len MAX_MESSAGEPACK_COLLECTION_ITEMS)))"

text \<open>The arms of \<open>scan_one_value\<close> that carry a length field of \<open>n\<close> bytes.\<close>

definition sized_scalar ::
  "message_pack_length_kind \<Rightarrow> nat \<Rightarrow> scanner \<Rightarrow> message_pack_error + u32 \<times> scanner" where
  "sized_scalar kind n sc = rbind (read_length n sc) (\<lambda>(len, sc1).
     map_ok (\<lambda>sc2. (0, sc2)) (scan_scalar kind len sc1))"

definition sized_container ::
  "(u32 \<Rightarrow> u16 \<Rightarrow> message_pack_error + u32) \<Rightarrow> u16 \<Rightarrow> nat \<Rightarrow> scanner
     \<Rightarrow> message_pack_error + u32 \<times> scanner" where
  "sized_container children depth n sc = rbind (read_length n sc) (\<lambda>(len, sc1).
     map_ok (\<lambda>c. (c, sc1)) (children len depth))"

definition scan_marker ::
  "u32 \<Rightarrow> u16 \<Rightarrow> marker \<Rightarrow> scanner \<Rightarrow> message_pack_error + u32 \<times> scanner" where
  "scan_marker marker_offset depth m sc =
     (let scalar = \<lambda>n. map_ok (\<lambda>sc1. (0, sc1)) (sc_skip n sc);
          ext = Inl (UnsupportedExtension marker_offset) in
      case m of
        FixPos _ \<Rightarrow> Inr (0, sc) | FixNeg _ \<Rightarrow> Inr (0, sc) | MNull \<Rightarrow> Inr (0, sc)
      | MFalse \<Rightarrow> Inr (0, sc) | MTrue \<Rightarrow> Inr (0, sc)
      | MReserved \<Rightarrow> Inl (ReservedMarker marker_offset)
      | FixExt1 \<Rightarrow> ext | FixExt2 \<Rightarrow> ext | FixExt4 \<Rightarrow> ext | FixExt8 \<Rightarrow> ext | FixExt16 \<Rightarrow> ext
      | Ext8 \<Rightarrow> ext | Ext16 \<Rightarrow> ext | Ext32 \<Rightarrow> ext
      | MF32 \<Rightarrow> scalar 4 | MU32 \<Rightarrow> scalar 4 | MI32 \<Rightarrow> scalar 4
      | MF64 \<Rightarrow> scalar 8 | MU64 \<Rightarrow> scalar 8 | MI64 \<Rightarrow> scalar 8
      | MU8 \<Rightarrow> scalar 1 | MI8 \<Rightarrow> scalar 1
      | MU16 \<Rightarrow> scalar 2 | MI16 \<Rightarrow> scalar 2
      | FixStr len \<Rightarrow> map_ok (\<lambda>sc1. (0, sc1)) (scan_scalar StringLength (ucast len) sc)
      | Str8 \<Rightarrow> sized_scalar StringLength 1 sc
      | Str16 \<Rightarrow> sized_scalar StringLength 2 sc
      | Str32 \<Rightarrow> sized_scalar StringLength 4 sc
      | Bin8 \<Rightarrow> sized_scalar BinaryLength 1 sc
      | Bin16 \<Rightarrow> sized_scalar BinaryLength 2 sc
      | Bin32 \<Rightarrow> sized_scalar BinaryLength 4 sc
      | FixArray len \<Rightarrow> map_ok (\<lambda>c. (c, sc)) (collection_children ArrayLength (ucast len) depth)
      | Array16 \<Rightarrow> sized_container (collection_children ArrayLength) depth 2 sc
      | Array32 \<Rightarrow> sized_container (collection_children ArrayLength) depth 4 sc
      | FixMap len \<Rightarrow> map_ok (\<lambda>c. (c, sc)) (map_children (ucast len) depth)
      | Map16 \<Rightarrow> sized_container map_children depth 2 sc
      | Map32 \<Rightarrow> sized_container map_children depth 4 sc)"

definition scan_one_value ::
  "marker_table \<Rightarrow> u16 \<Rightarrow> scanner \<Rightarrow> message_pack_error + u32 \<times> scanner" where
  "scan_one_value from_u8 depth sc =
     rbind (ok_or (checked_add (scanned sc) 1) (ValueCountExceeded MAX_MESSAGEPACK_VALUES)) (\<lambda>v.
     if v > MAX_MESSAGEPACK_VALUES then Inl (ValueCountExceeded MAX_MESSAGEPACK_VALUES)
     else let sc1 = sc\<lparr> scanned := v \<rparr>; marker_offset = offset_u32 sc1 in
       rbind (sc_take 1 sc1) (\<lambda>(bytes, sc2).
         scan_marker marker_offset depth (from_u8 (bytes ! 0)) sc2))"

definition depth_u16 :: "nat \<Rightarrow> u16" where
  "depth_u16 depth = (if depth < 2 ^ 16 then word_of_nat depth else - 1)"

lemma sc_take_keeps:
  "sc_take n sc = Inr (bs, sc1) \<Longrightarrow> scanned sc1 = scanned sc"
  by (auto simp: sc_take_def split: if_splits)

lemma scan_marker_keeps:
  "scan_marker mo d m sc = Inr (c, sc1) \<Longrightarrow> scanned sc1 = scanned sc"
  by (cases m)
    (auto simp: scan_marker_def Let_def sc_skip_def scan_scalar_def sized_scalar_def
      sized_container_def read_length_def result_simps dest!: sc_take_keeps split: if_splits)

lemma scan_one_value_counts:
  assumes "scan_one_value from_u8 d sc = Inr (c, sc1)"
  shows "unat (scanned sc1) = Suc (unat (scanned sc)) \<and> unat (scanned sc1) \<le> 131072"
proof -
  obtain v where v: "checked_add (scanned sc) 1 = Some v" "v \<le> MAX_MESSAGEPACK_VALUES"
      and s: "scanned sc1 = v"
    using assms
    by (auto simp: scan_one_value_def result_simps Let_def not_less
        dest!: scan_marker_keeps sc_take_keeps split: if_splits)
  show ?thesis
    using checked_add_SomeD[OF v(1)] v(2) s by (simp add: messagepack_bounds word_le_nat_alt)
qed

text \<open>
  The loop of \<open>scan_document\<close>, with its fixed array of remaining counts.  It ends because each
  turn either leaves a level or counts a value, and the count is bounded.
\<close>

function scan_loop ::
  "marker_table \<Rightarrow> scanner \<Rightarrow> u32 list \<Rightarrow> nat \<Rightarrow> message_pack_error + scanner" where
  "scan_loop from_u8 sc remaining depth =
     (if remaining ! depth = 0 then
        (if depth = 0 then Inr sc else scan_loop from_u8 sc remaining (depth - 1))
      else
        let remaining1 = remaining[depth := remaining ! depth - 1] in
        case scan_one_value from_u8 (depth_u16 depth) sc of
          Inl e \<Rightarrow> Inl e
        | Inr (children, sc1) \<Rightarrow>
            if children \<noteq> 0 then
              (if depth \<ge> unat MAX_MESSAGEPACK_DEPTH then Inl (DepthExceeded MAX_MESSAGEPACK_DEPTH)
               else scan_loop from_u8 sc1 (remaining1[depth + 1 := children]) (depth + 1))
            else scan_loop from_u8 sc1 remaining1 depth)"
  by pat_completeness auto
termination
proof (relation "measures [\<lambda>(_, sc, _, _). 131072 - unat (scanned sc), \<lambda>(_, _, _, depth). depth]")
qed (auto dest!: scan_one_value_counts)

declare scan_loop.simps [simp del]

definition scan_document :: "marker_table \<Rightarrow> scanner \<Rightarrow> message_pack_error + unit" where
  "scan_document from_u8 sc =
     rbind (scan_loop from_u8 sc ((replicate MESSAGEPACK_STACK_SLOTS 0)[0 := 1]) 0) (\<lambda>sc1.
       if offset sc1 \<noteq> length (payload sc1) then Inl (TrailingBytes (offset_u32 sc1)) else Inr ())"

section \<open>The codec\<close>

record message_pack_codec =
  max_document_bytes :: u32

definition message_pack_from_limits :: "frame_limits \<Rightarrow> frame_limits_error + message_pack_codec" where
  "message_pack_from_limits l = rbind (validate_offer l) (\<lambda>_. Inr
     \<lparr> max_document_bytes = min (max_physical_frame_bytes l) MAX_PHYSICAL_FRAME_BYTES \<rparr>)"

definition preflight :: "marker_table \<Rightarrow> message_pack_codec \<Rightarrow> u8 list \<Rightarrow> message_pack_error + unit" where
  "preflight from_u8 c bytes =
     (let declared = len_u64 bytes in
      if declared = 0 then Inl MpEmpty
      else if declared > ucast (max_document_bytes c) then
        Inl (MpOversized declared (max_document_bytes c))
      else scan_document from_u8 \<lparr> payload = bytes, offset = 0, scanned = 0,
             max_scalar_bytes = max_document_bytes c \<rparr>)"

text \<open>
  \<open>rmp_serde\<close>: the encoder gives bytes or fails; the decoder, bounded to a nesting of
  \<open>MAX_MESSAGEPACK_DEPTH + 1\<close>, gives a value and the position it stopped at, or fails.
\<close>

definition message_pack_encode ::
  "marker_table \<Rightarrow> ('t \<Rightarrow> u8 list option) \<Rightarrow> message_pack_codec \<Rightarrow> 't \<Rightarrow> message_pack_error + u8 list" where
  "message_pack_encode from_u8 to_vec_named c value =
     rbind (ok_or (to_vec_named value) MpEncode) (\<lambda>encoded.
     rbind (preflight from_u8 c encoded) (\<lambda>_. Inr encoded))"

definition pos_u32 :: "nat \<Rightarrow> u32" where
  "pos_u32 n = (if n < 2 ^ 32 then word_of_nat n else - 1)"

definition message_pack_decode ::
  "marker_table \<Rightarrow> (nat \<Rightarrow> u8 list \<Rightarrow> ('t \<times> nat) option) \<Rightarrow> message_pack_codec \<Rightarrow> u8 list
     \<Rightarrow> message_pack_error + 't" where
  "message_pack_decode from_u8 from_slice c bytes =
     rbind (preflight from_u8 c bytes) (\<lambda>_.
     rbind (ok_or (from_slice (unat MAX_MESSAGEPACK_DEPTH + 1) bytes) MpDecode) (\<lambda>(value, position).
       if pos_u32 position \<noteq> pos_u32 (length bytes) then Inl (TrailingBytes (pos_u32 position))
       else Inr value))"

record counting_writer =
  written :: nat
  maximum :: nat
  exceeded :: bool

definition counting_writer_new :: "u32 \<Rightarrow> counting_writer" where
  "counting_writer_new m = \<lparr> written = 0, maximum = unat m, exceeded = False \<rparr>"

definition saturating_add_usize :: "nat \<Rightarrow> nat \<Rightarrow> nat" where
  "saturating_add_usize x y = min (x + y) (2 ^ 64 - 1)"

definition counting_write :: "counting_writer \<Rightarrow> u8 list \<Rightarrow> (error_kind + nat) \<times> counting_writer" where
  "counting_write w bytes =
     (if saturating_add_usize (written w) (length bytes) > maximum w then
        (Inl WriteZero, w\<lparr> exceeded := True, written := saturating_add_usize (maximum w) 1 \<rparr>)
      else (Inr (length bytes), w\<lparr> written := written w + length bytes \<rparr>))"

text \<open>
  The serialiser (\<open>rmp_serde\<close>) writes to the counting writer; \<open>serialize\<close> is the parameter that
  drives it and says whether it succeeded.
\<close>

definition encoded_len_bounded ::
  "(counting_writer \<Rightarrow> 't \<Rightarrow> bool \<times> counting_writer) \<Rightarrow> message_pack_codec \<Rightarrow> 't \<Rightarrow> u32
     \<Rightarrow> message_pack_error + u32" where
  "encoded_len_bounded serialize c value max_bytes =
     (let bound = min max_bytes (max_document_bytes c);
          (ok, writer) = serialize (counting_writer_new bound) value in
      if exceeded writer then Inl (MpOversized (word_of_nat (written writer)) bound)
      else if \<not> ok then Inl MpEncode
      else if written writer < 2 ^ 32 then Inr (word_of_nat (written writer))
      else Inl (MpOversized (word_of_nat (written writer)) bound))"

section \<open>Browser projection envelope\<close>

datatype browser_projection_envelope_error = StaleGeneration | ZeroFence | PayloadTooLarge

record browser_projection_envelope =
  bp_generation :: u64
  bp_bounds_epoch :: u64
  bp_focus_epoch :: u64
  bp_frame_id :: u64
  bp_payload_kind :: u16
  bp_payload_sha256 :: "u8 list"

definition browser_projection_envelope_new ::
  "(u8 list \<Rightarrow> u8 list) \<Rightarrow> u64 \<Rightarrow> u64 \<Rightarrow> u64 \<Rightarrow> u64 \<Rightarrow> u16 \<Rightarrow> u8 list
     \<Rightarrow> browser_projection_envelope_error + browser_projection_envelope" where
  "browser_projection_envelope_new sha generation bounds_epoch focus_epoch frame_id kind bytes =
     (if generation = 0 \<or> bounds_epoch = 0 \<or> focus_epoch = 0 \<or> frame_id = 0 then Inl ZeroFence
      else if kind = 0 then Inl ZeroFence
      else if length bytes > unat MAX_PHYSICAL_FRAME_BYTES then Inl PayloadTooLarge
      else Inr \<lparr> bp_generation = generation, bp_bounds_epoch = bounds_epoch,
                 bp_focus_epoch = focus_epoch, bp_frame_id = frame_id, bp_payload_kind = kind,
                 bp_payload_sha256 = sha bytes \<rparr>)"

definition matches_generation ::
  "browser_projection_envelope \<Rightarrow> u64 \<Rightarrow> browser_projection_envelope_error + unit" where
  "matches_generation e generation =
     (if generation = 0 \<or> bp_generation e \<noteq> generation then Inl StaleGeneration else Inr ())"

section \<open>What a bounded document is\<close>

text \<open>
  The reference: the first value at the front of some bytes, as the number of bytes of its own
  (marker, length field and scalar content), the number of values it contains, and whether it
  is a container.
\<close>

definition fixed_head :: "nat \<Rightarrow> u8 list \<Rightarrow> (nat \<times> nat \<times> bool) option" where
  "fixed_head n rest = (if n \<le> length rest then Some (1 + n, 0, False) else None)"

definition scalar_head :: "nat \<Rightarrow> nat \<Rightarrow> u8 list \<Rightarrow> (nat \<times> nat \<times> bool) option" where
  "scalar_head limit k rest =
     (let len = be_value (take k rest) in
      if k + len \<le> length rest \<and> len \<le> limit then Some (1 + k + len, 0, False) else None)"

definition container_head :: "nat \<Rightarrow> nat \<Rightarrow> u8 list \<Rightarrow> (nat \<times> nat \<times> bool) option" where
  "container_head per_item k rest =
     (let len = be_value (take k rest) in
      if k \<le> length rest \<and> len \<le> 4096 then Some (1 + k, per_item * len, True) else None)"

definition marker_head :: "nat \<Rightarrow> marker \<Rightarrow> u8 list \<Rightarrow> (nat \<times> nat \<times> bool) option" where
  "marker_head limit m rest = (case m of
      FixPos _ \<Rightarrow> fixed_head 0 rest | FixNeg _ \<Rightarrow> fixed_head 0 rest | MNull \<Rightarrow> fixed_head 0 rest
    | MFalse \<Rightarrow> fixed_head 0 rest | MTrue \<Rightarrow> fixed_head 0 rest
    | MU8 \<Rightarrow> fixed_head 1 rest | MI8 \<Rightarrow> fixed_head 1 rest
    | MU16 \<Rightarrow> fixed_head 2 rest | MI16 \<Rightarrow> fixed_head 2 rest
    | MU32 \<Rightarrow> fixed_head 4 rest | MI32 \<Rightarrow> fixed_head 4 rest | MF32 \<Rightarrow> fixed_head 4 rest
    | MU64 \<Rightarrow> fixed_head 8 rest | MI64 \<Rightarrow> fixed_head 8 rest | MF64 \<Rightarrow> fixed_head 8 rest
    | FixStr len \<Rightarrow> (if unat len \<le> limit then fixed_head (unat len) rest else None)
    | Str8 \<Rightarrow> scalar_head limit 1 rest | Bin8 \<Rightarrow> scalar_head limit 1 rest
    | Str16 \<Rightarrow> scalar_head limit 2 rest | Bin16 \<Rightarrow> scalar_head limit 2 rest
    | Str32 \<Rightarrow> scalar_head limit 4 rest | Bin32 \<Rightarrow> scalar_head limit 4 rest
    | FixArray len \<Rightarrow> Some (1, unat len, True)
    | Array16 \<Rightarrow> container_head 1 2 rest | Array32 \<Rightarrow> container_head 1 4 rest
    | FixMap len \<Rightarrow> Some (1, 2 * unat len, True)
    | Map16 \<Rightarrow> container_head 2 2 rest | Map32 \<Rightarrow> container_head 2 4 rest
    | _ \<Rightarrow> None)"

definition mp_head :: "marker_table \<Rightarrow> nat \<Rightarrow> u8 list \<Rightarrow> (nat \<times> nat \<times> bool) option" where
  "mp_head from_u8 limit bs =
     (case bs of [] \<Rightarrow> None | b # rest \<Rightarrow> marker_head limit (from_u8 b) rest)"

text \<open>A document tree: a value's own bytes and the values it contains.\<close>

datatype mp = Mp "u8 list" "mp list"

fun mp_bytes :: "mp \<Rightarrow> u8 list" where
  "mp_bytes (Mp own kids) = own @ concat (map mp_bytes kids)"

fun mp_count :: "mp \<Rightarrow> nat" where
  "mp_count (Mp own kids) = Suc (sum_list (map mp_count kids))"

fun mp_ok :: "marker_table \<Rightarrow> nat \<Rightarrow> nat \<Rightarrow> mp \<Rightarrow> bool" where
  "mp_ok from_u8 limit depth (Mp own kids) =
     ((case mp_head from_u8 limit own of
         None \<Rightarrow> False
       | Some (n, c, container) \<Rightarrow> n = length own \<and> c = length kids \<and> (container \<longrightarrow> 0 < depth)) \<and>
      list_all (mp_ok from_u8 limit (depth - 1)) kids)"

text \<open>The first value is found by its own bytes, whatever follows.\<close>

lemma u8_small: "unat (x :: u8) \<le> 4096" "unat (x :: u8) \<le> 8192"
  using unsigned_less[of x, where ?'a = nat] by simp_all

lemma marker_head_append:
  assumes "marker_head limit m bs = Some (n, c, k)"
  obtains n' where "n = Suc n'" and "n' \<le> length bs"
    and "marker_head limit m (take n' bs @ rest) = Some (n, c, k)" and "\<not> k \<Longrightarrow> c = 0"
    and "c \<le> 8192"
proof
  note unfold = marker_head_def fixed_head_def scalar_head_def container_head_def Let_def
  show n: "n = Suc (n - 1)" and le: "n - 1 \<le> length bs" and "\<not> k \<Longrightarrow> c = 0" and "c \<le> 8192"
    using assms by (auto simp: unfold u8_small split: marker.splits if_splits)
  show "marker_head limit m (take (n - 1) bs @ rest) = Some (n, c, k)"
    using assms by (cases m) (auto simp: unfold min_def split: if_splits)
qed

lemma mp_head_append:
  assumes "mp_head from_u8 limit bs = Some (n, c, k)"
  shows "n \<le> length bs" and "0 < n" and "mp_head from_u8 limit (take n bs @ rest) = Some (n, c, k)"
    and "\<not> k \<Longrightarrow> c = 0" and "c \<le> 8192"
proof -
  obtain b bs' where bs: "bs = b # bs'" "marker_head limit (from_u8 b) bs' = Some (n, c, k)"
    using assms by (cases bs) (auto simp: mp_head_def)
  obtain n' where n': "n = Suc n'" "n' \<le> length bs'"
      "marker_head limit (from_u8 b) (take n' bs' @ rest) = Some (n, c, k)" "\<not> k \<Longrightarrow> c = 0" "c \<le> 8192"
    using marker_head_append[OF bs(2)] by blast
  then show "n \<le> length bs" "0 < n" "\<not> k \<Longrightarrow> c = 0" "c \<le> 8192"
      "mp_head from_u8 limit (take n bs @ rest) = Some (n, c, k)"
    by (simp_all add: bs mp_head_def)
qed

section \<open>One value\<close>

definition scanner_ok :: "scanner \<Rightarrow> bool" where
  "scanner_ok sc \<longleftrightarrow> length (payload sc) < 2 ^ 64 \<and> offset sc \<le> length (payload sc)"

abbreviation ahead :: "scanner \<Rightarrow> u8 list" where
  "ahead sc \<equiv> drop (offset sc) (payload sc)"

lemma sc_take_iff:
  assumes "scanner_ok sc"
  shows "sc_take n sc = Inr (bs, sc1) \<longleftrightarrow>
     n \<le> length (ahead sc) \<and> bs = take n (ahead sc) \<and> sc1 = sc\<lparr> offset := offset sc + n \<rparr>"
  using assms by (auto simp: sc_take_def scanner_ok_def slice_def)

lemma sc_skip_iff:
  assumes "scanner_ok sc"
  shows "sc_skip n sc = Inr sc1 \<longleftrightarrow> n \<le> length (ahead sc) \<and> sc1 = sc\<lparr> offset := offset sc + n \<rparr>"
  using sc_take_iff[OF assms, of n] by (auto simp: sc_skip_def map_ok_Inr_iff)

lemma scan_scalar_iff:
  assumes "scanner_ok sc"
  shows "scan_scalar kind len sc = Inr sc1 \<longleftrightarrow> unat len \<le> unat (max_scalar_bytes sc) \<and>
     unat len \<le> length (ahead sc) \<and> sc1 = sc\<lparr> offset := offset sc + unat len \<rparr>"
  using sc_skip_iff[OF assms] by (auto simp: scan_scalar_def word_less_nat_alt)

lemma unat_from_be_bytes_u32:
  assumes "length bs \<le> 4"
  shows "unat (from_be_bytes bs :: u32) = be_value bs"
proof -
  have "be_value bs < 256 ^ length bs" by (rule be_value_bound)
  also have "\<dots> \<le> (256 :: nat) ^ 4" using assms by (intro power_increasing) simp_all
  finally show ?thesis by (simp add: from_be_bytes_def unat_of_nat)
qed

lemma read_length_iff:
  assumes "scanner_ok sc" and "n \<le> 4"
  shows "read_length n sc = Inr (len, sc1) \<longleftrightarrow> n \<le> length (ahead sc) \<and>
     unat len = be_value (take n (ahead sc)) \<and> sc1 = sc\<lparr> offset := offset sc + n \<rparr>"
proof -
  have "unat (from_be_bytes (take n (ahead sc)) :: u32) = be_value (take n (ahead sc))"
    using assms(2) by (intro unat_from_be_bytes_u32) simp
  then show ?thesis
    using sc_take_iff[OF assms(1), of n]
    by (auto simp: read_length_def map_ok_Inr_iff word_unat_eq_iff)
qed

lemma read_length_some:
  assumes "scanner_ok sc" and "n \<le> 4" and "n \<le> length (ahead sc)"
  shows "\<exists>len. unat len = be_value (take n (ahead sc)) \<and>
           read_length n sc = Inr (len, sc\<lparr> offset := offset sc + n \<rparr>)"
proof -
  have "unat (from_be_bytes (take n (ahead sc)) :: u32) = be_value (take n (ahead sc))"
    using assms(2) by (intro unat_from_be_bytes_u32) simp
  then show ?thesis using read_length_iff[OF assms(1,2)] assms(3) by metis
qed

lemma collection_children_iff:
  "collection_children kind len d = Inr c \<longleftrightarrow> unat d < 32 \<and> unat len \<le> 4096 \<and> c = len"
  by (auto simp: collection_children_def check_container_depth_def check_collection_def
      messagepack_bounds word_le_nat_alt word_less_nat_alt rbind_Inr_iff)

lemma map_children_iff:
  "map_children len d = Inr c \<longleftrightarrow> unat d < 32 \<and> unat len \<le> 4096 \<and> unat c = 2 * unat len"
proof (cases "unat len \<le> 4096")
  case True
  then have "checked_mul len 2 = Some (len * 2)" "unat (len * 2) = 2 * unat len"
    by (simp_all add: checked_mul_def unat_word_ariths)
  then show ?thesis
    by (auto simp: map_children_def check_container_depth_def check_collection_def word_unat_eq_iff
        messagepack_bounds word_le_nat_alt word_less_nat_alt rbind_Inr_iff)
qed (auto simp: map_children_def check_collection_def messagepack_bounds word_less_nat_alt rbind_Inr_iff)

lemma sized_scalar_iff:
  assumes "scanner_ok sc" and "n \<le> 4"
  shows "sized_scalar kind n sc = Inr (c, sc1) \<longleftrightarrow>
     (\<exists>m. scalar_head (unat (max_scalar_bytes sc)) n (ahead sc) = Some (Suc m, unat c, False) \<and>
          sc1 = sc\<lparr> offset := offset sc + m \<rparr>)"
proof -
  have ok: "n \<le> length (ahead sc) \<Longrightarrow> scanner_ok (sc\<lparr> offset := offset sc + n \<rparr>)"
    using assms(1) by (auto simp: scanner_ok_def)
  show ?thesis
  proof (cases "n \<le> length (ahead sc)")
    case True
    obtain len where len: "unat len = be_value (take n (ahead sc))"
        "read_length n sc = Inr (len, sc\<lparr> offset := offset sc + n \<rparr>)"
      using read_length_some[OF assms(1,2) True] by blast
    then show ?thesis
      using True scan_scalar_iff[OF ok[OF True]]
      by (auto simp: sized_scalar_def scalar_head_def map_ok_Inr_iff Let_def unat_eq_zero)
  next
    case False
    then have "\<nexists>x. read_length n sc = Inr x" using read_length_iff[OF assms] by auto
    with False show ?thesis
      by (auto simp: sized_scalar_def scalar_head_def rbind_Inr_iff Let_def)
  qed
qed

lemma sized_container_iff:
  assumes "scanner_ok sc" and "n \<le> 4"
    and children: "\<And>len c. f len d = Inr c \<longleftrightarrow> unat d < 32 \<and> unat len \<le> 4096 \<and> unat c = w * unat len"
    and w: "w \<le> 2"
  shows "sized_container f d n sc = Inr (c, sc1) \<longleftrightarrow>
     unat d < 32 \<and> (\<exists>m. container_head w n (ahead sc) = Some (Suc m, unat c, True) \<and>
          sc1 = sc\<lparr> offset := offset sc + m \<rparr>)"
proof (cases "n \<le> length (ahead sc)")
  case True
  obtain len where len: "unat len = be_value (take n (ahead sc))"
      "read_length n sc = Inr (len, sc\<lparr> offset := offset sc + n \<rparr>)"
    using read_length_some[OF assms(1,2) True] by blast
  with True show ?thesis
    by (auto simp: sized_container_def container_head_def map_ok_Inr_iff children Let_def)
next
  case False
  then have "\<nexists>x. read_length n sc = Inr x" using read_length_iff[OF assms(1,2)] by auto
  with False show ?thesis
    by (auto simp: sized_container_def container_head_def rbind_Inr_iff Let_def)
qed

lemma scan_marker_iff:
  assumes "scanner_ok sc"
  shows "scan_marker mo d m sc = Inr (c, sc1) \<longleftrightarrow>
     (\<exists>n k. marker_head (unat (max_scalar_bytes sc)) m (ahead sc) = Some (Suc n, unat c, k) \<and>
            (k \<longrightarrow> unat d < 32) \<and> sc1 = sc\<lparr> offset := offset sc + n \<rparr>)"
proof -
  have u8: "unat (ucast (x :: u8) :: u32) = unat x" for x
    using unsigned_less[of x, where ?'a = nat] by (simp add: unsigned_ucast_eq take_bit_nat_eq_self)
  have array: "collection_children kind len d = Inr c \<longleftrightarrow>
      unat d < 32 \<and> unat len \<le> 4096 \<and> unat c = 1 * unat len" for kind len c
    by (auto simp: collection_children_iff word_unat_eq_iff)
  have zero: "unat c = 0 \<longleftrightarrow> c = 0" "0 = unat c \<longleftrightarrow> c = 0" for c :: u32
    by (auto simp: unat_eq_zero)
  have same: "sc\<lparr> offset := offset sc \<rparr> = sc" by simp
  note iffs = sc_skip_iff[OF assms] scan_scalar_iff[OF assms] sized_scalar_iff[OF assms]
    sized_container_iff[where f = "collection_children ArrayLength" and w = 1, OF assms _ array]
    sized_container_iff[where f = map_children and w = 2, OF assms _ map_children_iff]
    array map_children_iff map_ok_Inr_iff
  show ?thesis
    by (cases m; simp add: scan_marker_def marker_head_def fixed_head_def Let_def iffs u8 u8_small
        zero same; (auto simp: zero scalar_head_def container_head_def Let_def split: if_splits)?)
qed

lemma scan_one_value_iff:
  assumes "scanner_ok sc" and "unat (scanned sc) \<le> 131072"
  shows "scan_one_value from_u8 d sc = Inr (c, sc1) \<longleftrightarrow> unat (scanned sc) < 131072 \<and>
     (\<exists>n k. mp_head from_u8 (unat (max_scalar_bytes sc)) (ahead sc) = Some (n, unat c, k) \<and>
            (k \<longrightarrow> unat d < 32) \<and>
            sc1 = sc\<lparr> scanned := scanned sc + 1, offset := offset sc + n \<rparr>)"
proof (cases "unat (scanned sc) < 131072")
  case less: True
  let ?sc1 = "sc\<lparr> scanned := scanned sc + 1 \<rparr>"
  have v: "checked_add (scanned sc) 1 = Some (scanned sc + 1)"
      "unat (scanned sc + 1) = Suc (unat (scanned sc))"
    using less by (simp_all add: checked_add_def unat_word_ariths)
  then have le: "\<not> scanned sc + 1 > MAX_MESSAGEPACK_VALUES"
    using less by (simp add: messagepack_bounds word_less_nat_alt)
  have ok1: "scanner_ok ?sc1" using assms(1) by (simp add: scanner_ok_def)
  show ?thesis
  proof (cases "ahead sc")
    case Nil
    then have "\<nexists>x. sc_take 1 ?sc1 = Inr x" using sc_take_iff[OF ok1, of 1] by auto
    with Nil less v le show ?thesis
      by (auto simp: scan_one_value_def mp_head_def rbind_Inr_iff Let_def)
  next
    case (Cons b rest)
    let ?sc2 = "?sc1\<lparr> offset := offset sc + 1 \<rparr>"
    have take: "sc_take 1 ?sc1 = Inr ([b], ?sc2)"
      using sc_take_iff[OF ok1, of 1 "[b]" ?sc2] Cons by simp
    have "offset sc < length (payload sc)"
      using Cons by (metis drop_all list.distinct(1) not_le)
    then have ok2: "scanner_ok ?sc2" using assms(1) by (simp add: scanner_ok_def)
    have rest: "ahead ?sc2 = rest" using Cons by (simp add: drop_Suc flip: tl_drop)
    let ?head = "marker_head (unat (max_scalar_bytes sc)) (from_u8 b) rest"
    have "scan_one_value from_u8 d sc = scan_marker (offset_u32 ?sc1) d (from_u8 b) ?sc2"
      using v le take by (simp add: scan_one_value_def Let_def)
    then have "scan_one_value from_u8 d sc = Inr (c, sc1) \<longleftrightarrow>
        (\<exists>n k. ?head = Some (Suc n, unat c, k) \<and> (k \<longrightarrow> unat d < 32) \<and>
               sc1 = sc\<lparr> scanned := scanned sc + 1, offset := offset sc + Suc n \<rparr>)"
      using scan_marker_iff[OF ok2, of _ d "from_u8 b" c sc1] rest by simp
    also have "\<dots> \<longleftrightarrow> (\<exists>n k. ?head = Some (n, unat c, k) \<and> (k \<longrightarrow> unat d < 32) \<and>
               sc1 = sc\<lparr> scanned := scanned sc + 1, offset := offset sc + n \<rparr>)"
      by (metis marker_head_append)
    finally show ?thesis using less Cons by (simp add: mp_head_def)
  qed
next
  case False
  then have "scanned sc = MAX_MESSAGEPACK_VALUES"
    using assms(2) by (simp add: messagepack_bounds word_unat_eq_iff)
  with False show ?thesis
    by (auto simp: scan_one_value_def checked_add_def messagepack_bounds rbind_Inr_iff)
qed

section \<open>The loop\<close>

text \<open>The levels at which values are still due, the next one first.\<close>

fun due :: "u32 list \<Rightarrow> nat \<Rightarrow> nat list" where
  "due remaining 0 = replicate (unat (remaining ! 0)) 0"
| "due remaining (Suc d) = replicate (unat (remaining ! Suc d)) (Suc d) @ due remaining d"

lemma due_update_above: "d < j \<Longrightarrow> due (remaining[j := x]) d = due remaining d"
  by (induction d) auto

lemma due_leave: "remaining ! d = 0 \<Longrightarrow> 0 < d \<Longrightarrow> due remaining d = due remaining (d - 1)"
  by (cases d) auto

lemma due_next:
  assumes "remaining ! d \<noteq> 0" and "d < length remaining"
  shows "due remaining d = d # due (remaining[d := remaining ! d - 1]) d"
proof -
  have "0 < unat (remaining ! d)" using assms(1) by (simp add: unat_gt_0)
  then have "unat (remaining ! d) = Suc (unat (remaining ! d - 1))"
    using assms(1) by (simp add: unat_minus_one)
  then show ?thesis using assms(2) by (cases d) (simp_all add: due_update_above)
qed

lemma due_enter:
  "Suc d < length remaining \<Longrightarrow>
   due (remaining[Suc d := c]) (Suc d) = replicate (unat c) (Suc d) @ due remaining d"
  by (simp add: due_update_above)

definition due_ok :: "marker_table \<Rightarrow> nat \<Rightarrow> nat list \<Rightarrow> mp list \<Rightarrow> bool" where
  "due_ok from_u8 limit ds ts \<longleftrightarrow> list_all2 (\<lambda>d t. mp_ok from_u8 limit (32 - d) t) ds ts"

abbreviation forest_bytes :: "mp list \<Rightarrow> u8 list" where
  "forest_bytes ts \<equiv> concat (map mp_bytes ts)"

abbreviation forest_count :: "mp list \<Rightarrow> nat" where
  "forest_count ts \<equiv> sum_list (map mp_count ts)"

text \<open>The front of a forest is a value's own bytes and a forest again.\<close>

lemma due_ok_Cons:
  "(\<exists>ts. due_ok from_u8 limit (d # ds) ts \<and> bs = forest_bytes ts @ rest \<and> forest_count ts = m) \<longleftrightarrow>
   (\<exists>n c k m' ts. mp_head from_u8 limit bs = Some (n, c, k) \<and> (k \<longrightarrow> d < 32) \<and> m = Suc m' \<and>
      due_ok from_u8 limit (replicate c (Suc d) @ ds) ts \<and> drop n bs = forest_bytes ts @ rest \<and>
      forest_count ts = m')"
  (is "?lhs \<longleftrightarrow> ?rhs")
proof
  assume ?lhs
  then obtain t ts where "mp_ok from_u8 limit (32 - d) t" "due_ok from_u8 limit ds ts"
      "bs = mp_bytes t @ forest_bytes ts @ rest" "m = mp_count t + forest_count ts"
    by (auto simp: due_ok_def list_all2_Cons1)
  then obtain own kids where t: "mp_ok from_u8 limit (32 - d) (Mp own kids)"
      "due_ok from_u8 limit ds ts" "bs = own @ forest_bytes kids @ forest_bytes ts @ rest"
      "m = Suc (forest_count kids + forest_count ts)"
    by (cases t) simp
  obtain c k where h: "mp_head from_u8 limit own = Some (length own, c, k)" "c = length kids"
      "k \<longrightarrow> d < 32" "list_all (mp_ok from_u8 limit (32 - Suc d)) kids"
    using t(1) by (auto split: option.splits)
  have "due_ok from_u8 limit (replicate c (Suc d) @ ds) (kids @ ts)"
    using h(2,4) t(2) unfolding due_ok_def
    by (intro list_all2_appendI) (auto simp: list_all2_conv_all_nth list_all_length)
  moreover have "mp_head from_u8 limit bs = Some (length own, c, k)"
    using mp_head_append(3)[OF h(1), of "forest_bytes kids @ forest_bytes ts @ rest"] t(3) by simp
  ultimately show ?rhs using h(3) t(3,4)
    by (intro exI[of _ "length own"] exI[of _ c] exI[of _ k] exI[of _ "m - 1"] exI[of _ "kids @ ts"])
      simp
next
  assume ?rhs
  then obtain n c k ts where h: "mp_head from_u8 limit bs = Some (n, c, k)" "k \<longrightarrow> d < 32"
      "due_ok from_u8 limit (replicate c (Suc d) @ ds) ts" "drop n bs = forest_bytes ts @ rest"
      "m = Suc (forest_count ts)"
    by auto
  obtain kids ts' where ts: "ts = kids @ ts'" "due_ok from_u8 limit ds ts'"
      "list_all2 (\<lambda>d t. mp_ok from_u8 limit (32 - d) t) (replicate c (Suc d)) kids"
    using h(3) by (auto simp: due_ok_def list_all2_append1)
  have kids: "length kids = c" "list_all (mp_ok from_u8 limit (32 - Suc d)) kids"
    using ts(3) by (auto simp: list_all2_conv_all_nth list_all_length)
  have "mp_head from_u8 limit (take n bs) = Some (n, c, k)" "length (take n bs) = n"
    using mp_head_append(1)[OF h(1)] mp_head_append(3)[OF h(1), of "[]"] by simp_all
  then have "due_ok from_u8 limit (d # ds) (Mp (take n bs) kids # ts')"
    using kids h(2) ts(2) by (simp add: due_ok_def)
  moreover have "bs = forest_bytes (Mp (take n bs) kids # ts') @ rest"
    using h(4) ts(1) append_take_drop_id[of n bs] by simp
  ultimately show ?lhs using h(5) ts(1) by (intro exI[of _ "Mp (take n bs) kids # ts'"]) simp
qed

definition covers :: "marker_table \<Rightarrow> nat list \<Rightarrow> scanner \<Rightarrow> scanner \<Rightarrow> bool" where
  "covers from_u8 ds sc sc' \<longleftrightarrow>
     (\<exists>ts. due_ok from_u8 (unat (max_scalar_bytes sc)) ds ts \<and>
       (\<exists>rest. ahead sc = forest_bytes ts @ rest) \<and>
       unat (scanned sc) + forest_count ts \<le> 131072 \<and>
       sc' = sc\<lparr> scanned := scanned sc + word_of_nat (forest_count ts),
                offset := offset sc + length (forest_bytes ts) \<rparr>)"

lemma covers_Nil: "unat (scanned sc) \<le> 131072 \<Longrightarrow> covers from_u8 [] sc sc' \<longleftrightarrow> sc' = sc"
  by (auto simp: covers_def due_ok_def)

lemma covers_alt:
  "covers from_u8 ds sc sc' \<longleftrightarrow>
     (\<exists>m rest. (\<exists>ts. due_ok from_u8 (unat (max_scalar_bytes sc)) ds ts \<and>
                     ahead sc = forest_bytes ts @ rest \<and> forest_count ts = m) \<and>
       unat (scanned sc) + m \<le> 131072 \<and>
       sc' = sc\<lparr> scanned := scanned sc + word_of_nat m,
                offset := offset sc + (length (ahead sc) - length rest) \<rparr>)"
  unfolding covers_def by (rule iffI; (elim exE conjE)?; fastforce)

lemma covers_Cons:
  assumes "scanner_ok sc" and "unat (scanned sc) \<le> 131072" and "d \<le> 32"
  shows "covers from_u8 (d # ds) sc sc' \<longleftrightarrow>
    (\<exists>c sc1. scan_one_value from_u8 (depth_u16 d) sc = Inr (c, sc1) \<and>
             covers from_u8 (replicate (unat c) (Suc d) @ ds) sc1 sc')"
proof -
  let ?lim = "unat (max_scalar_bytes sc)"
  have d: "unat (depth_u16 d) = d" using assms(3) by (simp add: depth_u16_def unat_of_nat)
  note one = scan_one_value_iff[OF assms(1,2), of from_u8 "depth_u16 d", unfolded d]
  show ?thesis
  proof
    assume "covers from_u8 (d # ds) sc sc'"
    then obtain m rest n c k m' ts where h:
        "mp_head from_u8 ?lim (ahead sc) = Some (n, c, k)" "k \<longrightarrow> d < 32" "m = Suc m'"
        "due_ok from_u8 ?lim (replicate c (Suc d) @ ds) ts" "drop n (ahead sc) = forest_bytes ts @ rest"
        "forest_count ts = m'" "unat (scanned sc) + m \<le> 131072"
        "sc' = sc\<lparr> scanned := scanned sc + word_of_nat m,
                  offset := offset sc + (length (ahead sc) - length rest) \<rparr>"
      unfolding covers_alt due_ok_Cons by blast
    have c: "unat (word_of_nat c :: u32) = c"
      using mp_head_append(5)[OF h(1)] by (simp add: unat_of_nat)
    let ?sc1 = "sc\<lparr> scanned := scanned sc + 1, offset := offset sc + n \<rparr>"
    have "scan_one_value from_u8 (depth_u16 d) sc = Inr (word_of_nat c, ?sc1)"
      using one h c by auto
    moreover have "length (ahead sc) = n + (length (forest_bytes ts) + length rest)"
      using arg_cong[OF h(5), of length] mp_head_append(1)[OF h(1)] by simp
    moreover have "unat (scanned sc + 1) = Suc (unat (scanned sc))"
      using h(3,7) by (simp add: unat_word_ariths)
    ultimately show "\<exists>c sc1. scan_one_value from_u8 (depth_u16 d) sc = Inr (c, sc1) \<and>
             covers from_u8 (replicate (unat c) (Suc d) @ ds) sc1 sc'"
      using h c unfolding covers_def
      by (intro exI[of _ "word_of_nat c"] exI[of _ ?sc1] conjI exI[of _ ts])
        (simp_all add: add.commute)
  next
    assume "\<exists>c sc1. scan_one_value from_u8 (depth_u16 d) sc = Inr (c, sc1) \<and>
             covers from_u8 (replicate (unat c) (Suc d) @ ds) sc1 sc'"
    then obtain c sc1 where "scan_one_value from_u8 (depth_u16 d) sc = Inr (c, sc1)"
        "covers from_u8 (replicate (unat c) (Suc d) @ ds) sc1 sc'"
      by blast
    then obtain n k where h: "mp_head from_u8 ?lim (ahead sc) = Some (n, unat c, k)"
        "k \<longrightarrow> d < 32" "unat (scanned sc) < 131072"
      and cov: "covers from_u8 (replicate (unat c) (Suc d) @ ds)
          (sc\<lparr> scanned := scanned sc + 1, offset := offset sc + n \<rparr>) sc'"
      using one[of c sc1] by auto
    have v: "unat (scanned sc + 1) = Suc (unat (scanned sc))"
      using h(3) by (simp add: unat_word_ariths)
    obtain ts rest where t: "due_ok from_u8 ?lim (replicate (unat c) (Suc d) @ ds) ts"
        "drop n (ahead sc) = forest_bytes ts @ rest"
        "unat (scanned sc) + Suc (forest_count ts) \<le> 131072"
        "sc' = sc\<lparr> scanned := scanned sc + 1 + word_of_nat (forest_count ts),
                  offset := offset sc + n + length (forest_bytes ts) \<rparr>"
      using cov v by (auto simp: covers_def add.commute)
    have "length (ahead sc) = n + (length (forest_bytes ts) + length rest)"
      using arg_cong[OF t(2), of length] mp_head_append(1)[OF h(1)] by simp
    then show "covers from_u8 (d # ds) sc sc'"
      unfolding covers_alt due_ok_Cons
      using h t by (intro exI[of _ "Suc (forest_count ts)"] exI[of _ rest]) (auto simp: add.assoc)
  qed
qed

text \<open>
  The loop accepts exactly the forests that are due, and its final state is where they end.
\<close>

lemma scan_one_value_next:
  assumes "scan_one_value from_u8 (depth_u16 d) sc = Inr (c, sc1)"
    and "scanner_ok sc" and "unat (scanned sc) \<le> 131072" and "d \<le> 32"
  shows "scanner_ok sc1" and "unat (scanned sc1) \<le> 131072" and "c \<noteq> 0 \<Longrightarrow> d < 32"
proof -
  have d: "unat (depth_u16 d) = d" using assms(4) by (simp add: depth_u16_def unat_of_nat)
  obtain n k where h: "mp_head from_u8 (unat (max_scalar_bytes sc)) (ahead sc) = Some (n, unat c, k)"
      "k \<longrightarrow> d < 32" "sc1 = sc\<lparr> scanned := scanned sc + 1, offset := offset sc + n \<rparr>"
    using assms(1) scan_one_value_iff[OF assms(2,3)] d by auto
  show "scanner_ok sc1"
    using assms(2) mp_head_append(1)[OF h(1)] by (auto simp: h scanner_ok_def)
  show "unat (scanned sc1) \<le> 131072" using scan_one_value_counts[OF assms(1)] by simp
  show "c \<noteq> 0 \<Longrightarrow> d < 32" using mp_head_append(4)[OF h(1)] h(2) by (auto simp: unat_eq_zero)
qed

lemma scan_loop_iff:
  assumes "scanner_ok sc" and "unat (scanned sc) \<le> 131072"
    and "length remaining = 33" and "depth \<le> 32"
  shows "scan_loop from_u8 sc remaining depth = Inr sc' \<longleftrightarrow>
     covers from_u8 (due remaining depth) sc sc'"
  using assms
proof (induction from_u8 sc remaining depth rule: scan_loop.induct)
  case (1 from_u8 sc remaining depth)
  note step = scan_loop.simps[of from_u8 sc remaining depth]
  show ?case
  proof (cases "remaining ! depth = 0")
    case True
    show ?thesis
    proof (cases "depth = 0")
      case zero: True
      with True "1.prems" show ?thesis by (auto simp: covers_Nil scan_loop.simps[of _ _ _ 0])
    next
      case False
      with True "1.IH"(1) "1.prems" show ?thesis by (simp add: due_leave step)
    qed
  next
    case False
    let ?rem = "remaining[depth := remaining ! depth - 1]"
    have due: "due remaining depth = depth # due ?rem depth"
      using False "1.prems"(3,4) by (intro due_next) simp_all
    note cons = covers_Cons[OF "1.prems"(1,2,4), of from_u8 "due ?rem depth" sc', folded due]
    show ?thesis
    proof (cases "scan_one_value from_u8 (depth_u16 depth) sc")
      case (Inl e)
      with False cons show ?thesis by (simp add: step)
    next
      case (Inr r)
      obtain c sc1 where r: "r = (c, sc1)" by (cases r)
      note one = Inr[unfolded r]
      note sc1 = scan_one_value_next[OF one "1.prems"(1,2,4)]
      have cov: "covers from_u8 (due remaining depth) sc sc' \<longleftrightarrow>
          covers from_u8 (replicate (unat c) (Suc depth) @ due ?rem depth) sc1 sc'"
        using cons one by simp
      show ?thesis
      proof (cases "c = 0")
        case True
        have "scan_loop from_u8 sc1 ?rem depth = Inr sc' \<longleftrightarrow> covers from_u8 (due ?rem depth) sc1 sc'"
          using "1.IH"(3)[OF False refl one refl] True sc1(1,2) "1.prems"(3,4) by simp
        with False one True cov show ?thesis by (simp add: step)
      next
        case nz: False
        have lt: "depth < 32" using sc1(3) nz by simp
        then have "\<not> unat MAX_MESSAGEPACK_DEPTH \<le> depth" by (simp add: messagepack_bounds)
        moreover from this have
          "scan_loop from_u8 sc1 (?rem[depth + 1 := c]) (depth + 1) = Inr sc' \<longleftrightarrow>
             covers from_u8 (due (?rem[depth + 1 := c]) (depth + 1)) sc1 sc'"
          using "1.IH"(2)[OF False refl one refl nz] sc1(1,2) "1.prems"(3) lt by simp
        ultimately show ?thesis
          using False one nz cov due_enter[of depth ?rem c] "1.prems"(3) lt by (simp add: step)
      qed
    qed
  qed
qed

section \<open>Properties\<close>

lemma mp_count_pos: "0 < mp_count t"
  by (cases t) simp

lemma due_start: "due ((replicate MESSAGEPACK_STACK_SLOTS 0)[0 := 1]) 0 = [0]"
  by (simp add: MESSAGEPACK_STACK_SLOTS_def messagepack_bounds)

lemma scan_document_iff:
  assumes "length bytes < 2 ^ 64"
  shows "scan_document from_u8 \<lparr> payload = bytes, offset = 0, scanned = 0, max_scalar_bytes = m \<rparr>
           = Inr () \<longleftrightarrow>
         (\<exists>t. mp_ok from_u8 (unat m) 32 t \<and> mp_bytes t = bytes \<and> mp_count t \<le> 131072)"
proof -
  let ?sc = "\<lparr> payload = bytes, offset = 0, scanned = 0, max_scalar_bytes = m \<rparr>"
  let ?rem = "(replicate MESSAGEPACK_STACK_SLOTS 0)[0 := 1] :: u32 list"
  have "scanner_ok ?sc" "unat (scanned ?sc) \<le> 131072" "length ?rem = 33"
    using assms by (simp_all add: scanner_ok_def MESSAGEPACK_STACK_SLOTS_def messagepack_bounds)
  from scan_loop_iff[OF this, of 0 from_u8]
  have loop: "scan_loop from_u8 ?sc ?rem 0 = Inr sc' \<longleftrightarrow> covers from_u8 [0] ?sc sc'" for sc'
    by (simp only: due_start)
  have "scan_document from_u8 ?sc = Inr () \<longleftrightarrow>
      (\<exists>sc'. covers from_u8 [0] ?sc sc' \<and> offset sc' = length (payload sc'))"
    by (auto simp: scan_document_def rbind_Inr_iff loop)
  also have "\<dots> \<longleftrightarrow> (\<exists>t. mp_ok from_u8 (unat m) 32 t \<and> mp_bytes t = bytes \<and> mp_count t \<le> 131072)"
    (is "?l \<longleftrightarrow> ?r")
  proof
    assume ?l
    then obtain t rest where "mp_ok from_u8 (unat m) 32 t" "bytes = mp_bytes t @ rest"
        "mp_count t \<le> 131072" "length (mp_bytes t) = length bytes"
      by (auto simp: covers_def due_ok_def list_all2_Cons1)
    then show ?r by (intro exI[of _ t]) simp
  next
    assume ?r
    then obtain t where t: "mp_ok from_u8 (unat m) 32 t" "mp_bytes t = bytes" "mp_count t \<le> 131072"
      by blast
    then have "covers from_u8 [0] ?sc
        (?sc\<lparr> scanned := word_of_nat (mp_count t), offset := length bytes \<rparr>)"
      unfolding covers_def by (intro exI[of _ "[t]"]) (simp add: due_ok_def)
    then show ?l by (intro exI[of _ "?sc\<lparr> scanned := word_of_nat (mp_count t), offset := length bytes \<rparr>"])
      simp
  qed
  finally show ?thesis .
qed

lemma mp_bytes_nonempty: "mp_ok from_u8 limit d t \<Longrightarrow> mp_bytes t \<noteq> []"
  by (cases t) (auto simp: mp_head_def split: option.splits)

text \<open>C33. The preflight admits exactly the bounded documents.  For every marker table, a byte string
  passes the explicit-stack scanner if and only if it is, with no byte left over, the encoding of
  one tree of MessagePack values in which containers nest at most 32 deep, every collection
  declares at most 4096 items, every string or binary fits the negotiated maximum, no extension or
  reserved marker occurs, there are at most 131072 values, and the document is not longer than the
  negotiated maximum.  The scan of any input ends.
\<close>

theorem preflight_exact:
  "preflight from_u8 c bytes = Inr () \<longleftrightarrow>
     length bytes \<le> unat (max_document_bytes c) \<and>
     (\<exists>t. mp_ok from_u8 (unat (max_document_bytes c)) 32 t \<and> mp_bytes t = bytes \<and>
          mp_count t \<le> 131072)"
proof (cases "bytes \<noteq> [] \<and> length bytes \<le> unat (max_document_bytes c)")
  case True
  then have "length bytes < 2 ^ 64"
    using unsigned_less[of "max_document_bytes c", where ?'a = nat] by simp
  with True show ?thesis
    by (simp add: preflight_def Let_def scan_document_iff)
next
  case False
  then show ?thesis by (auto simp: preflight_def Let_def dest: mp_bytes_nonempty)
qed

end
