(* ===== verification/Wire_Sealed.thy ===== *)
theory Wire_Sealed
  imports Wire_Frame
begin

text \<open>
  \<open>src/protocol/crypto.rs\<close>, the sealed channel: the canonical prologue, sealed frames and their
  encoding, the replay window, and the source-level sealer (a keystream and a tag from HMAC-SHA256).

  HMAC-SHA256 is the parameter \<open>hmac\<close>: a key and a message to a 256-bit number, whose 32 big-endian
  bytes are the block.  Fixed arrays are byte lists; \<open>frame_typed\<close> states the sizes the Rust types fix.
  A call of \<open>expect\<close> that fails is the result \<open>None\<close> of the code that calls it.
\<close>

unbundle bit_operations_syntax

section \<open>Constants, roles and errors\<close>

definition SEALED_FRAME_VERSION :: u8 where "SEALED_FRAME_VERSION = 1"
definition SEALED_NONCE_BYTES :: nat where "SEALED_NONCE_BYTES = 16"
definition SEALED_TAG_BYTES :: nat where "SEALED_TAG_BYTES = 32"
definition REPLAY_WINDOW_SIZE :: u64 where "REPLAY_WINDOW_SIZE = 64"
definition SEALED_FRAME_OVERHEAD_BYTES :: u32 where
  "SEALED_FRAME_OVERHEAD_BYTES =
     1 + 8 + word_of_nat SEALED_NONCE_BYTES + word_of_nat SEALED_TAG_BYTES"
definition MAX_SEALED_FRAME_BYTES :: u32 where "MAX_SEALED_FRAME_BYTES = MAX_PHYSICAL_FRAME_BYTES"
definition MAX_SEALED_PLAINTEXT_BYTES :: u32 where
  "MAX_SEALED_PLAINTEXT_BYTES = MAX_SEALED_FRAME_BYTES - SEALED_FRAME_OVERHEAD_BYTES"

definition label :: "string \<Rightarrow> u8 list" where
  "label s = str_bytes (lit s) @ [0]"

definition CONNECT_CRYPTO_PROTOCOL :: "u8 list" where
  "CONNECT_CRYPTO_PROTOCOL = label ''DevManagerConnect/v1''"
definition ENC_LABEL :: "u8 list" where "ENC_LABEL = label ''e2e-enc-v1''"
definition MAC_LABEL :: "u8 list" where "MAC_LABEL = label ''e2e-mac-v1''"
definition KS_LABEL :: "u8 list" where "KS_LABEL = label ''e2e-ks-v1''"
definition TAG_LABEL :: "u8 list" where "TAG_LABEL = label ''e2e-tag-v1''"
definition SEND_ROLE :: "u8 list" where "SEND_ROLE = label ''send''"
definition RECV_ROLE :: "u8 list" where "RECV_ROLE = label ''recv''"

datatype crypto_error =
    ProtocolMajorMismatch | AlgorithmDowngrade | EntropyUnavailable | UnsupportedVersion u8
  | ZeroSequence | SequenceExhausted | SessionExpired | Replay u64 | ReplayTooOld u64
  | TruncatedFrame nat | FrameExceeded u64 | PlaintextExceeded u64 | Authenticity
  | InvalidEnvelope | RevokedKey | EmptyPrologue | HandshakeWrongRole | HandshakeOutOfOrder
  | HandshakeDuplicate | HandshakeOversized | HandshakeFailed | UnexpectedPeer | IdentityBinding

datatype credential_purpose = OwnerPairing | TaskInvitation

definition transcript_label :: "credential_purpose \<Rightarrow> u8 list" where
  "transcript_label p = (case p of
      OwnerPairing \<Rightarrow> str_bytes (lit ''owner-pairing'')
    | TaskInvitation \<Rightarrow> str_bytes (lit ''task-invitation''))"

datatype channel_role = Initiator | Responder

definition send_role_label :: "channel_role \<Rightarrow> u8 list" where
  "send_role_label r = (case r of Initiator \<Rightarrow> SEND_ROLE | Responder \<Rightarrow> RECV_ROLE)"

definition recv_role_label :: "channel_role \<Rightarrow> u8 list" where
  "recv_role_label r = (case r of Initiator \<Rightarrow> RECV_ROLE | Responder \<Rightarrow> SEND_ROLE)"

section \<open>The prologue\<close>

record crypto_prologue =
  prologue_major :: u16
  prologue_purpose :: credential_purpose
  route_id :: "u8 list"
  session_id :: "u8 list"

definition crypto_prologue_new ::
  "u16 \<Rightarrow> credential_purpose \<Rightarrow> u8 list \<Rightarrow> u8 list \<Rightarrow> crypto_error + crypto_prologue" where
  "crypto_prologue_new maj purpose route session =
     (if maj \<noteq> PROTOCOL_MAJOR then Inl ProtocolMajorMismatch
      else Inr \<lparr> prologue_major = maj, prologue_purpose = purpose, route_id = route,
                 session_id = session \<rparr>)"

definition canonical_bytes :: "crypto_prologue \<Rightarrow> u8 list" where
  "canonical_bytes p =
     (let l = transcript_label (prologue_purpose p) in
      CONNECT_CRYPTO_PROTOCOL @ to_be_bytes (prologue_major p) @ [word_of_nat (length l)] @ l @
      route_id p @ session_id p)"

section \<open>Sealed frames\<close>

record sealed_frame =
  frame_version :: u8
  frame_sequence :: u64
  frame_nonce :: "u8 list"
  ciphertext :: "u8 list"
  frame_tag :: "u8 list"

definition encoded_len :: "sealed_frame \<Rightarrow> nat" where
  "encoded_len f = 1 + 8 + SEALED_NONCE_BYTES + length (ciphertext f) + SEALED_TAG_BYTES"

definition sealed_frame_validate :: "sealed_frame \<Rightarrow> crypto_error + unit" where
  "sealed_frame_validate f =
     (if frame_version f \<noteq> SEALED_FRAME_VERSION then Inl (UnsupportedVersion (frame_version f))
      else if frame_sequence f = 0 then Inl ZeroSequence
      else if encoded_len f > unat MAX_SEALED_FRAME_BYTES then
        Inl (FrameExceeded (word_of_nat (encoded_len f)))
      else Inr ())"

definition from_parts ::
  "u8 \<Rightarrow> u64 \<Rightarrow> u8 list \<Rightarrow> u8 list \<Rightarrow> u8 list \<Rightarrow> crypto_error + sealed_frame" where
  "from_parts version sequence nonce cipher tag =
     (let frame = \<lparr> frame_version = version, frame_sequence = sequence, frame_nonce = nonce,
                    ciphertext = cipher, frame_tag = tag \<rparr> in
      rbind (sealed_frame_validate frame) (\<lambda>_. Inr frame))"

definition sealed_frame_encode :: "sealed_frame \<Rightarrow> crypto_error + u8 list" where
  "sealed_frame_encode f = rbind (sealed_frame_validate f) (\<lambda>_. Inr
     ([frame_version f] @ to_be_bytes (frame_sequence f) @ frame_nonce f @ ciphertext f @ frame_tag f))"

definition sealed_frame_decode :: "u8 list \<Rightarrow> crypto_error + sealed_frame" where
  "sealed_frame_decode bytes =
     (if length bytes > unat MAX_SEALED_FRAME_BYTES then Inl (FrameExceeded (len_u64 bytes))
      else if length bytes < unat SEALED_FRAME_OVERHEAD_BYTES then
        Inl (TruncatedFrame (length bytes))
      else let tag_offset = length bytes - SEALED_TAG_BYTES in
        from_parts (bytes ! 0) (from_be_bytes (slice 1 9 bytes)) (slice 9 25 bytes)
          (slice 25 tag_offset bytes) (drop tag_offset bytes))"

section \<open>The replay window\<close>

record replay_window =
  highest :: u64
  seen :: u64

definition replay_window_new :: replay_window where
  "replay_window_new = \<lparr> highest = 0, seen = 0 \<rparr>"

definition replay_accept :: "replay_window \<Rightarrow> u64 \<Rightarrow> (crypto_error + unit) \<times> replay_window" where
  "replay_accept w sequence =
     (if sequence = 0 then (Inl ZeroSequence, w)
      else if highest w = 0 then (Inr (), \<lparr> highest = sequence, seen = 1 \<rparr>)
      else if sequence > highest w then
        let shift = sequence - highest w;
            seen1 = (if shift \<ge> REPLAY_WINDOW_SIZE then 1 else push_bit (unat shift) (seen w) OR 1) in
        (Inr (), \<lparr> highest = sequence, seen = seen1 \<rparr>)
      else
        let distance = highest w - sequence in
        if distance \<ge> REPLAY_WINDOW_SIZE then (Inl (ReplayTooOld sequence), w)
        else let mask = push_bit (unat distance) 1 in
          if seen w AND mask \<noteq> 0 then (Inl (Replay sequence), w)
          else (Inr (), w\<lparr> seen := seen w OR mask \<rparr>))"

section \<open>The source-level sealer\<close>

type_synonym hmac = "u8 list \<Rightarrow> u8 list \<Rightarrow> 256 word"

definition hmac_block :: "hmac \<Rightarrow> u8 list \<Rightarrow> u8 list \<Rightarrow> u8 list" where
  "hmac_block hmac key message = to_be_bytes (hmac key message)"

definition derive_key :: "hmac \<Rightarrow> u8 list \<Rightarrow> u8 list \<Rightarrow> u8 list \<Rightarrow> u8 list \<Rightarrow> u8 list" where
  "derive_key hmac master lbl role prologue = to_be_bytes (hmac master (lbl @ role @ prologue))"

lemma length_hmac_block [simp]: "length (hmac_block hmac key message) = 32"
  by (simp add: hmac_block_def length_to_be_bytes)

text \<open>\<open>apply_keystream\<close>: \<open>None\<close> when the block counter overflows.\<close>

definition keystream_block :: "hmac \<Rightarrow> u8 list \<Rightarrow> u8 list \<Rightarrow> u64 \<Rightarrow> u32 \<Rightarrow> u8 list" where
  "keystream_block hmac enc_key nonce sequence block_index =
     hmac_block hmac enc_key
       (KS_LABEL @ nonce @ to_be_bytes sequence @ to_be_bytes block_index)"

lemma length_keystream_block [simp]: "length (keystream_block hmac k n s i) = 32"
  by (simp add: keystream_block_def)

function keystream_loop ::
  "hmac \<Rightarrow> u8 list \<Rightarrow> u8 list \<Rightarrow> u64 \<Rightarrow> nat \<Rightarrow> u32 \<Rightarrow> u8 list \<Rightarrow> u8 list option" where
  "keystream_loop hmac enc_key nonce sequence offs block_index buffer =
     (if offs < length buffer then
        let block = keystream_block hmac enc_key nonce sequence block_index;
            taken = min (length buffer - offs) (length block);
            buffer1 = List.take offs buffer @
              map2 (XOR) (List.take taken (drop offs buffer)) (List.take taken block) @
              drop (offs + taken) buffer in
        case checked_add block_index 1 of
          None \<Rightarrow> None
        | Some i \<Rightarrow> keystream_loop hmac enc_key nonce sequence (offs + taken) i buffer1
      else Some buffer)"
  by pat_completeness auto
termination
  by (relation "measure (\<lambda>(_, _, _, _, offs, _, buffer). length buffer - offs)") auto

declare keystream_loop.simps [simp del]

definition apply_keystream :: "hmac \<Rightarrow> u8 list \<Rightarrow> u8 list \<Rightarrow> u64 \<Rightarrow> u8 list \<Rightarrow> u8 list option" where
  "apply_keystream hmac enc_key nonce sequence buffer =
     keystream_loop hmac enc_key nonce sequence 0 0 buffer"

definition authenticate :: "hmac \<Rightarrow> u8 list \<Rightarrow> u64 \<Rightarrow> u8 list \<Rightarrow> u8 list \<Rightarrow> u8 list" where
  "authenticate hmac mac_key sequence nonce cipher =
     hmac_block hmac mac_key
       (TAG_LABEL @ [SEALED_FRAME_VERSION] @ to_be_bytes sequence @ nonce @ cipher)"

definition constant_time_eq :: "u8 list \<Rightarrow> u8 list \<Rightarrow> bool" where
  "constant_time_eq left right =
     (if length left \<noteq> length right then False
      else foldl (\<lambda>diff (a, b). diff OR (a XOR b)) 0 (zip left right) = 0)"

definition seal_with ::
  "hmac \<Rightarrow> u8 list \<Rightarrow> u8 list \<Rightarrow> u64 \<Rightarrow> u8 list \<Rightarrow> u8 list \<Rightarrow> (crypto_error + sealed_frame) option"
where
  "seal_with hmac enc_key mac_key sequence nonce plaintext =
     (if sequence = 0 then Some (Inl ZeroSequence)
      else if len_u64 plaintext > ucast MAX_SEALED_PLAINTEXT_BYTES then
        Some (Inl (PlaintextExceeded (len_u64 plaintext)))
      else case apply_keystream hmac enc_key nonce sequence plaintext of
        None \<Rightarrow> None
      | Some cipher \<Rightarrow> Some (from_parts SEALED_FRAME_VERSION sequence nonce cipher
            (authenticate hmac mac_key sequence nonce cipher)))"

definition open_with ::
  "hmac \<Rightarrow> u8 list \<Rightarrow> u8 list \<Rightarrow> sealed_frame \<Rightarrow> (crypto_error + u8 list) option" where
  "open_with hmac enc_key mac_key f = (case sealed_frame_validate f of
     Inl e \<Rightarrow> Some (Inl e)
   | Inr _ \<Rightarrow>
       if \<not> constant_time_eq
            (authenticate hmac mac_key (frame_sequence f) (frame_nonce f) (ciphertext f)) (frame_tag f)
       then Some (Inl Authenticity)
       else map_option Inr
         (apply_keystream hmac enc_key (frame_nonce f) (frame_sequence f) (ciphertext f)))"

record source_level_sealer =
  send_enc :: "u8 list"
  send_mac :: "u8 list"
  recv_enc :: "u8 list"
  recv_mac :: "u8 list"

definition sealer_derive ::
  "hmac \<Rightarrow> u8 list \<Rightarrow> crypto_prologue \<Rightarrow> channel_role \<Rightarrow> source_level_sealer" where
  "sealer_derive hmac master prologue role =
     (let p = canonical_bytes prologue in
      \<lparr> send_enc = derive_key hmac master ENC_LABEL (send_role_label role) p,
        send_mac = derive_key hmac master MAC_LABEL (send_role_label role) p,
        recv_enc = derive_key hmac master ENC_LABEL (recv_role_label role) p,
        recv_mac = derive_key hmac master MAC_LABEL (recv_role_label role) p \<rparr>)"

definition sealer_seal ::
  "hmac \<Rightarrow> source_level_sealer \<Rightarrow> u64 \<Rightarrow> u8 list \<Rightarrow> u8 list \<Rightarrow> (crypto_error + sealed_frame) option" where
  "sealer_seal hmac s sequence nonce plaintext =
     seal_with hmac (send_enc s) (send_mac s) sequence nonce plaintext"

definition sealer_open ::
  "hmac \<Rightarrow> source_level_sealer \<Rightarrow> sealed_frame \<Rightarrow> (crypto_error + u8 list) option" where
  "sealer_open hmac s f = open_with hmac (recv_enc s) (recv_mac s) f"

section \<open>Frames on the wire\<close>

lemmas sealed_sizes = SEALED_NONCE_BYTES_def SEALED_TAG_BYTES_def SEALED_FRAME_OVERHEAD_BYTES_def
  MAX_SEALED_FRAME_BYTES_def MAX_SEALED_PLAINTEXT_BYTES_def MAX_PHYSICAL_FRAME_BYTES_def

definition frame_typed :: "sealed_frame \<Rightarrow> bool" where
  "frame_typed f \<longleftrightarrow> length (frame_nonce f) = SEALED_NONCE_BYTES \<and> length (frame_tag f) = SEALED_TAG_BYTES"

lemma from_parts_Inr_iff:
  "from_parts v s n c t = Inr f \<longleftrightarrow> sealed_frame_validate f = Inr () \<and>
     f = \<lparr> frame_version = v, frame_sequence = s, frame_nonce = n, ciphertext = c, frame_tag = t \<rparr>"
  by (auto simp: from_parts_def Let_def rbind_Inr_iff)

lemma sealed_frame_decode_encode:
  assumes "frame_typed f" and "sealed_frame_encode f = Inr bytes"
  shows "sealed_frame_decode bytes = Inr f"
proof -
  have valid: "sealed_frame_validate f = Inr ()"
    and bytes: "bytes = [frame_version f] @ to_be_bytes (frame_sequence f) @ frame_nonce f @
      ciphertext f @ frame_tag f"
    using assms(2) by (auto simp: sealed_frame_encode_def rbind_Inr_iff)
  have len: "length bytes = encoded_len f"
    using assms(1) by (simp add: bytes encoded_len_def frame_typed_def)
  then have max: "length bytes \<le> unat MAX_SEALED_FRAME_BYTES"
    using valid by (simp add: sealed_frame_validate_def split: if_splits)
  have off: "length bytes - SEALED_TAG_BYTES = 25 + length (ciphertext f)"
    using len by (simp add: encoded_len_def sealed_sizes)
  have parts: "bytes ! 0 = frame_version f" "slice 1 9 bytes = to_be_bytes (frame_sequence f)"
      "slice 9 25 bytes = frame_nonce f" "slice 25 (25 + length (ciphertext f)) bytes = ciphertext f"
    using assms(1) by (simp_all add: bytes slice_def frame_typed_def sealed_sizes)
  have tag: "drop (25 + length (ciphertext f)) bytes = frame_tag f"
    using assms(1) drop_exact[of "[frame_version f] @ to_be_bytes (frame_sequence f) @
      frame_nonce f @ ciphertext f" "25 + length (ciphertext f)" "frame_tag f"]
    by (simp add: bytes frame_typed_def sealed_sizes)
  have "\<not> length bytes < unat SEALED_FRAME_OVERHEAD_BYTES"
    using len by (simp add: encoded_len_def sealed_sizes)
  with max show ?thesis
    using valid by (simp add: sealed_frame_decode_def Let_def off parts[simplified] tag from_parts_Inr_iff)
qed

lemma sealed_frame_encode_decode:
  assumes "sealed_frame_decode bytes = Inr f"
  shows "frame_typed f \<and> sealed_frame_encode f = Inr bytes"
proof -
  let ?off = "length bytes - SEALED_TAG_BYTES"
  have len: "57 \<le> length bytes" and valid: "sealed_frame_validate f = Inr ()"
    and f: "f = \<lparr> frame_version = bytes ! 0, frame_sequence = from_be_bytes (slice 1 9 bytes),
      frame_nonce = slice 9 25 bytes, ciphertext = slice 25 ?off bytes, frame_tag = drop ?off bytes \<rparr>"
    using assms by (auto simp: sealed_frame_decode_def Let_def from_parts_Inr_iff sealed_sizes
        split: if_splits)
  have "bytes = [bytes ! 0] @ slice 1 9 bytes @ slice 9 25 bytes @ slice 25 ?off bytes @ drop ?off bytes"
  proof -
    have "slice 1 9 bytes @ slice 9 25 bytes @ slice 25 ?off bytes @ drop ?off bytes = drop 1 bytes"
      using len by (simp add: slice_drop sealed_sizes del: One_nat_def)
    then show ?thesis using len by (cases bytes) simp_all
  qed
  moreover have "length (slice 1 9 bytes) = 8" "length (slice 9 25 bytes) = 16"
      "length (drop ?off bytes) = 32"
    using len by (simp_all add: length_slice sealed_sizes)
  ultimately show ?thesis
    using valid by (simp add: f sealed_frame_encode_def frame_typed_def to_from_be_bytes sealed_sizes)
qed

lemma xor_eq_0_iff: "a XOR b = 0 \<longleftrightarrow> a = (b :: 'a::len word)"
  by (auto simp: bit_eq_iff bit_simps)

lemma constant_time_eq_iff: "constant_time_eq left right \<longleftrightarrow> left = right"
proof -
  have "foldl (\<lambda>diff (a, b). diff OR (a XOR b)) d zs = 0 \<longleftrightarrow> d = 0 \<and> (\<forall>(a, b) \<in> set zs. a = b)"
    for d :: u8 and zs
    by (induction zs arbitrary: d) (auto simp: or_eq_0_iff xor_eq_0_iff)
  then show ?thesis
    by (auto simp: constant_time_eq_def list_eq_iff_zip_eq)
qed

section \<open>The keystream\<close>

text \<open>The blocks one after another, and that applying them twice changes nothing.\<close>

function keystream_apply :: "(u32 \<Rightarrow> u8 list) \<Rightarrow> u32 \<Rightarrow> u8 list \<Rightarrow> u8 list" where
  "keystream_apply block i buffer =
     (if buffer = [] then []
      else map2 (XOR) (take 32 buffer) (take (length (take 32 buffer)) (block i)) @
        keystream_apply block (i + 1) (drop 32 buffer))"
  by pat_completeness auto
termination
  by (relation "measure (\<lambda>(_, _, buffer). length buffer)") auto

declare keystream_apply.simps [simp del]

lemma keystream_apply_step:
  "buffer \<noteq> [] \<Longrightarrow> keystream_apply block i buffer =
     map2 (XOR) (take 32 buffer) (take (length (take 32 buffer)) (block i)) @
     keystream_apply block (i + 1) (drop 32 buffer)"
  by (subst keystream_apply.simps) simp

lemma keystream_apply_Nil [simp]: "keystream_apply block i [] = []"
  by (subst keystream_apply.simps) simp

lemma length_keystream_apply:
  "(\<forall>i. length (block i) = 32) \<Longrightarrow> length (keystream_apply block i buffer) = length buffer"
proof (induction block i buffer rule: keystream_apply.induct)
  case (1 block i buffer)
  then show ?case by (cases "buffer = []") (simp_all add: keystream_apply_step)
qed

lemma map2_xor_twice:
  "length xs = length ys \<Longrightarrow> map2 (XOR) (map2 (XOR) xs ys) ys = (xs :: 'a::len word list)"
  by (induction xs ys rule: list_induct2) (simp_all add: xor.assoc)

lemma keystream_apply_twice:
  "(\<forall>i. length (block i) = 32) \<Longrightarrow> keystream_apply block i (keystream_apply block i buffer) = buffer"
proof (induction block i buffer rule: keystream_apply.induct)
  case (1 block i buffer)
  show ?case
  proof (cases "buffer = []")
    case False
    define b where "b = take (length (take 32 buffer)) (block i)"
    define pre where "pre = map2 (XOR) (take 32 buffer) b"
    define rest where "rest = keystream_apply block (i + 1) (drop 32 buffer)"
    have lens: "length pre = min 32 (length buffer)" "length rest = length buffer - 32"
      "length (take 32 buffer) = length b"
      using "1.prems" length_keystream_apply[of block "i + 1" "drop 32 buffer"]
      by (simp_all add: b_def pre_def rest_def)
    have split: "take 32 (pre @ rest) = pre" "drop 32 (pre @ rest) = rest" "pre @ rest \<noteq> []"
        "length pre = length (take 32 buffer)"
      using lens(1,2) False by (cases "32 \<le> length buffer"; simp; fastforce)+
    have "keystream_apply block i (pre @ rest) =
        map2 (XOR) pre b @ keystream_apply block (i + 1) rest"
      by (simp only: keystream_apply_step[OF split(3)] split b_def)
    also have "\<dots> = buffer"
      using "1.IH"[OF False "1.prems"] map2_xor_twice[OF lens(3)] by (simp add: pre_def rest_def)
    finally show ?thesis
      using keystream_apply_step[OF False, of block i] by (simp add: pre_def rest_def b_def)
  qed simp
qed

lemma keystream_loop_apply:
  assumes "offs \<le> length buffer" and "length buffer - offs \<le> 32 * (2 ^ 32 - 1 - unat i)"
  shows "keystream_loop hmac k n s offs i buffer =
    Some (take offs buffer @ keystream_apply (keystream_block hmac k n s) i (drop offs buffer))"
  using assms
proof (induction hmac k n s offs i buffer rule: keystream_loop.induct)
  case (1 hmac k n s offs i buffer)
  let ?block = "keystream_block hmac k n s"
  show ?case
  proof (cases "offs < length buffer")
    case True
    define taken where "taken = min (length buffer - offs) 32"
    define mid where "mid = map2 (XOR) (take taken (drop offs buffer)) (take taken (?block i))"
    define buffer1 where "buffer1 = take offs buffer @ mid @ drop (offs + taken) buffer"
    have lens: "length mid = taken" "offs + taken \<le> length buffer"
        "length buffer1 = length buffer" "0 < taken"
      using True by (auto simp: mid_def taken_def buffer1_def)
    have i: "unat i < 2 ^ 32 - 1" using "1.prems"(2) True by auto
    then have add: "checked_add i 1 = Some (i + 1)" "unat (i + 1) = Suc (unat i)"
      by (simp_all add: checked_add_def unat_word_ariths)
    have bound: "length buffer1 - (offs + taken) \<le> 32 * (2 ^ 32 - 1 - unat (i + 1))"
      using "1.prems"(2) i lens(3) add(2) by (simp add: taken_def)
    have step: "keystream_loop hmac k n s offs i buffer =
        keystream_loop hmac k n s (offs + taken) (i + 1) buffer1"
      using True add(1)
      by (subst keystream_loop.simps) (simp add: Let_def taken_def mid_def buffer1_def)
    have parts: "take (offs + taken) buffer1 = take offs buffer @ mid"
        "drop (offs + taken) buffer1 = drop (offs + taken) buffer"
      using lens True by (simp_all add: buffer1_def)
    have "keystream_loop hmac k n s (offs + taken) (i + 1) buffer1 =
        Some (take (offs + taken) buffer1 @ keystream_apply ?block (i + 1) (drop (offs + taken) buffer1))"
      using "1.IH"[OF True refl refl refl add(1)] bound lens add True
      by (simp add: taken_def mid_def buffer1_def)
    moreover have "keystream_apply ?block i (drop offs buffer) =
        mid @ keystream_apply ?block (i + 1) (drop (offs + taken) buffer)"
    proof -
      have eqs: "length (take 32 (drop offs buffer)) = taken"
        "take 32 (drop offs buffer) = take taken (drop offs buffer)"
        "drop 32 (drop offs buffer) = drop (offs + taken) buffer"
        by (auto simp: taken_def min_def add.commute)
      have "drop offs buffer \<noteq> []" using True by simp
      from keystream_apply_step[OF this, of ?block i] show ?thesis
        unfolding eqs(1) unfolding eqs(2,3) mid_def .
    qed
    ultimately show ?thesis by (simp add: step parts)
  next
    case False
    with "1.prems"(1) show ?thesis by (subst keystream_loop.simps) simp
  qed
qed

lemma apply_keystream_total:
  assumes "length buffer \<le> unat MAX_SEALED_FRAME_BYTES"
  shows "apply_keystream hmac k n s buffer = Some (keystream_apply (keystream_block hmac k n s) 0 buffer)"
  using assms keystream_loop_apply[of 0 buffer 0 hmac k n s]
  by (simp add: apply_keystream_def sealed_sizes)

section \<open>The replay window implements a set of accepted sequences\<close>

text \<open>The specification: the sequences accepted so far, and the answer to the next one.\<close>

definition replay_spec :: "u64 set \<Rightarrow> u64 \<Rightarrow> crypto_error + unit" where
  "replay_spec accepted x =
     (if x = 0 then Inl ZeroSequence
      else if accepted = {} \<or> Max accepted < x then Inr ()
      else if unat x + 64 \<le> unat (Max accepted) then Inl (ReplayTooOld x)
      else if x \<in> accepted then Inl (Replay x)
      else Inr ())"

definition window_of :: "u64 set \<Rightarrow> replay_window \<Rightarrow> bool" where
  "window_of accepted w \<longleftrightarrow> finite accepted \<and> 0 \<notin> accepted \<and>
     (if accepted = {} then highest w = 0
      else highest w = Max accepted \<and>
        (\<forall>i < 64. bit (seen w) i \<longleftrightarrow> i < unat (highest w) \<and> unat (highest w) - i \<in> unat ` accepted))"

lemma window_of_nonempty:
  assumes "window_of accepted w" and "accepted \<noteq> {}"
  shows "highest w \<in> accepted" and "highest w \<noteq> 0" and "x \<in> accepted \<Longrightarrow> x \<le> highest w"
proof -
  show "highest w \<in> accepted" using assms Max_in[of accepted] by (simp add: window_of_def)
  moreover have "0 \<notin> accepted" using assms(1) by (simp add: window_of_def)
  ultimately show "highest w \<noteq> 0" by metis
  show "x \<in> accepted \<Longrightarrow> x \<le> highest w" using assms by (simp add: window_of_def)
qed

lemma unat_word_diff: "(b :: u64) \<le> a \<Longrightarrow> unat (a - b) = unat a - unat b"
  by (simp add: unat_sub_if' word_le_nat_alt)

lemma unat_image_iff [simp]: "unat x \<in> unat ` A \<longleftrightarrow> x \<in> (A :: 'a::len word set)"
  by (metis imageE image_eqI unsigned_word_eqI)

lemma window_of_Max: "window_of A w \<Longrightarrow> A \<noteq> {} \<Longrightarrow> highest w = Max A"
  by (simp add: window_of_def)

lemma replay_first:
  assumes "window_of {} w" and "x \<noteq> 0"
  shows "window_of {x} \<lparr> highest = x, seen = 1 \<rparr>"
  using assms by (auto simp: window_of_def bit_1_iff unat_gt_0)

lemma replay_advance:
  assumes w: "window_of A w" "A \<noteq> {}" and x: "highest w < x"
    and seen: "\<And>i. i < 64 \<Longrightarrow> bit s i \<longleftrightarrow> i = 0 \<or>
        unat (x - highest w) \<le> i \<and> bit (seen w) (i - unat (x - highest w))"
  shows "window_of (insert x A) \<lparr> highest = x, seen = s \<rparr>"
proof -
  note A = window_of_nonempty[OF w]
  let ?h = "unat (highest w)" and ?d = "unat x - unat (highest w)"
  have d: "unat (x - highest w) = ?d" "?h < unat x"
    using unat_word_diff[of "highest w" x] x by (simp_all add: word_less_nat_alt less_imp_le)
  have fin: "finite A" "0 \<notin> A" using w(1) by (auto simp: window_of_def)
  have max: "Max (insert x A) = x"
    using fin x A(3) by (intro Max_eqI) (auto intro: order.trans less_imp_le)
  have bit: "bit (seen w) j \<longleftrightarrow> j < ?h \<and> ?h - j \<in> unat ` A" if "j < 64" for j
    using w that by (simp add: window_of_def)
  have old: "i < ?d \<Longrightarrow> unat x - i \<notin> unat ` A" for i
    using A(3) by (fastforce simp: word_le_nat_alt)
  have "bit s i \<longleftrightarrow> i < unat x \<and> unat x - i \<in> unat ` insert x A" if i: "i < 64" for i
  proof (cases "i = 0 \<or> i < ?d")
    case True
    then show ?thesis
    proof (cases "i = 0")
      case True
      then show ?thesis using seen[OF i] d(2) by simp
    next
      case False
      with \<open>i = 0 \<or> i < ?d\<close> have "\<not> bit s i" "unat x - i \<noteq> unat x" "unat x - i \<notin> unat ` A"
        using seen[OF i] d old[of i] by auto
      then show ?thesis by simp
    qed
  next
    case False
    then have "unat x - i = ?h - (i - ?d)" "i < unat x \<longleftrightarrow> i - ?d < ?h" "unat x - i \<noteq> unat x"
        "bit s i \<longleftrightarrow> bit (seen w) (i - ?d)" "i - ?d < 64"
      using d seen[OF i] i by auto
    then show ?thesis using bit[of "i - ?d"] by simp
  qed
  then show ?thesis using fin x max by (auto simp: window_of_def)
qed

lemma replay_mark:
  assumes w: "window_of A w" "A \<noteq> {}" and x: "x \<le> highest w" "x \<noteq> 0"
    and seen: "\<And>i. i < 64 \<Longrightarrow> bit s i \<longleftrightarrow> bit (seen w) i \<or> i = unat (highest w) - unat x"
  shows "window_of (insert x A) (w\<lparr> seen := s \<rparr>)"
proof -
  note A = window_of_nonempty[OF w]
  have fin: "finite A" "0 \<notin> A" using w(1) by (auto simp: window_of_def)
  have max: "Max (insert x A) = highest w"
    using fin x A window_of_Max[OF w] by (intro Max_eqI) auto
  have le: "unat x \<le> unat (highest w)" "0 < unat x"
    using x by (simp_all add: word_le_nat_alt unat_gt_0)
  have "bit s i \<longleftrightarrow> i < unat (highest w) \<and> unat (highest w) - i \<in> unat ` insert x A"
    if "i < 64" for i
    using seen[OF that] w that le by (auto simp: window_of_def)
  then show ?thesis using fin x max by (simp add: window_of_def)
qed

lemma and_push_bit_iff:
  assumes "n < 64"
  shows "w AND push_bit n 1 = (0 :: u64) \<longleftrightarrow> \<not> bit w n"
proof
  assume "w AND push_bit n 1 = 0"
  then have "\<not> bit (w AND push_bit n 1) n" by (simp only: bit_0_eq) simp
  then show "\<not> bit w n" using assms by (simp add: bit_simps)
next
  assume "\<not> bit w n"
  then show "w AND push_bit n 1 = 0" by (intro bit_word_eqI) (auto simp: bit_simps)
qed

lemma replay_accept_refines:
  assumes w: "window_of A w"
  shows "fst (replay_accept w x) = replay_spec A x"
    and "window_of (if fst (replay_accept w x) = Inr () then insert x A else A) (snd (replay_accept w x))"
proof -
  have "fst (replay_accept w x) = replay_spec A x \<and>
    window_of (if fst (replay_accept w x) = Inr () then insert x A else A) (snd (replay_accept w x))"
  proof (cases "x = 0 \<or> A = {}")
    case True
    then show ?thesis
      using w replay_first[of w x] by (auto simp: replay_accept_def replay_spec_def window_of_def)
  next
    case False
    then have nz: "x \<noteq> 0" "A \<noteq> {}" by auto
    note A = window_of_nonempty[OF w nz(2)] and max = window_of_Max[OF w nz(2)]
    show ?thesis
    proof (cases "highest w < x")
      case less: True
      define s where "s = (if x - highest w \<ge> REPLAY_WINDOW_SIZE then 1
        else push_bit (unat (x - highest w)) (seen w) OR 1)"
      have "window_of (insert x A) \<lparr> highest = x, seen = s \<rparr>"
        by (rule replay_advance[OF w nz(2) less])
          (auto simp: s_def bit_simps REPLAY_WINDOW_SIZE_def word_le_nat_alt)
      then show ?thesis
        using less nz A(2) by (auto simp: replay_accept_def replay_spec_def s_def Let_def max[symmetric])
    next
      case False
      then have le: "x \<le> highest w" by simp
      let ?d = "unat (highest w) - unat x"
      have d: "unat (highest w - x) = ?d" using le by (rule unat_word_diff)
      have far: "REPLAY_WINDOW_SIZE \<le> highest w - x \<longleftrightarrow> unat x + 64 \<le> unat (highest w)"
        using d le by (auto simp: REPLAY_WINDOW_SIZE_def word_le_nat_alt)
      show ?thesis
      proof (cases "unat x + 64 \<le> unat (highest w)")
        case True
        then show ?thesis
          using False nz A(2) far w
          by (simp add: replay_accept_def replay_spec_def Let_def max[symmetric])
      next
        case near: False
        have bk: "unat (highest w) - ?d = unat x" "?d < unat (highest w)" "?d < 64"
          using le nz(1) near unat_gt_0[of x] by (auto simp: word_le_nat_alt)
        have "seen w AND push_bit ?d 1 \<noteq> 0 \<longleftrightarrow> bit (seen w) ?d"
          using and_push_bit_iff[OF bk(3)] by simp
        also have "\<dots> \<longleftrightarrow> x \<in> A" using w nz bk by (simp add: window_of_def)
        finally have mask: "seen w AND push_bit ?d 1 \<noteq> 0 \<longleftrightarrow> x \<in> A" .
        have "window_of (insert x A) (w\<lparr> seen := seen w OR push_bit ?d 1 \<rparr>)"
          using replay_mark[OF w nz(2) le nz(1), of "seen w OR push_bit ?d 1"] bk(3)
          by (auto simp: bit_simps)
        then show ?thesis
          using False nz A(2) far near mask d w
          by (auto simp: replay_accept_def replay_spec_def Let_def max[symmetric])
      qed
    qed
  qed
  then show "fst (replay_accept w x) = replay_spec A x"
    "window_of (if fst (replay_accept w x) = Inr () then insert x A else A) (snd (replay_accept w x))"
    by blast+
qed

definition replay_feed :: "replay_window \<Rightarrow> u64 list \<Rightarrow> replay_window" where
  "replay_feed = foldl (\<lambda>w x. snd (replay_accept w x))"

fun accepted_of :: "replay_window \<Rightarrow> u64 list \<Rightarrow> u64 list" where
  "accepted_of w [] = []"
| "accepted_of w (x # xs) =
     (case replay_accept w x of
        (Inl e, w1) \<Rightarrow> accepted_of w1 xs
      | (Inr _, w1) \<Rightarrow> x # accepted_of w1 xs)"

lemma replay_run:
  assumes "window_of A w"
  shows "window_of (A \<union> set (accepted_of w xs)) (replay_feed w xs)"
    and "distinct (accepted_of w xs)" and "set (accepted_of w xs) \<inter> A = {}"
proof -
  have "window_of (A \<union> set (accepted_of w xs)) (replay_feed w xs) \<and> distinct (accepted_of w xs) \<and>
      set (accepted_of w xs) \<inter> A = {}"
    using assms
  proof (induction xs arbitrary: A w)
    case (Cons x xs)
    obtain r w1 where r: "replay_accept w x = (r, w1)" by (cases "replay_accept w x")
    note ref = replay_accept_refines[OF Cons.prems, of x, unfolded r fst_conv snd_conv]
    show ?case
    proof (cases r)
      case (Inl e)
      then show ?thesis using Cons.IH[of A w1] ref r by (simp add: replay_feed_def)
    next
      case (Inr u)
      then have "x \<notin> A" using ref(1) Cons.prems
        by (auto simp: replay_spec_def window_of_def split: if_splits dest: Max_ge)
      then show ?thesis using Cons.IH[of "insert x A" w1] ref(2) r Inr by (auto simp: replay_feed_def)
    qed
  qed (simp add: replay_feed_def)
  then show "window_of (A \<union> set (accepted_of w xs)) (replay_feed w xs)"
    "distinct (accepted_of w xs)" "set (accepted_of w xs) \<inter> A = {}" by blast+
qed

text \<open>C34. The replay window never accepts a sequence twice, and forgets nothing it must remember.
  After any run of sequences, the answer of the 64-bit window to the next one is the answer of the
  specification that keeps the whole set of accepted sequences: zero is refused, a sequence
  beyond the highest is accepted, one that is 64 or more behind the highest is too old, and one
  within the window is accepted exactly when it has not been accepted before.  The sequences
  accepted in a run are distinct.
\<close>

theorem replay_window_refines_set:
  "fst (replay_accept (replay_feed replay_window_new xs) x) =
     replay_spec (set (accepted_of replay_window_new xs)) x \<and>
   distinct (accepted_of replay_window_new xs)"
proof -
  have "window_of {} replay_window_new" by (simp add: window_of_def replay_window_new_def)
  from replay_run[OF this, of xs] replay_accept_refines(1) show ?thesis by simp
qed

section \<open>Sealing and opening\<close>

definition peer :: "channel_role \<Rightarrow> channel_role" where
  "peer r = (case r of Initiator \<Rightarrow> Responder | Responder \<Rightarrow> Initiator)"

lemma derive_peer:
  "recv_enc (sealer_derive hmac m p (peer r)) = send_enc (sealer_derive hmac m p r)"
  "recv_mac (sealer_derive hmac m p (peer r)) = send_mac (sealer_derive hmac m p r)"
  by (cases r; simp add: sealer_derive_def peer_def send_role_label_def recv_role_label_def Let_def)+

lemma open_with_total:
  "open_with hmac ek mk f = Some (Inr p) \<longleftrightarrow> sealed_frame_validate f = Inr () \<and>
     frame_tag f = authenticate hmac mk (frame_sequence f) (frame_nonce f) (ciphertext f) \<and>
     p = keystream_apply (keystream_block hmac ek (frame_nonce f) (frame_sequence f)) 0 (ciphertext f)"
proof (cases "sealed_frame_validate f = Inr ()")
  case True
  then have "length (ciphertext f) \<le> unat MAX_SEALED_FRAME_BYTES"
    by (auto simp: sealed_frame_validate_def encoded_len_def split: if_splits)
  from apply_keystream_total[OF this] True show ?thesis
    by (auto simp: open_with_def constant_time_eq_iff)
qed (auto simp: open_with_def split: sum.splits)

lemma seal_with_ok:
  assumes "sequence \<noteq> 0" and "length plaintext \<le> unat MAX_SEALED_PLAINTEXT_BYTES"
  shows "\<exists>f. seal_with hmac ek mk sequence nonce plaintext = Some (Inr f) \<and>
     sealed_frame_validate f = Inr () \<and> frame_nonce f = nonce \<and> frame_sequence f = sequence \<and>
     ciphertext f = keystream_apply (keystream_block hmac ek nonce sequence) 0 plaintext \<and>
     frame_tag f = authenticate hmac mk sequence nonce (ciphertext f)"
proof -
  let ?c = "keystream_apply (keystream_block hmac ek nonce sequence) 0 plaintext"
  have "length plaintext \<le> unat MAX_SEALED_FRAME_BYTES" using assms(2) by (simp add: sealed_sizes)
  note ks = apply_keystream_total[OF this]
  have len: "length ?c = length plaintext" by (intro length_keystream_apply) simp
  have "\<not> ucast MAX_SEALED_PLAINTEXT_BYTES < len_u64 plaintext" using assms(2) by simp
  with assms ks len show ?thesis
    by (simp add: seal_with_def from_parts_def Let_def sealed_frame_validate_def encoded_len_def
        sealed_sizes)
qed

text \<open>C37. What one end seals the other opens, and only that.  For every key, prologue and role, a
  plaintext within the bound sealed under a nonzero sequence gives a frame that survives its
  encoding and that the peer's sealer opens to the same plaintext, with no panic on the way; and a
  sealer opens a frame if and only if the frame is well formed and its tag is the HMAC, under the
  receiving key, of the version, the sequence, the nonce and the whole ciphertext.
\<close>

theorem sealed_channel_roundtrip:
  assumes "sequence \<noteq> 0" and "length plaintext \<le> unat MAX_SEALED_PLAINTEXT_BYTES"
    and "length nonce = SEALED_NONCE_BYTES"
  shows "(\<exists>f bytes. sealer_seal hmac (sealer_derive hmac master prologue role) sequence nonce plaintext
             = Some (Inr f) \<and>
           sealed_frame_encode f = Inr bytes \<and> sealed_frame_decode bytes = Inr f \<and>
           sealer_open hmac (sealer_derive hmac master prologue (peer role)) f = Some (Inr plaintext)) \<and>
         ((\<exists>p. sealer_open hmac s g = Some (Inr p)) \<longleftrightarrow> sealed_frame_validate g = Inr () \<and>
           frame_tag g = hmac_block hmac (recv_mac s) (TAG_LABEL @ [SEALED_FRAME_VERSION] @
             to_be_bytes (frame_sequence g) @ frame_nonce g @ ciphertext g))"
proof (intro conjI)
  let ?s = "sealer_derive hmac master prologue role"
  obtain f where f: "sealer_seal hmac ?s sequence nonce plaintext = Some (Inr f)"
      "sealed_frame_validate f = Inr ()" "frame_nonce f = nonce" "frame_sequence f = sequence"
      "ciphertext f = keystream_apply (keystream_block hmac (send_enc ?s) nonce sequence) 0 plaintext"
      "frame_tag f = authenticate hmac (send_mac ?s) sequence nonce (ciphertext f)"
    using seal_with_ok[OF assms(1,2)] unfolding sealer_seal_def by blast
  have "frame_typed f" using f assms(3) by (simp add: frame_typed_def authenticate_def sealed_sizes)
  moreover obtain bytes where "sealed_frame_encode f = Inr bytes"
    using f(2) by (simp add: sealed_frame_encode_def)
  moreover have "sealer_open hmac (sealer_derive hmac master prologue (peer role)) f = Some (Inr plaintext)"
    unfolding sealer_open_def derive_peer open_with_total using f
    by (simp add: keystream_apply_twice)
  ultimately show "\<exists>f bytes. sealer_seal hmac ?s sequence nonce plaintext = Some (Inr f) \<and>
           sealed_frame_encode f = Inr bytes \<and> sealed_frame_decode bytes = Inr f \<and>
           sealer_open hmac (sealer_derive hmac master prologue (peer role)) f = Some (Inr plaintext)"
    using f(1) sealed_frame_decode_encode by blast
  show "(\<exists>p. sealer_open hmac s g = Some (Inr p)) \<longleftrightarrow> sealed_frame_validate g = Inr () \<and>
           frame_tag g = hmac_block hmac (recv_mac s) (TAG_LABEL @ [SEALED_FRAME_VERSION] @
             to_be_bytes (frame_sequence g) @ frame_nonce g @ ciphertext g)"
    by (simp add: sealer_open_def open_with_total authenticate_def)
qed

definition sample_hmac :: hmac where
  "sample_hmac key message = word_of_nat (length key + 7 * length message)"

definition sample_prologue :: crypto_prologue where
  "sample_prologue = \<lparr> prologue_major = 1, prologue_purpose = OwnerPairing,
     route_id = replicate 16 1, session_id = replicate 16 2 \<rparr>"

theorem sealed_channel_roundtrip_witness:
  "(\<exists>f bytes. sealer_seal sample_hmac (sealer_derive sample_hmac (replicate 32 9) sample_prologue Initiator)
        1 (replicate 16 3) [104, 105] = Some (Inr f) \<and>
      sealed_frame_encode f = Inr bytes \<and> sealed_frame_decode bytes = Inr f \<and>
      sealer_open sample_hmac (sealer_derive sample_hmac (replicate 32 9) sample_prologue (peer Initiator)) f
        = Some (Inr [104, 105]))"
  by (rule sealed_channel_roundtrip[THEN conjunct1]) (simp_all add: sealed_sizes)

end
