(* ===== verification/Wire_Noise.thy ===== *)
theory Wire_Noise
  imports Wire_Sealed
begin

text \<open>
  \<open>src/protocol/crypto.rs\<close>, the Noise channel: handshake messages, identity claims, the handshake
  state machine and the transport that binds every frame to its session, its purpose, its route
  and the key of its sender.

  The crate \<open>snow\<close> is the parameter \<open>snow\<close>, a record of the calls the code makes on its handshake
  state \<open>'h\<close> and its transport state \<open>'t\<close>.
\<close>

section \<open>Keys and identities\<close>

definition NOISE_STATIC_KEY_BYTES :: nat where "NOISE_STATIC_KEY_BYTES = 32"
definition NOISE_AEAD_TAG_BYTES :: nat where "NOISE_AEAD_TAG_BYTES = 16"
definition MAX_HANDSHAKE_MESSAGE_BYTES :: nat where "MAX_HANDSHAKE_MESSAGE_BYTES = 2048"
definition MAX_HANDSHAKE_PAYLOAD_BYTES :: nat where "MAX_HANDSHAKE_PAYLOAD_BYTES = 96"
definition HANDSHAKE_FRAME_VERSION :: u8 where "HANDSHAKE_FRAME_VERSION = 1"
definition NOISE_IDENTITY_CLAIM_BYTES :: nat where "NOISE_IDENTITY_CLAIM_BYTES = 50"
definition IDENTITY_CLAIM_KIND_HOST :: u8 where "IDENTITY_CLAIM_KIND_HOST = 1"
definition IDENTITY_CLAIM_KIND_DEVICE :: u8 where "IDENTITY_CLAIM_KIND_DEVICE = 2"
definition INNER_AD_VERSION :: u8 where "INNER_AD_VERSION = 1"
definition INNER_AD_HEADER_BYTES :: nat where
  "INNER_AD_HEADER_BYTES = 1 + 8 + 1 + 1 + 16 + 32 + SEALED_NONCE_BYTES"

lemmas noise_sizes = NOISE_STATIC_KEY_BYTES_def NOISE_AEAD_TAG_BYTES_def
  MAX_HANDSHAKE_MESSAGE_BYTES_def MAX_HANDSHAKE_PAYLOAD_BYTES_def NOISE_IDENTITY_CLAIM_BYTES_def
  INNER_AD_HEADER_BYTES_def SEALED_NONCE_BYTES_def SEALED_TAG_BYTES_def

definition all_zero :: "u8 list \<Rightarrow> bool" where
  "all_zero bytes \<longleftrightarrow> list_all (\<lambda>b. b = 0) bytes"

definition reject_all_zero_key :: "u8 list \<Rightarrow> crypto_error + unit" where
  "reject_all_zero_key bytes = (if all_zero bytes then Inl IdentityBinding else Inr ())"

text \<open>A static key, private or public: 32 bytes that are not all zero.\<close>

definition noise_key_from_bytes :: "u8 list \<Rightarrow> crypto_error + u8 list" where
  "noise_key_from_bytes bytes = rbind (reject_all_zero_key bytes) (\<lambda>_. Inr bytes)"

record noise_identity_binding =
  host_public_id :: "u8 list"
  device_public_id :: "u8 list option"

definition claim_id :: "noise_identity_binding \<Rightarrow> u8 list" where
  "claim_id b = (case device_public_id b of Some d \<Rightarrow> d | None \<Rightarrow> host_public_id b)"

record noise_custody =
  custody_private :: "u8 list"
  custody_public :: "u8 list"

definition custody_from_vault :: "u8 list \<Rightarrow> u8 list \<Rightarrow> crypto_error + noise_custody" where
  "custody_from_vault private_key public_key =
     rbind (reject_all_zero_key private_key) (\<lambda>_. rbind (reject_all_zero_key public_key) (\<lambda>_.
       Inr \<lparr> custody_private = private_key, custody_public = public_key \<rparr>))"

datatype identity_claim_kind = HostClaim | DeviceClaim

definition claim_kind_from_wire :: "u8 \<Rightarrow> identity_claim_kind option" where
  "claim_kind_from_wire kind =
     (if kind = IDENTITY_CLAIM_KIND_HOST then Some HostClaim
      else if kind = IDENTITY_CLAIM_KIND_DEVICE then Some DeviceClaim
      else None)"

record authenticated_peer =
  peer_static_public :: "u8 list"
  peer_public_id :: "u8 list"
  peer_kind :: identity_claim_kind

record identity_claim =
  claim_kind :: u8
  claim_public_id :: "u8 list"
  claim_static_public :: "u8 list"

definition encode_identity_claim :: "identity_claim \<Rightarrow> u8 list" where
  "encode_identity_claim c =
     [1, claim_kind c] @ claim_public_id c @ claim_static_public c"

definition decode_identity_claim :: "u8 list \<Rightarrow> crypto_error + identity_claim" where
  "decode_identity_claim bytes =
     (if length bytes \<noteq> NOISE_IDENTITY_CLAIM_BYTES \<or> bytes ! 0 \<noteq> 1 then Inl IdentityBinding
      else let kind = bytes ! 1; public_id = slice 2 18 bytes; static_bytes = slice 18 50 bytes in
      if kind \<noteq> IDENTITY_CLAIM_KIND_HOST \<and> kind \<noteq> IDENTITY_CLAIM_KIND_DEVICE then
        Inl IdentityBinding
      else if all_zero public_id then Inl IdentityBinding
      else if all_zero static_bytes then Inl IdentityBinding
      else rbind (noise_key_from_bytes static_bytes) (\<lambda>key. Inr
        \<lparr> claim_kind = kind, claim_public_id = public_id, claim_static_public = key \<rparr>))"

definition public_key_from_slice :: "u8 list \<Rightarrow> crypto_error + u8 list" where
  "public_key_from_slice bytes =
     (if length bytes < NOISE_STATIC_KEY_BYTES then Inl UnexpectedPeer
      else map_err (\<lambda>_. UnexpectedPeer)
        (noise_key_from_bytes (take NOISE_STATIC_KEY_BYTES bytes)))"

section \<open>Handshake messages\<close>

record noise_handshake_message =
  message_step :: u8
  message_body :: "u8 list"

definition message_encoded_len :: "noise_handshake_message \<Rightarrow> nat" where
  "message_encoded_len m = 2 + length (message_body m)"

definition message_validate :: "noise_handshake_message \<Rightarrow> crypto_error + unit" where
  "message_validate m =
     (if message_encoded_len m > MAX_HANDSHAKE_MESSAGE_BYTES then Inl HandshakeOversized else Inr ())"

definition message_encode :: "noise_handshake_message \<Rightarrow> crypto_error + u8 list" where
  "message_encode m = rbind (message_validate m) (\<lambda>_. Inr
     ([HANDSHAKE_FRAME_VERSION, message_step m] @ message_body m))"

definition message_decode :: "u8 list \<Rightarrow> crypto_error + noise_handshake_message" where
  "message_decode bytes =
     (if length bytes > MAX_HANDSHAKE_MESSAGE_BYTES then Inl HandshakeOversized
      else if length bytes < 2 then Inl (TruncatedFrame (length bytes))
      else if bytes ! 0 \<noteq> HANDSHAKE_FRAME_VERSION then Inl (UnsupportedVersion (bytes ! 0))
      else let message = \<lparr> message_step = bytes ! 1, message_body = drop 2 bytes \<rparr> in
        rbind (message_validate message) (\<lambda>_. Inr message))"

section \<open>The handshake\<close>

datatype snow_error =
    NotTurnToWrite | NotTurnToRead | HandshakeAlreadyFinished | Exhausted
  | SnowInput | SnowDecrypt | SnowOther

record ('h, 't) snow =
  hs_build :: "rstr \<Rightarrow> u8 list \<Rightarrow> u8 list \<Rightarrow> u8 list option \<Rightarrow> bool \<Rightarrow> snow_error + 'h"
  hs_is_my_turn :: "'h \<Rightarrow> bool"
  hs_write :: "'h \<Rightarrow> u8 list \<Rightarrow> nat \<Rightarrow> (snow_error + u8 list) \<times> 'h"
  hs_read :: "'h \<Rightarrow> u8 list \<Rightarrow> nat \<Rightarrow> (snow_error + u8 list) \<times> 'h"
  hs_remote_static :: "'h \<Rightarrow> u8 list option"
  hs_is_finished :: "'h \<Rightarrow> bool"
  hs_into_transport :: "'h \<Rightarrow> snow_error + 't"
  tr_write :: "'t \<Rightarrow> u8 list \<Rightarrow> nat \<Rightarrow> (snow_error + u8 list) \<times> 't"
  tr_read :: "'t \<Rightarrow> u8 list \<Rightarrow> nat \<Rightarrow> (snow_error + u8 list) \<times> 't"
  parse_params :: "rstr \<Rightarrow> bool"

definition NOISE_FIRST_PAIRING_PATTERN :: rstr where
  "NOISE_FIRST_PAIRING_PATTERN = lit ''Noise_XX_25519_ChaChaPoly_BLAKE2s''"
definition NOISE_PINNED_DEVICE_PATTERN :: rstr where
  "NOISE_PINNED_DEVICE_PATTERN = lit ''Noise_IK_25519_ChaChaPoly_BLAKE2s''"

definition map_handshake_error :: "snow_error \<Rightarrow> crypto_error" where
  "map_handshake_error e = (case e of
      NotTurnToWrite \<Rightarrow> HandshakeWrongRole | NotTurnToRead \<Rightarrow> HandshakeWrongRole
    | HandshakeAlreadyFinished \<Rightarrow> HandshakeDuplicate
    | SnowInput \<Rightarrow> HandshakeOversized
    | SnowDecrypt \<Rightarrow> Authenticity
    | _ \<Rightarrow> HandshakeFailed)"

definition map_transport_error :: "snow_error \<Rightarrow> crypto_error" where
  "map_transport_error e = (case e of
      SnowDecrypt \<Rightarrow> Authenticity
    | SnowInput \<Rightarrow> PlaintextExceeded (ucast MAX_SEALED_PLAINTEXT_BYTES + 1)
    | Exhausted \<Rightarrow> SequenceExhausted
    | _ \<Rightarrow> Authenticity)"

text \<open>\<open>generate_noise_static_keypair\<close>: the key generator of the builder is the argument \<open>generate\<close>.\<close>

definition parse_locked_params :: "('h, 't) snow \<Rightarrow> rstr \<Rightarrow> crypto_error + unit" where
  "parse_locked_params snow pattern =
     (if parse_params snow pattern then Inr () else Inl AlgorithmDowngrade)"

definition generate_noise_static_keypair ::
  "('h, 't) snow \<Rightarrow> (snow_error + u8 list \<times> u8 list) \<Rightarrow> crypto_error + u8 list \<times> u8 list" where
  "generate_noise_static_keypair snow generate =
     rbind (parse_locked_params snow NOISE_FIRST_PAIRING_PATTERN) (\<lambda>_.
     rbind (map_err (\<lambda>_. EntropyUnavailable) generate) (\<lambda>(private_bytes, public_bytes).
       if length private_bytes \<noteq> NOISE_STATIC_KEY_BYTES \<or> length public_bytes \<noteq> NOISE_STATIC_KEY_BYTES
       then Inl HandshakeFailed
       else rbind (noise_key_from_bytes private_bytes) (\<lambda>private_key.
         rbind (noise_key_from_bytes public_bytes) (\<lambda>public_key. Inr (private_key, public_key)))))"

definition custody_generate ::
  "('h, 't) snow \<Rightarrow> (snow_error + u8 list \<times> u8 list) \<Rightarrow> crypto_error + noise_custody" where
  "custody_generate snow generate = map_ok
     (\<lambda>(private_key, public_key). \<lparr> custody_private = private_key, custody_public = public_key \<rparr>)
     (generate_noise_static_keypair snow generate)"

record 'h noise_handshake =
  hs_state :: 'h
  hs_role :: channel_role
  first_pairing :: bool
  hs_prologue :: crypto_prologue
  local_public :: "u8 list"
  local_identity :: noise_identity_binding
  expected_remote :: "u8 list option"
  remote_peer :: "authenticated_peer option"
  writes :: u8
  reads :: u8
  expected_messages :: u8
  hs_opened_at :: u64
  hs_direct :: bool

definition validate_noise_pattern :: "rstr \<Rightarrow> bool \<Rightarrow> crypto_error + unit" where
  "validate_noise_pattern pattern first =
     (if pattern \<noteq> (if first then NOISE_FIRST_PAIRING_PATTERN else NOISE_PINNED_DEVICE_PATTERN)
      then Inl AlgorithmDowngrade else Inr ())"

definition handshake_open ::
  "('h, 't) snow \<Rightarrow> rstr \<Rightarrow> bool \<Rightarrow> u8 list \<Rightarrow> u8 list \<Rightarrow> u8 list option \<Rightarrow> crypto_prologue
     \<Rightarrow> channel_role \<Rightarrow> noise_identity_binding \<Rightarrow> u64 \<Rightarrow> bool \<Rightarrow> crypto_error + 'h noise_handshake" where
  "handshake_open snow pattern first local_static lpublic expected prologue role identity now direct =
     (let prologue_bytes = canonical_bytes prologue in
      if prologue_bytes = [] then Inl EmptyPrologue else
      rbind (reject_all_zero_key local_static) (\<lambda>_.
      rbind (reject_all_zero_key lpublic) (\<lambda>_.
      rbind (case expected of None \<Rightarrow> Inr () | Some remote \<Rightarrow> reject_all_zero_key remote) (\<lambda>_.
      if all_zero (host_public_id identity) then Inl IdentityBinding
      else if (case device_public_id identity of None \<Rightarrow> False | Some d \<Rightarrow> all_zero d) then
        Inl IdentityBinding
      else rbind (parse_locked_params snow pattern) (\<lambda>_.
        rbind (map_err (\<lambda>_. HandshakeFailed)
          (hs_build snow pattern local_static prologue_bytes (if first then None else expected)
            (role = Initiator))) (\<lambda>state. Inr
        \<lparr> hs_state = state, hs_role = role, first_pairing = first, hs_prologue = prologue,
          local_public = lpublic, local_identity = identity, expected_remote = expected,
          remote_peer = None, writes = 0, reads = 0,
          expected_messages = (if first then 3 else 2), hs_opened_at = now, hs_direct = direct \<rparr>))))))"

datatype crypto_hold_reason =
    ProductionReviewRequired | MissingSnowCrate | DualTargetUnproven | IndependentReviewRequired
  | AlgorithmRejected | MissingStaticKey | HandshakeRejected

definition instantiate_noise_channel ::
  "('h, 't) snow \<Rightarrow> rstr \<Rightarrow> bool \<Rightarrow> u8 list \<Rightarrow> u8 list \<Rightarrow> u8 list option \<Rightarrow> crypto_prologue
     \<Rightarrow> channel_role \<Rightarrow> noise_identity_binding \<Rightarrow> u64 \<Rightarrow> bool \<Rightarrow> crypto_hold_reason + 'h noise_handshake"
where
  "instantiate_noise_channel snow pattern first local_static lpublic expected prologue role identity
     now direct =
     rbind (map_err (\<lambda>_. AlgorithmRejected) (validate_noise_pattern pattern first)) (\<lambda>_.
     if \<not> first \<and> expected = None then Inl MissingStaticKey
     else map_err (\<lambda>e. case e of AlgorithmDowngrade \<Rightarrow> AlgorithmRejected
           | EmptyPrologue \<Rightarrow> AlgorithmRejected | RevokedKey \<Rightarrow> AlgorithmRejected
           | _ \<Rightarrow> HandshakeRejected)
         (handshake_open snow pattern first local_static lpublic expected prologue role identity
            now direct))"

definition hs_done :: "'h noise_handshake \<Rightarrow> bool" where
  "hs_done h \<longleftrightarrow> writes h + reads h \<ge> expected_messages h"

definition local_claim_bytes :: "'h noise_handshake \<Rightarrow> u8 list" where
  "local_claim_bytes h = encode_identity_claim
     \<lparr> claim_kind = (if is_some (device_public_id (local_identity h)) then IDENTITY_CLAIM_KIND_DEVICE
                     else IDENTITY_CLAIM_KIND_HOST),
       claim_public_id = claim_id (local_identity h), claim_static_public = local_public h \<rparr>"

definition write_message ::
  "('h, 't) snow \<Rightarrow> 'h noise_handshake
     \<Rightarrow> (crypto_error + noise_handshake_message) \<times> 'h noise_handshake" where
  "write_message snow h =
     (if hs_done h then (Inl HandshakeDuplicate, h)
      else if \<not> hs_is_my_turn snow (hs_state h) then (Inl HandshakeWrongRole, h)
      else let step = writes h + reads h; claim = local_claim_bytes h in
      if length claim > MAX_HANDSHAKE_PAYLOAD_BYTES then (Inl HandshakeOversized, h)
      else case hs_write snow (hs_state h) claim MAX_HANDSHAKE_MESSAGE_BYTES of
        (Inl e, st) \<Rightarrow> (Inl (map_handshake_error e), h\<lparr> hs_state := st \<rparr>)
      | (Inr body, st) \<Rightarrow>
          let h1 = h\<lparr> hs_state := st \<rparr> in
          if length body > MAX_HANDSHAKE_MESSAGE_BYTES then (Inl HandshakeOversized, h1)
          else (case checked_add (writes h1) 1 of
              None \<Rightarrow> (Inl HandshakeFailed, h1)
            | Some n \<Rightarrow> (Inr \<lparr> message_step = step, message_body = body \<rparr>, h1\<lparr> writes := n \<rparr>)))"

text \<open>The identity claim of the peer, once its static key is known.\<close>

definition bind_peer ::
  "('h, 't) snow \<Rightarrow> 'h noise_handshake \<Rightarrow> u8 list \<Rightarrow> (crypto_error + unit) \<times> 'h noise_handshake" where
  "bind_peer snow h claim_bytes = (case decode_identity_claim claim_bytes of
      Inl e \<Rightarrow> (Inl e, h)
    | Inr claim \<Rightarrow> (case hs_remote_static snow (hs_state h) of
          None \<Rightarrow> (Inr (), h)
        | Some remote \<Rightarrow> (case public_key_from_slice remote of
              Inl e \<Rightarrow> (Inl e, h)
            | Inr remote_key \<Rightarrow>
                if claim_static_public claim \<noteq> remote_key then (Inl IdentityBinding, h)
                else if (case expected_remote h of
                    None \<Rightarrow> False | Some e \<Rightarrow> \<not> constant_time_eq e remote_key)
                then (Inl UnexpectedPeer, h)
                else (case claim_kind_from_wire (claim_kind claim) of
                    None \<Rightarrow> (Inl IdentityBinding, h)
                  | Some kind \<Rightarrow> (Inr (), h\<lparr> remote_peer := Some
                      \<lparr> peer_static_public = remote_key, peer_public_id = claim_public_id claim,
                        peer_kind = kind \<rparr> \<rparr>)))))"

definition read_message ::
  "('h, 't) snow \<Rightarrow> 'h noise_handshake \<Rightarrow> noise_handshake_message
     \<Rightarrow> (crypto_error + unit) \<times> 'h noise_handshake" where
  "read_message snow h m =
     (if hs_done h then (Inl HandshakeDuplicate, h)
      else if hs_is_my_turn snow (hs_state h) then (Inl HandshakeWrongRole, h)
      else if message_step m \<noteq> writes h + reads h then (Inl HandshakeOutOfOrder, h)
      else if length (message_body m) > MAX_HANDSHAKE_MESSAGE_BYTES then (Inl HandshakeOversized, h)
      else case hs_read snow (hs_state h) (message_body m) MAX_HANDSHAKE_PAYLOAD_BYTES of
        (Inl e, st) \<Rightarrow> (Inl (map_handshake_error e), h\<lparr> hs_state := st \<rparr>)
      | (Inr claim_bytes, st) \<Rightarrow>
          let h1 = h\<lparr> hs_state := st \<rparr> in
          if length claim_bytes > MAX_HANDSHAKE_PAYLOAD_BYTES then (Inl HandshakeOversized, h1)
          else (case (if claim_bytes \<noteq> [] then bind_peer snow h1 claim_bytes else (Inr (), h1)) of
              (Inl e, h2) \<Rightarrow> (Inl e, h2)
            | (Inr _, h2) \<Rightarrow> (case checked_add (reads h2) 1 of
                  None \<Rightarrow> (Inl HandshakeFailed, h2)
                | Some n \<Rightarrow> (Inr (), h2\<lparr> reads := n \<rparr>))))"

record 't noise_transport =
  tr_state :: 't
  tr_role :: channel_role
  tr_prologue :: crypto_prologue
  tr_local_static :: "u8 list"
  tr_remote :: authenticated_peer
  tr_opened_at :: u64
  tr_direct :: bool

definition handshake_finish ::
  "('h, 't) snow \<Rightarrow> 'h noise_handshake \<Rightarrow> crypto_error + 't noise_transport" where
  "handshake_finish snow h =
     (if \<not> hs_is_finished snow (hs_state h) then Inl HandshakeFailed
      else rbind (ok_or (hs_remote_static snow (hs_state h)) UnexpectedPeer) (\<lambda>raw.
      rbind (public_key_from_slice raw) (\<lambda>remote_static.
      if (case expected_remote h of None \<Rightarrow> False | Some e \<Rightarrow> \<not> constant_time_eq e remote_static)
      then Inl UnexpectedPeer
      else rbind (ok_or (remote_peer h) IdentityBinding) (\<lambda>remote.
      if peer_static_public remote \<noteq> remote_static then Inl IdentityBinding
      else rbind (map_err (\<lambda>_. HandshakeFailed) (hs_into_transport snow (hs_state h))) (\<lambda>transport. Inr
        \<lparr> tr_state = transport, tr_role = hs_role h, tr_prologue = hs_prologue h,
          tr_local_static = local_public h, tr_remote = remote, tr_opened_at = hs_opened_at h,
          tr_direct = hs_direct h \<rparr>)))))"

section \<open>The transport\<close>

definition purpose_byte :: "credential_purpose \<Rightarrow> u8" where
  "purpose_byte p = (case p of OwnerPairing \<Rightarrow> 0 | TaskInvitation \<Rightarrow> 1)"

definition route_byte :: "bool \<Rightarrow> u8" where
  "route_byte direct = (if direct then 1 else 2)"

definition encode_transport_inner ::
  "crypto_prologue \<Rightarrow> bool \<Rightarrow> u64 \<Rightarrow> u8 list \<Rightarrow> u8 list \<Rightarrow> authenticated_peer \<Rightarrow> u8 list
     \<Rightarrow> crypto_error + u8 list" where
  "encode_transport_inner prologue direct sequence nonce sender remote plaintext =
     (let declared = len_u64 (replicate INNER_AD_HEADER_BYTES 0 @ plaintext) in
      if declared > ucast MAX_SEALED_PLAINTEXT_BYTES then Inl (PlaintextExceeded declared)
      else rbind (reject_all_zero_key sender) (\<lambda>_.
      rbind (reject_all_zero_key (peer_static_public remote)) (\<lambda>_. Inr
        ([INNER_AD_VERSION] @ to_be_bytes sequence @ [purpose_byte (prologue_purpose prologue)] @
         [route_byte direct] @ session_id prologue @ sender @ nonce @ plaintext))))"

definition decode_transport_inner ::
  "crypto_prologue \<Rightarrow> bool \<Rightarrow> sealed_frame \<Rightarrow> authenticated_peer \<Rightarrow> u8 list \<Rightarrow> crypto_error + u8 list"
where
  "decode_transport_inner prologue direct f remote inner =
     (if length inner < INNER_AD_HEADER_BYTES then Inl Authenticity
      else if inner ! 0 \<noteq> INNER_AD_VERSION then Inl Authenticity
      else if from_be_bytes (slice 1 9 inner) \<noteq> frame_sequence f then Inl Authenticity
      else if inner ! 9 \<noteq> 0 \<and> inner ! 9 \<noteq> 1 then Inl Authenticity
      else if (if inner ! 9 = 0 then OwnerPairing else TaskInvitation) \<noteq> prologue_purpose prologue
      then Inl Authenticity
      else if inner ! 10 \<noteq> route_byte direct then Inl Authenticity
      else if slice 11 27 inner \<noteq> session_id prologue then Inl Authenticity
      else rbind (map_err (\<lambda>_. Authenticity) (reject_all_zero_key (peer_static_public remote))) (\<lambda>_.
      if \<not> constant_time_eq (slice 27 59 inner) (peer_static_public remote) then Inl Authenticity
      else if slice 59 75 inner \<noteq> frame_nonce f then Inl Authenticity
      else Inr (drop INNER_AD_HEADER_BYTES inner)))"

definition frame_from_noise_output ::
  "u64 \<Rightarrow> u8 list \<Rightarrow> u8 list \<Rightarrow> crypto_error + sealed_frame" where
  "frame_from_noise_output sequence nonce message =
     (if length message < NOISE_AEAD_TAG_BYTES then Inl HandshakeFailed
      else let split = length message - NOISE_AEAD_TAG_BYTES in
        from_parts SEALED_FRAME_VERSION sequence nonce (take split message)
          (drop split message @ replicate (SEALED_TAG_BYTES - NOISE_AEAD_TAG_BYTES) 0))"

definition noise_output_from_frame :: "sealed_frame \<Rightarrow> crypto_error + u8 list" where
  "noise_output_from_frame f =
     (if list_ex (\<lambda>b. b \<noteq> 0) (drop NOISE_AEAD_TAG_BYTES (frame_tag f)) then Inl Authenticity
      else Inr (ciphertext f @ take NOISE_AEAD_TAG_BYTES (frame_tag f)))"

definition transport_seal ::
  "('h, 't) snow \<Rightarrow> 't noise_transport \<Rightarrow> u64 \<Rightarrow> u8 list \<Rightarrow> u8 list
     \<Rightarrow> (crypto_error + sealed_frame) \<times> 't noise_transport" where
  "transport_seal snow t sequence nonce plaintext =
     (if sequence = 0 then (Inl ZeroSequence, t)
      else case encode_transport_inner (tr_prologue t) (tr_direct t) sequence nonce
          (tr_local_static t) (tr_remote t) plaintext of
        Inl e \<Rightarrow> (Inl e, t)
      | Inr inner \<Rightarrow> (case tr_write snow (tr_state t) inner (length inner + NOISE_AEAD_TAG_BYTES) of
            (Inl e, st) \<Rightarrow> (Inl (map_transport_error e), t\<lparr> tr_state := st \<rparr>)
          | (Inr message, st) \<Rightarrow>
              (frame_from_noise_output sequence nonce message, t\<lparr> tr_state := st \<rparr>)))"

definition transport_open ::
  "('h, 't) snow \<Rightarrow> 't noise_transport \<Rightarrow> sealed_frame \<Rightarrow> (crypto_error + u8 list) \<times> 't noise_transport"
where
  "transport_open snow t f = (case sealed_frame_validate f of
      Inl e \<Rightarrow> (Inl e, t)
    | Inr _ \<Rightarrow> (case noise_output_from_frame f of
        Inl e \<Rightarrow> (Inl e, t)
      | Inr message \<Rightarrow> (case tr_read snow (tr_state t) message (length message) of
          (Inl e, st) \<Rightarrow> (Inl (map_transport_error e), t\<lparr> tr_state := st \<rparr>)
        | (Inr inner, st) \<Rightarrow>
            (decode_transport_inner (tr_prologue t) (tr_direct t) f (tr_remote t) inner,
             t\<lparr> tr_state := st \<rparr>))))"

section \<open>The inner header\<close>

text \<open>The inner message of a plaintext: the header that binds it, then the plaintext.\<close>

definition bound_inner ::
  "crypto_prologue \<Rightarrow> bool \<Rightarrow> u64 \<Rightarrow> u8 list \<Rightarrow> u8 list \<Rightarrow> u8 list \<Rightarrow> u8 list" where
  "bound_inner prologue direct sequence nonce sender plaintext =
     [INNER_AD_VERSION] @ to_be_bytes sequence @ [purpose_byte (prologue_purpose prologue)] @
     [route_byte direct] @ session_id prologue @ sender @ nonce @ plaintext"

lemma inner_parts:
  assumes "75 \<le> length inner"
  shows "inner = [inner ! 0] @ slice 1 9 inner @ [inner ! 9] @ [inner ! 10] @ slice 11 27 inner @
    slice 27 59 inner @ slice 59 75 inner @ drop 75 inner"
proof -
  have "[inner ! 9] @ drop 10 inner = drop 9 inner" "[inner ! 10] @ drop 11 inner = drop 10 inner"
    using assms Cons_nth_drop_Suc[of 9 inner] Cons_nth_drop_Suc[of 10 inner] by simp_all
  moreover have "[inner ! 0] @ drop 1 inner = inner" using assms by (cases inner) simp_all
  ultimately show ?thesis by (simp add: slice_drop del: One_nat_def)
qed

lemma bound_inner_parts:
  assumes "length (session_id p) = 16" and "length sender = 32" and "length nonce = 16"
    and "inner = bound_inner p direct sequence nonce sender plaintext"
  shows "inner ! 0 = INNER_AD_VERSION" "slice 1 9 inner = to_be_bytes sequence"
    "inner ! 9 = purpose_byte (prologue_purpose p)" "inner ! 10 = route_byte direct"
    "slice 11 27 inner = session_id p" "slice 27 59 inner = sender" "slice 59 75 inner = nonce"
    "drop 75 inner = plaintext" "length inner = 75 + length plaintext"
  using assms by (simp_all add: bound_inner_def slice_def nth_append)

lemma decode_transport_inner_iff:
  assumes "length (session_id p) = 16" and "length (peer_static_public remote) = 32"
    and "\<not> all_zero (peer_static_public remote)" and "length (frame_nonce f) = 16"
  shows "decode_transport_inner p direct f remote inner = Inr plaintext \<longleftrightarrow>
    inner = bound_inner p direct (frame_sequence f) (frame_nonce f) (peer_static_public remote) plaintext"
proof
  assume d: "decode_transport_inner p direct f remote inner = Inr plaintext"
  then have len: "75 \<le> length inner"
    by (auto simp: decode_transport_inner_def noise_sizes split: if_splits)
  have "inner ! 9 = purpose_byte (prologue_purpose p)"
    using d by (auto simp: decode_transport_inner_def purpose_byte_def split: if_splits)
  moreover have "to_be_bytes (from_be_bytes (slice 1 9 inner) :: u64) = slice 1 9 inner"
    using len by (intro to_from_be_bytes) (simp_all add: length_slice)
  ultimately show "inner = bound_inner p direct (frame_sequence f) (frame_nonce f)
      (peer_static_public remote) plaintext"
    using d inner_parts[OF len]
    by (auto simp: decode_transport_inner_def bound_inner_def noise_sizes constant_time_eq_iff
        rbind_Inr_iff split: if_splits)
next
  assume "inner = bound_inner p direct (frame_sequence f) (frame_nonce f)
      (peer_static_public remote) plaintext"
  then show "decode_transport_inner p direct f remote inner = Inr plaintext"
    using bound_inner_parts[OF assms(1,2,4), of inner direct "frame_sequence f" plaintext] assms(3)
    by (cases "prologue_purpose p")
      (simp_all add: decode_transport_inner_def noise_sizes constant_time_eq_iff purpose_byte_def
        reject_all_zero_key_def)
qed

section \<open>Frames of the transport\<close>

lemma noise_frame_roundtrip:
  assumes "16 \<le> length message" and "length message \<le> unat MAX_SEALED_PLAINTEXT_BYTES"
    and "sequence \<noteq> 0" and "length nonce = 16"
  shows "\<exists>f. frame_from_noise_output sequence nonce message = Inr f \<and> frame_typed f \<and>
     sealed_frame_validate f = Inr () \<and> noise_output_from_frame f = Inr message \<and>
     frame_sequence f = sequence \<and> frame_nonce f = nonce"
proof -
  let ?n = "length message - 16"
  let ?f = "\<lparr> frame_version = SEALED_FRAME_VERSION, frame_sequence = sequence, frame_nonce = nonce,
     ciphertext = take ?n message, frame_tag = drop ?n message @ replicate 16 0 \<rparr>"
  have "sealed_frame_validate ?f = Inr ()"
    using assms by (simp add: sealed_frame_validate_def encoded_len_def sealed_sizes)
  moreover from this have "frame_from_noise_output sequence nonce message = Inr ?f"
    using assms(1) by (simp add: frame_from_noise_output_def noise_sizes from_parts_Inr_iff Let_def)
  moreover have "noise_output_from_frame ?f = Inr message"
    using assms(1) by (simp add: noise_output_from_frame_def noise_sizes list_ex_iff)
  moreover have "frame_typed ?f" using assms by (simp add: frame_typed_def sealed_sizes)
  ultimately show ?thesis by fastforce
qed

text \<open>
  What the code relies on of two transport states of one finished handshake: a message the Noise
  protocol allows (at most 65535 bytes with its tag) is sealed with sixteen more bytes and read
  back by the other side.
\<close>

definition noise_link :: "('h, 't) snow \<Rightarrow> 't \<Rightarrow> 't \<Rightarrow> bool" where
  "noise_link snow a b \<longleftrightarrow> (\<forall>m. length m + 16 \<le> 65535 \<longrightarrow>
     (\<exists>c a' b'. tr_write snow a m (length m + 16) = (Inr c, a') \<and> length c = length m + 16 \<and>
                tr_read snow b c (length c) = (Inr m, b')))"

definition transports_agree :: "'t noise_transport \<Rightarrow> 't noise_transport \<Rightarrow> bool" where
  "transports_agree a b \<longleftrightarrow>
     tr_prologue a = tr_prologue b \<and> tr_direct a = tr_direct b \<and>
     peer_static_public (tr_remote b) = tr_local_static a \<and>
     length (tr_local_static a) = 32 \<and> \<not> all_zero (tr_local_static a) \<and>
     \<not> all_zero (peer_static_public (tr_remote a)) \<and> length (session_id (tr_prologue a)) = 16"

lemma encode_transport_inner_ok:
  assumes "length plaintext + 75 \<le> unat MAX_SEALED_PLAINTEXT_BYTES" and "\<not> all_zero sender"
    and "\<not> all_zero (peer_static_public remote)"
  shows "encode_transport_inner p direct sequence nonce sender remote plaintext =
    Inr (bound_inner p direct sequence nonce sender plaintext)"
  using assms
  by (simp add: encode_transport_inner_def bound_inner_def reject_all_zero_key_def Let_def noise_sizes)

lemma transport_delivers:
  assumes "noise_link snow (tr_state a) (tr_state b)" and "transports_agree a b"
    and "sequence \<noteq> 0" and "length nonce = 16" and "length plaintext + 91 \<le> 65535"
  shows "\<exists>f bytes. fst (transport_seal snow a sequence nonce plaintext) = Inr f \<and>
           sealed_frame_encode f = Inr bytes \<and> sealed_frame_decode bytes = Inr f \<and>
           fst (transport_open snow b f) = Inr plaintext"
proof -
  have agree: "tr_prologue a = tr_prologue b" "tr_direct a = tr_direct b"
      "peer_static_public (tr_remote b) = tr_local_static a" "length (tr_local_static a) = 32"
      "\<not> all_zero (tr_local_static a)" "\<not> all_zero (peer_static_public (tr_remote a))"
      "length (session_id (tr_prologue b)) = 16"
    using assms(2) by (auto simp: transports_agree_def)
  let ?inner = "bound_inner (tr_prologue b) (tr_direct b) sequence nonce (tr_local_static a) plaintext"
  have enc: "encode_transport_inner (tr_prologue a) (tr_direct a) sequence nonce (tr_local_static a)
      (tr_remote a) plaintext = Inr ?inner"
    using agree assms(5) by (simp add: encode_transport_inner_ok sealed_sizes)
  have len: "length ?inner = 75 + length plaintext"
    using bound_inner_parts(9)[OF agree(7,4) assms(4)] by simp
  then have "length ?inner + 16 \<le> 65535" using assms(5) by simp
  then obtain c a' b2 where c: "tr_write snow (tr_state a) ?inner (length ?inner + 16) = (Inr c, a')"
      "length c = length ?inner + 16" "tr_read snow (tr_state b) c (length c) = (Inr ?inner, b2)"
    using assms(1) unfolding noise_link_def by blast
  have "length c \<le> unat MAX_SEALED_PLAINTEXT_BYTES" "16 \<le> length c"
    using c(2) len assms(5) by (simp_all add: sealed_sizes)
  then obtain f where f: "frame_from_noise_output sequence nonce c = Inr f" "frame_typed f"
      "sealed_frame_validate f = Inr ()" "noise_output_from_frame f = Inr c"
      "frame_sequence f = sequence" "frame_nonce f = nonce"
    using noise_frame_roundtrip[of c sequence nonce] assms(3,4) by blast
  obtain bytes where bytes: "sealed_frame_encode f = Inr bytes"
    using f(3) by (simp add: sealed_frame_encode_def)
  have "fst (transport_seal snow a sequence nonce plaintext) = Inr f"
    using assms(3) enc c(1) f(1) by (simp add: transport_seal_def noise_sizes)
  moreover have "decode_transport_inner (tr_prologue b) (tr_direct b) f (tr_remote b) ?inner = Inr plaintext"
    using agree f(5,6) assms(4) by (simp add: decode_transport_inner_iff)
  then have "fst (transport_open snow b f) = Inr plaintext"
    using f(3,4) c(3) by (simp add: transport_open_def)
  ultimately show "\<exists>f bytes. fst (transport_seal snow a sequence nonce plaintext) = Inr f \<and>
           sealed_frame_encode f = Inr bytes \<and> sealed_frame_decode bytes = Inr f \<and>
           fst (transport_open snow b f) = Inr plaintext"
    using bytes sealed_frame_decode_encode[OF f(2) bytes] by blast
qed

lemma transport_open_binds:
  assumes "transports_agree a b" and "frame_typed f" and "transport_open snow b f = (Inr p, b')"
  shows "\<exists>message st. noise_output_from_frame f = Inr message \<and>
             tr_read snow (tr_state b) message (length message) =
               (Inr ([1] @ to_be_bytes (frame_sequence f) @
                     [purpose_byte (prologue_purpose (tr_prologue b))] @ [route_byte (tr_direct b)] @
                     session_id (tr_prologue b) @ peer_static_public (tr_remote b) @
                     frame_nonce f @ p), st)"
proof -
  have agree: "peer_static_public (tr_remote b) = tr_local_static a" "length (tr_local_static a) = 32"
      "\<not> all_zero (tr_local_static a)" "length (session_id (tr_prologue b)) = 16"
    using assms(1) by (auto simp: transports_agree_def)
  obtain message inner st where m: "noise_output_from_frame f = Inr message"
      "tr_read snow (tr_state b) message (length message) = (Inr inner, st)"
      "decode_transport_inner (tr_prologue b) (tr_direct b) f (tr_remote b) inner = Inr p"
    using assms(3) by (auto simp: transport_open_def split: sum.splits prod.splits)
  with agree assms(2) show ?thesis
    by (simp add: decode_transport_inner_iff bound_inner_def INNER_AD_VERSION_def frame_typed_def
        SEALED_NONCE_BYTES_def)
qed

text \<open>C36. The Noise transport delivers, and binds what it delivers.  Between two ends of one handshake,
  a plaintext that fits a Noise message is sealed into a frame that survives its encoding and is
  opened to the same plaintext.  And whatever frame an end opens, the authenticated inner message
  carried, in front of the plaintext, the sequence and the nonce of that frame, the purpose and
  the session of the prologue, the route, and the static key of the authenticated peer.
\<close>

theorem noise_transport_binds:
  assumes "noise_link snow (tr_state a) (tr_state b)" and "transports_agree a b"
    and "sequence \<noteq> 0" and "length nonce = 16" and "length plaintext + 91 \<le> 65535"
  shows "(\<exists>f bytes. fst (transport_seal snow a sequence nonce plaintext) = Inr f \<and>
           sealed_frame_encode f = Inr bytes \<and> sealed_frame_decode bytes = Inr f \<and>
           fst (transport_open snow b f) = Inr plaintext) \<and>
         (frame_typed f \<and> transport_open snow b f = (Inr p, b') \<longrightarrow>
           (\<exists>message st. noise_output_from_frame f = Inr message \<and>
             tr_read snow (tr_state b) message (length message) =
               (Inr ([1] @ to_be_bytes (frame_sequence f) @
                     [purpose_byte (prologue_purpose (tr_prologue b))] @ [route_byte (tr_direct b)] @
                     session_id (tr_prologue b) @ peer_static_public (tr_remote b) @
                     frame_nonce f @ p), st)))"
  using transport_delivers[OF assms] transport_open_binds[OF assms(2)] by blast

section \<open>Handshake messages and claims on the wire\<close>

lemma message_roundtrip:
  "message_decode bytes = Inr m \<longleftrightarrow> message_encode m = Inr bytes"
proof
  assume "message_decode bytes = Inr m"
  then show "message_encode m = Inr bytes"
    by (cases bytes; cases "tl bytes")
      (auto simp: message_decode_def message_encode_def rbind_Inr_iff Let_def split: if_splits)
next
  assume "message_encode m = Inr bytes"
  then show "message_decode bytes = Inr m"
    by (cases m) (auto simp: message_decode_def message_encode_def message_validate_def
        message_encoded_len_def rbind_Inr_iff Let_def split: if_splits)
qed

definition claim_ok :: "identity_claim \<Rightarrow> bool" where
  "claim_ok c \<longleftrightarrow> claim_kind_from_wire (claim_kind c) \<noteq> None \<and>
     length (claim_public_id c) = 16 \<and> \<not> all_zero (claim_public_id c) \<and>
     length (claim_static_public c) = 32 \<and> \<not> all_zero (claim_static_public c)"

lemma decode_identity_claim_ok:
  assumes "decode_identity_claim bytes = Inr c"
  shows "claim_ok c"
  using assms
  by (auto simp: decode_identity_claim_def claim_ok_def claim_kind_from_wire_def Let_def
      noise_key_from_bytes_def rbind_Inr_iff length_slice noise_sizes split: if_splits)

lemma claim_roundtrip: "claim_ok c \<Longrightarrow> decode_identity_claim (encode_identity_claim c) = Inr c"
  by (cases c)
    (auto simp: decode_identity_claim_def encode_identity_claim_def claim_ok_def slice_def
      claim_kind_from_wire_def noise_key_from_bytes_def reject_all_zero_key_def noise_sizes
      split: if_splits)

section \<open>The handshake as a state machine\<close>

text \<open>Any interleaving of writes and reads, successful or not.\<close>

inductive hs_steps :: "('h, 't) snow \<Rightarrow> 'h noise_handshake \<Rightarrow> 'h noise_handshake \<Rightarrow> bool"
  for snow h0 where
  start: "hs_steps snow h0 h0"
| wrote: "hs_steps snow h0 h \<Longrightarrow> hs_steps snow h0 (snd (write_message snow h))"
| have_read: "hs_steps snow h0 h \<Longrightarrow> hs_steps snow h0 (snd (read_message snow h m))"

definition peer_ok :: "u8 list option \<Rightarrow> authenticated_peer \<Rightarrow> bool" where
  "peer_ok expected p \<longleftrightarrow> \<not> all_zero (peer_static_public p) \<and> \<not> all_zero (peer_public_id p) \<and>
     (case expected of None \<Rightarrow> True | Some e \<Rightarrow> peer_static_public p = e)"

definition hs_config :: "'h noise_handshake \<Rightarrow> _" where
  "hs_config h = (hs_role h, first_pairing h, hs_prologue h, local_public h, local_identity h,
     expected_remote h, expected_messages h, hs_opened_at h, hs_direct h)"

definition hs_inv :: "'h noise_handshake \<Rightarrow> 'h noise_handshake \<Rightarrow> bool" where
  "hs_inv h0 h \<longleftrightarrow> hs_config h = hs_config h0 \<and>
     unat (writes h) + unat (reads h) \<le> unat (expected_messages h) \<and>
     pred_option (peer_ok (expected_remote h)) (remote_peer h)"

lemma bind_peer_inv:
  assumes "hs_inv h0 h"
  shows "hs_inv h0 (snd (bind_peer snow h claim)) \<and>
    writes (snd (bind_peer snow h claim)) = writes h \<and> reads (snd (bind_peer snow h claim)) = reads h"
proof (cases "decode_identity_claim claim")
  case (Inr c)
  then have "claim_ok c" by (rule decode_identity_claim_ok)
  with Inr assms show ?thesis
    by (auto simp: bind_peer_def hs_inv_def hs_config_def peer_ok_def claim_ok_def
        constant_time_eq_iff         split: option.splits sum.splits if_splits)
qed (use assms in \<open>simp add: bind_peer_def\<close>)

lemma not_done_room:
  assumes "\<not> hs_done h" and "unat (writes h) + unat (reads h) \<le> unat (expected_messages h)"
  shows "unat (writes h) + unat (reads h) < unat (expected_messages h)"
proof -
  have "unat (writes h + reads h) = unat (writes h) + unat (reads h)"
    using assms(2) unsigned_less[of "expected_messages h", where ?'a = nat]
    by (simp add: unat_word_ariths)
  with assms(1) show ?thesis by (simp add: hs_done_def not_le word_less_nat_alt)
qed

lemma write_message_inv:
  assumes "hs_inv h0 h"
  shows "hs_inv h0 (snd (write_message snow h))"
proof (cases "hs_done h")
  case False
  then have "unat (writes h) + unat (reads h) < unat (expected_messages h)"
    using assms by (intro not_done_room) (simp_all add: hs_inv_def)
  with False assms show ?thesis
    by (auto simp: write_message_def Let_def hs_inv_def hs_config_def
        dest!: checked_add_SomeD split: prod.splits sum.splits option.splits)
qed (use assms in \<open>simp add: write_message_def\<close>)

lemma read_message_inv:
  assumes "hs_inv h0 h"
  shows "hs_inv h0 (snd (read_message snow h m))"
proof (cases "hs_done h")
  case False
  then have room: "unat (writes h) + unat (reads h) < unat (expected_messages h)"
    using assms by (intro not_done_room) (simp_all add: hs_inv_def)
  obtain res st where rd: "hs_read snow (hs_state h) (message_body m) MAX_HANDSHAKE_PAYLOAD_BYTES = (res, st)"
    by (cases "hs_read snow (hs_state h) (message_body m) MAX_HANDSHAKE_PAYLOAD_BYTES")
  have st: "hs_inv h0 (h\<lparr> hs_state := st \<rparr>)" using assms by (auto simp: hs_inv_def hs_config_def)
  define bound where "bound c = (if c \<noteq> [] then bind_peer snow (h\<lparr> hs_state := st \<rparr>) c
      else (Inr (), h\<lparr> hs_state := st \<rparr>))" for c
  have h2: "hs_inv h0 h2 \<and> writes h2 = writes h \<and> reads h2 = reads h" if "bound c = (r, h2)" for c r h2
    using that bind_peer_inv[OF st, of snow c] st by (auto simp: bound_def split: if_splits)
  have fin: "hs_inv h0 (h2\<lparr> reads := n \<rparr>)"
    if "bound c = (r, h2)" "checked_add (reads h2) 1 = Some n" for c r h2 n
    using checked_add_SomeD[OF that(2)] h2[OF that(1)] room assms
    by (auto simp: hs_inv_def hs_config_def)
  have "snd (read_message snow h m) = h \<or> snd (read_message snow h m) = h\<lparr> hs_state := st \<rparr> \<or>
      (\<exists>c r h2. bound c = (r, h2) \<and> (snd (read_message snow h m) = h2 \<or>
        (\<exists>n. checked_add (reads h2) 1 = Some n \<and> snd (read_message snow h m) = h2\<lparr> reads := n \<rparr>)))"
    using False
    by (cases res; auto simp: read_message_def rd Let_def simp flip: bound_def
        split: prod.splits sum.splits option.splits)
  then show ?thesis using assms st h2 fin by metis
qed (use assms in \<open>simp add: read_message_def\<close>)

lemma hs_steps_inv:
  assumes "hs_steps snow h0 h" and "hs_inv h0 h0"
  shows "hs_inv h0 h"
  using assms by (induction rule: hs_steps.induct) (auto intro: write_message_inv read_message_inv)

text \<open>C35. A finished Noise handshake has authenticated its peer.  However writes and reads are
  interleaved after \<open>instantiate_noise_channel\<close>, and whatever they answered, no more messages are
  counted than the pattern has; and if \<open>finish\<close> returns a transport, its peer is the one whose
  static key the Noise state authenticated, that key is not the zero key, its claimed identity
  is not empty, it is the expected key when one was given, which is always the case outside a
  first pairing, and the transport keeps the prologue, the route, the role and the local key the
  channel was opened with.
\<close>

theorem noise_handshake_authenticates:
  assumes "instantiate_noise_channel snow pattern first local_static lpublic expected prologue role
      identity now direct = Inr h0"
    and "hs_steps snow h0 h" and "handshake_finish snow h = Inr t"
  shows "(\<exists>raw. hs_remote_static snow (hs_state h) = Some raw \<and>
            peer_static_public (tr_remote t) = take 32 raw) \<and>
         \<not> all_zero (peer_static_public (tr_remote t)) \<and> \<not> all_zero (peer_public_id (tr_remote t)) \<and>
         (case expected of None \<Rightarrow> first | Some e \<Rightarrow> peer_static_public (tr_remote t) = e) \<and>
         tr_prologue t = prologue \<and> tr_direct t = direct \<and> tr_role t = role \<and>
         tr_local_static t = lpublic \<and>
         unat (writes h) + unat (reads h) \<le> (if first then 3 else 2)"
proof (intro conjI)
  have h0: "hs_inv h0 h0" "hs_config h0 = (role, first, prologue, lpublic, identity, expected,
      if first then 3 else 2, now, direct)" and pin: "expected = None \<Longrightarrow> first"
    using assms(1)
    by (auto simp: instantiate_noise_channel_def handshake_open_def rbind_Inr_iff map_err_Inr_iff
        hs_inv_def hs_config_def Let_def split: if_splits)
  then have inv: "hs_config h = hs_config h0" "pred_option (peer_ok expected) (remote_peer h)"
      "unat (writes h) + unat (reads h) \<le> unat (expected_messages h)"
    using hs_steps_inv[OF assms(2)] by (auto simp: hs_inv_def hs_config_def)
  then show "unat (writes h) + unat (reads h) \<le> (if first then 3 else 2)"
    using h0(2) by (auto simp: hs_config_def split: if_splits)
  show raw: "\<exists>raw. hs_remote_static snow (hs_state h) = Some raw \<and>
           peer_static_public (tr_remote t) = take 32 raw"
    using assms(3) by (auto simp: handshake_finish_def rbind_Inr_iff ok_or_Inr_iff map_err_Inr_iff
        public_key_from_slice_def noise_key_from_bytes_def noise_sizes split: if_splits)
  have t: "remote_peer h = Some (tr_remote t)" "tr_prologue t = hs_prologue h"
      "tr_direct t = hs_direct h" "tr_role t = hs_role h" "tr_local_static t = local_public h"
    using assms(3) by (auto simp: handshake_finish_def rbind_Inr_iff ok_or_Inr_iff map_err_Inr_iff
        split: if_splits)
  then have ok: "peer_ok expected (tr_remote t)" using inv(2) by simp
  then show "\<not> all_zero (peer_static_public (tr_remote t))" "\<not> all_zero (peer_public_id (tr_remote t))"
    by (simp_all add: peer_ok_def)
  show "case expected of None \<Rightarrow> first | Some e \<Rightarrow> peer_static_public (tr_remote t) = e"
    using ok pin by (auto simp: peer_ok_def split: option.splits)
  show "tr_prologue t = prologue" "tr_direct t = direct" "tr_role t = role" "tr_local_static t = lpublic"
    using t inv(1) h0(2) by (simp_all add: hs_config_def)
qed

section \<open>A concrete peer\<close>

text \<open>
  An instance of \<open>snow\<close> that keeps only the number of messages: even counts are the initiator's
  turn, a message is its payload, and the remote key is known after the second message.  Its
  transport appends sixteen zero bytes.
\<close>

definition sample_snow :: "(nat, unit) snow" where
  "sample_snow = \<lparr>
     hs_build = (\<lambda>_ _ _ _ _. Inr 0), hs_is_my_turn = even,
     hs_write = (\<lambda>n m _. (Inr m, n + 1)), hs_read = (\<lambda>n m _. (Inr m, n + 1)),
     hs_remote_static = (\<lambda>n. if n \<ge> 2 then Some (replicate 32 5) else None),
     hs_is_finished = (\<lambda>n. n = 2), hs_into_transport = (\<lambda>_. Inr ()),
     tr_write = (\<lambda>_ m _. (Inr (m @ replicate 16 0), ())),
     tr_read = (\<lambda>_ c _. (Inr (take (length c - 16) c), ())),
     parse_params = (\<lambda>_. True) \<rparr>"

definition sample_identity :: noise_identity_binding where
  "sample_identity = \<lparr> host_public_id = replicate 16 7, device_public_id = None \<rparr>"

definition sample_peer :: authenticated_peer where
  "sample_peer = \<lparr> peer_static_public = replicate 32 5, peer_public_id = replicate 16 8,
     peer_kind = HostClaim \<rparr>"

definition sample_answer_message :: noise_handshake_message where
  "sample_answer_message = \<lparr> message_step = 1, message_body = encode_identity_claim
     \<lparr> claim_kind = 1, claim_public_id = replicate 16 8, claim_static_public = replicate 32 5 \<rparr> \<rparr>"

definition sample_handshake :: "nat \<Rightarrow> u8 \<Rightarrow> u8 \<Rightarrow> authenticated_peer option \<Rightarrow> nat noise_handshake" where
  "sample_handshake n w r p = \<lparr> hs_state = n, hs_role = Initiator, first_pairing = False,
     hs_prologue = sample_prologue, local_public = replicate 32 6, local_identity = sample_identity,
     expected_remote = Some (replicate 32 5), remote_peer = p, writes = w, reads = r,
     expected_messages = 2, hs_opened_at = 0, hs_direct = True \<rparr>"

definition sample_transport :: "unit noise_transport" where
  "sample_transport = \<lparr> tr_state = (), tr_role = Initiator, tr_prologue = sample_prologue,
     tr_local_static = replicate 32 6, tr_remote = sample_peer, tr_opened_at = 0, tr_direct = True \<rparr>"

lemma all_zero_replicate [simp]: "all_zero (replicate n b) \<longleftrightarrow> n = 0 \<or> b = 0"
  by (induction n) (auto simp: all_zero_def)

lemma sample_instantiate:
  "instantiate_noise_channel sample_snow NOISE_PINNED_DEVICE_PATTERN False (replicate 32 4)
     (replicate 32 6) (Some (replicate 32 5)) sample_prologue Initiator sample_identity 0 True
   = Inr (sample_handshake 0 0 0 None)"
proof -
  have "canonical_bytes sample_prologue \<noteq> []"
    by (simp add: canonical_bytes_def CONNECT_CRYPTO_PROTOCOL_def label_def Let_def)
  then show ?thesis
    by (simp add: instantiate_noise_channel_def validate_noise_pattern_def handshake_open_def Let_def
        reject_all_zero_key_def parse_locked_params_def sample_identity_def sample_snow_def
        sample_handshake_def)
qed

lemma sample_write: "snd (write_message sample_snow (sample_handshake 0 0 0 None)) = sample_handshake 1 1 0 None"
  by (simp add: write_message_def hs_done_def sample_handshake_def sample_snow_def Let_def
      local_claim_bytes_def encode_identity_claim_def claim_id_def sample_identity_def noise_sizes
      checked_add_def)

lemma sample_claim:
  "decode_identity_claim (message_body sample_answer_message) =
     Inr \<lparr> claim_kind = 1, claim_public_id = replicate 16 8, claim_static_public = replicate 32 5 \<rparr>"
  unfolding sample_answer_message_def
  by (simp add: claim_roundtrip claim_ok_def claim_kind_from_wire_def IDENTITY_CLAIM_KIND_HOST_def)

lemma sample_read:
  "snd (read_message sample_snow (sample_handshake 1 1 0 None) sample_answer_message)
     = sample_handshake 2 1 1 (Some sample_peer)"
proof -
  have body: "length (message_body sample_answer_message) = 50" "message_step sample_answer_message = 1"
      "message_body sample_answer_message \<noteq> []"
    by (simp_all add: sample_answer_message_def encode_identity_claim_def)
  show ?thesis
    by (simp add: read_message_def hs_done_def sample_handshake_def sample_snow_def Let_def body
        bind_peer_def sample_claim public_key_from_slice_def noise_key_from_bytes_def
        reject_all_zero_key_def constant_time_eq_iff claim_kind_from_wire_def
        IDENTITY_CLAIM_KIND_HOST_def noise_sizes checked_add_def sample_peer_def word_le_nat_alt)
qed

lemma sample_finish:
  "handshake_finish sample_snow (sample_handshake 2 1 1 (Some sample_peer)) = Inr sample_transport"
  by (simp add: handshake_finish_def sample_handshake_def sample_snow_def sample_transport_def
      public_key_from_slice_def noise_key_from_bytes_def reject_all_zero_key_def noise_sizes
      constant_time_eq_iff sample_peer_def)

lemma sample_hs_steps:
  "hs_steps sample_snow (sample_handshake 0 0 0 None) (sample_handshake 2 1 1 (Some sample_peer))"
  using hs_steps.have_read[OF hs_steps.wrote[OF hs_steps.start[of sample_snow "sample_handshake 0 0 0 None"]],
      of sample_answer_message]
  by (simp only: sample_write sample_read)

theorem noise_handshake_authenticates_witness:
  "handshake_finish sample_snow (sample_handshake 2 1 1 (Some sample_peer)) = Inr sample_transport \<and>
   peer_static_public (tr_remote sample_transport) = replicate 32 5 \<and>
   tr_prologue sample_transport = sample_prologue"
  using noise_handshake_authenticates[OF sample_instantiate sample_hs_steps sample_finish]
    sample_finish by simp

lemma sample_link: "noise_link sample_snow () ()"
  by (simp add: noise_link_def sample_snow_def)

definition sample_far_transport :: "unit noise_transport" where
  "sample_far_transport = sample_transport\<lparr> tr_role := Responder, tr_local_static := replicate 32 5,
     tr_remote := sample_peer\<lparr> peer_static_public := replicate 32 6 \<rparr> \<rparr>"

lemma sample_agree: "transports_agree sample_transport sample_far_transport"
  by (simp add: transports_agree_def sample_transport_def sample_far_transport_def sample_prologue_def
      sample_peer_def)

theorem noise_transport_binds_witness:
  "\<exists>f bytes. fst (transport_seal sample_snow sample_transport 1 (replicate 16 3) [104, 105]) = Inr f \<and>
     sealed_frame_encode f = Inr bytes \<and> sealed_frame_decode bytes = Inr f \<and>
     fst (transport_open sample_snow sample_far_transport f) = Inr [104, 105]"
  by (rule noise_transport_binds[THEN conjunct1]) (simp_all add: sample_link sample_agree)

end
