(* ===== verification/Client_Index.thy ===== *)
theory Client_Index
  imports Domain_Event "HOL-Library.List_Lexorder" "HOL-Library.Product_Lexorder" "HOL-Library.Sublist"
begin

text \<open>
  The client's ordering and search index, \<open>TaskProjectionIndex\<close> of \<open>src/client/model.rs\<close>: three
  ordered sets of task keys kept current by one update per event, and substring postings over
  the normalised titles that speed up a search which would otherwise walk the whole order.

  A \<open>usize\<close> that counts things held in memory is a \<open>nat\<close>.  What the Rust standard library does not
  fix (capacities of vectors, strings and hash tables, sizes of values) and the Unicode crates
  (\<open>caseless\<close>, \<open>unicode_normalization\<close>) are parameters.  A hash map is read by key only, so an
  ordered map stands for it.  Strings compare by their UTF-8 bytes, which is the lexicographic
  order of their scalar values.
\<close>

section \<open>Bounds\<close>

definition MAX_CLIENT_SEARCH_CHARS :: nat where "MAX_CLIENT_SEARCH_CHARS = 160"
definition MAX_INDEXED_TITLE_CHARS :: nat where "MAX_INDEXED_TITLE_CHARS = MAX_CLIENT_SEARCH_CHARS * 4"
definition MAX_CLIENT_SEARCH_RESULTS :: nat where "MAX_CLIENT_SEARCH_RESULTS = 5000"
definition MAX_CLIENT_SEARCH_WORK :: nat where "MAX_CLIENT_SEARCH_WORK = MAX_CLIENT_SEARCH_RESULTS"
definition MAX_INDEXED_GRAM_CHARS :: nat where "MAX_INDEXED_GRAM_CHARS = 8"
definition MAX_INDEXED_SUBSTRING_SOURCE_CHARS :: nat where "MAX_INDEXED_SUBSTRING_SOURCE_CHARS = 32"
definition MAX_INDEXED_SCALAR_KEYS :: nat where "MAX_INDEXED_SCALAR_KEYS = 4096"
definition MAX_CLIENT_SEARCH_POSTING_BYTES :: nat where
  "MAX_CLIENT_SEARCH_POSTING_BYTES = 32 * 1024 * 1024"
definition MAX_CLIENT_SEARCH_INDEX_KEYS :: nat where "MAX_CLIENT_SEARCH_INDEX_KEYS = 100000"
definition MAX_STORED_IDS_PER_POSTING :: nat where
  "MAX_STORED_IDS_PER_POSTING = MAX_CLIENT_SEARCH_RESULTS"

text \<open>
  The parameters: \<open>fold_text\<close> is the whole sequence of scalars that the chain
  \<open>nfd().default_case_fold().nfkd().default_case_fold().nfkd()\<close> yields; the others are what the
  allocator and the compiler choose.
\<close>

record index_env =
  fold_text :: "rstr \<Rightarrow> rstr"
  string_capacity :: "rstr \<Rightarrow> nat"
  cloned_string_capacity :: "rstr \<Rightarrow> nat"
  grown_capacity :: "nat \<Rightarrow> nat"
  cloned_capacity :: "nat \<Rightarrow> nat"
  search_capacity :: nat
  scalar_capacity :: nat
  size_of_search_entry :: nat
  size_of_scalar_entry :: nat

definition size_of_task_id :: nat where "size_of_task_id = 16"

definition SEARCH_MAP_SLOT_BYTES :: "index_env \<Rightarrow> nat" where
  "SEARCH_MAP_SLOT_BYTES env = size_of_search_entry env + 32"

definition SEARCH_SCALAR_MAP_SLOT_BYTES :: "index_env \<Rightarrow> nat" where
  "SEARCH_SCALAR_MAP_SLOT_BYTES env = size_of_scalar_entry env + 16"

section \<open>Normalised text and tokens\<close>

definition normalize_bounded_search_text :: "index_env \<Rightarrow> rstr \<Rightarrow> nat \<Rightarrow> rstr \<times> bool" where
  "normalize_bounded_search_text env value max_chars =
     (if max_chars = 0 then ([], value \<noteq> [])
      else let source_truncated = length value > max_chars;
               normalized = fold_text env (take max_chars value)
           in (take max_chars normalized, source_truncated \<or> length normalized > max_chars))"

definition search_tokens :: "rstr \<Rightarrow> rstr list" where
  "search_tokens value =
     (let chars = take MAX_INDEXED_SUBSTRING_SOURCE_CHARS value;
          prefixes = map (\<lambda>l. take l chars) [1..<Suc (min MAX_INDEXED_GRAM_CHARS (length chars))];
          grams = concat (map (\<lambda>start. map (\<lambda>l. take l (drop start chars))
                    [4..<Suc (min MAX_INDEXED_GRAM_CHARS (length chars - start))]) [1..<length chars])
      in bkeys (fold bs_insert (prefixes @ grams) bempty))"

definition next_posting_capacity :: "nat \<Rightarrow> nat" where
  "next_posting_capacity capacity = (if capacity = 0 then 4 else capacity * 2)"

definition str_contains :: "rstr \<Rightarrow> rstr \<Rightarrow> bool" where
  "str_contains q s \<longleftrightarrow> list_ex (\<lambda>i. take (length q) (drop i s) = q) [0..<Suc (length s)]"

section \<open>Entries and their order\<close>

definition attention_rank :: "visible_task_status \<Rightarrow> u8" where
  "attention_rank status =
     (case status of
        VsDisconnected \<Rightarrow> 0 | VsFailed \<Rightarrow> 1 | VsUncertainOutcome \<Rightarrow> 2 | VsNeedsApproval \<Rightarrow> 3
      | VsNeedsAnswer \<Rightarrow> 4 | VsWorking \<Rightarrow> 5 | VsSettling \<Rightarrow> 6 | VsReadyForReview \<Rightarrow> 7 | VsIdle \<Rightarrow> 8)"

record task_projection_entry =
  en_lifecycle :: task_lifecycle
  en_attention_rank :: u8
  en_occurred_at_ms :: int
  en_revision :: u64
  en_lower_title :: rstr
  en_title :: rstr

definition entry_from_snapshot :: "index_env \<Rightarrow> task_snapshot \<Rightarrow> int \<Rightarrow> task_projection_entry" where
  "entry_from_snapshot env s at =
     \<lparr> en_lifecycle = tk_lifecycle (sn_task s),
       en_attention_rank = attention_rank (visible_status s),
       en_occurred_at_ms = at,
       en_revision = tk_revision (sn_task s),
       en_lower_title = fst (normalize_bounded_search_text env (tk_title (sn_task s)) MAX_INDEXED_TITLE_CHARS),
       en_title = take MAX_INDEXED_TITLE_CHARS (tk_title (sn_task s)) \<rparr>"

datatype task_order_key = TaskOrderKey (ok_task_id: task_id) (ok_attention_rank: u8)
  (ok_occurred_at_ms: int) (ok_revision: u64) (ok_lower_title: rstr) (ok_title: rstr)

definition order_key :: "task_id \<Rightarrow> task_projection_entry \<Rightarrow> task_order_key" where
  "order_key i e = TaskOrderKey i (en_attention_rank e) (en_occurred_at_ms e) (en_revision e)
     (en_lower_title e) (en_title e)"

text \<open>
  \<open>Ord for TaskOrderKey\<close>: the attention rank ascending, then the time and the revision descending,
  then the two titles and the identity ascending.
\<close>

definition order_rank :: "task_order_key \<Rightarrow> u8 \<times> int \<times> int \<times> rstr \<times> rstr \<times> task_id" where
  "order_rank k = (ok_attention_rank k, - ok_occurred_at_ms k, - uint (ok_revision k),
     ok_lower_title k, ok_title k, ok_task_id k)"

instantiation task_order_key :: linorder
begin
definition less_eq_task_order_key :: "task_order_key \<Rightarrow> task_order_key \<Rightarrow> bool" where
  "less_eq_task_order_key x y \<longleftrightarrow> order_rank x \<le> order_rank y"
definition less_task_order_key :: "task_order_key \<Rightarrow> task_order_key \<Rightarrow> bool" where
  "less_task_order_key x y \<longleftrightarrow> order_rank x < order_rank y"
instance
proof
  fix x y :: task_order_key
  assume "x \<le> y" "y \<le> x"
  then have "order_rank x = order_rank y" by (simp add: less_eq_task_order_key_def)
  then show "x = y" by (cases x; cases y) (simp add: order_rank_def word_uint_eq_iff)
qed (auto simp: less_eq_task_order_key_def less_task_order_key_def less_le_not_le)
end

section \<open>Postings\<close>

text \<open>A posting, with the capacities of its two vectors.\<close>

record search_posting =
  po_active :: "task_id list"
  po_archived :: "task_id list"
  po_active_capacity :: nat
  po_archived_capacity :: nat
  po_active_total :: nat
  po_archived_total :: nat
  po_active_truncated :: bool
  po_archived_truncated :: bool

definition posting_default :: search_posting where
  "posting_default = \<lparr> po_active = [], po_archived = [], po_active_capacity = 0, po_archived_capacity = 0,
     po_active_total = 0, po_archived_total = 0, po_active_truncated = False, po_archived_truncated = False \<rparr>"

definition pushed_capacity :: "index_env \<Rightarrow> 'a list \<Rightarrow> nat \<Rightarrow> nat" where
  "pushed_capacity env xs capacity = (if length xs = capacity then grown_capacity env capacity else capacity)"

definition posting_insert ::
  "index_env \<Rightarrow> task_id \<Rightarrow> task_projection_entry \<Rightarrow> bool \<Rightarrow> search_posting \<Rightarrow> bool \<times> search_posting" where
  "posting_insert env i e budget_available p =
     (if en_lifecycle e = TlArchived then
        (if i \<in> set (po_archived p) then (False, p)
         else let p = p\<lparr> po_archived_total := po_archived_total p + 1 \<rparr>
              in if length (po_archived p) \<ge> MAX_STORED_IDS_PER_POSTING \<or> \<not> budget_available
                 then (False, p\<lparr> po_archived_truncated := True \<rparr>)
                 else (True, p\<lparr> po_archived := po_archived p @ [i],
                        po_archived_capacity := pushed_capacity env (po_archived p) (po_archived_capacity p) \<rparr>))
      else
        (if i \<in> set (po_active p) then (False, p)
         else let p = p\<lparr> po_active_total := po_active_total p + 1 \<rparr>
              in if length (po_active p) \<ge> MAX_STORED_IDS_PER_POSTING \<or> \<not> budget_available
                 then (False, p\<lparr> po_active_truncated := True \<rparr>)
                 else (True, p\<lparr> po_active := po_active p @ [i],
                        po_active_capacity := pushed_capacity env (po_active p) (po_active_capacity p) \<rparr>)))"

definition posting_remove :: "task_id \<Rightarrow> task_projection_entry \<Rightarrow> search_posting \<Rightarrow> bool \<times> search_posting" where
  "posting_remove i e p =
     (if en_lifecycle e = TlArchived then
        let tot = po_archived_total p - 1;
            p = p\<lparr> po_archived_total := tot,
                   po_archived_truncated := (if tot = 0 then False else po_archived_truncated p) \<rparr>
        in if i \<in> set (po_archived p) then (True, p\<lparr> po_archived := remove1 i (po_archived p) \<rparr>) else (False, p)
      else
        let tot = po_active_total p - 1;
            p = p\<lparr> po_active_total := tot,
                   po_active_truncated := (if tot = 0 then False else po_active_truncated p) \<rparr>
        in if i \<in> set (po_active p) then (True, p\<lparr> po_active := remove1 i (po_active p) \<rparr>) else (False, p))"

definition posting_ids :: "bool \<Rightarrow> search_posting \<Rightarrow> task_id list" where
  "posting_ids archived p = (if archived then po_archived p else po_active p)"

definition ids_capacity :: "bool \<Rightarrow> search_posting \<Rightarrow> nat" where
  "ids_capacity archived p = (if archived then po_archived_capacity p else po_active_capacity p)"

definition posting_len :: "bool \<Rightarrow> search_posting \<Rightarrow> nat" where
  "posting_len archived p = (if archived then po_archived_total p else po_active_total p)"

definition ids_complete :: "bool \<Rightarrow> search_posting \<Rightarrow> bool" where
  "ids_complete archived p \<longleftrightarrow> length (posting_ids archived p) = posting_len archived p"

definition posting_is_empty :: "search_posting \<Rightarrow> bool" where
  "posting_is_empty p \<longleftrightarrow> po_active p = [] \<and> po_archived p = [] \<and> po_active_total p = 0
     \<and> po_archived_total p = 0 \<and> \<not> po_active_truncated p \<and> \<not> po_archived_truncated p"

record search_scalar_total =
  st_active :: nat
  st_archived :: nat

definition scalar_from_entry :: "bool \<Rightarrow> search_scalar_total" where
  "scalar_from_entry archived =
     (if archived then \<lparr> st_active = 0, st_archived = 1 \<rparr> else \<lparr> st_active = 1, st_archived = 0 \<rparr>)"

definition scalar_increment :: "bool \<Rightarrow> search_scalar_total \<Rightarrow> search_scalar_total" where
  "scalar_increment archived t =
     (if archived then t\<lparr> st_archived := st_archived t + 1 \<rparr> else t\<lparr> st_active := st_active t + 1 \<rparr>)"

definition scalar_decrement :: "bool \<Rightarrow> search_scalar_total \<Rightarrow> search_scalar_total" where
  "scalar_decrement archived t =
     (if archived then t\<lparr> st_archived := st_archived t - 1 \<rparr> else t\<lparr> st_active := st_active t - 1 \<rparr>)"

definition scalar_len :: "bool \<Rightarrow> search_scalar_total \<Rightarrow> nat" where
  "scalar_len archived t = (if archived then st_archived t else st_active t)"

definition scalar_is_empty :: "search_scalar_total \<Rightarrow> bool" where
  "scalar_is_empty t \<longleftrightarrow> st_active t = 0 \<and> st_archived t = 0"

section \<open>The index\<close>

text \<open>The value of a search key is the capacity of the owned key string and its posting.\<close>

record task_projection_index =
  ix_revision :: u64
  ix_entries :: "(task_id, task_projection_entry) bmap"
  ix_active_order :: "task_order_key bset"
  ix_settled_order :: "task_order_key bset"
  ix_archived_order :: "task_order_key bset"
  ix_search :: "(rstr, nat \<times> search_posting) bmap"
  ix_search_scalar_totals :: "(rchar, search_scalar_total) bmap"
  ix_search_scalar_map_bytes :: nat
  ix_unindexed_suffix_entries :: nat
  ix_search_posting_entries :: nat
  ix_search_index_map_bytes :: nat
  ix_search_index_key_bytes :: nat
  ix_search_index_posting_storage_bytes :: nat
  ix_search_index_saturated :: bool
  ix_full_rebuilds :: u64
  ix_incremental_updates :: u64

definition resident_search_bytes :: "task_projection_index \<Rightarrow> nat" where
  "resident_search_bytes ix = ix_search_index_map_bytes ix + ix_search_index_key_bytes ix
     + ix_search_index_posting_storage_bytes ix + ix_search_scalar_map_bytes ix"

definition saturating_add_u64 :: "u64 \<Rightarrow> u64 \<Rightarrow> u64" where
  "saturating_add_u64 x y = (case checked_add x y of Some z \<Rightarrow> z | None \<Rightarrow> - 1)"

definition insert_scalar :: "index_env \<Rightarrow> bool \<Rightarrow> rchar \<Rightarrow> task_projection_index \<Rightarrow> task_projection_index" where
  "insert_scalar env archived scalar ix =
     (case bget (ix_search_scalar_totals ix) scalar of
        Some tot \<Rightarrow> ix\<lparr> ix_search_scalar_totals :=
          binsert scalar (scalar_increment archived tot) (ix_search_scalar_totals ix) \<rparr>
      | None \<Rightarrow>
          if blen (ix_search_scalar_totals ix) \<ge> MAX_INDEXED_SCALAR_KEYS
             \<or> resident_search_bytes ix + SEARCH_SCALAR_MAP_SLOT_BYTES env > MAX_CLIENT_SEARCH_POSTING_BYTES
          then ix
          else ix\<lparr> ix_search_scalar_totals :=
                     binsert scalar (scalar_from_entry archived) (ix_search_scalar_totals ix),
                   ix_search_scalar_map_bytes := scalar_capacity env * SEARCH_SCALAR_MAP_SLOT_BYTES env \<rparr>)"

definition insert_search_scalar_totals ::
  "index_env \<Rightarrow> task_projection_entry \<Rightarrow> task_projection_index \<Rightarrow> task_projection_index" where
  "insert_search_scalar_totals env e ix =
     (let archived = (en_lifecycle e = TlArchived);
          ix = fold (insert_scalar env archived) (rev (remdups (rev (en_lower_title e)))) ix
      in if length (en_lower_title e) > MAX_INDEXED_SUBSTRING_SOURCE_CHARS
         then ix\<lparr> ix_unindexed_suffix_entries := ix_unindexed_suffix_entries ix + 1 \<rparr> else ix)"

definition remove_scalar :: "bool \<Rightarrow> rchar \<Rightarrow> task_projection_index \<Rightarrow> task_projection_index" where
  "remove_scalar archived scalar ix =
     (case bget (ix_search_scalar_totals ix) scalar of
        None \<Rightarrow> ix
      | Some tot \<Rightarrow>
          let tot = scalar_decrement archived tot
          in ix\<lparr> ix_search_scalar_totals :=
               (if scalar_is_empty tot then bremove scalar (ix_search_scalar_totals ix)
                else binsert scalar tot (ix_search_scalar_totals ix)) \<rparr>)"

definition remove_search_scalar_totals ::
  "task_projection_entry \<Rightarrow> task_projection_index \<Rightarrow> task_projection_index" where
  "remove_search_scalar_totals e ix =
     (let archived = (en_lifecycle e = TlArchived);
          ix = fold (remove_scalar archived) (rev (remdups (rev (en_lower_title e)))) ix
      in if length (en_lower_title e) > MAX_INDEXED_SUBSTRING_SOURCE_CHARS
         then ix\<lparr> ix_unindexed_suffix_entries := ix_unindexed_suffix_entries ix - 1 \<rparr> else ix)"

definition insert_search_token ::
  "index_env \<Rightarrow> task_id \<Rightarrow> task_projection_entry \<Rightarrow> rstr \<Rightarrow> task_projection_index \<Rightarrow> task_projection_index" where
  "insert_search_token env i e token ix =
     (let archived = (en_lifecycle e = TlArchived);
          resident_bytes = resident_search_bytes ix
      in case bget (ix_search ix) token of
        Some (key_capacity, posting) \<Rightarrow>
          let before_capacity = ids_capacity archived posting;
              required_capacity =
                (if length (posting_ids archived posting) = before_capacity
                 then next_posting_capacity before_capacity else before_capacity);
              additional_bytes = (required_capacity - before_capacity) * size_of_task_id;
              (stored, posting) = posting_insert env i e
                (resident_bytes + additional_bytes \<le> MAX_CLIENT_SEARCH_POSTING_BYTES) posting;
              ix = ix\<lparr> ix_search := binsert token (key_capacity, posting) (ix_search ix) \<rparr>
          in if stored
             then ix\<lparr> ix_search_posting_entries := ix_search_posting_entries ix + 1,
                      ix_search_index_posting_storage_bytes :=
                        ix_search_index_posting_storage_bytes ix + additional_bytes \<rparr>
             else ix
      | None \<Rightarrow>
          if blen (ix_search ix) \<ge> MAX_CLIENT_SEARCH_INDEX_KEYS
          then ix\<lparr> ix_search_index_saturated := True \<rparr>
          else let key_capacity = string_capacity env token;
                   initial_posting_bytes = next_posting_capacity 0 * size_of_task_id
               in if resident_search_bytes ix + key_capacity + initial_posting_bytes
                       > MAX_CLIENT_SEARCH_POSTING_BYTES
                  then ix\<lparr> ix_search_index_saturated := True \<rparr>
                  else let (stored, posting) = posting_insert env i e True posting_default
                       in ix\<lparr> ix_search_index_key_bytes := ix_search_index_key_bytes ix + key_capacity,
                             ix_search_index_posting_storage_bytes :=
                               ix_search_index_posting_storage_bytes ix
                                 + ids_capacity archived posting * size_of_task_id,
                             ix_search_posting_entries :=
                               (if stored then ix_search_posting_entries ix + 1
                                else ix_search_posting_entries ix),
                             ix_search := binsert token (key_capacity, posting) (ix_search ix) \<rparr>)"

definition insert_search_tokens ::
  "index_env \<Rightarrow> task_id \<Rightarrow> task_projection_entry \<Rightarrow> task_projection_index \<Rightarrow> task_projection_index" where
  "insert_search_tokens env i e ix = fold (insert_search_token env i e) (search_tokens (en_lower_title e)) ix"

definition remove_search_token ::
  "task_id \<Rightarrow> task_projection_entry \<Rightarrow> rstr \<Rightarrow> task_projection_index \<Rightarrow> task_projection_index" where
  "remove_search_token i e token ix =
     (case bget (ix_search ix) token of
        None \<Rightarrow> ix
      | Some (key_capacity, posting) \<Rightarrow>
          let (was_stored, posting) = posting_remove i e posting;
              ix = (if was_stored
                    then ix\<lparr> ix_search_posting_entries := ix_search_posting_entries ix - 1 \<rparr> else ix)
          in if posting_is_empty posting
             then ix\<lparr> ix_search := bremove token (ix_search ix),
                      ix_search_index_key_bytes := ix_search_index_key_bytes ix - key_capacity,
                      ix_search_index_posting_storage_bytes := ix_search_index_posting_storage_bytes ix
                        - (po_active_capacity posting + po_archived_capacity posting) * size_of_task_id \<rparr>
             else ix\<lparr> ix_search := binsert token (key_capacity, posting) (ix_search ix) \<rparr>)"

definition remove_task_id :: "task_id \<Rightarrow> task_projection_index \<Rightarrow> task_projection_index" where
  "remove_task_id i ix =
     (case bget (ix_entries ix) i of
        None \<Rightarrow> ix
      | Some e \<Rightarrow>
          let key = order_key i e;
              ix = ix\<lparr> ix_entries := bremove i (ix_entries ix),
                       ix_active_order := bremove key (ix_active_order ix),
                       ix_settled_order := bremove key (ix_settled_order ix),
                       ix_archived_order := bremove key (ix_archived_order ix) \<rparr>
          in if en_lifecycle e = TlSettled \<or> en_lifecycle e = TlDeleted then ix
             else fold (remove_search_token i e) (search_tokens (en_lower_title e))
                    (remove_search_scalar_totals e ix))"

definition set_index_revision :: "u64 \<Rightarrow> task_projection_index \<Rightarrow> task_projection_index" where
  "set_index_revision revision ix = ix\<lparr> ix_revision := revision \<rparr>"

definition insert_entry_terms ::
  "index_env \<Rightarrow> task_id \<Rightarrow> task_projection_entry \<Rightarrow> task_projection_index \<Rightarrow> task_projection_index" where
  "insert_entry_terms env i e ix =
     (let key = order_key i e
      in case en_lifecycle e of
           TlOpen \<Rightarrow> insert_search_tokens env i e (insert_search_scalar_totals env e
                       (ix\<lparr> ix_active_order := bs_insert key (ix_active_order ix) \<rparr>))
         | TlClosing \<Rightarrow> insert_search_tokens env i e (insert_search_scalar_totals env e
                       (ix\<lparr> ix_active_order := bs_insert key (ix_active_order ix) \<rparr>))
         | TlSettled \<Rightarrow> ix\<lparr> ix_settled_order := bs_insert key (ix_settled_order ix) \<rparr>
         | TlArchived \<Rightarrow> insert_search_tokens env i e (insert_search_scalar_totals env e
                       (ix\<lparr> ix_archived_order := bs_insert key (ix_archived_order ix) \<rparr>))
         | TlDeleted \<Rightarrow> ix)"

definition update_task ::
  "index_env \<Rightarrow> task_snapshot \<Rightarrow> int \<Rightarrow> task_projection_index \<Rightarrow> task_projection_index" where
  "update_task env s at ix =
     (let i = tk_id (sn_task s);
          ix = remove_task_id i ix;
          e = entry_from_snapshot env s at;
          ix = insert_entry_terms env i e (ix\<lparr> ix_entries := binsert i e (ix_entries ix) \<rparr>)
      in ix\<lparr> ix_incremental_updates := saturating_add_u64 (ix_incremental_updates ix) 1 \<rparr>)"

definition index_start ::
  "index_env \<Rightarrow> (task_id, task_projection_entry) bmap \<Rightarrow> u64 \<Rightarrow> task_projection_index" where
  "index_start env es revision =
     \<lparr> ix_revision = revision, ix_entries = es, ix_active_order = bempty,
       ix_settled_order = bempty, ix_archived_order = bempty, ix_search = bempty,
       ix_search_scalar_totals = bempty,
       ix_search_scalar_map_bytes = scalar_capacity env * SEARCH_SCALAR_MAP_SLOT_BYTES env,
       ix_unindexed_suffix_entries = 0, ix_search_posting_entries = 0,
       ix_search_index_map_bytes = search_capacity env * SEARCH_MAP_SLOT_BYTES env,
       ix_search_index_key_bytes = 0, ix_search_index_posting_storage_bytes = 0,
       ix_search_index_saturated = False, ix_full_rebuilds = 1, ix_incremental_updates = 0 \<rparr>"

definition tasks_entries ::
  "index_env \<Rightarrow> (task_id, task_snapshot) bmap \<Rightarrow> (task_id, task_projection_entry) bmap" where
  "tasks_entries env tasks = bmap_values (\<lambda>s. entry_from_snapshot env s (tk_created_at_ms (sn_task s))) tasks"

definition index_from_tasks ::
  "index_env \<Rightarrow> (task_id, task_snapshot) bmap \<Rightarrow> u64 \<Rightarrow> task_projection_index" where
  "index_from_tasks env tasks revision =
     fold (\<lambda>(i, e). insert_entry_terms env i e) (entries (tasks_entries env tasks))
       (index_start env (tasks_entries env tasks) revision)"

text \<open>The derived \<open>Clone\<close> keeps every value; the clones of strings and vectors have capacities of their own.\<close>

lift_definition bmap_with_key :: "('k::linorder \<Rightarrow> 'v \<Rightarrow> 'w) \<Rightarrow> ('k, 'v) bmap \<Rightarrow> ('k, 'w) bmap" is
  "\<lambda>f. map (\<lambda>(k, v). (k, f k v))"
  by (simp add: comp_def case_prod_unfold)

definition posting_clone :: "index_env \<Rightarrow> search_posting \<Rightarrow> search_posting" where
  "posting_clone env p = p\<lparr> po_active_capacity := cloned_capacity env (length (po_active p)),
     po_archived_capacity := cloned_capacity env (length (po_archived p)) \<rparr>"

definition index_clone :: "index_env \<Rightarrow> task_projection_index \<Rightarrow> task_projection_index" where
  "index_clone env ix = ix\<lparr> ix_search := bmap_with_key
     (\<lambda>token (_, p). (cloned_string_capacity env token, posting_clone env p)) (ix_search ix) \<rparr>"

definition order_ids :: "task_order_key bset \<Rightarrow> task_id list" where
  "order_ids order = map ok_task_id (bkeys order)"

definition active_task_ids :: "task_projection_index \<Rightarrow> task_id list" where
  "active_task_ids ix = order_ids (ix_active_order ix)"

definition archived_task_ids :: "task_projection_index \<Rightarrow> task_id list" where
  "archived_task_ids ix = order_ids (ix_archived_order ix)"

definition top_active_task_ids :: "nat \<Rightarrow> task_projection_index \<Rightarrow> task_id list" where
  "top_active_task_ids limit ix = map ok_task_id (take limit (bkeys (ix_active_order ix)))"

definition top_settled_task_ids :: "nat \<Rightarrow> task_projection_index \<Rightarrow> task_id list" where
  "top_settled_task_ids limit ix = map ok_task_id (take limit (bkeys (ix_settled_order ix)))"

definition top_archived_task_ids :: "nat \<Rightarrow> task_projection_index \<Rightarrow> task_id list" where
  "top_archived_task_ids limit ix = map ok_task_id (take limit (bkeys (ix_archived_order ix)))"

section \<open>Search pages\<close>

datatype search_scope = ScopeActive | ScopeSettled | ScopeArchived

definition from_archived :: "bool \<Rightarrow> search_scope" where
  "from_archived archived = (if archived then ScopeArchived else ScopeActive)"

definition uses_search_postings :: "search_scope \<Rightarrow> bool" where
  "uses_search_postings scope \<longleftrightarrow> scope = ScopeActive \<or> scope = ScopeArchived"

definition posting_archived :: "search_scope \<Rightarrow> bool" where
  "posting_archived scope \<longleftrightarrow> scope = ScopeArchived"

record search_continuation =
  co_query :: rstr
  co_scope :: search_scope
  co_revision :: u64
  co_cursor :: "task_order_key option"
  co_retained_ids :: "task_id list"
  co_lower_bound :: nat

datatype search_page_status = PageComplete | PagePartial | PageStale

record search_page =
  pg_ids :: "task_id list"
  pg_known_total :: nat
  pg_exact_total :: "nat option"
  pg_work :: nat
  pg_status :: search_page_status
  pg_query_truncated :: bool
  pg_continuation :: "search_continuation option"

definition scope_order :: "search_scope \<Rightarrow> task_projection_index \<Rightarrow> task_order_key bset" where
  "scope_order scope ix =
     (case scope of ScopeActive \<Rightarrow> ix_active_order ix | ScopeSettled \<Rightarrow> ix_settled_order ix
      | ScopeArchived \<Rightarrow> ix_archived_order ix)"

definition title_matches :: "task_projection_index \<Rightarrow> rstr \<Rightarrow> task_order_key \<Rightarrow> bool" where
  "title_matches ix query key =
     (case bget (ix_entries ix) (ok_task_id key) of
        None \<Rightarrow> False | Some e \<Rightarrow> str_contains query (en_lower_title e))"

text \<open>\<open>Iterator::max_by_key\<close> keeps the last of several maxima.\<close>

definition max_by_key :: "('a \<Rightarrow> nat) \<Rightarrow> 'a list \<Rightarrow> 'a option" where
  "max_by_key f xs = fold (\<lambda>x best. case best of None \<Rightarrow> Some x
     | Some b \<Rightarrow> if f x \<ge> f b then Some x else Some b) xs None"

definition indexed_token ::
  "task_projection_index \<Rightarrow> search_scope \<Rightarrow> rstr \<Rightarrow> (rstr \<times> search_posting) option" where
  "indexed_token ix scope query =
     (if uses_search_postings scope \<and> length query \<ge> 4 \<and> ix_unindexed_suffix_entries ix = 0
      then max_by_key (\<lambda>(token, _). length token)
             (List.map_filter (\<lambda>token. map_option (\<lambda>(_, posting). (token, posting)) (bget (ix_search ix) token))
               (search_tokens query))
      else None)"

definition exact_indexed_total ::
  "task_projection_index \<Rightarrow> search_scope \<Rightarrow> rstr \<Rightarrow> nat option" where
  "exact_indexed_total ix scope query =
     (if query = [] then Some (blen (scope_order scope ix))
      else if \<not> uses_search_postings scope then None
      else if length query = 1 then
        map_option (scalar_len (posting_archived scope)) (bget (ix_search_scalar_totals ix) (hd query))
      else case indexed_token ix scope query of
          Some (token, posting) \<Rightarrow>
            if token = query then Some (posting_len (posting_archived scope) posting) else None
        | None \<Rightarrow> None)"

definition scan_keys ::
  "task_projection_index \<Rightarrow> rstr \<Rightarrow> task_order_key list \<Rightarrow> task_id list \<times> nat \<Rightarrow> task_id list \<times> nat" where
  "scan_keys ix query keys acc =
     fold (\<lambda>key (ids, count). if title_matches ix query key
        then (if length ids < MAX_CLIENT_SEARCH_RESULTS then ids @ [ok_task_id key] else ids, count + 1)
        else (ids, count)) keys acc"

definition posting_page :: "task_projection_index \<Rightarrow> rstr \<Rightarrow> bool \<Rightarrow> task_id list \<Rightarrow> search_page" where
  "posting_page ix query query_truncated ids =
     (let candidate_keys = sort (List.map_filter
            (\<lambda>i. map_option (order_key i) (bget (ix_entries ix) i)) ids);
          (page_ids, count) = scan_keys ix query candidate_keys ([], 0)
      in \<lparr> pg_ids = page_ids, pg_known_total = count, pg_exact_total = Some count,
           pg_work = length candidate_keys, pg_status = PageComplete,
           pg_query_truncated = query_truncated, pg_continuation = None \<rparr>)"

definition scan_page ::
  "task_projection_index \<Rightarrow> search_scope \<Rightarrow> rstr \<Rightarrow> bool \<Rightarrow> search_continuation option \<Rightarrow> search_page" where
  "scan_page ix scope query query_truncated continuation =
     (let retained = (case continuation of None \<Rightarrow> []
            | Some c \<Rightarrow> take MAX_CLIENT_SEARCH_RESULTS (co_retained_ids c));
          lower = (case continuation of None \<Rightarrow> 0 | Some c \<Rightarrow> co_lower_bound c);
          start_cursor = (case continuation of None \<Rightarrow> None | Some c \<Rightarrow> co_cursor c);
          candidates = (case start_cursor of None \<Rightarrow> bkeys (scope_order scope ix)
            | Some cursor \<Rightarrow> filter (\<lambda>k. cursor < k) (bkeys (scope_order scope ix)));
          scanned = take MAX_CLIENT_SEARCH_WORK candidates;
          (ids, count) = scan_keys ix query scanned (retained, lower);
          last_cursor = (if scanned = [] then start_cursor else Some (last scanned));
          exact = exact_indexed_total ix scope query
      in if length scanned < MAX_CLIENT_SEARCH_WORK
         then \<lparr> pg_ids = ids,
                pg_known_total = (case exact of Some n \<Rightarrow> n | None \<Rightarrow> count),
                pg_exact_total = (case exact of Some n \<Rightarrow> Some n | None \<Rightarrow> Some count),
                pg_work = length scanned, pg_status = PageComplete,
                pg_query_truncated = query_truncated, pg_continuation = None \<rparr>
         else \<lparr> pg_ids = ids,
                pg_known_total = (case exact of Some n \<Rightarrow> n | None \<Rightarrow> count),
                pg_exact_total = exact, pg_work = length scanned, pg_status = PagePartial,
                pg_query_truncated = query_truncated,
                pg_continuation = Some \<lparr> co_query = query, co_scope = scope, co_revision = ix_revision ix,
                  co_cursor = last_cursor, co_retained_ids = ids, co_lower_bound = count \<rparr> \<rparr>)"

definition search_task_ids_page_scoped ::
  "index_env \<Rightarrow> rstr \<Rightarrow> search_scope \<Rightarrow> search_continuation option \<Rightarrow> task_projection_index \<Rightarrow> search_page" where
  "search_task_ids_page_scoped env query scope continuation ix =
     (let (normalized, query_truncated) = normalize_bounded_search_text env query MAX_CLIENT_SEARCH_CHARS;
          query = trim normalized;
          archived = posting_archived scope
      in if (case continuation of None \<Rightarrow> False | Some c \<Rightarrow>
               co_query c \<noteq> query \<or> co_scope c \<noteq> scope \<or> co_revision c \<noteq> ix_revision ix)
         then \<lparr> pg_ids = [], pg_known_total = 0, pg_exact_total = None, pg_work = 0,
                pg_status = PageStale, pg_query_truncated = query_truncated, pg_continuation = None \<rparr>
         else case (continuation, indexed_token ix scope query) of
             (None, Some (token, first)) \<Rightarrow>
               if posting_len archived first \<le> MAX_CLIENT_SEARCH_WORK
                  \<and> length (posting_ids archived first) \<le> MAX_CLIENT_SEARCH_WORK
                  \<and> ids_complete archived first
               then posting_page ix query query_truncated (posting_ids archived first)
               else scan_page ix scope query query_truncated continuation
           | _ \<Rightarrow> scan_page ix scope query query_truncated continuation)"

definition search_task_ids_page ::
  "index_env \<Rightarrow> rstr \<Rightarrow> bool \<Rightarrow> search_continuation option \<Rightarrow> task_projection_index \<Rightarrow> search_page" where
  "search_task_ids_page env query archived continuation ix =
     search_task_ids_page_scoped env query (from_archived archived) continuation ix"

definition search_settled_task_ids_page ::
  "index_env \<Rightarrow> rstr \<Rightarrow> search_continuation option \<Rightarrow> task_projection_index \<Rightarrow> search_page" where
  "search_settled_task_ids_page env query continuation ix =
     search_task_ids_page_scoped env query ScopeSettled continuation ix"

definition search_task_ids_with_work ::
  "index_env \<Rightarrow> rstr \<Rightarrow> bool \<Rightarrow> task_projection_index \<Rightarrow> task_id list \<times> nat \<times> nat" where
  "search_task_ids_with_work env query archived ix =
     (let page = search_task_ids_page env query archived None ix
      in (pg_ids page,
          case pg_exact_total page of Some n \<Rightarrow> n | None \<Rightarrow> pg_known_total page, pg_work page))"

section \<open>What the index represents\<close>

text \<open>
  The tasks an index stands for are a finite map \<open>M\<close> from identities to entries.  The orders, the
  postings, the scalar totals and the count of long titles are each specified by \<open>M\<close> alone.
\<close>

definition in_scope :: "search_scope \<Rightarrow> task_projection_entry \<Rightarrow> bool" where
  "in_scope scope e =
     (case scope of ScopeActive \<Rightarrow> en_lifecycle e = TlOpen \<or> en_lifecycle e = TlClosing
      | ScopeSettled \<Rightarrow> en_lifecycle e = TlSettled | ScopeArchived \<Rightarrow> en_lifecycle e = TlArchived)"

definition has_terms :: "task_projection_entry \<Rightarrow> bool" where
  "has_terms e \<longleftrightarrow> in_scope ScopeActive e \<or> in_scope ScopeArchived e"

definition members :: "(task_id \<rightharpoonup> task_projection_entry) \<Rightarrow> (rstr \<Rightarrow> bool) \<Rightarrow> bool \<Rightarrow> task_id set" where
  "members M P archived = {i. \<exists>e. M i = Some e \<and> in_scope (from_archived archived) e \<and> P (en_lower_title e)}"

abbreviation token_of :: "rstr \<Rightarrow> rstr \<Rightarrow> bool" where
  "token_of t title \<equiv> t \<in> set (search_tokens title)"

definition orders_ok :: "(task_id \<rightharpoonup> task_projection_entry) \<Rightarrow> task_projection_index \<Rightarrow> bool" where
  "orders_ok M ix \<longleftrightarrow> (\<forall>scope k. bcontains (scope_order scope ix) k \<longleftrightarrow>
     (\<exists>e. M (ok_task_id k) = Some e \<and> in_scope scope e \<and> k = order_key (ok_task_id k) e))"

definition posting_ok :: "(task_id \<rightharpoonup> task_projection_entry) \<Rightarrow> rstr \<Rightarrow> (nat \<times> search_posting) option \<Rightarrow> bool" where
  "posting_ok M t slot \<longleftrightarrow> (\<forall>archived. case slot of
       None \<Rightarrow> members M (token_of t) archived = {}
     | Some (_, p) \<Rightarrow> distinct (posting_ids archived p)
         \<and> set (posting_ids archived p) \<subseteq> members M (token_of t) archived
         \<and> posting_len archived p = card (members M (token_of t) archived))"

definition scalar_ok :: "(task_id \<rightharpoonup> task_projection_entry) \<Rightarrow> rchar \<Rightarrow> search_scalar_total option \<Rightarrow> bool" where
  "scalar_ok M c slot \<longleftrightarrow> (\<forall>archived. case slot of
       None \<Rightarrow> members M (\<lambda>title. c \<in> set title) archived = {}
     | Some t \<Rightarrow> scalar_len archived t = card (members M (\<lambda>title. c \<in> set title) archived))"

definition long_entries :: "(task_id \<rightharpoonup> task_projection_entry) \<Rightarrow> task_id set" where
  "long_entries M = {i. \<exists>e. M i = Some e \<and> has_terms e \<and> MAX_INDEXED_SUBSTRING_SOURCE_CHARS < length (en_lower_title e)}"

definition represents :: "(task_id \<rightharpoonup> task_projection_entry) \<Rightarrow> task_projection_index \<Rightarrow> bool" where
  "represents M ix \<longleftrightarrow> finite (dom M) \<and> orders_ok M ix
     \<and> (ix_search_index_saturated ix \<or> (\<forall>t. posting_ok M t (bget (ix_search ix) t)))
     \<and> (\<forall>c. scalar_ok M c (bget (ix_search_scalar_totals ix) c))
     \<and> ix_unindexed_suffix_entries ix = card (long_entries M)"

lemma members_update:
  assumes "M i = None"
  shows "members (M(i \<mapsto> e)) P archived =
    (if in_scope (from_archived archived) e \<and> P (en_lower_title e)
     then insert i (members M P archived) else members M P archived)"
  using assms by (auto simp: members_def)

lemma members_fresh: "M i = None \<Longrightarrow> i \<notin> members M P archived"
  by (simp add: members_def)

lemma finite_members [simp]: "finite (dom M) \<Longrightarrow> finite (members M P archived)"
  by (rule finite_subset[of _ "dom M"]) (auto simp: members_def)

lemma in_scope_archived:
  "has_terms e \<Longrightarrow> in_scope (from_archived archived) e \<longleftrightarrow> archived = (en_lifecycle e = TlArchived)"
  by (auto simp: has_terms_def in_scope_def from_archived_def)

lemma slots_cong:
  assumes "\<And>P a. members M P a = members N P a"
  shows "posting_ok M = posting_ok N" "scalar_ok M = scalar_ok N"
  unfolding posting_ok_def scalar_ok_def assms by (rule refl)+

text \<open>A loop over distinct keys that touches one key per step.\<close>

lemma fold_pointwise:
  assumes "distinct xs"
    and "\<And>x y s. y \<noteq> x \<Longrightarrow> look (f x s) y = look s y"
    and "\<And>x s. bad s \<Longrightarrow> bad (f x s)"
    and "\<And>x s. \<not> bad (f x s) \<Longrightarrow> step x (look s x) (look (f x s) x)"
    and "\<not> bad (fold f xs s)"
  shows "look (fold f xs s) y = look s y \<and> y \<notin> set xs \<or>
         step y (look s y) (look (fold f xs s) y) \<and> y \<in> set xs"
  using assms(1,5)
proof (induction xs arbitrary: s)
  case (Cons x xs)
  have nb: "\<not> bad (f x s)"
  proof
    assume "bad (f x s)"
    then have "bad (fold f ys (f x s))" for ys
      by (induction ys rule: rev_induct) (auto intro: assms(3))
    with Cons.prems(2) show False by simp
  qed
  from Cons.IH[of "f x s"] Cons.prems have
    "look (fold f xs (f x s)) y = look (f x s) y \<and> y \<notin> set xs \<or>
     step y (look (f x s) y) (look (fold f xs (f x s)) y) \<and> y \<in> set xs" by simp
  then show ?case using assms(2)[of y x s] assms(4)[OF nb] Cons.prems(1) by (cases "y = x") auto
qed simp

lemma fold_keeps: "(\<And>x s. h (f x s) = h s) \<Longrightarrow> h (fold f xs s) = h s"
  by (induction xs arbitrary: s) simp_all

section \<open>Postings follow the tasks\<close>

definition inserted_slot ::
  "index_env \<Rightarrow> task_id \<Rightarrow> task_projection_entry \<Rightarrow> (nat \<times> search_posting) option \<Rightarrow> (nat \<times> search_posting) option \<Rightarrow> bool" where
  "inserted_slot env i e before after \<longleftrightarrow> (\<exists>kc b.
     after = Some (kc, snd (posting_insert env i e b
       (case before of None \<Rightarrow> posting_default | Some (_, p) \<Rightarrow> p))))"

lemma insert_search_token_frame [simp]:
  "ix_entries (insert_search_token env i e t ix) = ix_entries ix"
  "scope_order scope (insert_search_token env i e t ix) = scope_order scope ix"
  "ix_search_scalar_totals (insert_search_token env i e t ix) = ix_search_scalar_totals ix"
  "ix_unindexed_suffix_entries (insert_search_token env i e t ix) = ix_unindexed_suffix_entries ix"
  "ix_revision (insert_search_token env i e t ix) = ix_revision ix"
  by (auto simp: insert_search_token_def Let_def scope_order_def split: option.splits prod.splits search_scope.splits)

lemma insert_search_token_other:
  "t' \<noteq> t \<Longrightarrow> bget (ix_search (insert_search_token env i e t ix)) t' = bget (ix_search ix) t'"
  by (auto simp: insert_search_token_def Let_def split: option.splits prod.splits)

lemma insert_search_token_saturated:
  "ix_search_index_saturated ix \<Longrightarrow> ix_search_index_saturated (insert_search_token env i e t ix)"
  by (auto simp: insert_search_token_def Let_def split: option.splits prod.splits)

lemma insert_search_token_slot:
  assumes "\<not> ix_search_index_saturated (insert_search_token env i e t ix)"
  shows "inserted_slot env i e (bget (ix_search ix) t) (bget (ix_search (insert_search_token env i e t ix)) t)"
  using assms
  by (auto simp: insert_search_token_def inserted_slot_def Let_def split: option.splits prod.splits if_splits)
    (metis snd_conv)+

lemma inserted_slot_ok:
  assumes "finite (dom M)" "M i = None" "has_terms e" "token_of t (en_lower_title e)"
    and "posting_ok M t before" "inserted_slot env i e before after"
  shows "posting_ok (M(i \<mapsto> e)) t after"
proof -
  have fresh: "i \<notin> members M (token_of t) a" for a
    using assms(2) by (rule members_fresh)
  have mem: "members (M(i \<mapsto> e)) (token_of t) a =
      (if a = (en_lifecycle e = TlArchived) then insert i (members M (token_of t) a) else members M (token_of t) a)" for a
    using assms(2,3,4) by (auto simp: members_update in_scope_archived)
  show ?thesis
    using assms(5,6) fresh[of True] fresh[of False] finite_members[OF assms(1)]
    by (auto simp: posting_ok_def inserted_slot_def posting_insert_def mem posting_ids_def posting_len_def
        posting_default_def Let_def all_bool_eq split: option.splits prod.splits if_splits)
qed

lemma posting_ok_other:
  assumes "M i = None" "\<not> token_of t (en_lower_title e)"
  shows "posting_ok (M(i \<mapsto> e)) t slot \<longleftrightarrow> posting_ok M t slot"
proof -
  have "members (M(i \<mapsto> e)) (token_of t) a = members M (token_of t) a" for a
    using assms by (auto simp: members_def)
  then show ?thesis by (simp only: posting_ok_def)
qed

lemma distinct_search_tokens [simp]: "distinct (search_tokens title)"
  by (simp add: search_tokens_def Let_def)

lemma insert_search_tokens_ok:
  assumes "finite (dom M)" "M i = None" "has_terms e"
    and "ix_search_index_saturated ix \<or> (\<forall>t. posting_ok M t (bget (ix_search ix) t))"
  shows "ix_search_index_saturated (insert_search_tokens env i e ix) \<or>
    (\<forall>t. posting_ok (M(i \<mapsto> e)) t (bget (ix_search (insert_search_tokens env i e ix)) t))"
proof (cases "ix_search_index_saturated (insert_search_tokens env i e ix)")
  case False
  have keep: "ix_search_index_saturated x \<Longrightarrow> ix_search_index_saturated (fold (insert_search_token env i e) ts x)" for ts x
    by (induction ts arbitrary: x) (simp_all add: insert_search_token_saturated)
  with False assms(4) have ok: "posting_ok M t (bget (ix_search ix) t)" for t
    unfolding insert_search_tokens_def by blast
  have "posting_ok (M(i \<mapsto> e)) t (bget (ix_search (insert_search_tokens env i e ix)) t)" for t
    using fold_pointwise[where f = "insert_search_token env i e" and look = "\<lambda>x. bget (ix_search x)"
        and bad = ix_search_index_saturated and step = "\<lambda>_. inserted_slot env i e"
        and xs = "search_tokens (en_lower_title e)" and s = ix and y = t]
      insert_search_token_other insert_search_token_saturated insert_search_token_slot
      False ok[of t] posting_ok_other[of M i, OF assms(2)] inserted_slot_ok[OF assms(1-3)]
    unfolding insert_search_tokens_def by (metis distinct_search_tokens)
  then show ?thesis by blast
qed simp

definition removed_slot ::
  "task_id \<Rightarrow> task_projection_entry \<Rightarrow> (nat \<times> search_posting) option \<Rightarrow> (nat \<times> search_posting) option \<Rightarrow> bool" where
  "removed_slot i e before after \<longleftrightarrow> after = (case before of None \<Rightarrow> None | Some (kc, p) \<Rightarrow>
     let p = snd (posting_remove i e p) in if posting_is_empty p then None else Some (kc, p))"

lemma remove_search_token_frame [simp]:
  "ix_entries (remove_search_token i e t ix) = ix_entries ix"
  "scope_order scope (remove_search_token i e t ix) = scope_order scope ix"
  "ix_search_scalar_totals (remove_search_token i e t ix) = ix_search_scalar_totals ix"
  "ix_unindexed_suffix_entries (remove_search_token i e t ix) = ix_unindexed_suffix_entries ix"
  "ix_search_index_saturated (remove_search_token i e t ix) = ix_search_index_saturated ix"
  "ix_revision (remove_search_token i e t ix) = ix_revision ix"
  by (auto simp: remove_search_token_def Let_def scope_order_def split: option.splits prod.splits search_scope.splits)

lemma remove_search_token_other:
  "t' \<noteq> t \<Longrightarrow> bget (ix_search (remove_search_token i e t ix)) t' = bget (ix_search ix) t'"
  by (auto simp: remove_search_token_def Let_def split: option.splits prod.splits)

lemma remove_search_token_slot:
  "removed_slot i e (bget (ix_search ix) t) (bget (ix_search (remove_search_token i e t ix)) t)"
  by (auto simp: remove_search_token_def removed_slot_def Let_def split: option.splits prod.splits)

lemma removed_slot_ok:
  assumes "finite (dom M)" "M i = Some e" "has_terms e" "token_of t (en_lower_title e)"
    and "posting_ok M t before" "removed_slot i e before after"
  shows "posting_ok (M(i := None)) t after"
proof -
  have mem: "members (M(i := None)) (token_of t) a =
      (if a = (en_lifecycle e = TlArchived) then members M (token_of t) a - {i} else members M (token_of t) a)" for a
    using assms(2,3,4) by (auto simp: members_def in_scope_archived)
  define A where "A = members M (token_of t)"
  have i: "i \<in> A (en_lifecycle e = TlArchived)" and fin: "finite (A a)" for a
    using assms(1-4) by (auto simp: A_def members_def[of M "token_of t"] in_scope_archived
        intro: finite_subset[of _ "dom M"])
  obtain kc p where p: "before = Some (kc, p)"
    using assms(5) i unfolding posting_ok_def A_def by (fastforce split: option.splits)
  have ok: "distinct (posting_ids a p)" "set (posting_ids a p) \<subseteq> A a" "posting_len a p = card (A a)" for a
    using assms(5) by (simp_all add: posting_ok_def p A_def)
  define q where "q = snd (posting_remove i e p)"
  have q: "posting_ids a q = (if a = (en_lifecycle e = TlArchived) then remove1 i (posting_ids a p) else posting_ids a p)"
    "posting_len a q = (if a = (en_lifecycle e = TlArchived) then posting_len a p - 1 else posting_len a p)" for a
    by (auto simp: q_def posting_remove_def posting_ids_def posting_len_def Let_def remove1_idem)
  have card: "card (A (en_lifecycle e = TlArchived) - {i}) = card (A (en_lifecycle e = TlArchived)) - 1"
    using i fin by simp
  have full: "distinct (posting_ids a q) \<and> set (posting_ids a q) \<subseteq> members (M(i := None)) (token_of t) a \<and>
      posting_len a q = card (members (M(i := None)) (token_of t) a)" for a
    using ok[of a] by (auto simp: q mem card simp flip: A_def)
  have "finite (members (M(i := None)) (token_of t) a)" for a
    using assms(1) by (simp add: finite_members)
  with full have "posting_is_empty q \<Longrightarrow> members (M(i := None)) (token_of t) a = {}" for a
    by (cases a) (metis card_0_eq posting_is_empty_def posting_len_def)+
  with full show ?thesis using assms(6)
    by (auto simp: posting_ok_def removed_slot_def p Let_def simp flip: q_def)
qed

lemma remove_search_tokens_ok:
  assumes "finite (dom M)" "M i = Some e" "has_terms e"
    and "\<forall>t. posting_ok M t (bget (ix_search ix) t)"
  shows "posting_ok (M(i := None)) t
    (bget (ix_search (fold (remove_search_token i e) (search_tokens (en_lower_title e)) ix)) t)"
proof -
  have other: "\<not> token_of t (en_lower_title e) \<Longrightarrow> posting_ok (M(i := None)) t slot \<longleftrightarrow> posting_ok M t slot" for slot
  proof -
    assume "\<not> token_of t (en_lower_title e)"
    then have "members (M(i := None)) (token_of t) a = members M (token_of t) a" for a
      using assms(2) by (auto simp: members_def)
    then show ?thesis by (simp only: posting_ok_def)
  qed
  show ?thesis
    using fold_pointwise[where f = "remove_search_token i e" and look = "\<lambda>x. bget (ix_search x)"
        and bad = "\<lambda>_. False" and step = "\<lambda>_. removed_slot i e"
        and xs = "search_tokens (en_lower_title e)" and s = ix and y = t]
      remove_search_token_other remove_search_token_slot
      assms(4) other removed_slot_ok[OF assms(1-3)] by (metis distinct_search_tokens)
qed

section \<open>Scalar totals follow the tasks\<close>

abbreviation first_scalars :: "rstr \<Rightarrow> rstr" where
  "first_scalars title \<equiv> rev (remdups (rev title))"

definition inserted_scalar :: "bool \<Rightarrow> search_scalar_total option \<Rightarrow> search_scalar_total option \<Rightarrow> bool" where
  "inserted_scalar archived before after \<longleftrightarrow> after = None \<or> after = Some (case before of
     None \<Rightarrow> scalar_from_entry archived | Some t \<Rightarrow> scalar_increment archived t)"

definition removed_scalar :: "bool \<Rightarrow> search_scalar_total option \<Rightarrow> search_scalar_total option \<Rightarrow> bool" where
  "removed_scalar archived before after \<longleftrightarrow> after = (case before of None \<Rightarrow> None | Some t \<Rightarrow>
     let t = scalar_decrement archived t in if scalar_is_empty t then None else Some t)"

lemma scalar_step_frame [simp]:
  "ix_entries (insert_scalar env a c ix) = ix_entries ix"
  "scope_order scope (insert_scalar env a c ix) = scope_order scope ix"
  "ix_search (insert_scalar env a c ix) = ix_search ix"
  "ix_unindexed_suffix_entries (insert_scalar env a c ix) = ix_unindexed_suffix_entries ix"
  "ix_search_index_saturated (insert_scalar env a c ix) = ix_search_index_saturated ix"
  "ix_revision (insert_scalar env a c ix) = ix_revision ix"
  "ix_entries (remove_scalar a c ix) = ix_entries ix"
  "scope_order scope (remove_scalar a c ix) = scope_order scope ix"
  "ix_search (remove_scalar a c ix) = ix_search ix"
  "ix_unindexed_suffix_entries (remove_scalar a c ix) = ix_unindexed_suffix_entries ix"
  "ix_search_index_saturated (remove_scalar a c ix) = ix_search_index_saturated ix"
  "ix_revision (remove_scalar a c ix) = ix_revision ix"
  by (auto simp: insert_scalar_def remove_scalar_def Let_def scope_order_def split: option.splits search_scope.splits)

lemma insert_scalar_slots:
  "c' \<noteq> c \<Longrightarrow> bget (ix_search_scalar_totals (insert_scalar env a c ix)) c' = bget (ix_search_scalar_totals ix) c'"
  "inserted_scalar a (bget (ix_search_scalar_totals ix) c) (bget (ix_search_scalar_totals (insert_scalar env a c ix)) c)"
  by (auto simp: insert_scalar_def inserted_scalar_def split: option.splits)

lemma remove_scalar_slots:
  "c' \<noteq> c \<Longrightarrow> bget (ix_search_scalar_totals (remove_scalar a c ix)) c' = bget (ix_search_scalar_totals ix) c'"
  "removed_scalar a (bget (ix_search_scalar_totals ix) c) (bget (ix_search_scalar_totals (remove_scalar a c ix)) c)"
  by (auto simp: remove_scalar_def removed_scalar_def Let_def split: option.splits)

lemma inserted_scalar_ok:
  assumes "finite (dom M)" "M i = None" "has_terms e" "c \<in> set (en_lower_title e)" "after \<noteq> None"
    and "scalar_ok M c before" "inserted_scalar (en_lifecycle e = TlArchived) before after"
  shows "scalar_ok (M(i \<mapsto> e)) c after"
proof -
  have fresh: "i \<notin> members M (\<lambda>title. c \<in> set title) a" for a
    using assms(2) by (rule members_fresh)
  have mem: "members (M(i \<mapsto> e)) (\<lambda>title. c \<in> set title) a =
      (if a = (en_lifecycle e = TlArchived) then insert i (members M (\<lambda>title. c \<in> set title) a)
       else members M (\<lambda>title. c \<in> set title) a)" for a
    using assms(2,3,4) by (auto simp: members_update in_scope_archived)
  show ?thesis
    using assms(5-7) fresh[of True] fresh[of False] finite_members[OF assms(1)]
    by (auto simp: scalar_ok_def inserted_scalar_def mem scalar_len_def scalar_from_entry_def
        scalar_increment_def all_bool_eq split: option.splits if_splits)
qed

lemma removed_scalar_ok:
  assumes "finite (dom M)" "M i = Some e" "has_terms e" "c \<in> set (en_lower_title e)"
    and "scalar_ok M c before" "removed_scalar (en_lifecycle e = TlArchived) before after"
  shows "scalar_ok (M(i := None)) c after"
proof -
  let ?P = "\<lambda>title :: rstr. c \<in> set title"
  have mem: "members (M(i := None)) ?P a =
      (if a = (en_lifecycle e = TlArchived) then members M ?P a - {i} else members M ?P a)" for a
    using assms(2,3,4) by (auto simp: members_def in_scope_archived)
  define A where "A = members M ?P"
  have i: "i \<in> A (en_lifecycle e = TlArchived)" and fin: "finite (A a)" for a
    using assms(1-4) by (auto simp: A_def members_def[of M ?P] in_scope_archived
        intro: finite_subset[of _ "dom M"])
  obtain s where s: "before = Some s" and ok: "scalar_len a s = card (A a)" for a
    using assms(5) i unfolding scalar_ok_def A_def by (fastforce split: option.splits)
  define q where "q = scalar_decrement (en_lifecycle e = TlArchived) s"
  have card: "card (A (en_lifecycle e = TlArchived) - {i}) = card (A (en_lifecycle e = TlArchived)) - 1"
    using i fin by simp
  have "scalar_len a q = (if a = (en_lifecycle e = TlArchived) then scalar_len a s - 1 else scalar_len a s)" for a
    by (simp add: q_def scalar_decrement_def scalar_len_def)
  then have full: "scalar_len a q = card (members (M(i := None)) ?P a)" for a
    using ok[of a] by (auto simp: mem card simp flip: A_def)
  have "finite (members (M(i := None)) ?P a)" for a
    using assms(1) by (simp add: finite_members)
  with full have "scalar_is_empty q \<Longrightarrow> members (M(i := None)) ?P a = {}" for a
    by (cases a) (metis card_0_eq scalar_is_empty_def scalar_len_def)+
  with full show ?thesis using assms(6)
    by (auto simp: scalar_ok_def removed_scalar_def s Let_def simp flip: q_def)
qed

section \<open>One task enters or leaves the index\<close>

lemma insert_scalars_fold_frame [simp]:
  "ix_entries (fold (insert_scalar env a) cs ix) = ix_entries ix"
  "scope_order scope (fold (insert_scalar env a) cs ix) = scope_order scope ix"
  "ix_search (fold (insert_scalar env a) cs ix) = ix_search ix"
  "ix_unindexed_suffix_entries (fold (insert_scalar env a) cs ix) = ix_unindexed_suffix_entries ix"
  "ix_search_index_saturated (fold (insert_scalar env a) cs ix) = ix_search_index_saturated ix"
  "ix_revision (fold (insert_scalar env a) cs ix) = ix_revision ix"
  by (simp_all add: fold_keeps[where h = ix_entries] fold_keeps[where h = "scope_order scope"]
      fold_keeps[where h = ix_search] fold_keeps[where h = ix_unindexed_suffix_entries]
      fold_keeps[where h = ix_search_index_saturated] fold_keeps[where h = ix_revision])

lemma remove_scalars_fold_frame [simp]:
  "ix_entries (fold (remove_scalar a) cs ix) = ix_entries ix"
  "scope_order scope (fold (remove_scalar a) cs ix) = scope_order scope ix"
  "ix_search (fold (remove_scalar a) cs ix) = ix_search ix"
  "ix_unindexed_suffix_entries (fold (remove_scalar a) cs ix) = ix_unindexed_suffix_entries ix"
  "ix_search_index_saturated (fold (remove_scalar a) cs ix) = ix_search_index_saturated ix"
  "ix_revision (fold (remove_scalar a) cs ix) = ix_revision ix"
  by (simp_all add: fold_keeps[where h = ix_entries] fold_keeps[where h = "scope_order scope"]
      fold_keeps[where h = ix_search] fold_keeps[where h = ix_unindexed_suffix_entries]
      fold_keeps[where h = ix_search_index_saturated] fold_keeps[where h = ix_revision])

lemma insert_tokens_fold_frame [simp]:
  "ix_entries (insert_search_tokens env i e ix) = ix_entries ix"
  "scope_order scope (insert_search_tokens env i e ix) = scope_order scope ix"
  "ix_search_scalar_totals (insert_search_tokens env i e ix) = ix_search_scalar_totals ix"
  "ix_unindexed_suffix_entries (insert_search_tokens env i e ix) = ix_unindexed_suffix_entries ix"
  "ix_revision (insert_search_tokens env i e ix) = ix_revision ix"
  by (simp_all add: insert_search_tokens_def fold_keeps[where h = ix_entries]
      fold_keeps[where h = "scope_order scope"] fold_keeps[where h = ix_search_scalar_totals]
      fold_keeps[where h = ix_unindexed_suffix_entries] fold_keeps[where h = ix_revision])

lemma remove_tokens_fold_frame [simp]:
  "ix_entries (fold (remove_search_token i e) ts ix) = ix_entries ix"
  "scope_order scope (fold (remove_search_token i e) ts ix) = scope_order scope ix"
  "ix_search_scalar_totals (fold (remove_search_token i e) ts ix) = ix_search_scalar_totals ix"
  "ix_unindexed_suffix_entries (fold (remove_search_token i e) ts ix) = ix_unindexed_suffix_entries ix"
  "ix_search_index_saturated (fold (remove_search_token i e) ts ix) = ix_search_index_saturated ix"
  "ix_revision (fold (remove_search_token i e) ts ix) = ix_revision ix"
  by (simp_all add: fold_keeps[where h = ix_entries]
      fold_keeps[where h = "scope_order scope"] fold_keeps[where h = ix_search_scalar_totals]
      fold_keeps[where h = ix_unindexed_suffix_entries] fold_keeps[where h = ix_revision]
      fold_keeps[where h = ix_search_index_saturated])

lemma scope_order_upd [simp]:
  "scope_order scope (ix\<lparr> ix_unindexed_suffix_entries := n \<rparr>) = scope_order scope ix"
  "scope_order scope (ix\<lparr> ix_incremental_updates := u \<rparr>) = scope_order scope ix"
  "scope_order scope (ix\<lparr> ix_revision := u \<rparr>) = scope_order scope ix"
  "scope_order scope (ix\<lparr> ix_search := m \<rparr>) = scope_order scope ix"
  "scope_order scope (ix\<lparr> ix_entries := es \<rparr>) = scope_order scope ix"
  by (simp_all add: scope_order_def split: search_scope.split)

lemma scalar_totals_frame [simp]:
  "ix_entries (insert_search_scalar_totals env e ix) = ix_entries ix"
  "scope_order scope (insert_search_scalar_totals env e ix) = scope_order scope ix"
  "ix_search (insert_search_scalar_totals env e ix) = ix_search ix"
  "ix_search_index_saturated (insert_search_scalar_totals env e ix) = ix_search_index_saturated ix"
  "ix_revision (insert_search_scalar_totals env e ix) = ix_revision ix"
  "ix_entries (remove_search_scalar_totals e ix) = ix_entries ix"
  "scope_order scope (remove_search_scalar_totals e ix) = scope_order scope ix"
  "ix_search (remove_search_scalar_totals e ix) = ix_search ix"
  "ix_search_index_saturated (remove_search_scalar_totals e ix) = ix_search_index_saturated ix"
  "ix_revision (remove_search_scalar_totals e ix) = ix_revision ix"
  by (simp_all add: insert_search_scalar_totals_def remove_search_scalar_totals_def Let_def)

lemma scalar_ok_other:
  assumes "M i = None" "c \<notin> set (en_lower_title e)"
  shows "scalar_ok (M(i \<mapsto> e)) c slot \<longleftrightarrow> scalar_ok M c slot"
proof -
  have "members (M(i \<mapsto> e)) (\<lambda>title. c \<in> set title) a = members M (\<lambda>title. c \<in> set title) a" for a
    using assms by (auto simp: members_def)
  then show ?thesis by (simp only: scalar_ok_def)
qed

lemma insert_scalar_totals_ok:
  assumes "finite (dom M)" "M i = None" "has_terms e"
    and "\<forall>c. scalar_ok M c (bget (ix_search_scalar_totals ix) c)"
    and "\<forall>c \<in> set (en_lower_title e).
      bget (ix_search_scalar_totals (insert_search_scalar_totals env e ix)) c \<noteq> None"
  shows "scalar_ok (M(i \<mapsto> e)) c (bget (ix_search_scalar_totals (insert_search_scalar_totals env e ix)) c)"
proof -
  let ?a = "en_lifecycle e = TlArchived"
  let ?r = "fold (insert_scalar env ?a) (first_scalars (en_lower_title e)) ix"
  have r: "ix_search_scalar_totals (insert_search_scalar_totals env e ix) = ix_search_scalar_totals ?r"
    by (simp add: insert_search_scalar_totals_def Let_def)
  have "bget (ix_search_scalar_totals ?r) c = bget (ix_search_scalar_totals ix) c \<and> c \<notin> set (en_lower_title e) \<or>
      inserted_scalar ?a (bget (ix_search_scalar_totals ix) c) (bget (ix_search_scalar_totals ?r) c)
        \<and> c \<in> set (en_lower_title e)"
    using fold_pointwise[where f = "insert_scalar env ?a" and look = "\<lambda>x. bget (ix_search_scalar_totals x)"
        and bad = "\<lambda>_. False" and step = "\<lambda>_. inserted_scalar ?a"
        and xs = "first_scalars (en_lower_title e)" and s = ix and y = c]
      insert_scalar_slots by simp
  then show ?thesis
    using assms(4,5) scalar_ok_other[of M i, OF assms(2)] inserted_scalar_ok[OF assms(1-3)]
    unfolding r by metis
qed

lemma remove_scalar_totals_ok:
  assumes "finite (dom M)" "M i = Some e" "has_terms e"
    and "\<forall>c. scalar_ok M c (bget (ix_search_scalar_totals ix) c)"
  shows "scalar_ok (M(i := None)) c (bget (ix_search_scalar_totals (remove_search_scalar_totals e ix)) c)"
proof -
  let ?a = "en_lifecycle e = TlArchived"
  let ?r = "fold (remove_scalar ?a) (first_scalars (en_lower_title e)) ix"
  have r: "ix_search_scalar_totals (remove_search_scalar_totals e ix) = ix_search_scalar_totals ?r"
    by (simp add: remove_search_scalar_totals_def Let_def)
  have other: "scalar_ok (M(i := None)) c slot \<longleftrightarrow> scalar_ok M c slot" if "c \<notin> set (en_lower_title e)" for slot
  proof -
    have "members (M(i := None)) (\<lambda>title. c \<in> set title) a = members M (\<lambda>title. c \<in> set title) a" for a
      using assms(2) that by (auto simp: members_def)
    then show ?thesis by (simp only: scalar_ok_def)
  qed
  have "bget (ix_search_scalar_totals ?r) c = bget (ix_search_scalar_totals ix) c \<and> c \<notin> set (en_lower_title e) \<or>
      removed_scalar ?a (bget (ix_search_scalar_totals ix) c) (bget (ix_search_scalar_totals ?r) c)
        \<and> c \<in> set (en_lower_title e)"
    using fold_pointwise[where f = "remove_scalar ?a" and look = "\<lambda>x. bget (ix_search_scalar_totals x)"
        and bad = "\<lambda>_. False" and step = "\<lambda>_. removed_scalar ?a"
        and xs = "first_scalars (en_lower_title e)" and s = ix and y = c]
      remove_scalar_slots by simp
  then show ?thesis
    using assms(4) other removed_scalar_ok[OF assms(1-3)] unfolding r by metis
qed

lemma finite_long_entries [simp]: "finite (dom M) \<Longrightarrow> finite (long_entries M)"
  by (rule finite_subset[of _ "dom M"]) (auto simp: long_entries_def)

lemma long_entries_update:
  "M i = None \<Longrightarrow> long_entries (M(i \<mapsto> e)) = (if has_terms e \<and>
     MAX_INDEXED_SUBSTRING_SOURCE_CHARS < length (en_lower_title e) then insert i (long_entries M) else long_entries M)"
  "M i = Some e \<Longrightarrow> long_entries (M(i := None)) = (if has_terms e \<and>
     MAX_INDEXED_SUBSTRING_SOURCE_CHARS < length (en_lower_title e) then long_entries M - {i} else long_entries M)"
  by (auto simp: long_entries_def)

lemma scalar_totals_suffix:
  "ix_unindexed_suffix_entries (insert_search_scalar_totals env e ix) = ix_unindexed_suffix_entries ix
     + (if MAX_INDEXED_SUBSTRING_SOURCE_CHARS < length (en_lower_title e) then 1 else 0)"
  "ix_unindexed_suffix_entries (remove_search_scalar_totals e ix) = ix_unindexed_suffix_entries ix
     - (if MAX_INDEXED_SUBSTRING_SOURCE_CHARS < length (en_lower_title e) then 1 else 0)"
  by (simp_all add: insert_search_scalar_totals_def remove_search_scalar_totals_def Let_def)

definition scalars_present :: "task_projection_entry \<Rightarrow> task_projection_index \<Rightarrow> bool" where
  "scalars_present e ix \<longleftrightarrow> has_terms e \<longrightarrow> list_all (bcontains (ix_search_scalar_totals ix)) (en_lower_title e)"

lemma insert_entry_terms_cases:
  obtains ix1 where "insert_entry_terms env i e ix =
      (if has_terms e then insert_search_tokens env i e (insert_search_scalar_totals env e ix1) else ix1)"
    and "\<And>scope. scope_order scope ix1 =
      (if in_scope scope e then bs_insert (order_key i e) (scope_order scope ix) else scope_order scope ix)"
    and "ix_search ix1 = ix_search ix" "ix_search_index_saturated ix1 = ix_search_index_saturated ix"
      "ix_search_scalar_totals ix1 = ix_search_scalar_totals ix"
      "ix_unindexed_suffix_entries ix1 = ix_unindexed_suffix_entries ix"
      "ix_entries ix1 = ix_entries ix" "ix_revision ix1 = ix_revision ix"
proof (cases "en_lifecycle e")
  case TlArchived
  show ?thesis
    by (rule that[of "ix\<lparr> ix_archived_order := bs_insert (order_key i e) (ix_archived_order ix) \<rparr>"])
      (auto simp: insert_entry_terms_def TlArchived has_terms_def in_scope_def scope_order_def split: search_scope.splits)
next
  case TlSettled
  show ?thesis
    by (rule that[of "ix\<lparr> ix_settled_order := bs_insert (order_key i e) (ix_settled_order ix) \<rparr>"])
      (auto simp: insert_entry_terms_def TlSettled has_terms_def in_scope_def scope_order_def split: search_scope.splits)
next
  case TlDeleted
  show ?thesis
    by (rule that[of ix])
      (auto simp: insert_entry_terms_def TlDeleted has_terms_def in_scope_def scope_order_def split: search_scope.splits)
qed (rule that[of "ix\<lparr> ix_active_order := bs_insert (order_key i e) (ix_active_order ix) \<rparr>"],
  auto simp: insert_entry_terms_def has_terms_def in_scope_def scope_order_def split: search_scope.splits)+

lemma insert_entry_terms_frame [simp]:
  "ix_entries (insert_entry_terms env i e ix) = ix_entries ix"
  "ix_revision (insert_entry_terms env i e ix) = ix_revision ix"
  by (rule insert_entry_terms_cases[of env i e ix], simp)+

lemma order_key_sel [simp]: "ok_task_id (order_key i e) = i"
  by (simp add: order_key_def)

lemma insert_entry_terms_represents:
  assumes "represents M ix" "M i = None" "scalars_present e (insert_entry_terms env i e ix)"
  shows "represents (M(i \<mapsto> e)) (insert_entry_terms env i e ix)"
proof -
  obtain ix1 where r: "insert_entry_terms env i e ix =
        (if has_terms e then insert_search_tokens env i e (insert_search_scalar_totals env e ix1) else ix1)"
    and o: "\<And>scope. scope_order scope ix1 =
        (if in_scope scope e then bs_insert (order_key i e) (scope_order scope ix) else scope_order scope ix)"
    and f: "ix_search ix1 = ix_search ix" "ix_search_index_saturated ix1 = ix_search_index_saturated ix"
      "ix_search_scalar_totals ix1 = ix_search_scalar_totals ix"
      "ix_unindexed_suffix_entries ix1 = ix_unindexed_suffix_entries ix"
    by (rule insert_entry_terms_cases[of env i e ix]) blast
  have M: "finite (dom M)" "orders_ok M ix"
    "ix_search_index_saturated ix \<or> (\<forall>t. posting_ok M t (bget (ix_search ix) t))"
    "\<forall>c. scalar_ok M c (bget (ix_search_scalar_totals ix) c)"
    "ix_unindexed_suffix_entries ix = card (long_entries M)"
    using assms(1) by (simp_all add: represents_def)
  have fresh: "i \<notin> long_entries M" using assms(2) by (simp add: long_entries_def)
  have ord: "scope_order scope (insert_entry_terms env i e ix) = scope_order scope ix1" for scope
    by (simp add: r)
  have "orders_ok (M(i \<mapsto> e)) (insert_entry_terms env i e ix)"
    using M(2) assms(2) unfolding orders_ok_def ord o by auto
  moreover have none: "members (M(i \<mapsto> e)) P a = members M P a" if "\<not> has_terms e" for P a
    using that assms(2) by (auto simp: members_def has_terms_def from_archived_def split: if_splits)
  have "ix_search_index_saturated (insert_entry_terms env i e ix) \<or>
      (\<forall>t. posting_ok (M(i \<mapsto> e)) t (bget (ix_search (insert_entry_terms env i e ix)) t))"
  proof (cases "has_terms e")
    case True
    then show ?thesis
      using insert_search_tokens_ok[OF M(1) assms(2) True, of "insert_search_scalar_totals env e ix1" env] M(3) f
      by (simp add: r)
  qed (use M(3) f slots_cong(1)[OF none] in \<open>simp add: r\<close>)
  moreover have "scalar_ok (M(i \<mapsto> e)) c (bget (ix_search_scalar_totals (insert_entry_terms env i e ix)) c)" for c
  proof (cases "has_terms e")
    case True
    have "\<forall>c \<in> set (en_lower_title e).
        bget (ix_search_scalar_totals (insert_search_scalar_totals env e ix1)) c \<noteq> None"
      using assms(3) True by (simp add: scalars_present_def r list_all_iff bcontains_iff)
    then show ?thesis
      using insert_scalar_totals_ok[OF M(1) assms(2) True, of ix1 env c] M(4) f True by (simp add: r)
  qed (use M(4) f slots_cong(2)[OF none] in \<open>simp add: r\<close>)
  moreover have "ix_unindexed_suffix_entries (insert_entry_terms env i e ix) = card (long_entries (M(i \<mapsto> e)))"
    using M(1,5) fresh assms(2) f by (simp add: r long_entries_update scalar_totals_suffix)
  ultimately show ?thesis using M(1) by (simp add: represents_def)
qed

lemma remove_task_id_represents:
  assumes "represents M ix" "bget (ix_entries ix) i = M i"
  shows "represents (M(i := None)) (remove_task_id i ix)"
proof (cases "M i")
  case None
  then have "M(i := None) = M" by auto
  then show ?thesis using assms None by (simp add: remove_task_id_def)
next
  case (Some e)
  define ix1 where "ix1 = ix\<lparr> ix_entries := bremove i (ix_entries ix),
      ix_active_order := bremove (order_key i e) (ix_active_order ix),
      ix_settled_order := bremove (order_key i e) (ix_settled_order ix),
      ix_archived_order := bremove (order_key i e) (ix_archived_order ix) \<rparr>"
  have terms: "has_terms e \<longleftrightarrow> \<not> (en_lifecycle e = TlSettled \<or> en_lifecycle e = TlDeleted)"
    by (cases "en_lifecycle e") (auto simp: has_terms_def in_scope_def)
  have r: "remove_task_id i ix = (if has_terms e then fold (remove_search_token i e)
      (search_tokens (en_lower_title e)) (remove_search_scalar_totals e ix1) else ix1)"
    using assms(2) Some by (simp add: remove_task_id_def ix1_def terms Let_def)
  have f: "ix_search ix1 = ix_search ix" "ix_search_index_saturated ix1 = ix_search_index_saturated ix"
      "ix_search_scalar_totals ix1 = ix_search_scalar_totals ix"
      "ix_unindexed_suffix_entries ix1 = ix_unindexed_suffix_entries ix"
    by (simp_all add: ix1_def)
  have o: "scope_order scope ix1 = bremove (order_key i e) (scope_order scope ix)" for scope
    by (simp add: ix1_def scope_order_def split: search_scope.split)
  have M: "finite (dom M)" "orders_ok M ix"
    "ix_search_index_saturated ix \<or> (\<forall>t. posting_ok M t (bget (ix_search ix) t))"
    "\<forall>c. scalar_ok M c (bget (ix_search_scalar_totals ix) c)"
    "ix_unindexed_suffix_entries ix = card (long_entries M)"
    using assms(1) by (simp_all add: represents_def)
  have ord: "scope_order scope (remove_task_id i ix) = scope_order scope ix1" for scope
    by (simp add: r)
  have "orders_ok (M(i := None)) (remove_task_id i ix)"
    using M(2) Some unfolding orders_ok_def ord o by auto
  moreover have none: "members (M(i := None)) P a = members M P a" if "\<not> has_terms e" for P a
    using that Some by (auto simp: members_def has_terms_def from_archived_def split: if_splits)
  have "ix_search_index_saturated (remove_task_id i ix) \<or>
      (\<forall>t. posting_ok (M(i := None)) t (bget (ix_search (remove_task_id i ix)) t))"
  proof (cases "has_terms e")
    case True
    then show ?thesis using M(3) f
      by (auto simp: r intro: remove_search_tokens_ok[OF M(1) Some True])
  qed (use M(3) f slots_cong(1)[OF none] in \<open>simp add: r\<close>)
  moreover have "scalar_ok (M(i := None)) c (bget (ix_search_scalar_totals (remove_task_id i ix)) c)" for c
  proof (cases "has_terms e")
    case True
    then show ?thesis
      using remove_scalar_totals_ok[OF M(1) Some True, of ix1 c] M(4) f by (simp add: r)
  qed (use M(4) f slots_cong(2)[OF none] in \<open>simp add: r\<close>)
  moreover have "has_terms e \<and> MAX_INDEXED_SUBSTRING_SOURCE_CHARS < length (en_lower_title e) \<Longrightarrow> i \<in> long_entries M"
    using Some by (simp add: long_entries_def)
  then have "ix_unindexed_suffix_entries (remove_task_id i ix) = card (long_entries (M(i := None)))"
    using M(1,5) Some f by (auto simp: r long_entries_update scalar_totals_suffix)
  ultimately show ?thesis using M(1) by (simp add: represents_def)
qed

section \<open>Runs of the index\<close>

text \<open>
  An index is built from the tasks of a snapshot and then updated, event by event.  The code counts
  a title's scalars only while the scalar table has room; a run is one in which it had.
\<close>

fun terms_kept :: "index_env \<Rightarrow> (task_id \<times> task_projection_entry) list \<Rightarrow> task_projection_index \<Rightarrow> bool" where
  "terms_kept env [] ix = True"
| "terms_kept env ((i, e) # xs) ix =
     (scalars_present e (insert_entry_terms env i e ix) \<and> terms_kept env xs (insert_entry_terms env i e ix))"

inductive index_run :: "index_env \<Rightarrow> task_projection_index \<Rightarrow> bool" for env where
  built: "terms_kept env (entries (tasks_entries env tasks)) (index_start env (tasks_entries env tasks) revision)
     \<Longrightarrow> index_run env (index_from_tasks env tasks revision)"
| updated: "index_run env ix \<Longrightarrow> scalars_present (entry_from_snapshot env s at) (update_task env s at ix)
     \<Longrightarrow> index_run env (update_task env s at ix)"
| revised: "index_run env ix \<Longrightarrow> index_run env (set_index_revision revision ix)"
| cloned: "index_run env ix \<Longrightarrow> index_run env (index_clone env ix)"

lemma build_represents:
  assumes "represents M ix" "distinct (map fst xs)" "\<forall>i \<in> fst ` set xs. M i = None" "terms_kept env xs ix"
  shows "represents (M ++ map_of xs) (fold (\<lambda>(i, e). insert_entry_terms env i e) xs ix)"
  using assms
proof (induction xs arbitrary: M ix)
  case (Cons x xs)
  obtain i e where x: "x = (i, e)" by (cases x)
  have "represents (M(i \<mapsto> e)) (insert_entry_terms env i e ix)"
    using Cons.prems by (intro insert_entry_terms_represents) (auto simp: x)
  moreover have "\<forall>j \<in> fst ` set xs. (M(i \<mapsto> e)) j = None"
    using Cons.prems(2,3) by (auto simp: x)
  ultimately have "represents (M(i \<mapsto> e) ++ map_of xs) (fold (\<lambda>(i, e). insert_entry_terms env i e) xs (insert_entry_terms env i e ix))"
    using Cons.prems(2,4) by (intro Cons.IH) (simp_all only: x list.map fst_conv distinct.simps terms_kept.simps)
  moreover have "map_of xs i = None" using Cons.prems(2) by (simp add: x map_of_eq_None_iff)
  then have "M(i \<mapsto> e) ++ map_of xs = M ++ map_of (x # xs)"
    by (intro ext) (auto simp: x map_add_def split: option.split)
  ultimately show ?case by (simp only: x fold_simps prod.case)
qed simp

lemma index_start_represents: "represents Map.empty (index_start env es revision)"
  by (auto simp: represents_def index_start_def orders_ok_def scope_order_def posting_ok_def scalar_ok_def
      members_def long_entries_def split: search_scope.split)

lemma remove_task_id_entries [simp]:
  "bget (ix_entries (remove_task_id i ix)) j = (if j = i then None else bget (ix_entries ix) j)"
  by (auto simp: remove_task_id_def Let_def split: option.splits)

lemma represents_upd [simp]:
  "represents M (ix\<lparr> ix_entries := es \<rparr>) = represents M ix"
  "represents M (ix\<lparr> ix_incremental_updates := u \<rparr>) = represents M ix"
  "represents M (ix\<lparr> ix_revision := u \<rparr>) = represents M ix"
  by (simp_all add: represents_def orders_ok_def)

lemma update_task_represents:
  assumes "represents (bget (ix_entries ix)) ix"
    and "scalars_present (entry_from_snapshot env s at) (update_task env s at ix)"
  shows "represents (bget (ix_entries (update_task env s at ix))) (update_task env s at ix)"
proof -
  let ?i = "tk_id (sn_task s)" and ?e = "entry_from_snapshot env s at"
  let ?r = "remove_task_id ?i ix"
  let ?x = "?r\<lparr> ix_entries := binsert ?i ?e (ix_entries ?r) \<rparr>"
  have u: "update_task env s at ix = (insert_entry_terms env ?i ?e ?x)
      \<lparr> ix_incremental_updates := saturating_add_u64 (ix_incremental_updates (insert_entry_terms env ?i ?e ?x)) 1 \<rparr>"
    by (simp add: update_task_def Let_def)
  have "represents ((bget (ix_entries ix))(?i := None)) ?x"
    using remove_task_id_represents[OF assms(1) refl] by simp
  then have "represents ((bget (ix_entries ix))(?i := None, ?i \<mapsto> ?e)) (insert_entry_terms env ?i ?e ?x)"
    using assms(2) by (intro insert_entry_terms_represents) (auto simp: u scalars_present_def)
  moreover have "bget (ix_entries (update_task env s at ix)) = (bget (ix_entries ix))(?i := None, ?i \<mapsto> ?e)"
    by (auto simp: u fun_eq_iff)
  ultimately show ?thesis by (simp add: u)
qed

lemma bget_bmap_with_key [simp]: "bget (bmap_with_key f m) k = map_option (f k) (bget m k)"
proof -
  have "map_of (map (\<lambda>(k, v). (k, f k v)) xs) k = map_option (f k) (map_of xs k)" for xs
    by (induction xs) auto
  then show ?thesis by (simp add: bget_def bmap_with_key.rep_eq)
qed

lemma posting_ok_clone:
  "posting_ok M t (map_option (\<lambda>(_, p). (kc, posting_clone env p)) slot) = posting_ok M t slot"
  by (cases slot) (auto simp: posting_ok_def posting_clone_def posting_ids_def posting_len_def all_bool_eq)

lemma index_clone_represents: "represents M ix \<Longrightarrow> represents M (index_clone env ix)"
  by (simp add: represents_def index_clone_def orders_ok_def posting_ok_clone)

lemma index_run_represents: "index_run env ix \<Longrightarrow> represents (bget (ix_entries ix)) ix"
proof (induction rule: index_run.induct)
  case (built tasks revision)
  let ?es = "tasks_entries env tasks"
  have "represents (Map.empty ++ map_of (entries ?es)) (index_from_tasks env tasks revision)"
    unfolding index_from_tasks_def using built
    by (intro build_represents index_start_represents) (auto simp: key_sorted_distinct)
  moreover have "ix_entries (index_from_tasks env tasks revision) = ?es"
    unfolding index_from_tasks_def by (subst fold_keeps[where h = ix_entries]) (auto simp: index_start_def)
  ultimately show ?case by (simp add: bget_def[abs_def])
next
  case (updated ix s at)
  then show ?case by (intro update_task_represents)
next
  case (revised ix revision)
  then show ?case by (simp add: set_index_revision_def)
next
  case (cloned ix)
  then show ?case using index_clone_represents[of _ ix env] by (simp add: index_clone_def)
qed

section \<open>Tokens\<close>

lemma str_contains_iff: "str_contains q s \<longleftrightarrow> sublist q s"
proof
  assume "str_contains q s"
  then obtain i where "take (length q) (drop i s) = q" by (auto simp: str_contains_def list_ex_iff)
  then have "s = take i s @ q @ drop (length q) (drop i s)"
    by (metis append_take_drop_id)
  then show "sublist q s" unfolding sublist_def by blast
next
  assume "sublist q s"
  then obtain ps ss where "s = ps @ q @ ss" unfolding sublist_def by blast
  then have "take (length q) (drop (length ps) s) = q" "length ps < Suc (length s)" by auto
  then show "str_contains q s" unfolding str_contains_def list_ex_iff by (metis atLeastLessThan_iff bot_nat_0.extremum set_upt)
qed

lemma in_fold_bs_insert_iff: "bcontains (fold bs_insert xs m) k \<longleftrightarrow> k \<in> set xs \<or> bcontains m k"
  by (induction xs arbitrary: m) auto

lemma token_of_iff:
  "token_of t title \<longleftrightarrow> (let chars = take 32 title in
     (\<exists>l. 1 \<le> l \<and> l \<le> 8 \<and> l \<le> length chars \<and> t = take l chars) \<or>
     (\<exists>start l. 1 \<le> start \<and> start < length chars \<and> 4 \<le> l \<and> l \<le> 8 \<and> l \<le> length chars - start
        \<and> t = take l (drop start chars)))"
proof -
  let ?chars = "take 32 title"
  have "token_of t title \<longleftrightarrow> t \<in> (\<lambda>l. take l ?chars) ` {1..<Suc (min 8 (length ?chars))} \<or>
      (\<exists>start \<in> {1..<length ?chars}. t \<in> (\<lambda>l. take l (drop start ?chars)) ` {4..<Suc (min 8 (length ?chars - start))})"
    by (simp only: search_tokens_def Let_def in_fold_bs_insert_iff in_bkeys_iff bcontains_ops(1) set_append set_map
        set_concat set_upt UN_iff Un_iff image_image MAX_INDEXED_SUBSTRING_SOURCE_CHARS_def MAX_INDEXED_GRAM_CHARS_def simp_thms)
  then show ?thesis unfolding Let_def image_iff Bex_def atLeastLessThan_iff less_Suc_eq_le min.bounded_iff by blast
qed

lemma sublist_take_drop: "sublist (take l (drop start (take n xs))) xs"
proof -
  have "sublist (take l (drop start (take n xs))) (take n xs)"
    by (rule sublist_order.order_trans[OF sublist_take sublist_drop])
  then show ?thesis using sublist_take by (rule sublist_order.order_trans)
qed

lemma token_sublist:
  assumes "token_of t title" shows "sublist t title" "t \<noteq> []" "length t \<le> 8"
proof -
  have "\<exists>l start. t = take l (drop start (take 32 title)) \<and> 1 \<le> l \<and> l \<le> 8 \<and> l \<le> length (drop start (take 32 title))"
    using assms unfolding token_of_iff Let_def
  proof (elim disjE exE conjE)
    fix l assume "1 \<le> l" "l \<le> 8" "l \<le> length (take 32 title)" "t = take l (take 32 title)"
    then show ?thesis by (intro exI[of _ l] exI[of _ 0]) simp
  next
    fix start l
    assume "4 \<le> l" "l \<le> 8" "l \<le> length (take 32 title) - start" "t = take l (drop start (take 32 title))"
    then show ?thesis by (intro exI[of _ l] exI[of _ start]) simp
  qed
  then show "sublist t title" "t \<noteq> []" "length t \<le> 8" using sublist_take_drop by auto
qed

lemma token_of_gram:
  assumes "4 \<le> length t" "length t \<le> 8" "sublist t title" "length title \<le> 32"
  shows "token_of t title"
proof -
  obtain ps ss where title: "title = ps @ t @ ss" using assms(3) unfolding sublist_def by blast
  show ?thesis
  proof (cases "ps = []")
    case True
    then show ?thesis using assms title
      unfolding token_of_iff Let_def by (intro disjI1 exI[of _ "length t"]) simp
  next
    case False
    then show ?thesis using assms title unfolding token_of_iff Let_def
      by (intro disjI2 exI[of _ "length ps"] exI[of _ "length t"]) (cases ps; cases t; simp)
  qed
qed

lemma max_by_key_Some:
  assumes "max_by_key f xs = Some x"
  shows "x \<in> set xs \<and> (\<forall>y \<in> set xs. f y \<le> f x)"
proof -
  let ?g = "\<lambda>x best. case best of None \<Rightarrow> Some x | Some b \<Rightarrow> if f x \<ge> f b then Some x else Some b"
  have "fold ?g xs best = Some x \<Longrightarrow> (best = Some x \<or> x \<in> set xs) \<and> (\<forall>y \<in> set xs. f y \<le> f x)
      \<and> (case best of None \<Rightarrow> True | Some b \<Rightarrow> f b \<le> f x)" for best
  proof (induction xs arbitrary: best)
    case (Cons y ys)
    have "fold ?g ys (?g y best) = Some x" using Cons.prems by simp
    from Cons.IH[OF this] show ?case by (cases best) (auto split: if_splits)
  qed simp
  from this[of None] assms show ?thesis by (simp add: max_by_key_def)
qed

section \<open>What a search relies on\<close>

text \<open>
  A search reads the index through four laws: each order lists the keys of the tasks in its scope;
  a posting counts the tasks that have its token and stores some of them; a scalar total counts the
  tasks whose title has the scalar; and no indexed title is longer than the indexed prefix while
  the count of such titles is zero.
\<close>

definition found :: "task_projection_index \<Rightarrow> search_scope \<Rightarrow> rstr \<Rightarrow> task_id list" where
  "found ix scope query = map ok_task_id (filter (title_matches ix query) (bkeys (scope_order scope ix)))"

definition candidates :: "task_projection_index \<Rightarrow> rstr \<Rightarrow> (rstr \<times> search_posting) list" where
  "candidates ix query = List.map_filter
     (\<lambda>token. map_option (\<lambda>(_, posting). (token, posting)) (bget (ix_search ix) token)) (search_tokens query)"

lemma set_candidates:
  "(t, p) \<in> set (candidates ix query) \<longleftrightarrow> token_of t query \<and> (\<exists>kc. bget (ix_search ix) t = Some (kc, p))"
  by (auto simp: candidates_def List.map_filter_def image_iff)

lemma indexed_token_Some:
  assumes "indexed_token ix scope query = Some (token, p)"
  shows "uses_search_postings scope" "4 \<le> length query" "ix_unindexed_suffix_entries ix = 0"
    "(token, p) \<in> set (candidates ix query)"
    "\<And>t u. (t, u) \<in> set (candidates ix query) \<Longrightarrow> length t \<le> length token"
proof -
  have m: "max_by_key (\<lambda>(t, _). length t) (candidates ix query) = Some (token, p)"
    and q: "uses_search_postings scope" "4 \<le> length query" "ix_unindexed_suffix_entries ix = 0"
    using assms by (auto simp: indexed_token_def candidates_def split: if_splits)
  show "uses_search_postings scope" "4 \<le> length query" "ix_unindexed_suffix_entries ix = 0" by (fact q)+
  show "(token, p) \<in> set (candidates ix query)" using max_by_key_Some[OF m] by blast
  show "\<And>t u. (t, u) \<in> set (candidates ix query) \<Longrightarrow> length t \<le> length token"
    using max_by_key_Some[OF m] by fastforce
qed

lemma scan_keys_filter:
  "length ids \<le> MAX_CLIENT_SEARCH_RESULTS \<Longrightarrow> scan_keys ix query keys (ids, n) =
     (take MAX_CLIENT_SEARCH_RESULTS (ids @ map ok_task_id (filter (title_matches ix query) keys)),
      n + length (filter (title_matches ix query) keys))"
proof (induction keys arbitrary: ids n)
  case (Cons k ks)
  have step: "scan_keys ix query (k # ks) (ids, n) = scan_keys ix query ks
      (if title_matches ix query k
       then (if length ids < MAX_CLIENT_SEARCH_RESULTS then ids @ [ok_task_id k] else ids, n + 1) else (ids, n))"
    by (simp add: scan_keys_def)
  show ?case
  proof (cases "title_matches ix query k \<and> length ids < MAX_CLIENT_SEARCH_RESULTS")
    case True
    then show ?thesis using Cons.IH[of "ids @ [ok_task_id k]" "n + 1"] by (simp add: step)
  next
    case False
    then show ?thesis using Cons.IH[of ids] Cons.prems by (auto simp: step)
  qed
qed (simp add: scan_keys_def)

locale search_index =
  fixes ok :: "task_projection_index \<Rightarrow> bool"
  assumes order_law: "ok ix \<Longrightarrow> orders_ok (bget (ix_entries ix)) ix"
    and posting_law: "ok ix \<Longrightarrow> posting_ok (bget (ix_entries ix)) t (bget (ix_search ix) t)"
    and scalar_law: "ok ix \<Longrightarrow> scalar_ok (bget (ix_entries ix)) c (bget (ix_search_scalar_totals ix) c)"
    and suffix_law: "ok ix \<Longrightarrow> ix_unindexed_suffix_entries ix = 0 \<Longrightarrow> long_entries (bget (ix_entries ix)) = {}"
begin

lemma order_iff:
  "ok ix \<Longrightarrow> bcontains (scope_order scope ix) k \<longleftrightarrow>
     (\<exists>e. bget (ix_entries ix) (ok_task_id k) = Some e \<and> in_scope scope e \<and> k = order_key (ok_task_id k) e)"
  using order_law unfolding orders_ok_def by blast

lemma inj_on_order: "ok ix \<Longrightarrow> inj_on ok_task_id {k. bcontains (scope_order scope ix) k}"
  by (rule inj_onI) (metis mem_Collect_eq option.inject order_iff)

text \<open>The tasks a query matches, as a set: what the counters of the index count.\<close>

lemma set_found:
  assumes "ok ix" "uses_search_postings scope"
  shows "set (found ix scope query) =
    members (bget (ix_entries ix)) (str_contains query) (posting_archived scope)"
proof -
  have scope: "from_archived (posting_archived scope) = scope"
    using assms(2) by (auto simp: from_archived_def posting_archived_def uses_search_postings_def)
  show ?thesis
  proof (intro set_eqI iffI)
    fix i assume "i \<in> set (found ix scope query)"
    then show "i \<in> members (bget (ix_entries ix)) (str_contains query) (posting_archived scope)"
      using order_iff[OF assms(1)] by (auto simp: found_def members_def scope title_matches_def)
  next
    fix i assume "i \<in> members (bget (ix_entries ix)) (str_contains query) (posting_archived scope)"
    then obtain e where e: "bget (ix_entries ix) i = Some e" "in_scope scope e" "str_contains query (en_lower_title e)"
      by (auto simp: members_def scope)
    then have "bcontains (scope_order scope ix) (order_key i e)" "title_matches ix query (order_key i e)"
      using order_iff[OF assms(1)] by (auto simp: title_matches_def)
    then show "i \<in> set (found ix scope query)" by (force simp: found_def)
  qed
qed

lemma distinct_found: "ok ix \<Longrightarrow> distinct (found ix scope query)"
  unfolding found_def using inj_on_order
  by (auto simp: distinct_map inj_on_def)

lemma length_found:
  "ok ix \<Longrightarrow> uses_search_postings scope \<Longrightarrow> length (found ix scope query) =
     card (members (bget (ix_entries ix)) (str_contains query) (posting_archived scope))"
  by (metis distinct_card distinct_found set_found)

lemma short_title:
  assumes "ok ix" "ix_unindexed_suffix_entries ix = 0" "bget (ix_entries ix) i = Some e" "has_terms e"
  shows "length (en_lower_title e) \<le> 32"
  using suffix_law[OF assms(1,2)] assms(3,4)
  by (auto simp: long_entries_def MAX_INDEXED_SUBSTRING_SOURCE_CHARS_def not_less)

lemma in_scope_terms: "in_scope (from_archived a) e \<Longrightarrow> has_terms e"
  by (auto simp: has_terms_def from_archived_def split: if_splits)

lemma has_posting:
  assumes "ok ix" "i \<in> members (bget (ix_entries ix)) (token_of t) archived"
  shows "bget (ix_search ix) t \<noteq> None"
  using posting_law[OF assms(1), of t] assms(2) by (auto simp: posting_ok_def split: option.splits)

text \<open>The posting of the longest indexed token of a query holds every task the query matches.\<close>

lemma indexed_token_covers:
  assumes "ok ix" "indexed_token ix scope query = Some (token, p)"
  shows "members (bget (ix_entries ix)) (str_contains query) archived
    \<subseteq> members (bget (ix_entries ix)) (token_of token) archived"
proof
  note q = indexed_token_Some(2,3)[OF assms(2)] and mx = indexed_token_Some(5)[OF assms(2)]
  have tok: "token_of token query" using indexed_token_Some(4)[OF assms(2)] by (simp add: set_candidates)
  fix i assume "i \<in> members (bget (ix_entries ix)) (str_contains query) archived"
  then obtain e where e: "bget (ix_entries ix) i = Some e" "in_scope (from_archived archived) e"
      "sublist query (en_lower_title e)" by (auto simp: members_def str_contains_iff)
  have short: "length (en_lower_title e) \<le> 32"
    using short_title[OF assms(1) q(2) e(1)] in_scope_terms[OF e(2)] .
  have gram: "token_of t (en_lower_title e)" if "sublist t query" "4 \<le> length t" "length t \<le> 8" for t
    using token_of_gram[OF that(2,3) _ short] that(1) e(3) sublist_order.order_trans by blast
  have p4: "sublist (take 4 query) query" "length (take 4 query) = 4" using q(1) by auto
  then have "token_of (take 4 query) (en_lower_title e)" by (intro gram) auto
  then have "bget (ix_search ix) (take 4 query) \<noteq> None"
    using e has_posting[OF assms(1), of i "take 4 query" archived] by (auto simp: members_def)
  moreover have "token_of (take 4 query) query"
    using q(1) by (auto simp: token_of_iff Let_def intro!: exI[of _ 4])
  ultimately have "\<exists>u. (take 4 query, u) \<in> set (candidates ix query)"
    by (auto simp: set_candidates)
  then have "4 \<le> length token" using mx p4(2) by metis
  then have "token_of token (en_lower_title e)"
    using token_sublist[OF tok] by (intro gram)
  then show "i \<in> members (bget (ix_entries ix)) (token_of token) archived"
    using e by (auto simp: members_def)
qed

lemma exact_total_found:
  assumes "ok ix" "exact_indexed_total ix scope query = Some n"
  shows "n = length (found ix scope query)"
proof -
  consider (empty) "query = []" | (scalar) c t where "query = [c]" "uses_search_postings scope"
      "bget (ix_search_scalar_totals ix) c = Some t" "n = scalar_len (posting_archived scope) t"
    | (token) p where "uses_search_postings scope" "indexed_token ix scope query = Some (query, p)"
      "n = posting_len (posting_archived scope) p" "query \<noteq> []"
    using assms(2) by (auto simp: exact_indexed_total_def length_Suc_conv split: if_splits option.splits)
  then show ?thesis
  proof cases
    case empty
    have "filter (title_matches ix []) (bkeys (scope_order scope ix)) = bkeys (scope_order scope ix)"
      using order_iff[OF assms(1)] by (auto simp: filter_id_conv title_matches_def str_contains_iff)
    then show ?thesis using assms(2) empty by (simp add: found_def exact_indexed_total_def)
  next
    case scalar
    have "str_contains [c] = (\<lambda>title. c \<in> set title)"
      by (auto simp: str_contains_iff sublist_def fun_eq_iff dest: split_list)
    then show ?thesis using scalar scalar_law[OF assms(1), of c] length_found[OF assms(1) scalar(2), of query]
      by (simp add: scalar_ok_def)
  next
    case token
    have sub: "token_of query title \<Longrightarrow> str_contains query title" for title
      using token_sublist(1) str_contains_iff by blast
    have "members (bget (ix_entries ix)) (token_of query) (posting_archived scope)
        = members (bget (ix_entries ix)) (str_contains query) (posting_archived scope)"
      using indexed_token_covers[OF assms(1) token(2), of "posting_archived scope"] sub by (auto simp: members_def)
    moreover obtain kc where "bget (ix_search ix) query = Some (kc, p)"
      using indexed_token_Some(4)[OF token(2)] by (auto simp: set_candidates)
    ultimately show ?thesis
      using posting_law[OF assms(1), of query] length_found[OF assms(1) token(1), of query] token(3)
      by (simp add: posting_ok_def)
  qed
qed

lemma posting_page_exact:
  assumes "ok ix" "indexed_token ix scope query = Some (token, p)"
    and "length (posting_ids (posting_archived scope) p) \<le> MAX_CLIENT_SEARCH_WORK"
    and "ids_complete (posting_archived scope) p"
  shows "posting_page ix query tr (posting_ids (posting_archived scope) p) =
    \<lparr> pg_ids = take MAX_CLIENT_SEARCH_RESULTS (found ix scope query),
      pg_known_total = length (found ix scope query), pg_exact_total = Some (length (found ix scope query)),
      pg_work = length (posting_ids (posting_archived scope) p), pg_status = PageComplete,
      pg_query_truncated = tr, pg_continuation = None \<rparr>"
proof -
  let ?M = "bget (ix_entries ix)" and ?a = "posting_archived scope"
  let ?ids = "posting_ids ?a p"
  let ?keys = "List.map_filter (\<lambda>i. map_option (order_key i) (?M i)) ?ids"
  have scope: "from_archived ?a = scope"
    using indexed_token_Some(1)[OF assms(2)]
    by (auto simp: from_archived_def posting_archived_def uses_search_postings_def)
  obtain kc where kc: "bget (ix_search ix) token = Some (kc, p)"
    using indexed_token_Some(4)[OF assms(2)] by (auto simp: set_candidates)
  have "finite (members ?M (token_of token) ?a)"
    by (rule finite_subset[OF _ finite_bcontains[of "ix_entries ix"]]) (auto simp: members_def bcontains_iff)
  moreover have ids: "distinct ?ids" "set ?ids \<subseteq> members ?M (token_of token) ?a"
      "card (set ?ids) = card (members ?M (token_of token) ?a)"
    using posting_law[OF assms(1), of token] assms(4) kc
    by (simp_all add: posting_ok_def ids_complete_def distinct_card)
  ultimately have ids: "distinct ?ids" "set ?ids = members ?M (token_of token) ?a"
    using card_subset_eq by blast+
  have keys: "?keys = map (\<lambda>i. order_key i (the (?M i))) ?ids"
  proof -
    have "\<forall>i \<in> set ?ids. ?M i \<noteq> None" using ids(2) by (auto simp: members_def)
    then have "List.map_filter (\<lambda>i. map_option (order_key i) (?M i)) xs = map (\<lambda>i. order_key i (the (?M i))) xs"
      if "set xs \<subseteq> set ?ids" for xs
      using that by (induction xs) (auto simp: List.map_filter_simps)
    then show ?thesis by simp
  qed
  have dist: "distinct ?keys"
    unfolding keys distinct_map using ids(1) by (auto intro!: inj_onI dest: arg_cong[of _ _ ok_task_id])
  have in_keys: "k \<in> set ?keys \<longleftrightarrow> (\<exists>e. ok_task_id k \<in> set ?ids \<and> ?M (ok_task_id k) = Some e \<and> k = order_key (ok_task_id k) e)" for k
    unfolding keys using ids(2) by (force simp: members_def)
  have in_order: "k \<in> set (bkeys (scope_order scope ix)) \<longleftrightarrow>
      (\<exists>e. ?M (ok_task_id k) = Some e \<and> in_scope scope e \<and> k = order_key (ok_task_id k) e)" for k
    using order_iff[OF assms(1)] by simp
  have "filter (title_matches ix query) (sort ?keys) = filter (title_matches ix query) (bkeys (scope_order scope ix))"
  proof (rule sorted_distinct_set_unique)
    have "k \<in> set ?keys \<longleftrightarrow> k \<in> set (bkeys (scope_order scope ix))" if "title_matches ix query k" for k
    proof -
      obtain e where e: "?M (ok_task_id k) = Some e" "str_contains query (en_lower_title e)"
        using \<open>title_matches ix query k\<close> by (auto simp: title_matches_def split: option.splits)
      have "ok_task_id k \<in> set ?ids \<longleftrightarrow> in_scope scope e"
        using e indexed_token_covers[OF assms(1,2), of ?a] ids(2) by (auto simp: members_def scope)
      then show ?thesis unfolding in_keys in_order using e(1) by auto
    qed
    then show "set (filter (title_matches ix query) (sort ?keys)) =
        set (filter (title_matches ix query) (bkeys (scope_order scope ix)))" by auto
  qed (use dist in \<open>simp_all add: sorted_wrt_filter strict_sorted_imp_sorted\<close>)
  moreover have "length ?keys = length ?ids" by (simp add: keys)
  ultimately show ?thesis
    by (simp add: posting_page_def Let_def scan_keys_filter found_def)
qed

end

section \<open>Continuing a search\<close>

lemma cursor_drop:
  assumes "sorted_wrt (<) (ks :: 'a::linorder list)" "0 < m" "m \<le> length ks"
  shows "filter (\<lambda>k. last (take m ks) < k) ks = drop m ks"
proof -
  have ks: "ks = take m ks @ drop m ks" by simp
  have ne: "take m ks \<noteq> []" using assms(2,3) by auto
  have sw: "sorted_wrt (<) (take m ks @ drop m ks)" using assms(1) by simp
  have "k \<le> last (take m ks)" if "k \<in> set (take m ks)" for k
  proof -
    have "take m ks = butlast (take m ks) @ [last (take m ks)]" using ne by simp
    then have "sorted_wrt (<) (butlast (take m ks) @ [last (take m ks)])"
      using sw by (metis sorted_wrt_append)
    then show ?thesis using that ne
      by (metis append_butlast_last_id less_imp_le order_refl rotate1.simps(2) set_ConsD set_rotate1 sorted_wrt_append list.set_intros(1))
  qed
  moreover have "last (take m ks) < k" if "k \<in> set (drop m ks)" for k
    using sw ne that by (meson last_in_set sorted_wrt_append)
  ultimately have "filter (\<lambda>k. last (take m ks) < k) (take m ks @ drop m ks) = drop m ks"
    unfolding filter_append by (auto simp: filter_empty_conv filter_id_conv not_less)
  then show ?thesis by simp
qed

definition cont_at :: "task_projection_index \<Rightarrow> search_scope \<Rightarrow> rstr \<Rightarrow> nat \<Rightarrow> search_continuation option" where
  "cont_at ix scope query m =
     (let ks = take m (bkeys (scope_order scope ix)); hits = filter (title_matches ix query) ks
      in if m = 0 then None
         else Some \<lparr> co_query = query, co_scope = scope, co_revision = ix_revision ix,
                co_cursor = Some (last ks),
                co_retained_ids = take MAX_CLIENT_SEARCH_RESULTS (map ok_task_id hits),
                co_lower_bound = length hits \<rparr>)"

lemma scan_keys_append:
  "scan_keys ix query ys (take MAX_CLIENT_SEARCH_RESULTS (map ok_task_id (filter (title_matches ix query) xs)),
      length (filter (title_matches ix query) xs)) =
    (take MAX_CLIENT_SEARCH_RESULTS (map ok_task_id (filter (title_matches ix query) (xs @ ys))),
     length (filter (title_matches ix query) (xs @ ys)))"
  by (simp add: scan_keys_filter min_def)

lemma scan_page_at:
  assumes "m \<le> blen (scope_order scope ix)"
  shows "scan_page ix scope query tr (cont_at ix scope query m) =
    (let ks = bkeys (scope_order scope ix);
         m' = m + length (take MAX_CLIENT_SEARCH_WORK (drop m ks));
         hits = filter (title_matches ix query) (take m' ks);
         exact = exact_indexed_total ix scope query;
         complete = (m' < m + MAX_CLIENT_SEARCH_WORK)
     in \<lparr> pg_ids = take MAX_CLIENT_SEARCH_RESULTS (map ok_task_id hits),
          pg_known_total = (case exact of Some n \<Rightarrow> n | None \<Rightarrow> length hits),
          pg_exact_total = (case exact of Some n \<Rightarrow> Some n | None \<Rightarrow> if complete then Some (length hits) else None),
          pg_work = m' - m, pg_status = (if complete then PageComplete else PagePartial),
          pg_query_truncated = tr, pg_continuation = (if complete then None else cont_at ix scope query m') \<rparr>)"
proof -
  let ?K = "bkeys (scope_order scope ix)"
  let ?scanned = "take MAX_CLIENT_SEARCH_WORK (drop m ?K)"
  have rest: "(case (case cont_at ix scope query m of None \<Rightarrow> None | Some c \<Rightarrow> co_cursor c) of None \<Rightarrow> ?K
      | Some cursor \<Rightarrow> filter (\<lambda>k. cursor < k) ?K) = drop m ?K"
    using assms cursor_drop[of ?K m] by (auto simp: cont_at_def Let_def)
  have tk: "take m ?K @ ?scanned = take (m + length ?scanned) ?K"
    by (simp add: take_add min_def)
  have acc: "(case cont_at ix scope query m of None \<Rightarrow> [] | Some c \<Rightarrow> take MAX_CLIENT_SEARCH_RESULTS (co_retained_ids c))
      = take MAX_CLIENT_SEARCH_RESULTS (map ok_task_id (filter (title_matches ix query) (take m ?K)))"
    "(case cont_at ix scope query m of None \<Rightarrow> 0 | Some c \<Rightarrow> co_lower_bound c)
      = length (filter (title_matches ix query) (take m ?K))"
    by (simp_all add: cont_at_def Let_def)
  have scan: "scan_keys ix query ?scanned (take MAX_CLIENT_SEARCH_RESULTS (map ok_task_id (filter (title_matches ix query) (take m ?K))),
        length (filter (title_matches ix query) (take m ?K))) =
      (take MAX_CLIENT_SEARCH_RESULTS (map ok_task_id (filter (title_matches ix query) (take (m + length ?scanned) ?K))),
       length (filter (title_matches ix query) (take (m + length ?scanned) ?K)))"
    unfolding tk[symmetric] by (rule scan_keys_append)
  have last: "?scanned \<noteq> [] \<Longrightarrow> last (take (m + length ?scanned) ?K) = last ?scanned"
    unfolding tk[symmetric] by (rule last_appendR)
  have "\<not> length ?scanned < MAX_CLIENT_SEARCH_WORK \<Longrightarrow> ?scanned \<noteq> []"
    by (auto simp: MAX_CLIENT_SEARCH_WORK_def MAX_CLIENT_SEARCH_RESULTS_def)
  then have next_page: "\<not> length ?scanned < MAX_CLIENT_SEARCH_WORK \<Longrightarrow>
      cont_at ix scope query (m + length ?scanned) = Some \<lparr> co_query = query, co_scope = scope,
        co_revision = ix_revision ix, co_cursor = Some (last ?scanned),
        co_retained_ids = take MAX_CLIENT_SEARCH_RESULTS (map ok_task_id
          (filter (title_matches ix query) (take (m + length ?scanned) ?K))),
        co_lower_bound = length (filter (title_matches ix query) (take (m + length ?scanned) ?K)) \<rparr> \<and> ?scanned \<noteq> []"
    using last unfolding cont_at_def Let_def by simp
  show ?thesis
  proof (cases "length ?scanned < MAX_CLIENT_SEARCH_WORK")
    case True
    then have "m + length ?scanned < m + MAX_CLIENT_SEARCH_WORK" by simp
    with True show ?thesis
      unfolding scan_page_def Let_def rest acc scan prod.case
      by (simp only: if_True simp_thms add_diff_cancel_left')
  next
    case False
    then have "\<not> m + length ?scanned < m + MAX_CLIENT_SEARCH_WORK" by simp
    moreover have "(case e of None \<Rightarrow> None | Some n \<Rightarrow> Some n) = e" for e :: "nat option" by (cases e) simp_all
    ultimately show ?thesis using False next_page[OF False]
      unfolding scan_page_def Let_def rest acc scan prod.case
      by (simp only: if_False simp_thms add_diff_cancel_left')
  qed
qed

text \<open>The pages a caller sees that starts a search and continues it until it is complete.\<close>

fun search_pages ::
  "nat \<Rightarrow> index_env \<Rightarrow> rstr \<Rightarrow> search_scope \<Rightarrow> search_continuation option \<Rightarrow> task_projection_index \<Rightarrow> search_page list" where
  "search_pages 0 env query scope c ix = []"
| "search_pages (Suc n) env query scope c ix =
     (let p = search_task_ids_page_scoped env query scope c ix
      in p # (case pg_continuation p of None \<Rightarrow> [] | Some c' \<Rightarrow> search_pages n env query scope (Some c') ix))"

definition normalized_query :: "index_env \<Rightarrow> rstr \<Rightarrow> rstr" where
  "normalized_query env query = trim (fst (normalize_bounded_search_text env query MAX_CLIENT_SEARCH_CHARS))"

definition answers :: "task_projection_index \<Rightarrow> search_scope \<Rightarrow> rstr \<Rightarrow> search_page list \<Rightarrow> bool" where
  "answers ix scope query ps \<longleftrightarrow> ps \<noteq> [] \<and> pg_status (last ps) = PageComplete
     \<and> pg_ids (last ps) = take MAX_CLIENT_SEARCH_RESULTS (found ix scope query)
     \<and> pg_exact_total (last ps) = Some (length (found ix scope query))
     \<and> list_all (\<lambda>p. pg_work p \<le> MAX_CLIENT_SEARCH_WORK) ps"

lemma answers_Cons:
  "answers ix scope query ps \<Longrightarrow> pg_work p \<le> MAX_CLIENT_SEARCH_WORK \<Longrightarrow> answers ix scope query (p # ps)"
  by (simp add: answers_def)

lemma page_at_cases:
  assumes q_def: "q = normalized_query env query"
    and p_def: "p = search_task_ids_page_scoped env query scope (cont_at ix scope q m) ix"
  obtains (posting) token first tr where "indexed_token ix scope q = Some (token, first)"
      "length (posting_ids (posting_archived scope) first) \<le> MAX_CLIENT_SEARCH_WORK"
      "ids_complete (posting_archived scope) first"
      "p = posting_page ix q tr (posting_ids (posting_archived scope) first)"
    | (scan) tr where "p = scan_page ix scope q tr (cont_at ix scope q m)"
proof -
  obtain norm tr where norm: "normalize_bounded_search_text env query MAX_CLIENT_SEARCH_CHARS = (norm, tr)"
    by (cases "normalize_bounded_search_text env query MAX_CLIENT_SEARCH_CHARS")
  have q: "trim norm = q" by (simp add: q_def normalized_query_def norm)
  have fresh: "\<not> (case cont_at ix scope q m of None \<Rightarrow> False | Some c \<Rightarrow>
      co_query c \<noteq> q \<or> co_scope c \<noteq> scope \<or> co_revision c \<noteq> ix_revision ix)"
    by (simp add: cont_at_def Let_def)
  have p: "p = (case (cont_at ix scope q m, indexed_token ix scope q) of
      (None, Some (token, first)) \<Rightarrow>
        if posting_len (posting_archived scope) first \<le> MAX_CLIENT_SEARCH_WORK
           \<and> length (posting_ids (posting_archived scope) first) \<le> MAX_CLIENT_SEARCH_WORK
           \<and> ids_complete (posting_archived scope) first
        then posting_page ix q tr (posting_ids (posting_archived scope) first)
        else scan_page ix scope q tr (cont_at ix scope q m)
    | _ \<Rightarrow> scan_page ix scope q tr (cont_at ix scope q m))"
    using fresh unfolding p_def search_task_ids_page_scoped_def norm Let_def prod.case q by (simp only: if_False)
  show ?thesis
    using p posting scan by (auto split: option.splits if_splits)
qed

context search_index
begin

lemma search_pages_answer:
  assumes q_def: "q = normalized_query env query" and "ok ix" and "m \<le> blen (scope_order scope ix)"
    and "(blen (scope_order scope ix) - m) div MAX_CLIENT_SEARCH_WORK < n"
  shows "answers ix scope q (search_pages n env query scope (cont_at ix scope q m) ix)"
  using assms(3,4)
proof (induction n arbitrary: m)
  case (Suc n)
  let ?K = "bkeys (scope_order scope ix)" and ?W = MAX_CLIENT_SEARCH_WORK
  let ?p = "search_task_ids_page_scoped env query scope (cont_at ix scope q m) ix"
  from q_def refl[of ?p] show ?case
  proof (cases rule: page_at_cases)
    case (posting token first tr)
    from posting_page_exact[OF assms(2) posting(1-3)] posting show ?thesis
      by (simp add: answers_def)
  next
    case (scan tr)
    define m' where "m' = m + length (take ?W (drop m ?K))"
    have W: "0 < ?W" by (simp add: MAX_CLIENT_SEARCH_WORK_def MAX_CLIENT_SEARCH_RESULTS_def)
    note page = scan_page_at[OF Suc.prems(1), of q tr, folded scan, unfolded Let_def, folded m'_def]
    have work: "pg_work ?p \<le> ?W" unfolding page by (simp add: m'_def)
    show ?thesis
    proof (cases "m' < m + ?W")
      case True
      then have "take m' ?K = ?K" by (auto simp: m'_def min_def split: if_splits)
      then have "pg_ids ?p = take MAX_CLIENT_SEARCH_RESULTS (found ix scope q)"
          "pg_exact_total ?p = Some (length (found ix scope q))" "pg_status ?p = PageComplete"
          "pg_continuation ?p = None"
        using True exact_total_found[OF assms(2), of scope q] unfolding page
        by (simp_all add: found_def split: option.split)
      then show ?thesis using work by (simp add: answers_def)
    next
      case False
      then have m': "m' = m + ?W" "m' \<le> blen (scope_order scope ix)"
        using Suc.prems(1) by (auto simp: m'_def min_def split: if_splits)
      have cont: "pg_continuation ?p = cont_at ix scope q m'" using False unfolding page by simp
      have "m' \<noteq> 0" using m'(1) W by simp
      then obtain c where c: "cont_at ix scope q m' = Some c" by (simp add: cont_at_def Let_def)
      have "blen (scope_order scope ix) - m = ?W + (blen (scope_order scope ix) - m')" using m' by linarith
      then have "(blen (scope_order scope ix) - m) div ?W = Suc ((blen (scope_order scope ix) - m') div ?W)"
        using W by (simp add: div_add_self1)
      then have "answers ix scope q (search_pages n env query scope (cont_at ix scope q m') ix)"
        using Suc.IH[OF m'(2)] Suc.prems(2) by simp
      then show ?thesis using work cont c by (simp add: answers_Cons)
    qed
  qed
qed simp

end

definition index_ok :: "task_projection_index \<Rightarrow> bool" where
  "index_ok ix \<longleftrightarrow> represents (bget (ix_entries ix)) ix \<and> \<not> ix_search_index_saturated ix"

interpretation projection: search_index index_ok
proof
  fix ix assume ok: "index_ok ix"
  then show "orders_ok (bget (ix_entries ix)) ix" "posting_ok (bget (ix_entries ix)) t (bget (ix_search ix) t)"
    "scalar_ok (bget (ix_entries ix)) c (bget (ix_search_scalar_totals ix) c)" for t c
    unfolding index_ok_def represents_def by blast+
  assume "ix_unindexed_suffix_entries ix = 0"
  with ok show "long_entries (bget (ix_entries ix)) = {}"
    by (metis card_0_eq finite_long_entries index_ok_def represents_def)
qed

text \<open>C13. A search through the index finds what a scan of every task would.  On an index built from a
  snapshot and kept current by events, whose table of scalars always had room for the titles it took in and
  whose posting table never ran out of room, a search that follows its continuations ends within one page per 5000 tasks in scope, inspects at most 5000
  candidates per page, and its last page lists the first 5000 tasks, in the order of the list, whose
  normalised title contains the normalised query, with their exact number; the postings, the scalar
  totals and the cursors change the work and never the answer.
\<close>

theorem search_pages_exact:
  assumes "index_run env ix" and "\<not> ix_search_index_saturated ix"
    and "blen (scope_order scope ix) div MAX_CLIENT_SEARCH_WORK < n"
  shows "let ps = search_pages n env query scope None ix;
             hits = filter (\<lambda>k. str_contains (normalized_query env query) (en_lower_title
               (the (bget (ix_entries ix) (ok_task_id k))))) (bkeys (scope_order scope ix))
         in ps \<noteq> [] \<and> pg_status (last ps) = PageComplete
            \<and> pg_ids (last ps) = take MAX_CLIENT_SEARCH_RESULTS (map ok_task_id hits)
            \<and> pg_exact_total (last ps) = Some (length hits)
            \<and> list_all (\<lambda>p. pg_work p \<le> MAX_CLIENT_SEARCH_WORK) ps"
proof -
  have ok: "index_ok ix" using assms(1,2) by (simp add: index_ok_def index_run_represents)
  have "filter (\<lambda>k. str_contains (normalized_query env query) (en_lower_title
        (the (bget (ix_entries ix) (ok_task_id k))))) (bkeys (scope_order scope ix)) =
      filter (title_matches ix (normalized_query env query)) (bkeys (scope_order scope ix))"
    using projection.order_iff[OF ok] by (intro filter_cong refl) (auto simp: title_matches_def)
  moreover have "answers ix scope (normalized_query env query) (search_pages n env query scope None ix)"
    using projection.search_pages_answer[OF refl ok, of 0 scope n env query] assms(3) by (simp add: cont_at_def)
  ultimately show ?thesis unfolding Let_def answers_def found_def by (simp only: length_map simp_thms)
qed

section \<open>A concrete search\<close>

definition sample_env :: index_env where
  "sample_env = \<lparr> fold_text = (\<lambda>s. s), string_capacity = length, cloned_string_capacity = length,
     grown_capacity = next_posting_capacity, cloned_capacity = (\<lambda>n. n), search_capacity = 100000,
     scalar_capacity = 4096, size_of_search_entry = 120, size_of_scalar_entry = 24 \<rparr>"

definition sample_task :: "128 word \<Rightarrow> rstr \<Rightarrow> task_snapshot" where
  "sample_task i title = \<lparr> sn_task =
       \<lparr> tk_id = Id i, tk_environment_id = Id 2, tk_title = title, tk_description = None,
         tk_project_id = Id 3, tk_workspace = WsMain, tk_assignment = LocalOwner, tk_lifecycle = TlOpen,
         tk_action_epoch = 0, tk_revision = 1, tk_created_at_ms = 5 \<rparr>,
     sn_connectivity = Connected, sn_attention = AttNone, sn_activity = ActIdle,
     sn_review_readiness = NotReady, sn_agents = bempty, sn_primary_agent_id = None, sn_artifacts = bempty,
     sn_resources = bempty, sn_provider_sessions = bempty, sn_browser = book_new,
     sn_terminal_facts = bempty, sn_terminal_strip = strip_default \<rparr>"

definition sample_tasks :: "(task_id, task_snapshot) bmap" where
  "sample_tasks = binsert (Id 1) (sample_task 1 [100, 101, 109, 111]) bempty"

definition sample_entry :: task_projection_entry where
  "sample_entry = \<lparr> en_lifecycle = TlOpen, en_attention_rank = 8, en_occurred_at_ms = 5, en_revision = 1,
     en_lower_title = [100, 101, 109, 111], en_title = [100, 101, 109, 111] \<rparr>"

lemmas index_bounds = MAX_CLIENT_SEARCH_CHARS_def MAX_INDEXED_TITLE_CHARS_def MAX_CLIENT_SEARCH_RESULTS_def
  MAX_CLIENT_SEARCH_WORK_def MAX_INDEXED_GRAM_CHARS_def MAX_INDEXED_SUBSTRING_SOURCE_CHARS_def
  MAX_INDEXED_SCALAR_KEYS_def MAX_CLIENT_SEARCH_POSTING_BYTES_def MAX_CLIENT_SEARCH_INDEX_KEYS_def
  MAX_STORED_IDS_PER_POSTING_def

lemma sample_entries: "tasks_entries sample_env sample_tasks = binsert (Id 1) sample_entry bempty"
  by (rule bmap_eqI) (simp add: tasks_entries_def sample_tasks_def sample_task_def entry_from_snapshot_def sample_entry_def
      normalize_bounded_search_text_def sample_env_def index_bounds attention_rank_def visible_status_def
      visible_status_derive_def Let_def)

lemma sample_tokens: "search_tokens [100, 101, 109, 111] = [[100], [100, 101], [100, 101, 109], [100, 101, 109, 111]]"
  by (simp add: search_tokens_def index_bounds Let_def upt_rec bkeys_def bs_insert_def)

lemma sample_steps:
  "terms_kept sample_env [(Id 1, sample_entry)] (index_start sample_env (binsert (Id 1) sample_entry bempty) 1) \<and>
   \<not> ix_search_index_saturated (insert_entry_terms sample_env (Id 1) sample_entry
       (index_start sample_env (binsert (Id 1) sample_entry bempty) 1)) \<and>
   bkeys (scope_order ScopeActive (insert_entry_terms sample_env (Id 1) sample_entry
       (index_start sample_env (binsert (Id 1) sample_entry bempty) 1))) = [order_key (Id 1) sample_entry]"
  by (simp add: index_start_def insert_entry_terms_def sample_entry_def sample_env_def
      insert_search_tokens_def insert_search_scalar_totals_def insert_scalar_def insert_search_token_def sample_tokens
      scalars_present_def resident_search_bytes_def index_bounds SEARCH_MAP_SLOT_BYTES_def
      SEARCH_SCALAR_MAP_SLOT_BYTES_def posting_insert_def posting_default_def pushed_capacity_def
      next_posting_capacity_def ids_capacity_def size_of_task_id_def scope_order_def bkeys_def bs_insert_def Let_def)

theorem search_pages_exact_witness:
  "let ps = search_pages 1 sample_env [101, 109] ScopeActive None (index_from_tasks sample_env sample_tasks 1)
   in ps \<noteq> [] \<and> pg_ids (last ps) = [Id 1] \<and> pg_exact_total (last ps) = Some 1"
proof -
  let ?ix = "index_from_tasks sample_env sample_tasks 1"
  have ix: "?ix = insert_entry_terms sample_env (Id 1) sample_entry
      (index_start sample_env (binsert (Id 1) sample_entry bempty) 1)"
    by (simp add: index_from_tasks_def sample_entries)
  have run: "index_run sample_env ?ix"
    by (rule index_run.built) (simp add: sample_entries sample_steps del: terms_kept.simps)
  have entry: "bget (ix_entries ?ix) (Id 1) = Some sample_entry" by (simp add: ix index_start_def)
  have keys: "bkeys (scope_order ScopeActive ?ix) = [order_key (Id 1) sample_entry]"
    unfolding ix using sample_steps by blast
  have query: "normalized_query sample_env [101, 109] = [101, 109]"
    by (simp add: normalized_query_def normalize_bounded_search_text_def sample_env_def index_bounds
        trim_def is_whitespace_def)
  have contains: "str_contains [101, 109] (en_lower_title sample_entry)"
    by (simp add: str_contains_def sample_entry_def upt_conv_Cons)
  have hits: "filter (\<lambda>k. str_contains (normalized_query sample_env [101, 109]) (en_lower_title
      (the (bget (ix_entries ?ix) (ok_task_id k))))) (bkeys (scope_order ScopeActive ?ix)) = [order_key (Id 1) sample_entry]"
    by (simp add: keys query contains entry)
  have "\<not> ix_search_index_saturated ?ix" "blen (scope_order ScopeActive ?ix) div MAX_CLIENT_SEARCH_WORK < 1"
    using sample_steps by (simp_all add: ix index_bounds flip: length_bkeys)
  from search_pages_exact[OF run this, of "[101, 109]"] show ?thesis
    unfolding Let_def hits by (simp add: index_bounds)
qed

end
