(* ===== verification/Client_Model.thy ===== *)
theory Client_Model
  imports Client_Index Aggregate
begin

text \<open>
  The client's copy of the host's state (\<open>src/client/model.rs\<close>, with the snapshot documents of
  \<open>src/domain/snapshot.rs\<close>): a builder that assembles the model from the pages of one pinned
  snapshot, the application of live events and of replay pages, and the detail of a task that
  is fetched when it is selected.

  A method that works on a clone, or that only writes once nothing can fail any more, returns
  the error or the new model; \<open>ingest_page\<close> writes as it goes, so it returns the builder it
  leaves behind with its result.  A \<open>HashSet\<close> is a list without repetitions whose order is never
  read.  \<open>index_clone\<close> is the clone of the index, whose buffers are allocated anew.
\<close>

section \<open>Snapshot documents\<close>

datatype snapshot_tag = SnapshotTag
type_synonym snapshot_id = "snapshot_tag id"

datatype snapshot_section =
  SecTasks | SecAgentSessions | SecArtifacts | SecResources | SecOperations | SecBrowserContexts | SecBrowserTabs

datatype snapshot_item_key =
    KeyTask task_id | KeyAgentSession agent_session_id | KeyArtifact artifact_id | KeyResource resource_id
  | KeyOperation operation_id | KeyBrowserContext browser_context_id | KeyBrowserTab browser_tab_id

record task_snapshot_item =
  ti_task :: task_facts
  ti_connectivity :: task_connectivity
  ti_attention :: task_attention
  ti_activity :: task_activity
  ti_review_readiness :: review_readiness
  ti_primary_agent_id :: "agent_session_id option"

record operation_facts =
  op_id :: operation_id
  op_command_id :: command_id
  op_task_id :: "task_id option"
  op_state :: operation_state
  op_accepted_at_ms :: int

datatype snapshot_item =
    ItTask task_snapshot_item | ItAgentSession agent_session_facts | ItArtifact artifact_summary
  | ItResource resource_facts | ItOperation operation_facts | ItBrowserContext browser_context_view
  | ItBrowserTab browser_tab_view

record snapshot_page =
  sp_snapshot_id :: snapshot_id
  sp_through_sequence :: u64
  sp_section :: snapshot_section
  sp_after_item :: "snapshot_item_key option"
  sp_items :: "snapshot_item list"
  sp_encoded_bytes :: u32
  sp_next_cursor :: "u8 list option"

record event_page =
  ep_after_sequence :: u64
  ep_through_sequence :: u64
  ep_events :: "domain_event list"
  ep_next_cursor :: "u8 list option"

section \<open>The model\<close>

definition MAX_CLIENT_MODEL_PAGES :: nat where "MAX_CLIENT_MODEL_PAGES = 1024"
definition MAX_CLIENT_MODEL_ITEMS :: nat where "MAX_CLIENT_MODEL_ITEMS = 100000"
definition MAX_CLIENT_MODEL_CURSORS_PER_SECTION :: nat where "MAX_CLIENT_MODEL_CURSORS_PER_SECTION = 1024"
definition MAX_CLIENT_REPLAY_PAGES :: nat where "MAX_CLIENT_REPLAY_PAGES = 1024"
definition MAX_CLIENT_REPLAY_CURSORS :: nat where "MAX_CLIENT_REPLAY_CURSORS = 1024"
definition REQUIRED_SNAPSHOT_SECTION_COUNT :: nat where "REQUIRED_SNAPSHOT_SECTION_COUNT = 5"
definition SNAPSHOT_SECTION_COUNT :: nat where "SNAPSHOT_SECTION_COUNT = 7"

datatype client_model_error =
    CmMissingSections | CmDuplicateSection | CmSectionItemMismatch | CmDuplicateItem | CmSnapshotDrift
  | CmSequenceDrift | CmNonProgressingPage | CmPageBoundExceeded | CmItemBoundExceeded
  | CmCursorBoundExceeded | CmRepeatedCursor | CmMissingParentTask | CmInvalidOwnership
  | CmInvalidPrimaryAgent | CmDuplicateOrRegression | CmApplyFailed | CmOperationIdentityMismatch
  | CmOperationStateRegression | CmMissingOperation | CmReplayRangeInvalid | CmReplayAfterMismatch
  | CmReplayThroughDrift | CmReplayRepeatedCursor | CmReplayPageBoundExceeded | CmReplayNonProgressing
  | CmSnapshotBoundaryMismatch | CmOperationEnvelopeTimestampMismatch

record client_model =
  cm_tasks :: "(task_id, task_snapshot) bmap"
  cm_host_resources :: "(resource_id, resource_facts) bmap"
  cm_operations :: "(operation_id, operation_facts) bmap"
  cm_artifact_summaries :: "(artifact_id, artifact_summary) bmap"
  cm_last_applied_sequence :: u64
  cm_replay_through :: "u64 option"
  cm_replay_page_count :: nat
  cm_replay_cursors :: "u8 list list"
  cm_index :: task_projection_index
  cm_admitted_task_detail :: "task_id bset"

record task_inbox_preview =
  tp_tasks :: "(task_id, task_snapshot) bmap"
  tp_through_sequence :: u64

definition task_detail_ships_at_startup :: "task_lifecycle \<Rightarrow> bool" where
  "task_detail_ships_at_startup l \<longleftrightarrow> l = TlOpen \<or> l = TlClosing"

definition validate_primary_agent :: "task_snapshot \<Rightarrow> client_model_error + unit" where
  "validate_primary_agent task =
     (case sn_primary_agent_id task of
        None \<Rightarrow> Inr ()
      | Some primary \<Rightarrow>
          (case bget (sn_agents task) primary of
             Some agent \<Rightarrow> if ag_role agent = Primary then Inr () else Inl CmInvalidPrimaryAgent
           | None \<Rightarrow> if task_detail_ships_at_startup (tk_lifecycle (sn_task task))
                     then Inl CmInvalidPrimaryAgent else Inr ()))"

definition opened_book :: "task_id \<Rightarrow> browser_book" where
  "opened_book i = (case open_task i book_new of Inl _ \<Rightarrow> book_new | Inr b \<Rightarrow> b)"

definition task_snapshot_from_item :: "task_snapshot_item \<Rightarrow> task_snapshot" where
  "task_snapshot_from_item i =
     \<lparr> sn_task = ti_task i, sn_connectivity = ti_connectivity i, sn_attention = ti_attention i,
       sn_activity = ti_activity i, sn_review_readiness = ti_review_readiness i, sn_agents = bempty,
       sn_primary_agent_id = None, sn_artifacts = bempty, sn_resources = bempty,
       sn_provider_sessions = bempty, sn_browser = opened_book (tk_id (ti_task i)),
       sn_terminal_facts = bempty, sn_terminal_strip = strip_default \<rparr>"

definition hs_insert :: "'a \<Rightarrow> 'a list \<Rightarrow> 'a list" where
  "hs_insert x xs = (if x \<in> set xs then xs else xs @ [x])"

definition model_clone :: "index_env \<Rightarrow> client_model \<Rightarrow> client_model" where
  "model_clone env m = m \<lparr> cm_index := index_clone env (cm_index m) \<rparr>"

definition task_last_occurred_at_ms :: "task_id \<Rightarrow> client_model \<Rightarrow> int option" where
  "task_last_occurred_at_ms i m = map_option en_occurred_at_ms (bget (ix_entries (cm_index m)) i)"

definition task_detail_admitted :: "task_id \<Rightarrow> client_model \<Rightarrow> bool" where
  "task_detail_admitted i m =
     (case bget (cm_tasks m) i of
        None \<Rightarrow> False
      | Some task \<Rightarrow> task_detail_ships_at_startup (tk_lifecycle (sn_task task))
                     \<or> bcontains (cm_admitted_task_detail m) i)"

definition invalidate_task_detail :: "task_id \<Rightarrow> client_model \<Rightarrow> client_model" where
  "invalidate_task_detail i m = m \<lparr> cm_admitted_task_detail := bremove i (cm_admitted_task_detail m) \<rparr>"

section \<open>Live events\<close>

record staged_event_commit =
  se_task :: "(task_id \<times> task_snapshot) option"
  se_operation :: "(operation_id \<times> operation_facts) option"
  se_artifact_summary :: "artifact_summary option"

definition operation_event_at :: "event \<Rightarrow> int option" where
  "operation_event_at e =
     (case e of
        OperationAccepted f \<Rightarrow> Some (oa_accepted_at_ms f)
      | OperationSettled f \<Rightarrow> Some (os_settled_at_ms f)
      | OperationFailed f \<Rightarrow> Some (of_settled_at_ms f)
      | OperationCancelled f \<Rightarrow> Some (oc_settled_at_ms f)
      | OperationUncertain f \<Rightarrow> Some (ou_observed_at_ms f)
      | _ \<Rightarrow> None)"

definition require_operation_envelope_timestamp :: "domain_event \<Rightarrow> client_model_error + unit" where
  "require_operation_envelope_timestamp ev =
     (case operation_event_at (de_payload ev) of
        None \<Rightarrow> Inr ()
      | Some expected \<Rightarrow>
          if de_occurred_at_ms ev \<noteq> expected then Inl CmOperationEnvelopeTimestampMismatch else Inr ())"

definition apply_to_task :: "ext \<Rightarrow> domain_event \<Rightarrow> task_id \<Rightarrow> client_model \<Rightarrow> client_model_error + task_snapshot" where
  "apply_to_task x ev i m = map_err (\<lambda>_. CmApplyFailed) (apply_event x (bget (cm_tasks m) i) ev)"

definition stage_task_passthrough ::
  "ext \<Rightarrow> domain_event \<Rightarrow> client_model \<Rightarrow> client_model_error + (task_id \<times> task_snapshot) option" where
  "stage_task_passthrough x ev m =
     (case de_task_id ev of
        None \<Rightarrow> Inr None
      | Some i \<Rightarrow> rbind (apply_to_task x ev i m) (\<lambda>next. Inr (Some (i, next))))"

datatype outcome_kind = KindSettled | KindFailed | KindCancelled | KindUncertain

definition outcome_kind_of :: "operation_state \<Rightarrow> outcome_kind option" where
  "outcome_kind_of s =
     (case s of OsSettled _ _ \<Rightarrow> Some KindSettled | OsFailed _ _ \<Rightarrow> Some KindFailed
      | OsCancelled _ _ \<Rightarrow> Some KindCancelled | OsUncertain _ _ \<Rightarrow> Some KindUncertain
      | OsAccepted \<Rightarrow> None)"

definition check_outcome ::
  "operation_state \<Rightarrow> outcome_source option \<Rightarrow> outcome_kind \<Rightarrow> int \<Rightarrow> client_model_error + unit" where
  "check_outcome state source kind outcome_at_ms =
     (case (state, source) of
        (OsAccepted, None) \<Rightarrow>
          if kind = KindCancelled \<or> kind = KindUncertain then Inr () else Inl CmOperationStateRegression
      | (OsAccepted, Some Dispatch) \<Rightarrow>
          if kind = KindSettled \<or> kind = KindFailed then Inr () else Inl CmOperationStateRegression
      | (OsUncertain observed_at_ms _, Some (VerifiedReconciliation _ _)) \<Rightarrow>
          if kind = KindSettled \<or> kind = KindFailed
          then (if outcome_at_ms < observed_at_ms then Inl CmOperationStateRegression else Inr ())
          else Inl CmOperationStateRegression
      | _ \<Rightarrow> Inl CmOperationStateRegression)"

definition stage_operation_outcome ::
  "operation_id \<Rightarrow> command_id \<Rightarrow> task_id option \<Rightarrow> int \<Rightarrow> outcome_source option \<Rightarrow> operation_state \<Rightarrow> client_model
     \<Rightarrow> client_model_error + (operation_id \<times> operation_facts)" where
  "stage_operation_outcome oid cid tid outcome_at_ms source next_state m =
     rbind (ok_or (bget (cm_operations m) oid) CmMissingOperation) (\<lambda>operation.
       if op_command_id operation \<noteq> cid \<or> op_task_id operation \<noteq> tid then Inl CmOperationIdentityMismatch
       else if outcome_at_ms < op_accepted_at_ms operation then Inl CmOperationStateRegression
       else rbind (ok_or (outcome_kind_of next_state) CmOperationStateRegression) (\<lambda>kind.
            rbind (check_outcome (op_state operation) source kind outcome_at_ms) (\<lambda>_.
              Inr (oid, operation \<lparr> op_state := next_state \<rparr>))))"

definition stage_outcome ::
  "ext \<Rightarrow> domain_event \<Rightarrow> operation_id \<Rightarrow> command_id \<Rightarrow> int \<Rightarrow> outcome_source option \<Rightarrow> operation_state \<Rightarrow> client_model
     \<Rightarrow> client_model_error + staged_event_commit" where
  "stage_outcome x ev oid cid at source next_state m =
     rbind (stage_task_passthrough x ev m) (\<lambda>task.
     rbind (stage_operation_outcome oid cid (de_task_id ev) at source next_state m) (\<lambda>operation.
       Inr \<lparr> se_task = task, se_operation = Some operation, se_artifact_summary = None \<rparr>))"

definition stage_operation_accepted ::
  "ext \<Rightarrow> domain_event \<Rightarrow> operation_accepted_fact \<Rightarrow> client_model \<Rightarrow> client_model_error + staged_event_commit" where
  "stage_operation_accepted x ev f m =
     rbind (stage_task_passthrough x ev m) (\<lambda>task.
       if bcontains (cm_operations m) (oa_operation_id f) then Inl CmOperationStateRegression
       else Inr \<lparr> se_task = task,
              se_operation = Some (oa_operation_id f,
                \<lparr> op_id = oa_operation_id f, op_command_id = oa_command_id f, op_task_id = de_task_id ev,
                  op_state = OsAccepted, op_accepted_at_ms = oa_accepted_at_ms f \<rparr>),
              se_artifact_summary = None \<rparr>)"

definition stage_artifact ::
  "ext \<Rightarrow> domain_event \<Rightarrow> artifact_facts \<Rightarrow> client_model \<Rightarrow> client_model_error + staged_event_commit" where
  "stage_artifact x ev artifact m =
     (if bcontains (cm_artifact_summaries m) (ar_id artifact) then Inl CmDuplicateItem
      else rbind (ok_or (de_task_id ev) CmApplyFailed) (\<lambda>i.
           rbind (apply_to_task x ev i m) (\<lambda>next.
           rbind (map_err (\<lambda>_. CmApplyFailed) (artifact_summary_from_facts (x_sha256 x) artifact)) (\<lambda>summary.
             Inr \<lparr> se_task = Some (i, next \<lparr> sn_artifacts := bremove (ar_id artifact) (sn_artifacts next) \<rparr>),
                    se_operation = None, se_artifact_summary = Some summary \<rparr>))))"

definition nothing_staged :: staged_event_commit where
  "nothing_staged = \<lparr> se_task = None, se_operation = None, se_artifact_summary = None \<rparr>"

definition stage_event :: "ext \<Rightarrow> domain_event \<Rightarrow> client_model \<Rightarrow> client_model_error + staged_event_commit" where
  "stage_event x ev m =
     rbind (require_operation_envelope_timestamp ev) (\<lambda>_.
       case de_payload ev of
         OperationAccepted f \<Rightarrow> stage_operation_accepted x ev f m
       | OperationSettled f \<Rightarrow> stage_outcome x ev (os_operation_id f) (os_command_id f) (os_settled_at_ms f)
           (Some (os_source f)) (OsSettled (os_settled_at_ms f) (os_result_event_ids f)) m
       | OperationFailed f \<Rightarrow> stage_outcome x ev (of_operation_id f) (of_command_id f) (of_settled_at_ms f)
           (Some (of_source f)) (OsFailed (of_settled_at_ms f) (of_code f)) m
       | OperationCancelled f \<Rightarrow> stage_outcome x ev (oc_operation_id f) (oc_command_id f) (oc_settled_at_ms f)
           None (OsCancelled (oc_settled_at_ms f) (oc_reason f)) m
       | OperationUncertain f \<Rightarrow> stage_outcome x ev (ou_operation_id f) (ou_command_id f) (ou_observed_at_ms f)
           None (OsUncertain (ou_observed_at_ms f) (ou_code f)) m
       | TaskCreated task _ _ _ _ \<Rightarrow>
           if bcontains (cm_tasks m) (tk_id task) then Inl CmApplyFailed
           else rbind (map_err (\<lambda>_. CmApplyFailed) (apply_event x None ev)) (\<lambda>next.
             Inr (nothing_staged \<lparr> se_task := Some (tk_id task, next) \<rparr>))
       | ArtifactRegistered artifact \<Rightarrow> stage_artifact x ev artifact m
       | SpecialistHandoffRecorded _ artifact _ _ _ \<Rightarrow> stage_artifact x ev artifact m
       | HostCloseBegun _ _ _ \<Rightarrow> Inr nothing_staged
       | HostCleanupBranchCompleted _ _ _ _ \<Rightarrow> Inr nothing_staged
       | Purged \<Rightarrow> Inr nothing_staged
       | _ \<Rightarrow> rbind (ok_or (de_task_id ev) CmApplyFailed) (\<lambda>i.
           rbind (apply_to_task x ev i m) (\<lambda>next. Inr (nothing_staged \<lparr> se_task := Some (i, next) \<rparr>))))"

definition commit_task :: "index_env \<Rightarrow> int \<Rightarrow> (task_id \<times> task_snapshot) option \<Rightarrow> client_model \<Rightarrow> client_model" where
  "commit_task env at staged m =
     (case staged of
        None \<Rightarrow> m
      | Some (i, s) \<Rightarrow> m \<lparr> cm_tasks := binsert i s (cm_tasks m), cm_index := update_task env s at (cm_index m),
                            cm_admitted_task_detail := bremove i (cm_admitted_task_detail m) \<rparr>)"

definition commit_staged :: "index_env \<Rightarrow> domain_event \<Rightarrow> staged_event_commit \<Rightarrow> client_model \<Rightarrow> client_model" where
  "commit_staged env ev staged m =
     (let m = commit_task env (de_occurred_at_ms ev) (se_task staged) m;
          m = (case se_operation staged of
                 None \<Rightarrow> m
               | Some (i, f) \<Rightarrow> m \<lparr> cm_operations := binsert i f (cm_operations m) \<rparr>);
          m = (case se_artifact_summary staged of
                 None \<Rightarrow> m
               | Some a \<Rightarrow> m \<lparr> cm_artifact_summaries := binsert (as_id a) a (cm_artifact_summaries m) \<rparr>)
      in m \<lparr> cm_last_applied_sequence := de_sequence ev,
             cm_index := set_index_revision (de_sequence ev) (cm_index m) \<rparr>)"

definition apply_one_event ::
  "ext \<Rightarrow> index_env \<Rightarrow> domain_event \<Rightarrow> client_model \<Rightarrow> client_model_error + client_model" where
  "apply_one_event x env ev m =
     (if de_sequence ev \<le> cm_last_applied_sequence m then Inl CmDuplicateOrRegression
      else rbind (stage_event x ev m) (\<lambda>staged. Inr (commit_staged env ev staged m)))"

definition client_apply_event ::
  "ext \<Rightarrow> index_env \<Rightarrow> domain_event \<Rightarrow> client_model \<Rightarrow> client_model_error + client_model" where
  "client_apply_event x env ev m = apply_one_event x env ev m"

section \<open>Replay pages\<close>

definition check_replay_continuation_bounds ::
  "nat \<Rightarrow> nat \<Rightarrow> u8 list list \<Rightarrow> u8 list \<Rightarrow> client_model_error + unit" where
  "check_replay_continuation_bounds page_count max_pages seen_cursors next_cursor =
     (if page_count \<ge> max_pages then Inl CmReplayPageBoundExceeded
      else if length seen_cursors \<ge> MAX_CLIENT_REPLAY_CURSORS then Inl CmCursorBoundExceeded
      else if next_cursor \<in> set seen_cursors then Inl CmReplayRepeatedCursor
      else Inr ())"

definition apply_page_event ::
  "ext \<Rightarrow> index_env \<Rightarrow> event_page \<Rightarrow> domain_event \<Rightarrow> client_model \<Rightarrow> client_model_error + client_model" where
  "apply_page_event x env page ev m =
     (if de_sequence ev \<le> ep_after_sequence page \<or> de_sequence ev > ep_through_sequence page
      then Inl CmReplayRangeInvalid else apply_one_event x env ev m)"

definition finish_replay :: "event_page \<Rightarrow> client_model \<Rightarrow> client_model_error + client_model" where
  "finish_replay page m =
     (if ep_next_cursor page \<noteq> None then Inr m
      else if ep_through_sequence page < cm_last_applied_sequence m then Inl CmReplayRangeInvalid
      else Inr (m \<lparr> cm_last_applied_sequence := ep_through_sequence page,
                   cm_index := set_index_revision (ep_through_sequence page) (cm_index m),
                   cm_replay_through := None, cm_replay_page_count := 0, cm_replay_cursors := [] \<rparr>))"

definition pin_replay :: "event_page \<Rightarrow> client_model \<Rightarrow> client_model_error + client_model" where
  "pin_replay page m =
     (case cm_replay_through m of
        Some pinned \<Rightarrow> if pinned \<noteq> ep_through_sequence page then Inl CmReplayThroughDrift else Inr m
      | None \<Rightarrow> Inr (m \<lparr> cm_replay_through := Some (ep_through_sequence page) \<rparr>))"

definition count_replay_page :: "event_page \<Rightarrow> client_model \<Rightarrow> client_model_error + client_model" where
  "count_replay_page page m =
     rbind (case ep_next_cursor page of
              None \<Rightarrow> Inr m
            | Some cursor \<Rightarrow>
                rbind (check_replay_continuation_bounds (cm_replay_page_count m) MAX_CLIENT_REPLAY_PAGES
                         (cm_replay_cursors m) cursor) (\<lambda>_.
                  Inr (m \<lparr> cm_replay_cursors := hs_insert cursor (cm_replay_cursors m) \<rparr>))) (\<lambda>m.
       let m = m \<lparr> cm_replay_page_count := cm_replay_page_count m + 1 \<rparr>
       in if cm_replay_page_count m > MAX_CLIENT_REPLAY_PAGES then Inl CmReplayPageBoundExceeded else Inr m)"

definition apply_replay_page_inner ::
  "ext \<Rightarrow> index_env \<Rightarrow> event_page \<Rightarrow> client_model \<Rightarrow> client_model_error + client_model" where
  "apply_replay_page_inner x env page m =
     (if ep_through_sequence page < ep_after_sequence page then Inl CmReplayRangeInvalid
      else if ep_after_sequence page \<noteq> cm_last_applied_sequence m then Inl CmReplayAfterMismatch
      else rbind (pin_replay page m) (\<lambda>m.
        if ep_events page = [] \<and> ep_next_cursor page \<noteq> None then Inl CmReplayNonProgressing
        else rbind (count_replay_page page m) (\<lambda>m.
             rbind (try_fold (apply_page_event x env page) (ep_events page) m) (\<lambda>m.
               finish_replay page m))))"

definition apply_replay_page ::
  "ext \<Rightarrow> index_env \<Rightarrow> event_page \<Rightarrow> client_model \<Rightarrow> client_model_error + client_model" where
  "apply_replay_page x env page m = apply_replay_page_inner x env page (model_clone env m)"

section \<open>The detail of a selected task\<close>

definition detail_task ::
  "task_id \<Rightarrow> (task_snapshot \<Rightarrow> client_model_error + task_snapshot) \<Rightarrow> client_model \<Rightarrow> client_model_error + client_model" where
  "detail_task i f m =
     rbind (ok_or (bget (cm_tasks m) i) CmMissingParentTask) (\<lambda>task.
     rbind (f task) (\<lambda>task. Inr (m \<lparr> cm_tasks := binsert i task (cm_tasks m) \<rparr>)))"

definition project_book ::
  "(browser_book \<Rightarrow> browser_contract_error + browser_book) \<Rightarrow> task_snapshot \<Rightarrow> client_model_error + task_snapshot" where
  "project_book f task =
     rbind (map_err (\<lambda>_. CmInvalidOwnership) (f (sn_browser task))) (\<lambda>b. Inr (task \<lparr> sn_browser := b \<rparr>))"

definition admit_detail_item ::
  "task_id \<Rightarrow> snapshot_section \<times> snapshot_item \<Rightarrow> client_model \<Rightarrow> client_model_error + client_model" where
  "admit_detail_item i si m =
     (case si of
        (SecAgentSessions, ItAgentSession agent) \<Rightarrow>
          if ag_task_id agent \<noteq> i then Inl CmInvalidOwnership
          else detail_task i (\<lambda>task. if bcontains (sn_agents task) (ag_id agent) then Inl CmDuplicateItem
                 else Inr (upd_agent (ag_id agent) agent task)) m
      | (SecResources, ItResource resource) \<Rightarrow>
          rbind (map_err (\<lambda>_. CmInvalidOwnership) (resource_validate resource)) (\<lambda>_.
            if rs_task_id resource \<noteq> Some i then Inl CmInvalidOwnership
            else detail_task i (\<lambda>task. if bcontains (sn_resources task) (rs_id resource) then Inl CmDuplicateItem
                   else Inr (task \<lparr> sn_resources := binsert (rs_id resource) resource (sn_resources task) \<rparr>)) m)
      | (SecArtifacts, ItArtifact summary) \<Rightarrow>
          if as_task_id summary \<noteq> i then Inl CmInvalidOwnership
          else if bcontains (cm_artifact_summaries m) (as_id summary) then Inl CmDuplicateItem
          else Inr (m \<lparr> cm_artifact_summaries := binsert (as_id summary) summary (cm_artifact_summaries m) \<rparr>)
      | (SecBrowserContexts, ItBrowserContext context) \<Rightarrow>
          if cx_task_id (cv_state context) \<noteq> i then Inl CmInvalidOwnership
          else detail_task i (project_book (project_context_view context)) m
      | (SecBrowserTabs, ItBrowserTab tab) \<Rightarrow>
          if tb_task_id (tv_state tab) \<noteq> i then Inl CmInvalidOwnership
          else detail_task i (project_book (project_tab_view tab)) m
      | _ \<Rightarrow> Inl CmSectionItemMismatch)"

definition page_rows :: "snapshot_page \<Rightarrow> (snapshot_section \<times> snapshot_item) list" where
  "page_rows page = map (Pair (sp_section page)) (sp_items page)"

definition has_browser_pages :: "snapshot_page list \<Rightarrow> bool" where
  "has_browser_pages pages =
     list_ex (\<lambda>p. sp_section p = SecBrowserContexts \<or> sp_section p = SecBrowserTabs) pages"

definition section_complete :: "snapshot_page list \<Rightarrow> snapshot_section \<Rightarrow> bool" where
  "section_complete pages section = list_ex (\<lambda>p. sp_section p = section \<and> sp_next_cursor p = None) pages"

definition clear_task_detail :: "task_id \<Rightarrow> bool \<Rightarrow> client_model \<Rightarrow> client_model_error + client_model" where
  "clear_task_detail i browser_pages m =
     rbind (detail_task i (\<lambda>task.
         let task = task \<lparr> sn_agents := bempty, sn_resources := bempty \<rparr>
         in if browser_pages
            then rbind (map_err (\<lambda>_. CmInvalidOwnership) (open_task i book_new))
                   (\<lambda>b. Inr (task \<lparr> sn_browser := b \<rparr>))
            else Inr task) m) (\<lambda>m.
       Inr (m \<lparr> cm_artifact_summaries := bretain (\<lambda>_ a. as_task_id a \<noteq> i) (cm_artifact_summaries m) \<rparr>))"

definition admit_task_detail_pages_inner ::
  "index_env \<Rightarrow> task_id \<Rightarrow> snapshot_page list \<Rightarrow> client_model \<Rightarrow> client_model_error + client_model" where
  "admit_task_detail_pages_inner env i pages m =
     (if \<not> bcontains (cm_tasks m) i then Inl CmMissingParentTask
      else if has_browser_pages pages
              \<and> \<not> (section_complete pages SecBrowserContexts \<and> section_complete pages SecBrowserTabs)
      then Inl CmMissingSections
      else rbind (clear_task_detail i (has_browser_pages pages) m) (\<lambda>m.
        rbind (try_fold (admit_detail_item i) (concat (map page_rows pages)) m) (\<lambda>m.
        rbind (ok_or (bget (cm_tasks m) i) CmMissingParentTask) (\<lambda>task.
        rbind (validate_primary_agent task) (\<lambda>_.
          let occurred_at_ms = (case task_last_occurred_at_ms i m of None \<Rightarrow> 0 | Some at \<Rightarrow> at)
          in Inr (m \<lparr> cm_index := update_task env task occurred_at_ms (cm_index m),
                     cm_admitted_task_detail := bs_insert i (cm_admitted_task_detail m) \<rparr>))))))"

definition admit_task_detail_pages ::
  "index_env \<Rightarrow> task_id \<Rightarrow> snapshot_page list \<Rightarrow> client_model \<Rightarrow> client_model_error + client_model" where
  "admit_task_detail_pages env i pages m = admit_task_detail_pages_inner env i pages (model_clone env m)"

section \<open>Assembly from snapshot pages\<close>

record section_assembly =
  sa_started :: bool
  sa_finished :: bool
  sa_seen_cursors :: "u8 list list"
  sa_expected_after :: "snapshot_item_key option"

definition section_assembly_default :: section_assembly where
  "section_assembly_default = \<lparr> sa_started = False, sa_finished = False, sa_seen_cursors = [],
     sa_expected_after = None \<rparr>"

definition section_index :: "snapshot_section \<Rightarrow> nat" where
  "section_index s =
     (case s of SecTasks \<Rightarrow> 0 | SecAgentSessions \<Rightarrow> 1 | SecArtifacts \<Rightarrow> 2 | SecResources \<Rightarrow> 3
      | SecOperations \<Rightarrow> 4 | SecBrowserContexts \<Rightarrow> 5 | SecBrowserTabs \<Rightarrow> 6)"

definition snapshot_item_key_of :: "snapshot_item \<Rightarrow> snapshot_item_key" where
  "snapshot_item_key_of it =
     (case it of
        ItTask t \<Rightarrow> KeyTask (tk_id (ti_task t))
      | ItAgentSession a \<Rightarrow> KeyAgentSession (ag_id a)
      | ItArtifact a \<Rightarrow> KeyArtifact (as_id a)
      | ItResource r \<Rightarrow> KeyResource (rs_id r)
      | ItOperation f \<Rightarrow> KeyOperation (op_id f)
      | ItBrowserContext c \<Rightarrow> KeyBrowserContext (cv_context_id c)
      | ItBrowserTab t \<Rightarrow> KeyBrowserTab (tv_tab_id t))"

record client_model_builder =
  mb_snapshot_id :: "snapshot_id option"
  mb_through_sequence :: "u64 option"
  mb_page_count :: nat
  mb_item_count :: nat
  mb_sections :: "section_assembly list"
  mb_tasks :: "(task_id, task_snapshot_item) bmap"
  mb_agents :: "(agent_session_id, agent_session_facts) bmap"
  mb_artifacts :: "(artifact_id, artifact_summary) bmap"
  mb_resources :: "(resource_id, resource_facts) bmap"
  mb_operations :: "(operation_id, operation_facts) bmap"
  mb_browser_contexts :: "(browser_context_id, browser_context_view) bmap"
  mb_browser_tabs :: "(browser_tab_id, browser_tab_view) bmap"

definition builder_new :: client_model_builder where
  "builder_new = \<lparr> mb_snapshot_id = None, mb_through_sequence = None, mb_page_count = 0, mb_item_count = 0,
     mb_sections = replicate SNAPSHOT_SECTION_COUNT section_assembly_default, mb_tasks = bempty,
     mb_agents = bempty, mb_artifacts = bempty, mb_resources = bempty, mb_operations = bempty,
     mb_browser_contexts = bempty, mb_browser_tabs = bempty \<rparr>"

text \<open>The result of a method that writes through \<open>&mut self\<close> before it can fail.\<close>

type_synonym 'a building = "(client_model_error + 'a) \<times> client_model_builder"

definition then_build :: "'a building \<Rightarrow> ('a \<Rightarrow> client_model_builder \<Rightarrow> 'b building) \<Rightarrow> 'b building" where
  "then_build r f = (case r of (Inl e, b) \<Rightarrow> (Inl e, b) | (Inr v, b) \<Rightarrow> f v b)"

definition was_fresh :: "bool \<Rightarrow> client_model_builder \<Rightarrow> unit building" where
  "was_fresh present b = (if present then (Inl CmDuplicateItem, b) else (Inr (), b))"

definition admit_item :: "snapshot_section \<Rightarrow> snapshot_item \<Rightarrow> client_model_builder \<Rightarrow> unit building" where
  "admit_item section item b =
     (case (section, item) of
        (SecTasks, ItTask t) \<Rightarrow> was_fresh (bcontains (mb_tasks b) (tk_id (ti_task t)))
          (b \<lparr> mb_tasks := binsert (tk_id (ti_task t)) t (mb_tasks b) \<rparr>)
      | (SecAgentSessions, ItAgentSession a) \<Rightarrow> was_fresh (bcontains (mb_agents b) (ag_id a))
          (b \<lparr> mb_agents := binsert (ag_id a) a (mb_agents b) \<rparr>)
      | (SecArtifacts, ItArtifact a) \<Rightarrow> was_fresh (bcontains (mb_artifacts b) (as_id a))
          (b \<lparr> mb_artifacts := binsert (as_id a) a (mb_artifacts b) \<rparr>)
      | (SecResources, ItResource r) \<Rightarrow>
          (case resource_validate r of
             Inl _ \<Rightarrow> (Inl CmInvalidOwnership, b)
           | Inr _ \<Rightarrow> was_fresh (bcontains (mb_resources b) (rs_id r))
               (b \<lparr> mb_resources := binsert (rs_id r) r (mb_resources b) \<rparr>))
      | (SecOperations, ItOperation f) \<Rightarrow> was_fresh (bcontains (mb_operations b) (op_id f))
          (b \<lparr> mb_operations := binsert (op_id f) f (mb_operations b) \<rparr>)
      | (SecBrowserContexts, ItBrowserContext c) \<Rightarrow> was_fresh (bcontains (mb_browser_contexts b) (cv_context_id c))
          (b \<lparr> mb_browser_contexts := binsert (cv_context_id c) c (mb_browser_contexts b) \<rparr>)
      | (SecBrowserTabs, ItBrowserTab t) \<Rightarrow> was_fresh (bcontains (mb_browser_tabs b) (tv_tab_id t))
          (b \<lparr> mb_browser_tabs := binsert (tv_tab_id t) t (mb_browser_tabs b) \<rparr>)
      | _ \<Rightarrow> (Inl CmSectionItemMismatch, b))"

fun admit_items :: "snapshot_section \<Rightarrow> snapshot_item list \<Rightarrow> client_model_builder \<Rightarrow> unit building" where
  "admit_items section [] b = (Inr (), b)"
| "admit_items section (item # rest) b =
     (if mb_item_count b \<ge> MAX_CLIENT_MODEL_ITEMS then (Inl CmItemBoundExceeded, b)
      else then_build (admit_item section item (b \<lparr> mb_item_count := mb_item_count b + 1 \<rparr>))
             (\<lambda>_. admit_items section rest))"

definition pin_snapshot :: "snapshot_page \<Rightarrow> client_model_builder \<Rightarrow> unit building" where
  "pin_snapshot page b =
     then_build
       (case mb_snapshot_id b of
          Some expected \<Rightarrow> if expected \<noteq> sp_snapshot_id page then (Inl CmSnapshotDrift, b) else (Inr (), b)
        | None \<Rightarrow> (Inr (), b \<lparr> mb_snapshot_id := Some (sp_snapshot_id page) \<rparr>))
       (\<lambda>_ b. case mb_through_sequence b of
          Some expected \<Rightarrow> if expected \<noteq> sp_through_sequence page then (Inl CmSequenceDrift, b) else (Inr (), b)
        | None \<Rightarrow> (Inr (), b \<lparr> mb_through_sequence := Some (sp_through_sequence page) \<rparr>))"

definition enter_section :: "snapshot_page \<Rightarrow> client_model_builder \<Rightarrow> unit building" where
  "enter_section page b =
     (let idx = section_index (sp_section page); section = mb_sections b ! idx
      in if sa_finished section then (Inl CmDuplicateSection, b)
         else if \<not> sa_started section
         then (if sp_after_item page \<noteq> None then (Inl CmNonProgressingPage, b)
               else (Inr (), b \<lparr> mb_sections := (mb_sections b)[idx := section \<lparr> sa_started := True \<rparr>] \<rparr>))
         else if sa_expected_after section \<noteq> None \<and> sa_expected_after section = sp_after_item page
         then (Inr (), b) else (Inl CmSnapshotBoundaryMismatch, b))"

definition leave_section :: "snapshot_page \<Rightarrow> client_model_builder \<Rightarrow> unit building" where
  "leave_section page b =
     (let idx = section_index (sp_section page); section = mb_sections b ! idx
      in case sp_next_cursor page of
           None \<Rightarrow> (Inr (), b \<lparr> mb_sections := (mb_sections b)[idx :=
               section \<lparr> sa_expected_after := None, sa_finished := True \<rparr>] \<rparr>)
         | Some cursor \<Rightarrow>
             if length (sa_seen_cursors section) \<ge> MAX_CLIENT_MODEL_CURSORS_PER_SECTION
             then (Inl CmCursorBoundExceeded, b)
             else if cursor \<in> set (sa_seen_cursors section) then (Inl CmRepeatedCursor, b)
             else let section = section \<lparr> sa_seen_cursors := hs_insert cursor (sa_seen_cursors section) \<rparr>
               in if sp_items page = []
                  then (Inl CmNonProgressingPage, b \<lparr> mb_sections := (mb_sections b)[idx := section] \<rparr>)
                  else (Inr (), b \<lparr> mb_sections := (mb_sections b)[idx :=
                    section \<lparr> sa_expected_after := Some (snapshot_item_key_of (last (sp_items page))) \<rparr>] \<rparr>))"

definition ingest_page :: "snapshot_page \<Rightarrow> client_model_builder \<Rightarrow> unit building" where
  "ingest_page page b =
     (if mb_page_count b \<ge> MAX_CLIENT_MODEL_PAGES then (Inl CmPageBoundExceeded, b)
      else then_build (pin_snapshot page (b \<lparr> mb_page_count := mb_page_count b + 1 \<rparr>)) (\<lambda>_ b.
           then_build (enter_section page b) (\<lambda>_ b.
             if sp_items page = [] \<and> sp_next_cursor page \<noteq> None then (Inl CmNonProgressingPage, b)
             else then_build (admit_items (sp_section page) (sp_items page) b) (\<lambda>_. leave_section page))))"

section \<open>The finished model\<close>

definition tasks_from_items :: "bool \<Rightarrow> (task_id, task_snapshot_item) bmap \<Rightarrow> (task_id, task_snapshot) bmap" where
  "tasks_from_items with_primary items =
     fold (\<lambda>(i, item). binsert i
         (if with_primary
          then task_snapshot_from_item item \<lparr> sn_primary_agent_id := ti_primary_agent_id item \<rparr>
          else task_snapshot_from_item item)) (entries items) bempty"

type_synonym task_table = "(task_id, task_snapshot) bmap"

definition with_parent ::
  "task_id \<Rightarrow> (task_snapshot \<Rightarrow> client_model_error + task_snapshot) \<Rightarrow> task_table \<Rightarrow> client_model_error + task_table" where
  "with_parent i f tasks =
     rbind (ok_or (bget tasks i) CmMissingParentTask) (\<lambda>task. rbind (f task) (\<lambda>task. Inr (binsert i task tasks)))"

definition place_agent :: "agent_session_id \<times> agent_session_facts \<Rightarrow> task_table \<Rightarrow> client_model_error + task_table" where
  "place_agent ia = (case ia of (i, agent) \<Rightarrow> with_parent (ag_task_id agent) (\<lambda>task.
     if bcontains (sn_agents task) i then Inl CmDuplicateItem else Inr (upd_agent i agent task)))"

definition place_context ::
  "browser_context_id \<times> browser_context_view \<Rightarrow> task_table \<Rightarrow> client_model_error + task_table" where
  "place_context ic = (case ic of (i, context) \<Rightarrow> with_parent (cx_task_id (cv_state context)) (\<lambda>task.
     rbind (project_book (project_context_view context) task) (\<lambda>task.
       if bcontains (bb_contexts (sn_browser task)) i then Inr task else Inl CmApplyFailed)))"

definition place_tab :: "browser_tab_id \<times> browser_tab_view \<Rightarrow> task_table \<Rightarrow> client_model_error + task_table" where
  "place_tab it = (case it of (i, tab) \<Rightarrow> with_parent (tb_task_id (tv_state tab)) (\<lambda>task.
     rbind (project_book (project_tab_view tab) task) (\<lambda>task.
       if bcontains (bb_tabs (sn_browser task)) i then Inr task else Inl CmApplyFailed)))"

definition place_resource ::
  "resource_id \<times> resource_facts \<Rightarrow> task_table \<times> (resource_id, resource_facts) bmap
     \<Rightarrow> client_model_error + task_table \<times> (resource_id, resource_facts) bmap" where
  "place_resource ir tables =
     (case ir of (i, resource) \<Rightarrow> case tables of (tasks, host) \<Rightarrow>
        (case rs_owner_kind resource of
           OwnerHost \<Rightarrow>
             if rs_task_id resource \<noteq> None then Inl CmInvalidOwnership
             else if bcontains host i then Inl CmDuplicateItem
             else Inr (tasks, binsert i resource host)
         | OwnerTask \<Rightarrow>
             rbind (ok_or (rs_task_id resource) CmInvalidOwnership) (\<lambda>tid.
             rbind (with_parent tid (\<lambda>task. if bcontains (sn_resources task) i then Inl CmDuplicateItem
                      else Inr (task \<lparr> sn_resources := binsert i resource (sn_resources task) \<rparr>)) tasks)
               (\<lambda>tasks. Inr (tasks, host)))))"

definition finish_assembled :: "index_env \<Rightarrow> client_model_builder \<Rightarrow> client_model_error + client_model" where
  "finish_assembled env b =
     rbind (ok_or (mb_through_sequence b) CmMissingSections) (\<lambda>through.
     rbind (try_fold place_agent (entries (mb_agents b)) (tasks_from_items True (mb_tasks b))) (\<lambda>tasks.
     rbind (try_fold place_context (entries (mb_browser_contexts b)) tasks) (\<lambda>tasks.
     rbind (try_fold place_tab (entries (mb_browser_tabs b)) tasks) (\<lambda>tasks.
     rbind (try_each (\<lambda>a. if bcontains tasks (as_task_id a) then Inr () else Inl CmMissingParentTask)
              (bvalues (mb_artifacts b))) (\<lambda>_.
     rbind (try_fold place_resource (entries (mb_resources b)) (tasks, bempty)) (\<lambda>(tasks, host_resources).
     rbind (try_each validate_primary_agent (bvalues tasks)) (\<lambda>_.
     rbind (try_each (\<lambda>f. case op_task_id f of None \<Rightarrow> Inr ()
                | Some i \<Rightarrow> if bcontains tasks i then Inr () else Inl CmMissingParentTask)
              (bvalues (mb_operations b))) (\<lambda>_.
       Inr \<lparr> cm_tasks = tasks, cm_host_resources = host_resources, cm_operations = mb_operations b,
             cm_artifact_summaries = mb_artifacts b, cm_last_applied_sequence = through,
             cm_replay_through = None, cm_replay_page_count = 0, cm_replay_cursors = [],
             cm_index = index_from_tasks env tasks through, cm_admitted_task_detail = bempty \<rparr>))))))))"

definition finish :: "index_env \<Rightarrow> client_model_builder \<Rightarrow> client_model_error + client_model" where
  "finish env b =
     (let required = take REQUIRED_SNAPSHOT_SECTION_COUNT (mb_sections b);
          browser = drop REQUIRED_SNAPSHOT_SECTION_COUNT (mb_sections b)
      in if list_ex (\<lambda>s. \<not> sa_finished s) required then Inl CmMissingSections
         else if list_ex sa_started browser \<and> list_ex (\<lambda>s. \<not> sa_finished s) browser then Inl CmMissingSections
         else finish_assembled env b)"

definition finish_tasks_preview :: "client_model_builder \<Rightarrow> client_model_error + task_inbox_preview" where
  "finish_tasks_preview b =
     (let idx = section_index SecTasks
      in if \<not> sa_finished (mb_sections b ! idx) then Inl CmMissingSections
         else if list_ex (\<lambda>(j, s). j \<noteq> idx \<and> sa_started s) (zip [0..<length (mb_sections b)] (mb_sections b))
         then Inl CmDuplicateSection
         else rbind (ok_or (mb_through_sequence b) CmMissingSections) (\<lambda>through.
           Inr \<lparr> tp_tasks = tasks_from_items False (mb_tasks b), tp_through_sequence = through \<rparr>))"
end
