(* ===== verification/Client_Inbox.thy ===== *)
theory Client_Inbox
  imports Client_Model Wire_Hello Wire_MessagePack
begin

text \<open>
  The inbox of a client connection (\<open>src/client/connection.rs\<close>): four lanes of messages the host
  sends unasked.  Durable messages keep their wire order in a bounded channel and, once an old
  subscription was fenced, in the retained lane; stream frames and conversation wakes are coalesced by
  key.  \<open>try_dequeue_from_state\<close> serves the lanes in rotation.

  A \<open>HashMap\<close> is a \<open>bmap\<close> whose order is never read: which entry \<open>keys().next()\<close> gives is the argument
  \<open>choice\<close> of a dequeue.  The mutexes make each operation one step, except that
  \<open>push_conversation_dirty\<close> lets go of one lock before it takes the next: it is two steps,
  \<open>conversation_admissible\<close> and \<open>record_conversation\<close>.  The wake-ups (\<open>Notify\<close>) carry no data.
\<close>

section \<open>Messages and errors\<close>

datatype subscription_tag = SubscriptionTag
type_synonym subscription_id = "subscription_tag id"

type_synonym stream_key = resource_id

type_synonym stream_payload_kind = u16

definition stream_payload_kind_new :: "u16 \<Rightarrow> stream_payload_kind option" where
  "stream_payload_kind_new w = (if w = 0 then None else Some w)"

record stream_frame =
  sf_subscription_id :: subscription_id
  sf_stream :: stream_key
  sf_generation :: u64
  sf_sequence :: u64
  sf_payload_kind :: stream_payload_kind
  sf_schema_version :: u16
  sf_payload :: "u8 list"

datatype unsolicited_server_message =
    UsDurableEvent subscription_id domain_event
  | UsResyncRequired subscription_id u64 u64
  | UsStream stream_frame
  | UsConversationDirty subscription_id task_id u64

datatype ipc_error =
    IpcInvalidProfile rstr | IpcUnsupported | IpcUnsupportedCapability | IpcIo error_kind | IpcTimeout
  | IpcFrame physical_frame_error | IpcMessagePack message_pack_error | IpcClientHello client_hello_error
  | IpcServerHello server_hello_error | IpcProfileMismatch | IpcHelloInconsistent | IpcUnauthorized
  | IpcUnexpectedResponse | IpcCorrelationMismatch | IpcDuplicateInFlight | IpcConnectionPoisoned
  | IpcBusy | IpcUnavailable | IpcRetiredSubscriptionFlood nat | IpcSecurity rstr

section \<open>The inbox\<close>

definition UNSOLICITED_QUEUE_CAPACITY :: nat where "UNSOLICITED_QUEUE_CAPACITY = 64"
definition UNSOLICITED_STREAM_CAPACITY :: nat where "UNSOLICITED_STREAM_CAPACITY = 16"
definition MAX_RETIRED_SUBSCRIPTION_IDS :: nat where "MAX_RETIRED_SUBSCRIPTION_IDS = 64"
definition MAX_RETIRED_DRAIN_WORK :: nat where "MAX_RETIRED_DRAIN_WORK = UNSOLICITED_QUEUE_CAPACITY"
definition MAX_RETAINED_DURABLE_MESSAGES :: nat where
  "MAX_RETAINED_DURABLE_MESSAGES = UNSOLICITED_QUEUE_CAPACITY * 2"

datatype unsolicited_lane = LaneDurable | LaneRetained | LaneStream | LaneConversation

primrec lane_next :: "unsolicited_lane \<Rightarrow> unsolicited_lane" where
  "lane_next LaneDurable = LaneRetained"
| "lane_next LaneRetained = LaneStream"
| "lane_next LaneStream = LaneConversation"
| "lane_next LaneConversation = LaneDurable"

definition durable_message_subscription_id :: "unsolicited_server_message \<Rightarrow> subscription_id option" where
  "durable_message_subscription_id m =
     (case m of UsDurableEvent i _ \<Rightarrow> Some i | UsResyncRequired i _ _ \<Rightarrow> Some i | _ \<Rightarrow> None)"

definition durable_message_is_retired :: "subscription_id list \<Rightarrow> unsolicited_server_message \<Rightarrow> bool" where
  "durable_message_is_retired retired m =
     (case durable_message_subscription_id m of None \<Rightarrow> False | Some i \<Rightarrow> i \<in> set retired)"

record unsolicited_inbox =
  ib_channel :: "unsolicited_server_message list"
  ib_capacity :: nat
  ib_retained :: "unsolicited_server_message list"
  ib_retired :: "subscription_id list"
  ib_next_lane :: unsolicited_lane
  ib_stream_capacity :: nat
  ib_streams :: "(stream_key, stream_frame) bmap"
  ib_conversations :: "(subscription_id, task_id \<times> u64) bmap"
  ib_closed :: bool

definition inbox_new :: "nat \<Rightarrow> nat \<Rightarrow> unsolicited_inbox" where
  "inbox_new durable_capacity stream_capacity =
     \<lparr> ib_channel = [], ib_capacity = max durable_capacity 1, ib_retained = [], ib_retired = [],
       ib_next_lane = LaneDurable, ib_stream_capacity = max stream_capacity 1, ib_streams = bempty,
       ib_conversations = bempty, ib_closed = False \<rparr>"

definition inbox_close :: "unsolicited_inbox \<Rightarrow> unsolicited_inbox" where
  "inbox_close ib = ib \<lparr> ib_closed := True \<rparr>"

text \<open>What a method that writes through a lock returns: its result and the inbox it leaves.\<close>

type_synonym 'a inboxed = "(ipc_error + 'a) \<times> unsolicited_inbox"

definition push_durable :: "unsolicited_server_message \<Rightarrow> unsolicited_inbox \<Rightarrow> unit inboxed" where
  "push_durable message ib =
     (if ib_closed ib then (Inl IpcUnavailable, ib)
      else case durable_message_subscription_id message of
        None \<Rightarrow> (Inl IpcUnavailable, ib)
      | Some _ \<Rightarrow>
          if durable_message_is_retired (ib_retired ib) message then (Inr (), ib)
          else if length (ib_channel ib) \<ge> ib_capacity ib then (Inl IpcUnavailable, ib)
          else (Inr (), ib \<lparr> ib_channel := ib_channel ib @ [message] \<rparr>))"

text \<open>The bounded drain of the channel: at most \<open>work\<close> messages, the others' kept in the retained lane.\<close>

fun drain_channel :: "nat \<Rightarrow> subscription_id \<Rightarrow> unsolicited_inbox \<Rightarrow> unsolicited_inbox" where
  "drain_channel 0 i ib = ib"
| "drain_channel (Suc work) i ib =
     (case ib_channel ib of
        [] \<Rightarrow> ib
      | message # rest \<Rightarrow>
          drain_channel work i
            (if durable_message_subscription_id message \<noteq> Some i
             then ib \<lparr> ib_channel := rest, ib_retained := ib_retained ib @ [message] \<rparr>
             else ib \<lparr> ib_channel := rest \<rparr>))"

definition retire_subscription_id :: "subscription_id \<Rightarrow> unsolicited_inbox \<Rightarrow> unit inboxed" where
  "retire_subscription_id i ib =
     (if i \<notin> set (ib_retired ib) \<and> length (ib_retired ib) \<ge> MAX_RETIRED_SUBSCRIPTION_IDS
      then (Inl (IpcRetiredSubscriptionFlood MAX_RETIRED_SUBSCRIPTION_IDS), ib)
      else
        let ib = ib \<lparr> ib_retired := hs_insert i (ib_retired ib),
                      ib_retained := filter (\<lambda>m. durable_message_subscription_id m \<noteq> Some i) (ib_retained ib),
                      ib_conversations := bremove i (ib_conversations ib) \<rparr>
        in if length (ib_retained ib) + length (ib_channel ib) > MAX_RETAINED_DURABLE_MESSAGES
           then (Inl (IpcRetiredSubscriptionFlood MAX_RETAINED_DURABLE_MESSAGES), ib)
           else
             let ib = drain_channel MAX_RETIRED_DRAIN_WORK i ib
             in if ib_channel ib \<noteq> [] then (Inl (IpcRetiredSubscriptionFlood MAX_RETIRED_DRAIN_WORK), ib)
                else (Inr (), ib))"

definition push_stream :: "stream_frame \<Rightarrow> unsolicited_inbox \<Rightarrow> unit inboxed" where
  "push_stream frame ib =
     (if ib_closed ib then (Inl IpcUnavailable, ib)
      else if bcontains (ib_streams ib) (sf_stream frame) \<or> blen (ib_streams ib) < ib_stream_capacity ib
      then (Inr (), ib \<lparr> ib_streams := binsert (sf_stream frame) frame (ib_streams ib) \<rparr>)
      else (Inr (), ib))"

text \<open>The check under the lock of the durable lane: an error, or whether the wake is to be recorded.\<close>

definition conversation_admissible :: "subscription_id \<Rightarrow> u64 \<Rightarrow> unsolicited_inbox \<Rightarrow> ipc_error + bool" where
  "conversation_admissible i high_water ib =
     (if ib_closed ib then Inl IpcUnavailable
      else if high_water = 0 then Inl IpcUnauthorized
      else Inr (i \<notin> set (ib_retired ib)))"

text \<open>The write under the lock of the conversation lane.\<close>

definition record_conversation ::
  "subscription_id \<Rightarrow> task_id \<Rightarrow> u64 \<Rightarrow> unsolicited_inbox \<Rightarrow> unsolicited_inbox" where
  "record_conversation i task high_water ib =
     (case bget (ib_conversations ib) i of
        Some (_, seen) \<Rightarrow>
          if high_water > seen
          then ib \<lparr> ib_conversations := binsert i (task, high_water) (ib_conversations ib) \<rparr> else ib
      | None \<Rightarrow>
          if blen (ib_conversations ib) < ib_stream_capacity ib
          then ib \<lparr> ib_conversations := binsert i (task, high_water) (ib_conversations ib) \<rparr> else ib)"

definition push_conversation_dirty ::
  "subscription_id \<Rightarrow> task_id \<Rightarrow> u64 \<Rightarrow> unsolicited_inbox \<Rightarrow> unit inboxed" where
  "push_conversation_dirty i task high_water ib =
     (case conversation_admissible i high_water ib of
        Inl e \<Rightarrow> (Inl e, ib)
      | Inr fresh \<Rightarrow> (Inr (), if fresh then record_conversation i task high_water ib else ib))"

text \<open>The inner loop of a durable lane: what is retired by now is dropped.\<close>

fun pop_live ::
  "subscription_id list \<Rightarrow> unsolicited_server_message list
     \<Rightarrow> unsolicited_server_message option \<times> unsolicited_server_message list" where
  "pop_live retired [] = (None, [])"
| "pop_live retired (message # rest) =
     (if durable_message_is_retired retired message then pop_live retired rest else (Some message, rest))"

definition chosen :: "nat \<Rightarrow> ('k::linorder, 'v) bmap \<Rightarrow> 'k option" where
  "chosen choice m = (if bkeys m = [] then None else Some (bkeys m ! (choice mod length (bkeys m))))"

definition take_lane ::
  "nat \<Rightarrow> unsolicited_lane \<Rightarrow> unsolicited_inbox \<Rightarrow> unsolicited_server_message option \<times> unsolicited_inbox" where
  "take_lane choice lane ib =
     (case lane of
        LaneRetained \<Rightarrow>
          (case pop_live (ib_retired ib) (ib_retained ib) of (m, rest) \<Rightarrow> (m, ib \<lparr> ib_retained := rest \<rparr>))
      | LaneDurable \<Rightarrow>
          if ib_retained ib = []
          then (case pop_live (ib_retired ib) (ib_channel ib) of (m, rest) \<Rightarrow> (m, ib \<lparr> ib_channel := rest \<rparr>))
          else (None, ib)
      | LaneStream \<Rightarrow>
          (case chosen choice (ib_streams ib) of
             None \<Rightarrow> (None, ib)
           | Some key \<Rightarrow> (map_option UsStream (bget (ib_streams ib) key),
                          ib \<lparr> ib_streams := bremove key (ib_streams ib) \<rparr>))
      | LaneConversation \<Rightarrow>
          (case chosen choice (ib_conversations ib) of
             None \<Rightarrow> (None, ib)
           | Some key \<Rightarrow>
               (map_option (\<lambda>(task, high_water). UsConversationDirty key task high_water)
                  (bget (ib_conversations ib) key),
                ib \<lparr> ib_conversations := bremove key (ib_conversations ib) \<rparr>)))"

fun take_lanes ::
  "nat \<Rightarrow> unsolicited_lane list \<Rightarrow> unsolicited_inbox \<Rightarrow> unsolicited_server_message option \<times> unsolicited_inbox" where
  "take_lanes choice [] ib = (None, ib)"
| "take_lanes choice (lane # lanes) ib =
     (case take_lane choice lane ib of
        (None, ib) \<Rightarrow> take_lanes choice lanes ib
      | (Some message, ib) \<Rightarrow> (Some message, ib \<lparr> ib_next_lane := lane_next lane \<rparr>))"

definition lane_order :: "unsolicited_lane \<Rightarrow> unsolicited_lane list" where
  "lane_order first =
     [first, lane_next first, lane_next (lane_next first), lane_next (lane_next (lane_next first))]"

definition try_dequeue :: "nat \<Rightarrow> unsolicited_inbox \<Rightarrow> unsolicited_server_message option \<times> unsolicited_inbox" where
  "try_dequeue choice ib = take_lanes choice (lane_order (ib_next_lane ib)) ib"

text \<open>One pass of \<open>recv\<close> with no message to come in between: a message, the closed error, or waiting.\<close>

definition recv_poll :: "nat \<Rightarrow> unsolicited_inbox \<Rightarrow> (ipc_error + unsolicited_server_message) option \<times> unsolicited_inbox" where
  "recv_poll choice ib =
     (case try_dequeue choice ib of
        (Some m, ib) \<Rightarrow> (Some (Inr m), ib)
      | (None, ib) \<Rightarrow>
          (case try_dequeue choice ib of
             (Some m, ib) \<Rightarrow> (Some (Inr m), ib)
           | (None, ib) \<Rightarrow>
               if ib_closed ib
               then (case try_dequeue choice ib of
                       (Some m, ib) \<Rightarrow> (Some (Inr m), ib)
                     | (None, ib) \<Rightarrow> (Some (Inl IpcUnavailable), ib))
               else (None, ib)))"

section \<open>Runs\<close>

datatype inbox_action =
    PushDurable unsolicited_server_message | PushStream stream_frame | PushDirty subscription_id task_id u64
  | RecordDirty subscription_id task_id u64 | Retire subscription_id | Close | Dequeue nat

definition inbox_step :: "inbox_action \<Rightarrow> unsolicited_inbox \<Rightarrow> unsolicited_server_message option \<times> unsolicited_inbox" where
  "inbox_step a ib =
     (case a of
        PushDurable m \<Rightarrow> (None, snd (push_durable m ib))
      | PushStream f \<Rightarrow> (None, snd (push_stream f ib))
      | PushDirty i t h \<Rightarrow> (None, snd (push_conversation_dirty i t h ib))
      | RecordDirty i t h \<Rightarrow> (None, record_conversation i t h ib)
      | Retire i \<Rightarrow> (None, snd (retire_subscription_id i ib))
      | Close \<Rightarrow> (None, inbox_close ib)
      | Dequeue choice \<Rightarrow> try_dequeue choice ib)"

text \<open>The messages a run delivers, and the inbox it ends in.\<close>

fun delivered :: "inbox_action list \<Rightarrow> unsolicited_inbox \<Rightarrow> unsolicited_server_message list" where
  "delivered [] ib = []"
| "delivered (a # as) ib =
     (case inbox_step a ib of (None, ib') \<Rightarrow> delivered as ib' | (Some m, ib') \<Rightarrow> m # delivered as ib')"

definition inbox_after :: "inbox_action list \<Rightarrow> unsolicited_inbox \<Rightarrow> unsolicited_inbox" where
  "inbox_after as ib = fold (\<lambda>a. snd \<circ> inbox_step a) as ib"

text \<open>The durable messages the inbox took from the wire.\<close>

fun admitted :: "inbox_action list \<Rightarrow> unsolicited_inbox \<Rightarrow> unsolicited_server_message list" where
  "admitted [] ib = []"
| "admitted (a # as) ib =
     (case a of PushDurable m \<Rightarrow> if fst (push_durable m ib) = Inr () then [m] else [] | _ \<Rightarrow> [])
       @ admitted as (snd (inbox_step a ib))"

definition dequeues :: "inbox_action list \<Rightarrow> nat" where
  "dequeues as = length (filter (\<lambda>a. \<exists>n. a = Dequeue n) as)"

definition is_durable :: "unsolicited_server_message \<Rightarrow> bool" where
  "is_durable m \<longleftrightarrow> durable_message_subscription_id m \<noteq> None"

definition live_in :: "unsolicited_inbox \<Rightarrow> unsolicited_server_message \<Rightarrow> bool" where
  "live_in ib m \<longleftrightarrow> \<not> durable_message_is_retired (ib_retired ib) m"

text \<open>The durable messages still to be delivered, as one queue.\<close>

definition durable_queue :: "unsolicited_inbox \<Rightarrow> unsolicited_server_message list" where
  "durable_queue ib = filter (live_in ib) (ib_retained ib @ ib_channel ib)"

definition only_durable :: "unsolicited_inbox \<Rightarrow> bool" where
  "only_durable ib \<longleftrightarrow> (\<forall>m \<in> set (ib_retained ib @ ib_channel ib). is_durable m)"

lemma live_in_abs: "live_in ib = (\<lambda>m. \<not> durable_message_is_retired (ib_retired ib) m)"
  by (simp add: live_in_def fun_eq_iff)

lemma after_simps [simp]:
  "inbox_after [] ib = ib" "inbox_after (a # as) ib = inbox_after as (snd (inbox_step a ib))"
  by (simp_all add: inbox_after_def)

lemma dequeues_simps [simp]:
  "dequeues [] = 0" "dequeues (Dequeue n # as) = Suc (dequeues as)"
  "\<forall>n. a \<noteq> Dequeue n \<Longrightarrow> dequeues (a # as) = dequeues as"
  by (auto simp: dequeues_def)

section \<open>The lanes\<close>

lemma pop_live_filter:
  "pop_live r q = (m, rest) \<Longrightarrow>
     filter (\<lambda>m. \<not> durable_message_is_retired r m) q = (case m of None \<Rightarrow> [] | Some m \<Rightarrow> [m]) @ filter (\<lambda>m. \<not> durable_message_is_retired r m) rest
       \<and> (m = None \<longrightarrow> rest = []) \<and> set rest \<subseteq> set q \<and> (\<forall>n. m = Some n \<longrightarrow> n \<in> set q \<and> \<not> durable_message_is_retired r n)"
  by (induction r q rule: pop_live.induct) (auto split: if_splits)

lemma chosen_contains: "chosen n m = Some k \<Longrightarrow> bcontains m k"
  by (metis chosen_def in_bkeys_iff length_greater_0_conv mod_less_divisor nth_mem option.distinct(1) option.inject)

lemma chosen_None: "chosen n m = None \<longleftrightarrow> bkeys m = []"
  by (simp add: chosen_def)

lemma chosen_contains': "chosen n m = Some k \<Longrightarrow> \<exists>v. bget m k = Some v"
  using chosen_contains[of n m k] by (auto simp: bcontains_iff)

lemma take_lane_frame:
  assumes "take_lane c l ib = (r, ib')"
  shows "ib_retired ib' = ib_retired ib \<and> ib_capacity ib' = ib_capacity ib \<and> ib_next_lane ib' = ib_next_lane ib
    \<and> ib_stream_capacity ib' = ib_stream_capacity ib \<and> ib_closed ib' = ib_closed ib
    \<and> (l \<noteq> LaneStream \<longrightarrow> ib_streams ib' = ib_streams ib) \<and> (l \<noteq> LaneConversation \<longrightarrow> ib_conversations ib' = ib_conversations ib)
    \<and> set (ib_retained ib') \<subseteq> set (ib_retained ib) \<and> set (ib_channel ib') \<subseteq> set (ib_channel ib)
    \<and> (r = None \<longrightarrow> ib_streams ib' = ib_streams ib \<and> ib_conversations ib' = ib_conversations ib)"
  using assms by (cases l)
    (auto simp: take_lane_def split: prod.splits if_splits option.splits dest!: pop_live_filter chosen_contains')

lemma take_lane_queue:
  assumes "take_lane c l ib = (r, ib')"
  shows "durable_queue ib =
    (case r of None \<Rightarrow> [] | Some m \<Rightarrow> if l = LaneDurable \<or> l = LaneRetained then [m] else []) @ durable_queue ib'"
  using assms by (cases l)
    (auto simp: take_lane_def durable_queue_def live_in_abs split: prod.splits if_splits option.splits dest!: pop_live_filter chosen_contains')

definition lane_carries :: "unsolicited_lane \<Rightarrow> unsolicited_server_message \<Rightarrow> bool" where
  "lane_carries l m =
     (case l of LaneDurable \<Rightarrow> is_durable m | LaneRetained \<Rightarrow> is_durable m
      | LaneStream \<Rightarrow> (\<exists>f. m = UsStream f) | LaneConversation \<Rightarrow> (\<exists>i t h. m = UsConversationDirty i t h))"

lemma take_lane_carries:
  assumes "only_durable ib" "take_lane c l ib = (Some m, ib')"
  shows "lane_carries l m"
  using assms by (cases l)
    (auto simp: take_lane_def lane_carries_def only_durable_def split: prod.splits if_splits option.splits dest!: pop_live_filter)

text \<open>A dequeue that delivers found the lanes before the serving one empty; a dequeue that does not found all empty.\<close>

lemma take_lanes_Some:
  assumes "take_lanes c ls ib = (Some m, ib')"
  shows "\<exists>pre l post ib1 ib2. ls = pre @ l # post \<and> take_lanes c pre ib = (None, ib1)
    \<and> take_lane c l ib1 = (Some m, ib2) \<and> ib' = ib2 \<lparr> ib_next_lane := lane_next l \<rparr>"
  using assms
proof (induction ls arbitrary: ib)
  case (Cons l ls)
  show ?case
  proof (cases "take_lane c l ib")
    case (Pair r ib1)
    show ?thesis
    proof (cases r)
      case None
      then obtain pre k post ib2 ib3 where "ls = pre @ k # post" "take_lanes c pre ib1 = (None, ib2)"
        "take_lane c k ib2 = (Some m, ib3)" "ib' = ib3 \<lparr> ib_next_lane := lane_next k \<rparr>"
        using Cons.IH[of ib1] Cons.prems Pair by auto
      then show ?thesis using Pair None by (intro exI[of _ "l # pre"]) auto
    next
      case (Some n)
      then show ?thesis using Cons.prems Pair by (intro exI[of _ "[]"]) auto
    qed
  qed
qed simp

lemma take_lanes_None:
  assumes "take_lanes c ls ib = (None, ib')"
  shows "durable_queue ib' = durable_queue ib \<and> ib_retired ib' = ib_retired ib \<and> ib_capacity ib' = ib_capacity ib
    \<and> ib_next_lane ib' = ib_next_lane ib \<and> ib_stream_capacity ib' = ib_stream_capacity ib \<and> ib_closed ib' = ib_closed ib
    \<and> ib_streams ib' = ib_streams ib \<and> ib_conversations ib' = ib_conversations ib
    \<and> set (ib_retained ib') \<subseteq> set (ib_retained ib) \<and> set (ib_channel ib') \<subseteq> set (ib_channel ib)"
  using assms
proof (induction ls arbitrary: ib)
  case (Cons l ls)
  then obtain ib1 where l: "take_lane c l ib = (None, ib1)" "take_lanes c ls ib1 = (None, ib')"
    by (auto split: prod.splits option.splits)
  show ?case using Cons.IH[OF l(2)] take_lane_frame[OF l(1)] take_lane_queue[OF l(1)] by auto
qed simp

lemma try_dequeue_step:
  assumes "only_durable ib" "try_dequeue c ib = (r, ib')"
  shows "durable_queue ib = (case r of None \<Rightarrow> [] | Some m \<Rightarrow> if is_durable m then [m] else []) @ durable_queue ib'"
    and "ib_retired ib' = ib_retired ib" and "only_durable ib'"
proof -
  have "durable_queue ib = (case r of None \<Rightarrow> [] | Some m \<Rightarrow> if is_durable m then [m] else []) @ durable_queue ib'
    \<and> ib_retired ib' = ib_retired ib \<and> only_durable ib'"
  proof (cases r)
    case None
    then show ?thesis using assms take_lanes_None[of c _ ib ib'] by (auto simp: try_dequeue_def only_durable_def)
  next
    case (Some m)
    then obtain pre l ib1 ib2 where s: "take_lanes c pre ib = (None, ib1)" "take_lane c l ib1 = (Some m, ib2)"
      "ib' = ib2 \<lparr> ib_next_lane := lane_next l \<rparr>"
      using assms(2) take_lanes_Some[of c "lane_order (ib_next_lane ib)" ib m ib'] by (auto simp: try_dequeue_def)
    have ib1: "only_durable ib1" using assms(1) take_lanes_None[OF s(1)] by (auto simp: only_durable_def)
    have "lane_carries l m" by (rule take_lane_carries[OF ib1 s(2)])
    then have "is_durable m \<longleftrightarrow> l = LaneDurable \<or> l = LaneRetained"
      by (cases l) (auto simp: lane_carries_def is_durable_def durable_message_subscription_id_def)
    moreover have "durable_queue ib' = durable_queue ib2" by (simp add: s(3) durable_queue_def live_in_abs)
    ultimately show ?thesis
      using Some take_lanes_None[OF s(1)] take_lane_queue[OF s(2)] take_lane_frame[OF s(2)] ib1 s(3)
      by (auto simp: only_durable_def)
  qed
  then show "durable_queue ib = (case r of None \<Rightarrow> [] | Some m \<Rightarrow> if is_durable m then [m] else []) @ durable_queue ib'"
    "ib_retired ib' = ib_retired ib" "only_durable ib'" by blast+
qed

lemma drain_channel_eq:
  "drain_channel w i ib = ib \<lparr> ib_channel := drop w (ib_channel ib),
     ib_retained := ib_retained ib @ filter (\<lambda>m. durable_message_subscription_id m \<noteq> Some i) (take w (ib_channel ib)) \<rparr>"
  by (induction w i ib rule: drain_channel.induct) (auto split: list.splits)

lemma retired_hs_insert:
  "durable_message_is_retired (hs_insert i r) m \<longleftrightarrow> durable_message_subscription_id m = Some i \<or> durable_message_is_retired r m"
  by (auto simp: durable_message_is_retired_def hs_insert_def split: option.split)

lemma filter_live_insert:
  "filter (\<lambda>m. \<not> durable_message_is_retired (hs_insert i r) m) (filter (\<lambda>m. durable_message_subscription_id m \<noteq> Some i) q) =
     filter (\<lambda>m. \<not> durable_message_is_retired (hs_insert i r) m) q"
  by (induction q) (auto simp: retired_hs_insert)

lemma filter_live_twice:
  "filter (\<lambda>m. \<not> durable_message_is_retired (hs_insert i r) m) (filter (\<lambda>m. \<not> durable_message_is_retired r m) q) =
     filter (\<lambda>m. \<not> durable_message_is_retired (hs_insert i r) m) q"
  by (induction q) (auto simp: retired_hs_insert)

lemma filter_take_drop: "filter P (take n q) @ filter P (drop n q) = filter P q"
  by (metis append_take_drop_id filter_append)

lemma retire_cases:
  assumes "retire_subscription_id i ib = (r, ib')"
  shows "(r \<noteq> Inr () \<and> ib' = ib) \<or>
    (\<exists>w. ib' = ib \<lparr> ib_retired := hs_insert i (ib_retired ib), ib_conversations := bremove i (ib_conversations ib),
       ib_retained := filter (\<lambda>m. durable_message_subscription_id m \<noteq> Some i) (ib_retained ib @ take w (ib_channel ib)),
       ib_channel := drop w (ib_channel ib) \<rparr> \<and> (r = Inr () \<longrightarrow> length (ib_channel ib) \<le> w))"
proof (cases "i \<notin> set (ib_retired ib) \<and> length (ib_retired ib) \<ge> MAX_RETIRED_SUBSCRIPTION_IDS")
  case True
  then show ?thesis using assms by (auto simp: retire_subscription_id_def)
next
  case False
  let ?n = "if length (filter (\<lambda>m. durable_message_subscription_id m \<noteq> Some i) (ib_retained ib)) + length (ib_channel ib)
      > MAX_RETAINED_DURABLE_MESSAGES then 0 else MAX_RETIRED_DRAIN_WORK"
  show ?thesis
    by (rule disjI2, rule exI[of _ ?n]) (use assms False in \<open>auto simp: retire_subscription_id_def Let_def drain_channel_eq split: if_splits\<close>)
qed

lemma retire_step:
  assumes "only_durable ib" "retire_subscription_id i ib = (r, ib')"
  shows "durable_queue ib' = filter (live_in ib') (durable_queue ib)" "set (ib_retired ib) \<subseteq> set (ib_retired ib')"
    "only_durable ib'" "ib_next_lane ib' = ib_next_lane ib" "ib_streams ib' = ib_streams ib"
    "ib_conversations ib' = ib_conversations ib \<or> i \<in> set (ib_retired ib') \<and> ib_conversations ib' = bremove i (ib_conversations ib)"
proof -
  have "durable_queue ib' = filter (live_in ib') (durable_queue ib)" if "ib' = ib"
    by (simp add: that durable_queue_def)
  moreover have "durable_queue ib' = filter (live_in ib') (durable_queue ib)" if
    "ib' = ib \<lparr> ib_retired := hs_insert i (ib_retired ib), ib_conversations := bremove i (ib_conversations ib),
       ib_retained := filter (\<lambda>m. durable_message_subscription_id m \<noteq> Some i) (ib_retained ib @ take w (ib_channel ib)),
       ib_channel := drop w (ib_channel ib) \<rparr>" for w
    unfolding that durable_queue_def live_in_abs
    by (simp add: filter_live_insert filter_live_twice filter_take_drop del: filter_filter)
  ultimately show "durable_queue ib' = filter (live_in ib') (durable_queue ib)" using retire_cases[OF assms(2)] by blast
  show "set (ib_retired ib) \<subseteq> set (ib_retired ib')" "ib_next_lane ib' = ib_next_lane ib" "ib_streams ib' = ib_streams ib"
    "ib_conversations ib' = ib_conversations ib \<or> i \<in> set (ib_retired ib') \<and> ib_conversations ib' = bremove i (ib_conversations ib)"
    using retire_cases[OF assms(2)] by (auto simp: hs_insert_def)
  show "only_durable ib'" using retire_cases[OF assms(2)] assms(1)
    by (elim disjE conjE exE) (auto simp: only_durable_def dest!: in_set_takeD in_set_dropD)
qed

lemma retire_ok:
  assumes "retire_subscription_id i ib = (Inr u, ib')"
  shows "i \<in> set (ib_retired ib') \<and> ib_retired ib' = hs_insert i (ib_retired ib) \<and> ib_channel ib' = []
    \<and> ib_retained ib' = filter (\<lambda>m. durable_message_subscription_id m \<noteq> Some i) (ib_retained ib @ ib_channel ib)
    \<and> ib_conversations ib' = bremove i (ib_conversations ib)"
  using retire_cases[OF assms] by (auto simp: hs_insert_def)

section \<open>Steps and runs\<close>

lemma push_durable_queue:
  "durable_queue (snd (push_durable m ib)) =
     durable_queue ib @ (if fst (push_durable m ib) = Inr () \<and> live_in ib m then [m] else [])"
  by (auto simp: push_durable_def durable_queue_def live_in_abs split: option.split)

lemma push_durable_frame:
  "ib_retired (snd (push_durable m ib)) = ib_retired ib" "ib_retained (snd (push_durable m ib)) = ib_retained ib"
  "ib_next_lane (snd (push_durable m ib)) = ib_next_lane ib" "ib_streams (snd (push_durable m ib)) = ib_streams ib"
  "ib_conversations (snd (push_durable m ib)) = ib_conversations ib"
  "only_durable ib \<Longrightarrow> only_durable (snd (push_durable m ib))"
  "set (ib_channel (snd (push_durable m ib))) \<subseteq> insert m (set (ib_channel ib))"
  "durable_message_is_retired (ib_retired ib) m \<Longrightarrow> snd (push_durable m ib) = ib"
  by (auto simp: push_durable_def only_durable_def is_durable_def split: option.split)

definition same_durable :: "unsolicited_inbox \<Rightarrow> unsolicited_inbox \<Rightarrow> bool" where
  "same_durable ib ib' \<longleftrightarrow> ib_retired ib' = ib_retired ib \<and> ib_retained ib' = ib_retained ib
     \<and> ib_channel ib' = ib_channel ib \<and> ib_next_lane ib' = ib_next_lane ib"

lemma ephemeral_steps [simp]:
  "same_durable ib (snd (push_stream f ib))" "same_durable ib (record_conversation i t h ib)"
  "same_durable ib (snd (push_conversation_dirty i t h ib))" "same_durable ib (inbox_close ib)"
  by (auto simp: same_durable_def push_stream_def record_conversation_def push_conversation_dirty_def inbox_close_def
      split: sum.split option.split)

lemma same_durable_queue: "same_durable ib ib' \<Longrightarrow> durable_queue ib' = durable_queue ib"
  by (simp add: same_durable_def durable_queue_def live_in_abs)

lemma same_durable_only: "same_durable ib ib' \<Longrightarrow> only_durable ib' = only_durable ib"
  by (simp add: same_durable_def only_durable_def)

lemma same_durable_live: "same_durable ib ib' \<Longrightarrow> live_in ib' = live_in ib"
  by (simp add: same_durable_def live_in_abs)

text \<open>One step against the queue: what was to be delivered and what is admitted are what is delivered and
  what is then to be delivered, up to the generations retired by then.\<close>

definition admits :: "inbox_action \<Rightarrow> unsolicited_inbox \<Rightarrow> unsolicited_server_message list" where
  "admits a ib = (case a of PushDurable m \<Rightarrow> if fst (push_durable m ib) = Inr () then [m] else [] | _ \<Rightarrow> [])"

definition durables :: "unsolicited_server_message option \<Rightarrow> unsolicited_server_message list" where
  "durables r = (case r of None \<Rightarrow> [] | Some m \<Rightarrow> if is_durable m then [m] else [])"

lemma live_mono: "set (ib_retired ib) \<subseteq> set (ib_retired ib') \<Longrightarrow> live_in ib' m \<Longrightarrow> live_in ib m"
  by (auto simp: live_in_def durable_message_is_retired_def split: option.splits)

lemma filter_live_mono: "set (ib_retired ib) \<subseteq> set (ib_retired ib') \<Longrightarrow> filter (live_in ib') (filter (live_in ib) q) = filter (live_in ib') q"
  by (induction q) (auto dest: live_mono)

lemma inbox_step_queue:
  assumes "only_durable ib" "inbox_step a ib = (r, ib')"
  shows "filter (live_in ib') (durables r @ durable_queue ib') = filter (live_in ib') (durable_queue ib @ admits a ib)"
    "only_durable ib'" "set (ib_retired ib) \<subseteq> set (ib_retired ib')"
proof -
  have e: "filter (live_in ib') (durables r @ durable_queue ib') = filter (live_in ib') (durable_queue ib @ admits a ib)
      \<and> only_durable ib' \<and> set (ib_retired ib) \<subseteq> set (ib_retired ib')"
    if "same_durable ib ib'" "r = None" "admits a ib = []"
    using that assms(1) same_durable_queue[OF that(1)] same_durable_only[OF that(1)]
    by (simp add: durables_def same_durable_def)
  have "filter (live_in ib') (durables r @ durable_queue ib') = filter (live_in ib') (durable_queue ib @ admits a ib)
      \<and> only_durable ib' \<and> set (ib_retired ib) \<subseteq> set (ib_retired ib')"
  proof (cases a)
    case (PushDurable m)
    then have "ib' = snd (push_durable m ib)" "r = None" using assms(2) by (simp_all add: inbox_step_def)
    then show ?thesis using assms(1) push_durable_frame[where m = m and ib = ib] push_durable_queue[of m ib]
      by (auto simp: PushDurable admits_def durables_def live_in_abs)
  next
    case (Retire i)
    then obtain u where "retire_subscription_id i ib = (u, ib')" "r = None"
      using assms(2) by (auto simp: inbox_step_def prod_eq_iff)
    then show ?thesis using retire_step[OF assms(1), of i u ib']
      by (simp add: Retire admits_def durables_def)
  next
    case (Dequeue n)
    then have "try_dequeue n ib = (r, ib')" using assms(2) by (simp add: inbox_step_def)
    then show ?thesis using try_dequeue_step[OF assms(1), of n r ib']
      by (simp add: Dequeue admits_def durables_def del: filter_append)
  qed (use e assms(2) in \<open>auto simp: inbox_step_def admits_def\<close>)
  then show "filter (live_in ib') (durables r @ durable_queue ib') = filter (live_in ib') (durable_queue ib @ admits a ib)"
    "only_durable ib'" "set (ib_retired ib) \<subseteq> set (ib_retired ib')" by blast+
qed

lemma admitted_Cons: "admitted (a # as) ib = admits a ib @ admitted as (snd (inbox_step a ib))"
  by (simp add: admits_def)

lemma run_retired: "only_durable ib \<Longrightarrow> set (ib_retired ib) \<subseteq> set (ib_retired (inbox_after as ib)) \<and> only_durable (inbox_after as ib)"
proof (induction as arbitrary: ib)
  case (Cons a as)
  obtain r ib' where s: "inbox_step a ib = (r, ib')" by (cases "inbox_step a ib")
  from Cons.IH[OF inbox_step_queue(2)[OF Cons.prems s]] inbox_step_queue(3)[OF Cons.prems s] show ?case by (auto simp: s)
qed simp

lemma run_queue:
  assumes "only_durable ib"
  shows "filter (live_in (inbox_after as ib)) (filter is_durable (delivered as ib) @ durable_queue (inbox_after as ib)) =
     filter (live_in (inbox_after as ib)) (durable_queue ib @ admitted as ib)"
  using assms
proof (induction as arbitrary: ib)
  case (Cons a as)
  obtain r ib' where s: "inbox_step a ib = (r, ib')" by (cases "inbox_step a ib")
  let ?P = "live_in (inbox_after as ib')"
  note step = inbox_step_queue[OF Cons.prems s]
  have sub: "set (ib_retired ib') \<subseteq> set (ib_retired (inbox_after as ib'))" using run_retired[OF step(2)] by blast
  have one: "filter ?P (durables r @ durable_queue ib') = filter ?P (durable_queue ib @ admits a ib)"
    using arg_cong[OF step(1), of "filter ?P"] by (simp only: filter_live_mono[OF sub])
  have "filter is_durable (delivered (a # as) ib) = durables r @ filter is_durable (delivered as ib')"
    by (simp add: s durables_def split: option.split)
  then have "filter ?P (filter is_durable (delivered (a # as) ib) @ durable_queue (inbox_after (a # as) ib)) =
      filter ?P (durables r) @ filter ?P (filter is_durable (delivered as ib') @ durable_queue (inbox_after as ib'))"
    by (simp add: s)
  also have "\<dots> = filter ?P (durables r) @ filter ?P (durable_queue ib' @ admitted as ib')"
    using Cons.IH[OF step(2)] by simp
  also have "\<dots> = filter ?P (durables r @ durable_queue ib') @ filter ?P (admitted as ib')" by simp
  also have "\<dots> = filter ?P (durable_queue ib @ admitted (a # as) ib)"
    unfolding one admitted_Cons by (simp add: s)
  finally show ?case by (simp add: s)
qed (simp add: live_in_abs)

section \<open>Fenced generations\<close>

lemma delivered_live:
  assumes "only_durable ib" "i \<in> set (ib_retired ib)" "m \<in> set (delivered as ib)"
  shows "durable_message_subscription_id m \<noteq> Some i"
  using assms
proof (induction as arbitrary: ib)
  case (Cons a as)
  obtain r ib' where s: "inbox_step a ib = (r, ib')" by (cases "inbox_step a ib")
  note step = inbox_step_queue[OF Cons.prems(1) s]
  show ?case
  proof (cases "r = Some m")
    case True
    then have deq: "\<exists>n. try_dequeue n ib = (Some m, ib')" using s by (cases a) (auto simp: inbox_step_def)
    show ?thesis
    proof
      assume sub: "durable_message_subscription_id m = Some i"
      then have "is_durable m" by (simp add: is_durable_def)
      then have "m \<in> set (durable_queue ib)" using deq try_dequeue_step(1)[OF Cons.prems(1)] by fastforce
      then have "live_in ib m" by (auto simp: durable_queue_def)
      then show False using sub Cons.prems(2) by (simp add: live_in_def durable_message_is_retired_def)
    qed
  next
    case False
    then have "m \<in> set (delivered as ib')" using Cons.prems(3) s by (simp split: option.splits)
    then show ?thesis using Cons.IH[OF step(2)] step(3) Cons.prems(2) by blast
  qed
qed simp

definition silent :: "subscription_id \<Rightarrow> unsolicited_inbox \<Rightarrow> bool" where
  "silent i ib \<longleftrightarrow> i \<in> set (ib_retired ib) \<and> \<not> bcontains (ib_conversations ib) i"

lemma take_lane_silent:
  assumes "\<not> bcontains (ib_conversations ib) i" "take_lane c l ib = (r, ib')"
  shows "\<not> bcontains (ib_conversations ib') i"
  using assms by (cases l) (auto simp: take_lane_def bcontains_iff split: prod.splits if_splits option.splits)

lemma take_lanes_silent:
  assumes "\<not> bcontains (ib_conversations ib) i" "take_lanes c ls ib = (r, ib')"
  shows "\<not> bcontains (ib_conversations ib') i"
  using assms
proof (induction ls arbitrary: ib)
  case (Cons l ls)
  obtain q ib1 where "take_lane c l ib = (q, ib1)" by (cases "take_lane c l ib")
  then show ?case using Cons.IH[of ib1] Cons.prems take_lane_silent[of ib i c l q ib1]
    by (cases q) auto
qed simp

lemma dirty_from_lane:
  assumes "only_durable ib" "try_dequeue c ib = (Some (UsConversationDirty i t h), ib')"
  shows "bcontains (ib_conversations ib) i"
proof -
  obtain pre l ib1 ib2 where s: "take_lanes c pre ib = (None, ib1)" "take_lane c l ib1 = (Some (UsConversationDirty i t h), ib2)"
    using assms(2) take_lanes_Some[of c "lane_order (ib_next_lane ib)" ib _ ib'] by (auto simp: try_dequeue_def)
  have "only_durable ib1" using take_lanes_None[OF s(1)] assms(1) by (auto simp: only_durable_def)
  from take_lane_carries[OF this s(2)] have "l = LaneConversation"
    by (cases l) (simp_all add: lane_carries_def is_durable_def durable_message_subscription_id_def)
  then show ?thesis using s(2) take_lanes_None[OF s(1)]
    by (auto simp: take_lane_def split: option.splits dest: chosen_contains)
qed

lemma record_conversation_frame:
  "j \<noteq> i \<Longrightarrow> bcontains (ib_conversations (record_conversation j t h ib)) i = bcontains (ib_conversations ib) i"
  "ib_retired (record_conversation j t h ib) = ib_retired ib" "ib_streams (record_conversation j t h ib) = ib_streams ib"
  "bcontains (ib_conversations ib) i \<Longrightarrow> bcontains (ib_conversations (record_conversation j t h ib)) i"
  by (auto simp: record_conversation_def bcontains_iff split: option.split)

lemma push_dirty_eq:
  "snd (push_conversation_dirty i t h ib) =
     (if \<not> ib_closed ib \<and> h \<noteq> 0 \<and> i \<notin> set (ib_retired ib) then record_conversation i t h ib else ib)"
  by (simp add: push_conversation_dirty_def conversation_admissible_def)

lemma silent_step:
  assumes "only_durable ib" "silent i ib" "\<forall>t h. a \<noteq> RecordDirty i t h" "inbox_step a ib = (r, ib')"
  shows "silent i ib' \<and> (\<forall>t h. r \<noteq> Some (UsConversationDirty i t h))"
proof (cases a)
  case (Retire j)
  then obtain u where "retire_subscription_id j ib = (u, ib')" "r = None"
    using assms(4) by (auto simp: inbox_step_def prod_eq_iff)
  then show ?thesis using retire_step[OF assms(1), of j u ib'] assms(2) by (auto simp: silent_def bcontains_iff split: if_splits)
next
  case (Dequeue n)
  then have d: "try_dequeue n ib = (r, ib')" using assms(4) by (simp add: inbox_step_def)
  then have "\<not> bcontains (ib_conversations ib') i" using assms(2) take_lanes_silent[of ib i n _ r ib'] by (auto simp: silent_def try_dequeue_def)
  then show ?thesis using assms(2) try_dequeue_step(2)[OF assms(1) d] dirty_from_lane[OF assms(1)] d by (auto simp: silent_def)
next
  case (PushDirty j t h)
  then show ?thesis using assms by (cases "j = i")
    (auto simp: inbox_step_def silent_def push_dirty_eq record_conversation_frame split: if_splits)
next
  case (RecordDirty j t h)
  then show ?thesis using assms by (auto simp: inbox_step_def silent_def record_conversation_frame)
qed (use assms in \<open>auto simp: inbox_step_def silent_def push_stream_def push_durable_frame inbox_close_def split: if_splits\<close>)

lemma delivered_silent:
  assumes "only_durable ib" "silent i ib" "\<forall>t h. RecordDirty i t h \<notin> set as"
  shows "UsConversationDirty i t h \<notin> set (delivered as ib)"
  using assms
proof (induction as arbitrary: ib)
  case (Cons a as)
  obtain r ib' where s: "inbox_step a ib = (r, ib')" by (cases "inbox_step a ib")
  have "silent i ib' \<and> (\<forall>t h. r \<noteq> Some (UsConversationDirty i t h))"
    using silent_step[OF Cons.prems(1,2) _ s] Cons.prems(3) by (metis list.set_intros(1))
  then show ?case using Cons.IH[OF inbox_step_queue(2)[OF Cons.prems(1) s]] Cons.prems(3) by (auto simp: s split: option.split)
qed simp

lemma only_durable_new [simp]: "only_durable (inbox_new c d)"
  by (simp add: only_durable_def inbox_new_def)

section \<open>No lane starves\<close>

definition clean :: "unsolicited_inbox \<Rightarrow> bool" where
  "clean ib \<longleftrightarrow> (\<forall>m \<in> set (ib_retained ib @ ib_channel ib). is_durable m \<and> live_in ib m)"

text \<open>Every fence of the run succeeded; after one that did not, the client drops the connection.\<close>

fun fences_hold :: "inbox_action list \<Rightarrow> unsolicited_inbox \<Rightarrow> bool" where
  "fences_hold [] ib = True"
| "fences_hold (a # as) ib =
     ((case a of Retire i \<Rightarrow> fst (retire_subscription_id i ib) = Inr () | _ \<Rightarrow> True)
        \<and> fences_hold as (snd (inbox_step a ib)))"

definition durable_rank :: "unsolicited_inbox \<Rightarrow> nat" where
  "durable_rank ib =
     (case ib_next_lane ib of LaneDurable \<Rightarrow> 0 | LaneConversation \<Rightarrow> 1 | LaneStream \<Rightarrow> 2
      | LaneRetained \<Rightarrow> if ib_retained ib = [] then 2 else 0)"

lemma clean_only: "clean ib \<Longrightarrow> only_durable ib"
  by (simp add: clean_def only_durable_def)

lemma clean_queue: "clean ib \<Longrightarrow> durable_queue ib = ib_retained ib @ ib_channel ib"
  by (simp add: clean_def durable_queue_def)

lemma clean_pop:
  assumes "clean ib"
  shows "pop_live (ib_retired ib) (ib_retained ib) = (case ib_retained ib of [] \<Rightarrow> (None, []) | m # ms \<Rightarrow> (Some m, ms))"
    and "pop_live (ib_retired ib) (ib_channel ib) = (case ib_channel ib of [] \<Rightarrow> (None, []) | m # ms \<Rightarrow> (Some m, ms))"
  using assms by (auto simp: clean_def live_in_def split: list.split)

lemma dequeue_durable_progress:
  assumes "clean ib" "durable_queue ib \<noteq> []" "try_dequeue c ib = (r, ib')"
  shows "\<exists>m. r = Some m \<and> (is_durable m \<and> durable_rank ib' \<le> 2 \<or> durable_rank ib' < durable_rank ib)"
proof -
  have "ib_retained ib @ ib_channel ib \<noteq> []" using assms(2) by (simp add: clean_queue[OF assms(1)])
  then show ?thesis using assms(1,3) clean_pop[OF assms(1)]
    by (cases "ib_next_lane ib"; cases "ib_retained ib"; cases "ib_channel ib")
      (auto simp: try_dequeue_def lane_order_def take_lane_def durable_rank_def clean_def split: option.splits dest: chosen_contains')
qed

lemma dequeue_clean:
  assumes "clean ib" "try_dequeue c ib = (r, ib')"
  shows "clean ib'"
proof (cases r)
  case None
  then show ?thesis using assms take_lanes_None[of c _ ib ib'] by (auto simp: try_dequeue_def clean_def live_in_abs)
next
  case (Some m)
  then obtain pre l ib1 ib2 where s: "take_lanes c pre ib = (None, ib1)" "take_lane c l ib1 = (Some m, ib2)"
    "ib' = ib2 \<lparr> ib_next_lane := lane_next l \<rparr>"
    using assms(2) take_lanes_Some[of c "lane_order (ib_next_lane ib)" ib m ib'] by (auto simp: try_dequeue_def)
  then show ?thesis using assms(1) take_lanes_None[OF s(1)] take_lane_frame[OF s(2)]
    by (auto simp: clean_def live_in_abs)
qed

lemma retire_clean:
  assumes "clean ib" "retire_subscription_id i ib = (Inr u, ib')"
  shows "clean ib'"
  using assms(1) retire_ok[OF assms(2)] by (auto simp: clean_def live_in_abs retired_hs_insert)

lemma step_clean:
  assumes "clean ib" "fences_hold (a # as) ib"
  shows "clean (snd (inbox_step a ib))"
proof (cases a)
  case (Retire i)
  then show ?thesis using assms retire_clean[of ib i "()"] by (simp add: inbox_step_def prod_eq_iff)
next
  case (Dequeue n)
  then show ?thesis using assms dequeue_clean[of ib n] by (simp add: inbox_step_def prod_eq_iff)
next
  case (PushDurable m)
  then show ?thesis using assms(1) by (auto simp: inbox_step_def push_durable_def clean_def live_in_abs is_durable_def split: option.split)
qed (use assms(1) ephemeral_steps in \<open>auto simp: inbox_step_def same_durable_def clean_def live_in_abs\<close>)

lemma run_clean: "clean ib \<Longrightarrow> fences_hold as ib \<Longrightarrow> clean (inbox_after as ib)"
proof (induction as arbitrary: ib)
  case (Cons a as)
  then show ?case using step_clean[OF Cons.prems] by simp
qed simp

lemma fences_append: "fences_hold (as @ bs) ib \<longleftrightarrow> fences_hold as ib \<and> fences_hold bs (inbox_after as ib)"
  by (induction as arbitrary: ib) auto

lemma clean_new [simp]: "clean (inbox_new c d)"
  by (simp add: clean_def inbox_new_def)

text \<open>A step that is no dequeue moves no message back and puts no lane in front of the durable ones.\<close>

lemma step_keeps_place:
  assumes "clean ib" "fences_hold (a # as) ib" "\<forall>n. a \<noteq> Dequeue n" "durable_queue ib = pre @ m # post"
    and "inbox_step a ib = (r, ib')" "live_in ib' m"
  shows "r = None \<and> durable_rank ib' \<le> durable_rank ib \<and> (\<exists>pre' post'. durable_queue ib' = pre' @ m # post' \<and> length pre' \<le> length pre)"
proof -
  have same: ?thesis if "same_durable ib ib'" "r = None"
    using that same_durable_queue[OF that(1)] assms(4) by (auto simp: same_durable_def durable_rank_def)
  show ?thesis
  proof (cases a)
    case (PushDurable n)
    then have "ib' = snd (push_durable n ib)" "r = None" using assms(5) by (simp_all add: inbox_step_def)
    then show ?thesis using push_durable_queue[of n ib] push_durable_frame[where m = n and ib = ib] assms(4)
      by (auto simp: durable_rank_def)
  next
    case (Retire i)
    then have ok: "retire_subscription_id i ib = (Inr (), ib')" "r = None"
      using assms(2,5) by (auto simp: inbox_step_def prod_eq_iff)
    note st = retire_step[OF clean_only[OF assms(1)] ok(1)]
    have q: "durable_queue ib' = filter (live_in ib') pre @ m # filter (live_in ib') post"
      using st(1) assms(4,6) by simp
    moreover have "ib_retained ib' \<noteq> []"
      using q clean_queue[OF retire_clean[OF assms(1) ok(1)]] retire_ok[OF ok(1)] by auto
    ultimately show ?thesis using st(4) ok(2) by (auto simp: durable_rank_def split: unsolicited_lane.split)
  qed (use same assms(3,5) ephemeral_steps in \<open>auto simp: inbox_step_def\<close>)
qed

lemma delivered_Cons:
  "inbox_step a ib = (r, ib') \<Longrightarrow> set (delivered (a # as) ib) = set_option r \<union> set (delivered as ib')"
  by (simp split: option.split)

lemma durable_arrives:
  assumes "clean ib" "fences_hold as ib" "durable_queue ib = pre @ m # post" "live_in (inbox_after as ib) m"
    and "3 * length pre + durable_rank ib < dequeues as"
  shows "m \<in> set (delivered as ib)"
  using assms
proof (induction as arbitrary: ib pre post)
  case (Cons a as)
  obtain r ib' where s: "inbox_step a ib = (r, ib')" by (cases "inbox_step a ib")
  have clean: "clean ib'" "fences_hold as ib'" using step_clean[OF Cons.prems(1,2)] Cons.prems(2) by (simp_all add: s)
  have fin: "live_in (inbox_after as ib') m" using Cons.prems(4) by (simp add: s)
  have live: "live_in ib' m" using live_mono[OF _ fin] run_retired[OF clean_only[OF clean(1)]] by blast
  show ?case
  proof (cases "\<exists>n. a = Dequeue n")
    case False
    from step_keeps_place[OF Cons.prems(1,2) _ Cons.prems(3) s live] False obtain pre' post' where
      "durable_rank ib' \<le> durable_rank ib" "durable_queue ib' = pre' @ m # post'" "length pre' \<le> length pre" by blast
    then show ?thesis using Cons.IH[OF clean _ fin, of pre' post'] Cons.prems(5) False
      by (simp add: delivered_Cons[OF s] del: delivered.simps)
  next
    case True
    then obtain n where n: "a = Dequeue n" by blast
    then have d: "try_dequeue n ib = (r, ib')" using s by (simp add: inbox_step_def)
    obtain k where k: "r = Some k" "is_durable k \<and> durable_rank ib' \<le> 2 \<or> durable_rank ib' < durable_rank ib"
      using dequeue_durable_progress[OF Cons.prems(1) _ d] Cons.prems(3) by auto
    have q: "pre @ m # post = durables r @ durable_queue ib'"
      using try_dequeue_step(1)[OF clean_only[OF Cons.prems(1)] d] Cons.prems(3) by (simp add: durables_def)
    have enough: "3 * length pre + durable_rank ib \<le> dequeues as" using Cons.prems(5) n by simp
    show ?thesis
    proof (cases "is_durable k")
      case True
      show ?thesis
      proof (cases pre)
        case Nil
        then show ?thesis using q True k(1) by (simp add: durables_def delivered_Cons[OF s] del: delivered.simps)
      next
        case (Cons h pre')
        then have "durable_queue ib' = pre' @ m # post" using q True k(1) by (simp add: durables_def)
        moreover have "durable_rank ib' \<le> 2" by (simp add: durable_rank_def split: unsolicited_lane.split)
        ultimately show ?thesis using Cons.IH[OF clean _ fin] enough Cons by (simp add: delivered_Cons[OF s] del: delivered.simps)
      qed
    next
      case False
      then have "durable_queue ib' = pre @ m # post" "durable_rank ib' < durable_rank ib" using q k by (auto simp: durables_def)
      then show ?thesis using Cons.IH[OF clean _ fin] enough by (simp add: delivered_Cons[OF s] del: delivered.simps)
    qed
  qed
qed simp

text \<open>A lane with a stock of its own: the interface the rotation gives to the stream and to the conversation
  lane.  Whatever the other lanes hold and whatever is pushed meanwhile, it is served in its turn.\<close>

definition lanes_before :: "unsolicited_lane \<Rightarrow> unsolicited_lane \<Rightarrow> nat" where
  "lanes_before lane first =
     (if first = lane then 0 else if lane_next first = lane then 1 else if lane_next (lane_next first) = lane then 2 else 3)"

lemma lanes_before_le: "lanes_before lane first \<le> 3"
  by (simp add: lanes_before_def)

lemma lane_order_turn: "lane \<in> set (lane_order first)"
  by (cases lane; cases first) (simp_all add: lane_order_def)

lemma lane_order_progress:
  assumes "n < 4" "\<forall>k \<le> n. lane_order first ! k \<noteq> lane"
  shows "lanes_before lane (lane_next (lane_order first ! n)) < lanes_before lane first"
proof -
  have "n = 0 \<or> n = 1 \<or> n = 2 \<or> n = 3" using assms(1) by auto
  then show ?thesis using assms(2)
    by (elim disjE; cases first; cases lane) (auto simp: lane_order_def lanes_before_def le_Suc_eq numeral_2_eq_2 numeral_3_eq_3)
qed

lemma step_next_lane: "\<forall>n. a \<noteq> Dequeue n \<Longrightarrow> ib_next_lane (snd (inbox_step a ib)) = ib_next_lane ib"
proof (cases a)
  case (Retire i)
  then show ?thesis using retire_cases[of i ib "fst (retire_subscription_id i ib)" "snd (retire_subscription_id i ib)"]
    by (auto simp: inbox_step_def)
qed (use ephemeral_steps in \<open>auto simp: inbox_step_def push_durable_frame same_durable_def\<close>)

locale stocked_lane =
  fixes lane :: unsolicited_lane
    and stock :: "unsolicited_inbox \<Rightarrow> 'b"
    and ready :: "'b \<Rightarrow> bool"
    and carries :: "unsolicited_server_message \<Rightarrow> bool"
    and harmless :: "inbox_action \<Rightarrow> bool"
  assumes serves: "ready (stock ib) \<Longrightarrow> \<exists>m ib'. take_lane c lane ib = (Some m, ib') \<and> carries m"
    and others: "l \<noteq> lane \<Longrightarrow> take_lane c l ib = (r, ib') \<Longrightarrow> stock ib' = stock ib"
    and turned: "stock (ib \<lparr> ib_next_lane := l \<rparr>) = stock ib"
    and keeps: "ready (stock ib) \<Longrightarrow> harmless a \<Longrightarrow> \<forall>n. a \<noteq> Dequeue n \<Longrightarrow> ready (stock (snd (inbox_step a ib)))"
begin

lemma take_lanes_turn:
  assumes "lane \<in> set ls" "ready (stock ib)" "take_lanes c ls ib = (r, ib')"
  shows "\<exists>m. r = Some m \<and> (carries m \<or> stock ib' = stock ib \<and>
    (\<exists>n < length ls. ib_next_lane ib' = lane_next (ls ! n) \<and> (\<forall>k \<le> n. ls ! k \<noteq> lane)))"
  using assms
proof (induction ls arbitrary: ib)
  case (Cons l ls)
  obtain q ib1 where q: "take_lane c l ib = (q, ib1)" by (cases "take_lane c l ib")
  show ?case
  proof (cases "l = lane")
    case True
    then show ?thesis using serves[OF Cons.prems(2), of c] Cons.prems(3) q by auto
  next
    case False
    have same: "stock ib1 = stock ib" using others[OF False q] .
    show ?thesis
    proof (cases q)
      case None
      then obtain m where m: "r = Some m" "carries m \<or> stock ib' = stock ib1 \<and>
          (\<exists>n < length ls. ib_next_lane ib' = lane_next (ls ! n) \<and> (\<forall>k \<le> n. ls ! k \<noteq> lane))"
        using Cons.IH[of ib1] Cons.prems q False same by auto
      moreover have "\<exists>n < length (l # ls). ib_next_lane ib' = lane_next ((l # ls) ! n) \<and> (\<forall>k \<le> n. (l # ls) ! k \<noteq> lane)"
        if "n < length ls" "ib_next_lane ib' = lane_next (ls ! n)" "\<forall>k \<le> n. ls ! k \<noteq> lane" for n
        using that False by (intro exI[of _ "Suc n"]) (auto simp: nth_Cons split: nat.split)
      ultimately show ?thesis using same by metis
    next
      case (Some m)
      then show ?thesis using Cons.prems(3) q False same turned by (intro exI[of _ m]) (auto intro!: exI[of _ 0])
    qed
  qed
qed simp

lemma dequeue_turn:
  assumes "ready (stock ib)" "try_dequeue c ib = (r, ib')"
  shows "\<exists>m. r = Some m \<and> (carries m \<or> stock ib' = stock ib
    \<and> lanes_before lane (ib_next_lane ib') < lanes_before lane (ib_next_lane ib))"
proof -
  have "length (lane_order (ib_next_lane ib)) = 4" by (simp add: lane_order_def)
  then show ?thesis
    using take_lanes_turn[OF lane_order_turn assms(1), of c "ib_next_lane ib" r ib'] assms(2)
      lane_order_progress[of _ "ib_next_lane ib" lane] by (auto simp: try_dequeue_def)
qed

lemma served:
  assumes "ready (stock ib)" "\<forall>a \<in> set as. harmless a" "lanes_before lane (ib_next_lane ib) < dequeues as"
  shows "\<exists>m \<in> set (delivered as ib). carries m"
  using assms
proof (induction as arbitrary: ib)
  case (Cons a as)
  obtain r ib' where s: "inbox_step a ib = (r, ib')" by (cases "inbox_step a ib")
  have "(\<exists>m. r = Some m \<and> carries m) \<or> ready (stock ib') \<and> lanes_before lane (ib_next_lane ib') < dequeues as"
  proof (cases "\<exists>n. a = Dequeue n")
    case True
    then obtain n where "a = Dequeue n" by blast
    then show ?thesis using dequeue_turn[OF Cons.prems(1), of n r ib'] s Cons.prems by (auto simp: inbox_step_def)
  next
    case False
    then show ?thesis using keeps[OF Cons.prems(1), of a] step_next_lane[of a ib] s Cons.prems(2,3) by auto
  qed
  then show ?case using Cons.IH[of ib'] Cons.prems(2) by (auto simp: delivered_Cons[OF s] simp del: delivered.simps)
qed simp
end

lemma take_stream:
  "bkeys (ib_streams ib) \<noteq> [] \<Longrightarrow> \<exists>m ib'. take_lane c LaneStream ib = (Some m, ib') \<and> (\<exists>f. m = UsStream f)"
  by (cases "chosen c (ib_streams ib)") (auto simp: take_lane_def chosen_None dest!: chosen_contains')

lemma take_conversation:
  assumes "bcontains (ib_conversations ib) i"
  shows "\<exists>m ib'. take_lane c LaneConversation ib = (Some m, ib') \<and> (\<exists>i t h. m = UsConversationDirty i t h)"
proof -
  have "bkeys (ib_conversations ib) \<noteq> []" using assms by (metis in_bkeys_iff list.set(1) empty_iff)
  then show ?thesis by (cases "chosen c (ib_conversations ib)") (auto simp: take_lane_def chosen_None dest!: chosen_contains')
qed

lemma bkeys_nonempty: "bkeys m \<noteq> [] \<longleftrightarrow> (\<exists>k. bcontains m k)"
  by (metis in_bkeys_iff last_in_set list.set(1) empty_iff)

lemma step_streams:
  assumes "bkeys (ib_streams ib) \<noteq> []" "\<forall>n. a \<noteq> Dequeue n"
  shows "bkeys (ib_streams (snd (inbox_step a ib))) \<noteq> []"
proof (cases a)
  case (PushStream f)
  then show ?thesis using assms(1) by (auto simp: inbox_step_def push_stream_def bkeys_nonempty bcontains_iff)
next
  case (Retire i)
  then show ?thesis using assms(1) retire_cases[of i ib "fst (retire_subscription_id i ib)" "snd (retire_subscription_id i ib)"]
    by (auto simp: inbox_step_def)
qed (use assms in \<open>auto simp: inbox_step_def push_durable_frame push_dirty_eq record_conversation_frame inbox_close_def\<close>)

lemma step_conversations:
  assumes "bcontains (ib_conversations ib) i" "\<forall>n. a \<noteq> Dequeue n" "a \<noteq> Retire i"
  shows "bcontains (ib_conversations (snd (inbox_step a ib))) i"
proof (cases a)
  case (PushStream f)
  then show ?thesis using assms(1) by (simp add: inbox_step_def push_stream_def)
next
  case (Retire j)
  then show ?thesis using assms retire_cases[of j ib "fst (retire_subscription_id j ib)" "snd (retire_subscription_id j ib)"]
    by (auto simp: inbox_step_def bcontains_iff)
qed (use assms in \<open>auto simp: inbox_step_def push_durable_frame push_dirty_eq record_conversation_frame inbox_close_def\<close>)

interpretation stream_lane: stocked_lane LaneStream ib_streams "\<lambda>m. bkeys m \<noteq> []" "\<lambda>m. \<exists>f. m = UsStream f" "\<lambda>_. True"
  by unfold_locales (use take_stream take_lane_frame step_streams in \<open>auto\<close>)

interpretation conversation_lane: stocked_lane LaneConversation ib_conversations "\<lambda>m. bcontains m i"
  "\<lambda>m. \<exists>i t h. m = UsConversationDirty i t h" "\<lambda>a. a \<noteq> Retire i" for i
  by unfold_locales (use take_conversation take_lane_frame step_conversations in \<open>auto\<close>)

section \<open>Properties\<close>

text \<open>C18. Durable messages arrive in wire order, exactly once.  Whatever is pushed, fenced and dequeued on a
  connection, and however the fenced lanes were reshuffled or their bounded drain was cut short, the
  durable messages of the generations still live that were delivered, followed by those still to be
  delivered, are those the inbox admitted, in the order it admitted them.\<close>

theorem durable_messages_in_order:
  "filter (live_in (inbox_after as (inbox_new c d)))
     (filter is_durable (delivered as (inbox_new c d)) @ durable_queue (inbox_after as (inbox_new c d))) =
   filter (live_in (inbox_after as (inbox_new c d))) (admitted as (inbox_new c d))"
proof -
  have "durable_queue (inbox_new c d) = []" by (simp add: durable_queue_def inbox_new_def)
  then show ?thesis using run_queue[OF only_durable_new, of as c d] by simp
qed

text \<open>C21. A fenced subscription is silent.  Once the fence of a subscription succeeded, no later dequeue
  delivers an event or a resync of it, whatever was queued before and whatever arrives after; and no
  conversation wake of it either, as long as no wake was between its admission check and its write when
  the fence fell.\<close>

theorem fenced_subscription_is_silent:
  assumes "retire_subscription_id i (inbox_after before (inbox_new c d)) = (Inr (), ib)"
  shows "(\<forall>m \<in> set (delivered as ib). durable_message_subscription_id m \<noteq> Some i) \<and>
    ((\<forall>t h. RecordDirty i t h \<notin> set as) \<longrightarrow> (\<forall>t h. UsConversationDirty i t h \<notin> set (delivered as ib)))"
proof -
  have only: "only_durable ib" using retire_step(3)[OF _ assms] run_retired[OF only_durable_new] by blast
  moreover have "i \<in> set (ib_retired ib)" "silent i ib"
    using retire_ok[OF assms] by (auto simp: silent_def bcontains_iff)
  ultimately show ?thesis using delivered_live delivered_silent by blast
qed

text \<open>C19. No lane starves.  On a connection whose fences held, a durable message with \<open>n\<close> messages before it
  is delivered within \<open>3 (n + 1)\<close> dequeues unless its subscription is fenced; while a stream frame waits,
  one of any four dequeues delivers a stream frame, and while a conversation wake waits, one of any four
  delivers a wake.  Other traffic, however dense, does not delay this.\<close>

theorem no_lane_starves:
  assumes "fences_hold (before @ as) (inbox_new c d)" "ib = inbox_after before (inbox_new c d)"
  shows "(durable_queue ib = pre @ m # post \<and> live_in (inbox_after as ib) m \<and> 3 * Suc (length pre) \<le> dequeues as
      \<longrightarrow> m \<in> set (delivered as ib)) \<and>
    (bkeys (ib_streams ib) \<noteq> [] \<and> 4 \<le> dequeues as \<longrightarrow> (\<exists>f. UsStream f \<in> set (delivered as ib))) \<and>
    (bcontains (ib_conversations ib) i \<and> Retire i \<notin> set as \<and> 4 \<le> dequeues as
      \<longrightarrow> (\<exists>j t h. UsConversationDirty j t h \<in> set (delivered as ib)))"
proof -
  have "clean ib" "fences_hold as ib" using assms run_clean[OF clean_new, of before] by (simp_all add: fences_append)
  moreover have "durable_rank ib \<le> 2" by (simp add: durable_rank_def split: unsolicited_lane.split)
  ultimately have "m \<in> set (delivered as ib)" if "durable_queue ib = pre @ m # post" "live_in (inbox_after as ib) m"
    "3 * Suc (length pre) \<le> dequeues as"
  proof -
    have "3 * length pre + durable_rank ib < dequeues as" using that(3) \<open>durable_rank ib \<le> 2\<close> by presburger
    then show ?thesis using durable_arrives[OF \<open>clean ib\<close> \<open>fences_hold as ib\<close> that(1,2)] by blast
  qed
  moreover have "4 \<le> dequeues as \<Longrightarrow> lanes_before l (ib_next_lane ib) < dequeues as" for l
    using lanes_before_le[of l "ib_next_lane ib"] by simp
  ultimately show ?thesis using stream_lane.served[of ib as] conversation_lane.served[of ib i as] by blast
qed

text \<open>The admission check of a conversation wake and its write are not one step: a fence between them leaves
  the wake of a retired subscription in the inbox, and the next dequeue delivers it.\<close>

theorem conversation_fence_race:
  "conversation_admissible i 1 (inbox_new c d) = Inr True \<and>
   (\<exists>ib. retire_subscription_id i (inbox_new c d) = (Inr (), ib) \<and>
      delivered [RecordDirty i t 1, Dequeue 0] ib = [UsConversationDirty i t 1])"
proof -
  let ?ib = "(inbox_new c d) \<lparr> ib_retired := [i] \<rparr>"
  have "retire_subscription_id i (inbox_new c d) = (Inr (), ?ib)"
    by (simp add: retire_subscription_id_def inbox_new_def MAX_RETIRED_SUBSCRIPTION_IDS_def MAX_RETAINED_DURABLE_MESSAGES_def
        drain_channel_eq hs_insert_def bmap_eq_iff)
  moreover have "delivered [RecordDirty i t 1, Dequeue 0] ?ib = [UsConversationDirty i t 1]"
    by (simp add: inbox_step_def record_conversation_def inbox_new_def try_dequeue_def lane_order_def take_lane_def
        chosen_def bkeys_def blen_def)
  moreover have "conversation_admissible i 1 (inbox_new c d) = Inr True"
    by (simp add: conversation_admissible_def inbox_new_def)
  ultimately show ?thesis by blast
qed

section \<open>A concrete connection\<close>

definition sample_resync :: unsolicited_server_message where
  "sample_resync = UsResyncRequired (Id 80) 4 7"

theorem no_lane_starves_witness:
  "sample_resync \<in> set (delivered [Dequeue 0, Dequeue 0, Dequeue 0] (inbox_after [PushDurable sample_resync] (inbox_new 4 2)))"
  using no_lane_starves[of "[PushDurable sample_resync]" "[Dequeue 0, Dequeue 0, Dequeue 0]" 4 2 _ "[]" sample_resync "[]"]
  by (simp add: inbox_step_def push_durable_def inbox_new_def sample_resync_def durable_message_subscription_id_def
      durable_message_is_retired_def durable_queue_def live_in_def try_dequeue_def lane_order_def take_lane_def chosen_def bkeys_def)

theorem fenced_subscription_is_silent_witness:
  "\<exists>ib. retire_subscription_id (Id 80) (inbox_after [PushDurable sample_resync] (inbox_new 4 2)) = (Inr (), ib) \<and>
     sample_resync \<notin> set (delivered [PushDurable sample_resync, Dequeue 0, Dequeue 0] ib)"
proof -
  have sub: "durable_message_subscription_id sample_resync = Some (Id 80)"
    by (simp add: sample_resync_def durable_message_subscription_id_def)
  let ?ib = "snd (retire_subscription_id (Id 80) (inbox_after [PushDurable sample_resync] (inbox_new 4 2)))"
  have "retire_subscription_id (Id 80) (inbox_after [PushDurable sample_resync] (inbox_new 4 2)) = (Inr (), ?ib)"
    by (simp add: inbox_step_def push_durable_def inbox_new_def sample_resync_def durable_message_subscription_id_def
      durable_message_is_retired_def retire_subscription_id_def MAX_RETIRED_SUBSCRIPTION_IDS_def MAX_RETAINED_DURABLE_MESSAGES_def
      UNSOLICITED_QUEUE_CAPACITY_def MAX_RETIRED_DRAIN_WORK_def drain_channel_eq Let_def)
  moreover from fenced_subscription_is_silent[OF this] have "sample_resync \<notin> set (delivered [PushDurable sample_resync, Dequeue 0, Dequeue 0] ?ib)"
    using sub by blast
  ultimately show ?thesis by blast
qed

end
