(* ===== verification/Host_Hello.thy ===== *)
theory Host_Hello
  imports Client_Inbox
begin

text \<open>
  The host's end of the handshake on a local connection (\<open>src/host/ipc.rs\<close>): \<open>finish_handshake\<close>, from the
  client's hello to the connection the host keeps, with the fence that withdraws paged capabilities a
  connection has no room for, and the ledger of single-use reconnect grants.

  What the wire gives is the argument \<open>received\<close>, the result of reading and decoding a \<open>ClientHello\<close>
  within the time limit, and what it does with the answer the argument \<open>sent\<close>, the result of encoding, writing and
  flushing it: the frames, the documents and their codecs are those of \<open>Wire_Frame\<close>, \<open>Wire_MessagePack\<close>
  and \<open>Wire_Hello\<close>.  \<open>Uuid::now_v7()\<close>, the entropy behind a fresh grant and the monotonic clock, in
  milliseconds, are read from \<open>hello_world\<close>; SHA-256 is the argument \<open>sha\<close>.  A \<open>HashMap\<close> is a \<open>bmap\<close>
  whose order is never read.  The ledger's mutex is never poisoned: nothing that holds it panics.
\<close>

unbundle bit_operations_syntax

section \<open>The transport fence\<close>

definition PAGE_RESPONSE_ENVELOPE_HEADROOM_BYTES :: u32 where
  "PAGE_RESPONSE_ENVELOPE_HEADROOM_BYTES = 1024"

definition page_response_fits_transport :: "frame_limits \<Rightarrow> bool" where
  "page_response_fits_transport limits =
     (case checked_add (max_page_encoded_bytes limits) PAGE_RESPONSE_ENVELOPE_HEADROOM_BYTES of
        None \<Rightarrow> False
      | Some required_payload_bytes \<Rightarrow>
          required_payload_bytes \<le> max_physical_frame_bytes limits \<and>
          required_payload_bytes \<le> max_reassembled_message_bytes limits)"

definition fence_capabilities_by_transport :: "negotiated_parameters \<Rightarrow> negotiated_parameters" where
  "fence_capabilities_by_transport negotiated =
     (if \<not> page_response_fits_transport (negotiated_limits negotiated)
      then (let capabilities = negotiated_capabilities negotiated;
                b = bits capabilities;
                b = (if contains_capability capabilities PagedSnapshots
                     then b AND NOT (capability_bit PagedSnapshots) else b);
                b = (if contains_capability capabilities EventReplay
                     then b AND NOT (capability_bit EventReplay) else b);
                b = (if contains_capability capabilities ChunkResume
                     then b AND NOT (capability_bit ChunkResume) else b)
            in negotiated \<lparr> negotiated_capabilities := \<lparr> bits = b \<rparr> \<rparr>)
      else negotiated)"

section \<open>Codecs\<close>

definition negotiated_codecs ::
  "frame_limits \<Rightarrow> ipc_error + physical_frame_codec \<times> message_pack_codec" where
  "negotiated_codecs limits =
     rbind (map_err (\<lambda>e. IpcClientHello (ClientHelloFrameLimits e)) (codec_from_limits limits)) (\<lambda>physical.
     rbind (map_err (\<lambda>e. IpcClientHello (ClientHelloFrameLimits e)) (message_pack_from_limits limits)) (\<lambda>message.
     Inr (physical, message)))"

definition handshake_codecs :: "ipc_error + physical_frame_codec \<times> message_pack_codec" where
  "handshake_codecs =
     rbind (map_err (\<lambda>e. IpcClientHello (ClientHelloFrameLimits e)) (codec_from_limits v1_default)) (\<lambda>physical.
     rbind (map_err (\<lambda>e. IpcClientHello (ClientHelloFrameLimits e)) (message_pack_from_limits v1_default)) (\<lambda>message.
     Inr (physical, message)))"

section \<open>Reconnect grants\<close>

definition RECONNECT_GRANT_TTL :: nat where "RECONNECT_GRANT_TTL = 5 * 60 * 1000"
definition MAX_RECONNECT_GRANTS :: nat where "MAX_RECONNECT_GRANTS = 256"

record reconnect_grant_record =
  gr_host_boot_id :: "128 word"
  gr_client_id :: client_id
  gr_connection_id :: "128 word"
  gr_issued_at :: nat

type_synonym reconnect_grant_ledger = "(u8 list, reconnect_grant_record) bmap"

text \<open>\<open>Instant::duration_since\<close> is zero for an instant that is not earlier.\<close>

definition ledger_reap :: "nat \<Rightarrow> reconnect_grant_ledger \<Rightarrow> reconnect_grant_ledger" where
  "ledger_reap now ledger = bretain (\<lambda>_ entry. now - gr_issued_at entry < RECONNECT_GRANT_TTL) ledger"

definition consume_grant ::
  "(u8 list \<Rightarrow> u8 list) \<Rightarrow> 128 word \<Rightarrow> client_id \<Rightarrow> u8 list option \<Rightarrow> reconnect_grant_ledger
     \<Rightarrow> (ipc_error + 128 word option) \<times> reconnect_grant_ledger" where
  "consume_grant sha host_boot client presented ledger =
     (case presented of
        None \<Rightarrow> (Inr None, ledger)
      | Some grant \<Rightarrow>
          (case bget ledger (sha grant) of
             None \<Rightarrow> (Inl IpcUnauthorized, ledger)
           | Some r \<Rightarrow>
               if gr_host_boot_id r \<noteq> host_boot \<or> gr_client_id r \<noteq> client then (Inl IpcUnauthorized, ledger)
               else (Inr (Some (gr_connection_id r)), bremove (sha grant) ledger)))"

definition ledger_admit ::
  "(u8 list \<Rightarrow> u8 list) \<Rightarrow> unit + u8 list \<Rightarrow> 128 word \<Rightarrow> client_id \<Rightarrow> u8 list option \<Rightarrow> 128 word \<Rightarrow> nat
     \<Rightarrow> reconnect_grant_ledger \<Rightarrow> (ipc_error + u8 list \<times> 128 word option) \<times> reconnect_grant_ledger" where
  "ledger_admit sha entropy host_boot client presented new_connection now ledger =
     (case consume_grant sha host_boot client presented (ledger_reap now ledger) of
        (Inl e, ledger) \<Rightarrow> (Inl e, ledger)
      | (Inr reconnect_from, ledger) \<Rightarrow>
          if blen ledger \<ge> MAX_RECONNECT_GRANTS then (Inl IpcBusy, ledger)
          else (case entropy of
                  Inl _ \<Rightarrow> (Inl (IpcSecurity (lit ''reconnect grant entropy unavailable'')), ledger)
                | Inr grant \<Rightarrow>
                    (Inr (grant, reconnect_from),
                     binsert (sha grant) \<lparr> gr_host_boot_id = host_boot, gr_client_id = client,
                       gr_connection_id = new_connection, gr_issued_at = now \<rparr> ledger)))"

section \<open>The handshake\<close>

record accept_hello_config =
  ah_host_boot_id :: "128 word"
  ah_server_build :: rstr
  ah_supported :: capability_set
  ah_local_limits :: frame_limits

record hello_world =
  hw_now_v7 :: "128 word"
  hw_entropy :: "unit + u8 list"
  hw_now :: nat

record host_connection =
  hx_client_id :: client_id
  hx_negotiated :: negotiated_parameters
  hx_server_hello :: server_hello
  hx_reconnect_from :: "128 word option"
  hx_physical :: physical_frame_codec
  hx_message :: message_pack_codec
  hx_poisoned :: bool

text \<open>The answer to a hello, up to the ledger: lines 739 to 754 of \<open>ipc.rs\<close>.\<close>

definition hello_answer ::
  "uuid_lib \<Rightarrow> 128 word \<Rightarrow> u8 list \<Rightarrow> accept_hello_config \<Rightarrow> client_hello
     \<Rightarrow> ipc_error + negotiated_parameters \<times> server_hello" where
  "hello_answer ulib now_v7 expected_fingerprint config hello =
     (if ch_profile_fingerprint hello \<noteq> expected_fingerprint then Inl IpcProfileMismatch
      else rbind (map_err IpcClientHello
               (client_hello_negotiate hello (ah_supported config) (ah_local_limits config))) (\<lambda>n.
           let negotiated = fence_capabilities_by_transport n
           in rbind (map_err IpcServerHello (server_hello_from_negotiated ulib now_v7
                (ah_server_build config) (ah_host_boot_id config) expected_fingerprint negotiated))
                (\<lambda>server_hello. Inr (negotiated, server_hello))))"

definition finish_handshake ::
  "(u8 list \<Rightarrow> u8 list) \<Rightarrow> uuid_lib \<Rightarrow> hello_world \<Rightarrow> ipc_error + client_hello \<Rightarrow> (server_hello \<Rightarrow> ipc_error + unit)
     \<Rightarrow> u8 list \<Rightarrow> accept_hello_config \<Rightarrow> reconnect_grant_ledger
     \<Rightarrow> (ipc_error + host_connection) \<times> reconnect_grant_ledger" where
  "finish_handshake sha ulib world received sent expected_fingerprint config ledger =
     (case rbind handshake_codecs (\<lambda>_. rbind received (\<lambda>hello.
             map_ok (\<lambda>answer. (hello, answer))
               (hello_answer ulib (hw_now_v7 world) expected_fingerprint config hello))) of
        Inl e \<Rightarrow> (Inl e, ledger)
      | Inr (hello, negotiated, server_hello) \<Rightarrow>
          (case ledger_admit sha (hw_entropy world) (ah_host_boot_id config) (ch_client_id hello)
                  (ch_reconnect_grant hello) (sh_connection_id server_hello) (hw_now world) ledger of
             (Inl e, ledger) \<Rightarrow> (Inl e, ledger)
           | (Inr (reconnect_grant, reconnect_from), ledger) \<Rightarrow>
               (let server_hello = server_hello \<lparr> sh_reconnect_grant := Some reconnect_grant \<rparr>
                in (rbind (sent server_hello) (\<lambda>_.
                    map_ok (\<lambda>(physical, message).
                      \<lparr> hx_client_id = negotiated_client_id negotiated, hx_negotiated = negotiated,
                        hx_server_hello = server_hello, hx_reconnect_from = reconnect_from,
                        hx_physical = physical, hx_message = message, hx_poisoned = False \<rparr>)
                      (negotiated_codecs (negotiated_limits negotiated))), ledger))))"

section \<open>What the fence leaves\<close>

lemma unat_less_2p32: "unat (x :: u32) < 2 ^ 32"
  using unsigned_less[of x, where ?'a = nat] by simp

lemma page_response_fits_iff:
  "page_response_fits_transport l \<longleftrightarrow>
     unat (max_page_encoded_bytes l) + 1024 \<le> unat (max_physical_frame_bytes l) \<and>
     unat (max_page_encoded_bytes l) + 1024 \<le> unat (max_reassembled_message_bytes l)"
proof (cases "checked_add (max_page_encoded_bytes l) PAGE_RESPONSE_ENVELOPE_HEADROOM_BYTES")
  case None
  then have "2 ^ 32 \<le> unat (max_page_encoded_bytes l) + 1024"
    by (simp add: checked_add_def PAGE_RESPONSE_ENVELOPE_HEADROOM_BYTES_def split: if_splits)
  then show ?thesis using None unat_less_2p32[of "max_physical_frame_bytes l"]
    by (simp add: page_response_fits_transport_def)
next
  case (Some r)
  then have "unat r = unat (max_page_encoded_bytes l) + 1024"
    using checked_add_SomeD[OF Some] by (simp add: PAGE_RESPONSE_ENVELOPE_HEADROOM_BYTES_def)
  then show ?thesis using Some by (simp add: page_response_fits_transport_def word_le_nat_alt)
qed

lemma contains_without:
  "contains_capability \<lparr> bits = b AND NOT (capability_bit d) \<rparr> c \<longleftrightarrow> contains_capability \<lparr> bits = b \<rparr> c \<and> c \<noteq> d"
  by (auto simp: contains_capability_iff capability_bit_def bit_simps capability_index_inject)

text \<open>The three capabilities that answer with a page.\<close>

definition page_capabilities :: "capability list" where
  "page_capabilities = [PagedSnapshots, EventReplay, ChunkResume]"

lemma fence_fields [simp]:
  "negotiated_version (fence_capabilities_by_transport n) = negotiated_version n"
  "negotiated_client_id (fence_capabilities_by_transport n) = negotiated_client_id n"
  "negotiated_limits (fence_capabilities_by_transport n) = negotiated_limits n"
  by (simp_all add: fence_capabilities_by_transport_def Let_def)

lemma fence_grants:
  "contains_capability (negotiated_capabilities (fence_capabilities_by_transport n)) c \<longleftrightarrow>
     contains_capability (negotiated_capabilities n) c \<and>
     (c \<in> set page_capabilities \<longrightarrow> page_response_fits_transport (negotiated_limits n))"
  by (auto simp: fence_capabilities_by_transport_def Let_def page_capabilities_def contains_without)

lemma fence_withdraws_only:
  "bits (negotiated_capabilities (fence_capabilities_by_transport n)) AND NOT (bits (negotiated_capabilities n)) = 0"
  by (auto simp: fence_capabilities_by_transport_def Let_def bit_eq_iff bit_simps)

section \<open>What the ledger keeps\<close>

lemma consume_bounded: "consume_grant sha boot client presented m = (r, n) \<Longrightarrow> blen n \<le> blen m"
  by (auto simp: consume_grant_def split: option.splits if_splits)

lemma admit_bounded:
  assumes "ledger_admit sha entropy boot client presented new_connection now m = (r, n)" "blen m \<le> MAX_RECONNECT_GRANTS"
  shows "blen n \<le> MAX_RECONNECT_GRANTS"
proof -
  obtain r1 k where k: "consume_grant sha boot client presented (ledger_reap now m) = (r1, k)"
    by (cases "consume_grant sha boot client presented (ledger_reap now m)")
  have "blen k \<le> MAX_RECONNECT_GRANTS"
    using consume_bounded[OF k] blen_bretain_le[of _ m] assms(2) by (metis le_trans ledger_reap_def)
  then show ?thesis using assms(1) k
    by (auto simp: ledger_admit_def split: sum.splits if_splits)
qed

text \<open>A grant that was accepted is spent: presented again, at any time and with whatever successor was
  issued under another digest, it is refused.\<close>

lemma reconnect_grant_single_use:
  assumes "ledger_admit sha entropy boot client (Some grant) connection now m = (Inr (next_grant, prior), n)"
    and "sha next_grant \<noteq> sha grant"
  shows "fst (ledger_admit sha entropy' boot' client' (Some grant) connection' now' n) = Inl IpcUnauthorized"
proof -
  have "bget n (sha grant) = None"
    using assms by (auto simp: ledger_admit_def consume_grant_def split: option.splits if_splits sum.splits)
  then have "bget (ledger_reap now' n) (sha grant) = None" by (simp add: ledger_reap_def bget_bretain)
  then show ?thesis by (simp add: ledger_admit_def consume_grant_def)
qed

section \<open>Properties\<close>

lemma hello_answer_ok:
  assumes "hello_answer ulib now_v7 expected config hello = Inr (negotiated, answer)"
  shows "\<exists>n. ch_profile_fingerprint hello = expected
    \<and> client_hello_negotiate hello (ah_supported config) (ah_local_limits config) = Inr n
    \<and> negotiated = fence_capabilities_by_transport n
    \<and> server_hello_from_negotiated ulib now_v7 (ah_server_build config) (ah_host_boot_id config) expected negotiated = Inr answer"
  using assms by (auto simp: hello_answer_def rbind_Inr_iff map_err_Inr_iff Let_def split: if_splits)

lemma admit_issues:
  assumes "ledger_admit sha entropy boot client presented connection now m = (Inr (grant, prior), n)"
  shows "entropy = Inr grant"
  using assms by (auto simp: ledger_admit_def split: prod.splits sum.splits if_splits)

lemma handshake_answered:
  assumes "finish_handshake sha ulib world (Inr hello) sent expected config ledger = (Inr hx, ledger')"
  obtains n answer grant where "ch_profile_fingerprint hello = expected"
    and "client_hello_negotiate hello (ah_supported config) (ah_local_limits config) = Inr n"
    and "server_hello_from_negotiated ulib (hw_now_v7 world) (ah_server_build config) (ah_host_boot_id config)
           expected (fence_capabilities_by_transport n) = Inr answer"
    and "hx_server_hello hx = answer \<lparr> sh_reconnect_grant := Some grant \<rparr>" "hw_entropy world = Inr grant"
    and "hx_negotiated hx = fence_capabilities_by_transport n" "hx_client_id hx = ch_client_id hello"
    and "negotiated_codecs (negotiated_limits n) = Inr (hx_physical hx, hx_message hx)"
proof -
  let ?asked = "rbind handshake_codecs (\<lambda>_. rbind (Inr hello) (\<lambda>hello.
    map_ok (\<lambda>answer. (hello, answer)) (hello_answer ulib (hw_now_v7 world) expected config hello)))"
  obtain h negotiated answer where asked': "?asked = Inr (h, negotiated, answer)"
    using assms by (cases ?asked) (auto simp: finish_handshake_def)
  then have ans: "h = hello" "hello_answer ulib (hw_now_v7 world) expected config hello = Inr (negotiated, answer)"
    by (auto simp: rbind_Inr_iff map_ok_Inr_iff)
  note asked = asked'[unfolded ans(1)]
  from hello_answer_ok[OF ans(2)] obtain n where n: "ch_profile_fingerprint hello = expected"
      "client_hello_negotiate hello (ah_supported config) (ah_local_limits config) = Inr n"
      "negotiated = fence_capabilities_by_transport n"
      "server_hello_from_negotiated ulib (hw_now_v7 world) (ah_server_build config) (ah_host_boot_id config)
           expected negotiated = Inr answer" by blast
  obtain grant prior k where adm: "ledger_admit sha (hw_entropy world) (ah_host_boot_id config) (ch_client_id hello)
      (ch_reconnect_grant hello) (sh_connection_id answer) (hw_now world) ledger = (Inr (grant, prior), k)"
    using assms unfolding finish_handshake_def asked sum.case prod.case
    by (cases "ledger_admit sha (hw_entropy world) (ah_host_boot_id config) (ch_client_id hello)
      (ch_reconnect_grant hello) (sh_connection_id answer) (hw_now world) ledger") (auto split: sum.splits)
  have hx: "rbind (sent (answer \<lparr> sh_reconnect_grant := Some grant \<rparr>)) (\<lambda>_. map_ok (\<lambda>(physical, message).
      \<lparr> hx_client_id = negotiated_client_id negotiated, hx_negotiated = negotiated,
        hx_server_hello = answer \<lparr> sh_reconnect_grant := Some grant \<rparr>, hx_reconnect_from = prior,
        hx_physical = physical, hx_message = message, hx_poisoned = False \<rparr>) (negotiated_codecs (negotiated_limits negotiated))) = Inr hx"
    using assms unfolding finish_handshake_def asked sum.case prod.case adm Let_def by simp
  have "hx_server_hello hx = answer \<lparr> sh_reconnect_grant := Some grant \<rparr>" "hx_negotiated hx = negotiated"
      "hx_client_id hx = negotiated_client_id negotiated"
      "negotiated_codecs (negotiated_limits negotiated) = Inr (hx_physical hx, hx_message hx)"
    using hx by (auto simp: rbind_Inr_iff map_ok_Inr_iff)
  then show thesis using that[OF n(1,2)] n(3,4) admit_issues[OF adm] negotiated_fields(3)[OF n(2)] by simp
qed

lemma negotiated_codecs_ok:
  assumes "frame_limits_negotiate l m = Inr n"
  shows "negotiated_codecs n =
    Inr (\<lparr> max_payload_bytes = max_physical_frame_bytes n \<rparr>, \<lparr> max_document_bytes = max_physical_frame_bytes n \<rparr>)"
  using frame_limits_negotiate_meet(1)[OF assms] frame_limits_negotiate_meet(2)[OF assms, of n]
  by (simp add: negotiated_codecs_def codec_from_limits_def message_pack_from_limits_def limits_within_def
      v1_default_def min_absorb1)

text \<open>C38. The handshake agrees on what both sides offered.  When the host finishes the handshake with a
  client, its answer is for the profile the client named, the major version is the client's and the
  host's, the minor version the smaller one; a capability is granted if and only if the client asked for it,
  the host supports it and, for paged snapshots, event replay and chunk resume, a page of the agreed size
  with 1024 bytes of envelope fits both a frame and a message; the limits are the greatest that respect
  both offers and the hard maxima; the host reads and writes with codecs of just those limits; and the
  answer, which carries the fresh reconnect grant, is valid, so it can be sent.
\<close>

theorem handshake_agreement:
  assumes "finish_handshake sha ulib world (Inr hello) sent expected config ledger = (Inr hx, ledger')"
  shows "let sh = hx_server_hello hx; l = sh_limits sh in
    sh_profile_fingerprint sh = expected \<and> ch_profile_fingerprint hello = expected \<and>
    sh_protocol_major sh = PROTOCOL_MAJOR \<and> ch_protocol_major hello = PROTOCOL_MAJOR \<and>
    sh_protocol_minor sh = min PROTOCOL_MINOR (ch_protocol_minor hello) \<and>
    (contains_capability (sh_granted sh) c \<longleftrightarrow>
       contains_capability (ah_supported config) c \<and> contains_capability (ch_requested hello) c \<and>
       (c = PagedSnapshots \<or> c = EventReplay \<or> c = ChunkResume \<longrightarrow>
          unat (max_page_encoded_bytes l) + 1024
            \<le> min (unat (max_physical_frame_bytes l)) (unat (max_reassembled_message_bytes l)))) \<and>
    (limits_within k l \<longleftrightarrow>
       limits_within k (ah_local_limits config) \<and> limits_within k (ch_limits hello) \<and> limits_within k v1_default) \<and>
    hx_physical hx = \<lparr> max_payload_bytes = max_physical_frame_bytes l \<rparr> \<and>
    hx_message hx = \<lparr> max_document_bytes = max_physical_frame_bytes l \<rparr> \<and>
    hw_entropy world = Inr (the (sh_reconnect_grant sh)) \<and> sh_reconnect_grant sh \<noteq> None \<and>
    server_hello_validate ulib sh = Inr ()"
proof -
  obtain n answer grant where
    a: "ch_profile_fingerprint hello = expected"
      "client_hello_negotiate hello (ah_supported config) (ah_local_limits config) = Inr n"
      "server_hello_from_negotiated ulib (hw_now_v7 world) (ah_server_build config) (ah_host_boot_id config)
           expected (fence_capabilities_by_transport n) = Inr answer"
      "hx_server_hello hx = answer \<lparr> sh_reconnect_grant := Some grant \<rparr>" "hw_entropy world = Inr grant"
      "negotiated_codecs (negotiated_limits n) = Inr (hx_physical hx, hx_message hx)"
    by (rule handshake_answered[OF assms])
  note n = negotiated_fields[OF a(2)] and sh = answer_fields[OF a(3)]
  have codecs: "hx_physical hx = \<lparr> max_payload_bytes = max_physical_frame_bytes (negotiated_limits n) \<rparr>"
      "hx_message hx = \<lparr> max_document_bytes = max_physical_frame_bytes (negotiated_limits n) \<rparr>"
    using a(6) negotiated_codecs_ok[OF n(5)] by simp_all
  have valid: "server_hello_validate ulib (hx_server_hello hx) = Inr ()"
    using sh(8) by (simp add: a(4) server_hello_validate_def)
  have meet: "limits_within k (negotiated_limits n) \<longleftrightarrow>
      limits_within k (ah_local_limits config) \<and> limits_within k (ch_limits hello) \<and> limits_within k v1_default"
    by (rule frame_limits_negotiate_meet(2)[OF n(5)])
  have granted: "contains_capability (sh_granted answer) c \<longleftrightarrow>
      contains_capability (ah_supported config) c \<and> contains_capability (ch_requested hello) c \<and>
      (c = PagedSnapshots \<or> c = EventReplay \<or> c = ChunkResume \<longrightarrow>
          unat (max_page_encoded_bytes (negotiated_limits n)) + 1024
            \<le> min (unat (max_physical_frame_bytes (negotiated_limits n)))
                 (unat (max_reassembled_message_bytes (negotiated_limits n))))"
    by (auto simp: sh(3) fence_grants n(4) contains_capability_intersection page_response_fits_iff page_capabilities_def)
  show ?thesis using codecs valid meet granted a(1,5) n sh by (simp add: a(4) Let_def)
qed

section \<open>A sample handshake\<close>

definition sample_config :: accept_hello_config where
  "sample_config = \<lparr> ah_host_boot_id = uuid (nil_id :: client_id), ah_server_build = lit ''dm'',
     ah_supported = \<lparr> bits = 14 \<rparr>, ah_local_limits = v1_default \<rparr>"

definition sample_world :: hello_world where
  "sample_world = \<lparr> hw_now_v7 = uuid (nil_id :: client_id), hw_entropy = Inr [9], hw_now = 0 \<rparr>"

definition sample_host_connection :: host_connection where
  "sample_host_connection = \<lparr> hx_client_id = nil_id, hx_negotiated = sample_parameters,
     hx_server_hello = sample_server_hello \<lparr> sh_reconnect_grant := Some [9] \<rparr>, hx_reconnect_from = None,
     hx_physical = \<lparr> max_payload_bytes = 4096 \<rparr>, hx_message = \<lparr> max_document_bytes = 4096 \<rparr>, hx_poisoned = False \<rparr>"

text \<open>The client asks for event replay and operation settlement; in frames of 4096 bytes a page does not
  fit, so only settlement is granted.\<close>

lemma sample_fence:
  "fence_capabilities_by_transport (sample_parameters \<lparr> negotiated_capabilities := \<lparr> bits = 6 \<rparr> \<rparr>) = sample_parameters"
  by (simp add: fence_capabilities_by_transport_def page_response_fits_transport_def sample_parameters_def
      checked_add_def PAGE_RESPONSE_ENVELOPE_HEADROOM_BYTES_def contains_capability_def contains_bit_def
      capability_bit_def Let_def)

lemma sample_negotiation_both:
  "client_hello_negotiate sample_client_hello \<lparr> bits = 14 \<rparr> v1_default
     = Inr (sample_parameters \<lparr> negotiated_capabilities := \<lparr> bits = 6 \<rparr> \<rparr>)"
  using sample_client_hello_valid(1)
  by (simp add: client_hello_negotiate_def sample_parameters_def version_negotiate_def
      version_current_def PROTOCOL_MAJOR_def PROTOCOL_MINOR_def frame_limits_negotiate_def
      validate_offer_def v1_default_def hard_limits capability_intersection_def
      sample_client_hello_def min_def)

lemma sample_handshake:
  "fst (finish_handshake (\<lambda>b. b) sample_uuid_lib sample_world (Inr sample_client_hello) (\<lambda>_. Inr ()) (replicate 32 7)
     sample_config bempty) = Inr sample_host_connection"
proof -
  have answer: "hello_answer sample_uuid_lib (hw_now_v7 sample_world) (replicate 32 7) sample_config sample_client_hello
      = Inr (sample_parameters, sample_server_hello)"
    using sample_negotiation_both sample_answer
    by (simp add: hello_answer_def sample_config_def sample_world_def sample_fence sample_client_hello_def Let_def)
  have codecs: "handshake_codecs = Inr (\<lparr> max_payload_bytes = MAX_PHYSICAL_FRAME_BYTES \<rparr>,
      \<lparr> max_document_bytes = MAX_PHYSICAL_FRAME_BYTES \<rparr>)"
    "negotiated_codecs (negotiated_limits sample_parameters) = Inr (\<lparr> max_payload_bytes = 4096 \<rparr>, \<lparr> max_document_bytes = 4096 \<rparr>)"
    by (simp_all add: handshake_codecs_def negotiated_codecs_def codec_from_limits_def message_pack_from_limits_def
        v1_default_def validate_offer_def hard_limits sample_parameters_def min_def)
  have "ledger_admit (\<lambda>b. b) (Inr [9]) boot client None connection now bempty = (Inr ([9], None),
      binsert [9] \<lparr> gr_host_boot_id = boot, gr_client_id = client, gr_connection_id = connection, gr_issued_at = now \<rparr>
        (ledger_reap now bempty))" for boot client connection now
    using blen_bretain_le[of _ "bempty :: reconnect_grant_ledger"]
    by (simp add: ledger_admit_def consume_grant_def ledger_reap_def MAX_RECONNECT_GRANTS_def)
  moreover have "hw_entropy sample_world = Inr [9]" "ch_reconnect_grant sample_client_hello = None"
      "negotiated_client_id sample_parameters = nil_id"
    by (simp_all add: sample_world_def sample_client_hello_def sample_parameters_def)
  ultimately show ?thesis
    by (simp add: finish_handshake_def answer codecs Let_def sample_host_connection_def)
qed

theorem handshake_agreement_witness:
  "\<not> contains_capability (sh_granted (hx_server_hello sample_host_connection)) EventReplay \<and>
   contains_capability (sh_granted (hx_server_hello sample_host_connection)) OperationSettlement \<and>
   sh_protocol_minor (hx_server_hello sample_host_connection) = 0"
proof -
  obtain ledger where shaken: "finish_handshake (\<lambda>b. b) sample_uuid_lib sample_world (Inr sample_client_hello)
      (\<lambda>_. Inr ()) (replicate 32 7) sample_config bempty = (Inr sample_host_connection, ledger)"
    using sample_handshake by (metis prod.collapse)
  have "contains_capability \<lparr> bits = 14 \<rparr> OperationSettlement" "contains_capability \<lparr> bits = 6 \<rparr> OperationSettlement"
    by (simp_all add: contains_capability_def contains_bit_def capability_bit_def)
  then show ?thesis
    using handshake_agreement[OF shaken, of EventReplay] handshake_agreement[OF shaken, of OperationSettlement]
    by (simp add: Let_def PROTOCOL_MINOR_def sample_host_connection_def sample_server_hello_def sample_parameters_def
        sample_config_def sample_client_hello_def)
qed

end
