(* ===== verification/Client_Waiters.thy ===== *)
theory Client_Waiters
  imports Client_Inbox Command
begin

text \<open>
  Replies and the calls that wait for them (\<open>src/client/connection.rs\<close>, with the reply documents of
  \<open>src/protocol/request.rs\<close>, \<open>src/domain/query.rs\<close> and \<open>src/domain/command.rs\<close>): five tables of pending
  replies, one per kind of request, under one lock.

  The sender half of a call's \<open>oneshot\<close> is its registration id, which the connection never gives twice;
  sending on it is an entry of the answers.  A task that waits for the deadline is the flag
  \<open>pr_deadline\<close>, and its wake-up an action of its own.  Documents that only pass through (the prompt
  library, the cockpit, the quit inspection, the mutation receipt of a prompt, the winner of a
  resolution) are their wire bytes.
\<close>

section \<open>Replies\<close>

datatype request_tag = RequestTag
type_synonym request_id = "request_tag id"

datatype input_tag = InputTag
type_synonym input_id = "input_tag id"

datatype command_receipt =
    ReceiptAccepted command_id operation_id "u64 option" "event_id list" "u8 list option"
  | ReceiptRejected command_id rejection_code "u64 option" "u8 list option"

definition receipt_command_id :: "command_receipt \<Rightarrow> command_id" where
  "receipt_command_id r = (case r of ReceiptAccepted c _ _ _ _ \<Rightarrow> c | ReceiptRejected c _ _ _ \<Rightarrow> c)"

record update_handoff_token =
  ht_token_id :: "128 word"
  ht_host_boot_id :: "128 word"
  ht_inspection_id :: u64
  ht_target_version :: rstr
  ht_client_build :: rstr
  ht_host_build :: rstr
  ht_issued_at :: int
  ht_expires_at :: int

record update_handoff_reply =
  hr_command_id :: command_id
  hr_token :: update_handoff_token

datatype input_reject_reason =
    StaleTask | StaleAgent | StaleResource | StaleRuntimeGeneration | StaleSession | StaleInputGeneration
  | StaleFocus | StaleAction | StaleInputSequence | ReadOnly | InputClosed | InputEmpty | InputBoundExceeded
  | RuntimeForwardFailed

datatype input_ack = InputAccepted u64 | InputDuplicate u64 | InputRejected input_reject_reason

record terminal_input_ack =
  ta_input_id :: input_id
  ta_ack :: input_ack

record detach_ack =
  da_request_id :: request_id
  da_connection_id :: "128 word"

datatype query_error =
    QueryNotFound | QueryUnauthorized | QueryInvalidRequest | QueryConflict | QueryUnsupportedCapability
  | QueryReplayUnavailable u64 u64 | QueryUnavailable rstr

record artifact_content_page =
  ac_artifact_id :: artifact_id
  ac_offset :: u64
  ac_total_bytes :: u64
  ac_sha256 :: "u8 list"
  ac_payload :: "u8 list"
  ac_encoded_bytes :: u32
  ac_next_cursor :: "u8 list option"

datatype query_result =
    QrOperationStatus operation_id operation_state
  | QrCommandReceiptStatus "command_receipt option"
  | QrTaskSnapshot task_snapshot_item
  | QrSnapshotPage snapshot_page
  | QrSnapshotReleased snapshot_id
  | QrEventReplayPage subscription_id event_page
  | QrEventReplayReleased subscription_id
  | QrArtifactContentPage subscription_id artifact_content_page
  | QrArtifactContentReleased subscription_id
  | QrHostQuitInspection "u8 list"
  | QrPromptLibrary "u8 list"
  | QrTaskCockpit "u8 list"

type_synonym query_outcome = "query_error + query_result"

record query_reply =
  qy_request_id :: request_id
  qy_outcome :: query_outcome

datatype server_message =
    SmCommandReceipt command_receipt | SmTerminalInputAck terminal_input_ack | SmUpdateHandoff update_handoff_reply
  | SmQueryReply query_reply | SmDurableEvent subscription_id domain_event
  | SmResyncRequired subscription_id u64 u64 | SmStream stream_frame
  | SmConversationDirty subscription_id task_id u64 | SmDetached detach_ack

section \<open>Pending replies\<close>

datatype pending_key =
    PkCommand command_id | PkUpdateHandoff command_id | PkTerminalInput input_id | PkQuery request_id
  | PkDetach request_id

datatype reply =
    RepCommand command_receipt | RepUpdateHandoff update_handoff_reply | RepTerminalInput input_ack
  | RepQuery query_reply | RepDetach detach_ack

record pending_reply =
  pr_registration_id :: u64
  pr_deadline :: bool

record shared_state =
  next_registration_id :: u64
  command_waiters :: "(command_id, pending_reply) bmap"
  update_handoff_waiters :: "(command_id, pending_reply) bmap"
  terminal_input_waiters :: "(input_id, pending_reply) bmap"
  query_waiters :: "(request_id, pending_reply) bmap"
  detach_waiters :: "(request_id, pending_reply) bmap"
  st_poisoned :: bool
  st_closed :: bool

definition shared_state_default :: shared_state where
  "shared_state_default =
     \<lparr> next_registration_id = 0, command_waiters = bempty, update_handoff_waiters = bempty,
       terminal_input_waiters = bempty, query_waiters = bempty, detach_waiters = bempty, st_poisoned = False,
       st_closed = False \<rparr>"

definition connection_is_live :: "shared_state \<Rightarrow> bool" where
  "connection_is_live st \<longleftrightarrow> \<not> st_closed st \<and> \<not> st_poisoned st"

text \<open>The entry of a key in the table of its kind, written and removed there.\<close>

definition waiter :: "pending_key \<Rightarrow> shared_state \<Rightarrow> pending_reply option" where
  "waiter key st =
     (case key of
        PkCommand i \<Rightarrow> bget (command_waiters st) i
      | PkUpdateHandoff i \<Rightarrow> bget (update_handoff_waiters st) i
      | PkTerminalInput i \<Rightarrow> bget (terminal_input_waiters st) i
      | PkQuery i \<Rightarrow> bget (query_waiters st) i
      | PkDetach i \<Rightarrow> bget (detach_waiters st) i)"

definition put_waiter :: "pending_key \<Rightarrow> pending_reply \<Rightarrow> shared_state \<Rightarrow> shared_state" where
  "put_waiter key p st =
     (case key of
        PkCommand i \<Rightarrow> st \<lparr> command_waiters := binsert i p (command_waiters st) \<rparr>
      | PkUpdateHandoff i \<Rightarrow> st \<lparr> update_handoff_waiters := binsert i p (update_handoff_waiters st) \<rparr>
      | PkTerminalInput i \<Rightarrow> st \<lparr> terminal_input_waiters := binsert i p (terminal_input_waiters st) \<rparr>
      | PkQuery i \<Rightarrow> st \<lparr> query_waiters := binsert i p (query_waiters st) \<rparr>
      | PkDetach i \<Rightarrow> st \<lparr> detach_waiters := binsert i p (detach_waiters st) \<rparr>)"

definition remove_waiter :: "pending_key \<Rightarrow> shared_state \<Rightarrow> shared_state" where
  "remove_waiter key st =
     (case key of
        PkCommand i \<Rightarrow> st \<lparr> command_waiters := bremove i (command_waiters st) \<rparr>
      | PkUpdateHandoff i \<Rightarrow> st \<lparr> update_handoff_waiters := bremove i (update_handoff_waiters st) \<rparr>
      | PkTerminalInput i \<Rightarrow> st \<lparr> terminal_input_waiters := bremove i (terminal_input_waiters st) \<rparr>
      | PkQuery i \<Rightarrow> st \<lparr> query_waiters := bremove i (query_waiters st) \<rparr>
      | PkDetach i \<Rightarrow> st \<lparr> detach_waiters := bremove i (detach_waiters st) \<rparr>)"

definition register_waiter :: "pending_key \<Rightarrow> shared_state \<Rightarrow> (ipc_error + u64) \<times> shared_state" where
  "register_waiter key st =
     (if st_poisoned st \<or> st_closed st
      then (Inl (if st_poisoned st then IpcConnectionPoisoned else IpcUnavailable), st)
      else
        (case checked_add (next_registration_id st) 1 of
           None \<Rightarrow> (Inl IpcBusy, st)
         | Some following \<Rightarrow>
             let registration_id = next_registration_id st;
                 st = st \<lparr> next_registration_id := following \<rparr>
             in if is_some (waiter key st) then (Inl IpcDuplicateInFlight, st)
                else (Inr registration_id,
                      put_waiter key \<lparr> pr_registration_id = registration_id, pr_deadline = False \<rparr> st)))"

definition exact_waiter :: "pending_key \<Rightarrow> u64 \<Rightarrow> shared_state \<Rightarrow> pending_reply option" where
  "exact_waiter key registration_id st =
     (case waiter key st of
        None \<Rightarrow> None
      | Some p \<Rightarrow> if pr_registration_id p = registration_id then Some p else None)"

definition arm_response_deadline :: "pending_key \<Rightarrow> u64 \<Rightarrow> shared_state \<Rightarrow> shared_state" where
  "arm_response_deadline key registration_id st =
     (case exact_waiter key registration_id st of
        None \<Rightarrow> st
      | Some p \<Rightarrow> put_waiter key (p \<lparr> pr_deadline := True \<rparr>) st)"

definition remove_pending_exact :: "pending_key \<Rightarrow> u64 \<Rightarrow> shared_state \<Rightarrow> pending_reply option \<times> shared_state" where
  "remove_pending_exact key registration_id st =
     (case exact_waiter key registration_id st of
        None \<Rightarrow> (None, st)
      | Some p \<Rightarrow> (Some p, remove_waiter key st))"

text \<open>What was sent on the \<open>oneshot\<close> of a registration.\<close>

type_synonym answer = "u64 \<times> (ipc_error + reply)"

definition unanswered :: "('k::linorder, pending_reply) bmap \<Rightarrow> answer list" where
  "unanswered m = map (\<lambda>p. (pr_registration_id p, Inl IpcUnavailable)) (bvalues m)"

definition poison_mutex :: "shared_state \<Rightarrow> answer list \<times> shared_state" where
  "poison_mutex st =
     (if st_closed st \<and> st_poisoned st then ([], st)
      else (unanswered (command_waiters st) @ unanswered (update_handoff_waiters st)
              @ unanswered (terminal_input_waiters st) @ unanswered (query_waiters st) @ unanswered (detach_waiters st),
            st \<lparr> st_poisoned := True, st_closed := True, command_waiters := bempty, update_handoff_waiters := bempty,
                 terminal_input_waiters := bempty, query_waiters := bempty, detach_waiters := bempty \<rparr>))"

text \<open>A reply takes its waiter out of the table and is sent to it; one that nobody waits for is an error.\<close>

definition settle_waiter ::
  "pending_key \<Rightarrow> (ipc_error + reply) \<Rightarrow> shared_state \<Rightarrow> (ipc_error + unit) \<times> answer list \<times> shared_state" where
  "settle_waiter key result st =
     (case waiter key st of
        Some p \<Rightarrow> (Inr (), [(pr_registration_id p, result)], remove_waiter key st)
      | None \<Rightarrow> (Inl IpcCorrelationMismatch, [], st))"

definition complete_query_waiter_error ::
  "request_id \<Rightarrow> ipc_error \<Rightarrow> shared_state \<Rightarrow> (ipc_error + unit) \<times> answer list \<times> shared_state" where
  "complete_query_waiter_error i e st = settle_waiter (PkQuery i) (Inl e) st"

definition complete_terminal_input_waiter_error ::
  "input_id \<Rightarrow> ipc_error \<Rightarrow> shared_state \<Rightarrow> (ipc_error + unit) \<times> answer list \<times> shared_state" where
  "complete_terminal_input_waiter_error i e st = settle_waiter (PkTerminalInput i) (Inl e) st"

section \<open>The connection\<close>

record connection =
  cn_state :: shared_state
  cn_inbox :: unsolicited_inbox

definition connection_new :: connection where
  "connection_new = \<lparr> cn_state = shared_state_default,
     cn_inbox = inbox_new UNSOLICITED_QUEUE_CAPACITY UNSOLICITED_STREAM_CAPACITY \<rparr>"

definition reply_dispatch ::
  "pending_key \<Rightarrow> reply \<Rightarrow> connection \<Rightarrow> (ipc_error + unit) \<times> answer list \<times> connection" where
  "reply_dispatch key rep cn =
     (case settle_waiter key (Inr rep) (cn_state cn) of (r, sent, st) \<Rightarrow> (r, sent, cn \<lparr> cn_state := st \<rparr>))"

definition inbox_dispatch :: "unit inboxed \<Rightarrow> connection \<Rightarrow> (ipc_error + unit) \<times> answer list \<times> connection" where
  "inbox_dispatch pushed cn = (case pushed of (r, ib) \<Rightarrow> (r, [], cn \<lparr> cn_inbox := ib \<rparr>))"

definition dispatch_server_message ::
  "server_message \<Rightarrow> connection \<Rightarrow> (ipc_error + unit) \<times> answer list \<times> connection" where
  "dispatch_server_message message cn =
     (case message of
        SmCommandReceipt receipt \<Rightarrow> reply_dispatch (PkCommand (receipt_command_id receipt)) (RepCommand receipt) cn
      | SmTerminalInputAck response \<Rightarrow>
          reply_dispatch (PkTerminalInput (ta_input_id response)) (RepTerminalInput (ta_ack response)) cn
      | SmUpdateHandoff reply \<Rightarrow> reply_dispatch (PkUpdateHandoff (hr_command_id reply)) (RepUpdateHandoff reply) cn
      | SmQueryReply reply \<Rightarrow> reply_dispatch (PkQuery (qy_request_id reply)) (RepQuery reply) cn
      | SmDurableEvent i event \<Rightarrow> inbox_dispatch (push_durable (UsDurableEvent i event) (cn_inbox cn)) cn
      | SmResyncRequired i last_delivered newest \<Rightarrow>
          inbox_dispatch (push_durable (UsResyncRequired i last_delivered newest) (cn_inbox cn)) cn
      | SmStream frame \<Rightarrow> inbox_dispatch (push_stream frame (cn_inbox cn)) cn
      | SmConversationDirty i task high_water \<Rightarrow>
          inbox_dispatch (push_conversation_dirty i task high_water (cn_inbox cn)) cn
      | SmDetached ack \<Rightarrow> reply_dispatch (PkDetach (da_request_id ack)) (RepDetach ack) cn)"

text \<open>The supervisor after either half ended; an error of the dispatch ends the reader, and this is then its
  next step.\<close>

definition supervisor_ends :: "connection \<Rightarrow> answer list \<times> connection" where
  "supervisor_ends cn =
     (case poison_mutex (cn_state cn) of (sent, st) \<Rightarrow>
        (sent, cn \<lparr> cn_state := st, cn_inbox := inbox_close (cn_inbox cn) \<rparr>))"

text \<open>The deadline of a call takes the lock twice: here the call gets its timeout, and then the connection is
  poisoned, which is the step of \<open>poison_mutex\<close>.\<close>

definition deadline_fires :: "pending_key \<Rightarrow> u64 \<Rightarrow> connection \<Rightarrow> answer list \<times> connection" where
  "deadline_fires key registration_id cn =
     (case remove_pending_exact key registration_id (cn_state cn) of
        (None, st) \<Rightarrow> ([], cn \<lparr> cn_state := st \<rparr>)
      | (Some p, st) \<Rightarrow> ([(pr_registration_id p, Inl IpcTimeout)], cn \<lparr> cn_state := st \<rparr>))"

section \<open>The life of a connection\<close>

text \<open>The connection with its history: the registrations it gave out, the answers it sent, and the
  registrations whose caller was gone before it had sent its request.\<close>

record call_log =
  cl_connection :: connection
  cl_issued :: "(u64 \<times> pending_key) list"
  cl_answers :: "answer list"
  cl_dropped :: "u64 list"

datatype call_action =
    Register pending_key | Arm pending_key u64 | Cancel pending_key u64 | DeadlineFires pending_key u64
  | Receive server_message | FailClosed | SupervisorEnds | FailQuery request_id ipc_error
  | FailTerminalInput input_id ipc_error | Recv nat | Fence subscription_id

definition set_state :: "shared_state \<Rightarrow> call_log \<Rightarrow> call_log" where
  "set_state st w = w \<lparr> cl_connection := (cl_connection w) \<lparr> cn_state := st \<rparr> \<rparr>"

definition set_inbox :: "unsolicited_inbox \<Rightarrow> call_log \<Rightarrow> call_log" where
  "set_inbox ib w = w \<lparr> cl_connection := (cl_connection w) \<lparr> cn_inbox := ib \<rparr> \<rparr>"

definition sends :: "answer list \<times> connection \<Rightarrow> call_log \<Rightarrow> call_log" where
  "sends r w = (case r of (sent, cn) \<Rightarrow> w \<lparr> cl_connection := cn, cl_answers := cl_answers w @ sent \<rparr>)"

definition call_step :: "call_action \<Rightarrow> call_log \<Rightarrow> call_log" where
  "call_step a w =
     (let cn = cl_connection w; st = cn_state cn
      in case a of
           Register key \<Rightarrow>
             (case register_waiter key st of
                (Inl _, st) \<Rightarrow> set_state st w
              | (Inr r, st) \<Rightarrow> (set_state st w) \<lparr> cl_issued := cl_issued w @ [(r, key)] \<rparr>)
         | Arm key r \<Rightarrow> set_state (arm_response_deadline key r st) w
         | Cancel key r \<Rightarrow>
             (case remove_pending_exact key r st of
                (None, st) \<Rightarrow> set_state st w
              | (Some p, st) \<Rightarrow> (set_state st w) \<lparr> cl_dropped := cl_dropped w @ [pr_registration_id p] \<rparr>)
         | DeadlineFires key r \<Rightarrow> sends (deadline_fires key r cn) w
         | Receive message \<Rightarrow> sends (snd (dispatch_server_message message cn)) w
         | FailClosed \<Rightarrow> (case poison_mutex st of (sent, st) \<Rightarrow> sends (sent, cn \<lparr> cn_state := st \<rparr>) w)
         | SupervisorEnds \<Rightarrow> sends (supervisor_ends cn) w
         | FailQuery i e \<Rightarrow> (case complete_query_waiter_error i e st of (_, sent, st) \<Rightarrow> sends (sent, cn \<lparr> cn_state := st \<rparr>) w)
         | FailTerminalInput i e \<Rightarrow>
             (case complete_terminal_input_waiter_error i e st of (_, sent, st) \<Rightarrow> sends (sent, cn \<lparr> cn_state := st \<rparr>) w)
         | Recv choice \<Rightarrow> set_inbox (snd (try_dequeue choice (cn_inbox cn))) w
         | Fence i \<Rightarrow> set_inbox (snd (retire_subscription_id i (cn_inbox cn))) w)"

definition call_log_new :: call_log where
  "call_log_new = \<lparr> cl_connection = connection_new, cl_issued = [], cl_answers = [], cl_dropped = [] \<rparr>"

definition call_run :: "call_action list \<Rightarrow> call_log" where
  "call_run as = fold call_step as call_log_new"

section \<open>Every call is answered once\<close>

lemma waiter_put [simp]: "waiter k (put_waiter key p st) = (if k = key then Some p else waiter k st)"
  by (auto simp: waiter_def put_waiter_def split: pending_key.split)

lemma waiter_remove [simp]: "waiter k (remove_waiter key st) = (if k = key then None else waiter k st)"
  by (auto simp: waiter_def remove_waiter_def split: pending_key.split)

lemma waiter_next [simp]: "waiter k (st \<lparr> next_registration_id := n \<rparr>) = waiter k st"
  by (simp add: waiter_def split: pending_key.split)

lemma table_frame [simp]:
  "next_registration_id (put_waiter key p st) = next_registration_id st"
  "next_registration_id (remove_waiter key st) = next_registration_id st"
  "st_poisoned (put_waiter key p st) = st_poisoned st" "st_poisoned (remove_waiter key st) = st_poisoned st"
  "st_closed (put_waiter key p st) = st_closed st" "st_closed (remove_waiter key st) = st_closed st"
  by (simp_all add: put_waiter_def remove_waiter_def split: pending_key.split)

text \<open>All the waiters, table after table.\<close>

definition waiters :: "shared_state \<Rightarrow> (pending_key \<times> pending_reply) list" where
  "waiters st = map (map_prod PkCommand id) (entries (command_waiters st))
     @ map (map_prod PkUpdateHandoff id) (entries (update_handoff_waiters st))
     @ map (map_prod PkTerminalInput id) (entries (terminal_input_waiters st))
     @ map (map_prod PkQuery id) (entries (query_waiters st)) @ map (map_prod PkDetach id) (entries (detach_waiters st))"

lemma in_waiters: "(k, p) \<in> set (waiters st) \<longleftrightarrow> waiter k st = Some p"
  by (cases k) (auto simp: waiters_def waiter_def in_entries_iff image_iff Bex_def)

lemma table_distinct: "inj C \<Longrightarrow> distinct (map (\<lambda>x. C (fst x)) (entries m))"
  using bkeys_distinct[of m] by (auto simp: bkeys_def distinct_map inj_on_def)

lemma waiters_distinct: "distinct (map fst (waiters st))"
  by (auto simp: waiters_def comp_def intro!: table_distinct injI)

lemma poison_answers:
  "\<not> (st_closed st \<and> st_poisoned st) \<Longrightarrow>
     fst (poison_mutex st) = map (\<lambda>(k, p). (pr_registration_id p, Inl IpcUnavailable)) (waiters st)"
  by (auto simp: poison_mutex_def unanswered_def waiters_def bvalues_def comp_def case_prod_unfold)

lemma poison_waiter: "\<not> (st_closed st \<and> st_poisoned st) \<Longrightarrow> waiter k (snd (poison_mutex st)) = None"
  by (auto simp: poison_mutex_def waiter_def split: pending_key.split)

lemma poison_frame [simp]:
  "next_registration_id (snd (poison_mutex st)) = next_registration_id st"
  "st_poisoned (snd (poison_mutex st))" "st_closed (snd (poison_mutex st))"
  by (auto simp: poison_mutex_def)

definition answers_to :: "reply \<Rightarrow> pending_key \<Rightarrow> bool" where
  "answers_to rep key =
     (case rep of
        RepCommand r \<Rightarrow> key = PkCommand (receipt_command_id r)
      | RepUpdateHandoff r \<Rightarrow> key = PkUpdateHandoff (hr_command_id r)
      | RepTerminalInput _ \<Rightarrow> (\<exists>i. key = PkTerminalInput i)
      | RepQuery r \<Rightarrow> key = PkQuery (qy_request_id r)
      | RepDetach a \<Rightarrow> key = PkDetach (da_request_id a))"

text \<open>The books of a connection: registrations are given out once, the pending ones are those neither answered
  nor dropped, nobody is answered twice, a reply sent the request it names, and a poisoned connection
  owes nothing.\<close>

definition books :: "shared_state \<Rightarrow> (u64 \<times> pending_key) list \<Rightarrow> answer list \<Rightarrow> u64 list \<Rightarrow> bool" where
  "books st issued sent dropped \<longleftrightarrow>
     distinct (map fst issued) \<and> (\<forall>r \<in> set (map fst issued). r < next_registration_id st) \<and>
     (\<forall>k p. waiter k st = Some p \<longrightarrow> (pr_registration_id p, k) \<in> set issued) \<and>
     (\<forall>r k. (r, k) \<in> set issued \<longrightarrow>
        (exact_waiter k r st \<noteq> None \<longleftrightarrow> r \<notin> set (map fst sent) \<and> r \<notin> set dropped)) \<and>
     distinct (map fst sent @ dropped) \<and> set (map fst sent @ dropped) \<subseteq> set (map fst issued) \<and>
     (\<forall>r rep. (r, Inr rep) \<in> set sent \<longrightarrow> (\<exists>k. (r, k) \<in> set issued \<and> answers_to rep k)) \<and>
     st_closed st = st_poisoned st \<and> (st_poisoned st \<longrightarrow> (\<forall>k. waiter k st = None))"

lemma books_new: "books shared_state_default [] [] []"
  by (simp add: books_def shared_state_default_def waiter_def split: pending_key.split)

lemma exact_waiter_Some: "exact_waiter k r st = Some p \<longleftrightarrow> waiter k st = Some p \<and> pr_registration_id p = r"
  by (auto simp: exact_waiter_def split: option.split)

lemma books_facts:
  assumes "books st issued sent dropped"
  shows "distinct (map fst issued)" "\<And>r. r \<in> set (map fst issued) \<Longrightarrow> r < next_registration_id st"
    "\<And>k p. waiter k st = Some p \<Longrightarrow> (pr_registration_id p, k) \<in> set issued"
    "\<And>r k. (r, k) \<in> set issued \<Longrightarrow> exact_waiter k r st \<noteq> None \<longleftrightarrow> r \<notin> set (map fst sent) \<and> r \<notin> set dropped"
    "distinct (map fst sent @ dropped)" "set (map fst sent @ dropped) \<subseteq> set (map fst issued)"
    "\<And>r rep. (r, Inr rep) \<in> set sent \<Longrightarrow> \<exists>k. (r, k) \<in> set issued \<and> answers_to rep k"
    "st_closed st = st_poisoned st" "\<And>k. st_poisoned st \<Longrightarrow> waiter k st = None"
  using assms unfolding books_def by blast+

lemma books_owner:
  assumes "books st issued sent dropped" "waiter k st = Some p"
  shows "(pr_registration_id p, k) \<in> set issued" "pr_registration_id p \<notin> set (map fst sent)" "pr_registration_id p \<notin> set dropped"
    "(pr_registration_id p, j) \<in> set issued \<Longrightarrow> j = k"
proof -
  show i: "(pr_registration_id p, k) \<in> set issued" using assms unfolding books_def by blast
  moreover have "exact_waiter k (pr_registration_id p) st \<noteq> None" using assms(2) by (simp add: exact_waiter_def)
  ultimately show "pr_registration_id p \<notin> set (map fst sent)" "pr_registration_id p \<notin> set dropped"
    using assms(1) unfolding books_def by blast+
  show "j = k" if "(pr_registration_id p, j) \<in> set issued"
    using that i assms(1) unfolding books_def by (meson eq_key_imp_eq_value)
qed

lemma books_register:
  assumes b: "books st issued sent dropped" and r: "register_waiter key st = (r, st')"
  shows "case r of Inl _ \<Rightarrow> books st' issued sent dropped | Inr r \<Rightarrow> books st' (issued @ [(r, key)]) sent dropped"
proof (cases r)
  case (Inl e)
  have "st' = st \<or> (\<exists>n. next_registration_id st < n \<and> st' = st \<lparr> next_registration_id := n \<rparr>)"
    using r Inl by (auto simp: register_waiter_def Let_def dest: checked_add_one_less split: if_splits option.splits)
  then have "st' = st \<or> next_registration_id st < next_registration_id st' \<and> (\<forall>k. waiter k st' = waiter k st)
    \<and> st_closed st' = st_closed st \<and> st_poisoned st' = st_poisoned st" by auto
  then have same: "next_registration_id st \<le> next_registration_id st'" "\<And>k. waiter k st' = waiter k st"
    "\<And>k r. exact_waiter k r st' = exact_waiter k r st" "st_closed st' = st_closed st" "st_poisoned st' = st_poisoned st"
    by (auto simp: exact_waiter_def)
  have "\<forall>r \<in> set (map fst issued). r < next_registration_id st'" using books_facts(2)[OF b] same(1) by (meson less_le_trans)
  then show ?thesis using b unfolding Inl sum.case books_def same by blast
next
  case (Inr i)
  then obtain n where "checked_add (next_registration_id st) 1 = Some n" and n: "i = next_registration_id st"
    "waiter key st = None" "\<not> st_poisoned st"
    "st' = put_waiter key \<lparr> pr_registration_id = i, pr_deadline = False \<rparr> (st \<lparr> next_registration_id := n \<rparr>)"
    using r by (auto simp: register_waiter_def Let_def is_some_def split: if_splits option.splits)
  then have less: "i < n" by (simp add: checked_add_one_less)
  have fresh: "i \<notin> set (map fst issued)" using b n(1) by (auto simp: books_def)
  have key: "k \<noteq> key" if "waiter k st = Some p" for k p using n(2) that by auto
  note f = books_facts[OF b]
  have ex: "exact_waiter k r st' = (if k = key then if r = i then Some \<lparr> pr_registration_id = i, pr_deadline = False \<rparr> else None
      else exact_waiter k r st)" for k r
    by (simp add: n(4) exact_waiter_def)
  show ?thesis unfolding Inr sum.case books_def
  proof (intro conjI allI impI ballI)
    show "distinct (map fst (issued @ [(i, key)]))" using f(1) fresh by simp
    show "r < next_registration_id st'" if "r \<in> set (map fst (issued @ [(i, key)]))" for r
    proof (cases "r = i")
      case False
      then have "r \<in> set (map fst issued)" using that by auto
      then have "r < next_registration_id st" by (rule f(2))
      then show ?thesis using n(1) less by (simp add: n(4))
    qed (use less in \<open>simp add: n(4)\<close>)
    show "(pr_registration_id p, k) \<in> set (issued @ [(i, key)])" if "waiter k st' = Some p" for k p
      using that f(3)[of k p] by (auto simp: n(4) split: if_splits)
    show "exact_waiter k r st' \<noteq> None \<longleftrightarrow> r \<notin> set (map fst sent) \<and> r \<notin> set dropped"
      if k: "(r, k) \<in> set (issued @ [(i, key)])" for r k
    proof (cases "r = i")
      case True
      then have "k = key" using k fresh by (auto simp: image_iff)
      then show ?thesis using True f(6) fresh by (auto simp: ex)
    next
      case False
      then have "(r, k) \<in> set issued" using k by simp
      moreover have "exact_waiter key r st = None" using n(2) by (simp add: exact_waiter_def)
      ultimately show ?thesis using f(4)[of r k] False by (auto simp: ex)
    qed
    show "distinct (map fst sent @ dropped)" by (rule f(5))
    show "set (map fst sent @ dropped) \<subseteq> set (map fst (issued @ [(i, key)]))" using f(6) by auto
    show "\<exists>k. (r, k) \<in> set (issued @ [(i, key)]) \<and> answers_to rep k" if "(r, Inr rep) \<in> set sent" for r rep
      using f(7)[OF that] by auto
    show "st_closed st' = st_poisoned st'" using f(8) by (simp add: n(4))
    show "waiter k st' = None" if "st_poisoned st'" for k using that n(3) by (simp add: n(4))
  qed
qed

text \<open>Closing an entry: the waiters that leave the tables are those answered or dropped in the step.\<close>

lemma books_settle:
  assumes b: "books st issued sent dropped"
    and settled: "\<And>r. r \<in> set (map fst more_sent @ more_dropped) \<longleftrightarrow>
      (\<exists>k p. r = pr_registration_id p \<and> waiter k st = Some p \<and> waiter k st' = None)"
    and once: "distinct (map fst more_sent @ more_dropped)"
    and rest: "\<And>k. waiter k st' = None \<or> waiter k st' = waiter k st"
    and fields: "next_registration_id st' = next_registration_id st" "st_closed st' = st_poisoned st'"
      "st_poisoned st' \<Longrightarrow> \<forall>k. waiter k st' = None"
    and replies: "\<And>r rep. (r, Inr rep) \<in> set more_sent \<Longrightarrow> \<exists>k. (r, k) \<in> set issued \<and> answers_to rep k"
  shows "books st' issued (sent @ more_sent) (dropped @ more_dropped)"
proof -
  note f = books_facts[OF b]
  let ?new = "set (map fst more_sent @ more_dropped)" and ?old = "set (map fst sent @ dropped)"
  have new: "r \<in> set (map fst issued) \<and> r \<notin> ?old" if r: "r \<in> ?new" for r
  proof -
    obtain k p where "r = pr_registration_id p" "waiter k st = Some p" using r settled[of r] by blast
    then show ?thesis using books_owner(1-3)[OF b, of k p] by (metis Un_iff fst_conv in_set_conv_nth length_map nth_map set_append nth_mem)
  qed
  have ex: "exact_waiter k r st' \<noteq> None \<longleftrightarrow> r \<notin> ?old \<and> r \<notin> ?new" if "(r, k) \<in> set issued" for r k
  proof -
    have "exact_waiter k r st' \<noteq> None \<longleftrightarrow> exact_waiter k r st \<noteq> None \<and> r \<notin> ?new"
    proof
      assume "exact_waiter k r st' \<noteq> None"
      then obtain p where p: "waiter k st' = Some p" "pr_registration_id p = r" by (auto simp: exact_waiter_Some)
      then have w: "waiter k st = Some p" using rest[of k] by simp
      have "r \<notin> ?new"
      proof
        assume "r \<in> ?new"
        then obtain j q where "r = pr_registration_id q" "waiter j st = Some q" "waiter j st' = None" using settled[of r] by blast
        then show False using books_owner(1)[OF b, of j q] books_owner(4)[OF b w, of j] p by simp
      qed
      then show "exact_waiter k r st \<noteq> None \<and> r \<notin> ?new" using w p(2) by (simp add: exact_waiter_def)
    next
      assume a: "exact_waiter k r st \<noteq> None \<and> r \<notin> ?new"
      then obtain p where p: "waiter k st = Some p" "pr_registration_id p = r" by (auto simp: exact_waiter_Some)
      then have "waiter k st' \<noteq> None" using a settled[of r] by metis
      then show "exact_waiter k r st' \<noteq> None" using rest[of k] p by (auto simp: exact_waiter_def)
    qed
    then show ?thesis using f(4)[OF that] by auto
  qed
  show ?thesis unfolding books_def
  proof (intro conjI allI impI ballI)
    show "distinct (map fst issued)" by (rule f(1))
    show "r < next_registration_id st'" if "r \<in> set (map fst issued)" for r using f(2)[OF that] fields(1) by simp
    show "(pr_registration_id p, k) \<in> set issued" if "waiter k st' = Some p" for k p
      using that rest[of k] f(3)[of k p] by auto
    show "exact_waiter k r st' \<noteq> None \<longleftrightarrow> r \<notin> set (map fst (sent @ more_sent)) \<and> r \<notin> set (dropped @ more_dropped)"
      if "(r, k) \<in> set issued" for r k using ex[OF that] by auto
    show "distinct (map fst (sent @ more_sent) @ dropped @ more_dropped)"
    proof -
      have "?old \<inter> ?new = {}" using new by blast
      then have "distinct ((map fst sent @ dropped) @ (map fst more_sent @ more_dropped))" using f(5) once by (simp only: distinct_append)
      then show ?thesis by (simp only: distinct_append map_append set_append) blast
    qed
    show "set (map fst (sent @ more_sent) @ dropped @ more_dropped) \<subseteq> set (map fst issued)" using f(6) new by auto
    show "\<exists>k. (r, k) \<in> set issued \<and> answers_to rep k" if "(r, Inr rep) \<in> set (sent @ more_sent)" for r rep
      using that f(7) replies by auto
    show "st_closed st' = st_poisoned st'" by (rule fields(2))
    show "waiter k st' = None" if "st_poisoned st'" for k using fields(3)[OF that] by blast
  qed
qed

lemma books_remove:
  assumes b: "books st issued sent dropped" and w: "waiter key st = Some p"
  shows "\<forall>rep. res = Inr rep \<longrightarrow> answers_to rep key \<Longrightarrow>
      books (remove_waiter key st) issued (sent @ [(pr_registration_id p, res)]) dropped"
    and "books (remove_waiter key st) issued sent (dropped @ [pr_registration_id p])"
proof -
  have live: "\<not> st_poisoned st" using books_facts(9)[OF b, of key] w by auto
  then have st: "st_closed (remove_waiter key st) = st_poisoned (remove_waiter key st)" "\<not> st_poisoned (remove_waiter key st)"
    using books_facts(8)[OF b] by simp_all
  have one: "r = pr_registration_id p \<longleftrightarrow> (\<exists>k q. r = pr_registration_id q \<and> waiter k st = Some q \<and> waiter k (remove_waiter key st) = None)" for r
    using w by (auto split: if_splits)
  show "books (remove_waiter key st) issued (sent @ [(pr_registration_id p, res)]) dropped"
    if "\<forall>rep. res = Inr rep \<longrightarrow> answers_to rep key"
  proof -
    have "books (remove_waiter key st) issued (sent @ [(pr_registration_id p, res)]) (dropped @ [])"
    proof (rule books_settle[OF b])
      show "\<exists>k. (r, k) \<in> set issued \<and> answers_to rep k" if "(r, Inr rep) \<in> set [(pr_registration_id p, res)]" for r rep
        using that books_owner(1)[OF b w] \<open>\<forall>rep. res = Inr rep \<longrightarrow> answers_to rep key\<close> by auto
    qed (use one st in auto)
    then show ?thesis by simp
  qed
  have "books (remove_waiter key st) issued (sent @ []) (dropped @ [pr_registration_id p])"
    by (rule books_settle[OF b]) (use one st in auto)
  then show "books (remove_waiter key st) issued sent (dropped @ [pr_registration_id p])" by simp
qed

lemma books_poison:
  assumes b: "books st issued sent dropped" and p: "poison_mutex st = (unsent, st')"
  shows "books st' issued (sent @ unsent) dropped \<and> (\<forall>k. waiter k st' = None) \<and> st_poisoned st' \<and> \<not> connection_is_live st'"
proof (cases "st_closed st \<and> st_poisoned st")
  case True
  then show ?thesis using p b books_facts(9)[OF b] by (auto simp: poison_mutex_def connection_is_live_def)
next
  case False
  have sent: "unsent = map (\<lambda>(k, p). (pr_registration_id p, Inl IpcUnavailable)) (waiters st)" and st': "st' = snd (poison_mutex st)"
    using poison_answers[OF False] p by simp_all
  have none: "waiter k st' = None" for k using poison_waiter[OF False] st' by simp
  have "distinct (map (\<lambda>x. pr_registration_id (snd x)) (waiters st))"
  proof (rule distinct_map[THEN iffD2], intro conjI inj_onI)
    show "distinct (waiters st)" using waiters_distinct[of st] by (simp add: distinct_map)
    show "x = y" if x: "x \<in> set (waiters st)" and y: "y \<in> set (waiters st)" and eq: "pr_registration_id (snd x) = pr_registration_id (snd y)" for x y
    proof -
      have "waiter (fst x) st = Some (snd x)" "waiter (fst y) st = Some (snd y)"
        using x y in_waiters by (metis prod.collapse)+
      then show ?thesis using books_owner(4)[OF b, of "fst y" "snd y" "fst x"] books_owner(1)[OF b, of "fst x" "snd x"] eq
        by (simp add: prod_eq_iff)
    qed
  qed
  moreover have "r \<in> set (map fst unsent) \<longleftrightarrow> (\<exists>k p. r = pr_registration_id p \<and> waiter k st = Some p \<and> waiter k st' = None)" for r
    unfolding sent in_waiters[of _ _ st, symmetric] using none by (force simp: image_iff)
  ultimately have "books st' issued (sent @ unsent) (dropped @ [])"
    by (intro books_settle[OF b]) (use none in \<open>auto simp: sent st' comp_def case_prod_unfold\<close>)
  then show ?thesis using none by (simp add: st' connection_is_live_def)
qed

definition books_of :: "call_log \<Rightarrow> bool" where
  "books_of w \<longleftrightarrow> books (cn_state (cl_connection w)) (cl_issued w) (cl_answers w) (cl_dropped w)"

lemma books_arm:
  assumes "books st issued sent dropped"
  shows "books (arm_response_deadline key r st) issued sent dropped"
proof (cases "exact_waiter key r st")
  case (Some p)
  then have w: "waiter key st = Some p" "pr_registration_id p = r" by (simp_all add: exact_waiter_Some)
  let ?st = "put_waiter key (p \<lparr> pr_deadline := True \<rparr>) st"
  have live: "\<not> st_poisoned st" using books_facts(9)[OF assms, of key] w(1) by auto
  have ex: "exact_waiter k i ?st \<noteq> None \<longleftrightarrow> exact_waiter k i st \<noteq> None" for k i using w by (simp add: exact_waiter_def)
  note f = books_facts[OF assms]
  have "books ?st issued sent dropped" unfolding books_def table_frame
  proof (intro conjI allI impI ballI)
    show "(pr_registration_id q, k) \<in> set issued" if "waiter k ?st = Some q" for k q
      using that f(3) w(1) by (auto split: if_splits)
    show "exact_waiter k i ?st \<noteq> None \<longleftrightarrow> i \<notin> set (map fst sent) \<and> i \<notin> set dropped" if "(i, k) \<in> set issued" for i k
      unfolding ex by (rule f(4)[OF that])
  qed (use f live in \<open>blast+\<close>)
  then show ?thesis by (simp add: arm_response_deadline_def Some)
qed (simp add: assms arm_response_deadline_def)

lemma books_settle_waiter:
  assumes b: "books st issued sent dropped" and s: "settle_waiter key res st = (r, more_sent, st')"
    and "\<forall>rep. res = Inr rep \<longrightarrow> answers_to rep key"
  shows "books st' issued (sent @ more_sent) dropped"
  using s b books_remove(1)[OF b _ assms(3)] by (auto simp: settle_waiter_def split: option.splits)

lemma books_dispatch:
  assumes b: "books (cn_state cn) issued sent dropped" and d: "dispatch_server_message m cn = (r, more_sent, cn')"
  shows "books (cn_state cn') issued (sent @ more_sent) dropped"
proof -
  have reply: ?thesis if "reply_dispatch key rep cn = (r, more_sent, cn')" "answers_to rep key" for key rep
    using that books_settle_waiter[OF b, of key "Inr rep"] by (auto simp: reply_dispatch_def split: prod.splits)
  have inbox: ?thesis if "inbox_dispatch pushed cn = (r, more_sent, cn')" for pushed
    using that b by (auto simp: inbox_dispatch_def split: prod.splits)
  show ?thesis using d
    by (cases m) (auto simp: dispatch_server_message_def answers_to_def intro: reply inbox)
qed

lemma books_supervisor:
  assumes "books (cn_state cn) issued sent dropped" "supervisor_ends cn = (unsent, cn')"
  shows "books (cn_state cn') issued (sent @ unsent) dropped \<and> \<not> connection_is_live (cn_state cn')"
  using assms books_poison[OF assms(1)] by (auto simp: supervisor_ends_def split: prod.splits)

lemma books_deadline:
  assumes b: "books (cn_state cn) issued sent dropped" and d: "deadline_fires key i cn = (more_sent, cn')"
  shows "books (cn_state cn') issued (sent @ more_sent) dropped"
proof (cases "exact_waiter key i (cn_state cn)")
  case None
  then show ?thesis using b d by (simp add: deadline_fires_def remove_pending_exact_def)
next
  case (Some p)
  then have w: "waiter key (cn_state cn) = Some p" by (simp add: exact_waiter_Some)
  show ?thesis using books_remove(1)[OF b w, of "Inl IpcTimeout", simplified] d Some
    by (auto simp: deadline_fires_def remove_pending_exact_def)
qed

lemma call_step_books:
  assumes "books_of w"
  shows "books_of (call_step a w)"
proof -
  let ?st = "cn_state (cl_connection w)"
  have b: "books ?st (cl_issued w) (cl_answers w) (cl_dropped w)" using assms by (simp add: books_of_def)
  have sends: "books_of (sends (sent, cn) w)" if "books (cn_state cn) (cl_issued w) (cl_answers w @ sent) (cl_dropped w)" for sent cn
    using that by (simp add: books_of_def sends_def)
  show ?thesis
  proof (cases a)
    case (Register key)
    obtain r st' where r: "register_waiter key ?st = (r, st')" by (cases "register_waiter key ?st")
    show ?thesis using books_register[OF b r] r by (cases r) (simp_all add: Register call_step_def books_of_def set_state_def)
  next
    case (Arm key r)
    then show ?thesis using books_arm[OF b] by (simp add: call_step_def books_of_def set_state_def)
  next
    case (Cancel key r)
    show ?thesis
    proof (cases "exact_waiter key r ?st")
      case None
      then show ?thesis using b by (simp add: Cancel call_step_def Let_def remove_pending_exact_def books_of_def set_state_def)
    next
      case (Some p)
      then have "waiter key ?st = Some p" by (simp add: exact_waiter_Some)
      from books_remove(2)[OF b this] show ?thesis
        by (simp add: Cancel Some call_step_def Let_def remove_pending_exact_def books_of_def set_state_def)
    qed
  next
    case (DeadlineFires key r)
    then show ?thesis using books_deadline[OF b, of key r] sends by (cases "deadline_fires key r (cl_connection w)") (simp add: call_step_def)
  next
    case (Receive m)
    obtain r sent cn where d: "dispatch_server_message m (cl_connection w) = (r, sent, cn)" by (metis prod_cases3)
    then show ?thesis using books_dispatch[OF b d] sends Receive by (simp add: call_step_def)
  next
    case FailClosed
    then show ?thesis using books_poison[OF b] sends by (cases "poison_mutex ?st") (simp add: call_step_def)
  next
    case SupervisorEnds
    then show ?thesis using books_supervisor[OF b] sends by (cases "supervisor_ends (cl_connection w)") (simp add: call_step_def)
  next
    case (FailQuery i e)
    then show ?thesis using books_settle_waiter[OF b, of "PkQuery i" "Inl e"] sends
      by (cases "settle_waiter (PkQuery i) (Inl e) ?st") (simp add: call_step_def complete_query_waiter_error_def split: prod.split)
  next
    case (FailTerminalInput i e)
    then show ?thesis using books_settle_waiter[OF b, of "PkTerminalInput i" "Inl e"] sends
      by (cases "settle_waiter (PkTerminalInput i) (Inl e) ?st") (simp add: call_step_def complete_terminal_input_waiter_error_def split: prod.split)
  qed (use b in \<open>simp_all add: call_step_def books_of_def set_inbox_def\<close>)
qed

lemma call_run_books: "books_of (call_run as)"
proof -
  have "books_of w \<Longrightarrow> books_of (fold call_step as w)" for w
    by (induction as arbitrary: w) (simp_all add: call_step_books)
  moreover have "books_of call_log_new"
    by (simp add: books_of_def call_log_new_def connection_new_def books_new)
  ultimately show ?thesis by (simp add: call_run_def)
qed

section \<open>Properties\<close>

text \<open>C20. Every call is settled exactly once, and by its own reply.  Over the whole life of a connection,
  with replies, deadlines, cancelled callers, failures of either half and poisoning in any order: no
  registration is given out twice, a registration is pending exactly while it is neither answered nor
  dropped, none is answered twice or answered and dropped, a reply only answers the request it names, and
  once the connection is poisoned nobody waits any more.\<close>

theorem each_call_settled_once:
  "distinct (map fst (cl_issued (call_run as))) \<and>
   (\<forall>(r, key) \<in> set (cl_issued (call_run as)).
      exact_waiter key r (cn_state (cl_connection (call_run as))) \<noteq> None \<longleftrightarrow>
        r \<notin> set (map fst (cl_answers (call_run as))) \<and> r \<notin> set (cl_dropped (call_run as))) \<and>
   distinct (map fst (cl_answers (call_run as)) @ cl_dropped (call_run as)) \<and>
   (\<forall>(r, res) \<in> set (cl_answers (call_run as)). \<forall>rep. res = Inr rep \<longrightarrow>
      (\<exists>key. (r, key) \<in> set (cl_issued (call_run as)) \<and> answers_to rep key)) \<and>
   (connection_is_live (cn_state (cl_connection (call_run as))) \<or>
      set (map fst (cl_issued (call_run as))) =
      set (map fst (cl_answers (call_run as)) @ cl_dropped (call_run as)))"
proof -
  note f = books_facts[OF call_run_books[of as, unfolded books_of_def]]
  have "set (map fst (cl_issued (call_run as))) = set (map fst (cl_answers (call_run as)) @ cl_dropped (call_run as))"
    if dead: "\<not> connection_is_live (cn_state (cl_connection (call_run as)))"
  proof -
    have "exact_waiter k r (cn_state (cl_connection (call_run as))) = None" for k r
      using dead f(8,9) by (auto simp: connection_is_live_def exact_waiter_def)
    then have "r \<in> set (map fst (cl_answers (call_run as)) @ cl_dropped (call_run as))" if "(r, k) \<in> set (cl_issued (call_run as))" for r k
      using f(4)[OF that] by simp
    then have "set (map fst (cl_issued (call_run as))) \<subseteq> set (map fst (cl_answers (call_run as)) @ cl_dropped (call_run as))"
      unfolding set_map by (intro subsetI) (elim imageE, metis prod.collapse)
    then show ?thesis using f(6) by (rule subset_antisym)
  qed
  moreover have "\<forall>(r, key) \<in> set (cl_issued (call_run as)).
      exact_waiter key r (cn_state (cl_connection (call_run as))) \<noteq> None \<longleftrightarrow>
        r \<notin> set (map fst (cl_answers (call_run as))) \<and> r \<notin> set (cl_dropped (call_run as))"
    using f(4) by (intro ballI) (simp only: split_paired_all prod.case)
  moreover have "\<forall>(r, res) \<in> set (cl_answers (call_run as)). \<forall>rep. res = Inr rep \<longrightarrow>
      (\<exists>key. (r, key) \<in> set (cl_issued (call_run as)) \<and> answers_to rep key)"
    using f(7) by (intro ballI) (simp only: split_paired_all prod.case, blast)
  ultimately show ?thesis using f(1,5) by (intro conjI) (assumption | blast)+
qed

theorem each_call_settled_once_witness:
  "cl_issued (call_run [Register (PkQuery (Id 5)), SupervisorEnds]) = [(0, PkQuery (Id 5))] \<and>
   set (map fst (cl_answers (call_run [Register (PkQuery (Id 5)), SupervisorEnds]))) = {0}"
proof -
  let ?w = "call_run [Register (PkQuery (Id 5)), SupervisorEnds]"
  have r: "register_waiter (PkQuery (Id 5)) shared_state_default =
      (Inr 0, put_waiter (PkQuery (Id 5)) \<lparr> pr_registration_id = 0, pr_deadline = False \<rparr> (shared_state_default \<lparr> next_registration_id := 1 \<rparr>))"
    by (simp add: register_waiter_def shared_state_default_def checked_add_def waiter_def)
  have "cl_issued ?w = [(0, PkQuery (Id 5))]" "\<not> connection_is_live (cn_state (cl_connection ?w))" "cl_dropped ?w = []"
    by (simp_all add: call_run_def call_step_def call_log_new_def connection_new_def r set_state_def sends_def supervisor_ends_def
        connection_is_live_def Let_def split: prod.split) (metis poison_frame(2) snd_conv)
  with each_call_settled_once[of "[Register (PkQuery (Id 5)), SupervisorEnds]"] show ?thesis by auto
qed

end
