(* ===== verification/Client_Sync.thy ===== *)
theory Client_Sync
  imports Client_Model Scenario
begin

text \<open>
  A client that follows its host (\<open>src/client/model.rs\<close> against \<open>src/domain/event.rs\<close>).  The host's
  side is \<open>host_step\<close>: the state of every task is what \<open>apply\<close> makes of its events.  The client keeps
  the same snapshots without their artifacts (\<open>forget\<close>) and one summary per artifact; \<open>in_sync\<close> relates
  the two, \<open>stage_sync\<close> compares one event on both sides, and the property at the end lifts it to logs.
\<close>

section \<open>Applying an event without the artifacts\<close>


definition forget :: "task_snapshot \<Rightarrow> task_snapshot" where
  "forget s = s \<lparr> sn_artifacts := bempty \<rparr>"

lemma forget_fields [simp]:
  "sn_task (forget s) = sn_task s" "sn_connectivity (forget s) = sn_connectivity s"
  "sn_attention (forget s) = sn_attention s" "sn_activity (forget s) = sn_activity s"
  "sn_review_readiness (forget s) = sn_review_readiness s" "sn_agents (forget s) = sn_agents s"
  "sn_primary_agent_id (forget s) = sn_primary_agent_id s" "sn_artifacts (forget s) = bempty"
  "sn_resources (forget s) = sn_resources s" "sn_provider_sessions (forget s) = sn_provider_sessions s"
  "sn_browser (forget s) = sn_browser s" "sn_terminal_facts (forget s) = sn_terminal_facts s"
  "sn_terminal_strip (forget s) = sn_terminal_strip s"
  by (simp_all add: forget_def)

lemma forget_idem [simp]: "forget (forget s) = forget s" by (simp add: forget_def)

lemma forget_updates [simp]:
  "(forget s) \<lparr> sn_attention := a \<rparr> = forget (s \<lparr> sn_attention := a \<rparr>)"
  "(forget s) \<lparr> sn_browser := b \<rparr> = forget (s \<lparr> sn_browser := b \<rparr>)"
  "(forget s) \<lparr> sn_resources := r \<rparr> = forget (s \<lparr> sn_resources := r \<rparr>)"
  "(forget s) \<lparr> sn_terminal_facts := f \<rparr> = forget (s \<lparr> sn_terminal_facts := f \<rparr>)"
  "(forget s) \<lparr> sn_terminal_strip := p \<rparr> = forget (s \<lparr> sn_terminal_strip := p \<rparr>)"
  "(forget s) \<lparr> sn_primary_agent_id := i \<rparr> = forget (s \<lparr> sn_primary_agent_id := i \<rparr>)"
  "upd_task g (forget s) = forget (upd_task g s)"
  "upd_agent k ag (forget s) = forget (upd_agent k ag s)"
  "put_session k q (forget s) = forget (put_session k q s)"
  by (simp_all add: forget_def upd_task_def upd_agent_def put_session_def)

lemma forget_reads [simp]:
  "validate_snapshot_provider_fence (forget s) = validate_snapshot_provider_fence s"
  "input_fence (forget s) = input_fence s" "input_wait_fence (forget s) = input_wait_fence s"
  "input_current_turn (forget s) = input_current_turn s" "current_turn_of i (forget s) = current_turn_of i s"
  "session_or_default i (forget s) = session_or_default i s" "presented_fence (forget s) = presented_fence s"
  "delivered_fence (forget s) = delivered_fence s" "is_unstarted_draft (forget s) = is_unstarted_draft s"
  "open_runtime_count (forget s) = open_runtime_count s" "visible_status (forget s) = visible_status s"
  "require_matching_task_id (forget s) = require_matching_task_id s"
  "require_next_revision (forget s) = require_next_revision s"
  unfolding fun_eq_iff validate_snapshot_provider_fence_def input_fence_def input_wait_fence_def
      input_current_turn_def current_turn_of_def session_or_default_def presented_fence_def delivered_fence_def
      is_unstarted_draft_def open_runtime_count_def visible_status_def require_matching_task_id_def
      require_next_revision_def forget_fields by simp_all

definition artifact_of :: "event \<Rightarrow> artifact_facts option" where
  "artifact_of e = (case e of ArtifactRegistered a \<Rightarrow> Some a | SpecialistHandoffRecorded _ a _ _ _ \<Rightarrow> Some a | _ \<Rightarrow> None)"

lemma map_ok_distrib:
  "map_ok f (rbind m g) = rbind m (\<lambda>y. map_ok f (g y))"
  "map_ok f (if b then p else q) = (if b then map_ok f p else map_ok f q)"
  "map_ok f (case o1 of None \<Rightarrow> n | Some v \<Rightarrow> h v) = (case o1 of None \<Rightarrow> map_ok f n | Some v \<Rightarrow> map_ok f (h v))"
  "map_ok f (case pr of (y, z) \<Rightarrow> c y z) = (case pr of (y, z) \<Rightarrow> map_ok f (c y z))"
  "map_ok f (case sm of Inl y \<Rightarrow> c1 y | Inr z \<Rightarrow> c2 z) = (case sm of Inl y \<Rightarrow> map_ok f (c1 y) | Inr z \<Rightarrow> map_ok f (c2 z))"
  by (simp_all add: rbind_def map_ok_def split: option.split prod.split sum.split)

lemma apply_into_forget:
  assumes "artifact_of e = None"
  shows "apply_into x at e (forget s) = map_ok forget (apply_into x at e s)"
  using assms
  by (cases e; simp add: apply_into_def artifact_of_def;
      (unfold apply_arm_defs Let_def forget_fields forget_reads forget_updates map_ok_distrib map_ok_simps rbind_assoc rbind_simps)?; (rule refl)?; simp?)

definition cites :: "ext \<Rightarrow> event \<Rightarrow> bool" where
  "cites x e =
     (case e of
        SpecialistHandoffRecorded _ a structured _ _ \<Rightarrow> structured \<and>
          (case structured_specialist_result (x_sha256 x) (x_from_json x) a of
             Inl _ \<Rightarrow> False | Inr r \<Rightarrow> sr_evidence r @ sr_artifacts r \<noteq> [])
      | _ \<Rightarrow> False)"

lemma artifact_of_cases:
  assumes "artifact_of e = Some a"
  obtains "e = ArtifactRegistered a" | sid structured epoch generation where
    "e = SpecialistHandoffRecorded sid a structured epoch generation"
  using assms by (cases e) (auto simp: artifact_of_def)

lemma check_refs_forget: "check_result_refs (forget s) ids = (if ids = [] then Inr () else Inl AeNotFound)"
  by (cases ids) (simp_all add: check_result_refs_def)

lemma check_refs_Nil [simp]: "check_result_refs s [] = Inr ()" by (simp add: check_result_refs_def)

lemma forget_artifacts [simp]: "forget (s \<lparr> sn_artifacts := m \<rparr>) = forget s"
  by (simp add: forget_def)

lemma apply_artifact_forget:
  assumes "artifact_of e = Some a" "\<not> bcontains (sn_artifacts s) (ar_id a)" "\<not> cites x e"
  shows "map_ok forget (apply_into x at e (forget s)) = map_ok forget (apply_into x at e s)"
  using assms(1)
proof (cases rule: artifact_of_cases)
  case 1
  then show ?thesis using assms(2)
    by (simp add: apply_into_def apply_artifact_registered_def map_ok_distrib)
next
  case (2 sid structured epoch generation)
  have refs: "rbind (map_err (\<lambda>_. AeInvalidTransition) (structured_specialist_result (x_sha256 x) (x_from_json x) a))
      (\<lambda>r. check_result_refs (forget s) (sr_evidence r @ sr_artifacts r)) =
    rbind (map_err (\<lambda>_. AeInvalidTransition) (structured_specialist_result (x_sha256 x) (x_from_json x) a))
      (\<lambda>r. check_result_refs s (sr_evidence r @ sr_artifacts r))" if structured
    using assms(3) that unfolding 2
    by (cases "structured_specialist_result (x_sha256 x) (x_from_json x) a") (auto simp: cites_def check_refs_forget)
  show ?thesis using refs assms(2)
    unfolding 2 apply_into_def event.case apply_handoff_recorded_def
    by (cases "ar_content_ref a"; cases structured)
      (simp_all add: map_ok_distrib forget_updates(8)[symmetric] del: forget_updates split: option.split)
qed

lemma apply_cites_forget:
  assumes "cites x e"
  shows "\<not> is_ok (apply_into x at e (forget s))"
  using assms
  by (cases e) (auto simp: cites_def is_ok_iff apply_into_def apply_handoff_recorded_def result_simps check_refs_forget
      split: artifact_content_ref.splits if_splits option.splits sum.splits)

lemma apply_artifact_result:
  assumes "artifact_of e = Some a" "apply_into x at e (forget s) = Inr n"
  shows "sn_artifacts n = binsert (ar_id a) a bempty"
  using assms(1)
proof (cases rule: artifact_of_cases)
  case 1
  then show ?thesis using assms(2) by (auto simp: apply_into_def apply_artifact_registered_def result_simps split: if_splits)
next
  case 2
  then show ?thesis using assms(2)
    by (auto simp: apply_into_def apply_handoff_recorded_def result_simps split: if_splits option.splits artifact_content_ref.splits)
qed

lemma set_revision_forget [simp]: "set_revision n (forget s) = forget (set_revision n s)"
  by (simp add: set_revision_def)

lemma apply_event_forget:
  assumes "artifact_of (de_payload ev) = None"
  shows "apply_event x (map_option forget s) ev = map_ok forget (apply_event x s ev)"
proof (cases s)
  case None
  then show ?thesis
    by (cases "de_payload ev")
      (auto simp: apply_event_def Let_def apply_task_created_def forget_def map_ok_distrib)
next
  case (Some s')
  note into = apply_into_forget[OF assms, of x "de_occurred_at_ms ev" s']
  have rev: "rbind (map_ok forget m) (\<lambda>s. Inr (set_revision n s)) = map_ok forget (rbind m (\<lambda>s. Inr (set_revision n s)))"
    for n and m :: "apply_error + task_snapshot"
    by (cases m) simp_all
  show ?thesis using into unfolding Some
    by (cases "de_payload ev")
      (simp_all add: apply_event_def Let_def apply_task_created_def apply_browser_event_def map_ok_distrib rev)
qed

lemma apply_event_artifact:
  assumes "artifact_of (de_payload ev) = Some a"
  shows "apply_event x s ev = rbind (ok_or s AeMissingSnapshot) (\<lambda>s. rbind (require_matching_task_id s ev) (\<lambda>_.
      rbind (require_next_revision s ev) (\<lambda>n. rbind (apply_into x (de_occurred_at_ms ev) (de_payload ev) s) (\<lambda>s.
        Inr (set_revision n s)))))"
  using assms by (cases rule: artifact_of_cases) (simp_all add: apply_event_def Let_def)

lemma map_ok_revision:
  "rbind m (\<lambda>s. Inr (forget (set_revision n s))) = rbind (map_ok forget m) (\<lambda>s. Inr (set_revision n s))"
  by (cases m) simp_all

lemma apply_event_artifact_forget:
  assumes "artifact_of (de_payload ev) = Some a" "\<not> cites x (de_payload ev)"
    and "\<And>t. s = Some t \<Longrightarrow> \<not> bcontains (sn_artifacts t) (ar_id a)"
  shows "map_ok forget (apply_event x (map_option forget s) ev) = map_ok forget (apply_event x s ev)"
  using assms apply_artifact_forget[OF assms(1) _ assms(2)]
  by (cases s) (simp_all add: apply_event_artifact map_ok_distrib map_ok_revision)

lemma apply_event_cites_forget:
  assumes "cites x (de_payload ev)"
  shows "\<not> is_ok (apply_event x (map_option forget s) ev)"
proof -
  obtain a where a: "artifact_of (de_payload ev) = Some a"
    using assms by (cases "de_payload ev") (auto simp: cites_def artifact_of_def)
  show ?thesis using apply_cites_forget[OF assms]
    by (cases s) (auto simp: apply_event_artifact[OF a] is_ok_iff result_simps)
qed

lemma apply_event_artifact_result:
  assumes "artifact_of (de_payload ev) = Some a" "apply_event x (map_option forget s) ev = Inr n"
  shows "n \<lparr> sn_artifacts := bremove (ar_id a) (sn_artifacts n) \<rparr> = forget n"
proof -
  obtain t m r where "apply_into x (de_occurred_at_ms ev) (de_payload ev) (forget t) = Inr m" "n = set_revision r m"
    using assms(2) by (auto simp: apply_event_artifact[OF assms(1)] result_simps)
  with apply_artifact_result[OF assms(1)] have "sn_artifacts n = binsert (ar_id a) a bempty"
    by (simp add: set_revision_def upd_task_def)
  then show ?thesis by (simp add: forget_def bremove_binsert_fresh)
qed

definition artifact_growth :: "domain_event \<Rightarrow> artifact_id \<Rightarrow> bool" where
  "artifact_growth ev i \<longleftrightarrow> (\<exists>a. artifact_of (de_payload ev) = Some a \<and> ar_id a = i)"

lemma apply_into_artifacts:
  assumes "apply_into x at e s = Inr s'"
  shows "sn_artifacts s' = (case artifact_of e of None \<Rightarrow> sn_artifacts s | Some a \<Rightarrow> binsert (ar_id a) a (sn_artifacts s))"
  using assms
  by (cases e) (auto simp: apply_into_def artifact_of_def apply_arm_defs result_simps Let_def upd_task_def upd_agent_def put_session_def
    split: if_splits option.splits prod.splits sum.splits artifact_content_ref.splits)

lemma apply_event_artifacts:
  assumes "apply_event x s ev = Inr s'" "bcontains (sn_artifacts s') i"
  shows "(\<exists>t. s = Some t \<and> bcontains (sn_artifacts t) i) \<or> (\<exists>a. artifact_of (de_payload ev) = Some a \<and> ar_id a = i)"
proof (cases s)
  case None
  then show ?thesis using assms
    by (cases "de_payload ev") (auto simp: apply_event_def Let_def apply_task_created_def result_simps split: if_splits)
next
  case (Some t)
  have into: "\<And>r. apply_into x at e t = Inr r \<Longrightarrow> bcontains (sn_artifacts r) i \<Longrightarrow>
      bcontains (sn_artifacts t) i \<or> (\<exists>a. artifact_of e = Some a \<and> ar_id a = i)" for at e
    by (drule apply_into_artifacts) (auto split: option.splits)
  from Some assms show ?thesis
    by (cases "de_payload ev")
      (auto simp: apply_event_def Let_def apply_task_created_def apply_browser_event_def result_simps set_revision_def upd_task_def
        artifact_of_def dest!: into split: if_splits)
qed

section \<open>What the host does with an event\<close>

definition host_only :: "event \<Rightarrow> bool" where
  "host_only e = (case e of HostCloseBegun _ _ _ \<Rightarrow> True | HostCleanupBranchCompleted _ _ _ _ \<Rightarrow> True | Purged \<Rightarrow> True | _ \<Rightarrow> False)"

definition host_step ::
  "ext \<Rightarrow> domain_event \<Rightarrow> (task_id \<rightharpoonup> task_snapshot) \<Rightarrow> apply_error + (task_id \<rightharpoonup> task_snapshot)" where
  "host_step x ev h =
     (if host_only (de_payload ev) then Inr h
      else case de_task_id ev of
          None \<Rightarrow> if operation_event_at (de_payload ev) \<noteq> None then Inr h else Inl AeTaskMismatch
        | Some i \<Rightarrow> map_ok (\<lambda>s. h(i \<mapsto> s)) (apply_event x (h i) ev))"

inductive operation_step :: "operation_state \<Rightarrow> outcome_source option \<Rightarrow> operation_state \<Rightarrow> bool" where
  cancelled: "operation_step OsAccepted None (OsCancelled t r)"
| uncertain: "operation_step OsAccepted None (OsUncertain t c)"
| dispatched: "operation_step OsAccepted (Some Dispatch) (OsSettled t ids)"
| dispatch_failed: "operation_step OsAccepted (Some Dispatch) (OsFailed t code)"
| reconciled: "t0 \<le> t \<Longrightarrow> operation_step (OsUncertain t0 c) (Some (VerifiedReconciliation n i)) (OsSettled t ids)"
| reconcile_failed: "t0 \<le> t \<Longrightarrow> operation_step (OsUncertain t0 c) (Some (VerifiedReconciliation n i)) (OsFailed t code)"

inductive_simps operation_step_final [simp]:
  "operation_step (OsSettled t ids) source next"
  "operation_step (OsFailed t code) source next"
  "operation_step (OsCancelled t r) source next"
inductive_simps operation_step_open:
  "operation_step OsAccepted source next"
  "operation_step (OsUncertain t c) source next"

definition outcome_of :: "event \<Rightarrow> (operation_id \<times> command_id \<times> outcome_source option \<times> operation_state) option" where
  "outcome_of e =
     (case e of
        OperationSettled f \<Rightarrow> Some (os_operation_id f, os_command_id f, Some (os_source f),
          OsSettled (os_settled_at_ms f) (os_result_event_ids f))
      | OperationFailed f \<Rightarrow> Some (of_operation_id f, of_command_id f, Some (of_source f),
          OsFailed (of_settled_at_ms f) (of_code f))
      | OperationCancelled f \<Rightarrow> Some (oc_operation_id f, oc_command_id f, None, OsCancelled (oc_settled_at_ms f) (oc_reason f))
      | OperationUncertain f \<Rightarrow> Some (ou_operation_id f, ou_command_id f, None, OsUncertain (ou_observed_at_ms f) (ou_code f))
      | _ \<Rightarrow> None)"

definition accepted_of :: "event \<Rightarrow> operation_accepted_fact option" where
  "accepted_of e = (case e of OperationAccepted f \<Rightarrow> Some f | _ \<Rightarrow> None)"

definition accepted_facts :: "domain_event \<Rightarrow> operation_accepted_fact \<Rightarrow> operation_facts" where
  "accepted_facts ev f = \<lparr> op_id = oa_operation_id f, op_command_id = oa_command_id f, op_task_id = de_task_id ev,
     op_state = OsAccepted, op_accepted_at_ms = oa_accepted_at_ms f \<rparr>"

definition operation_legal :: "domain_event \<Rightarrow> (operation_id \<rightharpoonup> operation_facts) \<Rightarrow> bool" where
  "operation_legal ev ops \<longleftrightarrow>
     (\<forall>at. operation_event_at (de_payload ev) = Some at \<longrightarrow> de_occurred_at_ms ev = at) \<and>
     (\<forall>f. accepted_of (de_payload ev) = Some f \<longrightarrow> ops (oa_operation_id f) = None) \<and>
     (\<forall>oid cid source next. outcome_of (de_payload ev) = Some (oid, cid, source, next) \<longrightarrow>
        (\<exists>f. ops oid = Some f \<and> op_command_id f = cid \<and> op_task_id f = de_task_id ev
             \<and> op_accepted_at_ms f \<le> de_occurred_at_ms ev \<and> operation_step (op_state f) source next))"

definition operation_after :: "domain_event \<Rightarrow> (operation_id \<rightharpoonup> operation_facts) \<Rightarrow> (operation_id \<rightharpoonup> operation_facts)" where
  "operation_after ev ops =
     (case accepted_of (de_payload ev) of
        Some f \<Rightarrow> ops(oa_operation_id f \<mapsto> accepted_facts ev f)
      | None \<Rightarrow>
          (case outcome_of (de_payload ev) of
             Some (oid, _, _, next) \<Rightarrow> ops(oid := map_option (\<lambda>f. f \<lparr> op_state := next \<rparr>) (ops oid))
           | None \<Rightarrow> ops))"

definition withheld :: "ext \<Rightarrow> domain_event \<Rightarrow> client_model \<Rightarrow> bool" where
  "withheld x ev m \<longleftrightarrow> (\<exists>a. artifact_of (de_payload ev) = Some a \<and>
     (bcontains (cm_artifact_summaries m) (ar_id a) \<or> \<not> is_ok (artifact_summary_from_facts (x_sha256 x) a)
      \<or> cites x (de_payload ev)))"

definition in_sync :: "(task_id \<rightharpoonup> task_snapshot) \<Rightarrow> client_model \<Rightarrow> bool" where
  "in_sync h m \<longleftrightarrow> (\<forall>i. bget (cm_tasks m) i = map_option forget (h i)) \<and>
     (\<forall>i s a. h i = Some s \<longrightarrow> bcontains (sn_artifacts s) a \<longrightarrow> bcontains (cm_artifact_summaries m) a)"

text \<open>Each payload is of one kind, and each kind is staged in one way.\<close>

lemma kind_excludes:
  "host_only e \<Longrightarrow> artifact_of e = None \<and> accepted_of e = None \<and> outcome_of e = None \<and> operation_event_at e = None"
  "artifact_of e = Some a \<Longrightarrow> \<not> host_only e \<and> accepted_of e = None \<and> outcome_of e = None \<and> operation_event_at e = None"
  "outcome_of e = Some r \<Longrightarrow> \<not> host_only e \<and> artifact_of e = None \<and> accepted_of e = None"
  "accepted_of e = Some f \<longleftrightarrow> e = OperationAccepted f"
  "accepted_of e = None \<Longrightarrow> outcome_of e = None \<Longrightarrow> operation_event_at e = None"
  "creates e \<longleftrightarrow> (\<exists>task c a v r. e = TaskCreated task c a v r)"
  by (cases e; simp add: host_only_def artifact_of_def accepted_of_def outcome_of_def operation_event_at_def creates_def)+

lemma payload_kinds:
  obtains (host) "host_only (de_payload ev)" "artifact_of (de_payload ev) = None" "accepted_of (de_payload ev) = None"
      "outcome_of (de_payload ev) = None" "operation_event_at (de_payload ev) = None"
  | (accepted) f where "de_payload ev = OperationAccepted f"
  | (outcome) oid cid source st where "outcome_of (de_payload ev) = Some (oid, cid, source, st)"
      "\<not> host_only (de_payload ev)" "artifact_of (de_payload ev) = None" "accepted_of (de_payload ev) = None"
  | (created) task c a v r where "de_payload ev = TaskCreated task c a v r"
  | (artifact) a where "artifact_of (de_payload ev) = Some a" "\<not> host_only (de_payload ev)"
      "accepted_of (de_payload ev) = None" "outcome_of (de_payload ev) = None" "operation_event_at (de_payload ev) = None"
  | (other) "\<not> host_only (de_payload ev)" "artifact_of (de_payload ev) = None" "accepted_of (de_payload ev) = None"
      "outcome_of (de_payload ev) = None" "operation_event_at (de_payload ev) = None" "\<not> creates (de_payload ev)"
proof (cases "host_only (de_payload ev)")
  case True
  then show thesis using kind_excludes(1)[OF True] by (intro host) simp_all
next
  case no_host: False
  show thesis
  proof (cases "artifact_of (de_payload ev)")
    case (Some a)
    then show thesis using kind_excludes(2)[OF Some] by (intro artifact) simp_all
  next
    case no_artifact: None
    show thesis
    proof (cases "accepted_of (de_payload ev)")
      case no_accepted: None
      show thesis
      proof (cases "outcome_of (de_payload ev)")
        case None
        show thesis
        proof (cases "creates (de_payload ev)")
          case False
          with no_host no_artifact no_accepted None kind_excludes(5)[OF no_accepted None] show thesis by (intro other)
        qed (auto simp: kind_excludes(6) intro: created)
      next
        case (Some r)
        obtain oid cid source st where r: "r = (oid, cid, source, st)" by (cases r) auto
        show thesis using Some no_host no_artifact no_accepted unfolding r by (rule outcome)
      qed
    qed (simp add: kind_excludes(4) accepted)
  qed
qed

lemma stage_host: "host_only (de_payload ev) \<Longrightarrow> stage_event x ev m = Inr nothing_staged"
  by (cases "de_payload ev")
     (auto simp: host_only_def stage_event_def require_operation_envelope_timestamp_def operation_event_at_def)

definition outcome_at :: "operation_state \<Rightarrow> int" where
  "outcome_at st = (case st of OsAccepted \<Rightarrow> 0 | OsSettled t _ \<Rightarrow> t | OsFailed t _ \<Rightarrow> t | OsCancelled t _ \<Rightarrow> t
     | OsUncertain t _ \<Rightarrow> t)"

lemma check_outcome_step:
  assumes "outcome_kind_of st = Some kind"
  shows "is_ok (check_outcome state source kind (outcome_at st)) \<longleftrightarrow> operation_step state source st"
  using assms
  by (cases st; simp add: outcome_kind_of_def outcome_at_def)
     (auto simp: check_outcome_def operation_step_open split: operation_state.splits option.splits outcome_source.splits)

lemma stage_outcome_kind:
  assumes "outcome_of (de_payload ev) = Some (oid, cid, source, st)"
  shows "operation_event_at (de_payload ev) = Some (outcome_at st)" "outcome_kind_of st \<noteq> None"
    "stage_event x ev m = rbind (require_operation_envelope_timestamp ev)
       (\<lambda>_. stage_outcome x ev oid cid (outcome_at st) source st m)"
  using assms
  by (cases "de_payload ev";
      auto simp: outcome_of_def stage_event_def operation_event_at_def outcome_kind_of_def outcome_at_def)+

lemma stage_artifact_kind:
  "artifact_of (de_payload ev) = Some a \<Longrightarrow> stage_event x ev m = stage_artifact x ev a m"
  by (cases "de_payload ev")
     (auto simp: artifact_of_def stage_event_def require_operation_envelope_timestamp_def operation_event_at_def)

lemma stage_other:
  assumes "\<not> host_only (de_payload ev)" "artifact_of (de_payload ev) = None" "accepted_of (de_payload ev) = None"
    "outcome_of (de_payload ev) = None" "operation_event_at (de_payload ev) = None" "\<not> creates (de_payload ev)"
  shows "stage_event x ev m = rbind (ok_or (de_task_id ev) CmApplyFailed) (\<lambda>i.
           rbind (apply_to_task x ev i m) (\<lambda>next. Inr (nothing_staged \<lparr> se_task := Some (i, next) \<rparr>)))"
  using assms
  by (cases "de_payload ev";
      simp add: host_only_def artifact_of_def accepted_of_def outcome_of_def creates_def stage_event_def
       require_operation_envelope_timestamp_def operation_event_at_def)


definition staged_tasks :: "staged_event_commit \<Rightarrow> (task_id \<rightharpoonup> task_snapshot) \<Rightarrow> (task_id \<rightharpoonup> task_snapshot)" where
  "staged_tasks st tasks = (case se_task st of None \<Rightarrow> tasks | Some (i, s) \<Rightarrow> tasks(i \<mapsto> s))"

definition staged_operations ::
  "staged_event_commit \<Rightarrow> (operation_id \<rightharpoonup> operation_facts) \<Rightarrow> (operation_id \<rightharpoonup> operation_facts)" where
  "staged_operations st ops = (case se_operation st of None \<Rightarrow> ops | Some (i, f) \<Rightarrow> ops(i \<mapsto> f))"

text \<open>What staging an event must amount to, given what the host does with it.\<close>

definition stages_as ::
  "ext \<Rightarrow> domain_event \<Rightarrow> client_model \<Rightarrow> (apply_error + (task_id \<rightharpoonup> task_snapshot)) \<Rightarrow> client_model_error + staged_event_commit \<Rightarrow> bool" where
  "stages_as x ev m host r \<longleftrightarrow>
     (is_ok r \<longleftrightarrow> operation_legal ev (bget (cm_operations m)) \<and> is_ok host \<and> \<not> withheld x ev m) \<and>
     (\<forall>st h'. r = Inr st \<longrightarrow> host = Inr h' \<longrightarrow>
        staged_tasks st (bget (cm_tasks m)) = map_option forget \<circ> h' \<and>
        staged_operations st (bget (cm_operations m)) = operation_after ev (bget (cm_operations m)) \<and>
        map_option as_id (se_artifact_summary st) = map_option ar_id (artifact_of (de_payload ev)))"

lemma passthrough_sync:
  assumes "in_sync h m" "artifact_of (de_payload ev) = None"
  shows "apply_to_task x ev i m = map_err (\<lambda>_. CmApplyFailed) (map_ok forget (apply_event x (h i) ev))"
  using assms apply_event_forget[OF assms(2)] by (simp add: apply_to_task_def in_sync_def)

lemma synced_update:
  assumes "in_sync h m"
  shows "(bget (cm_tasks m))(i \<mapsto> forget s) = map_option forget \<circ> h(i \<mapsto> s)"
  using assms by (auto simp: in_sync_def fun_eq_iff)

lemma synced: "in_sync h m \<Longrightarrow> bget (cm_tasks m) = map_option forget \<circ> h"
  by (auto simp: in_sync_def fun_eq_iff)

lemma not_withheld: "artifact_of (de_payload ev) = None \<Longrightarrow> \<not> withheld x ev m"
  by (simp add: withheld_def)

text \<open>The task of an operation event is looked up and left as it is.\<close>

lemma stage_passthrough_sync:
  assumes "in_sync h m" "artifact_of (de_payload ev) = None" "\<not> host_only (de_payload ev)"
    and "operation_event_at (de_payload ev) \<noteq> None"
  shows "is_ok (stage_task_passthrough x ev m) \<longleftrightarrow> is_ok (host_step x ev h)"
    and "stage_task_passthrough x ev m = Inr t \<Longrightarrow> host_step x ev h = Inr h' \<Longrightarrow>
      (case t of None \<Rightarrow> bget (cm_tasks m) | Some (i, s) \<Rightarrow> (bget (cm_tasks m))(i \<mapsto> s)) = map_option forget \<circ> h'"
  using assms synced[OF assms(1)] synced_update[OF assms(1)] passthrough_sync[OF assms(1,2)]
  by (auto simp: stage_task_passthrough_def host_step_def is_ok_iff result_simps split: option.splits)

lemma stage_sync_host:
  assumes "in_sync h m" "host_only (de_payload ev)" "artifact_of (de_payload ev) = None" "accepted_of (de_payload ev) = None"
    "outcome_of (de_payload ev) = None" "operation_event_at (de_payload ev) = None"
  shows "stages_as x ev m (host_step x ev h) (stage_event x ev m)"
  using assms synced[OF assms(1)]
  by (simp add: stages_as_def stage_host host_step_def operation_legal_def not_withheld nothing_staged_def staged_tasks_def
      staged_operations_def operation_after_def)

lemma stage_sync_accepted:
  assumes sync: "in_sync h m" and p: "de_payload ev = OperationAccepted f"
  shows "stages_as x ev m (host_step x ev h) (stage_event x ev m)"
proof -
  have e: "operation_event_at (de_payload ev) = Some (oa_accepted_at_ms f)" "artifact_of (de_payload ev) = None"
    "accepted_of (de_payload ev) = Some f" "outcome_of (de_payload ev) = None" "\<not> host_only (de_payload ev)"
    by (simp_all add: p operation_event_at_def artifact_of_def accepted_of_def outcome_of_def host_only_def)
  note pass = stage_passthrough_sync[OF sync e(2,5)]
  have stage: "stage_event x ev m = rbind (require_operation_envelope_timestamp ev) (\<lambda>_. stage_operation_accepted x ev f m)"
    by (simp add: stage_event_def p)
  show ?thesis
    using pass e unfolding stages_as_def stage operation_legal_def operation_after_def
    by (auto simp: require_operation_envelope_timestamp_def stage_operation_accepted_def is_ok_iff result_simps not_withheld
        staged_tasks_def staged_operations_def bcontains_iff accepted_facts_def fun_eq_iff split: if_splits)
qed

lemma stage_sync_outcome:
  assumes sync: "in_sync h m" and o: "outcome_of (de_payload ev) = Some (oid, cid, source, st)"
    "\<not> host_only (de_payload ev)" "artifact_of (de_payload ev) = None" "accepted_of (de_payload ev) = None"
  shows "stages_as x ev m (host_step x ev h) (stage_event x ev m)"
proof -
  note at = stage_outcome_kind(1)[OF o(1)] and stage = stage_outcome_kind(3)[OF o(1), of x m]
  note pass = stage_passthrough_sync[OF sync o(3,2)]
  obtain k where k: "outcome_kind_of st = Some k" using stage_outcome_kind(2)[OF o(1)] by auto
  have outcome: "stage_operation_outcome oid cid (de_task_id ev) (outcome_at st) source st m = Inr r \<longleftrightarrow>
      (\<exists>f. bget (cm_operations m) oid = Some f \<and> op_command_id f = cid \<and> op_task_id f = de_task_id ev
        \<and> op_accepted_at_ms f \<le> outcome_at st \<and> operation_step (op_state f) source st \<and> r = (oid, f \<lparr> op_state := st \<rparr>))" for r
    using check_outcome_step[OF k] by (auto simp: stage_operation_outcome_def result_simps k is_ok_iff split: if_splits)
  show ?thesis
    using pass o at outcome unfolding stages_as_def stage operation_legal_def operation_after_def
    by (auto simp: require_operation_envelope_timestamp_def stage_outcome_def is_ok_iff result_simps not_withheld
        staged_tasks_def staged_operations_def fun_eq_iff split: if_splits)
qed


lemma stage_sync_created:
  assumes sync: "in_sync h m" and p: "de_payload ev = TaskCreated task c a v r"
  shows "stages_as x ev m (host_step x ev h) (stage_event x ev m)"
proof -
  have e: "operation_event_at (de_payload ev) = None" "artifact_of (de_payload ev) = None"
    "accepted_of (de_payload ev) = None" "outcome_of (de_payload ev) = None" "\<not> host_only (de_payload ev)"
    by (simp_all add: p operation_event_at_def artifact_of_def accepted_of_def outcome_of_def host_only_def)
  have stage: "stage_event x ev m = (if bcontains (cm_tasks m) (tk_id task) then Inl CmApplyFailed
      else rbind (map_err (\<lambda>_. CmApplyFailed) (apply_event x None ev)) (\<lambda>s.
        Inr (nothing_staged \<lparr> se_task := Some (tk_id task, s) \<rparr>)))"
    using e by (simp add: stage_event_def p require_operation_envelope_timestamp_def)
  have only: "apply_event x (Some t) ev = Inl AeSnapshotAlreadyExists" for t
    by (simp add: apply_event_def p Let_def apply_task_created_def)
  have new: "apply_event x None ev = Inr s \<Longrightarrow> de_task_id ev = Some (tk_id task) \<and> forget s = s" for s
    by (auto simp: apply_event_def p Let_def apply_task_created_def forget_def result_simps split: if_splits)
  have present: "bcontains (cm_tasks m) i \<longleftrightarrow> h i \<noteq> None" for i
    using sync by (simp add: in_sync_def bcontains_iff)
  have legal: "operation_legal ev (bget (cm_operations m))" "operation_after ev (bget (cm_operations m)) = bget (cm_operations m)"
    using e by (simp_all add: operation_legal_def operation_after_def)
  show ?thesis
  proof (cases "is_ok (apply_event x None ev) \<and> h (tk_id task) = None")
    case True
    then obtain s where s: "apply_event x None ev = Inr s" "h (tk_id task) = None" by (auto simp: is_ok_iff)
    have "host_step x ev h = Inr (h(tk_id task \<mapsto> s))" using e(5) new[OF s(1)] s by (simp add: host_step_def)
    then show ?thesis using synced_update[OF sync, of "tk_id task" s] s legal e new[OF s(1)]
      by (simp add: stages_as_def stage present not_withheld staged_tasks_def staged_operations_def nothing_staged_def)
  next
    case False
    have "\<not> is_ok (host_step x ev h)"
    proof
      assume "is_ok (host_step x ev h)"
      then obtain i s where i: "de_task_id ev = Some i" "apply_event x (h i) ev = Inr s"
        using e(1,5) by (auto simp: host_step_def is_ok_iff result_simps split: option.splits)
      have "h i = None" using i(2) only by (cases "h i") simp_all
      then show False using new[of s] i False by (simp add: is_ok_iff)
    qed
    moreover have "\<not> is_ok (stage_event x ev m)" using False by (auto simp: stage present is_ok_iff result_simps)
    ultimately show ?thesis by (auto simp: stages_as_def is_ok_iff)
  qed
qed

lemma stage_sync_other:
  assumes sync: "in_sync h m"
    and k: "\<not> host_only (de_payload ev)" "artifact_of (de_payload ev) = None" "accepted_of (de_payload ev) = None"
      "outcome_of (de_payload ev) = None" "operation_event_at (de_payload ev) = None" "\<not> creates (de_payload ev)"
  shows "stages_as x ev m (host_step x ev h) (stage_event x ev m)"
  using k synced_update[OF sync] passthrough_sync[OF sync k(2)]
  unfolding stages_as_def stage_other[OF k] operation_legal_def operation_after_def
  by (auto simp: is_ok_iff result_simps not_withheld host_step_def staged_tasks_def staged_operations_def nothing_staged_def
      split: option.splits)

lemma stage_sync_artifact:
  assumes sync: "in_sync h m"
    and k: "artifact_of (de_payload ev) = Some a" "\<not> host_only (de_payload ev)"
      "accepted_of (de_payload ev) = None" "outcome_of (de_payload ev) = None" "operation_event_at (de_payload ev) = None"
  shows "stages_as x ev m (host_step x ev h) (stage_event x ev m)"
proof (cases "bcontains (cm_artifact_summaries m) (ar_id a) \<or> cites x (de_payload ev) \<or> de_task_id ev = None")
  case True
  moreover have "\<not> is_ok (apply_to_task x ev i m)" if "cites x (de_payload ev)" for i
    using apply_event_cites_forget[OF that, of "h i"] sync
    by (auto simp: apply_to_task_def in_sync_def is_ok_iff result_simps)
  ultimately have "\<not> is_ok (stage_event x ev m)"
    by (auto simp: stage_artifact_kind[OF k(1)] stage_artifact_def is_ok_iff result_simps)
  moreover have "withheld x ev m \<or> \<not> is_ok (host_step x ev h)"
    using True k by (auto simp: withheld_def host_step_def is_ok_iff)
  ultimately show ?thesis by (auto simp: stages_as_def is_ok_iff)
next
  case False
  then obtain i where i: "de_task_id ev = Some i" and cites: "\<not> cites x (de_payload ev)"
    and fresh: "\<not> bcontains (cm_artifact_summaries m) (ar_id a)" by blast
  have "map_ok forget (apply_event x (map_option forget (h i)) ev) = map_ok forget (apply_event x (h i) ev)"
    using fresh sync unfolding in_sync_def by (intro apply_event_artifact_forget[OF k(1) cites]) blast
  then have same: "map_ok forget (apply_event x (bget (cm_tasks m) i) ev) = map_ok forget (apply_event x (h i) ev)"
    using sync by (simp add: in_sync_def)
  have removed: "apply_event x (bget (cm_tasks m) i) ev = Inr n \<Longrightarrow>
      n \<lparr> sn_artifacts := bremove (ar_id a) (sn_artifacts n) \<rparr> = forget n" for n
    using apply_event_artifact_result[OF k(1)] sync by (simp add: in_sync_def)
  have withheld: "withheld x ev m \<longleftrightarrow> \<not> is_ok (artifact_summary_from_facts (x_sha256 x) a)"
    using k(1) fresh cites by (auto simp: withheld_def)
  have summary: "artifact_summary_from_facts (x_sha256 x) a = Inr y \<Longrightarrow> as_id y = ar_id a" for y
    by (auto simp: artifact_summary_from_facts_def result_simps)
  have legal: "operation_legal ev (bget (cm_operations m))" "operation_after ev (bget (cm_operations m)) = bget (cm_operations m)"
    using k by (simp_all add: operation_legal_def operation_after_def)
  show ?thesis
  proof (cases "apply_event x (h i) ev")
    case (Inl e)
    then have "\<not> is_ok (apply_event x (bget (cm_tasks m) i) ev)"
      using same by (cases "apply_event x (bget (cm_tasks m) i) ev") simp_all
    then show ?thesis using Inl i k
      by (auto simp: stages_as_def stage_artifact_kind[OF k(1)] stage_artifact_def host_step_def apply_to_task_def is_ok_iff result_simps)
  next
    case (Inr s)
    then obtain n where n: "apply_event x (bget (cm_tasks m) i) ev = Inr n" "forget n = forget s"
      using same by (cases "apply_event x (bget (cm_tasks m) i) ev") simp_all
    have host: "host_step x ev h = Inr (h(i \<mapsto> s))" using Inr i k by (simp add: host_step_def)
    have stage: "stage_event x ev m = rbind (map_err (\<lambda>_. CmApplyFailed) (artifact_summary_from_facts (x_sha256 x) a))
        (\<lambda>summary. Inr \<lparr> se_task = Some (i, forget s), se_operation = None, se_artifact_summary = Some summary \<rparr>)"
      using fresh i n removed[OF n(1)] by (simp add: stage_artifact_kind[OF k(1)] stage_artifact_def apply_to_task_def)
    show ?thesis unfolding stages_as_def host stage legal withheld
      using synced_update[OF sync, of i s] summary legal k(1)
      by (auto simp: is_ok_iff result_simps staged_tasks_def staged_operations_def)
  qed
qed

lemma stage_sync: "in_sync h m \<Longrightarrow> stages_as x ev m (host_step x ev h) (stage_event x ev m)"
  by (rule payload_kinds[of ev])
     (blast intro: stage_sync_host stage_sync_accepted stage_sync_outcome stage_sync_created stage_sync_artifact stage_sync_other)+

lemma commit_staged_fields:
  "bget (cm_tasks (commit_staged env ev st m)) = staged_tasks st (bget (cm_tasks m))"
  "bget (cm_operations (commit_staged env ev st m)) = staged_operations st (bget (cm_operations m))"
  "bcontains (cm_artifact_summaries (commit_staged env ev st m)) i \<longleftrightarrow>
     map_option as_id (se_artifact_summary st) = Some i \<or> bcontains (cm_artifact_summaries m) i"
  "cm_last_applied_sequence (commit_staged env ev st m) = de_sequence ev"
  by (auto simp: commit_staged_def commit_task_def Let_def staged_tasks_def staged_operations_def fun_eq_iff
      split: option.split prod.split)

lemma host_step_artifacts:
  assumes "host_step x ev h = Inr h'" "h' i = Some s" "bcontains (sn_artifacts s) a"
  shows "(\<exists>t. h i = Some t \<and> bcontains (sn_artifacts t) a) \<or> map_option ar_id (artifact_of (de_payload ev)) = Some a"
  using assms apply_event_artifacts[of x "h i" ev s a]
  by (auto simp: host_step_def result_simps split: if_splits option.splits)

text \<open>One event, seen by the host and by a client in step with it.\<close>

lemma client_event_sync:
  assumes "in_sync h m"
  shows "is_ok (client_apply_event x env ev m) \<longleftrightarrow>
      cm_last_applied_sequence m < de_sequence ev \<and> operation_legal ev (bget (cm_operations m))
      \<and> is_ok (host_step x ev h) \<and> \<not> withheld x ev m"
    and "client_apply_event x env ev m = Inr m' \<Longrightarrow> \<exists>h'. host_step x ev h = Inr h' \<and> in_sync h' m'
      \<and> bget (cm_operations m') = operation_after ev (bget (cm_operations m)) \<and> cm_last_applied_sequence m' = de_sequence ev"
proof -
  note stage = stage_sync[OF assms, of x ev]
  show "is_ok (client_apply_event x env ev m) \<longleftrightarrow>
      cm_last_applied_sequence m < de_sequence ev \<and> operation_legal ev (bget (cm_operations m))
      \<and> is_ok (host_step x ev h) \<and> \<not> withheld x ev m"
    using stage by (auto simp: client_apply_event_def apply_one_event_def stages_as_def is_ok_iff result_simps)
  assume "client_apply_event x env ev m = Inr m'"
  then obtain st where st: "stage_event x ev m = Inr st" and m': "m' = commit_staged env ev st m"
    by (auto simp: client_apply_event_def apply_one_event_def result_simps split: if_splits)
  then obtain h' where h': "host_step x ev h = Inr h'" using stage by (auto simp: stages_as_def is_ok_iff)
  have s: "staged_tasks st (bget (cm_tasks m)) = map_option forget \<circ> h'"
    "staged_operations st (bget (cm_operations m)) = operation_after ev (bget (cm_operations m))"
    "map_option as_id (se_artifact_summary st) = map_option ar_id (artifact_of (de_payload ev))"
    using stage st h' by (auto simp: stages_as_def)
  have "in_sync h' m'"
    using host_step_artifacts[OF h'] assms s
    unfolding in_sync_def m' commit_staged_fields(3) commit_staged_fields(1) by (auto simp: fun_eq_iff) blast
  then show "\<exists>h'. host_step x ev h = Inr h' \<and> in_sync h' m'
      \<and> bget (cm_operations m') = operation_after ev (bget (cm_operations m)) \<and> cm_last_applied_sequence m' = de_sequence ev"
    using h' s by (simp add: m' commit_staged_fields)
qed


fun legal_log :: "domain_event list \<Rightarrow> (operation_id \<rightharpoonup> operation_facts) \<Rightarrow> bool" where
  "legal_log [] ops = True"
| "legal_log (ev # evs) ops = (operation_legal ev ops \<and> legal_log evs (operation_after ev ops))"

text \<open>The artifact events of a log that a client can carry: new identities, an intact inline body, no citation.\<close>

fun shippable_log :: "ext \<Rightarrow> domain_event list \<Rightarrow> artifact_id set \<Rightarrow> bool" where
  "shippable_log x [] known = True"
| "shippable_log x (ev # evs) known =
     (case artifact_of (de_payload ev) of
        None \<Rightarrow> shippable_log x evs known
      | Some a \<Rightarrow> ar_id a \<notin> known \<and> is_ok (artifact_summary_from_facts (x_sha256 x) a) \<and> \<not> cites x (de_payload ev)
          \<and> shippable_log x evs (insert (ar_id a) known))"

definition known_artifacts :: "client_model \<Rightarrow> artifact_id set" where
  "known_artifacts m = {a. bcontains (cm_artifact_summaries m) a}"

lemma shippable_log_Cons:
  "shippable_log x (ev # evs) (known_artifacts m) \<longleftrightarrow>
     \<not> withheld x ev m \<and> shippable_log x evs (known_artifacts m \<union> set_option (map_option ar_id (artifact_of (de_payload ev))))"
  by (cases "artifact_of (de_payload ev)") (auto simp: withheld_def known_artifacts_def)

lemma client_event_artifacts:
  assumes "in_sync h m" "client_apply_event x env ev m = Inr m'"
  shows "known_artifacts m' = known_artifacts m \<union> set_option (map_option ar_id (artifact_of (de_payload ev)))"
proof -
  obtain st where st: "stage_event x ev m = Inr st" and m': "m' = commit_staged env ev st m"
    using assms(2) by (auto simp: client_apply_event_def apply_one_event_def result_simps split: if_splits)
  have "map_option as_id (se_artifact_summary st) = map_option ar_id (artifact_of (de_payload ev))"
    using stage_sync[OF assms(1), of x ev] st by (auto simp: stages_as_def is_ok_iff)
  then show ?thesis by (auto simp: known_artifacts_def m' commit_staged_fields)
qed

lemma try_fold_is_ok_Cons: "is_ok (try_fold step (e # es) s) \<longleftrightarrow> (\<exists>s'. step e s = Inr s' \<and> is_ok (try_fold step es s'))"
  by (cases "step e s") simp_all

lemma client_log_sync:
  assumes "in_sync h m"
  shows "(is_ok (try_fold (client_apply_event x env) evs m) \<longleftrightarrow>
       is_ok (try_fold (host_step x) evs h) \<and> sorted_wrt (<) (cm_last_applied_sequence m # map de_sequence evs)
       \<and> legal_log evs (bget (cm_operations m)) \<and> shippable_log x evs (known_artifacts m)) \<and>
     (\<forall>m'. try_fold (client_apply_event x env) evs m = Inr m' \<longrightarrow>
       (\<exists>h'. try_fold (host_step x) evs h = Inr h' \<and> in_sync h' m') \<and>
       bget (cm_operations m') = fold operation_after evs (bget (cm_operations m)) \<and>
       cm_last_applied_sequence m' = last (cm_last_applied_sequence m # map de_sequence evs))"
  using assms
proof (induction evs arbitrary: h m)
  case (Cons ev evs)
  note step = client_event_sync[OF Cons.prems, of x env ev]
  show ?case
  proof (cases "client_apply_event x env ev m")
    case (Inl e)
    then have "\<not> (cm_last_applied_sequence m < de_sequence ev \<and> operation_legal ev (bget (cm_operations m))
        \<and> is_ok (host_step x ev h) \<and> \<not> withheld x ev m)" using step(1) by simp
    then have "\<not> (is_ok (try_fold (host_step x) (ev # evs) h)
       \<and> sorted_wrt (<) (cm_last_applied_sequence m # map de_sequence (ev # evs))
       \<and> legal_log (ev # evs) (bget (cm_operations m)) \<and> shippable_log x (ev # evs) (known_artifacts m))"
      unfolding try_fold_is_ok_Cons shippable_log_Cons by (auto simp: is_ok_iff)
    moreover have "try_fold (client_apply_event x env) (ev # evs) m = Inl e" by (simp add: Inl)
    ultimately show ?thesis by (metis Inl_Inr_False is_ok_simps(1))
  next
    case (Inr m1)
    from step(2)[OF this] obtain h1 where h1: "host_step x ev h = Inr h1" "in_sync h1 m1"
      "bget (cm_operations m1) = operation_after ev (bget (cm_operations m))" "cm_last_applied_sequence m1 = de_sequence ev" by blast
    have legal: "cm_last_applied_sequence m < de_sequence ev" "operation_legal ev (bget (cm_operations m))" "\<not> withheld x ev m"
      using step(1) Inr by simp_all
    have sorted: "sorted_wrt (<) (cm_last_applied_sequence m # map de_sequence (ev # evs)) \<longleftrightarrow>
        sorted_wrt (<) (cm_last_applied_sequence m1 # map de_sequence evs)"
      using legal(1) by (auto simp: h1(4))
    have known: "shippable_log x (ev # evs) (known_artifacts m) \<longleftrightarrow> shippable_log x evs (known_artifacts m1)"
      using legal(3) client_event_artifacts[OF Cons.prems Inr] unfolding shippable_log_Cons by simp
    show ?thesis
      using Cons.IH[OF h1(2)] legal(2) unfolding sorted known
      by (simp add: Inr h1)
  qed
qed (auto intro: exI[of _ h])

text \<open>C10. A client in step with its host stays in step.  Take a client whose tasks are the host's, less
  the artifact bodies it never keeps.  It applies a log exactly when the host does, the sequence numbers
  rise, every operation event is a legal step of its operation, and every artifact event carries a new
  identity, an intact body and no citation of other artifacts; and then its tasks are again the host's,
  and its operations are those the log says.\<close>

theorem client_follows_host:
  assumes "in_sync h m"
  shows "(is_ok (try_fold (client_apply_event x env) evs m) \<longleftrightarrow>
       is_ok (try_fold (host_step x) evs h) \<and> sorted_wrt (<) (cm_last_applied_sequence m # map de_sequence evs)
       \<and> legal_log evs (bget (cm_operations m)) \<and> shippable_log x evs (known_artifacts m)) \<and>
     (\<forall>m'. try_fold (client_apply_event x env) evs m = Inr m' \<longrightarrow>
       (\<exists>h'. try_fold (host_step x) evs h = Inr h' \<and> in_sync h' m') \<and>
       bget (cm_operations m') = fold operation_after evs (bget (cm_operations m)) \<and>
       cm_last_applied_sequence m' = last (cm_last_applied_sequence m # map de_sequence evs))"
  using assms by (rule client_log_sync)

definition empty_model :: "index_env \<Rightarrow> client_model" where
  "empty_model env = \<lparr> cm_tasks = bempty, cm_host_resources = bempty, cm_operations = bempty, cm_artifact_summaries = bempty,
     cm_last_applied_sequence = 0, cm_replay_through = None, cm_replay_page_count = 0, cm_replay_cursors = [],
     cm_index = index_from_tasks env bempty 0, cm_admitted_task_detail = bempty \<rparr>"

definition sample_accepted :: domain_event where
  "sample_accepted = \<lparr> de_id = Id 22, de_task_id = Some (Id 1), de_sequence = 4, de_task_revision = None,
     de_occurred_at_ms = 8, de_payload = OperationAccepted \<lparr> oa_command_id = Id 41, oa_operation_id = Id 40,
       oa_accepted_at_ms = 8, oa_action_epoch = None, oa_resource_id = None, oa_runtime_generation = None \<rparr> \<rparr>"

lemma empty_in_sync: "in_sync Map.empty (empty_model env)"
  by (simp add: in_sync_def empty_model_def)

lemma sample_host_log: "try_fold (host_step sc_ext) [sc_created, sample_accepted] Map.empty = Inr [Id 1 \<mapsto> sc_start]"
proof -
  have 1: "host_step sc_ext sc_created Map.empty = Inr [Id 1 \<mapsto> sc_start]"
    using sc_apply_create by (simp add: host_step_def host_only_def sc_created_def)
  have "apply_event sc_ext (Some sc_start) sample_accepted = Inr sc_start"
    by (simp add: apply_event_def sample_accepted_def require_matching_task_id_def sc_start_def sc_task_def)
  then have "host_step sc_ext sample_accepted [Id 1 \<mapsto> sc_start] = Inr [Id 1 \<mapsto> sc_start]"
    by (simp add: host_step_def host_only_def sample_accepted_def fun_upd_idem)
  with 1 show ?thesis by simp
qed

lemma sample_log_legal:
  "sorted_wrt (<) (cm_last_applied_sequence (empty_model env) # map de_sequence [sc_created, sample_accepted])"
  "legal_log [sc_created, sample_accepted] (bget (cm_operations (empty_model env)))"
  "shippable_log sc_ext [sc_created, sample_accepted] (known_artifacts (empty_model env))"
  by (simp_all add: empty_model_def sc_created_def sample_accepted_def operation_legal_def operation_after_def accepted_of_def
      outcome_of_def operation_event_at_def artifact_of_def)

theorem client_follows_host_witness:
  "\<exists>m. try_fold (client_apply_event sc_ext sample_env) [sc_created, sample_accepted] (empty_model sample_env) = Inr m
     \<and> bget (cm_tasks m) (Id 1) = Some sc_start \<and> bget (cm_operations m) (Id 40) \<noteq> None
     \<and> cm_last_applied_sequence m = 4"
proof -
  note follow = client_follows_host[OF empty_in_sync, of sc_ext sample_env "[sc_created, sample_accepted]" sample_env]
  have "is_ok (try_fold (host_step sc_ext) [sc_created, sample_accepted] Map.empty)" unfolding sample_host_log by simp
  with follow sample_log_legal obtain m where m:
    "try_fold (client_apply_event sc_ext sample_env) [sc_created, sample_accepted] (empty_model sample_env) = Inr m"
    unfolding is_ok_iff by blast
  with follow have "in_sync [Id 1 \<mapsto> sc_start] m"
    "bget (cm_operations m) = fold operation_after [sc_created, sample_accepted] (bget (cm_operations (empty_model sample_env)))"
    "cm_last_applied_sequence m = last (cm_last_applied_sequence (empty_model sample_env) # map de_sequence [sc_created, sample_accepted])"
    using sample_host_log by auto
  then have "bget (cm_tasks m) (Id 1) = Some sc_start \<and> bget (cm_operations m) (Id 40) \<noteq> None \<and> cm_last_applied_sequence m = 4"
    by (simp add: in_sync_def operation_after_def accepted_of_def sample_accepted_def sc_created_def outcome_of_def forget_def sc_start_def)
  with m show ?thesis by blast
qed

end
