(* ===== verification/Client_Assembly.thy ===== *)
theory Client_Assembly
  imports Client_Model Scenario
begin

text \<open>
  The model assembled from the pages of a snapshot: what the builder holds after it accepted a list of
  pages, how the rows are placed below their tasks (the locale \<open>placement\<close>, interpreted by the agent,
  resource, context and tab rows), and that the finished model is a copy of the rows.
\<close>

section \<open>Pages into the builder\<close>

fun ingest_pages :: "snapshot_page list \<Rightarrow> client_model_builder \<Rightarrow> unit building" where
  "ingest_pages [] b = (Inr (), b)"
| "ingest_pages (p # ps) b = then_build (ingest_page p b) (\<lambda>_. ingest_pages ps)"

text \<open>The rows a builder holds, as items; each table is keyed by the identity of its rows.\<close>

definition holds :: "client_model_builder \<Rightarrow> snapshot_item \<Rightarrow> bool" where
  "holds b item =
     (case item of
        ItTask t \<Rightarrow> bget (mb_tasks b) (tk_id (ti_task t)) = Some t
      | ItAgentSession a \<Rightarrow> bget (mb_agents b) (ag_id a) = Some a
      | ItArtifact a \<Rightarrow> bget (mb_artifacts b) (as_id a) = Some a
      | ItResource r \<Rightarrow> bget (mb_resources b) (rs_id r) = Some r
      | ItOperation f \<Rightarrow> bget (mb_operations b) (op_id f) = Some f
      | ItBrowserContext c \<Rightarrow> bget (mb_browser_contexts b) (cv_context_id c) = Some c
      | ItBrowserTab t \<Rightarrow> bget (mb_browser_tabs b) (tv_tab_id t) = Some t)"

definition keyed :: "client_model_builder \<Rightarrow> bool" where
  "keyed b \<longleftrightarrow>
     (\<forall>k t. bget (mb_tasks b) k = Some t \<longrightarrow> tk_id (ti_task t) = k) \<and>
     (\<forall>k a. bget (mb_agents b) k = Some a \<longrightarrow> ag_id a = k) \<and>
     (\<forall>k a. bget (mb_artifacts b) k = Some a \<longrightarrow> as_id a = k) \<and>
     (\<forall>k r. bget (mb_resources b) k = Some r \<longrightarrow> rs_id r = k \<and> resource_validate r = Inr ()) \<and>
     (\<forall>k f. bget (mb_operations b) k = Some f \<longrightarrow> op_id f = k) \<and>
     (\<forall>k c. bget (mb_browser_contexts b) k = Some c \<longrightarrow> cv_context_id c = k) \<and>
     (\<forall>k t. bget (mb_browser_tabs b) k = Some t \<longrightarrow> tv_tab_id t = k)"

text \<open>\<open>loaded items b\<close>: the builder holds exactly these rows, no two with one key.\<close>

definition loaded :: "snapshot_item list \<Rightarrow> client_model_builder \<Rightarrow> bool" where
  "loaded items b \<longleftrightarrow> keyed b \<and> (\<forall>item. holds b item \<longleftrightarrow> item \<in> set items) \<and> distinct (map snapshot_item_key_of items)"

definition same_rows :: "client_model_builder \<Rightarrow> client_model_builder \<Rightarrow> bool" where
  "same_rows b c \<longleftrightarrow> mb_tasks b = mb_tasks c \<and> mb_agents b = mb_agents c \<and> mb_artifacts b = mb_artifacts c
     \<and> mb_resources b = mb_resources c \<and> mb_operations b = mb_operations c
     \<and> mb_browser_contexts b = mb_browser_contexts c \<and> mb_browser_tabs b = mb_browser_tabs c"

lemma loaded_same_rows: "same_rows b c \<Longrightarrow> loaded items b = loaded items c"
  by (auto simp: loaded_def keyed_def holds_def same_rows_def split: snapshot_item.splits)

lemma then_build_Inr:
  "then_build r f = (Inr v, c) \<longleftrightarrow> (\<exists>u b. r = (Inr u, b) \<and> f u b = (Inr v, c))"
  by (cases r; cases "fst r") (auto simp: then_build_def)

lemma loaded_new: "loaded [] builder_new"
  by (auto simp: loaded_def keyed_def holds_def builder_new_def split: snapshot_item.splits)

lemma was_fresh_Inr: "was_fresh p b = (Inr v, c) \<longleftrightarrow> \<not> p \<and> c = b"
  by (auto simp: was_fresh_def)

lemma admit_item_holds:
  assumes "keyed b" "admit_item sec item b = (Inr u, c)"
  shows "keyed c \<and> (\<forall>j. holds c j \<longleftrightarrow> j = item \<or> holds b j) \<and>
    (\<forall>j. holds b j \<longrightarrow> snapshot_item_key_of j \<noteq> snapshot_item_key_of item)"
proof -
  have "\<forall>j. holds c j \<longleftrightarrow> j = item \<or> holds b j"
    using assms
    by (cases item; cases sec; simp add: admit_item_def was_fresh_Inr split: sum.splits)
      (auto simp: holds_def bcontains_iff keyed_def split: snapshot_item.splits)
  moreover have "keyed c"
    using assms
    by (cases item; cases sec; simp add: admit_item_def was_fresh_Inr split: sum.splits)
      (auto simp: keyed_def bcontains_iff)
  moreover have "\<forall>j. holds b j \<longrightarrow> snapshot_item_key_of j \<noteq> snapshot_item_key_of item"
    using assms
    by (cases item; cases sec; simp add: admit_item_def was_fresh_Inr split: sum.splits)
      (auto simp: holds_def bcontains_iff snapshot_item_key_of_def split: snapshot_item.splits)
  ultimately show ?thesis by blast
qed

lemma admit_item_loaded:
  assumes "loaded items b" "admit_item sec item b = (Inr u, c)"
  shows "loaded (items @ [item]) c"
  using admit_item_holds[OF _ assms(2)] assms(1) by (auto simp: loaded_def)

lemma admit_items_loaded:
  assumes "loaded items b" "admit_items sec new b = (Inr u, c)"
  shows "loaded (items @ new) c"
  using assms
proof (induction new arbitrary: items b)
  case (Cons item new)
  then obtain v d where d: "admit_item sec item (b \<lparr> mb_item_count := mb_item_count b + 1 \<rparr>) = (Inr v, d)"
    "admit_items sec new d = (Inr u, c)"
    by (auto simp: then_build_Inr split: if_splits)
  have "loaded items (b \<lparr> mb_item_count := mb_item_count b + 1 \<rparr>)"
    using Cons.prems(1) loaded_same_rows[of b "b \<lparr> mb_item_count := mb_item_count b + 1 \<rparr>"] by (simp add: same_rows_def)
  from Cons.IH[OF admit_item_loaded[OF this d(1)] d(2)] show ?case by simp
qed simp

definition pinned :: "snapshot_page \<Rightarrow> client_model_builder \<Rightarrow> bool" where
  "pinned p b \<longleftrightarrow> mb_snapshot_id b = Some (sp_snapshot_id p) \<and> mb_through_sequence b = Some (sp_through_sequence p)"

definition same_pins :: "client_model_builder \<Rightarrow> client_model_builder \<Rightarrow> bool" where
  "same_pins b c \<longleftrightarrow> mb_snapshot_id c = mb_snapshot_id b \<and> mb_through_sequence c = mb_through_sequence b"

lemma pin_snapshot_Inr:
  assumes "pin_snapshot p b = (Inr u, c)"
  shows "same_rows b c \<and> pinned p c \<and> (\<forall>q. pinned q b \<longrightarrow> pinned q c) \<and> mb_sections c = mb_sections b
    \<and> mb_item_count c = mb_item_count b \<and> mb_page_count c = mb_page_count b"
  using assms by (auto simp: pin_snapshot_def then_build_Inr pinned_def same_rows_def split: option.splits if_splits)

lemma enter_section_Inr:
  "enter_section p b = (Inr u, c) \<Longrightarrow> same_rows b c \<and> same_pins b c"
  by (auto simp: enter_section_def Let_def same_rows_def same_pins_def split: if_splits)

lemma leave_section_Inr:
  "leave_section p b = (Inr u, c) \<Longrightarrow> same_rows b c \<and> same_pins b c"
  by (auto simp: leave_section_def Let_def same_rows_def same_pins_def split: if_splits option.splits)

lemma admit_item_pins: "admit_item sec item b = (r, c) \<Longrightarrow> same_pins b c"
  by (cases item; cases sec; simp add: admit_item_def was_fresh_def split: sum.splits if_splits)
     (auto simp: same_pins_def)

lemma same_pins_count [simp]: "same_pins b (c \<lparr> mb_item_count := n \<rparr>) = same_pins b c"
  "same_pins (b \<lparr> mb_item_count := n \<rparr>) c = same_pins b c"
  by (simp_all add: same_pins_def)

lemma admit_items_pins: "admit_items sec items b = (Inr u, c) \<Longrightarrow> same_pins b c"
proof (induction items arbitrary: b)
  case (Cons item items)
  then obtain v d where d: "admit_item sec item (b \<lparr> mb_item_count := mb_item_count b + 1 \<rparr>) = (Inr v, d)"
    "admit_items sec items d = (Inr u, c)"
    by (auto simp: then_build_Inr split: if_splits)
  from Cons.IH[OF d(2)] admit_item_pins[OF d(1)] show ?case by (simp add: same_pins_def)
qed (simp add: same_pins_def)

lemma ingest_page_steps:
  assumes "ingest_page p b = (Inr u, c)"
  obtains b1 b2 b3 where
    "pin_snapshot p (b \<lparr> mb_page_count := mb_page_count b + 1 \<rparr>) = (Inr (), b1)" "enter_section p b1 = (Inr (), b2)"
    "admit_items (sp_section p) (sp_items p) b2 = (Inr (), b3)" "leave_section p b3 = (Inr (), c)"
  using assms by (auto simp: ingest_page_def then_build_Inr split: if_splits)

lemma ingest_page_loaded:
  assumes "loaded items b" "ingest_page p b = (Inr u, c)"
  shows "loaded (items @ sp_items p) c \<and> pinned p c \<and> (\<forall>q. pinned q b \<longrightarrow> pinned q c)"
  using assms(2)
proof (rule ingest_page_steps)
  fix b1 b2 b3
  assume s: "pin_snapshot p (b \<lparr> mb_page_count := mb_page_count b + 1 \<rparr>) = (Inr (), b1)" "enter_section p b1 = (Inr (), b2)"
    "admit_items (sp_section p) (sp_items p) b2 = (Inr (), b3)" "leave_section p b3 = (Inr (), c)"
  note pin = pin_snapshot_Inr[OF s(1)] and enter = enter_section_Inr[OF s(2)] and leave = leave_section_Inr[OF s(4)]
  have "same_rows b b2" using pin enter by (auto simp: same_rows_def)
  then have "loaded items b2" using assms(1) loaded_same_rows by blast
  then have "loaded (items @ sp_items p) b3" using admit_items_loaded s(3) by blast
  then have "loaded (items @ sp_items p) c" using leave loaded_same_rows by blast
  moreover have "same_pins b1 c" using enter leave admit_items_pins[OF s(3)] by (auto simp: same_pins_def)
  ultimately show ?thesis using pin by (auto simp: pinned_def same_pins_def)
qed

lemma ingest_pages_loaded:
  assumes "loaded items b" "ingest_pages ps b = (Inr u, c)"
  shows "loaded (items @ concat (map sp_items ps)) c \<and> (\<forall>p \<in> set ps. pinned p c) \<and> (\<forall>q. pinned q b \<longrightarrow> pinned q c)"
  using assms
proof (induction ps arbitrary: items b)
  case (Cons p ps)
  then obtain v d where d: "ingest_page p b = (Inr v, d)" "ingest_pages ps d = (Inr u, c)"
    by (auto simp: then_build_Inr)
  note step = ingest_page_loaded[OF Cons.prems(1) d(1)]
  from Cons.IH[OF conjunct1[OF step] d(2)] step show ?case by auto
qed simp

section \<open>Rows into tasks\<close>

text \<open>
  Placing rows under their parents: each row names its parent, the parent must exist, and a row that
  is admitted changes its parent by \<open>put\<close>.  The finished table is then determined row by row.
\<close>

locale placement =
  fixes parent :: "'v \<Rightarrow> task_id"
    and admit :: "'k \<Rightarrow> 'v \<Rightarrow> task_snapshot \<Rightarrow> client_model_error + task_snapshot"
    and put :: "'k \<Rightarrow> 'v \<Rightarrow> task_snapshot \<Rightarrow> task_snapshot"
  assumes admitted: "admit k v s = Inr s' \<Longrightarrow> s' = put k v s"
begin

abbreviation place :: "'k \<times> 'v \<Rightarrow> task_table \<Rightarrow> client_model_error + task_table" where
  "place \<equiv> \<lambda>(k, v). with_parent (parent v) (admit k v)"

lemma place_Cons:
  assumes "try_fold place ((k, v) # rows) tasks = Inr tasks'"
  obtains s where "bget tasks (parent v) = Some s" "try_fold place rows (binsert (parent v) (put k v s) tasks) = Inr tasks'"
  using assms admitted by (auto simp: with_parent_def result_simps)

lemma placed:
  "try_fold place rows tasks = Inr tasks' \<Longrightarrow>
    bget tasks' i = map_option (fold (\<lambda>(k, v). put k v) (filter (\<lambda>(k, v). parent v = i) rows)) (bget tasks i)"
proof (induction rows arbitrary: tasks)
  case (Cons row rows)
  obtain k v where row: "row = (k, v)" by (cases row)
  from Cons.prems show ?case unfolding row
  proof (rule place_Cons)
    fix s
    assume "bget tasks (parent v) = Some s" "try_fold place rows (binsert (parent v) (put k v s) tasks) = Inr tasks'"
    with Cons.IH[OF this(2)] show "bget tasks' i =
      map_option (fold (\<lambda>(k, v). put k v) (filter (\<lambda>(k, v). parent v = i) ((k, v) # rows))) (bget tasks i)" by simp
  qed
qed (simp add: option.map_id0)

lemma parents:
  "try_fold place rows tasks = Inr tasks' \<Longrightarrow> (k, v) \<in> set rows \<Longrightarrow> bcontains tasks (parent v)"
proof (induction rows arbitrary: tasks)
  case (Cons row rows)
  obtain k' v' where row: "row = (k', v')" by (cases row)
  from Cons.prems(1) show ?case unfolding row
  proof (rule place_Cons)
    fix s
    assume s: "bget tasks (parent v') = Some s" "try_fold place rows (binsert (parent v') (put k' v' s) tasks) = Inr tasks'"
    show "bcontains tasks (parent v)"
      using Cons.IH[OF s(2)] Cons.prems(2) s(1) by (auto simp: row bcontains_iff split: if_splits)
  qed
qed simp
end

lemma map_of_rev_distinct: "distinct (map fst xs) \<Longrightarrow> map_of (rev xs) = map_of xs"
proof
  fix k
  assume "distinct (map fst xs)"
  then have "map_of (rev xs) k = Some v \<longleftrightarrow> map_of xs k = Some v" for v
    by (simp add: map_of_eq_Some_iff rev_map[symmetric])
  then show "map_of (rev xs) k = map_of xs k" by (metis not_Some_eq)
qed

lemma fold_binsert_filter:
  "fold (\<lambda>(k, v). binsert k v) (filter P (entries m)) bempty = bretain (\<lambda>k v. P (k, v)) m"
proof (rule bmap_eqI)
  fix k
  have "bget (fold (\<lambda>(k, v). binsert k v) xs n) k = (case map_of (rev xs) k of None \<Rightarrow> bget n k | Some v \<Rightarrow> Some v)"
    for xs and n :: "('a, 'b) bmap"
    by (induction xs arbitrary: n) (auto simp: map_add_def split: option.splits)
  moreover have "map_of (rev (filter P (entries m))) = map_of (filter P (entries m))"
    by (rule map_of_rev_distinct) (metis distinct_map_filter entries_sorted key_sorted_distinct)
  ultimately show "bget (fold (\<lambda>(k, v). binsert k v) (filter P (entries m)) bempty) k = bget (bretain (\<lambda>k v. P (k, v)) m) k"
    by (simp add: bget_def bretain.rep_eq case_prod_unfold split: option.split)
qed

lemma tasks_from_items_get:
  "bget (tasks_from_items with_primary items) i = map_option (\<lambda>it. if with_primary
      then task_snapshot_from_item it \<lparr> sn_primary_agent_id := ti_primary_agent_id it \<rparr>
      else task_snapshot_from_item it) (bget items i)"
proof -
  let ?f = "\<lambda>it. if with_primary then task_snapshot_from_item it \<lparr> sn_primary_agent_id := ti_primary_agent_id it \<rparr>
      else task_snapshot_from_item it"
  have "bget (fold (\<lambda>(i, it). binsert i (?f it)) xs n) i =
      (case map_of (rev xs) i of None \<Rightarrow> bget n i | Some it \<Rightarrow> Some (?f it))" for xs n
    by (induction xs arbitrary: n) (auto simp: map_add_def split: option.splits)
  then show ?thesis
    by (simp add: tasks_from_items_def map_of_rev_distinct key_sorted_distinct bget_def split: option.split)
qed

definition put_resource :: "resource_id \<Rightarrow> resource_facts \<Rightarrow> task_snapshot \<Rightarrow> task_snapshot" where
  "put_resource i r s = s \<lparr> sn_resources := binsert i r (sn_resources s) \<rparr>"

definition put_context :: "browser_context_id \<Rightarrow> browser_context_view \<Rightarrow> task_snapshot \<Rightarrow> task_snapshot" where
  "put_context i v s = s \<lparr> sn_browser := (sn_browser s)
     \<lparr> bb_open_tasks := bs_insert (cx_task_id (cv_state v)) (bb_open_tasks (sn_browser s)),
       bb_contexts := binsert (cv_context_id v) (cv_state v) (bb_contexts (sn_browser s)) \<rparr> \<rparr>"

definition put_tab :: "browser_tab_id \<Rightarrow> browser_tab_view \<Rightarrow> task_snapshot \<Rightarrow> task_snapshot" where
  "put_tab i v s = s \<lparr> sn_browser := (sn_browser s)
     \<lparr> bb_open_tasks := bs_insert (tb_task_id (tv_state v)) (bb_open_tasks (sn_browser s)),
       bb_tabs := binsert (tv_tab_id v) (tv_state v) (bb_tabs (sn_browser s)) \<rparr> \<rparr>"

lemma bs_insert_present: "bcontains m k \<Longrightarrow> bs_insert k m = m"
  by (rule bmap_eqI) (auto simp: bs_insert_def bcontains_iff)

lemma open_task_Inr: "open_task i b = Inr b' \<Longrightarrow> b' = b \<lparr> bb_open_tasks := bs_insert i (bb_open_tasks b) \<rparr>"
  by (auto simp: open_task_def bs_insert_present split: if_splits)

interpretation agent_rows: placement ag_task_id
  "\<lambda>i agent task. if bcontains (sn_agents task) i then Inl CmDuplicateItem else Inr (upd_agent i agent task)" upd_agent
  by unfold_locales (simp split: if_splits)

interpretation resource_rows: placement "\<lambda>r. the (rs_task_id r)"
  "\<lambda>i r task. if bcontains (sn_resources task) i then Inl CmDuplicateItem
     else Inr (task \<lparr> sn_resources := binsert i r (sn_resources task) \<rparr>)" put_resource
  by unfold_locales (auto simp: put_resource_def split: if_splits)

interpretation context_rows: placement "\<lambda>v. cx_task_id (cv_state v)"
  "\<lambda>i v task. rbind (project_book (project_context_view v) task) (\<lambda>task.
     if bcontains (bb_contexts (sn_browser task)) i then Inr task else Inl CmApplyFailed)" put_context
  by unfold_locales
    (auto simp: project_book_def project_context_view_def put_context_def result_simps split: if_splits dest!: open_task_Inr)

interpretation tab_rows: placement "\<lambda>v. tb_task_id (tv_state v)"
  "\<lambda>i v task. rbind (project_book (project_tab_view v) task) (\<lambda>task.
     if bcontains (bb_tabs (sn_browser task)) i then Inr task else Inl CmApplyFailed)" put_tab
  by unfold_locales
    (auto simp: project_book_def project_tab_view_def put_tab_def result_simps split: if_splits option.splits dest!: open_task_Inr)

text \<open>Resources of the host and resources of tasks are placed apart.\<close>

lemma place_resources:
  assumes "try_fold place_resource rows (tasks, host) = Inr (tasks', host')"
  shows "try_fold resource_rows.place (filter (\<lambda>(i, r). rs_owner_kind r = OwnerTask) rows) tasks = Inr tasks'
    \<and> host' = fold (\<lambda>(i, r). binsert i r) (filter (\<lambda>(i, r). rs_owner_kind r = OwnerHost) rows) host"
  using assms
proof (induction rows arbitrary: tasks host)
  case (Cons row rows)
  obtain i r where row: "row = (i, r)" by (cases row)
  show ?case
  proof (cases "rs_owner_kind r")
    case OwnerHost
    then have "place_resource (i, r) (tasks, host) = (if rs_task_id r \<noteq> None then Inl CmInvalidOwnership
        else if bcontains host i then Inl CmDuplicateItem else Inr (tasks, binsert i r host))"
      by (simp add: place_resource_def)
    then have "try_fold place_resource rows (tasks, binsert i r host) = Inr (tasks', host')"
      using Cons.prems by (auto simp: row split: if_splits)
    from Cons.IH[OF this] show ?thesis by (simp add: row OwnerHost)
  next
    case OwnerTask
    then have "place_resource (i, r) (tasks, host) =
        rbind (ok_or (rs_task_id r) CmInvalidOwnership) (\<lambda>tid.
        rbind (with_parent tid (\<lambda>task. if bcontains (sn_resources task) i then Inl CmDuplicateItem
            else Inr (task \<lparr> sn_resources := binsert i r (sn_resources task) \<rparr>)) tasks) (\<lambda>tasks. Inr (tasks, host)))"
      by (simp add: place_resource_def)
    then obtain tid tasks1 where "rs_task_id r = Some tid"
      "with_parent tid (\<lambda>task. if bcontains (sn_resources task) i then Inl CmDuplicateItem
          else Inr (task \<lparr> sn_resources := binsert i r (sn_resources task) \<rparr>)) tasks = Inr tasks1"
      "try_fold place_resource rows (tasks1, host) = Inr (tasks', host')"
      using Cons.prems by (auto simp: row result_simps)
    with Cons.IH[OF this(3)] show ?thesis by (simp add: row OwnerTask)
  qed
qed simp

text \<open>What the rows of one task leave in its snapshot.\<close>

lemma fold_upd_agent: "fold (\<lambda>(i, a). upd_agent i a) rows s =
    s \<lparr> sn_agents := fold (\<lambda>(i, a). binsert i a) rows (sn_agents s) \<rparr>"
  by (induction rows arbitrary: s) (auto simp: upd_agent_def)

lemma fold_put_resource: "fold (\<lambda>(i, r). put_resource i r) rows s =
    s \<lparr> sn_resources := fold (\<lambda>(i, r). binsert i r) rows (sn_resources s) \<rparr>"
  by (induction rows arbitrary: s) (auto simp: put_resource_def)

lemma fold_put_context:
  assumes "\<forall>(i, v) \<in> set rows. cx_task_id (cv_state v) = t \<and> cv_context_id v = i" "bcontains (bb_open_tasks (sn_browser s)) t"
  shows "fold (\<lambda>(i, v). put_context i v) rows s = s \<lparr> sn_browser := (sn_browser s)
    \<lparr> bb_contexts := fold (\<lambda>(i, v). binsert i (cv_state v)) rows (bb_contexts (sn_browser s)) \<rparr> \<rparr>"
  using assms by (induction rows arbitrary: s) (auto simp: put_context_def bs_insert_present)

lemma fold_put_tab:
  assumes "\<forall>(i, v) \<in> set rows. tb_task_id (tv_state v) = t \<and> tv_tab_id v = i" "bcontains (bb_open_tasks (sn_browser s)) t"
  shows "fold (\<lambda>(i, v). put_tab i v) rows s = s \<lparr> sn_browser := (sn_browser s)
    \<lparr> bb_tabs := fold (\<lambda>(i, v). binsert i (tv_state v)) rows (bb_tabs (sn_browser s)) \<rparr> \<rparr>"
  using assms by (induction rows arbitrary: s) (auto simp: put_tab_def bs_insert_present)

lemma fold_binsert_values:
  "fold (\<lambda>(i, v). binsert i (f v)) (filter P (entries m)) bempty = bmap_values f (bretain (\<lambda>k v. P (k, v)) m)"
proof -
  have insert: "binsert i (f v) (bmap_values f n) = bmap_values f (binsert i v n)" for i v n
    by (rule bmap_eqI) simp
  have "fold (\<lambda>(i, v). binsert i (f v)) rows (bmap_values f n) = bmap_values f (fold (\<lambda>(i, v). binsert i v) rows n)" for rows n
    by (induction rows arbitrary: n) (auto simp: insert)
  moreover have "bmap_values f bempty = bempty" by (rule bmap_eqI) simp
  ultimately show ?thesis by (metis fold_binsert_filter)
qed

definition assembled_task :: "client_model_builder \<Rightarrow> task_id \<Rightarrow> task_snapshot_item \<Rightarrow> task_snapshot" where
  "assembled_task b i it = (task_snapshot_from_item it)
     \<lparr> sn_primary_agent_id := ti_primary_agent_id it,
       sn_agents := bretain (\<lambda>_ a. ag_task_id a = i) (mb_agents b),
       sn_resources := bretain (\<lambda>_ r. rs_owner_kind r = OwnerTask \<and> the (rs_task_id r) = i) (mb_resources b),
       sn_browser := (opened_book i)
         \<lparr> bb_contexts := bmap_values cv_state (bretain (\<lambda>_ v. cx_task_id (cv_state v) = i) (mb_browser_contexts b)),
           bb_tabs := bmap_values tv_state (bretain (\<lambda>_ v. tb_task_id (tv_state v) = i) (mb_browser_tabs b)) \<rparr> \<rparr>"

lemma opened_book_simps [simp]:
  "bb_contexts (opened_book i) = bempty" "bb_tabs (opened_book i) = bempty" "bcontains (bb_open_tasks (opened_book i)) i"
  by (simp_all add: opened_book_def open_task_def book_new_def book_default_def MAX_BROWSER_OPEN_TASKS_def)

lemma finish_assembled_steps:
  assumes "finish_assembled env b = Inr m"
  obtains tasks1 tasks2 tasks3 tasks4 through where
    "try_fold agent_rows.place (entries (mb_agents b)) (tasks_from_items True (mb_tasks b)) = Inr tasks1"
    "try_fold context_rows.place (entries (mb_browser_contexts b)) tasks1 = Inr tasks2"
    "try_fold tab_rows.place (entries (mb_browser_tabs b)) tasks2 = Inr tasks3"
    "try_fold resource_rows.place (filter (\<lambda>(i, r). rs_owner_kind r = OwnerTask) (entries (mb_resources b))) tasks3 = Inr tasks4"
    "mb_through_sequence b = Some through"
    "m = \<lparr> cm_tasks = tasks4,
       cm_host_resources = bretain (\<lambda>_ r. rs_owner_kind r = OwnerHost) (mb_resources b), cm_operations = mb_operations b,
       cm_artifact_summaries = mb_artifacts b, cm_last_applied_sequence = through,
       cm_replay_through = None, cm_replay_page_count = 0, cm_replay_cursors = [],
       cm_index = index_from_tasks env tasks4 through, cm_admitted_task_detail = bempty \<rparr>"
    "\<forall>task \<in> set (bvalues tasks4). validate_primary_agent task = Inr ()"
proof -
  obtain tasks1 tasks2 tasks3 tasks4 host through where s:
    "try_fold place_agent (entries (mb_agents b)) (tasks_from_items True (mb_tasks b)) = Inr tasks1"
    "try_fold place_context (entries (mb_browser_contexts b)) tasks1 = Inr tasks2"
    "try_fold place_tab (entries (mb_browser_tabs b)) tasks2 = Inr tasks3"
    "try_fold place_resource (entries (mb_resources b)) (tasks3, bempty) = Inr (tasks4, host)"
    "mb_through_sequence b = Some through"
    "m = \<lparr> cm_tasks = tasks4, cm_host_resources = host, cm_operations = mb_operations b,
       cm_artifact_summaries = mb_artifacts b, cm_last_applied_sequence = through,
       cm_replay_through = None, cm_replay_page_count = 0, cm_replay_cursors = [],
       cm_index = index_from_tasks env tasks4 through, cm_admitted_task_detail = bempty \<rparr>"
    "\<forall>task \<in> set (bvalues tasks4). validate_primary_agent task = Inr ()"
    using assms unfolding finish_assembled_def by (auto simp: result_simps)
  have rows: "place_agent = agent_rows.place" "place_context = context_rows.place" "place_tab = tab_rows.place"
    by (auto simp: fun_eq_iff place_agent_def place_context_def place_tab_def)
  note res = place_resources[OF s(4)]
  have "host = bretain (\<lambda>_ r. rs_owner_kind r = OwnerHost) (mb_resources b)"
    using res fold_binsert_filter[of "\<lambda>(i, r). rs_owner_kind r = OwnerHost" "mb_resources b"] by simp
  then show thesis using that s res unfolding rows by simp
qed

lemma filter_entries_keyed:
  assumes "\<forall>k v. bget m k = Some v \<longrightarrow> key v = k"
  shows "\<forall>(k, v) \<in> set (filter (\<lambda>(k, v). P v) (entries m)). P v \<and> key v = k"
  using assms by (auto simp: in_entries_iff)

lemma finish_assembled_tasks:
  assumes "keyed b" "finish_assembled env b = Inr m"
  shows "bget (cm_tasks m) i = map_option (assembled_task b i) (bget (mb_tasks b) i)"
  using assms(2)
proof (rule finish_assembled_steps)
  fix tasks1 tasks2 tasks3 tasks4 through
  assume s: "try_fold agent_rows.place (entries (mb_agents b)) (tasks_from_items True (mb_tasks b)) = Inr tasks1"
    "try_fold context_rows.place (entries (mb_browser_contexts b)) tasks1 = Inr tasks2"
    "try_fold tab_rows.place (entries (mb_browser_tabs b)) tasks2 = Inr tasks3"
    "try_fold resource_rows.place (filter (\<lambda>(i, r). rs_owner_kind r = OwnerTask) (entries (mb_resources b))) tasks3 = Inr tasks4"
    and m: "m = \<lparr> cm_tasks = tasks4,
       cm_host_resources = bretain (\<lambda>_ r. rs_owner_kind r = OwnerHost) (mb_resources b), cm_operations = mb_operations b,
       cm_artifact_summaries = mb_artifacts b, cm_last_applied_sequence = through,
       cm_replay_through = None, cm_replay_page_count = 0, cm_replay_cursors = [],
       cm_index = index_from_tasks env tasks4 through, cm_admitted_task_detail = bempty \<rparr>"
  show "bget (cm_tasks m) i = map_option (assembled_task b i) (bget (mb_tasks b) i)"
  proof (cases "bget (mb_tasks b) i")
    case None
    then show ?thesis using agent_rows.placed[OF s(1), of i] context_rows.placed[OF s(2), of i]
      tab_rows.placed[OF s(3), of i] resource_rows.placed[OF s(4), of i] by (simp add: m tasks_from_items_get)
  next
    case (Some it)
    then have id: "tk_id (ti_task it) = i" using assms(1) by (simp add: keyed_def)
    let ?s0 = "task_snapshot_from_item it \<lparr> sn_primary_agent_id := ti_primary_agent_id it \<rparr>"
    let ?s1 = "?s0 \<lparr> sn_agents := bretain (\<lambda>_ a. ag_task_id a = i) (mb_agents b) \<rparr>"
    let ?b2 = "(opened_book i) \<lparr> bb_contexts :=
      bmap_values cv_state (bretain (\<lambda>_ v. cx_task_id (cv_state v) = i) (mb_browser_contexts b)) \<rparr>"
    let ?b3 = "?b2 \<lparr> bb_tabs := bmap_values tv_state (bretain (\<lambda>_ v. tb_task_id (tv_state v) = i) (mb_browser_tabs b)) \<rparr>"
    have book: "sn_browser ?s1 = opened_book i" by (simp add: task_snapshot_from_item_def id)
    have t1: "bget tasks1 i = Some ?s1"
      using agent_rows.placed[OF s(1), of i] fold_binsert_filter[of "\<lambda>(k, a). ag_task_id a = i" "mb_agents b"]
      by (simp add: tasks_from_items_get Some fold_upd_agent task_snapshot_from_item_def)
    have "\<forall>k c. bget (mb_browser_contexts b) k = Some c \<longrightarrow> cv_context_id c = k"
      "\<forall>k t. bget (mb_browser_tabs b) k = Some t \<longrightarrow> tv_tab_id t = k" using assms(1) by (simp_all add: keyed_def)
    note keys = this[THEN filter_entries_keyed]
    have t2: "bget tasks2 i = Some (?s1 \<lparr> sn_browser := ?b2 \<rparr>)"
      using context_rows.placed[OF s(2), of i] t1 book
        fold_put_context[OF keys(1)[of "\<lambda>v. cx_task_id (cv_state v) = i"], of ?s1]
        fold_binsert_values[of cv_state "\<lambda>(k, v). cx_task_id (cv_state v) = i" "mb_browser_contexts b"]
      by simp
    have t3: "bget tasks3 i = Some (?s1 \<lparr> sn_browser := ?b3 \<rparr>)"
      using tab_rows.placed[OF s(3), of i] t2 book
        fold_put_tab[OF keys(2)[of "\<lambda>v. tb_task_id (tv_state v) = i"], of "?s1 \<lparr> sn_browser := ?b2 \<rparr>"]
        fold_binsert_values[of tv_state "\<lambda>(k, v). tb_task_id (tv_state v) = i" "mb_browser_tabs b"]
      by simp
    have rows: "filter (\<lambda>(k, r). the (rs_task_id r) = i) (filter (\<lambda>(i, r). rs_owner_kind r = OwnerTask) (entries (mb_resources b)))
        = filter (\<lambda>(k, r). rs_owner_kind r = OwnerTask \<and> the (rs_task_id r) = i) (entries (mb_resources b))"
      by (auto simp: filter_filter intro: filter_cong)
    have "bget tasks4 i = Some (?s1 \<lparr> sn_browser := ?b3,
        sn_resources := bretain (\<lambda>_ r. rs_owner_kind r = OwnerTask \<and> the (rs_task_id r) = i) (mb_resources b) \<rparr>)"
      using resource_rows.placed[OF s(4), of i] t3 unfolding rows
      using fold_binsert_filter[of "\<lambda>(k, r). rs_owner_kind r = OwnerTask \<and> the (rs_task_id r) = i" "mb_resources b"]
      by (simp add: fold_put_resource task_snapshot_from_item_def)
    then show ?thesis by (simp add: m Some assembled_task_def)
  qed
qed

definition copies_task :: "snapshot_item set \<Rightarrow> task_id \<Rightarrow> task_snapshot \<Rightarrow> bool" where
  "copies_task items i s \<longleftrightarrow>
     ItTask \<lparr> ti_task = sn_task s, ti_connectivity = sn_connectivity s, ti_attention = sn_attention s,
       ti_activity = sn_activity s, ti_review_readiness = sn_review_readiness s,
       ti_primary_agent_id = sn_primary_agent_id s \<rparr> \<in> items \<and> tk_id (sn_task s) = i \<and>
     (\<forall>k a. bget (sn_agents s) k = Some a \<longleftrightarrow> ItAgentSession a \<in> items \<and> ag_id a = k \<and> ag_task_id a = i) \<and>
     (\<forall>k r. bget (sn_resources s) k = Some r \<longleftrightarrow> ItResource r \<in> items \<and> rs_id r = k \<and> rs_task_id r = Some i) \<and>
     (\<forall>k c. bget (bb_contexts (sn_browser s)) k = Some c \<longleftrightarrow>
        ItBrowserContext \<lparr> cv_context_id = k, cv_state = c \<rparr> \<in> items \<and> cx_task_id c = i) \<and>
     (\<forall>k t. bget (bb_tabs (sn_browser s)) k = Some t \<longleftrightarrow>
        ItBrowserTab \<lparr> tv_tab_id = k, tv_state = t \<rparr> \<in> items \<and> tb_task_id t = i) \<and>
     sn_artifacts s = bempty \<and> sn_provider_sessions s = bempty \<and> sn_terminal_facts s = bempty \<and>
     sn_terminal_strip s = strip_default"

definition faithful_copy :: "snapshot_item set \<Rightarrow> client_model \<Rightarrow> bool" where
  "faithful_copy items m \<longleftrightarrow>
     (\<forall>i s. bget (cm_tasks m) i = Some s \<longrightarrow> copies_task items i s) \<and>
     (\<forall>it. ItTask it \<in> items \<longrightarrow> bcontains (cm_tasks m) (tk_id (ti_task it))) \<and>
     (\<forall>a. ItAgentSession a \<in> items \<longrightarrow> bcontains (cm_tasks m) (ag_task_id a)) \<and>
     (\<forall>r i. ItResource r \<in> items \<and> rs_task_id r = Some i \<longrightarrow> bcontains (cm_tasks m) i) \<and>
     (\<forall>v. ItBrowserContext v \<in> items \<longrightarrow> bcontains (cm_tasks m) (cx_task_id (cv_state v))) \<and>
     (\<forall>v. ItBrowserTab v \<in> items \<longrightarrow> bcontains (cm_tasks m) (tb_task_id (tv_state v))) \<and>
     (\<forall>k r. bget (cm_host_resources m) k = Some r \<longleftrightarrow> ItResource r \<in> items \<and> rs_id r = k \<and> rs_task_id r = None) \<and>
     (\<forall>k f. bget (cm_operations m) k = Some f \<longleftrightarrow> ItOperation f \<in> items \<and> op_id f = k) \<and>
     (\<forall>k a. bget (cm_artifact_summaries m) k = Some a \<longleftrightarrow> ItArtifact a \<in> items \<and> as_id a = k)"

lemma bretain_Some: "bget (bretain P m) k = Some v \<longleftrightarrow> bget m k = Some v \<and> P k v"
  by (auto simp: bget_bretain split: option.splits)

lemma loaded_rows:
  assumes "loaded items b"
  shows "bget (mb_tasks b) k = Some t \<longleftrightarrow> ItTask t \<in> set items \<and> tk_id (ti_task t) = k"
    and "bget (mb_agents b) k1 = Some a \<longleftrightarrow> ItAgentSession a \<in> set items \<and> ag_id a = k1"
    and "bget (mb_artifacts b) k2 = Some y \<longleftrightarrow> ItArtifact y \<in> set items \<and> as_id y = k2"
    and "bget (mb_resources b) k3 = Some r \<longleftrightarrow> ItResource r \<in> set items \<and> rs_id r = k3"
    and "bget (mb_operations b) k4 = Some f \<longleftrightarrow> ItOperation f \<in> set items \<and> op_id f = k4"
    and "bget (mb_browser_contexts b) k5 = Some c \<longleftrightarrow> ItBrowserContext c \<in> set items \<and> cv_context_id c = k5"
    and "bget (mb_browser_tabs b) k6 = Some z \<longleftrightarrow> ItBrowserTab z \<in> set items \<and> tv_tab_id z = k6"
proof -
  have k: "keyed b" and h: "\<And>j. j \<in> set items \<longleftrightarrow> holds b j" using assms by (auto simp: loaded_def)
  show "bget (mb_tasks b) k = Some t \<longleftrightarrow> ItTask t \<in> set items \<and> tk_id (ti_task t) = k"
    using k unfolding h by (auto simp: holds_def keyed_def)
  show "bget (mb_agents b) k1 = Some a \<longleftrightarrow> ItAgentSession a \<in> set items \<and> ag_id a = k1"
    using k unfolding h by (auto simp: holds_def keyed_def)
  show "bget (mb_artifacts b) k2 = Some y \<longleftrightarrow> ItArtifact y \<in> set items \<and> as_id y = k2"
    using k unfolding h by (auto simp: holds_def keyed_def)
  show "bget (mb_resources b) k3 = Some r \<longleftrightarrow> ItResource r \<in> set items \<and> rs_id r = k3"
    using k unfolding h by (auto simp: holds_def keyed_def)
  show "bget (mb_operations b) k4 = Some f \<longleftrightarrow> ItOperation f \<in> set items \<and> op_id f = k4"
    using k unfolding h by (auto simp: holds_def keyed_def)
  show "bget (mb_browser_contexts b) k5 = Some c \<longleftrightarrow> ItBrowserContext c \<in> set items \<and> cv_context_id c = k5"
    using k unfolding h by (auto simp: holds_def keyed_def)
  show "bget (mb_browser_tabs b) k6 = Some z \<longleftrightarrow> ItBrowserTab z \<in> set items \<and> tv_tab_id z = k6"
    using k unfolding h by (auto simp: holds_def keyed_def)
qed

lemma loaded_owner:
  assumes "loaded items b" "ItResource r \<in> set items"
  shows "rs_owner_kind r = OwnerTask \<longleftrightarrow> rs_task_id r \<noteq> None"
proof -
  have "resource_validate r = Inr ()"
    using assms by (auto simp: loaded_def keyed_def holds_def dest!: spec[of _ "ItResource r"])
  then show ?thesis by (auto simp: resource_validate_def result_simps split: owner_kind.splits option.splits)
qed

lemma assembled_copies:
  assumes l: "loaded items b" and t: "bget (mb_tasks b) i = Some it"
  shows "copies_task (set items) i (assembled_task b i it)"
proof -
  have it: "ItTask it \<in> set items" "tk_id (ti_task it) = i" using t loaded_rows(1)[OF l] by auto
  have eta: "\<lparr> ti_task = ti_task j, ti_connectivity = ti_connectivity j, ti_attention = ti_attention j,
      ti_activity = ti_activity j, ti_review_readiness = ti_review_readiness j,
      ti_primary_agent_id = ti_primary_agent_id j \<rparr> = j" for j by (cases j) simp
  have views: "\<lparr> cv_context_id = cv_context_id v, cv_state = cv_state v \<rparr> = v" for v by (cases v) simp
  have tabs: "\<lparr> tv_tab_id = tv_tab_id w, tv_state = tv_state w \<rparr> = w" for w by (cases w) simp
  show ?thesis
    using it loaded_owner[OF l]
    unfolding copies_task_def assembled_task_def
    by (auto simp: task_snapshot_from_item_def bretain_Some loaded_rows[OF l] eta views tabs)
qed

lemma assembled_parents:
  assumes l: "loaded items b" and f: "finish_assembled env b = Inr m"
  shows "(ItAgentSession a \<in> set items \<longrightarrow> bcontains (cm_tasks m) (ag_task_id a)) \<and>
    (ItResource r \<in> set items \<and> rs_task_id r = Some i \<longrightarrow> bcontains (cm_tasks m) i) \<and>
    (ItBrowserContext v \<in> set items \<longrightarrow> bcontains (cm_tasks m) (cx_task_id (cv_state v))) \<and>
    (ItBrowserTab w \<in> set items \<longrightarrow> bcontains (cm_tasks m) (tb_task_id (tv_state w)))"
  using f
proof (rule finish_assembled_steps)
  fix tasks1 tasks2 tasks3 tasks4 through
  assume s: "try_fold agent_rows.place (entries (mb_agents b)) (tasks_from_items True (mb_tasks b)) = Inr tasks1"
    "try_fold context_rows.place (entries (mb_browser_contexts b)) tasks1 = Inr tasks2"
    "try_fold tab_rows.place (entries (mb_browser_tabs b)) tasks2 = Inr tasks3"
    "try_fold resource_rows.place (filter (\<lambda>(i, r). rs_owner_kind r = OwnerTask) (entries (mb_resources b))) tasks3 = Inr tasks4"
    and m: "m = \<lparr> cm_tasks = tasks4,
       cm_host_resources = bretain (\<lambda>_ r. rs_owner_kind r = OwnerHost) (mb_resources b), cm_operations = mb_operations b,
       cm_artifact_summaries = mb_artifacts b, cm_last_applied_sequence = through,
       cm_replay_through = None, cm_replay_page_count = 0, cm_replay_cursors = [],
       cm_index = index_from_tasks env tasks4 through, cm_admitted_task_detail = bempty \<rparr>"
  have same: "bcontains tasks1 j \<longleftrightarrow> bcontains tasks4 j" "bcontains tasks2 j \<longleftrightarrow> bcontains tasks4 j"
    "bcontains tasks3 j \<longleftrightarrow> bcontains tasks4 j" "bcontains (tasks_from_items True (mb_tasks b)) j \<longleftrightarrow> bcontains tasks4 j" for j
    using agent_rows.placed[OF s(1), of j] context_rows.placed[OF s(2), of j] tab_rows.placed[OF s(3), of j]
      resource_rows.placed[OF s(4), of j] by (simp_all add: bcontains_iff)
  have "bcontains (cm_tasks m) i" if "ItResource r \<in> set items" "rs_task_id r = Some i"
    using resource_rows.parents[OF s(4), of "rs_id r" r] that loaded_rows(4)[OF l, of "rs_id r" r] loaded_owner[OF l that(1)]
    by (simp add: m same in_entries_iff)
  moreover have "bcontains (cm_tasks m) (ag_task_id a)" if "ItAgentSession a \<in> set items"
    using agent_rows.parents[OF s(1), of "ag_id a" a] that loaded_rows(2)[OF l, of "ag_id a" a] by (simp add: m same in_entries_iff)
  moreover have "bcontains (cm_tasks m) (cx_task_id (cv_state v))" if "ItBrowserContext v \<in> set items"
    using context_rows.parents[OF s(2), of "cv_context_id v" v] that loaded_rows(6)[OF l, of "cv_context_id v" v]
    by (simp add: m same in_entries_iff)
  moreover have "bcontains (cm_tasks m) (tb_task_id (tv_state w))" if "ItBrowserTab w \<in> set items"
    using tab_rows.parents[OF s(3), of "tv_tab_id w" w] that loaded_rows(7)[OF l, of "tv_tab_id w" w]
    by (simp add: m same in_entries_iff)
  ultimately show ?thesis by blast
qed

lemma assembled_model:
  assumes l: "loaded items b" and f: "finish_assembled env b = Inr m"
  shows "faithful_copy (set items) m" and "mb_through_sequence b = Some (cm_last_applied_sequence m)"
proof -
  have k: "keyed b" using l by (simp add: loaded_def)
  have fields: "cm_host_resources m = bretain (\<lambda>_ r. rs_owner_kind r = OwnerHost) (mb_resources b)"
    "cm_operations m = mb_operations b" "cm_artifact_summaries m = mb_artifacts b"
    and through: "mb_through_sequence b = Some (cm_last_applied_sequence m)"
    using f by (auto elim: finish_assembled_steps)
  show "mb_through_sequence b = Some (cm_last_applied_sequence m)" by (fact through)
  have tasks: "bget (cm_tasks m) i = map_option (assembled_task b i) (bget (mb_tasks b) i)" for i
    by (rule finish_assembled_tasks[OF k f])
  have copies: "bget (cm_tasks m) i = Some s \<Longrightarrow> copies_task (set items) i s" for i s
    using assembled_copies[OF l] by (auto simp: tasks)
  have present: "ItTask it \<in> set items \<Longrightarrow> bcontains (cm_tasks m) (tk_id (ti_task it))" for it
    using loaded_rows(1)[OF l, of "tk_id (ti_task it)" it] by (simp add: bcontains_iff tasks)
  have host: "bget (cm_host_resources m) j = Some r \<longleftrightarrow> ItResource r \<in> set items \<and> rs_id r = j \<and> rs_task_id r = None" for j r
    using loaded_owner[OF l, of r] by (cases "rs_owner_kind r") (auto simp: fields bretain_Some loaded_rows(4)[OF l])
  show "faithful_copy (set items) m"
    using copies present assembled_parents[OF l f] host loaded_rows(3,5)[OF l]
    unfolding faithful_copy_def fields(2,3) by blast
qed

text \<open>C11. A model assembled from snapshot pages is a copy of the rows on them.  If a builder accepts a
  list of pages, in whatever order and cut however, and the model is finished, then no two rows had one
  key, all pages were of one snapshot, and the model has exactly those rows: every task with its own
  agents, resources, browser contexts and tabs, the host's resources, the operations and the artifact
  summaries, each under its identity and each below a task that was shipped.  What the sections do not
  carry is absent: artifact bodies, provider sessions, terminal facts and the terminal strip.\<close>

theorem assembled_model_exact:
  assumes "ingest_pages ps builder_new = (Inr (), b)" "finish env b = Inr m"
  shows "faithful_copy (set (concat (map sp_items ps))) m \<and>
    distinct (map snapshot_item_key_of (concat (map sp_items ps))) \<and>
    (\<forall>p \<in> set ps. sp_through_sequence p = cm_last_applied_sequence m \<and> Some (sp_snapshot_id p) = mb_snapshot_id b)"
proof -
  have l: "loaded (concat (map sp_items ps)) b" and p: "\<forall>p \<in> set ps. pinned p b"
    using ingest_pages_loaded[OF loaded_new assms(1)] by simp_all
  have f: "finish_assembled env b = Inr m" using assms(2) by (simp add: finish_def Let_def split: if_splits)
  show ?thesis using assembled_model[OF l f] l p by (auto simp: loaded_def pinned_def)
qed

section \<open>A sample snapshot\<close>

definition sample_operation :: operation_facts where
  "sample_operation = \<lparr> op_id = Id 40, op_command_id = Id 41, op_task_id = None, op_state = OsSettled 9 [],
     op_accepted_at_ms = 8 \<rparr>"

definition sample_item :: task_snapshot_item where
  "sample_item = \<lparr> ti_task = sc_task, ti_connectivity = Connected, ti_attention = AttNone, ti_activity = ActIdle,
     ti_review_readiness = NotReady, ti_primary_agent_id = None \<rparr>"

definition sample_page :: "snapshot_section \<Rightarrow> snapshot_item list \<Rightarrow> snapshot_page" where
  "sample_page sec items = \<lparr> sp_snapshot_id = Id 50, sp_through_sequence = 6, sp_section = sec, sp_after_item = None,
     sp_items = items, sp_encoded_bytes = 0, sp_next_cursor = None \<rparr>"

definition sample_pages :: "snapshot_page list" where
  "sample_pages = [sample_page SecTasks [ItTask sample_item], sample_page SecAgentSessions [], sample_page SecArtifacts [],
     sample_page SecResources [], sample_page SecOperations [ItOperation sample_operation]]"

definition sample_builder :: client_model_builder where
  "sample_builder = snd (ingest_pages sample_pages builder_new)"

definition sample_snapshot_task :: task_snapshot where
  "sample_snapshot_task = task_snapshot_from_item sample_item"

definition sample_model :: client_model where
  "sample_model = \<lparr> cm_tasks = binsert (Id 1) sample_snapshot_task bempty, cm_host_resources = bempty,
     cm_operations = binsert (Id 40) sample_operation bempty, cm_artifact_summaries = bempty,
     cm_last_applied_sequence = 6, cm_replay_through = None, cm_replay_page_count = 0, cm_replay_cursors = [],
     cm_index = index_from_tasks sample_env (binsert (Id 1) sample_snapshot_task bempty) 6,
     cm_admitted_task_detail = bempty \<rparr>"

lemmas sample_defs = sample_pages_def sample_page_def sample_item_def sample_operation_def sc_task_def

lemma seven_sections: "replicate SNAPSHOT_SECTION_COUNT v = [v, v, v, v, v, v, v]"
  by (simp add: SNAPSHOT_SECTION_COUNT_def eval_nat_numeral)

lemma list_update_numeral: "(v # vs)[numeral n := w] = v # vs[numeral n - 1 := w]"
  by (simp add: numeral_eq_Suc)

lemmas builder_simps = ingest_page_def pin_snapshot_def enter_section_def leave_section_def then_build_def admit_item_def
  was_fresh_def builder_new_def section_assembly_default_def section_index_def Let_def seven_sections list_update_numeral
  MAX_CLIENT_MODEL_PAGES_def MAX_CLIENT_MODEL_ITEMS_def

lemma sample_ingested: "ingest_pages sample_pages builder_new = (Inr (), sample_builder)"
proof -
  have "fst (ingest_pages sample_pages builder_new) = Inr ()"
    by (simp add: sample_defs builder_simps)
  then show ?thesis by (metis prod.collapse sample_builder_def)
qed

lemma sample_finished: "finish sample_env sample_builder = Inr sample_model"
  by (simp add: sample_builder_def sample_model_def sample_snapshot_task_def finish_def finish_assembled_def tasks_from_items_def
      sample_defs builder_simps REQUIRED_SNAPSHOT_SECTION_COUNT_def task_snapshot_from_item_def validate_primary_agent_def)

theorem assembled_model_exact_witness:
  "fst (ingest_pages sample_pages builder_new) = Inr () \<and> finish sample_env sample_builder = Inr sample_model \<and>
   faithful_copy {ItTask sample_item, ItOperation sample_operation} sample_model"
  using assembled_model_exact[OF sample_ingested sample_finished] sample_finished
  by (simp add: sample_ingested, simp add: sample_pages_def sample_page_def)

end
