(* ===== verification/Client_Run.thy ===== *)
theory Client_Run
  imports Client_Sync Client_Assembly
begin

text \<open>
  The life of a client's model: replay pages against the events on them, the invariant of every model a
  session can reach, the history of an operation, and what a model fresh from a snapshot cannot follow.
  Event application, page application and detail admission are journals; their invariants and orders are
  interpretations of the locales of \<open>Journal\<close>.
\<close>

section \<open>What an event leaves of the model\<close>

text \<open>What a replay must agree on: all the tables, and of the index its revision, its entries, the three orders and
  its counters.  The search tables are left out: which grams and scalars they hold depends on their byte budget, and
  so on the capacities that the allocator gives to a clone.\<close>

definition index_view :: "task_projection_index \<Rightarrow> task_projection_index" where
  "index_view ix = ix \<lparr> ix_search := bempty, ix_search_scalar_totals := bempty, ix_search_scalar_map_bytes := 0,
     ix_search_posting_entries := 0, ix_search_index_map_bytes := 0, ix_search_index_key_bytes := 0,
     ix_search_index_posting_storage_bytes := 0, ix_search_index_saturated := False \<rparr>"

definition core :: "client_model \<Rightarrow> client_model" where
  "core m = m \<lparr> cm_replay_through := None, cm_replay_page_count := 0, cm_replay_cursors := [],
     cm_index := index_view (cm_index m) \<rparr>"

text \<open>The model moved to a sequence, as the end of a replay does.\<close>

definition at_sequence :: "u64 \<Rightarrow> client_model \<Rightarrow> client_model" where
  "at_sequence t m = m \<lparr> cm_last_applied_sequence := t, cm_index := set_index_revision t (cm_index m) \<rparr>"

lemma index_view_view [simp]: "index_view (index_view ix) = index_view ix"
  by (simp add: index_view_def)

lemma index_view_fields [simp]:
  "ix_revision (index_view ix) = ix_revision ix" "ix_entries (index_view ix) = ix_entries ix"
  "ix_active_order (index_view ix) = ix_active_order ix" "ix_settled_order (index_view ix) = ix_settled_order ix"
  "ix_archived_order (index_view ix) = ix_archived_order ix"
  "ix_unindexed_suffix_entries (index_view ix) = ix_unindexed_suffix_entries ix"
  "ix_incremental_updates (index_view ix) = ix_incremental_updates ix"
  by (simp_all add: index_view_def)

lemma index_view_updates [simp]:
  "index_view (ix \<lparr> ix_revision := r \<rparr>) = (index_view ix) \<lparr> ix_revision := r \<rparr>"
  "index_view (ix \<lparr> ix_entries := es \<rparr>) = (index_view ix) \<lparr> ix_entries := es \<rparr>"
  "index_view (ix \<lparr> ix_active_order := ks \<rparr>) = (index_view ix) \<lparr> ix_active_order := ks \<rparr>"
  "index_view (ix \<lparr> ix_settled_order := ks \<rparr>) = (index_view ix) \<lparr> ix_settled_order := ks \<rparr>"
  "index_view (ix \<lparr> ix_archived_order := ks \<rparr>) = (index_view ix) \<lparr> ix_archived_order := ks \<rparr>"
  "index_view (ix \<lparr> ix_unindexed_suffix_entries := n \<rparr>) = (index_view ix) \<lparr> ix_unindexed_suffix_entries := n \<rparr>"
  "index_view (ix \<lparr> ix_incremental_updates := u \<rparr>) = (index_view ix) \<lparr> ix_incremental_updates := u \<rparr>"
  "index_view (index_clone env ix) = index_view ix"
  "index_view (set_index_revision r ix) = set_index_revision r (index_view ix)"
  by (simp_all add: index_view_def index_clone_def set_index_revision_def)

lemma search_tables_view:
  "index_view (insert_search_token env i e token ix) = index_view ix" "index_view (remove_search_token i e token ix) = index_view ix"
  "index_view (insert_scalar env archived c ix) = index_view ix" "index_view (remove_scalar archived c ix) = index_view ix"
  by (simp_all add: insert_search_token_def remove_search_token_def insert_scalar_def remove_scalar_def Let_def index_view_def
      split: option.split prod.split)

lemma search_terms_view [simp]:
  "index_view (insert_search_tokens env i e ix) = index_view ix"
  "index_view (fold (remove_search_token i e) tokens ix) = index_view ix"
  "index_view (insert_search_scalar_totals env e ix) = (if length (en_lower_title e) > MAX_INDEXED_SUBSTRING_SOURCE_CHARS
     then (index_view ix) \<lparr> ix_unindexed_suffix_entries := ix_unindexed_suffix_entries ix + 1 \<rparr> else index_view ix)"
  "index_view (remove_search_scalar_totals e ix) = (if length (en_lower_title e) > MAX_INDEXED_SUBSTRING_SOURCE_CHARS
     then (index_view ix) \<lparr> ix_unindexed_suffix_entries := ix_unindexed_suffix_entries ix - 1 \<rparr> else index_view ix)"
  by (simp_all add: insert_search_tokens_def insert_search_scalar_totals_def remove_search_scalar_totals_def Let_def
      fold_keeps[where h = index_view] search_tables_view)

lemma view_fields:
  assumes "index_view ix = index_view iy"
  shows "ix_revision ix = ix_revision iy" "ix_entries ix = ix_entries iy" "ix_active_order ix = ix_active_order iy"
    "ix_settled_order ix = ix_settled_order iy" "ix_archived_order ix = ix_archived_order iy"
    "ix_unindexed_suffix_entries ix = ix_unindexed_suffix_entries iy" "ix_incremental_updates ix = ix_incremental_updates iy"
  using assms by (metis index_view_fields)+

lemma remove_task_view:
  assumes "index_view ix = index_view iy"
  shows "index_view (remove_task_id i ix) = index_view (remove_task_id i iy)"
  using assms view_fields[OF assms] by (simp add: remove_task_id_def Let_def split: option.split)

lemma insert_terms_view:
  assumes "index_view ix = index_view iy"
  shows "index_view (insert_entry_terms env i e ix) = index_view (insert_entry_terms env i e iy)"
  using assms view_fields[OF assms] by (simp add: insert_entry_terms_def Let_def split: task_lifecycle.split)

lemma update_task_view:
  assumes "index_view ix = index_view iy"
  shows "index_view (update_task env s at ix) = index_view (update_task env s at iy)"
proof -
  let ?i = "tk_id (sn_task s)" and ?e = "entry_from_snapshot env s at"
  let ?with = "\<lambda>ix. ix \<lparr> ix_entries := binsert ?i ?e (ix_entries ix) \<rparr>"
  note removed = remove_task_view[OF assms, of ?i]
  have entered: "index_view (?with (remove_task_id ?i ix)) = index_view (?with (remove_task_id ?i iy))"
    using removed view_fields(2)[OF removed] by simp
  note terms = insert_terms_view[OF entered, of env ?i ?e]
  show ?thesis using terms view_fields(7)[OF terms] by (simp add: update_task_def Let_def)
qed

lemma core_fields [simp]:
  "cm_tasks (core m) = cm_tasks m" "cm_host_resources (core m) = cm_host_resources m"
  "cm_operations (core m) = cm_operations m" "cm_artifact_summaries (core m) = cm_artifact_summaries m"
  "cm_last_applied_sequence (core m) = cm_last_applied_sequence m"
  "cm_admitted_task_detail (core m) = cm_admitted_task_detail m" "cm_index (core m) = index_view (cm_index m)"
  by (simp_all add: core_def)

lemma core_core [simp]: "core (core m) = core m"
  by (simp add: core_def)

lemma core_updates [simp]:
  "core (m \<lparr> cm_index := ix \<rparr>) = (core m) \<lparr> cm_index := index_view ix \<rparr>"
  "core (m \<lparr> cm_replay_through := t \<rparr>) = core m"
  "core (m \<lparr> cm_replay_page_count := n \<rparr>) = core m"
  "core (m \<lparr> cm_replay_cursors := cs \<rparr>) = core m"
  "core (m \<lparr> cm_last_applied_sequence := s \<rparr>) = (core m) \<lparr> cm_last_applied_sequence := s \<rparr>"
  by (simp_all add: core_def)

lemma core_clone [simp]: "core (model_clone env m) = core m"
  by (simp add: model_clone_def core_def)

lemma finish_replay_last:
  assumes "ep_next_cursor p = None" "cm_last_applied_sequence m \<le> ep_through_sequence p"
  shows "\<exists>m'. finish_replay p m = Inr m' \<and> core m' = at_sequence (ep_through_sequence p) (core m)
    \<and> cm_replay_through m' = None \<and> cm_replay_page_count m' = 0 \<and> cm_replay_cursors m' = []"
  using assms by (simp add: finish_replay_def at_sequence_def)

lemma at_sequence_fields [simp]:
  "cm_tasks (at_sequence t m) = cm_tasks m" "cm_last_applied_sequence (at_sequence t m) = t"
  by (simp_all add: at_sequence_def)

lemma stage_event_core: "stage_event x ev (core m) = stage_event x ev m"
  unfolding stage_event_def stage_operation_accepted_def stage_outcome_def stage_artifact_def stage_task_passthrough_def
    stage_operation_outcome_def apply_to_task_def core_fields by (rule refl)

lemma commit_core: "core (commit_staged env ev st (core m)) = core (commit_staged env ev st m)"
  using update_task_view[of "index_view (cm_index m)" "cm_index m" env]
  by (simp add: commit_staged_def commit_task_def Let_def core_def split: option.split prod.split)

lemma apply_one_event_core: "map_ok core (apply_one_event x env ev (core m)) = map_ok core (apply_one_event x env ev m)"
  by (simp add: apply_one_event_def stage_event_core map_ok_distrib commit_core)

lemma apply_one_event_cong:
  "core m = core n \<Longrightarrow> map_ok core (apply_one_event x env ev m) = map_ok core (apply_one_event x env ev n)"
  using apply_one_event_core[of x env ev m] apply_one_event_core[of x env ev n] by simp

lemma commit_replay_fields:
  "cm_replay_through (commit_staged env ev st m) = cm_replay_through m"
  "cm_replay_page_count (commit_staged env ev st m) = cm_replay_page_count m"
  "cm_replay_cursors (commit_staged env ev st m) = cm_replay_cursors m"
  by (simp_all add: commit_staged_def commit_task_def Let_def split: option.split prod.split)

lemma apply_one_event_replay_fields:
  assumes "apply_one_event x env ev m = Inr m'"
  shows "cm_replay_through m' = cm_replay_through m \<and> cm_replay_page_count m' = cm_replay_page_count m
    \<and> cm_replay_cursors m' = cm_replay_cursors m \<and> cm_last_applied_sequence m' = de_sequence ev"
  using assms by (auto simp: apply_one_event_def result_simps commit_replay_fields commit_staged_fields split: if_splits)

section \<open>A replay in pages\<close>

text \<open>The pages of one frozen range \<open>(a, t]\<close>: the same end, each page where the one before stopped, a
  cursor on all but the last.\<close>

fun well_cut :: "u64 \<Rightarrow> u64 \<Rightarrow> event_page list \<Rightarrow> bool" where
  "well_cut a t [] = False"
| "well_cut a t (p # ps) \<longleftrightarrow> ep_after_sequence p = a \<and> ep_through_sequence p = t \<and> a \<le> t
     \<and> (\<forall>ev \<in> set (ep_events p). a < de_sequence ev \<and> de_sequence ev \<le> t)
     \<and> (if ps = [] then ep_next_cursor p = None
        else ep_next_cursor p \<noteq> None \<and> ep_events p \<noteq> [] \<and> well_cut (de_sequence (last (ep_events p))) t ps)"

definition page_cursors :: "event_page list \<Rightarrow> u8 list list" where
  "page_cursors ps = List.map_filter ep_next_cursor ps"

lemma page_events_fold:
  assumes "core m = core n" "\<forall>ev \<in> set evs. ep_after_sequence p < de_sequence ev \<and> de_sequence ev \<le> ep_through_sequence p"
  shows "map_ok core (try_fold (apply_page_event x env p) evs m) = map_ok core (try_fold (apply_one_event x env) evs n)"
  using assms
proof (induction evs arbitrary: m n)
  case (Cons ev evs)
  have step: "apply_page_event x env p ev m = apply_one_event x env ev m"
    using Cons.prems(2) by (auto simp: apply_page_event_def)
  note same = apply_one_event_cong[OF Cons.prems(1), of x env ev]
  show ?case
  proof (cases "apply_one_event x env ev m")
    case (Inl e)
    then show ?thesis using same by (cases "apply_one_event x env ev n") (simp_all add: step)
  next
    case (Inr m1)
    then obtain n1 where "apply_one_event x env ev n = Inr n1" "core m1 = core n1"
      using same by (cases "apply_one_event x env ev n") simp_all
    then show ?thesis using Cons.IH[of m1 n1] Cons.prems(2) Inr by (simp add: step)
  qed
qed simp

lemma page_events_fields:
  assumes "try_fold (apply_page_event x env p) evs m = Inr m'"
  shows "cm_replay_through m' = cm_replay_through m \<and> cm_replay_page_count m' = cm_replay_page_count m
    \<and> cm_replay_cursors m' = cm_replay_cursors m
    \<and> cm_last_applied_sequence m' = (if evs = [] then cm_last_applied_sequence m else de_sequence (last evs))"
  using assms
proof (induction evs arbitrary: m)
  case (Cons ev evs)
  then obtain m1 where m1: "apply_page_event x env p ev m = Inr m1" "try_fold (apply_page_event x env p) evs m1 = Inr m'"
    by (auto simp: result_simps)
  then have "apply_one_event x env ev m = Inr m1" by (simp add: apply_page_event_def split: if_splits)
  with Cons.IH[OF m1(2)] show ?case by (auto dest!: apply_one_event_replay_fields)
qed simp

lemma replay_page_start:
  assumes "ep_after_sequence p = cm_last_applied_sequence m" "ep_after_sequence p \<le> ep_through_sequence p"
    and "cm_replay_through m \<in> {None, Some (ep_through_sequence p)}" "cm_replay_page_count m < MAX_CLIENT_REPLAY_PAGES"
    and "\<And>c. ep_next_cursor p = Some c \<Longrightarrow> ep_events p \<noteq> [] \<and> c \<notin> set (cm_replay_cursors m)
       \<and> length (cm_replay_cursors m) < MAX_CLIENT_REPLAY_CURSORS"
  shows "\<exists>m1. apply_replay_page x env p m = rbind (try_fold (apply_page_event x env p) (ep_events p) m1) (finish_replay p)
    \<and> core m1 = core m \<and> cm_replay_through m1 = Some (ep_through_sequence p)
    \<and> cm_replay_page_count m1 = Suc (cm_replay_page_count m)
    \<and> cm_replay_cursors m1 = cm_replay_cursors m @ (case ep_next_cursor p of None \<Rightarrow> [] | Some c \<Rightarrow> [c])"
proof -
  let ?m = "(model_clone env m) \<lparr> cm_replay_through := Some (ep_through_sequence p) \<rparr>"
  let ?m1 = "?m \<lparr> cm_replay_cursors := cm_replay_cursors m @ (case ep_next_cursor p of None \<Rightarrow> [] | Some c \<Rightarrow> [c]),
      cm_replay_page_count := Suc (cm_replay_page_count m) \<rparr>"
  have clone: "cm_replay_through (model_clone env m) = cm_replay_through m"
    "cm_replay_page_count (model_clone env m) = cm_replay_page_count m"
    "cm_replay_cursors (model_clone env m) = cm_replay_cursors m"
    "cm_last_applied_sequence (model_clone env m) = cm_last_applied_sequence m"
    by (simp_all add: model_clone_def)
  have pin: "pin_replay p (model_clone env m) = Inr ?m"
    using assms(3) by (auto simp: pin_replay_def clone)
  have count: "count_replay_page p ?m = Inr ?m1"
    using assms(4,5) by (cases "ep_next_cursor p")
      (auto simp: count_replay_page_def clone check_replay_continuation_bounds_def hs_insert_def)
  have "apply_replay_page x env p m = rbind (try_fold (apply_page_event x env p) (ep_events p) ?m1) (finish_replay p)"
    using assms(1,2,5) unfolding apply_replay_page_def apply_replay_page_inner_def
    by (auto simp: clone pin count)
  moreover have "core ?m1 = core m" by simp
  ultimately show ?thesis by (intro exI[of _ ?m1]) simp
qed

lemma replay_page_step:
  assumes page: "ep_after_sequence p = cm_last_applied_sequence m" "ep_after_sequence p \<le> ep_through_sequence p"
      "cm_replay_through m \<in> {None, Some (ep_through_sequence p)}" "cm_replay_page_count m < MAX_CLIENT_REPLAY_PAGES"
      "\<And>c. ep_next_cursor p = Some c \<Longrightarrow> ep_events p \<noteq> [] \<and> c \<notin> set (cm_replay_cursors m)
         \<and> length (cm_replay_cursors m) < MAX_CLIENT_REPLAY_CURSORS"
    and range: "\<forall>ev \<in> set (ep_events p). ep_after_sequence p < de_sequence ev \<and> de_sequence ev \<le> ep_through_sequence p"
    and core: "core m = core n"
  shows "case try_fold (apply_one_event x env) (ep_events p) n of
      Inl e \<Rightarrow> apply_replay_page x env p m = Inl e
    | Inr n' \<Rightarrow> \<exists>m'. apply_replay_page x env p m = Inr m' \<and>
        (case ep_next_cursor p of
           None \<Rightarrow> core m' = at_sequence (ep_through_sequence p) (core n')
             \<and> cm_replay_through m' = None \<and> cm_replay_page_count m' = 0 \<and> cm_replay_cursors m' = []
         | Some c \<Rightarrow> core m' = core n' \<and> cm_replay_through m' = Some (ep_through_sequence p)
             \<and> cm_replay_page_count m' = Suc (cm_replay_page_count m) \<and> cm_replay_cursors m' = cm_replay_cursors m @ [c]
             \<and> cm_last_applied_sequence m' = de_sequence (last (ep_events p)))"
proof -
  obtain m1 where m1: "apply_replay_page x env p m = rbind (try_fold (apply_page_event x env p) (ep_events p) m1) (finish_replay p)"
    "core m1 = core m" "cm_replay_through m1 = Some (ep_through_sequence p)"
    "cm_replay_page_count m1 = Suc (cm_replay_page_count m)"
    "cm_replay_cursors m1 = cm_replay_cursors m @ (case ep_next_cursor p of None \<Rightarrow> [] | Some c \<Rightarrow> [c])"
    using replay_page_start[OF page] by blast
  have same: "map_ok core (try_fold (apply_page_event x env p) (ep_events p) m1) =
      map_ok core (try_fold (apply_one_event x env) (ep_events p) n)"
    using page_events_fold[of m1 n "ep_events p" p x env] range m1(2) core by simp
  show ?thesis
  proof (cases "try_fold (apply_one_event x env) (ep_events p) n")
    case (Inl e)
    then have "try_fold (apply_page_event x env p) (ep_events p) m1 = Inl e"
      using same by (cases "try_fold (apply_page_event x env p) (ep_events p) m1") simp_all
    then show ?thesis by (simp add: Inl m1(1))
  next
    case (Inr n')
    then obtain m2 where m2: "try_fold (apply_page_event x env p) (ep_events p) m1 = Inr m2" "core m2 = core n'"
      using same by (cases "try_fold (apply_page_event x env p) (ep_events p) m1") simp_all
    note fields = page_events_fields[OF m2(1)]
    have "cm_last_applied_sequence m1 = cm_last_applied_sequence m" using m1(2) by (metis core_fields(5))
    then have ends: "cm_last_applied_sequence m2 \<le> ep_through_sequence p"
      using fields range page(1,2) by auto
    show ?thesis
    proof (cases "ep_next_cursor p")
      case None
      show ?thesis using finish_replay_last[OF None ends] None m2 by (simp add: Inr m1(1))
    next
      case (Some c)
      then show ?thesis using m2 fields m1(3,4,5) page(5)[OF Some] by (simp add: Inr m1(1) finish_replay_def)
    qed
  qed
qed

lemma map_filter_Cons: "List.map_filter f (y # ys) = (case f y of None \<Rightarrow> [] | Some z \<Rightarrow> [z]) @ List.map_filter f ys"
  by (cases "f y") (simp_all add: List.map_filter_simps)

lemma paged_replay_steps:
  assumes "core m = core n" "well_cut (cm_last_applied_sequence m) t ps"
    and "cm_replay_through m \<in> {None, Some t}" "cm_replay_page_count m + length ps \<le> MAX_CLIENT_REPLAY_PAGES"
    and "distinct (cm_replay_cursors m @ page_cursors ps)" "length (cm_replay_cursors m) \<le> cm_replay_page_count m"
  shows "case try_fold (apply_one_event x env) (concat (map ep_events ps)) n of
      Inl e \<Rightarrow> try_fold (apply_replay_page x env) ps m = Inl e
    | Inr n' \<Rightarrow> \<exists>m'. try_fold (apply_replay_page x env) ps m = Inr m'
        \<and> core m' = at_sequence t (core n')
        \<and> cm_replay_through m' = None \<and> cm_replay_page_count m' = 0 \<and> cm_replay_cursors m' = []"
  using assms
proof (induction ps arbitrary: m n)
  case (Cons p ps)
  have cut: "ep_after_sequence p = cm_last_applied_sequence m" "ep_through_sequence p = t"
    "cm_last_applied_sequence m \<le> t"
    "\<forall>ev \<in> set (ep_events p). cm_last_applied_sequence m < de_sequence ev \<and> de_sequence ev \<le> t"
    using Cons.prems(2) by simp_all
  have cursor: "ep_events p \<noteq> [] \<and> c \<notin> set (cm_replay_cursors m) \<and> length (cm_replay_cursors m) < MAX_CLIENT_REPLAY_CURSORS"
    if "ep_next_cursor p = Some c" for c
  proof -
    have "length (cm_replay_cursors m) < MAX_CLIENT_REPLAY_CURSORS"
      using Cons.prems(4,6) by (simp add: MAX_CLIENT_REPLAY_CURSORS_def MAX_CLIENT_REPLAY_PAGES_def)
    moreover have "ep_events p \<noteq> []" using Cons.prems(2) that by (simp split: if_splits)
    moreover have "c \<notin> set (cm_replay_cursors m)" using Cons.prems(5) that by (simp add: page_cursors_def map_filter_Cons)
    ultimately show ?thesis by simp
  qed
  have count: "cm_replay_page_count m < MAX_CLIENT_REPLAY_PAGES" using Cons.prems(4) by simp
  have step: "case try_fold (apply_one_event x env) (ep_events p) n of
      Inl e \<Rightarrow> apply_replay_page x env p m = Inl e
    | Inr n' \<Rightarrow> \<exists>m'. apply_replay_page x env p m = Inr m' \<and>
        (case ep_next_cursor p of
           None \<Rightarrow> core m' = at_sequence t (core n')
             \<and> cm_replay_through m' = None \<and> cm_replay_page_count m' = 0 \<and> cm_replay_cursors m' = []
         | Some c \<Rightarrow> core m' = core n' \<and> cm_replay_through m' = Some t
             \<and> cm_replay_page_count m' = Suc (cm_replay_page_count m) \<and> cm_replay_cursors m' = cm_replay_cursors m @ [c]
             \<and> cm_last_applied_sequence m' = de_sequence (last (ep_events p)))"
    by (rule replay_page_step[of p m n x env, unfolded cut(2)]) (use cut Cons.prems(1,3) count cursor in simp_all)
  show ?case
  proof (cases "try_fold (apply_one_event x env) (ep_events p) n")
    case (Inl e)
    then show ?thesis using step by (simp add: try_fold_append)
  next
    case (Inr n1)
    then obtain m1 where m1: "apply_replay_page x env p m = Inr m1" and rest:
      "case ep_next_cursor p of
           None \<Rightarrow> core m1 = at_sequence t (core n1)
             \<and> cm_replay_through m1 = None \<and> cm_replay_page_count m1 = 0 \<and> cm_replay_cursors m1 = []
         | Some c \<Rightarrow> core m1 = core n1 \<and> cm_replay_through m1 = Some t
             \<and> cm_replay_page_count m1 = Suc (cm_replay_page_count m) \<and> cm_replay_cursors m1 = cm_replay_cursors m @ [c]
             \<and> cm_last_applied_sequence m1 = de_sequence (last (ep_events p))"
      using step by auto
    show ?thesis
    proof (cases "ps = []")
      case True
      then show ?thesis using Inr m1 rest Cons.prems(2) by simp
    next
      case False
      then obtain c where c: "ep_next_cursor p = Some c" and tail: "well_cut (de_sequence (last (ep_events p))) t ps"
        using Cons.prems(2) by auto
      have whole: "try_fold (apply_replay_page x env) (p # ps) m = try_fold (apply_replay_page x env) ps m1"
        "try_fold (apply_one_event x env) (concat (map ep_events (p # ps))) n =
           try_fold (apply_one_event x env) (concat (map ep_events ps)) n1"
        using m1 Inr by (simp_all add: try_fold_append)
      show ?thesis unfolding whole using Cons.IH[of m1 n1] rest c tail Cons.prems(4,5,6)
        by (simp add: page_cursors_def map_filter_Cons)
    qed
  qed
qed simp

text \<open>C14. Replaying a frozen range in pages is applying its events one by one.  Let no replay be under way
  and let at most 1024 pages cut the range \<open>(a, t]\<close> from the last applied sequence \<open>a\<close>, with distinct
  cursors.  If the events apply in order, the pages do, and the model is the one the events give, moved
  to the end of the range: every table, every entry of the index and the three orders of tasks, all but the search
  tables, whose contents depend on the capacities of clones.  If an event fails, the page it is on fails with
  the same error.\<close>

theorem paged_replay_exact:
  assumes "cm_replay_through m = None" "cm_replay_page_count m = 0" "cm_replay_cursors m = []"
    and "well_cut (cm_last_applied_sequence m) t ps" "distinct (page_cursors ps)" "length ps \<le> MAX_CLIENT_REPLAY_PAGES"
  shows "case try_fold (client_apply_event x env) (concat (map ep_events ps)) m of
      Inl e \<Rightarrow> try_fold (apply_replay_page x env) ps m = Inl e
    | Inr n \<Rightarrow> \<exists>m'. try_fold (apply_replay_page x env) ps m = Inr m'
        \<and> core m' = at_sequence t (core n)
        \<and> cm_replay_through m' = None \<and> cm_replay_page_count m' = 0 \<and> cm_replay_cursors m' = []"
  using paged_replay_steps[of m m t ps x env] assms
  by (simp add: client_apply_event_def[abs_def])

section \<open>Reachable models\<close>

inductive client_run :: "ext \<Rightarrow> index_env \<Rightarrow> client_model \<Rightarrow> bool" for x env where
  assembled: "ingest_pages ps builder_new = (Inr (), b) \<Longrightarrow> finish env b = Inr m \<Longrightarrow> client_run x env m"
| live: "client_run x env m \<Longrightarrow> client_apply_event x env ev m = Inr m' \<Longrightarrow> client_run x env m'"
| replayed: "client_run x env m \<Longrightarrow> apply_replay_page x env page m = Inr m' \<Longrightarrow> client_run x env m'"
| detailed: "client_run x env m \<Longrightarrow> admit_task_detail_pages env i pages m = Inr m' \<Longrightarrow> client_run x env m'"
| invalidated: "client_run x env m \<Longrightarrow> client_run x env (invalidate_task_detail i m)"

text \<open>The invariant of a model: tables keyed by their rows, no artifact body, an index over exactly these
  tasks, and the bookkeeping of a replay within its bounds.\<close>

definition tasks_ok :: "index_env \<Rightarrow> client_model \<Rightarrow> bool" where
  "tasks_ok env m \<longleftrightarrow>
     (\<forall>i s. bget (cm_tasks m) i = Some s \<longrightarrow> tk_id (sn_task s) = i \<and> sn_artifacts s = bempty) \<and>
     (\<forall>i. rel_option (\<lambda>e s. e = entry_from_snapshot env s (en_occurred_at_ms e)) (bget (ix_entries (cm_index m)) i) (bget (cm_tasks m) i))"

definition tables_ok :: "client_model \<Rightarrow> bool" where
  "tables_ok m \<longleftrightarrow> (\<forall>k f. bget (cm_operations m) k = Some f \<longrightarrow> op_id f = k) \<and>
     (\<forall>k a. bget (cm_artifact_summaries m) k = Some a \<longrightarrow> as_id a = k) \<and>
     (\<forall>k r. bget (cm_host_resources m) k = Some r \<longrightarrow> rs_id r = k \<and> rs_task_id r = None) \<and>
     (\<forall>i. bcontains (cm_admitted_task_detail m) i \<longrightarrow> bcontains (cm_tasks m) i) \<and>
     ix_revision (cm_index m) = cm_last_applied_sequence m"

definition replay_ok :: "client_model \<Rightarrow> bool" where
  "replay_ok m \<longleftrightarrow> distinct (cm_replay_cursors m) \<and> length (cm_replay_cursors m) \<le> cm_replay_page_count m
     \<and> cm_replay_page_count m \<le> MAX_CLIENT_REPLAY_PAGES
     \<and> (cm_replay_through m = None \<longrightarrow> cm_replay_page_count m = 0)"

definition model_ok :: "index_env \<Rightarrow> client_model \<Rightarrow> bool" where
  "model_ok env m \<longleftrightarrow> tasks_ok env m \<and> tables_ok m \<and> replay_ok m"

lemma apply_event_id:
  assumes "apply_event x s ev = Inr s'"
  shows "de_task_id ev = Some (tk_id (sn_task s'))"
proof (cases s)
  case None
  then show ?thesis using assms
    by (cases "de_payload ev") (auto simp: apply_event_def Let_def apply_task_created_def result_simps split: if_splits)
next
  case (Some t)
  then have step: "task_step x ev t = Inr s'" using assms by (simp add: task_step_def)
  have "de_task_id ev = Some (tk_id (sn_task t))"
    using step task_step_mutation[of ev x t s'] task_step_other[of ev x t s'] by blast
  then show ?thesis using task_step_ahead[OF step] by (simp add: snapshot_ahead_def task_ahead_def)
qed

lemma update_task_entries:
  "bget (ix_entries (update_task env s at ix)) i =
     (if i = tk_id (sn_task s) then Some (entry_from_snapshot env s at) else bget (ix_entries ix) i)"
  "ix_revision (update_task env s at ix) = ix_revision ix"
proof -
  show "bget (ix_entries (update_task env s at ix)) i =
     (if i = tk_id (sn_task s) then Some (entry_from_snapshot env s at) else bget (ix_entries ix) i)"
    by (simp add: update_task_def Let_def)
  have "ix_revision (remove_task_id i ix) = ix_revision ix" for i
    by (simp add: remove_task_id_def Let_def split: option.split)
  then show "ix_revision (update_task env s at ix) = ix_revision ix" by (simp add: update_task_def Let_def)
qed

lemma tasks_ok_sync: "tasks_ok env m \<Longrightarrow> in_sync (bget (cm_tasks m)) m"
  by (auto simp: tasks_ok_def in_sync_def forget_def option.map_ident_strong bcontains_iff split: option.split
      intro!: sym[OF option.map_ident_strong])

text \<open>What is staged carries its own key and no artifact.\<close>

lemma staged_task_ok:
  assumes ok: "tasks_ok env m" and st: "stage_event x ev m = Inr st" "se_task st = Some (i, s)"
  shows "tk_id (sn_task s) = i \<and> sn_artifacts s = bempty"
proof -
  let ?h = "bget (cm_tasks m)"
  have sync: "in_sync ?h m" by (rule tasks_ok_sync[OF ok])
  obtain h' where h': "host_step x ev ?h = Inr h'" and t: "staged_tasks st ?h = map_option forget \<circ> h'"
    using stage_sync[OF sync, of x ev] st(1) by (auto simp: stages_as_def is_ok_iff)
  have "map_option forget (h' i) = Some s" using t st(2) by (metis comp_apply fun_upd_same option.simps(5) case_prod_conv staged_tasks_def)
  then obtain s' where s': "h' i = Some s'" "s = forget s'" by auto
  show ?thesis
  proof (cases "h' i = ?h i")
    case True
    then show ?thesis using s' ok by (auto simp: tasks_ok_def)
  next
    case False
    then have "apply_event x (?h i) ev = Inr s'" "de_task_id ev = Some i"
      using h' s' by (auto simp: host_step_def result_simps split: if_splits option.splits)
    then show ?thesis using apply_event_id s'(2) by fastforce
  qed
qed

lemma commit_staged_index:
  "bget (ix_entries (cm_index (commit_staged env ev st m))) i = (case se_task st of
     None \<Rightarrow> bget (ix_entries (cm_index m)) i
   | Some (j, s) \<Rightarrow> if i = tk_id (sn_task s) then Some (entry_from_snapshot env s (de_occurred_at_ms ev))
       else bget (ix_entries (cm_index m)) i)"
  "ix_revision (cm_index (commit_staged env ev st m)) = de_sequence ev"
  "cm_admitted_task_detail (commit_staged env ev st m) = (case se_task st of
     None \<Rightarrow> cm_admitted_task_detail m | Some (j, s) \<Rightarrow> bremove j (cm_admitted_task_detail m))"
  "cm_artifact_summaries (commit_staged env ev st m) = (case se_artifact_summary st of
     None \<Rightarrow> cm_artifact_summaries m | Some a \<Rightarrow> binsert (as_id a) a (cm_artifact_summaries m))"
  "cm_host_resources (commit_staged env ev st m) = cm_host_resources m"
  by (auto simp: commit_staged_def commit_task_def Let_def set_index_revision_def update_task_entries split: option.split prod.split)

lemma entry_time [simp]: "en_occurred_at_ms (entry_from_snapshot env s at) = at"
  by (simp add: entry_from_snapshot_def)

lemma staged_tasks_get:
  "staged_tasks st tasks i = (case se_task st of None \<Rightarrow> tasks i | Some (j, s) \<Rightarrow> if i = j then Some s else tasks i)"
  by (simp add: staged_tasks_def split: option.split prod.split)

lemma event_keeps_ok:
  assumes ok: "model_ok env m" and ev: "apply_one_event x env ev m = Inr m'"
  shows "model_ok env m'"
proof -
  obtain st where st: "stage_event x ev m = Inr st" and m': "m' = commit_staged env ev st m"
    using ev by (auto simp: apply_one_event_def result_simps split: if_splits)
  have parts: "tasks_ok env m" "tables_ok m" "replay_ok m" using ok by (simp_all add: model_ok_def)
  have task: "se_task st = Some (i, s) \<Longrightarrow> tk_id (sn_task s) = i \<and> sn_artifacts s = bempty" for i s
    by (rule staged_task_ok[OF parts(1) st])
  have "tasks_ok env m'"
    using parts(1) task unfolding tasks_ok_def m' commit_staged_index commit_staged_fields staged_tasks_get
    by (auto split: option.splits if_splits)
  moreover have "tables_ok m'"
  proof -
    have "bget (cm_operations m') = operation_after ev (bget (cm_operations m))"
      using client_event_sync(2)[OF tasks_ok_sync[OF parts(1)]] ev unfolding client_apply_event_def by blast
    then have "bget (cm_operations m') k = Some f \<longrightarrow> op_id f = k" for k f
      using parts(2) by (auto simp: tables_ok_def operation_after_def accepted_facts_def split: option.splits if_splits)
    moreover have "bcontains (cm_admitted_task_detail m') i \<longrightarrow> bcontains (cm_tasks m') i" for i
      using parts(2) unfolding tables_ok_def m' commit_staged_index bcontains_iff commit_staged_fields staged_tasks_get
      by (auto split: option.splits if_splits)
    moreover have "bget (cm_artifact_summaries m') k = Some a \<longrightarrow> as_id a = k" for k a
      using parts(2) by (auto simp: tables_ok_def m' commit_staged_index split: option.splits if_splits)
    moreover have "bget (cm_host_resources m') k = Some r \<longrightarrow> rs_id r = k \<and> rs_task_id r = None" for k r
      using parts(2) by (simp add: tables_ok_def m' commit_staged_index)
    moreover have "ix_revision (cm_index m') = cm_last_applied_sequence m'"
      by (simp add: m' commit_staged_index commit_staged_fields)
    ultimately show ?thesis unfolding tables_ok_def by blast
  qed
  moreover have "replay_ok m'" using parts(3) by (simp add: replay_ok_def m' commit_replay_fields)
  ultimately show ?thesis by (simp add: model_ok_def)
qed

interpretation client_ok: invariant_journal "apply_one_event x env" "model_ok env" for x env
  by unfold_locales (rule event_keeps_ok)

interpretation client_page_ok: invariant_journal "apply_page_event x env page" "model_ok env" for x env page
  by unfold_locales (auto simp: apply_page_event_def split: if_splits intro: event_keeps_ok)

lemma model_ok_clone [simp]: "model_ok env (model_clone env m) = model_ok env m"
  by (simp add: model_ok_def tasks_ok_def tables_ok_def replay_ok_def model_clone_def index_clone_def)

lemma page_keeps_ok:
  assumes ok: "model_ok env m" and page: "apply_replay_page x env page m = Inr m'"
  shows "model_ok env m'"
proof -
  obtain m1 m2 m3 where s: "pin_replay page (model_clone env m) = Inr m1" "count_replay_page page m1 = Inr m2"
    "try_fold (apply_page_event x env page) (ep_events page) m2 = Inr m3" "finish_replay page m3 = Inr m'"
    using page by (auto simp: apply_replay_page_def apply_replay_page_inner_def result_simps split: if_splits)
  have "model_ok env (model_clone env m)" using ok by simp
  then have "model_ok env m1" "cm_replay_through m1 \<noteq> None" using s(1)
    by (auto simp: pin_replay_def model_ok_def tasks_ok_def tables_ok_def replay_ok_def split: option.splits if_splits)
  then have "model_ok env m2" using s(2)
    by (auto simp: count_replay_page_def model_ok_def tasks_ok_def tables_ok_def replay_ok_def Let_def result_simps
        check_replay_continuation_bounds_def hs_insert_def split: option.splits if_splits)
  then have "model_ok env m3" by (rule client_page_ok.replay_inv) (rule s(3))
  then show ?thesis using s(4)
    by (auto simp: finish_replay_def model_ok_def tasks_ok_def tables_ok_def replay_ok_def set_index_revision_def split: if_splits)
qed

definition same_view :: "task_snapshot \<Rightarrow> task_snapshot \<Rightarrow> bool" where
  "same_view s s' \<longleftrightarrow> sn_task s' = sn_task s \<and> sn_connectivity s' = sn_connectivity s \<and> sn_attention s' = sn_attention s
     \<and> sn_activity s' = sn_activity s \<and> sn_review_readiness s' = sn_review_readiness s
     \<and> sn_primary_agent_id s' = sn_primary_agent_id s \<and> sn_provider_sessions s' = sn_provider_sessions s
     \<and> sn_artifacts s' = sn_artifacts s"

lemma same_view_entry:
  assumes "same_view s s'"
  shows "entry_from_snapshot env s' at = entry_from_snapshot env s at"
proof -
  have eqs: "sn_task s' = sn_task s" "sn_connectivity s' = sn_connectivity s" "sn_attention s' = sn_attention s"
    "sn_activity s' = sn_activity s" "sn_review_readiness s' = sn_review_readiness s"
    "sn_primary_agent_id s' = sn_primary_agent_id s" "sn_provider_sessions s' = sn_provider_sessions s"
    using assms by (simp_all add: same_view_def)
  show ?thesis unfolding entry_from_snapshot_def visible_status_def eqs by (rule refl)
qed

lemma detail_task_ok:
  assumes ok: "model_ok env m" and d: "detail_task i f m = Inr m'" and f: "\<And>s s'. f s = Inr s' \<Longrightarrow> same_view s s'"
  shows "model_ok env m'"
proof -
  obtain s s' where s: "bget (cm_tasks m) i = Some s" "f s = Inr s'" "m' = m \<lparr> cm_tasks := binsert i s' (cm_tasks m) \<rparr>"
    using d by (auto simp: detail_task_def result_simps)
  note v = f[OF s(2)]
  have tasks: "tasks_ok env m" using ok by (simp add: model_ok_def)
  then have "rel_option (\<lambda>e s. e = entry_from_snapshot env s (en_occurred_at_ms e)) (bget (ix_entries (cm_index m)) i) (Some s)"
    "tk_id (sn_task s) = i" "sn_artifacts s = bempty"
    using s(1) unfolding tasks_ok_def by metis+
  then have "tasks_ok env m'"
    using tasks v same_view_entry[OF v] unfolding tasks_ok_def s(3)
    by (auto simp: same_view_def option_rel_Some2)
  then show ?thesis using ok s(1,3) by (auto simp: model_ok_def tables_ok_def replay_ok_def)
qed

lemma detail_item_ok:
  assumes ok: "model_ok env m" and d: "admit_detail_item i row m = Inr m'"
  shows "model_ok env m'"
proof -
  obtain sec item where row: "row = (sec, item)" by (cases row)
  have artifact: "model_ok env (m \<lparr> cm_artifact_summaries := binsert (as_id a) a (cm_artifact_summaries m) \<rparr>)" for a
    using ok by (simp add: model_ok_def tasks_ok_def tables_ok_def replay_ok_def)
  have views: "(if p then Inl CmDuplicateItem else Inr (upd_agent k a s)) = Inr s' \<Longrightarrow> same_view s s'"
    "(if p then Inl CmDuplicateItem else Inr (s \<lparr> sn_resources := rs \<rparr>)) = Inr s' \<Longrightarrow> same_view s s'"
    "project_book g s = Inr s' \<Longrightarrow> same_view s s'" for p k a s s' rs g
    by (auto simp: project_book_def same_view_def upd_agent_def result_simps split: if_splits)
  note kept = detail_task_ok[OF ok _ views(1)] detail_task_ok[OF ok _ views(2)] detail_task_ok[OF ok _ views(3)]
  show ?thesis using d unfolding row
    by (cases item; cases sec; simp add: admit_detail_item_def result_simps split: if_splits) (auto intro: kept artifact)
qed

interpretation detail_ok: invariant_journal "admit_detail_item i" "model_ok env" for i env
  by unfold_locales (rule detail_item_ok)

lemma detail_keeps_ok:
  assumes ok: "model_ok env m" and d: "admit_task_detail_pages env i pages m = Inr m'"
  shows "model_ok env m'"
proof -
  obtain m1 m2 task where s: "clear_task_detail i (has_browser_pages pages) (model_clone env m) = Inr m1"
    "try_fold (admit_detail_item i) (concat (map page_rows pages)) m1 = Inr m2" "bget (cm_tasks m2) i = Some task"
    and m': "m' = m2 \<lparr> cm_index := update_task env task
      (case task_last_occurred_at_ms i m2 of None \<Rightarrow> 0 | Some at \<Rightarrow> at) (cm_index m2),
      cm_admitted_task_detail := bs_insert i (cm_admitted_task_detail m2) \<rparr>"
    using d by (auto simp: admit_task_detail_pages_def admit_task_detail_pages_inner_def result_simps Let_def split: if_splits)
  have start: "model_ok env (model_clone env m)" using ok by simp
  obtain m0 where m0: "detail_task i (\<lambda>task.
         let task = task \<lparr> sn_agents := bempty, sn_resources := bempty \<rparr>
         in if has_browser_pages pages
            then rbind (map_err (\<lambda>_. CmInvalidOwnership) (open_task i book_new)) (\<lambda>b. Inr (task \<lparr> sn_browser := b \<rparr>))
            else Inr task) (model_clone env m) = Inr m0"
    "m1 = m0 \<lparr> cm_artifact_summaries := bretain (\<lambda>_ a. as_task_id a \<noteq> i) (cm_artifact_summaries m0) \<rparr>"
    using s(1) by (auto simp: clear_task_detail_def result_simps)
  have "model_ok env m0"
    by (rule detail_task_ok[OF start m0(1)]) (auto simp: same_view_def Let_def result_simps split: if_splits)
  then have "model_ok env m1"
    by (auto simp: m0(2) model_ok_def tasks_ok_def tables_ok_def replay_ok_def bretain_Some)
  then have m2: "model_ok env m2" by (rule detail_ok.replay_inv) (rule s(2))
  then have "tk_id (sn_task task) = i" using s(3) by (simp add: model_ok_def tasks_ok_def)
  moreover have "bcontains (cm_tasks m2) i" using s(3) by (simp add: bcontains_iff)
  ultimately show ?thesis using m2 s(3)
    by (auto simp: m' model_ok_def tasks_ok_def tables_ok_def replay_ok_def update_task_entries split: option.splits if_splits)
qed

lemma index_from_tasks_entries:
  "ix_entries (index_from_tasks env tasks n) = tasks_entries env tasks" "ix_revision (index_from_tasks env tasks n) = n"
  unfolding index_from_tasks_def
  by (subst fold_keeps[where h = ix_entries], auto simp: index_start_def)
     (subst fold_keeps[where h = ix_revision], auto)

lemma assembled_ok:
  assumes i: "ingest_pages ps builder_new = (Inr (), b)" and f: "finish env b = Inr m"
  shows "model_ok env m"
proof -
  have l: "loaded (concat (map sp_items ps)) b" using ingest_pages_loaded[OF loaded_new i] by simp
  have fa: "finish_assembled env b = Inr m" using f by (simp add: finish_def Let_def split: if_splits)
  note copy = assembled_model(1)[OF l fa]
  have fields: "cm_admitted_task_detail m = bempty" "cm_replay_through m = None" "cm_replay_page_count m = 0" "cm_replay_cursors m = []"
    "cm_index m = index_from_tasks env (cm_tasks m) (cm_last_applied_sequence m)"
    using fa by (auto elim: finish_assembled_steps)
  have "tasks_ok env m" using copy
    by (auto simp: tasks_ok_def faithful_copy_def copies_task_def fields(5) index_from_tasks_entries tasks_entries_def
        option.rel_map rel_option_iff split: option.split)
  moreover have "tables_ok m" using copy
    by (simp add: tables_ok_def faithful_copy_def fields index_from_tasks_entries)
  moreover have "replay_ok m" by (simp add: replay_ok_def fields)
  ultimately show ?thesis by (simp add: model_ok_def)
qed

lemma run_model_ok: "client_run x env m \<Longrightarrow> model_ok env m"
proof (induction rule: client_run.induct)
  case (assembled ps b m)
  then show ?case by (rule assembled_ok)
next
  case (live m ev m')
  then show ?case using event_keeps_ok by (simp add: client_apply_event_def)
next
  case (replayed m page m')
  then show ?case using page_keeps_ok by blast
next
  case (detailed m i pages m')
  then show ?case using detail_keeps_ok by blast
next
  case (invalidated m i)
  then show ?case by (simp add: model_ok_def tasks_ok_def tables_ok_def replay_ok_def invalidate_task_detail_def)
qed

section \<open>The history of an operation\<close>

definition operation_path :: "operation_state \<Rightarrow> operation_state \<Rightarrow> bool" where
  "operation_path = (\<lambda>s t. \<exists>source. operation_step s source t)\<^sup>*\<^sup>*"

definition operation_ahead :: "operation_facts \<Rightarrow> operation_facts \<Rightarrow> bool" where
  "operation_ahead f g \<longleftrightarrow> op_command_id g = op_command_id f \<and> op_task_id g = op_task_id f
     \<and> op_accepted_at_ms g = op_accepted_at_ms f \<and> operation_path (op_state f) (op_state g)"

definition model_ahead :: "client_model \<Rightarrow> client_model \<Rightarrow> bool" where
  "model_ahead m n \<longleftrightarrow> cm_last_applied_sequence m \<le> cm_last_applied_sequence n \<and>
     (\<forall>i. bcontains (cm_tasks m) i \<longrightarrow> bcontains (cm_tasks n) i) \<and>
     (\<forall>k f. bget (cm_operations m) k = Some f \<longrightarrow> (\<exists>g. bget (cm_operations n) k = Some g \<and> operation_ahead f g))"

lemma operation_ahead_refl [simp]: "operation_ahead f f"
  by (simp add: operation_ahead_def operation_path_def)

lemma operation_ahead_trans: "operation_ahead f g \<Longrightarrow> operation_ahead g h \<Longrightarrow> operation_ahead f h"
  by (auto simp: operation_ahead_def operation_path_def)

lemma model_ahead_refl: "model_ahead m m"
  by (simp add: model_ahead_def)

lemma model_ahead_trans: "model_ahead l m \<Longrightarrow> model_ahead m n \<Longrightarrow> model_ahead l n"
  unfolding model_ahead_def by (meson operation_ahead_trans order_trans)

lemma final_operation_path:
  assumes "operation_path s t" "\<And>source u. \<not> operation_step s source u"
  shows "t = s"
  using assms(1) unfolding operation_path_def by (cases rule: converse_rtranclpE) (use assms(2) in auto)

lemma staged_operation_ahead:
  assumes sync: "in_sync h m" and ev: "apply_one_event x env ev m = Inr n" and f: "bget (cm_operations m) k = Some f"
  shows "\<exists>g. bget (cm_operations n) k = Some g \<and> operation_ahead f g"
proof -
  have c: "client_apply_event x env ev m = Inr n" using ev by (simp add: client_apply_event_def)
  have legal: "operation_legal ev (bget (cm_operations m))" using client_event_sync(1)[OF sync, of x env ev] c by simp
  have after: "bget (cm_operations n) = operation_after ev (bget (cm_operations m))"
    using client_event_sync(2)[OF sync c] by blast
  show ?thesis
  proof (cases "outcome_of (de_payload ev)")
    case None
    then show ?thesis using legal f
      by (auto simp: after operation_after_def operation_legal_def split: option.splits)
  next
    case (Some r)
    obtain oid cid source st where r: "r = (oid, cid, source, st)" by (cases r) auto
    have "accepted_of (de_payload ev) = None" using kind_excludes(3)[OF Some] by simp
    moreover have "oid = k \<Longrightarrow> operation_step (op_state f) source st" using legal Some f by (auto simp: operation_legal_def r)
    ultimately show ?thesis using Some f
      by (auto simp: after operation_after_def r operation_ahead_def operation_path_def intro!: r_into_rtranclp)
  qed
qed

lemma event_ahead:
  assumes ok: "model_ok env m" and ev: "apply_one_event x env ev m = Inr n"
  shows "model_ahead m n \<and> model_ok env n"
proof -
  have sync: "in_sync (bget (cm_tasks m)) m" using ok tasks_ok_sync by (auto simp: model_ok_def)
  obtain st where st: "stage_event x ev m = Inr st" "n = commit_staged env ev st m"
    and seq: "cm_last_applied_sequence m < de_sequence ev"
    using ev by (auto simp: apply_one_event_def result_simps split: if_splits)
  have "bcontains (cm_tasks m) i \<longrightarrow> bcontains (cm_tasks n) i" for i
    by (auto simp: st(2) bcontains_iff commit_staged_fields staged_tasks_get split: option.split)
  moreover have "cm_last_applied_sequence m \<le> cm_last_applied_sequence n"
    using seq by (simp add: st(2) commit_staged_fields)
  ultimately show ?thesis using event_keeps_ok[OF ok ev] staged_operation_ahead[OF sync ev]
    unfolding model_ahead_def by blast
qed

text \<open>The steps of a session after assembly.\<close>

inductive client_moves :: "ext \<Rightarrow> index_env \<Rightarrow> client_model \<Rightarrow> client_model \<Rightarrow> bool" for x env where
  stay: "client_moves x env m m"
| event: "client_moves x env l m \<Longrightarrow> client_apply_event x env ev m = Inr n \<Longrightarrow> client_moves x env l n"
| page: "client_moves x env l m \<Longrightarrow> apply_replay_page x env p m = Inr n \<Longrightarrow> client_moves x env l n"
| detail: "client_moves x env l m \<Longrightarrow> admit_task_detail_pages env i pages m = Inr n \<Longrightarrow> client_moves x env l n"
| forgotten: "client_moves x env l m \<Longrightarrow> client_moves x env l (invalidate_task_detail i m)"

interpretation page_ahead: invariant_journal "apply_page_event x env page" "\<lambda>n. model_ok env n \<and> model_ahead m n" for x env page m
  by unfold_locales (auto simp: apply_page_event_def split: if_splits dest: event_ahead intro: model_ahead_trans)

lemma model_ahead_same:
  "cm_tasks n = cm_tasks m \<Longrightarrow> cm_operations n = cm_operations m \<Longrightarrow>
     cm_last_applied_sequence m \<le> cm_last_applied_sequence n \<Longrightarrow> model_ahead m n"
  by (simp add: model_ahead_def)

lemma replay_page_ahead:
  assumes ok: "model_ok env m" and page: "apply_replay_page x env page m = Inr n"
  shows "model_ahead m n"
proof -
  obtain m1 m2 m3 where s: "pin_replay page (model_clone env m) = Inr m1" "count_replay_page page m1 = Inr m2"
    "try_fold (apply_page_event x env page) (ep_events page) m2 = Inr m3" "finish_replay page m3 = Inr n"
    using page by (auto simp: apply_replay_page_def apply_replay_page_inner_def result_simps split: if_splits)
  have start: "model_ok env (model_clone env m)" using ok by simp
  then have m1: "model_ok env m1" "cm_replay_through m1 \<noteq> None" "core m1 = core m" using s(1)
    by (auto simp: pin_replay_def model_ok_def tasks_ok_def tables_ok_def replay_ok_def split: option.splits if_splits)
  have m2: "model_ok env m2 \<and> core m2 = core m" using s(2) m1
    by (auto simp: count_replay_page_def model_ok_def tasks_ok_def tables_ok_def replay_ok_def Let_def result_simps
        check_replay_continuation_bounds_def hs_insert_def split: option.splits if_splits)
  have "cm_tasks m2 = cm_tasks m" "cm_operations m2 = cm_operations m" "cm_last_applied_sequence m2 = cm_last_applied_sequence m"
    using m2 by (metis core_fields)+
  then have "model_ok env m2 \<and> model_ahead m m2" using m2 by (simp add: model_ahead_same)
  then have "model_ok env m3 \<and> model_ahead m m3" by (rule page_ahead.replay_inv) (rule s(3))
  moreover have "model_ahead m3 n" using s(4)
    by (auto simp: finish_replay_def not_less split: if_splits intro!: model_ahead_same)
  ultimately show ?thesis by (blast intro: model_ahead_trans)
qed

definition detail_frame :: "client_model \<Rightarrow> client_model \<Rightarrow> bool" where
  "detail_frame m n \<longleftrightarrow> cm_operations n = cm_operations m \<and> cm_last_applied_sequence n = cm_last_applied_sequence m \<and>
     (\<forall>i. bcontains (cm_tasks m) i \<longrightarrow> bcontains (cm_tasks n) i)"

lemma detail_task_frame: "detail_task i f m = Inr n \<Longrightarrow> detail_frame m n"
  by (auto simp: detail_task_def detail_frame_def result_simps)

lemma detail_item_frame:
  assumes "admit_detail_item i row m = Inr n"
  shows "detail_frame m n"
proof -
  obtain sec item where row: "row = (sec, item)" by (cases row)
  show ?thesis using assms unfolding row
    by (cases item; cases sec; simp add: admit_detail_item_def result_simps split: if_splits)
       (auto simp: detail_frame_def dest: detail_task_frame)
qed

interpretation detail_rows: monotone_journal "admit_detail_item i" detail_frame for i
  by unfold_locales (auto simp: detail_frame_def dest!: detail_item_frame)

lemma detail_ahead:
  assumes "admit_task_detail_pages env i pages m = Inr n"
  shows "model_ahead m n"
proof -
  obtain m1 m2 where s: "clear_task_detail i (has_browser_pages pages) (model_clone env m) = Inr m1"
    "try_fold (admit_detail_item i) (concat (map page_rows pages)) m1 = Inr m2"
    and n: "cm_tasks n = cm_tasks m2" "cm_operations n = cm_operations m2" "cm_last_applied_sequence n = cm_last_applied_sequence m2"
    using assms by (auto simp: admit_task_detail_pages_def admit_task_detail_pages_inner_def result_simps Let_def split: if_splits)
  have "detail_frame (model_clone env m) m1"
    using s(1) by (auto simp: clear_task_detail_def result_simps detail_frame_def dest!: detail_task_frame)
  moreover have "detail_frame m1 m2" using s(2) by (rule detail_rows.replay_ahead)
  ultimately show ?thesis using n by (auto simp: model_ahead_def detail_frame_def model_clone_def)
qed

lemma moves_ahead: "client_moves x env m n \<Longrightarrow> model_ok env m \<Longrightarrow> model_ok env n \<and> model_ahead m n"
proof (induction rule: client_moves.induct)
  case (event l m ev n)
  then have "model_ok env m" "model_ahead l m" "apply_one_event x env ev m = Inr n" by (auto simp: client_apply_event_def)
  with event_ahead[OF this(1,3)] show ?case by (blast intro: model_ahead_trans)
next
  case (page l m p n)
  then have "model_ok env m" "model_ahead l m" by auto
  with page_keeps_ok[OF this(1) page.hyps(2)] replay_page_ahead[OF this(1) page.hyps(2)] show ?case
    by (blast intro: model_ahead_trans)
next
  case (detail l m i pages n)
  then have "model_ok env m" "model_ahead l m" by auto
  with detail_keeps_ok[OF this(1) detail.hyps(2)] detail_ahead[OF detail.hyps(2)] show ?case
    by (blast intro: model_ahead_trans)
next
  case (forgotten l m i)
  then have m: "model_ok env m" "model_ahead l m" by auto
  have "model_ahead m (invalidate_task_detail i m)" by (simp add: model_ahead_same invalidate_task_detail_def)
  moreover have "model_ok env (invalidate_task_detail i m)" using m(1)
    by (simp add: model_ok_def tasks_ok_def tables_ok_def replay_ok_def invalidate_task_detail_def)
  ultimately show ?case using m(2) by (blast intro: model_ahead_trans)
qed (simp add: model_ahead_refl)

section \<open>Properties\<close>

text \<open>C12. Every model a client can reach, from any accepted pages through live events, replay pages and
  fetched details, is well-formed: each table is keyed by the identity of its rows, no task keeps an
  artifact body, the index has exactly one current entry for every task and the model's revision, and an
  unfinished replay is within its bounds with every cursor seen once.\<close>

theorem client_model_invariant:
  assumes "client_run x env m"
  shows "model_ok env m"
  using assms by (rule run_model_ok)

text \<open>C25. An operation only moves forward.  Whatever a client applies after a point, an operation it knew
  then keeps its command, its task and its acceptance time, and its state follows the allowed steps: an
  accepted one is settled, failed or cancelled by dispatch or becomes uncertain, an uncertain one is
  resolved by reconciliation, and what is settled, failed or cancelled stays as it is.\<close>

theorem operations_move_forward:
  assumes "client_run x env m" "client_moves x env m n" "bget (cm_operations m) k = Some f"
  shows "\<exists>g. bget (cm_operations n) k = Some g \<and> operation_ahead f g \<and>
    (op_state f \<noteq> OsAccepted \<and> (\<forall>t c. op_state f \<noteq> OsUncertain t c) \<longrightarrow> op_state g = op_state f)"
proof -
  have "model_ahead m n" using moves_ahead[OF assms(2)] run_model_ok[OF assms(1)] by simp
  then obtain g where g: "bget (cm_operations n) k = Some g" "operation_ahead f g"
    using assms(3) unfolding model_ahead_def by blast
  have "op_state g = op_state f" if "op_state f \<noteq> OsAccepted" "\<forall>t c. op_state f \<noteq> OsUncertain t c"
    using g(2) final_operation_path[of "op_state f" "op_state g"] that
    by (cases "op_state f") (auto simp: operation_ahead_def)
  then show ?thesis using g by blast
qed

definition terminal_of :: "event \<Rightarrow> resource_id option" where
  "terminal_of e = (case e of TerminalCwdReported r _ \<Rightarrow> Some r | TerminalExited r _ _ \<Rightarrow> Some r
     | TerminalActivity r \<Rightarrow> Some r | _ \<Rightarrow> None)"

text \<open>C26. A model fresh from its snapshot cannot follow the terminals in it.  No section carries terminal
  facts, so the client refuses every observation of a terminal, although a host that has the terminal
  applies it.\<close>

theorem snapshot_client_refuses_terminal_events:
  assumes "ingest_pages ps builder_new = (Inr (), b)" "finish env b = Inr m"
    and "terminal_of (de_payload ev) = Some r" "cm_last_applied_sequence m < de_sequence ev"
    and "de_task_id ev = Some (tk_id (sn_task s))" "bcontains (sn_terminal_facts s) r"
  shows "client_apply_event x env ev m = Inl CmApplyFailed \<and> is_ok (apply_event x (Some s) ev)"
proof -
  have l: "loaded (concat (map sp_items ps)) b" using ingest_pages_loaded[OF loaded_new assms(1)] by simp
  have fa: "finish_assembled env b = Inr m" using assms(2) by (simp add: finish_def Let_def split: if_splits)
  have none: "bget (cm_tasks m) i = Some t \<Longrightarrow> sn_terminal_facts t = bempty" for i t
    using assembled_model(1)[OF l fa] by (auto simp: faithful_copy_def copies_task_def)
  have fails: "\<not> is_ok (apply_event x (bget (cm_tasks m) i) ev)" for i
    using assms(3) none[of i] by (cases "bget (cm_tasks m) i"; cases "de_payload ev")
      (auto simp: terminal_of_def apply_event_def Let_def apply_into_def is_ok_iff result_simps apply_cwd_reported_def
        apply_terminal_exited_def apply_terminal_activity_def upd_terminal_def)
  have "stage_event x ev m = Inl CmApplyFailed"
    using assms(3,5) fails[of "tk_id (sn_task s)"]
    by (cases "de_payload ev"; cases "apply_event x (bget (cm_tasks m) (tk_id (sn_task s))) ev")
      (auto simp: terminal_of_def stage_event_def require_operation_envelope_timestamp_def operation_event_at_def apply_to_task_def)
  then have "client_apply_event x env ev m = Inl CmApplyFailed"
    using assms(4) by (simp add: client_apply_event_def apply_one_event_def)
  moreover have "is_ok (apply_event x (Some s) ev)"
    using assms(3,5,6)
    by (cases "de_payload ev") (auto simp: terminal_of_def apply_event_def Let_def apply_into_def is_ok_iff result_simps
        apply_cwd_reported_def apply_terminal_exited_def apply_terminal_activity_def upd_terminal_def require_matching_task_id_def bcontains_iff)
  ultimately show ?thesis by simp
qed

section \<open>Concrete sessions\<close>

lemma sample_created_applies:
  "\<exists>m. client_apply_event sc_ext sample_env sc_created (empty_model sample_env) = Inr m"
proof -
  have "is_ok (host_step sc_ext sc_created Map.empty)"
    using sc_apply_create by (simp add: host_step_def host_only_def sc_created_def)
  then have "is_ok (client_apply_event sc_ext sample_env sc_created (empty_model sample_env))"
    unfolding client_event_sync(1)[OF empty_in_sync]
    by (simp add: empty_model_def sc_created_def operation_legal_def accepted_of_def outcome_of_def operation_event_at_def
        withheld_def artifact_of_def)
  then show ?thesis by (simp add: is_ok_iff)
qed

definition sample_event_page :: event_page where
  "sample_event_page = \<lparr> ep_after_sequence = 0, ep_through_sequence = 5, ep_events = [sc_created], ep_next_cursor = None \<rparr>"

theorem paged_replay_exact_witness:
  "\<exists>m. try_fold (apply_replay_page sc_ext sample_env) [sample_event_page] (empty_model sample_env) = Inr m
     \<and> cm_last_applied_sequence m = 5 \<and> cm_replay_through m = None"
proof -
  obtain n where n: "client_apply_event sc_ext sample_env sc_created (empty_model sample_env) = Inr n"
    using sample_created_applies by blast
  have fold: "try_fold (client_apply_event sc_ext sample_env) (concat (map ep_events [sample_event_page])) (empty_model sample_env) = Inr n"
    by (simp add: sample_event_page_def n)
  have "\<exists>m'. try_fold (apply_replay_page sc_ext sample_env) [sample_event_page] (empty_model sample_env) = Inr m'
      \<and> core m' = at_sequence 5 (core n)
      \<and> cm_replay_through m' = None \<and> cm_replay_page_count m' = 0 \<and> cm_replay_cursors m' = []"
    using paged_replay_exact[of "empty_model sample_env" 5 "[sample_event_page]" sc_ext sample_env]
    unfolding fold
    by (simp add: empty_model_def sample_event_page_def sc_created_def page_cursors_def List.map_filter_simps MAX_CLIENT_REPLAY_PAGES_def)
  then obtain m' where m': "try_fold (apply_replay_page sc_ext sample_env) [sample_event_page] (empty_model sample_env) = Inr m'"
    "core m' = at_sequence 5 (core n)" "cm_replay_through m' = None" by blast
  have "cm_last_applied_sequence m' = 5" using arg_cong[OF m'(2), of cm_last_applied_sequence] by simp
  with m' show ?thesis by blast
qed

lemma sample_run: "client_run sc_ext sample_env sample_model"
  using sample_ingested sample_finished by (rule client_run.assembled)

theorem client_model_invariant_witness: "model_ok sample_env sample_model"
  using client_model_invariant[OF sample_run] .

definition sample_host_event :: domain_event where
  "sample_host_event = \<lparr> de_id = Id 23, de_task_id = None, de_sequence = 7, de_task_revision = None,
     de_occurred_at_ms = 9, de_payload = HostCloseBegun (Id 60) 1 2 \<rparr>"

theorem operations_move_forward_witness:
  "\<exists>n g. client_apply_event sc_ext sample_env sample_host_event sample_model = Inr n \<and>
     bget (cm_operations n) (Id 40) = Some g \<and> op_state g = OsSettled 9 []"
proof -
  obtain n where n: "client_apply_event sc_ext sample_env sample_host_event sample_model = Inr n"
    by (simp add: client_apply_event_def apply_one_event_def sample_model_def sample_host_event_def stage_host host_only_def)
  have "client_moves sc_ext sample_env sample_model n" by (rule client_moves.event[OF client_moves.stay n])
  moreover have "bget (cm_operations sample_model) (Id 40) = Some sample_operation" by (simp add: sample_model_def)
  ultimately show ?thesis
    using operations_move_forward[OF sample_run, of n "Id 40" sample_operation] n by (auto simp: sample_operation_def)
qed

definition sample_activity :: domain_event where
  "sample_activity = sample_host_event \<lparr> de_task_id := Some (Id 1), de_payload := TerminalActivity (Id 70) \<rparr>"

definition sample_host_task :: task_snapshot where
  "sample_host_task = sc_start \<lparr> sn_terminal_facts := binsert (Id 70) (terminal_facts_registered (Id 70) None 5) bempty \<rparr>"

theorem snapshot_client_refuses_terminal_events_witness:
  "client_apply_event sc_ext sample_env sample_activity sample_model = Inl CmApplyFailed
     \<and> is_ok (apply_event sc_ext (Some sample_host_task) sample_activity)"
  by (rule snapshot_client_refuses_terminal_events[OF sample_ingested sample_finished, where r = "Id 70"])
     (simp_all add: terminal_of_def sample_activity_def sample_host_event_def sample_model_def sample_host_task_def sc_start_def sc_task_def)

end
