(* ===== verification/Client_Host.thy ===== *)
theory Client_Host
  imports Client_Waiters Client_Run Host_Hello
begin

text \<open>
  The host client (\<open>src/client/host_client.rs\<close>, with the check of the server's hello of
  \<open>src/client/connection.rs\<close>): capability-gated queries over one connection, correlated with what was
  asked, and the tracking of accepted operations.

  The connection is the argument \<open>conn\<close> of the operations: what a call on it returns and the connection
  it leaves behind, over a state \<open>'c\<close> of its own.  A connection that is retired is dropped.  The fresh
  request id of a query is only read by the connection, which matches the reply by it; the envelope of a
  query is its task scope and the query.

  Opening a connection is the argument \<open>op\<close>: the exchange of hellos over a local endpoint with the
  connection it gives, the authenticated session of a Connect route, the normalisation of a profile name
  (\<open>AppProfile::named\<close>), the endpoint of a fingerprint and SHA-256.
\<close>

section \<open>The server's hello\<close>

unbundle bit_operations_syntax

definition limits_within_offer_and_caps :: "frame_limits \<Rightarrow> frame_limits \<Rightarrow> bool" where
  "limits_within_offer_and_caps got offer \<longleftrightarrow>
     is_ok (validate_offer got) \<and>
     max_physical_frame_bytes got \<le> min (max_physical_frame_bytes offer) MAX_PHYSICAL_FRAME_BYTES \<and>
     max_reassembled_message_bytes got \<le> min (max_reassembled_message_bytes offer) MAX_REASSEMBLED_MESSAGE_BYTES \<and>
     max_page_items got \<le> min (max_page_items offer) MAX_SNAPSHOT_PAGE_ITEMS \<and>
     max_page_encoded_bytes got \<le> min (max_page_encoded_bytes offer) MAX_SNAPSHOT_PAGE_ENCODED_BYTES"

definition validate_server_hello :: "client_hello \<Rightarrow> server_hello \<Rightarrow> ipc_error + unit" where
  "validate_server_hello sent received =
     (if sh_profile_fingerprint received \<noteq> ch_profile_fingerprint sent then Inl IpcProfileMismatch
      else if sh_protocol_major received \<noteq> ch_protocol_major sent then Inl IpcHelloInconsistent
      else if sh_protocol_minor received > ch_protocol_minor sent then Inl IpcHelloInconsistent
      else if bits (sh_granted received) AND NOT (bits (ch_requested sent)) \<noteq> 0 then Inl IpcHelloInconsistent
      else if \<not> limits_within_offer_and_caps (sh_limits received) (ch_limits sent) then Inl IpcHelloInconsistent
      else Inr ())"

section \<open>The client\<close>

datatype query =
    QOperationStatus operation_id
  | QCommandReceiptStatus "u8 list"
  | QTaskSnapshot
  | QSnapshotPage snapshot_section "snapshot_id option" "u8 list option"
  | QReleaseSnapshot snapshot_id
  | QOpenEventReplay u64
  | QContinueEventReplay subscription_id "u8 list"
  | QReleaseEventReplay subscription_id
  | QOpenArtifactContent artifact_id
  | QContinueArtifactContent subscription_id "u8 list"
  | QReleaseArtifactContent subscription_id
  | QInspectHostQuit
  | QPromptLibrary "u8 list"
  | QTaskCockpit "u8 list"

record prepare_update_intent =
  pu_target_version :: rstr
  pu_client_build :: rstr
  pu_host_build :: rstr
  pu_allow_explicit_confirm_with_active :: bool

record ('c, 'h) connection_ops =
  co_is_live :: "'c \<Rightarrow> bool"
  co_query :: "task_id option \<Rightarrow> query \<Rightarrow> 'c \<Rightarrow> (ipc_error + query_outcome) \<times> 'c"
  co_execute_command :: "'h command_envelope \<Rightarrow> 'c \<Rightarrow> (ipc_error + command_receipt) \<times> 'c"
  co_execute_update_handoff ::
    "command_id \<Rightarrow> prepare_update_intent \<Rightarrow> 'c \<Rightarrow> (ipc_error + update_handoff_reply) \<times> 'c"
  co_detach :: "128 word \<Rightarrow> 'c \<Rightarrow> (ipc_error + detach_ack) \<times> 'c"
  co_recv_unsolicited :: "'c \<Rightarrow> (ipc_error + unsolicited_server_message) \<times> 'c"
  co_retire_subscription_id :: "subscription_id \<Rightarrow> 'c \<Rightarrow> (ipc_error + unit) \<times> 'c"

datatype tracked_operation = Pending command_id | Resolved command_id operation_state

record event_replay_batch =
  eb_subscription_id :: subscription_id
  eb_page :: event_page

record artifact_content_batch =
  ab_subscription_id :: subscription_id
  ab_page :: artifact_content_page

record host_client_config =
  lc_named_profile :: rstr
  lc_client_build :: rstr
  lc_client_id :: client_id
  lc_requested :: capability_set
  lc_limits :: frame_limits

record connect_limits =
  cl_max_physical_frame_bytes :: u32
  cl_max_reassembled_message_bytes :: u32
  cl_max_page_items :: u32
  cl_max_page_encoded_bytes :: u32
  cl_max_chunk_bytes :: u32
  cl_max_cumulative_bytes :: u64

record connect_client_config =
  cf_expected_host_public_id :: "u8 list"
  cf_host_key_pin :: "u8 list"
  cf_requested_capabilities :: capability_set
  cf_limits :: connect_limits
  cf_first_pairing :: bool
  cf_device_public_id :: "u8 list option"
  cf_requested_client_id :: "client_id option"

text \<open>Of the channel binding of a session the client reads the connection id.\<close>

record connect_authenticated_session =
  as_host_public_id :: "u8 list"
  as_host_key_pin :: "u8 list"
  as_assigned_client_id :: client_id
  as_connection_id :: "128 word"
  as_negotiated_capabilities :: capability_set
  as_negotiated_limits :: connect_limits
  as_server_build :: "rstr option"

datatype connection_metadata = MetadataLocal server_hello | MetadataConnect connect_authenticated_session

definition as_connect :: "connection_metadata \<Rightarrow> connect_authenticated_session option" where
  "as_connect metadata = (case metadata of MetadataConnect session \<Rightarrow> Some session | MetadataLocal _ \<Rightarrow> None)"

definition metadata_granted :: "connection_metadata \<Rightarrow> capability_set" where
  "metadata_granted metadata = (case metadata of
     MetadataLocal hello \<Rightarrow> sh_granted hello | MetadataConnect session \<Rightarrow> as_negotiated_capabilities session)"

definition metadata_connection_id :: "connection_metadata \<Rightarrow> 128 word" where
  "metadata_connection_id metadata = (case metadata of
     MetadataLocal hello \<Rightarrow> sh_connection_id hello | MetadataConnect session \<Rightarrow> as_connection_id session)"

definition metadata_host_boot_id :: "connection_metadata \<Rightarrow> 128 word option" where
  "metadata_host_boot_id metadata = (case metadata of
     MetadataLocal hello \<Rightarrow> Some (sh_host_boot_id hello) | MetadataConnect _ \<Rightarrow> None)"

definition metadata_reconnect_grant :: "connection_metadata \<Rightarrow> u8 list option" where
  "metadata_reconnect_grant metadata = (case metadata of
     MetadataLocal hello \<Rightarrow> sh_reconnect_grant hello | MetadataConnect _ \<Rightarrow> None)"

datatype host_client_transport =
    TransportLocal host_client_config rstr "u8 list option"
  | TransportConnect connect_client_config

record 'c host_client =
  hc_transport :: host_client_transport
  hc_connection :: "'c option"
  hc_metadata :: connection_metadata
  hc_tracked :: "(operation_id, tracked_operation) bmap"

definition hc_granted :: "'c host_client \<Rightarrow> capability_set" where
  "hc_granted h = metadata_granted (hc_metadata h)"

definition hc_connection_id :: "'c host_client \<Rightarrow> 128 word" where
  "hc_connection_id h = metadata_connection_id (hc_metadata h)"

definition hc_host_boot_id :: "'c host_client \<Rightarrow> 128 word option" where
  "hc_host_boot_id h = metadata_host_boot_id (hc_metadata h)"

text \<open>\<open>client_id\<close>; \<open>None\<close> is the panic of its \<open>expect\<close>, which no client can meet
  (\<open>connected_client_has_id\<close>).\<close>

definition hc_client_id :: "'c host_client \<Rightarrow> client_id option" where
  "hc_client_id h = (case hc_transport h of
     TransportLocal config _ _ \<Rightarrow> Some (lc_client_id config)
   | TransportConnect config \<Rightarrow>
       (case cf_requested_client_id config of
          Some i \<Rightarrow> Some i
        | None \<Rightarrow> map_option as_assigned_client_id (as_connect (hc_metadata h))))"

section \<open>Connecting\<close>

record 'c opener =
  op_named_profile :: "rstr \<Rightarrow> rstr option"
  op_sha :: "u8 list \<Rightarrow> u8 list"
  op_endpoint :: "u8 list \<Rightarrow> rstr"
  op_exchange_hello :: "rstr \<Rightarrow> client_hello \<Rightarrow> ipc_error + server_hello \<times> 'c"
  op_connect_halves :: "connect_client_config \<Rightarrow> ipc_error + connect_authenticated_session \<times> 'c"

definition normalize_named_profile :: "'c opener \<Rightarrow> rstr \<Rightarrow> ipc_error + rstr" where
  "normalize_named_profile op profile =
     (case op_named_profile op profile of Some name \<Rightarrow> Inr name | None \<Rightarrow> Inl (IpcInvalidProfile profile))"

definition profile_fingerprint_for_named_profile :: "'c opener \<Rightarrow> rstr \<Rightarrow> ipc_error + u8 list" where
  "profile_fingerprint_for_named_profile op profile =
     map_ok (hash_normalized (op_sha op)) (normalize_named_profile op profile)"

definition pipe_endpoint_for_named_profile :: "'c opener \<Rightarrow> rstr \<Rightarrow> ipc_error + rstr" where
  "pipe_endpoint_for_named_profile op profile =
     map_ok (op_endpoint op) (profile_fingerprint_for_named_profile op profile)"

definition finish_local_connect :: "'c opener \<Rightarrow> rstr \<Rightarrow> client_hello \<Rightarrow> ipc_error + 'c \<times> connection_metadata" where
  "finish_local_connect op endpoint hello =
     rbind handshake_codecs (\<lambda>_.
     rbind (op_exchange_hello op endpoint hello) (\<lambda>(server_hello, connection).
     rbind (validate_server_hello hello server_hello) (\<lambda>_.
     rbind (negotiated_codecs (sh_limits server_hello)) (\<lambda>_.
     Inr (connection, MetadataLocal server_hello)))))"

definition open_local_connection ::
  "'c opener \<Rightarrow> host_client_config \<Rightarrow> rstr \<Rightarrow> u8 list option \<Rightarrow> ipc_error + 'c \<times> connection_metadata" where
  "open_local_connection op config endpoint reconnect_grant =
     rbind (profile_fingerprint_for_named_profile op (lc_named_profile config)) (\<lambda>fingerprint.
     rbind (map_err IpcClientHello (client_hello_new_with_reconnect_grant (lc_client_build config)
        (lc_client_id config) fingerprint (lc_requested config) (lc_limits config) reconnect_grant)) (\<lambda>hello.
     finish_local_connect op endpoint hello))"

definition host_client_connect :: "'c opener \<Rightarrow> host_client_config \<Rightarrow> ipc_error + 'c host_client" where
  "host_client_connect op config =
     rbind (pipe_endpoint_for_named_profile op (lc_named_profile config)) (\<lambda>endpoint.
     rbind (open_local_connection op config endpoint None) (\<lambda>(connection, metadata).
     Inr \<lparr> hc_transport = TransportLocal config endpoint (metadata_reconnect_grant metadata),
           hc_connection = Some connection, hc_metadata = metadata, hc_tracked = bempty \<rparr>))"

text \<open>The metadata of a connection opened over a Connect route is that of its session.\<close>

definition connect_connect :: "'c opener \<Rightarrow> connect_client_config \<Rightarrow> ipc_error + 'c host_client" where
  "connect_connect op config =
     rbind (op_connect_halves op config) (\<lambda>(session, connection).
     Inr \<lparr> hc_transport = TransportConnect (config \<lparr> cf_requested_client_id := Some (as_assigned_client_id session) \<rparr>),
           hc_connection = Some connection, hc_metadata = MetadataConnect session, hc_tracked = bempty \<rparr>)"

definition reconnect :: "'c opener \<Rightarrow> 'c host_client \<Rightarrow> (ipc_error + unit) \<times> 'c host_client" where
  "reconnect op h =
     (case hc_transport h of
        TransportLocal config endpoint reconnect_grant \<Rightarrow>
          (let h = h \<lparr> hc_connection := None \<rparr>
           in case open_local_connection op config endpoint reconnect_grant of
                Inr (connection, metadata) \<Rightarrow>
                  (Inr (), h \<lparr> hc_transport := TransportLocal config endpoint (metadata_reconnect_grant metadata),
                              hc_connection := Some connection, hc_metadata := metadata \<rparr>)
              | Inl error \<Rightarrow> (Inl error, h))
      | TransportConnect _ \<Rightarrow> (Inl IpcUnsupported, h))"

definition reconnect_connect :: "'c opener \<Rightarrow> 'c host_client \<Rightarrow> (ipc_error + unit) \<times> 'c host_client" where
  "reconnect_connect op h =
     (case hc_transport h of
        TransportLocal _ _ _ \<Rightarrow> (Inl IpcUnsupported, h)
      | TransportConnect config \<Rightarrow>
          if (case as_connect (hc_metadata h) of
                None \<Rightarrow> False
              | Some prior \<Rightarrow> as_host_key_pin prior \<noteq> cf_host_key_pin config
                  \<or> as_host_public_id prior \<noteq> cf_expected_host_public_id config)
          then (Inl IpcUnauthorized, h)
          else (let h = h \<lparr> hc_connection := None \<rparr>
                in case op_connect_halves op config of
                     Inl error \<Rightarrow> (Inl error, h)
                   | Inr (session, connection) \<Rightarrow>
                       if cf_host_key_pin config \<noteq> as_host_key_pin session then (Inl IpcUnauthorized, h)
                       else (Inr (), h \<lparr> hc_transport := TransportConnect (config \<lparr> cf_requested_client_id :=
                                            Some (as_assigned_client_id session) \<rparr>),
                                        hc_connection := Some connection,
                                        hc_metadata := MetadataConnect session \<rparr>)))"

lemma metadata_of_client [simp]:
  "hc_granted (h \<lparr> hc_connection := c \<rparr>) = hc_granted h" "hc_granted (h \<lparr> hc_tracked := t \<rparr>) = hc_granted h"
  "hc_client_id (h \<lparr> hc_connection := c \<rparr>) = hc_client_id h" "hc_client_id (h \<lparr> hc_tracked := t \<rparr>) = hc_client_id h"
  by (simp_all add: hc_granted_def hc_client_id_def split: host_client_transport.split option.split)

section \<open>Calls\<close>

definition disconnect :: "'c host_client \<Rightarrow> 'c host_client" where
  "disconnect h = h \<lparr> hc_connection := None \<rparr>"

definition retire_connection :: "'c host_client \<Rightarrow> 'c host_client" where
  "retire_connection h = h \<lparr> hc_connection := None \<rparr>"

definition is_connected :: "('c, 'h) connection_ops \<Rightarrow> 'c host_client \<Rightarrow> bool" where
  "is_connected conn h = (case hc_connection h of None \<Rightarrow> False | Some c \<Rightarrow> co_is_live conn c)"

definition live_connection :: "('c, 'h) connection_ops \<Rightarrow> 'c host_client \<Rightarrow> ipc_error + 'c" where
  "live_connection conn h =
     (case hc_connection h of
        None \<Rightarrow> Inl IpcUnavailable
      | Some c \<Rightarrow> if co_is_live conn c then Inr c else Inl IpcUnavailable)"

type_synonym ('c, 'r) called = "(ipc_error + 'r) \<times> 'c host_client"

text \<open>A call on the live connection; the connection of a call that failed is retired.\<close>

definition on_connection ::
  "('c, 'h) connection_ops \<Rightarrow> ('c \<Rightarrow> (ipc_error + 'r) \<times> 'c) \<Rightarrow> 'c host_client \<Rightarrow> ('c, 'r) called" where
  "on_connection conn f h =
     (case live_connection conn h of
        Inl e \<Rightarrow> (Inl e, h)
      | Inr c \<Rightarrow>
          (case f c of
             (Inl e, c) \<Rightarrow> (Inl e, retire_connection h)
           | (Inr r, c) \<Rightarrow> (Inr r, h \<lparr> hc_connection := Some c \<rparr>)))"

text \<open>A gated query: \<open>correlate\<close> takes the result that was asked for; any other retires the connection.\<close>

definition gated_query ::
  "('c, 'h) connection_ops \<Rightarrow> capability \<Rightarrow> task_id option \<Rightarrow> query \<Rightarrow> (query_result \<Rightarrow> ipc_error + 'r)
     \<Rightarrow> 'c host_client \<Rightarrow> ('c, query_error + 'r) called" where
  "gated_query conn capability task query correlate h =
     (if \<not> contains_capability (hc_granted h) capability then (Inl IpcUnsupportedCapability, h)
      else case on_connection conn (co_query conn task query) h of
        (Inl e, h) \<Rightarrow> (Inl e, h)
      | (Inr (Inl error), h) \<Rightarrow> (Inr (Inl error), h)
      | (Inr (Inr result), h) \<Rightarrow>
          (case correlate result of
             Inl e \<Rightarrow> (Inl e, retire_connection h)
           | Inr r \<Rightarrow> (Inr (Inr r), h)))"

definition request_query ::
  "('c, 'h) connection_ops \<Rightarrow> client_id \<Rightarrow> task_id option \<Rightarrow> query \<Rightarrow> 'c host_client \<Rightarrow> ('c, query_outcome) called" where
  "request_query conn client task query h =
     (if hc_client_id h \<noteq> Some client then (Inl IpcUnauthorized, h) else on_connection conn (co_query conn task query) h)"

section \<open>Snapshots, replays and artifact contents\<close>

definition snapshot_page_scoped ::
  "('c, 'h) connection_ops \<Rightarrow> snapshot_section \<Rightarrow> task_id option \<Rightarrow> snapshot_id option \<Rightarrow> u8 list option
     \<Rightarrow> 'c host_client \<Rightarrow> ('c, query_error + snapshot_page) called" where
  "snapshot_page_scoped conn section task snapshot resume_cursor =
     gated_query conn PagedSnapshots task (QSnapshotPage section snapshot resume_cursor) (\<lambda>result.
       case result of
         QrSnapshotPage page \<Rightarrow>
           if sp_section page \<noteq> section then Inl IpcCorrelationMismatch
           else (case snapshot of
                   None \<Rightarrow> Inr page
                 | Some expected \<Rightarrow>
                     if sp_snapshot_id page \<noteq> expected then Inl IpcCorrelationMismatch else Inr page)
       | _ \<Rightarrow> Inl IpcUnexpectedResponse)"

definition client_snapshot_page ::
  "('c, 'h) connection_ops \<Rightarrow> snapshot_section \<Rightarrow> snapshot_id option \<Rightarrow> u8 list option
     \<Rightarrow> 'c host_client \<Rightarrow> ('c, query_error + snapshot_page) called" where
  "client_snapshot_page conn section = snapshot_page_scoped conn section None"

definition release_snapshot_scoped ::
  "('c, 'h) connection_ops \<Rightarrow> snapshot_id \<Rightarrow> task_id option \<Rightarrow> 'c host_client \<Rightarrow> ('c, query_error + unit) called" where
  "release_snapshot_scoped conn snapshot task =
     gated_query conn PagedSnapshots task (QReleaseSnapshot snapshot) (\<lambda>result.
       case result of
         QrSnapshotReleased released \<Rightarrow> if released = snapshot then Inr () else Inl IpcCorrelationMismatch
       | _ \<Rightarrow> Inl IpcUnexpectedResponse)"

definition release_snapshot ::
  "('c, 'h) connection_ops \<Rightarrow> snapshot_id \<Rightarrow> 'c host_client \<Rightarrow> ('c, query_error + unit) called" where
  "release_snapshot conn snapshot = release_snapshot_scoped conn snapshot None"

definition open_event_replay ::
  "('c, 'h) connection_ops \<Rightarrow> u64 \<Rightarrow> 'c host_client \<Rightarrow> ('c, query_error + event_replay_batch) called" where
  "open_event_replay conn after_sequence =
     gated_query conn EventReplay None (QOpenEventReplay after_sequence) (\<lambda>result.
       case result of
         QrEventReplayPage i page \<Rightarrow>
           if ep_after_sequence page \<noteq> after_sequence then Inl IpcCorrelationMismatch
           else Inr \<lparr> eb_subscription_id = i, eb_page = page \<rparr>
       | _ \<Rightarrow> Inl IpcUnexpectedResponse)"

definition continue_event_replay ::
  "('c, 'h) connection_ops \<Rightarrow> subscription_id \<Rightarrow> u8 list \<Rightarrow> 'c host_client
     \<Rightarrow> ('c, query_error + event_replay_batch) called" where
  "continue_event_replay conn subscription resume_cursor =
     gated_query conn EventReplay None (QContinueEventReplay subscription resume_cursor) (\<lambda>result.
       case result of
         QrEventReplayPage returned page \<Rightarrow>
           if returned \<noteq> subscription then Inl IpcCorrelationMismatch
           else Inr \<lparr> eb_subscription_id = returned, eb_page = page \<rparr>
       | _ \<Rightarrow> Inl IpcUnexpectedResponse)"

text \<open>A fence that fails retires the connection.\<close>

definition fence_retired_subscription ::
  "('c, 'h) connection_ops \<Rightarrow> subscription_id \<Rightarrow> 'c host_client \<Rightarrow> ('c, unit) called" where
  "fence_retired_subscription conn subscription h =
     (case hc_connection h of
        None \<Rightarrow> (Inl IpcUnavailable, retire_connection h)
      | Some c \<Rightarrow>
          (case co_retire_subscription_id conn subscription c of
             (Inl e, c) \<Rightarrow> (Inl e, retire_connection h)
           | (Inr u, c) \<Rightarrow> (Inr u, h \<lparr> hc_connection := Some c \<rparr>)))"

definition fence_then ::
  "('c, 'h) connection_ops \<Rightarrow> subscription_id \<Rightarrow> 'r \<Rightarrow> 'c host_client \<Rightarrow> ('c, 'r) called" where
  "fence_then conn subscription r h =
     (case fence_retired_subscription conn subscription h of
        (Inl e, h) \<Rightarrow> (Inl e, h)
      | (Inr _, h) \<Rightarrow> (Inr r, h))"

definition fence_and_retire ::
  "('c, 'h) connection_ops \<Rightarrow> subscription_id \<Rightarrow> ipc_error \<Rightarrow> 'c host_client \<Rightarrow> ('c, 'r) called" where
  "fence_and_retire conn subscription e h =
     (Inl e, retire_connection (snd (fence_retired_subscription conn subscription h)))"

definition release_event_replay ::
  "('c, 'h) connection_ops \<Rightarrow> subscription_id \<Rightarrow> 'c host_client \<Rightarrow> ('c, query_error + unit) called" where
  "release_event_replay conn subscription h =
     (if \<not> contains_capability (hc_granted h) EventReplay
      then (if hc_connection h \<noteq> None
            then (case fence_retired_subscription conn subscription h of
                    (Inl e, h) \<Rightarrow> (Inl e, h)
                  | (Inr _, h) \<Rightarrow> (Inl IpcUnsupportedCapability, h))
            else (Inl IpcUnsupportedCapability, h))
      else case live_connection conn h of
        Inl e \<Rightarrow> (Inl e, h)
      | Inr c \<Rightarrow>
          (case co_query conn None (QReleaseEventReplay subscription) c of
             (Inl e, c) \<Rightarrow> fence_and_retire conn subscription e (h \<lparr> hc_connection := Some c \<rparr>)
           | (Inr outcome, c) \<Rightarrow>
               (let h = h \<lparr> hc_connection := Some c \<rparr>
                in case outcome of
                     Inl error \<Rightarrow> fence_then conn subscription (Inl error) h
                   | Inr (QrEventReplayReleased released) \<Rightarrow>
                       if released = subscription then fence_then conn subscription (Inr ()) h
                       else fence_and_retire conn subscription IpcCorrelationMismatch h
                   | Inr _ \<Rightarrow> fence_and_retire conn subscription IpcUnexpectedResponse h)))"

definition open_artifact_content ::
  "('c, 'h) connection_ops \<Rightarrow> task_id \<Rightarrow> artifact_id \<Rightarrow> 'c host_client
     \<Rightarrow> ('c, query_error + artifact_content_batch) called" where
  "open_artifact_content conn task artifact =
     gated_query conn ChunkResume (Some task) (QOpenArtifactContent artifact) (\<lambda>result.
       case result of
         QrArtifactContentPage i page \<Rightarrow>
           if ac_artifact_id page \<noteq> artifact then Inl IpcCorrelationMismatch
           else Inr \<lparr> ab_subscription_id = i, ab_page = page \<rparr>
       | _ \<Rightarrow> Inl IpcUnexpectedResponse)"

definition continue_artifact_content ::
  "('c, 'h) connection_ops \<Rightarrow> task_id \<Rightarrow> subscription_id \<Rightarrow> u8 list \<Rightarrow> 'c host_client
     \<Rightarrow> ('c, query_error + artifact_content_batch) called" where
  "continue_artifact_content conn task subscription resume_cursor =
     gated_query conn ChunkResume (Some task) (QContinueArtifactContent subscription resume_cursor) (\<lambda>result.
       case result of
         QrArtifactContentPage returned page \<Rightarrow>
           if returned \<noteq> subscription then Inl IpcCorrelationMismatch
           else Inr \<lparr> ab_subscription_id = returned, ab_page = page \<rparr>
       | _ \<Rightarrow> Inl IpcUnexpectedResponse)"

definition release_artifact_content ::
  "('c, 'h) connection_ops \<Rightarrow> task_id \<Rightarrow> subscription_id \<Rightarrow> 'c host_client \<Rightarrow> ('c, query_error + unit) called" where
  "release_artifact_content conn task subscription =
     gated_query conn ChunkResume (Some task) (QReleaseArtifactContent subscription) (\<lambda>result.
       case result of
         QrArtifactContentReleased released \<Rightarrow> if released = subscription then Inr () else Inl IpcCorrelationMismatch
       | _ \<Rightarrow> Inl IpcUnexpectedResponse)"

definition client_recv_unsolicited ::
  "('c, 'h) connection_ops \<Rightarrow> 'c host_client \<Rightarrow> ('c, unsolicited_server_message) called" where
  "client_recv_unsolicited conn h =
     (case live_connection conn h of
        Inl e \<Rightarrow> (Inl e, h)
      | Inr c \<Rightarrow> (case co_recv_unsolicited conn c of (r, c) \<Rightarrow> (r, h \<lparr> hc_connection := Some c \<rparr>)))"

section \<open>Commands and tracked operations\<close>

type_synonym tracking = "(operation_id, tracked_operation) bmap"

definition tracked_command :: "tracked_operation \<Rightarrow> command_id" where
  "tracked_command t = (case t of Pending c \<Rightarrow> c | Resolved c _ \<Rightarrow> c)"

definition track_accepted_receipt :: "command_receipt \<Rightarrow> tracking \<Rightarrow> ipc_error + tracking" where
  "track_accepted_receipt receipt tracked =
     (case receipt of
        ReceiptRejected _ _ _ _ \<Rightarrow> Inr tracked
      | ReceiptAccepted command operation _ _ _ \<Rightarrow>
          (case bget tracked operation of
             None \<Rightarrow> Inr (binsert operation (Pending command) tracked)
           | Some existing \<Rightarrow>
               if tracked_command existing = command then Inr tracked else Inl IpcCorrelationMismatch))"

definition correlate_operation_status :: "operation_id \<Rightarrow> query_result \<Rightarrow> ipc_error + operation_state" where
  "correlate_operation_status expected result =
     (case result of
        QrOperationStatus operation state \<Rightarrow>
          if operation \<noteq> expected then Inl IpcCorrelationMismatch else Inr state
      | _ \<Rightarrow> Inl IpcUnexpectedResponse)"

definition apply_observed_operation_state ::
  "operation_id \<Rightarrow> operation_state \<Rightarrow> tracking \<Rightarrow> ipc_error + tracking" where
  "apply_observed_operation_state operation state tracked =
     (case bget tracked operation of
        None \<Rightarrow> Inr tracked
      | Some (Pending command) \<Rightarrow>
          if state = OsAccepted then Inr tracked
          else Inr (binsert operation (Resolved command state) tracked)
      | Some (Resolved command existing) \<Rightarrow>
          if existing = state then Inr tracked
          else (case (existing, state) of
                  (OsUncertain _ _, OsSettled _ _) \<Rightarrow> Inr (binsert operation (Resolved command state) tracked)
                | (OsUncertain _ _, OsFailed _ _) \<Rightarrow> Inr (binsert operation (Resolved command state) tracked)
                | _ \<Rightarrow> Inl IpcCorrelationMismatch))"

definition absorb_one :: "operation_id \<times> tracked_operation \<Rightarrow> tracking \<Rightarrow> tracking" where
  "absorb_one entry tracked =
     (case entry of (operation, incoming) \<Rightarrow>
        (case bget tracked operation of
           None \<Rightarrow> binsert operation incoming tracked
         | Some (Resolved _ _) \<Rightarrow> tracked
         | Some (Pending _) \<Rightarrow>
             (case incoming of Resolved _ _ \<Rightarrow> binsert operation incoming tracked | Pending _ \<Rightarrow> tracked)))"

definition absorb_tracked_operations ::
  "'c host_client \<Rightarrow> 'c host_client \<Rightarrow> (ipc_error + unit) \<times> 'c host_client \<times> 'c host_client" where
  "absorb_tracked_operations source h =
     (if list_ex (\<lambda>(operation, incoming). case bget (hc_tracked h) operation of
            None \<Rightarrow> False
          | Some existing \<Rightarrow> tracked_command existing \<noteq> tracked_command incoming) (entries (hc_tracked source))
      then (Inl IpcCorrelationMismatch, source, h)
      else (Inr (), source \<lparr> hc_tracked := bempty \<rparr>,
            h \<lparr> hc_tracked := fold absorb_one (entries (hc_tracked source)) (hc_tracked h) \<rparr>))"

definition execute_command ::
  "('c, 'h) connection_ops \<Rightarrow> 'h command_envelope \<Rightarrow> 'c host_client \<Rightarrow> ('c, command_receipt) called" where
  "execute_command conn envelope h =
     (if hc_client_id h \<noteq> Some (ce_client_id envelope) then (Inl IpcUnauthorized, h)
      else case live_connection conn h of
        Inl e \<Rightarrow> (Inl e, h)
      | Inr c \<Rightarrow>
          (case co_execute_command conn envelope c of
             (Inl e, c) \<Rightarrow>
               if e = IpcDuplicateInFlight then (Inl e, h \<lparr> hc_connection := Some c \<rparr>)
               else (Inl e, retire_connection h)
           | (Inr receipt, c) \<Rightarrow>
               (case track_accepted_receipt receipt (hc_tracked h) of
                  Inl e \<Rightarrow> (Inl e, retire_connection h)
                | Inr tracked \<Rightarrow> (Inr receipt, h \<lparr> hc_connection := Some c, hc_tracked := tracked \<rparr>))))"

definition refresh_operation ::
  "('c, 'h) connection_ops \<Rightarrow> operation_id \<Rightarrow> 'c host_client \<Rightarrow> ('c, query_error + operation_state) called" where
  "refresh_operation conn operation h =
     (case gated_query conn OperationSettlement None (QOperationStatus operation) (correlate_operation_status operation) h of
        (Inr (Inr state), h) \<Rightarrow>
          (case apply_observed_operation_state operation state (hc_tracked h) of
             Inl e \<Rightarrow> (Inl e, retire_connection h)
           | Inr tracked \<Rightarrow> (Inr (Inr state), h \<lparr> hc_tracked := tracked \<rparr>))
      | other \<Rightarrow> other)"

definition prepare_update ::
  "('c, 'h) connection_ops \<Rightarrow> command_id \<Rightarrow> prepare_update_intent \<Rightarrow> 'c host_client \<Rightarrow> ('c, update_handoff_token) called" where
  "prepare_update conn command intent h =
     (if \<exists>config. hc_transport h = TransportConnect config then (Inl IpcUnsupported, h)
      else if \<not> contains_capability (hc_granted h) HostShutdown \<or> \<not> contains_capability (hc_granted h) UpdateHandoff
      then (Inl IpcUnsupportedCapability, h)
      else case on_connection conn (co_execute_update_handoff conn command intent) h of
        (Inl e, h) \<Rightarrow> (Inl e, h)
      | (Inr reply, h) \<Rightarrow>
          (let token = hr_token reply
           in if hr_command_id reply \<noteq> command \<or> hc_host_boot_id h \<noteq> Some (ht_host_boot_id token)
                 \<or> ht_host_boot_id token = 0 \<or> ht_target_version token \<noteq> pu_target_version intent
                 \<or> ht_client_build token \<noteq> pu_client_build intent \<or> ht_host_build token \<noteq> pu_host_build intent
              then (Inl IpcCorrelationMismatch, retire_connection h)
              else (Inr token, h)))"

definition finish_detach_after_matching_ack ::
  "128 word \<Rightarrow> detach_ack \<Rightarrow> 'c host_client \<Rightarrow> ('c, 128 word) called" where
  "finish_detach_after_matching_ack expected_connection_id ack h =
     (if da_connection_id ack \<noteq> expected_connection_id then (Inl IpcCorrelationMismatch, h \<lparr> hc_connection := None \<rparr>)
      else (Inr (da_connection_id ack), h \<lparr> hc_connection := None \<rparr>))"

definition client_detach :: "('c, 'h) connection_ops \<Rightarrow> 'c host_client \<Rightarrow> ('c, 128 word) called" where
  "client_detach conn h =
     (if \<not> contains_capability (hc_granted h) ExplicitDetach then (Inl IpcUnsupportedCapability, h)
      else case hc_connection h of
        None \<Rightarrow> (Inl IpcUnavailable, h)
      | Some c \<Rightarrow>
          (case co_detach conn (hc_connection_id h) c of
             (Inl e, c) \<Rightarrow> (Inl e, retire_connection h)
           | (Inr ack, c) \<Rightarrow> finish_detach_after_matching_ack (hc_connection_id h) ack (h \<lparr> hc_connection := Some c \<rparr>)))"

section \<open>Correlation\<close>

lemma on_connection_cases:
  assumes "on_connection conn f h = (r, h')"
  shows "(\<exists>e. r = Inl e \<and> (h' = h \<and> \<not> is_connected conn h \<or> h' = retire_connection h)) \<or>
    (\<exists>c c' v. r = Inr v \<and> hc_connection h = Some c \<and> co_is_live conn c \<and> f c = (Inr v, c') \<and> h' = h \<lparr> hc_connection := Some c' \<rparr>)"
  using assms by (auto simp: on_connection_def live_connection_def is_connected_def split: option.splits if_splits prod.splits sum.splits)

text \<open>What a gated query does to the client: nothing when it was not sent, the end of the connection when it
  failed or was answered with something else, the connection as the answer left it otherwise.\<close>

definition query_effect ::
  "('c, 'h) connection_ops \<Rightarrow> capability \<Rightarrow> task_id option \<Rightarrow> query \<Rightarrow> 'c host_client \<Rightarrow> (ipc_error + (query_error + 'r))
     \<Rightarrow> (query_result \<Rightarrow> ipc_error + 'r) \<Rightarrow> 'c host_client \<Rightarrow> bool" where
  "query_effect conn capability task q h r correlate h' =
     (case r of
        Inl _ \<Rightarrow> h' = h \<and> (\<not> contains_capability (hc_granted h) capability \<or> \<not> is_connected conn h) \<or> h' = retire_connection h
      | Inr answer \<Rightarrow> contains_capability (hc_granted h) capability \<and>
          (\<exists>c c' outcome. hc_connection h = Some c \<and> co_is_live conn c \<and> co_query conn task q c = (Inr outcome, c')
             \<and> h' = h \<lparr> hc_connection := Some c' \<rparr>
             \<and> (case answer of Inl e \<Rightarrow> outcome = Inl e | Inr v \<Rightarrow> \<exists>result. outcome = Inr result \<and> correlate result = Inr v)))"

lemma gated_query_effect:
  assumes "gated_query conn capability task q correlate h = (r, h')"
  shows "query_effect conn capability task q h r correlate h'"
proof (cases "contains_capability (hc_granted h) capability")
  case False
  then show ?thesis using assms by (auto simp: gated_query_def query_effect_def)
next
  case True
  obtain r1 h1 where on: "on_connection conn (co_query conn task q) h = (r1, h1)"
    by (cases "on_connection conn (co_query conn task q) h")
  from on_connection_cases[OF on] show ?thesis
  proof (elim disjE exE conjE)
    fix c c' v
    assume a: "r1 = Inr v" "hc_connection h = Some c" "co_is_live conn c" "co_query conn task q c = (Inr v, c')"
      "h1 = h \<lparr> hc_connection := Some c' \<rparr>"
    show ?thesis
    proof (cases v)
      case (Inl e)
      then show ?thesis using assms True on a by (auto simp: gated_query_def query_effect_def)
    next
      case (Inr result)
      then show ?thesis using assms True on a
        by (cases "correlate result") (auto simp: gated_query_def query_effect_def retire_connection_def)
    qed
  qed (use assms True on in \<open>auto simp: gated_query_def query_effect_def\<close>)
qed

lemma gated_query_answered:
  assumes "gated_query conn capability task q correlate h = (Inr (Inr v), h')"
  shows "\<exists>result c. correlate result = Inr v \<and> contains_capability (hc_granted h) capability \<and> h' = h \<lparr> hc_connection := Some c \<rparr>"
  using gated_query_effect[OF assms] by (auto simp: query_effect_def)

lemma gated_query_fail_closed:
  "gated_query conn capability task q correlate h = (Inl e, h') \<Longrightarrow>
     h' = h \<and> (\<not> contains_capability (hc_granted h) capability \<or> \<not> is_connected conn h) \<or> hc_connection h' = None"
  "gated_query conn capability task q correlate h = (Inr (Inl error), h') \<Longrightarrow> hc_connection h' \<noteq> None"
  "gated_query conn capability task q correlate h = (Inr (Inr v), h') \<Longrightarrow> contains_capability (hc_granted h) capability"
  by (drule gated_query_effect; auto simp: query_effect_def retire_connection_def)+

lemma snapshot_page_correlated:
  assumes "snapshot_page_scoped conn section task snapshot cursor h = (Inr (Inr page), h')"
  shows "sp_section page = section" "snapshot = Some i \<Longrightarrow> sp_snapshot_id page = i"
proof -
  obtain result where "(case result of
         QrSnapshotPage page \<Rightarrow>
           if sp_section page \<noteq> section then Inl IpcCorrelationMismatch
           else (case snapshot of
                   None \<Rightarrow> Inr page
                 | Some expected \<Rightarrow>
                     if sp_snapshot_id page \<noteq> expected then Inl IpcCorrelationMismatch else Inr page)
       | _ \<Rightarrow> Inl IpcUnexpectedResponse) = Inr page"
    using gated_query_answered[OF assms[unfolded snapshot_page_scoped_def]] by blast
  then show "sp_section page = section" "snapshot = Some i \<Longrightarrow> sp_snapshot_id page = i"
    by (cases result; auto split: if_splits option.splits)+
qed

lemma open_replay_correlated:
  assumes "open_event_replay conn after h = (Inr (Inr batch), h')"
  shows "ep_after_sequence (eb_page batch) = after"
proof -
  obtain result where "(case result of
         QrEventReplayPage i page \<Rightarrow>
           if ep_after_sequence page \<noteq> after then Inl IpcCorrelationMismatch
           else Inr \<lparr> eb_subscription_id = i, eb_page = page \<rparr>
       | _ \<Rightarrow> Inl IpcUnexpectedResponse) = Inr batch"
    using gated_query_answered[OF assms[unfolded open_event_replay_def]] by blast
  then show ?thesis by (cases result) (auto split: if_splits)
qed

lemma continue_replay_correlated:
  assumes "continue_event_replay conn subscription cursor h = (Inr (Inr batch), h')"
  shows "eb_subscription_id batch = subscription"
proof -
  obtain result where "(case result of
         QrEventReplayPage returned page \<Rightarrow>
           if returned \<noteq> subscription then Inl IpcCorrelationMismatch
           else Inr \<lparr> eb_subscription_id = returned, eb_page = page \<rparr>
       | _ \<Rightarrow> Inl IpcUnexpectedResponse) = Inr batch"
    using gated_query_answered[OF assms[unfolded continue_event_replay_def]] by blast
  then show ?thesis by (cases result) (auto split: if_splits)
qed

text \<open>Nothing but the connection changes in a query.\<close>

definition same_client :: "'c host_client \<Rightarrow> 'c host_client \<Rightarrow> bool" where
  "same_client h h' \<longleftrightarrow> (\<exists>c. h' = h \<lparr> hc_connection := c \<rparr>)"

lemma same_client_refl [simp]: "same_client h h"
  unfolding same_client_def by (rule exI[of _ "hc_connection h"]) simp

lemma same_client_retire [simp]: "same_client h (retire_connection h)"
  by (auto simp: same_client_def retire_connection_def)

lemma same_client_trans: "same_client h h1 \<Longrightarrow> same_client h1 h2 \<Longrightarrow> same_client h h2"
  by (auto simp: same_client_def)

lemma same_client_fields:
  "same_client h h' \<Longrightarrow> hc_granted h' = hc_granted h \<and> hc_tracked h' = hc_tracked h \<and> hc_client_id h' = hc_client_id h"
  by (auto simp: same_client_def)

lemma gated_query_same:
  assumes "gated_query conn capability task q correlate h = (r, h')"
  shows "same_client h h'"
proof (cases r)
  case (Inl e)
  then show ?thesis using gated_query_effect[OF assms] same_client_refl[of h] same_client_retire[of h] by (auto simp: query_effect_def)
next
  case (Inr answer)
  then obtain c' where "h' = h \<lparr> hc_connection := Some c' \<rparr>" using gated_query_effect[OF assms] by (auto simp: query_effect_def)
  then show ?thesis by (auto simp: same_client_def)
qed

lemma fence_same: "fence_retired_subscription conn i h = (r, h') \<Longrightarrow> same_client h h'"
  by (auto simp: fence_retired_subscription_def same_client_def retire_connection_def split: option.splits prod.splits sum.splits)

lemma release_replay_same:
  assumes "release_event_replay conn i h = (r, h')"
  shows "same_client h h'"
proof -
  have then_same: "same_client k k'" if "fence_then conn i v k = (q, k')" for v :: "query_error + unit" and k k' q
    using that fence_same[of conn i k] by (auto simp: fence_then_def split: prod.splits sum.splits)
  have retire_same: "same_client k k'" if "fence_and_retire conn i e k = (q :: ipc_error + (query_error + unit), k')" for e k k' q
    using that fence_same[of conn i k] same_client_trans same_client_retire
    by (cases "fence_retired_subscription conn i k") (fastforce simp: fence_and_retire_def)
  have start: "same_client h (h \<lparr> hc_connection := c \<rparr>)" for c by (auto simp: same_client_def)
  note asked = same_client_trans[OF start then_same] same_client_trans[OF start retire_same]
  show ?thesis using assms
    by (auto simp: release_event_replay_def Let_def split: if_splits sum.splits prod.splits query_result.splits
        dest: asked fence_same)
qed

section \<open>Tracked operations\<close>

text \<open>What may become of a tracked operation: it keeps its command; a pending one may be resolved, a resolved one
  only from uncertain to settled or failed.\<close>

definition tracked_ahead :: "tracked_operation \<Rightarrow> tracked_operation \<Rightarrow> bool" where
  "tracked_ahead t u \<longleftrightarrow> tracked_command u = tracked_command t \<and>
     (case (t, u) of
        (Pending _, _) \<Rightarrow> True
      | (Resolved _ s, Resolved _ s') \<Rightarrow> s' = s \<or>
          (\<exists>at code. s = OsUncertain at code) \<and> ((\<exists>at ids. s' = OsSettled at ids) \<or> (\<exists>at code. s' = OsFailed at code))
      | (Resolved _ _, Pending _) \<Rightarrow> False)"

definition tracking_ahead :: "tracking \<Rightarrow> tracking \<Rightarrow> bool" where
  "tracking_ahead m n \<longleftrightarrow> (\<forall>k t. bget m k = Some t \<longrightarrow> (\<exists>u. bget n k = Some u \<and> tracked_ahead t u))"

lemma tracked_ahead_refl [simp]: "tracked_ahead t t"
  by (cases t) (simp_all add: tracked_ahead_def)

lemma tracked_ahead_trans: "tracked_ahead t u \<Longrightarrow> tracked_ahead u v \<Longrightarrow> tracked_ahead t v"
  by (cases t; cases u; cases v) (auto simp: tracked_ahead_def)

lemma tracking_ahead_refl [simp]: "tracking_ahead m m"
  by (auto simp: tracking_ahead_def)

lemma tracking_ahead_trans: "tracking_ahead m n \<Longrightarrow> tracking_ahead n l \<Longrightarrow> tracking_ahead m l"
  unfolding tracking_ahead_def by (meson tracked_ahead_trans)

lemma tracking_ahead_insert: "(\<And>t. bget m k = Some t \<Longrightarrow> tracked_ahead t v) \<Longrightarrow> tracking_ahead m (binsert k v m)"
  by (auto simp: tracking_ahead_def)

lemma track_receipt_ahead: "track_accepted_receipt r m = Inr n \<Longrightarrow> tracking_ahead m n"
  by (auto simp: track_accepted_receipt_def split: command_receipt.splits option.splits if_splits intro: tracking_ahead_insert)

lemma resolve_ahead [simp]:
  "tracked_ahead (Pending c) (Resolved c s)"
  "tracked_ahead (Resolved c (OsUncertain a b)) (Resolved c (OsSettled x y))"
  "tracked_ahead (Resolved c (OsUncertain a b)) (Resolved c (OsFailed x z))"
  by (simp_all add: tracked_ahead_def tracked_command_def)

lemma observed_ahead: "apply_observed_operation_state k s m = Inr n \<Longrightarrow> tracking_ahead m n"
  by (auto simp: apply_observed_operation_state_def split: option.splits tracked_operation.splits operation_state.splits if_splits
      intro!: tracking_ahead_insert)

interpretation receipts: monotone_journal track_accepted_receipt tracking_ahead
  by unfold_locales (auto dest: track_receipt_ahead intro: tracking_ahead_trans)

interpretation observations: monotone_journal "\<lambda>(k, s). apply_observed_operation_state k s" tracking_ahead
  by unfold_locales (auto dest: observed_ahead intro: tracking_ahead_trans)

lemma absorb_one_get:
  "bget (absorb_one (k, t) m) j =
     (if j = k then (case bget m k of
        None \<Rightarrow> Some t
      | Some (Resolved c s) \<Rightarrow> Some (Resolved c s)
      | Some (Pending c) \<Rightarrow> (case t of Resolved _ _ \<Rightarrow> Some t | Pending _ \<Rightarrow> Some (Pending c))) else bget m j)"
  by (auto simp: absorb_one_def split: option.split tracked_operation.split)

text \<open>What a client has tracked after it took over another's tracking, operation by operation.\<close>

definition absorbed :: "tracked_operation option \<Rightarrow> tracked_operation option \<Rightarrow> tracked_operation option" where
  "absorbed incoming existing =
     (case (existing, incoming) of
        (None, _) \<Rightarrow> incoming
      | (Some (Pending _), Some (Resolved c s)) \<Rightarrow> Some (Resolved c s)
      | _ \<Rightarrow> existing)"

lemma fold_absorb_get:
  assumes "distinct (map fst es)"
  shows "bget (fold absorb_one es m) k = absorbed (map_of es k) (bget m k)"
  using assms
proof (induction es arbitrary: m)
  case (Cons e es)
  obtain j t where e: "e = (j, t)" by (cases e)
  have "map_of es j = None" using Cons.prems e by (simp add: map_of_eq_None_iff)
  then show ?case using Cons.IH[of "absorb_one e m"] Cons.prems
    by (auto simp: e absorb_one_get absorbed_def split: option.splits tracked_operation.splits)
qed (auto simp: absorbed_def split: option.split tracked_operation.split)

lemma absorb_fields:
  assumes "absorb_tracked_operations source h = (Inr u, source', h')"
  shows "bget (hc_tracked h') k = absorbed (bget (hc_tracked source) k) (bget (hc_tracked h) k)" "hc_tracked source' = bempty"
    "\<And>t t'. bget (hc_tracked source) k = Some t \<Longrightarrow> bget (hc_tracked h) k = Some t' \<Longrightarrow> tracked_command t' = tracked_command t"
proof -
  have d: "distinct (map fst (entries (hc_tracked source)))" using bkeys_distinct[of "hc_tracked source"] by (simp add: bkeys_def)
  show "bget (hc_tracked h') k = absorbed (bget (hc_tracked source) k) (bget (hc_tracked h) k)" "hc_tracked source' = bempty"
    using assms fold_absorb_get[OF d, of "hc_tracked h" k] by (auto simp: absorb_tracked_operations_def bget_def split: if_splits)
  show "tracked_command t' = tracked_command t" if "bget (hc_tracked source) k = Some t" "bget (hc_tracked h) k = Some t'" for t t'
  proof -
    have "(k, t) \<in> set (entries (hc_tracked source))" using that(1) by (simp add: in_entries_iff)
    then show ?thesis using assms that(2) by (auto simp: absorb_tracked_operations_def list_ex_iff split: if_splits)
  qed
qed

lemma absorb_ahead:
  assumes "absorb_tracked_operations source h = (Inr u, source', h')"
  shows "tracking_ahead (hc_tracked h) (hc_tracked h')"
  unfolding tracking_ahead_def absorb_fields(1)[OF assms]
proof (intro allI impI)
  fix k t assume t: "bget (hc_tracked h) k = Some t"
  show "\<exists>u. absorbed (bget (hc_tracked source) k) (bget (hc_tracked h) k) = Some u \<and> tracked_ahead t u"
    using t absorb_fields(3)[OF assms, of k _ t]
    by (auto simp: absorbed_def tracked_ahead_def split: option.split tracked_operation.split)
qed

text \<open>The life of a client: its calls in any order, with whatever connection it has at the time.\<close>

inductive host_moves :: "('c, 'h) connection_ops \<Rightarrow> 'c host_client \<Rightarrow> 'c host_client \<Rightarrow> bool" for conn where
  stay: "host_moves conn h h"
| commanded: "host_moves conn h h1 \<Longrightarrow> execute_command conn envelope h1 = (r, h2) \<Longrightarrow> host_moves conn h h2"
| refreshed: "host_moves conn h h1 \<Longrightarrow> refresh_operation conn k h1 = (r, h2) \<Longrightarrow> host_moves conn h h2"
| absorbed_other: "host_moves conn h h1 \<Longrightarrow> absorb_tracked_operations source h1 = (r, source', h2) \<Longrightarrow> host_moves conn h h2"
| queried: "host_moves conn h h1 \<Longrightarrow> gated_query conn capability task q correlate h1 = (r :: ipc_error + (query_error + query_result), h2)
    \<Longrightarrow> host_moves conn h h2"
| released: "host_moves conn h h1 \<Longrightarrow> release_event_replay conn i h1 = (r, h2) \<Longrightarrow> host_moves conn h h2"
| updating: "host_moves conn h h1 \<Longrightarrow> prepare_update conn command intent h1 = (r, h2) \<Longrightarrow> host_moves conn h h2"
| detached: "host_moves conn h h1 \<Longrightarrow> client_detach conn h1 = (r, h2) \<Longrightarrow> host_moves conn h h2"
| disconnected: "host_moves conn h h1 \<Longrightarrow> host_moves conn h (disconnect h1)"
| reconnected: "host_moves conn h h1 \<Longrightarrow> reconnect op h1 = (r, h2) \<Longrightarrow> host_moves conn h h2"
| reconnected_connect: "host_moves conn h h1 \<Longrightarrow> reconnect_connect op h1 = (r, h2) \<Longrightarrow> host_moves conn h h2"

lemma execute_command_tracking:
  assumes "execute_command conn envelope h = (r, h')"
  shows "tracking_ahead (hc_tracked h) (hc_tracked h')"
  using assms by (auto simp: execute_command_def retire_connection_def split: if_splits sum.splits prod.splits dest: track_receipt_ahead)

lemma refresh_tracking:
  assumes "refresh_operation conn k h = (r, h')"
  shows "tracking_ahead (hc_tracked h) (hc_tracked h')"
proof -
  obtain r1 h1 where q: "gated_query conn OperationSettlement None (QOperationStatus k) (correlate_operation_status k) h = (r1, h1)"
    by (cases "gated_query conn OperationSettlement None (QOperationStatus k) (correlate_operation_status k) h")
  have "hc_tracked h1 = hc_tracked h" using same_client_fields[OF gated_query_same[OF q]] by simp
  then show ?thesis using assms q
    by (auto simp: refresh_operation_def retire_connection_def split: sum.splits dest!: observed_ahead)
qed

lemma absorb_tracking:
  assumes "absorb_tracked_operations source h = (r, source', h')"
  shows "tracking_ahead (hc_tracked h) (hc_tracked h')"
proof (cases r)
  case (Inl e)
  then show ?thesis using assms by (auto simp: absorb_tracked_operations_def split: if_splits)
next
  case (Inr u)
  then show ?thesis using absorb_ahead assms by blast
qed

lemma on_connection_tracked: "on_connection conn f h = (r, h') \<Longrightarrow> hc_tracked h' = hc_tracked h"
  using on_connection_cases[of conn f h r h'] by (auto simp: retire_connection_def)

lemma prepare_update_tracked:
  assumes "prepare_update conn command intent h = (r, h')"
  shows "hc_tracked h' = hc_tracked h"
proof -
  obtain r1 h1 where o: "on_connection conn (co_execute_update_handoff conn command intent) h = (r1, h1)"
    by (cases "on_connection conn (co_execute_update_handoff conn command intent) h")
  from on_connection_tracked[OF o] show ?thesis using assms o
    by (auto simp: prepare_update_def Let_def retire_connection_def split: if_splits sum.splits)
qed

lemma detach_tracked: "client_detach conn h = (r, h') \<Longrightarrow> hc_tracked h' = hc_tracked h"
  by (auto simp: client_detach_def finish_detach_after_matching_ack_def retire_connection_def split: if_splits option.splits prod.splits sum.splits)

text \<open>A reconnect keeps what is tracked.  It gives a live connection or leaves the client with none, except
  that a call which the route or the pin rules out leaves the client as it is.\<close>

lemma reconnect_effect:
  assumes "reconnect op h = (r, h')"
  shows "hc_tracked h' = hc_tracked h \<and> hc_client_id h' = hc_client_id h \<and>
    (case r of Inl _ \<Rightarrow> h' = h \<and> (\<exists>config. hc_transport h = TransportConnect config) \<or> h' = disconnect h
     | Inr _ \<Rightarrow> hc_connection h' \<noteq> None)"
  using assms by (auto simp: reconnect_def disconnect_def hc_client_id_def Let_def
      split: host_client_transport.splits sum.splits)

lemma reconnect_connect_effect:
  assumes "reconnect_connect op h = (r, h')"
  shows "hc_tracked h' = hc_tracked h \<and>
    (case r of Inl _ \<Rightarrow> h' = h \<or> h' = disconnect h
     | Inr _ \<Rightarrow> (\<exists>config session. hc_transport h' = TransportConnect config \<and> hc_metadata h' = MetadataConnect session
         \<and> as_host_key_pin session = cf_host_key_pin config \<and> hc_connection h' \<noteq> None))"
  using assms by (auto simp: reconnect_connect_def disconnect_def Let_def
      split: host_client_transport.splits sum.splits if_splits option.splits)

lemma moves_tracking: "host_moves conn h h' \<Longrightarrow> tracking_ahead (hc_tracked h) (hc_tracked h')"
proof (induction rule: host_moves.induct)
  case (commanded h h1 envelope r h2)
  then show ?case using execute_command_tracking[OF commanded.hyps(2)] by (blast intro: tracking_ahead_trans)
next
  case (refreshed h h1 k r h2)
  then show ?case using refresh_tracking[OF refreshed.hyps(2)] by (blast intro: tracking_ahead_trans)
next
  case (absorbed_other h h1 source r source' h2)
  then show ?case using absorb_tracking[OF absorbed_other.hyps(2)] by (blast intro: tracking_ahead_trans)
next
  case (queried h h1 capability task q correlate r h2)
  then show ?case using same_client_fields[OF gated_query_same[OF queried.hyps(2)]] by simp
next
  case (released h h1 i r h2)
  then show ?case using same_client_fields[OF release_replay_same[OF released.hyps(2)]] by simp
next
  case (updating h h1 command intent r h2)
  then show ?case using prepare_update_tracked[OF updating.hyps(2)] by simp
next
  case (detached h h1 r h2)
  then show ?case using detach_tracked[OF detached.hyps(2)] by simp
next
  case (reconnected h h1 op r h2)
  then show ?case using reconnect_effect[OF reconnected.hyps(2)] by simp
next
  case (reconnected_connect h h1 op r h2)
  then show ?case using reconnect_connect_effect[OF reconnected_connect.hyps(2)] by simp
qed (simp_all add: disconnect_def)

text \<open>The client always knows its own id, so \<open>client_id\<close> never panics; over a local endpoint it is the
  configured one for good.\<close>

lemma connected_client_has_id:
  "host_client_connect op lconfig = Inr h \<Longrightarrow> hc_client_id h = Some (lc_client_id lconfig)"
  "connect_connect op cconfig = Inr h' \<Longrightarrow> \<exists>session. hc_metadata h' = MetadataConnect session
     \<and> hc_client_id h' = Some (as_assigned_client_id session)"
  "reconnect op k = (r, k') \<Longrightarrow> hc_client_id k' = hc_client_id k"
  "reconnect_connect op k = (r, k') \<Longrightarrow> hc_client_id k \<noteq> None \<Longrightarrow> hc_client_id k' \<noteq> None"
  by (auto simp: host_client_connect_def connect_connect_def reconnect_def reconnect_connect_def hc_client_id_def
      rbind_Inr_iff Let_def as_connect_def split: host_client_transport.splits sum.splits if_splits option.splits connection_metadata.splits)

section \<open>Properties\<close>

lemma granted_within_request:
  assumes "client_hello_negotiate hello supported local_limits = Inr n"
  shows "bits (negotiated_capabilities (fence_capabilities_by_transport n)) AND NOT (bits (ch_requested hello)) = 0"
proof (rule bit_eqI)
  fix i
  have "bit (bits (negotiated_capabilities (fence_capabilities_by_transport n)) AND NOT (bits (negotiated_capabilities n))) i = False"
    by (simp add: fence_withdraws_only)
  then show "bit (bits (negotiated_capabilities (fence_capabilities_by_transport n)) AND NOT (bits (ch_requested hello))) i = bit 0 i"
    by (auto simp: negotiated_fields(4)[OF assms] capability_intersection_def bit_simps dest: bit_imp_le_length)
qed

text \<open>C24. The two ends of a local handshake agree.  Every answer with which a host finishes the handshake, after
  the transport fence and with the reconnect grant in it, passes the client's own check of profile, version,
  capabilities and limits: a client that receives it for the hello it sent is connected, with codecs of
  the same limits as the host's.\<close>

theorem negotiated_hello_accepted:
  assumes "finish_handshake sha ulib world (Inr hello) sent expected config ledger = (Inr hx, ledger')"
    and "op_exchange_hello op endpoint hello = Inr (hx_server_hello hx, connection)"
  shows "finish_local_connect op endpoint hello = Inr (connection, MetadataLocal (hx_server_hello hx)) \<and>
    negotiated_codecs (sh_limits (hx_server_hello hx)) = Inr (hx_physical hx, hx_message hx)"
proof -
  obtain n answer grant where a: "ch_profile_fingerprint hello = expected"
      "client_hello_negotiate hello (ah_supported config) (ah_local_limits config) = Inr n"
      "server_hello_from_negotiated ulib (hw_now_v7 world) (ah_server_build config) (ah_host_boot_id config)
           expected (fence_capabilities_by_transport n) = Inr answer"
      "hx_server_hello hx = answer \<lparr> sh_reconnect_grant := Some grant \<rparr>"
      "negotiated_codecs (negotiated_limits n) = Inr (hx_physical hx, hx_message hx)"
    by (rule handshake_answered[OF assms(1)])
  note n = negotiated_fields[OF a(2)] and sh = answer_fields[OF a(3)]
  have "limits_within_offer_and_caps (negotiated_limits n) (ch_limits hello)"
    using frame_limits_negotiate_meet(1)[OF n(5)] frame_limits_negotiate_meet(2)[OF n(5), of "negotiated_limits n"]
    by (simp add: limits_within_offer_and_caps_def limits_within_def v1_default_def is_ok_iff)
  then have "validate_server_hello hello (hx_server_hello hx) = Inr ()"
    using granted_within_request[OF a(2)] a(1) n(1,2) sh by (simp add: validate_server_hello_def a(4))
  moreover have "rbind handshake_codecs (\<lambda>_. r) = r" for r :: "ipc_error + 'd"
    by (simp add: handshake_codecs_def codec_from_limits_def message_pack_from_limits_def v1_default_def
        validate_offer_def hard_limits)
  moreover have "negotiated_codecs (sh_limits (hx_server_hello hx)) = Inr (hx_physical hx, hx_message hx)"
    using a(4,5) sh(4) by simp
  ultimately show ?thesis using assms(2) by (simp add: finish_local_connect_def)
qed

text \<open>C22. The client takes no answer it did not ask for.  A page or a replay batch that a call
  returns is of the section, snapshot, range or subscription it named, and needs the capability; a call
  that fails was either never sent, and leaves the client as it is, or costs the client its connection;
  so after an answer to something else nothing more is read from that connection.\<close>

theorem calls_are_correlated_or_fail_closed:
  "(snapshot_page_scoped conn section task snapshot cursor h = (r1, h1) \<longrightarrow>
     (case r1 of
        Inl _ \<Rightarrow> h1 = h \<and> (\<not> contains_capability (hc_granted h) PagedSnapshots \<or> \<not> is_connected conn h) \<or> hc_connection h1 = None
      | Inr (Inl _) \<Rightarrow> hc_connection h1 \<noteq> None
      | Inr (Inr page) \<Rightarrow> sp_section page = section \<and> (\<forall>i. snapshot = Some i \<longrightarrow> sp_snapshot_id page = i)
          \<and> contains_capability (hc_granted h) PagedSnapshots)) \<and>
   (open_event_replay conn after h = (r2, h2) \<longrightarrow>
     (case r2 of
        Inl _ \<Rightarrow> h2 = h \<and> (\<not> contains_capability (hc_granted h) EventReplay \<or> \<not> is_connected conn h) \<or> hc_connection h2 = None
      | Inr (Inl _) \<Rightarrow> hc_connection h2 \<noteq> None
      | Inr (Inr batch) \<Rightarrow> ep_after_sequence (eb_page batch) = after \<and> contains_capability (hc_granted h) EventReplay)) \<and>
   (continue_event_replay conn subscription resume h = (r3, h3) \<longrightarrow>
     (case r3 of
        Inl _ \<Rightarrow> h3 = h \<and> (\<not> contains_capability (hc_granted h) EventReplay \<or> \<not> is_connected conn h) \<or> hc_connection h3 = None
      | Inr (Inl _) \<Rightarrow> hc_connection h3 \<noteq> None
      | Inr (Inr batch) \<Rightarrow> eb_subscription_id batch = subscription \<and> contains_capability (hc_granted h) EventReplay))"
proof (intro conjI impI)
  assume a: "snapshot_page_scoped conn section task snapshot cursor h = (r1, h1)"
  show "case r1 of
        Inl _ \<Rightarrow> h1 = h \<and> (\<not> contains_capability (hc_granted h) PagedSnapshots \<or> \<not> is_connected conn h) \<or> hc_connection h1 = None
      | Inr (Inl _) \<Rightarrow> hc_connection h1 \<noteq> None
      | Inr (Inr page) \<Rightarrow> sp_section page = section \<and> (\<forall>i. snapshot = Some i \<longrightarrow> sp_snapshot_id page = i)
          \<and> contains_capability (hc_granted h) PagedSnapshots"
  proof (cases r1)
    case (Inl e)
    then show ?thesis using gated_query_fail_closed(1)[OF a[unfolded Inl snapshot_page_scoped_def]] by simp
  next
    case (Inr answer)
    show ?thesis
    proof (cases answer)
      case (Inl e)
      then show ?thesis using gated_query_fail_closed(2)[OF a[unfolded Inr Inl snapshot_page_scoped_def]] Inr by simp
    next
      case (Inr v)
      note ok = a[unfolded \<open>r1 = Inr answer\<close> Inr]
      show ?thesis using gated_query_fail_closed(3)[OF ok[unfolded snapshot_page_scoped_def]] snapshot_page_correlated[OF ok] \<open>r1 = Inr answer\<close> Inr by simp
    qed
  qed
next
  assume a: "open_event_replay conn after h = (r2, h2)"
  show "case r2 of
        Inl _ \<Rightarrow> h2 = h \<and> (\<not> contains_capability (hc_granted h) EventReplay \<or> \<not> is_connected conn h) \<or> hc_connection h2 = None
      | Inr (Inl _) \<Rightarrow> hc_connection h2 \<noteq> None
      | Inr (Inr batch) \<Rightarrow> ep_after_sequence (eb_page batch) = after \<and> contains_capability (hc_granted h) EventReplay"
  proof (cases r2)
    case (Inl e)
    then show ?thesis using gated_query_fail_closed(1)[OF a[unfolded Inl open_event_replay_def]] by simp
  next
    case (Inr answer)
    show ?thesis
    proof (cases answer)
      case (Inl e)
      then show ?thesis using gated_query_fail_closed(2)[OF a[unfolded Inr Inl open_event_replay_def]] Inr by simp
    next
      case (Inr v)
      note ok = a[unfolded \<open>r2 = Inr answer\<close> Inr]
      show ?thesis using gated_query_fail_closed(3)[OF ok[unfolded open_event_replay_def]] open_replay_correlated[OF ok] \<open>r2 = Inr answer\<close> Inr by simp
    qed
  qed
next
  assume a: "continue_event_replay conn subscription resume h = (r3, h3)"
  show "case r3 of
        Inl _ \<Rightarrow> h3 = h \<and> (\<not> contains_capability (hc_granted h) EventReplay \<or> \<not> is_connected conn h) \<or> hc_connection h3 = None
      | Inr (Inl _) \<Rightarrow> hc_connection h3 \<noteq> None
      | Inr (Inr batch) \<Rightarrow> eb_subscription_id batch = subscription \<and> contains_capability (hc_granted h) EventReplay"
  proof (cases r3)
    case (Inl e)
    then show ?thesis using gated_query_fail_closed(1)[OF a[unfolded Inl continue_event_replay_def]] by simp
  next
    case (Inr answer)
    show ?thesis
    proof (cases answer)
      case (Inl e)
      then show ?thesis using gated_query_fail_closed(2)[OF a[unfolded Inr Inl continue_event_replay_def]] Inr by simp
    next
      case (Inr v)
      note ok = a[unfolded \<open>r3 = Inr answer\<close> Inr]
      show ?thesis using gated_query_fail_closed(3)[OF ok[unfolded continue_event_replay_def]] continue_replay_correlated[OF ok] \<open>r3 = Inr answer\<close> Inr by simp
    qed
  qed
qed

text \<open>C23. A tracked operation is never lost and never moves back.  Through commands, refreshes, queries, detaches, lost
  connections, reconnects that succeed or fail and the taking over of another client's tracking, an operation
  the client tracks keeps its command and stays resolved once it is; an uncertain one can only become settled or failed,
  and a settled, failed or cancelled one stays exactly as it is.\<close>

theorem tracked_operations_move_forward:
  assumes "host_moves conn h h'" "bget (hc_tracked h) k = Some t"
  shows "\<exists>u. bget (hc_tracked h') k = Some u \<and> tracked_command u = tracked_command t \<and>
    (\<forall>c s. t = Resolved c s \<longrightarrow> (\<exists>s'. u = Resolved c s' \<and> (s' = s \<or>
       (\<exists>at code. s = OsUncertain at code) \<and> ((\<exists>at ids. s' = OsSettled at ids) \<or> (\<exists>at code. s' = OsFailed at code)))))"
proof -
  obtain u where u: "bget (hc_tracked h') k = Some u" "tracked_ahead t u"
    using moves_tracking[OF assms(1)] assms(2) unfolding tracking_ahead_def by blast
  then show ?thesis by (cases t; cases u) (auto simp: tracked_ahead_def tracked_command_def)
qed

section \<open>A scripted host\<close>

text \<open>A connection whose state is the list of the outcomes it will give.\<close>

type_synonym script = "(ipc_error + query_outcome) list"

definition scripted :: "(script, unit) connection_ops" where
  "scripted = \<lparr> co_is_live = (\<lambda>_. True),
     co_query = (\<lambda>_ _ c. case c of [] \<Rightarrow> (Inl IpcTimeout, []) | r # rest \<Rightarrow> (r, rest)),
     co_execute_command = (\<lambda>_ c. (Inl IpcTimeout, c)), co_execute_update_handoff = (\<lambda>_ _ c. (Inl IpcTimeout, c)),
     co_detach = (\<lambda>_ c. (Inl IpcTimeout, c)), co_recv_unsolicited = (\<lambda>c. (Inl IpcUnavailable, c)),
     co_retire_subscription_id = (\<lambda>_ c. (Inr (), c)) \<rparr>"

definition sample_client :: "'c \<Rightarrow> 'c host_client" where
  "sample_client c = \<lparr> hc_transport = TransportLocal
       \<lparr> lc_named_profile = lit ''dev'', lc_client_build = lit ''dm'', lc_client_id = Id 2,
         lc_requested = \<lparr> bits = 7 \<rparr>, lc_limits = v1_default \<rparr> (lit ''pipe'') None,
     hc_connection = Some c,
     hc_metadata = MetadataLocal (sample_server_hello \<lparr> sh_granted := \<lparr> bits = 7 \<rparr> \<rparr>),
     hc_tracked = binsert (Id 40) (Resolved (Id 41) (OsUncertain 5 AmbiguousDispatch)) bempty \<rparr>"

lemma sample_grants [simp]:
  "contains_capability (hc_granted (sample_client c)) PagedSnapshots"
  "contains_capability (hc_granted (sample_client c)) EventReplay"
  "contains_capability (hc_granted (sample_client c)) OperationSettlement"
  by (simp_all add: sample_client_def hc_granted_def metadata_granted_def contains_capability_def contains_bit_def capability_bit_def)

definition sample_opener :: "'c \<Rightarrow> 'c opener" where
  "sample_opener c = \<lparr> op_named_profile = Some, op_sha = (\<lambda>b. b), op_endpoint = (\<lambda>_. lit ''pipe''),
     op_exchange_hello = (\<lambda>_ _. Inr (hx_server_hello sample_host_connection, c)),
     op_connect_halves = (\<lambda>_. Inl IpcUnsupported) \<rparr>"

theorem negotiated_hello_accepted_witness:
  "finish_local_connect (sample_opener (0 :: nat)) (lit ''pipe'') sample_client_hello
     = Inr (0, MetadataLocal (hx_server_hello sample_host_connection))"
proof -
  obtain ledger where shaken: "finish_handshake (\<lambda>b. b) sample_uuid_lib sample_world (Inr sample_client_hello)
      (\<lambda>_. Inr ()) (replicate 32 7) sample_config bempty = (Inr sample_host_connection, ledger)"
    using sample_handshake by (metis prod.collapse)
  show ?thesis
    using negotiated_hello_accepted[OF shaken, of "sample_opener (0 :: nat)" "lit ''pipe''" 0] by (simp add: sample_opener_def)
qed

theorem calls_are_correlated_or_fail_closed_witness:
  "fst (snapshot_page_scoped scripted SecTasks None (Some (Id 3)) None (sample_client [Inr (Inr (QrSnapshotReleased (Id 3)))]))
     = Inl IpcUnexpectedResponse \<and>
   hc_connection (snd (snapshot_page_scoped scripted SecTasks None (Some (Id 3)) None
     (sample_client [Inr (Inr (QrSnapshotReleased (Id 3)))]))) = None"
proof -
  let ?h = "sample_client ([Inr (Inr (QrSnapshotReleased (Id 3)))] :: script)"
  let ?call = "snapshot_page_scoped scripted SecTasks None (Some (Id 3)) None ?h"
  have r: "fst ?call = Inl IpcUnexpectedResponse"
    by (simp add: snapshot_page_scoped_def gated_query_def on_connection_def live_connection_def) 
      (simp add: sample_client_def scripted_def)
  have "contains_capability (hc_granted ?h) PagedSnapshots" "is_connected scripted ?h"
    by (simp_all add: is_connected_def) (simp add: sample_client_def scripted_def)
  moreover have "snd ?call = ?h \<and> (\<not> contains_capability (hc_granted ?h) PagedSnapshots \<or> \<not> is_connected scripted ?h)
      \<or> hc_connection (snd ?call) = None"
    using mp[OF conjunct1[OF calls_are_correlated_or_fail_closed[of scripted SecTasks None "Some (Id 3)" None ?h "fst ?call" "snd ?call"]]
        prod.collapse[symmetric]] unfolding r by (simp only: sum.case)
  ultimately show ?thesis using r by blast
qed

theorem tracked_operations_move_forward_witness:
  "\<exists>u. bget (hc_tracked (snd (reconnect (sample_opener []) (snd (refresh_operation scripted (Id 40)
       (sample_client [Inr (Inr (QrOperationStatus (Id 40) (OsSettled 9 [])))])))))) (Id 40) = Some u
     \<and> tracked_command u = Id 41 \<and> (\<forall>at reason. u \<noteq> Resolved (Id 41) (OsCancelled at reason))"
proof -
  let ?h = "sample_client ([Inr (Inr (QrOperationStatus (Id 40) (OsSettled 9 [])))] :: script)"
  have "host_moves scripted ?h (snd (reconnect (sample_opener []) (snd (refresh_operation scripted (Id 40) ?h))))"
    by (rule host_moves.reconnected[OF host_moves.refreshed[OF host_moves.stay prod.collapse[symmetric]] prod.collapse[symmetric]])
  from tracked_operations_move_forward[OF this, of "Id 40" "Resolved (Id 41) (OsUncertain 5 AmbiguousDispatch)"]
  show ?thesis by (auto simp: sample_client_def tracked_command_def)
qed

end
