(* ===== verification/Client_Subscription.thy ===== *)
theory Client_Subscription
  imports Client_Host
begin

text \<open>
  The durable subscription of a client (\<open>src/client/subscription.rs\<close>): synchronization from a snapshot and
  the replay that closes the race with it, the live events after it, the preview of the inbox, the detail
  of a selected task, and the release of what the host keeps for it.

  A method returns its result with the subscription and the host client it leaves behind.  The page loops
  of \<open>synchronize\<close> and \<open>preview_tasks\<close> are functions with a termination proof: the model refuses more than
  \<open>MAX_CLIENT_MODEL_PAGES\<close> pages.  The loop of \<open>load_task_detail\<close> has no such bound in the code; it takes fuel,
  and \<open>None\<close> is that it did not end within it.
\<close>

section \<open>State and errors\<close>

definition SNAPSHOT_SECTIONS :: "snapshot_section list" where
  "SNAPSHOT_SECTIONS = [SecTasks, SecAgentSessions, SecArtifacts, SecResources, SecOperations]"

definition TASK_DETAIL_SECTIONS :: "snapshot_section list" where
  "TASK_DETAIL_SECTIONS = [SecAgentSessions, SecArtifacts, SecResources]"

definition BROWSER_SNAPSHOT_SECTIONS :: "snapshot_section list" where
  "BROWSER_SNAPSHOT_SECTIONS = [SecBrowserContexts, SecBrowserTabs]"

definition snapshot_sections :: "bool \<Rightarrow> bool \<Rightarrow> snapshot_section list" where
  "snapshot_sections browser task_detail =
     (if task_detail then TASK_DETAIL_SECTIONS else SNAPSHOT_SECTIONS)
       @ filter (\<lambda>_. browser) BROWSER_SNAPSHOT_SECTIONS"

definition MAX_SEEN_EVENT_IDS :: nat where "MAX_SEEN_EVENT_IDS = 8192"
definition MAX_PENDING_REPLAY_EVENTS :: nat where "MAX_PENDING_REPLAY_EVENTS = 8192"

datatype client_subscription_state = SubPending | SubReady | SubNeedsResync | SubReleased

datatype subscription_update =
    UpDurableEvent domain_event | UpResyncRequired u64 u64 | UpStream stream_frame
  | UpConversationDirty subscription_id task_id u64

datatype subscription_error =
    SeNotReady | SeNeedsResync | SeReleased | SeModel client_model_error
  | SeForeignSubscription unsolicited_server_message | SeReplayOverflow nat | SeInvalidResync
  | SeTransport ipc_error | SeTransportAt rstr ipc_error | SeQuery query_error | SeIncompleteSnapshot
  | SeMissingCapabilities

record client_subscription =
  sb_state :: client_subscription_state
  sb_subscription_id :: "subscription_id option"
  sb_model :: "client_model option"
  sb_snapshot_id :: "snapshot_id option"
  sb_seen_event_ids :: "event_id list"
  sb_seen_event_order :: "event_id list"
  sb_pending_replay_events :: "domain_event list"

definition subscription_new :: client_subscription where
  "subscription_new = \<lparr> sb_state = SubPending, sb_subscription_id = None, sb_model = None, sb_snapshot_id = None,
     sb_seen_event_ids = [], sb_seen_event_order = [], sb_pending_replay_events = [] \<rparr>"

definition take_replay_events :: "client_subscription \<Rightarrow> domain_event list \<times> client_subscription" where
  "take_replay_events sb = (sb_pending_replay_events sb, sb \<lparr> sb_pending_replay_events := [] \<rparr>)"

section \<open>Event ids and the replay queue\<close>

definition remember_event_id :: "event_id \<Rightarrow> client_subscription \<Rightarrow> client_subscription" where
  "remember_event_id i sb =
     (if i \<in> set (sb_seen_event_ids sb) then sb
      else
        let sb = sb \<lparr> sb_seen_event_ids := hs_insert i (sb_seen_event_ids sb),
                      sb_seen_event_order := sb_seen_event_order sb @ [i] \<rparr>
        in if length (sb_seen_event_order sb) > MAX_SEEN_EVENT_IDS
           then (case sb_seen_event_order sb of
                   [] \<Rightarrow> sb
                 | evicted # rest \<Rightarrow>
                     sb \<lparr> sb_seen_event_order := rest,
                          sb_seen_event_ids := filter (\<lambda>j. j \<noteq> evicted) (sb_seen_event_ids sb) \<rparr>)
           else sb)"

definition queue_replay_event :: "domain_event \<Rightarrow> client_subscription \<Rightarrow> (subscription_error + unit) \<times> client_subscription" where
  "queue_replay_event event sb =
     (if length (sb_pending_replay_events sb) \<ge> MAX_PENDING_REPLAY_EVENTS
      then (Inl (SeReplayOverflow MAX_PENDING_REPLAY_EVENTS), sb \<lparr> sb_state := SubNeedsResync \<rparr>)
      else
        let sb = remember_event_id (de_id event) sb
        in (Inr (), sb \<lparr> sb_pending_replay_events := sb_pending_replay_events sb @ [event] \<rparr>))"

fun queue_replay_events ::
  "domain_event list \<Rightarrow> client_subscription \<Rightarrow> (subscription_error + unit) \<times> client_subscription" where
  "queue_replay_events [] sb = (Inr (), sb)"
| "queue_replay_events (event # events) sb =
     (case queue_replay_event event sb of
        (Inl e, sb) \<Rightarrow> (Inl e, sb)
      | (Inr _, sb) \<Rightarrow> queue_replay_events events sb)"

definition observe_recv_transport_failure :: "client_subscription \<Rightarrow> client_subscription" where
  "observe_recv_transport_failure sb =
     (if sb_state sb = SubReady then sb \<lparr> sb_state := SubNeedsResync \<rparr> else sb)"

section \<open>Release\<close>

type_synonym ('c, 'a) subscribed = "(subscription_error + 'a) \<times> client_subscription \<times> 'c host_client"

definition release_event_replay_if_owned ::
  "('c, 'h) connection_ops \<Rightarrow> client_subscription \<Rightarrow> 'c host_client \<Rightarrow> ('c, unit) subscribed" where
  "release_event_replay_if_owned conn sb h =
     (case sb_subscription_id sb of
        None \<Rightarrow> (Inr (), sb, h)
      | Some i \<Rightarrow>
          (case release_event_replay conn i h of
             (Inr (Inr _), h) \<Rightarrow> (Inr (), sb \<lparr> sb_subscription_id := None \<rparr>, h)
           | (Inr (Inl error), h) \<Rightarrow>
               if error = QueryNotFound then (Inr (), sb \<lparr> sb_subscription_id := None \<rparr>, h)
               else (Inl (SeQuery error), sb, h)
           | (Inl error, h) \<Rightarrow> (Inl (SeTransport error), sb, h)))"

definition release_snapshot_if_owned ::
  "('c, 'h) connection_ops \<Rightarrow> client_subscription \<Rightarrow> 'c host_client \<Rightarrow> ('c, unit) subscribed" where
  "release_snapshot_if_owned conn sb h =
     (case sb_snapshot_id sb of
        None \<Rightarrow> (Inr (), sb, h)
      | Some i \<Rightarrow>
          (case release_snapshot conn i h of
             (Inr (Inr _), h) \<Rightarrow> (Inr (), sb \<lparr> sb_snapshot_id := None \<rparr>, h)
           | (Inr (Inl error), h) \<Rightarrow>
               if error = QueryNotFound then (Inr (), sb \<lparr> sb_snapshot_id := None \<rparr>, h)
               else (Inl (SeQuery error), sb, h)
           | (Inl error, h) \<Rightarrow> (Inl (SeTransport error), sb, h)))"

definition best_effort_cleanup ::
  "('c, 'h) connection_ops \<Rightarrow> client_subscription \<Rightarrow> 'c host_client
     \<Rightarrow> subscription_error option \<times> client_subscription \<times> 'c host_client" where
  "best_effort_cleanup conn sb h =
     (case release_event_replay_if_owned conn sb h of (r1, sb, h) \<Rightarrow>
        (case release_snapshot_if_owned conn sb h of (r2, sb, h) \<Rightarrow>
           ((case (r1, r2) of (Inl e, _) \<Rightarrow> Some e | (Inr _, Inl e) \<Rightarrow> Some e | _ \<Rightarrow> None), sb, h)))"

text \<open>Release of both handles; the first that fails leaves the subscription in need of a resync.\<close>

definition release_owned ::
  "('c, 'h) connection_ops \<Rightarrow> client_subscription \<Rightarrow> 'c host_client \<Rightarrow> ('c, unit) subscribed" where
  "release_owned conn sb h =
     (case release_event_replay_if_owned conn sb h of
        (Inl e, sb, h) \<Rightarrow> (Inl e, sb \<lparr> sb_state := SubNeedsResync \<rparr>, h)
      | (Inr _, sb, h) \<Rightarrow>
          (case release_snapshot_if_owned conn sb h of
             (Inl e, sb, h) \<Rightarrow> (Inl e, sb \<lparr> sb_state := SubNeedsResync \<rparr>, h)
           | (Inr _, sb, h) \<Rightarrow> (Inr (), sb, h)))"

definition subscription_release ::
  "('c, 'h) connection_ops \<Rightarrow> client_subscription \<Rightarrow> 'c host_client \<Rightarrow> ('c, unit) subscribed" where
  "subscription_release conn sb h =
     (if sb_state sb = SubReleased \<and> sb_subscription_id sb = None \<and> sb_snapshot_id sb = None then (Inr (), sb, h)
      else case release_owned conn sb h of
        (Inl e, sb, h) \<Rightarrow> (Inl e, sb, h)
      | (Inr _, sb, h) \<Rightarrow> (Inr (), sb \<lparr> sb_state := SubReleased \<rparr>, h))"

definition retire_without_transport :: "client_subscription \<Rightarrow> client_subscription" where
  "retire_without_transport sb =
     sb \<lparr> sb_subscription_id := None, sb_snapshot_id := None, sb_model := None, sb_seen_event_ids := [],
          sb_seen_event_order := [], sb_pending_replay_events := [], sb_state := SubReleased \<rparr>"

section \<open>Pages of a snapshot\<close>

text \<open>The variables of the page loops.\<close>

record 'c fetching =
  ft_builder :: client_model_builder
  ft_snapshot_id :: "snapshot_id option"
  ft_through_sequence :: "u64 option"
  ft_resume_cursor :: "u8 list option"
  ft_section_started :: bool
  ft_subscription :: client_subscription
  ft_client :: "'c host_client"

definition fetching_new :: "client_subscription \<Rightarrow> 'c host_client \<Rightarrow> 'c fetching" where
  "fetching_new sb h = \<lparr> ft_builder = builder_new, ft_snapshot_id = None, ft_through_sequence = None,
     ft_resume_cursor = None, ft_section_started = False, ft_subscription = sb, ft_client = h \<rparr>"

text \<open>One turn of a page loop: an error, or the cursor of the page that was taken in.\<close>

definition take_page :: "snapshot_page \<Rightarrow> 'c fetching \<Rightarrow> (subscription_error + u8 list option) \<times> 'c fetching" where
  "take_page page ft =
     (let ft = ft \<lparr> ft_subscription := (ft_subscription ft) \<lparr> sb_snapshot_id := Some (sp_snapshot_id page) \<rparr> \<rparr>
      in if (case ft_snapshot_id ft of Some expected \<Rightarrow> expected \<noteq> sp_snapshot_id page | None \<Rightarrow> False)
         then (Inl SeIncompleteSnapshot, ft)
         else
           let ft = ft \<lparr> ft_snapshot_id := Some (sp_snapshot_id page) \<rparr>
           in if (case ft_through_sequence ft of Some expected \<Rightarrow> expected \<noteq> sp_through_sequence page | None \<Rightarrow> False)
              then (Inl SeIncompleteSnapshot, ft)
              else
                let ft = ft \<lparr> ft_through_sequence := Some (sp_through_sequence page), ft_section_started := True \<rparr>
                in (case ingest_page page (ft_builder ft) of
                      (Inl e, b) \<Rightarrow> (Inl (SeModel e), ft \<lparr> ft_builder := b \<rparr>)
                    | (Inr _, b) \<Rightarrow> (Inr (sp_next_cursor page), ft \<lparr> ft_builder := b \<rparr>)))"

definition fetch_page ::
  "('c, 'h) connection_ops \<Rightarrow> (ipc_error \<Rightarrow> subscription_error) \<Rightarrow> snapshot_section \<Rightarrow> 'c fetching
     \<Rightarrow> (subscription_error + u8 list option) \<times> 'c fetching" where
  "fetch_page conn transport section ft =
     (if ft_section_started ft \<and> ft_snapshot_id ft = None then (Inl SeIncompleteSnapshot, ft)
      else case client_snapshot_page conn section (ft_snapshot_id ft) (ft_resume_cursor ft) (ft_client ft) of
        (Inl e, h) \<Rightarrow> (Inl (transport e), ft \<lparr> ft_client := h \<rparr>)
      | (Inr (Inl e), h) \<Rightarrow> (Inl (SeQuery e), ft \<lparr> ft_client := h \<rparr>)
      | (Inr (Inr page), h) \<Rightarrow> take_page page (ft \<lparr> ft_client := h \<rparr>))"

definition section_name :: "snapshot_section \<Rightarrow> rstr" where
  "section_name section = lit
     (case section of
        SecTasks \<Rightarrow> ''Tasks'' | SecAgentSessions \<Rightarrow> ''AgentSessions'' | SecArtifacts \<Rightarrow> ''Artifacts''
      | SecResources \<Rightarrow> ''Resources'' | SecOperations \<Rightarrow> ''Operations'' | SecBrowserContexts \<Rightarrow> ''BrowserContexts''
      | SecBrowserTabs \<Rightarrow> ''BrowserTabs'')"

text \<open>Every page that is taken in counts against the bound of the builder.\<close>

lemma then_build_frame:
  assumes "then_build r f = (res, c)" "\<And>v b. r = (v, b) \<Longrightarrow> P b" "\<And>v b. P b \<Longrightarrow> f v b = (res, c) \<Longrightarrow> P c"
  shows "P c"
  using assms by (cases r; cases "fst r") (auto simp: then_build_def)

lemma admit_item_page_count: "admit_item sec item b = (r, c) \<Longrightarrow> mb_page_count c = mb_page_count b"
  by (auto simp: admit_item_def was_fresh_def split: snapshot_section.splits snapshot_item.splits if_splits sum.splits)

lemma admit_items_page_count: "admit_items sec items b = (r, c) \<Longrightarrow> mb_page_count c = mb_page_count b"
proof (induction items arbitrary: b)
  case (Cons item items)
  show ?case
  proof (cases "mb_item_count b \<ge> MAX_CLIENT_MODEL_ITEMS")
    case False
    obtain u d where d: "admit_item sec item (b \<lparr> mb_item_count := mb_item_count b + 1 \<rparr>) = (u, d)"
      by (cases "admit_item sec item (b \<lparr> mb_item_count := mb_item_count b + 1 \<rparr>)")
    then show ?thesis using Cons False admit_item_page_count[OF d] by (cases u) (auto simp: then_build_def)
  qed (use Cons.prems in simp)
qed simp

lemma ingest_page_count:
  assumes "ingest_page p b = (Inr u, c)"
  shows "mb_page_count b < MAX_CLIENT_MODEL_PAGES \<and> mb_page_count c = Suc (mb_page_count b)"
proof -
  obtain v1 b1 v2 b2 v3 b3 where s: "mb_page_count b < MAX_CLIENT_MODEL_PAGES"
    "pin_snapshot p (b \<lparr> mb_page_count := mb_page_count b + 1 \<rparr>) = (Inr v1, b1)" "enter_section p b1 = (Inr v2, b2)"
    "admit_items (sp_section p) (sp_items p) b2 = (Inr v3, b3)" "leave_section p b3 = (Inr u, c)"
    using assms by (auto simp: ingest_page_def then_build_Inr split: if_splits)
  have "mb_page_count b2 = mb_page_count b1" using s(3) by (auto simp: enter_section_def Let_def split: if_splits)
  moreover have "mb_page_count c = mb_page_count b3" using s(5) by (auto simp: leave_section_def Let_def split: if_splits option.splits)
  ultimately show ?thesis using s(1) pin_snapshot_Inr[OF s(2)] admit_items_page_count[OF s(4)] by simp
qed

definition pages_left :: "'c fetching \<Rightarrow> nat" where
  "pages_left ft = MAX_CLIENT_MODEL_PAGES - mb_page_count (ft_builder ft)"

lemma take_page_counts:
  assumes "take_page page ft = (Inr cursor, ft')"
  shows "mb_page_count (ft_builder ft) < MAX_CLIENT_MODEL_PAGES \<and> mb_page_count (ft_builder ft') = Suc (mb_page_count (ft_builder ft))"
  using assms ingest_page_count[of page "ft_builder ft"]
  by (auto simp: take_page_def Let_def split: if_splits prod.splits sum.splits)

lemma fetch_page_counts:
  assumes "fetch_page conn transport section ft = (Inr cursor, ft')"
  shows "mb_page_count (ft_builder ft) < MAX_CLIENT_MODEL_PAGES \<and> mb_page_count (ft_builder ft') = Suc (mb_page_count (ft_builder ft))"
  using assms take_page_counts[of _ "ft \<lparr> ft_client := _ \<rparr>" cursor ft']
  by (auto simp: fetch_page_def split: if_splits prod.splits sum.splits)

function fetch_section ::
  "('c, 'h) connection_ops \<Rightarrow> snapshot_section \<Rightarrow> 'c fetching \<Rightarrow> (subscription_error + unit) \<times> 'c fetching" where
  "fetch_section conn section ft =
     (case fetch_page conn (SeTransportAt (lit ''snapshot '' @ section_name section)) section ft of
        (Inl e, ft) \<Rightarrow> (Inl e, ft)
      | (Inr None, ft) \<Rightarrow> (Inr (), ft)
      | (Inr (Some cursor), ft) \<Rightarrow> fetch_section conn section (ft \<lparr> ft_resume_cursor := Some cursor \<rparr>))"
  by pat_completeness auto
termination
  by (relation "measure (\<lambda>(conn, section, ft). pages_left ft)") (auto simp: pages_left_def dest!: fetch_page_counts[OF sym])

declare fetch_section.simps [simp del]

fun fetch_sections ::
  "('c, 'h) connection_ops \<Rightarrow> snapshot_section list \<Rightarrow> 'c fetching \<Rightarrow> (subscription_error + unit) \<times> 'c fetching" where
  "fetch_sections conn [] ft = (Inr (), ft)"
| "fetch_sections conn (section # sections) ft =
     (case fetch_section conn section (ft \<lparr> ft_resume_cursor := None, ft_section_started := False \<rparr>) of
        (Inl e, ft) \<Rightarrow> (Inl e, ft)
      | (Inr _, ft) \<Rightarrow> fetch_sections conn sections ft)"

section \<open>The preview of the inbox\<close>

definition fail_preview ::
  "('c, 'h) connection_ops \<Rightarrow> subscription_error \<Rightarrow> 'c fetching
     \<Rightarrow> subscription_error \<times> client_subscription \<times> 'c host_client" where
  "fail_preview conn e ft =
     (e, snd (best_effort_cleanup conn ((ft_subscription ft) \<lparr> sb_state := SubNeedsResync \<rparr>) (ft_client ft)))"

function preview_loop ::
  "('c, 'h) connection_ops \<Rightarrow> 'c fetching
     \<Rightarrow> (subscription_error \<times> client_subscription \<times> 'c host_client) + (task_inbox_preview \<times> 'c fetching)" where
  "preview_loop conn ft =
     (if ft_section_started ft \<and> ft_snapshot_id ft = None
      then Inl (SeIncompleteSnapshot, ft_subscription ft, ft_client ft)
      else case fetch_page conn SeTransport SecTasks ft of
        (Inl e, ft) \<Rightarrow> Inl (fail_preview conn e ft)
      | (Inr (Some cursor), ft) \<Rightarrow> preview_loop conn (ft \<lparr> ft_resume_cursor := Some cursor \<rparr>)
      | (Inr None, ft) \<Rightarrow>
          (case finish_tasks_preview (ft_builder ft) of
             Inl e \<Rightarrow> Inl (fail_preview conn (SeModel e) ft)
           | Inr preview \<Rightarrow> Inr (preview, ft)))"
  by pat_completeness auto
termination
  by (relation "measure (\<lambda>(conn, ft). pages_left ft)") (auto simp: pages_left_def dest!: fetch_page_counts[OF sym])

declare preview_loop.simps [simp del]

definition preview_finish ::
  "task_inbox_preview \<Rightarrow> u64 option \<Rightarrow> client_subscription \<Rightarrow> 'c host_client \<Rightarrow> ('c, task_inbox_preview) subscribed" where
  "preview_finish preview through sb h =
     (let sb = sb \<lparr> sb_model := None, sb_state := (if sb_state sb = SubReady then SubPending else sb_state sb) \<rparr>
      in case through of
           None \<Rightarrow> (Inl SeIncompleteSnapshot, sb, h)
         | Some t \<Rightarrow> if tp_through_sequence preview \<noteq> t then (Inl SeIncompleteSnapshot, sb, h) else (Inr preview, sb, h))"

definition preview_tasks ::
  "('c, 'h) connection_ops \<Rightarrow> client_subscription \<Rightarrow> 'c host_client \<Rightarrow> ('c, task_inbox_preview) subscribed" where
  "preview_tasks conn sb h =
     (if sb_state sb = SubReady then (Inl SeNotReady, sb, h)
      else if sb_state sb = SubReleased then (Inl SeReleased, sb, h)
      else if \<not> contains_capability (hc_granted h) PagedSnapshots then (Inl SeMissingCapabilities, sb, h)
      else case release_snapshot_if_owned conn sb h of
        (Inl e, sb, h) \<Rightarrow> (Inl e, sb \<lparr> sb_state := SubNeedsResync \<rparr>, h)
      | (Inr _, sb, h) \<Rightarrow>
          (case preview_loop conn (fetching_new sb h) of
             Inl (e, sb, h) \<Rightarrow> (Inl e, sb, h)
           | Inr (preview, ft) \<Rightarrow>
               (case release_snapshot_if_owned conn (ft_subscription ft) (ft_client ft) of
                  (Inl e, sb, h) \<Rightarrow> (Inl e, sb \<lparr> sb_state := SubNeedsResync \<rparr>, h)
                | (Inr _, sb, h) \<Rightarrow> preview_finish preview (ft_through_sequence ft) sb h)))"

section \<open>Synchronization\<close>

text \<open>The replay that closes the race: each page is queued, applied and continued.\<close>

lemma replay_page_counts:
  assumes "apply_replay_page x env p m = Inr m'" "ep_next_cursor p \<noteq> None"
  shows "cm_replay_page_count m < MAX_CLIENT_REPLAY_PAGES \<and> cm_replay_page_count m' = Suc (cm_replay_page_count m)"
proof -
  obtain m1 m2 m3 where s: "pin_replay p (model_clone env m) = Inr m1" "count_replay_page p m1 = Inr m2"
    "try_fold (apply_page_event x env p) (ep_events p) m2 = Inr m3" "finish_replay p m3 = Inr m'"
    using assms(1) by (auto simp: apply_replay_page_def apply_replay_page_inner_def result_simps split: if_splits)
  have "cm_replay_page_count m1 = cm_replay_page_count m"
    using s(1) by (auto simp: pin_replay_def model_clone_def split: option.splits if_splits)
  moreover have "cm_replay_page_count m1 < MAX_CLIENT_REPLAY_PAGES \<and> cm_replay_page_count m2 = Suc (cm_replay_page_count m1)"
    using s(2) assms(2) by (auto simp: count_replay_page_def check_replay_continuation_bounds_def result_simps Let_def split: option.splits if_splits)
  moreover have "cm_replay_page_count m3 = cm_replay_page_count m2" using page_events_fields[OF s(3)] by simp
  moreover have "m' = m3" using s(4) assms(2) by (simp add: finish_replay_def)
  ultimately show ?thesis by simp
qed

function replay_loop ::
  "ext \<Rightarrow> index_env \<Rightarrow> ('c, 'h) connection_ops \<Rightarrow> event_replay_batch \<Rightarrow> client_model \<Rightarrow> client_subscription
     \<Rightarrow> 'c host_client \<Rightarrow> ('c, client_model) subscribed" where
  "replay_loop x env conn batch model sb h =
     (case queue_replay_events (ep_events (eb_page batch)) sb of
        (Inl e, sb) \<Rightarrow> (Inl e, sb, h)
      | (Inr _, sb) \<Rightarrow>
          (case apply_replay_page x env (eb_page batch) model of
             Inl e \<Rightarrow> (Inl (SeModel e), sb, h)
           | Inr model \<Rightarrow>
               (case ep_next_cursor (eb_page batch) of
                  None \<Rightarrow> (Inr model, sb, h)
                | Some cursor \<Rightarrow>
                    (case continue_event_replay conn (eb_subscription_id batch) cursor h of
                       (Inl e, h) \<Rightarrow> (Inl (SeTransportAt (lit ''continue replay'') e), sb, h)
                     | (Inr (Inl e), h) \<Rightarrow> (Inl (SeQuery e), sb, h)
                     | (Inr (Inr batch), h) \<Rightarrow>
                         if Some (eb_subscription_id batch) \<noteq> sb_subscription_id sb
                         then (Inl SeIncompleteSnapshot, sb, h)
                         else replay_loop x env conn batch model sb h))))"
  by pat_completeness auto
termination
  by (relation "measure (\<lambda>(x, env, conn, batch, model, sb, h). MAX_CLIENT_REPLAY_PAGES - cm_replay_page_count model)")
     (auto dest!: replay_page_counts)

declare replay_loop.simps [simp del]

text \<open>After the snapshot: open the replay, release the snapshot, replay, and be ready.\<close>

definition synchronize_replay ::
  "ext \<Rightarrow> index_env \<Rightarrow> ('c, 'h) connection_ops \<Rightarrow> u64 \<Rightarrow> client_model \<Rightarrow> client_subscription \<Rightarrow> 'c host_client
     \<Rightarrow> ('c, unit) subscribed" where
  "synchronize_replay x env conn through model sb h =
     (case open_event_replay conn through h of
        (Inl e, h) \<Rightarrow> (Inl (SeTransportAt (lit ''open replay'') e), sb, h)
      | (Inr (Inl e), h) \<Rightarrow> (Inl (SeQuery e), sb, h)
      | (Inr (Inr open), h) \<Rightarrow>
          (case release_snapshot_if_owned conn (sb \<lparr> sb_subscription_id := Some (eb_subscription_id open) \<rparr>) h of
             (Inl e, sb, h) \<Rightarrow> (Inl e, sb, h)
           | (Inr _, sb, h) \<Rightarrow>
               (case replay_loop x env conn open model sb h of
                  (Inl e, sb, h) \<Rightarrow> (Inl e, sb, h)
                | (Inr model, sb, h) \<Rightarrow> (Inr (), sb \<lparr> sb_model := Some model, sb_state := SubReady \<rparr>, h))))"

definition synchronize_inner ::
  "ext \<Rightarrow> index_env \<Rightarrow> ('c, 'h) connection_ops \<Rightarrow> client_subscription \<Rightarrow> 'c host_client \<Rightarrow> ('c, unit) subscribed" where
  "synchronize_inner x env conn sb h =
     (case fetch_sections conn (snapshot_sections (contains_capability (hc_granted h) BrowserProjection) False)
             (fetching_new sb h) of
        (Inl e, ft) \<Rightarrow> (Inl e, ft_subscription ft, ft_client ft)
      | (Inr _, ft) \<Rightarrow>
          (case finish env (ft_builder ft) of
             Inl e \<Rightarrow> (Inl (SeModel e), ft_subscription ft, ft_client ft)
           | Inr model \<Rightarrow>
               (case ft_through_sequence ft of
                  None \<Rightarrow> (Inl SeIncompleteSnapshot, ft_subscription ft, ft_client ft)
                | Some through \<Rightarrow>
                    if cm_last_applied_sequence model \<noteq> through
                    then (Inl SeIncompleteSnapshot, ft_subscription ft, ft_client ft)
                    else synchronize_replay x env conn through model (ft_subscription ft) (ft_client ft))))"

definition synchronize ::
  "ext \<Rightarrow> index_env \<Rightarrow> ('c, 'h) connection_ops \<Rightarrow> client_subscription \<Rightarrow> 'c host_client \<Rightarrow> ('c, unit) subscribed" where
  "synchronize x env conn sb h =
     (if sb_state sb = SubReady then (Inl SeNotReady, sb, h)
      else if sb_state sb = SubReleased then (Inl SeReleased, sb, h)
      else if \<not> contains_capability (hc_granted h) PagedSnapshots \<or> \<not> contains_capability (hc_granted h) EventReplay
      then (Inl SeMissingCapabilities, sb, h)
      else case release_owned conn (sb \<lparr> sb_state := SubPending \<rparr>) h of
        (Inl e, sb, h) \<Rightarrow> (Inl e, sb, h)
      | (Inr _, sb, h) \<Rightarrow>
          (case synchronize_inner x env conn
                  (sb \<lparr> sb_seen_event_ids := [], sb_seen_event_order := [], sb_pending_replay_events := [] \<rparr>) h of
             (Inr _, sb, h) \<Rightarrow> (Inr (), sb, h)
           | (Inl e, sb, h) \<Rightarrow>
               (Inl e, snd (best_effort_cleanup conn
                  (sb \<lparr> sb_state := SubNeedsResync, sb_pending_replay_events := [] \<rparr>) h))))"

section \<open>Live messages\<close>

definition not_ready :: "client_subscription_state \<Rightarrow> subscription_error option" where
  "not_ready s =
     (case s of SubReady \<Rightarrow> None | SubNeedsResync \<Rightarrow> Some SeNeedsResync | SubReleased \<Rightarrow> Some SeReleased
      | SubPending \<Rightarrow> Some SeNotReady)"

definition needs_resync :: "subscription_error \<Rightarrow> client_subscription \<Rightarrow> (subscription_error + 'a) \<times> client_subscription" where
  "needs_resync e sb = (Inl e, sb \<lparr> sb_state := SubNeedsResync \<rparr>)"

definition handle_durable_event ::
  "ext \<Rightarrow> index_env \<Rightarrow> subscription_id \<Rightarrow> subscription_id \<Rightarrow> domain_event \<Rightarrow> client_subscription
     \<Rightarrow> (subscription_error + subscription_update) \<times> client_subscription" where
  "handle_durable_event x env expected observed event sb =
     (if observed \<noteq> expected then needs_resync (SeForeignSubscription (UsDurableEvent observed event)) sb
      else if de_id event \<in> set (sb_seen_event_ids sb) then (Inr (UpDurableEvent event), sb)
      else case sb_model sb of
        None \<Rightarrow> (Inl SeIncompleteSnapshot, sb)
      | Some model \<Rightarrow>
          if de_sequence event \<le> cm_last_applied_sequence model
          then needs_resync (SeModel CmDuplicateOrRegression) sb
          else
            let sb = remember_event_id (de_id event) sb
            in (case client_apply_event x env event model of
                  Inl e \<Rightarrow> needs_resync (SeModel e) sb
                | Inr model \<Rightarrow> (Inr (UpDurableEvent event), sb \<lparr> sb_model := Some model \<rparr>)))"

definition handle_resync_required ::
  "subscription_id \<Rightarrow> subscription_id \<Rightarrow> u64 \<Rightarrow> u64 \<Rightarrow> client_subscription
     \<Rightarrow> (subscription_error + subscription_update) \<times> client_subscription" where
  "handle_resync_required expected observed last_delivered newest sb =
     (if observed \<noteq> expected then needs_resync (SeForeignSubscription (UsResyncRequired observed last_delivered newest)) sb
      else case sb_model sb of
        None \<Rightarrow> (Inl SeIncompleteSnapshot, sb)
      | Some model \<Rightarrow>
          if newest < last_delivered \<or> last_delivered \<noteq> cm_last_applied_sequence model
          then needs_resync SeInvalidResync sb
          else (Inr (UpResyncRequired last_delivered newest), sb \<lparr> sb_state := SubNeedsResync \<rparr>))"

definition handle_unsolicited_message ::
  "ext \<Rightarrow> index_env \<Rightarrow> unsolicited_server_message \<Rightarrow> client_subscription
     \<Rightarrow> (subscription_error + subscription_update) \<times> client_subscription" where
  "handle_unsolicited_message x env message sb =
     (case not_ready (sb_state sb) of
        Some e \<Rightarrow> (Inl e, sb)
      | None \<Rightarrow>
          (case sb_subscription_id sb of
             None \<Rightarrow> (Inl SeIncompleteSnapshot, sb)
           | Some i \<Rightarrow>
               (case message of
                  UsDurableEvent observed event \<Rightarrow> handle_durable_event x env i observed event sb
                | UsResyncRequired observed last_delivered newest \<Rightarrow>
                    handle_resync_required i observed last_delivered newest sb
                | UsStream frame \<Rightarrow> (Inr (UpStream frame), sb)
                | UsConversationDirty j task high_water \<Rightarrow> (Inr (UpConversationDirty j task high_water), sb))))"

definition recv_and_apply ::
  "ext \<Rightarrow> index_env \<Rightarrow> ('c, 'h) connection_ops \<Rightarrow> client_subscription \<Rightarrow> 'c host_client
     \<Rightarrow> ('c, subscription_update) subscribed" where
  "recv_and_apply x env conn sb h =
     (case not_ready (sb_state sb) of
        Some e \<Rightarrow> (Inl e, sb, h)
      | None \<Rightarrow>
          (case client_recv_unsolicited conn h of
             (Inl e, h) \<Rightarrow> (Inl (SeTransport e), observe_recv_transport_failure sb, h)
           | (Inr message, h) \<Rightarrow>
               (case handle_unsolicited_message x env message sb of (r, sb) \<Rightarrow> (r, sb, h))))"

section \<open>The detail of a task\<close>

text \<open>The pages of one section and the snapshot they belong to, or the failure that ends the fetch with what was
  pinned by then.\<close>

record 'c detail_fetch =
  df_pages :: "snapshot_page list"
  df_snapshot_id :: "snapshot_id option"
  df_client :: "'c host_client"

fun detail_section ::
  "nat \<Rightarrow> ('c, 'h) connection_ops \<Rightarrow> task_id \<Rightarrow> snapshot_section \<Rightarrow> u8 list option \<Rightarrow> 'c detail_fetch
     \<Rightarrow> (subscription_error option \<times> 'c detail_fetch) option" where
  "detail_section 0 conn task section cursor df = None"
| "detail_section (Suc fuel) conn task section cursor df =
     (case snapshot_page_scoped conn section (Some task) (df_snapshot_id df) cursor (df_client df) of
        (Inl e, h) \<Rightarrow>
          Some (Some (SeTransportAt (lit ''task detail snapshot '' @ section_name section) e), df \<lparr> df_client := h \<rparr>)
      | (Inr (Inl e), h) \<Rightarrow> Some (Some (SeQuery e), df \<lparr> df_client := h \<rparr>)
      | (Inr (Inr page), h) \<Rightarrow>
          (let df = df \<lparr> df_client := h \<rparr>
           in if (case df_snapshot_id df of Some expected \<Rightarrow> expected \<noteq> sp_snapshot_id page | None \<Rightarrow> False)
              then Some (Some SeIncompleteSnapshot, df)
              else
                let df = df \<lparr> df_snapshot_id := Some (sp_snapshot_id page), df_pages := df_pages df @ [page] \<rparr>
                in (case sp_next_cursor page of
                      Some cursor \<Rightarrow> detail_section fuel conn task section (Some cursor) df
                    | None \<Rightarrow> Some (None, df))))"

fun detail_sections ::
  "nat \<Rightarrow> ('c, 'h) connection_ops \<Rightarrow> task_id \<Rightarrow> snapshot_section list \<Rightarrow> 'c detail_fetch
     \<Rightarrow> (subscription_error option \<times> 'c detail_fetch) option" where
  "detail_sections fuel conn task [] df = Some (None, df)"
| "detail_sections fuel conn task (section # sections) df =
     (case detail_section fuel conn task section None df of
        None \<Rightarrow> None
      | Some (Some e, df) \<Rightarrow> Some (Some e, df)
      | Some (None, df) \<Rightarrow> detail_sections fuel conn task sections df)"

definition detail_admit ::
  "index_env \<Rightarrow> task_id \<Rightarrow> snapshot_page list \<Rightarrow> client_subscription \<Rightarrow> (subscription_error + unit) \<times> client_subscription" where
  "detail_admit env task pages sb =
     (case sb_model sb of
        None \<Rightarrow> (Inl SeNotReady, sb)
      | Some model \<Rightarrow>
          (case admit_task_detail_pages env task pages model of
             Inl e \<Rightarrow> (Inl (SeModel e), sb)
           | Inr model \<Rightarrow> (Inr (), sb \<lparr> sb_model := Some model \<rparr>)))"

definition detail_finish ::
  "index_env \<Rightarrow> ('c, 'h) connection_ops \<Rightarrow> task_id \<Rightarrow> subscription_error option \<Rightarrow> 'c detail_fetch \<Rightarrow> client_subscription
     \<Rightarrow> ('c, unit) subscribed" where
  "detail_finish env conn task failure df sb =
     (let released = (case df_snapshot_id df of
             None \<Rightarrow> (Inr (), df_client df)
           | Some i \<Rightarrow>
               (case release_snapshot_scoped conn i (Some task) (df_client df) of
                  (Inr (Inr _), h) \<Rightarrow> (Inr (), h)
                | (Inr (Inl e), h) \<Rightarrow> (if e = QueryNotFound then Inr () else Inl (SeQuery e), h)
                | (Inl e, h) \<Rightarrow> (Inl (SeTransport e), h)))
      in case (released, failure) of
           ((Inl e, h), None) \<Rightarrow> (Inl e, sb, h)
         | ((_, h), Some f) \<Rightarrow> (Inl f, sb, h)
         | ((Inr _, h), None) \<Rightarrow> (case detail_admit env task (df_pages df) sb of (r, sb) \<Rightarrow> (r, sb, h)))"

definition load_task_detail ::
  "nat \<Rightarrow> index_env \<Rightarrow> ('c, 'h) connection_ops \<Rightarrow> task_id \<Rightarrow> client_subscription \<Rightarrow> 'c host_client
     \<Rightarrow> ('c, unit) subscribed option" where
  "load_task_detail fuel env conn task sb h =
     (if sb_state sb = SubReleased then Some (Inl SeReleased, sb, h)
      else case sb_model sb of
        None \<Rightarrow> Some (Inl SeNotReady, sb, h)
      | Some model \<Rightarrow>
          if task_detail_admitted task model then Some (Inr (), sb, h)
          else if \<not> contains_capability (hc_granted h) PagedSnapshots then Some (Inl SeMissingCapabilities, sb, h)
          else map_option (\<lambda>(failure, df). detail_finish env conn task failure df sb)
                 (detail_sections fuel conn task
                    (snapshot_sections (contains_capability (hc_granted h) BrowserProjection) True)
                    \<lparr> df_pages = [], df_snapshot_id = None, df_client = h \<rparr>))"

end
