(* ===== verification/Client_Session.thy ===== *)
theory Client_Session
  imports Client_Subscription "HOL-Library.Sublist"
begin

text \<open>
  The life of a subscription: what a successful synchronization installs, the invariant of every
  subscription a client can reach, and the live events it applies.
\<close>

section \<open>The seen ids and the replay queue\<close>

definition ring :: "client_subscription \<Rightarrow> bool" where
  "ring sb \<longleftrightarrow> set (sb_seen_event_ids sb) = set (sb_seen_event_order sb) \<and> distinct (sb_seen_event_order sb)
     \<and> length (sb_seen_event_order sb) \<le> MAX_SEEN_EVENT_IDS \<and> length (sb_pending_replay_events sb) \<le> MAX_PENDING_REPLAY_EVENTS"

lemma remember_fields [simp]:
  "sb_state (remember_event_id i sb) = sb_state sb" "sb_subscription_id (remember_event_id i sb) = sb_subscription_id sb"
  "sb_model (remember_event_id i sb) = sb_model sb" "sb_snapshot_id (remember_event_id i sb) = sb_snapshot_id sb"
  "sb_pending_replay_events (remember_event_id i sb) = sb_pending_replay_events sb"
  by (simp_all add: remember_event_id_def Let_def split: list.split)

lemma remember_ring:
  assumes "ring sb"
  shows "ring (remember_event_id i sb)" and "set (sb_seen_event_ids (remember_event_id i sb)) \<subseteq> insert i (set (sb_seen_event_ids sb))"
proof -
  show "ring (remember_event_id i sb)"
  proof (cases "i \<in> set (sb_seen_event_ids sb)")
    case False
    then have "i \<notin> set (sb_seen_event_order sb)" using assms by (simp add: ring_def)
    then show ?thesis using assms False
      by (cases "sb_seen_event_order sb") (auto simp: ring_def remember_event_id_def Let_def hs_insert_def MAX_SEEN_EVENT_IDS_def)
  qed (simp add: remember_event_id_def assms)
  show "set (sb_seen_event_ids (remember_event_id i sb)) \<subseteq> insert i (set (sb_seen_event_ids sb))"
    by (auto simp: remember_event_id_def Let_def hs_insert_def split: list.split)
qed

lemma queue_event_step:
  assumes "queue_replay_event ev sb = (r, sb')" "ring sb"
  shows "ring sb' \<and> sb_model sb' = sb_model sb \<and> sb_subscription_id sb' = sb_subscription_id sb \<and> sb_snapshot_id sb' = sb_snapshot_id sb
    \<and> (r = Inr u \<longrightarrow> sb_pending_replay_events sb' = sb_pending_replay_events sb @ [ev] \<and> sb_state sb' = sb_state sb)"
  using assms remember_ring(1)[OF assms(2), of "de_id ev"]
  by (auto simp: queue_replay_event_def Let_def ring_def split: if_splits)

lemma queue_events_step:
  assumes "queue_replay_events evs sb = (r, sb')" "ring sb"
  shows "ring sb' \<and> sb_model sb' = sb_model sb \<and> sb_subscription_id sb' = sb_subscription_id sb \<and> sb_snapshot_id sb' = sb_snapshot_id sb
    \<and> (r = Inr u \<longrightarrow> sb_pending_replay_events sb' = sb_pending_replay_events sb @ evs \<and> sb_state sb' = sb_state sb)"
  using assms
proof (induction evs arbitrary: sb)
  case (Cons ev evs)
  obtain q sb1 where q: "queue_replay_event ev sb = (q, sb1)" by (cases "queue_replay_event ev sb")
  note step = queue_event_step[OF q Cons.prems(2)]
  show ?case
  proof (cases q)
    case (Inl e)
    then show ?thesis using step Cons.prems(1) q by auto
  next
    case (Inr v)
    then show ?thesis using step Cons.IH[of sb1] Cons.prems(1) q by auto
  qed
qed simp

section \<open>Replay pages as events\<close>

lemma page_events_plain:
  assumes "try_fold (apply_page_event x env p) evs m = Inr m'" "core m = core n"
  shows "\<exists>n'. try_fold (apply_one_event x env) evs n = Inr n' \<and> core n' = core m'"
  using assms
proof (induction evs arbitrary: m n)
  case (Cons ev evs)
  then obtain m1 where m1: "apply_page_event x env p ev m = Inr m1" "try_fold (apply_page_event x env p) evs m1 = Inr m'"
    by (auto simp: result_simps)
  then have "apply_one_event x env ev m = Inr m1" by (simp add: apply_page_event_def split: if_splits)
  then obtain n1 where "apply_one_event x env ev n = Inr n1" "core m1 = core n1"
    using apply_one_event_cong[OF Cons.prems(2), of x env ev] by (cases "apply_one_event x env ev n") simp_all
  then show ?case using Cons.IH[OF m1(2)] by simp
qed simp

lemma replay_page_plain:
  assumes "apply_replay_page x env p m = Inr m'" "core m = core n"
  shows "\<exists>n'. try_fold (apply_one_event x env) (ep_events p) n = Inr n' \<and>
    core m' = (if ep_next_cursor p = None then at_sequence (ep_through_sequence p) (core n') else core n')"
proof -
  obtain m1 m2 m3 where s: "pin_replay p (model_clone env m) = Inr m1" "count_replay_page p m1 = Inr m2"
    "try_fold (apply_page_event x env p) (ep_events p) m2 = Inr m3" "finish_replay p m3 = Inr m'"
    using assms(1) by (auto simp: apply_replay_page_def apply_replay_page_inner_def result_simps split: if_splits)
  have "core m1 = core m" using s(1) by (auto simp: pin_replay_def split: option.splits if_splits)
  moreover have "core m2 = core m1" using s(2)
    by (auto simp: count_replay_page_def result_simps Let_def split: option.splits if_splits)
  ultimately obtain n' where n': "try_fold (apply_one_event x env) (ep_events p) n = Inr n'" "core n' = core m3"
    using page_events_plain[OF s(3)] assms(2) by metis
  show ?thesis
  proof (cases "ep_next_cursor p")
    case None
    then have ends: "cm_last_applied_sequence m3 \<le> ep_through_sequence p" using s(4) by (auto simp: finish_replay_def split: if_splits)
    show ?thesis using finish_replay_last[OF None ends] s(4) n' None by auto
  next
    case (Some c)
    then show ?thesis using s(4) n' by (simp add: finish_replay_def)
  qed
qed

text \<open>The pages of one replay: a cursor on all but the last.\<close>

fun cursored :: "event_page list \<Rightarrow> bool" where
  "cursored [] = False"
| "cursored [p] \<longleftrightarrow> ep_next_cursor p = None"
| "cursored (p # ps) \<longleftrightarrow> ep_next_cursor p \<noteq> None \<and> cursored ps"

lemma replay_pages_plain:
  assumes "try_fold (apply_replay_page x env) ps m = Inr m'" "core m = core n" "cursored ps"
  shows "\<exists>n'. try_fold (apply_one_event x env) (concat (map ep_events ps)) n = Inr n' \<and>
    core m' = at_sequence (ep_through_sequence (last ps)) (core n')"
  using assms
proof (induction ps arbitrary: m n rule: cursored.induct)
  case (2 p)
  then show ?case using replay_page_plain[of x env p m m' n] by (auto simp: result_simps)
next
  case (3 p q ps)
  obtain m1 where m1: "apply_replay_page x env p m = Inr m1" "try_fold (apply_replay_page x env) (q # ps) m1 = Inr m'"
    using "3.prems"(1) by (simp only: try_fold.simps rbind_Inr_iff) blast
  obtain n1 where n1: "try_fold (apply_one_event x env) (ep_events p) n = Inr n1" "core m1 = core n1"
    using replay_page_plain[OF m1(1) "3.prems"(2)] "3.prems"(3) by auto
  obtain n' where "try_fold (apply_one_event x env) (concat (map ep_events (q # ps))) n1 = Inr n'"
    "core m' = at_sequence (ep_through_sequence (last (q # ps))) (core n')"
    using "3.IH"[OF m1(2) n1(2)] "3.prems"(3) by auto
  then show ?case using n1(1) by (simp add: try_fold_append)
qed simp

section \<open>What the host answered\<close>

text \<open>A stretch of the connection: the queries the client sent on it, in order, with the outcomes the host gave, and
  the fences in between.\<close>

inductive dialogue ::
  "('c, 'h) connection_ops \<Rightarrow> 'c host_client \<Rightarrow> (query \<times> query_outcome) list \<Rightarrow> 'c host_client \<Rightarrow> bool" for conn where
  quiet: "dialogue conn h [] h"
| asked: "dialogue conn h log h1 \<Longrightarrow> hc_connection h1 = Some c \<Longrightarrow> co_query conn task q c = (Inr outcome, c')
    \<Longrightarrow> dialogue conn h (log @ [(q, outcome)]) (h1 \<lparr> hc_connection := Some c' \<rparr>)"
| fenced: "dialogue conn h log h1 \<Longrightarrow> hc_connection h1 = Some c \<Longrightarrow> co_retire_subscription_id conn i c = (Inr u, c')
    \<Longrightarrow> dialogue conn h log (h1 \<lparr> hc_connection := Some c' \<rparr>)"

definition snapshot_answer :: "query \<times> query_outcome \<Rightarrow> snapshot_page list" where
  "snapshot_answer entry = (case snd entry of Inr (QrSnapshotPage p) \<Rightarrow> [p] | _ \<Rightarrow> [])"

definition replay_answer :: "query \<times> query_outcome \<Rightarrow> event_page list" where
  "replay_answer entry = (case snd entry of Inr (QrEventReplayPage _ p) \<Rightarrow> [p] | _ \<Rightarrow> [])"

text \<open>The host gave these snapshot pages and these replay pages, in this order, and no others.\<close>

definition host_gave ::
  "('c, 'h) connection_ops \<Rightarrow> 'c host_client \<Rightarrow> snapshot_page list \<Rightarrow> event_page list \<Rightarrow> 'c host_client \<Rightarrow> bool" where
  "host_gave conn h pages replay h' \<longleftrightarrow>
     (\<exists>log. dialogue conn h log h' \<and> concat (map snapshot_answer log) = pages \<and> concat (map replay_answer log) = replay)"

lemma dialogue_trans: "dialogue conn h1 log2 h2 \<Longrightarrow> dialogue conn h log1 h1 \<Longrightarrow> dialogue conn h (log1 @ log2) h2"
proof (induction rule: dialogue.induct)
  case (asked h1 log h2 c task q outcome c')
  then show ?case using dialogue.asked[of conn h "log1 @ log"] by simp
qed (auto intro: dialogue.fenced)

lemma host_gave_none: "host_gave conn h [] [] h"
  unfolding host_gave_def by (intro exI[of _ "[]"]) (simp add: dialogue.quiet)

lemma host_gave_trans:
  assumes "host_gave conn h pages replay h1" "host_gave conn h1 pages' replay' h2"
  shows "host_gave conn h (pages @ pages') (replay @ replay') h2"
proof -
  obtain log log' where "dialogue conn h log h1" "concat (map snapshot_answer log) = pages" "concat (map replay_answer log) = replay"
    "dialogue conn h1 log' h2" "concat (map snapshot_answer log') = pages'" "concat (map replay_answer log') = replay'"
    using assms unfolding host_gave_def by blast
  then show ?thesis unfolding host_gave_def by (intro exI[of _ "log @ log'"]) (simp add: dialogue_trans)
qed

lemma asked_once:
  assumes "hc_connection h = Some c" "co_query conn task q c = (Inr outcome, c')"
  shows "host_gave conn h (snapshot_answer (q, outcome)) (replay_answer (q, outcome)) (h \<lparr> hc_connection := Some c' \<rparr>)"
  using dialogue.asked[OF dialogue.quiet assms] unfolding host_gave_def by (intro exI[of _ "[(q, outcome)]"]) simp

lemma fence_gives_nothing:
  assumes "fence_retired_subscription conn i h = (Inr u, h')"
  shows "host_gave conn h [] [] h'"
proof -
  obtain c c' where c: "hc_connection h = Some c" "co_retire_subscription_id conn i c = (Inr u, c')" "h' = h \<lparr> hc_connection := Some c' \<rparr>"
    using assms by (auto simp: fence_retired_subscription_def split: option.splits prod.splits sum.splits)
  show ?thesis using dialogue.fenced[OF dialogue.quiet c(1,2)] c(3) unfolding host_gave_def by (intro exI[of _ "[]"]) simp
qed

text \<open>What a gated query that was answered adds.\<close>

lemma gated_query_gave:
  "gated_query conn capability task q correlate h = (Inr (Inr v), h') \<Longrightarrow>
     \<exists>result. correlate result = Inr v \<and> host_gave conn h (snapshot_answer (q, Inr result)) (replay_answer (q, Inr result)) h'"
  "gated_query conn capability task q correlate h = (Inr (Inl e), h') \<Longrightarrow> host_gave conn h [] [] h'"
proof -
  assume "gated_query conn capability task q correlate h = (Inr (Inr v), h')"
  from gated_query_effect[OF this] obtain c c' result where c: "hc_connection h = Some c"
    "co_query conn task q c = (Inr (Inr result), c')" "h' = h \<lparr> hc_connection := Some c' \<rparr>" "correlate result = Inr v"
    by (auto simp: query_effect_def)
  show "\<exists>result. correlate result = Inr v \<and> host_gave conn h (snapshot_answer (q, Inr result)) (replay_answer (q, Inr result)) h'"
    using asked_once[OF c(1,2)] c(3,4) by blast
next
  assume "gated_query conn capability task q correlate h = (Inr (Inl e), h')"
  from gated_query_effect[OF this] obtain c c' where c: "hc_connection h = Some c"
    "co_query conn task q c = (Inr (Inl e), c')" "h' = h \<lparr> hc_connection := Some c' \<rparr>"
    by (auto simp: query_effect_def)
  show "host_gave conn h [] [] h'" using asked_once[OF c(1,2)] c(3) by (simp add: snapshot_answer_def replay_answer_def)
qed

lemma page_given:
  assumes "client_snapshot_page conn sec snapshot cursor h = (Inr (Inr page), h')"
  shows "host_gave conn h [page] [] h'"
proof -
  from gated_query_gave(1)[OF assms[unfolded client_snapshot_page_def snapshot_page_scoped_def]] obtain result where
    "(case result of
         QrSnapshotPage page \<Rightarrow>
           if sp_section page \<noteq> sec then Inl IpcCorrelationMismatch
           else (case snapshot of
                   None \<Rightarrow> Inr page
                 | Some expected \<Rightarrow>
                     if sp_snapshot_id page \<noteq> expected then Inl IpcCorrelationMismatch else Inr page)
       | _ \<Rightarrow> Inl IpcUnexpectedResponse) = Inr page"
    "host_gave conn h (snapshot_answer (QSnapshotPage sec snapshot cursor, Inr result))
       (replay_answer (QSnapshotPage sec snapshot cursor, Inr result)) h'"
    by blast
  then show ?thesis by (cases result) (auto simp: snapshot_answer_def replay_answer_def split: if_splits option.splits)
qed

lemma batch_given:
  assumes "gated_query conn capability task q (\<lambda>result. case result of
       QrEventReplayPage i page \<Rightarrow> if refused i page then Inl mismatch else Inr \<lparr> eb_subscription_id = i, eb_page = page \<rparr>
     | _ \<Rightarrow> Inl IpcUnexpectedResponse) h = (Inr (Inr batch), h')"
  shows "host_gave conn h [] [eb_page batch] h'"
proof -
  from gated_query_gave(1)[OF assms] obtain result where
    "(case result of
       QrEventReplayPage i page \<Rightarrow> if refused i page then Inl mismatch else Inr \<lparr> eb_subscription_id = i, eb_page = page \<rparr>
     | _ \<Rightarrow> Inl IpcUnexpectedResponse) = Inr batch"
    "host_gave conn h (snapshot_answer (q, Inr result)) (replay_answer (q, Inr result)) h'" by blast
  then show ?thesis by (cases result) (auto simp: snapshot_answer_def replay_answer_def split: if_splits)
qed

lemma opening_given:
  "open_event_replay conn after h = (Inr (Inr batch), h') \<Longrightarrow> host_gave conn h [] [eb_page batch] h'"
  unfolding open_event_replay_def by (rule batch_given[where refused = "\<lambda>_ page. ep_after_sequence page \<noteq> after"])

lemma continuation_given:
  "continue_event_replay conn i cursor h = (Inr (Inr batch), h') \<Longrightarrow> host_gave conn h [] [eb_page batch] h'"
  unfolding continue_event_replay_def by (rule batch_given[where refused = "\<lambda>returned _. returned \<noteq> i"])

lemma snapshot_release_given:
  assumes "release_snapshot conn i h = (Inr answer, h')"
  shows "host_gave conn h [] [] h'"
proof (cases answer)
  case (Inl e)
  show ?thesis using gated_query_gave(2) assms[unfolded Inl release_snapshot_def release_snapshot_scoped_def] by blast
next
  case (Inr u)
  from gated_query_gave(1)[OF assms[unfolded Inr release_snapshot_def release_snapshot_scoped_def]] obtain result where
    "(case result of
         QrSnapshotReleased released \<Rightarrow> if released = i then Inr () else Inl IpcCorrelationMismatch
       | _ \<Rightarrow> Inl IpcUnexpectedResponse) = Inr u"
    "host_gave conn h (snapshot_answer (QReleaseSnapshot i, Inr result)) (replay_answer (QReleaseSnapshot i, Inr result)) h'" by blast
  then show ?thesis by (cases result) (auto simp: snapshot_answer_def replay_answer_def split: if_splits)
qed

lemma replay_release_given:
  assumes "release_event_replay conn i h = (Inr answer, h')"
  shows "host_gave conn h [] [] h'"
proof -
  have granted: "contains_capability (hc_granted h) EventReplay"
    using assms by (auto simp: release_event_replay_def split: if_splits prod.splits sum.splits)
  then obtain c where c: "hc_connection h = Some c" "co_is_live conn c"
    using assms by (auto simp: release_event_replay_def live_connection_def split: option.splits if_splits)
  obtain r c' where q: "co_query conn None (QReleaseEventReplay i) c = (r, c')" by (cases "co_query conn None (QReleaseEventReplay i) c")
  then obtain outcome where r: "r = Inr outcome"
    using assms granted c by (cases r) (auto simp: release_event_replay_def live_connection_def fence_and_retire_def)
  let ?h = "h \<lparr> hc_connection := Some c' \<rparr>"
  have fence: "\<exists>u. fence_retired_subscription conn i ?h = (Inr u, h')"
    "outcome = Inl e \<or> outcome = Inr (QrEventReplayReleased i)" if "outcome = Inl e \<or> (\<exists>result. outcome = Inr result)" for e
    using assms granted c q r that
    by (auto simp: release_event_replay_def live_connection_def fence_then_def fence_and_retire_def Let_def
        split: query_result.splits if_splits prod.splits sum.splits)
  have "host_gave conn h [] [] ?h"
    using asked_once[OF c(1) q[unfolded r]] fence(2) by (cases outcome) (auto simp: snapshot_answer_def replay_answer_def)
  moreover obtain u where "fence_retired_subscription conn i ?h = (Inr u, h')" using fence(1) by (cases outcome) auto
  ultimately show ?thesis using host_gave_trans[OF _ fence_gives_nothing] by fastforce
qed

section \<open>The pages of a synchronization\<close>

text \<open>What a page loop leaves: the pages went into the builder in order, all of them of one snapshot and one
  sequence; of the subscription only the owned snapshot changes, of the client only the connection.\<close>

definition fetched :: "snapshot_page list \<Rightarrow> 'c fetching \<Rightarrow> 'c fetching \<Rightarrow> bool" where
  "fetched pages ft ft' \<longleftrightarrow> ingest_pages pages (ft_builder ft) = (Inr (), ft_builder ft') \<and>
     (\<forall>p \<in> set pages. ft_snapshot_id ft' = Some (sp_snapshot_id p) \<and> ft_through_sequence ft' = Some (sp_through_sequence p)) \<and>
     (ft_snapshot_id ft = None \<or> ft_snapshot_id ft' = ft_snapshot_id ft) \<and>
     (ft_through_sequence ft = None \<or> ft_through_sequence ft' = ft_through_sequence ft) \<and>
     (\<exists>i. ft_subscription ft' = (ft_subscription ft) \<lparr> sb_snapshot_id := i \<rparr>) \<and> same_client (ft_client ft) (ft_client ft')"

lemma ingest_pages_append: "ingest_pages (ps @ qs) b = then_build (ingest_pages ps b) (\<lambda>_. ingest_pages qs)"
  by (induction ps arbitrary: b) (auto simp: then_build_def split: prod.split sum.split)

lemma fetched_Nil: "fetched [] ft (ft \<lparr> ft_resume_cursor := c, ft_section_started := s \<rparr>)"
proof -
  have "\<exists>i. ft_subscription ft = (ft_subscription ft) \<lparr> sb_snapshot_id := i \<rparr>"
    by (rule exI[of _ "sb_snapshot_id (ft_subscription ft)"]) simp
  then show ?thesis by (simp add: fetched_def)
qed

lemma fetched_cursor [simp]: "fetched ps ft (ft' \<lparr> ft_resume_cursor := c \<rparr>) = fetched ps ft ft'"
  by (simp add: fetched_def)

lemma fetched_trans:
  assumes "fetched ps ft1 ft2" "fetched qs ft2 ft3"
  shows "fetched (ps @ qs) ft1 ft3"
proof -
  have "ingest_pages (ps @ qs) (ft_builder ft1) = (Inr (), ft_builder ft3)"
    using assms by (simp add: fetched_def ingest_pages_append then_build_def)
  moreover have "same_client (ft_client ft1) (ft_client ft3)"
    using assms by (auto simp: fetched_def intro: same_client_trans)
  moreover have "ft_snapshot_id ft3 = Some (sp_snapshot_id p) \<and> ft_through_sequence ft3 = Some (sp_through_sequence p)"
    if "p \<in> set (ps @ qs)" for p
    using assms that unfolding fetched_def by (cases "p \<in> set qs") auto
  moreover have "\<exists>i. ft_subscription ft3 = (ft_subscription ft1) \<lparr> sb_snapshot_id := i \<rparr>"
    using assms unfolding fetched_def by (metis client_subscription.surjective client_subscription.update_convs(4))
  moreover have "ft_snapshot_id ft1 = None \<or> ft_snapshot_id ft3 = ft_snapshot_id ft1"
    "ft_through_sequence ft1 = None \<or> ft_through_sequence ft3 = ft_through_sequence ft1"
    using assms unfolding fetched_def by metis+
  ultimately show ?thesis unfolding fetched_def by blast
qed

text \<open>On every path a page loop leaves all but the owned snapshot of the subscription alone.\<close>

definition only_snapshot :: "client_subscription \<Rightarrow> client_subscription \<Rightarrow> bool" where
  "only_snapshot sb sb' \<longleftrightarrow> (\<exists>i. sb' = sb \<lparr> sb_snapshot_id := i \<rparr>)"

lemma only_snapshot_refl [simp]: "only_snapshot sb sb"
  unfolding only_snapshot_def by (rule exI[of _ "sb_snapshot_id sb"]) simp

lemma only_snapshot_set [simp]: "only_snapshot sb (sb \<lparr> sb_snapshot_id := i \<rparr>)"
  by (auto simp: only_snapshot_def)

lemma only_snapshot_trans: "only_snapshot a b \<Longrightarrow> only_snapshot b c \<Longrightarrow> only_snapshot a c"
  by (auto simp: only_snapshot_def)

lemma take_page_step:
  assumes "take_page page ft = (r, ft')"
  shows "only_snapshot (ft_subscription ft) (ft_subscription ft') \<and> ft_client ft' = ft_client ft \<and>
    (\<forall>cursor. r = Inr cursor \<longrightarrow> cursor = sp_next_cursor page \<and> fetched [page] ft ft')"
proof -
  let ?sb = "(ft_subscription ft) \<lparr> sb_snapshot_id := Some (sp_snapshot_id page) \<rparr>"
  have sub: "ft_subscription ft' = ?sb" "ft_client ft' = ft_client ft"
    using assms by (auto simp: take_page_def Let_def split: if_splits prod.splits sum.splits)
  have "cursor = sp_next_cursor page \<and> fetched [page] ft ft'" if r: "r = Inr cursor" for cursor
  proof -
    have f: "cursor = sp_next_cursor page" "ft_snapshot_id ft' = Some (sp_snapshot_id page)" "ft_through_sequence ft' = Some (sp_through_sequence page)"
      "ingest_page page (ft_builder ft) = (Inr (), ft_builder ft')"
      "ft_snapshot_id ft = None \<or> ft_snapshot_id ft = Some (sp_snapshot_id page)"
      "ft_through_sequence ft = None \<or> ft_through_sequence ft = Some (sp_through_sequence page)"
      using assms r by (auto simp: take_page_def Let_def split: if_splits prod.splits sum.splits option.splits)
    show ?thesis using f sub unfolding fetched_def by (auto simp: then_build_def)
  qed
  then show ?thesis using sub by (auto simp: only_snapshot_def)
qed

lemma fetch_page_step:
  assumes "fetch_page conn transport sec ft = (r, ft')"
  shows "only_snapshot (ft_subscription ft) (ft_subscription ft') \<and> same_client (ft_client ft) (ft_client ft') \<and>
    (\<forall>cursor. r = Inr cursor \<longrightarrow> (\<exists>page. cursor = sp_next_cursor page \<and> sp_section page = sec \<and> fetched [page] ft ft'
       \<and> host_gave conn (ft_client ft) [page] [] (ft_client ft')))"
proof (cases "ft_section_started ft \<and> ft_snapshot_id ft = None")
  case True
  then show ?thesis using assms by (simp add: fetch_page_def) (auto simp: only_snapshot_def)
next
  case False
  obtain q h where q: "client_snapshot_page conn sec (ft_snapshot_id ft) (ft_resume_cursor ft) (ft_client ft) = (q, h)"
    by (cases "client_snapshot_page conn sec (ft_snapshot_id ft) (ft_resume_cursor ft) (ft_client ft)")
  have same: "same_client (ft_client ft) h"
    using q gated_query_same by (auto simp: client_snapshot_page_def snapshot_page_scoped_def)
  show ?thesis
  proof (cases "\<exists>page. q = Inr (Inr page)")
    case True
    then obtain page where page: "q = Inr (Inr page)" by blast
    then have t: "take_page page (ft \<lparr> ft_client := h \<rparr>) = (r, ft')" using assms False q by (simp add: fetch_page_def)
    have "sp_section page = sec" using snapshot_page_correlated(1) q page by (auto simp: client_snapshot_page_def)
    moreover have "fetched [page] ft ft'" if "fetched [page] (ft \<lparr> ft_client := h \<rparr>) ft'"
      using that same unfolding fetched_def by (auto intro: same_client_trans)
    moreover have "host_gave conn (ft_client ft) [page] [] h" using page_given q page by blast
    ultimately show ?thesis using take_page_step[OF t] same by auto
  next
    case F: False
    then have "r = Inl (projl r) \<and> ft' = ft \<lparr> ft_client := h \<rparr>"
      using assms False q by (cases q; cases "projr q") (auto simp: fetch_page_def)
    then show ?thesis using same by (cases r) auto
  qed
qed

lemma fetch_section_step:
  "fetch_section conn sec ft = (r, ft') \<Longrightarrow>
     only_snapshot (ft_subscription ft) (ft_subscription ft') \<and> same_client (ft_client ft) (ft_client ft') \<and>
     (r = Inr () \<longrightarrow> (\<exists>pages. pages \<noteq> [] \<and> sp_section ` set pages = {sec} \<and> fetched pages ft ft'
        \<and> host_gave conn (ft_client ft) pages [] (ft_client ft')))"
proof (induction conn sec ft arbitrary: r ft' rule: fetch_section.induct)
  case (1 conn sec ft)
  obtain q ft1 where q: "fetch_page conn (SeTransportAt (lit ''snapshot '' @ section_name sec)) sec ft = (q, ft1)"
    by (cases "fetch_page conn (SeTransportAt (lit ''snapshot '' @ section_name sec)) sec ft")
  note step = fetch_page_step[OF q]
  show ?case
  proof (cases q)
    case (Inl e)
    then show ?thesis using "1.prems" q step by (auto simp: fetch_section.simps)
  next
    case (Inr cursor)
    then obtain page where page: "sp_section page = sec" "fetched [page] ft ft1"
      "host_gave conn (ft_client ft) [page] [] (ft_client ft1)" using step by blast
    show ?thesis
    proof (cases cursor)
      case None
      then show ?thesis using "1.prems" q step page Inr by (auto simp: fetch_section.simps intro!: exI[of _ "[page]"])
    next
      case (Some c)
      let ?ft = "ft1 \<lparr> ft_resume_cursor := Some c \<rparr>"
      have "fetch_section conn sec ?ft = (r, ft')" using "1.prems" q Inr Some by (simp add: fetch_section.simps[of conn sec ft])
      note ih = "1.IH"[OF q[symmetric] Inr Some this]
      have first: "fetched [page] ft ?ft" using page(2) by simp
      have "\<exists>pages. pages \<noteq> [] \<and> sp_section ` set pages = {sec} \<and> fetched pages ft ft'
          \<and> host_gave conn (ft_client ft) pages [] (ft_client ft')" if ok: "r = Inr ()"
      proof -
        obtain pages where more_pages: "sp_section ` set pages = {sec}" "fetched pages ?ft ft'" "host_gave conn (ft_client ?ft) pages [] (ft_client ft')"
          using ih ok by blast
        have "host_gave conn (ft_client ft) ([page] @ pages) ([] @ []) (ft_client ft')"
          by (rule host_gave_trans[OF page(3)]) (use more_pages(3) in simp)
        then show ?thesis using fetched_trans[OF first more_pages(2)] more_pages(1) page(1) by (intro exI[of _ "page # pages"]) auto
      qed
      then show ?thesis using ih step by (auto intro: only_snapshot_trans same_client_trans)
    qed
  qed
qed

lemma fetch_sections_step:
  "fetch_sections conn secs ft = (r, ft') \<Longrightarrow>
     only_snapshot (ft_subscription ft) (ft_subscription ft') \<and> same_client (ft_client ft) (ft_client ft') \<and>
     (r = Inr () \<longrightarrow> (\<exists>pages. sp_section ` set pages = set secs \<and> fetched pages ft ft'
        \<and> host_gave conn (ft_client ft) pages [] (ft_client ft')))"
proof (induction secs arbitrary: ft)
  case (Cons sec secs)
  let ?ft = "ft \<lparr> ft_resume_cursor := None, ft_section_started := False \<rparr>"
  obtain q ft1 where q: "fetch_section conn sec ?ft = (q, ft1)" by (cases "fetch_section conn sec ?ft")
  note step = fetch_section_step[OF q]
  show ?case
  proof (cases q)
    case (Inl e)
    then show ?thesis using Cons.prems q step by auto
  next
    case (Inr u)
    then obtain pages where pages: "sp_section ` set pages = {sec}" "fetched pages ?ft ft1"
      "host_gave conn (ft_client ft) pages [] (ft_client ft1)" using step by auto
    have next_step: "fetch_sections conn secs ft1 = (r, ft')" using Cons.prems q Inr by simp
    note ih = Cons.IH[OF next_step]
    have "fetched pages ft ft1" using fetched_trans[OF fetched_Nil pages(2)] by simp
    then have "\<exists>ps. sp_section ` set ps = set (sec # secs) \<and> fetched ps ft ft' \<and> host_gave conn (ft_client ft) ps [] (ft_client ft')"
      if ok: "r = Inr ()"
    proof -
      obtain qs where qs: "sp_section ` set qs = set secs" "fetched qs ft1 ft'" "host_gave conn (ft_client ft1) qs [] (ft_client ft')"
        using ih ok by blast
      then show ?thesis using fetched_trans[OF \<open>fetched pages ft ft1\<close> qs(2)] pages(1) host_gave_trans[OF pages(3) qs(3)]
        by (intro exI[of _ "pages @ qs"]) auto
    qed
    then show ?thesis using ih step by (auto intro: only_snapshot_trans same_client_trans)
  qed
qed (use fetched_Nil[of ft' "ft_section_started ft'" "ft_resume_cursor ft'"] in \<open>auto intro!: exI[of _ "[]"] host_gave_none\<close>)

section \<open>What a synchronization installs\<close>

lemma release_snapshot_step:
  assumes "release_snapshot_if_owned conn sb h = (r, sb', h')"
  shows "only_snapshot sb sb' \<and> same_client h h' \<and> (r = Inr () \<longrightarrow> sb_snapshot_id sb' = None \<and> host_gave conn h [] [] h')"
proof (cases "sb_snapshot_id sb")
  case None
  then show ?thesis using assms host_gave_none by (auto simp: release_snapshot_if_owned_def)
next
  case (Some i)
  obtain q h1 where q: "release_snapshot conn i h = (q, h1)" by (cases "release_snapshot conn i h")
  then have "same_client h h1" using gated_query_same by (auto simp: release_snapshot_def release_snapshot_scoped_def)
  then show ?thesis using assms Some q snapshot_release_given[of conn i h]
    by (cases q; cases "projr q") (auto simp: release_snapshot_if_owned_def split: if_splits)
qed

lemma release_replay_step:
  assumes "release_event_replay_if_owned conn sb h = (r, sb', h')"
  shows "(\<exists>i. sb' = sb \<lparr> sb_subscription_id := i \<rparr>) \<and> same_client h h' \<and>
    (r = Inr () \<longrightarrow> sb_subscription_id sb' = None \<and> host_gave conn h [] [] h')"
proof (cases "sb_subscription_id sb")
  case None
  then show ?thesis using assms host_gave_none by (auto simp: release_event_replay_if_owned_def intro!: exI[of _ "sb_subscription_id sb"])
next
  case (Some i)
  obtain q h1 where q: "release_event_replay conn i h = (q, h1)" by (cases "release_event_replay conn i h")
  have keep: "\<exists>i. sb = sb \<lparr> sb_subscription_id := i \<rparr>" by (rule exI[of _ "sb_subscription_id sb"]) simp
  show ?thesis using assms Some q release_replay_same[OF q] keep replay_release_given[of conn i h]
    by (cases q; cases "projr q") (auto simp: release_event_replay_if_owned_def split: if_splits)
qed

definition only_handles :: "client_subscription \<Rightarrow> client_subscription \<Rightarrow> bool" where
  "only_handles sb sb' \<longleftrightarrow> (\<exists>i j. sb' = sb \<lparr> sb_subscription_id := i, sb_snapshot_id := j \<rparr>)"

lemma handles_step:
  assumes "release_event_replay_if_owned conn sb h = (r1, sb1, h1)" "release_snapshot_if_owned conn sb1 h1 = (r2, sb2, h2)"
  shows "only_handles sb sb2 \<and> same_client h h2 \<and> (r2 = Inr () \<longrightarrow> sb_snapshot_id sb2 = None)
    \<and> (r1 = Inr () \<longrightarrow> sb_subscription_id sb2 = None)"
proof -
  obtain i where i: "sb1 = sb \<lparr> sb_subscription_id := i \<rparr>" "same_client h h1" "r1 = Inr () \<longrightarrow> sb_subscription_id sb1 = None"
    using release_replay_step[OF assms(1)] by blast
  obtain j where j: "sb2 = sb1 \<lparr> sb_snapshot_id := j \<rparr>" "same_client h1 h2" "r2 = Inr () \<longrightarrow> sb_snapshot_id sb2 = None"
    using release_snapshot_step[OF assms(2)] unfolding only_snapshot_def by blast
  show ?thesis using i j same_client_trans[OF i(2) j(2)] by (auto simp: only_handles_def)
qed

lemma cleanup_step:
  assumes "best_effort_cleanup conn sb h = (e, sb', h')"
  shows "only_handles sb sb' \<and> same_client h h'"
proof -
  obtain r1 sb1 h1 where r1: "release_event_replay_if_owned conn sb h = (r1, sb1, h1)" by (metis prod_cases3)
  obtain r2 sb2 h2 where r2: "release_snapshot_if_owned conn sb1 h1 = (r2, sb2, h2)" by (metis prod_cases3)
  show ?thesis using handles_step[OF r1 r2] assms by (simp add: best_effort_cleanup_def r1 r2)
qed

lemma release_owned_step:
  assumes "release_owned conn sb h = (r, sb', h')"
  shows "same_client h h' \<and> (\<exists>i j s. sb' = sb \<lparr> sb_subscription_id := i, sb_snapshot_id := j, sb_state := s \<rparr>
      \<and> (s = SubNeedsResync \<or> s = sb_state sb) \<and> (r = Inr () \<longrightarrow> s = sb_state sb \<and> i = None \<and> j = None \<and> host_gave conn h [] [] h'))"
proof -
  obtain r1 sb1 h1 where r1: "release_event_replay_if_owned conn sb h = (r1, sb1, h1)" by (metis prod_cases3)
  obtain i where i: "sb1 = sb \<lparr> sb_subscription_id := i \<rparr>" "same_client h h1" "r1 = Inr () \<longrightarrow> i = None \<and> host_gave conn h [] [] h1"
    using release_replay_step[OF r1] by auto
  show ?thesis
  proof (cases r1)
    case (Inl e)
    then have "sb' = sb \<lparr> sb_subscription_id := i, sb_snapshot_id := sb_snapshot_id sb, sb_state := SubNeedsResync \<rparr>" "h' = h1" "r = Inl e"
      using assms i(1) by (simp_all add: release_owned_def r1)
    then show ?thesis using i(2) by blast
  next
    case (Inr u)
    obtain r2 sb2 h2 where r2: "release_snapshot_if_owned conn sb1 h1 = (r2, sb2, h2)" by (metis prod_cases3)
    obtain j where j: "sb2 = sb1 \<lparr> sb_snapshot_id := j \<rparr>" "same_client h1 h2" "r2 = Inr () \<longrightarrow> j = None \<and> host_gave conn h1 [] [] h2"
      using release_snapshot_step[OF r2] by (auto simp: only_snapshot_def)
    have same: "same_client h h2" by (rule same_client_trans[OF i(2) j(2)])
    show ?thesis
    proof (cases r2)
      case (Inl e)
      then have "sb' = sb \<lparr> sb_subscription_id := i, sb_snapshot_id := j, sb_state := SubNeedsResync \<rparr>" "h' = h2" "r = Inl e"
        using assms Inr i(1) j(1) r1 r2[unfolded i(1)] by (simp_all add: release_owned_def)
      then show ?thesis using same by blast
    next
      case (Inr v)
      then have "sb' = sb2" "h' = h2" "r = Inr ()"
        using assms \<open>r1 = Inr u\<close> i(1) j(1) r1 r2[unfolded i(1)] by (simp_all add: release_owned_def)
      moreover have "sb2 = sb \<lparr> sb_subscription_id := i, sb_snapshot_id := j, sb_state := sb_state sb \<rparr>"
        by (simp add: i(1) j(1))
      moreover have "i = None" "j = None" using i(3) j(3) Inr \<open>r1 = Inr u\<close> by simp_all
      moreover have "host_gave conn h [] [] h2"
        using host_gave_trans[of conn h "[]" "[]" h1 "[]" "[]" h2] i(3) j(3) Inr \<open>r1 = Inr u\<close> by simp
      ultimately show ?thesis using same by blast
    qed
  qed
qed

lemma replay_loop_step:
  "replay_loop x env conn batch m sb h = (r, sb', h') \<Longrightarrow> ring sb \<Longrightarrow>
     ring sb' \<and> sb_model sb' = sb_model sb \<and> sb_subscription_id sb' = sb_subscription_id sb
     \<and> sb_snapshot_id sb' = sb_snapshot_id sb \<and> same_client h h' \<and>
     (\<forall>m'. r = Inr m' \<longrightarrow> sb_state sb' = sb_state sb \<and>
        (\<exists>pages. hd pages = eb_page batch \<and> cursored pages \<and> try_fold (apply_replay_page x env) pages m = Inr m'
           \<and> host_gave conn h [] (tl pages) h' \<and> sb_pending_replay_events sb' = sb_pending_replay_events sb @ concat (map ep_events pages)))"
proof (induction x env conn batch m sb h arbitrary: r sb' h' rule: replay_loop.induct)
  case (1 x env conn batch m sb h)
  obtain q sb1 where q: "queue_replay_events (ep_events (eb_page batch)) sb = (q, sb1)" by (cases "queue_replay_events (ep_events (eb_page batch)) sb")
  note queued = queue_events_step[OF q "1.prems"(2)]
  show ?case
  proof (cases q)
    case (Inl e)
    then show ?thesis using "1.prems" q queued by (auto simp: replay_loop.simps)
  next
    case Q: (Inr u)
    show ?thesis
    proof (cases "apply_replay_page x env (eb_page batch) m")
      case (Inl e)
      then show ?thesis using "1.prems" q Q queued by (auto simp: replay_loop.simps)
    next
      case M: (Inr m1)
      show ?thesis
      proof (cases "ep_next_cursor (eb_page batch)")
        case None
        then show ?thesis using "1.prems" q Q queued M by (auto simp: replay_loop.simps intro!: exI[of _ "[eb_page batch]"] host_gave_none)
      next
        case C: (Some cursor)
        obtain c h1 where c: "continue_event_replay conn (eb_subscription_id batch) cursor h = (c, h1)"
          by (cases "continue_event_replay conn (eb_subscription_id batch) cursor h")
        have same: "same_client h h1" using c gated_query_same by (auto simp: continue_event_replay_def)
        show ?thesis
        proof (cases "\<exists>batch'. c = Inr (Inr batch') \<and> Some (eb_subscription_id batch') = sb_subscription_id sb1")
          case True
          then obtain batch' where b: "c = Inr (Inr batch')" "Some (eb_subscription_id batch') = sb_subscription_id sb1" by blast
          then have loop: "replay_loop x env conn batch' m1 sb1 h1 = (r, sb', h')"
            using "1.prems"(1) q Q M C c by (simp add: replay_loop.simps[of x env conn batch])
          have bb: "\<not> Some (eb_subscription_id batch') \<noteq> sb_subscription_id sb1" using b(2) by simp
          note ih = "1.IH"[OF q[symmetric] Q M C c[symmetric] b(1) refl bb loop conjunct1[OF queued]]
          have given: "host_gave conn h [] [eb_page batch'] h1" using continuation_given c b(1) by blast
          have "\<exists>pages. hd pages = eb_page batch \<and> cursored pages \<and> try_fold (apply_replay_page x env) pages m = Inr m'
              \<and> host_gave conn h [] (tl pages) h' \<and> sb_pending_replay_events sb' = sb_pending_replay_events sb @ concat (map ep_events pages)" if r: "r = Inr m'" for m'
          proof -
            obtain pages where p: "cursored pages" "try_fold (apply_replay_page x env) pages m1 = Inr m'"
              "sb_pending_replay_events sb' = sb_pending_replay_events sb1 @ concat (map ep_events pages)"
              "hd pages = eb_page batch'" "host_gave conn h1 [] (tl pages) h'" using ih r by blast
            have "pages = eb_page batch' # tl pages" using p(1,4) by (cases pages) simp_all
            then have "host_gave conn h [] pages h'" using host_gave_trans[OF given p(5)] by simp
            then show ?thesis using queued Q M C p
              by (intro exI[of _ "eb_page batch # pages"]) (cases pages; simp)
          qed
          then show ?thesis using ih queued Q same by (auto intro: same_client_trans)
        next
          case False
          then have "sb' = sb1 \<and> h' = h1 \<and> (\<exists>e. r = Inl e)" using "1.prems"(1) q Q M C c
            by (cases c; cases "projr c") (auto simp: replay_loop.simps[of x env conn batch] split: if_splits)
          then show ?thesis using queued same by auto
        qed
      qed
    qed
  qed
qed

text \<open>A model and its pending events, as a snapshot in pages and a replay in pages give them.\<close>

definition synchronized ::
  "ext \<Rightarrow> index_env \<Rightarrow> snapshot_section list \<Rightarrow> snapshot_page list \<Rightarrow> event_page list \<Rightarrow> client_model \<Rightarrow> client_model \<Rightarrow> bool" where
  "synchronized x env secs pages replay m0 m \<longleftrightarrow>
     (\<exists>b. ingest_pages pages builder_new = (Inr (), b) \<and> finish env b = Inr m0) \<and> sp_section ` set pages = set secs \<and>
     (\<forall>p \<in> set pages. sp_through_sequence p = cm_last_applied_sequence m0) \<and>
     cursored replay \<and> ep_after_sequence (hd replay) = cm_last_applied_sequence m0 \<and>
     try_fold (apply_replay_page x env) replay m0 = Inr m"

lemma ring_handles [simp]:
  "ring (sb \<lparr> sb_subscription_id := i \<rparr>) = ring sb" "ring (sb \<lparr> sb_snapshot_id := j \<rparr>) = ring sb"
  "ring (sb \<lparr> sb_state := s \<rparr>) = ring sb" "ring (sb \<lparr> sb_model := m \<rparr>) = ring sb"
  by (simp_all add: ring_def)

lemma synchronize_replay_step:
  assumes "synchronize_replay x env conn through m0 sb h = (r, sb', h')" "ring sb"
  shows "ring sb' \<and> same_client h h' \<and> (r \<noteq> Inr () \<longrightarrow> sb_model sb' = sb_model sb) \<and>
    (r = Inr () \<longrightarrow> sb_state sb' = SubReady \<and> sb_subscription_id sb' \<noteq> None \<and> sb_snapshot_id sb' = None \<and>
       (\<exists>replay m. sb_model sb' = Some m \<and> host_gave conn h [] replay h' \<and> cursored replay \<and> ep_after_sequence (hd replay) = through
          \<and> try_fold (apply_replay_page x env) replay m0 = Inr m
          \<and> sb_pending_replay_events sb' = sb_pending_replay_events sb @ concat (map ep_events replay)))"
proof -
  obtain q h1 where q: "open_event_replay conn through h = (q, h1)" by (cases "open_event_replay conn through h")
  have same1: "same_client h h1" using q gated_query_same by (auto simp: open_event_replay_def)
  show ?thesis
  proof (cases "\<exists>open. q = Inr (Inr open)")
    case False
    then show ?thesis using assms q same1 by (cases q; cases "projr q") (auto simp: synchronize_replay_def)
  next
    case True
    then obtain batch where batch: "q = Inr (Inr batch)" by blast
    have after: "ep_after_sequence (eb_page batch) = through" using open_replay_correlated q batch by blast
    let ?sb = "sb \<lparr> sb_subscription_id := Some (eb_subscription_id batch) \<rparr>"
    obtain r2 sb2 h2 where r2: "release_snapshot_if_owned conn ?sb h1 = (r2, sb2, h2)" by (metis prod_cases3)
    have opened: "host_gave conn h [] [eb_page batch] h1" using opening_given q batch by blast
    obtain j where j: "sb2 = ?sb \<lparr> sb_snapshot_id := j \<rparr>" "same_client h1 h2"
      "r2 = Inr () \<longrightarrow> sb_snapshot_id sb2 = None \<and> host_gave conn h1 [] [] h2"
      using release_snapshot_step[OF r2] by (auto simp: only_snapshot_def)
    have ring2: "ring sb2" using assms(2) by (simp add: j(1))
    have same2: "same_client h h2" by (rule same_client_trans[OF same1 j(2)])
    show ?thesis
    proof (cases r2)
      case (Inl e)
      then show ?thesis using assms q batch r2 ring2 same2 j(1) by (auto simp: synchronize_replay_def)
    next
      case (Inr u)
      obtain r3 sb3 h3 where r3: "replay_loop x env conn batch m0 sb2 h2 = (r3, sb3, h3)" by (metis prod_cases3)
      note loop = replay_loop_step[OF r3 ring2]
      have same3: "same_client h h3" using loop same2 by (blast intro: same_client_trans)
      show ?thesis
      proof (cases r3)
        case (Inl e)
        then have "r = Inl e" "sb' = sb3" "h' = h3" using assms(1) q batch r2 Inr r3 by (simp_all add: synchronize_replay_def)
        then show ?thesis using loop same3 j(1) by auto
      next
        case M: (Inr m)
        then have out: "r = Inr ()" "sb' = sb3 \<lparr> sb_model := Some m, sb_state := SubReady \<rparr>" "h' = h3"
          using assms(1) q batch r2 Inr r3 by (simp_all add: synchronize_replay_def)
        obtain replay where replay: "hd replay = eb_page batch" "cursored replay" "try_fold (apply_replay_page x env) replay m0 = Inr m"
          "sb_pending_replay_events sb3 = sb_pending_replay_events sb2 @ concat (map ep_events replay)"
          "host_gave conn h2 [] (tl replay) h3"
          using loop M by blast
        have "host_gave conn h [] [eb_page batch] h2" using host_gave_trans[OF opened, of "[]" "[]" h2] j(3) Inr by simp
        then have "host_gave conn h [] (eb_page batch # tl replay) h3" using host_gave_trans[OF _ replay(5)] by fastforce
        moreover have "eb_page batch # tl replay = replay" using replay(1,2) by (cases replay) simp_all
        ultimately show ?thesis using out loop same3 after j Inr replay by auto
      qed
    qed
  qed
qed

lemma finish_through: "finish env b = Inr m \<Longrightarrow> mb_through_sequence b = Some (cm_last_applied_sequence m)"
  by (auto simp: finish_def Let_def finish_assembled_def result_simps split: if_splits prod.splits)

lemma synchronize_inner_step:
  assumes "synchronize_inner x env conn sb h = (r, sb', h')" "ring sb"
  shows "ring sb' \<and> same_client h h' \<and> (r \<noteq> Inr () \<longrightarrow> sb_model sb' = sb_model sb) \<and>
    (r = Inr () \<longrightarrow> sb_state sb' = SubReady \<and> sb_subscription_id sb' \<noteq> None \<and> sb_snapshot_id sb' = None \<and>
       (\<exists>pages replay m0 m. sb_model sb' = Some m \<and> host_gave conn h pages replay h'
          \<and> synchronized x env (snapshot_sections (contains_capability (hc_granted h) BrowserProjection) False) pages replay m0 m
          \<and> sb_pending_replay_events sb' = sb_pending_replay_events sb @ concat (map ep_events replay)))"
proof -
  let ?secs = "snapshot_sections (contains_capability (hc_granted h) BrowserProjection) False"
  obtain q ft where q: "fetch_sections conn ?secs (fetching_new sb h) = (q, ft)" by (cases "fetch_sections conn ?secs (fetching_new sb h)")
  note pages = fetch_sections_step[OF q]
  obtain i where i: "ft_subscription ft = sb \<lparr> sb_snapshot_id := i \<rparr>" using pages by (auto simp: only_snapshot_def fetching_new_def)
  have same: "same_client h (ft_client ft)" using pages by (simp add: fetching_new_def)
  have ring1: "ring (ft_subscription ft)" using assms(2) by (simp add: i)
  show ?thesis
  proof (cases "\<exists>m0 through. q = Inr () \<and> finish env (ft_builder ft) = Inr m0 \<and> ft_through_sequence ft = Some through
      \<and> cm_last_applied_sequence m0 = through")
    case False
    then have "sb' = ft_subscription ft \<and> h' = ft_client ft \<and> (\<exists>e. r = Inl e)" using assms(1) q
      by (cases q; cases "finish env (ft_builder ft)"; cases "ft_through_sequence ft") (auto simp: synchronize_inner_def split: if_splits)
    then show ?thesis using same ring1 i by auto
  next
    case True
    then obtain m0 where m0: "q = Inr ()" "finish env (ft_builder ft) = Inr m0" "ft_through_sequence ft = Some (cm_last_applied_sequence m0)" by blast
    have rest: "synchronize_replay x env conn (cm_last_applied_sequence m0) m0 (ft_subscription ft) (ft_client ft) = (r, sb', h')"
      using assms(1) q m0 by (simp add: synchronize_inner_def)
    note step = synchronize_replay_step[OF rest ring1]
    obtain ps where ps: "sp_section ` set ps = set ?secs" "fetched ps (fetching_new sb h) ft"
      "host_gave conn h ps [] (ft_client ft)" using pages m0(1) by (auto simp: fetching_new_def)
    have ing: "ingest_pages ps builder_new = (Inr (), ft_builder ft)" "\<forall>p \<in> set ps. sp_through_sequence p = cm_last_applied_sequence m0"
      using ps(2) m0(3) by (auto simp: fetched_def fetching_new_def)
    have "\<exists>pages replay m0 m. sb_model sb' = Some m \<and> host_gave conn h pages replay h' \<and> synchronized x env ?secs pages replay m0 m
        \<and> sb_pending_replay_events sb' = sb_pending_replay_events sb @ concat (map ep_events replay)" if "r = Inr ()"
    proof -
      from step \<open>r = Inr ()\<close> obtain replay m where rm: "sb_model sb' = Some m" "host_gave conn (ft_client ft) [] replay h'" "cursored replay" "ep_after_sequence (hd replay) = cm_last_applied_sequence m0"
        "try_fold (apply_replay_page x env) replay m0 = Inr m"
        "sb_pending_replay_events sb' = sb_pending_replay_events (ft_subscription ft) @ concat (map ep_events replay)" by blast
      have "synchronized x env ?secs ps replay m0 m" unfolding synchronized_def using ps(1) ing m0(2) rm by blast
      then show ?thesis using rm i host_gave_trans[OF ps(3) rm(2)] by auto
    qed
    then show ?thesis using step same i by (auto intro: same_client_trans)
  qed
qed

lemma ingest_pages_count:
  assumes "ingest_pages ps b = (Inr u, c)"
  shows "mb_page_count c = mb_page_count b + length ps \<and> (ps = [] \<or> mb_page_count c \<le> MAX_CLIENT_MODEL_PAGES)"
  using assms
proof (induction ps arbitrary: b)
  case (Cons p ps)
  then obtain v b1 where b1: "ingest_page p b = (Inr v, b1)" "ingest_pages ps b1 = (Inr u, c)" by (auto simp: then_build_Inr)
  then show ?case using Cons.IH[OF b1(2)] ingest_page_count[OF b1(1)] by auto
qed simp

lemma replay_pages_count:
  assumes "try_fold (apply_replay_page x env) ps m = Inr m'" "cursored ps"
  shows "cm_replay_page_count m + length ps \<le> MAX_CLIENT_REPLAY_PAGES"
  using assms
proof (induction ps arbitrary: m rule: cursored.induct)
  case (2 p)
  then obtain m1 m2 where s: "pin_replay p (model_clone env m) = Inr m1" "count_replay_page p m1 = Inr m2"
    by (auto simp: apply_replay_page_def apply_replay_page_inner_def result_simps split: if_splits)
  have "cm_replay_page_count m1 = cm_replay_page_count m"
    using s(1) by (auto simp: pin_replay_def model_clone_def split: option.splits if_splits)
  moreover have "Suc (cm_replay_page_count m1) \<le> MAX_CLIENT_REPLAY_PAGES"
    using s(2) by (auto simp: count_replay_page_def result_simps Let_def split: option.splits if_splits)
  ultimately show ?case by simp
next
  case (3 p q ps)
  obtain m1 where m1: "apply_replay_page x env p m = Inr m1" "try_fold (apply_replay_page x env) (q # ps) m1 = Inr m'"
    using "3.prems"(1) by (simp only: try_fold.simps rbind_Inr_iff) blast
  then show ?case using "3.IH"[OF m1(2)] replay_page_counts[OF m1(1)] "3.prems"(2) by simp
qed simp

lemma finish_starts_replay: "finish env b = Inr m \<Longrightarrow> cm_replay_page_count m = 0"
  by (auto simp: finish_def Let_def finish_assembled_def result_simps split: if_splits prod.splits)

lemma synchronize_step:
  assumes "synchronize x env conn sb h = (r, sb', h')" "ring sb"
  shows "ring sb' \<and> same_client h h' \<and>
    (r \<noteq> Inr () \<longrightarrow> sb_model sb' = sb_model sb \<and> (sb' = sb \<or> sb_state sb' = SubNeedsResync)) \<and>
    (r = Inr () \<longrightarrow> sb_state sb' = SubReady \<and> sb_subscription_id sb' \<noteq> None \<and> sb_snapshot_id sb' = None \<and>
       (\<exists>pages replay m0 m. sb_model sb' = Some m \<and> host_gave conn h pages replay h'
          \<and> synchronized x env (snapshot_sections (contains_capability (hc_granted h) BrowserProjection) False) pages replay m0 m
          \<and> sb_pending_replay_events sb' = concat (map ep_events replay)))"
proof (cases "sb_state sb = SubReady \<or> sb_state sb = SubReleased \<or> \<not> contains_capability (hc_granted h) PagedSnapshots
    \<or> \<not> contains_capability (hc_granted h) EventReplay")
  case True
  then have "sb' = sb \<and> h' = h \<and> (\<exists>e. r = Inl e)" using assms(1) by (auto simp: synchronize_def split: if_splits)
  then show ?thesis using assms(2) by auto
next
  case False
  obtain r1 sb1 h1 where r1: "release_owned conn (sb \<lparr> sb_state := SubPending \<rparr>) h = (r1, sb1, h1)" by (metis prod_cases3)
  obtain i j s where own: "same_client h h1" "sb1 = sb \<lparr> sb_subscription_id := i, sb_snapshot_id := j, sb_state := s \<rparr>"
    using release_owned_step[OF r1] by auto
  show ?thesis
  proof (cases r1)
    case (Inl e)
    then have "r = Inl e" "sb' = sb1" "h' = h1" using assms(1) False r1 by (simp_all add: synchronize_def)
    moreover have "sb_state sb1 = SubNeedsResync" using r1 Inl by (auto simp: release_owned_def split: prod.splits sum.splits)
    ultimately show ?thesis using own assms(2) by auto
  next
    case (Inr u)
    let ?sb = "sb1 \<lparr> sb_seen_event_ids := [], sb_seen_event_order := [], sb_pending_replay_events := [] \<rparr>"
    have ring1: "ring ?sb" by (simp add: ring_def)
    obtain r2 sb2 h2 where r2: "synchronize_inner x env conn ?sb h1 = (r2, sb2, h2)" by (metis prod_cases3)
    note inner = synchronize_inner_step[OF r2 ring1]
    have granted: "hc_granted h1 = hc_granted h" using same_client_fields[OF own(1)] by simp
    show ?thesis
    proof (cases r2)
      case (Inl e)
      obtain o3 sb3 h3 where c: "best_effort_cleanup conn (sb2 \<lparr> sb_state := SubNeedsResync, sb_pending_replay_events := [] \<rparr>) h2 = (o3, sb3, h3)"
        by (metis prod_cases3)
      have out: "r = Inl e" "sb' = sb3" "h' = h3" using assms(1) False r1 Inr r2 Inl c by (simp_all add: synchronize_def)
      obtain k l where kl: "sb3 = sb2 \<lparr> sb_state := SubNeedsResync, sb_pending_replay_events := [], sb_subscription_id := k, sb_snapshot_id := l \<rparr>"
        "same_client h2 h3" using cleanup_step[OF c] by (auto simp: only_handles_def)
      have "same_client h h3" using own(1) inner kl(2) by (blast intro: same_client_trans)
      then show ?thesis using out kl(1) inner Inl own(2) by (auto simp: ring_def)
    next
      case (Inr v)
      then have "r = Inr ()" "sb' = sb2" "h' = h2" using assms(1) False r1 \<open>r1 = Inr u\<close> r2 by (simp_all add: synchronize_def)
      moreover have "host_gave conn h [] [] h1" using release_owned_step[OF r1] \<open>r1 = Inr u\<close> by auto
      then have "host_gave conn h1 pages replay h2 \<Longrightarrow> host_gave conn h pages replay h2" for pages replay
        using host_gave_trans by fastforce
      ultimately show ?thesis using inner Inr granted own(1) by (auto intro: same_client_trans) blast
    qed
  qed
qed

section \<open>The other methods\<close>

lemma preview_loop_step:
  "preview_loop conn ft = r \<Longrightarrow>
     (case r of
        Inl (e, sb, h) \<Rightarrow> same_client (ft_client ft) h \<and> (\<exists>s. only_handles ((ft_subscription ft) \<lparr> sb_state := s \<rparr>) sb \<and> (s = sb_state (ft_subscription ft) \<or> s = SubNeedsResync))
      | Inr (p, ft') \<Rightarrow> same_client (ft_client ft) (ft_client ft') \<and> only_snapshot (ft_subscription ft) (ft_subscription ft'))"
proof (induction conn ft arbitrary: r rule: preview_loop.induct)
  case (1 conn ft)
  have keep: "only_handles sb sb" for sb
    unfolding only_handles_def by (rule exI[of _ "sb_subscription_id sb"], rule exI[of _ "sb_snapshot_id sb"]) simp
  show ?case
  proof (cases "ft_section_started ft \<and> ft_snapshot_id ft = None")
    case True
    then have "r = Inl (SeIncompleteSnapshot, ft_subscription ft, ft_client ft)" using "1.prems" by (simp add: preview_loop.simps)
    then show ?thesis using keep[of "(ft_subscription ft) \<lparr> sb_state := sb_state (ft_subscription ft) \<rparr>"]
      by (auto intro!: exI[of _ "sb_state (ft_subscription ft)"])
  next
    case False
    obtain q ft1 where q: "fetch_page conn SeTransport SecTasks ft = (q, ft1)" by (cases "fetch_page conn SeTransport SecTasks ft")
    note step = fetch_page_step[OF q]
    obtain i where i: "ft_subscription ft1 = (ft_subscription ft) \<lparr> sb_snapshot_id := i \<rparr>" using step by (auto simp: only_snapshot_def)
    have fails: ?thesis if "r = Inl (fail_preview conn e ft1)" for e
    proof -
      obtain o3 sb3 h3 where c: "best_effort_cleanup conn ((ft_subscription ft1) \<lparr> sb_state := SubNeedsResync \<rparr>) (ft_client ft1) = (o3, sb3, h3)"
        by (metis prod_cases3)
      from cleanup_step[OF c] have c1: "same_client (ft_client ft1) h3"
        "only_handles ((ft_subscription ft) \<lparr> sb_state := SubNeedsResync \<rparr>) sb3" by (auto simp: only_handles_def i)
      have "same_client (ft_client ft) h3" using step c1(1) by (blast intro: same_client_trans)
      then show ?thesis using that c c1(2) by (auto simp: fail_preview_def intro!: exI[of _ SubNeedsResync])
    qed
    show ?thesis
    proof (cases q)
      case (Inl e)
      then show ?thesis using "1.prems" False q by (intro fails[of e]) (simp add: preview_loop.simps[of conn ft])
    next
      case Q: (Inr cursor)
      show ?thesis
      proof (cases cursor)
        case (Some c)
        have loop: "preview_loop conn (ft1 \<lparr> ft_resume_cursor := Some c \<rparr>) = r"
          using "1.prems" False q Q Some by (simp add: preview_loop.simps[of conn ft])
        note ih = "1.IH"[OF False q[symmetric] Q Some loop]
        show ?thesis
        proof (cases r)
          case (Inl t)
          then show ?thesis using ih step i by (cases t) (auto simp: only_handles_def intro: same_client_trans)
        next
          case (Inr t)
          then show ?thesis using ih step by (cases t) (auto intro: same_client_trans only_snapshot_trans)
        qed
      next
        case None
        show ?thesis
        proof (cases "finish_tasks_preview (ft_builder ft1)")
          case (Inl e)
          then show ?thesis using "1.prems" False q Q None by (intro fails[of "SeModel e"]) (simp add: preview_loop.simps[of conn ft])
        next
          case (Inr p)
          then have "r = Inr (p, ft1)" using "1.prems" False q Q None by (simp add: preview_loop.simps[of conn ft])
          then show ?thesis using step by simp
        qed
      qed
    qed
  qed
qed

lemma preview_step:
  assumes "preview_tasks conn sb h = (r, sb', h')" "ring sb"
  shows "ring sb' \<and> same_client h h' \<and> (sb_model sb' = sb_model sb \<or> sb_model sb' = None) \<and> (sb' = sb \<or> sb_state sb' \<noteq> SubReady)"
proof (cases "sb_state sb = SubReady \<or> sb_state sb = SubReleased \<or> \<not> contains_capability (hc_granted h) PagedSnapshots")
  case True
  then have "sb' = sb \<and> h' = h" using assms(1) by (auto simp: preview_tasks_def split: if_splits)
  then show ?thesis using assms(2) by simp
next
  case False
  obtain r1 sb1 h1 where r1: "release_snapshot_if_owned conn sb h = (r1, sb1, h1)" by (metis prod_cases3)
  obtain j where j: "sb1 = sb \<lparr> sb_snapshot_id := j \<rparr>" "same_client h h1"
    using release_snapshot_step[OF r1] by (auto simp: only_snapshot_def)
  show ?thesis
  proof (cases r1)
    case (Inl e)
    then show ?thesis using assms False r1 j by (auto simp: preview_tasks_def)
  next
    case R1: (Inr u)
    note loop = preview_loop_step[of conn "fetching_new sb1 h1", OF refl]
    show ?thesis
    proof (cases "preview_loop conn (fetching_new sb1 h1)")
      case (Inl t)
      obtain e sb2 h2 where t: "t = (e, sb2, h2)" by (metis prod_cases3)
      then obtain s where s: "same_client h1 h2" "only_handles (sb1 \<lparr> sb_state := s \<rparr>) sb2" "s = sb_state sb1 \<or> s = SubNeedsResync"
        using loop Inl by (auto simp: fetching_new_def)
      have "sb' = sb2" "h' = h2" using assms(1) False r1 R1 Inl t by (simp_all add: preview_tasks_def)
      moreover have "same_client h h2" by (rule same_client_trans[OF j(2) s(1)])
      ultimately show ?thesis using s assms(2) j(1) False by (auto simp: only_handles_def)
    next
      case (Inr t)
      obtain p ft where t: "t = (p, ft)" by (cases t)
      obtain k where k: "ft_subscription ft = sb1 \<lparr> sb_snapshot_id := k \<rparr>" "same_client h1 (ft_client ft)"
        using loop Inr t by (auto simp: fetching_new_def only_snapshot_def)
      obtain r3 sb3 h3 where r3: "release_snapshot_if_owned conn (ft_subscription ft) (ft_client ft) = (r3, sb3, h3)" by (metis prod_cases3)
      obtain l where l: "sb3 = sb \<lparr> sb_snapshot_id := l \<rparr>" "same_client (ft_client ft) h3"
        using release_snapshot_step[OF r3] by (auto simp: only_snapshot_def k(1) j(1))
      have same: "same_client h h3" using j(2) k(2) l(2) by (blast intro: same_client_trans)
      show ?thesis
      proof (cases r3)
        case (Inl e)
        then have "sb' = sb3 \<lparr> sb_state := SubNeedsResync \<rparr>" "h' = h3" using assms(1) False r1 R1 Inr t r3 by (simp_all add: preview_tasks_def)
        then show ?thesis using same assms(2) l(1) by simp
      next
        case R3: (Inr v)
        then have "preview_finish p (ft_through_sequence ft) sb3 h3 = (r, sb', h')" using assms(1) False r1 R1 Inr t r3 by (simp add: preview_tasks_def)
        then show ?thesis using same assms(2) l(1) False
          by (auto simp: preview_finish_def Let_def ring_def split: option.splits if_splits)
      qed
    qed
  qed
qed

section \<open>Live messages\<close>

text \<open>One message applies at most the event it carries, and never to a model that has it.\<close>

definition message_event :: "unsolicited_server_message \<Rightarrow> (subscription_id \<times> domain_event) option" where
  "message_event message = (case message of UsDurableEvent i ev \<Rightarrow> Some (i, ev) | _ \<Rightarrow> None)"

lemma message_event_cases:
  obtains (event) i ev where "message = UsDurableEvent i ev" "message_event message = Some (i, ev)" | (other) "message_event message = None"
  by (cases message) (auto simp: message_event_def)

definition applies_live :: "ext \<Rightarrow> index_env \<Rightarrow> unsolicited_server_message \<Rightarrow> client_subscription \<Rightarrow> client_subscription \<Rightarrow> bool" where
  "applies_live x env message sb sb' \<longleftrightarrow>
     (\<exists>i ev m m'. message_event message = Some (i, ev) \<and> sb_subscription_id sb = Some i \<and> sb_model sb = Some m
        \<and> client_apply_event x env ev m = Inr m' \<and> sb' = (remember_event_id (de_id ev) sb) \<lparr> sb_model := Some m' \<rparr>)"

lemma handle_step:
  assumes "handle_unsolicited_message x env message sb = (r, sb')"
  shows "(\<exists>j. sb' = sb \<or> sb' = sb \<lparr> sb_state := SubNeedsResync \<rparr> \<or> sb' = (remember_event_id j sb) \<lparr> sb_state := SubNeedsResync \<rparr>)
    \<or> sb_state sb = SubReady \<and> applies_live x env message sb sb'"
  using assms
  by (auto simp: handle_unsolicited_message_def not_ready_def handle_durable_event_def handle_resync_required_def needs_resync_def
      Let_def applies_live_def message_event_def split: client_subscription_state.splits option.splits unsolicited_server_message.splits if_splits sum.splits)

lemma live_fields:
  assumes "applies_live x env message sb sb'" "ring sb"
  shows "ring sb'" "sb_state sb' = sb_state sb" "sb_subscription_id sb' = sb_subscription_id sb" "sb_snapshot_id sb' = sb_snapshot_id sb"
    "\<exists>ev m m'. sb_model sb = Some m \<and> sb_model sb' = Some m' \<and> client_apply_event x env ev m = Inr m'"
  using assms remember_ring(1)[OF assms(2)] by (auto simp: applies_live_def)

lemma handle_ready_step:
  assumes "sb_state sb = SubReady" "sb_subscription_id sb = Some i" "sb_model sb = Some m"
    "handle_unsolicited_message x env message sb = (r, sb')"
  shows "sb_state sb' = SubNeedsResync \<and> sb_model sb' = sb_model sb \<or> applies_live x env message sb sb'
    \<or> sb' = sb \<and> (\<forall>j ev. message_event message = Some (j, ev) \<longrightarrow> j = i \<and> de_id ev \<in> set (sb_seen_event_ids sb))"
  using assms
  by (auto simp: handle_unsolicited_message_def not_ready_def handle_durable_event_def handle_resync_required_def needs_resync_def
      Let_def applies_live_def message_event_def split: unsolicited_server_message.splits if_splits sum.splits)

fun deliver_all :: "ext \<Rightarrow> index_env \<Rightarrow> unsolicited_server_message list \<Rightarrow> client_subscription \<Rightarrow> client_subscription" where
  "deliver_all x env [] sb = sb"
| "deliver_all x env (message # messages) sb =
     deliver_all x env messages (snd (handle_unsolicited_message x env message sb))"

definition events_of :: "subscription_id \<Rightarrow> unsolicited_server_message list \<Rightarrow> domain_event list" where
  "events_of i messages =
     List.map_filter (\<lambda>message. case message_event message of Some (j, ev) \<Rightarrow> if j = i then Some ev else None | None \<Rightarrow> None) messages"

lemma deliver_not_ready: "sb_state sb \<noteq> SubReady \<Longrightarrow> deliver_all x env messages sb = sb"
  by (induction messages) (auto simp: handle_unsolicited_message_def not_ready_def split: client_subscription_state.splits)

lemma events_of_Cons:
  "events_of i (message # messages) =
     (case message_event message of Some (j, ev) \<Rightarrow> if j = i then [ev] else [] | None \<Rightarrow> []) @ events_of i messages"
  by (simp add: events_of_def map_filter_Cons split: option.split)

lemma deliver_step:
  assumes "ring sb" "sb_state sb = SubReady" "sb_subscription_id sb = Some i" "sb_model sb = Some m"
  shows "\<exists>evs m'. sb_model (deliver_all x env messages sb) = Some m' \<and> try_fold (client_apply_event x env) evs m = Inr m'
    \<and> subseq evs (events_of i messages) \<and>
    (sb_state (deliver_all x env messages sb) = SubReady \<longrightarrow>
       (\<forall>message j ev. message \<in> set messages \<and> message_event message = Some (j, ev) \<longrightarrow>
          j = i \<and> de_id ev \<in> set (sb_seen_event_ids sb) \<union> de_id ` set evs))"
  using assms
proof (induction messages arbitrary: sb m)
  case Nil
  then show ?case by (intro exI[of _ "[]"]) simp
next
  case (Cons message messages)
  obtain r sb1 where h: "handle_unsolicited_message x env message sb = (r, sb1)" by (cases "handle_unsolicited_message x env message sb")
  from handle_ready_step[OF Cons.prems(2-4) h] consider (resync) "sb_state sb1 = SubNeedsResync" "sb_model sb1 = sb_model sb"
    | (live) "applies_live x env message sb sb1"
    | (seen) "sb1 = sb" "\<forall>j ev. message_event message = Some (j, ev) \<longrightarrow> j = i \<and> de_id ev \<in> set (sb_seen_event_ids sb)" by blast
  then show ?case
  proof cases
    case resync
    then show ?thesis using Cons.prems(4) deliver_not_ready[of sb1] by (intro exI[of _ "[]"] exI[of _ m]) (simp add: h)
  next
    case live
    then obtain ev m1 where ev: "message_event message = Some (i, ev)" "client_apply_event x env ev m = Inr m1"
      "sb1 = (remember_event_id (de_id ev) sb) \<lparr> sb_model := Some m1 \<rparr>"
      using Cons.prems(3,4) by (auto simp: applies_live_def)
    have "sb_model sb1 = Some m1" by (simp add: ev(3))
    note fields = live_fields[OF live Cons.prems(1)]
    obtain evs m' where ih: "sb_model (deliver_all x env messages sb1) = Some m'" "try_fold (client_apply_event x env) evs m1 = Inr m'"
      "subseq evs (events_of i messages)"
      "sb_state (deliver_all x env messages sb1) = SubReady \<longrightarrow>
       (\<forall>message j ev. message \<in> set messages \<and> message_event message = Some (j, ev) \<longrightarrow>
          j = i \<and> de_id ev \<in> set (sb_seen_event_ids sb1) \<union> de_id ` set evs)"
      using Cons.IH[OF fields(1), of m1] fields Cons.prems \<open>sb_model sb1 = Some m1\<close> by metis
    have sub: "set (sb_seen_event_ids sb1) \<subseteq> insert (de_id ev) (set (sb_seen_event_ids sb))"
      using remember_ring(2)[OF Cons.prems(1)] by (simp add: ev(3))
    show ?thesis
    proof (intro exI[of _ "ev # evs"] exI[of _ m'] conjI impI)
      show "try_fold (client_apply_event x env) (ev # evs) m = Inr m'" using ev(2) ih(2) by simp
      show "subseq (ev # evs) (events_of i (message # messages))" using ih(3) ev(1) by (simp add: events_of_Cons)
      assume "sb_state (deliver_all x env (message # messages) sb) = SubReady"
      then have "\<forall>message j ev. message \<in> set messages \<and> message_event message = Some (j, ev) \<longrightarrow>
          j = i \<and> de_id ev \<in> set (sb_seen_event_ids sb1) \<union> de_id ` set evs" using ih(4) by (simp add: h)
      then show "\<forall>message' j ev'. message' \<in> set (message # messages) \<and> message_event message' = Some (j, ev') \<longrightarrow>
          j = i \<and> de_id ev' \<in> set (sb_seen_event_ids sb) \<union> de_id ` set (ev # evs)"
        using sub ev(1) by auto
    qed (simp add: h ih(1))
  next
    case seen
    then obtain evs m' where ih: "sb_model (deliver_all x env messages sb) = Some m'" "try_fold (client_apply_event x env) evs m = Inr m'"
      "subseq evs (events_of i messages)"
      "sb_state (deliver_all x env messages sb) = SubReady \<longrightarrow>
       (\<forall>message j ev. message \<in> set messages \<and> message_event message = Some (j, ev) \<longrightarrow>
          j = i \<and> de_id ev \<in> set (sb_seen_event_ids sb) \<union> de_id ` set evs)"
      using Cons.IH[OF Cons.prems] by blast
    show ?thesis
    proof (intro exI[of _ evs] exI[of _ m'] conjI impI)
      show "subseq evs (events_of i (message # messages))" using ih(3) by (simp add: events_of_Cons subseq_drop_many)
      assume "sb_state (deliver_all x env (message # messages) sb) = SubReady"
      then have "\<forall>message j ev. message \<in> set messages \<and> message_event message = Some (j, ev) \<longrightarrow>
          j = i \<and> de_id ev \<in> set (sb_seen_event_ids sb) \<union> de_id ` set evs" using ih(4) by (simp add: h seen(1))
      then show "\<forall>message' j ev. message' \<in> set (message # messages) \<and> message_event message' = Some (j, ev) \<longrightarrow>
          j = i \<and> de_id ev \<in> set (sb_seen_event_ids sb) \<union> de_id ` set evs"
        using seen(2) by auto
    qed (simp_all add: h seen(1) ih(1,2))
  qed
qed

lemma applied_in_order:
  assumes "try_fold (client_apply_event x env) evs m = Inr m'"
  shows "sorted_wrt (<) (map de_sequence evs) \<and> (\<forall>ev \<in> set evs. cm_last_applied_sequence m < de_sequence ev)"
  using assms
proof (induction evs arbitrary: m)
  case (Cons ev evs)
  then obtain m1 where m1: "client_apply_event x env ev m = Inr m1" "try_fold (client_apply_event x env) evs m1 = Inr m'"
    by (auto simp: result_simps)
  have "cm_last_applied_sequence m < de_sequence ev" "cm_last_applied_sequence m1 = de_sequence ev"
    using m1(1) by (auto simp: client_apply_event_def apply_one_event_def result_simps commit_staged_def Let_def split: if_splits)
  then show ?case using Cons.IH[OF m1(2)] by fastforce
qed simp

section \<open>The session\<close>

text \<open>Every subscription the methods reach, over one host after another and any interleaving of them.\<close>

inductive session :: "ext \<Rightarrow> index_env \<Rightarrow> ('c, 'h) connection_ops \<Rightarrow> client_subscription \<Rightarrow> bool" for x env conn where
  opened: "session x env conn subscription_new"
| previewed: "session x env conn sb \<Longrightarrow> preview_tasks conn sb h = (r, sb', h') \<Longrightarrow> session x env conn sb'"
| synchronizes: "session x env conn sb \<Longrightarrow> synchronize x env conn sb h = (r, sb', h') \<Longrightarrow> session x env conn sb'"
| drained: "session x env conn sb \<Longrightarrow> take_replay_events sb = (evs, sb') \<Longrightarrow> session x env conn sb'"
| received: "session x env conn sb \<Longrightarrow> recv_and_apply x env conn sb h = (r, sb', h') \<Longrightarrow> session x env conn sb'"
| handled: "session x env conn sb \<Longrightarrow> handle_unsolicited_message x env message sb = (r, sb') \<Longrightarrow> session x env conn sb'"
| transport_failed: "session x env conn sb \<Longrightarrow> session x env conn (observe_recv_transport_failure sb)"
| loads_detail: "session x env conn sb \<Longrightarrow> load_task_detail fuel env conn task sb h = Some (r, sb', h') \<Longrightarrow> session x env conn sb'"
| releases: "session x env conn sb \<Longrightarrow> subscription_release conn sb h = (r, sb', h') \<Longrightarrow> session x env conn sb'"
| retired: "session x env conn sb \<Longrightarrow> session x env conn (retire_without_transport sb)"

definition session_ok :: "ext \<Rightarrow> index_env \<Rightarrow> client_subscription \<Rightarrow> bool" where
  "session_ok x env sb \<longleftrightarrow> ring sb \<and> (\<forall>m. sb_model sb = Some m \<longrightarrow> client_run x env m) \<and>
     (sb_state sb = SubReady \<longrightarrow> sb_model sb \<noteq> None \<and> sb_subscription_id sb \<noteq> None \<and> sb_snapshot_id sb = None)"

lemma replayed_run: "try_fold (apply_replay_page x env) ps m = Inr m' \<Longrightarrow> client_run x env m \<Longrightarrow> client_run x env m'"
  by (induction ps arbitrary: m) (auto simp: result_simps intro: client_run.replayed)

lemma synchronized_run: "synchronized x env secs pages replay m0 m \<Longrightarrow> client_run x env m"
  by (auto simp: synchronized_def intro: replayed_run client_run.assembled)

lemma synchronize_ok:
  assumes "session_ok x env sb" "synchronize x env conn sb h = (r, sb', h')"
  shows "session_ok x env sb'"
proof -
  have "ring sb" using assms(1) by (simp add: session_ok_def)
  note step = synchronize_step[OF assms(2) this]
  show ?thesis
  proof (cases "r = Inr ()")
    case True
    then show ?thesis using step synchronized_run by (auto simp: session_ok_def)
  next
    case False
    then show ?thesis using step assms(1) by (auto simp: session_ok_def)
  qed
qed

lemma handle_ok:
  assumes "session_ok x env sb" "handle_unsolicited_message x env message sb = (r, sb')"
  shows "session_ok x env sb'"
proof -
  have ring: "ring sb" using assms(1) by (simp add: session_ok_def)
  from handle_step[OF assms(2)] show ?thesis
  proof
    assume live: "sb_state sb = SubReady \<and> applies_live x env message sb sb'"
    then show ?thesis using live_fields[OF conjunct2[OF live] ring] assms(1) by (auto simp: session_ok_def intro: client_run.live)
  qed (use assms(1) remember_ring(1)[OF ring] in \<open>auto simp: session_ok_def\<close>)
qed

lemma recv_ok:
  assumes "session_ok x env sb" "recv_and_apply x env conn sb h = (r, sb', h')"
  shows "session_ok x env sb'"
proof -
  consider "sb' = sb" | "sb' = observe_recv_transport_failure sb" | message r' where "handle_unsolicited_message x env message sb = (r', sb')"
    using assms(2) by (auto simp: recv_and_apply_def split: option.splits prod.splits sum.splits)
  then show ?thesis
    using assms(1) handle_ok[OF assms(1)] by cases (auto simp: session_ok_def observe_recv_transport_failure_def)
qed

lemma detail_finish_step:
  assumes "detail_finish env conn task failure df sb = (r, sb', h')"
  shows "sb' = sb \<or> detail_admit env task (df_pages df) sb = (r, sb')"
proof -
  let ?released = "case df_snapshot_id df of
             None \<Rightarrow> (Inr (), df_client df)
           | Some i \<Rightarrow>
               (case release_snapshot_scoped conn i (Some task) (df_client df) of
                  (Inr (Inr _), h) \<Rightarrow> (Inr (), h)
                | (Inr (Inl e), h) \<Rightarrow> (if e = QueryNotFound then Inr () else Inl (SeQuery e), h)
                | (Inl e, h) \<Rightarrow> (Inl (SeTransport e), h))"
  obtain q h where released: "?released = (q, h)" by (rule prod.exhaust)
  show ?thesis using assms unfolding detail_finish_def Let_def released
    by (cases q; cases failure; cases "detail_admit env task (df_pages df) sb") simp_all
qed

lemma detail_ok:
  assumes "session_ok x env sb" "load_task_detail fuel env conn task sb h = Some (r, sb', h')"
  shows "session_ok x env sb'"
proof -
  have "sb' = sb \<or> (\<exists>pages q. detail_admit env task pages sb = (q, sb'))"
    using assms(2) by (auto simp: load_task_detail_def dest!: detail_finish_step split: if_splits option.splits)
  then show ?thesis
  proof
    assume "\<exists>pages q. detail_admit env task pages sb = (q, sb')"
    then obtain pages q where "detail_admit env task pages sb = (q, sb')" by blast
    then show ?thesis using assms(1) by (auto simp: detail_admit_def session_ok_def split: option.splits sum.splits intro: client_run.detailed)
  qed (use assms(1) in simp)
qed

lemma release_ok:
  assumes "session_ok x env sb" "subscription_release conn sb h = (r, sb', h')"
  shows "session_ok x env sb'"
proof (cases "sb_state sb = SubReleased \<and> sb_subscription_id sb = None \<and> sb_snapshot_id sb = None")
  case True
  then show ?thesis using assms by (simp add: subscription_release_def)
next
  case False
  obtain q sb1 h1 where q: "release_owned conn sb h = (q, sb1, h1)" by (metis prod_cases3)
  have failed: "sb_state sb1 = SubNeedsResync" if "q = Inl e" for e
    using q that by (auto simp: release_owned_def split: prod.splits sum.splits)
  obtain i j s where "sb1 = sb \<lparr> sb_subscription_id := i, sb_snapshot_id := j, sb_state := s \<rparr>" using release_owned_step[OF q] by blast
  then show ?thesis using assms False q failed by (cases q) (auto simp: subscription_release_def session_ok_def)
qed

lemma session_keeps_ok: "session x env conn sb \<Longrightarrow> session_ok x env sb"
proof (induction rule: session.induct)
  case opened
  then show ?case by (simp add: session_ok_def subscription_new_def ring_def)
next
  case (previewed sb h r sb' h')
  then have "ring sb" by (simp add: session_ok_def)
  then show ?case using preview_step[OF previewed(2)] previewed.IH by (auto simp: session_ok_def)
next
  case (synchronizes sb h r sb' h')
  then show ?case using synchronize_ok by blast
next
  case (drained sb evs sb')
  then show ?case by (auto simp: take_replay_events_def session_ok_def ring_def)
next
  case (received sb h r sb' h')
  then show ?case using recv_ok by blast
next
  case (handled sb message r sb')
  then show ?case using handle_ok by blast
next
  case (transport_failed sb)
  then show ?case by (auto simp: session_ok_def observe_recv_transport_failure_def)
next
  case (loads_detail sb fuel task h r sb' h')
  then show ?case using detail_ok by blast
next
  case (releases sb h r sb' h')
  then show ?case using release_ok by blast
next
  case (retired sb)
  then show ?case by (simp add: session_ok_def retire_without_transport_def ring_def)
qed

section \<open>Properties\<close>

text \<open>C15. A synchronization that succeeds leaves a Ready subscription whose model is exactly the snapshot followed by the
  replayed events.  The snapshot pages and the replay pages the host gave during it, all of them in order, are at
  most 1024 each; the snapshot pages are of exactly the sections the client asks for and of one sequence, they assemble into
  a model at that sequence, the replay starts there, and applying the replayed events, which are those handed
  to the caller, one by one to the assembled model gives the installed one, moved to the sequence the replay ends at:
  every table, index entry and task order, only the search tables apart; the snapshot is released.  One that fails keeps the old
  model; it either leaves the whole subscription as it was, a Ready one Ready, or leaves it in need of a resync.\<close>

theorem synchronize_exact:
  assumes "session x env conn sb" "synchronize x env conn sb h = (r, sb', h')"
  shows "(r \<noteq> Inr () \<longrightarrow> sb_model sb' = sb_model sb \<and> (sb' = sb \<or> sb_state sb' = SubNeedsResync)) \<and>
    (r = Inr () \<longrightarrow> sb_state sb' = SubReady \<and> sb_snapshot_id sb' = None \<and>
       (\<exists>pages b m0 (replay :: event_page list) n m. host_gave conn h pages replay h'
          \<and> length pages \<le> MAX_CLIENT_MODEL_PAGES \<and> length replay \<le> MAX_CLIENT_REPLAY_PAGES
          \<and> sp_section ` set pages = set (snapshot_sections (contains_capability (hc_granted h) BrowserProjection) False)
          \<and> (\<forall>p \<in> set pages. sp_through_sequence p = cm_last_applied_sequence m0)
          \<and> ingest_pages pages builder_new = (Inr (), b) \<and> finish env b = Inr m0
          \<and> ep_after_sequence (hd replay) = cm_last_applied_sequence m0
          \<and> sb_pending_replay_events sb' = concat (map ep_events replay)
          \<and> try_fold (client_apply_event x env) (sb_pending_replay_events sb') m0 = Inr n
          \<and> sb_model sb' = Some m
          \<and> core m = at_sequence (ep_through_sequence (last replay)) (core n)))"
proof (cases "r = Inr ()")
  case False
  then show ?thesis using synchronize_step[OF assms(2)] session_keeps_ok[OF assms(1)] by (simp add: session_ok_def)
next
  case True
  then obtain pages replay m0 m where
    s: "synchronized x env (snapshot_sections (contains_capability (hc_granted h) BrowserProjection) False) pages replay m0 m"
    "sb_model sb' = Some m" "sb_state sb' = SubReady" "sb_snapshot_id sb' = None" "sb_pending_replay_events sb' = concat (map ep_events replay)"
    "host_gave conn h pages replay h'"
    using synchronize_step[OF assms(2)] session_keeps_ok[OF assms(1)] unfolding session_ok_def by blast
  then obtain b where b: "ingest_pages pages builder_new = (Inr (), b)" "finish env b = Inr m0" by (auto simp: synchronized_def)
  have r: "cursored replay" "try_fold (apply_replay_page x env) replay m0 = Inr m" using s(1) by (simp_all add: synchronized_def)
  obtain n where n: "try_fold (client_apply_event x env) (concat (map ep_events replay)) m0 = Inr n"
    "core m = at_sequence (ep_through_sequence (last replay)) (core n)"
    using replay_pages_plain[OF r(2) refl r(1)] by (auto simp: client_apply_event_def[abs_def])
  have bounds: "length pages \<le> MAX_CLIENT_MODEL_PAGES" "length replay \<le> MAX_CLIENT_REPLAY_PAGES"
    using ingest_pages_count[OF b(1)] replay_pages_count[OF r(2,1)] finish_starts_replay[OF b(2)] by (auto simp: builder_new_def)
  have s1: "sp_section ` set pages = set (snapshot_sections (contains_capability (hc_granted h) BrowserProjection) False)"
    "\<forall>p \<in> set pages. sp_through_sequence p = cm_last_applied_sequence m0" "ep_after_sequence (hd replay) = cm_last_applied_sequence m0"
    using s(1) by (simp_all add: synchronized_def)
  have "host_gave conn h pages replay h' \<and> length pages \<le> MAX_CLIENT_MODEL_PAGES \<and> length replay \<le> MAX_CLIENT_REPLAY_PAGES
          \<and> sp_section ` set pages = set (snapshot_sections (contains_capability (hc_granted h) BrowserProjection) False)
          \<and> (\<forall>p \<in> set pages. sp_through_sequence p = cm_last_applied_sequence m0)
          \<and> ingest_pages pages builder_new = (Inr (), b) \<and> finish env b = Inr m0
          \<and> ep_after_sequence (hd replay) = cm_last_applied_sequence m0
          \<and> sb_pending_replay_events sb' = concat (map ep_events replay)
          \<and> try_fold (client_apply_event x env) (sb_pending_replay_events sb') m0 = Inr n
          \<and> sb_model sb' = Some m
          \<and> core m = at_sequence (ep_through_sequence (last replay)) (core n)"
    unfolding s(5) by (intro conjI s(2,6) s1 b n bounds refl)
  then show ?thesis using True s(3,4) by blast
qed

text \<open>C16. Every subscription that any sequence of its methods reaches, over any host and any failures, remembers at
  most 8192 event ids, each once and the same ones in its set and its queue, holds at most 8192 events for the
  caller, and has a model that satisfies the invariant of the client model; when it is Ready it has a model and a
  replay subscription and keeps no snapshot pinned on the host.\<close>

theorem session_invariant:
  assumes "session x env conn sb"
  shows "set (sb_seen_event_ids sb) = set (sb_seen_event_order sb) \<and> distinct (sb_seen_event_order sb)
    \<and> length (sb_seen_event_order sb) \<le> 8192 \<and> length (sb_pending_replay_events sb) \<le> 8192
    \<and> (\<forall>m. sb_model sb = Some m \<longrightarrow> model_ok env m)
    \<and> (sb_state sb = SubReady \<longrightarrow> sb_model sb \<noteq> None \<and> sb_subscription_id sb \<noteq> None \<and> sb_snapshot_id sb = None)"
  using session_keeps_ok[OF assms] run_model_ok
  by (auto simp: session_ok_def ring_def MAX_SEEN_EVENT_IDS_def MAX_PENDING_REPLAY_EVENTS_def)

text \<open>C17. Live messages to a Ready subscription, whatever the host sends: the model they leave is the old one with a
  subsequence of the events addressed to the subscription applied, with strictly increasing sequences above the
  model's, so none is applied twice or out of order; and the subscription is still Ready only if every event came
  for this subscription and was applied or carries an id already remembered.\<close>

theorem live_events_applied_once:
  assumes "session x env conn sb" "sb_state sb = SubReady"
  shows "\<exists>i m evs m'. sb_subscription_id sb = Some i \<and> sb_model sb = Some m
    \<and> sb_model (deliver_all x env messages sb) = Some m' \<and> try_fold (client_apply_event x env) evs m = Inr m'
    \<and> subseq evs (events_of i messages) \<and> sorted_wrt (<) (map de_sequence evs)
    \<and> (\<forall>ev \<in> set evs. cm_last_applied_sequence m < de_sequence ev)
    \<and> (sb_state (deliver_all x env messages sb) = SubReady \<longrightarrow>
         (\<forall>message j ev. message \<in> set messages \<and> message_event message = Some (j, ev) \<longrightarrow>
            j = i \<and> de_id ev \<in> set (sb_seen_event_ids sb) \<union> de_id ` set evs))"
proof -
  obtain i m where im: "ring sb" "sb_subscription_id sb = Some i" "sb_model sb = Some m"
    using session_keeps_ok[OF assms(1)] assms(2) by (auto simp: session_ok_def)
  from deliver_step[OF im(1) assms(2) im(2,3), of x env messages] obtain evs m' where
    d: "sb_model (deliver_all x env messages sb) = Some m'" "try_fold (client_apply_event x env) evs m = Inr m'"
    "subseq evs (events_of i messages)" "sb_state (deliver_all x env messages sb) = SubReady \<longrightarrow>
       (\<forall>message j ev. message \<in> set messages \<and> message_event message = Some (j, ev) \<longrightarrow>
          j = i \<and> de_id ev \<in> set (sb_seen_event_ids sb) \<union> de_id ` set evs)" by blast
  then show ?thesis using im applied_in_order[OF d(2)] by blast
qed

section \<open>A concrete session\<close>

lemma sample_client_connection [simp]: "sample_client c \<lparr> hc_connection := Some d \<rparr> = sample_client d"
  by (simp add: sample_client_def)

lemma sample_live [simp]: "live_connection scripted (sample_client c) = Inr c"
  by (simp add: live_connection_def sample_client_def scripted_def)

lemma scripted_query [simp]: "co_query scripted t q (r # rest) = (r, rest)"
  by (simp add: scripted_def)

definition page_answer :: "snapshot_page \<Rightarrow> ipc_error + query_outcome" where
  "page_answer p = Inr (Inr (QrSnapshotPage p))"

lemma scripted_page:
  assumes "snap = None \<or> snap = Some (sp_snapshot_id p)"
  shows "client_snapshot_page scripted (sp_section p) snap cur (sample_client (page_answer p # rest)) = (Inr (Inr p), sample_client rest)"
  using assms by (auto simp: client_snapshot_page_def snapshot_page_scoped_def gated_query_def on_connection_def page_answer_def)

text \<open>A host that sends each section in one page is followed to the end.\<close>

lemma scripted_sections:
  assumes "\<forall>p \<in> set ps. sp_next_cursor p = None \<and> sp_snapshot_id p = i \<and> sp_through_sequence p = t"
    "ingest_pages ps (ft_builder ft) = (Inr (), b)" "ft_client ft = sample_client (map page_answer ps @ rest)"
    "ft_snapshot_id ft = None \<or> ft_snapshot_id ft = Some i" "ft_through_sequence ft = None \<or> ft_through_sequence ft = Some t"
  shows "\<exists>ft'. fetch_sections scripted (map sp_section ps) ft = (Inr (), ft') \<and> ft_builder ft' = b \<and> ft_client ft' = sample_client rest
    \<and> (ps \<noteq> [] \<longrightarrow> ft_through_sequence ft' = Some t \<and> ft_subscription ft' = (ft_subscription ft) \<lparr> sb_snapshot_id := Some i \<rparr>)"
  using assms
proof (induction ps arbitrary: ft)
  case (Cons p ps)
  obtain v b1 where b1: "ingest_page p (ft_builder ft) = (Inr v, b1)" "ingest_pages ps b1 = (Inr (), b)"
    using Cons.prems(2) by (auto simp: then_build_Inr)
  define ft1 where "ft1 = ft \<lparr> ft_resume_cursor := None, ft_section_started := True, ft_client := sample_client (map page_answer ps @ rest),
    ft_subscription := (ft_subscription ft) \<lparr> sb_snapshot_id := Some i \<rparr>, ft_snapshot_id := Some i, ft_through_sequence := Some t, ft_builder := b1 \<rparr>"
  have page: "client_snapshot_page scripted (sp_section p) (ft_snapshot_id ft) None (ft_client ft)
      = (Inr (Inr p), sample_client (map page_answer ps @ rest))"
    using Cons.prems(1,3,4) by (auto intro!: scripted_page)
  have "fetch_section scripted (sp_section p) (ft \<lparr> ft_resume_cursor := None, ft_section_started := False \<rparr>) = (Inr (), ft1)"
    using Cons.prems(1,4,5) b1(1) by (auto simp: fetch_section.simps fetch_page_def page take_page_def Let_def ft1_def)
  moreover have "\<exists>ft'. fetch_sections scripted (map sp_section ps) ft1 = (Inr (), ft') \<and> ft_builder ft' = b \<and> ft_client ft' = sample_client rest
    \<and> (ps \<noteq> [] \<longrightarrow> ft_through_sequence ft' = Some t \<and> ft_subscription ft' = (ft_subscription ft1) \<lparr> sb_snapshot_id := Some i \<rparr>)"
    by (rule Cons.IH) (use Cons.prems(1) b1(2) in \<open>simp_all add: ft1_def\<close>)
  ultimately show ?case by (cases ps) (auto simp: ft1_def)
qed auto

definition sample_race_page :: event_page where
  "sample_race_page = \<lparr> ep_after_sequence = 6, ep_through_sequence = 7, ep_events = [sample_host_event], ep_next_cursor = None \<rparr>"

definition sample_script :: script where
  "sample_script = map page_answer sample_pages
     @ [Inr (Inr (QrEventReplayPage (Id 80) sample_race_page)), Inr (Inr (QrSnapshotReleased (Id 50)))]"

lemma sample_race_applies:
  "\<exists>m. apply_replay_page sc_ext sample_env sample_race_page sample_model = Inr m \<and> cm_last_applied_sequence m = 7"
  by (simp add: apply_replay_page_def apply_replay_page_inner_def pin_replay_def count_replay_page_def finish_replay_def
      apply_page_event_def apply_one_event_def stage_host host_only_def sample_race_page_def sample_host_event_def sample_model_def
      model_clone_def MAX_CLIENT_REPLAY_PAGES_def Let_def commit_staged_def nothing_staged_def commit_task_def)

lemma sample_sections:
  "snapshot_sections (contains_capability (hc_granted (sample_client c)) BrowserProjection) False = map sp_section sample_pages"
  by (simp add: snapshot_sections_def SNAPSHOT_SECTIONS_def BROWSER_SNAPSHOT_SECTIONS_def sample_client_def hc_granted_def metadata_granted_def contains_capability_def
      contains_bit_def capability_bit_def sample_pages_def sample_page_def)

lemma sample_synchronized:
  "\<exists>sb m. synchronize sc_ext sample_env scripted subscription_new (sample_client sample_script) = (Inr (), sb, sample_client [])
     \<and> sb_state sb = SubReady \<and> sb_subscription_id sb = Some (Id 80) \<and> sb_model sb = Some m \<and> cm_last_applied_sequence m = 7
     \<and> sb_seen_event_ids sb = [Id 23]"
proof -
  let ?rest = "[Inr (Inr (QrEventReplayPage (Id 80) sample_race_page)), Inr (Inr (QrSnapshotReleased (Id 50)))] :: script"
  let ?ft = "fetching_new subscription_new (sample_client sample_script)"
  have "\<exists>ft'. fetch_sections scripted (map sp_section sample_pages) ?ft = (Inr (), ft') \<and> ft_builder ft' = sample_builder
      \<and> ft_client ft' = sample_client ?rest
      \<and> (sample_pages \<noteq> [] \<longrightarrow> ft_through_sequence ft' = Some 6 \<and> ft_subscription ft' = (ft_subscription ?ft) \<lparr> sb_snapshot_id := Some (Id 50) \<rparr>)"
    by (rule scripted_sections)
      (simp_all add: fetching_new_def sample_ingested sample_script_def, simp add: sample_pages_def sample_page_def)
  then obtain ft where ft: "fetch_sections scripted (map sp_section sample_pages) ?ft = (Inr (), ft)" "ft_builder ft = sample_builder"
    "ft_client ft = sample_client ?rest" "ft_through_sequence ft = Some 6" "ft_subscription ft = subscription_new \<lparr> sb_snapshot_id := Some (Id 50) \<rparr>"
    by (auto simp: sample_pages_def fetching_new_def)
  obtain m where m: "apply_replay_page sc_ext sample_env sample_race_page sample_model = Inr m" "cm_last_applied_sequence m = 7"
    using sample_race_applies by blast
  have last: "cm_last_applied_sequence sample_model = 6" by (simp add: sample_model_def)
  let ?ready = "subscription_new \<lparr> sb_subscription_id := Some (Id 80), sb_seen_event_ids := [Id 23], sb_seen_event_order := [Id 23],
      sb_pending_replay_events := [sample_host_event], sb_model := Some m, sb_state := SubReady \<rparr>"
  have new: "subscription_new \<lparr> sb_state := SubPending \<rparr> = subscription_new"
    "subscription_new \<lparr> sb_seen_event_ids := [], sb_seen_event_order := [], sb_pending_replay_events := [] \<rparr> = subscription_new"
    "sb_state subscription_new = SubPending" "sb_subscription_id subscription_new = None" "sb_snapshot_id subscription_new = None"
    by (simp_all add: subscription_new_def)
  have owned: "release_owned scripted subscription_new h = (Inr (), subscription_new, h)" for h
    by (simp add: release_owned_def release_event_replay_if_owned_def release_snapshot_if_owned_def new)
  have "synchronize_replay sc_ext sample_env scripted 6 sample_model (subscription_new \<lparr> sb_snapshot_id := Some (Id 50) \<rparr>) (sample_client ?rest)
      = (Inr (), ?ready, sample_client [])"
    using m(1) by (simp add: synchronize_replay_def open_event_replay_def gated_query_def on_connection_def release_snapshot_if_owned_def
        release_snapshot_def release_snapshot_scoped_def replay_loop.simps, simp add: sample_race_page_def subscription_new_def
        queue_replay_event_def remember_event_id_def MAX_SEEN_EVENT_IDS_def MAX_PENDING_REPLAY_EVENTS_def sample_host_event_def hs_insert_def)
  then have "synchronize_inner sc_ext sample_env scripted subscription_new (sample_client sample_script) = (Inr (), ?ready, sample_client [])"
    by (simp add: synchronize_inner_def sample_sections ft sample_finished last)
  then have "synchronize sc_ext sample_env scripted subscription_new (sample_client sample_script) = (Inr (), ?ready, sample_client [])"
    by (simp add: synchronize_def new owned)
  then show ?thesis using m(2) by simp
qed

lemma sample_session:
  "\<exists>sb. session sc_ext sample_env scripted sb \<and> sb_state sb = SubReady \<and> sb_subscription_id sb = Some (Id 80) \<and> sb_seen_event_ids sb = [Id 23]"
  using sample_synchronized session.synchronizes[OF session.opened] by metis

theorem synchronize_exact_witness:
  "\<exists>sb' h' pages replay m0 n m. synchronize sc_ext sample_env scripted subscription_new (sample_client sample_script) = (Inr (), sb', h')
     \<and> host_gave scripted (sample_client sample_script) pages replay h' \<and> sb_pending_replay_events sb' = concat (map ep_events replay)
     \<and> try_fold (client_apply_event sc_ext sample_env) (sb_pending_replay_events sb') m0 = Inr n
     \<and> sb_model sb' = Some m \<and> cm_tasks m = cm_tasks n"
proof -
  obtain sb' where sync: "synchronize sc_ext sample_env scripted subscription_new (sample_client sample_script) = (Inr (), sb', sample_client [])"
    using sample_synchronized by blast
  from synchronize_exact[OF session.opened sync] obtain m0 n m pages and replay :: "event_page list" where
    given: "host_gave scripted (sample_client sample_script) pages replay (sample_client [])"
      "sb_pending_replay_events sb' = concat (map ep_events replay)" and ex: "try_fold (client_apply_event sc_ext sample_env) (sb_pending_replay_events sb') m0 = Inr n" "sb_model sb' = Some m"
    "core m = at_sequence (ep_through_sequence (last replay)) (core n)" by blast
  have "cm_tasks m = cm_tasks n" using arg_cong[OF ex(3), of cm_tasks] by simp
  with sync given ex(1,2) show ?thesis by blast
qed

theorem session_invariant_witness:
  "\<exists>sb. session sc_ext sample_env scripted sb \<and> sb_state sb = SubReady \<and> length (sb_pending_replay_events sb) \<le> 8192
     \<and> sb_model sb \<noteq> None \<and> sb_snapshot_id sb = None"
proof -
  obtain sb where sb: "session sc_ext sample_env scripted sb" "sb_state sb = SubReady" using sample_session by blast
  show ?thesis using session_invariant[OF sb(1)] sb by blast
qed

definition sample_next_event :: domain_event where
  "sample_next_event = sample_host_event \<lparr> de_id := Id 24, de_sequence := 8 \<rparr>"

theorem live_events_applied_once_witness:
  "\<exists>sb evs. session sc_ext sample_env scripted sb \<and> sb_state sb = SubReady
     \<and> sb_state (deliver_all sc_ext sample_env [UsDurableEvent (Id 80) sample_host_event, UsDurableEvent (Id 80) sample_next_event] sb) = SubReady
     \<and> subseq evs [sample_host_event, sample_next_event] \<and> sample_next_event \<in> set evs"
proof -
  obtain sb m where sb: "session sc_ext sample_env scripted sb" "sb_state sb = SubReady" "sb_subscription_id sb = Some (Id 80)"
    "sb_seen_event_ids sb = [Id 23]" "sb_model sb = Some m" "cm_last_applied_sequence m = 7"
    using sample_synchronized session.synchronizes[OF session.opened] by metis
  let ?ms = "[UsDurableEvent (Id 80) sample_host_event, UsDurableEvent (Id 80) sample_next_event]"
  have ready: "sb_state (deliver_all sc_ext sample_env ?ms sb) = SubReady"
    using sb(2-6) by (simp add: handle_unsolicited_message_def not_ready_def handle_durable_event_def Let_def client_apply_event_def
        apply_one_event_def stage_host host_only_def sample_next_event_def sample_host_event_def)
  have evs: "events_of (Id 80) ?ms = [sample_host_event, sample_next_event]"
    by (simp add: events_of_def message_event_def List.map_filter_simps)
  obtain evs where e: "subseq evs [sample_host_event, sample_next_event]"
    "\<forall>message j ev. message \<in> set ?ms \<and> message_event message = Some (j, ev) \<longrightarrow> de_id ev \<in> set (sb_seen_event_ids sb) \<union> de_id ` set evs"
    using live_events_applied_once[OF sb(1,2), of ?ms] ready sb(3) evs by (metis (no_types, lifting) option.inject)
  have "de_id sample_next_event \<in> set (sb_seen_event_ids sb) \<union> de_id ` set evs"
    by (rule e(2)[rule_format, of "UsDurableEvent (Id 80) sample_next_event" "Id 80"]) (simp add: message_event_def)
  then obtain ev where ev: "ev \<in> set evs" "de_id ev = Id 24" using sb(4) by (auto simp: sample_next_event_def)
  moreover obtain y where "y \<in> set [sample_host_event, sample_next_event]" "ev = y" by (rule list_emb_set[OF e(1) ev(1)])
  ultimately have "ev = sample_next_event" by (auto simp: sample_host_event_def)
  then show ?thesis using sb(1,2) ready e(1) ev(1) by blast
qed

section \<open>A detail without an end\<close>

text \<open>A host that gives every page a cursor.\<close>

definition endless :: "(unit, unit) connection_ops" where
  "endless = \<lparr> co_is_live = (\<lambda>_. True),
     co_query = (\<lambda>_ q c. case q of
         QSnapshotPage sec _ _ \<Rightarrow> (Inr (Inr (QrSnapshotPage ((sample_page sec []) \<lparr> sp_next_cursor := Some [1] \<rparr>))), c)
       | _ \<Rightarrow> (Inl IpcTimeout, c)),
     co_execute_command = (\<lambda>_ c. (Inl IpcTimeout, c)), co_execute_update_handoff = (\<lambda>_ _ c. (Inl IpcTimeout, c)),
     co_detach = (\<lambda>_ c. (Inl IpcTimeout, c)), co_recv_unsolicited = (\<lambda>c. (Inl IpcUnavailable, c)),
     co_retire_subscription_id = (\<lambda>_ c. (Inr (), c)) \<rparr>"

lemma endless_section:
  assumes "contains_capability (hc_granted (df_client df)) PagedSnapshots" "hc_connection (df_client df) = Some ()"
    "df_snapshot_id df = None \<or> df_snapshot_id df = Some (Id 50)"
  shows "detail_section fuel endless task sec cursor df = None"
  using assms
proof (induction fuel arbitrary: cursor df)
  case (Suc fuel)
  have "snapshot_page_scoped endless sec (Some task) (df_snapshot_id df) cursor (df_client df)
      = (Inr (Inr ((sample_page sec []) \<lparr> sp_next_cursor := Some [1] \<rparr>)), df_client df)"
    using Suc.prems by (auto simp: snapshot_page_scoped_def gated_query_def on_connection_def live_connection_def endless_def sample_page_def)
  then show ?case using Suc.prems by (auto simp: Let_def sample_page_def intro!: Suc.IH)
qed simp

text \<open>Nothing bounds the pages of a task's detail: against a host that gives every page the same cursor the loop does
  not end within any number of turns, whereas the page loops of synchronization and preview end for every host.\<close>

theorem task_detail_unbounded:
  assumes "sb_state sb \<noteq> SubReleased" "sb_model sb = Some m" "\<not> task_detail_admitted task m"
    "contains_capability (hc_granted h) PagedSnapshots" "hc_connection h = Some ()"
  shows "load_task_detail fuel env endless task sb h = None"
  using assms endless_section[of "\<lparr> df_pages = [], df_snapshot_id = None, df_client = h \<rparr>"]
  by (simp add: load_task_detail_def snapshot_sections_def TASK_DETAIL_SECTIONS_def)

end
