(* ===== verification/Spec2Isabelle.thy ===== *)
theory Spec2Isabelle
  imports Scenario Wire_Hello Wire_MessagePack Wire_Noise Host_Hello Client_Session
begin

text \<open>
  A verification library for DevManager: its domain core, the part of the program that decides
  what happens to a task (\<open>src/domain/\<close>), the wire protocol between a host and its clients
  (\<open>src/protocol/\<close>), and the client (\<open>src/client/\<close>: its model, its connection, its subscription).  A host process keeps every task as a log
  of durable events.  A client sends a command; \<open>decide\<close> (\<open>command.rs\<close>) looks at the snapshot
  of the task and answers with events or with a rejection code; the kernel stores the events
  and folds them with \<open>apply\<close> (\<open>event.rs\<close>) into the next snapshot; the outcome of side effects
  comes back as further events.  Snapshots, browser books and provider sessions are all
  projections of that log, so what matters is that the two functions agree, that the fold
  keeps its invariants, and that the fences (revision, epoch, generation, idempotency keys)
  hold over time.  Clients reach the host over length-prefixed frames: a handshake of two
  documents fixes version, capabilities and limits, every later document is MessagePack that a
  scanner admits before it is decoded, long contents travel as hashed chunks, and remote
  connections run over a Noise channel with sealed frames.  A client keeps its own copy of the
  host's state: it assembles it from the pages of one pinned snapshot, follows the events that
  come after it, live or in replay pages, and searches it through an index.

  \<^bold>\<open>Theories.\<close>
  \<^item> \<open>Prelude\<close>, \<open>BTree_Map\<close>: results as sums, 64-bit checked arithmetic, Rust strings as lists of
    scalar values with their UTF-8 length; \<open>BTreeMap\<close> as sorted association lists, with its
    laws as the locale \<open>ordered_map\<close> and the interpretation \<open>btree\<close>.
  \<^item> \<open>Journal\<close>: event-sourced state as locales (\<open>invariant_journal\<close>, \<open>monotone_journal\<close>,
    \<open>counted_journal\<close>, \<open>fenced_journal\<close>), interpreted below by the browser book and the task.
  \<^item> \<open>Ids\<close>, \<open>Task_Facts\<close>, \<open>Agent\<close>, \<open>Artifact\<close>, \<open>Resource\<close>, \<open>Provider_Input\<close>: the value types of \<open>id.rs\<close>,
    \<open>canonical.rs\<close>, \<open>task.rs\<close>, \<open>agent.rs\<close>, \<open>artifact.rs\<close>, \<open>resource.rs\<close>, \<open>terminal_facts.rs\<close>,
    \<open>agent_resource.rs\<close> and \<open>provider_input.rs\<close>: one record or datatype per struct or enum, one
    definition per constructor, validator and codec.
  \<^item> \<open>Browser\<close>, \<open>Browser_Book\<close>: \<open>browser.rs\<close>.  The book of a task is a record; \<open>apply_facts\<close> is
    modelled with the state it leaves at every exit, since the code mutates in place and
    restores backups; \<open>admit\<close>, \<open>settle\<close>, \<open>close_task\<close> and \<open>replay_browser_snapshot\<close> follow.
  \<^item> \<open>Operation\<close>, \<open>Domain_Event\<close>: operation facts and codec (\<open>operation.rs\<close>, \<open>host.rs\<close>), the snapshot
    and the event vocabulary (\<open>snapshot.rs\<close>, \<open>event.rs\<close>).
  \<^item> \<open>Apply\<close>: \<open>apply\<close>, \<open>apply_into\<close> (one definition per arm) and \<open>apply_all\<close>.
  \<^item> \<open>Command\<close>, \<open>Native_Browser\<close>, \<open>Decide\<close>: commands and intents, the native browser session, and
    \<open>decide\<close> with one definition per arm.
  \<^item> \<open>Snapshot_Invariant\<close>: the invariant \<open>snap_wf\<close> and that every event keeps it.
  \<^item> \<open>Aggregate\<close>: \<open>apply\<close> as a journal step; order, revision fence and lifecycle of a task.
  \<^item> \<open>Orchestration\<close>: the invariant \<open>orch_wf\<close> that only \<open>decide\<close>'s own events keep.
  \<^item> \<open>Soundness\<close>, \<open>Decision\<close>: the events of each arm of \<open>decide\<close> apply, except where \<open>decide_gap\<close>
    says so, and there they do not; tasks as a machine (\<open>task_reachable\<close>).
  \<^item> \<open>Fences\<close>, \<open>Scenario\<close>: what accepted events rule out later; concrete inputs.
  \<^item> \<open>Wire_Bytes\<close>, \<open>Wire_Serde\<close>: big-endian integers; the locale \<open>byte_channel\<close> (a connection that
    delivers what was written) with the interpretation \<open>memory_pipe\<close>; serde's data model as a
    record of encoders and decoders, the locale \<open>serde_values\<close> (a decoder gives back what its
    encoder was given) with the interpretation \<open>tree\<close>, and the readers of ids, fingerprints and
    grants (\<open>id.rs\<close>, \<open>envelope.rs\<close>, \<open>reconnect.rs\<close>).
  \<^item> \<open>Wire_Frame\<close> (\<open>frame.rs\<close>, \<open>capabilities.rs\<close>), \<open>Wire_Chunk\<close> (\<open>chunk.rs\<close>), \<open>Wire_Hello\<close> (the two
    handshake documents of \<open>envelope.rs\<close>), \<open>Wire_MessagePack\<close> (the scanner and codec of
    \<open>envelope.rs\<close>): limits and their negotiation, framed reads and writes with their I/O errors,
    chunked transfers, strict named-map documents, the explicit-stack preflight.
  \<^item> \<open>Wire_Sealed\<close>, \<open>Wire_Noise\<close> (\<open>crypto.rs\<close>): sealed frames, the replay window, the symmetric sealer;
    identity claims, the Noise handshake as a state machine and the transport it yields.
  \<^item> \<open>Client_Index\<close> (\<open>TaskProjectionIndex\<close> of \<open>client/model.rs\<close>): the order of tasks, gram postings and
    scalar totals under their budgets, and paged search; the locale \<open>search_index\<close> states what a search
    needs of an index, and \<open>projection\<close> interprets it.
  \<^item> \<open>Client_Model\<close> (\<open>ClientModelBuilder\<close> and \<open>ClientModel\<close> of \<open>client/model.rs\<close>, the page documents of
    \<open>snapshot.rs\<close>): ingestion of snapshot pages, assembly, live events, replay pages, task detail.
  \<^item> \<open>Client_Assembly\<close>, \<open>Client_Sync\<close>, \<open>Client_Run\<close>: the assembled model against the rows of its pages
    (locale \<open>placement\<close>, interpreted by the four kinds of rows), the client against the host
    (\<open>in_sync\<close>, a simulation of \<open>host_step\<close>), and the models a session can reach.
  \<^item> \<open>Client_Inbox\<close> (\<open>UnsolicitedInbox\<close> of \<open>client/connection.rs\<close>): the four lanes of unasked messages, as
    operations on one record and runs of them; the locale \<open>stocked_lane\<close> states what a coalescing lane
    needs to be served, and \<open>stream_lane\<close> and \<open>conversation_lane\<close> interpret it.
  \<^item> \<open>Client_Waiters\<close> (\<open>SharedState\<close>, \<open>dispatch_server_message\<close> of \<open>client/connection.rs\<close>): pending calls,
    their deadlines, poisoning, and the dispatch of every message of a host; the life of a
    connection as a log of registrations and answers.
  \<^item> \<open>Host_Hello\<close> (\<open>host/ipc.rs\<close>): the host's end of the handshake, \<open>finish_handshake\<close>, with the transport fence
    on paged capabilities and the ledger of single-use reconnect grants.
  \<^item> \<open>Client_Host\<close> (\<open>client/host_client.rs\<close>): connecting and reconnecting, the client's check of the host's hello,
    calls with their correlation, and the tracking of
    operations, over the connection as a record of operations; \<open>receipts\<close> and \<open>observations\<close> interpret
    \<open>monotone_journal\<close> on the tracking table.
  \<^item> \<open>Client_Subscription\<close>, \<open>Client_Session\<close> (\<open>client/subscription.rs\<close>): \<open>ClientSubscription\<close> with all its
    methods; what each does to it, the answers the host gave meanwhile (\<open>dialogue\<close>, \<open>host_gave\<close>), and the
    sessions any sequence of methods reaches (\<open>session\<close>).

  \<^bold>\<open>Conventions.\<close>  An error is a value (\<open>Inl\<close>), and an arm returns the error or the updated
  state, as the Rust code drops its working copy on \<open>Err\<close>.  \<open>u64\<close> is a 64-bit word with the
  checked and saturating operations the code calls; \<open>i64\<close> timestamps are integers with their
  saturation written out.  Code of other crates is a parameter: SHA-256, the URL parser, the
  request encoder, the JSON decoder (records \<open>ext\<close>, \<open>browser_lib\<close>, \<open>uuid_lib\<close>), HMAC, the serde
  data model, the byte markers of MessagePack, and the Noise library (record \<open>snow\<close>).  Two theorems
  assume something of them: documents survive a serialisation framework that gives back what it
  was given (\<open>serde_values\<close>), and the Noise transport delivers between two states linked by the
  Noise contract (\<open>noise_link\<close>).  The payloads of commands that \<open>decide\<close> rejects without reading are
  a type parameter.  The connection of a host client is a parameter too (record \<open>connection_ops\<close>), and so is the opening
  of one (record \<open>opener\<close>), of which nothing is assumed: their answers may be anything.  Paths are those of Unix:
  \<open>Path::is_absolute\<close> is a leading slash, and two paths are equal when their strings are.  All definitions are total and terminate.  The
  scanner's loop counts down the values it may still scan, then the depth of its stack; the page
  loops of a subscription count down the pages its model still admits.  Only the loop of
  \<open>load_task_detail\<close> takes fuel, since the code does not bound it: \<open>task_detail_unbounded\<close> shows that no
  amount is enough against a host that never ends a section.

  \<^bold>\<open>What is shown.\<close>  Accepted commands apply, and the exceptions are exactly \<open>decide_gap\<close>; the
  invariants of reachable tasks and of replayed logs; at-most-once application, append-only
  history, first answer wins, fencing by epoch, finality of deletion; atomicity, idempotency
  and replay of the browser book; bounds of the wait table; codec round trips; canonical
  forms.  On the wire: framing loses and invents nothing, a transfer completes exactly for its own
  chunks, the handshake agrees on what both sides offered less what a page has no room for, and the client accepts
  every answer the host gives in it, documents survive exactly when valid,
  the preflight admits exactly the bounded documents, the replay window refines the set of
  accepted sequences, sealed frames open for the peer and for the right tag only, a finished
  Noise handshake has authenticated its peer and its transport binds what it delivers.  In the client:
  the assembled model is a copy of the pages, a client in step with the host follows its log exactly
  (with the events it must refuse), replay in pages equals replay by events in every table, index entry and task order, operations only move
  forward, every reachable model is well-formed, and search pages end with the exact answer as long as
  the budgets of the index were never exhausted.  Around it: a synchronization installs exactly the
  snapshot and the replay the host answered with, live events are applied once and in order, a session keeps its
  bounds and handles; durable messages leave the inbox in wire order, no lane starves, a retired
  subscription is silent; every call is answered once, by its own reply; answers that were not asked for
  cost the connection; tracked operations never move back, through reconnects too.

  \<^bold>\<open>Not modelled.\<close>  The kernel's SQL store and its queues, the query and cockpit read models, the
  serde visitors of request and stream documents, the tokio tasks that move bytes between a connection
  and its pipe (their effect on the shared state is modelled), and everything that talks to the operating system, to terminals, webviews,
  git, remote hosts or the screen.
\<close>

section \<open>Commands and events\<close>

text \<open>C1. Soundness of \<open>decide\<close>: whatever state a task has reached, when a command is accepted, \<open>apply_all\<close>
  applies all of its events, the revision advances by exactly their number, and the result is
  again a state the task can reach.  The exceptions, checks that only \<open>apply\<close> makes, are those
  of \<open>decide_gap\<close>; the revision must have room in its 64 bits.\<close>

theorem accepted_commands_apply:
  assumes "task_reachable x log s" "decide x op (Some s) e = Inr es"
    and "\<not> decide_gap (ce_command e) s" "revision_of s + length es < 2 ^ 64"
  shows "\<exists>s'. apply_all x fresh (Some s) es = Inr s' \<and> task_reachable x (log @ [e]) s'
    \<and> revision_of s' = revision_of s + length es"
  using decide_applies[OF assms] .

theorem accepted_commands_apply_witness:
  "\<exists>s'. apply_all sc_ext (\<lambda>_. nil_id) (Some sc_start) [TaskSettled] = Inr s' \<and> revision_of s' = 2"
proof -
  have "decide sc_ext nil_id (Some sc_start) (sc_envelope (Some sc_start) SettleTask) = Inr [TaskSettled]"
    by (simp add: decide_def sc_envelope_def with_task_Inr decide_settle_task_def sc_start_def sc_task_def)
  from accepted_commands_apply[OF sc_reachable this, of "\<lambda>_. nil_id"] show ?thesis
    by (auto simp: decide_gap_def sc_envelope_def revision_of_def sc_start_def sc_task_def)
qed

text \<open>C2. The states of a task: in every state it can reach, all agents, artifacts and resources are
  its own and valid, at most two agents are open, there is no agent at all or exactly one primary, which is
  open, the terminal strip lists each shell that holds a slot exactly once and has at most
  eight entries, and an archived or deleted task holds no resource.\<close>

theorem reachable_task_invariant:
  assumes "task_reachable x log s"
  shows "snap_wf (x_sha256 x) s \<and> card (open_agents (sn_agents s)) \<le> 2
    \<and> (sn_agents s = bempty \<or> (\<exists>p. sole_primary (sn_agents s) p))
    \<and> distinct (ts_order (sn_terminal_strip s)) \<and> length (ts_order (sn_terminal_strip s)) \<le> 8
    \<and> (\<forall>i. i \<in> set (ts_order (sn_terminal_strip s)) \<longleftrightarrow> occupied (sn_resources s) i)
    \<and> (in_archive s \<longrightarrow> (\<forall>i r. bget (sn_resources s) i = Some r \<longrightarrow> rs_lifecycle r = RsReleased))"
proof -
  have wf: "snap_wf (x_sha256 x) s" and o: "orch_wf s" using reachable_wf[OF assms] by auto
  then show ?thesis
    using snap_wfD(6)[OF wf]
    by (simp add: orch_wf_def one_primary_def strip_wf_def in_archive_def DEFAULT_MAX_TOP_LEVEL_RUNTIMES_def
        MAX_PLAIN_SHELLS_PER_TASK_def)
qed

theorem reachable_task_invariant_witness:
  "snap_wf (x_sha256 sc_ext) sc_start \<and> card (open_agents (sn_agents sc_start)) \<le> 2"
  using reachable_task_invariant[OF sc_reachable] by simp

text \<open>Creating a task: the events of an accepted \<open>CreateTask\<close> are one \<open>TaskCreated\<close>, and \<open>apply\<close> turns it,
  at revision 1, into an open task at epoch 0 with no agents, resources or artifacts.\<close>

lemma created_task_starts_clean:
  assumes "decide x op None e = Inr es"
  shows "\<exists>p s t. es = [p] \<and> (\<forall>i q at. apply_event x None
        \<lparr> de_id = i, de_task_id = Some t, de_sequence = q, de_task_revision = Some 1,
          de_occurred_at_ms = at, de_payload = p \<rparr> = Inr s)
     \<and> tk_id (sn_task s) = t \<and> tk_lifecycle (sn_task s) = TlOpen \<and> tk_action_epoch (sn_task s) = 0
     \<and> revision_of s = 1 \<and> sn_agents s = bempty \<and> sn_resources s = bempty \<and> sn_artifacts s = bempty"
proof -
  obtain task connectivity attention activity review where
    es: "es = [TaskCreated task connectivity attention activity review]"
    and v: "validate_for_create (x_sha256 x) task = Inr ()"
    using assms
    by (cases "ce_command e")
       (auto simp: decide_def Let_def decide_create_task_def with_task_def with_open_or_closing_task_def
         with_runtime_task_def require_task_def require_open_or_closing_task_def
         require_runtime_capable_task_def result_simps split: if_splits)
  obtain b where b: "open_task (tk_id task) book_new = Inr b"
    by (simp add: open_task_def book_new_def book_default_def browser_bounds)
  have "tk_lifecycle task = TlOpen \<and> tk_action_epoch task = 0 \<and> tk_revision task = 1"
    using v by (auto simp: validate_for_create_def result_simps)
  then show ?thesis using v b
    by (intro exI[of _ "TaskCreated task connectivity attention activity review"] exI exI[of _ "tk_id task"])
       (auto simp: es apply_event_def apply_task_created_def revision_of_def)
qed

text \<open>The fold \<open>apply_all\<close> cannot create a task: it takes the task id from the snapshot it starts from,
  so from no snapshot the first event is refused as a task mismatch, although the fold
  prepares revision 1 for exactly that case.\<close>

lemma apply_all_cannot_create:
  "apply_all x fresh None (TaskCreated task connectivity attention activity review # es) = Inl AeTaskMismatch"
  by (simp add: apply_all_def is_task_mutation_def apply_event_def apply_task_created_def)

section \<open>Replaying a log of events\<close>

text \<open>Replay keeps the invariant for every log that \<open>apply\<close> accepts, wherever its events come from:
  ownership, validity, bounds of the provider sessions, the strip and the browser book.\<close>

lemma replay_keeps_snapshot_wf:
  assumes "snap_wf (x_sha256 x) s" "try_fold (task_step x) evs s = Inr s'"
  shows "snap_wf (x_sha256 x) s'"
  using task_inv.replay_inv[OF assms] .

text \<open>The revision counts mutations: after a replayed log it has advanced by the number of events
  that are task mutations, and no other event moves it.\<close>

lemma revision_counts_mutations:
  assumes "try_fold (task_step x) evs s = Inr s'"
  shows "revision_of s' = revision_of s + length (filter (\<lambda>ev. is_task_mutation (de_payload ev)) evs)"
proof -
  have "sum_list (map revision_weight evs) = length (filter (\<lambda>ev. is_task_mutation (de_payload ev)) evs)"
    by (induction evs) (simp_all add: revision_weight_def)
  then show ?thesis using task_rev.replay_count[OF assms] by simp
qed

text \<open>C7. A mutation is applied at most once: the revision it carries fences it, so after any further
  log the same event is refused.\<close>

theorem mutation_applies_once:
  assumes "task_step x ev s = Inr s1" "is_task_mutation (de_payload ev)" "try_fold (task_step x) evs s1 = Inr s2"
  shows "\<exists>err. task_step x ev s2 = Inl err"
  using task_rev.no_double_apply[OF assms(1) _ assms(3)] assms(2)
  by (cases "task_step x ev s2") (auto simp: revision_weight_def)

theorem mutation_applies_once_witness:
  "\<exists>s1 err. task_step sc_ext sc_settled sc_start = Inr s1 \<and> task_step sc_ext sc_settled s1 = Inl err"
  using mutation_applies_once[OF sc_step_settled, of "[]"] sc_step_settled
  by (simp add: sc_settled_def is_task_mutation_def)

text \<open>C4. Nothing durable is taken back by a log: the task keeps its identity, workspace and assignment, its
  lifecycle moves only along its transitions, its epoch never falls, artifacts stay as they were recorded, a resource never leaves the order
  active, releasing, released, a closed agent stays closed, the first answer to a question or
  an approval stays the answer, and the browser journal only grows at its end.\<close>

theorem log_is_append_only:
  assumes "try_fold (task_step x) evs s = Inr s'"
  shows "tk_id (sn_task s') = tk_id (sn_task s) \<and> tk_workspace (sn_task s') = tk_workspace (sn_task s)
    \<and> tk_assignment (sn_task s') = tk_assignment (sn_task s)
    \<and> lifecycle_step\<^sup>*\<^sup>* (tk_lifecycle (sn_task s)) (tk_lifecycle (sn_task s'))
    \<and> tk_action_epoch (sn_task s) \<le> tk_action_epoch (sn_task s')
    \<and> (\<forall>i a. bget (sn_artifacts s) i = Some a \<longrightarrow> bget (sn_artifacts s') i = Some a)
    \<and> (\<forall>i r. bget (sn_resources s) i = Some r \<longrightarrow> (\<exists>r'. bget (sn_resources s') i = Some r'
         \<and> resource_rank (rs_lifecycle r) \<le> resource_rank (rs_lifecycle r')))
    \<and> (\<forall>i a. bget (sn_agents s) i = Some a \<and> ag_lifecycle a = AgClosed \<longrightarrow>
         (\<exists>a'. bget (sn_agents s') i = Some a' \<and> ag_lifecycle a' = AgClosed))
    \<and> (\<forall>i p. bget (sn_provider_sessions s) i = Some p \<longrightarrow>
         (\<exists>p'. bget (sn_provider_sessions s') i = Some p' \<and> winners_kept p p'))
    \<and> (\<exists>fs. bb_facts (sn_browser s') = bb_facts (sn_browser s) @ fs)"
proof -
  have "snapshot_ahead s s'" using task_ahead.replay_ahead[OF assms] .
  then have t: "task_ahead s s'" and a: "agents_ahead s s'" and art: "artifacts_ahead s s'"
    and r: "resources_ahead s s'" and p: "sessions_ahead s s'" and j: "journal_ahead s s'"
    by (simp_all add: snapshot_ahead_def)
  show ?thesis
    using t art p j by (intro conjI)
      (use a r in \<open>fastforce simp: task_ahead_def artifacts_ahead_def sessions_ahead_def journal_ahead_def
         agents_ahead_def resources_ahead_def\<close>)+
qed

theorem log_is_append_only_witness:
  "\<exists>s'. try_fold (task_step sc_ext) [sc_settled] sc_start = Inr s' \<and> tk_id (sn_task s') = Id 1"
  using log_is_append_only[of sc_ext "[sc_settled]" sc_start] sc_step_settled
  by (simp add: sc_start_def sc_task_def)

text \<open>C30. Deletion is final: a deleted task accepts no command at all, and no log of events that \<open>apply\<close>
  accepts brings it back.\<close>

theorem deleted_task_is_final:
  assumes "tk_lifecycle (sn_task s) = TlDeleted"
  shows "(\<exists>code. decide x op (Some s) e = Inl code)
    \<and> (case try_fold (task_step x) evs s of Inl _ \<Rightarrow> True | Inr s' \<Rightarrow> tk_lifecycle (sn_task s') = TlDeleted)"
proof
  have "\<not> (\<exists>es. decide x op (Some s) e = Inr es)"
    using assms
    by (cases "ce_command e")
       (auto simp: decide_def Let_def with_task_Inr in_archive_def is_live_def decide_create_task_def
         decide_settle_task_def decide_begin_close_def decide_reopen_task_def decide_delete_task_def)
  then show "\<exists>code. decide x op (Some s) e = Inl code" by (cases "decide x op (Some s) e") auto
  have stay: "l = TlDeleted" if "lifecycle_step\<^sup>*\<^sup>* TlDeleted l" for l
    using that by (induction rule: rtranclp_induct) simp_all
  show "case try_fold (task_step x) evs s of Inl _ \<Rightarrow> True | Inr s' \<Rightarrow> tk_lifecycle (sn_task s') = TlDeleted"
    using task_ahead.replay_ahead[of x evs s] assms stay
    by (auto simp: snapshot_ahead_def task_ahead_def split: sum.split)
qed

theorem deleted_task_is_final_witness:
  "\<exists>code. decide sc_ext nil_id (Some (sc_start \<lparr> sn_task := sc_task \<lparr> tk_lifecycle := TlDeleted \<rparr> \<rparr>))
     (sc_envelope (Some sc_start) ReopenTask) = Inl code"
  using deleted_task_is_final[of "sc_start \<lparr> sn_task := sc_task \<lparr> tk_lifecycle := TlDeleted \<rparr> \<rparr>"
      sc_ext nil_id "sc_envelope (Some sc_start) ReopenTask" "[]"] by simp
text \<open>C3. The gap is exact: for a command that decides at least one event, \<open>apply_all\<close> refuses the events of every command
  of \<open>decide_gap\<close> and, as long as the task's 64-bit revision has room for them, the events of no other.
  The commands of the gap are a plain shell registered on a full strip, an answer recorded in a full
  table of winners, a wait settled after the agent changed its provider session, a close whose
  facts overflow the browser journal, a browser request replayed on a full journal or for a
  context of another generation, and the close of a context closed in another generation.\<close>

theorem gap_commands_never_apply:
  fixes e :: "'h command_envelope" and log :: "'h command_envelope list"
  assumes "task_reachable x log s" "decide x op (Some s) e = Inr es" "es \<noteq> []"
  shows "(decide_gap (ce_command e) s \<longrightarrow> (\<exists>err. apply_all x fresh (Some s) es = Inl err)) \<and>
    (revision_of s + length es < 2 ^ 64 \<longrightarrow>
       ((\<exists>err. apply_all x fresh (Some s) es = Inl err) \<longleftrightarrow> decide_gap (ce_command e) s))"
proof -
  have refused: "\<exists>err. apply_all x fresh (Some s) es = Inl err" if "decide_gap (ce_command e) s"
    using first_fails_apply_all[OF decide_gap_fails] reachable_wf assms that by blast
  have applied: "\<exists>s'. apply_all x fresh (Some s) es = Inr s'"
    if "\<not> decide_gap (ce_command e) s" "revision_of s + length es < 2 ^ 64"
    using decide_applies[OF assms(1,2) that] by blast
  show ?thesis
  proof (cases "decide_gap (ce_command e) s")
    case True
    then show ?thesis using refused by blast
  next
    case False
    then show ?thesis using applied by auto
  qed
qed

theorem gap_commands_never_apply_witness:
  "\<exists>f err. decide sc_ext nil_id (Some sc_closed) (sc_envelope (Some sc_closed) (CBrowser sc_reclose)) = Inr [f]
     \<and> apply_all sc_ext (\<lambda>_. nil_id) (Some sc_closed) [f] = Inl err"
proof -
  obtain f where f: "decide sc_ext nil_id (Some sc_closed) (sc_envelope (Some sc_closed) (CBrowser sc_reclose)) = Inr [f]"
    using sc_reclose_decided by blast
  have gap: "decide_gap (ce_command (sc_envelope (Some sc_closed) (CBrowser sc_reclose))) sc_closed"
    by (simp add: decide_gap_def browser_gap_def stale_reclose_def sc_reclose_def sc_closed_def snap_upd sc_start_def
        sc_book2_def sc_book1_def book_new_def book_default_def fresh_context_def sc_envelope_def)
  show ?thesis
    using mp[OF conjunct1[OF gap_commands_never_apply[OF sc_closed_reachable f list.distinct(2), where fresh = "\<lambda>_. nil_id"]] gap] f
    by blast
qed

section \<open>Fences over time\<close>

text \<open>C8. Closing a task fences off everything issued before: once a close has begun, no provider input
  issued for an epoch up to the old one is ever accepted again, whatever happens afterwards,
  a reopening included.\<close>

theorem close_fences_older_inputs:
  assumes "task_step x ev s = Inr s1" "de_payload ev = TaskCloseBegun n" "try_fold (task_step x) evs s1 = Inr s2"
    and "si_action_epoch i \<le> tk_action_epoch (sn_task s)"
  shows "\<exists>code. decide_submit_provider_input op c cl i s2 = Inl code"
proof -
  have "tk_action_epoch (sn_task s) < tk_action_epoch (sn_task s1)"
    using assms(1,2)
    by (auto simp: task_step_mutation is_task_mutation_def mutate_def apply_into_def apply_close_begun_def Let_def
        result_simps snap_upd word_less_nat_alt dest!: checked_add_SomeD split: if_splits prod.splits sum.splits)
  also have "tk_action_epoch (sn_task s1) \<le> tk_action_epoch (sn_task s2)"
    using task_ahead.replay_ahead[OF assms(3)] by (simp add: snapshot_ahead_def task_ahead_def)
  finally have "tk_action_epoch (sn_task s2) \<noteq> si_action_epoch i" using assms(4) by auto
  then show ?thesis
    by (cases "decide_submit_provider_input op c cl i s2")
       (auto simp: decide_submit_provider_input_def Let_def result_simps split: if_splits)
qed

theorem close_fences_older_inputs_witness:
  "\<exists>s1 code. task_step sc_ext sc_close sc_start = Inr s1 \<and> decide_submit_provider_input nil_id nil_id nil_id
     \<lparr> si_agent_session_id = Id 4, si_runtime_generation = 1, si_turn_id = Id 5, si_action_epoch = 0,
       si_question_id = None, si_approval_id = None, si_action = StopTurn \<rparr> s1 = Inl code"
  using sc_close_applies close_fences_older_inputs[of sc_ext sc_close sc_start _ 1 "[]"]
  by (fastforce simp: sc_close_def sc_start_def sc_task_def)
section \<open>Answers\<close>

text \<open>C5. The first answer wins: once an answer to a question, or a decision on an approval, has been
  applied, no later one for the same question or approval of that agent is accepted, after
  any further log.\<close>

theorem first_answer_wins:
  assumes "task_step x ev s = Inr s1" "de_payload ev = ProviderInputAccepted e"
    and "try_fold (task_step x) evs s1 = Inr s2"
    and "si_agent_session_id i = pia_agent_session_id e" "same_resolution (pia_action e) (si_action i)"
  shows "\<exists>code. decide_submit_provider_input op c cl i s2 = Inl code"
proof -
  obtain p where p: "bget (sn_provider_sessions s1) (pia_agent_session_id e) = Some p" "resolved (si_action i) p"
    using input_accepted_resolved[OF assms(1,2,5)] by blast
  obtain p' where p': "bget (sn_provider_sessions s2) (pia_agent_session_id e) = Some p'" "winners_kept p p'"
    using task_ahead.replay_ahead[OF assms(3)] p(1) by (auto simp: snapshot_ahead_def sessions_ahead_def)
  then have "session_or_default (si_agent_session_id i) s2 = p'" "resolved (si_action i) p'"
    using assms(4) resolved_stays[OF p'(2) p(2)] by (simp_all add: session_or_default_def)
  then show ?thesis
    by (cases "decide_submit_provider_input op c cl i s2")
       (auto simp: decide_submit_provider_input_def check_input_turn_resolved Let_def result_simps split: if_splits)
qed

theorem first_answer_wins_witness:
  "\<exists>s1 code. task_step sc_ext sc_answered sc_asked = Inr s1 \<and> decide_submit_provider_input nil_id nil_id nil_id
     \<lparr> si_agent_session_id = Id 4, si_runtime_generation = 1, si_turn_id = Id 5, si_action_epoch = 0,
       si_question_id = Some (Id 6), si_approval_id = None, si_action = AnswerQuestion (Id 6) [110] \<rparr> s1 = Inl code"
  using sc_answer_applies first_answer_wins[of sc_ext sc_answered sc_asked _ sc_answer "[]"]
  by (fastforce simp: sc_answered_def sc_answer_def same_resolution_def)

section \<open>Closing\<close>

text \<open>C29. A closing or archived task starts nothing: no command accepted on it registers an agent, a
  specialist or a resource, binds a provider, sends a provider input, presents a question or
  an approval, or reaches the browser.\<close>

theorem closing_task_starts_nothing:
  assumes "decide x op (Some s) e = Inr es" "\<not> is_live (tk_lifecycle (sn_task s))"
  shows "list_all (\<lambda>e. \<not> starts_work e) es"
  using assms
  by (cases "ce_command e")
     (auto simp: decide_def Let_def with_task_Inr starts_work_def decide_create_task_def
       dest!: unguarded_arm_events lifecycle_arm_events)

theorem closing_task_starts_nothing_witness:
  "let s = sc_start \<lparr> sn_task := sc_task \<lparr> tk_lifecycle := TlClosing \<rparr> \<rparr>
   in \<exists>es. decide sc_ext nil_id (Some s) (sc_envelope (Some s) ReopenTask) = Inr es \<and> es \<noteq> []
        \<and> list_all (\<lambda>e. \<not> starts_work e) es"
proof -
  let ?s = "sc_start \<lparr> sn_task := sc_task \<lparr> tk_lifecycle := TlClosing \<rparr> \<rparr>"
  have d: "decide sc_ext nil_id (Some ?s) (sc_envelope (Some ?s) ReopenTask) = Inr [TaskReopened]"
    by (simp add: decide_def sc_envelope_def with_task_Inr decide_reopen_task_def)
  then show ?thesis
    using closing_task_starts_nothing[OF d] unfolding Let_def by (intro exI[of _ "[TaskReopened]"]) (simp add: is_live_def)
qed

text \<open>What the host observes of a terminal is recorded once: after the event of an observation has
  been applied, the same observation at the same time decides nothing more.\<close>

lemma host_fact_recorded_once:
  assumes "bget (sn_terminal_facts s) (tf_resource_id tf) = Some tf" "decide_host_fact tf f at = Some e"
    and "apply_into x at e s = Inr s'"
  shows "case bget (sn_terminal_facts s') (tf_resource_id tf) of
     None \<Rightarrow> False | Some tf' \<Rightarrow> decide_host_fact tf' f at = None"
  using assms
  by (cases f)
     (auto simp: decide_host_fact_def apply_into_def apply_cwd_reported_def apply_terminal_exited_def
       apply_terminal_activity_def upd_terminal_def saturating_sub_i64_def TERMINAL_ACTIVITY_COALESCE_MS_def
       i64_min_def i64_max_def split: if_splits option.splits)


text \<open>A purged event is not replayable: it carries no task, and \<open>apply\<close> refuses it on every snapshot.\<close>

lemma purged_event_is_refused:
  assumes "de_payload ev = Purged" "de_task_id ev = None"
  shows "apply_event x snapshot ev = Inl (case snapshot of None \<Rightarrow> AeMissingSnapshot | Some _ \<Rightarrow> AeTaskMismatch)"
  using assms by (cases snapshot) (simp_all add: apply_event_def require_matching_task_id_def)

end
